(* ===== verification/Prelude.thy ===== *)
theory Prelude
  imports Main "HOL-Library.AList" "HOL-Library.Word" "HOL-Library.Char_ord"
    "HOL-Library.List_Lexorder" "HOL-Library.Sublist" "HOL-Library.Multiset"
begin

text \<open>
  What every component of the development shares: the error values of the Go packages, the
  sequencing of fallible calls (\<open>ebind\<close>, \<open>efold\<close>, \<open>echeck\<close>), Go's maps as association lists
  behind the interface \<open>go_map\<close>, Go's sorting as an interface \<open>go_ordering\<close> with its canonical
  form lemma, and the collections \<open>err_simps\<close> and \<open>map_simps\<close> the component proofs use.
\<close>

named_theorems err_simps \<open>sequencing of fallible calls\<close>
named_theorems map_simps \<open>reading association lists as maps\<close>

section \<open>Machine types and errors\<close>

type_synonym int64 = "64 word"
type_synonym time = int
type_synonym rune = nat

text \<open>
  The sentinel errors of \<open>types.go\<close>. Go wraps them with \<open>%w\<close>; every test in the code is
  \<open>errors.Is\<close>, so an error is its classification. \<open>ErrContext\<close> is a non-nil \<open>ctx.Err()\<close>,
  \<open>ErrHost\<close> any error of a host-provided adapter, \<open>GoPanic\<close> a run-time panic. \<open>ErrNoRows\<close> is the
  driver's \<open>pgx.ErrNoRows\<close>, and the four that follow it are the sentinels of \<open>internal/coreapp\<close>.
\<close>

datatype error =
    ErrInvalidInput
  | ErrForbidden
  | ErrConflict
  | ErrNotFound
  | ErrGrantCycle
  | ErrLastAdministrator
  | ErrAlreadyBootstrapped
  | ErrDependencyUnavailable
  | ErrAuditUnavailable
  | ErrInvalidPolicy
  | ErrContext
  | ErrHost string
  | ErrNoRows
  | ErrInvalidCredentials
  | ErrBootstrapComplete
  | ErrAccountLocked
  | ErrSessionInvalid
  | GoPanic

section \<open>Sequencing\<close>

definition ebind :: "'e + 'a \<Rightarrow> ('a \<Rightarrow> 'e + 'b) \<Rightarrow> 'e + 'b" where
  "ebind r k = (case r of Inl e \<Rightarrow> Inl e | Inr x \<Rightarrow> k x)"

lemma ebind_Inl [simp, err_simps]: "ebind (Inl e) k = Inl e"
  by (simp add: ebind_def)

lemma ebind_Inr [simp, err_simps]: "ebind (Inr x) k = k x"
  by (simp add: ebind_def)

lemma ebind_assoc: "ebind (ebind r f) g = ebind r (\<lambda>x. ebind (f x) g)"
  by (cases r) simp_all

lemma ebind_eq_Inr [err_simps]: "ebind r k = Inr y \<longleftrightarrow> (\<exists>x. r = Inr x \<and> k x = Inr y)"
  by (cases r) auto

lemma ebind_eq_Inl [err_simps]:
  "ebind r k = Inl e \<longleftrightarrow> r = Inl e \<or> (\<exists>x. r = Inr x \<and> k x = Inl e)"
  by (cases r) auto

text \<open>\<open>if !ok { return err }\<close>.\<close>

definition guard :: "bool \<Rightarrow> 'e \<Rightarrow> 'e + unit" where
  "guard b e = (if b then Inr () else Inl e)"

lemma guard_simps [simp, err_simps]: "guard True e = Inr ()" "guard False e = Inl e"
  by (simp_all add: guard_def)

lemma guard_eq [simp, err_simps]:
  "guard b e = Inr u \<longleftrightarrow> b" "guard b e = Inl e' \<longleftrightarrow> \<not> b \<and> e' = e"
  by (auto simp: guard_def)

text \<open>A loop that returns at the first error and otherwise only updates a state.\<close>

fun efold :: "('a \<Rightarrow> 's \<Rightarrow> 'e + 's) \<Rightarrow> 'a list \<Rightarrow> 's \<Rightarrow> 'e + 's" where
  "efold f [] s = Inr s"
| "efold f (x # xs) s = ebind (f x s) (efold f xs)"

fun echeck :: "('a \<Rightarrow> 'e + unit) \<Rightarrow> 'a list \<Rightarrow> 'e + unit" where
  "echeck f [] = Inr ()"
| "echeck f (x # xs) = ebind (f x) (\<lambda>_. echeck f xs)"

lemma echeck_Inr [err_simps]: "echeck f xs = Inr u \<longleftrightarrow> (\<forall>x \<in> set xs. f x = Inr ())"
  by (induction xs) (auto simp: err_simps)

lemma echeck_Inl:
  assumes "echeck f xs = Inl e"
  shows "\<exists>x \<in> set xs. f x = Inl e"
  using assms by (induction xs) (auto simp: err_simps)

lemma echeck_cases:
  assumes "\<And>x e'. x \<in> set xs \<Longrightarrow> f x = Inl e' \<Longrightarrow> e' = e"
  shows "echeck f xs = (if \<forall>x \<in> set xs. f x = Inr () then Inr () else Inl e)"
proof (cases "echeck f xs")
  case (Inl a)
  from echeck_Inl [OF Inl] obtain x where x: "x \<in> set xs" "f x = Inl a" by blast
  with assms have "a = e" by blast
  moreover from x have "\<not> (\<forall>x \<in> set xs. f x = Inr ())" by force
  ultimately show ?thesis using Inl by simp
next
  case (Inr b)
  then have "\<forall>x \<in> set xs. f x = Inr ()" by (simp add: echeck_Inr)
  with Inr show ?thesis by simp
qed

lemma efold_invariant:
  assumes "efold f xs s = Inr t" and "P s"
    and "\<And>x s t. x \<in> set xs \<Longrightarrow> P s \<Longrightarrow> f x s = Inr t \<Longrightarrow> P t"
  shows "P t"
  using assms by (induction xs arbitrary: s) (auto simp: err_simps)

section \<open>Go maps\<close>

text \<open>
  A Go map is an association list with distinct keys. Iterating over it follows the list;
  Go leaves that order unspecified, and the properties about iteration are stated for sets of
  entries, so they hold for every order.
\<close>

type_synonym ('k, 'v) gomap = "('k \<times> 'v) list"

definition map_get :: "('k, 'v) gomap \<Rightarrow> 'k \<Rightarrow> 'v option" where
  "map_get m k = map_of m k"

definition map_put :: "'k \<Rightarrow> 'v \<Rightarrow> ('k, 'v) gomap \<Rightarrow> ('k, 'v) gomap" where
  "map_put k v m = AList.update k v m"

definition map_del :: "'k \<Rightarrow> ('k, 'v) gomap \<Rightarrow> ('k, 'v) gomap" where
  "map_del k m = AList.delete k m"

definition map_ok :: "('k, 'v) gomap \<Rightarrow> bool" where
  "map_ok m = distinct (map fst m)"

text \<open>The interface the components use, with the laws a Go map promises.\<close>

locale go_map =
  fixes empty :: 'm
    and get :: "'m \<Rightarrow> 'k \<Rightarrow> 'v option"
    and put :: "'k \<Rightarrow> 'v \<Rightarrow> 'm \<Rightarrow> 'm"
    and del :: "'k \<Rightarrow> 'm \<Rightarrow> 'm"
    and entries :: "'m \<Rightarrow> ('k \<times> 'v) list"
    and ok :: "'m \<Rightarrow> bool"
  assumes get_empty: "get empty = Map.empty"
    and get_put: "get (put k v m) = (get m)(k \<mapsto> v)"
    and get_del: "get (del k m) = (get m)(k := None)"
    and set_entries: "ok m \<Longrightarrow> set (entries m) = {(k, v). get m k = Some v}"
    and distinct_entries: "ok m \<Longrightarrow> distinct (map fst (entries m))"
    and ok_empty: "ok empty"
    and ok_put: "ok m \<Longrightarrow> ok (put k v m)"
    and ok_del: "ok m \<Longrightarrow> ok (del k m)"
begin

lemma get_put_same: "get (put k v m) k = Some v"
  by (simp add: get_put)

lemma get_put_other: "k' \<noteq> k \<Longrightarrow> get (put k v m) k' = get m k'"
  by (simp add: get_put)

lemma del_put: "get m k = None \<Longrightarrow> get (del k (put k v m)) = get m"
  by (auto simp: get_put get_del fun_eq_iff)

lemma values_entries: "ok m \<Longrightarrow> snd ` set (entries m) = ran (get m)"
  by (force simp: set_entries ran_def)

lemma keys_entries: "ok m \<Longrightarrow> fst ` set (entries m) = dom (get m)"
  by (force simp: set_entries dom_def)

lemma no_entries: "ok m \<Longrightarrow> entries m = [] \<longleftrightarrow> get m = Map.empty"
  by (metis (no_types, lifting) dom_eq_empty_conv image_is_empty keys_entries set_empty)

end

interpretation alist_map: go_map "[]" map_get map_put map_del "\<lambda>m. m" map_ok
proof (unfold_locales, goal_cases)
  case 1 show ?case by (simp add: map_get_def fun_eq_iff)
next
  case 2 show ?case by (simp add: map_get_def map_put_def AList.update_conv' fun_eq_iff)
next
  case 3 show ?case by (simp add: map_get_def map_del_def AList.delete_conv' fun_eq_iff)
next
  case 4 then show ?case by (auto simp: map_get_def map_ok_def)
next
  case 5 then show ?case by (simp add: map_ok_def)
next
  case 6 show ?case by (simp add: map_ok_def)
next
  case 7 then show ?case by (simp add: map_ok_def map_put_def AList.distinct_update)
next
  case 8 then show ?case by (simp add: map_ok_def map_del_def AList.distinct_delete)
qed

lemma map_get_entry: "map_ok m \<Longrightarrow> (k, v) \<in> set m \<longleftrightarrow> map_get m k = Some v"
  by (auto simp: map_get_def map_ok_def)

lemmas go_map_laws [map_simps] =
  alist_map.get_empty alist_map.get_put alist_map.get_del
  alist_map.ok_empty alist_map.ok_put alist_map.ok_del

declare alist_map.get_empty [simp] alist_map.ok_empty [simp]
  alist_map.ok_put [simp] alist_map.ok_del [simp] alist_map.get_put [simp] alist_map.get_del [simp]

section \<open>Sorting\<close>

text \<open>
  \<open>sort.Slice\<close> and \<open>slices.SortFunc\<close> with a \<open>less\<close> on elements: insertion sort. Go does not
  promise the order of elements neither of which is less than the other; \<open>go_ordering\<close> is the
  contract under which every sorting routine gives the same list.
\<close>

fun insort_by :: "('a \<Rightarrow> 'a \<Rightarrow> bool) \<Rightarrow> 'a \<Rightarrow> 'a list \<Rightarrow> 'a list" where
  "insort_by lt x [] = [x]"
| "insort_by lt x (y # ys) = (if lt y x then y # insort_by lt x ys else x # y # ys)"

definition sort_by :: "('a \<Rightarrow> 'a \<Rightarrow> bool) \<Rightarrow> 'a list \<Rightarrow> 'a list" where
  "sort_by lt xs = foldr (insort_by lt) xs []"

lemma set_insort_by [simp]: "set (insort_by lt x ys) = insert x (set ys)"
  by (induction ys) auto

lemma set_sort_by [simp]: "set (sort_by lt xs) = set xs"
  by (induction xs) (auto simp: sort_by_def)

lemma length_insort_by [simp]: "length (insort_by lt x ys) = Suc (length ys)"
  by (induction ys) auto

lemma length_sort_by [simp]: "length (sort_by lt xs) = length xs"
  by (induction xs) (auto simp: sort_by_def)

lemma distinct_insort_by: "distinct (insort_by lt x ys) \<longleftrightarrow> x \<notin> set ys \<and> distinct ys"
  by (induction ys) auto

lemma distinct_sort_by [simp]: "distinct (sort_by lt xs) \<longleftrightarrow> distinct xs"
proof (induction xs)
  case Nil
  show ?case by (simp add: sort_by_def)
next
  case (Cons x xs)
  have "sort_by lt (x # xs) = insort_by lt x (sort_by lt xs)"
    by (simp add: sort_by_def)
  with Cons show ?case by (simp add: distinct_insort_by)
qed

lemma sort_by_Nil [simp]: "sort_by lt [] = []"
  by (simp add: sort_by_def)

locale go_ordering =
  fixes lt :: "'a \<Rightarrow> 'a \<Rightarrow> bool" and dom_ok :: "'a \<Rightarrow> bool"
  assumes less_irrefl: "\<not> lt x x"
    and less_trans: "lt x y \<Longrightarrow> lt y z \<Longrightarrow> lt x z"
    and less_total: "dom_ok x \<Longrightarrow> dom_ok y \<Longrightarrow> x \<noteq> y \<Longrightarrow> lt x y \<or> lt y x"
begin

lemma less_asym: "lt x y \<Longrightarrow> \<not> lt y x"
  using less_irrefl less_trans by blast

lemma insort_by_sorted:
  assumes "sorted_wrt lt ys" and "x \<notin> set ys" and "dom_ok x" and "\<forall>y \<in> set ys. dom_ok y"
  shows "sorted_wrt lt (insort_by lt x ys)"
  using assms
proof (induction ys)
  case Nil
  then show ?case by simp
next
  case (Cons y ys)
  show ?case
  proof (cases "lt y x")
    case True
    with Cons show ?thesis by auto
  next
    case False
    with Cons.prems less_total [of x y] have "lt x y" by auto
    with Cons.prems False show ?thesis by (auto intro: less_trans)
  qed
qed

lemma sort_by_sorted:
  assumes "distinct xs" and "\<forall>x \<in> set xs. dom_ok x"
  shows "sorted_wrt lt (sort_by lt xs)"
  using assms
proof (induction xs)
  case Nil
  then show ?case by simp
next
  case (Cons x xs)
  have "sort_by lt (x # xs) = insort_by lt x (sort_by lt xs)"
    by (simp add: sort_by_def)
  with Cons show ?case by (simp add: insort_by_sorted)
qed

lemma sorted_unique:
  assumes "sorted_wrt lt xs" and "sorted_wrt lt ys" and "set xs = set ys"
  shows "xs = ys"
  using assms
proof (induction xs arbitrary: ys)
  case Nil
  then show ?case by simp
next
  case (Cons x xs)
  then obtain y ys' where ys: "ys = y # ys'" by (cases ys) auto
  have "x = y"
  proof (rule ccontr)
    assume "x \<noteq> y"
    from Cons.prems ys have "x \<in> set (y # ys')" and "y \<in> set (x # xs)" by auto
    with \<open>x \<noteq> y\<close> Cons.prems ys have "lt x y" and "lt y x" by auto
    then show False using less_asym by blast
  qed
  moreover have "x \<notin> set xs" and "y \<notin> set ys'"
    using Cons.prems ys less_irrefl by auto
  ultimately have "set xs = set ys'" using Cons.prems ys by auto
  with Cons ys \<open>x = y\<close> show ?case by auto
qed

lemma sort_by_canonical:
  assumes "distinct xs" and "distinct ys" and "set xs = set ys" and "\<forall>x \<in> set xs. dom_ok x"
  shows "sort_by lt xs = sort_by lt ys"
  using assms by (intro sorted_unique sort_by_sorted) auto

lemma sort_by_any:
  assumes "sorted_wrt lt ys" and "distinct xs" and "set xs = set ys" and "\<forall>x \<in> set xs. dom_ok x"
  shows "sort_by lt xs = ys"
  using assms by (intro sorted_unique sort_by_sorted) auto

end

text \<open>Byte-wise string comparison is such an order.\<close>

interpretation string_ordering: go_ordering "(<) :: string \<Rightarrow> string \<Rightarrow> bool" "\<lambda>_. True"
  by unfold_locales auto

section \<open>Loops over loops\<close>

lemma efold_append: "efold f (xs @ ys) s = ebind (efold f xs s) (efold f ys)"
  by (induction xs arbitrary: s) (auto simp: ebind_def split: sum.splits)

lemma efold_flatten:
  assumes "\<And>x s. f x s = efold h (k x) s"
  shows "efold f xs s = efold h (concat (map k xs)) s"
  by (induction xs arbitrary: s) (auto simp: assms efold_append ebind_def split: sum.splits)

end
