(* ===== verification/GoStrings.thy ===== *)
theory GoStrings
  imports Prelude
begin

text \<open>
  The parts of Go's \<open>strings\<close>, \<open>unicode/utf8\<close> and \<open>fmt\<close> packages the program calls. A Go string
  is a sequence of bytes, and Isabelle's \<open>string\<close> is exactly that: a \<open>char\<close> is one byte, \<open>length\<close>
  is Go's \<open>len\<close>, and \<open><\<close> (lexicographic on byte values) is Go's string comparison.
\<close>

abbreviation byte :: "char \<Rightarrow> nat" where
  "byte c \<equiv> of_char c"

section \<open>UTF-8\<close>

definition rune_error :: rune where
  "rune_error = 0xFFFD"

definition in_range :: "nat \<Rightarrow> nat \<Rightarrow> char \<Rightarrow> bool" where
  "in_range lo hi c = (lo \<le> byte c \<and> byte c \<le> hi)"

text \<open>\<open>utf8.DecodeRuneInString\<close>: the rune and its width; \<open>(RuneError, 1)\<close> for a bad encoding.\<close>

fun decode_rune :: "string \<Rightarrow> rune \<times> nat" where
  "decode_rune [] = (rune_error, 0)"
| "decode_rune (c # cs) =
     (let b = byte c in
      if b < 0x80 then (b, 1)
      else if 0xC2 \<le> b \<and> b \<le> 0xDF then
        (case cs of
           c1 # _ \<Rightarrow>
             if in_range 0x80 0xBF c1
             then ((b - 0xC0) * 64 + (byte c1 - 0x80), 2) else (rune_error, 1)
         | _ \<Rightarrow> (rune_error, 1))
      else if 0xE0 \<le> b \<and> b \<le> 0xEF then
        (case cs of
           c1 # c2 # _ \<Rightarrow>
             if in_range (if b = 0xE0 then 0xA0 else 0x80) (if b = 0xED then 0x9F else 0xBF) c1
                \<and> in_range 0x80 0xBF c2
             then ((b - 0xE0) * 4096 + (byte c1 - 0x80) * 64 + (byte c2 - 0x80), 3)
             else (rune_error, 1)
         | _ \<Rightarrow> (rune_error, 1))
      else if 0xF0 \<le> b \<and> b \<le> 0xF4 then
        (case cs of
           c1 # c2 # c3 # _ \<Rightarrow>
             if in_range (if b = 0xF0 then 0x90 else 0x80) (if b = 0xF4 then 0x8F else 0xBF) c1
                \<and> in_range 0x80 0xBF c2 \<and> in_range 0x80 0xBF c3
             then ((b - 0xF0) * 262144 + (byte c1 - 0x80) * 4096
                     + (byte c2 - 0x80) * 64 + (byte c3 - 0x80), 4)
             else (rune_error, 1)
         | _ \<Rightarrow> (rune_error, 1))
      else (rune_error, 1))"

lemma decode_rune_width:
  "s \<noteq> [] \<Longrightarrow> 1 \<le> snd (decode_rune s) \<and> snd (decode_rune s) \<le> length s"
  by (cases s) (auto simp: Let_def split: list.splits)

lemma decode_rune_progress: "s \<noteq> [] \<Longrightarrow> length s - snd (decode_rune s) < length s"
  using decode_rune_width [of s] by (cases s) (auto simp del: decode_rune.simps)

text \<open>\<open>for _, r := range s\<close>.\<close>

function runes :: "string \<Rightarrow> rune list" where
  "runes s = (if s = [] then []
              else fst (decode_rune s) # runes (drop (snd (decode_rune s)) s))"
  by pat_completeness auto
termination
  by (relation "measure length") (use decode_rune_progress in auto)

text \<open>\<open>utf8.ValidString\<close>.\<close>

function valid_string :: "string \<Rightarrow> bool" where
  "valid_string s =
     (if s = [] then True
      else if decode_rune s = (rune_error, 1) then False
      else valid_string (drop (snd (decode_rune s)) s))"
  by pat_completeness auto
termination
  by (relation "measure length") (use decode_rune_progress in auto)

declare runes.simps [simp del] valid_string.simps [simp del]

definition ascii :: "string \<Rightarrow> bool" where
  "ascii s = (\<forall>c \<in> set s. byte c < 0x80)"

lemma ascii_simps [simp]:
  "ascii []" "ascii (c # cs) \<longleftrightarrow> byte c < 0x80 \<and> ascii cs"
  "ascii (xs @ ys) \<longleftrightarrow> ascii xs \<and> ascii ys"
  by (auto simp: ascii_def)

lemma decode_rune_ascii: "byte c < 0x80 \<Longrightarrow> decode_rune (c # cs) = (byte c, 1)"
  by (simp add: Let_def)

text \<open>Only an ASCII byte decodes to an ASCII rune.\<close>

lemma rune3_bound:
  assumes "224 \<le> b" and "(if b = 224 then 160 else 128) \<le> (d :: nat)"
  shows "128 \<le> (b - 224) * 4096 + (d - 128) * 64 + (e - 128)"
proof (cases "b = 224")
  case True
  with assms show ?thesis by simp
next
  case False
  with assms(1) have "1 * 4096 \<le> (b - 224) * 4096" by (intro mult_le_mono1) simp
  then show ?thesis by linarith
qed

lemma rune4_bound:
  assumes "240 \<le> b" and "(if b = 240 then 144 else 128) \<le> (d :: nat)"
  shows "128 \<le> (b - 240) * 262144 + (d - 128) * 4096 + (e - 128) * 64 + (f - 128)"
proof (cases "b = 240")
  case True
  with assms have "1 * 4096 \<le> (d - 128) * 4096" by (intro mult_le_mono1) simp
  then show ?thesis by linarith
next
  case False
  with assms(1) have "1 * 262144 \<le> (b - 240) * 262144" by (intro mult_le_mono1) simp
  then show ?thesis by linarith
qed

lemma decode_rune_nonascii:
  assumes "\<not> byte c < 0x80"
  shows "128 \<le> fst (decode_rune (c # cs))"
proof -
  have err: "128 \<le> rune_error" by (simp add: rune_error_def)
  consider "byte c < 194" | "194 \<le> byte c" "byte c \<le> 223" | "224 \<le> byte c" "byte c \<le> 239"
    | "240 \<le> byte c" "byte c \<le> 244" | "244 < byte c"
    by linarith
  then show ?thesis
  proof cases
    case 2
    then have "128 \<le> (byte c - 192) * 64" by linarith
    with 2 assms err show ?thesis by (cases cs) (auto simp: Let_def in_range_def)
  next
    case 3
    show ?thesis
    proof (cases cs rule: list.exhaust [case_product list.exhaust [of "tl cs"]])
      case (Cons_Cons x xs y ys)
      then have cs: "cs = x # y # ys" by simp
      show ?thesis
      proof (cases "(if byte c = 224 then 160 else 128) \<le> byte x")
        case True
        with 3 assms err rune3_bound [of "byte c" "byte x" "byte y"] show ?thesis
          unfolding cs by (simp add: Let_def in_range_def del: Nat.add_diff_assoc Nat.add_diff_assoc2)
      next
        case False
        with 3 assms err show ?thesis unfolding cs by (simp add: Let_def in_range_def del: Nat.add_diff_assoc Nat.add_diff_assoc2)
      qed
    qed (use 3 assms err in \<open>simp_all add: Let_def\<close>)
  next
    case 4
    show ?thesis
    proof (cases "\<exists>x y z zs. cs = x # y # z # zs")
      case True
      then obtain x y z zs where cs: "cs = x # y # z # zs" by blast
      show ?thesis
      proof (cases "(if byte c = 240 then 144 else 128) \<le> byte x")
        case True
        with 4 assms err rune4_bound [of "byte c" "byte x" "byte y" "byte z"] show ?thesis
          unfolding cs by (simp add: Let_def in_range_def del: Nat.add_diff_assoc Nat.add_diff_assoc2)
      next
        case False
        with 4 assms err show ?thesis unfolding cs by (simp add: Let_def in_range_def del: Nat.add_diff_assoc Nat.add_diff_assoc2)
      qed
    next
      case False
      with 4 assms err show ?thesis by (auto simp: Let_def split: list.splits)
    qed
  qed (use assms err in \<open>simp_all add: Let_def\<close>)
qed

lemma runes_Nil [simp]: "runes [] = []"
  by (subst runes.simps) simp

lemma runes_ascii_Cons: "byte c < 0x80 \<Longrightarrow> runes (c # cs) = byte c # runes cs"
  by (subst runes.simps) (simp add: decode_rune_ascii del: decode_rune.simps)

lemma runes_ascii: "ascii s \<Longrightarrow> runes s = map byte s"
  by (induction s) (auto simp: runes_ascii_Cons)

lemma valid_string_Nil [simp]: "valid_string []"
  by (subst valid_string.simps) simp

lemma valid_string_ascii: "ascii s \<Longrightarrow> valid_string s"
proof (induction s)
  case (Cons c cs)
  then show ?case
    by (subst valid_string.simps) (simp add: decode_rune_ascii rune_error_def del: decode_rune.simps)
qed simp

lemma runes_length: "length (runes s) \<le> length s"
proof (induction s rule: runes.induct)
  case (1 s)
  show ?case
  proof (cases "s = []")
    case False
    with 1 have "length (runes (drop (snd (decode_rune s)) s)) \<le> length s - snd (decode_rune s)"
      by simp
    with False decode_rune_width [of s] show ?thesis
      by (subst runes.simps) auto
  qed simp
qed

section \<open>Trimming\<close>

text \<open>\<open>unicode.IsSpace\<close>.\<close>

definition is_space :: "rune \<Rightarrow> bool" where
  "is_space r = (r \<in> {9, 10, 11, 12, 13, 32, 0x85, 0xA0, 0x1680, 0x2028, 0x2029, 0x202F, 0x205F, 0x3000}
     \<or> 0x2000 \<le> r \<and> r \<le> 0x200A)"

text \<open>\<open>utf8.DecodeLastRuneInString\<close>: the last byte that can start a rune, at most four back.\<close>

definition rune_start :: "char \<Rightarrow> bool" where
  "rune_start c = (\<not> in_range 0x80 0xBF c)"

fun last_rune_at :: "string \<Rightarrow> nat list \<Rightarrow> rune \<times> nat" where
  "last_rune_at s [] = (rune_error, 1)"
| "last_rune_at s (k # ks) =
     (if k \<le> length s \<and> rune_start (s ! (length s - k))
      then (let (r, n) = decode_rune (drop (length s - k) s)
            in if n = k then (r, n) else (rune_error, 1))
      else last_rune_at s ks)"

definition decode_last_rune :: "string \<Rightarrow> rune \<times> nat" where
  "decode_last_rune s =
     (if s = [] then (rune_error, 0)
      else if byte (last s) < 0x80 then (byte (last s), 1)
      else last_rune_at s [2, 3, 4])"

lemma last_rune_at_width:
  "s \<noteq> [] \<Longrightarrow> 0 \<notin> set ks \<Longrightarrow> 1 \<le> snd (last_rune_at s ks) \<and> snd (last_rune_at s ks) \<le> length s"
  by (induction s ks rule: last_rune_at.induct) (auto simp: Let_def Suc_le_eq split: prod.splits)

lemma decode_last_rune_width:
  "s \<noteq> [] \<Longrightarrow> 1 \<le> snd (decode_last_rune s) \<and> snd (decode_last_rune s) \<le> length s"
  using last_rune_at_width [of s "[2, 3, 4]"]
  by (auto simp: decode_last_rune_def Suc_le_eq simp del: last_rune_at.simps)

function trim_left :: "string \<Rightarrow> string" where
  "trim_left s = (if s \<noteq> [] \<and> is_space (fst (decode_rune s))
                  then trim_left (drop (snd (decode_rune s)) s) else s)"
  by pat_completeness auto
termination
  by (relation "measure length") (use decode_rune_progress in auto)

function trim_right :: "string \<Rightarrow> string" where
  "trim_right s = (if s \<noteq> [] \<and> is_space (fst (decode_last_rune s))
                   then trim_right (take (length s - snd (decode_last_rune s)) s) else s)"
  by pat_completeness auto
termination
proof (relation "measure length", goal_cases)
  case (2 s)
  then show ?case using decode_last_rune_width [of s] by (cases s) auto
qed simp

declare trim_left.simps [simp del] trim_right.simps [simp del]

text \<open>\<open>strings.TrimSpace\<close>.\<close>

definition trim_space :: "string \<Rightarrow> string" where
  "trim_space s = trim_right (trim_left s)"

lemma trim_left_suffix: "suffix (trim_left s) s"
proof (induction s rule: trim_left.induct)
  case (1 s)
  then show ?case
    by (subst trim_left.simps) (auto intro: suffix_order.trans suffix_drop)
qed

lemma trim_right_prefix: "prefix (trim_right s) s"
proof (induction s rule: trim_right.induct)
  case (1 s)
  then show ?case
    by (subst trim_right.simps) (auto intro: prefix_order.trans take_is_prefix)
qed

lemma trim_space_length: "length (trim_space s) \<le> length s"
  using suffix_length_le [OF trim_left_suffix [of s]]
    prefix_length_le [OF trim_right_prefix [of "trim_left s"]]
  by (simp add: trim_space_def)

lemma trim_left_idem: "trim_left (trim_left s) = trim_left s"
proof (induction s rule: trim_left.induct)
  case (1 s)
  show ?case
  proof (cases "s \<noteq> [] \<and> is_space (fst (decode_rune s))")
    case True
    with 1 show ?thesis by (simp add: trim_left.simps [of s])
  next
    case False
    then have "trim_left s = s" by (subst trim_left.simps) auto
    then show ?thesis by simp
  qed
qed

lemma trim_right_idem: "trim_right (trim_right s) = trim_right s"
proof (induction s rule: trim_right.induct)
  case (1 s)
  show ?case
  proof (cases "s \<noteq> [] \<and> is_space (fst (decode_last_rune s))")
    case True
    with 1 show ?thesis by (simp add: trim_right.simps [of s])
  next
    case False
    then have "trim_right s = s" by (subst trim_right.simps) auto
    then show ?thesis by simp
  qed
qed

definition solid :: "string \<Rightarrow> bool" where
  "solid s = (\<forall>c \<in> set s. byte c < 0x80 \<and> \<not> is_space (byte c))"

lemma trim_left_solid: "solid s \<Longrightarrow> trim_left s = s"
  by (subst trim_left.simps, cases s)
    (auto simp: solid_def decode_rune_ascii simp del: decode_rune.simps)

lemma trim_right_solid:
  assumes "solid s"
  shows "trim_right s = s"
proof (cases "s = []")
  case False
  then have "last s \<in> set s" by simp
  with assms have "byte (last s) < 0x80" "\<not> is_space (byte (last s))"
    by (auto simp: solid_def)
  with False show ?thesis by (simp add: trim_right.simps [of s] decode_last_rune_def)
qed (simp add: trim_right.simps)

lemma trim_space_solid: "solid s \<Longrightarrow> trim_space s = s"
  by (simp add: trim_space_def trim_left_solid trim_right_solid)

lemma trim_space_Nil [simp]: "trim_space [] = []"
  by (rule trim_space_solid) (simp add: solid_def)

lemma solid_Nil [simp]: "solid []"
  by (simp add: solid_def)

lemma solid_Cons [simp]: "solid (c # s) \<longleftrightarrow> byte c < 0x80 \<and> \<not> is_space (byte c) \<and> solid s"
  by (auto simp: solid_def)

lemma solid_append [simp]: "solid (xs @ ys) \<longleftrightarrow> solid xs \<and> solid ys"
  by (auto simp: solid_def)

section \<open>Splitting and joining\<close>

text \<open>\<open>strings.Split(s, sep)\<close> for a one-byte separator.\<close>

fun split_on :: "char \<Rightarrow> string \<Rightarrow> string list" where
  "split_on c [] = [[]]"
| "split_on c (x # xs) =
     (if x = c then [] # split_on c xs
      else (case split_on c xs of [] \<Rightarrow> [[x]] | y # ys \<Rightarrow> (x # y) # ys))"

text \<open>\<open>strings.Join(parts, sep)\<close> for a one-byte separator.\<close>

fun join_with :: "char \<Rightarrow> string list \<Rightarrow> string" where
  "join_with c [] = []"
| "join_with c [x] = x"
| "join_with c (x # y # ys) = x @ c # join_with c (y # ys)"

lemma split_on_nonempty [simp]: "split_on c s \<noteq> []"
  by (induction s) (auto split: list.splits)

lemma split_on_solid: "c \<notin> set s \<Longrightarrow> split_on c s = [s]"
  by (induction s) auto

lemma split_on_append: "c \<notin> set a \<Longrightarrow> split_on c (a @ c # s) = a # split_on c s"
  by (induction a) auto

lemma split_on_parts: "x \<in> set (split_on c s) \<Longrightarrow> c \<notin> set x"
  by (induction s arbitrary: x) (auto split: if_splits list.splits)

lemma join_with_Cons: "xs \<noteq> [] \<Longrightarrow> join_with c (x # xs) = x @ c # join_with c xs"
  by (cases xs) auto

lemma join_split_on: "join_with c (split_on c s) = s"
proof (induction s)
  case (Cons x xs)
  show ?case
  proof (cases "x = c")
    case True
    with Cons show ?thesis by (simp add: join_with_Cons)
  next
    case False
    obtain y ys where ys: "split_on c xs = y # ys" by (cases "split_on c xs") auto
    with Cons False show ?thesis by (cases ys) auto
  qed
qed simp

lemma split_join_on:
  "ps \<noteq> [] \<Longrightarrow> \<forall>p \<in> set ps. c \<notin> set p \<Longrightarrow> split_on c (join_with c ps) = ps"
proof (induction ps rule: join_with.induct)
  case (3 c x y ys)
  then show ?case by (simp add: split_on_append)
qed (auto simp: split_on_solid)

lemma join_with_inj:
  assumes "join_with c ps = join_with c qs"
    and "\<forall>p \<in> set ps. p \<noteq> [] \<and> c \<notin> set p" and "\<forall>q \<in> set qs. q \<noteq> [] \<and> c \<notin> set q"
  shows "ps = qs"
proof (cases "ps = [] \<or> qs = []")
  case True
  have "join_with c xs \<noteq> []" if "xs \<noteq> []" "\<forall>x \<in> set xs. x \<noteq> []" for xs
    using that by (cases xs rule: list.exhaust [case_product list.exhaust [of "tl xs"]]) auto
  with True assms show ?thesis by (metis join_with.simps(1))
next
  case False
  then show ?thesis using assms split_join_on by metis
qed

text \<open>\<open>fmt.Sprint\<close> of a \<open>[]string\<close>.\<close>

definition sprint_strings :: "string list \<Rightarrow> string" where
  "sprint_strings xs = ''['' @ join_with (CHR '' '') xs @ '']''"

lemma sprint_strings_inj:
  assumes "sprint_strings ps = sprint_strings qs"
    and "\<forall>p \<in> set ps. p \<noteq> [] \<and> CHR '' '' \<notin> set p" and "\<forall>q \<in> set qs. q \<noteq> [] \<and> CHR '' '' \<notin> set q"
  shows "ps = qs"
  using assms by (intro join_with_inj [of "CHR '' ''"]) (auto simp: sprint_strings_def)

section \<open>Case folding\<close>

text \<open>
  \<open>strings.EqualFold\<close> compares rune by rune under simple case folding. Where one of the runes
  is ASCII the folding is written out (only \<open>k\<close> and \<open>s\<close> have non-ASCII relatives, the Kelvin
  sign and the long s); the Unicode table for two distinct non-ASCII runes is the parameter
  \<open>orbit\<close>.
\<close>

definition ascii_fold :: "rune \<Rightarrow> rune" where
  "ascii_fold r = (if 65 \<le> r \<and> r \<le> 90 then r + 32
     else if r = 0x212A then 107 else if r = 0x17F then 115 else r)"

definition fold_eq :: "(rune \<Rightarrow> rune \<Rightarrow> bool) \<Rightarrow> rune \<Rightarrow> rune \<Rightarrow> bool" where
  "fold_eq orbit a b = (ascii_fold a = ascii_fold b \<or> 0x80 \<le> a \<and> 0x80 \<le> b \<and> orbit a b)"

definition equal_fold :: "(rune \<Rightarrow> rune \<Rightarrow> bool) \<Rightarrow> string \<Rightarrow> string \<Rightarrow> bool" where
  "equal_fold orbit s t = list_all2 (fold_eq orbit) (runes s) (runes t)"

lemma equal_fold_ascii_any:
  assumes "ascii s"
  shows "equal_fold orbit s t = equal_fold orbit' s t"
proof -
  have "list_all2 (fold_eq orbit) (map byte cs) rs = list_all2 (fold_eq orbit') (map byte cs) rs"
    if "ascii cs" for cs rs
    using that
  proof (induction cs arbitrary: rs)
    case (Cons c cs)
    then show ?case by (cases rs) (auto simp: fold_eq_def)
  qed simp
  then show ?thesis using assms by (simp add: equal_fold_def runes_ascii)
qed

lemma equal_fold_refl: "equal_fold orbit s s"
  by (simp add: equal_fold_def fold_eq_def list_all2_refl)

text \<open>\<open>strings.HasPrefix\<close>.\<close>

definition has_prefix :: "string \<Rightarrow> string \<Rightarrow> bool" where
  "has_prefix s p = prefix p s"

end
