(* ===== verification/Types.thy ===== *)
theory Types
  imports GoStrings
begin

text \<open>
  \<open>types.go\<close>: identifiers, enumerations, the records of the authorization kernel, and the
  validation of opaque identifiers and role names. A Go field \<open>F\<close> of a struct is the record field
  with the struct's prefix (\<open>Role.Version\<close> is \<open>ro_version\<close>). Scopes and resource modes are Go
  strings and may hold any value; reason codes, outcomes, phases and provenance are only ever
  written by the code and are datatypes. Reading the clock is \<open>clk site\<close>: one value per call site,
  as every site runs at most once in an operation.
\<close>

section \<open>Identifiers and enumerations\<close>

type_synonym tenant_id = string
type_synonym subject_id = string
type_synonym role_id = string
type_synonym workspace_id = string
type_synonym resource_id = string
type_synonym permission_key = string
type_synonym scope = string
type_synonym resource_mode = string

definition ScopeOwn :: scope where "ScopeOwn = ''own''"
definition ScopeWorkspace :: scope where "ScopeWorkspace = ''workspace''"
definition ScopeTenant :: scope where "ScopeTenant = ''tenant''"

definition ResourceExisting :: resource_mode where "ResourceExisting = ''existing''"
definition ResourceCreate :: resource_mode where "ResourceCreate = ''create''"
definition ResourceTenantAction :: resource_mode where "ResourceTenantAction = ''tenant_action''"

lemma scope_distinct [simp]:
  "ScopeOwn \<noteq> ScopeWorkspace" "ScopeOwn \<noteq> ScopeTenant" "ScopeWorkspace \<noteq> ScopeTenant"
  "ScopeWorkspace \<noteq> ScopeOwn" "ScopeTenant \<noteq> ScopeOwn" "ScopeTenant \<noteq> ScopeWorkspace"
  by (simp_all add: ScopeOwn_def ScopeWorkspace_def ScopeTenant_def)

lemma mode_distinct [simp]:
  "ResourceExisting \<noteq> ResourceCreate" "ResourceExisting \<noteq> ResourceTenantAction"
  "ResourceCreate \<noteq> ResourceTenantAction" "ResourceCreate \<noteq> ResourceExisting"
  "ResourceTenantAction \<noteq> ResourceExisting" "ResourceTenantAction \<noteq> ResourceCreate"
  by (simp_all add: ResourceExisting_def ResourceCreate_def ResourceTenantAction_def)

definition known_scope :: "scope \<Rightarrow> bool" where
  "known_scope s = (s = ScopeOwn \<or> s = ScopeWorkspace \<or> s = ScopeTenant)"

lemma known_scope_simps [simp]:
  "known_scope ScopeOwn" "known_scope ScopeWorkspace" "known_scope ScopeTenant"
  by (simp_all add: known_scope_def)

datatype reason_code =
    ReasonAllowed
  | ReasonInvalidRequest
  | ReasonPermissionNotGranted
  | ReasonTenantMismatch
  | ReasonOwnerMismatch
  | ReasonWorkspaceMembershipMiss
  | ReasonWorkspaceRoleDenied
  | ReasonInvalidPolicy
  | ReasonDependencyUnavailable

datatype grant_provenance = GrantProvenanceDelegated | GrantProvenanceBootstrap

datatype audit_outcome =
    AuditOutcomeSuccess | AuditOutcomeNoop | AuditOutcomeDenied | AuditOutcomeConflict
  | AuditOutcomeFailed

datatype audit_phase = AuditPhaseResult | AuditPhaseIntent | AuditPhaseCompleted

section \<open>Records\<close>

record permission_definition =
  pd_key :: permission_key
  pd_description :: string

record principal =
  pr_tenant :: tenant_id
  pr_subject :: subject_id

record resource_context =
  rc_tenant :: tenant_id
  rc_resource :: resource_id
  rc_owner :: subject_id
  rc_workspace :: workspace_id

record check_request =
  cq_principal :: principal
  cq_permission :: permission_key
  cq_mode :: resource_mode
  cq_resource :: resource_context

record decision =
  dc_allowed :: bool
  dc_reason :: reason_code
  dc_scope :: scope

record effective_grant =
  eg_role :: role_id
  eg_permission :: permission_key
  eg_scope :: scope
  eg_workspace_roles :: "string list"

record workspace_membership =
  wm_role :: string

record subject_role_grant =
  sg_tenant :: tenant_id
  sg_subject :: subject_id
  sg_role :: role_id
  sg_grantor :: subject_id
  sg_provenance :: grant_provenance
  sg_granted_at :: time

record grant_edge =
  ge_tenant :: tenant_id
  ge_grantor :: subject_id
  ge_grantee :: subject_id
  ge_role :: role_id
  ge_created_at :: time

record role =
  ro_tenant :: tenant_id
  ro_id :: role_id
  ro_name :: string
  ro_description :: string
  ro_version :: int64
  ro_deleted :: bool

record role_permission_grant =
  rg_role :: role_id
  rg_permission :: permission_key
  rg_scope :: scope
  rg_workspace_roles :: "string list"

record role_version =
  rv_tenant :: tenant_id
  rv_role :: role_id
  rv_version :: int64
  rv_name :: string
  rv_description :: string
  rv_grants :: "role_permission_grant list"
  rv_deleted :: bool
  rv_created_at :: time
  rv_created_by :: subject_id
  rv_bootstrap_initiator :: string

record mutation_audit_event =
  ae_tenant :: tenant_id
  ae_actor :: subject_id
  ae_host_initiator :: string
  ae_operation :: string
  ae_phase :: audit_phase
  ae_target_type :: string
  ae_target_id :: string
  ae_outcome :: audit_outcome
  ae_reason_code :: string
  ae_request_id :: string
  ae_role_version :: int64
  ae_at :: time

record host_provenance =
  hp_initiator :: string
  hp_at :: time

record control_permissions =
  cp_manage_roles :: permission_key
  cp_manage_grants :: permission_key
  cp_assign_roles :: permission_key

record mutation_metadata =
  mm_request_id :: string
  mm_reason_code :: string

text \<open>The three control permissions in the order the code lists them.\<close>

definition control_list :: "control_permissions \<Rightarrow> permission_key list" where
  "control_list c = [cp_manage_roles c, cp_manage_grants c, cp_assign_roles c]"

text \<open>Go's conversion \<open>EffectiveGrant(grant)\<close>: the two structs have the same fields.\<close>

definition effective_of :: "role_permission_grant \<Rightarrow> effective_grant" where
  "effective_of g = \<lparr>eg_role = rg_role g, eg_permission = rg_permission g,
     eg_scope = rg_scope g, eg_workspace_roles = rg_workspace_roles g\<rparr>"

lemma effective_of_simps [simp]:
  "eg_role (effective_of g) = rg_role g" "eg_permission (effective_of g) = rg_permission g"
  "eg_scope (effective_of g) = rg_scope g"
  "eg_workspace_roles (effective_of g) = rg_workspace_roles g"
  by (simp_all add: effective_of_def)

section \<open>Clock and context\<close>

datatype clock_site = AtGrant | AtEdge | AtSnapshot | AtEvent | AtDenied | AtIntent | AtCompletion

type_synonym clock = "clock_site \<Rightarrow> time"

text \<open>
  A context carries an optional tenant, and \<open>gc_err i\<close> is what the \<open>i\<close>-th call of \<open>ctx.Err()\<close>
  in an operation returns (\<open>None\<close> for nil).
\<close>

record go_context =
  gc_tenant :: "tenant_id option"
  gc_err :: "nat \<Rightarrow> error option"

definition WithTenant :: "go_context \<Rightarrow> tenant_id \<Rightarrow> go_context" where
  "WithTenant ctx t = ctx\<lparr>gc_tenant := Some t\<rparr>"

definition TenantFromContext :: "go_context \<Rightarrow> tenant_id option" where
  "TenantFromContext ctx = gc_tenant ctx"

definition poll :: "go_context \<Rightarrow> nat \<Rightarrow> error + unit" where
  "poll ctx i = (case gc_err ctx i of None \<Rightarrow> Inr () | Some e \<Rightarrow> Inl e)"

lemma poll_Inr [err_simps]: "poll ctx i = Inr u \<longleftrightarrow> gc_err ctx i = None"
  by (auto simp: poll_def split: option.splits)

section \<open>Validation\<close>

definition control_rune :: "rune \<Rightarrow> bool" where
  "control_rune r = (r < 0x20 \<or> r = 0x7F)"

definition isValidUTF8NoControl :: "string \<Rightarrow> bool" where
  "isValidUTF8NoControl v =
     (if \<not> valid_string v then False else (\<forall>r \<in> set (runes v). \<not> control_rune r))"

definition validateOpaqueID :: "string \<Rightarrow> error + unit" where
  "validateOpaqueID v =
     (if v = [] then Inl ErrInvalidInput
      else if length v > 256 then Inl ErrInvalidInput
      else if \<not> isValidUTF8NoControl v then Inl ErrInvalidInput
      else Inr ())"

definition valid_id :: "string \<Rightarrow> bool" where
  "valid_id v = (validateOpaqueID v = Inr ())"

lemma validateOpaqueID_cases:
  "validateOpaqueID v = (if valid_id v then Inr () else Inl ErrInvalidInput)"
  by (auto simp: validateOpaqueID_def valid_id_def)

lemma valid_id_iff:
  "valid_id v \<longleftrightarrow> v \<noteq> [] \<and> length v \<le> 256 \<and> valid_string v \<and>
     (\<forall>r \<in> set (runes v). \<not> control_rune r)"
  by (auto simp: valid_id_def validateOpaqueID_def isValidUTF8NoControl_def)

lemma valid_id_nonempty [simp]: "\<not> valid_id []"
  by (simp add: valid_id_iff)

lemma valid_id_ascii:
  assumes "v \<noteq> []" and "length v \<le> 256" and "\<forall>c \<in> set v. 0x20 \<le> byte c \<and> byte c < 0x7F"
  shows "valid_id v"
proof -
  have "ascii v" using assms(3) by (auto simp: ascii_def)
  then show ?thesis
    using assms by (force simp: valid_id_iff runes_ascii valid_string_ascii control_rune_def)
qed

definition validateRoleName :: "string \<Rightarrow> error + unit" where
  "validateRoleName name =
     (let trimmed = trim_space name in
      if trimmed = [] then Inl ErrInvalidInput
      else if length (runes trimmed) > 64 then Inl ErrInvalidInput
      else if (\<exists>r \<in> set (runes trimmed). control_rune r) then Inl ErrInvalidInput
      else Inr ())"

lemma validateRoleName_error: "validateRoleName n = Inl e \<Longrightarrow> e = ErrInvalidInput"
  by (auto simp: validateRoleName_def Let_def split: if_splits)

end
