(* ===== verification/Catalog.thy ===== *)
theory Catalog
  imports Types
begin

text \<open>
  \<open>catalog.go\<close>: the grammar of permission keys and the immutable catalog. \<open>sortKeys\<close> is the
  in-place insertion sort of the source, with its index arithmetic; the lemmas relate the grammar
  check to a declarative description of keys and the in-place sort to the library's \<open>sort\<close>.
\<close>

definition minSegments :: nat where "minSegments = 3"
definition maxSegmentLength :: nat where "maxSegmentLength = 64"

definition lower :: "rune \<Rightarrow> bool" where "lower r = (97 \<le> r \<and> r \<le> 122)"
definition digit :: "rune \<Rightarrow> bool" where "digit r = (48 \<le> r \<and> r \<le> 57)"

text \<open>The body of \<open>for i, r := range seg\<close>, with \<open>i = 0\<close> as a flag.\<close>

fun segment_runes :: "bool \<Rightarrow> rune list \<Rightarrow> error + unit" where
  "segment_runes first [] = Inr ()"
| "segment_runes first (r # rs) =
     (if r > 127 \<or> r = 42 then Inl ErrInvalidInput
      else if \<not> (lower r \<or> digit r \<or> r = 95) then Inl ErrInvalidInput
      else if first \<and> \<not> lower r then Inl ErrInvalidInput
      else segment_runes False rs)"

definition validateSegment :: "string \<Rightarrow> error + unit" where
  "validateSegment seg =
     (if seg = [] then Inl ErrInvalidInput
      else if length seg > maxSegmentLength then Inl ErrInvalidInput
      else segment_runes True (runes seg))"

definition validatePermissionKey :: "permission_key \<Rightarrow> error + unit" where
  "validatePermissionKey raw =
     (if raw = [] then Inl ErrInvalidInput
      else if trim_space raw \<noteq> raw then Inl ErrInvalidInput
      else let segments = split_on (CHR '':'') raw in
        if length segments \<noteq> minSegments then Inl ErrInvalidInput
        else echeck validateSegment segments)"

definition ParsePermissionKey :: "string \<Rightarrow> error + permission_key" where
  "ParsePermissionKey raw =
     (if trim_space raw \<noteq> raw then Inl ErrInvalidInput
      else ebind (validatePermissionKey raw) (\<lambda>_. Inr raw))"

text \<open>\<open>Catalog.byKey\<close>.\<close>

type_synonym catalog = "(permission_key, permission_definition) gomap"

definition catalog_add :: "permission_definition \<Rightarrow> catalog \<Rightarrow> error + catalog" where
  "catalog_add d c =
     ebind (validatePermissionKey (pd_key d)) (\<lambda>_.
       if map_get c (pd_key d) \<noteq> None then Inl ErrInvalidInput
       else Inr (map_put (pd_key d) d c))"

definition NewCatalog :: "permission_definition list \<Rightarrow> error + catalog" where
  "NewCatalog definitions =
     (if definitions = [] then Inl ErrInvalidInput else efold catalog_add definitions [])"

definition catalog_lookup :: "catalog \<Rightarrow> permission_key \<Rightarrow> permission_definition option" where
  "catalog_lookup c key = map_get c key"

text \<open>\<open>sortKeys\<close>: the inner loop moves \<open>keys[j]\<close> down while it is smaller than its neighbour.\<close>

fun sift_down :: "nat \<Rightarrow> permission_key list \<Rightarrow> permission_key list" where
  "sift_down 0 keys = keys"
| "sift_down (Suc j) keys =
     (if keys ! Suc j < keys ! j
      then sift_down j (keys[Suc j := keys ! j, j := keys ! Suc j])
      else keys)"

fun sort_from :: "nat \<Rightarrow> nat \<Rightarrow> permission_key list \<Rightarrow> permission_key list" where
  "sort_from 0 i keys = keys"
| "sort_from (Suc n) i keys = sort_from n (Suc i) (sift_down i keys)"

definition sortKeys :: "permission_key list \<Rightarrow> permission_key list" where
  "sortKeys keys = sort_from (length keys - 1) 1 keys"

definition catalog_keys :: "catalog \<Rightarrow> permission_key list" where
  "catalog_keys c = sortKeys (map fst c)"

section \<open>The grammar\<close>

definition key_char :: "char \<Rightarrow> bool" where
  "key_char c = (lower (byte c) \<or> digit (byte c) \<or> c = CHR ''_'')"

text \<open>The declarative grammar: \<open>[a-z][a-z0-9_]*\<close>, at most 64 bytes.\<close>

definition good_segment :: "string \<Rightarrow> bool" where
  "good_segment s = (s \<noteq> [] \<and> length s \<le> 64 \<and> lower (byte (hd s)) \<and> (\<forall>c \<in> set s. key_char c))"

definition good_key :: "permission_key \<Rightarrow> bool" where
  "good_key k = (\<exists>ns rs act. k = ns @ '':'' @ rs @ '':'' @ act \<and>
     good_segment ns \<and> good_segment rs \<and> good_segment act)"

lemma segment_runes_Inr:
  "segment_runes first rs = Inr () \<longleftrightarrow>
     (\<forall>r \<in> set rs. lower r \<or> digit r \<or> r = 95) \<and> (first \<and> rs \<noteq> [] \<longrightarrow> lower (hd rs))"
  by (induction first rs rule: segment_runes.induct) (auto simp: lower_def digit_def)

lemma segment_runes_Inl: "segment_runes first rs = Inl e \<Longrightarrow> e = ErrInvalidInput"
  by (induction first rs rule: segment_runes.induct) (auto split: if_splits)

lemma validateSegment_Inl: "validateSegment s = Inl e \<Longrightarrow> e = ErrInvalidInput"
  by (auto simp: validateSegment_def segment_runes_Inl split: if_splits)

lemma validatePermissionKey_Inl: "validatePermissionKey k = Inl e \<Longrightarrow> e = ErrInvalidInput"
  by (auto simp: validatePermissionKey_def Let_def split: if_splits
      dest!: echeck_Inl dest: validateSegment_Inl)

lemma byte_eq_95: "byte c = 95 \<longleftrightarrow> c = CHR ''_''"
proof -
  have "byte (CHR ''_'') = 95" by simp
  then show ?thesis by (metis of_char_eq_iff)
qed

lemma key_char_ascii: "key_char c \<Longrightarrow> byte c < 0x80 \<and> \<not> is_space (byte c) \<and> c \<noteq> CHR '':''"
  by (auto simp: key_char_def lower_def digit_def is_space_def)

text \<open>A rune sequence of key characters only comes from key characters.\<close>

lemma runes_key_ascii:
  "\<forall>r \<in> set (runes s). lower r \<or> digit r \<or> r = 95 \<Longrightarrow> ascii s"
proof (induction s rule: runes.induct)
  case (1 s)
  show ?case
  proof (cases s)
    case (Cons c cs)
    then have r: "runes s = fst (decode_rune s) # runes (drop (snd (decode_rune s)) s)"
      by (subst runes.simps) (simp del: decode_rune.simps)
    with "1.prems" have "fst (decode_rune s) < 0x80"
      by (auto simp: lower_def digit_def)
    with Cons have "byte c < 0x80"
      using decode_rune_nonascii [of c cs] by (auto simp del: decode_rune.simps)
    with Cons have d: "decode_rune s = (byte c, 1)" by (simp only: decode_rune_ascii)
    with r "1.prems" Cons have "\<forall>r \<in> set (runes cs). lower r \<or> digit r \<or> r = 95" by simp
    with "1.IH" Cons d have "ascii cs" by simp
    with Cons \<open>byte c < 0x80\<close> show ?thesis by simp
  qed simp
qed

lemma validateSegment_iff: "validateSegment s = Inr () \<longleftrightarrow> good_segment s"
proof
  assume "validateSegment s = Inr ()"
  then have s: "s \<noteq> []" "length s \<le> 64" "segment_runes True (runes s) = Inr ()"
    by (auto simp: validateSegment_def maxSegmentLength_def split: if_splits)
  then have "ascii s" by (auto simp: segment_runes_Inr intro: runes_key_ascii)
  then show "good_segment s"
    using s by (auto simp: segment_runes_Inr runes_ascii good_segment_def key_char_def byte_eq_95 hd_map)
next
  assume s: "good_segment s"
  then have "ascii s" by (auto simp: good_segment_def ascii_def dest: key_char_ascii)
  then have rs: "runes s = map byte s" by (rule runes_ascii)
  have "\<forall>r \<in> set (runes s). lower r \<or> digit r \<or> r = 95"
    using s byte_eq_95 unfolding rs good_segment_def key_char_def by auto
  moreover have "lower (hd (runes s))"
    using s unfolding rs good_segment_def by (simp add: hd_map)
  ultimately have "segment_runes True (runes s) = Inr ()"
    by (simp add: segment_runes_Inr)
  then show "validateSegment s = Inr ()"
    using s by (simp add: validateSegment_def maxSegmentLength_def good_segment_def)
qed

lemma good_segment_solid: "good_segment s \<Longrightarrow> solid s \<and> CHR '':'' \<notin> set s"
  by (auto simp: good_segment_def solid_def dest: key_char_ascii)

lemma validatePermissionKey_iff: "validatePermissionKey k = Inr () \<longleftrightarrow> good_key k"
proof
  assume v: "validatePermissionKey k = Inr ()"
  then have "length (split_on (CHR '':'') k) = 3"
    and segs: "\<forall>s \<in> set (split_on (CHR '':'') k). good_segment s"
    by (auto simp: validatePermissionKey_def minSegments_def Let_def echeck_Inr validateSegment_iff
        split: if_splits)
  then obtain a b c where "split_on (CHR '':'') k = [a, b, c]"
    by (auto simp: numeral_3_eq_3 length_Suc_conv)
  with segs join_split_on [of "CHR '':''" k] show "good_key k"
    by (auto simp: good_key_def)
next
  assume "good_key k"
  then obtain a b c where k: "k = a @ '':'' @ b @ '':'' @ c"
    and g: "good_segment a" "good_segment b" "good_segment c"
    by (auto simp: good_key_def)
  have "split_on (CHR '':'') k = [a, b, c]"
    using g k by (simp add: split_on_append split_on_solid good_segment_solid)
  moreover have "solid k"
    using g k by (simp add: good_segment_solid is_space_def)
  ultimately show "validatePermissionKey k = Inr ()"
    using g k by (simp add: validatePermissionKey_def trim_space_solid minSegments_def
        validateSegment_iff [THEN iffD2])
qed

lemma validatePermissionKey_cases:
  "validatePermissionKey k = (if good_key k then Inr () else Inl ErrInvalidInput)"
  using validatePermissionKey_iff [of k] validatePermissionKey_Inl [of k]
  by (cases "validatePermissionKey k") auto

lemma good_key_solid: "good_key k \<Longrightarrow> solid k"
  by (auto simp: good_key_def good_segment_solid is_space_def)

text \<open>
  \<open>ParsePermissionKey\<close> (and with it \<open>PermissionKey.Validate\<close>) accepts exactly the strings
  \<open>namespace:resource:action\<close> whose three segments match \<open>[a-z][a-z0-9_]*\<close> with at most 64 bytes,
  returns them unchanged, and rejects every other byte string with \<open>ErrInvalidInput\<close>.
\<close>

theorem ParsePermissionKey_iff:
  "ParsePermissionKey raw = (if good_key raw then Inr raw else Inl ErrInvalidInput)"
  by (auto simp: ParsePermissionKey_def validatePermissionKey_cases trim_space_solid good_key_solid)

section \<open>The in-place sort\<close>

lemma sift_down_sorts:
  assumes "sorted xs"
  shows "\<exists>ys. sift_down (length xs) (xs @ k # rest) = ys @ rest \<and> sorted ys \<and>
           mset ys = add_mset k (mset xs)"
  using assms
proof (induction xs arbitrary: rest rule: rev_induct)
  case Nil
  then show ?case by (intro exI [of _ "[k]"]) simp
next
  case (snoc y xs)
  then have sxs: "sorted xs" and ley: "\<forall>x \<in> set xs. x \<le> y" by (auto simp: sorted_append)
  show ?case
  proof (cases "k < y")
    case True
    from snoc.IH [OF sxs, of "y # rest"] obtain ys where
      ys: "sift_down (length xs) (xs @ k # y # rest) = ys @ y # rest" "sorted ys"
        "mset ys = add_mset k (mset xs)" by blast
    have "set ys = insert k (set xs)" using ys(3) by (metis set_mset_mset set_mset_add_mset_insert)
    with ys ley True have "sorted (ys @ [y])" by (auto simp: sorted_append)
    with ys True show ?thesis
      by (intro exI [of _ "ys @ [y]"]) (simp add: nth_append list_update_append)
  next
    case False
    with snoc.prems ley show ?thesis
      by (intro exI [of _ "xs @ [y, k]"]) (auto simp: nth_append sorted_append)
  qed
qed

lemma sort_from_sorts:
  assumes "sorted xs"
  shows "sorted (sort_from (length rest) (length xs) (xs @ rest)) \<and>
    mset (sort_from (length rest) (length xs) (xs @ rest)) = mset xs + mset rest"
  using assms
proof (induction rest arbitrary: xs)
  case (Cons k rest)
  from sift_down_sorts [OF Cons.prems, of k rest] obtain ys where
    ys: "sift_down (length xs) (xs @ k # rest) = ys @ rest" "sorted ys" "mset ys = add_mset k (mset xs)"
    by blast
  moreover have "length ys = Suc (length xs)" using ys(3) by (metis size_mset size_add_mset)
  ultimately show ?case using Cons.IH [of ys] by simp
qed simp

lemma sortKeys_eq_sort: "sortKeys keys = sort keys"
proof (cases keys)
  case (Cons k rest)
  with sort_from_sorts [of "[k]" rest] show ?thesis
    by (intro properties_for_sort [symmetric]) (simp_all add: sortKeys_def)
qed (simp add: sortKeys_def)

text \<open>
  The in-place insertion sort behind \<open>Catalog.Keys\<close>, with its swaps on indices \<open>j\<close> and
  \<open>j - 1\<close>, computes the sorted permutation of its input for every list of keys.
\<close>

theorem sortKeys_sort: "sortKeys keys = sort keys"
  by (rule sortKeys_eq_sort)

section \<open>Construction and lookup\<close>

lemma map_put_fresh: "map_get m k = None \<Longrightarrow> map_put k v m = m @ [(k, v)]"
  by (induction m) (auto simp: map_get_def map_put_def split: if_splits)

lemma map_get_keyed: "map_get (map (\<lambda>d. (f d, d)) ds) k = None \<longleftrightarrow> k \<notin> f ` set ds"
  by (induction ds) (auto simp: map_get_def)

lemma catalog_add_fold:
  "efold catalog_add ds (map (\<lambda>d. (pd_key d, d)) seen) =
     (if (\<forall>d \<in> set ds. good_key (pd_key d)) \<and> distinct (map pd_key ds) \<and>
         pd_key ` set ds \<inter> pd_key ` set seen = {}
      then Inr (map (\<lambda>d. (pd_key d, d)) (seen @ ds)) else Inl ErrInvalidInput)"
proof (induction ds arbitrary: seen)
  case (Cons d ds)
  show ?case
  proof (cases "good_key (pd_key d) \<and> pd_key d \<notin> pd_key ` set seen")
    case True
    then have "map_get (map (\<lambda>d. (pd_key d, d)) seen) (pd_key d) = None"
      by (simp add: map_get_keyed)
    then have "catalog_add d (map (\<lambda>d. (pd_key d, d)) seen) =
        Inr (map (\<lambda>d. (pd_key d, d)) (seen @ [d]))"
      using True by (simp add: catalog_add_def validatePermissionKey_cases map_put_fresh)
    with True Cons.IH [of "seen @ [d]"] show ?thesis by auto
  next
    case False
    then have "catalog_add d (map (\<lambda>d. (pd_key d, d)) seen) = Inl ErrInvalidInput"
      using map_get_keyed [of pd_key seen "pd_key d"]
      by (auto simp: catalog_add_def validatePermissionKey_cases)
    with False show ?thesis by auto
  qed
qed simp

definition valid_definitions :: "permission_definition list \<Rightarrow> bool" where
  "valid_definitions ds =
     (ds \<noteq> [] \<and> (\<forall>d \<in> set ds. good_key (pd_key d)) \<and> distinct (map pd_key ds))"

lemma NewCatalog_iff:
  "NewCatalog ds =
     (if valid_definitions ds then Inr (map (\<lambda>d. (pd_key d, d)) ds) else Inl ErrInvalidInput)"
  using catalog_add_fold [of ds "[]"] by (auto simp: NewCatalog_def valid_definitions_def)

definition catalog_ok :: "catalog \<Rightarrow> bool" where
  "catalog_ok c = (map_ok c \<and> (\<forall>(k, d) \<in> set c. pd_key d = k \<and> good_key k))"

lemma NewCatalog_ok: "NewCatalog ds = Inr c \<Longrightarrow> catalog_ok c"
  by (auto simp: NewCatalog_iff valid_definitions_def catalog_ok_def map_ok_def comp_def split: if_splits)

lemma catalog_lookup_good: "catalog_ok c \<Longrightarrow> catalog_lookup c k = Some d \<Longrightarrow> good_key k \<and> pd_key d = k"
  by (auto simp: catalog_ok_def catalog_lookup_def map_get_def dest!: map_of_SomeD)

text \<open>
  \<open>NewCatalog\<close> succeeds exactly for a non-empty list of definitions with well-formed, pairwise
  distinct keys, and otherwise returns \<open>ErrInvalidInput\<close>; the catalog it builds looks up exactly
  the given definitions and lists their keys in sorted order.
\<close>

theorem NewCatalog_correct:
  "case NewCatalog ds of
     Inr c \<Rightarrow> valid_definitions ds \<and> catalog_keys c = sort (map pd_key ds) \<and>
       (\<forall>k d. catalog_lookup c k = Some d \<longleftrightarrow> d \<in> set ds \<and> pd_key d = k)
   | Inl e \<Rightarrow> e = ErrInvalidInput \<and> \<not> valid_definitions ds"
proof -
  have "map_of (map (\<lambda>d. (pd_key d, d)) ds) k = Some d \<longleftrightarrow> d \<in> set ds \<and> pd_key d = k"
    if "valid_definitions ds" for k d
  proof -
    have "distinct (map fst (map (\<lambda>d. (pd_key d, d)) ds))"
      using that by (simp add: comp_def valid_definitions_def)
    then show ?thesis by (auto simp: map_of_eq_Some_iff simp del: map_map)
  qed
  then show ?thesis
    by (simp add: NewCatalog_iff catalog_keys_def sortKeys_eq_sort catalog_lookup_def map_get_def
        comp_def)
qed

end
