(* ===== verification/Policy.thy ===== *)
theory Policy
  imports Catalog
begin

text \<open>
  \<open>policy.go\<close> and the grant validation of \<open>authorizer.go\<close>: the predicate that decides whether one
  grant allows one request (\<open>allowAccess\<close>), and the one that decides whether a grant an
  administrator holds covers a grant to be delegated (\<open>allowDelegation\<close>). The lemmas show that
  coverage is a preorder and that it is sound for access: a covered grant never allows a request
  that the covering grant would not allow on the same facts.
\<close>

type_synonym orbit = "rune \<Rightarrow> rune \<Rightarrow> bool"

definition workspaceRoleMatch :: "orbit \<Rightarrow> string \<Rightarrow> string list \<Rightarrow> bool" where
  "workspaceRoleMatch orbit r allowed =
     (if allowed = [] then True
      else (\<exists>candidate \<in> set allowed. equal_fold orbit (trim_space candidate) (trim_space r)))"

definition coversWorkspaceRoles :: "string list \<Rightarrow> string list \<Rightarrow> bool" where
  "coversWorkspaceRoles actorRoles targetRoles =
     (if actorRoles = [] then True
      else if targetRoles = [] then False
      else (\<forall>r \<in> set targetRoles. r \<in> set actorRoles))"

definition cross_tenant :: "check_request \<Rightarrow> bool" where
  "cross_tenant request = (rc_tenant (cq_resource request) \<noteq> [] \<and>
     rc_tenant (cq_resource request) \<noteq> pr_tenant (cq_principal request))"

definition allowAccess ::
  "orbit \<Rightarrow> check_request \<Rightarrow> effective_grant \<Rightarrow> workspace_membership \<Rightarrow> bool \<Rightarrow> bool" where
  "allowAccess orbit request grant membership member =
     (if cq_permission request \<noteq> eg_permission grant \<or> cross_tenant request then False
      else if eg_scope grant = ScopeTenant then True
      else if cq_mode request = ResourceTenantAction then False
      else if eg_scope grant = ScopeOwn then
        rc_owner (cq_resource request) \<noteq> [] \<and>
        rc_owner (cq_resource request) = pr_subject (cq_principal request)
      else if eg_scope grant = ScopeWorkspace then
        rc_workspace (cq_resource request) \<noteq> [] \<and> member \<and>
        workspaceRoleMatch orbit (wm_role membership) (eg_workspace_roles grant)
      else False)"

definition allowDelegation ::
  "permission_key \<Rightarrow> scope \<Rightarrow> string list \<Rightarrow> bool \<Rightarrow> effective_grant \<Rightarrow> bool" where
  "allowDelegation permission target roles exact grant =
     (if \<not> known_scope target then False
      else if permission \<noteq> eg_permission grant \<or>
        (eg_scope grant \<noteq> target \<and> (exact \<or> eg_scope grant \<noteq> ScopeTenant)) then False
      else eg_scope grant \<noteq> ScopeWorkspace \<or> coversWorkspaceRoles (eg_workspace_roles grant) roles)"

section \<open>Validation of stored grants\<close>

fun workspace_role_runes :: "bool \<Rightarrow> rune list \<Rightarrow> error + unit" where
  "workspace_role_runes first [] = Inr ()"
| "workspace_role_runes first (r # rs) =
     (if r > 127 \<or> \<not> (lower r \<or> digit r \<or> r = 95) then Inl ErrInvalidPolicy
      else if first \<and> \<not> lower r then Inl ErrInvalidPolicy
      else workspace_role_runes False rs)"

definition validateWorkspaceRole :: "string \<Rightarrow> error + unit" where
  "validateWorkspaceRole r =
     (if r = [] then Inl ErrInvalidPolicy
      else if length r > maxSegmentLength then Inl ErrInvalidPolicy
      else workspace_role_runes True (runes r))"

definition validateEffectiveGrant :: "effective_grant \<Rightarrow> permission_key \<Rightarrow> error + unit" where
  "validateEffectiveGrant g requested =
     (if validatePermissionKey (eg_permission g) \<noteq> Inr () then Inl ErrInvalidPolicy
      else if eg_permission g \<noteq> requested then Inl ErrInvalidPolicy
      else if \<not> known_scope (eg_scope g) then Inl ErrInvalidPolicy
      else if validateOpaqueID (eg_role g) \<noteq> Inr () then Inl ErrInvalidPolicy
      else ebind (echeck validateWorkspaceRole (eg_workspace_roles g)) (\<lambda>_. Inr ()))"

definition good_grant :: "permission_key \<Rightarrow> effective_grant \<Rightarrow> bool" where
  "good_grant p g = (good_key (eg_permission g) \<and> eg_permission g = p \<and> known_scope (eg_scope g) \<and>
     valid_id (eg_role g) \<and> (\<forall>r \<in> set (eg_workspace_roles g). good_segment r))"

lemma workspace_role_runes_segment:
  "workspace_role_runes first rs = Inr () \<longleftrightarrow> segment_runes first rs = Inr ()"
  by (induction first rs rule: segment_runes.induct) (auto simp: lower_def digit_def)

lemma workspace_role_runes_Inl: "workspace_role_runes first rs = Inl e \<Longrightarrow> e = ErrInvalidPolicy"
  by (induction first rs rule: workspace_role_runes.induct) (auto split: if_splits)

lemma validateWorkspaceRole_cases:
  "validateWorkspaceRole r = (if good_segment r then Inr () else Inl ErrInvalidPolicy)"
proof (cases "validateWorkspaceRole r")
  case (Inl e)
  moreover from this have "e = ErrInvalidPolicy"
    by (auto simp: validateWorkspaceRole_def workspace_role_runes_Inl split: if_splits)
  moreover from Inl have "validateSegment r \<noteq> Inr ()"
    by (auto simp: validateWorkspaceRole_def validateSegment_def
        workspace_role_runes_segment [symmetric] split: if_splits)
  ultimately show ?thesis by (simp add: validateSegment_iff)
next
  case (Inr u)
  then have "validateSegment r = Inr ()"
    by (auto simp: validateWorkspaceRole_def validateSegment_def workspace_role_runes_segment split: if_splits)
  with Inr show ?thesis by (simp add: validateSegment_iff)
qed

lemma validateEffectiveGrant_cases:
  "validateEffectiveGrant g p = (if good_grant p g then Inr () else Inl ErrInvalidPolicy)"
proof -
  have "echeck validateWorkspaceRole (eg_workspace_roles g) =
      (if \<forall>r \<in> set (eg_workspace_roles g). good_segment r then Inr () else Inl ErrInvalidPolicy)"
    by (subst echeck_cases [where e = ErrInvalidPolicy])
      (auto simp: validateWorkspaceRole_cases split: if_splits)
  then show ?thesis
    by (auto simp: validateEffectiveGrant_def good_grant_def validatePermissionKey_cases
        validateOpaqueID_cases)
qed

lemma good_segment_ascii: "good_segment r \<Longrightarrow> ascii r"
  by (auto simp: good_segment_def ascii_def dest: key_char_ascii)

text \<open>For well-formed constraints the Unicode table of \<open>EqualFold\<close> is irrelevant.\<close>

lemma workspaceRoleMatch_orbit:
  assumes "\<forall>r \<in> set allowed. good_segment r"
  shows "workspaceRoleMatch orbit r allowed = workspaceRoleMatch orbit' r allowed"
proof -
  have "equal_fold orbit (trim_space c) t = equal_fold orbit' (trim_space c) t"
    if "c \<in> set allowed" for c t
    using that assms by (metis equal_fold_ascii_any good_segment_ascii good_segment_solid trim_space_solid)
  then show ?thesis by (simp add: workspaceRoleMatch_def)
qed

section \<open>Coverage\<close>

definition covers :: "effective_grant \<Rightarrow> permission_key \<Rightarrow> scope \<Rightarrow> string list \<Rightarrow> bool" where
  "covers g p s roles = allowDelegation p s roles False g"

definition covers_grant :: "effective_grant \<Rightarrow> effective_grant \<Rightarrow> bool" where
  "covers_grant g h = covers g (eg_permission h) (eg_scope h) (eg_workspace_roles h)"

lemma covers_iff:
  "covers g p s roles \<longleftrightarrow> known_scope s \<and> eg_permission g = p \<and>
     (eg_scope g = ScopeTenant \<or> eg_scope g = s \<and>
       (s = ScopeWorkspace \<longrightarrow> coversWorkspaceRoles (eg_workspace_roles g) roles))"
  by (auto simp: covers_def allowDelegation_def)

lemma exact_covers: "allowDelegation p s roles True g \<Longrightarrow> covers g p s roles"
  by (auto simp: covers_def allowDelegation_def split: if_splits)

lemma exact_tenant:
  "allowDelegation p ScopeTenant roles True g \<longleftrightarrow> eg_permission g = p \<and> eg_scope g = ScopeTenant"
  by (auto simp: allowDelegation_def)

lemma coversWorkspaceRoles_refl: "coversWorkspaceRoles r r"
  by (auto simp: coversWorkspaceRoles_def)

lemma coversWorkspaceRoles_trans:
  "coversWorkspaceRoles a b \<Longrightarrow> coversWorkspaceRoles b c \<Longrightarrow> coversWorkspaceRoles a c"
  by (auto simp: coversWorkspaceRoles_def split: if_splits)

text \<open>Coverage as an interface: a reflexive, transitive relation on grants of known scope.\<close>

locale coverage_order =
  fixes cov :: "'g \<Rightarrow> 'g \<Rightarrow> bool" and good :: "'g \<Rightarrow> bool"
  assumes cov_refl: "good g \<Longrightarrow> cov g g"
    and cov_trans: "cov g h \<Longrightarrow> cov h k \<Longrightarrow> cov g k"
begin

definition authority :: "'g set \<Rightarrow> 'g set \<Rightarrow> bool" where
  "authority G H = (\<forall>h \<in> H. \<exists>g \<in> G. cov g h)"

lemma authority_refl: "(\<And>g. g \<in> G \<Longrightarrow> good g) \<Longrightarrow> authority G G"
  by (auto simp: authority_def intro: cov_refl)

lemma authority_trans: "authority G H \<Longrightarrow> authority H K \<Longrightarrow> authority G K"
  unfolding authority_def by (meson cov_trans)

lemma authority_mono: "authority G H \<Longrightarrow> G \<subseteq> G' \<Longrightarrow> H' \<subseteq> H \<Longrightarrow> authority G' H'"
  unfolding authority_def by blast

end

interpretation delegation: coverage_order covers_grant "\<lambda>g. known_scope (eg_scope g)"
proof (unfold_locales, goal_cases)
  case (1 g)
  then show ?case by (simp add: covers_grant_def covers_iff coversWorkspaceRoles_refl)
next
  case (2 g h k)
  then show ?case
    by (auto simp: covers_grant_def covers_iff intro: coversWorkspaceRoles_trans)
qed

lemma workspaceRoleMatch_covers:
  "coversWorkspaceRoles a b \<Longrightarrow> workspaceRoleMatch orbit r b \<Longrightarrow> workspaceRoleMatch orbit r a"
  by (auto simp: coversWorkspaceRoles_def workspaceRoleMatch_def split: if_splits)

text \<open>
  C27: delegation coverage is sound for access decisions. If a grant \<open>g\<close> an administrator holds
  covers a delegated grant \<open>h\<close> in the sense of \<open>allowDelegation\<close>, then every request \<open>h\<close> allows,
  under any membership facts, is also allowed by \<open>g\<close>: delegating cannot amplify access.
\<close>

theorem delegation_sound_for_access:
  assumes "allowDelegation (eg_permission h) (eg_scope h) (eg_workspace_roles h) exact g"
    and "allowAccess orbit request h membership member"
  shows "allowAccess orbit request g membership member"
  using assms workspaceRoleMatch_covers
  by (auto simp: allowDelegation_def allowAccess_def split: if_splits)

theorem delegation_sound_for_access_witness:
  "allowAccess (\<lambda>_ _. False)
     \<lparr>cq_principal = \<lparr>pr_tenant = ''t'', pr_subject = ''s''\<rparr>, cq_permission = ''a:b:c'',
      cq_mode = ResourceExisting,
      cq_resource = \<lparr>rc_tenant = ''t'', rc_resource = ''r'', rc_owner = ''o'', rc_workspace = ''w''\<rparr>\<rparr>
     \<lparr>eg_role = ''adm'', eg_permission = ''a:b:c'', eg_scope = ScopeWorkspace,
      eg_workspace_roles = [''editor'', ''viewer'']\<rparr> \<lparr>wm_role = ''editor''\<rparr> True"
proof (rule delegation_sound_for_access)
  let ?h = "\<lparr>eg_role = ''rx'', eg_permission = ''a:b:c'', eg_scope = ScopeWorkspace,
      eg_workspace_roles = [''editor'']\<rparr>"
  show "allowDelegation (eg_permission ?h) (eg_scope ?h) (eg_workspace_roles ?h) False
     \<lparr>eg_role = ''adm'', eg_permission = ''a:b:c'', eg_scope = ScopeWorkspace,
      eg_workspace_roles = [''editor'', ''viewer'']\<rparr>"
    by (simp add: allowDelegation_def coversWorkspaceRoles_def)
  show "allowAccess (\<lambda>_ _. False)
     \<lparr>cq_principal = \<lparr>pr_tenant = ''t'', pr_subject = ''s''\<rparr>, cq_permission = ''a:b:c'',
      cq_mode = ResourceExisting,
      cq_resource = \<lparr>rc_tenant = ''t'', rc_resource = ''r'', rc_owner = ''o'', rc_workspace = ''w''\<rparr>\<rparr>
     ?h \<lparr>wm_role = ''editor''\<rparr> True"
    by (simp add: allowAccess_def cross_tenant_def workspaceRoleMatch_def equal_fold_refl)
qed

end
