(* ===== verification/TenantTx.thy ===== *)
theory TenantTx
  imports Policy
begin

text \<open>
  The persistence boundary of \<open>store.go\<close>: the Go interfaces \<open>TenantReader\<close> and \<open>TenantTx\<close> as a
  record of operations over a state \<open>'s\<close>, the abstract policy of one tenant (maps and sets, no
  representation), what every operation means on that policy, and the contracts an adapter
  promises as locales: \<open>tenant_reader_laws\<close> and \<open>tenant_tx_laws\<close> (an operation that succeeds does
  what the policy operation does; an adapter may fail at any time) and \<open>tenant_tx_total\<close> (it does so
  for every call and fails
  only where the policy operation fails, with the same error).
\<close>

section \<open>The interface\<close>

record 's tenant_tx =
  tx_list_effective_grants :: "subject_id \<Rightarrow> permission_key \<Rightarrow> 's \<Rightarrow> error + effective_grant list"
  tx_get_role :: "role_id \<Rightarrow> 's \<Rightarrow> error + role"
  tx_list_role_permission_grants :: "role_id \<Rightarrow> 's \<Rightarrow> error + role_permission_grant list"
  tx_list_subject_role_ids :: "subject_id \<Rightarrow> 's \<Rightarrow> error + role_id list"
  tx_list_role_subject_ids :: "role_id \<Rightarrow> 's \<Rightarrow> error + subject_id list"
  tx_has_grant_path :: "subject_id \<Rightarrow> subject_id \<Rightarrow> 's \<Rightarrow> error + bool"
  tx_has_administrator :: "control_permissions \<Rightarrow> 's \<Rightarrow> error + bool"
  tx_is_bootstrapped :: "'s \<Rightarrow> error + bool"
  tx_insert_role :: "role \<Rightarrow> 's \<Rightarrow> error + 's"
  tx_update_role :: "role \<Rightarrow> int64 \<Rightarrow> 's \<Rightarrow> error + 's"
  tx_tombstone_role :: "role_id \<Rightarrow> int64 \<Rightarrow> 's \<Rightarrow> error + 's"
  tx_insert_role_permission_grant :: "role_permission_grant \<Rightarrow> 's \<Rightarrow> error + bool \<times> 's"
  tx_delete_role_permission_grant :: "role_permission_grant \<Rightarrow> 's \<Rightarrow> error + bool \<times> 's"
  tx_insert_subject_role_grant :: "subject_role_grant \<Rightarrow> 's \<Rightarrow> error + bool \<times> 's"
  tx_delete_subject_role_grant ::
    "subject_id \<Rightarrow> role_id \<Rightarrow> 's \<Rightarrow> error + subject_role_grant option \<times> 's"
  tx_insert_grant_edge :: "grant_edge \<Rightarrow> 's \<Rightarrow> error + 's"
  tx_delete_grant_edge :: "grant_edge \<Rightarrow> 's \<Rightarrow> error + 's"
  tx_insert_role_version :: "role_version \<Rightarrow> 's \<Rightarrow> error + 's"
  tx_insert_mutation_audit :: "mutation_audit_event \<Rightarrow> 's \<Rightarrow> error + 's"
  tx_mark_bootstrapped :: "host_provenance \<Rightarrow> 's \<Rightarrow> error + 's"

text \<open>The other interfaces of the kernel, as function types.\<close>

type_synonym ('s, 'r, 'st) mutator =
  "tenant_id \<Rightarrow> ('s \<Rightarrow> error + 'r \<times> 's) \<Rightarrow> 'st \<Rightarrow> (error + 'r) \<times> 'st"

type_synonym 'a audit_sink = "mutation_audit_event \<Rightarrow> 'a \<Rightarrow> error option \<times> 'a"

type_synonym bootstrap_authorizer = "tenant_id \<Rightarrow> error + host_provenance"

type_synonym maintenance_authorizer = "tenant_id \<Rightarrow> string \<Rightarrow> error + host_provenance"

section \<open>The abstract policy of a tenant\<close>

type_synonym grant_key = "permission_key \<times> scope \<times> string"
type_synonym edge_key = "subject_id \<times> subject_id \<times> role_id"

definition grant_key_of :: "role_permission_grant \<Rightarrow> grant_key" where
  "grant_key_of g = (rg_permission g, rg_scope g, join_with (CHR '','') (rg_workspace_roles g))"

definition edge_key_of :: "grant_edge \<Rightarrow> edge_key" where
  "edge_key_of e = (ge_grantor e, ge_grantee e, ge_role e)"

record policy =
  po_roles :: "role_id \<rightharpoonup> role"
  po_grants :: "role_id \<Rightarrow> grant_key \<rightharpoonup> role_permission_grant"
  po_bindings :: "subject_id \<Rightarrow> role_id \<rightharpoonup> subject_role_grant"
  po_edges :: "edge_key set"
  po_versions :: "role_id \<Rightarrow> int64 \<rightharpoonup> role_version"
  po_audit :: "mutation_audit_event list"
  po_bootstrapped :: bool

definition empty_policy :: policy where
  "empty_policy = \<lparr>po_roles = Map.empty, po_grants = (\<lambda>_. Map.empty), po_bindings = (\<lambda>_. Map.empty),
     po_edges = {}, po_versions = (\<lambda>_. Map.empty), po_audit = [], po_bootstrapped = False\<rparr>"

definition live_role :: "policy \<Rightarrow> role_id \<Rightarrow> bool" where
  "live_role p r = (\<exists>x. po_roles p r = Some x \<and> \<not> ro_deleted x)"

text \<open>The grants a subject holds: those on live roles bound to it.\<close>

definition held_grants :: "policy \<Rightarrow> subject_id \<Rightarrow> effective_grant set" where
  "held_grants p u = {(effective_of g)\<lparr>eg_role := r\<rparr> | r k g.
     po_bindings p u r \<noteq> None \<and> live_role p r \<and> po_grants p r k = Some g}"

definition effective_grants :: "policy \<Rightarrow> subject_id \<Rightarrow> permission_key \<Rightarrow> effective_grant set" where
  "effective_grants p u perm = {g \<in> held_grants p u. eg_permission g = perm}"

definition grant_graph :: "policy \<Rightarrow> (subject_id \<times> subject_id) set" where
  "grant_graph p = {(a, b). \<exists>r. (a, b, r) \<in> po_edges p}"

definition holds_all_controls :: "policy \<Rightarrow> control_permissions \<Rightarrow> subject_id \<Rightarrow> bool" where
  "holds_all_controls p controls u =
     (\<forall>c \<in> set (control_list controls). \<exists>g \<in> effective_grants p u c. eg_scope g = ScopeTenant)"

definition controls_well_formed :: "policy \<Rightarrow> control_permissions \<Rightarrow> bool" where
  "controls_well_formed p controls =
     (\<forall>u. \<forall>c \<in> set (control_list controls). \<forall>g \<in> effective_grants p u c. valid_id u \<and> good_grant c g)"

definition has_administrator :: "policy \<Rightarrow> control_permissions \<Rightarrow> bool" where
  "has_administrator p controls = (\<exists>u. holds_all_controls p controls u)"

section \<open>What the operations mean\<close>

definition p_get_role :: "role_id \<Rightarrow> policy \<Rightarrow> error + role" where
  "p_get_role r p = (case po_roles p r of None \<Rightarrow> Inl ErrNotFound | Some x \<Rightarrow> Inr x)"

definition p_has_administrator :: "control_permissions \<Rightarrow> policy \<Rightarrow> error + bool" where
  "p_has_administrator controls p =
     (if controls_well_formed p controls then Inr (has_administrator p controls) else Inl ErrInvalidPolicy)"

definition p_insert_role :: "role \<Rightarrow> policy \<Rightarrow> error + policy" where
  "p_insert_role r p =
     (if po_roles p (ro_id r) \<noteq> None then Inl ErrConflict
      else Inr (p\<lparr>po_roles := (po_roles p)(ro_id r \<mapsto> r),
                  po_grants := (po_grants p)(ro_id r := Map.empty),
                  po_versions := (po_versions p)(ro_id r := Map.empty)\<rparr>))"

definition p_update_role :: "role \<Rightarrow> int64 \<Rightarrow> policy \<Rightarrow> error + policy" where
  "p_update_role r v p =
     (case po_roles p (ro_id r) of
        None \<Rightarrow> Inl ErrNotFound
      | Some x \<Rightarrow>
          if ro_version x \<noteq> v then Inl ErrConflict
          else Inr (p\<lparr>po_roles := (po_roles p)(ro_id r \<mapsto> r\<lparr>ro_version := v + 1\<rparr>)\<rparr>))"

definition p_tombstone_role :: "role_id \<Rightarrow> int64 \<Rightarrow> policy \<Rightarrow> error + policy" where
  "p_tombstone_role r v p =
     (case po_roles p r of
        None \<Rightarrow> Inl ErrNotFound
      | Some x \<Rightarrow>
          if ro_version x \<noteq> v then Inl ErrConflict
          else Inr (p\<lparr>po_roles := (po_roles p)(r \<mapsto> x\<lparr>ro_deleted := True, ro_version := v + 1\<rparr>)\<rparr>))"

definition p_insert_grant :: "role_permission_grant \<Rightarrow> policy \<Rightarrow> error + bool \<times> policy" where
  "p_insert_grant g p =
     (case po_roles p (rg_role g) of
        None \<Rightarrow> Inl ErrNotFound
      | Some x \<Rightarrow>
          if ro_deleted x then Inl ErrNotFound
          else if po_grants p (rg_role g) (grant_key_of g) \<noteq> None then Inr (False, p)
          else Inr (True, p\<lparr>po_grants :=
                 (po_grants p)(rg_role g := (po_grants p (rg_role g))(grant_key_of g \<mapsto> g))\<rparr>))"

definition p_delete_grant :: "role_permission_grant \<Rightarrow> policy \<Rightarrow> error + bool \<times> policy" where
  "p_delete_grant g p =
     (if po_grants p (rg_role g) (grant_key_of g) = None then Inr (False, p)
      else Inr (True, p\<lparr>po_grants :=
             (po_grants p)(rg_role g := (po_grants p (rg_role g))(grant_key_of g := None))\<rparr>))"

definition p_insert_binding :: "subject_role_grant \<Rightarrow> policy \<Rightarrow> error + bool \<times> policy" where
  "p_insert_binding b p =
     (if po_roles p (sg_role b) = None then Inl ErrNotFound
      else if po_bindings p (sg_subject b) (sg_role b) \<noteq> None then Inr (False, p)
      else Inr (True, p\<lparr>po_bindings :=
             (po_bindings p)(sg_subject b := (po_bindings p (sg_subject b))(sg_role b \<mapsto> b))\<rparr>))"

definition p_delete_binding ::
  "subject_id \<Rightarrow> role_id \<Rightarrow> policy \<Rightarrow> error + subject_role_grant option \<times> policy" where
  "p_delete_binding u r p =
     (case po_bindings p u r of
        None \<Rightarrow> Inr (None, p)
      | Some b \<Rightarrow> Inr (Some b, p\<lparr>po_bindings := (po_bindings p)(u := (po_bindings p u)(r := None))\<rparr>))"

definition p_insert_edge :: "grant_edge \<Rightarrow> policy \<Rightarrow> error + policy" where
  "p_insert_edge e p = Inr (p\<lparr>po_edges := insert (edge_key_of e) (po_edges p)\<rparr>)"

definition p_delete_edge :: "grant_edge \<Rightarrow> policy \<Rightarrow> error + policy" where
  "p_delete_edge e p = Inr (p\<lparr>po_edges := po_edges p - {edge_key_of e}\<rparr>)"

definition p_insert_version :: "role_version \<Rightarrow> policy \<Rightarrow> error + policy" where
  "p_insert_version v p = Inr (p\<lparr>po_versions :=
     (po_versions p)(rv_role v := (po_versions p (rv_role v))(rv_version v \<mapsto> v))\<rparr>)"

definition p_insert_audit :: "mutation_audit_event \<Rightarrow> policy \<Rightarrow> error + policy" where
  "p_insert_audit e p = Inr (p\<lparr>po_audit := po_audit p @ [e]\<rparr>)"

definition p_mark_bootstrapped :: "policy \<Rightarrow> error + policy" where
  "p_mark_bootstrapped p = Inr (p\<lparr>po_bootstrapped := True\<rparr>)"

section \<open>The contracts\<close>

text \<open>
  The laws bind an adapter only for the calls \<open>Manager\<close> and \<open>Bootstrapper\<close> make: rows of the tenant
  of the transaction (\<open>home\<close>), workspace roles without the separator of a key, a role written back
  with its next version (\<open>new_revision\<close>), a path between different subjects.
\<close>

definition plain_words :: "string list \<Rightarrow> bool" where
  "plain_words ws = list_all (\<lambda>w. w \<noteq> [] \<and> CHR '','' \<notin> set w) ws"

definition new_revision :: "role \<Rightarrow> role \<Rightarrow> int64 \<Rightarrow> bool" where
  "new_revision x y v = (ro_tenant x = ro_tenant y \<and> ro_deleted x = ro_deleted y \<and> ro_version x = v + 1)"

lemma plain_words_Nil [simp]: "plain_words []"
  by (simp add: plain_words_def)

locale tenant_reader_laws =
  fixes tx :: "'s tenant_tx" and view :: "'s \<Rightarrow> policy" and ok :: "'s \<Rightarrow> bool"
  assumes list_effective_grants:
      "ok s \<Longrightarrow> tx_list_effective_grants tx u perm s = Inr gs \<Longrightarrow> set gs = effective_grants (view s) u perm"
    and get_role: "ok s \<Longrightarrow> tx_get_role tx r s = Inr x \<Longrightarrow> p_get_role r (view s) = Inr x"
    and list_role_permission_grants:
      "ok s \<Longrightarrow> tx_list_role_permission_grants tx r s = Inr gs' \<Longrightarrow>
         set gs' = ran (po_grants (view s) r) \<and> distinct gs'"
    and list_subject_role_ids:
      "ok s \<Longrightarrow> tx_list_subject_role_ids tx u s = Inr rs \<Longrightarrow> set rs = dom (po_bindings (view s) u)"
    and list_role_subject_ids:
      "ok s \<Longrightarrow> tx_list_role_subject_ids tx r s = Inr us \<Longrightarrow>
         set us = {u. po_bindings (view s) u r \<noteq> None}"
    and has_grant_path:
      "ok s \<Longrightarrow> u \<noteq> u' \<Longrightarrow> tx_has_grant_path tx u u' s = Inr c \<Longrightarrow> c \<longleftrightarrow> (u, u') \<in> (grant_graph (view s))\<^sup>*"
    and has_admin:
      "ok s \<Longrightarrow> tx_has_administrator tx controls s = Inr c \<Longrightarrow> p_has_administrator controls (view s) = Inr c"
    and is_bootstrapped:
      "ok s \<Longrightarrow> tx_is_bootstrapped tx s = Inr c \<Longrightarrow> c = po_bootstrapped (view s)"

locale tenant_tx_laws = tenant_reader_laws +
  fixes home :: "tenant_id \<Rightarrow> bool"
  assumes insert_role:
      "ok s \<Longrightarrow> home (ro_tenant x) \<Longrightarrow> \<not> ro_deleted x \<Longrightarrow> tx_insert_role tx x s = Inr s' \<Longrightarrow>
         ok s' \<and> p_insert_role x (view s) = Inr (view s')"
    and update_role:
      "ok s \<Longrightarrow> po_roles (view s) (ro_id x) = Some y \<Longrightarrow> new_revision x y v \<Longrightarrow> tx_update_role tx x v s = Inr s' \<Longrightarrow>
         ok s' \<and> p_update_role x v (view s) = Inr (view s')"
    and tombstone_role:
      "ok s \<Longrightarrow> tx_tombstone_role tx r v s = Inr s' \<Longrightarrow>
         ok s' \<and> p_tombstone_role r v (view s) = Inr (view s')"
    and insert_role_permission_grant:
      "ok s \<Longrightarrow> live_role (view s) (rg_role g) \<Longrightarrow> plain_words (rg_workspace_roles g) \<Longrightarrow>
         tx_insert_role_permission_grant tx g s = Inr (c, s') \<Longrightarrow>
         ok s' \<and> p_insert_grant g (view s) = Inr (c, view s')"
    and delete_role_permission_grant:
      "ok s \<Longrightarrow> plain_words (rg_workspace_roles g) \<Longrightarrow> tx_delete_role_permission_grant tx g s = Inr (c, s') \<Longrightarrow>
         ok s' \<and> p_delete_grant g (view s) = Inr (c, view s')"
    and insert_subject_role_grant:
      "ok s \<Longrightarrow> home (sg_tenant b) \<Longrightarrow> tx_insert_subject_role_grant tx b s = Inr (c, s') \<Longrightarrow>
         ok s' \<and> p_insert_binding b (view s) = Inr (c, view s')"
    and delete_subject_role_grant:
      "ok s \<Longrightarrow> tx_delete_subject_role_grant tx u r s = Inr (d, s') \<Longrightarrow>
         ok s' \<and> p_delete_binding u r (view s) = Inr (d, view s')"
    and insert_grant_edge:
      "ok s \<Longrightarrow> tx_insert_grant_edge tx ed s = Inr s' \<Longrightarrow> ok s' \<and> p_insert_edge ed (view s) = Inr (view s')"
    and delete_grant_edge:
      "ok s \<Longrightarrow> tx_delete_grant_edge tx ed s = Inr s' \<Longrightarrow> ok s' \<and> p_delete_edge ed (view s) = Inr (view s')"
    and insert_role_version:
      "ok s \<Longrightarrow> home (rv_tenant n) \<Longrightarrow> tx_insert_role_version tx n s = Inr s' \<Longrightarrow>
         ok s' \<and> p_insert_version n (view s) = Inr (view s')"
    and insert_mutation_audit:
      "ok s \<Longrightarrow> home (ae_tenant ev) \<Longrightarrow> tx_insert_mutation_audit tx ev s = Inr s' \<Longrightarrow>
         ok s' \<and> p_insert_audit ev (view s) = Inr (view s')"
    and mark_bootstrapped:
      "ok s \<Longrightarrow> tx_mark_bootstrapped tx prov s = Inr s' \<Longrightarrow>
         ok s' \<and> p_mark_bootstrapped (view s) = Inr (view s')"

locale tenant_tx_total = tenant_tx_laws +
  assumes total_list_effective_grants: "ok s \<Longrightarrow> \<exists>gs. tx_list_effective_grants tx u perm s = Inr gs"
    and total_get_role: "ok s \<Longrightarrow> tx_get_role tx r s = Inl e \<Longrightarrow> p_get_role r (view s) = Inl e"
    and total_list_role_permission_grants:
      "ok s \<Longrightarrow> tx_list_role_permission_grants tx r s = Inl e \<Longrightarrow>
         po_roles (view s) r = None \<and> e = ErrNotFound"
    and total_list_role_subject_ids: "ok s \<Longrightarrow> \<exists>us. tx_list_role_subject_ids tx r s = Inr us"
    and total_has_grant_path: "ok s \<Longrightarrow> tx_has_grant_path tx u u' s = Inr ((u, u') \<in> (grant_graph (view s))\<^sup>*)"
    and total_has_admin:
      "ok s \<Longrightarrow> tx_has_administrator tx controls s = Inl e \<Longrightarrow> p_has_administrator controls (view s) = Inl e"
    and total_is_bootstrapped: "ok s \<Longrightarrow> \<exists>c. tx_is_bootstrapped tx s = Inr c"
    and total_insert_role: "ok s \<Longrightarrow> (case tx_insert_role tx x s of Inl e \<Rightarrow> p_insert_role x (view s) = Inl e
        | Inr s' \<Rightarrow> ok s' \<and> p_insert_role x (view s) = Inr (view s'))"
    and total_update_role: "ok s \<Longrightarrow> (case tx_update_role tx x v s of Inl e \<Rightarrow> p_update_role x v (view s) = Inl e
        | Inr s' \<Rightarrow> ok s' \<and> p_update_role x v (view s) = Inr (view s'))"
    and total_tombstone_role:
      "ok s \<Longrightarrow> tx_tombstone_role tx r v s = Inl e \<Longrightarrow> p_tombstone_role r v (view s) = Inl e"
    and total_insert_role_permission_grant:
      "ok s \<Longrightarrow> (case tx_insert_role_permission_grant tx g s of Inl e \<Rightarrow> p_insert_grant g (view s) = Inl e
        | Inr (c, s') \<Rightarrow> ok s' \<and> p_insert_grant g (view s) = Inr (c, view s'))"
    and total_delete_role_permission_grant:
      "ok s \<Longrightarrow> (case tx_delete_role_permission_grant tx g s of Inl e \<Rightarrow> p_delete_grant g (view s) = Inl e
        | Inr (c, s') \<Rightarrow> ok s' \<and> p_delete_grant g (view s) = Inr (c, view s'))"
    and total_insert_subject_role_grant:
      "ok s \<Longrightarrow> (case tx_insert_subject_role_grant tx b s of Inl e \<Rightarrow> p_insert_binding b (view s) = Inl e
        | Inr (c, s') \<Rightarrow> ok s' \<and> p_insert_binding b (view s) = Inr (c, view s'))"
    and total_delete_subject_role_grant:
      "ok s \<Longrightarrow> \<exists>d s'. tx_delete_subject_role_grant tx u r s = Inr (d, s')"
    and total_insert_grant_edge: "ok s \<Longrightarrow> \<exists>s'. tx_insert_grant_edge tx ed s = Inr s'"
    and total_delete_grant_edge: "ok s \<Longrightarrow> \<exists>s'. tx_delete_grant_edge tx ed s = Inr s'"
    and total_insert_role_version: "ok s \<Longrightarrow>
        \<exists>s'. tx_insert_role_version tx n s = Inr s' \<and> ok s' \<and> p_insert_version n (view s) = Inr (view s')"
    and total_insert_mutation_audit: "ok s \<Longrightarrow>
        \<exists>s'. tx_insert_mutation_audit tx ev s = Inr s' \<and> ok s' \<and> p_insert_audit ev (view s) = Inr (view s')"
    and total_mark_bootstrapped: "ok s \<Longrightarrow> \<exists>s'. tx_mark_bootstrapped tx prov s = Inr s'"

end
