(* ===== verification/Manager.thy ===== *)
theory Manager
  imports TenantTx
begin

text \<open>
  \<open>manager.go\<close>: the policy mutations. Every operation is the code's sequence of checks before the
  transaction, the closure it hands to \<open>Store.MutateTenant\<close> (\<open><operation>_tx\<close>, over any
  implementation \<open>tx\<close> of \<open>TenantTx\<close>), and what it does with the outcome: \<open>recordDenied\<close> writes one
  event to the security sink when the transaction failed. The store is a \<open>mutator\<close> on its state
  \<open>st\<close>, the sink a function on its state \<open>a\<close>.
\<close>

section \<open>Inputs and results\<close>

record mutation_result =
  mr_changed :: bool
  mr_role_version :: int64

record create_role_input =
  ci_role :: role_id
  ci_name :: string
  ci_description :: string

record create_role_with_permissions_input = create_role_input +
  ci_permissions :: "permission_key list"

record update_role_input =
  ui_role :: role_id
  ui_expected :: int64
  ui_name :: string
  ui_description :: string

record delete_role_input =
  di_role :: role_id
  di_expected :: int64

record grant_permission_input =
  gi_role :: role_id
  gi_expected :: int64
  gi_permission :: permission_key
  gi_scope :: scope
  gi_workspace_roles :: "string list"

record assign_role_input =
  ai_subject :: subject_id
  ai_role :: role_id
  ai_expected :: int64

record manager =
  mg_catalog :: catalog
  mg_controls :: control_permissions

section \<open>Construction and validation\<close>

definition validateControls :: "catalog \<Rightarrow> control_permissions \<Rightarrow> error + unit" where
  "validateControls c controls =
     echeck (\<lambda>key. if catalog_lookup c key = None then Inl ErrInvalidInput else Inr ())
       [cp_manage_roles controls, cp_manage_grants controls, cp_assign_roles controls]"

text \<open>\<open>None\<close> is a nil dependency.\<close>

definition NewManager ::
  "catalog option \<Rightarrow> 'st option \<Rightarrow> 'm option \<Rightarrow> control_permissions \<Rightarrow> 'a option \<Rightarrow> clock option \<Rightarrow>
     error + manager" where
  "NewManager c store memberships controls securityAudit clk =
     (if c = None \<or> store = None \<or> memberships = None \<or> securityAudit = None \<or> clk = None
      then Inl ErrInvalidInput
      else ebind (validateControls (the c) controls) (\<lambda>_.
        Inr \<lparr>mg_catalog = the c, mg_controls = controls\<rparr>))"

definition reason_rune :: "rune \<Rightarrow> bool" where
  "reason_rune r = (lower r \<or> digit r \<or> r = 95 \<or> r = 45)"

definition validateMeta :: "mutation_metadata \<Rightarrow> error + unit" where
  "validateMeta meta =
     (if trim_space (mm_reason_code meta) = [] then Inl ErrInvalidInput
      else if length (mm_reason_code meta) > 64 then Inl ErrInvalidInput
      else if (\<exists>r \<in> set (runes (mm_reason_code meta)). r > 127 \<or> \<not> reason_rune r) then Inl ErrInvalidInput
      else if length (mm_request_id meta) > 128 then Inl ErrInvalidInput
      else Inr ())"

definition auditEvent ::
  "time \<Rightarrow> tenant_id \<Rightarrow> principal \<Rightarrow> mutation_metadata \<Rightarrow> string \<Rightarrow> string \<Rightarrow> string \<Rightarrow> audit_outcome \<Rightarrow>
     int64 \<Rightarrow> mutation_audit_event" where
  "auditEvent now tenant actor meta operation targetType targetID outcome v =
     \<lparr>ae_tenant = tenant, ae_actor = pr_subject actor, ae_host_initiator = [],
      ae_operation = operation, ae_phase = AuditPhaseResult, ae_target_type = targetType,
      ae_target_id = targetID, ae_outcome = outcome, ae_reason_code = mm_reason_code meta,
      ae_request_id = mm_request_id meta, ae_role_version = v, ae_at = now\<rparr>"

definition denied_outcome :: "error \<Rightarrow> audit_outcome" where
  "denied_outcome cause =
     (if cause = ErrConflict then AuditOutcomeConflict
      else if cause \<noteq> ErrForbidden then AuditOutcomeFailed
      else AuditOutcomeDenied)"

text \<open>A failing sink is only logged.\<close>

definition recordDenied ::
  "'a audit_sink \<Rightarrow> clock \<Rightarrow> principal \<Rightarrow> mutation_metadata \<Rightarrow> string \<Rightarrow> string \<Rightarrow> string \<Rightarrow> int64 \<Rightarrow>
     error \<Rightarrow> 'a \<Rightarrow> 'a" where
  "recordDenied sink clk actor meta operation targetType targetID v cause a =
     snd (sink (auditEvent (clk AtDenied) (pr_tenant actor) actor meta operation targetType targetID
                  (denied_outcome cause) v) a)"

section \<open>Grants of an input\<close>

definition normalize_role :: "string \<Rightarrow> string list \<Rightarrow> error + string list" where
  "normalize_role r out =
     (let trimmed = trim_space r in
      if validateWorkspaceRole trimmed \<noteq> Inr () then Inl ErrInvalidInput
      else if trimmed \<in> set out then Inr out
      else Inr (out @ [trimmed]))"

definition normalizeWorkspaceRoles :: "string list \<Rightarrow> error + string list" where
  "normalizeWorkspaceRoles rs =
     (if length rs = 0 then Inr []
      else ebind (efold normalize_role rs []) (\<lambda>out. Inr (sort_by (<) out)))"

definition validateGrantInput :: "manager \<Rightarrow> grant_permission_input \<Rightarrow> error + role_permission_grant" where
  "validateGrantInput m input =
     (if validateOpaqueID (gi_role input) \<noteq> Inr () then Inl ErrInvalidInput
      else if validatePermissionKey (gi_permission input) \<noteq> Inr () then Inl ErrInvalidInput
      else if catalog_lookup (mg_catalog m) (gi_permission input) = None then Inl ErrInvalidInput
      else if \<not> known_scope (gi_scope input) then Inl ErrInvalidInput
      else ebind (normalizeWorkspaceRoles (gi_workspace_roles input)) (\<lambda>rs.
        Inr \<lparr>rg_role = gi_role input, rg_permission = gi_permission input,
             rg_scope = gi_scope input, rg_workspace_roles = rs\<rparr>))"

definition sorted_less :: "role_permission_grant \<Rightarrow> role_permission_grant \<Rightarrow> bool" where
  "sorted_less a b =
     (if rg_permission a \<noteq> rg_permission b then rg_permission a < rg_permission b
      else if rg_scope a \<noteq> rg_scope b then rg_scope a < rg_scope b
      else sprint_strings (rg_workspace_roles a) < sprint_strings (rg_workspace_roles b))"

definition sortedGrants :: "role_permission_grant list \<Rightarrow> role_permission_grant list" where
  "sortedGrants grants = sort_by sorted_less ([] @ grants)"

section \<open>Authority checks\<close>

definition requireGrant ::
  "'s tenant_tx \<Rightarrow> principal \<Rightarrow> permission_key \<Rightarrow> scope \<Rightarrow> string list \<Rightarrow> bool \<Rightarrow> 's \<Rightarrow> error + unit" where
  "requireGrant tx actor permission target targetRoles exactScope s =
     ebind (tx_list_effective_grants tx (pr_subject actor) permission s) (\<lambda>grants.
     ebind (echeck (\<lambda>grant. validateEffectiveGrant grant permission) grants) (\<lambda>_.
       if (\<exists>g \<in> set grants. allowDelegation permission target targetRoles exactScope g)
       then Inr () else Inl ErrForbidden))"

definition requireActor ::
  "'s tenant_tx \<Rightarrow> principal \<Rightarrow> permission_key \<Rightarrow> scope \<Rightarrow> string list \<Rightarrow> 's \<Rightarrow> error + unit" where
  "requireActor tx actor permission scp workspaceRoles s =
     requireGrant tx actor permission scp workspaceRoles True s"

definition requireActorForGrant ::
  "'s tenant_tx \<Rightarrow> principal \<Rightarrow> permission_key \<Rightarrow> scope \<Rightarrow> string list \<Rightarrow> 's \<Rightarrow> error + unit" where
  "requireActorForGrant tx actor permission target targetRoles s =
     requireGrant tx actor permission target targetRoles False s"

definition requireRoleCoverage ::
  "manager \<Rightarrow> 's tenant_tx \<Rightarrow> principal \<Rightarrow> role_id \<Rightarrow> 's \<Rightarrow> error + unit" where
  "requireRoleCoverage m tx actor r s =
     ebind (tx_list_role_permission_grants tx r s) (\<lambda>grants.
     ebind (echeck (\<lambda>grant.
         if rg_role grant \<noteq> r then Inl ErrInvalidPolicy
         else if catalog_lookup (mg_catalog m) (rg_permission grant) = None then Inl ErrInvalidPolicy
         else validateEffectiveGrant
                \<lparr>eg_role = rg_role grant, eg_permission = rg_permission grant,
                 eg_scope = rg_scope grant, eg_workspace_roles = rg_workspace_roles grant\<rparr>
                (rg_permission grant)) grants) (\<lambda>_.
     echeck (\<lambda>grant.
         requireActorForGrant tx actor (rg_permission grant) (rg_scope grant)
           (rg_workspace_roles grant) s) grants))"

definition guardLastAdministrator :: "manager \<Rightarrow> 's tenant_tx \<Rightarrow> 's \<Rightarrow> error + unit" where
  "guardLastAdministrator m tx s =
     ebind (tx_has_administrator tx (mg_controls m) s) (\<lambda>has.
       if \<not> has then Inl ErrLastAdministrator else Inr ())"

section \<open>Shared steps\<close>

definition bumpRoleVersion ::
  "'s tenant_tx \<Rightarrow> clock \<Rightarrow> role \<Rightarrow> principal \<Rightarrow> int64 \<Rightarrow> 's \<Rightarrow> error + 's" where
  "bumpRoleVersion tx clk r actor next s =
     (let r = r\<lparr>ro_version := next\<rparr> in
      ebind (tx_update_role tx r (next - 1) s) (\<lambda>s.
      ebind (tx_list_role_permission_grants tx (ro_id r) s) (\<lambda>grants.
      tx_insert_role_version tx
        \<lparr>rv_tenant = ro_tenant r, rv_role = ro_id r, rv_version = next, rv_name = ro_name r,
         rv_description = ro_description r, rv_grants = sortedGrants grants, rv_deleted = False,
         rv_created_at = clk AtSnapshot, rv_created_by = pr_subject actor,
         rv_bootstrap_initiator = []\<rparr> s)))"

text \<open>
  What every operation does around its transaction: the closure runs in \<open>MutateTenant\<close>, and a
  failure is recorded as denied.
\<close>

definition in_transaction ::
  "('s, 'r, 'st) mutator \<Rightarrow> 'a audit_sink \<Rightarrow> clock \<Rightarrow> principal \<Rightarrow> mutation_metadata \<Rightarrow> string \<Rightarrow>
     string \<Rightarrow> string \<Rightarrow> int64 \<Rightarrow> ('s \<Rightarrow> error + 'r \<times> 's) \<Rightarrow> 'st \<Rightarrow> 'a \<Rightarrow> (error + 'r) \<times> 'st \<times> 'a" where
  "in_transaction mutate sink clk actor meta operation targetType targetID v body st a =
     (case mutate (pr_tenant actor) body st of
        (Inl e, st') \<Rightarrow>
          (Inl e, st', recordDenied sink clk actor meta operation targetType targetID v e a)
      | (Inr x, st') \<Rightarrow> (Inr x, st', a))"

definition validActor :: "principal \<Rightarrow> bool" where
  "validActor actor =
     (validateOpaqueID (pr_tenant actor) = Inr () \<and> validateOpaqueID (pr_subject actor) = Inr ())"

section \<open>Roles\<close>

definition new_role :: "principal \<Rightarrow> role_id \<Rightarrow> string \<Rightarrow> string \<Rightarrow> role" where
  "new_role actor r name description =
     \<lparr>ro_tenant = pr_tenant actor, ro_id = r, ro_name = trim_space name,
      ro_description = trim_space description, ro_version = 1, ro_deleted = False\<rparr>"

definition snapshot_of ::
  "clock \<Rightarrow> principal \<Rightarrow> role \<Rightarrow> int64 \<Rightarrow> role_permission_grant list \<Rightarrow> bool \<Rightarrow> role_version" where
  "snapshot_of clk actor r v grants deleted =
     \<lparr>rv_tenant = ro_tenant r, rv_role = ro_id r, rv_version = v, rv_name = ro_name r,
      rv_description = ro_description r, rv_grants = grants, rv_deleted = deleted,
      rv_created_at = clk AtSnapshot, rv_created_by = pr_subject actor, rv_bootstrap_initiator = []\<rparr>"

definition createRole_tx ::
  "manager \<Rightarrow> 's tenant_tx \<Rightarrow> clock \<Rightarrow> principal \<Rightarrow> mutation_metadata \<Rightarrow> role \<Rightarrow> 's \<Rightarrow> error + unit \<times> 's" where
  "createRole_tx m tx clk actor meta r s =
     ebind (requireActor tx actor (cp_manage_roles (mg_controls m)) ScopeTenant [] s) (\<lambda>_.
     ebind (tx_insert_role tx r s) (\<lambda>s.
     ebind (tx_insert_role_version tx (snapshot_of clk actor r 1 [] False) s) (\<lambda>s.
     ebind (tx_insert_mutation_audit tx (auditEvent (clk AtEvent) (pr_tenant actor) actor meta
              ''role.create'' ''role'' (ro_id r) AuditOutcomeSuccess 1) s) (\<lambda>s.
     Inr ((), s)))))"

definition CreateRole ::
  "manager \<Rightarrow> 's tenant_tx \<Rightarrow> ('s, unit, 'st) mutator \<Rightarrow> 'a audit_sink \<Rightarrow> clock \<Rightarrow> principal \<Rightarrow>
     mutation_metadata \<Rightarrow> create_role_input \<Rightarrow> 'st \<Rightarrow> 'a \<Rightarrow> (error + role \<times> mutation_result) \<times> 'st \<times> 'a" where
  "CreateRole m tx mutate sink clk actor meta input st a =
     (case ebind (validateMeta meta) (\<lambda>_.
           ebind (guard (validActor actor) ErrInvalidInput) (\<lambda>_.
           ebind (guard (validateOpaqueID (ci_role input) = Inr ()) ErrInvalidInput) (\<lambda>_.
           validateRoleName (ci_name input)))) of
        Inl e \<Rightarrow> (Inl e, st, a)
      | Inr _ \<Rightarrow>
        (let r = new_role actor (ci_role input) (ci_name input) (ci_description input);
             (res, st', a') = in_transaction mutate sink clk actor meta ''role.create'' ''role''
                (ci_role input) 0 (createRole_tx m tx clk actor meta r) st a
         in (ebind res (\<lambda>_. Inr (r, \<lparr>mr_changed = True, mr_role_version = 1\<rparr>)), st', a')))"

definition collect_permission ::
  "catalog \<Rightarrow> permission_key \<Rightarrow> permission_key list \<Rightarrow> error + permission_key list" where
  "collect_permission c permission permissions =
     (if validatePermissionKey permission \<noteq> Inr () then Inl ErrInvalidInput
      else if catalog_lookup c permission = None then Inl ErrInvalidInput
      else if permission \<in> set permissions then Inr permissions
      else Inr (permissions @ [permission]))"

definition initial_grant :: "role_id \<Rightarrow> permission_key \<Rightarrow> role_permission_grant" where
  "initial_grant r permission =
     \<lparr>rg_role = r, rg_permission = permission, rg_scope = ScopeTenant, rg_workspace_roles = []\<rparr>"

definition insert_initial_grant ::
  "'s tenant_tx \<Rightarrow> role_id \<Rightarrow> permission_key \<Rightarrow> 's \<times> role_permission_grant list \<Rightarrow>
     error + 's \<times> role_permission_grant list" where
  "insert_initial_grant tx r permission acc =
     (case acc of (s, grants) \<Rightarrow>
        ebind (tx_insert_role_permission_grant tx (initial_grant r permission) s) (\<lambda>(changed, s).
          if \<not> changed then Inl ErrConflict
          else Inr (s, grants @ [initial_grant r permission])))"

definition createRoleWithPermissions_tx ::
  "manager \<Rightarrow> 's tenant_tx \<Rightarrow> clock \<Rightarrow> principal \<Rightarrow> mutation_metadata \<Rightarrow> role \<Rightarrow> permission_key list \<Rightarrow> 's \<Rightarrow>
     error + unit \<times> 's" where
  "createRoleWithPermissions_tx m tx clk actor meta r permissions s =
     ebind (requireActor tx actor (cp_manage_roles (mg_controls m)) ScopeTenant [] s) (\<lambda>_.
     ebind (echeck (\<lambda>permission. requireActorForGrant tx actor permission ScopeTenant [] s) permissions) (\<lambda>_.
     ebind (tx_insert_role tx r s) (\<lambda>s.
     ebind (efold (insert_initial_grant tx (ro_id r)) permissions (s, [])) (\<lambda>(s, grants).
     ebind (tx_insert_role_version tx (snapshot_of clk actor r 1 (sortedGrants grants) False) s) (\<lambda>s.
     ebind (tx_insert_mutation_audit tx (auditEvent (clk AtEvent) (pr_tenant actor) actor meta
              ''role.create'' ''role'' (ro_id r) AuditOutcomeSuccess 1) s) (\<lambda>s.
     Inr ((), s)))))))"

definition CreateRoleWithPermissions ::
  "manager \<Rightarrow> 's tenant_tx \<Rightarrow> ('s, unit, 'st) mutator \<Rightarrow> 'a audit_sink \<Rightarrow> clock \<Rightarrow> principal \<Rightarrow>
     mutation_metadata \<Rightarrow> create_role_with_permissions_input \<Rightarrow> 'st \<Rightarrow> 'a \<Rightarrow>
     (error + role \<times> mutation_result) \<times> 'st \<times> 'a" where
  "CreateRoleWithPermissions m tx mutate sink clk actor meta input st a =
     (case ebind (validateMeta meta) (\<lambda>_.
           ebind (guard (validActor actor \<and> validateOpaqueID (ci_role input) = Inr ()) ErrInvalidInput) (\<lambda>_.
           ebind (validateRoleName (ci_name input)) (\<lambda>_.
           ebind (guard (length (ci_permissions input) \<le> length (catalog_keys (mg_catalog m))) ErrInvalidInput) (\<lambda>_.
           efold (collect_permission (mg_catalog m)) (ci_permissions input) [])))) of
        Inl e \<Rightarrow> (Inl e, st, a)
      | Inr permissions \<Rightarrow>
        (let r = new_role actor (ci_role input) (ci_name input) (ci_description input);
             (res, st', a') = in_transaction mutate sink clk actor meta ''role.create'' ''role''
                (ci_role input) 0
                (createRoleWithPermissions_tx m tx clk actor meta r (sort_by (<) permissions)) st a
         in (ebind res (\<lambda>_. Inr (r, \<lparr>mr_changed = True, mr_role_version = 1\<rparr>)), st', a')))"

text \<open>Reading the role an operation targets, at the version the caller expects.\<close>

definition target_role :: "'s tenant_tx \<Rightarrow> role_id \<Rightarrow> int64 \<Rightarrow> 's \<Rightarrow> error + role" where
  "target_role tx r expected s =
     ebind (tx_get_role tx r s) (\<lambda>x.
       if ro_deleted x then Inl ErrNotFound
       else if ro_version x \<noteq> expected then Inl ErrConflict
       else Inr x)"

definition updateRole_tx ::
  "manager \<Rightarrow> 's tenant_tx \<Rightarrow> clock \<Rightarrow> principal \<Rightarrow> mutation_metadata \<Rightarrow> update_role_input \<Rightarrow> 's \<Rightarrow>
     error + (role \<times> mutation_result) \<times> 's" where
  "updateRole_tx m tx clk actor meta input s =
     ebind (requireActor tx actor (cp_manage_roles (mg_controls m)) ScopeTenant [] s) (\<lambda>_.
     ebind (target_role tx (ui_role input) (ui_expected input) s) (\<lambda>r.
     (let r = r\<lparr>ro_name := trim_space (ui_name input),
                ro_description := trim_space (ui_description input),
                ro_version := ui_expected input + 1\<rparr> in
     ebind (tx_update_role tx r (ui_expected input) s) (\<lambda>s.
     ebind (tx_list_role_permission_grants tx (ro_id r) s) (\<lambda>grants.
     ebind (tx_insert_role_version tx
              (snapshot_of clk actor r (ro_version r) (sortedGrants grants) False) s) (\<lambda>s.
     ebind (tx_insert_mutation_audit tx (auditEvent (clk AtEvent) (pr_tenant actor) actor meta
              ''role.update'' ''role'' (ui_role input) AuditOutcomeSuccess (ro_version r)) s) (\<lambda>s.
     Inr ((r, \<lparr>mr_changed = True, mr_role_version = ro_version r\<rparr>), s))))))))"

definition UpdateRole ::
  "manager \<Rightarrow> 's tenant_tx \<Rightarrow> ('s, role \<times> mutation_result, 'st) mutator \<Rightarrow> 'a audit_sink \<Rightarrow> clock \<Rightarrow>
     principal \<Rightarrow> mutation_metadata \<Rightarrow> update_role_input \<Rightarrow> 'st \<Rightarrow> 'a \<Rightarrow>
     (error + role \<times> mutation_result) \<times> 'st \<times> 'a" where
  "UpdateRole m tx mutate sink clk actor meta input st a =
     (case ebind (validateMeta meta) (\<lambda>_.
           ebind (guard (validActor actor) ErrInvalidInput) (\<lambda>_.
           ebind (guard (validateOpaqueID (ui_role input) = Inr ()) ErrInvalidInput) (\<lambda>_.
           validateRoleName (ui_name input)))) of
        Inl e \<Rightarrow> (Inl e, st, a)
      | Inr _ \<Rightarrow>
        in_transaction mutate sink clk actor meta ''role.update'' ''role''
          (ui_role input) (ui_expected input) (updateRole_tx m tx clk actor meta input) st a)"

definition deleteRole_tx ::
  "manager \<Rightarrow> 's tenant_tx \<Rightarrow> clock \<Rightarrow> principal \<Rightarrow> mutation_metadata \<Rightarrow> delete_role_input \<Rightarrow> 's \<Rightarrow>
     error + mutation_result \<times> 's" where
  "deleteRole_tx m tx clk actor meta input s =
     ebind (requireActor tx actor (cp_manage_roles (mg_controls m)) ScopeTenant [] s) (\<lambda>_.
     ebind (target_role tx (di_role input) (di_expected input) s) (\<lambda>r.
     ebind (tx_list_role_permission_grants tx (ro_id r) s) (\<lambda>grants.
     ebind (guard (length grants = 0) ErrConflict) (\<lambda>_.
     ebind (tx_list_role_subject_ids tx (ro_id r) s) (\<lambda>subjects.
     ebind (guard (length subjects = 0) ErrConflict) (\<lambda>_.
     ebind (tx_tombstone_role tx (ro_id r) (di_expected input) s) (\<lambda>s.
     (let next = ro_version r + 1 in
     ebind (tx_insert_role_version tx (snapshot_of clk actor r next [] True) s) (\<lambda>s.
     ebind (tx_insert_mutation_audit tx (auditEvent (clk AtEvent) (pr_tenant actor) actor meta
              ''role.delete'' ''role'' (di_role input) AuditOutcomeSuccess next) s) (\<lambda>s.
     Inr (\<lparr>mr_changed = True, mr_role_version = next\<rparr>, s)))))))))))"

definition DeleteRole ::
  "manager \<Rightarrow> 's tenant_tx \<Rightarrow> ('s, mutation_result, 'st) mutator \<Rightarrow> 'a audit_sink \<Rightarrow> clock \<Rightarrow>
     principal \<Rightarrow> mutation_metadata \<Rightarrow> delete_role_input \<Rightarrow> 'st \<Rightarrow> 'a \<Rightarrow>
     (error + mutation_result) \<times> 'st \<times> 'a" where
  "DeleteRole m tx mutate sink clk actor meta input st a =
     (case ebind (validateMeta meta) (\<lambda>_.
           ebind (guard (validActor actor) ErrInvalidInput) (\<lambda>_.
           guard (validateOpaqueID (di_role input) = Inr ()) ErrInvalidInput)) of
        Inl e \<Rightarrow> (Inl e, st, a)
      | Inr _ \<Rightarrow>
        in_transaction mutate sink clk actor meta ''role.delete'' ''role''
          (di_role input) (di_expected input) (deleteRole_tx m tx clk actor meta input) st a)"

section \<open>Grants\<close>

definition grantPermission_tx ::
  "'s tenant_tx \<Rightarrow> clock \<Rightarrow> principal \<Rightarrow> mutation_metadata \<Rightarrow> grant_permission_input \<Rightarrow>
     role_permission_grant \<Rightarrow> 's \<Rightarrow> error + mutation_result \<times> 's" where
  "grantPermission_tx tx clk actor meta input grant s =
     ebind (requireActorForGrant tx actor (rg_permission grant) (rg_scope grant)
              (rg_workspace_roles grant) s) (\<lambda>_.
     ebind (target_role tx (gi_role input) (gi_expected input) s) (\<lambda>r.
     ebind (tx_insert_role_permission_grant tx grant s) (\<lambda>(changed, s).
     if \<not> changed then
       ebind (tx_insert_mutation_audit tx (auditEvent (clk AtEvent) (pr_tenant actor) actor meta
                ''grant.permission'' ''role_permission'' (gi_role input) AuditOutcomeNoop (ro_version r)) s) (\<lambda>s.
       Inr (\<lparr>mr_changed = False, mr_role_version = ro_version r\<rparr>, s))
     else
       (let next = ro_version r + 1 in
       ebind (bumpRoleVersion tx clk r actor next s) (\<lambda>s.
       ebind (tx_insert_mutation_audit tx (auditEvent (clk AtEvent) (pr_tenant actor) actor meta
                ''grant.permission'' ''role_permission'' (gi_role input) AuditOutcomeSuccess next) s) (\<lambda>s.
       Inr (\<lparr>mr_changed = True, mr_role_version = next\<rparr>, s)))))))"

definition GrantPermission ::
  "manager \<Rightarrow> 's tenant_tx \<Rightarrow> ('s, mutation_result, 'st) mutator \<Rightarrow> 'a audit_sink \<Rightarrow> clock \<Rightarrow>
     principal \<Rightarrow> mutation_metadata \<Rightarrow> grant_permission_input \<Rightarrow> 'st \<Rightarrow> 'a \<Rightarrow>
     (error + mutation_result) \<times> 'st \<times> 'a" where
  "GrantPermission m tx mutate sink clk actor meta input st a =
     (case ebind (validateMeta meta) (\<lambda>_.
           ebind (guard (validActor actor) ErrInvalidInput) (\<lambda>_.
           validateGrantInput m input)) of
        Inl e \<Rightarrow> (Inl e, st, a)
      | Inr grant \<Rightarrow>
        in_transaction mutate sink clk actor meta ''grant.permission'' ''role_permission''
          (gi_role input) (gi_expected input) (grantPermission_tx tx clk actor meta input grant) st a)"

definition revokePermission_tx ::
  "manager \<Rightarrow> 's tenant_tx \<Rightarrow> clock \<Rightarrow> principal \<Rightarrow> mutation_metadata \<Rightarrow> grant_permission_input \<Rightarrow>
     role_permission_grant \<Rightarrow> 's \<Rightarrow> error + mutation_result \<times> 's" where
  "revokePermission_tx m tx clk actor meta input grant s =
     ebind (requireActorForGrant tx actor (rg_permission grant) (rg_scope grant)
              (rg_workspace_roles grant) s) (\<lambda>_.
     ebind (target_role tx (gi_role input) (gi_expected input) s) (\<lambda>r.
     ebind (tx_delete_role_permission_grant tx grant s) (\<lambda>(changed, s).
     if \<not> changed then
       ebind (tx_insert_mutation_audit tx (auditEvent (clk AtEvent) (pr_tenant actor) actor meta
                ''revoke.permission'' ''role_permission'' (gi_role input) AuditOutcomeNoop (ro_version r)) s) (\<lambda>s.
       Inr (\<lparr>mr_changed = False, mr_role_version = ro_version r\<rparr>, s))
     else
       ebind (guardLastAdministrator m tx s) (\<lambda>_.
       (let next = ro_version r + 1 in
       ebind (bumpRoleVersion tx clk r actor next s) (\<lambda>s.
       ebind (tx_insert_mutation_audit tx (auditEvent (clk AtEvent) (pr_tenant actor) actor meta
                ''revoke.permission'' ''role_permission'' (gi_role input) AuditOutcomeSuccess next) s) (\<lambda>s.
       Inr (\<lparr>mr_changed = True, mr_role_version = next\<rparr>, s))))))))"

definition RevokePermission ::
  "manager \<Rightarrow> 's tenant_tx \<Rightarrow> ('s, mutation_result, 'st) mutator \<Rightarrow> 'a audit_sink \<Rightarrow> clock \<Rightarrow>
     principal \<Rightarrow> mutation_metadata \<Rightarrow> grant_permission_input \<Rightarrow> 'st \<Rightarrow> 'a \<Rightarrow>
     (error + mutation_result) \<times> 'st \<times> 'a" where
  "RevokePermission m tx mutate sink clk actor meta input st a =
     (case ebind (validateMeta meta) (\<lambda>_.
           ebind (guard (validActor actor) ErrInvalidInput) (\<lambda>_.
           validateGrantInput m input)) of
        Inl e \<Rightarrow> (Inl e, st, a)
      | Inr grant \<Rightarrow>
        in_transaction mutate sink clk actor meta ''revoke.permission'' ''role_permission''
          (gi_role input) (gi_expected input) (revokePermission_tx m tx clk actor meta input grant) st a)"

section \<open>Bindings\<close>

definition assignRole_tx ::
  "manager \<Rightarrow> 's tenant_tx \<Rightarrow> clock \<Rightarrow> principal \<Rightarrow> mutation_metadata \<Rightarrow> assign_role_input \<Rightarrow> 's \<Rightarrow>
     error + mutation_result \<times> 's" where
  "assignRole_tx m tx clk actor meta input s =
     ebind (requireActor tx actor (cp_assign_roles (mg_controls m)) ScopeTenant [] s) (\<lambda>_.
     ebind (target_role tx (ai_role input) (ai_expected input) s) (\<lambda>r.
     ebind (requireRoleCoverage m tx actor (ro_id r) s) (\<lambda>_.
     ebind (if pr_subject actor \<noteq> ai_subject input
            then ebind (tx_has_grant_path tx (ai_subject input) (pr_subject actor) s) (\<lambda>hasPath.
              if hasPath then Inl ErrGrantCycle else Inr ())
            else Inr ()) (\<lambda>_.
     ebind (tx_insert_subject_role_grant tx
              \<lparr>sg_tenant = pr_tenant actor, sg_subject = ai_subject input, sg_role = ai_role input,
               sg_grantor = pr_subject actor, sg_provenance = GrantProvenanceDelegated,
               sg_granted_at = clk AtGrant\<rparr> s) (\<lambda>(changed, s).
     if \<not> changed then
       ebind (tx_insert_mutation_audit tx (auditEvent (clk AtEvent) (pr_tenant actor) actor meta
                ''assign.role'' ''subject_role'' (ai_subject input) AuditOutcomeNoop (ro_version r)) s) (\<lambda>s.
       Inr (\<lparr>mr_changed = False, mr_role_version = ro_version r\<rparr>, s))
     else
       ebind (tx_insert_grant_edge tx
                \<lparr>ge_tenant = pr_tenant actor, ge_grantor = pr_subject actor,
                 ge_grantee = ai_subject input, ge_role = ai_role input, ge_created_at = clk AtEdge\<rparr> s) (\<lambda>s.
       ebind (tx_insert_mutation_audit tx (auditEvent (clk AtEvent) (pr_tenant actor) actor meta
                ''assign.role'' ''subject_role'' (ai_subject input) AuditOutcomeSuccess (ro_version r)) s) (\<lambda>s.
       Inr (\<lparr>mr_changed = True, mr_role_version = ro_version r\<rparr>, s))))))))"

definition validateAssignInput :: "principal \<Rightarrow> mutation_metadata \<Rightarrow> assign_role_input \<Rightarrow> error + unit" where
  "validateAssignInput actor meta input =
     ebind (validateMeta meta) (\<lambda>_.
     ebind (guard (validActor actor) ErrInvalidInput) (\<lambda>_.
     ebind (guard (validateOpaqueID (ai_subject input) = Inr ()) ErrInvalidInput) (\<lambda>_.
     guard (validateOpaqueID (ai_role input) = Inr ()) ErrInvalidInput)))"

definition AssignRole ::
  "manager \<Rightarrow> 's tenant_tx \<Rightarrow> ('s, mutation_result, 'st) mutator \<Rightarrow> 'a audit_sink \<Rightarrow> clock \<Rightarrow>
     principal \<Rightarrow> mutation_metadata \<Rightarrow> assign_role_input \<Rightarrow> 'st \<Rightarrow> 'a \<Rightarrow>
     (error + mutation_result) \<times> 'st \<times> 'a" where
  "AssignRole m tx mutate sink clk actor meta input st a =
     (case validateAssignInput actor meta input of
        Inl e \<Rightarrow> (Inl e, st, a)
      | Inr _ \<Rightarrow>
        in_transaction mutate sink clk actor meta ''assign.role'' ''subject_role''
          (ai_subject input) (ai_expected input) (assignRole_tx m tx clk actor meta input) st a)"

text \<open>An expected version of zero skips the version check.\<close>

definition unassignRole_tx ::
  "manager \<Rightarrow> 's tenant_tx \<Rightarrow> clock \<Rightarrow> principal \<Rightarrow> mutation_metadata \<Rightarrow> assign_role_input \<Rightarrow> 's \<Rightarrow>
     error + mutation_result \<times> 's" where
  "unassignRole_tx m tx clk actor meta input s =
     ebind (requireActor tx actor (cp_assign_roles (mg_controls m)) ScopeTenant [] s) (\<lambda>_.
     ebind (tx_get_role tx (ai_role input) s) (\<lambda>r.
     ebind (guard (\<not> ro_deleted r) ErrNotFound) (\<lambda>_.
     ebind (guard (\<not> (ai_expected input \<noteq> 0 \<and> ro_version r \<noteq> ai_expected input)) ErrConflict) (\<lambda>_.
     ebind (requireRoleCoverage m tx actor (ro_id r) s) (\<lambda>_.
     ebind (tx_delete_subject_role_grant tx (ai_subject input) (ai_role input) s) (\<lambda>(removed, s).
     case removed of
       None \<Rightarrow>
         ebind (tx_insert_mutation_audit tx (auditEvent (clk AtEvent) (pr_tenant actor) actor meta
                  ''unassign.role'' ''subject_role'' (ai_subject input) AuditOutcomeNoop (ro_version r)) s) (\<lambda>s.
         Inr (\<lparr>mr_changed = False, mr_role_version = ro_version r\<rparr>, s))
     | Some b \<Rightarrow>
         ebind (guardLastAdministrator m tx s) (\<lambda>_.
         ebind (if sg_provenance b = GrantProvenanceDelegated \<and> sg_grantor b \<noteq> []
                then tx_delete_grant_edge tx
                       \<lparr>ge_tenant = pr_tenant actor, ge_grantor = sg_grantor b,
                        ge_grantee = ai_subject input, ge_role = ai_role input, ge_created_at = 0\<rparr> s
                else Inr s) (\<lambda>s.
         ebind (tx_insert_mutation_audit tx (auditEvent (clk AtEvent) (pr_tenant actor) actor meta
                  ''unassign.role'' ''subject_role'' (ai_subject input) AuditOutcomeSuccess (ro_version r)) s) (\<lambda>s.
         Inr (\<lparr>mr_changed = True, mr_role_version = ro_version r\<rparr>, s))))))))))"

definition UnassignRole ::
  "manager \<Rightarrow> 's tenant_tx \<Rightarrow> ('s, mutation_result, 'st) mutator \<Rightarrow> 'a audit_sink \<Rightarrow> clock \<Rightarrow>
     principal \<Rightarrow> mutation_metadata \<Rightarrow> assign_role_input \<Rightarrow> 'st \<Rightarrow> 'a \<Rightarrow>
     (error + mutation_result) \<times> 'st \<times> 'a" where
  "UnassignRole m tx mutate sink clk actor meta input st a =
     (case validateAssignInput actor meta input of
        Inl e \<Rightarrow> (Inl e, st, a)
      | Inr _ \<Rightarrow>
        in_transaction mutate sink clk actor meta ''unassign.role'' ''subject_role''
          (ai_subject input) (ai_expected input) (unassignRole_tx m tx clk actor meta input) st a)"

end
