(* ===== verification/PolicySpec.thy ===== *)
theory PolicySpec
  imports Manager
begin

text \<open>
  The abstract specification of the policy mutations: \<open>policy_step\<close> says which changes of a tenant's
  policy an actor may cause and under which authority, without transactions, sinks or
  representations; \<open>bootstrap_step\<close> does so for provisioning. \<open>policy_ok\<close> is the invariant of every
  reachable policy, and the lemmas show that each step keeps it and that no step amplifies authority.
\<close>

section \<open>Authority and stored data\<close>

definition may :: "policy \<Rightarrow> subject_id \<Rightarrow> permission_key \<Rightarrow> scope \<Rightarrow> string list \<Rightarrow> bool \<Rightarrow> bool" where
  "may p u perm target roles exact =
     (\<exists>g \<in> effective_grants p u perm. allowDelegation perm target roles exact g)"

definition may_manage :: "policy \<Rightarrow> subject_id \<Rightarrow> permission_key \<Rightarrow> bool" where
  "may_manage p u perm = may p u perm ScopeTenant [] True"

definition may_delegate :: "policy \<Rightarrow> subject_id \<Rightarrow> role_permission_grant \<Rightarrow> bool" where
  "may_delegate p u g = may p u (rg_permission g) (rg_scope g) (rg_workspace_roles g) False"

definition stored_ok :: "catalog \<Rightarrow> role_permission_grant \<Rightarrow> bool" where
  "stored_ok c g = (good_grant (rg_permission g) (effective_of g) \<and>
     catalog_lookup c (rg_permission g) \<noteq> None \<and> sorted_wrt (<) (rg_workspace_roles g))"

definition snapshot_for :: "role \<Rightarrow> role_permission_grant set \<Rightarrow> role_version \<Rightarrow> bool" where
  "snapshot_for x G v = (rv_tenant v = ro_tenant x \<and> rv_role v = ro_id x \<and>
     rv_version v = ro_version x \<and> rv_name v = ro_name x \<and> rv_description v = ro_description x \<and>
     rv_deleted v = ro_deleted x \<and> set (rv_grants v) = G \<and> sorted_wrt sorted_less (rv_grants v))"

definition grant_map :: "role_permission_grant list \<Rightarrow> grant_key \<rightharpoonup> role_permission_grant" where
  "grant_map gs = map_of (map (\<lambda>g. (grant_key_of g, g)) gs)"

definition set_role :: "role \<Rightarrow> policy \<Rightarrow> policy" where
  "set_role x p = p\<lparr>po_roles := (po_roles p)(ro_id x \<mapsto> x)\<rparr>"

definition set_grants :: "role_id \<Rightarrow> (grant_key \<rightharpoonup> role_permission_grant) \<Rightarrow> policy \<Rightarrow> policy" where
  "set_grants r gm p = p\<lparr>po_grants := (po_grants p)(r := gm)\<rparr>"

definition set_binding :: "subject_id \<Rightarrow> role_id \<Rightarrow> subject_role_grant option \<Rightarrow> policy \<Rightarrow> policy" where
  "set_binding u r b p = p\<lparr>po_bindings := (po_bindings p)(u := (po_bindings p u)(r := b))\<rparr>"

definition set_edges :: "edge_key set \<Rightarrow> policy \<Rightarrow> policy" where
  "set_edges es p = p\<lparr>po_edges := es\<rparr>"

definition clear_versions :: "role_id \<Rightarrow> policy \<Rightarrow> policy" where
  "clear_versions r p = p\<lparr>po_versions := (po_versions p)(r := Map.empty)\<rparr>"

definition add_version :: "role_version \<Rightarrow> policy \<Rightarrow> policy" where
  "add_version v p = p\<lparr>po_versions :=
     (po_versions p)(rv_role v := (po_versions p (rv_role v))(rv_version v \<mapsto> v))\<rparr>"

definition add_audit :: "mutation_audit_event \<Rightarrow> policy \<Rightarrow> policy" where
  "add_audit e p = p\<lparr>po_audit := po_audit p @ [e]\<rparr>"

lemmas change_defs = set_role_def set_grants_def set_binding_def set_edges_def clear_versions_def
  add_version_def add_audit_def

lemma change_simps [simp]:
  "po_roles (set_role x p) = (po_roles p)(ro_id x \<mapsto> x)" "po_grants (set_role x p) = po_grants p"
  "po_bindings (set_role x p) = po_bindings p" "po_edges (set_role x p) = po_edges p"
  "po_versions (set_role x p) = po_versions p" "po_audit (set_role x p) = po_audit p"
  "po_bootstrapped (set_role x p) = po_bootstrapped p"
  "po_roles (set_grants r gm p) = po_roles p" "po_grants (set_grants r gm p) = (po_grants p)(r := gm)"
  "po_bindings (set_grants r gm p) = po_bindings p" "po_edges (set_grants r gm p) = po_edges p"
  "po_versions (set_grants r gm p) = po_versions p" "po_audit (set_grants r gm p) = po_audit p"
  "po_bootstrapped (set_grants r gm p) = po_bootstrapped p"
  "po_roles (set_binding u r b p) = po_roles p" "po_grants (set_binding u r b p) = po_grants p"
  "po_bindings (set_binding u r b p) = (po_bindings p)(u := (po_bindings p u)(r := b))"
  "po_edges (set_binding u r b p) = po_edges p"
  "po_versions (set_binding u r b p) = po_versions p" "po_audit (set_binding u r b p) = po_audit p"
  "po_bootstrapped (set_binding u r b p) = po_bootstrapped p"
  "po_roles (set_edges es p) = po_roles p" "po_grants (set_edges es p) = po_grants p"
  "po_bindings (set_edges es p) = po_bindings p" "po_edges (set_edges es p) = es"
  "po_versions (set_edges es p) = po_versions p" "po_audit (set_edges es p) = po_audit p"
  "po_bootstrapped (set_edges es p) = po_bootstrapped p"
  "po_roles (clear_versions r p) = po_roles p" "po_grants (clear_versions r p) = po_grants p"
  "po_bindings (clear_versions r p) = po_bindings p" "po_edges (clear_versions r p) = po_edges p"
  "po_versions (clear_versions r p) = (po_versions p)(r := Map.empty)"
  "po_audit (clear_versions r p) = po_audit p"
  "po_bootstrapped (clear_versions r p) = po_bootstrapped p"
  by (simp_all add: change_defs)

lemma change_simps' [simp]:
  "po_roles (add_version v p) = po_roles p" "po_grants (add_version v p) = po_grants p"
  "po_bindings (add_version v p) = po_bindings p" "po_edges (add_version v p) = po_edges p"
  "po_versions (add_version v p) =
     (po_versions p)(rv_role v := (po_versions p (rv_role v))(rv_version v \<mapsto> v))"
  "po_audit (add_version v p) = po_audit p" "po_bootstrapped (add_version v p) = po_bootstrapped p"
  "po_roles (add_audit e p) = po_roles p" "po_grants (add_audit e p) = po_grants p"
  "po_bindings (add_audit e p) = po_bindings p" "po_edges (add_audit e p) = po_edges p"
  "po_versions (add_audit e p) = po_versions p" "po_audit (add_audit e p) = po_audit p @ [e]"
  "po_bootstrapped (add_audit e p) = po_bootstrapped p"
  by (simp_all add: change_defs)

lemma change_order:
  "set_grants r gm (clear_versions r p) = clear_versions r (set_grants r gm p)"
  "set_grants r gm (set_grants r gm' p) = set_grants r gm p"
  by (simp_all add: change_defs)

section \<open>Steps\<close>

definition by_actor :: "principal \<Rightarrow> audit_outcome \<Rightarrow> mutation_audit_event \<Rightarrow> bool" where
  "by_actor actor outcome e =
     (ae_tenant e = pr_tenant actor \<and> ae_actor e = pr_subject actor \<and> ae_outcome e = outcome)"

inductive policy_step :: "manager \<Rightarrow> principal \<Rightarrow> policy \<Rightarrow> policy \<Rightarrow> bool" for m actor where
  create:
    "may_manage p (pr_subject actor) (cp_manage_roles (mg_controls m)) \<Longrightarrow>
     po_roles p (ro_id x) = None \<Longrightarrow> valid_id (ro_id x) \<Longrightarrow> ro_tenant x = pr_tenant actor \<Longrightarrow>
     ro_version x = 1 \<Longrightarrow> \<not> ro_deleted x \<Longrightarrow> distinct (map grant_key_of gs) \<Longrightarrow>
     \<forall>g \<in> set gs. stored_ok (mg_catalog m) g \<and> rg_role g = ro_id x \<and> may_delegate p (pr_subject actor) g \<Longrightarrow>
     snapshot_for x (set gs) v \<Longrightarrow> by_actor actor AuditOutcomeSuccess e \<Longrightarrow>
     policy_step m actor p (add_audit e (add_version v (clear_versions (ro_id x)
       (set_grants (ro_id x) (grant_map gs) (set_role x p)))))"
| update:
    "may_manage p (pr_subject actor) (cp_manage_roles (mg_controls m)) \<Longrightarrow>
     po_roles p (ro_id x) = Some x \<Longrightarrow> \<not> ro_deleted x \<Longrightarrow>
     x' = x\<lparr>ro_name := nm, ro_description := desc, ro_version := ro_version x + 1\<rparr> \<Longrightarrow>
     snapshot_for x' (ran (po_grants p (ro_id x))) v \<Longrightarrow> by_actor actor AuditOutcomeSuccess e \<Longrightarrow>
     policy_step m actor p (add_audit e (add_version v (set_role x' p)))"
| delete:
    "may_manage p (pr_subject actor) (cp_manage_roles (mg_controls m)) \<Longrightarrow>
     po_roles p (ro_id x) = Some x \<Longrightarrow> \<not> ro_deleted x \<Longrightarrow> po_grants p (ro_id x) = Map.empty \<Longrightarrow>
     \<forall>u. po_bindings p u (ro_id x) = None \<Longrightarrow>
     x' = x\<lparr>ro_deleted := True, ro_version := ro_version x + 1\<rparr> \<Longrightarrow>
     snapshot_for x' {} v \<Longrightarrow> by_actor actor AuditOutcomeSuccess e \<Longrightarrow>
     policy_step m actor p (add_audit e (add_version v (set_role x' p)))"
| grant:
    "may_delegate p (pr_subject actor) g \<Longrightarrow> stored_ok (mg_catalog m) g \<Longrightarrow> rg_role g = ro_id x \<Longrightarrow>
     po_roles p (ro_id x) = Some x \<Longrightarrow> \<not> ro_deleted x \<Longrightarrow>
     po_grants p (ro_id x) (grant_key_of g) = None \<Longrightarrow>
     gm = (po_grants p (ro_id x))(grant_key_of g \<mapsto> g) \<Longrightarrow>
     x' = x\<lparr>ro_version := ro_version x + 1\<rparr> \<Longrightarrow>
     snapshot_for x' (ran gm) v \<Longrightarrow> by_actor actor AuditOutcomeSuccess e \<Longrightarrow>
     policy_step m actor p (add_audit e (add_version v (set_role x' (set_grants (ro_id x) gm p))))"
| revoke:
    "may_delegate p (pr_subject actor) g \<Longrightarrow> rg_role g = ro_id x \<Longrightarrow>
     po_roles p (ro_id x) = Some x \<Longrightarrow> \<not> ro_deleted x \<Longrightarrow>
     po_grants p (ro_id x) (grant_key_of g) \<noteq> None \<Longrightarrow>
     gm = (po_grants p (ro_id x))(grant_key_of g := None) \<Longrightarrow>
     has_administrator (set_grants (ro_id x) gm p) (mg_controls m) \<Longrightarrow>
     x' = x\<lparr>ro_version := ro_version x + 1\<rparr> \<Longrightarrow>
     snapshot_for x' (ran gm) v \<Longrightarrow> by_actor actor AuditOutcomeSuccess e \<Longrightarrow>
     policy_step m actor p (add_audit e (add_version v (set_role x' (set_grants (ro_id x) gm p))))"
| assign:
    "may_manage p (pr_subject actor) (cp_assign_roles (mg_controls m)) \<Longrightarrow>
     po_roles p r = Some x \<Longrightarrow> \<not> ro_deleted x \<Longrightarrow>
     \<forall>g \<in> ran (po_grants p r). may_delegate p (pr_subject actor) g \<Longrightarrow>
     pr_subject actor = u \<or> (u, pr_subject actor) \<notin> (grant_graph p)\<^sup>* \<Longrightarrow>
     po_bindings p u r = None \<Longrightarrow> valid_id u \<Longrightarrow> valid_id (pr_subject actor) \<Longrightarrow>
     sg_subject b = u \<Longrightarrow> sg_role b = r \<Longrightarrow> sg_grantor b = pr_subject actor \<Longrightarrow>
     sg_provenance b = GrantProvenanceDelegated \<Longrightarrow> by_actor actor AuditOutcomeSuccess e \<Longrightarrow>
     policy_step m actor p (add_audit e (set_edges (insert (pr_subject actor, u, r) (po_edges p))
       (set_binding u r (Some b) p)))"
| unassign:
    "may_manage p (pr_subject actor) (cp_assign_roles (mg_controls m)) \<Longrightarrow>
     po_roles p r = Some x \<Longrightarrow> \<not> ro_deleted x \<Longrightarrow>
     \<forall>g \<in> ran (po_grants p r). may_delegate p (pr_subject actor) g \<Longrightarrow>
     po_bindings p u r = Some b \<Longrightarrow>
     has_administrator (set_binding u r None p) (mg_controls m) \<Longrightarrow>
     es = (if sg_provenance b = GrantProvenanceDelegated \<and> sg_grantor b \<noteq> []
           then po_edges p - {(sg_grantor b, u, r)} else po_edges p) \<Longrightarrow>
     by_actor actor AuditOutcomeSuccess e \<Longrightarrow>
     policy_step m actor p (add_audit e (set_edges es (set_binding u r None p)))"
| noop:
    "held_grants p (pr_subject actor) \<noteq> {} \<Longrightarrow> by_actor actor AuditOutcomeNoop e \<Longrightarrow>
     policy_step m actor p (add_audit e p)"

inductive bootstrap_step :: "manager \<Rightarrow> tenant_id \<Rightarrow> subject_id \<Rightarrow> policy \<Rightarrow> policy \<Rightarrow> bool" for m t owner where
  bootstrap:
    "\<not> po_bootstrapped p \<Longrightarrow> po_roles p (ro_id x) = None \<Longrightarrow> valid_id (ro_id x) \<Longrightarrow> ro_tenant x = t \<Longrightarrow>
     ro_version x = 1 \<Longrightarrow> \<not> ro_deleted x \<Longrightarrow> valid_id owner \<Longrightarrow> distinct (map grant_key_of gs) \<Longrightarrow>
     \<forall>g \<in> set gs. stored_ok (mg_catalog m) g \<and> rg_role g = ro_id x \<Longrightarrow>
     \<forall>c \<in> set (control_list (mg_controls m)). \<exists>g \<in> set gs. rg_permission g = c \<and> rg_scope g = ScopeTenant \<Longrightarrow>
     snapshot_for x (set gs) v \<Longrightarrow> po_bindings p owner (ro_id x) = None \<Longrightarrow>
     sg_subject b = owner \<Longrightarrow> sg_role b = ro_id x \<Longrightarrow> sg_provenance b = GrantProvenanceBootstrap \<Longrightarrow>
     ae_outcome e = AuditOutcomeSuccess \<Longrightarrow>
     bootstrap_step m t owner p ((add_audit e (add_version v (set_binding owner (ro_id x) (Some b)
       (clear_versions (ro_id x) (set_grants (ro_id x) (grant_map gs) (set_role x p))))))\<lparr>po_bootstrapped := True\<rparr>)"

section \<open>The invariant\<close>

definition roles_ok :: "tenant_id \<Rightarrow> policy \<Rightarrow> bool" where
  "roles_ok t p = (\<forall>r x. po_roles p r = Some x \<longrightarrow> ro_id x = r \<and> ro_tenant x = t \<and> valid_id r)"

definition grants_ok :: "catalog \<Rightarrow> policy \<Rightarrow> bool" where
  "grants_ok c p = (\<forall>r k g. po_grants p r k = Some g \<longrightarrow>
     k = grant_key_of g \<and> rg_role g = r \<and> stored_ok c g \<and> live_role p r)"

definition bindings_ok :: "policy \<Rightarrow> bool" where
  "bindings_ok p = (\<forall>u r b. po_bindings p u r = Some b \<longrightarrow>
     sg_subject b = u \<and> sg_role b = r \<and> live_role p r \<and> valid_id u \<and>
     (sg_provenance b = GrantProvenanceDelegated \<longrightarrow> valid_id (sg_grantor b)))"

definition edges_ok :: "policy \<Rightarrow> bool" where
  "edges_ok p = (\<forall>a u r. (a, u, r) \<in> po_edges p \<longleftrightarrow>
     (\<exists>b. po_bindings p u r = Some b \<and> sg_provenance b = GrantProvenanceDelegated \<and> sg_grantor b = a))"

definition acyclic_ok :: "policy \<Rightarrow> bool" where
  "acyclic_ok p = acyclic (grant_graph p - Id)"

definition versions_ok :: "policy \<Rightarrow> bool" where
  "versions_ok p = ((\<forall>r x. po_roles p r = Some x \<longrightarrow>
       (\<exists>v. po_versions p r (ro_version x) = Some v \<and> snapshot_for x (ran (po_grants p r)) v)) \<and>
     (\<forall>r. po_roles p r = None \<longrightarrow> po_versions p r = Map.empty))"

text \<open>Versions are contiguous as long as fewer than \<open>2 ^ 63\<close> mutations were recorded.\<close>

definition history_ok :: "policy \<Rightarrow> bool" where
  "history_ok p = (length (po_audit p) < 2 ^ 63 \<longrightarrow> (\<forall>r x. po_roles p r = Some x \<longrightarrow>
     1 \<le> sint (ro_version x) \<and> sint (ro_version x) \<le> int (length (po_audit p)) \<and>
     dom (po_versions p r) = {n. 1 \<le> sint n \<and> sint n \<le> sint (ro_version x)}))"

definition admin_ok :: "control_permissions \<Rightarrow> policy \<Rightarrow> bool" where
  "admin_ok controls p = ((po_bootstrapped p \<longrightarrow> has_administrator p controls) \<and>
     (\<not> po_bootstrapped p \<longrightarrow> po_roles p = Map.empty))"

definition policy_ok :: "manager \<Rightarrow> tenant_id \<Rightarrow> policy \<Rightarrow> bool" where
  "policy_ok m t p = (roles_ok t p \<and> grants_ok (mg_catalog m) p \<and> bindings_ok p \<and> edges_ok p \<and>
     acyclic_ok p \<and> versions_ok p \<and> history_ok p \<and> admin_ok (mg_controls m) p)"

lemma policy_ok_empty: "policy_ok m t empty_policy"
  by (simp add: policy_ok_def empty_policy_def roles_ok_def grants_ok_def bindings_ok_def edges_ok_def
      acyclic_ok_def versions_ok_def history_ok_def admin_ok_def grant_graph_def acyclic_def)

lemma grant_map_Some:
  "distinct (map grant_key_of gs) \<Longrightarrow> grant_map gs k = Some g \<longleftrightarrow> g \<in> set gs \<and> k = grant_key_of g"
  by (auto simp: grant_map_def map_of_eq_Some_iff comp_def)

lemma ran_grant_map: "distinct (map grant_key_of gs) \<Longrightarrow> ran (grant_map gs) = set gs"
  by (auto simp: ran_def grant_map_Some)

lemma live_role_simps [simp]:
  "live_role (add_audit e p) r = live_role p r" "live_role (add_version v p) r = live_role p r"
  "live_role (clear_versions q p) r = live_role p r" "live_role (set_grants q gm p) r = live_role p r"
  "live_role (set_binding u q b p) r = live_role p r" "live_role (set_edges es p) r = live_role p r"
  "live_role (set_role x p) r = (if r = ro_id x then \<not> ro_deleted x else live_role p r)"
  "live_role (p\<lparr>po_bootstrapped := c\<rparr>) r = live_role p r"
  by (auto simp: live_role_def)

lemma held_grants_iff:
  "g \<in> held_grants p u \<longleftrightarrow> (\<exists>r k h. po_bindings p u r \<noteq> None \<and> live_role p r \<and> po_grants p r k = Some h \<and>
     g = (effective_of h)\<lparr>eg_role := r\<rparr>)"
  unfolding held_grants_def by blast

lemma held_grants_mono:
  assumes "\<And>r. po_bindings p u r \<noteq> None \<Longrightarrow> po_bindings p' u r \<noteq> None"
    and "\<And>r. po_bindings p u r \<noteq> None \<Longrightarrow> live_role p r \<Longrightarrow> live_role p' r"
    and "\<And>r k g. live_role p r \<Longrightarrow> po_grants p r k = Some g \<Longrightarrow> po_grants p' r k = Some g"
  shows "held_grants p u \<subseteq> held_grants p' u"
  using assms unfolding subset_iff held_grants_iff by metis

lemma held_grants_cong:
  assumes "\<And>r. (po_bindings p' u r = None) = (po_bindings p u r = None)"
    and "\<And>r. po_bindings p u r \<noteq> None \<Longrightarrow> live_role p' r = live_role p r"
    and "\<And>r. live_role p r \<Longrightarrow> po_grants p' r = po_grants p r"
  shows "held_grants p' u = held_grants p u"
  using assms unfolding set_eq_iff held_grants_iff by metis

lemma held_grants_simps [simp]:
  "held_grants (add_audit e p) u = held_grants p u" "held_grants (add_version v p) u = held_grants p u"
  "held_grants (clear_versions q p) u = held_grants p u"
  "held_grants (set_edges es p) u = held_grants p u"
  "held_grants (p\<lparr>po_bootstrapped := c\<rparr>) u = held_grants p u"
  by (rule held_grants_cong; simp)+

lemma held_grants_set_role:
  assumes "live_role p (ro_id x) \<longleftrightarrow> \<not> ro_deleted x"
  shows "held_grants (set_role x p) u = held_grants p u"
  by (rule held_grants_cong) (use assms in auto)

lemma has_administrator_mono:
  assumes "has_administrator p controls" and "\<And>u. held_grants p u \<subseteq> held_grants p' u"
  shows "has_administrator p' controls"
  using assms unfolding has_administrator_def holds_all_controls_def effective_grants_def by blast

lemma has_administrator_cong:
  assumes "\<And>u. held_grants p' u = held_grants p u"
  shows "has_administrator p' controls = has_administrator p controls"
  using has_administrator_mono [of p controls p'] has_administrator_mono [of p' controls p] assms by auto

lemma roles_ok_get: "roles_ok t p \<Longrightarrow> po_roles p r = Some x \<Longrightarrow> ro_id x = r"
  by (simp add: roles_ok_def)

lemma live_roleI: "po_roles p r = Some x \<Longrightarrow> \<not> ro_deleted x \<Longrightarrow> live_role p r"
  by (simp add: live_role_def)

lemma grants_ok_live: "grants_ok c p \<Longrightarrow> \<not> live_role p r \<Longrightarrow> po_grants p r = Map.empty"
  unfolding grants_ok_def by (metis ext not_None_eq)

lemma bindings_ok_live: "bindings_ok p \<Longrightarrow> \<not> live_role p r \<Longrightarrow> po_bindings p u r = None"
  unfolding bindings_ok_def by (metis not_None_eq)

section \<open>Each part of the invariant is kept\<close>

lemma roles_ok_cong: "po_roles p' = po_roles p \<Longrightarrow> roles_ok t p' = roles_ok t p"
  by (simp add: roles_ok_def)

lemma roles_ok_set:
  "roles_ok t p \<Longrightarrow> ro_tenant x = t \<Longrightarrow> valid_id (ro_id x) \<Longrightarrow> po_roles p' = (po_roles p)(ro_id x \<mapsto> x) \<Longrightarrow>
     roles_ok t p'"
  unfolding roles_ok_def by (metis fun_upd_apply option.inject)

lemma roles_okD: "roles_ok t p \<Longrightarrow> po_roles p r = Some x \<Longrightarrow> ro_tenant x = t \<and> valid_id r \<and> ro_id x = r"
  unfolding roles_ok_def by blast

lemma step_roles_ok:
  assumes "policy_step m actor p p'" and "roles_ok (pr_tenant actor) p"
  shows "roles_ok (pr_tenant actor) p'"
  using assms
proof cases
  case (create x gs v e)
  then show ?thesis by (intro roles_ok_set [OF assms(2), of x]) auto
next
  case (update x x' desc nm v e)
  with roles_okD [OF assms(2) update(3)] show ?thesis by (intro roles_ok_set [OF assms(2), of x']) auto
next
  case (delete x x' v e)
  with roles_okD [OF assms(2) delete(3)] show ?thesis by (intro roles_ok_set [OF assms(2), of x']) auto
next
  case (grant g x gm x' v e)
  with roles_okD [OF assms(2) grant(5)] show ?thesis by (intro roles_ok_set [OF assms(2), of x']) auto
next
  case (revoke g x gm x' v e)
  with roles_okD [OF assms(2) revoke(4)] show ?thesis by (intro roles_ok_set [OF assms(2), of x']) auto
qed (use assms(2) in \<open>simp_all add: roles_ok_def\<close>)

lemma step_grants_ok:
  assumes "policy_step m actor p p'" and "grants_ok (mg_catalog m) p"
  shows "grants_ok (mg_catalog m) p'"
  using assms
proof cases
  case (create x gs v e)
  then show ?thesis using assms(2) by (auto simp: grants_ok_def grant_map_Some)
next
  case (update x x' desc nm v e)
  then show ?thesis using assms(2) by (auto simp: grants_ok_def)
next
  case (delete x x' v e)
  then show ?thesis using assms(2) by (auto simp: grants_ok_def)
next
  case (grant g x gm x' v e)
  then show ?thesis using assms(2) by (auto simp: grants_ok_def)
next
  case (revoke g x gm x' v e)
  then show ?thesis using assms(2) by (auto simp: grants_ok_def split: if_splits)
next
  case (assign r x u b e)
  then show ?thesis using assms(2) by (auto simp: grants_ok_def)
next
  case (unassign r x u b es e)
  then show ?thesis using assms(2) by (auto simp: grants_ok_def)
next
  case (noop e)
  then show ?thesis using assms(2) by (auto simp: grants_ok_def)
qed

lemma step_bindings_ok:
  assumes "policy_step m actor p p'" and "bindings_ok p"
  shows "bindings_ok p'"
  using assms by cases (auto simp: bindings_ok_def live_role_def split: if_splits)

lemma step_edges_ok:
  assumes "policy_step m actor p p'" and "edges_ok p" and "bindings_ok p"
  shows "edges_ok p'"
  using assms
proof cases
  case (unassign r x u b es e)
  then have "sg_provenance b = GrantProvenanceDelegated \<Longrightarrow> sg_grantor b \<noteq> []"
    using assms(3) unfolding bindings_ok_def by (metis valid_id_nonempty)
  with unassign show ?thesis using assms(2) unfolding edges_ok_def by (auto split: if_splits)
qed (auto simp: edges_ok_def)

lemma grant_graph_edges: "grant_graph p = {(a, b). \<exists>r. (a, b, r) \<in> po_edges p}"
  by (simp add: grant_graph_def)

lemma acyclic_insert_diff:
  assumes "acyclic (R - Id)" and "a = u \<or> (u, a) \<notin> R\<^sup>*"
  shows "acyclic (insert (a, u) R - Id)"
proof (cases "a = u")
  case True
  then have "insert (a, u) R - Id = R - Id" by auto
  with assms(1) show ?thesis by simp
next
  case False
  then have "insert (a, u) R - Id = insert (a, u) (R - Id)" by auto
  with False assms show ?thesis by (simp add: rtrancl_r_diff_Id)
qed

lemma step_acyclic_ok:
  assumes "policy_step m actor p p'" and "acyclic_ok p"
  shows "acyclic_ok p'"
  using assms
proof cases
  case (assign r x u b e)
  have "grant_graph p' = insert (pr_subject actor, u) (grant_graph p)"
    unfolding assign(1) by (auto simp: grant_graph_def)
  with assign assms(2) show ?thesis by (auto simp: acyclic_ok_def intro: acyclic_insert_diff)
next
  case (unassign r x u b es e)
  then have "grant_graph p' \<subseteq> grant_graph p" by (auto simp: grant_graph_def split: if_splits)
  with assms(2) show ?thesis unfolding acyclic_ok_def by (meson Diff_mono acyclic_subset order_refl)
qed (simp_all add: acyclic_ok_def grant_graph_def)

lemma versions_ok_set:
  assumes "versions_ok p" and "po_roles p' = (po_roles p)(ro_id x \<mapsto> x)"
    and "\<And>r. r \<noteq> ro_id x \<Longrightarrow> po_grants p' r = po_grants p r \<and> po_versions p' r = po_versions p r"
    and "po_versions p' (ro_id x) (ro_version x) = Some v"
    and "snapshot_for x (ran (po_grants p' (ro_id x))) v"
  shows "versions_ok p'"
proof -
  have "\<exists>v. po_versions p' r (ro_version y) = Some v \<and> snapshot_for y (ran (po_grants p' r)) v"
    if "po_roles p' r = Some y" for r y
    using that assms unfolding versions_ok_def by (cases "r = ro_id x") auto
  moreover have "po_versions p' r = Map.empty" if "po_roles p' r = None" for r
    using that assms unfolding versions_ok_def by (auto split: if_splits)
  ultimately show ?thesis by (simp add: versions_ok_def)
qed

lemma versions_ok_cong:
  "po_roles p' = po_roles p \<Longrightarrow> po_grants p' = po_grants p \<Longrightarrow> po_versions p' = po_versions p \<Longrightarrow>
     versions_ok p' = versions_ok p"
  by (simp add: versions_ok_def)

lemma step_versions_ok:
  assumes "policy_step m actor p p'" and "versions_ok p"
  shows "versions_ok p'"
  using assms
proof cases
  case (create x gs v e)
  then show ?thesis
    by (intro versions_ok_set [OF assms(2), of _ x v]) (auto simp: snapshot_for_def ran_grant_map)
next
  case (update x x' desc nm v e)
  then show ?thesis
    by (intro versions_ok_set [OF assms(2), of _ x' v]) (auto simp: snapshot_for_def)
next
  case (delete x x' v e)
  then show ?thesis
    by (intro versions_ok_set [OF assms(2), of _ x' v]) (auto simp: snapshot_for_def)
next
  case (grant g x gm x' v e)
  then show ?thesis
    by (intro versions_ok_set [OF assms(2), of _ x' v]) (auto simp: snapshot_for_def)
next
  case (revoke g x gm x' v e)
  then show ?thesis
    by (intro versions_ok_set [OF assms(2), of _ x' v]) (auto simp: snapshot_for_def)
qed (use assms(2) in \<open>simp_all add: versions_ok_def\<close>)

subsection \<open>Version numbers\<close>

lemma sint_next: "sint (v :: int64) + 1 < 2 ^ 63 \<Longrightarrow> sint (v + 1) = sint v + 1"
  using sint_greater_eq [of v]
  by (simp add: signed_take_bit_int_eq_self sint_word_ariths)

lemma version_range_next:
  assumes "1 \<le> sint v" and "sint v + 1 < 2 ^ 63"
  shows "{n :: int64. 1 \<le> sint n \<and> sint n \<le> sint (v + 1)} = insert (v + 1) {n. 1 \<le> sint n \<and> sint n \<le> sint v}"
proof -
  have next_v: "sint (v + 1) = sint v + 1" using assms(2) by (rule sint_next)
  have eq: "n = v + 1 \<longleftrightarrow> sint n = sint v + 1" for n
    using next_v signed_word_eqI by metis
  have "1 \<le> sint n \<and> sint n \<le> sint v + 1 \<longleftrightarrow> sint n = sint v + 1 \<or> 1 \<le> sint n \<and> sint n \<le> sint v" for n
    using assms(1) by linarith
  then show ?thesis unfolding set_eq_iff insert_iff mem_Collect_eq next_v eq by blast
qed

lemma version_range_1: "{n :: int64. 1 \<le> sint n \<and> sint n \<le> 1} = {1}"
proof -
  have "sint n = 1 \<longleftrightarrow> n = 1" for n :: int64
    using signed_word_eqI [of n 1] by auto
  then show ?thesis by (simp add: set_eq_iff order_eq_iff [symmetric] conj_commute)
qed

lemma history_ok_set:
  assumes "history_ok p" and "length (po_audit p') = Suc (length (po_audit p))"
    and roles: "po_roles p' = (po_roles p)(ro_id x \<mapsto> x)"
    and "\<And>r. r \<noteq> ro_id x \<Longrightarrow> po_versions p' r = po_versions p r"
    and step: "ro_version x = 1 \<and> dom (po_versions p' (ro_id x)) = {1} \<or>
      (\<exists>y. po_roles p (ro_id x) = Some y \<and> ro_version x = ro_version y + 1 \<and>
         dom (po_versions p' (ro_id x)) = insert (ro_version x) (dom (po_versions p (ro_id x))))"
  shows "history_ok p'"
  unfolding history_ok_def
proof (intro impI allI)
  fix r z assume bound: "length (po_audit p') < 2 ^ 63" and z: "po_roles p' r = Some z"
  have old: "1 \<le> sint (ro_version y) \<and> sint (ro_version y) \<le> int (length (po_audit p)) \<and>
      dom (po_versions p q) = {n. 1 \<le> sint n \<and> sint n \<le> sint (ro_version y)}"
    if "po_roles p q = Some y" for q y
    using assms(1) that bound assms(2) by (simp add: history_ok_def)
  show "1 \<le> sint (ro_version z) \<and> sint (ro_version z) \<le> int (length (po_audit p')) \<and>
      dom (po_versions p' r) = {n. 1 \<le> sint n \<and> sint n \<le> sint (ro_version z)}"
  proof (cases "r = ro_id x")
    case False
    with z roles old [of r z] assms(2,4) show ?thesis by auto
  next
    case True
    with z roles have zx: "z = x" by simp
    from step show ?thesis
    proof
      assume "ro_version x = 1 \<and> dom (po_versions p' (ro_id x)) = {1}"
      with True zx assms(2) show ?thesis by (simp add: version_range_1)
    next
      assume "\<exists>y. po_roles p (ro_id x) = Some y \<and> ro_version x = ro_version y + 1 \<and>
         dom (po_versions p' (ro_id x)) = insert (ro_version x) (dom (po_versions p (ro_id x)))"
      then obtain y where y: "po_roles p (ro_id x) = Some y" "ro_version x = ro_version y + 1"
        "dom (po_versions p' (ro_id x)) = insert (ro_version x) (dom (po_versions p (ro_id x)))" by blast
      note oldy = old [OF y(1)]
      have "int (length (po_audit p)) + 1 < 2 ^ 63" using bound assms(2) by simp
      with oldy have small: "sint (ro_version y) + 1 < 2 ^ 63" by linarith
      show ?thesis
        using True zx y oldy assms(2) version_range_next [OF _ small] sint_next [OF small] by simp
    qed
  qed
qed

lemma step_history_ok:
  assumes "policy_step m actor p p'" and "history_ok p"
  shows "history_ok p'"
  using assms
proof cases
  case (create x gs v e)
  then show ?thesis
    by (intro history_ok_set [OF assms(2), of _ x]) (auto simp: snapshot_for_def)
next
  case (update x x' desc nm v e)
  then show ?thesis
    by (intro history_ok_set [OF assms(2), of _ x']) (auto simp: snapshot_for_def)
next
  case (delete x x' v e)
  then show ?thesis
    by (intro history_ok_set [OF assms(2), of _ x']) (auto simp: snapshot_for_def)
next
  case (grant g x gm x' v e)
  then show ?thesis
    by (intro history_ok_set [OF assms(2), of _ x']) (auto simp: snapshot_for_def)
next
  case (revoke g x gm x' v e)
  then show ?thesis
    by (intro history_ok_set [OF assms(2), of _ x']) (auto simp: snapshot_for_def)
next
  case (assign r x u b e)
  then show ?thesis using assms(2) by (fastforce simp: history_ok_def)
next
  case (unassign r x u b es e)
  then show ?thesis using assms(2) by (fastforce simp: history_ok_def)
next
  case (noop e)
  then show ?thesis using assms(2) by (fastforce simp: history_ok_def)
qed

section \<open>An administrator stays\<close>

lemma may_held: "may p u perm target roles exact \<Longrightarrow> held_grants p u \<noteq> {}"
  by (auto simp: may_def effective_grants_def)

lemma held_live: "held_grants p u \<noteq> {} \<Longrightarrow> po_roles p \<noteq> Map.empty"
  by (auto simp: held_grants_def live_role_def)

lemma step_held:
  assumes "policy_step m actor p p'"
  shows "held_grants p (pr_subject actor) \<noteq> {}"
  using assms by cases (auto simp: may_manage_def may_delegate_def dest: may_held)

lemma step_admin_ok:
  assumes step: "policy_step m actor p p'" and admin: "admin_ok (mg_controls m) p"
    and "grants_ok (mg_catalog m) p" and bindings: "bindings_ok p"
  shows "admin_ok (mg_controls m) p'"
proof -
  have booted: "po_bootstrapped p"
    using admin held_live [OF step_held [OF step]] by (auto simp: admin_ok_def)
  then have has: "has_administrator p (mg_controls m)" using admin by (simp add: admin_ok_def)
  note mono = has_administrator_mono [OF has] held_grants_mono
  from step show ?thesis
  proof cases
    case (create x gs v e)
    then have "\<not> live_role p (ro_id x)" by (simp add: live_role_def)
    with create have "has_administrator p' (mg_controls m)"
      by (intro mono) (auto split: if_splits)
    with create booted show ?thesis by (simp add: admin_ok_def)
  next
    case (update x x' desc nm v e)
    then have "has_administrator p' (mg_controls m)"
      by (intro mono) (auto simp: live_roleI)
    with update booted show ?thesis by (simp add: admin_ok_def)
  next
    case (delete x x' v e)
    then have "has_administrator p' (mg_controls m)"
      by (intro mono) auto
    with delete booted show ?thesis by (simp add: admin_ok_def)
  next
    case (grant g x gm x' v e)
    then have "has_administrator p' (mg_controls m)"
      by (intro mono) (auto simp: live_roleI)
    with grant booted show ?thesis by (simp add: admin_ok_def)
  next
    case (revoke g x gm x' v e)
    have "held_grants (set_role x' (set_grants (ro_id x) gm p)) u = held_grants (set_grants (ro_id x) gm p) u" for u
      using revoke by (intro held_grants_set_role) (simp add: live_roleI)
    with revoke have "has_administrator p' (mg_controls m)"
      using has_administrator_cong [of p' "set_grants (ro_id x) gm p"] by simp
    with revoke booted show ?thesis by (simp add: admin_ok_def)
  next
    case (assign r x u b e)
    then have "has_administrator p' (mg_controls m)"
      by (intro mono) auto
    with assign booted show ?thesis by (simp add: admin_ok_def)
  next
    case (unassign r x u b es e)
    then have "has_administrator p' (mg_controls m)"
      using has_administrator_cong [of p' "set_binding u r None p"] by simp
    with unassign booted show ?thesis by (simp add: admin_ok_def)
  next
    case (noop e)
    with has booted show ?thesis
      using has_administrator_cong [of p' p] by (simp add: admin_ok_def)
  qed
qed

lemma step_policy_ok:
  assumes "policy_step m actor p p'" and "policy_ok m (pr_tenant actor) p"
  shows "policy_ok m (pr_tenant actor) p'"
  using assms(2)
    step_roles_ok [OF assms(1)] step_grants_ok [OF assms(1)] step_bindings_ok [OF assms(1)]
    step_edges_ok [OF assms(1)] step_acyclic_ok [OF assms(1)] step_versions_ok [OF assms(1)]
    step_history_ok [OF assms(1)] step_admin_ok [OF assms(1)]
  by (simp add: policy_ok_def)

section \<open>No amplification\<close>

lemma may_delegate_covers:
  assumes "may_delegate p a h"
  shows "\<exists>g \<in> held_grants p a. covers_grant g ((effective_of h)\<lparr>eg_role := r\<rparr>)"
  using assms by (auto simp: may_delegate_def may_def effective_grants_def covers_grant_def covers_def)

lemma known_scope_held:
  "grants_ok c p \<Longrightarrow> g \<in> held_grants p u \<Longrightarrow> known_scope (eg_scope g)"
  by (fastforce simp: held_grants_def grants_ok_def stored_ok_def good_grant_def)

lemma step_no_amplification:
  assumes step: "policy_step m actor p p'" and ok: "policy_ok m (pr_tenant actor) p"
  shows "delegation.authority (held_grants p (pr_subject actor) \<union> held_grants p u) (held_grants p' u)"
proof -
  have grants: "grants_ok (mg_catalog m) p" and bindings: "bindings_ok p"
    using ok by (simp_all add: policy_ok_def)
  have new: "\<exists>g \<in> held_grants p (pr_subject actor) \<union> held_grants p u. covers_grant g h"
    if "h \<in> held_grants p u" for h
    using that delegation.cov_refl [OF known_scope_held [OF grants that]] by blast
  have "\<exists>g \<in> held_grants p (pr_subject actor) \<union> held_grants p u. covers_grant g h"
    if "h \<in> held_grants p' u" for h
    using step
  proof cases
    case (create x gs v e)
    then have "\<not> live_role p (ro_id x)" by (simp add: live_role_def)
    with bindings_ok_live [OF bindings] create have "held_grants p' u = held_grants p u"
      by (intro held_grants_cong) auto
    with that new show ?thesis by simp
  next
    case (update x x' desc nm v e)
    then have "held_grants p' u = held_grants p u"
      by (intro held_grants_cong) (auto simp: live_roleI)
    with that new show ?thesis by simp
  next
    case (delete x x' v e)
    then have "held_grants p' u = held_grants p u"
      by (intro held_grants_cong) auto
    with that new show ?thesis by simp
  next
    case (grant g x gm x' v e)
    from that [unfolded held_grants_iff] obtain r k f where f: "po_bindings p' u r \<noteq> None" "live_role p' r" "po_grants p' r k = Some f"
      "h = (effective_of f)\<lparr>eg_role := r\<rparr>" by blast
    show ?thesis
    proof (cases "r = ro_id x \<and> k = grant_key_of g")
      case True
      with f grant have "h = (effective_of g)\<lparr>eg_role := r\<rparr>" by simp
      with may_delegate_covers [OF grant(2), of r] show ?thesis by blast
    next
      case False
      with f grant have "po_bindings p u r \<noteq> None \<and> live_role p r \<and> po_grants p r k = Some f"
        by (auto simp: live_roleI split: if_splits)
      with f(4) have "h \<in> held_grants p u" unfolding held_grants_iff by blast
      then show ?thesis by (rule new)
    qed
  next
    case (revoke g x gm x' v e)
    have "held_grants p' u \<subseteq> held_grants p u"
      unfolding revoke(1) held_grants_simps
      by (rule held_grants_mono) (use revoke in \<open>auto simp: live_roleI split: if_splits\<close>)
    with that new show ?thesis by blast
  next
    case (assign r x w b e)
    from that [unfolded held_grants_iff] obtain q k f where f: "po_bindings p' u q \<noteq> None" "live_role p' q" "po_grants p' q k = Some f"
      "h = (effective_of f)\<lparr>eg_role := q\<rparr>" by blast
    show ?thesis
    proof (cases "q = r \<and> u = w")
      case True
      with f assign have "f \<in> ran (po_grants p r)" by (simp add: ranI)
      with assign(5) have "may_delegate p (pr_subject actor) f" by blast
      with may_delegate_covers [OF this, of q] f(4) show ?thesis by blast
    next
      case False
      with f assign have "po_bindings p u q \<noteq> None \<and> live_role p q \<and> po_grants p q k = Some f"
        by (auto split: if_splits)
      with f(4) have "h \<in> held_grants p u" unfolding held_grants_iff by blast
      then show ?thesis by (rule new)
    qed
  next
    case (unassign r x w b es e)
    have "held_grants p' u \<subseteq> held_grants p u"
      unfolding unassign(1) held_grants_simps
      by (rule held_grants_mono) (auto split: if_splits)
    with that new show ?thesis by blast
  next
    case (noop e)
    with that new show ?thesis by simp
  qed
  then show ?thesis by (simp add: delegation.authority_def)
qed

end
