(* ===== verification/ManagerLaws.thy ===== *)
theory ManagerLaws
  imports PolicySpec
begin

text \<open>
  The mutations of \<open>Manager\<close> refine the abstract steps: over every adapter that keeps the contract
  \<open>tenant_tx_laws\<close>, a transaction of an operation that succeeds takes the policy of the tenant by
  one \<open>policy_step\<close>, and returns the role version it left behind.
\<close>

section \<open>Validation\<close>

lemma reason_rune_bound: "reason_rune r \<Longrightarrow> r \<le> 127"
  by (auto simp: reason_rune_def lower_def digit_def)

definition reason_char :: "char \<Rightarrow> bool" where
  "reason_char c = (CHR ''a'' \<le> c \<and> c \<le> CHR ''z'' \<or> CHR ''0'' \<le> c \<and> c \<le> CHR ''9'' \<or>
     c = CHR ''_'' \<or> c = CHR ''-'')"

lemma validateMeta_Inl: "validateMeta meta = Inl e \<Longrightarrow> e = ErrInvalidInput"
  by (auto simp: validateMeta_def split: if_splits)

lemma validActor_iff: "validActor actor \<longleftrightarrow> valid_id (pr_tenant actor) \<and> valid_id (pr_subject actor)"
  by (simp add: validActor_def valid_id_def)

lemma sorted_wrt_less_unique: "sorted_wrt (<) xs \<Longrightarrow> sorted_wrt (<) ys \<Longrightarrow> set xs = set ys \<Longrightarrow> xs = (ys :: string list)"
  by (rule string_ordering.sorted_unique)

lemma normalize_fold:
  assumes "efold normalize_role rs acc = Inr out" and "distinct acc" and "\<forall>r \<in> set acc. good_segment r"
  shows "distinct out \<and> (\<forall>r \<in> set out. good_segment r) \<and> set out = set acc \<union> trim_space ` set rs"
  using assms
proof (induction rs arbitrary: acc)
  case Nil
  then show ?case by simp
next
  case (Cons r rs)
  from Cons.prems(1) have good: "good_segment (trim_space r)"
    and rest: "efold normalize_role rs (if trim_space r \<in> set acc then acc else acc @ [trim_space r]) = Inr out"
    by (auto simp: normalize_role_def [of r acc] Let_def validateWorkspaceRole_cases err_simps split: if_splits)
  show ?case
  proof (cases "trim_space r \<in> set acc")
    case True
    with Cons.IH [of acc] rest Cons.prems(2,3) show ?thesis by (simp add: insert_absorb)
  next
    case False
    with Cons.IH [of "acc @ [trim_space r]"] rest Cons.prems(2,3) good show ?thesis by auto
  qed
qed

lemma normalizeWorkspaceRoles_Inr:
  assumes "normalizeWorkspaceRoles rs = Inr out"
  shows "sorted_wrt (<) out \<and> (\<forall>r \<in> set out. good_segment r) \<and> set out = trim_space ` set rs"
proof (cases "rs = []")
  case True
  with assms show ?thesis by (auto simp: normalizeWorkspaceRoles_def)
next
  case False
  with assms obtain acc where run: "efold normalize_role rs [] = Inr acc" and out: "out = sort_by (<) acc"
    by (auto simp: normalizeWorkspaceRoles_def err_simps)
  from normalize_fold [OF run] out show ?thesis
    by (simp add: string_ordering.sort_by_sorted)
qed

lemma validateGrantInput_Inr:
  assumes "validateGrantInput m input = Inr g"
  shows "stored_ok (mg_catalog m) g \<and> rg_role g = gi_role input \<and> valid_id (gi_role input) \<and>
    rg_permission g = gi_permission input \<and> rg_scope g = gi_scope input \<and>
    set (rg_workspace_roles g) = trim_space ` set (gi_workspace_roles input)"
  using assms normalizeWorkspaceRoles_Inr
  by (auto simp: validateGrantInput_def stored_ok_def good_grant_def valid_id_def validatePermissionKey_iff
      err_simps split: if_splits)

section \<open>The canonical order of a snapshot\<close>

definition in_role :: "role_id \<Rightarrow> role_permission_grant \<Rightarrow> bool" where
  "in_role r g = (rg_role g = r \<and> (\<forall>w \<in> set (rg_workspace_roles g). good_segment w))"

lemma stored_plain: "stored_ok c g \<Longrightarrow> plain_words (rg_workspace_roles g)"
  by (force simp: stored_ok_def good_grant_def plain_words_def list_all_iff good_segment_def key_char_def
      lower_def digit_def)

lemma good_segment_word: "good_segment w \<Longrightarrow> w \<noteq> [] \<and> CHR '' '' \<notin> set w"
  by (force simp: good_segment_def key_char_def lower_def digit_def)

lemma sprint_roles_inj:
  "in_role r g \<Longrightarrow> in_role r h \<Longrightarrow>
     sprint_strings (rg_workspace_roles g) = sprint_strings (rg_workspace_roles h) \<Longrightarrow>
     rg_workspace_roles g = rg_workspace_roles h"
  by (rule sprint_strings_inj) (auto simp: in_role_def dest: good_segment_word)

interpretation snapshot_order: go_ordering sorted_less "in_role r" for r
proof (unfold_locales, goal_cases)
  case (1 x)
  show ?case by (simp add: sorted_less_def)
next
  case (2 x y z)
  then show ?case by (auto simp: sorted_less_def split: if_splits)
next
  case (3 x y)
  then have "rg_role x = rg_role y" by (simp add: in_role_def)
  with 3 sprint_roles_inj [of r x y] have "rg_permission x \<noteq> rg_permission y \<or> rg_scope x \<noteq> rg_scope y \<or>
      sprint_strings (rg_workspace_roles x) \<noteq> sprint_strings (rg_workspace_roles y)"
    by auto
  then show ?case by (auto simp: sorted_less_def not_less_iff_gr_or_eq)
qed

lemma sortedGrants_sorted:
  "distinct gs \<Longrightarrow> \<forall>g \<in> set gs. in_role r g \<Longrightarrow>
     sorted_wrt sorted_less (sortedGrants gs) \<and> set (sortedGrants gs) = set gs"
  using snapshot_order.sort_by_sorted [of gs r] by (simp add: sortedGrants_def)

lemma stored_in_role: "stored_ok c g \<Longrightarrow> in_role (rg_role g) g"
  by (simp add: stored_ok_def good_grant_def in_role_def)

lemma grants_ok_in_role: "grants_ok c p \<Longrightarrow> \<forall>g \<in> ran (po_grants p r). in_role r g"
  unfolding grants_ok_def ran_def using stored_in_role by fastforce

section \<open>Policy operations as changes\<close>

lemma p_insert_role_Inr:
  "p_insert_role x p = Inr p' \<longleftrightarrow> po_roles p (ro_id x) = None \<and>
     p' = clear_versions (ro_id x) (set_grants (ro_id x) Map.empty (set_role x p))"
  by (auto simp: p_insert_role_def change_defs)

lemma p_update_role_Inr:
  "p_update_role x v p = Inr p' \<longleftrightarrow> (\<exists>y. po_roles p (ro_id x) = Some y \<and> ro_version y = v) \<and>
     p' = set_role (x\<lparr>ro_version := v + 1\<rparr>) p"
  by (auto simp: p_update_role_def change_defs split: option.splits)

lemma p_tombstone_role_Inr:
  "p_tombstone_role r v p = Inr p' \<longleftrightarrow> (\<exists>y. po_roles p r = Some y \<and> ro_version y = v \<and>
     p' = p\<lparr>po_roles := (po_roles p)(r \<mapsto> y\<lparr>ro_deleted := True, ro_version := v + 1\<rparr>)\<rparr>)"
  by (auto simp: p_tombstone_role_def split: option.splits)

lemma p_insert_grant_Inr:
  "p_insert_grant g p = Inr (c, p') \<longleftrightarrow> live_role p (rg_role g) \<and>
     c = (po_grants p (rg_role g) (grant_key_of g) = None) \<and>
     p' = (if c then set_grants (rg_role g) ((po_grants p (rg_role g))(grant_key_of g \<mapsto> g)) p else p)"
  by (auto simp: p_insert_grant_def live_role_def change_defs split: option.splits)

lemma p_delete_grant_Inr:
  "p_delete_grant g p = Inr (c, p') \<longleftrightarrow>
     c = (po_grants p (rg_role g) (grant_key_of g) \<noteq> None) \<and>
     p' = (if c then set_grants (rg_role g) ((po_grants p (rg_role g))(grant_key_of g := None)) p else p)"
  by (auto simp: p_delete_grant_def change_defs)

lemma p_insert_binding_Inr:
  "p_insert_binding b p = Inr (c, p') \<longleftrightarrow> po_roles p (sg_role b) \<noteq> None \<and>
     c = (po_bindings p (sg_subject b) (sg_role b) = None) \<and>
     p' = (if c then set_binding (sg_subject b) (sg_role b) (Some b) p else p)"
  by (auto simp: p_insert_binding_def change_defs)

lemma p_delete_binding_Inr:
  "p_delete_binding u r p = Inr (d, p') \<longleftrightarrow> d = po_bindings p u r \<and>
     p' = (if d = None then p else set_binding u r None p)"
  by (auto simp: p_delete_binding_def change_defs split: option.splits)

lemma p_simple_Inr:
  "p_insert_edge e p = Inr p' \<longleftrightarrow> p' = set_edges (insert (edge_key_of e) (po_edges p)) p"
  "p_delete_edge e p = Inr p' \<longleftrightarrow> p' = set_edges (po_edges p - {edge_key_of e}) p"
  "p_insert_version v p = Inr p' \<longleftrightarrow> p' = add_version v p"
  "p_insert_audit ev p = Inr p' \<longleftrightarrow> p' = add_audit ev p"
  "p_get_role r p = Inr x \<longleftrightarrow> po_roles p r = Some x"
  by (auto simp: p_insert_edge_def p_delete_edge_def p_insert_version_def p_insert_audit_def p_get_role_def
      change_defs split: option.splits)

lemma p_has_administrator_True: "p_has_administrator controls p = Inr True \<Longrightarrow> has_administrator p controls"
  by (simp add: p_has_administrator_def split: if_splits)

lemmas p_ops_Inr = p_insert_role_Inr p_update_role_Inr p_tombstone_role_Inr p_insert_grant_Inr
  p_delete_grant_Inr p_insert_binding_Inr p_delete_binding_Inr p_simple_Inr

section \<open>Refinement\<close>

lemma by_actor_event:
  "by_actor actor outcome (auditEvent now (pr_tenant actor) actor meta operation tt ti outcome v)"
  by (simp add: by_actor_def auditEvent_def)

context tenant_tx_laws
begin

lemma requireGrant_may:
  "ok s \<Longrightarrow> requireGrant tx actor perm target roles exact s = Inr u \<Longrightarrow>
     may (view s) (pr_subject actor) perm target roles exact"
  using list_effective_grants [of s "pr_subject actor" perm]
  by (auto simp: requireGrant_def may_def err_simps split: if_splits)

lemma requireActor_may:
  "ok s \<Longrightarrow> requireActor tx actor perm ScopeTenant [] s = Inr u \<Longrightarrow> may_manage (view s) (pr_subject actor) perm"
  using requireGrant_may by (simp add: requireActor_def may_manage_def)

lemma requireActorForGrant_may:
  "ok s \<Longrightarrow> requireActorForGrant tx actor (rg_permission g) (rg_scope g) (rg_workspace_roles g) s = Inr u \<Longrightarrow>
     may_delegate (view s) (pr_subject actor) g"
  using requireGrant_may by (simp add: requireActorForGrant_def may_delegate_def)

lemma requireRoleCoverage_may:
  assumes "ok s" and "requireRoleCoverage m tx actor r s = Inr u"
  shows "\<forall>g \<in> ran (po_grants (view s) r). may_delegate (view s) (pr_subject actor) g"
proof -
  from assms(2) obtain gs where gs: "tx_list_role_permission_grants tx r s = Inr gs"
    and all: "\<forall>g \<in> set gs. requireActorForGrant tx actor (rg_permission g) (rg_scope g)
      (rg_workspace_roles g) s = Inr ()"
    by (auto simp: requireRoleCoverage_def err_simps)
  from list_role_permission_grants [OF assms(1) gs] all requireActorForGrant_may [OF assms(1)]
  show ?thesis by blast
qed

lemma guardLastAdministrator_has:
  "ok s \<Longrightarrow> guardLastAdministrator m tx s = Inr u \<Longrightarrow> has_administrator (view s) (mg_controls m)"
  using has_admin [of s "mg_controls m" True] p_has_administrator_True
  by (auto simp: guardLastAdministrator_def err_simps split: if_splits)

lemma target_role_run:
  "ok s \<Longrightarrow> target_role tx r v s = Inr x \<Longrightarrow>
     po_roles (view s) r = Some x \<and> \<not> ro_deleted x \<and> ro_version x = v"
  using get_role [of s r]
  by (auto simp: target_role_def p_simple_Inr err_simps split: if_splits)

lemma role_of_policy:
  "policy_ok m t p \<Longrightarrow> po_roles p r = Some x \<Longrightarrow> ro_id x = r"
  using roles_okD [of t p r x] by (simp add: policy_ok_def)

lemma home_of_role: "policy_ok m t p \<Longrightarrow> home t \<Longrightarrow> po_roles p r = Some x \<Longrightarrow> home (ro_tenant x)"
  using roles_okD [of t p r x] by (simp add: policy_ok_def)

text \<open>The rows the operations write are rows of the actor's tenant.\<close>

lemma insert_event:
  "ok s \<Longrightarrow> home (pr_tenant actor) \<Longrightarrow>
     tx_insert_mutation_audit tx (auditEvent now (pr_tenant actor) actor meta op tt ti outcome v) s = Inr s' \<Longrightarrow>
     ok s' \<and> p_insert_audit (auditEvent now (pr_tenant actor) actor meta op tt ti outcome v) (view s) = Inr (view s')"
  by (rule insert_mutation_audit) (simp_all add: auditEvent_def)

lemma insert_snapshot:
  "ok s \<Longrightarrow> home (ro_tenant x) \<Longrightarrow> tx_insert_role_version tx (snapshot_of clk actor x v gs del) s = Inr s' \<Longrightarrow>
     ok s' \<and> p_insert_version (snapshot_of clk actor x v gs del) (view s) = Inr (view s')"
  by (rule insert_role_version) (simp_all add: snapshot_of_def)

lemma insert_new_role:
  "ok s \<Longrightarrow> home (pr_tenant actor) \<Longrightarrow> x = new_role actor r name description \<Longrightarrow> tx_insert_role tx x s = Inr s' \<Longrightarrow>
     ok s' \<and> p_insert_role x (view s) = Inr (view s') \<and> home (ro_tenant x)"
  using insert_role [of s x s'] by (simp add: new_role_def)

lemma snapshot_run:
  assumes ok: "ok s" and home: "home (ro_tenant x)" and gs: "tx_list_role_permission_grants tx (ro_id x) s = Inr gs"
    and role: "\<forall>g \<in> ran (po_grants (view s) (ro_id x)). in_role (ro_id x) g"
    and v: "v = snapshot_of clk actor x (ro_version x) (sortedGrants gs) (ro_deleted x)"
    and ins: "tx_insert_role_version tx v s = Inr s'"
  shows "ok s' \<and> view s' = add_version v (view s) \<and> snapshot_for x (ran (po_grants (view s) (ro_id x))) v"
proof -
  note listed = list_role_permission_grants [OF ok gs]
  with role have "sorted_wrt sorted_less (sortedGrants gs) \<and> set (sortedGrants gs) = set gs"
    by (intro sortedGrants_sorted [of _ "ro_id x"]) auto
  with listed v have "snapshot_for x (ran (po_grants (view s) (ro_id x))) v"
    by (simp add: snapshot_for_def snapshot_of_def)
  with insert_snapshot [OF ok home] ins v show ?thesis by (simp add: p_simple_Inr)
qed

lemma bumpRoleVersion_run:
  assumes ok: "ok s" and home: "home (ro_tenant x)" and row: "po_roles (view s) (ro_id x) = Some x" and run: "bumpRoleVersion tx clk x actor (ro_version x + 1) s = Inr s'"
    and live: "\<not> ro_deleted x"
    and role: "\<forall>g \<in> ran (po_grants (view s) (ro_id x)). in_role (ro_id x) g"
  shows "ok s' \<and> (\<exists>v x'. x' = x\<lparr>ro_version := ro_version x + 1\<rparr> \<and>
    snapshot_for x' (ran (po_grants (view s) (ro_id x))) v \<and> view s' = add_version v (set_role x' (view s)))"
proof -
  let ?x = "x\<lparr>ro_version := ro_version x + 1\<rparr>"
  from run obtain s1 gs where s1: "tx_update_role tx ?x (ro_version x) s = Inr s1"
    and gs: "tx_list_role_permission_grants tx (ro_id ?x) s1 = Inr gs"
    and ins: "tx_insert_role_version tx
      (snapshot_of clk actor ?x (ro_version ?x) (sortedGrants gs) (ro_deleted ?x)) s1 = Inr s'"
    using live by (auto simp: bumpRoleVersion_def Let_def snapshot_of_def err_simps)
  have "new_revision ?x x (ro_version x)" "po_roles (view s) (ro_id ?x) = Some x"
    using row by (simp_all add: new_revision_def)
  from update_role [OF ok this(2,1) s1] have ok1: "ok s1" and view1: "view s1 = set_role ?x (view s)"
    by (auto simp: p_ops_Inr)
  from snapshot_run [OF ok1 _ gs _ refl ins] home role view1 show ?thesis
    by (intro conjI exI [of _ ?x] exI [of _ "snapshot_of clk actor ?x (ro_version ?x) (sortedGrants gs) (ro_deleted ?x)"])
      simp_all
qed

end

section \<open>Operations\<close>

text \<open>The grants an initial role gets, and the loop that inserts them.\<close>

lemma initial_grant_key: "grant_key_of (initial_grant r q) = (q, ScopeTenant, [])"
  by (simp add: grant_key_of_def initial_grant_def)

lemma distinct_initial_keys:
  "distinct qs \<Longrightarrow> distinct (map grant_key_of (map (initial_grant r) qs))"
  by (simp add: comp_def initial_grant_key distinct_map inj_on_def)

lemma collect_permission_cases:
  "collect_permission c q acc =
     (if good_key q \<and> catalog_lookup c q \<noteq> None then Inr (if q \<in> set acc then acc else acc @ [q])
      else Inl ErrInvalidInput)"
  by (simp add: collect_permission_def validatePermissionKey_iff)

lemma collect_permissions:
  assumes "efold (collect_permission c) qs acc = Inr out" and "distinct acc"
    and "list_all (\<lambda>q. good_key q \<and> catalog_lookup c q \<noteq> None) acc"
  shows "distinct out \<and> list_all (\<lambda>q. good_key q \<and> catalog_lookup c q \<noteq> None) out"
  using assms
proof (induction qs arbitrary: acc)
  case Nil
  then show ?case by simp
next
  case (Cons q qs)
  have q: "good_key q \<and> catalog_lookup c q \<noteq> None"
    and rest: "efold (collect_permission c) qs (if q \<in> set acc then acc else acc @ [q]) = Inr out"
    using Cons.prems(1) by (simp_all add: collect_permission_cases [of c q acc] split: if_splits)
  show ?case
    by (rule Cons.IH [OF rest]) (use Cons.prems(2,3) q in simp_all)
qed

lemma ran_empty_iff: "ran m = {} \<longleftrightarrow> m = Map.empty"
  unfolding ran_def fun_eq_iff by (auto, metis option.exhaust)

lemma set_grants_same: "set_grants r (po_grants p r) p = p"
  by (simp add: set_grants_def)

lemma initial_stored_ok:
  "good_key q \<Longrightarrow> catalog_lookup c q \<noteq> None \<Longrightarrow> valid_id r \<Longrightarrow> stored_ok c (initial_grant r q)"
  by (simp add: stored_ok_def good_grant_def initial_grant_def)

context tenant_tx_laws
begin

lemma insert_initial_grants:
  assumes "ok s" and "efold (insert_initial_grant tx r) qs (s, gs) = Inr (s', gs')"
    and "po_grants (view s) r = grant_map gs" and "live_role (view s) r"
  shows "ok s' \<and> gs' = gs @ map (initial_grant r) qs \<and>
    view s' = set_grants r (grant_map gs') (view s)"
  using assms
proof (induction qs arbitrary: s gs)
  case Nil
  then show ?case using set_grants_same [of r "view s"] by simp
next
  case (Cons q qs)
  let ?g = "initial_grant r q"
  have r: "rg_role ?g = r" "plain_words (rg_workspace_roles ?g)" by (simp_all add: initial_grant_def)
  from Cons.prems(2) obtain s1 where s1: "tx_insert_role_permission_grant tx ?g s = Inr (True, s1)"
    and rest: "efold (insert_initial_grant tx r) qs (s1, gs @ [?g]) = Inr (s', gs')"
    by (auto simp: insert_initial_grant_def [of tx r q] err_simps split: if_splits)
  from insert_role_permission_grant [OF Cons.prems(1) _ _ s1] r Cons.prems(4)
  have ok1: "ok s1" and fresh: "po_grants (view s) r (grant_key_of ?g) = None"
    and view1: "view s1 = set_grants r ((po_grants (view s) r)(grant_key_of ?g \<mapsto> ?g)) (view s)"
    by (auto simp: p_insert_grant_Inr)
  have "(grant_map gs)(grant_key_of ?g \<mapsto> ?g) = grant_map (gs @ [?g])"
    using fresh Cons.prems(3) by (auto simp: grant_map_def map_add_def fun_eq_iff split: option.splits)
  then have "po_grants (view s1) r = grant_map (gs @ [?g])"
    using view1 Cons.prems(3) by simp
  moreover have "live_role (view s1) r" using view1 Cons.prems(4) by (simp add: live_role_def)
  ultimately show ?case using Cons.IH [OF ok1 rest] view1 by (simp add: set_grants_def)
qed

lemma createRole_refines:
  assumes ok: "ok s" and home: "home (pr_tenant actor)" and x: "x = new_role actor r name description" and r: "valid_id r"
    and run: "createRole_tx m tx clk actor meta x s = Inr (u, s')"
  shows "ok s' \<and> policy_step m actor (view s) (view s')"
proof -
  let ?v = "snapshot_of clk actor x 1 [] False"
  let ?e = "auditEvent (clk AtEvent) (pr_tenant actor) actor meta ''role.create'' ''role'' (ro_id x)
      AuditOutcomeSuccess 1"
  from run obtain s1 s2 where
    act: "requireActor tx actor (cp_manage_roles (mg_controls m)) ScopeTenant [] s = Inr ()"
    and s1: "tx_insert_role tx x s = Inr s1" and s2: "tx_insert_role_version tx ?v s1 = Inr s2"
    and s3: "tx_insert_mutation_audit tx ?e s2 = Inr s'"
    by (auto simp: createRole_tx_def err_simps)
  note v1 = insert_new_role [OF ok home x s1]
  then have ok1: "ok s1" and home_x: "home (ro_tenant x)" by simp_all
  note v2 = insert_snapshot [OF ok1 home_x s2]
  then have ok2: "ok s2" by simp
  note v3 = insert_event [OF ok2 home s3]
  have gm: "grant_map [] = Map.empty" by (simp add: grant_map_def)
  have view: "view s' = add_audit ?e (add_version ?v (clear_versions (ro_id x)
      (set_grants (ro_id x) (grant_map []) (set_role x (view s)))))"
    using v1 v2 v3 by (simp add: p_ops_Inr gm)
  have "policy_step m actor (view s) (view s')"
    unfolding view
    by (rule policy_step.create)
      (use requireActor_may [OF ok act] v1 x r in
        \<open>simp_all add: new_role_def snapshot_for_def snapshot_of_def p_ops_Inr by_actor_event\<close>)
  with v3 show ?thesis by simp
qed

lemma createRoleWithPermissions_refines:
  assumes ok: "ok s" and home: "home (pr_tenant actor)" and x: "x = new_role actor r name description" and r: "valid_id r"
    and qs: "distinct qs" "\<forall>q \<in> set qs. good_key q \<and> catalog_lookup (mg_catalog m) q \<noteq> None"
    and run: "createRoleWithPermissions_tx m tx clk actor meta x qs s = Inr (u, s')"
  shows "ok s' \<and> policy_step m actor (view s) (view s')"
proof -
  let ?gs = "map (initial_grant (ro_id x)) qs"
  let ?v = "snapshot_of clk actor x 1 (sortedGrants ?gs) False"
  let ?e = "auditEvent (clk AtEvent) (pr_tenant actor) actor meta ''role.create'' ''role'' (ro_id x)
      AuditOutcomeSuccess 1"
  from run obtain s1 s2 s3 gs where
    act: "requireActor tx actor (cp_manage_roles (mg_controls m)) ScopeTenant [] s = Inr ()"
    and cov: "\<forall>q \<in> set qs. requireActorForGrant tx actor q ScopeTenant [] s = Inr ()"
    and s1: "tx_insert_role tx x s = Inr s1"
    and s2: "efold (insert_initial_grant tx (ro_id x)) qs (s1, []) = Inr (s2, gs)"
    and s3: "tx_insert_role_version tx (snapshot_of clk actor x 1 (sortedGrants gs) False) s2 = Inr s3"
    and s4: "tx_insert_mutation_audit tx ?e s3 = Inr s'"
    by (auto simp: createRoleWithPermissions_tx_def err_simps)
  note v1 = insert_new_role [OF ok home x s1]
  then have ok1: "ok s1" and home_x: "home (ro_tenant x)" by simp_all
  have "po_grants (view s1) (ro_id x) = grant_map []" "live_role (view s1) (ro_id x)"
    using v1 x by (simp_all add: p_ops_Inr grant_map_def live_role_def new_role_def)
  note v2 = insert_initial_grants [OF ok1 s2 this]
  then have ok2: "ok s2" and gs: "gs = ?gs" by simp_all
  note v3 = insert_snapshot [OF ok2 home_x s3]
  then have ok3: "ok s3" by simp
  note v4 = insert_event [OF ok3 home s4]
  have view: "view s' = add_audit ?e (add_version ?v (clear_versions (ro_id x)
      (set_grants (ro_id x) (grant_map ?gs) (set_role x (view s)))))"
    using v1 v2 v3 v4 gs by (simp add: p_ops_Inr change_order)
  have keys: "distinct (map grant_key_of ?gs)" by (rule distinct_initial_keys) fact
  have stored: "\<forall>g \<in> set ?gs. stored_ok (mg_catalog m) g \<and> rg_role g = ro_id x"
    using qs(2) r x by (auto simp: new_role_def intro!: initial_stored_ok) (simp add: initial_grant_def)
  have may: "\<forall>g \<in> set ?gs. may_delegate (view s) (pr_subject actor) g"
    using cov requireActorForGrant_may [OF ok, of actor] by (simp add: initial_grant_def)
  have "distinct ?gs" using keys unfolding distinct_map by simp
  moreover have "\<forall>g \<in> set ?gs. in_role (ro_id x) g" using stored stored_in_role by fastforce
  ultimately have sorted: "sorted_wrt sorted_less (sortedGrants ?gs) \<and> set (sortedGrants ?gs) = set ?gs"
    by (rule sortedGrants_sorted)
  have "policy_step m actor (view s) (view s')"
    unfolding view
  proof (rule policy_step.create)
    show "snapshot_for x (set ?gs) ?v"
      using sorted x by (simp add: snapshot_for_def snapshot_of_def new_role_def)
  qed (use requireActor_may [OF ok act] v1 x r keys stored may in
        \<open>simp_all add: new_role_def p_ops_Inr by_actor_event\<close>)
  with v4 show ?thesis by simp
qed

lemma updateRole_refines:
  assumes ok: "ok s" and home: "home (pr_tenant actor)" and inv: "policy_ok m (pr_tenant actor) (view s)"
    and run: "updateRole_tx m tx clk actor meta input s = Inr ((x', res), s')"
  shows "ok s' \<and> policy_step m actor (view s) (view s') \<and>
    po_roles (view s') (ui_role input) = Some x' \<and> mr_role_version res = ro_version x'"
proof -
  from run obtain x where
    act: "requireActor tx actor (cp_manage_roles (mg_controls m)) ScopeTenant [] s = Inr ()"
    and x: "target_role tx (ui_role input) (ui_expected input) s = Inr x"
    by (auto simp: updateRole_tx_def err_simps)
  let ?x = "x\<lparr>ro_name := trim_space (ui_name input), ro_description := trim_space (ui_description input),
      ro_version := ui_expected input + 1\<rparr>"
  let ?e = "auditEvent (clk AtEvent) (pr_tenant actor) actor meta ''role.update'' ''role'' (ui_role input)
      AuditOutcomeSuccess (ro_version ?x)"
  note role = target_role_run [OF ok x]
  have id: "ro_id x = ui_role input" using role inv roles_okD by (simp add: policy_ok_def) blast
  from run act x obtain s1 s2 gs where s1: "tx_update_role tx ?x (ui_expected input) s = Inr s1"
    and gs: "tx_list_role_permission_grants tx (ro_id ?x) s1 = Inr gs"
    and s2: "tx_insert_role_version tx (snapshot_of clk actor ?x (ro_version ?x) (sortedGrants gs) False) s1 = Inr s2"
    and s3: "tx_insert_mutation_audit tx ?e s2 = Inr s'"
    and res: "x' = ?x" "mr_role_version res = ro_version ?x"
    by (auto simp: updateRole_tx_def Let_def err_simps)
  have "new_revision ?x x (ui_expected input)" "po_roles (view s) (ro_id ?x) = Some x"
    using role id by (simp_all add: new_revision_def)
  from update_role [OF ok this(2,1) s1] have ok1: "ok s1" and view1: "view s1 = set_role ?x (view s)"
    by (auto simp: p_ops_Inr)
  have home_x: "home (ro_tenant ?x)" using home_of_role [OF inv home, of _ x] role by auto
  have live: "ro_deleted ?x = False" using role by simp
  have in_r: "\<forall>g \<in> ran (po_grants (view s1) (ro_id ?x)). in_role (ro_id ?x) g"
    using grants_ok_in_role [of "mg_catalog m" "view s" "ro_id x"] inv view1 by (simp add: policy_ok_def)
  note v2 = snapshot_run [OF ok1 home_x gs in_r _ s2, unfolded live, OF refl]
  then have ok2: "ok s2" by simp
  note v3 = insert_event [OF ok2 home s3]
  have view: "view s' = add_audit ?e (add_version
      (snapshot_of clk actor ?x (ro_version ?x) (sortedGrants gs) False) (set_role ?x (view s)))"
    using v2 v3 view1 by (simp add: p_ops_Inr)
  have "policy_step m actor (view s) (view s')"
    unfolding view
    by (rule policy_step.update [of _ _ _ x])
      (use requireActor_may [OF ok act] role id v2 view1 in \<open>simp_all add: by_actor_event\<close>)
  with v3 view res id show ?thesis by simp
qed

lemma deleteRole_refines:
  assumes ok: "ok s" and home: "home (pr_tenant actor)" and inv: "policy_ok m (pr_tenant actor) (view s)"
    and run: "deleteRole_tx m tx clk actor meta input s = Inr (res, s')"
  shows "ok s' \<and> policy_step m actor (view s) (view s') \<and> \<not> live_role (view s') (di_role input)"
proof -
  from run obtain x where
    act: "requireActor tx actor (cp_manage_roles (mg_controls m)) ScopeTenant [] s = Inr ()"
    and x: "target_role tx (di_role input) (di_expected input) s = Inr x"
    by (auto simp: deleteRole_tx_def err_simps)
  let ?v = "snapshot_of clk actor x (ro_version x + 1) [] True"
  let ?e = "auditEvent (clk AtEvent) (pr_tenant actor) actor meta ''role.delete'' ''role'' (di_role input)
      AuditOutcomeSuccess (ro_version x + 1)"
  note role = target_role_run [OF ok x]
  have id: "ro_id x = di_role input" using role inv roles_okD by (simp add: policy_ok_def) blast
  from run act x obtain s1 s2 where
    gs: "tx_list_role_permission_grants tx (ro_id x) s = Inr []"
    and us: "tx_list_role_subject_ids tx (ro_id x) s = Inr []"
    and s1: "tx_tombstone_role tx (ro_id x) (di_expected input) s = Inr s1"
    and s2: "tx_insert_role_version tx ?v s1 = Inr s2"
    and s3: "tx_insert_mutation_audit tx ?e s2 = Inr s'"
    by (auto simp: deleteRole_tx_def Let_def err_simps)
  let ?x = "x\<lparr>ro_deleted := True, ro_version := ro_version x + 1\<rparr>"
  have empty: "po_grants (view s) (ro_id x) = Map.empty"
    using list_role_permission_grants [OF ok gs] ran_empty_iff by (metis list.set(1))
  have unbound: "\<forall>u. po_bindings (view s) u (ro_id x) = None"
    using list_role_subject_ids [OF ok us] by auto
  from tombstone_role [OF ok s1] role id have ok1: "ok s1" and view1: "view s1 = set_role ?x (view s)"
    by (auto simp: p_ops_Inr set_role_def)
  have home_x: "home (ro_tenant x)" using home_of_role [OF inv home] role by blast
  note v2 = insert_snapshot [OF ok1 home_x s2]
  then have ok2: "ok s2" by simp
  note v3 = insert_event [OF ok2 home s3]
  have view: "view s' = add_audit ?e (add_version ?v (set_role ?x (view s)))"
    using v2 v3 view1 by (simp add: p_ops_Inr)
  have "policy_step m actor (view s) (view s')"
    unfolding view
    by (rule policy_step.delete [of _ _ _ x])
      (use requireActor_may [OF ok act] role id empty unbound in
        \<open>simp_all add: by_actor_event snapshot_for_def snapshot_of_def\<close>)
  with v3 view id show ?thesis by simp
qed

end

context tenant_tx_laws
begin

lemma held_may_delegate: "may_delegate p a g \<Longrightarrow> held_grants p a \<noteq> {}"
  unfolding may_delegate_def by (rule may_held)

lemma held_may_manage: "may_manage p a perm \<Longrightarrow> held_grants p a \<noteq> {}"
  unfolding may_manage_def by (rule may_held)

lemma grantPermission_refines:
  assumes ok: "ok s" and home: "home (pr_tenant actor)" and inv: "policy_ok m (pr_tenant actor) (view s)"
    and g: "validateGrantInput m input = Inr g"
    and run: "grantPermission_tx tx clk actor meta input g s = Inr (res, s')"
  shows "ok s' \<and> policy_step m actor (view s) (view s') \<and>
    po_grants (view s') (gi_role input) (grant_key_of g) \<noteq> None \<and>
    (\<exists>x. po_roles (view s') (gi_role input) = Some x \<and> ro_version x = mr_role_version res)"
proof -
  note valid = validateGrantInput_Inr [OF g]
  from run obtain x c s1 where
    act: "requireActorForGrant tx actor (rg_permission g) (rg_scope g) (rg_workspace_roles g) s = Inr ()"
    and x: "target_role tx (gi_role input) (gi_expected input) s = Inr x"
    and s1: "tx_insert_role_permission_grant tx g s = Inr (c, s1)"
    by (auto simp: grantPermission_tx_def err_simps)
  note may = requireActorForGrant_may [OF ok act]
  note role = target_role_run [OF ok x]
  with role_of_policy [OF inv] have id: "ro_id x = gi_role input" by simp
  have live: "live_role (view s) (rg_role g)" using role id valid by (simp add: live_role_def)
  have plain: "plain_words (rg_workspace_roles g)" using valid stored_plain by blast
  note v1 = insert_role_permission_grant [OF ok live plain s1, unfolded p_insert_grant_Inr]
  then have ok1: "ok s1" by simp
  show ?thesis
  proof (cases c)
    case False
    let ?e = "auditEvent (clk AtEvent) (pr_tenant actor) actor meta ''grant.permission'' ''role_permission''
        (gi_role input) AuditOutcomeNoop (ro_version x)"
    from False run act x s1 have s2: "tx_insert_mutation_audit tx ?e s1 = Inr s'"
      and res: "mr_role_version res = ro_version x"
      by (auto simp: grantPermission_tx_def err_simps)
    note v2 = insert_event [OF ok1 home s2]
    with v1 False have view: "view s' = add_audit ?e (view s)" by (simp add: p_ops_Inr)
    have "policy_step m actor (view s) (view s')"
      unfolding view by (rule policy_step.noop [OF held_may_delegate [OF may] by_actor_event])
    with v2 view v1 False valid role res show ?thesis by simp
  next
    case True
    let ?gm = "(po_grants (view s) (ro_id x))(grant_key_of g \<mapsto> g)"
    let ?e = "auditEvent (clk AtEvent) (pr_tenant actor) actor meta ''grant.permission'' ''role_permission''
        (gi_role input) AuditOutcomeSuccess (ro_version x + 1)"
    from True run act x s1 obtain s2 where s2: "bumpRoleVersion tx clk x actor (ro_version x + 1) s1 = Inr s2"
      and s3: "tx_insert_mutation_audit tx ?e s2 = Inr s'" and res: "mr_role_version res = ro_version x + 1"
      by (auto simp: grantPermission_tx_def Let_def err_simps)
    have view1: "view s1 = set_grants (ro_id x) ?gm (view s)" using v1 True valid id by simp
    have "in_role (ro_id x) g" using valid id stored_in_role by metis
    then have in_r: "\<forall>g \<in> ran (po_grants (view s1) (ro_id x)). in_role (ro_id x) g"
      using grants_ok_in_role [of "mg_catalog m" "view s" "ro_id x"] inv view1
      by (auto simp: policy_ok_def ran_def)
    have "home (ro_tenant x)" "po_roles (view s1) (ro_id x) = Some x"
      using home_of_role [OF inv home, of _ x] role view1 id by auto
    from bumpRoleVersion_run [OF ok1 this s2 _ in_r] role obtain v x' where ok2: "ok s2"
      and x': "x' = x\<lparr>ro_version := ro_version x + 1\<rparr>"
      and v: "snapshot_for x' (ran (po_grants (view s1) (ro_id x))) v"
      and view2: "view s2 = add_version v (set_role x' (view s1))" by blast
    note v3 = insert_event [OF ok2 home s3]
    have view: "view s' = add_audit ?e (add_version v (set_role x' (set_grants (ro_id x) ?gm (view s))))"
      using v3 view2 view1 by (simp add: p_ops_Inr)
    have "policy_step m actor (view s) (view s')"
      unfolding view
      by (rule policy_step.grant [of _ _ g _ x])
        (use may valid role id x' v view1 v1 True in \<open>simp_all add: by_actor_event\<close>)
    with v3 view res id x' show ?thesis by simp
  qed
qed

lemma revokePermission_refines:
  assumes ok: "ok s" and home: "home (pr_tenant actor)" and inv: "policy_ok m (pr_tenant actor) (view s)"
    and g: "validateGrantInput m input = Inr g"
    and run: "revokePermission_tx m tx clk actor meta input g s = Inr (res, s')"
  shows "ok s' \<and> policy_step m actor (view s) (view s') \<and>
    po_grants (view s') (gi_role input) (grant_key_of g) = None \<and>
    (\<exists>x. po_roles (view s') (gi_role input) = Some x \<and> ro_version x = mr_role_version res)"
proof -
  note valid = validateGrantInput_Inr [OF g]
  from run obtain x c s1 where
    act: "requireActorForGrant tx actor (rg_permission g) (rg_scope g) (rg_workspace_roles g) s = Inr ()"
    and x: "target_role tx (gi_role input) (gi_expected input) s = Inr x"
    and s1: "tx_delete_role_permission_grant tx g s = Inr (c, s1)"
    by (auto simp: revokePermission_tx_def err_simps)
  note may = requireActorForGrant_may [OF ok act]
  note role = target_role_run [OF ok x]
  with role_of_policy [OF inv] have id: "ro_id x = gi_role input" by simp
  have plain: "plain_words (rg_workspace_roles g)" using valid stored_plain by blast
  note v1 = delete_role_permission_grant [OF ok plain s1, unfolded p_delete_grant_Inr]
  then have ok1: "ok s1" by simp
  show ?thesis
  proof (cases c)
    case False
    let ?e = "auditEvent (clk AtEvent) (pr_tenant actor) actor meta ''revoke.permission'' ''role_permission''
        (gi_role input) AuditOutcomeNoop (ro_version x)"
    from False run act x s1 have s2: "tx_insert_mutation_audit tx ?e s1 = Inr s'"
      and res: "mr_role_version res = ro_version x"
      by (auto simp: revokePermission_tx_def err_simps)
    note v2 = insert_event [OF ok1 home s2]
    with v1 False have view: "view s' = add_audit ?e (view s)" by (simp add: p_ops_Inr)
    have "policy_step m actor (view s) (view s')"
      unfolding view by (rule policy_step.noop [OF held_may_delegate [OF may] by_actor_event])
    with v2 view v1 False valid role res show ?thesis by simp
  next
    case True
    let ?gm = "(po_grants (view s) (ro_id x))(grant_key_of g := None)"
    let ?e = "auditEvent (clk AtEvent) (pr_tenant actor) actor meta ''revoke.permission'' ''role_permission''
        (gi_role input) AuditOutcomeSuccess (ro_version x + 1)"
    from True run act x s1 obtain s2 where adm: "guardLastAdministrator m tx s1 = Inr ()"
      and s2: "bumpRoleVersion tx clk x actor (ro_version x + 1) s1 = Inr s2"
      and s3: "tx_insert_mutation_audit tx ?e s2 = Inr s'" and res: "mr_role_version res = ro_version x + 1"
      by (auto simp: revokePermission_tx_def Let_def err_simps)
    have view1: "view s1 = set_grants (ro_id x) ?gm (view s)" using v1 True valid id by simp
    have in_r: "\<forall>g \<in> ran (po_grants (view s1) (ro_id x)). in_role (ro_id x) g"
      using grants_ok_in_role [of "mg_catalog m" "view s" "ro_id x"] inv view1
      by (auto simp: policy_ok_def ran_def split: if_splits)
    have "home (ro_tenant x)" "po_roles (view s1) (ro_id x) = Some x"
      using home_of_role [OF inv home, of _ x] role view1 id by auto
    from bumpRoleVersion_run [OF ok1 this s2 _ in_r] role obtain v x' where ok2: "ok s2"
      and x': "x' = x\<lparr>ro_version := ro_version x + 1\<rparr>"
      and v: "snapshot_for x' (ran (po_grants (view s1) (ro_id x))) v"
      and view2: "view s2 = add_version v (set_role x' (view s1))" by blast
    note v3 = insert_event [OF ok2 home s3]
    have view: "view s' = add_audit ?e (add_version v (set_role x' (set_grants (ro_id x) ?gm (view s))))"
      using v3 view2 view1 by (simp add: p_ops_Inr)
    have "policy_step m actor (view s) (view s')"
      unfolding view
      by (rule policy_step.revoke [of _ _ g x])
        (use may valid role id x' v view1 v1 True guardLastAdministrator_has [OF ok1 adm] in
          \<open>simp_all add: by_actor_event\<close>)
    with v3 view res id x' show ?thesis by simp
  qed
qed

lemma assignRole_refines:
  assumes ok: "ok s" and home: "home (pr_tenant actor)" and inv: "policy_ok m (pr_tenant actor) (view s)"
    and valid: "validateAssignInput actor meta input = Inr ()"
    and run: "assignRole_tx m tx clk actor meta input s = Inr (res, s')"
  shows "ok s' \<and> policy_step m actor (view s) (view s') \<and>
    po_bindings (view s') (ai_subject input) (ai_role input) \<noteq> None"
proof -
  have ids: "valid_id (pr_subject actor)" "valid_id (ai_subject input)"
    using valid by (auto simp: validateAssignInput_def validActor_iff valid_id_def err_simps)
  let ?b = "\<lparr>sg_tenant = pr_tenant actor, sg_subject = ai_subject input, sg_role = ai_role input,
      sg_grantor = pr_subject actor, sg_provenance = GrantProvenanceDelegated, sg_granted_at = clk AtGrant\<rparr>"
  let ?ed = "\<lparr>ge_tenant = pr_tenant actor, ge_grantor = pr_subject actor, ge_grantee = ai_subject input,
      ge_role = ai_role input, ge_created_at = clk AtEdge\<rparr>"
  from run obtain x c s1 where
    act: "requireActor tx actor (cp_assign_roles (mg_controls m)) ScopeTenant [] s = Inr ()"
    and x: "target_role tx (ai_role input) (ai_expected input) s = Inr x"
    and cov: "requireRoleCoverage m tx actor (ro_id x) s = Inr ()"
    and path: "pr_subject actor = ai_subject input \<or>
      tx_has_grant_path tx (ai_subject input) (pr_subject actor) s = Inr False"
    and s1: "tx_insert_subject_role_grant tx ?b s = Inr (c, s1)"
    by (auto simp: assignRole_tx_def err_simps split: if_splits)
  note may = requireActor_may [OF ok act]
  note role = target_role_run [OF ok x]
  with role_of_policy [OF inv] have id: "ro_id x = ai_role input" by simp
  have "home (sg_tenant ?b)" using home by simp
  note v1 = insert_subject_role_grant [OF ok this s1, unfolded p_insert_binding_Inr]
  then have ok1: "ok s1" by simp
  show ?thesis
  proof (cases c)
    case False
    let ?e = "auditEvent (clk AtEvent) (pr_tenant actor) actor meta ''assign.role'' ''subject_role''
        (ai_subject input) AuditOutcomeNoop (ro_version x)"
    from False run act x cov s1 have s2: "tx_insert_mutation_audit tx ?e s1 = Inr s'"
      by (auto simp: assignRole_tx_def err_simps)
    note v2 = insert_event [OF ok1 home s2]
    with v1 False have view: "view s' = add_audit ?e (view s)" by (simp add: p_ops_Inr)
    have "policy_step m actor (view s) (view s')"
      unfolding view by (rule policy_step.noop [OF held_may_manage [OF may] by_actor_event])
    with v2 view v1 False show ?thesis by simp
  next
    case True
    let ?e = "auditEvent (clk AtEvent) (pr_tenant actor) actor meta ''assign.role'' ''subject_role''
        (ai_subject input) AuditOutcomeSuccess (ro_version x)"
    from True run act x cov s1 obtain s2 where s2: "tx_insert_grant_edge tx ?ed s1 = Inr s2"
      and s3: "tx_insert_mutation_audit tx ?e s2 = Inr s'"
      by (auto simp: assignRole_tx_def err_simps)
    note v2 = insert_grant_edge [OF ok1 s2]
    then have ok2: "ok s2" by simp
    note v3 = insert_event [OF ok2 home s3]
    have view: "view s' = add_audit ?e (set_edges (insert (pr_subject actor, ai_subject input, ai_role input)
        (po_edges (view s))) (set_binding (ai_subject input) (ai_role input) (Some ?b) (view s)))"
      using v1 v2 v3 True by (simp add: p_ops_Inr edge_key_of_def)
    have acyc: "pr_subject actor = ai_subject input \<or>
        (ai_subject input, pr_subject actor) \<notin> (grant_graph (view s))\<^sup>*"
      using path has_grant_path [OF ok] by metis
    have "policy_step m actor (view s) (view s')"
      unfolding view
      by (rule policy_step.assign [of _ _ _ _ x])
        (use may role requireRoleCoverage_may [OF ok cov, unfolded id] acyc v1 True ids in
          \<open>simp_all add: by_actor_event\<close>)
    with v3 view show ?thesis by simp
  qed
qed

lemma unassignRole_refines:
  assumes ok: "ok s" and home: "home (pr_tenant actor)" and inv: "policy_ok m (pr_tenant actor) (view s)"
    and run: "unassignRole_tx m tx clk actor meta input s = Inr (res, s')"
  shows "ok s' \<and> policy_step m actor (view s) (view s') \<and>
    po_bindings (view s') (ai_subject input) (ai_role input) = None"
proof -
  from run obtain x b s1 where
    act: "requireActor tx actor (cp_assign_roles (mg_controls m)) ScopeTenant [] s = Inr ()"
    and x: "tx_get_role tx (ai_role input) s = Inr x" and live: "\<not> ro_deleted x"
    and cov: "requireRoleCoverage m tx actor (ro_id x) s = Inr ()"
    and s1: "tx_delete_subject_role_grant tx (ai_subject input) (ai_role input) s = Inr (b, s1)"
    by (auto simp: unassignRole_tx_def err_simps)
  note may = requireActor_may [OF ok act]
  have role: "po_roles (view s) (ai_role input) = Some x"
    using get_role [OF ok x] by (simp add: p_simple_Inr)
  have id: "ro_id x = ai_role input" using role_of_policy [OF inv role] .
  note v1 = delete_subject_role_grant [OF ok s1, unfolded p_delete_binding_Inr]
  then have ok1: "ok s1" by simp
  show ?thesis
  proof (cases b)
    case None
    let ?e = "auditEvent (clk AtEvent) (pr_tenant actor) actor meta ''unassign.role'' ''subject_role''
        (ai_subject input) AuditOutcomeNoop (ro_version x)"
    from None run act x live cov s1 have s2: "tx_insert_mutation_audit tx ?e s1 = Inr s'"
      by (auto simp: unassignRole_tx_def err_simps)
    note v2 = insert_event [OF ok1 home s2]
    with v1 None have view: "view s' = add_audit ?e (view s)" by (simp add: p_ops_Inr)
    have "policy_step m actor (view s) (view s')"
      unfolding view by (rule policy_step.noop [OF held_may_manage [OF may] by_actor_event])
    with v2 view v1 None show ?thesis by simp
  next
    case (Some bd)
    let ?e = "auditEvent (clk AtEvent) (pr_tenant actor) actor meta ''unassign.role'' ''subject_role''
        (ai_subject input) AuditOutcomeSuccess (ro_version x)"
    let ?del = "sg_provenance bd = GrantProvenanceDelegated \<and> sg_grantor bd \<noteq> []"
    let ?es = "if ?del then po_edges (view s) - {(sg_grantor bd, ai_subject input, ai_role input)}
               else po_edges (view s)"
    from Some run act x live cov s1 obtain s2 where adm: "guardLastAdministrator m tx s1 = Inr ()"
      and s2: "(if ?del then tx_delete_grant_edge tx
                  \<lparr>ge_tenant = pr_tenant actor, ge_grantor = sg_grantor bd, ge_grantee = ai_subject input,
                   ge_role = ai_role input, ge_created_at = 0\<rparr> s1 else Inr s1) = Inr s2"
      and s3: "tx_insert_mutation_audit tx ?e s2 = Inr s'"
      by (auto simp: unassignRole_tx_def err_simps)
    have view1: "view s1 = set_binding (ai_subject input) (ai_role input) None (view s)"
      using v1 Some by simp
    have "ok s2 \<and> view s2 = set_edges ?es (view s1)"
    proof (cases ?del)
      case True
      with s2 have "tx_delete_grant_edge tx \<lparr>ge_tenant = pr_tenant actor, ge_grantor = sg_grantor bd,
          ge_grantee = ai_subject input, ge_role = ai_role input, ge_created_at = 0\<rparr> s1 = Inr s2" by simp
      from delete_grant_edge [OF ok1 this] view1 True show ?thesis by (simp add: p_ops_Inr edge_key_of_def)
    next
      case False
      have "set_edges (po_edges (view s)) (view s1) = view s1"
        unfolding view1 by (simp add: change_defs)
      with False s2 ok1 show ?thesis by auto
    qed
    then have ok2: "ok s2" and view2: "view s2 = set_edges ?es (view s1)" by blast+
    note v3 = insert_event [OF ok2 home s3]
    have view: "view s' = add_audit ?e (set_edges ?es
        (set_binding (ai_subject input) (ai_role input) None (view s)))"
      using v3 view2 view1 by (simp add: p_ops_Inr)
    have adm': "has_administrator (set_binding (ai_subject input) (ai_role input) None (view s)) (mg_controls m)"
      using guardLastAdministrator_has [OF ok1 adm] view1 by simp
    have cover: "\<forall>g \<in> ran (po_grants (view s) (ai_role input)). may_delegate (view s) (pr_subject actor) g"
      using requireRoleCoverage_may [OF ok cov] id by simp
    have bound: "po_bindings (view s) (ai_subject input) (ai_role input) = Some bd"
      using v1 Some by simp
    have "policy_step m actor (view s) (view s')"
      unfolding view
      by (rule policy_step.unassign [OF may role live cover bound adm' refl by_actor_event])
    with v3 view show ?thesis by simp
  qed
qed

end

end
