(* ===== verification/Bootstrap.thy ===== *)
theory Bootstrap
  imports ManagerLaws
begin

text \<open>
  \<open>bootstrap.go\<close>: provisioning of an empty tenant, exactly once. The lemmas show that a successful
  bootstrap transaction is a \<open>bootstrap_step\<close> over every conforming adapter, and that this step
  establishes the invariant, an administrator included.
\<close>

section \<open>Construction and input\<close>

record bootstrap_input =
  bi_tenant :: tenant_id
  bi_owner :: subject_id
  bi_role :: role_id
  bi_role_name :: string
  bi_role_description :: string
  bi_grants :: "role_permission_grant list"
  bi_metadata :: mutation_metadata

text \<open>A \<open>Bootstrapper\<close> keeps the same catalog and controls a \<open>Manager\<close> does.\<close>

definition NewBootstrapper ::
  "catalog option \<Rightarrow> 'st option \<Rightarrow> control_permissions \<Rightarrow> bootstrap_authorizer option \<Rightarrow> clock option \<Rightarrow>
     error + manager" where
  "NewBootstrapper c store controls authorizer clk =
     (if c = None \<or> store = None \<or> authorizer = None \<or> clk = None then Inl ErrInvalidInput
      else ebind (validateControls (the c) controls) (\<lambda>_.
        Inr \<lparr>mg_catalog = the c, mg_controls = controls\<rparr>))"

definition validateBootstrapInput :: "bootstrap_input \<Rightarrow> error + unit" where
  "validateBootstrapInput input =
     ebind (guard (validateOpaqueID (bi_tenant input) = Inr ()) ErrInvalidInput) (\<lambda>_.
     ebind (guard (validateOpaqueID (bi_owner input) = Inr ()) ErrInvalidInput) (\<lambda>_.
     ebind (guard (validateOpaqueID (bi_role input) = Inr ()) ErrInvalidInput) (\<lambda>_.
     ebind (validateRoleName (bi_role_name input)) (\<lambda>_.
     ebind (guard (mm_reason_code (bi_metadata input) \<noteq> [] \<and>
              length (mm_reason_code (bi_metadata input)) \<le> 64) ErrInvalidInput) (\<lambda>_.
     ebind (guard (length (mm_request_id (bi_metadata input)) \<le> 128) ErrInvalidInput) (\<lambda>_.
     guard (length (bi_grants input) \<noteq> 0) ErrInvalidInput))))))"

definition owner_key :: "permission_key \<Rightarrow> scope \<Rightarrow> string" where
  "owner_key permission scp = permission @ '':'' @ scp"

definition owner_grant ::
  "catalog \<Rightarrow> role_id \<Rightarrow> role_permission_grant \<Rightarrow> (string, role_permission_grant) gomap \<Rightarrow>
     error + (string, role_permission_grant) gomap" where
  "owner_grant c owner g grantMap =
     (if rg_role g \<noteq> owner then Inl ErrInvalidInput
      else if validatePermissionKey (rg_permission g) \<noteq> Inr () then Inl ErrInvalidInput
      else if catalog_lookup c (rg_permission g) = None then Inl ErrInvalidInput
      else if \<not> known_scope (rg_scope g) then Inl ErrInvalidInput
      else ebind (normalizeWorkspaceRoles (rg_workspace_roles g)) (\<lambda>rs.
        Inr (map_put (owner_key (rg_permission g) (rg_scope g))
               \<lparr>rg_role = rg_role g, rg_permission = rg_permission g, rg_scope = rg_scope g,
                rg_workspace_roles = rs\<rparr> grantMap)))"

definition has_controls :: "control_permissions \<Rightarrow> (string, role_permission_grant) gomap \<Rightarrow> error + unit" where
  "has_controls controls grantMap =
     echeck (\<lambda>control.
         if (\<exists>(k, g) \<in> set grantMap. rg_permission g = control \<and> rg_scope g = ScopeTenant)
         then Inr () else Inl ErrInvalidInput)
       [cp_manage_roles controls, cp_manage_grants controls, cp_assign_roles controls]"

section \<open>The transaction\<close>

definition bootstrap_event ::
  "clock \<Rightarrow> host_provenance \<Rightarrow> bootstrap_input \<Rightarrow> mutation_audit_event" where
  "bootstrap_event clk provenance input =
     \<lparr>ae_tenant = bi_tenant input, ae_actor = [], ae_host_initiator = hp_initiator provenance,
      ae_operation = ''tenant.bootstrap'', ae_phase = AuditPhaseResult, ae_target_type = ''tenant'',
      ae_target_id = bi_tenant input, ae_outcome = AuditOutcomeSuccess,
      ae_reason_code = mm_reason_code (bi_metadata input),
      ae_request_id = mm_request_id (bi_metadata input), ae_role_version = 1, ae_at = clk AtEvent\<rparr>"

definition bootstrap_snapshot ::
  "clock \<Rightarrow> host_provenance \<Rightarrow> bootstrap_input \<Rightarrow> role \<Rightarrow> role_permission_grant list \<Rightarrow> role_version" where
  "bootstrap_snapshot clk provenance input r grants =
     \<lparr>rv_tenant = bi_tenant input, rv_role = bi_role input, rv_version = 1, rv_name = ro_name r,
      rv_description = ro_description r, rv_grants = sortedGrants grants, rv_deleted = False,
      rv_created_at = clk AtSnapshot, rv_created_by = [],
      rv_bootstrap_initiator = hp_initiator provenance\<rparr>"

definition owner_binding :: "clock \<Rightarrow> bootstrap_input \<Rightarrow> subject_role_grant" where
  "owner_binding clk input =
     \<lparr>sg_tenant = bi_tenant input, sg_subject = bi_owner input, sg_role = bi_role input,
      sg_grantor = [], sg_provenance = GrantProvenanceBootstrap, sg_granted_at = clk AtGrant\<rparr>"

definition bootstrap_tx ::
  "'s tenant_tx \<Rightarrow> clock \<Rightarrow> host_provenance \<Rightarrow> bootstrap_input \<Rightarrow> role \<Rightarrow> role_permission_grant list \<Rightarrow> 's \<Rightarrow>
     error + unit \<times> 's" where
  "bootstrap_tx tx clk provenance input ownerRole grants s =
     ebind (tx_is_bootstrapped tx s) (\<lambda>already.
     ebind (guard (\<not> already) ErrAlreadyBootstrapped) (\<lambda>_.
     ebind (tx_insert_role tx ownerRole s) (\<lambda>s.
     ebind (efold (\<lambda>g s. ebind (tx_insert_role_permission_grant tx g s) (\<lambda>(_, s). Inr s)) grants s) (\<lambda>s.
     ebind (tx_insert_subject_role_grant tx (owner_binding clk input) s) (\<lambda>(_, s).
     ebind (tx_insert_role_version tx (bootstrap_snapshot clk provenance input ownerRole grants) s) (\<lambda>s.
     ebind (tx_insert_mutation_audit tx (bootstrap_event clk provenance input) s) (\<lambda>s.
     ebind (tx_mark_bootstrapped tx provenance s) (\<lambda>s.
     Inr ((), s)))))))))"

definition owner_role :: "bootstrap_input \<Rightarrow> role" where
  "owner_role input =
     \<lparr>ro_tenant = bi_tenant input, ro_id = bi_role input, ro_name = trim_space (bi_role_name input),
      ro_description = trim_space (bi_role_description input), ro_version = 1, ro_deleted = False\<rparr>"

definition BootstrapTenant ::
  "manager \<Rightarrow> 's tenant_tx \<Rightarrow> ('s, unit, 'st) mutator \<Rightarrow> bootstrap_authorizer \<Rightarrow> clock \<Rightarrow> bootstrap_input \<Rightarrow>
     'st \<Rightarrow> (error + role) \<times> 'st" where
  "BootstrapTenant b tx mutate authorizer clk input st =
     (case ebind (validateBootstrapInput input) (\<lambda>_.
           ebind (authorizer (bi_tenant input)) (\<lambda>provenance.
           ebind (efold (owner_grant (mg_catalog b) (bi_role input)) (bi_grants input) []) (\<lambda>grantMap.
           ebind (has_controls (mg_controls b) grantMap) (\<lambda>_.
           Inr (provenance, map snd grantMap))))) of
        Inl e \<Rightarrow> (Inl e, st)
      | Inr (provenance, grants) \<Rightarrow>
        (case mutate (bi_tenant input)
                (bootstrap_tx tx clk provenance input (owner_role input) grants) st of
           (Inl e, st') \<Rightarrow> (Inl e, st')
         | (Inr _, st') \<Rightarrow> (Inr (owner_role input), st')))"

section \<open>The owner's grants\<close>

definition owner_map_ok :: "catalog \<Rightarrow> role_id \<Rightarrow> (string, role_permission_grant) gomap \<Rightarrow> bool" where
  "owner_map_ok c owner gm = (map_ok gm \<and> (\<forall>(k, g) \<in> set gm.
     k = owner_key (rg_permission g) (rg_scope g) \<and> stored_ok c g \<and> rg_role g = owner))"

lemma owner_grant_ok:
  assumes "owner_grant c owner g gm = Inr gm'" and "owner_map_ok c owner gm" and "valid_id owner"
  shows "owner_map_ok c owner gm'"
proof -
  from assms(1) obtain rs where rs: "normalizeWorkspaceRoles (rg_workspace_roles g) = Inr rs"
    and g: "rg_role g = owner" "good_key (rg_permission g)" "catalog_lookup c (rg_permission g) \<noteq> None"
      "known_scope (rg_scope g)"
    and gm': "gm' = map_put (owner_key (rg_permission g) (rg_scope g))
      \<lparr>rg_role = rg_role g, rg_permission = rg_permission g, rg_scope = rg_scope g,
       rg_workspace_roles = rs\<rparr> gm"
    by (auto simp: owner_grant_def validatePermissionKey_iff err_simps split: if_splits)
  have ok: "map_ok gm" "map_ok gm'" using assms(2) gm' by (simp_all add: owner_map_ok_def)
  have "k = owner_key (rg_permission h) (rg_scope h) \<and> stored_ok c h \<and> rg_role h = owner"
    if "(k, h) \<in> set gm'" for k h
  proof (cases "k = owner_key (rg_permission g) (rg_scope g)")
    case True
    with that ok gm' have "h = \<lparr>rg_role = rg_role g, rg_permission = rg_permission g,
        rg_scope = rg_scope g, rg_workspace_roles = rs\<rparr>"
      by (simp add: map_get_entry)
    with True g assms(3) normalizeWorkspaceRoles_Inr [OF rs] show ?thesis
      by (simp add: stored_ok_def good_grant_def)
  next
    case False
    with that ok gm' have "(k, h) \<in> set gm" by (simp add: map_get_entry)
    with assms(2) show ?thesis by (auto simp: owner_map_ok_def)
  qed
  with ok show ?thesis by (auto simp: owner_map_ok_def)
qed

lemma owner_grants_ok:
  assumes "efold (owner_grant c owner) gs [] = Inr gm" and "valid_id owner"
  shows "owner_map_ok c owner gm"
proof (rule efold_invariant [OF assms(1)])
  show "owner_map_ok c owner []" by (simp add: owner_map_ok_def)
qed (rule owner_grant_ok [OF _ _ assms(2)])

lemma owner_map_keys:
  assumes "owner_map_ok c owner gm"
  shows "distinct (map grant_key_of (map snd gm))"
proof -
  have "map (\<lambda>(p, s, _). owner_key p s) (map grant_key_of (map snd gm)) = map fst gm"
    using assms by (auto simp: owner_map_ok_def grant_key_of_def)
  moreover have "distinct (map fst gm)"
    using assms by (simp add: owner_map_ok_def map_ok_def)
  ultimately have "distinct (map (\<lambda>(p, s, _). owner_key p s) (map grant_key_of (map snd gm)))"
    by (simp only:)
  then show ?thesis unfolding distinct_map by blast
qed

lemma has_controls_Inr:
  "has_controls controls gm = Inr u \<longleftrightarrow>
     (\<forall>c \<in> set (control_list controls). \<exists>g \<in> set (map snd gm). rg_permission g = c \<and> rg_scope g = ScopeTenant)"
proof -
  have entries: "(\<exists>(k, g) \<in> set gm. P g) \<longleftrightarrow> (\<exists>g \<in> set (map snd gm). P g)" for P
    by force
  show ?thesis
    unfolding has_controls_def control_list_def echeck_Inr entries
    by (simp split: if_splits)
qed

section \<open>Refinement\<close>

context tenant_tx_laws
begin

lemma insert_owner_grants:
  assumes "ok s" and "po_grants (view s) r = grant_map gs0" and "distinct (map grant_key_of (gs0 @ gs))"
    and "\<forall>g \<in> set gs. rg_role g = r \<and> plain_words (rg_workspace_roles g)"
    and "efold (\<lambda>g s. ebind (tx_insert_role_permission_grant tx g s) (\<lambda>(_, s). Inr s)) gs s = Inr s'"
    and "live_role (view s) r"
  shows "ok s' \<and> view s' = set_grants r (grant_map (gs0 @ gs)) (view s)"
  using assms
proof (induction gs arbitrary: s gs0)
  case Nil
  then show ?case by simp (metis set_grants_same)
next
  case (Cons g gs)
  from Cons.prems(5) obtain c s1 where s1: "tx_insert_role_permission_grant tx g s = Inr (c, s1)"
    and rest: "efold (\<lambda>g s. ebind (tx_insert_role_permission_grant tx g s) (\<lambda>(_, s). Inr s)) gs s1 = Inr s'"
    by (auto simp: err_simps)
  have g: "rg_role g = r" "plain_words (rg_workspace_roles g)" using Cons.prems(4) by simp_all
  then have "live_role (view s) (rg_role g)" using Cons.prems(6) by simp
  note v1 = insert_role_permission_grant [OF Cons.prems(1) this g(2) s1, unfolded p_insert_grant_Inr]
  have fresh: "grant_map gs0 (grant_key_of g) = None"
    using Cons.prems(3) by (auto simp: grant_map_def map_of_eq_None_iff)
  then have "(grant_map gs0)(grant_key_of g \<mapsto> g) = grant_map (gs0 @ [g])"
    by (auto simp: grant_map_def map_add_def fun_eq_iff split: option.splits)
  with v1 g(1) fresh Cons.prems(2) have ok1: "ok s1"
    and view1: "view s1 = set_grants r (grant_map (gs0 @ [g])) (view s)" by simp_all
  have "live_role (view s1) r" using view1 Cons.prems(6) by (simp add: live_role_def)
  from Cons.IH [OF ok1 _ _ _ rest this, of "gs0 @ [g]"] Cons.prems(3,4) view1 show ?case
    by (simp add: set_grants_def)
qed

lemma bootstrap_refines:
  assumes ok: "ok s" and home: "home (bi_tenant input)" and inv: "policy_ok b (bi_tenant input) (view s)"
    and valid: "validateBootstrapInput input = Inr ()"
    and gm: "efold (owner_grant (mg_catalog b) (bi_role input)) (bi_grants input) [] = Inr gm"
    and ctl: "has_controls (mg_controls b) gm = Inr ()"
    and run: "bootstrap_tx tx clk provenance input (owner_role input) (map snd gm) s = Inr (u, s')"
  shows "ok s' \<and> bootstrap_step b (bi_tenant input) (bi_owner input) (view s) (view s')"
proof -
  let ?x = "owner_role input" and ?gs = "map snd gm"
  let ?v = "bootstrap_snapshot clk provenance input ?x ?gs" and ?e = "bootstrap_event clk provenance input"
  from run obtain s1 s2 s3 s4 s5 c where boot: "tx_is_bootstrapped tx s = Inr False"
    and s1: "tx_insert_role tx ?x s = Inr s1"
    and s2: "efold (\<lambda>g s. ebind (tx_insert_role_permission_grant tx g s) (\<lambda>(_, s). Inr s)) ?gs s1 = Inr s2"
    and s3: "tx_insert_subject_role_grant tx (owner_binding clk input) s2 = Inr (c, s3)"
    and s4: "tx_insert_role_version tx ?v s3 = Inr s4"
    and s5: "tx_insert_mutation_audit tx ?e s4 = Inr s5"
    and s6: "tx_mark_bootstrapped tx provenance s5 = Inr s'"
    by (auto simp: bootstrap_tx_def err_simps)
  have ids: "valid_id (bi_role input)" "valid_id (bi_owner input)"
    using valid by (auto simp: validateBootstrapInput_def valid_id_def err_simps)
  have x: "ro_id ?x = bi_role input" by (simp add: owner_role_def)
  note om = owner_grants_ok [OF gm ids(1)]
  note keys = owner_map_keys [OF om]
  have stored: "\<forall>g \<in> set ?gs. stored_ok (mg_catalog b) g \<and> rg_role g = bi_role input"
    using om by (auto simp: owner_map_ok_def)
  have notboot: "\<not> po_bootstrapped (view s)" using is_bootstrapped [OF ok boot] by simp
  have unbound: "po_bindings (view s) (bi_owner input) (bi_role input) = None"
    using inv notboot bindings_ok_live [of "view s" "bi_role input"]
    by (simp add: policy_ok_def admin_ok_def live_role_def)
  have hx: "home (ro_tenant ?x)" "\<not> ro_deleted ?x" using home by (simp_all add: owner_role_def)
  note v1 = insert_role [OF ok hx s1, unfolded p_insert_role_Inr x]
  then have ok1: "ok s1" by simp
  have gm1: "po_grants (view s1) (bi_role input) = grant_map []" using v1 by (simp add: grant_map_def)
  have keys1: "distinct (map grant_key_of ([] @ ?gs))" unfolding append_Nil by (rule keys)
  have roles1: "\<forall>g \<in> set ?gs. rg_role g = bi_role input \<and> plain_words (rg_workspace_roles g)"
    using stored stored_plain by blast
  have live1: "live_role (view s1) (bi_role input)" using v1 x hx(2) by (simp add: live_role_def)
  note g2 = insert_owner_grants [OF ok1 gm1 keys1 roles1 s2 live1, unfolded append_Nil]
  then have ok2: "ok s2" and view2: "view s2 = set_grants (bi_role input) (grant_map ?gs) (view s1)" by blast+
  have hb: "home (sg_tenant (owner_binding clk input))" using home by (simp add: owner_binding_def)
  note v3 = insert_subject_role_grant [OF ok2 hb s3, unfolded p_insert_binding_Inr]
  then have ok3: "ok s3" by simp
  have hv: "home (rv_tenant ?v)" using hx(1) by (simp add: bootstrap_snapshot_def owner_role_def)
  note v4 = insert_role_version [OF ok3 hv s4]
  then have ok4: "ok s4" by simp
  have he: "home (ae_tenant ?e)" using home by (simp add: bootstrap_event_def)
  note v5 = insert_mutation_audit [OF ok4 he s5]
  then have ok5: "ok s5" by simp
  note v6 = mark_bootstrapped [OF ok5 s6]
  have view3: "view s3 = set_binding (bi_owner input) (bi_role input) (Some (owner_binding clk input)) (view s2)"
    using v3 view2 v1 unbound by (simp add: owner_binding_def)
  have view1: "view s1 = clear_versions (bi_role input) (set_grants (bi_role input) Map.empty (set_role ?x (view s)))"
    using v1 by blast
  have view4: "view s4 = add_version ?v (view s3)" using v4 by (simp only: p_simple_Inr)
  have view5: "view s5 = add_audit ?e (view s4)" using v5 by (simp only: p_simple_Inr)
  have view6: "view s' = (view s5)\<lparr>po_bootstrapped := True\<rparr>" using v6 by (simp add: p_mark_bootstrapped_def)
  have view: "view s' = (add_audit ?e (add_version ?v (set_binding (bi_owner input) (ro_id ?x)
      (Some (owner_binding clk input)) (clear_versions (ro_id ?x) (set_grants (ro_id ?x) (grant_map ?gs)
        (set_role ?x (view s)))))))\<lparr>po_bootstrapped := True\<rparr>"
    unfolding view6 view5 view4 view3 view2 view1 change_order x ..
  have "distinct ?gs" using keys unfolding distinct_map by simp
  moreover have "\<forall>g \<in> set ?gs. in_role (bi_role input) g" using stored stored_in_role by fastforce
  ultimately have sorted: "sorted_wrt sorted_less (sortedGrants ?gs) \<and> set (sortedGrants ?gs) = set ?gs"
    by (rule sortedGrants_sorted)
  have "bootstrap_step b (bi_tenant input) (bi_owner input) (view s) (view s')"
    unfolding view
  proof (rule bootstrap_step.bootstrap)
    show "snapshot_for ?x (set ?gs) ?v"
      using sorted by (simp add: snapshot_for_def bootstrap_snapshot_def owner_role_def)
    show "\<forall>c \<in> set (control_list (mg_controls b)). \<exists>g \<in> set ?gs. rg_permission g = c \<and> rg_scope g = ScopeTenant"
      using ctl has_controls_Inr by blast
  qed (use notboot v1 ids keys stored unbound x in
      \<open>simp_all add: owner_role_def owner_binding_def bootstrap_event_def\<close>)
  with v6 show ?thesis by simp
qed

end

section \<open>The step establishes the invariant\<close>

lemma bootstrap_policy_ok:
  assumes step: "bootstrap_step m t owner p p'" and ok: "policy_ok m t p"
  shows "policy_ok m t p' \<and> po_bootstrapped p' \<and> holds_all_controls p' (mg_controls m) owner"
  using step
proof cases
  case (bootstrap x gs v b e)
  from ok bootstrap(2) have empty: "po_roles p = Map.empty" by (simp add: policy_ok_def admin_ok_def)
  then have dead: "\<not> live_role p r" for r by (simp add: live_role_def)
  have grants: "po_grants p r = Map.empty" for r
    using ok dead grants_ok_live [of "mg_catalog m" p r] by (simp add: policy_ok_def)
  have bindings: "po_bindings p u r = None" for u r
    using ok dead bindings_ok_live [of p r u] by (simp add: policy_ok_def)
  have edges: "po_edges p = {}"
    using ok bindings by (auto simp: policy_ok_def edges_ok_def)
  have versions: "po_versions p r = Map.empty" for r
    using ok empty by (simp add: policy_ok_def versions_ok_def)
  have gm: "grant_map gs k = Some g \<longleftrightarrow> g \<in> set gs \<and> k = grant_key_of g" for k g
    using bootstrap by (simp add: grant_map_Some)
  have vx: "rv_role v = ro_id x" "rv_version v = 1"
    using bootstrap by (simp_all add: snapshot_for_def)
  have "roles_ok t p'" using bootstrap empty by (simp add: roles_ok_def)
  moreover have "grants_ok (mg_catalog m) p'"
    using bootstrap grants gm by (auto simp: grants_ok_def)
  moreover have "bindings_ok p'"
    using bootstrap bindings by (auto simp: bindings_ok_def)
  moreover have "edges_ok p'"
    using bootstrap bindings edges by (auto simp: edges_ok_def)
  moreover have "acyclic_ok p'"
    using bootstrap edges by (simp add: acyclic_ok_def grant_graph_def acyclic_def)
  moreover have "versions_ok p'"
    using bootstrap empty versions vx by (auto simp: versions_ok_def ran_grant_map)
  moreover have "history_ok p'"
    using bootstrap empty versions vx by (auto simp: history_ok_def version_range_1)
  moreover have holds: "holds_all_controls p' (mg_controls m) owner"
    unfolding holds_all_controls_def
  proof
    fix c assume "c \<in> set (control_list (mg_controls m))"
    with bootstrap obtain g where g: "g \<in> set gs" "rg_permission g = c" "rg_scope g = ScopeTenant" by blast
    have "(effective_of g)\<lparr>eg_role := ro_id x\<rparr> \<in> held_grants p' owner"
      unfolding held_grants_iff
      using bootstrap g(1) gm [of "grant_key_of g" g]
      by (intro exI [of _ "ro_id x"] exI [of _ "grant_key_of g"] exI [of _ g]) simp
    with g show "\<exists>g \<in> effective_grants p' owner c. eg_scope g = ScopeTenant"
      by (auto simp: effective_grants_def)
  qed
  moreover have "admin_ok (mg_controls m) p'"
    using bootstrap holds by (auto simp: admin_ok_def has_administrator_def)
  ultimately show ?thesis using bootstrap by (simp add: policy_ok_def)
qed

end
