(* ===== verification/Verdicts.thy ===== *)
theory Verdicts
  imports ManagerLaws
begin

text \<open>
  When a mutation succeeds and which error it returns otherwise, as a function of the policy alone:
  over an adapter that fails only where the policy operation fails (\<open>tenant_tx_total\<close>), each
  transaction of \<open>Manager\<close> returns exactly its verdict, and checks its conditions in that order.
\<close>

section \<open>Verdicts\<close>

fun first_error :: "(bool \<times> error) list \<Rightarrow> error option" where
  "first_error [] = None"
| "first_error ((bad, e) # rest) = (if bad then Some e else first_error rest)"

definition role_missing :: "policy \<Rightarrow> role_id \<Rightarrow> bool" where
  "role_missing p r = (\<not> live_role p r)"

definition role_stale :: "policy \<Rightarrow> role_id \<Rightarrow> int64 \<Rightarrow> bool" where
  "role_stale p r v = (\<exists>x. po_roles p r = Some x \<and> ro_version x \<noteq> v)"

definition covers_role :: "policy \<Rightarrow> subject_id \<Rightarrow> role_id \<Rightarrow> bool" where
  "covers_role p a r = (\<forall>g \<in> ran (po_grants p r). may_delegate p a g)"

definition create_verdict :: "manager \<Rightarrow> principal \<Rightarrow> role_id \<Rightarrow> permission_key list \<Rightarrow> policy \<Rightarrow> error option" where
  "create_verdict m actor r qs p = first_error
     [(\<not> may_manage p (pr_subject actor) (cp_manage_roles (mg_controls m)), ErrForbidden),
      (\<exists>q \<in> set qs. \<not> may_delegate p (pr_subject actor) (initial_grant r q), ErrForbidden),
      (po_roles p r \<noteq> None, ErrConflict)]"

definition update_verdict :: "manager \<Rightarrow> principal \<Rightarrow> role_id \<Rightarrow> int64 \<Rightarrow> policy \<Rightarrow> error option" where
  "update_verdict m actor r v p = first_error
     [(\<not> may_manage p (pr_subject actor) (cp_manage_roles (mg_controls m)), ErrForbidden),
      (role_missing p r, ErrNotFound), (role_stale p r v, ErrConflict)]"

definition delete_verdict :: "manager \<Rightarrow> principal \<Rightarrow> role_id \<Rightarrow> int64 \<Rightarrow> policy \<Rightarrow> error option" where
  "delete_verdict m actor r v p = first_error
     [(\<not> may_manage p (pr_subject actor) (cp_manage_roles (mg_controls m)), ErrForbidden),
      (role_missing p r, ErrNotFound), (role_stale p r v, ErrConflict),
      (po_grants p r \<noteq> Map.empty, ErrConflict), (\<exists>u. po_bindings p u r \<noteq> None, ErrConflict)]"

definition grant_verdict :: "principal \<Rightarrow> role_permission_grant \<Rightarrow> int64 \<Rightarrow> policy \<Rightarrow> error option" where
  "grant_verdict actor g v p = first_error
     [(\<not> may_delegate p (pr_subject actor) g, ErrForbidden),
      (role_missing p (rg_role g), ErrNotFound), (role_stale p (rg_role g) v, ErrConflict)]"

definition revoke_verdict ::
  "manager \<Rightarrow> principal \<Rightarrow> role_permission_grant \<Rightarrow> int64 \<Rightarrow> policy \<Rightarrow> error option" where
  "revoke_verdict m actor g v p = first_error
     [(\<not> may_delegate p (pr_subject actor) g, ErrForbidden),
      (role_missing p (rg_role g), ErrNotFound), (role_stale p (rg_role g) v, ErrConflict),
      (po_grants p (rg_role g) (grant_key_of g) \<noteq> None \<and>
       \<not> has_administrator (set_grants (rg_role g) ((po_grants p (rg_role g))(grant_key_of g := None)) p)
            (mg_controls m), ErrLastAdministrator)]"

definition assign_verdict ::
  "manager \<Rightarrow> principal \<Rightarrow> subject_id \<Rightarrow> role_id \<Rightarrow> int64 \<Rightarrow> policy \<Rightarrow> error option" where
  "assign_verdict m actor u r v p = first_error
     [(\<not> may_manage p (pr_subject actor) (cp_assign_roles (mg_controls m)), ErrForbidden),
      (role_missing p r, ErrNotFound), (role_stale p r v, ErrConflict),
      (\<not> covers_role p (pr_subject actor) r, ErrForbidden),
      (pr_subject actor \<noteq> u \<and> (u, pr_subject actor) \<in> (grant_graph p)\<^sup>*, ErrGrantCycle)]"

definition unassign_verdict ::
  "manager \<Rightarrow> principal \<Rightarrow> subject_id \<Rightarrow> role_id \<Rightarrow> int64 \<Rightarrow> policy \<Rightarrow> error option" where
  "unassign_verdict m actor u r v p = first_error
     [(\<not> may_manage p (pr_subject actor) (cp_assign_roles (mg_controls m)), ErrForbidden),
      (role_missing p r, ErrNotFound), (v \<noteq> 0 \<and> role_stale p r v, ErrConflict),
      (\<not> covers_role p (pr_subject actor) r, ErrForbidden),
      (po_bindings p u r \<noteq> None \<and> \<not> has_administrator (set_binding u r None p) (mg_controls m),
       ErrLastAdministrator)]"

definition verdict_of :: "error + 'a \<Rightarrow> error option" where
  "verdict_of res = (case res of Inl e \<Rightarrow> Some e | Inr _ \<Rightarrow> None)"

lemma verdict_simps [simp]:
  "verdict_of (Inl e) = Some e" "verdict_of (Inr x) = None"
  by (simp_all add: verdict_of_def)

lemma verdict_bind:
  "verdict_of (ebind r k) = (case r of Inl e \<Rightarrow> Some e | Inr x \<Rightarrow> verdict_of (k x))"
  by (cases r) simp_all

section \<open>The checks, exactly\<close>

lemma policy_ok_parts:
  assumes "policy_ok m t p"
  shows "grants_ok (mg_catalog m) p" "bindings_ok p" "roles_ok t p" "admin_ok (mg_controls m) p"
  using assms by (simp_all add: policy_ok_def)

lemma held_good:
  assumes "grants_ok c p" and "g \<in> held_grants p u" and "bindings_ok p"
  shows "good_grant (eg_permission g) g \<and> valid_id u"
proof -
  from assms(2) obtain r k h where h: "po_bindings p u r \<noteq> None" "po_grants p r k = Some h"
    "g = (effective_of h)\<lparr>eg_role := r\<rparr>" unfolding held_grants_iff by blast
  from assms(1) h have "stored_ok c h \<and> rg_role h = r" unfolding grants_ok_def by blast
  with h(3) have "good_grant (eg_permission g) g" by (auto simp: stored_ok_def good_grant_def)
  moreover from assms(3) h(1) have "valid_id u" unfolding bindings_ok_def by blast
  ultimately show ?thesis by simp
qed

lemma well_formed_controls: "grants_ok c p \<Longrightarrow> bindings_ok p \<Longrightarrow> controls_well_formed p controls"
  using held_good by (auto simp: controls_well_formed_def effective_grants_def)

context tenant_tx_total
begin

lemma requireGrant_exact:
  assumes ok: "ok s" and grants: "grants_ok c (view s)" and bindings: "bindings_ok (view s)"
  shows "requireGrant tx actor perm target roles exact s =
    (if may (view s) (pr_subject actor) perm target roles exact then Inr () else Inl ErrForbidden)"
proof -
  from total_list_effective_grants [OF ok] obtain gs
    where gs: "tx_list_effective_grants tx (pr_subject actor) perm s = Inr gs" by blast
  note set = list_effective_grants [OF ok gs]
  have "good_grant perm g" if "g \<in> set gs" for g
    using that set held_good [OF grants _ bindings, of g "pr_subject actor"] by (simp add: effective_grants_def)
  then have "echeck (\<lambda>g. validateEffectiveGrant g perm) gs = Inr ()"
    by (simp add: echeck_Inr validateEffectiveGrant_cases)
  with gs set show ?thesis by (simp add: requireGrant_def may_def)
qed

lemma requireActor_exact:
  "ok s \<Longrightarrow> grants_ok c (view s) \<Longrightarrow> bindings_ok (view s) \<Longrightarrow>
     requireActor tx actor perm ScopeTenant [] s =
       (if may_manage (view s) (pr_subject actor) perm then Inr () else Inl ErrForbidden)"
  by (simp add: requireActor_def may_manage_def requireGrant_exact)

lemma requireActorForGrant_exact:
  "ok s \<Longrightarrow> grants_ok c (view s) \<Longrightarrow> bindings_ok (view s) \<Longrightarrow>
     requireActorForGrant tx actor (rg_permission g) (rg_scope g) (rg_workspace_roles g) s =
       (if may_delegate (view s) (pr_subject actor) g then Inr () else Inl ErrForbidden)"
  by (simp add: requireActorForGrant_def may_delegate_def requireGrant_exact)

lemma get_role_exact: "ok s \<Longrightarrow> tx_get_role tx r s = p_get_role r (view s)"
  using get_role [of s r] total_get_role [of s r] by (cases "tx_get_role tx r s") auto

lemma target_role_exact:
  assumes "ok s"
  shows "target_role tx r v s =
    (case po_roles (view s) r of None \<Rightarrow> Inl ErrNotFound
     | Some x \<Rightarrow> if ro_deleted x then Inl ErrNotFound
         else if ro_version x \<noteq> v then Inl ErrConflict else Inr x)"
  using get_role_exact [OF assms] by (simp add: target_role_def p_get_role_def split: option.splits)

lemma listed_grants:
  assumes "ok s" and "po_roles (view s) r \<noteq> None"
  obtains gs where "tx_list_role_permission_grants tx r s = Inr gs"
    "set gs = ran (po_grants (view s) r)" "distinct gs"
  using list_role_permission_grants [OF assms(1)] total_list_role_permission_grants [OF assms(1)] assms(2)
  by (metis sum.exhaust)

lemma requireRoleCoverage_exact:
  assumes ok: "ok s" and inv: "policy_ok m t (view s)" and role: "po_roles (view s) r \<noteq> None"
  shows "requireRoleCoverage m tx actor r s =
    (if covers_role (view s) (pr_subject actor) r then Inr () else Inl ErrForbidden)"
proof -
  note parts = policy_ok_parts [OF inv]
  obtain gs where gs: "tx_list_role_permission_grants tx r s = Inr gs"
    and set: "set gs = ran (po_grants (view s) r)" using listed_grants [OF ok role] by metis
  have stored: "rg_role g = r \<and> stored_ok (mg_catalog m) g" if "g \<in> set gs" for g
    using that set parts(1) unfolding grants_ok_def ran_def by fastforce
  have eff: "\<lparr>eg_role = rg_role g, eg_permission = rg_permission g, eg_scope = rg_scope g,
      eg_workspace_roles = rg_workspace_roles g\<rparr> = effective_of g" for g
    by (simp add: effective_of_def)
  have "echeck (\<lambda>grant. if rg_role grant \<noteq> r then Inl ErrInvalidPolicy
         else if catalog_lookup (mg_catalog m) (rg_permission grant) = None then Inl ErrInvalidPolicy
         else validateEffectiveGrant
                \<lparr>eg_role = rg_role grant, eg_permission = rg_permission grant,
                 eg_scope = rg_scope grant, eg_workspace_roles = rg_workspace_roles grant\<rparr>
                (rg_permission grant)) gs = Inr ()"
    unfolding eff using stored by (auto simp: echeck_Inr validateEffectiveGrant_cases stored_ok_def)
  moreover have "echeck (\<lambda>grant. requireActorForGrant tx actor (rg_permission grant) (rg_scope grant)
      (rg_workspace_roles grant) s) gs =
      (if \<forall>g \<in> set gs. may_delegate (view s) (pr_subject actor) g then Inr () else Inl ErrForbidden)"
    by (subst echeck_cases [where e = ErrForbidden])
      (auto simp: requireActorForGrant_exact [OF ok parts(1,2)] split: if_splits)
  ultimately show ?thesis using gs set by (simp add: requireRoleCoverage_def covers_role_def)
qed

lemma guardLastAdministrator_exact:
  assumes ok: "ok s" and "grants_ok c (view s)" and "bindings_ok (view s)"
  shows "guardLastAdministrator m tx s =
    (if has_administrator (view s) (mg_controls m) then Inr () else Inl ErrLastAdministrator)"
proof -
  have "tx_has_administrator tx (mg_controls m) s = p_has_administrator (mg_controls m) (view s)"
    using has_admin [OF ok] total_has_admin [OF ok]
    by (cases "tx_has_administrator tx (mg_controls m) s") auto
  with well_formed_controls [OF assms(2,3)] show ?thesis
    by (simp add: guardLastAdministrator_def p_has_administrator_def)
qed

end

section \<open>The transactions, exactly\<close>

lemma live_role_iff: "live_role p r \<longleftrightarrow> (case po_roles p r of None \<Rightarrow> False | Some x \<Rightarrow> \<not> ro_deleted x)"
  by (simp add: live_role_def split: option.splits)

context tenant_tx_total
begin

lemma insert_role_exact:
  "ok s \<Longrightarrow> (case tx_insert_role tx x s of
      Inl e \<Rightarrow> e = ErrConflict \<and> po_roles (view s) (ro_id x) \<noteq> None
    | Inr s' \<Rightarrow> po_roles (view s) (ro_id x) = None \<and> ok s' \<and>
        view s' = clear_versions (ro_id x) (set_grants (ro_id x) Map.empty (set_role x (view s))))"
  using total_insert_role [of s x]
  by (cases "tx_insert_role tx x s") (auto simp: p_insert_role_Inr, auto simp: p_insert_role_def split: if_splits)

lemma insert_version_total: "ok s \<Longrightarrow> \<exists>s'. tx_insert_role_version tx v s = Inr s' \<and> ok s' \<and> view s' = add_version v (view s)"
  using total_insert_role_version [of s v] by (auto simp: p_simple_Inr)

lemma insert_audit_total: "ok s \<Longrightarrow> \<exists>s'. tx_insert_mutation_audit tx e s = Inr s' \<and> ok s' \<and> view s' = add_audit e (view s)"
  using total_insert_mutation_audit [of s e] by (auto simp: p_simple_Inr)

lemma snapshot_and_event:
  "ok s \<Longrightarrow> \<exists>s1 s2. tx_insert_role_version tx v s = Inr s1 \<and> tx_insert_mutation_audit tx e s1 = Inr s2"
  using insert_version_total [of s v] insert_audit_total [of _ e] by blast

lemma insert_grant_exact:
  assumes "ok s"
  shows "if live_role (view s) (rg_role g)
    then \<exists>s'. tx_insert_role_permission_grant tx g s =
        Inr (po_grants (view s) (rg_role g) (grant_key_of g) = None, s') \<and> ok s' \<and>
      view s' = (if po_grants (view s) (rg_role g) (grant_key_of g) = None
                 then set_grants (rg_role g) ((po_grants (view s) (rg_role g))(grant_key_of g \<mapsto> g)) (view s)
                 else view s)
    else tx_insert_role_permission_grant tx g s = Inl ErrNotFound"
proof (cases "tx_insert_role_permission_grant tx g s")
  case (Inl e)
  with total_insert_role_permission_grant [OF assms, of g] have "p_insert_grant g (view s) = Inl e" by simp
  then have "e = ErrNotFound \<and> \<not> live_role (view s) (rg_role g)"
    by (auto simp: p_insert_grant_def live_role_def split: option.splits if_splits)
  with Inl show ?thesis by simp
next
  case (Inr r)
  obtain c s' where r: "r = (c, s')" by (cases r)
  from total_insert_role_permission_grant [OF assms, of g] Inr r
  show ?thesis by (simp add: p_insert_grant_Inr)
qed

lemma delete_grant_exact:
  assumes "ok s"
  shows "\<exists>s'. tx_delete_role_permission_grant tx g s =
      Inr (po_grants (view s) (rg_role g) (grant_key_of g) \<noteq> None, s') \<and> ok s' \<and>
    view s' = (if po_grants (view s) (rg_role g) (grant_key_of g) \<noteq> None
               then set_grants (rg_role g) ((po_grants (view s) (rg_role g))(grant_key_of g := None)) (view s)
               else view s)"
proof (cases "tx_delete_role_permission_grant tx g s")
  case (Inl e)
  with total_delete_role_permission_grant [OF assms, of g] have "p_delete_grant g (view s) = Inl e" by simp
  then show ?thesis by (simp add: p_delete_grant_def split: if_splits)
next
  case (Inr r)
  obtain c s' where r: "r = (c, s')" by (cases r)
  from total_delete_role_permission_grant [OF assms, of g] Inr r
  show ?thesis by (simp add: p_delete_grant_Inr)
qed

lemma update_role_total:
  assumes "ok s" and "po_roles (view s) (ro_id x) = Some y" and "ro_version y = v"
  shows "\<exists>s'. tx_update_role tx x v s = Inr s' \<and> ok s' \<and>
    view s' = set_role (x\<lparr>ro_version := v + 1\<rparr>) (view s)"
proof (cases "tx_update_role tx x v s")
  case (Inl e)
  with total_update_role [OF assms(1), of x v] have "p_update_role x v (view s) = Inl e" by simp
  with assms show ?thesis by (simp add: p_update_role_def)
next
  case (Inr s')
  with total_update_role [OF assms(1), of x v] show ?thesis by (simp add: p_update_role_Inr)
qed

lemma listed_after_update:
  assumes "ok s" and "po_roles (view s) r \<noteq> None"
  shows "\<exists>gs. tx_list_role_permission_grants tx r s = Inr gs"
  using listed_grants [OF assms] by metis

lemma bumpRoleVersion_total:
  assumes ok: "ok s" and role: "po_roles (view s) (ro_id x) = Some y" "ro_version y = ro_version x"
  shows "\<exists>s'. bumpRoleVersion tx clk x actor (ro_version x + 1) s = Inr s' \<and> ok s'"
proof -
  let ?x = "x\<lparr>ro_version := ro_version x + 1\<rparr>"
  have "po_roles (view s) (ro_id ?x) = Some y" using role by simp
  from update_role_total [OF ok this role(2)] obtain s1
    where s1: "tx_update_role tx ?x (ro_version x) s = Inr s1" "ok s1"
      "view s1 = set_role (?x\<lparr>ro_version := ro_version x + 1\<rparr>) (view s)" by blast
  have "po_roles (view s1) (ro_id ?x) \<noteq> None" unfolding s1(3) by simp
  from listed_after_update [OF s1(2) this] obtain gs
    where "tx_list_role_permission_grants tx (ro_id ?x) s1 = Inr gs" by blast
  with s1 insert_version_total [OF s1(2)] show ?thesis
    by (simp add: bumpRoleVersion_def Let_def) metis
qed

lemma createRole_exact:
  assumes ok: "ok s" and inv: "policy_ok m t (view s)"
  shows "verdict_of (createRole_tx m tx clk actor meta x s) = create_verdict m actor (ro_id x) [] (view s)"
proof -
  note parts = policy_ok_parts [OF inv]
  show ?thesis
  proof (cases "tx_insert_role tx x s")
    case (Inl e)
    with insert_role_exact [OF ok, of x] show ?thesis
      by (simp add: createRole_tx_def create_verdict_def requireActor_exact [OF ok parts(1,2)])
  next
    case (Inr s1)
    with insert_role_exact [OF ok, of x] have ok1: "ok s1" and fresh: "po_roles (view s) (ro_id x) = None" by simp_all
    obtain s2 s3 where "tx_insert_role_version tx (snapshot_of clk actor x 1 [] False) s1 = Inr s2"
      "tx_insert_mutation_audit tx (auditEvent (clk AtEvent) (pr_tenant actor) actor meta
         ''role.create'' ''role'' (ro_id x) AuditOutcomeSuccess 1) s2 = Inr s3"
      using snapshot_and_event [OF ok1] by blast
    with Inr fresh show ?thesis
      by (simp add: createRole_tx_def create_verdict_def requireActor_exact [OF ok parts(1,2)])
  qed
qed

lemma insert_initial_total:
  assumes "ok s" and "live_role (view s) r" and "distinct qs"
    and "\<forall>q \<in> set qs. po_grants (view s) r (grant_key_of (initial_grant r q)) = None"
  shows "\<exists>s' gs'. efold (insert_initial_grant tx r) qs (s, gs) = Inr (s', gs') \<and> ok s'"
  using assms
proof (induction qs arbitrary: s gs)
  case Nil
  then show ?case by simp
next
  case (Cons q qs)
  let ?g = "initial_grant r q"
  have r: "rg_role ?g = r" by (simp add: initial_grant_def)
  from insert_grant_exact [OF Cons.prems(1), of ?g] Cons.prems(2,4) r obtain s1
    where s1: "tx_insert_role_permission_grant tx ?g s = Inr (True, s1)" "ok s1"
      "view s1 = set_grants r ((po_grants (view s) r)(grant_key_of ?g \<mapsto> ?g)) (view s)" by auto
  have "live_role (view s1) r" using s1(3) Cons.prems(2) by simp
  moreover have "\<forall>q' \<in> set qs. po_grants (view s1) r (grant_key_of (initial_grant r q')) = None"
    using s1(3) Cons.prems(3,4) by (auto simp: initial_grant_key)
  ultimately have "\<exists>s' gs'. efold (insert_initial_grant tx r) qs (s1, gs @ [?g]) = Inr (s', gs') \<and> ok s'"
    using Cons.IH [of s1] s1(2) Cons.prems(3) by simp
  with s1(1) show ?case by (simp add: insert_initial_grant_def [of tx r q])
qed

lemma createRoleWithPermissions_exact:
  assumes ok: "ok s" and inv: "policy_ok m t (view s)" and x: "\<not> ro_deleted x" and qs: "distinct qs"
  shows "verdict_of (createRoleWithPermissions_tx m tx clk actor meta x qs s) =
    create_verdict m actor (ro_id x) qs (view s)"
proof -
  note parts = policy_ok_parts [OF inv]
  have may: "requireActorForGrant tx actor q ScopeTenant [] s =
      (if may_delegate (view s) (pr_subject actor) (initial_grant (ro_id x) q) then Inr () else Inl ErrForbidden)"
    for q
    using requireActorForGrant_exact [OF ok parts(1,2), of actor "initial_grant (ro_id x) q"]
    by (simp add: initial_grant_def)
  have all: "echeck (\<lambda>q. requireActorForGrant tx actor q ScopeTenant [] s) qs =
      (if \<forall>q \<in> set qs. may_delegate (view s) (pr_subject actor) (initial_grant (ro_id x) q)
       then Inr () else Inl ErrForbidden)"
    by (subst echeck_cases [where e = ErrForbidden]) (auto simp: may split: if_splits)
  note act = requireActor_exact [OF ok parts(1,2), of actor "cp_manage_roles (mg_controls m)"]
  show ?thesis
  proof (cases "tx_insert_role tx x s")
    case (Inl e)
    with insert_role_exact [OF ok, of x] show ?thesis
      by (auto simp: createRoleWithPermissions_tx_def create_verdict_def act all)
  next
    case (Inr s1)
    with insert_role_exact [OF ok, of x] have ok1: "ok s1" and fresh: "po_roles (view s) (ro_id x) = None"
      and view1: "view s1 = clear_versions (ro_id x) (set_grants (ro_id x) Map.empty (set_role x (view s)))"
      by simp_all
    have "live_role (view s1) (ro_id x)" using view1 x by simp
    from insert_initial_total [OF ok1 this qs, of "[]"] view1 obtain s2 gs
      where s2: "efold (insert_initial_grant tx (ro_id x)) qs (s1, []) = Inr (s2, gs)" "ok s2" by auto
    obtain s3 s4 where "tx_insert_role_version tx (snapshot_of clk actor x 1 (sortedGrants gs) False) s2 = Inr s3"
      "tx_insert_mutation_audit tx (auditEvent (clk AtEvent) (pr_tenant actor) actor meta
         ''role.create'' ''role'' (ro_id x) AuditOutcomeSuccess 1) s3 = Inr s4"
      using snapshot_and_event [OF s2(2)] by blast
    with Inr fresh s2 show ?thesis
      by (auto simp: createRoleWithPermissions_tx_def create_verdict_def act all)
  qed
qed

lemma updateRole_exact:
  assumes ok: "ok s" and inv: "policy_ok m t (view s)"
  shows "verdict_of (updateRole_tx m tx clk actor meta input s) =
    update_verdict m actor (ui_role input) (ui_expected input) (view s)"
proof (cases "target_role tx (ui_role input) (ui_expected input) s")
  case (Inl e)
  with target_role_exact [OF ok, of "ui_role input" "ui_expected input"] show ?thesis
    by (auto simp: updateRole_tx_def update_verdict_def requireActor_exact [OF ok policy_ok_parts(1,2) [OF inv]]
        role_missing_def role_stale_def live_role_def split: option.splits if_splits)
next
  case (Inr x)
  note role = target_role_run [OF ok Inr]
  have id: "ro_id x = ui_role input" using role_of_policy [OF inv] role by simp
  let ?x = "x\<lparr>ro_name := trim_space (ui_name input), ro_description := trim_space (ui_description input),
      ro_version := ui_expected input + 1\<rparr>"
  have "po_roles (view s) (ro_id ?x) = Some x" using role id by simp
  from update_role_total [OF ok this] role obtain s1
    where s1: "tx_update_role tx ?x (ui_expected input) s = Inr s1" "ok s1"
      "view s1 = set_role (?x\<lparr>ro_version := ui_expected input + 1\<rparr>) (view s)" by blast
  have "po_roles (view s1) (ro_id ?x) \<noteq> None" unfolding s1(3) by simp
  from listed_after_update [OF s1(2) this] obtain gs
    where gs: "tx_list_role_permission_grants tx (ro_id ?x) s1 = Inr gs" by blast
  obtain s2 s3 where
    "tx_insert_role_version tx (snapshot_of clk actor ?x (ro_version ?x) (sortedGrants gs) False) s1 = Inr s2"
    "tx_insert_mutation_audit tx (auditEvent (clk AtEvent) (pr_tenant actor) actor meta
       ''role.update'' ''role'' (ui_role input) AuditOutcomeSuccess (ro_version ?x)) s2 = Inr s3"
    using snapshot_and_event [OF s1(2)] by blast
  with Inr s1(1) gs role show ?thesis
    by (simp add: updateRole_tx_def Let_def update_verdict_def requireActor_exact [OF ok policy_ok_parts(1,2) [OF inv]]
        role_missing_def role_stale_def live_role_def)
qed

end

context tenant_tx_total
begin

lemma tombstone_total:
  assumes "ok s" and "po_roles (view s) r = Some x" and "ro_version x = v"
  shows "\<exists>s'. tx_tombstone_role tx r v s = Inr s' \<and> ok s'"
proof (cases "tx_tombstone_role tx r v s")
  case (Inl e)
  with total_tombstone_role [OF assms(1)] have "p_tombstone_role r v (view s) = Inl e" by blast
  with assms show ?thesis by (simp add: p_tombstone_role_def)
next
  case (Inr s')
  with tombstone_role [OF assms(1) this] show ?thesis by simp
qed

lemma listed_subjects:
  assumes "ok s"
  obtains us where "tx_list_role_subject_ids tx r s = Inr us" "set us = {u. po_bindings (view s) u r \<noteq> None}"
  using total_list_role_subject_ids [OF assms] list_role_subject_ids [OF assms] by metis

lemma deleteRole_exact:
  assumes ok: "ok s" and inv: "policy_ok m t (view s)"
  shows "verdict_of (deleteRole_tx m tx clk actor meta input s) =
    delete_verdict m actor (di_role input) (di_expected input) (view s)"
proof (cases "target_role tx (di_role input) (di_expected input) s")
  case (Inl e)
  with target_role_exact [OF ok, of "di_role input" "di_expected input"] show ?thesis
    by (auto simp: deleteRole_tx_def delete_verdict_def requireActor_exact [OF ok policy_ok_parts(1,2) [OF inv]]
        role_missing_def role_stale_def live_role_def split: option.splits if_splits)
next
  case (Inr x)
  note role = target_role_run [OF ok Inr]
  have id: "ro_id x = di_role input" using role_of_policy [OF inv] role by simp
  have "po_roles (view s) (ro_id x) \<noteq> None" using role id by simp
  then obtain gs where gs: "tx_list_role_permission_grants tx (ro_id x) s = Inr gs"
    "set gs = ran (po_grants (view s) (ro_id x))" using listed_grants [OF ok] by metis
  obtain us where us: "tx_list_role_subject_ids tx (ro_id x) s = Inr us"
    "set us = {u. po_bindings (view s) u (ro_id x) \<noteq> None}" using listed_subjects [OF ok] by metis
  have gs_nil: "gs = [] \<longleftrightarrow> po_grants (view s) (di_role input) = Map.empty"
    using gs(2) ran_empty_iff [of "po_grants (view s) (ro_id x)"] id by (metis set_empty)
  have us_nil: "us = [] \<longleftrightarrow> \<not> (\<exists>u. po_bindings (view s) u (di_role input) \<noteq> None)"
    using us(2) id by (metis (mono_tags, lifting) empty_Collect_eq set_empty)
  have role': "po_roles (view s) (ro_id x) = Some x" "ro_version x = di_expected input" using role id by simp_all
  obtain s1 where s1: "tx_tombstone_role tx (ro_id x) (di_expected input) s = Inr s1" "ok s1"
    using tombstone_total [OF ok role'] by blast
  obtain s2 s3 where
    "tx_insert_role_version tx (snapshot_of clk actor x (ro_version x + 1) [] True) s1 = Inr s2"
    "tx_insert_mutation_audit tx (auditEvent (clk AtEvent) (pr_tenant actor) actor meta
       ''role.delete'' ''role'' (di_role input) AuditOutcomeSuccess (ro_version x + 1)) s2 = Inr s3"
    using snapshot_and_event [OF s1(2)] by blast
  with Inr gs(1) us(1) s1(1) role gs_nil us_nil show ?thesis
    by (simp add: deleteRole_tx_def Let_def delete_verdict_def
        requireActor_exact [OF ok policy_ok_parts(1,2) [OF inv]] role_missing_def role_stale_def live_role_def guard_def)
qed

lemma grantPermission_exact:
  assumes ok: "ok s" and inv: "policy_ok m t (view s)" and g: "validateGrantInput m input = Inr g"
  shows "verdict_of (grantPermission_tx tx clk actor meta input g s) =
    grant_verdict actor g (gi_expected input) (view s)"
proof (cases "target_role tx (gi_role input) (gi_expected input) s")
  case (Inl e)
  have "rg_role g = gi_role input" using validateGrantInput_Inr [OF g] by simp
  with Inl target_role_exact [OF ok, of "gi_role input" "gi_expected input"] show ?thesis
    by (auto simp: grantPermission_tx_def grant_verdict_def
        requireActorForGrant_exact [OF ok policy_ok_parts(1,2) [OF inv]]
        role_missing_def role_stale_def live_role_def split: option.splits if_splits)
next
  case (Inr x)
  note role = target_role_run [OF ok Inr]
  have rg: "rg_role g = gi_role input" using validateGrantInput_Inr [OF g] by simp
  have id: "ro_id x = gi_role input" using role_of_policy [OF inv] role by simp
  have live: "live_role (view s) (rg_role g)" using role rg by (simp add: live_role_def)
  let ?c = "po_grants (view s) (rg_role g) (grant_key_of g) = None"
  from insert_grant_exact [OF ok, of g] live obtain s1
    where s1: "tx_insert_role_permission_grant tx g s = Inr (?c, s1)" "ok s1"
      "po_roles (view s1) = po_roles (view s)" by (auto split: if_splits)
  obtain s2 where s2: "bumpRoleVersion tx clk x actor (ro_version x + 1) s1 = Inr s2" "ok s2"
    using bumpRoleVersion_total [OF s1(2), of x x] s1(3) role id by auto
  obtain s3 where s3: "tx_insert_mutation_audit tx (auditEvent (clk AtEvent) (pr_tenant actor) actor meta
      ''grant.permission'' ''role_permission'' (gi_role input) AuditOutcomeSuccess (ro_version x + 1)) s2 = Inr s3"
    using insert_audit_total [OF s2(2)] by blast
  obtain s4 where s4: "tx_insert_mutation_audit tx (auditEvent (clk AtEvent) (pr_tenant actor) actor meta
      ''grant.permission'' ''role_permission'' (gi_role input) AuditOutcomeNoop (ro_version x)) s1 = Inr s4"
    using insert_audit_total [OF s1(2)] by blast
  show ?thesis
    using Inr s1(1) s2(1) s3 s4 role rg
    by (cases ?c)
      (simp_all add: grantPermission_tx_def Let_def grant_verdict_def
        requireActorForGrant_exact [OF ok policy_ok_parts(1,2) [OF inv]] role_missing_def role_stale_def live_role_def)
qed

lemma set_grants_ok:
  assumes "grants_ok c p" and "live_role p r"
  shows "grants_ok c (set_grants r ((po_grants p r)(k := None)) p)"
  using assms unfolding grants_ok_def by (auto split: if_splits)

lemma bindings_ok_set_grants: "bindings_ok (set_grants r gm p) = bindings_ok p"
  by (simp add: bindings_ok_def)

lemma revokePermission_exact:
  assumes ok: "ok s" and inv: "policy_ok m t (view s)" and g: "validateGrantInput m input = Inr g"
  shows "verdict_of (revokePermission_tx m tx clk actor meta input g s) =
    revoke_verdict m actor g (gi_expected input) (view s)"
proof (cases "target_role tx (gi_role input) (gi_expected input) s")
  case (Inl e)
  have "rg_role g = gi_role input" using validateGrantInput_Inr [OF g] by simp
  with Inl target_role_exact [OF ok, of "gi_role input" "gi_expected input"] show ?thesis
    by (auto simp: revokePermission_tx_def revoke_verdict_def
        requireActorForGrant_exact [OF ok policy_ok_parts(1,2) [OF inv]]
        role_missing_def role_stale_def live_role_def split: option.splits if_splits)
next
  case (Inr x)
  note parts = policy_ok_parts [OF inv]
  note role = target_role_run [OF ok Inr]
  have rg: "rg_role g = gi_role input" using validateGrantInput_Inr [OF g] by simp
  have id: "ro_id x = gi_role input" using role_of_policy [OF inv] role by simp
  have live: "live_role (view s) (rg_role g)" using role rg by (simp add: live_role_def)
  let ?c = "po_grants (view s) (rg_role g) (grant_key_of g) \<noteq> None"
  let ?p = "set_grants (rg_role g) ((po_grants (view s) (rg_role g))(grant_key_of g := None)) (view s)"
  from delete_grant_exact [OF ok, of g] obtain s1
    where s1: "tx_delete_role_permission_grant tx g s = Inr (?c, s1)" "ok s1"
      "view s1 = (if ?c then ?p else view s)" by blast
  have adm: "guardLastAdministrator m tx s1 =
      (if has_administrator ?p (mg_controls m) then Inr () else Inl ErrLastAdministrator)" if ?c
    using guardLastAdministrator_exact [OF s1(2), of "mg_catalog m" m] s1(3) that
      set_grants_ok [OF parts(1) live] parts(2) by (simp add: bindings_ok_set_grants)
  have "po_roles (view s1) = po_roles (view s)" using s1(3) by (simp split: if_splits)
  then obtain s2 where s2: "bumpRoleVersion tx clk x actor (ro_version x + 1) s1 = Inr s2" "ok s2"
    using bumpRoleVersion_total [OF s1(2), of x x] role id by auto
  obtain s3 where s3: "tx_insert_mutation_audit tx (auditEvent (clk AtEvent) (pr_tenant actor) actor meta
      ''revoke.permission'' ''role_permission'' (gi_role input) AuditOutcomeSuccess (ro_version x + 1)) s2 = Inr s3"
    using insert_audit_total [OF s2(2)] by blast
  obtain s4 where s4: "tx_insert_mutation_audit tx (auditEvent (clk AtEvent) (pr_tenant actor) actor meta
      ''revoke.permission'' ''role_permission'' (gi_role input) AuditOutcomeNoop (ro_version x)) s1 = Inr s4"
    using insert_audit_total [OF s1(2)] by blast
  note simps = revokePermission_tx_def Let_def revoke_verdict_def
    requireActorForGrant_exact [OF ok parts(1,2)] role_missing_def role_stale_def live_role_def
  show ?thesis
  proof (cases ?c)
    case True
    with Inr s1(1) s2(1) s3 role rg adm [OF True] show ?thesis by (simp add: simps)
  next
    case False
    with Inr s1(1) s4 role rg show ?thesis by (simp add: simps)
  qed
qed

end

context tenant_tx_total
begin

lemma insert_binding_exact:
  assumes "ok s" and "po_roles (view s) (sg_role b) \<noteq> None"
  shows "\<exists>s'. tx_insert_subject_role_grant tx b s =
      Inr (po_bindings (view s) (sg_subject b) (sg_role b) = None, s') \<and> ok s'"
proof (cases "tx_insert_subject_role_grant tx b s")
  case (Inl e)
  with total_insert_subject_role_grant [OF assms(1), of b] have "p_insert_binding b (view s) = Inl e" by simp
  with assms(2) show ?thesis by (simp add: p_insert_binding_def split: if_splits)
next
  case (Inr r)
  obtain c s' where r: "r = (c, s')" by (cases r)
  from total_insert_subject_role_grant [OF assms(1), of b] Inr r
  show ?thesis by (simp add: p_insert_binding_Inr)
qed

lemma delete_binding_exact:
  assumes "ok s"
  shows "\<exists>s'. tx_delete_subject_role_grant tx u r s = Inr (po_bindings (view s) u r, s') \<and> ok s' \<and>
    view s' = (if po_bindings (view s) u r = None then view s else set_binding u r None (view s))"
proof -
  from total_delete_subject_role_grant [OF assms] obtain d s'
    where d: "tx_delete_subject_role_grant tx u r s = Inr (d, s')" by blast
  with delete_subject_role_grant [OF assms d] show ?thesis by (simp add: p_delete_binding_Inr)
qed

lemma insert_edge_total: "ok s \<Longrightarrow> \<exists>s'. tx_insert_grant_edge tx ed s = Inr s' \<and> ok s'"
  using total_insert_grant_edge [of s ed] insert_grant_edge [of s ed] by blast

lemma delete_edge_total: "ok s \<Longrightarrow> \<exists>s'. tx_delete_grant_edge tx ed s = Inr s' \<and> ok s'"
  using total_delete_grant_edge [of s ed] delete_grant_edge [of s ed] by blast

lemma assignRole_exact:
  assumes ok: "ok s" and inv: "policy_ok m t (view s)"
  shows "verdict_of (assignRole_tx m tx clk actor meta input s) =
    assign_verdict m actor (ai_subject input) (ai_role input) (ai_expected input) (view s)"
proof (cases "target_role tx (ai_role input) (ai_expected input) s")
  case (Inl e)
  with target_role_exact [OF ok, of "ai_role input" "ai_expected input"] show ?thesis
    by (auto simp: assignRole_tx_def assign_verdict_def requireActor_exact [OF ok policy_ok_parts(1,2) [OF inv]]
        role_missing_def role_stale_def live_role_def split: option.splits if_splits)
next
  case (Inr x)
  note parts = policy_ok_parts [OF inv]
  note role = target_role_run [OF ok Inr]
  have id: "ro_id x = ai_role input" using role_of_policy [OF inv] role by simp
  let ?b = "\<lparr>sg_tenant = pr_tenant actor, sg_subject = ai_subject input, sg_role = ai_role input,
      sg_grantor = pr_subject actor, sg_provenance = GrantProvenanceDelegated, sg_granted_at = clk AtGrant\<rparr>"
  let ?c = "po_bindings (view s) (ai_subject input) (ai_role input) = None"
  obtain s1 where s1: "tx_insert_subject_role_grant tx ?b s = Inr (?c, s1)" "ok s1"
    using insert_binding_exact [OF ok, of ?b] role by auto
  obtain s2 where s2: "tx_insert_grant_edge tx \<lparr>ge_tenant = pr_tenant actor, ge_grantor = pr_subject actor,
      ge_grantee = ai_subject input, ge_role = ai_role input, ge_created_at = clk AtEdge\<rparr> s1 = Inr s2" "ok s2"
    using insert_edge_total [OF s1(2)] by blast
  obtain s3 where s3: "tx_insert_mutation_audit tx (auditEvent (clk AtEvent) (pr_tenant actor) actor meta
      ''assign.role'' ''subject_role'' (ai_subject input) AuditOutcomeSuccess (ro_version x)) s2 = Inr s3"
    using insert_audit_total [OF s2(2)] by blast
  obtain s4 where s4: "tx_insert_mutation_audit tx (auditEvent (clk AtEvent) (pr_tenant actor) actor meta
      ''assign.role'' ''subject_role'' (ai_subject input) AuditOutcomeNoop (ro_version x)) s1 = Inr s4"
    using insert_audit_total [OF s1(2)] by blast
  have cov: "requireRoleCoverage m tx actor (ro_id x) s =
      (if covers_role (view s) (pr_subject actor) (ai_role input) then Inr () else Inl ErrForbidden)"
    using requireRoleCoverage_exact [OF ok inv, of "ro_id x" actor] role id by simp
  note simps = assignRole_tx_def assign_verdict_def requireActor_exact [OF ok parts(1,2)] cov
    total_has_grant_path [OF ok] role_missing_def role_stale_def live_role_def
  show ?thesis
  proof (cases ?c)
    case True
    with Inr s1(1) s2(1) s3 role show ?thesis by (simp add: simps)
  next
    case False
    with Inr s1(1) s4 role show ?thesis by (simp add: simps)
  qed
qed

lemma bindings_ok_unset: "bindings_ok p \<Longrightarrow> bindings_ok (set_binding u r None p)"
  unfolding bindings_ok_def by (auto split: if_splits)

lemma grants_ok_set_binding: "grants_ok c (set_binding u r b p) = grants_ok c p"
  by (simp add: grants_ok_def)

lemma unassignRole_exact:
  assumes ok: "ok s" and inv: "policy_ok m t (view s)"
  shows "verdict_of (unassignRole_tx m tx clk actor meta input s) =
    unassign_verdict m actor (ai_subject input) (ai_role input) (ai_expected input) (view s)"
proof (cases "live_role (view s) (ai_role input)")
  case False
  then show ?thesis
    by (auto simp: unassignRole_tx_def unassign_verdict_def requireActor_exact [OF ok policy_ok_parts(1,2) [OF inv]]
        get_role_exact [OF ok] p_get_role_def role_missing_def role_stale_def live_role_def
        split: option.splits if_splits)
next
  case True
  then obtain x where role: "po_roles (view s) (ai_role input) = Some x" "\<not> ro_deleted x"
    by (auto simp: live_role_def)
  note parts = policy_ok_parts [OF inv]
  have id: "ro_id x = ai_role input" using role_of_policy [OF inv] role by simp
  let ?b = "po_bindings (view s) (ai_subject input) (ai_role input)"
  let ?p = "set_binding (ai_subject input) (ai_role input) None (view s)"
  obtain s1 where s1: "tx_delete_subject_role_grant tx (ai_subject input) (ai_role input) s = Inr (?b, s1)" "ok s1"
      "view s1 = (if ?b = None then view s else ?p)"
    using delete_binding_exact [OF ok] by blast
  have cov: "requireRoleCoverage m tx actor (ro_id x) s =
      (if covers_role (view s) (pr_subject actor) (ai_role input) then Inr () else Inl ErrForbidden)"
    using requireRoleCoverage_exact [OF ok inv, of "ro_id x" actor] role id by simp
  note simps = unassignRole_tx_def unassign_verdict_def requireActor_exact [OF ok parts(1,2)] cov
    get_role_exact [OF ok] p_get_role_def role_missing_def role_stale_def live_role_def
  show ?thesis
  proof (cases ?b)
    case None
    obtain s4 where "tx_insert_mutation_audit tx (auditEvent (clk AtEvent) (pr_tenant actor) actor meta
        ''unassign.role'' ''subject_role'' (ai_subject input) AuditOutcomeNoop (ro_version x)) s1 = Inr s4"
      using insert_audit_total [OF s1(2)] by blast
    with None s1(1) role show ?thesis by (simp add: simps)
  next
    case (Some b)
    have adm: "guardLastAdministrator m tx s1 =
        (if has_administrator ?p (mg_controls m) then Inr () else Inl ErrLastAdministrator)"
      using guardLastAdministrator_exact [OF s1(2), of "mg_catalog m" m] s1(3) Some
        bindings_ok_unset [OF parts(2)] parts(1) by (simp add: grants_ok_set_binding)
    obtain s2 where s2: "(if sg_provenance b = GrantProvenanceDelegated \<and> sg_grantor b \<noteq> []
        then tx_delete_grant_edge tx \<lparr>ge_tenant = pr_tenant actor, ge_grantor = sg_grantor b,
               ge_grantee = ai_subject input, ge_role = ai_role input, ge_created_at = 0\<rparr> s1
        else Inr s1) = Inr s2" "ok s2"
      using delete_edge_total [OF s1(2)] s1(2) by (cases "sg_provenance b = GrantProvenanceDelegated \<and> sg_grantor b \<noteq> []") auto
    obtain s3 where "tx_insert_mutation_audit tx (auditEvent (clk AtEvent) (pr_tenant actor) actor meta
        ''unassign.role'' ''subject_role'' (ai_subject input) AuditOutcomeSuccess (ro_version x)) s2 = Inr s3"
      using insert_audit_total [OF s2(2)] by blast
    with Some s1(1) s2(1) role adm show ?thesis by (simp add: simps)
  qed
qed

end

end
