(* ===== verification/AdminPolicy.thy ===== *)
theory AdminPolicy
  imports Policy
begin

text \<open>
  \<open>internal/adminpolicy/coverage.go\<close>: the map from subjects to the control permissions they hold at
  tenant scope, filled by \<open>Add\<close> with validation and queried by \<open>Complete\<close>. The lemmas say what a
  whole run over candidate grants computes, whatever the order of the candidates.
\<close>

definition sub_map :: "('k, ('l, 'v) gomap) gomap \<Rightarrow> 'k \<Rightarrow> ('l, 'v) gomap" where
  "sub_map m k = (case map_get m k of None \<Rightarrow> [] | Some x \<Rightarrow> x)"

type_synonym coverage = "(subject_id, (permission_key, bool) gomap) gomap"

definition coverage_add :: "subject_id \<Rightarrow> effective_grant \<Rightarrow> coverage \<Rightarrow> error + coverage" where
  "coverage_add subject grant c =
     (if validateOpaqueID subject \<noteq> Inr () then Inl ErrInvalidPolicy
      else ebind (validateEffectiveGrant grant (eg_permission grant)) (\<lambda>_.
        if eg_scope grant = ScopeTenant
        then Inr (map_put subject (map_put (eg_permission grant) True (sub_map c subject)) c)
        else Inr c))"

definition coverage_complete :: "permission_key list \<Rightarrow> coverage \<Rightarrow> bool" where
  "coverage_complete permissions c =
     (\<exists>(subject, grants) \<in> set c.
        \<forall>permission \<in> set permissions. map_get grants permission = Some True)"

section \<open>A run over candidates\<close>

definition covered :: "coverage \<Rightarrow> subject_id \<Rightarrow> permission_key \<Rightarrow> bool" where
  "covered c u p = (map_get (sub_map c u) p = Some True)"

definition good_candidate :: "subject_id \<times> effective_grant \<Rightarrow> bool" where
  "good_candidate cand = (valid_id (fst cand) \<and> good_grant (eg_permission (snd cand)) (snd cand))"

lemma sub_map_put [simp]:
  "sub_map (map_put k x m) l = (if l = k then x else sub_map m l)"
  by (simp add: sub_map_def)

lemma coverage_add_cases:
  "coverage_add u g c =
     (if good_candidate (u, g)
      then Inr (if eg_scope g = ScopeTenant
                then map_put u (map_put (eg_permission g) True (sub_map c u)) c else c)
      else Inl ErrInvalidPolicy)"
  by (auto simp: coverage_add_def good_candidate_def validateOpaqueID_cases validateEffectiveGrant_cases)

definition add_all :: "(subject_id \<times> effective_grant) list \<Rightarrow> coverage \<Rightarrow> error + coverage" where
  "add_all = efold (\<lambda>(u, g). coverage_add u g)"

lemma add_all_Inl: "add_all cs c = Inl e \<Longrightarrow> e = ErrInvalidPolicy \<and> \<not> list_all good_candidate cs"
  by (induction cs arbitrary: c)
    (auto simp: add_all_def coverage_add_cases err_simps split: if_splits)

lemma add_all_Inr:
  assumes "add_all cs c = Inr c'" and "map_ok c"
  shows "list_all good_candidate cs \<and> map_ok c' \<and>
    (\<forall>u p. covered c' u p \<longleftrightarrow> covered c u p \<or>
       (\<exists>g. (u, g) \<in> set cs \<and> eg_scope g = ScopeTenant \<and> eg_permission g = p))"
  using assms
proof (induction cs arbitrary: c)
  case Nil
  then show ?case by (simp add: add_all_def)
next
  case (Cons cand cs)
  obtain u g where cand: "cand = (u, g)" by (cases cand)
  let ?c = "if eg_scope g = ScopeTenant
            then map_put u (map_put (eg_permission g) True (sub_map c u)) c else c"
  from Cons.prems(1) have good: "good_candidate (u, g)" and rest: "add_all cs ?c = Inr c'"
    by (auto simp: add_all_def cand coverage_add_cases split: if_splits)
  have step: "covered ?c v p \<longleftrightarrow> covered c v p \<or> (v = u \<and> eg_scope g = ScopeTenant \<and> eg_permission g = p)" for v p
    by (auto simp: covered_def)
  have "map_ok ?c" using Cons.prems(2) by simp
  from Cons.IH [OF rest this] good step cand show ?case by (auto split: if_splits)
qed

lemma coverage_complete_iff:
  assumes "map_ok c" and "permissions \<noteq> []"
  shows "coverage_complete permissions c \<longleftrightarrow> (\<exists>u. \<forall>p \<in> set permissions. covered c u p)"
proof
  assume "coverage_complete permissions c"
  then obtain u gs where "(u, gs) \<in> set c" "\<forall>p \<in> set permissions. map_get gs p = Some True"
    by (auto simp: coverage_complete_def)
  then show "\<exists>u. \<forall>p \<in> set permissions. covered c u p"
    using assms(1) map_get_entry [of c u gs] by (intro exI [of _ u]) (auto simp: covered_def sub_map_def)
next
  assume "\<exists>u. \<forall>p \<in> set permissions. covered c u p"
  then obtain u where u: "\<forall>p \<in> set permissions. covered c u p" by blast
  obtain p where "p \<in> set permissions" using assms(2) by (cases permissions) auto
  with u have "sub_map c u \<noteq> []" by (auto simp: covered_def)
  then obtain gs where "map_get c u = Some gs" by (auto simp: sub_map_def split: option.splits)
  with u assms(1) show "coverage_complete permissions c"
    using map_get_entry [of c u gs] by (auto simp: coverage_complete_def covered_def sub_map_def)
qed

lemma coverage_run:
  assumes "permissions \<noteq> []"
  shows "ebind (add_all cs []) (\<lambda>c. Inr (coverage_complete permissions c)) =
    (if list_all good_candidate cs
     then Inr (\<exists>u. \<forall>p \<in> set permissions. \<exists>g. (u, g) \<in> set cs \<and> eg_scope g = ScopeTenant \<and> eg_permission g = p)
     else Inl ErrInvalidPolicy)"
proof (cases "add_all cs []")
  case (Inl e)
  then show ?thesis using add_all_Inl [OF Inl] by simp
next
  case (Inr c)
  from add_all_Inr [OF Inr] have "list_all good_candidate cs" "map_ok c"
    and "covered c u p \<longleftrightarrow> (\<exists>g. (u, g) \<in> set cs \<and> eg_scope g = ScopeTenant \<and> eg_permission g = p)" for u p
    by (auto simp: covered_def sub_map_def)
  with Inr assms show ?thesis by (simp add: coverage_complete_iff)
qed

text \<open>
  Filling a coverage from the empty map with any list of candidate grants either rejects with
  \<open>ErrInvalidPolicy\<close>, exactly when some candidate is malformed (also one of a narrower scope), or
  makes \<open>Complete\<close> over the three controls hold exactly when one single subject has a tenant-scope
  candidate for every control permission.
\<close>

theorem coverage_run_controls:
  "ebind (add_all cs []) (\<lambda>c. Inr (coverage_complete (control_list controls) c)) =
    (if list_all good_candidate cs
     then Inr (\<exists>u. list_all (\<lambda>p. \<exists>g. (u, g) \<in> set cs \<and> eg_scope g = ScopeTenant \<and> eg_permission g = p)
            (control_list controls))
     else Inl ErrInvalidPolicy)"
  unfolding list_all_iff [of _ "control_list controls"]
  by (rule coverage_run) (simp add: control_list_def)

end
