(* ===== verification/TenantState.thy ===== *)
theory TenantState
  imports TenantTx AdminPolicy
begin

text \<open>
  The tenant state of the in-memory adapter (\<open>memory/memory.go\<close>, \<open>tenantState\<close>, \<open>tenantReader\<close> and
  \<open>tenantTx\<close>): its ten fields, every read and every mutation, and \<open>memory_tx\<close>, the adapter as a
  value of the interface. The interpretation \<open>mem\<close> proves that it meets the total contract.
\<close>

section \<open>State\<close>

record tenant_state =
  ts_roles :: "(role_id, role) gomap"
  ts_role_perms :: "(role_id, (grant_key, role_permission_grant) gomap) gomap"
  ts_subject_roles :: "(subject_id, (role_id, subject_role_grant) gomap) gomap"
  ts_grant_edges :: "(edge_key, grant_edge) gomap"
  ts_role_versions :: "(role_id, (int64, role_version) gomap) gomap"
  ts_audit :: "mutation_audit_event list"
  ts_bootstrapped :: bool
  ts_bootstrap_provenance :: host_provenance
  ts_purged :: bool
  ts_purge_ledger :: "(string, mutation_audit_event) gomap"

definition newTenantState :: tenant_state where
  "newTenantState = \<lparr>ts_roles = [], ts_role_perms = [], ts_subject_roles = [], ts_grant_edges = [],
     ts_role_versions = [], ts_audit = [], ts_bootstrapped = False,
     ts_bootstrap_provenance = \<lparr>hp_initiator = [], hp_at = 0\<rparr>, ts_purged = False,
     ts_purge_ledger = []\<rparr>"

definition cloneGrant :: "role_permission_grant \<Rightarrow> role_permission_grant" where
  "cloneGrant g = g\<lparr>rg_workspace_roles := [] @ rg_workspace_roles g\<rparr>"

definition cloneSnapshot :: "role_version \<Rightarrow> role_version" where
  "cloneSnapshot v = v\<lparr>rv_grants := map cloneGrant ([] @ rv_grants v)\<rparr>"

text \<open>\<open>cloneTenantState\<close>, field by field; \<open>None\<close> is the nil source.\<close>

definition cloneTenantState :: "tenant_state option \<Rightarrow> tenant_state" where
  "cloneTenantState source = (case source of
     None \<Rightarrow> newTenantState
   | Some s \<Rightarrow> newTenantState
      \<lparr>ts_roles := map (\<lambda>(id, r). (id, r)) (ts_roles s),
       ts_role_perms := map (\<lambda>(r, gs). (r, map (\<lambda>(k, g). (k, cloneGrant g)) gs)) (ts_role_perms s),
       ts_subject_roles := map (\<lambda>(u, rs). (u, map (\<lambda>(r, b). (r, b)) rs)) (ts_subject_roles s),
       ts_grant_edges := map (\<lambda>(k, e). (k, e)) (ts_grant_edges s),
       ts_role_versions :=
         map (\<lambda>(r, vs). (r, map (\<lambda>(n, v). (n, cloneSnapshot v)) vs)) (ts_role_versions s),
       ts_audit := [] @ ts_audit s,
       ts_bootstrapped := ts_bootstrapped s,
       ts_bootstrap_provenance := ts_bootstrap_provenance s,
       ts_purged := ts_purged s,
       ts_purge_ledger := map (\<lambda>(i, e). (i, e)) (ts_purge_ledger s)\<rparr>)"

lemma cloneGrant_id [simp]: "cloneGrant g = g"
  by (simp add: cloneGrant_def)

lemma map_cloneGrant [simp]: "map cloneGrant gs = gs"
  by (simp add: map_idI)

lemma cloneSnapshot_id [simp]: "cloneSnapshot v = v"
  by (simp add: cloneSnapshot_def)

lemma cloneTenantState_id: "cloneTenantState (Some s) = s"
  by (simp add: cloneTenantState_def newTenantState_def)

section \<open>Reads\<close>

definition is_live :: "tenant_state \<Rightarrow> role_id \<Rightarrow> bool" where
  "is_live s r = (case map_get (ts_roles s) r of None \<Rightarrow> False | Some x \<Rightarrow> \<not> ro_deleted x)"

definition mem_list_effective_grants ::
  "subject_id \<Rightarrow> permission_key \<Rightarrow> tenant_state \<Rightarrow> error + effective_grant list" where
  "mem_list_effective_grants u permission s =
     (case map_get (ts_subject_roles s) u of
        None \<Rightarrow> Inr []
      | Some rs \<Rightarrow> Inr (concat (map (\<lambda>(r, _).
          if \<not> is_live s r then []
          else map (\<lambda>(_, g). \<lparr>eg_role = r, eg_permission = rg_permission g, eg_scope = rg_scope g,
                              eg_workspace_roles = rg_workspace_roles g\<rparr>)
                 (filter (\<lambda>(_, g). rg_permission g = permission) (sub_map (ts_role_perms s) r))) rs)))"

definition mem_get_role :: "role_id \<Rightarrow> tenant_state \<Rightarrow> error + role" where
  "mem_get_role r s = (case map_get (ts_roles s) r of None \<Rightarrow> Inl ErrNotFound | Some x \<Rightarrow> Inr x)"

definition list_grant_less :: "role_permission_grant \<Rightarrow> role_permission_grant \<Rightarrow> bool" where
  "list_grant_less a b =
     (if rg_permission a \<noteq> rg_permission b then rg_permission a < rg_permission b
      else rg_scope a < rg_scope b)"

definition mem_list_role_permission_grants ::
  "role_id \<Rightarrow> tenant_state \<Rightarrow> error + role_permission_grant list" where
  "mem_list_role_permission_grants r s =
     (if map_get (ts_roles s) r = None then Inl ErrNotFound
      else Inr (sort_by list_grant_less
                  (map (\<lambda>(_, g). cloneGrant g) (sub_map (ts_role_perms s) r))))"

definition mem_list_subject_role_ids :: "subject_id \<Rightarrow> tenant_state \<Rightarrow> error + role_id list" where
  "mem_list_subject_role_ids u s = Inr (sort_by (<) (map fst (sub_map (ts_subject_roles s) u)))"

definition mem_list_role_subject_ids :: "role_id \<Rightarrow> tenant_state \<Rightarrow> error + subject_id list" where
  "mem_list_role_subject_ids r s =
     Inr (sort_by (<) (map fst (filter (\<lambda>(_, rs). map_get rs r \<noteq> None) (ts_subject_roles s))))"

text \<open>
  \<open>HasGrantPath\<close>: depth-first search with a visited set and an explicit stack (its top is the head
  of the list; pushing the grantees in iteration order leaves the last one on top).
\<close>

definition grantees :: "(edge_key, grant_edge) gomap \<Rightarrow> subject_id \<Rightarrow> subject_id list" where
  "grantees edges cur = map (\<lambda>((_, b, _), _). b) (filter (\<lambda>((a, _, _), _). a = cur) edges)"

definition open_nodes ::
  "(edge_key, grant_edge) gomap \<Rightarrow> subject_id list \<Rightarrow> subject_id list \<Rightarrow> subject_id set" where
  "open_nodes edges visited stack =
     (set stack \<union> (\<lambda>((_, b, _), _). b) ` set edges) - set visited"

lemma finite_open_nodes [simp]: "finite (open_nodes edges visited stack)"
  by (simp add: open_nodes_def)

lemma grantees_subset: "set (grantees edges cur) \<subseteq> (\<lambda>((_, b, _), _). b) ` set edges"
  by (force simp: grantees_def)

lemma open_nodes_visit:
  assumes "cur \<notin> set visited"
  shows "card (open_nodes edges (cur # visited) (rev (grantees edges cur) @ stack)) <
    card (open_nodes edges visited (cur # stack))"
proof (rule psubset_card_mono)
  have "open_nodes edges (cur # visited) (rev (grantees edges cur) @ stack) \<subseteq>
      open_nodes edges visited (cur # stack) - {cur}"
    using grantees_subset [of edges cur] by (auto simp: open_nodes_def)
  moreover have "cur \<in> open_nodes edges visited (cur # stack)"
    using assms by (simp add: open_nodes_def)
  ultimately show "open_nodes edges (cur # visited) (rev (grantees edges cur) @ stack) \<subset>
      open_nodes edges visited (cur # stack)" by blast
qed simp

lemma open_nodes_pop: "card (open_nodes edges visited stack) \<le> card (open_nodes edges visited (cur # stack))"
  by (rule card_mono) (auto simp: open_nodes_def)

function path_search ::
  "(edge_key, grant_edge) gomap \<Rightarrow> subject_id \<Rightarrow> subject_id list \<Rightarrow> subject_id list \<Rightarrow> bool" where
  "path_search edges to visited [] = False"
| "path_search edges to visited (cur # stack) =
     (if cur \<in> set visited then path_search edges to visited stack
      else if cur = to then True
      else path_search edges to (cur # visited) (rev (grantees edges cur) @ stack))"
  by pat_completeness auto
termination
proof (relation "inv_image (less_than <*lex*> less_than)
    (\<lambda>(edges, to, visited, stack). (card (open_nodes edges visited stack), length stack))", goal_cases)
  case (2 edges to visited cur stack)
  then show ?case using open_nodes_pop [of edges visited stack cur] by (auto simp: le_less)
next
  case (3 edges to visited cur stack)
  then show ?case using open_nodes_visit by simp
qed auto

definition mem_has_grant_path :: "subject_id \<Rightarrow> subject_id \<Rightarrow> tenant_state \<Rightarrow> error + bool" where
  "mem_has_grant_path from to s = Inr (path_search (ts_grant_edges s) to [] [from])"

definition mem_has_administrator :: "control_permissions \<Rightarrow> tenant_state \<Rightarrow> error + bool" where
  "mem_has_administrator controls s =
     (let permissions = control_list controls in
      ebind (efold (\<lambda>(subject, rs) cov.
               efold (\<lambda>(r, _) cov.
                 if \<not> is_live s r then Inr cov
                 else efold (\<lambda>(_, g) cov.
                        if rg_permission g \<notin> set permissions then Inr cov
                        else coverage_add subject (effective_of g) cov)
                      (sub_map (ts_role_perms s) r) cov)
                 rs cov)
               (ts_subject_roles s) [])
        (\<lambda>cov. Inr (coverage_complete permissions cov)))"

definition mem_is_bootstrapped :: "tenant_state \<Rightarrow> error + bool" where
  "mem_is_bootstrapped s = Inr (ts_bootstrapped s)"

section \<open>Mutations\<close>

definition mem_insert_role :: "role \<Rightarrow> tenant_state \<Rightarrow> error + tenant_state" where
  "mem_insert_role r s =
     (if map_get (ts_roles s) (ro_id r) \<noteq> None then Inl ErrConflict
      else Inr (s\<lparr>ts_roles := map_put (ro_id r) r (ts_roles s),
                  ts_role_perms := map_put (ro_id r) [] (ts_role_perms s),
                  ts_role_versions := map_put (ro_id r) [] (ts_role_versions s)\<rparr>))"

definition mem_update_role :: "role \<Rightarrow> int64 \<Rightarrow> tenant_state \<Rightarrow> error + tenant_state" where
  "mem_update_role r expectedVersion s =
     (case map_get (ts_roles s) (ro_id r) of
        None \<Rightarrow> Inl ErrNotFound
      | Some existing \<Rightarrow>
          if ro_version existing \<noteq> expectedVersion then Inl ErrConflict
          else Inr (s\<lparr>ts_roles :=
                 map_put (ro_id r) (r\<lparr>ro_version := expectedVersion + 1\<rparr>) (ts_roles s)\<rparr>))"

definition mem_tombstone_role :: "role_id \<Rightarrow> int64 \<Rightarrow> tenant_state \<Rightarrow> error + tenant_state" where
  "mem_tombstone_role r expectedVersion s =
     (case map_get (ts_roles s) r of
        None \<Rightarrow> Inl ErrNotFound
      | Some existing \<Rightarrow>
          if ro_version existing \<noteq> expectedVersion then Inl ErrConflict
          else Inr (s\<lparr>ts_roles :=
                 map_put r (existing\<lparr>ro_deleted := True, ro_version := expectedVersion + 1\<rparr>)
                   (ts_roles s)\<rparr>))"

text \<open>Writing into the inner map of a role: a nil inner map panics.\<close>

definition mem_insert_role_permission_grant ::
  "role_permission_grant \<Rightarrow> tenant_state \<Rightarrow> error + bool \<times> tenant_state" where
  "mem_insert_role_permission_grant g s =
     (case map_get (ts_roles s) (rg_role g) of
        None \<Rightarrow> Inl ErrNotFound
      | Some r \<Rightarrow>
          if ro_deleted r then Inl ErrNotFound
          else if map_get (sub_map (ts_role_perms s) (rg_role g)) (grant_key_of g) \<noteq> None
          then Inr (False, s)
          else (case map_get (ts_role_perms s) (rg_role g) of
              None \<Rightarrow> Inl GoPanic
            | Some gs \<Rightarrow> Inr (True, s\<lparr>ts_role_perms :=
                  map_put (rg_role g) (map_put (grant_key_of g) (cloneGrant g) gs) (ts_role_perms s)\<rparr>)))"

definition mem_delete_role_permission_grant ::
  "role_permission_grant \<Rightarrow> tenant_state \<Rightarrow> error + bool \<times> tenant_state" where
  "mem_delete_role_permission_grant g s =
     (if map_get (sub_map (ts_role_perms s) (rg_role g)) (grant_key_of g) = None then Inr (False, s)
      else Inr (True, s\<lparr>ts_role_perms := map_put (rg_role g)
             (map_del (grant_key_of g) (sub_map (ts_role_perms s) (rg_role g))) (ts_role_perms s)\<rparr>))"

definition mem_insert_subject_role_grant ::
  "subject_role_grant \<Rightarrow> tenant_state \<Rightarrow> error + bool \<times> tenant_state" where
  "mem_insert_subject_role_grant b s =
     (if map_get (ts_roles s) (sg_role b) = None then Inl ErrNotFound
      else if map_get (sub_map (ts_subject_roles s) (sg_subject b)) (sg_role b) \<noteq> None
      then Inr (False, s)
      else Inr (True, s\<lparr>ts_subject_roles := map_put (sg_subject b)
             (map_put (sg_role b) b (sub_map (ts_subject_roles s) (sg_subject b)))
             (ts_subject_roles s)\<rparr>))"

definition mem_delete_subject_role_grant ::
  "subject_id \<Rightarrow> role_id \<Rightarrow> tenant_state \<Rightarrow> error + subject_role_grant option \<times> tenant_state" where
  "mem_delete_subject_role_grant u r s =
     (case map_get (sub_map (ts_subject_roles s) u) r of
        None \<Rightarrow> Inr (None, s)
      | Some b \<Rightarrow> Inr (Some b, s\<lparr>ts_subject_roles := map_put u
             (map_del r (sub_map (ts_subject_roles s) u)) (ts_subject_roles s)\<rparr>))"

definition mem_insert_grant_edge :: "grant_edge \<Rightarrow> tenant_state \<Rightarrow> error + tenant_state" where
  "mem_insert_grant_edge e s =
     Inr (s\<lparr>ts_grant_edges := map_put (edge_key_of e) e (ts_grant_edges s)\<rparr>)"

definition mem_delete_grant_edge :: "grant_edge \<Rightarrow> tenant_state \<Rightarrow> error + tenant_state" where
  "mem_delete_grant_edge e s =
     Inr (s\<lparr>ts_grant_edges := map_del (edge_key_of e) (ts_grant_edges s)\<rparr>)"

definition mem_insert_role_version :: "role_version \<Rightarrow> tenant_state \<Rightarrow> error + tenant_state" where
  "mem_insert_role_version v s =
     Inr (s\<lparr>ts_role_versions := map_put (rv_role v)
        (map_put (rv_version v) (cloneSnapshot v) (sub_map (ts_role_versions s) (rv_role v)))
        (ts_role_versions s)\<rparr>)"

definition mem_insert_mutation_audit :: "mutation_audit_event \<Rightarrow> tenant_state \<Rightarrow> error + tenant_state" where
  "mem_insert_mutation_audit e s = Inr (s\<lparr>ts_audit := ts_audit s @ [e]\<rparr>)"

definition mem_mark_bootstrapped :: "host_provenance \<Rightarrow> tenant_state \<Rightarrow> error + tenant_state" where
  "mem_mark_bootstrapped prov s =
     Inr (s\<lparr>ts_bootstrapped := True, ts_bootstrap_provenance := prov\<rparr>)"

text \<open>The adapter.\<close>

definition memory_tx :: "tenant_state tenant_tx" where
  "memory_tx = \<lparr>
     tx_list_effective_grants = mem_list_effective_grants,
     tx_get_role = mem_get_role,
     tx_list_role_permission_grants = mem_list_role_permission_grants,
     tx_list_subject_role_ids = mem_list_subject_role_ids,
     tx_list_role_subject_ids = mem_list_role_subject_ids,
     tx_has_grant_path = mem_has_grant_path,
     tx_has_administrator = mem_has_administrator,
     tx_is_bootstrapped = mem_is_bootstrapped,
     tx_insert_role = mem_insert_role,
     tx_update_role = mem_update_role,
     tx_tombstone_role = mem_tombstone_role,
     tx_insert_role_permission_grant = mem_insert_role_permission_grant,
     tx_delete_role_permission_grant = mem_delete_role_permission_grant,
     tx_insert_subject_role_grant = mem_insert_subject_role_grant,
     tx_delete_subject_role_grant = mem_delete_subject_role_grant,
     tx_insert_grant_edge = mem_insert_grant_edge,
     tx_delete_grant_edge = mem_delete_grant_edge,
     tx_insert_role_version = mem_insert_role_version,
     tx_insert_mutation_audit = mem_insert_mutation_audit,
     tx_mark_bootstrapped = mem_mark_bootstrapped\<rparr>"

section \<open>The policy a state stands for\<close>

definition tenant_view :: "tenant_state \<Rightarrow> policy" where
  "tenant_view s = \<lparr>po_roles = map_get (ts_roles s),
     po_grants = (\<lambda>r. map_get (sub_map (ts_role_perms s) r)),
     po_bindings = (\<lambda>u. map_get (sub_map (ts_subject_roles s) u)),
     po_edges = fst ` set (ts_grant_edges s),
     po_versions = (\<lambda>r. map_get (sub_map (ts_role_versions s) r)),
     po_audit = ts_audit s, po_bootstrapped = ts_bootstrapped s\<rparr>"

definition nested_ok :: "('k, ('l, 'v) gomap) gomap \<Rightarrow> bool" where
  "nested_ok m = (map_ok m \<and> (\<forall>k. map_ok (sub_map m k)))"

definition tenant_state_ok :: "tenant_state \<Rightarrow> bool" where
  "tenant_state_ok s =
     (map_ok (ts_roles s) \<and> nested_ok (ts_role_perms s) \<and> nested_ok (ts_subject_roles s) \<and>
      map_ok (ts_grant_edges s) \<and> nested_ok (ts_role_versions s) \<and> map_ok (ts_purge_ledger s) \<and>
      dom (map_get (ts_roles s)) \<subseteq> dom (map_get (ts_role_perms s)) \<and>
      (\<forall>r k g. map_get (sub_map (ts_role_perms s) r) k = Some g \<longrightarrow>
         k = grant_key_of g \<and> rg_role g = r))"

section \<open>Search for a delegation path\<close>

definition edge_graph :: "(edge_key, grant_edge) gomap \<Rightarrow> (subject_id \<times> subject_id) set" where
  "edge_graph edges = {(a, b). \<exists>r. (a, b, r) \<in> fst ` set edges}"

lemma set_grantees: "set (grantees edges cur) = {b. (cur, b) \<in> edge_graph edges}"
  by (force simp: grantees_def edge_graph_def)

text \<open>A path that starts among the visited nodes and ends outside them leaves through the stack.\<close>

lemma path_leaves:
  assumes "(a, b) \<in> G\<^sup>*" and "a \<in> V" and "b \<notin> V"
    and "\<And>x y. x \<in> V \<Longrightarrow> (x, y) \<in> G \<Longrightarrow> y \<in> V \<union> S"
  shows "\<exists>x \<in> S. (x, b) \<in> G\<^sup>*"
  using assms(1-3)
proof (induction rule: converse_rtrancl_induct)
  case base
  then show ?case by simp
next
  case (step y z)
  then show ?case using assms(4) by blast
qed

lemma path_search_iff:
  assumes "to \<notin> set visited"
    and "\<And>a b. a \<in> set visited \<Longrightarrow> (a, b) \<in> edge_graph edges \<Longrightarrow> b \<in> set visited \<union> set stack"
  shows "path_search edges to visited stack \<longleftrightarrow> (\<exists>x \<in> set stack. (x, to) \<in> (edge_graph edges)\<^sup>*)"
  using assms
proof (induction edges to visited stack rule: path_search.induct)
  case (1 edges to visited)
  then show ?case by simp
next
  case (2 edges to visited cur stack)
  let ?G = "edge_graph edges"
  consider "cur \<in> set visited" | "cur \<notin> set visited" "cur = to" | "cur \<notin> set visited" "cur \<noteq> to"
    by blast
  then show ?case
  proof cases
    case 1
    have closed: "\<And>a b. a \<in> set visited \<Longrightarrow> (a, b) \<in> ?G \<Longrightarrow> b \<in> set visited \<union> set stack"
      using 2(4) 1 by fastforce
    from path_leaves [of cur to ?G "set visited" "set stack"] 1 2(3) closed
    have "(cur, to) \<in> ?G\<^sup>* \<Longrightarrow> \<exists>x \<in> set stack. (x, to) \<in> ?G\<^sup>*" by blast
    with 2(1) [OF 1 2(3)] closed 1 show ?thesis by auto
  next
    case 2
    then show ?thesis by simp
  next
    case 3
    let ?stack = "rev (grantees edges cur) @ stack"
    have closed: "b \<in> set (cur # visited) \<union> set ?stack"
      if "a \<in> set (cur # visited)" "(a, b) \<in> ?G" for a b
      using that 2(4) [of a b] by (auto simp: set_grantees)
    have "path_search edges to (cur # visited) ?stack \<longleftrightarrow> (\<exists>x \<in> set ?stack. (x, to) \<in> ?G\<^sup>*)"
      using 2(2) [OF 3] 2(3) 3 closed by auto
    moreover have "(cur, to) \<in> ?G\<^sup>* \<longleftrightarrow> (\<exists>b \<in> set (grantees edges cur). (b, to) \<in> ?G\<^sup>*)"
      using 3(2) by (auto simp: set_grantees elim: converse_rtranclE intro: converse_rtrancl_into_rtrancl)
    ultimately show ?thesis using 3 by auto
  qed
qed

lemma mem_has_grant_path_iff:
  "mem_has_grant_path a b s = Inr ((a, b) \<in> (grant_graph (tenant_view s))\<^sup>*)"
proof -
  have "edge_graph (ts_grant_edges s) = grant_graph (tenant_view s)"
    by (simp add: edge_graph_def grant_graph_def tenant_view_def)
  then show ?thesis
    using path_search_iff [of b "[]" "ts_grant_edges s" "[a]"] by (simp add: mem_has_grant_path_def)
qed

section \<open>Candidates of \<open>HasAdministrator\<close>\<close>

definition candidates :: "permission_key list \<Rightarrow> tenant_state \<Rightarrow> (subject_id \<times> effective_grant) list" where
  "candidates permissions s =
     concat (map (\<lambda>(u, rs). concat (map (\<lambda>(r, _).
       if is_live s r
       then map (\<lambda>(_, g). (u, effective_of g))
              (filter (\<lambda>(_, g). rg_permission g \<in> set permissions) (sub_map (ts_role_perms s) r))
       else []) rs)) (ts_subject_roles s))"

lemma mem_has_administrator_run:
  "mem_has_administrator controls s =
     ebind (add_all (candidates (control_list controls) s) [])
       (\<lambda>c. Inr (coverage_complete (control_list controls) c))"
proof -
  let ?ps = "control_list controls"
  have grants: "efold (\<lambda>(x, g) cov. if rg_permission g \<notin> set ?ps then Inr cov
          else coverage_add u (effective_of g) cov) gs cov =
      efold (\<lambda>(u, g). coverage_add u g) (map (\<lambda>(x, g). (u, effective_of g))
        (filter (\<lambda>(x, g). rg_permission g \<in> set ?ps) gs)) cov" for u gs cov
    by (induction gs arbitrary: cov) (auto simp: ebind_def split: sum.splits)
  have roles: "efold (\<lambda>(r, x) cov. if \<not> is_live s r then Inr cov
        else efold (\<lambda>(x, g) cov. if rg_permission g \<notin> set ?ps then Inr cov
               else coverage_add u (effective_of g) cov) (sub_map (ts_role_perms s) r) cov) rs cov =
      efold (\<lambda>(u, g). coverage_add u g) (concat (map (\<lambda>(r, x).
        if is_live s r then map (\<lambda>(x, g). (u, effective_of g))
          (filter (\<lambda>(x, g). rg_permission g \<in> set ?ps) (sub_map (ts_role_perms s) r)) else []) rs)) cov"
    for u rs cov
    by (rule efold_flatten) (simp add: grants split: prod.splits)
  have subjects: "efold (\<lambda>(u, rs) cov. efold (\<lambda>(u, g). coverage_add u g) (h u rs) cov) us cov =
      efold (\<lambda>(u, g). coverage_add u g) (concat (map (\<lambda>(u, rs). h u rs) us)) cov" for h us cov
    by (rule efold_flatten) (simp split: prod.splits)
  show ?thesis
    unfolding mem_has_administrator_def Let_def roles subjects add_all_def candidates_def ..
qed

section \<open>The adapter meets the contract\<close>

lemma tenant_view_simps [simp]:
  "po_roles (tenant_view s) = map_get (ts_roles s)"
  "po_grants (tenant_view s) r = map_get (sub_map (ts_role_perms s) r)"
  "po_bindings (tenant_view s) u = map_get (sub_map (ts_subject_roles s) u)"
  "po_edges (tenant_view s) = fst ` set (ts_grant_edges s)"
  "po_versions (tenant_view s) r = map_get (sub_map (ts_role_versions s) r)"
  "po_audit (tenant_view s) = ts_audit s"
  "po_bootstrapped (tenant_view s) = ts_bootstrapped s"
  by (simp_all add: tenant_view_def)

lemma is_live_view: "is_live s r \<longleftrightarrow> live_role (tenant_view s) r"
  by (auto simp: is_live_def live_role_def split: option.splits)

lemma sub_map_entry:
  "nested_ok m \<Longrightarrow> (k, x) \<in> set m \<Longrightarrow> sub_map m k = x"
  using map_get_entry [of m k x] by (simp add: nested_ok_def sub_map_def)

lemma sub_map_get: "map_get (sub_map m k) l = Some v \<Longrightarrow> map_get m k = Some (sub_map m k)"
  by (auto simp: sub_map_def split: option.splits)

lemma nested_entries:
  "nested_ok m \<Longrightarrow> (l, v) \<in> set (sub_map m k) \<longleftrightarrow> map_get (sub_map m k) l = Some v"
  by (simp add: nested_ok_def map_get_entry)

lemma nested_ok_put [simp]: "nested_ok m \<Longrightarrow> map_ok x \<Longrightarrow> nested_ok (map_put k x m)"
  by (simp add: nested_ok_def)

lemma nested_ok_sub [simp]: "nested_ok m \<Longrightarrow> map_ok (sub_map m k)"
  by (simp add: nested_ok_def)

lemma entry_in_nested:
  "nested_ok m \<Longrightarrow> (\<exists>x. (k, x) \<in> set m \<and> (l, v) \<in> set x) \<longleftrightarrow> map_get (sub_map m k) l = Some v"
  using map_get_entry [of m k "sub_map m k"] sub_map_entry [of m k] sub_map_get [of m k l v]
  by (metis nested_entries nested_ok_def)

lemma stored_grant:
  "tenant_state_ok s \<Longrightarrow> map_get (sub_map (ts_role_perms s) r) k = Some g \<Longrightarrow>
     k = grant_key_of g \<and> rg_role g = r"
  unfolding tenant_state_ok_def by blast

lemma mem_candidates:
  assumes "tenant_state_ok s"
  shows "(u, g') \<in> set (candidates ps s) \<longleftrightarrow> (\<exists>r k g.
    map_get (sub_map (ts_subject_roles s) u) r \<noteq> None \<and> is_live s r \<and>
    map_get (sub_map (ts_role_perms s) r) k = Some g \<and> rg_permission g \<in> set ps \<and> g' = effective_of g)"
proof -
  have "(u, g') \<in> set (candidates ps s) \<longleftrightarrow>
      (\<exists>r b k g. (\<exists>rs. (u, rs) \<in> set (ts_subject_roles s) \<and> (r, b) \<in> set rs) \<and> is_live s r \<and>
         (k, g) \<in> set (sub_map (ts_role_perms s) r) \<and> rg_permission g \<in> set ps \<and> g' = effective_of g)"
    by (fastforce simp: candidates_def split: if_splits)
  moreover have "nested_ok (ts_subject_roles s)" "nested_ok (ts_role_perms s)"
    using assms by (simp_all add: tenant_state_ok_def)
  ultimately show ?thesis by (simp add: entry_in_nested nested_entries)
qed

lemma candidates_held:
  assumes "tenant_state_ok s"
  shows "(u, g) \<in> set (candidates ps s) \<longleftrightarrow> eg_permission g \<in> set ps \<and> g \<in> held_grants (tenant_view s) u"
proof -
  have same: "(effective_of x)\<lparr>eg_role := r\<rparr> = effective_of x"
    if "map_get (sub_map (ts_role_perms s) r) k = Some x" for r k x
    using stored_grant [OF assms that] by (auto simp: effective_of_def)
  show ?thesis
    unfolding mem_candidates [OF assms] held_grants_def is_live_view mem_Collect_eq tenant_view_simps
    using same by (metis effective_of_simps(2))
qed

lemma mem_has_administrator_eq:
  assumes "tenant_state_ok s"
  shows "mem_has_administrator controls s = p_has_administrator controls (tenant_view s)"
proof -
  let ?cs = "candidates (control_list controls) s"
  have nonempty: "control_list controls \<noteq> []" by (simp add: control_list_def)
  have "list_all good_candidate ?cs \<longleftrightarrow>
      (\<forall>u g. (u, g) \<in> set ?cs \<longrightarrow> valid_id u \<and> good_grant (eg_permission g) g)"
    by (auto simp: list_all_iff good_candidate_def)
  then have "list_all good_candidate ?cs \<longleftrightarrow> controls_well_formed (tenant_view s) controls"
    unfolding controls_well_formed_def effective_grants_def candidates_held [OF assms] by blast
  moreover have "(\<exists>u. \<forall>p \<in> set (control_list controls). \<exists>g. (u, g) \<in> set ?cs \<and>
        eg_scope g = ScopeTenant \<and> eg_permission g = p) \<longleftrightarrow> has_administrator (tenant_view s) controls"
    unfolding has_administrator_def holds_all_controls_def effective_grants_def
    unfolding candidates_held [OF assms] Bex_def mem_Collect_eq by metis
  ultimately show ?thesis
    by (simp add: mem_has_administrator_run coverage_run [OF nonempty] p_has_administrator_def)
qed

lemma mem_list_effective_grants_set:
  assumes "tenant_state_ok s" and "mem_list_effective_grants u perm s = Inr gs"
  shows "set gs = effective_grants (tenant_view s) u perm"
proof -
  have gs: "gs = concat (map (\<lambda>(r, _).
          if \<not> is_live s r then []
          else map (\<lambda>(_, g). \<lparr>eg_role = r, eg_permission = rg_permission g, eg_scope = rg_scope g,
                              eg_workspace_roles = rg_workspace_roles g\<rparr>)
                 (filter (\<lambda>(_, g). rg_permission g = perm) (sub_map (ts_role_perms s) r)))
        (sub_map (ts_subject_roles s) u))"
    using assms(2) by (auto simp: mem_list_effective_grants_def sub_map_def split: option.splits)
  have "g' \<in> set gs \<longleftrightarrow> (\<exists>r b k g. (r, b) \<in> set (sub_map (ts_subject_roles s) u) \<and> is_live s r \<and>
      (k, g) \<in> set (sub_map (ts_role_perms s) r) \<and> rg_permission g = perm \<and>
      g' = (effective_of g)\<lparr>eg_role := r\<rparr>)" for g'
    unfolding gs effective_of_def by (fastforce split: if_splits)
  moreover have "nested_ok (ts_subject_roles s)" "nested_ok (ts_role_perms s)"
    using assms(1) by (simp_all add: tenant_state_ok_def)
  ultimately have gs_iff: "g' \<in> set gs \<longleftrightarrow> (\<exists>r b k g. map_get (sub_map (ts_subject_roles s) u) r = Some b \<and>
      live_role (tenant_view s) r \<and> map_get (sub_map (ts_role_perms s) r) k = Some g \<and>
      rg_permission g = perm \<and> g' = (effective_of g)\<lparr>eg_role := r\<rparr>)" for g'
    unfolding is_live_view by (simp add: nested_entries)
  have perm: "eg_permission ((effective_of g)\<lparr>eg_role := r\<rparr>) = rg_permission g" for g r
    by simp
  show ?thesis
    unfolding effective_grants_def held_grants_def tenant_view_simps set_eq_iff gs_iff mem_Collect_eq
    using perm by (metis not_None_eq)
qed

lemma values_snd: "map (\<lambda>(_, g). g) m = map snd m"
  by (induction m) auto

lemma mem_list_role_permission_grants_set:
  assumes ok: "tenant_state_ok s" and run: "mem_list_role_permission_grants r s = Inr gs"
  shows "set gs = ran (po_grants (tenant_view s) r) \<and> distinct gs \<and> po_roles (tenant_view s) r \<noteq> None"
proof -
  let ?m = "sub_map (ts_role_perms s) r"
  have gs: "gs = sort_by list_grant_less (map snd ?m)" and role: "map_get (ts_roles s) r \<noteq> None"
    using run by (auto simp: mem_list_role_permission_grants_def values_snd split: if_splits)
  have m: "map_ok ?m" using ok by (simp add: tenant_state_ok_def)
  have "\<forall>e \<in> set ?m. fst e = grant_key_of (snd e)"
  proof
    fix e assume "e \<in> set ?m"
    then have "map_get ?m (fst e) = Some (snd e)" using m map_get_entry [of ?m "fst e" "snd e"] by simp
    with stored_grant [OF ok] show "fst e = grant_key_of (snd e)" by blast
  qed
  then have "map grant_key_of (map snd ?m) = map fst ?m" by simp
  then have "distinct (map snd ?m)" using m unfolding map_ok_def by (metis distinct_map)
  with gs role alist_map.values_entries [OF m] show ?thesis by simp
qed

lemma mem_list_role_subject_ids_set:
  assumes "tenant_state_ok s" and "mem_list_role_subject_ids r s = Inr us"
  shows "set us = {u. po_bindings (tenant_view s) u r \<noteq> None}"
proof -
  have ok: "nested_ok (ts_subject_roles s)" using assms(1) by (simp add: tenant_state_ok_def)
  have "u \<in> set us \<longleftrightarrow> (\<exists>rs. (u, rs) \<in> set (ts_subject_roles s) \<and> map_get rs r \<noteq> None)" for u
    using assms(2) by (force simp: mem_list_role_subject_ids_def)
  moreover have "(\<exists>rs. (u, rs) \<in> set (ts_subject_roles s) \<and> map_get rs r \<noteq> None) \<longleftrightarrow>
      map_get (sub_map (ts_subject_roles s) u) r \<noteq> None" for u
    using ok by (metis map_get_entry nested_ok_def not_None_eq sub_map_entry sub_map_get)
  ultimately show ?thesis by auto
qed

lemma edge_keys_put: "fst ` set (map_put k v m) = insert k (fst ` set m)"
  by (simp add: map_put_def dom_update)

lemma edge_keys_del: "fst ` set (map_del k m) = fst ` set m - {k}"
  by (force simp: map_del_def AList.delete_eq)

interpretation mem: tenant_reader_laws memory_tx tenant_view tenant_state_ok
proof (unfold_locales, goal_cases)
  case (1 s u perm gs)
  then show ?case by (simp add: memory_tx_def mem_list_effective_grants_set)
next
  case (2 s r x)
  then show ?case by (simp add: memory_tx_def mem_get_role_def p_get_role_def)
next
  case (3 s r gs)
  then show ?case using mem_list_role_permission_grants_set [of s r gs] by (simp add: memory_tx_def)
next
  case (4 s u rs)
  then have "map_ok (sub_map (ts_subject_roles s) u)" by (simp add: tenant_state_ok_def)
  from alist_map.keys_entries [OF this] 4 show ?case
    by (auto simp: memory_tx_def mem_list_subject_role_ids_def)
next
  case (5 s r us)
  then show ?case using mem_list_role_subject_ids_set [of s r us] by (simp add: memory_tx_def)
next
  case (6 s u u' c)
  then show ?case by (simp add: memory_tx_def mem_has_grant_path_iff)
next
  case (7 s controls c)
  then show ?case by (simp add: memory_tx_def mem_has_administrator_eq)
next
  case (8 s c)
  then show ?case by (simp add: memory_tx_def mem_is_bootstrapped_def)
qed

lemma fun_upd_lambda: "(\<lambda>x. if x = k then v else f x) = f(k := v)"
  by (simp add: fun_eq_iff)

lemma sub_map_put_fun: "(\<lambda>r. map_get (sub_map (map_put k x m) r)) = (\<lambda>r. map_get (sub_map m r))(k := map_get x)"
  by (simp add: fun_eq_iff)

lemma dom_put: "dom (map_get (map_put k v m)) = insert k (dom (map_get m))"
  by simp

lemma tenant_state_ok_role:
  "tenant_state_ok s \<Longrightarrow> map_get (ts_roles s) r = Some x \<Longrightarrow>
     map_get (ts_role_perms s) r = Some (sub_map (ts_role_perms s) r)"
  by (auto simp: tenant_state_ok_def sub_map_def dom_def split: option.splits)

text \<open>Each mutation does to the view what the policy operation does, and keeps the invariant.\<close>

lemmas mutation_defs = tenant_view_def sub_map_put_fun edge_keys_put edge_keys_del

lemma mem_insert_role_view:
  "tenant_state_ok s \<Longrightarrow>
   (case mem_insert_role x s of Inl e \<Rightarrow> p_insert_role x (tenant_view s) = Inl e
    | Inr s' \<Rightarrow> tenant_state_ok s' \<and> p_insert_role x (tenant_view s) = Inr (tenant_view s'))"
  by (auto simp: mem_insert_role_def p_insert_role_def mutation_defs tenant_state_ok_def nested_ok_def
      dom_put map_get_def [of "[]"])

lemma mem_update_role_view:
  "tenant_state_ok s \<Longrightarrow>
   (case mem_update_role x v s of Inl e \<Rightarrow> p_update_role x v (tenant_view s) = Inl e
    | Inr s' \<Rightarrow> tenant_state_ok s' \<and> p_update_role x v (tenant_view s) = Inr (tenant_view s'))"
  by (auto simp: mem_update_role_def p_update_role_def mutation_defs tenant_state_ok_def dom_def
      split: option.splits)

lemma mem_tombstone_role_view:
  "tenant_state_ok s \<Longrightarrow>
   (case mem_tombstone_role r v s of Inl e \<Rightarrow> p_tombstone_role r v (tenant_view s) = Inl e
    | Inr s' \<Rightarrow> tenant_state_ok s' \<and> p_tombstone_role r v (tenant_view s) = Inr (tenant_view s'))"
  by (auto simp: mem_tombstone_role_def p_tombstone_role_def mutation_defs tenant_state_ok_def dom_def
      split: option.splits)

lemma mem_insert_grant_view:
  assumes "tenant_state_ok s"
  shows "case mem_insert_role_permission_grant g s of Inl e \<Rightarrow> p_insert_grant g (tenant_view s) = Inl e
    | Inr (c, s') \<Rightarrow> tenant_state_ok s' \<and> p_insert_grant g (tenant_view s) = Inr (c, tenant_view s')"
proof (cases "map_get (ts_roles s) (rg_role g)")
  case None
  then show ?thesis by (simp add: mem_insert_role_permission_grant_def p_insert_grant_def)
next
  case (Some x)
  note perms = tenant_state_ok_role [OF assms this]
  let ?s = "s\<lparr>ts_role_perms := map_put (rg_role g)
      (map_put (grant_key_of g) g (sub_map (ts_role_perms s) (rg_role g))) (ts_role_perms s)\<rparr>"
  have "tenant_state_ok ?s"
    using assms unfolding tenant_state_ok_def by (auto simp: dom_put)
  moreover have "tenant_view ?s = (tenant_view s)\<lparr>po_grants := (po_grants (tenant_view s))(rg_role g :=
      (po_grants (tenant_view s) (rg_role g))(grant_key_of g \<mapsto> g))\<rparr>"
    by (simp add: mutation_defs del: sub_map_put)
  ultimately show ?thesis
    using Some perms assms by (auto simp: mem_insert_role_permission_grant_def p_insert_grant_def)
qed

lemma mem_delete_grant_view:
  assumes "tenant_state_ok s"
  shows "case mem_delete_role_permission_grant g s of Inl e \<Rightarrow> False
    | Inr (c, s') \<Rightarrow> tenant_state_ok s' \<and> p_delete_grant g (tenant_view s) = Inr (c, tenant_view s')"
proof -
  let ?s = "s\<lparr>ts_role_perms := map_put (rg_role g)
      (map_del (grant_key_of g) (sub_map (ts_role_perms s) (rg_role g))) (ts_role_perms s)\<rparr>"
  have "tenant_state_ok ?s"
    using assms unfolding tenant_state_ok_def by (auto simp: dom_put)
  moreover have "tenant_view ?s = (tenant_view s)\<lparr>po_grants := (po_grants (tenant_view s))(rg_role g :=
      (po_grants (tenant_view s) (rg_role g))(grant_key_of g := None))\<rparr>"
    by (simp add: mutation_defs del: sub_map_put)
  ultimately show ?thesis
    using assms by (auto simp: mem_delete_role_permission_grant_def p_delete_grant_def)
qed

lemma mem_insert_binding_view:
  "tenant_state_ok s \<Longrightarrow>
   (case mem_insert_subject_role_grant b s of Inl e \<Rightarrow> p_insert_binding b (tenant_view s) = Inl e
    | Inr (c, s') \<Rightarrow> tenant_state_ok s' \<and> p_insert_binding b (tenant_view s) = Inr (c, tenant_view s'))"
  by (auto simp: mem_insert_subject_role_grant_def p_insert_binding_def mutation_defs tenant_state_ok_def)

lemma mem_delete_binding_view:
  "tenant_state_ok s \<Longrightarrow>
   (case mem_delete_subject_role_grant u r s of Inl e \<Rightarrow> False
    | Inr (d, s') \<Rightarrow> tenant_state_ok s' \<and> p_delete_binding u r (tenant_view s) = Inr (d, tenant_view s'))"
  by (auto simp: mem_delete_subject_role_grant_def p_delete_binding_def mutation_defs tenant_state_ok_def
      split: option.splits)

lemma mem_insert_edge_view:
  "tenant_state_ok s \<Longrightarrow> \<exists>s'. mem_insert_grant_edge e s = Inr s' \<and> tenant_state_ok s' \<and>
     p_insert_edge e (tenant_view s) = Inr (tenant_view s')"
  by (simp add: mem_insert_grant_edge_def p_insert_edge_def mutation_defs tenant_state_ok_def)

lemma mem_delete_edge_view:
  "tenant_state_ok s \<Longrightarrow> \<exists>s'. mem_delete_grant_edge e s = Inr s' \<and> tenant_state_ok s' \<and>
     p_delete_edge e (tenant_view s) = Inr (tenant_view s')"
  by (simp add: mem_delete_grant_edge_def p_delete_edge_def mutation_defs tenant_state_ok_def)

lemma mem_insert_version_view:
  "tenant_state_ok s \<Longrightarrow> \<exists>s'. mem_insert_role_version v s = Inr s' \<and> tenant_state_ok s' \<and>
     p_insert_version v (tenant_view s) = Inr (tenant_view s')"
  by (simp add: mem_insert_role_version_def p_insert_version_def mutation_defs tenant_state_ok_def
      del: sub_map_put)

lemma mem_insert_audit_view:
  "tenant_state_ok s \<Longrightarrow> \<exists>s'. mem_insert_mutation_audit e s = Inr s' \<and> tenant_state_ok s' \<and>
     p_insert_audit e (tenant_view s) = Inr (tenant_view s')"
  by (simp add: mem_insert_mutation_audit_def p_insert_audit_def mutation_defs tenant_state_ok_def)

lemma mem_mark_view:
  "tenant_state_ok s \<Longrightarrow> \<exists>s'. mem_mark_bootstrapped prov s = Inr s' \<and> tenant_state_ok s' \<and>
     p_mark_bootstrapped (tenant_view s) = Inr (tenant_view s')"
  by (simp add: mem_mark_bootstrapped_def p_mark_bootstrapped_def mutation_defs tenant_state_ok_def)

lemmas mem_views = mem_insert_role_view mem_update_role_view mem_tombstone_role_view
  mem_insert_grant_view mem_delete_grant_view mem_insert_binding_view mem_delete_binding_view
  mem_insert_edge_view mem_delete_edge_view mem_insert_version_view mem_insert_audit_view mem_mark_view

interpretation mem: tenant_tx_laws memory_tx tenant_view tenant_state_ok "\<lambda>_. True"
proof (unfold_locales, goal_cases)
  case (1 s x s')
  then show ?case using mem_insert_role_view [of s x] by (simp add: memory_tx_def)
next
  case (2 s x y v s')
  then show ?case using mem_update_role_view [of s x v] by (simp add: memory_tx_def)
next
  case (3 s r v s')
  then show ?case using mem_tombstone_role_view [of s r v] by (simp add: memory_tx_def)
next
  case (4 s g c s')
  then show ?case using mem_insert_grant_view [of s g] by (simp add: memory_tx_def)
next
  case (5 s g c s')
  then show ?case using mem_delete_grant_view [of s g] by (simp add: memory_tx_def)
next
  case (6 s b c s')
  then show ?case using mem_insert_binding_view [of s b] by (simp add: memory_tx_def)
next
  case (7 s u r d s')
  then show ?case using mem_delete_binding_view [of s u r] by (simp add: memory_tx_def)
next
  case (8 s ed s')
  then show ?case using mem_insert_edge_view [of s ed] by (auto simp: memory_tx_def)
next
  case (9 s ed s')
  then show ?case using mem_delete_edge_view [of s ed] by (auto simp: memory_tx_def)
next
  case (10 s n s')
  then show ?case using mem_insert_version_view [of s n] by (auto simp: memory_tx_def)
next
  case (11 s ev s')
  then show ?case using mem_insert_audit_view [of s ev] by (auto simp: memory_tx_def)
next
  case (12 s prov s')
  then show ?case using mem_mark_view [of s prov] by (auto simp: memory_tx_def)
qed

interpretation mem: tenant_tx_total memory_tx tenant_view tenant_state_ok "\<lambda>_. True"
proof (unfold_locales, goal_cases)
  case (1 s u perm)
  show ?case by (auto simp: memory_tx_def mem_list_effective_grants_def split: option.splits)
next
  case (2 s r e)
  then show ?case by (simp add: memory_tx_def mem_get_role_def p_get_role_def)
next
  case (3 s r e)
  then show ?case by (auto simp: memory_tx_def mem_list_role_permission_grants_def split: if_splits)
next
  case (4 s r)
  show ?case by (simp add: memory_tx_def mem_list_role_subject_ids_def)
next
  case (5 s u u')
  then show ?case by (simp add: memory_tx_def mem_has_grant_path_iff)
next
  case (6 s controls e)
  then show ?case by (simp add: memory_tx_def mem_has_administrator_eq)
next
  case (7 s)
  show ?case by (simp add: memory_tx_def mem_is_bootstrapped_def)
next
  case (8 s x)
  then show ?case using mem_insert_role_view [of s x] by (simp add: memory_tx_def)
next
  case (9 s x v)
  then show ?case using mem_update_role_view [of s x v] by (simp add: memory_tx_def)
next
  case (10 s r v e)
  then show ?case using mem_tombstone_role_view [of s r v] by (simp add: memory_tx_def)
next
  case (11 s g)
  then show ?case using mem_insert_grant_view [of s g] by (simp add: memory_tx_def)
next
  case (12 s g)
  then show ?case using mem_delete_grant_view [of s g] by (auto simp: memory_tx_def split: sum.splits)
next
  case (13 s b)
  then show ?case using mem_insert_binding_view [of s b] by (simp add: memory_tx_def)
next
  case (14 s u r)
  then show ?case using mem_delete_binding_view [of s u r]
    by (auto simp: memory_tx_def split: sum.splits)
next
  case (15 s ed)
  then show ?case using mem_insert_edge_view [of s ed] by (auto simp: memory_tx_def)
next
  case (16 s ed)
  then show ?case using mem_delete_edge_view [of s ed] by (auto simp: memory_tx_def)
next
  case (17 s n)
  then show ?case using mem_insert_version_view [of s n] by (auto simp: memory_tx_def)
next
  case (18 s ev)
  then show ?case using mem_insert_audit_view [of s ev] by (auto simp: memory_tx_def)
next
  case (19 s prov)
  then show ?case using mem_mark_view [of s prov] by (auto simp: memory_tx_def)
qed

lemma newTenantState_ok: "tenant_state_ok newTenantState"
  by (simp add: tenant_state_ok_def newTenantState_def nested_ok_def sub_map_def)

lemma newTenantState_view: "tenant_view newTenantState = empty_policy"
  by (simp add: tenant_view_def newTenantState_def empty_policy_def sub_map_def fun_eq_iff)

end
