(* ===== verification/MemoryStore.thy ===== *)
theory MemoryStore
  imports Bootstrap Verdicts TenantState
begin

text \<open>
  The \<open>Store\<close> of \<open>memory/memory.go\<close>: the map of tenants, \<open>ReadTenant\<close>, \<open>MutateTenant\<close> (a copy of the
  tenant is handed to the callback and installed only when it succeeds and the context is still
  alive), and the reads outside a transaction. The global lock makes every call atomic, so a call is
  a function on the store. The locale \<open>mutation\<close> is what a transaction body promises; it is
  interpreted for each body of \<open>Manager\<close> and \<open>Bootstrapper\<close>.
\<close>

section \<open>The store\<close>

type_synonym store = "(tenant_id, tenant_state) gomap"

definition NewStore :: store where
  "NewStore = []"

definition store_tenant :: "tenant_id \<Rightarrow> store \<Rightarrow> tenant_state \<times> store" where
  "store_tenant t st = (case map_get st t of
     Some s \<Rightarrow> (s, st)
   | None \<Rightarrow> (newTenantState, map_put t newTenantState st))"

text \<open>The callback is \<open>None\<close> when it is nil.\<close>

definition ReadTenant ::
  "go_context \<Rightarrow> tenant_id \<Rightarrow> (tenant_state \<Rightarrow> error + 'r) option \<Rightarrow> store \<Rightarrow> error + 'r" where
  "ReadTenant ctx t fn st =
     (if validateOpaqueID t \<noteq> Inr () then Inl ErrInvalidInput
      else case fn of
        None \<Rightarrow> Inl ErrInvalidInput
      | Some f \<Rightarrow>
          ebind (poll ctx 0) (\<lambda>_.
          ebind (poll ctx 1) (\<lambda>_.
          ebind (f (case map_get st t of None \<Rightarrow> newTenantState | Some s \<Rightarrow> s)) (\<lambda>x.
          ebind (poll ctx 2) (\<lambda>_. Inr x)))))"

definition ListEffectiveGrants ::
  "go_context \<Rightarrow> tenant_id \<Rightarrow> subject_id \<Rightarrow> permission_key \<Rightarrow> store \<Rightarrow> error + effective_grant list" where
  "ListEffectiveGrants ctx t u permission st =
     ReadTenant ctx t (Some (tx_list_effective_grants memory_tx u permission)) st"

definition MutateTenant ::
  "go_context \<Rightarrow> tenant_id \<Rightarrow> (tenant_state \<Rightarrow> error + 'r \<times> tenant_state) option \<Rightarrow> store \<Rightarrow>
     (error + 'r) \<times> store" where
  "MutateTenant ctx t fn st =
     (if validateOpaqueID t \<noteq> Inr () then (Inl ErrInvalidInput, st)
      else case fn of
        None \<Rightarrow> (Inl ErrInvalidInput, st)
      | Some f \<Rightarrow>
          (case ebind (poll ctx 0) (\<lambda>_. poll ctx 1) of
             Inl e \<Rightarrow> (Inl e, st)
           | Inr _ \<Rightarrow>
             (let (s, st) = store_tenant t st in
              if ts_purged s then (Inl ErrNotFound, st)
              else case f (cloneTenantState (Some s)) of
                  Inl e \<Rightarrow> (Inl e, st)
                | Inr (x, pending) \<Rightarrow>
                    (case poll ctx 2 of
                       Inl e \<Rightarrow> (Inl e, st)
                     | Inr _ \<Rightarrow> (Inr x, map_put t pending st)))))"

definition Purged :: "tenant_id \<Rightarrow> store \<Rightarrow> bool" where
  "Purged t st = (case map_get st t of None \<Rightarrow> False | Some s \<Rightarrow> ts_purged s)"

definition DebugAuditEvents :: "tenant_id \<Rightarrow> store \<Rightarrow> mutation_audit_event list" where
  "DebugAuditEvents t st = (case map_get st t of None \<Rightarrow> [] | Some s \<Rightarrow> [] @ ts_audit s)"

definition mutator_of ::
  "go_context \<Rightarrow> tenant_id \<Rightarrow> (tenant_state \<Rightarrow> error + 'r \<times> tenant_state) \<Rightarrow> store \<Rightarrow> (error + 'r) \<times> store" where
  "mutator_of ctx t body st = MutateTenant ctx t (Some body) st"

section \<open>What a store stands for\<close>

definition tenant_of :: "store \<Rightarrow> tenant_id \<Rightarrow> tenant_state" where
  "tenant_of st t = (case map_get st t of None \<Rightarrow> newTenantState | Some s \<Rightarrow> s)"

definition policy_of :: "store \<Rightarrow> tenant_id \<Rightarrow> policy" where
  "policy_of st t = tenant_view (tenant_of st t)"

text \<open>
  A tombstoned tenant has an empty policy and a ledger, and no other tenant has a ledger.
\<close>

definition purge_ok :: "tenant_state \<Rightarrow> bool" where
  "purge_ok s = ((ts_purged s \<longleftrightarrow> ts_purge_ledger s \<noteq> []) \<and> (ts_purged s \<longrightarrow> tenant_view s = empty_policy))"

text \<open>Roles, edges and versions are stored under their own keys.\<close>

definition tenant_keyed :: "tenant_state \<Rightarrow> bool" where
  "tenant_keyed s =
     ((\<forall>r x. map_get (ts_roles s) r = Some x \<longrightarrow> ro_id x = r) \<and>
      (\<forall>k e. map_get (ts_grant_edges s) k = Some e \<longrightarrow> edge_key_of e = k) \<and>
      (\<forall>r n v. map_get (sub_map (ts_role_versions s) r) n = Some v \<longrightarrow> rv_role v = r \<and> rv_version v = n))"

definition tenant_inv :: "manager \<Rightarrow> tenant_id \<Rightarrow> tenant_state \<Rightarrow> bool" where
  "tenant_inv m t s = (tenant_state_ok s \<and> tenant_keyed s \<and> policy_ok m t (tenant_view s) \<and> purge_ok s)"

definition store_inv :: "manager \<Rightarrow> store \<Rightarrow> bool" where
  "store_inv m st = (map_ok st \<and> (\<forall>t. tenant_inv m t (tenant_of st t)))"

lemma tenant_inv_new: "tenant_inv m t newTenantState"
  by (simp add: tenant_inv_def newTenantState_ok newTenantState_view policy_ok_empty purge_ok_def)
    (simp add: newTenantState_def tenant_keyed_def sub_map_def)

lemma store_inv_new: "store_inv m NewStore"
  by (simp add: store_inv_def NewStore_def tenant_of_def tenant_inv_new)

lemma tenant_of_put [simp]: "tenant_of (map_put t s st) = (tenant_of st)(t := s)"
  by (auto simp: tenant_of_def)

lemma store_tenant_simps:
  "fst (store_tenant t st) = tenant_of st t" "tenant_of (snd (store_tenant t st)) = tenant_of st"
  "map_ok st \<Longrightarrow> map_ok (snd (store_tenant t st))"
  by (auto simp: store_tenant_def tenant_of_def split: option.splits)

lemma store_inv_put:
  "store_inv m st \<Longrightarrow> tenant_inv m t s \<Longrightarrow> store_inv m (map_put t s st)"
  by (simp add: store_inv_def)

section \<open>Outcomes of a transaction\<close>

lemma MutateTenant_cases:
  obtains (failed) e st' where "MutateTenant ctx t fn st = (Inl e, st')"
      "tenant_of st' = tenant_of st" "map_ok st \<Longrightarrow> map_ok st'"
  | (committed) f x s' st' where "fn = Some f" "valid_id t" "\<not> ts_purged (tenant_of st t)"
      "f (tenant_of st t) = Inr (x, s')" "MutateTenant ctx t fn st = (Inr x, st')"
      "tenant_of st' = (tenant_of st)(t := s')" "map_ok st \<Longrightarrow> map_ok st'"
proof (cases "MutateTenant ctx t fn st")
  case (Pair res st')
  obtain s0 st0 where st0: "store_tenant t st = (s0, st0)" by (cases "store_tenant t st")
  note facts = store_tenant_simps(1,2) [of t st, unfolded st0 fst_conv snd_conv]
    store_tenant_simps(3) [of st t, unfolded st0 snd_conv]
  show ?thesis
  proof (cases res)
    case (Inl e)
    with Pair facts st0 have "tenant_of st' = tenant_of st \<and> (map_ok st \<longrightarrow> map_ok st')"
      by (auto simp: MutateTenant_def Let_def split: if_splits option.splits sum.splits)
    with Pair Inl show ?thesis by (auto intro: failed)
  next
    case (Inr x)
    with Pair st0 obtain f s' where "fn = Some f" "validateOpaqueID t = Inr ()" "\<not> ts_purged s0"
      "f (cloneTenantState (Some s0)) = Inr (x, s')" "st' = map_put t s' st0"
      by (auto simp: MutateTenant_def Let_def split: if_splits option.splits sum.splits)
    with facts Pair Inr show ?thesis
      by (intro committed [of f x s' st']) (auto simp: valid_id_def cloneTenantState_id)
  qed
qed

text \<open>A purge is not undone and not changed by an ordinary transaction.\<close>

definition tenant_frame :: "bool \<Rightarrow> (string, mutation_audit_event) gomap \<Rightarrow> tenant_state \<Rightarrow> bool" where
  "tenant_frame P L s = (tenant_state_ok s \<and> tenant_keyed s \<and> ts_purged s = P \<and> ts_purge_ledger s = L)"

lemma tenant_keyed_simps [simp]:
  "tenant_keyed (s\<lparr>ts_role_perms := x1\<rparr>) = tenant_keyed s"
  "tenant_keyed (s\<lparr>ts_subject_roles := x2\<rparr>) = tenant_keyed s"
  "tenant_keyed (s\<lparr>ts_audit := x3\<rparr>) = tenant_keyed s"
  "tenant_keyed (s\<lparr>ts_bootstrapped := x4, ts_bootstrap_provenance := x5\<rparr>) = tenant_keyed s"
  by (simp_all add: tenant_keyed_def)

lemma memory_ops_keyed:
  "mem_insert_role x s = Inr s' \<Longrightarrow> tenant_keyed s \<Longrightarrow> tenant_keyed s'"
  "mem_update_role x v s = Inr s' \<Longrightarrow> tenant_keyed s \<Longrightarrow> tenant_keyed s'"
  "mem_tombstone_role r v s = Inr s' \<Longrightarrow> tenant_keyed s \<Longrightarrow> tenant_keyed s'"
  "mem_insert_role_permission_grant g s = Inr (c, s') \<Longrightarrow> tenant_keyed s \<Longrightarrow> tenant_keyed s'"
  "mem_delete_role_permission_grant g s = Inr (c, s') \<Longrightarrow> tenant_keyed s \<Longrightarrow> tenant_keyed s'"
  "mem_insert_subject_role_grant b s = Inr (c, s') \<Longrightarrow> tenant_keyed s \<Longrightarrow> tenant_keyed s'"
  "mem_delete_subject_role_grant u r s = Inr (d, s') \<Longrightarrow> tenant_keyed s \<Longrightarrow> tenant_keyed s'"
  "mem_insert_grant_edge e s = Inr s' \<Longrightarrow> tenant_keyed s \<Longrightarrow> tenant_keyed s'"
  "mem_delete_grant_edge e s = Inr s' \<Longrightarrow> tenant_keyed s \<Longrightarrow> tenant_keyed s'"
  "mem_insert_role_version n s = Inr s' \<Longrightarrow> tenant_keyed s \<Longrightarrow> tenant_keyed s'"
  "mem_insert_mutation_audit ev s = Inr s' \<Longrightarrow> tenant_keyed s \<Longrightarrow> tenant_keyed s'"
  "mem_mark_bootstrapped prov s = Inr s' \<Longrightarrow> tenant_keyed s \<Longrightarrow> tenant_keyed s'"
  subgoal unfolding mem_insert_role_def tenant_keyed_def by (force split: if_splits)
  subgoal unfolding mem_update_role_def tenant_keyed_def by (force split: if_splits option.splits)
  subgoal unfolding mem_tombstone_role_def tenant_keyed_def by (force split: if_splits option.splits)
  subgoal by (auto simp: mem_insert_role_permission_grant_def split: if_splits option.splits)
  subgoal by (auto simp: mem_delete_role_permission_grant_def split: if_splits option.splits)
  subgoal by (auto simp: mem_insert_subject_role_grant_def split: if_splits option.splits)
  subgoal by (auto simp: mem_delete_subject_role_grant_def split: if_splits option.splits)
  subgoal unfolding mem_insert_grant_edge_def tenant_keyed_def by force
  subgoal unfolding mem_delete_grant_edge_def tenant_keyed_def by force
  subgoal unfolding mem_insert_role_version_def tenant_keyed_def by force
  subgoal by (auto simp: mem_insert_mutation_audit_def)
  subgoal by (auto simp: mem_mark_bootstrapped_def)
  done

lemma memory_ops_frame:
  "mem_insert_role x s = Inr s' \<Longrightarrow> ts_purged s' = ts_purged s \<and> ts_purge_ledger s' = ts_purge_ledger s"
  "mem_update_role x v s = Inr s' \<Longrightarrow> ts_purged s' = ts_purged s \<and> ts_purge_ledger s' = ts_purge_ledger s"
  "mem_tombstone_role r v s = Inr s' \<Longrightarrow> ts_purged s' = ts_purged s \<and> ts_purge_ledger s' = ts_purge_ledger s"
  "mem_insert_role_permission_grant g s = Inr (c, s') \<Longrightarrow>
     ts_purged s' = ts_purged s \<and> ts_purge_ledger s' = ts_purge_ledger s"
  "mem_delete_role_permission_grant g s = Inr (c, s') \<Longrightarrow>
     ts_purged s' = ts_purged s \<and> ts_purge_ledger s' = ts_purge_ledger s"
  "mem_insert_subject_role_grant b s = Inr (c, s') \<Longrightarrow>
     ts_purged s' = ts_purged s \<and> ts_purge_ledger s' = ts_purge_ledger s"
  "mem_delete_subject_role_grant u r s = Inr (d, s') \<Longrightarrow>
     ts_purged s' = ts_purged s \<and> ts_purge_ledger s' = ts_purge_ledger s"
  "mem_insert_grant_edge e s = Inr s' \<Longrightarrow> ts_purged s' = ts_purged s \<and> ts_purge_ledger s' = ts_purge_ledger s"
  "mem_delete_grant_edge e s = Inr s' \<Longrightarrow> ts_purged s' = ts_purged s \<and> ts_purge_ledger s' = ts_purge_ledger s"
  "mem_insert_role_version n s = Inr s' \<Longrightarrow> ts_purged s' = ts_purged s \<and> ts_purge_ledger s' = ts_purge_ledger s"
  "mem_insert_mutation_audit ev s = Inr s' \<Longrightarrow>
     ts_purged s' = ts_purged s \<and> ts_purge_ledger s' = ts_purge_ledger s"
  "mem_mark_bootstrapped prov s = Inr s' \<Longrightarrow>
     ts_purged s' = ts_purged s \<and> ts_purge_ledger s' = ts_purge_ledger s"
  by (auto simp: mem_insert_role_def mem_update_role_def mem_tombstone_role_def
      mem_insert_role_permission_grant_def mem_delete_role_permission_grant_def
      mem_insert_subject_role_grant_def mem_delete_subject_role_grant_def mem_insert_grant_edge_def
      mem_delete_grant_edge_def mem_insert_role_version_def mem_insert_mutation_audit_def
      mem_mark_bootstrapped_def split: if_splits option.splits)

interpretation framed: tenant_tx_laws memory_tx tenant_view "tenant_frame P L" "\<lambda>_. True" for P L
proof (unfold_locales, goal_cases)
  case (1 s u perm gs)
  then show ?case using mem.list_effective_grants [of s u perm gs] by (simp add: tenant_frame_def)
next
  case (2 s r x)
  then show ?case using mem.get_role [of s r x] by (simp add: tenant_frame_def)
next
  case (3 s r gs)
  then show ?case using mem.list_role_permission_grants [of s r gs] by (simp add: tenant_frame_def)
next
  case (4 s u rs)
  then show ?case using mem.list_subject_role_ids [of s u rs] by (simp add: tenant_frame_def)
next
  case (5 s r us)
  then show ?case using mem.list_role_subject_ids [of s r us] by (simp add: tenant_frame_def)
next
  case (6 s u u' c)
  then show ?case using mem.has_grant_path [of s u u' c] by (simp add: tenant_frame_def)
next
  case (7 s controls c)
  then show ?case using mem.has_admin [of s controls c] by (simp add: tenant_frame_def)
next
  case (8 s c)
  then show ?case using mem.is_bootstrapped [of s c] by (simp add: tenant_frame_def)
next
  case (9 s x s')
  then show ?case using mem.insert_role [of s x s'] memory_ops_frame(1) [of x s s']
      memory_ops_keyed(1) [of x s s']
    by (simp add: tenant_frame_def memory_tx_def)
next
  case (10 s x y v s')
  then show ?case using mem.update_role [of s x y v s'] memory_ops_frame(2) [of x v s s']
      memory_ops_keyed(2) [of x v s s']
    by (simp add: tenant_frame_def memory_tx_def)
next
  case (11 s r v s')
  then show ?case using mem.tombstone_role [of s r v s'] memory_ops_frame(3) [of r v s s']
      memory_ops_keyed(3) [of r v s s']
    by (simp add: tenant_frame_def memory_tx_def)
next
  case (12 s g c s')
  then show ?case using mem.insert_role_permission_grant [of s g c s'] memory_ops_frame(4) [of g s c s']
      memory_ops_keyed(4) [of g s c s']
    by (simp add: tenant_frame_def memory_tx_def)
next
  case (13 s g c s')
  then show ?case using mem.delete_role_permission_grant [of s g c s'] memory_ops_frame(5) [of g s c s']
      memory_ops_keyed(5) [of g s c s']
    by (simp add: tenant_frame_def memory_tx_def)
next
  case (14 s b c s')
  then show ?case using mem.insert_subject_role_grant [of s b c s'] memory_ops_frame(6) [of b s c s']
      memory_ops_keyed(6) [of b s c s']
    by (simp add: tenant_frame_def memory_tx_def)
next
  case (15 s u r d s')
  then show ?case using mem.delete_subject_role_grant [of s u r d s'] memory_ops_frame(7) [of u r s d s']
      memory_ops_keyed(7) [of u r s d s']
    by (simp add: tenant_frame_def memory_tx_def)
next
  case (16 s ed s')
  then show ?case using mem.insert_grant_edge [of s ed s'] memory_ops_frame(8) [of ed s s']
      memory_ops_keyed(8) [of ed s s']
    by (simp add: tenant_frame_def memory_tx_def)
next
  case (17 s ed s')
  then show ?case using mem.delete_grant_edge [of s ed s'] memory_ops_frame(9) [of ed s s']
      memory_ops_keyed(9) [of ed s s']
    by (simp add: tenant_frame_def memory_tx_def)
next
  case (18 s n s')
  then show ?case using mem.insert_role_version [of s n s'] memory_ops_frame(10) [of n s s']
      memory_ops_keyed(10) [of n s s']
    by (simp add: tenant_frame_def memory_tx_def)
next
  case (19 s ev s')
  then show ?case using mem.insert_mutation_audit [of s ev s'] memory_ops_frame(11) [of ev s s']
      memory_ops_keyed(11) [of ev s s']
    by (simp add: tenant_frame_def memory_tx_def)
next
  case (20 s prov s')
  then show ?case using mem.mark_bootstrapped [of s prov s'] memory_ops_frame(12) [of prov s s']
      memory_ops_keyed(12) [of prov s s']
    by (simp add: tenant_frame_def memory_tx_def)
qed

interpretation framed: tenant_tx_total memory_tx tenant_view "tenant_frame P L" "\<lambda>_. True" for P L
proof (unfold_locales, goal_cases)
  case (1 s u perm)
  then show ?case using mem.total_list_effective_grants [of s u perm] by (simp add: tenant_frame_def)
next
  case (2 s r e)
  then show ?case using mem.total_get_role [of s r e] by (simp add: tenant_frame_def)
next
  case (3 s r e)
  then show ?case using mem.total_list_role_permission_grants [of s r e] by (simp add: tenant_frame_def)
next
  case (4 s r)
  then show ?case using mem.total_list_role_subject_ids [of s r] by (simp add: tenant_frame_def)
next
  case (5 s u u')
  then show ?case using mem.total_has_grant_path [of s u u'] by (simp add: tenant_frame_def)
next
  case (6 s controls e)
  then show ?case using mem.total_has_admin [of s controls e] by (simp add: tenant_frame_def)
next
  case (7 s)
  then show ?case using mem.total_is_bootstrapped [of s] by (simp add: tenant_frame_def)
next
  case (8 s x)
  then show ?case
    using mem.total_insert_role [of s x] memory_ops_frame(1) [of x s] memory_ops_keyed(1) [of x s]
    by (auto simp: tenant_frame_def memory_tx_def split: sum.splits)
next
  case (9 s x v)
  then show ?case
    using mem.total_update_role [of s x v] memory_ops_frame(2) [of x v s] memory_ops_keyed(2) [of x v s]
    by (auto simp: tenant_frame_def memory_tx_def split: sum.splits)
next
  case (10 s r v e)
  then show ?case using mem.total_tombstone_role [of s r v e] by (simp add: tenant_frame_def)
next
  case (11 s g)
  then show ?case
    using mem.total_insert_role_permission_grant [of s g] memory_ops_frame(4) [of g s] memory_ops_keyed(4) [of g s]
    by (auto simp: tenant_frame_def memory_tx_def split: sum.splits)
next
  case (12 s g)
  then show ?case
    using mem.total_delete_role_permission_grant [of s g] memory_ops_frame(5) [of g s] memory_ops_keyed(5) [of g s]
    by (auto simp: tenant_frame_def memory_tx_def split: sum.splits)
next
  case (13 s b)
  then show ?case
    using mem.total_insert_subject_role_grant [of s b] memory_ops_frame(6) [of b s] memory_ops_keyed(6) [of b s]
    by (auto simp: tenant_frame_def memory_tx_def split: sum.splits)
next
  case (14 s u r)
  then show ?case using mem.total_delete_subject_role_grant [of s u r] by (simp add: tenant_frame_def)
next
  case (15 s ed)
  then show ?case using mem.total_insert_grant_edge [of s ed] by (simp add: tenant_frame_def)
next
  case (16 s ed)
  then show ?case using mem.total_delete_grant_edge [of s ed] by (simp add: tenant_frame_def)
next
  case (17 s n)
  then show ?case
    using mem.total_insert_role_version [of s n] memory_ops_frame(10) [of n s] memory_ops_keyed(10) [of n s]
    by (auto simp: tenant_frame_def memory_tx_def split: sum.splits)
next
  case (18 s ev)
  then show ?case
    using mem.total_insert_mutation_audit [of s ev] memory_ops_frame(11) [of ev s] memory_ops_keyed(11) [of ev s]
    by (auto simp: tenant_frame_def memory_tx_def split: sum.splits)
next
  case (19 s prov)
  then show ?case using mem.total_mark_bootstrapped [of s prov] by (simp add: tenant_frame_def)
qed

section \<open>Transaction bodies\<close>

text \<open>
  What every transaction body promises under its precondition \<open>pre\<close>: it refines an abstract step of
  the tenant's policy, and the step keeps the policy invariant.
\<close>

definition outcome_ok ::
  "manager \<Rightarrow> tenant_id \<Rightarrow> (policy \<Rightarrow> policy \<Rightarrow> bool) \<Rightarrow> store \<Rightarrow> error + 'r \<Rightarrow> store \<Rightarrow> bool" where
  "outcome_ok m t step st res st' = (store_inv m st' \<and> (\<forall>u. u \<noteq> t \<longrightarrow> tenant_of st' u = tenant_of st u) \<and>
     (case res of
        Inl _ \<Rightarrow> tenant_of st' = tenant_of st
      | Inr _ \<Rightarrow> \<not> ts_purged (tenant_of st t) \<and> step (policy_of st t) (policy_of st' t)))"

locale mutation =
  fixes m :: manager and t :: tenant_id and pre :: bool
    and body :: "tenant_state \<Rightarrow> error + 'r \<times> tenant_state" and step :: "policy \<Rightarrow> policy \<Rightarrow> bool"
  assumes body_step: "pre \<Longrightarrow> tenant_frame P L s \<Longrightarrow> policy_ok m t (tenant_view s) \<Longrightarrow>
      body s = Inr (x, s') \<Longrightarrow> tenant_frame P L s' \<and> step (tenant_view s) (tenant_view s')"
    and step_keeps: "step p p' \<Longrightarrow> policy_ok m t p \<Longrightarrow> policy_ok m t p'"
begin

lemma transaction:
  assumes inv: "store_inv m st" and pre and run: "mutator_of ctx t body st = (res, st')"
  shows "outcome_ok m t step st res st'"
proof -
  have frames: "tenant_inv m u (tenant_of st u)" for u using inv by (simp add: store_inv_def)
  show ?thesis
  proof (cases ctx t "Some body" st rule: MutateTenant_cases)
    case (failed e st1)
    with run have "res = Inl e" "st' = st1" by (simp_all add: mutator_of_def)
    with failed inv show ?thesis by (simp add: outcome_ok_def store_inv_def)
  next
    case (committed f x s' st1)
    let ?s = "tenant_of st t"
    from run committed have res: "res = Inr x" "st' = st1" by (simp_all add: mutator_of_def)
    have "tenant_frame (ts_purged ?s) (ts_purge_ledger ?s) ?s"
      using frames [of t] by (simp add: tenant_frame_def tenant_inv_def)
    from body_step [OF \<open>pre\<close> this] committed frames [of t]
    have f: "tenant_frame (ts_purged ?s) (ts_purge_ledger ?s) s'" and st: "step (tenant_view ?s) (tenant_view s')"
      by (simp_all add: tenant_inv_def)
    have "tenant_inv m t s'"
      using f st committed(3) frames [of t] step_keeps [OF st]
      by (simp add: tenant_frame_def tenant_inv_def purge_ok_def)
    with committed res inv frames have "store_inv m st'" by (simp add: store_inv_def)
    with committed res st show ?thesis by (simp add: outcome_ok_def policy_of_def)
  qed
qed

lemma in_transaction_outcome:
  assumes "store_inv m st" and pre and "pr_tenant actor = t"
    and "in_transaction (mutator_of ctx) sink clk actor meta op tt ti v body st a = (res, st', a')"
  shows "outcome_ok m t step st res st' \<and>
    a' = (case res of Inl e \<Rightarrow> recordDenied sink clk actor meta op tt ti v e a | Inr _ \<Rightarrow> a)"
  using assms(4) transaction [OF assms(1,2), of ctx] assms(3)
  by (auto simp: in_transaction_def split: prod.splits sum.splits)

end

interpretation create_role: mutation m "pr_tenant actor" "valid_id r"
  "createRole_tx m memory_tx clk actor meta (new_role actor r name description)" "policy_step m actor"
  for m actor r clk meta name description
proof (unfold_locales, goal_cases)
  case (1 P L s x s')
  then show ?case using framed.createRole_refines [OF 1(2) TrueI refl 1(1)] by blast
next
  case (2 p p')
  then show ?case by (rule step_policy_ok)
qed

interpretation create_role_with: mutation m "pr_tenant actor"
  "valid_id r \<and> distinct qs \<and> list_all (\<lambda>q. good_key q \<and> catalog_lookup (mg_catalog m) q \<noteq> None) qs"
  "createRoleWithPermissions_tx m memory_tx clk actor meta (new_role actor r name description) (sort_by (<) qs)"
  "policy_step m actor"
  for m actor r qs clk meta name description
proof (unfold_locales, goal_cases)
  case (1 P L s x s')
  then show ?case
    using framed.createRoleWithPermissions_refines [OF 1(2) TrueI refl _ _ _ 1(4)] by (simp add: list_all_iff)
next
  case (2 p p')
  then show ?case by (rule step_policy_ok)
qed

interpretation update_role: mutation m "pr_tenant actor" True
  "updateRole_tx m memory_tx clk actor meta input" "policy_step m actor"
  for m actor clk meta input
proof (unfold_locales, goal_cases)
  case (1 P L s x s')
  then show ?case using framed.updateRole_refines [OF 1(2) TrueI 1(3)] by (metis prod.collapse)
next
  case (2 p p')
  then show ?case by (rule step_policy_ok)
qed

interpretation delete_role: mutation m "pr_tenant actor" True
  "deleteRole_tx m memory_tx clk actor meta input" "policy_step m actor"
  for m actor clk meta input
proof (unfold_locales, goal_cases)
  case (1 P L s x s')
  then show ?case using framed.deleteRole_refines [OF 1(2) TrueI 1(3)] by blast
next
  case (2 p p')
  then show ?case by (rule step_policy_ok)
qed

interpretation grant_permission: mutation m "pr_tenant actor" "validateGrantInput m input = Inr g"
  "grantPermission_tx memory_tx clk actor meta input g" "policy_step m actor"
  for m actor clk meta input g
proof (unfold_locales, goal_cases)
  case (1 P L s x s')
  then show ?case using framed.grantPermission_refines [OF 1(2) TrueI 1(3,1)] by blast
next
  case (2 p p')
  then show ?case by (rule step_policy_ok)
qed

interpretation revoke_permission: mutation m "pr_tenant actor" "validateGrantInput m input = Inr g"
  "revokePermission_tx m memory_tx clk actor meta input g" "policy_step m actor"
  for m actor clk meta input g
proof (unfold_locales, goal_cases)
  case (1 P L s x s')
  then show ?case using framed.revokePermission_refines [OF 1(2) TrueI 1(3,1)] by blast
next
  case (2 p p')
  then show ?case by (rule step_policy_ok)
qed

interpretation assign_role: mutation m "pr_tenant actor" "validateAssignInput actor meta input = Inr ()"
  "assignRole_tx m memory_tx clk actor meta input" "policy_step m actor"
  for m actor clk meta input
proof (unfold_locales, goal_cases)
  case (1 P L s x s')
  then show ?case using framed.assignRole_refines [OF 1(2) TrueI 1(3,1)] by blast
next
  case (2 p p')
  then show ?case by (rule step_policy_ok)
qed

interpretation unassign_role: mutation m "pr_tenant actor" True
  "unassignRole_tx m memory_tx clk actor meta input" "policy_step m actor"
  for m actor clk meta input
proof (unfold_locales, goal_cases)
  case (1 P L s x s')
  then show ?case using framed.unassignRole_refines [OF 1(2) TrueI 1(3)] by blast
next
  case (2 p p')
  then show ?case by (rule step_policy_ok)
qed

interpretation bootstrap_tenant: mutation b "bi_tenant input"
  "validateBootstrapInput input = Inr () \<and>
   efold (owner_grant (mg_catalog b) (bi_role input)) (bi_grants input) [] = Inr gm \<and>
   has_controls (mg_controls b) gm = Inr ()"
  "bootstrap_tx memory_tx clk provenance input (owner_role input) (map snd gm)"
  "bootstrap_step b (bi_tenant input) (bi_owner input)"
  for b input gm clk provenance
proof (unfold_locales, goal_cases)
  case (1 P L s x s')
  then show ?case using framed.bootstrap_refines [OF 1(2) TrueI 1(3)] by blast
next
  case (2 p p')
  then show ?case using bootstrap_policy_ok by blast
qed

section \<open>The operations over the memory store\<close>

lemma outcome_ok_rejected: "store_inv m st \<Longrightarrow> outcome_ok m t step st (Inl e) st"
  by (simp add: outcome_ok_def)

lemma outcome_ok_map: "outcome_ok m t step st res st' \<Longrightarrow> outcome_ok m t step st (ebind res (\<lambda>x. Inr (f x))) st'"
  by (cases res) (simp_all add: outcome_ok_def)

lemma gated:
  assumes "store_inv m st"
    and "(case chk of Inl e \<Rightarrow> (Inl e, st, a) | Inr y \<Rightarrow> k y) = (res, st', a')"
    and "\<And>y. chk = Inr y \<Longrightarrow> k y = (res, st', a') \<Longrightarrow> outcome_ok m t step st res st'"
  shows "outcome_ok m t step st res st'"
  using assms by (cases chk) (auto intro: outcome_ok_rejected)

lemma CreateRole_outcome:
  assumes inv: "store_inv m st"
    and run: "CreateRole m memory_tx (mutator_of ctx) sink clk actor meta input st a = (res, st', a')"
  shows "outcome_ok m (pr_tenant actor) (policy_step m actor) st res st'"
  using run unfolding CreateRole_def
proof (rule gated [OF inv], goal_cases)
  case (1 y)
  then have "valid_id (ci_role input)" by (auto simp: valid_id_def err_simps)
  note tr = create_role.in_transaction_outcome [OF inv this refl, THEN conjunct1]
  from 1(2) show ?case
    by (auto simp: Let_def split: prod.splits dest!: tr intro: outcome_ok_map)
qed

lemma CreateRoleWithPermissions_outcome:
  assumes inv: "store_inv m st"
    and run: "CreateRoleWithPermissions m memory_tx (mutator_of ctx) sink clk actor meta input st a = (res, st', a')"
  shows "outcome_ok m (pr_tenant actor) (policy_step m actor) st res st'"
  using run unfolding CreateRoleWithPermissions_def
proof (rule gated [OF inv], goal_cases)
  case (1 qs)
  then have "efold (collect_permission (mg_catalog m)) (ci_permissions input) [] = Inr qs"
    and r: "valid_id (ci_role input)" by (auto simp: valid_id_def err_simps)
  from collect_permissions [OF this(1)] r
  have "valid_id (ci_role input) \<and> distinct qs \<and>
      list_all (\<lambda>q. good_key q \<and> catalog_lookup (mg_catalog m) q \<noteq> None) qs" by simp
  note tr = create_role_with.in_transaction_outcome [OF inv this refl, THEN conjunct1]
  from 1(2) show ?case
    by (auto simp: Let_def split: prod.splits dest!: tr intro: outcome_ok_map)
qed

lemma UpdateRole_outcome:
  assumes inv: "store_inv m st"
    and run: "UpdateRole m memory_tx (mutator_of ctx) sink clk actor meta input st a = (res, st', a')"
  shows "outcome_ok m (pr_tenant actor) (policy_step m actor) st res st'"
  using run unfolding UpdateRole_def
  by (rule gated [OF inv]) (rule update_role.in_transaction_outcome [OF inv TrueI refl, THEN conjunct1])

lemma DeleteRole_outcome:
  assumes inv: "store_inv m st"
    and run: "DeleteRole m memory_tx (mutator_of ctx) sink clk actor meta input st a = (res, st', a')"
  shows "outcome_ok m (pr_tenant actor) (policy_step m actor) st res st'"
  using run unfolding DeleteRole_def
  by (rule gated [OF inv]) (rule delete_role.in_transaction_outcome [OF inv TrueI refl, THEN conjunct1])

lemma GrantPermission_outcome:
  assumes inv: "store_inv m st"
    and run: "GrantPermission m memory_tx (mutator_of ctx) sink clk actor meta input st a = (res, st', a')"
  shows "outcome_ok m (pr_tenant actor) (policy_step m actor) st res st'"
  using run unfolding GrantPermission_def
  by (rule gated [OF inv])
    (rule grant_permission.in_transaction_outcome [OF inv _ refl, THEN conjunct1], auto simp: err_simps)

lemma RevokePermission_outcome:
  assumes inv: "store_inv m st"
    and run: "RevokePermission m memory_tx (mutator_of ctx) sink clk actor meta input st a = (res, st', a')"
  shows "outcome_ok m (pr_tenant actor) (policy_step m actor) st res st'"
  using run unfolding RevokePermission_def
  by (rule gated [OF inv])
    (rule revoke_permission.in_transaction_outcome [OF inv _ refl, THEN conjunct1], auto simp: err_simps)

lemma AssignRole_outcome:
  assumes inv: "store_inv m st"
    and run: "AssignRole m memory_tx (mutator_of ctx) sink clk actor meta input st a = (res, st', a')"
  shows "outcome_ok m (pr_tenant actor) (policy_step m actor) st res st'"
  using run unfolding AssignRole_def
  by (rule gated [OF inv]) (rule assign_role.in_transaction_outcome [OF inv _ refl, THEN conjunct1], simp_all)

lemma UnassignRole_outcome:
  assumes inv: "store_inv m st"
    and run: "UnassignRole m memory_tx (mutator_of ctx) sink clk actor meta input st a = (res, st', a')"
  shows "outcome_ok m (pr_tenant actor) (policy_step m actor) st res st'"
  using run unfolding UnassignRole_def
  by (rule gated [OF inv]) (rule unassign_role.in_transaction_outcome [OF inv TrueI refl, THEN conjunct1])

lemma BootstrapTenant_outcome:
  assumes inv: "store_inv b st"
    and run: "BootstrapTenant b memory_tx (mutator_of ctx) authorizer clk input st = (res, st')"
  shows "outcome_ok b (bi_tenant input) (bootstrap_step b (bi_tenant input) (bi_owner input)) st res st'"
proof (cases "ebind (validateBootstrapInput input) (\<lambda>_.
    ebind (authorizer (bi_tenant input)) (\<lambda>provenance.
    ebind (efold (owner_grant (mg_catalog b) (bi_role input)) (bi_grants input) []) (\<lambda>grantMap.
    ebind (has_controls (mg_controls b) grantMap) (\<lambda>_. Inr (provenance, map snd grantMap)))))")
  case (Inl e)
  with run inv show ?thesis by (auto simp: BootstrapTenant_def outcome_ok_rejected)
next
  case (Inr y)
  then obtain provenance gm where y: "y = (provenance, map snd gm)"
    and pre: "validateBootstrapInput input = Inr () \<and>
      efold (owner_grant (mg_catalog b) (bi_role input)) (bi_grants input) [] = Inr gm \<and>
      has_controls (mg_controls b) gm = Inr ()"
    by (auto simp: err_simps)
  obtain res1 st1 where run1: "mutator_of ctx (bi_tenant input)
      (bootstrap_tx memory_tx clk provenance input (owner_role input) (map snd gm)) st = (res1, st1)"
    by (metis prod.exhaust)
  from run Inr y run1 have "st' = st1 \<and> res = ebind res1 (\<lambda>_. Inr (owner_role input))"
    by (auto simp: BootstrapTenant_def split: sum.splits)
  with outcome_ok_map [OF bootstrap_tenant.transaction [OF inv pre run1]] show ?thesis by simp
qed

end
