(* ===== verification/Maintenance.thy ===== *)
theory Maintenance
  imports MemoryStore
begin

text \<open>
  Offline maintenance: the canonical export (\<open>internal/tenantexport/snapshot.go\<close>), the maintenance
  transaction of the memory adapter (\<open>maintenanceTx\<close> and \<open>MaintainTenant\<close> of \<open>memory/memory.go\<close>) and
  the host-facing API (\<open>maintenance.go\<close>). \<open>render\<close> stands for \<open>json.MarshalIndent\<close>, a function of the
  snapshot.
\<close>

section \<open>The export\<close>

record tenant_snapshot =
  sn_format :: string
  sn_tenant :: tenant_id
  sn_roles :: "role list"
  sn_grants :: "role_permission_grant list"
  sn_versions :: "role_version list"
  sn_edges :: "grant_edge list"
  sn_audit :: "mutation_audit_event list"

definition export_role_less :: "role \<Rightarrow> role \<Rightarrow> bool" where
  "export_role_less a b = (ro_id a < ro_id b)"

definition export_grant_less :: "role_permission_grant \<Rightarrow> role_permission_grant \<Rightarrow> bool" where
  "export_grant_less a b =
     (if rg_role a \<noteq> rg_role b then rg_role a < rg_role b
      else if rg_permission a \<noteq> rg_permission b then rg_permission a < rg_permission b
      else if rg_scope a \<noteq> rg_scope b then rg_scope a < rg_scope b
      else rg_workspace_roles a < rg_workspace_roles b)"

definition export_version_less :: "role_version \<Rightarrow> role_version \<Rightarrow> bool" where
  "export_version_less a b =
     (if rv_role a \<noteq> rv_role b then rv_role a < rv_role b else sint (rv_version a) < sint (rv_version b))"

definition export_edge_less :: "grant_edge \<Rightarrow> grant_edge \<Rightarrow> bool" where
  "export_edge_less a b =
     (if ge_grantor a \<noteq> ge_grantor b then ge_grantor a < ge_grantor b
      else if ge_grantee a \<noteq> ge_grantee b then ge_grantee a < ge_grantee b
      else ge_role a < ge_role b)"

definition export_sorted_grants :: "role_permission_grant list \<Rightarrow> role_permission_grant list" where
  "export_sorted_grants grants = sort_by export_grant_less grants"

definition canonical_snapshot :: "tenant_snapshot \<Rightarrow> tenant_snapshot" where
  "canonical_snapshot sn = sn
     \<lparr>sn_roles := sort_by export_role_less (sn_roles sn),
      sn_grants := export_sorted_grants (sn_grants sn),
      sn_versions := map (\<lambda>v. v\<lparr>rv_grants := export_sorted_grants (rv_grants v)\<rparr>)
                       (sort_by export_version_less (sn_versions sn)),
      sn_edges := sort_by export_edge_less (sn_edges sn)\<rparr>"

type_synonym renderer = "tenant_snapshot \<Rightarrow> error + string"

definition Marshal :: "renderer \<Rightarrow> tenant_snapshot \<Rightarrow> error + string" where
  "Marshal render sn = render (canonical_snapshot sn)"

section \<open>The maintenance transaction\<close>

record purge_result =
  pg_changed :: bool
  pg_already_committed :: bool
  pg_canonical_event :: mutation_audit_event

record 's maintenance_tx =
  mt_export :: "'s \<Rightarrow> error + string"
  mt_purge :: "mutation_audit_event \<Rightarrow> 's \<Rightarrow> error + purge_result \<times> 's"

definition state_snapshot :: "tenant_id \<Rightarrow> tenant_state \<Rightarrow> tenant_snapshot" where
  "state_snapshot t s =
     \<lparr>sn_format = ''amsonia.tenant.v1'', sn_tenant = t, sn_roles = map snd (ts_roles s),
      sn_grants = concat (map (\<lambda>(_, gs). map snd gs) (ts_role_perms s)),
      sn_versions = concat (map (\<lambda>(_, vs). map snd vs) (ts_role_versions s)),
      sn_edges = map snd (ts_grant_edges s), sn_audit = [] @ ts_audit s\<rparr>"

definition mem_export :: "renderer \<Rightarrow> tenant_id \<Rightarrow> tenant_state \<Rightarrow> error + string" where
  "mem_export render t s =
     (if ts_purged s then Inl ErrNotFound else Marshal render (state_snapshot t s))"

definition mem_purge :: "mutation_audit_event \<Rightarrow> tenant_state \<Rightarrow> error + purge_result \<times> tenant_state" where
  "mem_purge event s =
     (case map_get (ts_purge_ledger s) (ae_request_id event) of
        Some canonical \<Rightarrow>
          Inr (\<lparr>pg_changed = False, pg_already_committed = True, pg_canonical_event = canonical\<rparr>, s)
      | None \<Rightarrow>
          if ts_purged s then Inl ErrNotFound
          else Inr (\<lparr>pg_changed = True, pg_already_committed = False, pg_canonical_event = event\<rparr>,
            s\<lparr>ts_roles := [], ts_role_perms := [], ts_subject_roles := [], ts_grant_edges := [],
              ts_role_versions := [], ts_audit := [], ts_bootstrapped := False, ts_purged := True,
              ts_purge_ledger := map_put (ae_request_id event) event (ts_purge_ledger s)\<rparr>))"

definition memory_maintenance :: "renderer \<Rightarrow> tenant_id \<Rightarrow> tenant_state maintenance_tx" where
  "memory_maintenance render t = \<lparr>mt_export = mem_export render t, mt_purge = mem_purge\<rparr>"

definition MaintainTenant ::
  "go_context \<Rightarrow> tenant_id \<Rightarrow> (tenant_state \<Rightarrow> error + 'r \<times> tenant_state) option \<Rightarrow> store \<Rightarrow>
     (error + 'r) \<times> store" where
  "MaintainTenant ctx t fn st =
     (if validateOpaqueID t \<noteq> Inr () then (Inl ErrInvalidInput, st)
      else case fn of
        None \<Rightarrow> (Inl ErrInvalidInput, st)
      | Some f \<Rightarrow>
          (case ebind (poll ctx 0) (\<lambda>_. poll ctx 1) of
             Inl e \<Rightarrow> (Inl e, st)
           | Inr _ \<Rightarrow>
             (let (s, st) = store_tenant t st in
              case f (cloneTenantState (Some s)) of
                  Inl e \<Rightarrow> (Inl e, st)
                | Inr (x, pending) \<Rightarrow>
                    (case poll ctx 2 of
                       Inl e \<Rightarrow> (Inl e, st)
                     | Inr _ \<Rightarrow> (Inr x, map_put t pending st)))))"

definition maintainer_of ::
  "go_context \<Rightarrow> tenant_id \<Rightarrow> (tenant_state \<Rightarrow> error + 'r \<times> tenant_state) \<Rightarrow> store \<Rightarrow> (error + 'r) \<times> store" where
  "maintainer_of ctx t body st = MaintainTenant ctx t (Some body) st"

section \<open>The API\<close>

text \<open>\<open>None\<close> is a nil dependency; the value holds nothing but its dependencies.\<close>

definition NewMaintenance ::
  "'st option \<Rightarrow> maintenance_authorizer option \<Rightarrow> 'a option \<Rightarrow> clock option \<Rightarrow> error + unit" where
  "NewMaintenance store authorizer securityAudit clk =
     (if store = None \<or> authorizer = None \<or> securityAudit = None \<or> clk = None then Inl ErrInvalidInput
      else Inr ())"

definition ExportTenant ::
  "('s, string, 'st) mutator \<Rightarrow> maintenance_authorizer \<Rightarrow> 's maintenance_tx \<Rightarrow> tenant_id \<Rightarrow> 'st \<Rightarrow>
     (error + string) \<times> 'st" where
  "ExportTenant maintain authorizer mtx t st =
     (case ebind (validateOpaqueID t) (\<lambda>_. authorizer t ''export'') of
        Inl e \<Rightarrow> (Inl e, st)
      | Inr _ \<Rightarrow> maintain t (\<lambda>s. ebind (mt_export mtx s) (\<lambda>data. Inr (data, s))) st)"

definition purge_intent ::
  "clock \<Rightarrow> host_provenance \<Rightarrow> tenant_id \<Rightarrow> mutation_metadata \<Rightarrow> mutation_audit_event" where
  "purge_intent clk provenance t meta =
     \<lparr>ae_tenant = t, ae_actor = [], ae_host_initiator = hp_initiator provenance,
      ae_operation = ''tenant.purge'', ae_phase = AuditPhaseIntent, ae_target_type = ''tenant'',
      ae_target_id = t, ae_outcome = AuditOutcomeSuccess, ae_reason_code = mm_reason_code meta,
      ae_request_id = mm_request_id meta, ae_role_version = 0, ae_at = clk AtIntent\<rparr>"

definition validatePurge :: "tenant_id \<Rightarrow> mutation_metadata \<Rightarrow> error + unit" where
  "validatePurge t meta =
     (if validateOpaqueID t \<noteq> Inr () then Inl ErrInvalidInput
      else if mm_request_id meta = [] \<or> length (mm_request_id meta) > 128 then Inl ErrInvalidInput
      else if mm_reason_code meta = [] \<or> length (mm_reason_code meta) > 64 then Inl ErrInvalidInput
      else Inr ())"

definition PurgeTenant ::
  "('s, purge_result, 'st) mutator \<Rightarrow> maintenance_authorizer \<Rightarrow> 's maintenance_tx \<Rightarrow> 'a audit_sink \<Rightarrow>
     clock \<Rightarrow> tenant_id \<Rightarrow> mutation_metadata \<Rightarrow> 'st \<Rightarrow> 'a \<Rightarrow> (error + unit) \<times> 'st \<times> 'a" where
  "PurgeTenant maintain authorizer mtx sink clk t meta st a =
     (case ebind (validatePurge t meta) (\<lambda>_. authorizer t ''purge'') of
        Inl e \<Rightarrow> (Inl e, st, a)
      | Inr provenance \<Rightarrow>
        (let intent = purge_intent clk provenance t meta;
             (failed, a) = sink intent a in
         if failed \<noteq> None then (Inl ErrAuditUnavailable, st, a)
         else (case maintain t (mt_purge mtx intent) st of
             (Inl e, st) \<Rightarrow> (Inl e, st, a)
           | (Inr result, st) \<Rightarrow>
               (let completion = (pg_canonical_event result)
                      \<lparr>ae_phase := AuditPhaseCompleted, ae_at := clk AtCompletion\<rparr>;
                    (failed, a) = sink completion a in
                if failed \<noteq> None then (Inl ErrAuditUnavailable, st, a)
                else (Inr (), st, a)))))"

section \<open>The export is canonical\<close>

interpretation export_roles: go_ordering export_role_less "\<lambda>x. map_get m (ro_id x) = Some x" for m
proof (unfold_locales, goal_cases)
  case (3 x y)
  then have "ro_id x \<noteq> ro_id y" by auto
  then show ?case by (auto simp: export_role_less_def neq_iff)
qed (auto simp: export_role_less_def)

interpretation export_grants: go_ordering export_grant_less "\<lambda>_. True"
proof (unfold_locales, goal_cases)
  case (1 x)
  show ?case by (simp add: export_grant_less_def)
next
  case (2 x y z)
  then show ?case by (auto simp: export_grant_less_def split: if_splits)
next
  case (3 x y)
  then show ?case
    by (cases x; cases y) (auto simp: export_grant_less_def)
qed

interpretation export_versions: go_ordering export_version_less
  "\<lambda>v. map_get (sub_map m (rv_role v)) (rv_version v) = Some v" for m
proof (unfold_locales, goal_cases)
  case (1 x)
  show ?case by (simp add: export_version_less_def)
next
  case (2 x y z)
  then show ?case by (auto simp: export_version_less_def split: if_splits)
next
  case (3 x y)
  then have "rv_role x \<noteq> rv_role y \<or> rv_version x \<noteq> rv_version y" by auto
  then have "rv_role x \<noteq> rv_role y \<or> sint (rv_version x) \<noteq> sint (rv_version y)"
    using signed_word_eqI by metis
  then show ?case by (auto simp: export_version_less_def neq_iff)
qed

interpretation export_edges: go_ordering export_edge_less "\<lambda>e. map_get m (edge_key_of e) = Some e" for m
proof (unfold_locales, goal_cases)
  case (1 x)
  show ?case by (simp add: export_edge_less_def)
next
  case (2 x y z)
  then show ?case by (auto simp: export_edge_less_def split: if_splits)
next
  case (3 x y)
  then have "edge_key_of x \<noteq> edge_key_of y" by auto
  then show ?case by (auto simp: export_edge_less_def edge_key_of_def)
qed

lemma values_distinct:
  assumes "map_ok m" and "\<And>k v. map_get m k = Some v \<Longrightarrow> f v = k"
  shows "distinct (map snd m)"
proof -
  have "f (snd e) = fst e" if "e \<in> set m" for e
    using that assms map_get_entry [OF assms(1), of "fst e" "snd e"] by simp
  then have "map f (map snd m) = map fst m" by simp
  with assms(1) show ?thesis unfolding map_ok_def by (metis distinct_map)
qed

lemma values_set: "map_ok m \<Longrightarrow> set (map snd m) = ran (map_get m)"
  using alist_map.values_entries [of m] by simp

lemma nested_values_distinct:
  assumes "distinct (map fst m)"
    and "\<forall>(r, x) \<in> set m. distinct (map fst x) \<and> (\<forall>(k, g) \<in> set x. f g = (r, k))"
  shows "distinct (concat (map (\<lambda>(_, x). map snd x) m))"
  using assms
proof (induction m)
  case Nil
  then show ?case by simp
next
  case (Cons e m)
  obtain r x where e: "e = (r, x)" by (cases e)
  from Cons.prems(2) e have keys: "\<forall>kg \<in> set x. f (snd kg) = (r, fst kg)" and x: "distinct (map fst x)" by auto
  from keys have "map (\<lambda>g. snd (f g)) (map snd x) = map fst x" by simp
  with x have dx: "distinct (map snd x)" by (metis distinct_map)
  have "r' \<in> fst ` set m" if "g \<in> set (concat (map (\<lambda>(_, x). map snd x) m))" "fst (f g) = r'" for g r'
    using that Cons.prems(2) by force
  moreover have "fst (f g) = r" if "g \<in> set (map snd x)" for g using that keys by auto
  moreover have "r \<notin> fst ` set m" using Cons.prems(1) e by simp
  ultimately have "set (map snd x) \<inter> set (concat (map (\<lambda>(_, x). map snd x) m)) = {}" by blast
  moreover have "distinct (concat (map (\<lambda>(_, x). map snd x) m))" using Cons by simp
  ultimately show ?case using dx e by simp
qed

lemma nested_values:
  assumes ok: "nested_ok m" and keyed: "\<And>r k g. map_get (sub_map m r) k = Some g \<Longrightarrow> f g = (r, k)"
  shows "distinct (concat (map (\<lambda>(_, x). map snd x) m))"
    and "set (concat (map (\<lambda>(_, x). map snd x) m)) = {g. \<exists>r k. map_get (sub_map m r) k = Some g}"
proof -
  have "distinct (map fst x) \<and> (\<forall>(k, g) \<in> set x. f g = (r, k))" if "(r, x) \<in> set m" for r x
  proof -
    have x: "x = sub_map m r" using sub_map_entry [OF ok that] by simp
    then have "map_ok x" using ok by simp
    then show ?thesis using keyed x by (auto simp: map_ok_def nested_entries [OF ok])
  qed
  then show "distinct (concat (map (\<lambda>(_, x). map snd x) m))"
    using ok by (intro nested_values_distinct [where f = f]) (force simp: nested_ok_def map_ok_def)+
  show "set (concat (map (\<lambda>(_, x). map snd x) m)) = {g. \<exists>r k. map_get (sub_map m r) k = Some g}"
    unfolding entry_in_nested [OF ok, symmetric] by force
qed

definition same_tenant :: "tenant_state \<Rightarrow> tenant_state \<Rightarrow> bool" where
  "same_tenant s s' = (map_get (ts_roles s) = map_get (ts_roles s') \<and>
     (\<forall>r. map_get (sub_map (ts_role_perms s) r) = map_get (sub_map (ts_role_perms s') r)) \<and>
     (\<forall>r. map_get (sub_map (ts_role_versions s) r) = map_get (sub_map (ts_role_versions s') r)) \<and>
     map_get (ts_grant_edges s) = map_get (ts_grant_edges s') \<and>
     ts_audit s = ts_audit s' \<and> ts_purged s = ts_purged s')"

lemma export_lists:
  assumes "tenant_state_ok s" and "tenant_keyed s"
  shows "distinct (sn_roles (state_snapshot t s)) \<and> set (sn_roles (state_snapshot t s)) = ran (map_get (ts_roles s))"
    and "distinct (sn_grants (state_snapshot t s)) \<and>
      set (sn_grants (state_snapshot t s)) = {g. \<exists>r k. map_get (sub_map (ts_role_perms s) r) k = Some g}"
    and "distinct (sn_versions (state_snapshot t s)) \<and>
      set (sn_versions (state_snapshot t s)) = {v. \<exists>r n. map_get (sub_map (ts_role_versions s) r) n = Some v}"
    and "distinct (sn_edges (state_snapshot t s)) \<and>
      set (sn_edges (state_snapshot t s)) = ran (map_get (ts_grant_edges s))"
proof -
  have ok: "map_ok (ts_roles s)" "nested_ok (ts_role_perms s)" "nested_ok (ts_role_versions s)"
    "map_ok (ts_grant_edges s)" using assms(1) by (simp_all add: tenant_state_ok_def)
  show "distinct (sn_roles (state_snapshot t s)) \<and> set (sn_roles (state_snapshot t s)) = ran (map_get (ts_roles s))"
    using values_distinct [OF ok(1), of ro_id] values_set [OF ok(1)] assms(2)
    by (simp add: state_snapshot_def tenant_keyed_def)
  have edges: "edge_key_of e = k" if "map_get (ts_grant_edges s) k = Some e" for k e
    using that assms(2) unfolding tenant_keyed_def by blast
  show "distinct (sn_edges (state_snapshot t s)) \<and>
      set (sn_edges (state_snapshot t s)) = ran (map_get (ts_grant_edges s))"
    using values_distinct [OF ok(4) edges] values_set [OF ok(4)] by (simp add: state_snapshot_def)
  have grant: "(rg_role g, grant_key_of g) = (r, k)" if "map_get (sub_map (ts_role_perms s) r) k = Some g" for r k g
    using stored_grant [OF assms(1) that] by simp
  show "distinct (sn_grants (state_snapshot t s)) \<and>
      set (sn_grants (state_snapshot t s)) = {g. \<exists>r k. map_get (sub_map (ts_role_perms s) r) k = Some g}"
    using nested_values [OF ok(2) grant] by (simp add: state_snapshot_def)
  have "(rv_role v, rv_version v) = (r, n)" if "map_get (sub_map (ts_role_versions s) r) n = Some v" for r n v
    using that assms(2) unfolding tenant_keyed_def by simp
  from nested_values [OF ok(3) this] show "distinct (sn_versions (state_snapshot t s)) \<and>
      set (sn_versions (state_snapshot t s)) = {v. \<exists>r n. map_get (sub_map (ts_role_versions s) r) n = Some v}"
    by (simp add: state_snapshot_def)
qed

lemma mem_export_canonical:
  assumes ok: "tenant_state_ok s" "tenant_keyed s" "tenant_state_ok s'" "tenant_keyed s'"
    and same: "same_tenant s s'"
  shows "mem_export render t s = mem_export render t s'"
proof -
  note l = export_lists [OF ok(1,2), of t] and l' = export_lists [OF ok(3,4), of t]
  let ?a = "state_snapshot t s" and ?b = "state_snapshot t s'"
  have roles: "sort_by export_role_less (sn_roles ?a) = sort_by export_role_less (sn_roles ?b)"
    using l(1) l'(1) same ok(2)
    by (intro export_roles.sort_by_canonical [of _ _ "ts_roles s"])
      (auto simp: same_tenant_def ran_def tenant_keyed_def)
  have grants: "sort_by export_grant_less (sn_grants ?a) = sort_by export_grant_less (sn_grants ?b)"
    using l(2) l'(2) same by (intro export_grants.sort_by_canonical) (simp_all add: same_tenant_def)
  have "map_get (sub_map (ts_role_versions s) (rv_role v)) (rv_version v) = Some v"
    if "v \<in> set (sn_versions ?a)" for v
    using that l(3) ok(2) unfolding tenant_keyed_def by auto
  then have versions: "sort_by export_version_less (sn_versions ?a) = sort_by export_version_less (sn_versions ?b)"
    using l(3) l'(3) same
    by (intro export_versions.sort_by_canonical [of _ _ "ts_role_versions s"]) (simp_all add: same_tenant_def)
  have "map_get (ts_grant_edges s) (edge_key_of e) = Some e" if "e \<in> set (sn_edges ?a)" for e
  proof -
    from that l(4) obtain k where "map_get (ts_grant_edges s) k = Some e" by (auto simp: ran_def)
    moreover from this have "edge_key_of e = k" using ok(2) unfolding tenant_keyed_def by blast
    ultimately show ?thesis by simp
  qed
  then have edges: "sort_by export_edge_less (sn_edges ?a) = sort_by export_edge_less (sn_edges ?b)"
    using l(4) l'(4) same
    by (intro export_edges.sort_by_canonical [of _ _ "ts_grant_edges s"]) (simp_all add: same_tenant_def)
  have "canonical_snapshot ?a = canonical_snapshot ?b"
    unfolding canonical_snapshot_def export_sorted_grants_def roles grants versions edges
    using same by (simp add: state_snapshot_def same_tenant_def)
  with same show ?thesis by (simp add: mem_export_def Marshal_def same_tenant_def)
qed

end
