(* ===== verification/Kernel.thy ===== *)
theory Kernel
  imports Maintenance
begin

text \<open>
  The kernel as a state machine over the memory store and the security sink: calls of \<open>Manager\<close>
  (\<open>manager_call\<close>), of \<open>Bootstrapper\<close> and of \<open>Maintenance\<close> in any order, with any inputs, contexts,
  clocks and adapters (\<open>kernel_step\<close>), and what holds in every state such calls can reach.
\<close>

section \<open>Maintenance keeps the invariant\<close>

lemma MaintainTenant_cases:
  obtains (failed) e st' where "MaintainTenant ctx t fn st = (Inl e, st')"
      "tenant_of st' = tenant_of st" "map_ok st \<Longrightarrow> map_ok st'"
  | (committed) f x s' st' where "fn = Some f" "valid_id t"
      "f (tenant_of st t) = Inr (x, s')" "MaintainTenant ctx t fn st = (Inr x, st')"
      "tenant_of st' = (tenant_of st)(t := s')" "map_ok st \<Longrightarrow> map_ok st'"
proof (cases "MaintainTenant ctx t fn st")
  case (Pair res st')
  obtain s0 st0 where st0: "store_tenant t st = (s0, st0)" by (cases "store_tenant t st")
  note facts = store_tenant_simps(1,2) [of t st, unfolded st0 fst_conv snd_conv]
    store_tenant_simps(3) [of st t, unfolded st0 snd_conv]
  show ?thesis
  proof (cases res)
    case (Inl e)
    with Pair facts st0 have "tenant_of st' = tenant_of st \<and> (map_ok st \<longrightarrow> map_ok st')"
      by (auto simp: MaintainTenant_def Let_def split: if_splits option.splits sum.splits)
    with Pair Inl show ?thesis by (auto intro: failed)
  next
    case (Inr x)
    with Pair st0 obtain f s' where "fn = Some f" "validateOpaqueID t = Inr ()"
      "f (cloneTenantState (Some s0)) = Inr (x, s')" "st' = map_put t s' st0"
      by (auto simp: MaintainTenant_def Let_def split: if_splits option.splits sum.splits)
    with facts Pair Inr show ?thesis
      by (intro committed [of f x s' st']) (auto simp: valid_id_def cloneTenantState_id)
  qed
qed

lemma maintain_outcome:
  assumes inv: "store_inv m st" and run: "maintainer_of ctx t body st = (res, st')"
    and keeps: "\<And>x s'. body (tenant_of st t) = Inr (x, s') \<Longrightarrow> tenant_inv m t s'"
  shows "store_inv m st' \<and> (\<forall>u. u \<noteq> t \<longrightarrow> tenant_of st' u = tenant_of st u) \<and>
    (case res of Inl e \<Rightarrow> tenant_of st' = tenant_of st
     | Inr x \<Rightarrow> body (tenant_of st t) = Inr (x, tenant_of st' t))"
proof (cases ctx t "Some body" st rule: MaintainTenant_cases)
  case (failed e st1)
  with run inv show ?thesis by (auto simp: maintainer_of_def store_inv_def)
next
  case (committed f x s' st1)
  with run inv keeps [of x s'] show ?thesis by (auto simp: maintainer_of_def store_inv_def)
qed

lemma mem_purge_cases:
  assumes "purge_ok s"
  shows "(case mem_purge event s of
      Inl e \<Rightarrow> e = ErrNotFound \<and> ts_purged s \<and> map_get (ts_purge_ledger s) (ae_request_id event) = None
    | Inr (r, s') \<Rightarrow> ts_purged s' \<and>
        (if ts_purged s
         then s' = s \<and> map_get (ts_purge_ledger s) (ae_request_id event) = Some (pg_canonical_event r) \<and>
              pg_already_committed r \<and> \<not> pg_changed r
         else pg_canonical_event r = event \<and> pg_changed r \<and> \<not> pg_already_committed r \<and>
              tenant_view s' = empty_policy \<and>
              map_get (ts_purge_ledger s') = [ae_request_id event \<mapsto> event]))"
proof (cases "ts_purged s")
  case True
  then show ?thesis by (auto simp: mem_purge_def split: option.splits)
next
  case False
  with assms have "ts_purge_ledger s = []" by (simp add: purge_ok_def)
  with False show ?thesis
    by (auto simp: mem_purge_def tenant_view_def empty_policy_def sub_map_def fun_eq_iff)
qed

lemma mem_purge_inv:
  assumes inv: "tenant_inv m t s" and run: "mem_purge event s = Inr (r, s')"
  shows "tenant_inv m t s'"
proof (cases "ts_purged s")
  case True
  with inv mem_purge_cases [of s event] run show ?thesis by (simp add: tenant_inv_def)
next
  case False
  with inv have "ts_purge_ledger s = []" by (simp add: tenant_inv_def purge_ok_def)
  with False run have s': "s' = s
      \<lparr>ts_roles := [], ts_role_perms := [], ts_subject_roles := [], ts_grant_edges := [],
       ts_role_versions := [], ts_audit := [], ts_bootstrapped := False, ts_purged := True,
       ts_purge_ledger := map_put (ae_request_id event) event []\<rparr>"
    by (simp add: mem_purge_def)
  have view: "tenant_view s' = empty_policy"
    by (simp add: s' tenant_view_def empty_policy_def sub_map_def fun_eq_iff)
  have "map_put (ae_request_id event) event [] \<noteq> []" by (simp add: map_put_def)
  with view policy_ok_empty show ?thesis
    by (simp add: tenant_inv_def purge_ok_def view)
      (simp add: s' tenant_state_ok_def tenant_keyed_def nested_ok_def sub_map_def)
qed

section \<open>Calls\<close>

inductive manager_call ::
  "manager \<Rightarrow> 'a audit_sink \<Rightarrow> principal \<Rightarrow> bool \<Rightarrow> store \<times> 'a \<Rightarrow> store \<times> 'a \<Rightarrow> bool"
  for m sink actor where
  create_role:
    "CreateRole m memory_tx (mutator_of ctx) sink clk actor meta input st a = (res, st', a') \<Longrightarrow>
     manager_call m sink actor (\<not> isl res) (st, a) (st', a')"
| create_role_with_permissions:
    "CreateRoleWithPermissions m memory_tx (mutator_of ctx) sink clk actor meta input' st a = (res, st', a') \<Longrightarrow>
     manager_call m sink actor (\<not> isl res) (st, a) (st', a')"
| update_role:
    "UpdateRole m memory_tx (mutator_of ctx) sink clk actor meta uinput st a = (res, st', a') \<Longrightarrow>
     manager_call m sink actor (\<not> isl res) (st, a) (st', a')"
| delete_role:
    "DeleteRole m memory_tx (mutator_of ctx) sink clk actor meta dinput st a = (dres, st', a') \<Longrightarrow>
     manager_call m sink actor (\<not> isl dres) (st, a) (st', a')"
| grant_permission:
    "GrantPermission m memory_tx (mutator_of ctx) sink clk actor meta ginput st a = (dres, st', a') \<Longrightarrow>
     manager_call m sink actor (\<not> isl dres) (st, a) (st', a')"
| revoke_permission:
    "RevokePermission m memory_tx (mutator_of ctx) sink clk actor meta ginput st a = (dres, st', a') \<Longrightarrow>
     manager_call m sink actor (\<not> isl dres) (st, a) (st', a')"
| assign_role:
    "AssignRole m memory_tx (mutator_of ctx) sink clk actor meta ainput st a = (dres, st', a') \<Longrightarrow>
     manager_call m sink actor (\<not> isl dres) (st, a) (st', a')"
| unassign_role:
    "UnassignRole m memory_tx (mutator_of ctx) sink clk actor meta ainput st a = (dres, st', a') \<Longrightarrow>
     manager_call m sink actor (\<not> isl dres) (st, a) (st', a')"

inductive kernel_step ::
  "manager \<Rightarrow> 'a audit_sink \<Rightarrow> tenant_id \<Rightarrow> store \<times> 'a \<Rightarrow> store \<times> 'a \<Rightarrow> bool" for m sink where
  manage: "manager_call m sink actor success c c' \<Longrightarrow> kernel_step m sink (pr_tenant actor) c c'"
| bootstrap:
    "BootstrapTenant m memory_tx (mutator_of ctx) bootstrap_auth clk input st = (res, st') \<Longrightarrow>
     kernel_step m sink (bi_tenant input) (st, a) (st', a)"
| export:
    "ExportTenant (maintainer_of ctx) auth (memory_maintenance render t) t st = (eres, st') \<Longrightarrow>
     kernel_step m sink t (st, a) (st', a)"
| purge:
    "PurgeTenant (maintainer_of ctx) auth (memory_maintenance render t) sink clk t meta st a = (pres, st', a') \<Longrightarrow>
     kernel_step m sink t (st, a) (st', a')"

definition kernel_run :: "manager \<Rightarrow> 'a audit_sink \<Rightarrow> store \<times> 'a \<Rightarrow> store \<times> 'a \<Rightarrow> bool" where
  "kernel_run m sink = (\<lambda>c c'. \<exists>t. kernel_step m sink t c c')\<^sup>*\<^sup>*"

definition manager_run ::
  "manager \<Rightarrow> 'a audit_sink \<Rightarrow> store \<times> 'a \<Rightarrow> store \<times> 'a \<Rightarrow> bool" where
  "manager_run m sink = (\<lambda>c c'. \<exists>actor success. manager_call m sink actor success c c')\<^sup>*\<^sup>*"

section \<open>What a call does\<close>

lemma manager_call_outcome:
  assumes "manager_call m sink actor success (st, a) (st', a')" and inv: "store_inv m st"
  shows "store_inv m st' \<and> (\<forall>u. u \<noteq> pr_tenant actor \<longrightarrow> tenant_of st' u = tenant_of st u) \<and>
    (if success
     then \<not> ts_purged (tenant_of st (pr_tenant actor)) \<and>
       policy_step m actor (policy_of st (pr_tenant actor)) (policy_of st' (pr_tenant actor))
     else tenant_of st' = tenant_of st)"
proof -
  have split: "outcome_ok m (pr_tenant actor) (policy_step m actor) st res st' \<Longrightarrow> success = (\<not> isl res) \<Longrightarrow>
      ?thesis" for res :: "error + 'r"
    by (cases res) (auto simp: outcome_ok_def)
  show ?thesis
    using assms(1)
    by cases (rule split, erule CreateRole_outcome [OF inv] CreateRoleWithPermissions_outcome [OF inv]
        UpdateRole_outcome [OF inv] DeleteRole_outcome [OF inv] GrantPermission_outcome [OF inv]
        RevokePermission_outcome [OF inv] AssignRole_outcome [OF inv] UnassignRole_outcome [OF inv], assumption)+
qed

lemma bootstrap_call_outcome:
  assumes "BootstrapTenant m memory_tx (mutator_of ctx) bootstrap_auth clk input st = (res, st')"
    and "store_inv m st"
  shows "store_inv m st' \<and> (\<forall>u. u \<noteq> bi_tenant input \<longrightarrow> tenant_of st' u = tenant_of st u) \<and>
    (case res of Inl e \<Rightarrow> tenant_of st' = tenant_of st
     | Inr x \<Rightarrow> \<not> ts_purged (tenant_of st (bi_tenant input)) \<and>
         bootstrap_step m (bi_tenant input) (bi_owner input) (policy_of st (bi_tenant input))
           (policy_of st' (bi_tenant input)))"
  using BootstrapTenant_outcome [OF assms(2,1)] by (simp add: outcome_ok_def)

lemma export_outcome:
  assumes "ExportTenant (maintainer_of ctx) auth (memory_maintenance render t) t st = (res, st')"
    and inv: "store_inv m st"
  shows "store_inv m st' \<and> tenant_of st' = tenant_of st"
proof (cases "ebind (validateOpaqueID t) (\<lambda>_. auth t ''export'')")
  case (Inl e)
  with assms show ?thesis by (simp add: ExportTenant_def)
next
  case (Inr y)
  let ?body = "\<lambda>s. ebind (mt_export (memory_maintenance render t) s) (\<lambda>data. Inr (data, s))"
  from assms(1) Inr have run: "maintainer_of ctx t ?body st = (res, st')" by (simp add: ExportTenant_def)
  have body: "s' = tenant_of st t" if "?body (tenant_of st t) = Inr (x, s')" for x s'
    using that by (auto simp: err_simps)
  have "tenant_inv m t (tenant_of st t)" using inv by (simp add: store_inv_def)
  with body have keep: "?body (tenant_of st t) = Inr (x, s') \<Longrightarrow> tenant_inv m t s'" for x s' by blast
  have out: "store_inv m st' \<and> (\<forall>u. u \<noteq> t \<longrightarrow> tenant_of st' u = tenant_of st u) \<and>
      (case res of Inl e \<Rightarrow> tenant_of st' = tenant_of st
       | Inr x \<Rightarrow> ?body (tenant_of st t) = Inr (x, tenant_of st' t))"
    by (rule maintain_outcome [OF inv run keep])
  then have "tenant_of st' t = tenant_of st t" using body by (cases res) auto
  with out have "tenant_of st' u = tenant_of st u" for u by (cases "u = t") auto
  with out show ?thesis by auto
qed

text \<open>
  A purge call: \<open>AlreadyCommitted\<close> retries change nothing; a first purge empties the tenant. Even
  an error (a sink that cannot record the completion) may leave the tenant purged, and nothing else.
\<close>

lemma purge_call_outcome:
  assumes run: "PurgeTenant (maintainer_of ctx) auth (memory_maintenance render t) sink clk t meta st a =
      (res, st', a')"
    and inv: "store_inv m st"
  shows "store_inv m st' \<and> (\<forall>u. u \<noteq> t \<longrightarrow> tenant_of st' u = tenant_of st u) \<and>
    (tenant_of st' t = tenant_of st t \<or> \<not> ts_purged (tenant_of st t) \<and> ts_purged (tenant_of st' t)) \<and>
    (\<not> isl res \<longrightarrow> ts_purged (tenant_of st' t))"
proof -
  have inv_t: "tenant_inv m t (tenant_of st t)" using inv by (simp add: store_inv_def)
  show ?thesis
  proof (cases "ebind (validatePurge t meta) (\<lambda>_. auth t ''purge'')")
    case chk: (Inl e)
    with run inv show ?thesis by (auto simp: PurgeTenant_def)
  next
    case chk: (Inr provenance)
    let ?intent = "purge_intent clk provenance t meta"
    obtain f1 a1 where s1: "sink ?intent a = (f1, a1)" by (cases "sink ?intent a")
    obtain r st1 where m: "maintainer_of ctx t (mem_purge ?intent) st = (r, st1)" by (metis prod.exhaust)
    have out: "store_inv m st1 \<and> (\<forall>u. u \<noteq> t \<longrightarrow> tenant_of st1 u = tenant_of st u) \<and>
        (case r of Inl e \<Rightarrow> tenant_of st1 = tenant_of st
         | Inr x \<Rightarrow> mem_purge ?intent (tenant_of st t) = Inr (x, tenant_of st1 t))"
      by (rule maintain_outcome [OF inv m mem_purge_inv [OF inv_t]])
    have purge: "purge_ok (tenant_of st t)" using inv_t by (simp add: tenant_inv_def)
    show ?thesis
    proof (cases "f1 = None")
      case False
      with run inv chk s1 show ?thesis by (auto simp: PurgeTenant_def Let_def)
    next
      case True
      with run chk s1 m have st': "st' = st1" and res: "\<not> isl res \<Longrightarrow> \<not> isl r"
        by (auto simp: PurgeTenant_def Let_def memory_maintenance_def split: sum.splits prod.splits if_splits)
      show ?thesis
      proof (cases r)
        case (Inl e)
        with out st' res show ?thesis by auto
      next
        case (Inr pr)
        with out have "mem_purge ?intent (tenant_of st t) = Inr (pr, tenant_of st1 t)" by simp
        with mem_purge_cases [OF purge, of ?intent] out st' show ?thesis by (auto split: if_splits)
      qed
    qed
  qed
qed

lemma kernel_step_outcome:
  assumes "kernel_step m sink t (st, a) (st', a')" and inv: "store_inv m st"
  shows "store_inv m st' \<and> (\<forall>u. u \<noteq> t \<longrightarrow> tenant_of st' u = tenant_of st u) \<and>
    (ts_purged (tenant_of st t) \<longrightarrow> tenant_of st' t = tenant_of st t)"
  using assms(1)
proof cases
  case (manage actor success)
  with manager_call_outcome [OF manage(2) inv] show ?thesis by (cases success) auto
next
  case (bootstrap ctx bootstrap_auth clk input res)
  with bootstrap_call_outcome [OF bootstrap(3) inv] show ?thesis by (cases res) auto
next
  case (export ctx auth render eres)
  with export_outcome [OF export(2) inv] show ?thesis by auto
next
  case (purge ctx auth render clk meta pres)
  with purge_call_outcome [OF purge(1) inv] show ?thesis by auto
qed

lemma kernel_run_inv:
  assumes "kernel_run m sink (st, a) (st', a')" and "store_inv m st"
  shows "store_inv m st'"
  using assms unfolding kernel_run_def
  by (induction "(st', a')" arbitrary: st' a' rule: rtranclp_induct)
    (auto dest!: kernel_step_outcome)

lemma kernel_run_purged:
  assumes "kernel_run m sink (st, a) (st', a')" and "store_inv m st" and "ts_purged (tenant_of st t)"
  shows "tenant_of st' t = tenant_of st t"
proof -
  have "store_inv m st' \<and> tenant_of st' t = tenant_of st t"
    using assms unfolding kernel_run_def
  proof (induction "(st', a')" arbitrary: st' a' rule: rtranclp_induct)
    case base
    then show ?case by simp
  next
    case (step c)
    obtain st1 a1 where c: "c = (st1, a1)" by (cases c)
    from step(2) c obtain u where u: "kernel_step m sink u (st1, a1) (st', a')" by blast
    from step c have "store_inv m st1" "tenant_of st1 t = tenant_of st t" by simp_all
    with kernel_step_outcome [OF u] step.prems show ?case by (cases "u = t") auto
  qed
  then show ?thesis by simp
qed

lemma manager_run_kernel: "manager_run m sink c c' \<Longrightarrow> kernel_run m sink c c'"
  unfolding manager_run_def kernel_run_def
  by (erule rtranclp_mono [THEN predicate2D, rotated]) (auto intro: kernel_step.manage)

section \<open>No amplification along a run\<close>

definition all_held :: "policy \<Rightarrow> effective_grant set" where
  "all_held p = (\<Union>u. held_grants p u)"

lemma manager_call_authority:
  assumes call: "manager_call m sink actor success (st, a) (st', a')" and inv: "store_inv m st"
  shows "delegation.authority
    (if t = pr_tenant actor then held_grants (policy_of st t) (pr_subject actor) \<union> held_grants (policy_of st t) u
     else held_grants (policy_of st t) u) (held_grants (policy_of st' t) u)"
proof -
  have ok: "policy_ok m t (policy_of st t)"
    using inv by (simp add: store_inv_def tenant_inv_def policy_of_def)
  then have known: "g \<in> held_grants (policy_of st t) u \<Longrightarrow> known_scope (eg_scope g)" for g
    using known_scope_held [of "mg_catalog m" "policy_of st t" g u] by (simp add: policy_ok_def)
  note same = delegation.authority_mono [OF delegation.authority_refl [of "held_grants (policy_of st t) u", OF known]]
  show ?thesis
  proof (cases "t = pr_tenant actor \<and> success")
    case True
    with manager_call_outcome [OF call inv]
    have "policy_step m actor (policy_of st t) (policy_of st' t)" by simp
    from step_no_amplification [OF this] ok True show ?thesis by simp
  next
    case False
    with manager_call_outcome [OF call inv] have "policy_of st' t = policy_of st t"
      by (auto simp: policy_of_def split: if_splits)
    with same [of "held_grants (policy_of st t) (pr_subject actor) \<union> held_grants (policy_of st t) u"]
      same [of "held_grants (policy_of st t) u"]
    show ?thesis by auto
  qed
qed

lemma manager_run_authority:
  assumes run: "manager_run m sink (st, a) (st', a')" and inv: "store_inv m st"
  shows "delegation.authority (all_held (policy_of st t)) (all_held (policy_of st' t))"
  using run unfolding manager_run_def
proof (induction "(st', a')" arbitrary: st' a' rule: rtranclp_induct)
  case base
  have "policy_ok m t (policy_of st t)"
    using inv by (simp add: store_inv_def tenant_inv_def policy_of_def)
  then show ?case
    using known_scope_held [of "mg_catalog m" "policy_of st t"]
    by (intro delegation.authority_refl) (auto simp: all_held_def policy_ok_def)
next
  case (step c)
  obtain st1 a1 where c: "c = (st1, a1)" by (cases c)
  from step(2) c obtain actor success where call: "manager_call m sink actor success (st1, a1) (st', a')" by blast
  have "manager_run m sink (st, a) (st1, a1)" using step(1) c by (simp add: manager_run_def)
  from kernel_run_inv [OF manager_run_kernel [OF this] inv] have inv1: "store_inv m st1" .
  have "delegation.authority (all_held (policy_of st1 t)) (held_grants (policy_of st' t) u)" for u
    using manager_call_authority [OF call inv1, of t u]
    by (rule delegation.authority_mono) (auto simp: all_held_def split: if_splits)
  then have "delegation.authority (all_held (policy_of st1 t)) (all_held (policy_of st' t))"
    by (auto simp: delegation.authority_def all_held_def)
  with step(3) [OF c] show ?case by (rule delegation.authority_trans)
qed

end
