(* ===== verification/Authorizer.thy ===== *)
theory Authorizer
  imports Policy
begin

text \<open>
  \<open>authorizer.go\<close>: \<open>Check\<close> with its request validation, the per-call workspace membership
  snapshot, the scan of the grants in scope precedence and the merge of denial reasons. The
  policy reader and the membership reader are the interfaces of \<open>store.go\<close>, parameters of the
  authorizer; the membership reader threads a state so that the number of its calls is visible.
  The declarative decision it computes is in \<open>AuthorizerSpec\<close>.
\<close>

section \<open>The authorizer and its dependencies\<close>

type_synonym policy_reader =
  "tenant_id \<Rightarrow> subject_id \<Rightarrow> permission_key \<Rightarrow> error + effective_grant list"

type_synonym 'm membership_reader =
  "tenant_id \<Rightarrow> workspace_id \<Rightarrow> subject_id \<Rightarrow> 'm \<Rightarrow> (error + workspace_membership) \<times> 'm"

record 'm authorizer =
  au_catalog :: catalog
  au_policies :: policy_reader
  au_memberships :: "'m membership_reader"
  au_orbit :: orbit

definition NewAuthorizer ::
  "orbit \<Rightarrow> catalog option \<Rightarrow> policy_reader option \<Rightarrow> 'm membership_reader option
     \<Rightarrow> error + 'm authorizer" where
  "NewAuthorizer orbit catalog policies memberships =
     (case (catalog, policies, memberships) of
        (Some c, Some p, Some m) \<Rightarrow>
          Inr \<lparr>au_catalog = c, au_policies = p, au_memberships = m, au_orbit = orbit\<rparr>
      | _ \<Rightarrow> Inl ErrInvalidInput)"

section \<open>Request validation\<close>

definition optional_id :: "string \<Rightarrow> error + unit" where
  "optional_id v = (if v \<noteq> [] then
      (case validateOpaqueID v of Inl _ \<Rightarrow> Inl ErrInvalidInput | Inr u \<Rightarrow> Inr u) else Inr ())"

definition validateResourceContext :: "check_request \<Rightarrow> error + unit" where
  "validateResourceContext request =
     (let res = cq_resource request; mode = cq_mode request in
      ebind (if mode = ResourceExisting then
               (if rc_resource res = [] then Inl ErrInvalidInput
                else if rc_tenant res = [] then Inl ErrInvalidInput else Inr ())
             else if mode = ResourceCreate then
               (if rc_tenant res = [] then Inl ErrInvalidInput else Inr ())
             else if mode = ResourceTenantAction then
               (if rc_resource res \<noteq> [] then Inl ErrInvalidInput else Inr ())
             else Inr ()) (\<lambda>_.
      ebind (optional_id (rc_tenant res)) (\<lambda>_.
      ebind (optional_id (rc_resource res)) (\<lambda>_.
      ebind (optional_id (rc_owner res)) (\<lambda>_.
      ebind (optional_id (rc_workspace res)) (\<lambda>_. Inr ()))))))"

definition known_mode :: "resource_mode \<Rightarrow> bool" where
  "known_mode m = (m = ResourceExisting \<or> m = ResourceCreate \<or> m = ResourceTenantAction)"

definition validateRequest :: "catalog \<Rightarrow> check_request \<Rightarrow> error + unit" where
  "validateRequest catalog request =
     ebind (validateOpaqueID (pr_tenant (cq_principal request))) (\<lambda>_.
     ebind (validateOpaqueID (pr_subject (cq_principal request))) (\<lambda>_.
     ebind (validatePermissionKey (cq_permission request)) (\<lambda>_.
     if catalog_lookup catalog (cq_permission request) = None then Inl ErrInvalidInput
     else if \<not> known_mode (cq_mode request) then Inl ErrInvalidInput
     else validateResourceContext request)))"

section \<open>Denial reasons\<close>

datatype denied_reason =
    DeniedNone
  | DeniedTenantMismatch
  | DeniedOwnerMismatch
  | DeniedWorkspaceMissing
  | DeniedWorkspaceRole
  | DeniedOther

definition denied_rank :: "denied_reason \<Rightarrow> nat" where
  "denied_rank r = (case r of DeniedTenantMismatch \<Rightarrow> 1 | DeniedOwnerMismatch \<Rightarrow> 2
     | DeniedWorkspaceMissing \<Rightarrow> 3 | DeniedWorkspaceRole \<Rightarrow> 4 | _ \<Rightarrow> 5)"

definition mergeDenied :: "denied_reason \<Rightarrow> denied_reason \<Rightarrow> denied_reason" where
  "mergeDenied a b =
     (if a = DeniedOther \<or> b = DeniedOther then DeniedOther
      else if a = DeniedNone then b
      else if b = DeniedNone then a
      else if denied_rank b < denied_rank a then b
      else a)"

definition reasonOr :: "denied_reason \<Rightarrow> reason_code \<Rightarrow> reason_code" where
  "reasonOr d fallback = (case d of
       DeniedTenantMismatch \<Rightarrow> ReasonTenantMismatch
     | DeniedOwnerMismatch \<Rightarrow> ReasonOwnerMismatch
     | DeniedWorkspaceMissing \<Rightarrow> ReasonWorkspaceMembershipMiss
     | DeniedWorkspaceRole \<Rightarrow> ReasonWorkspaceRoleDenied
     | _ \<Rightarrow> fallback)"

text \<open>
  Merging is the minimum of a linear order: \<open>DeniedOther\<close> absorbs, \<open>DeniedNone\<close> is neutral and
  the others follow the documented precedence. So the merged reason does not depend on the order
  in which grants are scanned.
\<close>

instantiation denied_reason :: linorder
begin

definition denied_key :: "denied_reason \<Rightarrow> nat" where
  "denied_key d = (case d of DeniedOther \<Rightarrow> 0 | DeniedNone \<Rightarrow> 6 | _ \<Rightarrow> denied_rank d)"

definition less_eq_denied_reason :: "denied_reason \<Rightarrow> denied_reason \<Rightarrow> bool" where
  "less_eq_denied_reason a b = (denied_key a \<le> denied_key b)"

definition less_denied_reason :: "denied_reason \<Rightarrow> denied_reason \<Rightarrow> bool" where
  "less_denied_reason a b = (denied_key a < denied_key b)"

instance
proof
  fix a b :: denied_reason
  show "a \<le> b \<Longrightarrow> b \<le> a \<Longrightarrow> a = b"
    by (cases a; cases b) (simp_all add: less_eq_denied_reason_def denied_key_def denied_rank_def)
qed (auto simp: less_eq_denied_reason_def less_denied_reason_def)

end

lemma mergeDenied_min: "mergeDenied a b = min a b"
  by (cases a; cases b)
    (simp_all add: mergeDenied_def min_def less_eq_denied_reason_def denied_key_def denied_rank_def)

section \<open>The membership snapshot\<close>

record membership_snapshot =
  ms_loaded :: bool
  ms_membership :: workspace_membership
  ms_member :: bool

definition empty_snapshot :: membership_snapshot where
  "empty_snapshot = \<lparr>ms_loaded = False, ms_membership = \<lparr>wm_role = []\<rparr>, ms_member = False\<rparr>"

definition snapshot_load ::
  "'m membership_reader \<Rightarrow> check_request \<Rightarrow> membership_snapshot \<Rightarrow> 'm
     \<Rightarrow> (error + membership_snapshot) \<times> 'm" where
  "snapshot_load reader request s m =
     (if ms_loaded s then (Inr s, m)
      else case reader (pr_tenant (cq_principal request)) (rc_workspace (cq_resource request))
                  (pr_subject (cq_principal request)) m of
        (Inl e, m') \<Rightarrow>
          if e \<noteq> ErrNotFound then (Inl e, m')
          else (Inr \<lparr>ms_loaded = True, ms_membership = \<lparr>wm_role = []\<rparr>, ms_member = False\<rparr>, m')
      | (Inr membership, m') \<Rightarrow>
          (Inr \<lparr>ms_loaded = True, ms_membership = membership, ms_member = True\<rparr>, m'))"

section \<open>Evaluation of one grant\<close>

definition needs_workspace :: "check_request \<Rightarrow> effective_grant \<Rightarrow> bool" where
  "needs_workspace request grant = (eg_scope grant = ScopeWorkspace \<and>
     cq_mode request \<noteq> ResourceTenantAction \<and> rc_workspace (cq_resource request) \<noteq> [])"

definition denial :: "check_request \<Rightarrow> scope \<Rightarrow> bool \<Rightarrow> denied_reason" where
  "denial request sc member =
     (if cross_tenant request then DeniedTenantMismatch
      else if cq_mode request = ResourceTenantAction then DeniedOther
      else if sc = ScopeOwn then DeniedOwnerMismatch
      else if sc = ScopeWorkspace then
        (if \<not> member then DeniedWorkspaceMissing else DeniedWorkspaceRole)
      else DeniedOther)"

definition evaluate ::
  "'m authorizer \<Rightarrow> check_request \<Rightarrow> effective_grant \<Rightarrow> membership_snapshot \<Rightarrow> 'm
     \<Rightarrow> (error + bool \<times> denied_reason \<times> membership_snapshot) \<times> 'm" where
  "evaluate a request grant s m =
     (let (loaded, m') = (if needs_workspace request grant
                          then snapshot_load (au_memberships a) request s m else (Inr s, m))
      in case loaded of
           Inl e \<Rightarrow> (Inl e, m')
         | Inr s' \<Rightarrow>
             if allowAccess (au_orbit a) request grant (ms_membership s') (ms_member s')
             then (Inr (True, DeniedNone, s'), m')
             else (Inr (False, denial request (eg_scope grant) (ms_member s'), s'), m'))"

section \<open>The scan\<close>

datatype scan_result = ScanError error | ScanAllowed scope | ScanDenied denied_reason

text \<open>The inner loop over the grants of one scope; \<open>denied\<close> is the merged reason so far.\<close>

fun scan_grants ::
  "'m authorizer \<Rightarrow> check_request \<Rightarrow> scope \<Rightarrow> effective_grant list \<Rightarrow> denied_reason
     \<Rightarrow> membership_snapshot \<Rightarrow> 'm \<Rightarrow> scan_result \<times> membership_snapshot \<times> 'm" where
  "scan_grants a request sc [] denied s m = (ScanDenied denied, s, m)"
| "scan_grants a request sc (g # gs) denied s m =
     (if eg_scope g \<noteq> sc then scan_grants a request sc gs denied s m
      else case evaluate a request g s m of
        (Inl e, m') \<Rightarrow> (ScanError e, s, m')
      | (Inr (allowed, reason, s'), m') \<Rightarrow>
          if allowed then (ScanAllowed sc, s', m')
          else scan_grants a request sc gs (mergeDenied denied reason) s' m')"

text \<open>The outer loop over the scopes; \<open>best\<close> is \<open>bestDenied\<close>.\<close>

fun scan_scopes ::
  "'m authorizer \<Rightarrow> check_request \<Rightarrow> effective_grant list \<Rightarrow> scope list \<Rightarrow> denied_reason
     \<Rightarrow> membership_snapshot \<Rightarrow> 'm \<Rightarrow> scan_result \<times> 'm" where
  "scan_scopes a request gs [] best s m = (ScanDenied best, m)"
| "scan_scopes a request gs (sc # scs) best s m =
     (case scan_grants a request sc gs DeniedNone s m of
        (ScanError e, s', m') \<Rightarrow> (ScanError e, m')
      | (ScanAllowed sc', s', m') \<Rightarrow> (ScanAllowed sc', m')
      | (ScanDenied d, s', m') \<Rightarrow> scan_scopes a request gs scs (mergeDenied best d) s' m')"

definition deny :: "reason_code \<Rightarrow> decision" where
  "deny r = \<lparr>dc_allowed = False, dc_reason = r, dc_scope = []\<rparr>"

definition allow :: "scope \<Rightarrow> decision" where
  "allow s = \<lparr>dc_allowed = True, dc_reason = ReasonAllowed, dc_scope = s\<rparr>"

lemma decision_simps [simp]:
  "dc_allowed (deny r) = False" "dc_reason (deny r) = r" "dc_allowed (allow s)"
  "dc_reason (allow s) = ReasonAllowed" "dc_scope (allow s) = s" "dc_scope (deny r) = []"
  by (simp_all add: deny_def allow_def)

definition Check :: "'m authorizer \<Rightarrow> check_request \<Rightarrow> 'm \<Rightarrow> (decision \<times> error option) \<times> 'm" where
  "Check a request m =
     (if validateRequest (au_catalog a) request \<noteq> Inr () then ((deny ReasonInvalidRequest, None), m)
      else if cross_tenant request then ((deny ReasonTenantMismatch, None), m)
      else case au_policies a (pr_tenant (cq_principal request)) (pr_subject (cq_principal request))
                  (cq_permission request) of
        Inl e \<Rightarrow> ((deny ReasonDependencyUnavailable, Some e), m)
      | Inr grants \<Rightarrow>
          if echeck (\<lambda>g. validateEffectiveGrant g (cq_permission request)) grants \<noteq> Inr ()
          then ((deny ReasonInvalidPolicy, None), m)
          else case scan_scopes a request grants [ScopeTenant, ScopeWorkspace, ScopeOwn]
                      DeniedNone empty_snapshot m of
              (ScanError e, m') \<Rightarrow> ((deny ReasonDependencyUnavailable, Some e), m')
            | (ScanAllowed sc, m') \<Rightarrow> ((allow sc, None), m')
            | (ScanDenied d, m') \<Rightarrow> ((deny (reasonOr d ReasonPermissionNotGranted), None), m'))"

end
