(* ===== verification/AuthorizerSpec.thy ===== *)
theory AuthorizerSpec
  imports Authorizer
begin

text \<open>
  The declarative specification of \<open>Authorizer.Check\<close> and the proof that the two nested loops with
  their lazily loaded membership snapshot compute it. The specification speaks of the set of
  loaded grants, so it also states that the decision does not depend on the order of the rows.
\<close>

section \<open>The specification\<close>

definition asks_membership :: "check_request \<Rightarrow> effective_grant set \<Rightarrow> bool" where
  "asks_membership request G = (\<exists>g \<in> G. needs_workspace request g)"

text \<open>The membership facts a check uses, from the reader's answer.\<close>

definition membership_facts ::
  "check_request \<Rightarrow> effective_grant set \<Rightarrow> error + workspace_membership
     \<Rightarrow> workspace_membership \<times> bool" where
  "membership_facts request G answer =
     (if asks_membership request G
      then (case answer of Inr w \<Rightarrow> (w, True) | Inl _ \<Rightarrow> (\<lparr>wm_role = []\<rparr>, False))
      else (\<lparr>wm_role = []\<rparr>, False))"

definition holds_scope :: "effective_grant set \<Rightarrow> scope \<Rightarrow> bool" where
  "holds_scope G sc = (\<exists>g \<in> G. eg_scope g = sc)"

definition allowed_in ::
  "orbit \<Rightarrow> check_request \<Rightarrow> effective_grant set \<Rightarrow> workspace_membership \<times> bool \<Rightarrow> scope \<Rightarrow> bool" where
  "allowed_in orbit request G facts sc =
     (\<exists>g \<in> G. eg_scope g = sc \<and> allowAccess orbit request g (fst facts) (snd facts))"

definition denial_reason :: "check_request \<Rightarrow> effective_grant set \<Rightarrow> bool \<Rightarrow> reason_code" where
  "denial_reason request G member =
     (if cq_mode request = ResourceTenantAction then ReasonPermissionNotGranted
      else if holds_scope G ScopeOwn then ReasonOwnerMismatch
      else if holds_scope G ScopeWorkspace then
        (if member then ReasonWorkspaceRoleDenied else ReasonWorkspaceMembershipMiss)
      else ReasonPermissionNotGranted)"

definition grants_spec ::
  "orbit \<Rightarrow> effective_grant set \<Rightarrow> error + workspace_membership \<Rightarrow> check_request
     \<Rightarrow> decision \<times> error option" where
  "grants_spec orbit G answer request =
     (let facts = membership_facts request G answer in
      if holds_scope G ScopeTenant then (allow ScopeTenant, None)
      else if asks_membership request G \<and> (\<exists>e. answer = Inl e \<and> e \<noteq> ErrNotFound)
        then (deny ReasonDependencyUnavailable, Some (projl answer))
      else if allowed_in orbit request G facts ScopeWorkspace then (allow ScopeWorkspace, None)
      else if allowed_in orbit request G facts ScopeOwn then (allow ScopeOwn, None)
      else (deny (denial_reason request G (snd facts)), None))"

definition check_spec ::
  "orbit \<Rightarrow> catalog \<Rightarrow> error + effective_grant set \<Rightarrow> error + workspace_membership \<Rightarrow> check_request
     \<Rightarrow> decision \<times> error option" where
  "check_spec orbit catalog policies answer request =
     (if validateRequest catalog request \<noteq> Inr () then (deny ReasonInvalidRequest, None)
      else if cross_tenant request then (deny ReasonTenantMismatch, None)
      else case policies of
        Inl e \<Rightarrow> (deny ReasonDependencyUnavailable, Some e)
      | Inr G \<Rightarrow>
          if \<exists>g \<in> G. \<not> good_grant (cq_permission request) g then (deny ReasonInvalidPolicy, None)
          else grants_spec orbit G answer request)"

text \<open>What the policy and membership readers answer for a request.\<close>

definition loaded_policies :: "'m authorizer \<Rightarrow> check_request \<Rightarrow> error + effective_grant list" where
  "loaded_policies a request = au_policies a (pr_tenant (cq_principal request))
     (pr_subject (cq_principal request)) (cq_permission request)"

definition membership_call ::
  "'m authorizer \<Rightarrow> check_request \<Rightarrow> 'm \<Rightarrow> (error + workspace_membership) \<times> 'm" where
  "membership_call a request m = au_memberships a (pr_tenant (cq_principal request))
     (rc_workspace (cq_resource request)) (pr_subject (cq_principal request)) m"

section \<open>The scan\<close>

lemma evaluate_pure:
  assumes "\<not> needs_workspace request g \<or> ms_loaded s"
  shows "evaluate a request g s m =
    (if allowAccess (au_orbit a) request g (ms_membership s) (ms_member s)
     then (Inr (True, DeniedNone, s), m)
     else (Inr (False, denial request (eg_scope g) (ms_member s), s), m))"
  using assms by (auto simp: evaluate_def snapshot_load_def)

lemma mergeDenied_absorb: "mergeDenied (mergeDenied d r) r = mergeDenied d r"
  by (simp add: mergeDenied_min)

lemma scan_grants_pure:
  assumes "\<forall>g \<in> set gs. eg_scope g = sc \<longrightarrow> \<not> needs_workspace request g \<or> ms_loaded s"
  shows "scan_grants a request sc gs d s m =
    (if allowed_in (au_orbit a) request (set gs) (ms_membership s, ms_member s) sc
     then (ScanAllowed sc, s, m)
     else (ScanDenied (if holds_scope (set gs) sc
                       then mergeDenied d (denial request sc (ms_member s)) else d), s, m))"
  using assms
proof (induction gs arbitrary: d)
  case Nil
  then show ?case by (simp add: allowed_in_def holds_scope_def)
next
  case (Cons g gs)
  show ?case
  proof (cases "eg_scope g = sc")
    case False
    with Cons show ?thesis by (simp add: allowed_in_def holds_scope_def)
  next
    case True
    with Cons.prems have "\<not> needs_workspace request g \<or> ms_loaded s" by simp
    with True Cons show ?thesis
      by (simp add: evaluate_pure allowed_in_def holds_scope_def mergeDenied_absorb)
  qed
qed

lemma evaluate_load:
  assumes "needs_workspace request g" and "\<not> ms_loaded s"
  shows "evaluate a request g s m =
    (case snapshot_load (au_memberships a) request s m of
       (Inl e, m') \<Rightarrow> (Inl e, m') | (Inr s', m') \<Rightarrow> evaluate a request g s' m')"
  using assms
  by (auto simp: evaluate_def snapshot_load_def Let_def split: prod.splits sum.splits)

lemma snapshot_load_loaded: "snapshot_load reader request s m = (Inr s', m') \<Longrightarrow> ms_loaded s'"
  by (auto simp: snapshot_load_def split: if_splits prod.splits sum.splits)

lemma scan_grants_load:
  assumes "\<not> ms_loaded s"
    and "\<forall>g \<in> set gs. eg_scope g = ScopeWorkspace \<longrightarrow> needs_workspace request g"
    and "holds_scope (set gs) ScopeWorkspace"
  shows "scan_grants a request ScopeWorkspace gs d s m =
    (case snapshot_load (au_memberships a) request s m of
       (Inl e, m') \<Rightarrow> (ScanError e, s, m')
     | (Inr s', m') \<Rightarrow> scan_grants a request ScopeWorkspace gs d s' m')"
  using assms(2,3)
proof (induction gs)
  case Nil
  then show ?case by (simp add: holds_scope_def)
next
  case (Cons g gs)
  show ?case
  proof (cases "eg_scope g = ScopeWorkspace")
    case False
    with Cons show ?thesis by (simp add: holds_scope_def split: prod.splits sum.splits)
  next
    case True
    with Cons.prems have "needs_workspace request g" by simp
    obtain r m' where load: "snapshot_load (au_memberships a) request s m = (r, m')"
      by (cases "snapshot_load (au_memberships a) request s m")
    show ?thesis
    proof (cases r)
      case (Inl e)
      with True load \<open>needs_workspace request g\<close> show ?thesis
        by (simp add: evaluate_load [OF _ assms(1)])
    next
      case (Inr s')
      with load have "ms_loaded s'" by (simp add: snapshot_load_loaded)
      with True load Inr \<open>needs_workspace request g\<close> show ?thesis
        by (simp add: evaluate_load [OF _ assms(1)] evaluate_pure)
    qed
  qed
qed

lemma snapshot_load_result:
  assumes "\<not> ms_loaded s" and "membership_call a request m = (ans, m')"
  shows "snapshot_load (au_memberships a) request s m =
    (case ans of
       Inl e \<Rightarrow> (if e \<noteq> ErrNotFound then (Inl e, m')
                else (Inr \<lparr>ms_loaded = True, ms_membership = \<lparr>wm_role = []\<rparr>, ms_member = False\<rparr>, m'))
     | Inr w \<Rightarrow> (Inr \<lparr>ms_loaded = True, ms_membership = w, ms_member = True\<rparr>, m'))"
  using assms by (simp add: snapshot_load_def membership_call_def split: sum.splits)

text \<open>One scope phase, with the snapshot it leaves.\<close>

lemma allowed_in_tenant:
  assumes "\<not> cross_tenant request" and "\<forall>g \<in> G. eg_permission g = cq_permission request"
  shows "allowed_in orbit request G facts ScopeTenant = holds_scope G ScopeTenant"
  using assms by (auto simp: allowed_in_def holds_scope_def allowAccess_def)

lemma allowed_in_own_facts:
  "allowed_in orbit request G facts ScopeOwn = allowed_in orbit request G facts' ScopeOwn"
  by (simp add: allowed_in_def allowAccess_def)

lemma scan_tenant_phase:
  assumes "\<not> cross_tenant request" and "\<forall>g \<in> set gs. eg_permission g = cq_permission request"
  shows "scan_grants a request ScopeTenant gs d s m =
    (if holds_scope (set gs) ScopeTenant then (ScanAllowed ScopeTenant, s, m)
     else (ScanDenied d, s, m))"
  using assms by (subst scan_grants_pure) (auto simp: needs_workspace_def allowed_in_tenant)

lemma scan_own_phase:
  "scan_grants a request ScopeOwn gs d s m =
    (if allowed_in (au_orbit a) request (set gs) facts ScopeOwn then (ScanAllowed ScopeOwn, s, m)
     else (ScanDenied (if holds_scope (set gs) ScopeOwn
                       then mergeDenied d (denial request ScopeOwn (ms_member s)) else d), s, m))"
  by (subst scan_grants_pure)
    (auto simp: needs_workspace_def allowed_in_own_facts [of _ _ _ "(_, _)" facts])

lemma asks_membership_iff:
  "asks_membership request G \<longleftrightarrow> holds_scope G ScopeWorkspace \<and>
     cq_mode request \<noteq> ResourceTenantAction \<and> rc_workspace (cq_resource request) \<noteq> []"
  by (auto simp: asks_membership_def holds_scope_def needs_workspace_def)

definition loaded_snapshot :: "check_request \<Rightarrow> effective_grant set \<Rightarrow> error + workspace_membership
    \<Rightarrow> membership_snapshot" where
  "loaded_snapshot request G answer =
     (let (w, member) = membership_facts request G answer
      in \<lparr>ms_loaded = asks_membership request G, ms_membership = w, ms_member = member\<rparr>)"

lemma scan_workspace_phase:
  assumes "membership_call a request m = (ans, m')"
  shows "scan_grants a request ScopeWorkspace gs d empty_snapshot m =
    (if asks_membership request (set gs) \<and> (\<exists>e. ans = Inl e \<and> e \<noteq> ErrNotFound)
     then (ScanError (projl ans), empty_snapshot, m')
     else
       let s' = loaded_snapshot request (set gs) ans;
           m2 = (if asks_membership request (set gs) then m' else m) in
       (if allowed_in (au_orbit a) request (set gs) (membership_facts request (set gs) ans) ScopeWorkspace
        then (ScanAllowed ScopeWorkspace, s', m2)
        else (ScanDenied (if holds_scope (set gs) ScopeWorkspace
                then mergeDenied d (denial request ScopeWorkspace (ms_member s')) else d), s', m2)))"
proof (cases "asks_membership request (set gs)")
  case False
  then have "\<forall>g \<in> set gs. eg_scope g = ScopeWorkspace \<longrightarrow>
      \<not> needs_workspace request g \<or> ms_loaded empty_snapshot"
    by (auto simp: asks_membership_def)
  with False show ?thesis
    by (subst scan_grants_pure)
      (simp_all add: membership_facts_def empty_snapshot_def loaded_snapshot_def)
next
  case True
  let ?ls = "\<lparr>ms_loaded = True, ms_membership = fst (membership_facts request (set gs) ans),
      ms_member = snd (membership_facts request (set gs) ans)\<rparr>"
  from True have "\<forall>g \<in> set gs. eg_scope g = ScopeWorkspace \<longrightarrow> needs_workspace request g"
    and "holds_scope (set gs) ScopeWorkspace"
    by (auto simp: asks_membership_iff needs_workspace_def)
  then have "scan_grants a request ScopeWorkspace gs d empty_snapshot m =
    (case snapshot_load (au_memberships a) request empty_snapshot m of
       (Inl e, m') \<Rightarrow> (ScanError e, empty_snapshot, m')
     | (Inr s', m') \<Rightarrow> scan_grants a request ScopeWorkspace gs d s' m')"
    by (intro scan_grants_load) (simp_all add: empty_snapshot_def)
  also have "snapshot_load (au_memberships a) request empty_snapshot m =
    (if \<exists>e. ans = Inl e \<and> e \<noteq> ErrNotFound then (Inl (projl ans), m') else (Inr ?ls, m'))"
    using True by (subst snapshot_load_result [OF _ assms])
      (auto simp: empty_snapshot_def membership_facts_def split: sum.splits)
  finally show ?thesis
    using True
    by (auto simp: loaded_snapshot_def scan_grants_pure split: prod.splits)
qed

section \<open>Refinement\<close>

lemma denial_merge:
  assumes "\<not> cross_tenant request" and "\<not> holds_scope G ScopeTenant" and "\<forall>g \<in> G. known_scope (eg_scope g)"
  shows "reasonOr
     (mergeDenied
       (mergeDenied DeniedNone
         (if holds_scope G ScopeWorkspace
          then mergeDenied DeniedNone (denial request ScopeWorkspace member) else DeniedNone))
       (if holds_scope G ScopeOwn
        then mergeDenied DeniedNone (denial request ScopeOwn member') else DeniedNone))
     ReasonPermissionNotGranted = denial_reason request G member"
  using assms(1)
  by (simp add: mergeDenied_def denial_def denial_reason_def reasonOr_def denied_rank_def)

lemma scan_scopes_spec:
  assumes "\<not> cross_tenant request" and "\<forall>g \<in> set gs. good_grant (cq_permission request) g"
    and "membership_call a request m = (ans, m')"
  shows "scan_scopes a request gs [ScopeTenant, ScopeWorkspace, ScopeOwn] DeniedNone empty_snapshot m =
    (let G = set gs; facts = membership_facts request G ans;
         m2 = (if asks_membership request G then m' else m) in
     if holds_scope G ScopeTenant then (ScanAllowed ScopeTenant, m)
     else if asks_membership request G \<and> (\<exists>e. ans = Inl e \<and> e \<noteq> ErrNotFound)
       then (ScanError (projl ans), m')
     else if allowed_in (au_orbit a) request G facts ScopeWorkspace then (ScanAllowed ScopeWorkspace, m2)
     else if allowed_in (au_orbit a) request G facts ScopeOwn then (ScanAllowed ScopeOwn, m2)
     else (ScanDenied (mergeDenied
       (mergeDenied DeniedNone
         (if holds_scope G ScopeWorkspace
          then mergeDenied DeniedNone (denial request ScopeWorkspace (snd facts)) else DeniedNone))
       (if holds_scope G ScopeOwn
        then mergeDenied DeniedNone (denial request ScopeOwn (snd facts)) else DeniedNone)), m2))"
proof -
  have perm: "\<forall>g \<in> set gs. eg_permission g = cq_permission request"
    using assms(2) by (auto simp: good_grant_def)
  have ms: "ms_member (loaded_snapshot request (set gs) ans) = snd (membership_facts request (set gs) ans)"
    by (simp add: loaded_snapshot_def split: prod.splits)
  show ?thesis
    by (auto simp: scan_tenant_phase [OF assms(1) perm] scan_workspace_phase [OF assms(3)]
        scan_own_phase [of _ _ _ _ _ _ "membership_facts request (set gs) ans"] Let_def ms mergeDenied_min)
qed

lemma Check_spec_eq:
  "fst (Check a request m) =
     check_spec (au_orbit a) (au_catalog a) (map_sum id set (loaded_policies a request))
       (fst (membership_call a request m)) request"
proof (cases "validateRequest (au_catalog a) request = Inr () \<and> \<not> cross_tenant request")
  case False
  then show ?thesis by (auto simp: Check_def check_spec_def)
next
  case True
  show ?thesis
  proof (cases "loaded_policies a request")
    case (Inl e)
    with True show ?thesis by (simp add: Check_def check_spec_def loaded_policies_def)
  next
    case (Inr gs)
    obtain ans m' where mc: "membership_call a request m = (ans, m')" by (cases "membership_call a request m")
    have ec: "echeck (\<lambda>g. validateEffectiveGrant g (cq_permission request)) gs \<noteq> Inr () \<longleftrightarrow>
        (\<exists>g \<in> set gs. \<not> good_grant (cq_permission request) g)"
      by (auto simp: echeck_Inr validateEffectiveGrant_cases)
    show ?thesis
    proof (cases "\<forall>g \<in> set gs. good_grant (cq_permission request) g")
      case False
      with True Inr ec show ?thesis by (simp add: Check_def check_spec_def loaded_policies_def)
    next
      case good: True
      have known: "\<forall>g \<in> set gs. known_scope (eg_scope g)" using good by (auto simp: good_grant_def)
      from True good Inr ec have "check_spec (au_orbit a) (au_catalog a)
          (map_sum id set (loaded_policies a request)) ans request =
          grants_spec (au_orbit a) (set gs) ans request"
        by (simp add: check_spec_def)
      moreover from True good Inr ec have "fst (Check a request m) =
          grants_spec (au_orbit a) (set gs) ans request"
        using scan_scopes_spec [OF _ good mc] denial_merge [OF _ _ known]
        by (auto simp: Check_def loaded_policies_def grants_spec_def Let_def)
      ultimately show ?thesis by (simp add: mc)
    qed
  qed
qed

text \<open>
  C3: \<open>Authorizer.Check\<close> refines the declarative decision \<open>check_spec\<close>. The lazily loaded
  membership snapshot, the validation of all grants before any is used, the scope precedence
  tenant, workspace, own and the merged denial reasons compute exactly the specified decision and
  error, and they depend only on the set of loaded grants, not on the order of the rows.
\<close>

theorem Check_refines_spec:
  "fst (Check a request m) =
     check_spec (au_orbit a) (au_catalog a) (map_sum id set (loaded_policies a request))
       (fst (membership_call a request m)) request"
  by (rule Check_spec_eq)

text \<open>
  An allowed decision is justified. Whenever \<open>Check\<close> answers \<open>allowed\<close>, it reports no error, the
  request is valid for the catalog, the resource does not name another tenant, every loaded grant
  is well-formed for the requested permission, and a loaded grant of the reported scope allows the
  request under the membership facts the reader returned.
\<close>

theorem Check_allowed_justified:
  assumes "dc_allowed (fst (fst (Check a request m)))"
  shows "snd (fst (Check a request m)) = None \<and>
    validateRequest (au_catalog a) request = Inr () \<and> \<not> cross_tenant request \<and>
    (\<exists>gs. loaded_policies a request = Inr gs \<and>
       list_all (good_grant (cq_permission request)) gs \<and>
       allowed_in (au_orbit a) request (set gs)
         (membership_facts request (set gs) (fst (membership_call a request m)))
         (dc_scope (fst (fst (Check a request m)))))"
proof -
  from assms have valid: "validateRequest (au_catalog a) request = Inr ()" "\<not> cross_tenant request"
    by (auto simp: Check_spec_eq check_spec_def split: if_splits)
  with assms obtain gs where gs: "loaded_policies a request = Inr gs"
    by (cases "loaded_policies a request") (auto simp: Check_spec_eq check_spec_def)
  with valid assms have good: "\<forall>g \<in> set gs. good_grant (cq_permission request) g"
    by (auto simp: Check_spec_eq check_spec_def split: if_splits)
  then have "\<forall>g \<in> set gs. eg_permission g = cq_permission request" by (simp add: good_grant_def)
  then have tenant: "allowed_in orbit request (set gs) facts ScopeTenant = holds_scope (set gs) ScopeTenant"
    for orbit facts using allowed_in_tenant valid(2) by blast
  have spec: "fst (Check a request m) = grants_spec (au_orbit a) (set gs) (fst (membership_call a request m)) request"
    using valid gs good by (auto simp: Check_spec_eq check_spec_def)
  show ?thesis
    using assms valid gs good tenant
    by (auto simp: spec grants_spec_def Let_def list_all_iff split: if_splits)
qed

lemma demo_key: "good_key ''a:b:c''"
proof -
  have "good_segment [c]" if "lower (byte c)" for c
    using that by (simp add: good_segment_def key_char_def)
  then have "good_segment ''a'' \<and> good_segment ''b'' \<and> good_segment ''c''"
    by (simp add: lower_def)
  then show ?thesis unfolding good_key_def
    by (intro exI [of _ "''a''"] exI [of _ "''b''"] exI [of _ "''c''"]) simp
qed

lemma demo_ids: "valid_id ''t''" "valid_id ''s''" "valid_id ''r''" "valid_id ''o''" "valid_id ''w''"
  by (rule valid_id_ascii; simp)+

definition demo_authorizer :: "unit authorizer" where
  "demo_authorizer = \<lparr>au_catalog = [(''a:b:c'', \<lparr>pd_key = ''a:b:c'', pd_description = ''''\<rparr>)],
     au_policies = (\<lambda>_ _ p. Inr [\<lparr>eg_role = ''r'', eg_permission = p, eg_scope = ScopeTenant,
       eg_workspace_roles = []\<rparr>]),
     au_memberships = (\<lambda>_ _ _ m. (Inl ErrNotFound, m)), au_orbit = (\<lambda>_ _. False)\<rparr>"

definition demo_request :: check_request where
  "demo_request = \<lparr>cq_principal = \<lparr>pr_tenant = ''t'', pr_subject = ''s''\<rparr>, cq_permission = ''a:b:c'',
     cq_mode = ResourceExisting,
     cq_resource = \<lparr>rc_tenant = ''t'', rc_resource = ''r'', rc_owner = ''o'', rc_workspace = ''w''\<rparr>\<rparr>"

lemma demo_allowed: "fst (Check demo_authorizer demo_request ()) = (allow ScopeTenant, None)"
  by (simp add: Check_spec_eq check_spec_def demo_authorizer_def demo_request_def
      validateRequest_def validateOpaqueID_cases validatePermissionKey_cases demo_key demo_ids
      catalog_lookup_def map_get_def known_mode_def validateResourceContext_def optional_id_def
      cross_tenant_def loaded_policies_def good_grant_def grants_spec_def holds_scope_def)

theorem Check_allowed_justified_witness:
  "\<not> cross_tenant demo_request \<and>
   (\<exists>gs. loaded_policies demo_authorizer demo_request = Inr gs \<and>
      list_all (good_grant ''a:b:c'') gs)"
proof -
  have "dc_allowed (fst (fst (Check demo_authorizer demo_request ())))" by (simp add: demo_allowed)
  from Check_allowed_justified [OF this] show ?thesis by (auto simp: demo_request_def)
qed

section \<open>One membership read per check\<close>

definition reads_membership :: "'m authorizer \<Rightarrow> check_request \<Rightarrow> bool" where
  "reads_membership a request =
     (validateRequest (au_catalog a) request = Inr () \<and> \<not> cross_tenant request \<and>
      (case loaded_policies a request of
         Inl _ \<Rightarrow> False
       | Inr gs \<Rightarrow> list_all (good_grant (cq_permission request)) gs \<and>
           \<not> holds_scope (set gs) ScopeTenant \<and> asks_membership request (set gs)))"

lemma Check_reader_state:
  "snd (Check a request m) =
     (if reads_membership a request then snd (membership_call a request m) else m)"
proof (cases "validateRequest (au_catalog a) request = Inr () \<and> \<not> cross_tenant request")
  case False
  then show ?thesis by (auto simp: Check_def reads_membership_def)
next
  case True
  obtain ans m' where mc: "membership_call a request m = (ans, m')" by (cases "membership_call a request m")
  show ?thesis
  proof (cases "loaded_policies a request")
    case (Inl e)
    with True show ?thesis by (simp add: Check_def reads_membership_def loaded_policies_def)
  next
    case (Inr gs)
    have ec: "echeck (\<lambda>g. validateEffectiveGrant g (cq_permission request)) gs = Inr () \<longleftrightarrow>
        list_all (good_grant (cq_permission request)) gs"
      by (auto simp: echeck_Inr validateEffectiveGrant_cases list_all_iff split: if_splits)
    show ?thesis
    proof (cases "list_all (good_grant (cq_permission request)) gs")
      case False
      with True Inr ec show ?thesis by (simp add: Check_def reads_membership_def loaded_policies_def)
    next
      case good: True
      then have "\<forall>g \<in> set gs. good_grant (cq_permission request) g" by (simp add: list_all_iff)
      from scan_scopes_spec [OF _ this mc] True Inr good ec show ?thesis
        by (auto simp: Check_def reads_membership_def loaded_policies_def mc Let_def split: prod.splits)
    qed
  qed
qed

text \<open>
  One \<open>Check\<close> consults the workspace membership reader at most once, however many workspace
  grants it evaluates, and only when it must: for a valid same-tenant request with well-formed
  grants, no tenant grant and a workspace grant that needs the facts. The reader's state after the
  check is the state after that single call, or unchanged.
\<close>

theorem Check_single_membership_read:
  "snd (Check a request m) =
     (if reads_membership a request then snd (membership_call a request m) else m)"
  by (rule Check_reader_state)

text \<open>
  The Unicode folding table behind \<open>EqualFold\<close> cannot influence a decision. Stored workspace
  role constraints are validated to be lower-case ASCII before they are compared, so two
  authorizers that differ only in that table give the same decision, error and reads.
\<close>

theorem Check_orbit_irrelevant:
  "Check (a\<lparr>au_orbit := orbit'\<rparr>) request m = Check a request m"
proof (rule prod_eqI)
  have ai: "allowed_in orbit' request G facts sc = allowed_in (au_orbit a) request G facts sc"
    if good: "\<forall>g \<in> G. good_grant (cq_permission request) g" for G facts sc
  proof -
    have "allowAccess orbit' request g (fst facts) (snd facts) =
        allowAccess (au_orbit a) request g (fst facts) (snd facts)" if "g \<in> G" for g
      using that good workspaceRoleMatch_orbit [of "eg_workspace_roles g" orbit' _ "au_orbit a"]
      by (auto simp: allowAccess_def good_grant_def)
    then show ?thesis by (auto simp: allowed_in_def)
  qed
  show "fst (Check (a\<lparr>au_orbit := orbit'\<rparr>) request m) = fst (Check a request m)"
    by (auto simp: Check_spec_eq check_spec_def loaded_policies_def membership_call_def
        grants_spec_def Let_def ai split: sum.splits)
  show "snd (Check (a\<lparr>au_orbit := orbit'\<rparr>) request m) = snd (Check a request m)"
    by (simp add: Check_reader_state reads_membership_def loaded_policies_def
        membership_call_def)
qed

end
