(* ===== verification/Demo.thy ===== *)
theory Demo
  imports Kernel AuthorizerSpec
begin

text \<open>
  The concrete tenant the witnesses run on: bootstrapped with one owner who holds the three control
  permissions, and the calls made on it.
\<close>

lemma tenant_frame_self:
  "tenant_inv m t s \<Longrightarrow> tenant_frame (ts_purged s) (ts_purge_ledger s) s"
  by (simp add: tenant_inv_def tenant_frame_def)

section \<open>A concrete tenant\<close>

definition demo_manager :: manager where
  "demo_manager = \<lparr>mg_catalog =
       [(''a:b:c'', \<lparr>pd_key = ''a:b:c'', pd_description = []\<rparr>),
        (''a:b:d'', \<lparr>pd_key = ''a:b:d'', pd_description = []\<rparr>),
        (''a:b:e'', \<lparr>pd_key = ''a:b:e'', pd_description = []\<rparr>)],
     mg_controls = \<lparr>cp_manage_roles = ''a:b:c'', cp_manage_grants = ''a:b:d'', cp_assign_roles = ''a:b:e''\<rparr>\<rparr>"

definition demo_context :: go_context where
  "demo_context = \<lparr>gc_tenant = None, gc_err = (\<lambda>_. None)\<rparr>"

definition demo_clock :: clock where
  "demo_clock = (\<lambda>_. 0)"

definition demo_provenance :: host_provenance where
  "demo_provenance = \<lparr>hp_initiator = ''h'', hp_at = 0\<rparr>"

definition demo_meta :: mutation_metadata where
  "demo_meta = \<lparr>mm_request_id = ''q'', mm_reason_code = ''r''\<rparr>"

definition demo_input :: bootstrap_input where
  "demo_input = \<lparr>bi_tenant = ''t'', bi_owner = ''o'', bi_role = ''w'', bi_role_name = ''w'',
     bi_role_description = [],
     bi_grants = map (\<lambda>p. \<lparr>rg_role = ''w'', rg_permission = p, rg_scope = ScopeTenant, rg_workspace_roles = []\<rparr>)
       [''a:b:c'', ''a:b:d'', ''a:b:e''], bi_metadata = demo_meta\<rparr>"

definition demo_actor :: principal where
  "demo_actor = \<lparr>pr_tenant = ''t'', pr_subject = ''o''\<rparr>"

lemma demo_keys: "good_key ''a:b:c''" "good_key ''a:b:d''" "good_key ''a:b:e''"
proof -
  have "good_segment [c]" if "lower (byte c)" for c
    using that by (simp add: good_segment_def key_char_def)
  then have s: "good_segment ''a''" "good_segment ''b''" "good_segment ''c''" "good_segment ''d''" "good_segment ''e''"
    by (simp_all add: lower_def)
  have "good_key (''a:b:'' @ w)" if "good_segment w" for w
    unfolding good_key_def using s(1,2) that by (intro exI [of _ "''a''"] exI [of _ "''b''"] exI [of _ w]) simp
  from this [of "''c''"] this [of "''d''"] this [of "''e''"] s
  show "good_key ''a:b:c''" "good_key ''a:b:d''" "good_key ''a:b:e''" by simp_all
qed

lemma demo_valid: "validateBootstrapInput demo_input = Inr ()"
  by (simp add: validateBootstrapInput_def demo_input_def demo_meta_def validateOpaqueID_cases demo_ids
     validateRoleName_def trim_space_solid is_space_def runes_ascii control_rune_def)

definition demo_grants :: "(string, role_permission_grant) gomap" where
  "demo_grants = map (\<lambda>g. (owner_key (rg_permission g) (rg_scope g), g)) (bi_grants demo_input)"

lemma demo_owner_grants:
  "efold (owner_grant (mg_catalog demo_manager) (bi_role demo_input)) (bi_grants demo_input) [] = Inr demo_grants"
  by (simp add: demo_input_def demo_grants_def demo_manager_def owner_grant_def validatePermissionKey_cases demo_keys
    catalog_lookup_def map_get_def normalizeWorkspaceRoles_def map_put_def owner_key_def)

lemma demo_controls: "has_controls (mg_controls demo_manager) demo_grants = Inr ()"
  by (simp add: has_controls_def demo_grants_def demo_manager_def demo_input_def)

definition demo_role :: role where
  "demo_role = \<lparr>ro_tenant = ''t'', ro_id = ''w'', ro_name = ''w'', ro_description = [], ro_version = 1, ro_deleted = False\<rparr>"

lemma demo_owner_role: "owner_role demo_input = demo_role"
  by (simp add: owner_role_def demo_input_def demo_role_def trim_space_solid is_space_def)

lemma demo_tx: "bootstrap_tx memory_tx demo_clock demo_provenance demo_input demo_role (map snd demo_grants) newTenantState =
  Inr ((), newTenantState\<lparr>ts_roles := [(''w'', demo_role)],
     ts_role_perms := [(''w'', map (\<lambda>g. (grant_key_of g, g)) (bi_grants demo_input))],
     ts_subject_roles := [(''o'', [(''w'', owner_binding demo_clock demo_input)])],
     ts_role_versions := [(''w'', [(1, bootstrap_snapshot demo_clock demo_provenance demo_input demo_role (bi_grants demo_input))])],
     ts_audit := [bootstrap_event demo_clock demo_provenance demo_input],
     ts_bootstrapped := True, ts_bootstrap_provenance := demo_provenance\<rparr>)"
  by (simp add: demo_grants_def bootstrap_tx_def memory_tx_def mem_is_bootstrapped_def mem_insert_role_def demo_role_def
    mem_insert_role_permission_grant_def grant_key_of_def sub_map_def mem_insert_subject_role_grant_def owner_binding_def
   mem_insert_role_version_def bootstrap_snapshot_def mem_insert_mutation_audit_def mem_mark_bootstrapped_def
   newTenantState_def map_get_def map_put_def demo_input_def)

definition demo_tenant :: tenant_state where
  "demo_tenant = newTenantState\<lparr>ts_roles := [(''w'', demo_role)],
     ts_role_perms := [(''w'', map (\<lambda>g. (grant_key_of g, g)) (bi_grants demo_input))],
     ts_subject_roles := [(''o'', [(''w'', owner_binding demo_clock demo_input)])],
     ts_role_versions := [(''w'', [(1, bootstrap_snapshot demo_clock demo_provenance demo_input demo_role (bi_grants demo_input))])],
     ts_audit := [bootstrap_event demo_clock demo_provenance demo_input],
     ts_bootstrapped := True, ts_bootstrap_provenance := demo_provenance\<rparr>"

definition demo_store :: store where
  "demo_store = [(''t'', demo_tenant)]"

lemma demo_poll [simp]: "poll demo_context i = Inr ()"
  by (simp add: poll_def demo_context_def)

lemma demo_bootstrap:
  "BootstrapTenant demo_manager memory_tx (mutator_of demo_context) (\<lambda>_. Inr demo_provenance) demo_clock
     demo_input NewStore = (Inr demo_role, demo_store)"
proof -
  have t: "bi_tenant demo_input = ''t''" by (simp add: demo_input_def)
  have "mutator_of demo_context ''t'' (bootstrap_tx memory_tx demo_clock demo_provenance demo_input demo_role
      (map snd demo_grants)) NewStore = (Inr (), demo_store)"
    by (simp add: mutator_of_def MutateTenant_def validateOpaqueID_cases demo_ids store_tenant_def NewStore_def
        map_get_def cloneTenantState_id demo_tx demo_store_def demo_tenant_def map_put_def)
      (simp add: newTenantState_def)
  then show ?thesis
    by (simp add: BootstrapTenant_def demo_valid demo_owner_grants demo_controls demo_owner_role t)
qed

lemma demo_run: "kernel_run demo_manager sink (NewStore, a) (demo_store, a)"
  unfolding kernel_run_def by (rule r_into_rtranclp, rule exI, rule kernel_step.bootstrap, rule demo_bootstrap)

lemma demo_store_inv: "store_inv demo_manager demo_store"
  using kernel_run_inv [OF demo_run store_inv_new] .

lemma demo_tenant_of: "tenant_of demo_store ''t'' = demo_tenant" "policy_of demo_store ''t'' = tenant_view demo_tenant"
  by (simp_all add: policy_of_def tenant_of_def demo_store_def map_get_def)

lemma demo_tenant_inv: "tenant_inv demo_manager ''t'' demo_tenant"
  using demo_store_inv demo_tenant_of by (simp add: store_inv_def) metis

lemma demo_tenant_ok: "tenant_state_ok demo_tenant" "policy_ok demo_manager ''t'' (tenant_view demo_tenant)"
  using demo_tenant_inv by (simp_all add: tenant_inv_def)

lemma demo_fields:
  "po_bootstrapped (tenant_view demo_tenant)" "po_roles (tenant_view demo_tenant) = [''w'' \<mapsto> demo_role]"
  "po_bindings (tenant_view demo_tenant) ''o'' = [''w'' \<mapsto> owner_binding demo_clock demo_input]"
  "\<not> ts_purged demo_tenant"
  by (simp_all add: demo_tenant_def newTenantState_def map_get_def sub_map_def fun_eq_iff)

lemma demo_owner:
  "bi_tenant demo_input = ''t'' \<and> bi_owner demo_input = ''o''"
  "bootstrap_step demo_manager ''t'' ''o'' empty_policy (tenant_view demo_tenant)"
proof -
  show ids: "bi_tenant demo_input = ''t'' \<and> bi_owner demo_input = ''o''" by (simp add: demo_input_def)
  from bootstrap_call_outcome [OF demo_bootstrap store_inv_new] ids demo_tenant_of
  show "bootstrap_step demo_manager ''t'' ''o'' empty_policy (tenant_view demo_tenant)"
    by (simp add: policy_of_def tenant_of_def NewStore_def newTenantState_view)
qed

lemma demo_holds: "holds_all_controls (tenant_view demo_tenant) (mg_controls demo_manager) ''o''"
  using bootstrap_policy_ok [OF demo_owner(2) policy_ok_empty] by simp

lemma demo_may:
  "c \<in> set (control_list (mg_controls demo_manager)) \<Longrightarrow> may_manage (tenant_view demo_tenant) (pr_subject demo_actor) c"
  using demo_holds
  by (fastforce simp: holds_all_controls_def may_manage_def may_def demo_actor_def exact_tenant effective_grants_def)

lemma demo_meta_ok: "validateMeta demo_meta = Inr ()"
  by (simp add: validateMeta_def demo_meta_def trim_space_solid is_space_def runes_ascii reason_rune_def lower_def)

lemma demo_actor_ok: "validActor demo_actor"
  by (simp add: validActor_iff demo_actor_def demo_ids)

definition demo_create :: create_role_input where
  "demo_create = \<lparr>ci_role = ''s'', ci_name = ''w'', ci_description = []\<rparr>"

lemma demo_create_call:
  "\<exists>st'. CreateRole demo_manager memory_tx (mutator_of demo_context) sink demo_clock demo_actor demo_meta
     demo_create demo_store a = (Inr (new_role demo_actor ''s'' ''w'' [], \<lparr>mr_changed = True, mr_role_version = 1\<rparr>), st', a)"
proof -
  let ?x = "new_role demo_actor ''s'' ''w'' []"
  let ?body = "createRole_tx demo_manager memory_tx demo_clock demo_actor demo_meta ?x"
  have id: "ro_id ?x = ''s''" by (simp add: new_role_def)
  have "verdict_of (?body demo_tenant) = create_verdict demo_manager demo_actor (ro_id ?x) [] (tenant_view demo_tenant)"
    by (rule framed.createRole_exact [OF tenant_frame_self [OF demo_tenant_inv] demo_tenant_ok(2)])
  also have "\<dots> = None"
    unfolding create_verdict_def id
    using demo_may [of "cp_manage_roles (mg_controls demo_manager)"] demo_fields(2)
    by (simp add: control_list_def del: tenant_view_simps)
  finally obtain s' where s': "?body demo_tenant = Inr ((), s')"
    by (cases "?body demo_tenant") (auto simp: verdict_of_def)
  have "mutator_of demo_context ''t'' ?body demo_store = (Inr (), map_put ''t'' s' demo_store)"
    using s' demo_fields(4)
    by (simp add: mutator_of_def MutateTenant_def validateOpaqueID_cases demo_ids store_tenant_def demo_store_def
        map_get_def cloneTenantState_id)
  moreover have "pr_tenant demo_actor = ''t''" by (simp add: demo_actor_def)
  ultimately show ?thesis
    by (simp add: CreateRole_def demo_meta_ok demo_actor_ok demo_create_def validateOpaqueID_cases demo_ids
        validateRoleName_def trim_space_solid is_space_def runes_ascii control_rune_def in_transaction_def)
qed

lemma demo_manager_call:
  "\<exists>st'. manager_call demo_manager sink demo_actor True (demo_store, a) (st', a)"
proof -
  obtain st' where "CreateRole demo_manager memory_tx (mutator_of demo_context) sink demo_clock demo_actor demo_meta
      demo_create demo_store a = (Inr (new_role demo_actor ''s'' ''w'' [], \<lparr>mr_changed = True, mr_role_version = 1\<rparr>), st', a)"
    using demo_create_call [of sink a] by blast
  from manager_call.create_role [OF this] have "manager_call demo_manager sink demo_actor True (demo_store, a) (st', a)"
    by simp
  then show ?thesis by (rule exI)
qed

end
