(* ===== verification/Answers.thy ===== *)
theory Answers
  imports Kernel
begin

text \<open>
  What every call of \<open>Manager\<close> answers over the memory store, exactly: the error a caller gets is the
  first of the input's, the context's, the tombstone's and the policy's (the verdicts), and the
  security sink hears of a call exactly when it fails inside its transaction.
\<close>

section \<open>A transaction's answer\<close>

definition transaction_answer :: "go_context \<Rightarrow> tenant_id \<Rightarrow> (policy \<Rightarrow> error option) \<Rightarrow> store \<Rightarrow> error option" where
  "transaction_answer ctx t verdict st = first_error
     [(\<not> valid_id t, ErrInvalidInput),
      (poll ctx 0 \<noteq> Inr (), projl (poll ctx 0)),
      (poll ctx 1 \<noteq> Inr (), projl (poll ctx 1)),
      (Purged t st, ErrNotFound),
      (verdict (policy_of st t) \<noteq> None, the (verdict (policy_of st t))),
      (poll ctx 2 \<noteq> Inr (), projl (poll ctx 2))]"

text \<open>
  A call whose input is refused changes nothing and is not recorded. Any other call answers
  \<open>verdict\<close>, and a failure is handed to \<open>record\<close>.
\<close>

definition answers ::
  "error option \<Rightarrow> error option \<Rightarrow> (error \<Rightarrow> 'a \<Rightarrow> 'a) \<Rightarrow> store \<Rightarrow> 'a \<Rightarrow> (error + 'r) \<times> store \<times> 'a \<Rightarrow> bool" where
  "answers refused verdict record st a out = (case out of (res, st', a') \<Rightarrow>
     (case refused of
        Some e \<Rightarrow> verdict_of res = Some e \<and> st' = st \<and> a' = a
      | None \<Rightarrow> verdict_of res = verdict \<and>
          a' = (case verdict of None \<Rightarrow> a | Some e \<Rightarrow> record e a)))"

lemma Purged_tenant: "Purged t st \<longleftrightarrow> ts_purged (tenant_of st t)"
  by (simp add: Purged_def tenant_of_def newTenantState_def split: option.splits)

lemma unit_error: "(r :: error + unit) \<noteq> Inr () \<longleftrightarrow> isl r"
  by (cases r) auto

lemma MutateTenant_answer:
  assumes "verdict_of (body (tenant_of st t)) = verdict (policy_of st t)"
  shows "verdict_of (fst (mutator_of ctx t body st)) = transaction_answer ctx t verdict st"
proof -
  obtain s0 st0 where st0: "store_tenant t st = (s0, st0)" by (cases "store_tenant t st")
  have s0: "s0 = tenant_of st t" using store_tenant_simps(1) [of t st] st0 by simp
  show ?thesis
    using assms unfolding mutator_of_def MutateTenant_def transaction_answer_def
    by (cases "poll ctx 0"; cases "poll ctx 1"; cases "poll ctx 2"; cases "body (tenant_of st t)")
      (auto simp: st0 s0 cloneTenantState_id Purged_tenant valid_id_def verdict_of_def
         unit_error Let_def)
qed

lemma in_transaction_answer:
  assumes "verdict_of (body (tenant_of st (pr_tenant actor))) = verdict (policy_of st (pr_tenant actor))"
  shows "answers None (transaction_answer ctx (pr_tenant actor) verdict st)
    (recordDenied sink clk actor meta op tt ti v) st a
    (in_transaction (mutator_of ctx) sink clk actor meta op tt ti v body st a)"
  using MutateTenant_answer [of body st "pr_tenant actor" verdict ctx, OF assms]
  by (cases "mutator_of ctx (pr_tenant actor) body st"; cases "fst (mutator_of ctx (pr_tenant actor) body st)")
    (auto simp: answers_def in_transaction_def verdict_of_def dest: sym)

lemma answers_map:
  assumes "answers None v record st a out"
  shows "answers None v record st a (case out of (res, st', a') \<Rightarrow> (ebind res (\<lambda>x. Inr (f x)), st', a'))"
  using assms by (cases out; cases "fst out") (simp_all add: answers_def)

text \<open>The input's answer comes first.\<close>

lemma answers_gated:
  assumes "\<And>y. chk = Inr y \<Longrightarrow> answers None (v y) record st a (k y)"
  shows "answers (verdict_of chk) (v (projr chk)) record st a
    (case chk of Inl e \<Rightarrow> (Inl e, st, a) | Inr y \<Rightarrow> k y)"
  using assms by (cases chk) (simp_all add: answers_def)

section \<open>Roles\<close>

lemma frame_of: "store_inv m st \<Longrightarrow>
    tenant_frame (ts_purged (tenant_of st t)) (ts_purge_ledger (tenant_of st t)) (tenant_of st t)"
  by (simp add: store_inv_def tenant_inv_def tenant_frame_def)

lemma policy_of_ok: "store_inv m st \<Longrightarrow> policy_ok m t (tenant_view (tenant_of st t))"
  by (simp add: store_inv_def tenant_inv_def)

definition role_input :: "mutation_metadata \<Rightarrow> principal \<Rightarrow> role_id \<Rightarrow> error + unit" where
  "role_input meta actor r = ebind (validateMeta meta) (\<lambda>_.
     ebind (guard (validActor actor) ErrInvalidInput) (\<lambda>_. guard (validateOpaqueID r = Inr ()) ErrInvalidInput))"

lemma CreateRole_answers:
  assumes "store_inv m st"
  shows "answers (verdict_of (ebind (role_input meta actor (ci_role input)) (\<lambda>_. validateRoleName (ci_name input))))
    (transaction_answer ctx (pr_tenant actor) (create_verdict m actor (ci_role input) []) st)
    (recordDenied sink clk actor meta ''role.create'' ''role'' (ci_role input) 0) st a
    (CreateRole m memory_tx (mutator_of ctx) sink clk actor meta input st a)"
  unfolding CreateRole_def role_input_def ebind_assoc
proof (rule answers_gated, goal_cases)
  case (1 y)
  let ?x = "new_role actor (ci_role input) (ci_name input) (ci_description input)"
  have x: "ro_id ?x = ci_role input" by (simp add: new_role_def)
  show ?case
    unfolding Let_def
    by (rule answers_map, rule in_transaction_answer)
      (simp only: framed.createRole_exact [OF frame_of [OF assms] policy_of_ok [OF assms]] x policy_of_def)
qed

text \<open>The input check of \<open>CreateRoleWithPermissions\<close>, and the permissions it collects.\<close>

definition initial_permissions ::
  "manager \<Rightarrow> mutation_metadata \<Rightarrow> principal \<Rightarrow> create_role_with_permissions_input \<Rightarrow> error + permission_key list" where
  "initial_permissions m meta actor input =
     ebind (validateMeta meta) (\<lambda>_.
     ebind (guard (validActor actor \<and> validateOpaqueID (ci_role input) = Inr ()) ErrInvalidInput) (\<lambda>_.
     ebind (validateRoleName (ci_name input)) (\<lambda>_.
     ebind (guard (length (ci_permissions input) \<le> length (catalog_keys (mg_catalog m))) ErrInvalidInput) (\<lambda>_.
     efold (collect_permission (mg_catalog m)) (ci_permissions input) []))))"

lemma CreateRoleWithPermissions_answers:
  assumes "store_inv m st"
  shows "answers (verdict_of (initial_permissions m meta actor input))
    (transaction_answer ctx (pr_tenant actor)
       (create_verdict m actor (ci_role input) (projr (initial_permissions m meta actor input))) st)
    (recordDenied sink clk actor meta ''role.create'' ''role'' (ci_role input) 0) st a
    (CreateRoleWithPermissions m memory_tx (mutator_of ctx) sink clk actor meta input st a)"
  unfolding CreateRoleWithPermissions_def initial_permissions_def role_input_def ebind_assoc
proof (rule answers_gated [where v = "\<lambda>qs. transaction_answer ctx (pr_tenant actor)
       (create_verdict m actor (ci_role input) qs) st"], goal_cases)
  case (1 qs)
  let ?x = "new_role actor (ci_role input) (ci_name input) (ci_description input)"
  have x: "ro_id ?x = ci_role input" "\<not> ro_deleted ?x" by (simp_all add: new_role_def)
  from 1 have "distinct qs" using collect_permissions [of "mg_catalog m" _ "[]" qs] by (auto simp: err_simps)
  then have qs: "distinct (sort_by (<) qs)" by simp
  have set: "create_verdict m actor r (sort_by (<) qs) = create_verdict m actor r qs" for r
    by (simp add: create_verdict_def fun_eq_iff)
  show ?case
    unfolding Let_def
    by (rule answers_map, rule in_transaction_answer)
      (simp only: framed.createRoleWithPermissions_exact [OF frame_of [OF assms] policy_of_ok [OF assms] x(2) qs]
         x(1) policy_of_def set)
qed

lemma UpdateRole_answers:
  assumes "store_inv m st"
  shows "answers (verdict_of (ebind (role_input meta actor (ui_role input)) (\<lambda>_. validateRoleName (ui_name input))))
    (transaction_answer ctx (pr_tenant actor) (update_verdict m actor (ui_role input) (ui_expected input)) st)
    (recordDenied sink clk actor meta ''role.update'' ''role'' (ui_role input) (ui_expected input)) st a
    (UpdateRole m memory_tx (mutator_of ctx) sink clk actor meta input st a)"
  unfolding UpdateRole_def role_input_def ebind_assoc
  by (rule answers_gated, rule in_transaction_answer)
    (simp only: framed.updateRole_exact [OF frame_of [OF assms] policy_of_ok [OF assms]] policy_of_def)

lemma DeleteRole_answers:
  assumes "store_inv m st"
  shows "answers (verdict_of (role_input meta actor (di_role input)))
    (transaction_answer ctx (pr_tenant actor) (delete_verdict m actor (di_role input) (di_expected input)) st)
    (recordDenied sink clk actor meta ''role.delete'' ''role'' (di_role input) (di_expected input)) st a
    (DeleteRole m memory_tx (mutator_of ctx) sink clk actor meta input st a)"
  unfolding DeleteRole_def role_input_def
  by (rule answers_gated, rule in_transaction_answer)
    (simp only: framed.deleteRole_exact [OF frame_of [OF assms] policy_of_ok [OF assms]] policy_of_def)

section \<open>Grants\<close>

definition grant_input ::
  "manager \<Rightarrow> mutation_metadata \<Rightarrow> principal \<Rightarrow> grant_permission_input \<Rightarrow> error + role_permission_grant" where
  "grant_input m meta actor input = ebind (validateMeta meta) (\<lambda>_.
     ebind (guard (validActor actor) ErrInvalidInput) (\<lambda>_. validateGrantInput m input))"

lemma grant_input_Inr: "grant_input m meta actor input = Inr g \<Longrightarrow> validateGrantInput m input = Inr g"
  by (auto simp: grant_input_def err_simps)

lemma GrantPermission_answers:
  assumes "store_inv m st"
  shows "answers (verdict_of (grant_input m meta actor input))
    (transaction_answer ctx (pr_tenant actor)
       (grant_verdict actor (projr (grant_input m meta actor input)) (gi_expected input)) st)
    (recordDenied sink clk actor meta ''grant.permission'' ''role_permission'' (gi_role input) (gi_expected input)) st a
    (GrantPermission m memory_tx (mutator_of ctx) sink clk actor meta input st a)"
  unfolding GrantPermission_def grant_input_def [symmetric]
  by (rule answers_gated, rule in_transaction_answer, drule grant_input_Inr)
    (simp only: framed.grantPermission_exact [OF frame_of [OF assms] policy_of_ok [OF assms]] policy_of_def)

lemma RevokePermission_answers:
  assumes "store_inv m st"
  shows "answers (verdict_of (grant_input m meta actor input))
    (transaction_answer ctx (pr_tenant actor)
       (revoke_verdict m actor (projr (grant_input m meta actor input)) (gi_expected input)) st)
    (recordDenied sink clk actor meta ''revoke.permission'' ''role_permission'' (gi_role input) (gi_expected input)) st a
    (RevokePermission m memory_tx (mutator_of ctx) sink clk actor meta input st a)"
  unfolding RevokePermission_def grant_input_def [symmetric]
  by (rule answers_gated, rule in_transaction_answer, drule grant_input_Inr)
    (simp only: framed.revokePermission_exact [OF frame_of [OF assms] policy_of_ok [OF assms]] policy_of_def)

section \<open>Bindings\<close>

lemma AssignRole_answers:
  assumes "store_inv m st"
  shows "answers (verdict_of (validateAssignInput actor meta input))
    (transaction_answer ctx (pr_tenant actor)
       (assign_verdict m actor (ai_subject input) (ai_role input) (ai_expected input)) st)
    (recordDenied sink clk actor meta ''assign.role'' ''subject_role'' (ai_subject input) (ai_expected input)) st a
    (AssignRole m memory_tx (mutator_of ctx) sink clk actor meta input st a)"
  unfolding AssignRole_def
  by (rule answers_gated, rule in_transaction_answer)
    (simp only: framed.assignRole_exact [OF frame_of [OF assms] policy_of_ok [OF assms]] policy_of_def)

lemma UnassignRole_answers:
  assumes "store_inv m st"
  shows "answers (verdict_of (validateAssignInput actor meta input))
    (transaction_answer ctx (pr_tenant actor)
       (unassign_verdict m actor (ai_subject input) (ai_role input) (ai_expected input)) st)
    (recordDenied sink clk actor meta ''unassign.role'' ''subject_role'' (ai_subject input) (ai_expected input)) st a
    (UnassignRole m memory_tx (mutator_of ctx) sink clk actor meta input st a)"
  unfolding UnassignRole_def
  by (rule answers_gated, rule in_transaction_answer)
    (simp only: framed.unassignRole_exact [OF frame_of [OF assms] policy_of_ok [OF assms]] policy_of_def)

end
