(* ===== verification/KernelSpec.thy ===== *)
theory KernelSpec
  imports Demo Answers
begin

text \<open>
  The properties of the kernel as a whole, over the memory store: what holds in every reachable
  state, what a call may change and that authority never grows, and what every call answers.
\<close>

lemma reachable_tenant:
  assumes "kernel_run m sink (NewStore, a) (st, a')"
  shows "store_inv m st" "tenant_inv m t (tenant_of st t)" "policy_ok m t (policy_of st t)"
  using kernel_run_inv [OF assms store_inv_new] by (simp_all add: store_inv_def tenant_inv_def policy_of_def)

section \<open>Reachable states\<close>

text \<open>
  C8: in every state reachable from an empty store by any sequence of kernel calls (manager
  mutations, bootstraps, exports and purges, successful or not, with any inputs and failing
  adapters), every tenant's policy satisfies the whole policy invariant: roles, grants and bindings
  keyed and well formed, grants only for catalog permissions and only on live roles, one grant edge
  per delegated binding, contiguous version history with the current snapshot equal to the role.
\<close>

theorem reachable_policy_ok:
  assumes "kernel_run m sink (NewStore, a) (st, a')"
  shows "policy_ok m t (policy_of st t)"
  using reachable_tenant [OF assms] by blast

theorem reachable_policy_ok_witness:
  "policy_ok demo_manager ''t'' (policy_of demo_store ''t'') \<and> po_bootstrapped (policy_of demo_store ''t'')"
  using reachable_policy_ok [OF demo_run [of "\<lambda>_ a. (None, a)" "()"], of "''t''"] demo_fields demo_tenant_of by simp

text \<open>
  C1: a bootstrapped tenant never loses its last administrator: in every reachable state some
  subject holds all three control permissions at tenant scope on live roles.
\<close>

theorem reachable_administrator:
  assumes "kernel_run m sink (NewStore, a) (st, a')" and "po_bootstrapped (policy_of st t)"
  shows "\<exists>u. holds_all_controls (policy_of st t) (mg_controls m) u"
  using reachable_tenant(3) [OF assms(1), of t] assms(2)
  by (auto simp: policy_ok_def admin_ok_def has_administrator_def)

theorem reachable_administrator_witness:
  "\<exists>u. holds_all_controls (policy_of demo_store ''t'') (mg_controls demo_manager) u"
  using reachable_administrator [OF demo_run [of "\<lambda>_ a. (None, a)" "()"], of "''t''"] demo_fields(1) demo_tenant_of by simp

text \<open>
  C31: the delegation graph of a tenant never has a cycle through two different subjects, in any
  reachable state, although assignments and removals interleave freely.
\<close>

theorem reachable_acyclic:
  assumes "kernel_run m sink (NewStore, a) (st, a')"
  shows "acyclic (grant_graph (policy_of st t) - Id)"
  using reachable_tenant(3) [OF assms, of t] by (simp add: policy_ok_def acyclic_ok_def)

theorem reachable_acyclic_witness: "acyclic (grant_graph (policy_of demo_store ''t'') - Id)"
  using reachable_acyclic [OF demo_run [of "\<lambda>_ a. (None, a)" "()"], of "''t''"] .

text \<open>
  C32: version history is complete and current: while fewer than \<open>2 ^ 63\<close> mutations were recorded,
  a role at version \<open>n\<close> has exactly the snapshots \<open>1 .. n\<close>, and snapshot \<open>n\<close> holds the role's present
  name, description, deletion mark and grants, in canonical order.
\<close>

theorem reachable_history:
  assumes "kernel_run m sink (NewStore, a) (st, a')" and "po_roles (policy_of st t) r = Some x"
    and "length (po_audit (policy_of st t)) < 2 ^ 63"
  shows "dom (po_versions (policy_of st t) r) = {n. 1 \<le> sint n \<and> sint n \<le> sint (ro_version x)} \<and>
    (\<exists>v. po_versions (policy_of st t) r (ro_version x) = Some v \<and>
       snapshot_for x (ran (po_grants (policy_of st t) r)) v)"
  using reachable_tenant(3) [OF assms(1), of t] assms(2,3)
  by (simp add: policy_ok_def versions_ok_def history_ok_def del: tenant_view_simps)

theorem reachable_history_witness:
  "dom (po_versions (policy_of demo_store ''t'') ''w'') = {n. 1 \<le> sint n \<and> sint n \<le> 1}"
proof -
  have "po_roles (policy_of demo_store ''t'') ''w'' = Some demo_role"
    using demo_fields(2) demo_tenant_of by simp
  moreover have "length (po_audit (policy_of demo_store ''t'')) < 2 ^ 63"
    by (simp add: demo_tenant_of demo_tenant_def)
  ultimately show ?thesis
    using reachable_history [OF demo_run [of "\<lambda>_ a. (None, a)" "()"], of "''t''" "''w''" demo_role]
    by (simp add: demo_role_def)
qed

section \<open>Calls\<close>

text \<open>
  C7: a manager call is atomic and refines the abstract specification: when it reports success, the
  tenant's policy took exactly one \<open>policy_step\<close> on the actor's authority in a tenant without a
  tombstone; when it reports an error, no tenant changed at all.
\<close>

theorem manager_call_refines:
  assumes "kernel_run m sink (NewStore, a0) (st, a)" and "manager_call m sink actor success (st, a) (st', a')"
  shows "if success
    then \<not> Purged (pr_tenant actor) st \<and>
      policy_step m actor (policy_of st (pr_tenant actor)) (policy_of st' (pr_tenant actor))
    else policy_of st' = policy_of st \<and> Purged t st' = Purged t st"
proof -
  have purged: "Purged u s \<longleftrightarrow> ts_purged (tenant_of s u)" for u s
    by (simp add: Purged_def tenant_of_def newTenantState_def split: option.splits)
  from manager_call_outcome [OF assms(2) reachable_tenant(1) [OF assms(1)]] show ?thesis
    by (auto simp: purged policy_of_def fun_eq_iff)
qed

theorem manager_call_refines_witness:
  "\<exists>st'. policy_step demo_manager demo_actor (policy_of demo_store ''t'') (policy_of st' ''t'')"
proof -
  obtain st' where "manager_call demo_manager (\<lambda>_ a. (None, a)) demo_actor True (demo_store, ()) (st', ())"
    using demo_manager_call [of "\<lambda>_ a. (None, a)" "()"] by blast
  from manager_call_refines [OF demo_run this] show ?thesis by (auto simp: demo_actor_def)
qed

text \<open>
  C25: tenants are isolated: a kernel call for tenant \<open>t\<close> changes no other tenant's roles, grants,
  bindings, edges, versions, audit trail, bootstrap mark or tombstone.
\<close>

theorem kernel_isolation:
  assumes "kernel_run m sink (NewStore, a0) (st, a)" and "kernel_step m sink t (st, a) (st', a')" and "u \<noteq> t"
  shows "tenant_of st' u = tenant_of st u"
  using kernel_step_outcome [OF assms(2) reachable_tenant(1) [OF assms(1)]] assms(3) by blast

theorem kernel_isolation_witness: "tenant_of demo_store ''s'' = newTenantState"
proof -
  have start: "kernel_run demo_manager (\<lambda>_ a. (None, a)) (NewStore, ()) (NewStore, ())"
    by (simp add: kernel_run_def)
  have "kernel_step demo_manager (\<lambda>_ a. (None, a)) ''t'' (NewStore, ()) (demo_store, ())"
    using kernel_step.bootstrap [OF demo_bootstrap] demo_owner(1) by simp
  from kernel_isolation [OF start this, of "''s''"] show ?thesis
    by (simp add: tenant_of_def NewStore_def)
qed

section \<open>Authority never grows\<close>

text \<open>
  C2: no mutation escalates: after any sequence of manager calls by any actors, whatever access a
  subject has through a grant it holds, some subject already had through a grant it held before the
  sequence began. Authority is only ever passed on, never created.
\<close>

theorem manager_run_no_escalation:
  assumes "kernel_run m sink (NewStore, a0) (st, a)" and "manager_run m sink (st, a) (st', a')"
    and "h \<in> held_grants (policy_of st' t) u" and "allowAccess orbit request h membership member"
  shows "\<exists>v. \<exists>g \<in> held_grants (policy_of st t) v. allowAccess orbit request g membership member"
proof -
  from manager_run_authority [OF assms(2) reachable_tenant(1) [OF assms(1)], of t] assms(3)
  obtain v g where g: "g \<in> held_grants (policy_of st t) v" "covers_grant g h"
    unfolding delegation.authority_def all_held_def by blast
  have "allowAccess orbit request g membership member"
    using g(2) assms(4) workspaceRoleMatch_covers
    by (auto simp: covers_grant_def covers_def allowDelegation_def allowAccess_def split: if_splits)
  with g(1) show ?thesis by blast
qed

definition demo_check :: check_request where
  "demo_check = \<lparr>cq_principal = \<lparr>pr_tenant = ''t'', pr_subject = ''o''\<rparr>, cq_permission = ''a:b:c'',
     cq_mode = ResourceExisting,
     cq_resource = \<lparr>rc_tenant = ''t'', rc_resource = ''r'', rc_owner = [], rc_workspace = []\<rparr>\<rparr>"

lemma demo_held:
  "\<exists>g \<in> held_grants (policy_of demo_store ''t'') ''o''.
     allowAccess (\<lambda>_ _. False) demo_check g \<lparr>wm_role = []\<rparr> False"
proof -
  from demo_holds obtain g where "g \<in> held_grants (tenant_view demo_tenant) ''o''"
    "eg_permission g = ''a:b:c''" "eg_scope g = ScopeTenant"
    by (auto simp: holds_all_controls_def effective_grants_def control_list_def demo_manager_def)
  then show ?thesis
    unfolding demo_tenant_of by (intro bexI [of _ g]) (simp_all add: allowAccess_def demo_check_def cross_tenant_def)
qed

theorem manager_run_no_escalation_witness:
  "\<exists>v. \<exists>g \<in> held_grants (policy_of demo_store ''t'') v.
     allowAccess (\<lambda>_ _. False) demo_check g \<lparr>wm_role = []\<rparr> False"
proof -
  have same: "manager_run demo_manager (\<lambda>_ a. (None, a)) (demo_store, ()) (demo_store, ())"
    by (simp add: manager_run_def)
  obtain h where "h \<in> held_grants (policy_of demo_store ''t'') ''o''"
    "allowAccess (\<lambda>_ _. False) demo_check h \<lparr>wm_role = []\<rparr> False" using demo_held by blast
  from manager_run_no_escalation [OF demo_run same this] show ?thesis .
qed

text \<open>
  A single manager call gives a subject nothing its actor could not delegate: every grant a
  subject holds afterwards is covered (in the sense of \<open>allowDelegation\<close>) by a grant that the subject
  or the acting subject held before.
\<close>

theorem manager_call_no_amplification:
  assumes "kernel_run m sink (NewStore, a0) (st, a)" and "manager_call m sink actor success (st, a) (st', a')"
    and "h \<in> held_grants (policy_of st' (pr_tenant actor)) u"
  shows "\<exists>g \<in> held_grants (policy_of st (pr_tenant actor)) (pr_subject actor) \<union>
      held_grants (policy_of st (pr_tenant actor)) u. covers_grant g h"
  using manager_call_authority [OF assms(2) reachable_tenant(1) [OF assms(1)], of "pr_tenant actor" u] assms(3)
  by (simp add: delegation.authority_def)

lemma demo_after:
  "\<exists>st' u h. manager_call demo_manager sink demo_actor True (demo_store, a) (st', a) \<and>
     h \<in> held_grants (policy_of st' ''t'') u"
proof -
  obtain st' where call: "manager_call demo_manager sink demo_actor True (demo_store, a) (st', a)"
    using demo_manager_call [of sink a] by blast
  have t: "pr_tenant demo_actor = ''t''" by (simp add: demo_actor_def)
  from manager_call_outcome [OF call demo_store_inv] t have inv: "store_inv demo_manager st'"
    and step: "policy_step demo_manager demo_actor (tenant_view demo_tenant) (policy_of st' ''t'')"
    by (simp_all add: demo_tenant_of)
  from step demo_fields(1) have "po_bootstrapped (policy_of st' ''t'')"
    by cases (simp_all del: tenant_view_simps)
  with inv have "has_administrator (policy_of st' ''t'') (mg_controls demo_manager)"
    by (simp add: store_inv_def tenant_inv_def policy_of_def policy_ok_def admin_ok_def)
  then obtain u h where "h \<in> held_grants (policy_of st' ''t'') u"
    by (auto simp: has_administrator_def holds_all_controls_def effective_grants_def control_list_def)
  with call show ?thesis by blast
qed

theorem manager_call_no_amplification_witness:
  "\<exists>st' u h. h \<in> held_grants (policy_of st' ''t'') u \<and>
     (\<exists>g \<in> held_grants (policy_of demo_store ''t'') ''o'' \<union> held_grants (policy_of demo_store ''t'') u.
        covers_grant g h)"
proof -
  obtain st' u h where call: "manager_call demo_manager (\<lambda>_ a. (None, a)) demo_actor True (demo_store, ()) (st', ())"
    and h: "h \<in> held_grants (policy_of st' ''t'') u"
    using demo_after [of "\<lambda>_ a. (None, a)" "()"] by blast
  have ids: "pr_tenant demo_actor = ''t''" "pr_subject demo_actor = ''o''" by (simp_all add: demo_actor_def)
  from manager_call_no_amplification [OF demo_run call, of h u] h show ?thesis unfolding ids by blast
qed

section \<open>Who may act\<close>

text \<open>
  An actor that holds no grant in its tenant can change nothing: no manager call of such an
  actor succeeds, whatever the operation and its input. In particular no manager call succeeds in a
  tenant that was not bootstrapped.
\<close>

theorem powerless_actor_denied:
  assumes "kernel_run m sink (NewStore, a0) (st, a)" and "manager_call m sink actor success (st, a) (st', a')"
    and "held_grants (policy_of st (pr_tenant actor)) (pr_subject actor) = {}"
  shows "\<not> success \<and> policy_of st' = policy_of st"
  using manager_call_outcome [OF assms(2) reachable_tenant(1) [OF assms(1)]] assms(3) step_held
  by (cases success) (auto simp: policy_of_def fun_eq_iff)

lemma demo_denied:
  "\<exists>success st' a'. manager_call demo_manager sink demo_actor success (NewStore, a) (st', a')"
proof -
  obtain res st' a' where "CreateRole demo_manager memory_tx (mutator_of demo_context) sink demo_clock demo_actor
      demo_meta demo_create NewStore a = (res, st', a')" by (metis prod.exhaust)
  from manager_call.create_role [OF this] show ?thesis by blast
qed

theorem powerless_actor_denied_witness:
  "\<exists>st' a'. manager_call demo_manager (\<lambda>_ a. (None, a)) demo_actor False (NewStore, ()) (st', a') \<and>
     policy_of st' = policy_of NewStore"
proof -
  have start: "kernel_run demo_manager (\<lambda>_ a. (None, a)) (NewStore, ()) (NewStore, ())"
    by (simp add: kernel_run_def)
  have none: "held_grants (policy_of NewStore (pr_tenant demo_actor)) (pr_subject demo_actor) = {}"
    by (simp add: policy_of_def tenant_of_def NewStore_def newTenantState_view held_grants_def empty_policy_def)
  obtain success st' a' where call: "manager_call demo_manager (\<lambda>_ a. (None, a)) demo_actor success (NewStore, ()) (st', a')"
    using demo_denied [of "\<lambda>_ a. (None, a)" "()"] by blast
  from powerless_actor_denied [OF start call none] call show ?thesis by auto
qed

section \<open>Bootstrap\<close>

text \<open>
  C33: bootstrap provisions an empty tenant exactly once: when \<open>BootstrapTenant\<close> succeeds, the tenant
  was neither bootstrapped nor purged and had no roles, and afterwards it is bootstrapped and the
  named owner holds all three control permissions at tenant scope.
\<close>

theorem bootstrap_once:
  assumes "kernel_run m sink (NewStore, a0) (st, a)"
    and "BootstrapTenant m memory_tx (mutator_of ctx) authorizer clk input st = (Inr x, st')"
  shows "\<not> po_bootstrapped (policy_of st (bi_tenant input)) \<and> \<not> Purged (bi_tenant input) st \<and>
    po_roles (policy_of st (bi_tenant input)) = Map.empty \<and>
    po_bootstrapped (policy_of st' (bi_tenant input)) \<and>
    holds_all_controls (policy_of st' (bi_tenant input)) (mg_controls m) (bi_owner input)"
proof -
  let ?t = "bi_tenant input"
  note reach = reachable_tenant [OF assms(1)]
  from bootstrap_call_outcome [OF assms(2) reach(1)]
  have step: "bootstrap_step m ?t (bi_owner input) (policy_of st ?t) (policy_of st' ?t)"
    and unpurged: "\<not> ts_purged (tenant_of st ?t)" by simp_all
  have fresh: "\<not> po_bootstrapped (policy_of st ?t)" using step by cases simp
  moreover have "po_roles (policy_of st ?t) = Map.empty"
    using reach(3) [of ?t] fresh by (simp add: policy_ok_def admin_ok_def)
  moreover have "\<not> Purged ?t st"
    using unpurged by (simp add: Purged_def tenant_of_def split: option.splits)
  ultimately show ?thesis using bootstrap_policy_ok [OF step reach(3)] by blast
qed

theorem bootstrap_once_witness:
  "holds_all_controls (policy_of demo_store ''t'') (mg_controls demo_manager) ''o''"
proof -
  have start: "kernel_run demo_manager (\<lambda>_ a. (None, a)) (NewStore, ()) (NewStore, ())"
    by (simp add: kernel_run_def)
  from bootstrap_once [OF start demo_bootstrap] demo_owner(1) show ?thesis by simp
qed

section \<open>Purge\<close>

text \<open>
  A purge is permanent: once a reachable tenant has its tombstone, it keeps it through every
  further sequence of kernel calls, and its policy stays empty. In particular it can never be
  bootstrapped again.
\<close>

theorem purge_permanent:
  assumes "kernel_run m sink (NewStore, a0) (st, a)" and "Purged t st" and "kernel_run m sink (st, a) (st', a')"
  shows "Purged t st' \<and> policy_of st' t = empty_policy"
proof -
  note reach = reachable_tenant [OF assms(1)]
  have "tenant_of st' t = tenant_of st t"
    using kernel_run_purged [OF assms(3) reach(1)] assms(2) by (simp add: Purged_tenant)
  with assms(2) reach(2) [of t] show ?thesis
    by (simp add: Purged_tenant policy_of_def tenant_inv_def purge_ok_def)
qed

text \<open>
  A purge that reports success leaves the tombstone, and a retry with the same request id after a
  committed purge deletes nothing more: the stored tenant is unchanged, whatever the outcome.
\<close>

theorem purge_outcome:
  assumes "kernel_run m sink (NewStore, a0) (st, a)"
    and "PurgeTenant (maintainer_of ctx) auth (memory_maintenance render t) sink clk t meta st a = (res, st', a')"
  shows "(res = Inr () \<longrightarrow> Purged t st') \<and> (Purged t st \<longrightarrow> tenant_of st' = tenant_of st) \<and>
    (\<not> Purged t st' \<longrightarrow> tenant_of st' = tenant_of st)"
proof -
  note out = purge_call_outcome [OF assms(2) reachable_tenant(1) [OF assms(1)]]
  have "tenant_of st' = tenant_of st" if "tenant_of st' t = tenant_of st t"
    using that out by (auto simp: fun_eq_iff)
  with out show ?thesis by (auto simp: Purged_tenant)
qed

definition demo_purged :: store where
  "demo_purged = snd (maintainer_of demo_context ''t''
     (mem_purge (purge_intent demo_clock demo_provenance ''t'' demo_meta)) demo_store)"

lemma demo_purge:
  "PurgeTenant (maintainer_of demo_context) (\<lambda>_ _. Inr demo_provenance) (memory_maintenance render ''t'')
     (\<lambda>_ a. (None, a)) demo_clock ''t'' demo_meta demo_store () = (Inr (), demo_purged, ())"
proof -
  let ?intent = "purge_intent demo_clock demo_provenance ''t'' demo_meta"
  have "map_get (ts_purge_ledger demo_tenant) (ae_request_id ?intent) = None"
    by (simp add: demo_tenant_def newTenantState_def)
  with demo_fields(4) obtain r s' where "mem_purge ?intent demo_tenant = Inr (r, s')"
    by (simp add: mem_purge_def)
  then have "\<exists>r st'. maintainer_of demo_context ''t'' (mem_purge ?intent) demo_store = (Inr r, st')"
    by (simp add: maintainer_of_def MaintainTenant_def validateOpaqueID_cases demo_ids store_tenant_def
        demo_store_def map_get_def cloneTenantState_id)
  then obtain r where "maintainer_of demo_context ''t'' (mem_purge ?intent) demo_store = (Inr r, demo_purged)"
    by (auto simp: demo_purged_def)
  then show ?thesis
    by (simp add: PurgeTenant_def validatePurge_def validateOpaqueID_cases demo_ids demo_meta_def [symmetric]
        memory_maintenance_def Let_def)
      (simp add: demo_meta_def)
qed

theorem purge_outcome_witness: "Purged ''t'' demo_purged"
  using purge_outcome [OF demo_run demo_purge] by blast

theorem purge_permanent_witness: "policy_of demo_purged ''t'' = empty_policy"
proof -
  have step: "kernel_step demo_manager (\<lambda>_ a. (None, a)) ''t'' (demo_store, ()) (demo_purged, ())"
    using kernel_step.purge [OF demo_purge] .
  have run: "kernel_run demo_manager (\<lambda>_ a. (None, a)) (NewStore, ()) (demo_purged, ())"
    unfolding kernel_run_def
    by (rule rtranclp.rtrancl_into_rtrancl [OF demo_run [unfolded kernel_run_def]]) (rule exI, rule step)
  have purged: "Purged ''t'' demo_purged"
    using purge_call_outcome [OF demo_purge demo_store_inv] by (simp add: Purged_tenant)
  have stay: "kernel_run demo_manager (\<lambda>_ a. (None, a)) (demo_purged, ()) (demo_purged, ())"
    by (simp add: kernel_run_def)
  from purge_permanent [OF run purged stay] show ?thesis by blast
qed

section \<open>Audit\<close>

lemma step_audit:
  assumes "policy_step m actor p p'"
  shows "\<exists>e. po_audit p' = po_audit p @ [e] \<and>
    (by_actor actor AuditOutcomeSuccess e \<or> by_actor actor AuditOutcomeNoop e \<and> p' = add_audit e p)"
  using assms by cases (unfold add_audit_def add_version_def set_role_def set_grants_def clear_versions_def set_edges_def set_binding_def, auto)

text \<open>
  C34: the tenant's audit trail is append-only under manager calls and attributes every change: a
  successful call appends exactly one event, of the acting subject in its tenant, with outcome
  success or no-op; a failed call appends nothing.
\<close>

theorem manager_call_audit:
  assumes "kernel_run m sink (NewStore, a0) (st, a)" and "manager_call m sink actor success (st, a) (st', a')"
  shows "if success
    then \<exists>e. DebugAuditEvents (pr_tenant actor) st' = DebugAuditEvents (pr_tenant actor) st @ [e] \<and>
      (by_actor actor AuditOutcomeSuccess e \<or>
       by_actor actor AuditOutcomeNoop e \<and>
         policy_of st' (pr_tenant actor) = add_audit e (policy_of st (pr_tenant actor)))
    else DebugAuditEvents t st' = DebugAuditEvents t st"
proof -
  have debug: "DebugAuditEvents u s = po_audit (policy_of s u)" for u s
    by (simp add: DebugAuditEvents_def policy_of_def tenant_of_def newTenantState_def split: option.splits)
  note out = manager_call_outcome [OF assms(2) reachable_tenant(1) [OF assms(1)]]
  show ?thesis
  proof (cases success)
    case False
    with out show ?thesis by (simp add: debug policy_of_def)
  next
    case True
    with out have "policy_step m actor (policy_of st (pr_tenant actor)) (policy_of st' (pr_tenant actor))" by simp
    from step_audit [OF this] True show ?thesis unfolding debug by simp
  qed
qed

theorem manager_call_audit_witness:
  "\<exists>st' e. DebugAuditEvents ''t'' st' = DebugAuditEvents ''t'' demo_store @ [e]"
proof -
  obtain st' where call: "manager_call demo_manager (\<lambda>_ a. (None, a)) demo_actor True (demo_store, ()) (st', ())"
    using demo_manager_call [of "\<lambda>_ a. (None, a)" "()"] by blast
  from manager_call_audit [OF demo_run call] show ?thesis by (auto simp: demo_actor_def)
qed

end
