(* ===== verification/AnswersSpec.thy ===== *)
theory AnswersSpec
  imports KernelSpec
begin

text \<open>
  The answers of the kernel's calls as properties: which error a manager call returns and what the
  security sink hears, in every reachable state, and what the adapter's derived reads and the
  export return.
\<close>

section \<open>Manager calls\<close>

lemma answers_failed:
  assumes "answers None (Some e) record st a out"
  shows "fst out = Inl e" "snd (snd out) = record e a"
  using assms by (auto simp: answers_def verdict_of_def split: sum.splits)

text \<open>
  C28: assigning and unassigning a role answer exactly by the policy: after the input check, the
  first of the context's error, the tombstone, missing authority, an unknown or deleted role, a
  stale version, a role with a grant the actor does not cover, and then for an assignment a cycle in
  the grant graph, for a removal the loss of the last administrator; otherwise the call succeeds.
  The sink records exactly the calls that fail after the input check.
\<close>

theorem bindings_answer:
  assumes "kernel_run m sink (NewStore, a0) (st, a)"
  shows "answers (verdict_of (validateAssignInput actor meta input))
      (transaction_answer ctx (pr_tenant actor)
         (assign_verdict m actor (ai_subject input) (ai_role input) (ai_expected input)) st)
      (recordDenied sink clk actor meta ''assign.role'' ''subject_role'' (ai_subject input) (ai_expected input)) st a
      (AssignRole m memory_tx (mutator_of ctx) sink clk actor meta input st a) \<and>
    answers (verdict_of (validateAssignInput actor meta input))
      (transaction_answer ctx (pr_tenant actor)
         (unassign_verdict m actor (ai_subject input) (ai_role input) (ai_expected input)) st)
      (recordDenied sink clk actor meta ''unassign.role'' ''subject_role'' (ai_subject input) (ai_expected input)) st a
      (UnassignRole m memory_tx (mutator_of ctx) sink clk actor meta input st a)"
  by (intro conjI AssignRole_answers UnassignRole_answers reachable_tenant(1) [OF assms])

definition demo_removal :: assign_role_input where
  "demo_removal = \<lparr>ai_subject = ''o'', ai_role = ''w'', ai_expected = 1\<rparr>"

lemma demo_covers: "covers_role (tenant_view demo_tenant) ''o'' ''w''"
proof -
  have "x \<in> set (bi_grants demo_input)" if "x \<in> ran (po_grants (tenant_view demo_tenant) ''w'')" for x
    using that by (auto simp: demo_tenant_def newTenantState_def sub_map_def ran_def map_get_def
        dest!: map_of_SomeD split: if_splits)
  then have "rg_permission x \<in> set (control_list (mg_controls demo_manager)) \<and> rg_scope x = ScopeTenant \<and>
      rg_workspace_roles x = []" if "x \<in> ran (po_grants (tenant_view demo_tenant) ''w'')" for x
    using that by (fastforce simp: demo_input_def demo_manager_def control_list_def)
  then show ?thesis
    using demo_may by (fastforce simp: covers_role_def may_delegate_def may_manage_def may_def demo_actor_def
        allowDelegation_def simp del: tenant_view_simps)
qed

lemma demo_last: "\<not> has_administrator (set_binding ''o'' ''w'' None (tenant_view demo_tenant)) (mg_controls demo_manager)"
proof -
  have "po_bindings (tenant_view demo_tenant) u r = None \<or> (u = ''o'' \<and> r = ''w'')" for u r
    by (simp add: demo_tenant_def newTenantState_def sub_map_def map_get_def)
  then have "held_grants (set_binding ''o'' ''w'' None (tenant_view demo_tenant)) u = {}" for u
    by (simp add: held_grants_def set_binding_def del: tenant_view_simps) (metis option.distinct(1))
  then show ?thesis
    by (auto simp: has_administrator_def holds_all_controls_def effective_grants_def control_list_def)
qed

theorem bindings_answer_witness:
  "\<exists>st'. UnassignRole demo_manager memory_tx (mutator_of demo_context) (\<lambda>e a. (None, a @ [ae_outcome e])) demo_clock
     demo_actor demo_meta demo_removal demo_store [] = (Inl ErrLastAdministrator, st', [AuditOutcomeFailed])"
proof -
  let ?sink = "\<lambda>e a. (None, a @ [ae_outcome e])"
  let ?call = "UnassignRole demo_manager memory_tx (mutator_of demo_context) ?sink
    demo_clock demo_actor demo_meta demo_removal demo_store []"
  have ids: "pr_tenant demo_actor = ''t''" "pr_subject demo_actor = ''o''" by (simp_all add: demo_actor_def)
  have chk: "validateAssignInput demo_actor demo_meta demo_removal = Inr ()"
    by (simp add: validateAssignInput_def demo_meta_ok demo_actor_ok demo_removal_def validateOpaqueID_cases demo_ids)
  have "unassign_verdict demo_manager demo_actor ''o'' ''w'' 1 (tenant_view demo_tenant) = Some ErrLastAdministrator"
    using demo_may [of "cp_assign_roles (mg_controls demo_manager)"] demo_fields(2,3) demo_covers demo_last
    by (simp add: unassign_verdict_def role_missing_def role_stale_def live_role_def demo_role_def demo_actor_def
        control_list_def del: tenant_view_simps)
  then have verdict: "transaction_answer demo_context ''t'' (unassign_verdict demo_manager demo_actor ''o'' ''w'' 1)
      demo_store = Some ErrLastAdministrator"
    by (simp add: transaction_answer_def demo_ids Purged_tenant demo_tenant_of demo_fields(4) del: tenant_view_simps)
  note answer = bindings_answer [where m = demo_manager and sink = ?sink and clk = demo_clock and actor = demo_actor
      and meta = demo_meta and input = demo_removal and ctx = demo_context, OF demo_run, THEN conjunct2]
  from answer chk verdict
  have "answers None (Some ErrLastAdministrator) (recordDenied ?sink demo_clock demo_actor demo_meta ''unassign.role''
      ''subject_role'' ''o'' 1) demo_store [] ?call"
    by (simp add: ids demo_removal_def)
  from answers_failed [OF this] show ?thesis
    by (cases ?call) (simp add: recordDenied_def auditEvent_def denied_outcome_def)
qed

text \<open>
  C30: the role operations answer exactly by the policy: creating needs the role-management control,
  a delegable grant for every initial permission and a fresh id; updating and deleting need the
  control, a live role at the expected version, and deleting also a role with no grants and no
  subjects. Every other call is refused with the listed error, in that order, and recorded.
\<close>

theorem roles_answer:
  assumes "kernel_run m sink (NewStore, a0) (st, a)"
  shows "answers (verdict_of (ebind (role_input meta actor (ci_role c)) (\<lambda>_. validateRoleName (ci_name c))))
      (transaction_answer ctx (pr_tenant actor) (create_verdict m actor (ci_role c) []) st)
      (recordDenied sink clk actor meta ''role.create'' ''role'' (ci_role c) 0) st a
      (CreateRole m memory_tx (mutator_of ctx) sink clk actor meta c st a) \<and>
    answers (verdict_of (initial_permissions m meta actor i))
      (transaction_answer ctx (pr_tenant actor)
         (create_verdict m actor (ci_role i) (projr (initial_permissions m meta actor i))) st)
      (recordDenied sink clk actor meta ''role.create'' ''role'' (ci_role i) 0) st a
      (CreateRoleWithPermissions m memory_tx (mutator_of ctx) sink clk actor meta i st a) \<and>
    answers (verdict_of (ebind (role_input meta actor (ui_role u)) (\<lambda>_. validateRoleName (ui_name u))))
      (transaction_answer ctx (pr_tenant actor) (update_verdict m actor (ui_role u) (ui_expected u)) st)
      (recordDenied sink clk actor meta ''role.update'' ''role'' (ui_role u) (ui_expected u)) st a
      (UpdateRole m memory_tx (mutator_of ctx) sink clk actor meta u st a) \<and>
    answers (verdict_of (role_input meta actor (di_role d)))
      (transaction_answer ctx (pr_tenant actor) (delete_verdict m actor (di_role d) (di_expected d)) st)
      (recordDenied sink clk actor meta ''role.delete'' ''role'' (di_role d) (di_expected d)) st a
      (DeleteRole m memory_tx (mutator_of ctx) sink clk actor meta d st a)"
  by (intro conjI CreateRole_answers CreateRoleWithPermissions_answers UpdateRole_answers DeleteRole_answers
      reachable_tenant(1) [OF assms])

definition demo_delete :: delete_role_input where
  "demo_delete = \<lparr>di_role = ''w'', di_expected = 1\<rparr>"

lemma demo_granted: "po_grants (tenant_view demo_tenant) ''w'' \<noteq> Map.empty"
proof
  assume "po_grants (tenant_view demo_tenant) ''w'' = Map.empty"
  then have "po_grants (tenant_view demo_tenant) ''w'' (grant_key_of (hd (bi_grants demo_input))) = None"
    by (simp del: tenant_view_simps)
  then show False by (simp add: demo_tenant_def newTenantState_def sub_map_def map_get_def demo_input_def)
qed

theorem roles_answer_witness:
  "\<exists>st'. DeleteRole demo_manager memory_tx (mutator_of demo_context) (\<lambda>e a. (None, a @ [ae_outcome e])) demo_clock
     demo_actor demo_meta demo_delete demo_store [] = (Inl ErrConflict, st', [AuditOutcomeConflict])"
proof -
  let ?sink = "\<lambda>e a. (None, a @ [ae_outcome e])"
  let ?call = "DeleteRole demo_manager memory_tx (mutator_of demo_context) ?sink
    demo_clock demo_actor demo_meta demo_delete demo_store []"
  have ids: "pr_tenant demo_actor = ''t''" by (simp add: demo_actor_def)
  have chk: "role_input demo_meta demo_actor ''w'' = Inr ()"
    by (simp add: role_input_def demo_meta_ok demo_actor_ok validateOpaqueID_cases demo_ids)
  have "delete_verdict demo_manager demo_actor ''w'' 1 (tenant_view demo_tenant) = Some ErrConflict"
    using demo_may [of "cp_manage_roles (mg_controls demo_manager)"] demo_fields(2) demo_granted
    by (simp add: delete_verdict_def role_missing_def role_stale_def live_role_def demo_role_def control_list_def
        del: tenant_view_simps)
  then have verdict: "transaction_answer demo_context ''t'' (delete_verdict demo_manager demo_actor ''w'' 1)
      demo_store = Some ErrConflict"
    by (simp add: transaction_answer_def demo_ids Purged_tenant demo_tenant_of demo_fields(4) del: tenant_view_simps)
  note answer = roles_answer [where m = demo_manager and sink = ?sink and clk = demo_clock and actor = demo_actor
      and meta = demo_meta and d = demo_delete and ctx = demo_context, OF demo_run,
      THEN conjunct2, THEN conjunct2, THEN conjunct2]
  from answer chk verdict
  have "answers None (Some ErrConflict) (recordDenied ?sink demo_clock demo_actor demo_meta ''role.delete''
      ''role'' ''w'' 1) demo_store [] ?call"
    by (simp add: ids demo_delete_def)
  from answers_failed [OF this] show ?thesis
    by (cases ?call) (simp add: recordDenied_def auditEvent_def denied_outcome_def)
qed

text \<open>
  C29: granting and revoking a permission answer exactly by the policy: the actor must be able to
  delegate that very grant, the role must be live at the expected version, and a revocation must
  leave an administrator. The role- and grant-management controls are not asked for.
\<close>

theorem grants_answer:
  assumes "kernel_run m sink (NewStore, a0) (st, a)"
  shows "answers (verdict_of (grant_input m meta actor input))
      (transaction_answer ctx (pr_tenant actor)
         (grant_verdict actor (projr (grant_input m meta actor input)) (gi_expected input)) st)
      (recordDenied sink clk actor meta ''grant.permission'' ''role_permission'' (gi_role input) (gi_expected input)) st a
      (GrantPermission m memory_tx (mutator_of ctx) sink clk actor meta input st a) \<and>
    answers (verdict_of (grant_input m meta actor input))
      (transaction_answer ctx (pr_tenant actor)
         (revoke_verdict m actor (projr (grant_input m meta actor input)) (gi_expected input)) st)
      (recordDenied sink clk actor meta ''revoke.permission'' ''role_permission'' (gi_role input) (gi_expected input)) st a
      (RevokePermission m memory_tx (mutator_of ctx) sink clk actor meta input st a)"
  by (intro conjI GrantPermission_answers RevokePermission_answers reachable_tenant(1) [OF assms])

definition demo_stranger :: principal where
  "demo_stranger = \<lparr>pr_tenant = ''t'', pr_subject = ''s''\<rparr>"

definition demo_grant :: grant_permission_input where
  "demo_grant = \<lparr>gi_role = ''w'', gi_expected = 1, gi_permission = ''a:b:c'', gi_scope = ScopeTenant,
     gi_workspace_roles = []\<rparr>"

lemma demo_stranger_holds: "held_grants (tenant_view demo_tenant) ''s'' = {}"
  by (simp add: held_grants_def demo_tenant_def newTenantState_def sub_map_def map_get_def)

theorem grants_answer_witness:
  "\<exists>st'. GrantPermission demo_manager memory_tx (mutator_of demo_context) (\<lambda>e a. (None, a @ [ae_outcome e])) demo_clock
     demo_stranger demo_meta demo_grant demo_store [] = (Inl ErrForbidden, st', [AuditOutcomeDenied])"
proof -
  let ?sink = "\<lambda>e a. (None, a @ [ae_outcome e])"
  let ?call = "GrantPermission demo_manager memory_tx (mutator_of demo_context) ?sink
    demo_clock demo_stranger demo_meta demo_grant demo_store []"
  let ?g = "\<lparr>rg_role = ''w'', rg_permission = ''a:b:c'', rg_scope = ScopeTenant, rg_workspace_roles = []\<rparr>"
  have ids: "pr_tenant demo_stranger = ''t''" "pr_subject demo_stranger = ''s''" by (simp_all add: demo_stranger_def)
  have "validActor demo_stranger" by (simp add: validActor_iff demo_stranger_def demo_ids)
  then have chk: "grant_input demo_manager demo_meta demo_stranger demo_grant = Inr ?g"
    by (simp add: grant_input_def demo_meta_ok validateGrantInput_def demo_grant_def validateOpaqueID_cases demo_ids
        validatePermissionKey_cases demo_keys demo_manager_def catalog_lookup_def map_get_def known_scope_def
        normalizeWorkspaceRoles_def)
  have "grant_verdict demo_stranger ?g 1 (tenant_view demo_tenant) = Some ErrForbidden"
    using demo_stranger_holds
    by (simp add: grant_verdict_def may_delegate_def may_def effective_grants_def ids del: tenant_view_simps)
  then have verdict: "transaction_answer demo_context ''t'' (grant_verdict demo_stranger ?g 1) demo_store = Some ErrForbidden"
    by (simp add: transaction_answer_def demo_ids Purged_tenant demo_tenant_of demo_fields(4) del: tenant_view_simps)
  note answer = grants_answer [where m = demo_manager and sink = ?sink and clk = demo_clock and actor = demo_stranger
      and meta = demo_meta and input = demo_grant and ctx = demo_context, OF demo_run, THEN conjunct1]
  have expected: "gi_role demo_grant = ''w''" "gi_expected demo_grant = 1" by (simp_all add: demo_grant_def)
  from answer chk verdict
  have "answers None (Some ErrForbidden) (recordDenied ?sink demo_clock demo_stranger demo_meta ''grant.permission''
      ''role_permission'' ''w'' 1) demo_store [] ?call"
    by (simp add: ids expected)
  from answers_failed [OF this] show ?thesis
    by (cases ?call) (simp add: recordDenied_def auditEvent_def denied_outcome_def)
qed

section \<open>Derived reads and the export\<close>

text \<open>
  C35: the worklist search behind \<open>HasGrantPath\<close> always returns, and answers exactly whether the second
  subject is reachable from the first by grant edges of the tenant, in any number of steps, zero
  included.
\<close>

theorem grant_path_search:
  "mem_has_grant_path a b s = Inr ((a, b) \<in> (grant_graph (tenant_view s))\<^sup>*)"
  by (rule mem_has_grant_path_iff)

text \<open>
  \<open>HasAdministrator\<close> of the memory adapter answers the abstract question in every reachable state:
  whether one subject holds all three controls at tenant scope on live roles, and
  \<open>ErrInvalidPolicy\<close> when a control grant on an assigned live role is malformed.
\<close>

theorem has_administrator_exact:
  assumes "kernel_run m sink (NewStore, a0) (st, a)"
  shows "mem_has_administrator controls (tenant_of st t) = p_has_administrator controls (policy_of st t)"
  using reachable_tenant(2) [OF assms, of t] mem_has_administrator_eq
  by (simp add: tenant_inv_def policy_of_def)

theorem has_administrator_exact_witness:
  "mem_has_administrator (mg_controls demo_manager) (tenant_of demo_store ''t'') =
     p_has_administrator (mg_controls demo_manager) (policy_of demo_store ''t'')"
  by (rule has_administrator_exact [OF demo_run [of "\<lambda>_ a. (None, a)" "()"]])

text \<open>
  The export is canonical: two stored tenants with the same roles, grants, versions, edges, audit
  trail and tombstone export the same bytes (or both fail), whatever order the maps hold their
  entries in.
\<close>

theorem export_canonical:
  assumes "tenant_inv m t s" and "tenant_inv m t s'" and "same_tenant s s'"
  shows "mem_export render t s = mem_export render t s'"
  using mem_export_canonical [OF _ _ _ _ assms(3)] assms(1,2) by (simp add: tenant_inv_def)

definition demo_reordered :: tenant_state where
  "demo_reordered = demo_tenant\<lparr>ts_role_perms := [(''w'', rev (map (\<lambda>g. (grant_key_of g, g)) (bi_grants demo_input)))]\<rparr>"

lemma demo_reordered_same:
  "map_get (sub_map (ts_role_perms demo_reordered) r) = map_get (sub_map (ts_role_perms demo_tenant) r)"
  by (auto simp: demo_reordered_def demo_tenant_def sub_map_def map_get_def demo_input_def grant_key_of_def fun_eq_iff)

theorem export_canonical_witness:
  "sn_grants (state_snapshot ''t'' demo_reordered) \<noteq> sn_grants (state_snapshot ''t'' demo_tenant) \<and>
   mem_export (\<lambda>s. Inr (concat (map rg_permission (sn_grants s)))) ''t'' demo_tenant =
     mem_export (\<lambda>s. Inr (concat (map rg_permission (sn_grants s)))) ''t'' demo_reordered"
proof -
  have view: "tenant_view demo_reordered = tenant_view demo_tenant"
    by (simp add: tenant_view_def fun_eq_iff demo_reordered_same [unfolded fun_eq_iff] del: tenant_view_simps)
      (simp add: demo_reordered_def)
  have "tenant_state_ok demo_reordered"
  proof -
    have "nested_ok (ts_role_perms demo_reordered)"
      by (auto simp: nested_ok_def map_ok_def sub_map_def map_get_def demo_reordered_def demo_input_def grant_key_of_def)
    moreover have "dom (map_get (ts_role_perms demo_reordered)) = dom (map_get (ts_role_perms demo_tenant))"
      by (auto simp: demo_reordered_def demo_tenant_def map_get_def dom_def)
    ultimately show ?thesis
      using demo_tenant_ok(1) unfolding tenant_state_ok_def demo_reordered_same
      by (simp add: demo_reordered_def)
  qed
  moreover have "tenant_keyed demo_reordered"
    using demo_tenant_inv by (simp add: tenant_inv_def demo_reordered_def)
  moreover have "purge_ok demo_reordered"
    using demo_tenant_inv view by (simp add: tenant_inv_def purge_ok_def demo_reordered_def del: tenant_view_simps)
  ultimately have inv: "tenant_inv demo_manager ''t'' demo_reordered"
    using demo_tenant_ok view by (simp add: tenant_inv_def del: tenant_view_simps)
  have same: "same_tenant demo_tenant demo_reordered"
    using demo_reordered_same by (simp add: same_tenant_def) (simp add: demo_reordered_def)
  have "sn_grants (state_snapshot ''t'' demo_reordered) \<noteq> sn_grants (state_snapshot ''t'' demo_tenant)"
    by (simp add: state_snapshot_def demo_reordered_def demo_tenant_def demo_input_def)
  with export_canonical [OF demo_tenant_inv inv same] show ?thesis by blast
qed

end
