(* ===== verification/GoPath.thy ===== *)
theory GoPath
  imports GoStrings
begin

text \<open>
  The parts of Go's \<open>path\<close> package the program calls, on slash-separated names, and the shape of the
  relative paths made of proper components.
\<close>

definition slash :: char where "slash = CHR ''/''"

definition dot :: string where "dot = ''.''"
definition dotdot :: string where "dotdot = ''..''"

section \<open>The functions\<close>

text \<open>\<open>path.Clean\<close>: one component after the other, on a stack of the components kept.\<close>

definition clean_step :: "bool \<Rightarrow> string \<Rightarrow> string list \<Rightarrow> string list" where
  "clean_step rooted c out =
     (if c = [] \<or> c = dot then out
      else if c = dotdot then
        (if out \<noteq> [] \<and> hd out \<noteq> dotdot then tl out else if rooted then out else c # out)
      else c # out)"

definition IsAbs :: "string \<Rightarrow> bool" where
  "IsAbs p = (case p of [] \<Rightarrow> False | c # _ \<Rightarrow> c = slash)"

definition Clean :: "string \<Rightarrow> string" where
  "Clean p =
     (if p = [] then dot
      else let body = join_with slash (rev (fold (clean_step (IsAbs p)) (split_on slash p) [])) in
        if IsAbs p then slash # body else if body = [] then dot else body)"

text \<open>\<open>path.Dir\<close>: everything up to the last slash, cleaned.\<close>

definition Dir :: "string \<Rightarrow> string" where
  "Dir p = Clean (case butlast (split_on slash p) of [] \<Rightarrow> [] | cs \<Rightarrow> join_with slash cs @ [slash])"

definition Base :: "string \<Rightarrow> string" where
  "Base p =
     (if p = [] then dot
      else case rev (dropWhile ((=) slash) (rev p)) of
        [] \<Rightarrow> [slash]
      | q \<Rightarrow> last (split_on slash q))"

definition Join :: "string list \<Rightarrow> string" where
  "Join elems = (case filter (\<lambda>e. e \<noteq> []) elems of [] \<Rightarrow> [] | es \<Rightarrow> Clean (join_with slash es))"

section \<open>Paths of proper components\<close>

definition component :: "string \<Rightarrow> bool" where
  "component c = (c \<noteq> [] \<and> c \<noteq> dot \<and> c \<noteq> dotdot \<and> slash \<notin> set c)"

definition plain_path :: "string \<Rightarrow> bool" where
  "plain_path p = list_all component (split_on slash p)"

lemma component_slash: "component c \<Longrightarrow> slash \<notin> set c"
  by (simp add: component_def)

lemma slash_dotdot: "slash \<notin> set dotdot"
  by (simp add: slash_def dotdot_def)

lemma plain_join: "cs \<noteq> [] \<Longrightarrow> list_all component cs \<Longrightarrow> plain_path (join_with slash cs)"
  by (simp add: plain_path_def split_join_on list_all_iff component_def)

lemma plain_components:
  assumes "plain_path p"
  obtains cs where "cs \<noteq> []" "list_all component cs" "p = join_with slash cs" "split_on slash p = cs"
  using that [of "split_on slash p"] assms join_split_on [of slash p] by (simp add: plain_path_def)

lemma fold_clean_components:
  "list_all component cs \<Longrightarrow> fold (clean_step rooted) cs out = rev cs @ out"
  by (induction cs arbitrary: out) (auto simp: clean_step_def component_def)

lemma component_head:
  assumes "component c"
  obtains a s where "c = a # s" "a \<noteq> slash"
  using assms by (cases c) (auto simp: component_def)

lemma join_components:
  assumes "cs \<noteq> []" and "list_all component cs"
  shows "join_with slash cs \<noteq> []" "\<not> IsAbs (join_with slash cs)"
proof -
  obtain c cs' where cs: "cs = c # cs'" using assms(1) by (cases cs) auto
  with assms(2) obtain a s where c: "c = a # s" "a \<noteq> slash" by (auto elim: component_head)
  with cs show "join_with slash cs \<noteq> []" "\<not> IsAbs (join_with slash cs)" by (cases cs'; simp add: IsAbs_def)+
qed

lemma Clean_plain: "plain_path p \<Longrightarrow> Clean p = p"
proof -
  assume "plain_path p"
  then obtain cs where cs: "cs \<noteq> []" "list_all component cs" "p = join_with slash cs" "split_on slash p = cs"
    by (rule plain_components)
  with join_components [OF cs(1,2)] show ?thesis
    by (simp add: Clean_def fold_clean_components Let_def)
qed

lemma Clean_trailing:
  assumes "cs \<noteq> []" and "list_all component cs"
  shows "Clean (join_with slash cs @ [slash]) = join_with slash cs"
proof -
  have "split_on slash (join_with slash cs @ [slash]) = cs @ [[]]"
  proof -
    have "join_with slash cs @ [slash] = join_with slash (cs @ [[]])"
      using assms(1) by (induction cs rule: join_with.induct) auto
    then show ?thesis
      using assms by (simp add: split_join_on list_all_iff component_def)
  qed
  with join_components [OF assms] assms show ?thesis
    by (simp add: Clean_def fold_clean_components Let_def clean_step_def IsAbs_def split: list.splits)
qed

lemma Dir_components:
  assumes "cs \<noteq> []" and "list_all component cs"
  shows "Dir (join_with slash cs) = (if butlast cs = [] then dot else join_with slash (butlast cs))"
proof -
  have split: "split_on slash (join_with slash cs) = cs"
    using assms by (simp add: split_join_on list_all_iff component_def)
  have "list_all component (butlast cs)" using assms(2) by (auto simp: list_all_iff dest: in_set_butlastD)
  with Clean_trailing [of "butlast cs"] show ?thesis
    by (cases "butlast cs") (simp_all add: Dir_def split Clean_def)
qed

lemma Base_components:
  assumes "cs \<noteq> []" and "list_all component cs"
  shows "Base (join_with slash cs) = last cs"
proof -
  have split: "split_on slash (join_with slash cs) = cs"
    using assms by (simp add: split_join_on list_all_iff component_def)
  have last: "last cs \<noteq> []" "slash \<notin> set (last cs)"
    using assms by (auto simp: list_all_iff component_def)
  have join: "join_with slash cs = (if butlast cs = [] then last cs
      else join_with slash (butlast cs) @ slash # last cs)"
    using assms(1) by (induction cs rule: join_with.induct) auto
  then have "last (join_with slash cs) = last (last cs)" using last by auto
  with last have "last (join_with slash cs) \<noteq> slash" by (metis last_in_set)
  moreover have "join_with slash cs \<noteq> []" using join_components [OF assms] by simp
  ultimately have "dropWhile ((=) slash) (rev (join_with slash cs)) = rev (join_with slash cs)"
    by (cases "join_with slash cs" rule: rev_cases) auto
  with \<open>join_with slash cs \<noteq> []\<close> split show ?thesis
    by (auto simp: Base_def split: list.splits)
qed

text \<open>
  A relative path that \<open>Clean\<close> keeps, other than \<open>.\<close> and those that start upwards, is plain: the stack
  of \<open>Clean\<close> holds proper components above a run of \<open>..\<close>.
\<close>

definition stack_ok :: "string list \<Rightarrow> bool" where
  "stack_ok out = (\<exists>cs k. out = cs @ replicate k dotdot \<and> list_all component cs)"

lemma stack_ok_step:
  assumes "stack_ok out" and "slash \<notin> set c"
  shows "stack_ok (clean_step False c out)"
proof -
  from assms(1) obtain cs k where out: "out = cs @ replicate k dotdot" "list_all component cs"
    by (auto simp: stack_ok_def)
  consider "c = [] \<or> c = dot" | "c = dotdot" "c \<noteq> dot" "c \<noteq> []" | "component c"
    using assms(2) by (auto simp: component_def)
  then show ?thesis
  proof cases
    case 1
    with assms(1) show ?thesis by (simp add: clean_step_def)
  next
    case 2
    show ?thesis
    proof (cases cs)
      case Nil
      with out 2 have "clean_step False c out = [] @ replicate (Suc k) dotdot"
        by (cases k) (simp_all add: clean_step_def)
      then show ?thesis unfolding stack_ok_def by (intro exI [of _ "[]"] exI [of _ "Suc k"]) simp
    next
      case (Cons x xs)
      with out 2 have "clean_step False c out = xs @ replicate k dotdot" "list_all component xs"
        by (simp_all add: clean_step_def component_def)
      then show ?thesis unfolding stack_ok_def by blast
    qed
  next
    case 3
    with out have "clean_step False c out = (c # cs) @ replicate k dotdot" "list_all component (c # cs)"
      by (simp_all add: clean_step_def component_def)
    then show ?thesis unfolding stack_ok_def by blast
  qed
qed

lemma stack_ok_fold:
  "stack_ok out \<Longrightarrow> \<forall>c \<in> set cs. slash \<notin> set c \<Longrightarrow> stack_ok (fold (clean_step False) cs out)"
  by (induction cs arbitrary: out) (simp_all add: stack_ok_step)

lemma Clean_fixed_plain:
  assumes fixed: "Clean p = p" and rel: "p \<noteq> []" "\<not> IsAbs p"
    and up: "p \<noteq> dot" "p \<noteq> dotdot" "\<not> has_prefix p ''../''"
  shows "plain_path p"
proof -
  define out where "out = fold (clean_step False) (split_on slash p) []"
  have "stack_ok []" unfolding stack_ok_def by (intro exI [of _ "[]"] exI [of _ 0]) simp
  then have "stack_ok out" unfolding out_def by (rule stack_ok_fold) (auto dest: split_on_parts)
  then obtain cs k where cs: "out = cs @ replicate k dotdot" "list_all component cs"
    by (auto simp: stack_ok_def)
  then have rev: "rev out = replicate k dotdot @ rev cs" by simp
  have abs: "IsAbs p = False" using rel(2) by simp
  have clean: "Clean p = (if join_with slash (rev out) = [] then dot else join_with slash (rev out))"
    using rel(1) unfolding Clean_def abs out_def Let_def by simp
  have p: "p = join_with slash (rev out)" and nonempty: "rev out \<noteq> []"
    using clean unfolding fixed using up(1) by (metis join_with.simps(1))+
  have solid: "\<forall>c \<in> set (rev out). slash \<notin> set c"
    unfolding rev set_append set_rev using cs(2) by (auto simp: list_all_iff component_slash slash_dotdot)
  have split: "split_on slash p = rev out"
    by (subst p) (rule split_join_on [OF nonempty solid])
  show ?thesis
  proof (cases k)
    case 0
    with split rev cs show ?thesis by (simp add: plain_path_def list_all_iff)
  next
    case (Suc j)
    with rev have "rev out = dotdot # replicate j dotdot @ rev cs" by simp
    with p have "p = dotdot \<or> has_prefix p (dotdot @ [slash])"
      by (cases "replicate j dotdot @ rev cs") (simp_all add: has_prefix_def)
    with up show ?thesis by (simp add: dotdot_def slash_def)
  qed
qed

lemma plain_path_iff:
  "plain_path p \<longleftrightarrow> Clean p = p \<and> p \<noteq> [] \<and> \<not> IsAbs p \<and> p \<noteq> dot \<and> p \<noteq> dotdot \<and> \<not> has_prefix p ''../''"
proof
  assume plain: "plain_path p"
  then obtain cs where cs: "cs \<noteq> []" "list_all component cs" "p = join_with slash cs" "split_on slash p = cs"
    by (rule plain_components)
  have "dotdot \<notin> set (split_on slash p)" "dot \<notin> set (split_on slash p)"
    using cs by (auto simp: list_all_iff component_def)
  moreover have "dotdot \<in> set (split_on slash p)" if "has_prefix p ''../''"
    using that by (auto simp: has_prefix_def prefix_def slash_def dotdot_def)
  ultimately show "Clean p = p \<and> p \<noteq> [] \<and> \<not> IsAbs p \<and> p \<noteq> dot \<and> p \<noteq> dotdot \<and> \<not> has_prefix p ''../''"
    using Clean_plain [OF plain] join_components [OF cs(1,2)] cs(3)
    by (auto simp: dot_def dotdot_def slash_def)
qed (simp add: Clean_fixed_plain)

section \<open>Ancestors\<close>

text \<open>
  The ancestors of a plain path are the joins of the proper non-empty prefixes of its components.
\<close>

definition ancestors_of :: "string \<Rightarrow> string set" where
  "ancestors_of p = {a. plain_path a \<and> strict_prefix (split_on slash a) (split_on slash p)}"

lemma strict_prefix_snoc: "strict_prefix as (bs @ [x]) \<longleftrightarrow> as = bs \<or> strict_prefix as bs"
  by (auto simp: strict_prefix_def dest: prefix_length_le)

lemma ancestors_Dir:
  assumes "plain_path p"
  shows "if Dir p = dot then ancestors_of p = {} \<and> length (split_on slash p) = 1
    else plain_path (Dir p) \<and> ancestors_of p = insert (Dir p) (ancestors_of (Dir p)) \<and>
      length (split_on slash (Dir p)) < length (split_on slash p)"
proof -
  from assms obtain cs where cs: "cs \<noteq> []" "list_all component cs" "p = join_with slash cs" "split_on slash p = cs"
    by (rule plain_components)
  have front: "list_all component (butlast cs)" using cs(2) by (auto simp: list_all_iff dest: in_set_butlastD)
  show ?thesis
  proof (cases "butlast cs = []")
    case True
    with cs obtain c where c: "cs = [c]" by (cases cs) (auto split: if_splits)
    have "ancestors_of p = {}"
      using cs(4) c by (auto simp: ancestors_of_def strict_prefix_def prefix_Cons)
    with True c cs Dir_components [OF cs(1,2)] show ?thesis by simp
  next
    case False
    have plain: "plain_path (join_with slash (butlast cs))" by (rule plain_join [OF False front])
    have split: "split_on slash (join_with slash (butlast cs)) = butlast cs"
      using False front by (simp add: split_join_on list_all_iff component_slash)
    have "join_with slash (butlast cs) \<noteq> dot"
      using plain by (auto simp: plain_path_iff)
    moreover have "strict_prefix as cs \<longleftrightarrow> as = butlast cs \<or> strict_prefix as (butlast cs)" for as
      using strict_prefix_snoc [of as "butlast cs" "last cs"] cs(1) by simp
    then have "ancestors_of p = insert (join_with slash (butlast cs)) (ancestors_of (join_with slash (butlast cs)))"
      unfolding ancestors_of_def cs(4) split using plain join_split_on [of slash]
      by (auto simp: split) (metis join_split_on)
    ultimately show ?thesis
      using Dir_components [OF cs(1,2)] False plain cs by (simp add: split)
  qed
qed

end
