(* ===== verification/GoCodec.thy ===== *)
theory GoCodec
  imports GoStrings
begin

text \<open>
  The parts of Go's \<open>strconv\<close>, \<open>encoding/hex\<close> and \<open>encoding/base64\<close> packages the program calls:
  decimal numbers, lower-case hexadecimal, and \<open>base64.RawStdEncoding\<close> (the standard alphabet, no
  padding, not strict), with the round trips.
\<close>

section \<open>Decimal numbers\<close>

definition digit_char :: "nat \<Rightarrow> char" where
  "digit_char n = char_of (48 + n)"

definition is_digit :: "char \<Rightarrow> bool" where
  "is_digit c = (48 \<le> byte c \<and> byte c \<le> 57)"

lemma byte_digit_char [simp]: "n < 10 \<Longrightarrow> byte (digit_char n) = 48 + n"
  by (simp add: digit_char_def)

lemma is_digit_char [simp]: "n < 10 \<Longrightarrow> is_digit (digit_char n)"
  by (simp add: is_digit_def)

text \<open>\<open>%d\<close> of a non-negative number.\<close>

fun decimal :: "nat \<Rightarrow> string" where
  "decimal n = (if n < 10 then [digit_char n] else decimal (n div 10) @ [digit_char (n mod 10)])"

declare decimal.simps [simp del]

definition digits_value :: "string \<Rightarrow> nat" where
  "digits_value s = foldl (\<lambda>v c. 10 * v + (byte c - 48)) 0 s"

lemma decimal_solid: "decimal n \<noteq> []" "\<forall>c \<in> set (decimal n). is_digit c"
  by (induction n rule: decimal.induct) (subst decimal.simps, simp)+

lemma digits_value_decimal [simp]: "digits_value (decimal n) = n"
proof (induction n rule: decimal.induct)
  case (1 n)
  show ?case
  proof (cases "n < 10")
    case True
    then show ?thesis by (subst decimal.simps) (simp add: digits_value_def)
  next
    case False
    with 1 have "foldl (\<lambda>v c. 10 * v + (byte c - 48)) 0 (decimal (n div 10)) = n div 10"
      by (simp add: digits_value_def)
    with False show ?thesis by (subst decimal.simps) (simp add: digits_value_def)
  qed
qed

text \<open>\<open>strconv.ParseUint(s, 10, bits)\<close> on a string of digits: \<open>None\<close> is a syntax or range error.\<close>

definition ParseUint :: "string \<Rightarrow> nat \<Rightarrow> nat option" where
  "ParseUint s bits =
     (if s = [] \<or> (\<exists>c \<in> set s. \<not> is_digit c) then None
      else if 2 ^ bits \<le> digits_value s then None
      else Some (digits_value s))"

lemma ParseUint_decimal: "n < 2 ^ bits \<Longrightarrow> ParseUint (decimal n) bits = Some n"
  using decimal_solid [of n] by (auto simp: ParseUint_def)

section \<open>Hexadecimal\<close>

definition hex_digit :: "nat \<Rightarrow> char" where
  "hex_digit n = char_of (if n < 10 then 48 + n else 87 + n)"

definition hex_encode :: "string \<Rightarrow> string" where
  "hex_encode s = concat (map (\<lambda>c. [hex_digit (byte c div 16), hex_digit (byte c mod 16)]) s)"

definition is_hex :: "char \<Rightarrow> bool" where
  "is_hex c = (48 \<le> byte c \<and> byte c \<le> 57 \<or> 97 \<le> byte c \<and> byte c \<le> 102)"

lemma byte_less [simp]: "byte c < 256"
  by (simp add: nat_of_char_less_256)

lemma hex_digit_hex: "n < 16 \<Longrightarrow> is_hex (hex_digit n)"
  by (auto simp: is_hex_def hex_digit_def)

lemma length_hex_encode [simp]: "length (hex_encode s) = 2 * length s"
  by (induction s) (simp_all add: hex_encode_def)

lemma hex_encode_hex: "\<forall>c \<in> set (hex_encode s). is_hex c"
proof -
  have "byte c div 16 < 16" for c :: char using byte_less [of c] by linarith
  then show ?thesis by (auto simp: hex_encode_def hex_digit_hex)
qed

section \<open>Base64\<close>

definition b64_char :: "nat \<Rightarrow> char" where
  "b64_char n = char_of (if n < 26 then 65 + n else if n < 52 then 71 + n else if n < 62 then n - 4
     else if n = 62 then 43 else 47)"

definition b64_value :: "char \<Rightarrow> nat option" where
  "b64_value c =
     (if 65 \<le> byte c \<and> byte c \<le> 90 then Some (byte c - 65)
      else if 97 \<le> byte c \<and> byte c \<le> 122 then Some (byte c - 71)
      else if 48 \<le> byte c \<and> byte c \<le> 57 then Some (byte c + 4)
      else if byte c = 43 then Some 62 else if byte c = 47 then Some 63 else None)"

lemma b64_value_char [simp]:
  assumes "n < 64"
  shows "b64_value (b64_char n) = Some n"
proof -
  consider "n < 26" | "26 \<le> n" "n < 52" | "52 \<le> n" "n < 62" | "n = 62" | "n = 63" using assms by linarith
  then show ?thesis by cases (simp_all add: b64_value_def b64_char_def, linarith)
qed

fun b64_encode :: "string \<Rightarrow> string" where
  "b64_encode [] = []"
| "b64_encode [a] = [b64_char (byte a div 4), b64_char (byte a mod 4 * 16)]"
| "b64_encode [a, b] = [b64_char (byte a div 4), b64_char (byte a mod 4 * 16 + byte b div 16),
     b64_char (byte b mod 16 * 4)]"
| "b64_encode (a # b # c # r) = b64_char (byte a div 4) # b64_char (byte a mod 4 * 16 + byte b div 16) #
     b64_char (byte b mod 16 * 4 + byte c div 64) # b64_char (byte c mod 64) # b64_encode r"

definition b64_length :: "nat \<Rightarrow> nat" where
  "b64_length n = n div 3 * 4 + (n mod 3 * 8 + 5) div 6"

text \<open>
  Decoding: line breaks are skipped, any other character has to be in the alphabet, a last quantum of
  one character is an error, and the trailing bits of a shorter last quantum are not looked at.
\<close>

fun b64_bytes :: "nat list \<Rightarrow> string option" where
  "b64_bytes [] = Some []"
| "b64_bytes [x] = None"
| "b64_bytes [x, y] = Some [char_of (x * 4 + y div 16)]"
| "b64_bytes [x, y, z] = Some [char_of (x * 4 + y div 16), char_of (y mod 16 * 16 + z div 4)]"
| "b64_bytes (w # x # y # z # r) =
     map_option (\<lambda>s. char_of (w * 4 + x div 16) # char_of (x mod 16 * 16 + y div 4) #
       char_of (y mod 4 * 64 + z) # s) (b64_bytes r)"

fun b64_values :: "string \<Rightarrow> nat list option" where
  "b64_values [] = Some []"
| "b64_values (c # s) =
     (if byte c = 10 \<or> byte c = 13 then b64_values s
      else case b64_value c of
        None \<Rightarrow> None
      | Some v \<Rightarrow> map_option ((#) v) (b64_values s))"

definition b64_decode :: "string \<Rightarrow> string option" where
  "b64_decode s = (case b64_values s of None \<Rightarrow> None | Some vs \<Rightarrow> b64_bytes vs)"

lemma b64_char_line [simp]: "n < 64 \<Longrightarrow> byte (b64_char n) \<noteq> 10 \<and> byte (b64_char n) \<noteq> 13"
  by (auto simp: b64_char_def)

lemma b64_values_char [simp]:
  "n < 64 \<Longrightarrow> b64_values (b64_char n # s) = map_option ((#) n) (b64_values s)"
  by simp

lemma sextet_bounds:
  fixes a b c :: nat
  assumes "a < 256" and "b < 256" and "c < 256"
  shows "a div 4 < 64" "a mod 4 * 16 < 64" "a mod 4 * 16 + b div 16 < 64" "b mod 16 * 4 < 64"
    "b mod 16 * 4 + c div 64 < 64" "c mod 64 < 64"
proof -
  have m: "a mod 4 < 4" "b mod 16 < 16" "b div 16 < 16" "c div 64 < 4" using assms by (simp_all add: less_mult_imp_div_less)
  show "a div 4 < 64" using assms by (simp add: less_mult_imp_div_less)
  show "a mod 4 * 16 < 64" "a mod 4 * 16 + b div 16 < 64" "b mod 16 * 4 < 64" "b mod 16 * 4 + c div 64 < 64"
    using m by linarith+
qed simp

lemma div_mod_digit:
  fixes p q k :: nat
  assumes "q < k"
  shows "(p * k + q) div k = p" "(p * k + q) mod k = q"
  using assms by simp_all

lemma sextet_join:
  fixes a b c :: nat
  assumes "a < 256" and "b < 256" and "c < 256"
  shows "a div 4 * 4 + (a mod 4 * 16) div 16 = a"
    "a div 4 * 4 + (a mod 4 * 16 + b div 16) div 16 = a"
    "(a mod 4 * 16 + b div 16) mod 16 * 16 + (b mod 16 * 4) div 4 = b"
    "(a mod 4 * 16 + b div 16) mod 16 * 16 + (b mod 16 * 4 + c div 64) div 4 = b"
    "(b mod 16 * 4 + c div 64) mod 4 * 64 + c mod 64 = c"
proof -
  have m: "b div 16 < 16" "c div 64 < 4" using assms by (simp_all add: less_mult_imp_div_less)
  note d = div_mod_digit [OF m(1), of "a mod 4"] div_mod_digit [OF m(2), of "b mod 16"]
  show "a div 4 * 4 + (a mod 4 * 16) div 16 = a" "a div 4 * 4 + (a mod 4 * 16 + b div 16) div 16 = a"
    unfolding d by simp_all
  show "(a mod 4 * 16 + b div 16) mod 16 * 16 + (b mod 16 * 4) div 4 = b"
    "(a mod 4 * 16 + b div 16) mod 16 * 16 + (b mod 16 * 4 + c div 64) div 4 = b"
    "(b mod 16 * 4 + c div 64) mod 4 * 64 + c mod 64 = c"
    unfolding d by simp_all
qed

lemma sextet_chars:
  "char_of (byte a div 4 * 4 + (byte a mod 4 * 16) div 16) = a"
  "char_of (byte a div 4 * 4 + (byte a mod 4 * 16 + byte b div 16) div 16) = a"
  "char_of ((byte a mod 4 * 16 + byte b div 16) mod 16 * 16 + (byte b mod 16 * 4) div 4) = b"
  "char_of ((byte a mod 4 * 16 + byte b div 16) mod 16 * 16 + (byte b mod 16 * 4 + byte c div 64) div 4) = b"
  "char_of ((byte b mod 16 * 4 + byte c div 64) mod 4 * 64 + byte c mod 64) = c"
  using sextet_join [of "byte a" "byte b" "byte c"] by (simp_all del: mult_div_mod_eq)

lemmas byte_sextets = sextet_bounds [OF byte_less byte_less byte_less]

lemma b64_round: "b64_decode (b64_encode s) = Some s"
proof (induction s rule: b64_encode.induct)
  case 1
  then show ?case by (simp add: b64_decode_def)
next
  case (2 a)
  show ?case
    by (simp only: b64_decode_def b64_encode.simps b64_values_char byte_sextets b64_values.simps(1)
        option.map option.case b64_bytes.simps sextet_chars)
next
  case (3 a b)
  show ?case
    by (simp only: b64_decode_def b64_encode.simps b64_values_char byte_sextets b64_values.simps(1)
        option.map option.case b64_bytes.simps sextet_chars)
next
  case (4 a b c r)
  then obtain vs where "b64_values (b64_encode r) = Some vs" "b64_bytes vs = Some r"
    by (auto simp: b64_decode_def split: option.splits)
  then show ?case
    by (simp only: b64_decode_def b64_encode.simps b64_values_char byte_sextets
        option.map option.case b64_bytes.simps sextet_chars)
qed

lemma length_b64_encode: "length (b64_encode s) = b64_length (length s)"
proof (induction s rule: b64_encode.induct)
  case (4 a b c r)
  have "Suc (Suc (Suc n)) div 3 = Suc (n div 3)" "Suc (Suc (Suc n)) mod 3 = n mod 3" for n by presburger+
  with 4 show ?case by (simp add: b64_length_def)
qed (simp_all add: b64_length_def)

lemma b64_encode_safe: "c \<in> set (b64_encode s) \<Longrightarrow> \<exists>n < 64. c = b64_char n"
proof (induction s rule: b64_encode.induct)
  case (2 a)
  then show ?case unfolding b64_encode.simps set_simps using byte_sextets(1,2) by blast
next
  case (3 a b)
  then show ?case unfolding b64_encode.simps set_simps using byte_sextets(1,3,4) by blast
next
  case (4 a b c r)
  then show ?case unfolding b64_encode.simps set_simps using byte_sextets(1,3,5,6) by blast
qed simp

lemma b64_char_dollar [simp]: "n < 64 \<Longrightarrow> b64_char n \<noteq> CHR ''$''"
  using b64_value_char [of n] by (auto simp: b64_value_def)

end
