(* ===== verification/SyncManifest.thy ===== *)
theory SyncManifest
  imports GoPath GoCodec
begin

text \<open>
  \<open>internal/coresync/sync.go\<close>, the pure part: manifests, provenance records and options, their
  validation, the safe relative paths, the collision check, and the scan that rejects duplicate JSON
  keys. An error is the text of the code's message and
  what it quotes, an error of the operating system, or a joined list of errors.
\<close>

section \<open>Errors\<close>

datatype os_error = NotExist | Exist | NotDirectory | Loop | NotEmpty | IsDirectory | IoFailure

datatype sync_error =
    Errorf string "string list"
  | OsError os_error
  | Joined "sync_error list"
  | DoesNotReturn

text \<open>\<open>errors.Join\<close>: nil errors are dropped, and no error at all is nil.\<close>

definition errors_Join :: "sync_error option list \<Rightarrow> sync_error option" where
  "errors_Join es = (let xs = map the (filter (\<lambda>e. e \<noteq> None) es) in if xs = [] then None else Some (Joined xs))"

lemma errors_Join_None: "errors_Join es = None \<longleftrightarrow> (\<forall>e \<in> set es. e = None)"
  by (simp add: errors_Join_def Let_def filter_empty_conv)

section \<open>Data\<close>

record entry =
  en_source :: string
  en_destination :: string

record manifest =
  mf_schema_version :: int
  mf_source_repository :: string
  mf_license :: string
  mf_entries :: "entry list"

record provenance_entry =
  pe_source :: string
  pe_destination :: string
  pe_sha256 :: string

record provenance =
  pv_schema_version :: int
  pv_source_repository :: string
  pv_source_commit :: string
  pv_license :: string
  pv_entries :: "provenance_entry list"

record options =
  op_source_root :: string
  op_destination_root :: string
  op_source_commit :: string
  op_provenance_path :: string
  op_check :: bool

definition supportedSchemaVersion :: int where "supportedSchemaVersion = 1"

definition apache2 :: string where "apache2 = ''Apache-2.0''"

section \<open>Patterns and paths\<close>

text \<open>\<open>^[0-9a-f]{n}$\<close>.\<close>

definition hex_of_length :: "nat \<Rightarrow> string \<Rightarrow> bool" where
  "hex_of_length n s = (length s = n \<and> list_all is_hex s)"

definition isValidSourceCommit :: "string \<Rightarrow> bool" where
  "isValidSourceCommit commit = (hex_of_length 40 commit \<or> hex_of_length 64 commit)"

definition sha256Pattern :: "string \<Rightarrow> bool" where
  "sha256Pattern s = hex_of_length 64 s"

definition isASCIIAlpha :: "char \<Rightarrow> bool" where
  "isASCIIAlpha c = (97 \<le> byte c \<and> byte c \<le> 122 \<or> 65 \<le> byte c \<and> byte c \<le> 90)"

definition pattern_chars :: string where
  "pattern_chars = ''*?[]{}''"

definition isSafeRelativePath :: "string \<Rightarrow> bool" where
  "isSafeRelativePath v =
     (if v = [] \<or> v = ''.'' \<or> CHR 0x5C \<in> set v \<or> CHR 0x00 \<in> set v \<or> (\<exists>c \<in> set pattern_chars. c \<in> set v)
      then False
      else if IsAbs v \<or> Clean v \<noteq> v \<or> v = ''..'' \<or> has_prefix v ''../'' then False
      else \<not> (2 \<le> length v \<and> v ! 1 = CHR '':'' \<and> isASCIIAlpha (v ! 0)))"

section \<open>Validation\<close>

definition check_path_pair ::
  "string \<Rightarrow> string \<Rightarrow> string \<Rightarrow> string \<Rightarrow> string list \<times> string list \<Rightarrow>
     sync_error + string list \<times> string list" where
  "check_path_pair dup_source dup_destination source destination acc = (case acc of (sources, destinations) \<Rightarrow>
     if source \<in> set sources then Inl (Errorf dup_source [source])
     else if destination \<in> set destinations then Inl (Errorf dup_destination [destination])
     else Inr (source # sources, destination # destinations))"

definition validate_entry :: "entry \<Rightarrow> string list \<times> string list \<Rightarrow> sync_error + string list \<times> string list" where
  "validate_entry e acc =
     (if \<not> isSafeRelativePath (en_source e) then Inl (Errorf ''unsafe source path'' [en_source e])
      else if \<not> isSafeRelativePath (en_destination e) then Inl (Errorf ''unsafe destination path'' [en_destination e])
      else check_path_pair ''duplicate source path'' ''duplicate destination path'' (en_source e) (en_destination e) acc)"

definition ValidateManifest :: "manifest \<Rightarrow> sync_error + unit" where
  "ValidateManifest m =
     (if mf_schema_version m \<noteq> supportedSchemaVersion then Inl (Errorf ''schema_version must be 1'' [])
      else if trim_space (mf_source_repository m) = [] then Inl (Errorf ''source_repository must be non-empty'' [])
      else if mf_license m \<noteq> apache2 then Inl (Errorf ''license must be Apache-2.0'' [])
      else if length (mf_entries m) = 0 then Inl (Errorf ''manifest must contain at least one entry'' [])
      else ebind (efold validate_entry (mf_entries m) ([], [])) (\<lambda>_. Inr ()))"

definition validateOptions :: "options \<Rightarrow> sync_error + unit" where
  "validateOptions opts =
     (if trim_space (op_source_root opts) = [] then Inl (Errorf ''source root is required'' [])
      else if trim_space (op_destination_root opts) = [] then Inl (Errorf ''destination root is required'' [])
      else if \<not> isValidSourceCommit (op_source_commit opts) then Inl (Errorf ''source commit must be exactly 40 or 64 lowercase hexadecimal characters'' [])
      else if \<not> isSafeRelativePath (op_provenance_path opts) then Inl (Errorf ''unsafe provenance path'' [op_provenance_path opts])
      else Inr ())"

definition validate_provenance_entry ::
  "provenance_entry \<Rightarrow> string list \<times> string list \<Rightarrow> sync_error + string list \<times> string list" where
  "validate_provenance_entry e acc =
     (if \<not> isSafeRelativePath (pe_source e) then Inl (Errorf ''unsafe provenance source path'' [pe_source e])
      else if \<not> isSafeRelativePath (pe_destination e) then Inl (Errorf ''unsafe destination path in provenance'' [pe_destination e])
      else if \<not> sha256Pattern (pe_sha256 e) then Inl (Errorf ''invalid SHA-256 for destination'' [pe_destination e])
      else check_path_pair ''duplicate provenance source path'' ''duplicate provenance destination path''
        (pe_source e) (pe_destination e) acc)"

definition validateProvenance :: "provenance \<Rightarrow> sync_error + unit" where
  "validateProvenance p =
     (if pv_schema_version p \<noteq> supportedSchemaVersion then Inl (Errorf ''provenance schema_version must be 1'' [])
      else if trim_space (pv_source_repository p) = [] then Inl (Errorf ''provenance source_repository must be non-empty'' [])
      else if \<not> isValidSourceCommit (pv_source_commit p) then Inl (Errorf ''provenance source_commit must be exactly 40 or 64 lowercase hexadecimal characters'' [])
      else if pv_license p \<noteq> apache2 then Inl (Errorf ''provenance license must be Apache-2.0'' [])
      else if length (pv_entries p) = 0 then Inl (Errorf ''provenance must contain at least one entry'' [])
      else ebind (efold validate_provenance_entry (pv_entries p) ([], [])) (\<lambda>_. Inr ()))"

section \<open>Path collisions\<close>

fun first_duplicate :: "string list \<Rightarrow> string list \<Rightarrow> string option" where
  "first_duplicate seen [] = None"
| "first_duplicate seen (p # ps) = (if p \<in> set seen then Some p else first_duplicate (p # seen) ps)"

text \<open>The walk from a path to its ancestors, which would not return on an absolute path.\<close>

partial_function (option) ancestor_scan :: "string list \<Rightarrow> string \<Rightarrow> string \<Rightarrow> (sync_error + unit) option" where
  "ancestor_scan paths descendant ancestor =
     (if ancestor = dot then Some (Inr ())
      else if ancestor \<in> set paths then Some (Inl (Errorf ''path collision between'' [ancestor, descendant]))
      else ancestor_scan paths descendant (Dir ancestor))"

declare ancestor_scan.simps [code]

fun collision_scan :: "string list \<Rightarrow> string list \<Rightarrow> (sync_error + unit) option" where
  "collision_scan paths [] = Some (Inr ())"
| "collision_scan paths (d # ds) =
     (case ancestor_scan paths d (Dir d) of
        None \<Rightarrow> None
      | Some (Inl e) \<Rightarrow> Some (Inl e)
      | Some (Inr _) \<Rightarrow> collision_scan paths ds)"

definition validatePathCollisions :: "string list \<Rightarrow> string \<Rightarrow> (sync_error + unit) option" where
  "validatePathCollisions destinations provenancePath =
     (let paths = destinations @ [provenancePath] in
      case first_duplicate [] paths of
        Some p \<Rightarrow> Some (Inl (Errorf ''path collision at'' [p]))
      | None \<Rightarrow> collision_scan paths paths)"

section \<open>What the checks accept\<close>

definition portable :: "string \<Rightarrow> bool" where
  "portable v = (CHR 0x5C \<notin> set v \<and> CHR 0x00 \<notin> set v \<and> set v \<inter> set pattern_chars = {} \<and>
     \<not> (2 \<le> length v \<and> v ! 1 = CHR '':'' \<and> isASCIIAlpha (v ! 0)))"

lemma isSafeRelativePath_iff: "isSafeRelativePath v \<longleftrightarrow> plain_path v \<and> portable v"
  unfolding isSafeRelativePath_def portable_def plain_path_iff dot_def dotdot_def by auto

lemma safe_plain: "isSafeRelativePath v \<Longrightarrow> plain_path v"
  by (simp add: isSafeRelativePath_iff)

lemma check_path_pairs:
  assumes "\<And>e acc. step e acc = (case bad e of
      Some x \<Rightarrow> Inl x | None \<Rightarrow> check_path_pair ds dd (src e) (dst e) acc)"
  shows "isl (efold step es (ss, ts)) \<longleftrightarrow>
    (\<exists>e \<in> set es. bad e \<noteq> None) \<or> \<not> distinct (map src es) \<or> \<not> distinct (map dst es) \<or>
    set (map src es) \<inter> set ss \<noteq> {} \<or> set (map dst es) \<inter> set ts \<noteq> {}"
proof (induction es arbitrary: ss ts)
  case Nil
  then show ?case by simp
next
  case (Cons e es)
  show ?case
  proof (cases "bad e = None \<and> src e \<notin> set ss \<and> dst e \<notin> set ts")
    case True
    then show ?thesis
      using Cons.IH [of "src e # ss" "dst e # ts"] by (simp add: assms check_path_pair_def)
  next
    case False
    then show ?thesis by (auto simp: assms check_path_pair_def split: option.splits)
  qed
qed

definition manifest_ok :: "manifest \<Rightarrow> bool" where
  "manifest_ok m = (mf_schema_version m = 1 \<and> trim_space (mf_source_repository m) \<noteq> [] \<and>
     mf_license m = apache2 \<and> mf_entries m \<noteq> [] \<and>
     (\<forall>e \<in> set (mf_entries m). isSafeRelativePath (en_source e) \<and> isSafeRelativePath (en_destination e)) \<and>
     distinct (map en_source (mf_entries m)) \<and> distinct (map en_destination (mf_entries m)))"

definition provenance_ok :: "provenance \<Rightarrow> bool" where
  "provenance_ok p = (pv_schema_version p = 1 \<and> trim_space (pv_source_repository p) \<noteq> [] \<and>
     isValidSourceCommit (pv_source_commit p) \<and> pv_license p = apache2 \<and> pv_entries p \<noteq> [] \<and>
     (\<forall>e \<in> set (pv_entries p). isSafeRelativePath (pe_source e) \<and> isSafeRelativePath (pe_destination e) \<and>
        sha256Pattern (pe_sha256 e)) \<and>
     distinct (map pe_source (pv_entries p)) \<and> distinct (map pe_destination (pv_entries p)))"

lemma ebind_unit: "ebind r (\<lambda>_. Inr ()) = Inr () \<longleftrightarrow> \<not> isl r"
  by (cases r) simp_all

lemma ValidateManifest_iff: "ValidateManifest m = Inr () \<longleftrightarrow> manifest_ok m"
proof -
  have step: "validate_entry e acc = (case (if \<not> isSafeRelativePath (en_source e) then Some (Errorf ''unsafe source path'' [en_source e])
        else if \<not> isSafeRelativePath (en_destination e) then Some (Errorf ''unsafe destination path'' [en_destination e]) else None) of
      Some x \<Rightarrow> Inl x
    | None \<Rightarrow> check_path_pair ''duplicate source path'' ''duplicate destination path'' (en_source e) (en_destination e) acc)" for e acc
    by (simp add: validate_entry_def)
  show ?thesis
    unfolding ValidateManifest_def manifest_ok_def supportedSchemaVersion_def
    using check_path_pairs [OF step, where es = "mf_entries m" and ss = "[]" and ts = "[]"] by (auto simp: ebind_unit split: if_splits)
qed

lemma validateProvenance_iff: "validateProvenance p = Inr () \<longleftrightarrow> provenance_ok p"
proof -
  have step: "validate_provenance_entry e acc = (case (if \<not> isSafeRelativePath (pe_source e) then Some (Errorf ''unsafe provenance source path'' [pe_source e])
        else if \<not> isSafeRelativePath (pe_destination e) then Some (Errorf ''unsafe destination path in provenance'' [pe_destination e])
        else if \<not> sha256Pattern (pe_sha256 e) then Some (Errorf ''invalid SHA-256 for destination'' [pe_destination e]) else None) of
      Some x \<Rightarrow> Inl x
    | None \<Rightarrow> check_path_pair ''duplicate provenance source path'' ''duplicate provenance destination path'' (pe_source e) (pe_destination e) acc)"
    for e acc
    by (simp add: validate_provenance_entry_def)
  show ?thesis
    unfolding validateProvenance_def provenance_ok_def supportedSchemaVersion_def
    using check_path_pairs [OF step, where es = "pv_entries p" and ss = "[]" and ts = "[]"] by (auto simp: ebind_unit split: if_splits)
qed

section \<open>Collisions\<close>

lemma first_duplicate_None: "first_duplicate seen ps = None \<longleftrightarrow> distinct ps \<and> set ps \<inter> set seen = {}"
  by (induction ps arbitrary: seen) auto

lemma ancestor_scan_Dir:
  assumes "plain_path p"
  obtains r where "ancestor_scan paths d (Dir p) = Some r"
    "r = Inr () \<or> (\<exists>a. a \<in> ancestors_of p \<and> a \<in> set paths \<and> r = Inl (Errorf ''path collision between'' [a, d]))"
    "r = Inr () \<longleftrightarrow> ancestors_of p \<inter> set paths = {}"
  using assms
proof (induction "length (split_on slash p)" arbitrary: p thesis rule: less_induct)
  case less
  note up = ancestors_Dir [OF less.prems(2)]
  show ?case
  proof (cases "Dir p = dot")
    case True
    with up less.prems(1) [of "Inr ()"] show ?thesis by (simp add: ancestor_scan.simps)
  next
    case False
    with up have dir: "plain_path (Dir p)" "ancestors_of p = insert (Dir p) (ancestors_of (Dir p))"
      "length (split_on slash (Dir p)) < length (split_on slash p)" by simp_all
    show ?thesis
    proof (cases "Dir p \<in> set paths")
      case True
      with False dir(2) less.prems(1) [of "Inl (Errorf ''path collision between'' [Dir p, d])"] show ?thesis
        by (simp add: ancestor_scan.simps)
    next
      case outside: False
      obtain r where r: "ancestor_scan paths d (Dir (Dir p)) = Some r"
        "r = Inr () \<or> (\<exists>a. a \<in> ancestors_of (Dir p) \<and> a \<in> set paths \<and> r = Inl (Errorf ''path collision between'' [a, d]))"
        "r = Inr () \<longleftrightarrow> ancestors_of (Dir p) \<inter> set paths = {}"
        using less.hyps [OF dir(3) _ dir(1)] by blast
      have scan: "ancestor_scan paths d (Dir p) = Some r"
        using False outside r(1) by (subst ancestor_scan.simps) simp
      have "r = Inr () \<or> (\<exists>a. a \<in> ancestors_of p \<and> a \<in> set paths \<and> r = Inl (Errorf ''path collision between'' [a, d]))"
        using r(2) dir(2) by auto
      moreover have "r = Inr () \<longleftrightarrow> ancestors_of p \<inter> set paths = {}"
        using r(3) dir(2) outside by simp
      ultimately show ?thesis using less.prems(1) [of r] scan by simp
    qed
  qed
qed

text \<open>No path is another one or lies below another one.\<close>

definition collision_free :: "string list \<Rightarrow> bool" where
  "collision_free paths = (distinct paths \<and> (\<forall>p \<in> set paths. ancestors_of p \<inter> set paths = {}))"

lemma collision_scan_iff:
  assumes "list_all plain_path ds"
  obtains r where "collision_scan paths ds = Some r"
    "r = Inr () \<longleftrightarrow> (\<forall>p \<in> set ds. ancestors_of p \<inter> set paths = {})"
  using assms
proof (induction ds arbitrary: thesis)
  case Nil
  then show ?case by simp
next
  case (Cons d ds)
  obtain r where r: "ancestor_scan paths d (Dir d) = Some r" "r = Inr () \<longleftrightarrow> ancestors_of d \<inter> set paths = {}"
    using ancestor_scan_Dir [of d paths d] Cons.prems(2) by auto
  show ?case
  proof (cases r)
    case (Inl e)
    with r Cons.prems(1) [of "Inl e"] show ?thesis by simp
  next
    case (Inr u)
    obtain r' where "collision_scan paths ds = Some r'" "r' = Inr () \<longleftrightarrow> (\<forall>p \<in> set ds. ancestors_of p \<inter> set paths = {})"
      using Cons.IH Cons.prems(2) by auto
    with r Inr Cons.prems(1) [of r'] show ?thesis by simp
  qed
qed

lemma validatePathCollisions_iff:
  assumes "list_all plain_path (ds @ [p])"
  obtains r where "validatePathCollisions ds p = Some r" "r = Inr () \<longleftrightarrow> collision_free (ds @ [p])"
proof (cases "first_duplicate [] (ds @ [p])")
  case None
  then have distinct: "distinct (ds @ [p])" unfolding first_duplicate_None by simp
  obtain r where "collision_scan (ds @ [p]) (ds @ [p]) = Some r"
    "r = Inr () \<longleftrightarrow> (\<forall>q \<in> set (ds @ [p]). ancestors_of q \<inter> set (ds @ [p]) = {})"
    using collision_scan_iff [OF assms] by blast
  with None distinct that [of r] show ?thesis
    unfolding validatePathCollisions_def Let_def collision_free_def by simp
next
  case (Some q)
  then have "\<not> distinct (ds @ [p])" using first_duplicate_None [of "[]" "ds @ [p]"] by auto
  with Some that [of "Inl (Errorf ''path collision at'' [q])"] show ?thesis
    unfolding validatePathCollisions_def Let_def collision_free_def by simp
qed

end
