(* ===== verification/GoFs.thy ===== *)
theory GoFs
  imports SyncManifest
begin

text \<open>
  The file system behind Go's \<open>os.Root\<close>, as far as the program uses it. A world holds inodes and
  directory entries; a hard link is a second entry for an inode, \<open>os.SameFile\<close> compares inodes, and
  an inode is not used again after its last entry is gone. Every operation takes one tick of the clock
  and may fail at it: the host's fault schedule says when. Two consecutive operations see the same
  world, up to the test hook of the publication.
\<close>

section \<open>Worlds\<close>

type_synonym inode = nat

text \<open>A symlink holds the inode \<open>os.Root\<close> resolves it to, if any.\<close>

datatype node = RegularFile string nat | Directory | Symlink "inode option" | Device

datatype file_kind = KindRegular | KindDirectory | KindSymlink | KindOther

record file_info =
  fi_inode :: inode
  fi_kind :: file_kind
  fi_perm :: nat

record world =
  w_nodes :: "(inode, node) gomap"
  w_entries :: "(inode \<times> string, inode) gomap"
  w_next :: inode
  w_tick :: nat
  w_draws :: nat

datatype publish_phase = AfterValidation | BeforeManagedPublication | AfterPublication

text \<open>
  The host: the faults, the random bytes, SHA-256, the inode a file name of the process denotes, and
  the test hook of the publication.
\<close>

record host =
  ho_fault :: "nat \<Rightarrow> nat option"
  ho_random :: "nat \<Rightarrow> string option"
  ho_sha256 :: "string \<Rightarrow> string"
  ho_name :: "string \<Rightarrow> inode option"
  ho_hook :: "(publish_phase \<Rightarrow> nat \<Rightarrow> string \<Rightarrow> world \<Rightarrow> sync_error option \<times> world) option"

definition kind_of :: "node \<Rightarrow> file_kind" where
  "kind_of n = (case n of RegularFile _ _ \<Rightarrow> KindRegular | Directory \<Rightarrow> KindDirectory
     | Symlink _ \<Rightarrow> KindSymlink | Device \<Rightarrow> KindOther)"

definition perm_of :: "node \<Rightarrow> nat" where
  "perm_of n = (case n of RegularFile _ mode \<Rightarrow> mode | _ \<Rightarrow> 0)"

definition info_of :: "inode \<Rightarrow> node \<Rightarrow> file_info" where
  "info_of i n = \<lparr>fi_inode = i, fi_kind = kind_of n, fi_perm = perm_of n\<rparr>"

definition SameFile :: "file_info \<Rightarrow> file_info \<Rightarrow> bool" where
  "SameFile a b = (fi_inode a = fi_inode b)"

section \<open>Fallible steps on a world\<close>

type_synonym ('s, 'a) fallible = "'s \<Rightarrow> (sync_error + 'a) \<times> 's"
type_synonym 'a io = "(world, 'a) fallible"

definition io_return :: "'a \<Rightarrow> ('s, 'a) fallible" where
  "io_return x w = (Inr x, w)"

definition io_fail :: "sync_error \<Rightarrow> ('s, 'a) fallible" where
  "io_fail e w = (Inl e, w)"

definition io_bind :: "('s, 'a) fallible \<Rightarrow> ('a \<Rightarrow> ('s, 'b) fallible) \<Rightarrow> ('s, 'b) fallible" where
  "io_bind m k w = (case m w of (Inl e, w') \<Rightarrow> (Inl e, w') | (Inr x, w') \<Rightarrow> k x w')"

text \<open>The error as a value, for the code that looks at it.\<close>

definition io_try :: "('s, 'a) fallible \<Rightarrow> ('s, sync_error + 'a) fallible" where
  "io_try m w = (case m w of (r, w') \<Rightarrow> (Inr r, w'))"

definition io_check :: "bool \<Rightarrow> sync_error \<Rightarrow> ('s, unit) fallible" where
  "io_check ok e = (if ok then io_return () else io_fail e)"

definition io_lift :: "sync_error + 'a \<Rightarrow> ('s, 'a) fallible" where
  "io_lift r w = (r, w)"

definition error_of :: "sync_error + 'a \<Rightarrow> sync_error option" where
  "error_of r = (case r of Inl e \<Rightarrow> Some e | Inr _ \<Rightarrow> None)"

lemma error_of_simps [simp]: "error_of (Inl e) = Some e" "error_of (Inr x) = None"
  by (simp_all add: error_of_def)

section \<open>Operations\<close>

definition os_op :: "host \<Rightarrow> (world \<Rightarrow> os_error + 'a \<times> world) \<Rightarrow> 'a io" where
  "os_op h f w =
     (let w' = w\<lparr>w_tick := Suc (w_tick w)\<rparr> in
      case ho_fault h (w_tick w) of
        Some _ \<Rightarrow> (Inl (OsError IoFailure), w')
      | None \<Rightarrow> (case f w' of Inl e \<Rightarrow> (Inl (OsError e), w') | Inr (x, w'') \<Rightarrow> (Inr x, w'')))"

definition entry_at :: "world \<Rightarrow> inode \<Rightarrow> string \<Rightarrow> inode option" where
  "entry_at w d name = map_get (w_entries w) (d, name)"

definition node_at :: "world \<Rightarrow> inode \<Rightarrow> node option" where
  "node_at w i = map_get (w_nodes w) i"

fun walk :: "world \<Rightarrow> inode \<Rightarrow> string list \<Rightarrow> os_error + inode" where
  "walk w d [] = Inr d"
| "walk w d (c # cs) =
     (if node_at w d \<noteq> Some Directory then Inl NotDirectory
      else case entry_at w d c of
        None \<Rightarrow> Inl NotExist
      | Some i \<Rightarrow>
          if cs = [] then Inr i
          else (case node_at w i of
              Some (Symlink (Some j)) \<Rightarrow> walk w j cs
            | Some (Symlink None) \<Rightarrow> Inl NotExist
            | _ \<Rightarrow> walk w i cs))"

definition path_components :: "string \<Rightarrow> string list" where
  "path_components p = (if p = dot then [] else split_on slash p)"

definition stat_inode :: "world \<Rightarrow> inode \<Rightarrow> os_error + file_info" where
  "stat_inode w i = (case node_at w i of None \<Rightarrow> Inl NotExist | Some n \<Rightarrow> Inr (info_of i n))"

definition Lstat :: "host \<Rightarrow> inode \<Rightarrow> string \<Rightarrow> file_info io" where
  "Lstat h root p = os_op h (\<lambda>w.
     ebind (walk w root (path_components p)) (\<lambda>i. ebind (stat_inode w i) (\<lambda>info. Inr (info, w))))"

text \<open>\<open>os.Lstat\<close> of a file name of the process.\<close>

definition LstatName :: "host \<Rightarrow> string \<Rightarrow> file_info io" where
  "LstatName h filename = os_op h (\<lambda>w. case ho_name h filename of
     None \<Rightarrow> Inl NotExist
   | Some i \<Rightarrow> ebind (stat_inode w i) (\<lambda>info. Inr (info, w)))"

definition follow :: "world \<Rightarrow> inode \<Rightarrow> os_error + inode" where
  "follow w i = (case node_at w i of
     Some (Symlink (Some j)) \<Rightarrow> Inr j | Some (Symlink None) \<Rightarrow> Inl NotExist | Some _ \<Rightarrow> Inr i | None \<Rightarrow> Inl NotExist)"

definition OpenFileRead :: "host \<Rightarrow> inode \<Rightarrow> string \<Rightarrow> inode io" where
  "OpenFileRead h root p = os_op h (\<lambda>w.
     ebind (walk w root (path_components p)) (\<lambda>i. ebind (follow w i) (\<lambda>j. Inr (j, w))))"

text \<open>\<open>File.Stat\<close>, and \<open>Root.Stat\<close> of the root itself.\<close>

definition StatHandle :: "host \<Rightarrow> inode \<Rightarrow> file_info io" where
  "StatHandle h i = os_op h (\<lambda>w. ebind (stat_inode w i) (\<lambda>info. Inr (info, w)))"

definition ReadAll :: "host \<Rightarrow> inode \<Rightarrow> string io" where
  "ReadAll h i = os_op h (\<lambda>w. case node_at w i of
     Some (RegularFile content _) \<Rightarrow> Inr (content, w)
   | _ \<Rightarrow> Inl IsDirectory)"

definition OpenRootName :: "host \<Rightarrow> string \<Rightarrow> inode io" where
  "OpenRootName h filename = os_op h (\<lambda>w. case ho_name h filename of
     None \<Rightarrow> Inl NotExist
   | Some i \<Rightarrow> ebind (follow w i) (\<lambda>j. if node_at w j = Some Directory then Inr (j, w) else Inl NotDirectory))"

definition OpenRoot :: "host \<Rightarrow> inode \<Rightarrow> string \<Rightarrow> inode io" where
  "OpenRoot h root name = os_op h (\<lambda>w.
     ebind (walk w root [name]) (\<lambda>i. ebind (follow w i) (\<lambda>j.
       if node_at w j = Some Directory then Inr (j, w) else Inl NotDirectory)))"

definition CloseHandle :: "host \<Rightarrow> inode \<Rightarrow> unit io" where
  "CloseHandle h i = os_op h (\<lambda>w. Inr ((), w))"

definition add_node :: "inode \<Rightarrow> string \<Rightarrow> node \<Rightarrow> world \<Rightarrow> world" where
  "add_node d name n w = w\<lparr>w_nodes := map_put (w_next w) n (w_nodes w),
     w_entries := map_put (d, name) (w_next w) (w_entries w), w_next := Suc (w_next w)\<rparr>"

definition set_node :: "inode \<Rightarrow> node \<Rightarrow> world \<Rightarrow> world" where
  "set_node i n w = w\<lparr>w_nodes := map_put i n (w_nodes w)\<rparr>"

definition Mkdir :: "host \<Rightarrow> inode \<Rightarrow> string \<Rightarrow> unit io" where
  "Mkdir h root name = os_op h (\<lambda>w.
     if node_at w root \<noteq> Some Directory then Inl NotDirectory
     else if entry_at w root name \<noteq> None then Inl Exist
     else Inr ((), add_node root name Directory w))"

text \<open>\<open>OpenFile\<close> with \<open>O_WRONLY|O_CREATE|O_EXCL\<close> and mode 0600.\<close>

definition CreateExclusive :: "host \<Rightarrow> inode \<Rightarrow> string \<Rightarrow> inode io" where
  "CreateExclusive h root name = os_op h (\<lambda>w.
     if node_at w root \<noteq> Some Directory then Inl NotDirectory
     else if entry_at w root name \<noteq> None then Inl Exist
     else Inr (w_next w, add_node root name (RegularFile [] 0x180) w))"

definition Chmod :: "host \<Rightarrow> inode \<Rightarrow> nat \<Rightarrow> unit io" where
  "Chmod h i mode = os_op h (\<lambda>w. case node_at w i of
     Some (RegularFile content _) \<Rightarrow> Inr ((), set_node i (RegularFile content mode) w)
   | _ \<Rightarrow> Inl IsDirectory)"

text \<open>A write at the start of an empty file; a failing one has written some of the bytes.\<close>

definition WriteFile :: "host \<Rightarrow> inode \<Rightarrow> string \<Rightarrow> unit io" where
  "WriteFile h i bytes w = (case node_at w i of
     Some (RegularFile _ mode) \<Rightarrow>
       (let w' = w\<lparr>w_tick := Suc (w_tick w)\<rparr> in
        case ho_fault h (w_tick w) of
          Some k \<Rightarrow> (Inl (OsError IoFailure), set_node i (RegularFile (take k bytes) mode) w')
        | None \<Rightarrow> (Inr (), set_node i (RegularFile bytes mode) w'))
   | _ \<Rightarrow> (Inl (OsError IsDirectory), w\<lparr>w_tick := Suc (w_tick w)\<rparr>))"

definition SyncFile :: "host \<Rightarrow> inode \<Rightarrow> unit io" where
  "SyncFile h i = os_op h (\<lambda>w. Inr ((), w))"

definition move_entry :: "inode \<Rightarrow> string \<Rightarrow> string \<Rightarrow> inode \<Rightarrow> world \<Rightarrow> world" where
  "move_entry d old new i w = w\<lparr>w_entries := map_put (d, new) i (map_del (d, old) (w_entries w))\<rparr>"

definition Rename :: "host \<Rightarrow> inode \<Rightarrow> string \<Rightarrow> string \<Rightarrow> unit io" where
  "Rename h root old new = os_op h (\<lambda>w. case entry_at w root old of
     None \<Rightarrow> Inl NotExist
   | Some i \<Rightarrow>
       (case entry_at w root new of
          None \<Rightarrow> Inr ((), move_entry root old new i w)
        | Some j \<Rightarrow>
            if i = j then Inr ((), w)
            else if node_at w j = Some Directory \<or> node_at w i = Some Directory then Inl IsDirectory
            else Inr ((), move_entry root old new i w)))"

definition LinkFile :: "host \<Rightarrow> inode \<Rightarrow> string \<Rightarrow> string \<Rightarrow> unit io" where
  "LinkFile h root old new = os_op h (\<lambda>w. case entry_at w root old of
     None \<Rightarrow> Inl NotExist
   | Some i \<Rightarrow>
       if entry_at w root new \<noteq> None then Inl Exist
       else if node_at w i = Some Directory then Inl IsDirectory
       else Inr ((), w\<lparr>w_entries := map_put (root, new) i (w_entries w)\<rparr>))"

definition empty_directory :: "world \<Rightarrow> inode \<Rightarrow> bool" where
  "empty_directory w i = list_all (\<lambda>((d, _), _). d \<noteq> i) (w_entries w)"

definition RemoveName :: "host \<Rightarrow> inode \<Rightarrow> string \<Rightarrow> unit io" where
  "RemoveName h root name = os_op h (\<lambda>w. case entry_at w root name of
     None \<Rightarrow> Inl NotExist
   | Some i \<Rightarrow>
       if node_at w i = Some Directory \<and> \<not> empty_directory w i then Inl NotEmpty
       else Inr ((), w\<lparr>w_entries := map_del (root, name) (w_entries w)\<rparr>))"

text \<open>\<open>rand.Read\<close> of 16 bytes.\<close>

definition draw_random :: "host \<Rightarrow> string io" where
  "draw_random h w = (case ho_random h (w_draws w) of
     None \<Rightarrow> (Inl (Errorf ''random source'' []), w\<lparr>w_draws := Suc (w_draws w)\<rparr>)
   | Some bytes \<Rightarrow> (Inr bytes, w\<lparr>w_draws := Suc (w_draws w)\<rparr>))"

end
