(* ===== verification/SyncJson.thy ===== *)
theory SyncJson
  imports SyncManifest
begin

text \<open>
  The JSON input of \<open>internal/coresync/sync.go\<close>: the scan that rejects duplicate object keys, over the
  tokens of \<open>json.Decoder.Token\<close>, and the strict decoding around it. The decoder of \<open>encoding/json\<close> is
  a parameter: its tokens, and its \<open>Decode\<close> into a Go value.
\<close>

section \<open>Tokens\<close>

datatype json_token = Delim char | StringToken string | AtomToken

type_synonym token_stream = "(sync_error + json_token) list"

definition next_token :: "token_stream \<Rightarrow> sync_error + json_token \<times> token_stream" where
  "next_token ts = (case ts of
     [] \<Rightarrow> Inl (Errorf ''unexpected end of JSON'' [])
   | Inl e # _ \<Rightarrow> Inl e
   | Inr t # rest \<Rightarrow> Inr (t, rest))"

text \<open>\<open>Decoder.More\<close> looks at the next character only.\<close>

definition more_tokens :: "token_stream \<Rightarrow> bool" where
  "more_tokens ts = (case ts of
     [] \<Rightarrow> False
   | Inr (Delim c) # _ \<Rightarrow> c \<noteq> CHR '']'' \<and> c \<noteq> CHR ''}''
   | _ \<Rightarrow> True)"

section \<open>The scan\<close>

text \<open>
  The recursion of \<open>scanJSONValue\<close>, with its two loops; the first argument bounds the depth of calls,
  and \<open>scan_value_tokens\<close> shows that the length of the input is enough.
\<close>

fun scan_value :: "nat \<Rightarrow> token_stream \<Rightarrow> sync_error + token_stream"
  and scan_members :: "nat \<Rightarrow> string list \<Rightarrow> token_stream \<Rightarrow> sync_error + token_stream"
  and scan_elements :: "nat \<Rightarrow> token_stream \<Rightarrow> sync_error + token_stream"
where
  "scan_value 0 ts = Inl DoesNotReturn"
| "scan_value (Suc n) ts =
     ebind (next_token ts) (\<lambda>(t, ts).
       case t of
         Delim c \<Rightarrow>
           if c = CHR ''{'' then scan_members n [] ts
           else if c = CHR ''['' then scan_elements n ts
           else Inl (Errorf ''unexpected JSON delimiter'' [])
       | _ \<Rightarrow> Inr ts)"
| "scan_members 0 keys ts = Inl DoesNotReturn"
| "scan_members (Suc n) keys ts =
     (if more_tokens ts
      then ebind (next_token ts) (\<lambda>(t, ts).
        case t of
          StringToken key \<Rightarrow>
            if key \<in> set keys then Inl (Errorf ''duplicate JSON object key'' [key])
            else ebind (scan_value n ts) (scan_members n (key # keys))
        | _ \<Rightarrow> Inl (Errorf ''JSON object key is not a string'' []))
      else ebind (next_token ts) (\<lambda>(t, ts).
        if t \<noteq> Delim CHR ''}'' then Inl (Errorf ''invalid JSON object terminator'' []) else Inr ts))"
| "scan_elements 0 ts = Inl DoesNotReturn"
| "scan_elements (Suc n) ts =
     (if more_tokens ts
      then ebind (scan_value n ts) (scan_elements n)
      else ebind (next_token ts) (\<lambda>(t, ts).
        if t \<noteq> Delim CHR '']'' then Inl (Errorf ''invalid JSON array terminator'' []) else Inr ts))"

definition scanJSONValue :: "token_stream \<Rightarrow> sync_error + token_stream" where
  "scanJSONValue ts = scan_value (Suc (length ts)) ts"

definition rejectDuplicateJSONKeys :: "(string \<Rightarrow> token_stream) \<Rightarrow> string \<Rightarrow> sync_error + unit" where
  "rejectDuplicateJSONKeys tokenize content = ebind (scanJSONValue (tokenize content)) (\<lambda>_. Inr ())"

section \<open>Strict decoding\<close>

text \<open>What \<open>Decoder.Decode\<close> makes of its remaining input.\<close>

datatype 'a decoded = Decoded 'a string | AtEnd | Malformed

record 'a json_decoder =
  js_tokens :: "string \<Rightarrow> token_stream"
  js_decode :: "string \<Rightarrow> 'a decoded"
  js_any :: "string \<Rightarrow> unit decoded"

definition decodeJSON :: "'a json_decoder \<Rightarrow> string \<Rightarrow> sync_error + 'a" where
  "decodeJSON js content =
     ebind (rejectDuplicateJSONKeys (js_tokens js) content) (\<lambda>_.
       case js_decode js content of
         AtEnd \<Rightarrow> Inl (Errorf ''unexpected end of JSON'' [])
       | Malformed \<Rightarrow> Inl (Errorf ''invalid JSON'' [])
       | Decoded x rest \<Rightarrow>
           (case js_any js rest of
              AtEnd \<Rightarrow> Inr x
            | Decoded _ _ \<Rightarrow> Inl (Errorf ''trailing JSON value'' [])
            | Malformed \<Rightarrow> Inl (Errorf ''trailing JSON'' [])))"

text \<open>Reading a named file is the parameter \<open>read_file\<close> (\<open>os.Open\<close> and \<open>io.ReadAll\<close>).\<close>

definition decodeJSONFile ::
  "(string \<Rightarrow> sync_error + string) \<Rightarrow> 'a json_decoder \<Rightarrow> string \<Rightarrow> sync_error + 'a" where
  "decodeJSONFile read_file js filename = ebind (read_file filename) (decodeJSON js)"

definition LoadManifest ::
  "(string \<Rightarrow> sync_error + string) \<Rightarrow> manifest json_decoder \<Rightarrow> string \<Rightarrow> sync_error + manifest" where
  "LoadManifest read_file js filename =
     ebind (decodeJSONFile read_file js filename) (\<lambda>m.
     ebind (ValidateManifest m) (\<lambda>_. Inr m))"

section \<open>What the scan decides\<close>

datatype json = JAtom | JString string | JObject "(string \<times> json) list" | JArray "json list"

fun tokens_of :: "json \<Rightarrow> json_token list" where
  "tokens_of JAtom = [AtomToken]"
| "tokens_of (JString s) = [StringToken s]"
| "tokens_of (JObject ms) =
     Delim CHR ''{'' # concat (map (\<lambda>(k, v). StringToken k # tokens_of v) ms) @ [Delim CHR ''}'']"
| "tokens_of (JArray vs) = Delim CHR ''['' # concat (map tokens_of vs) @ [Delim CHR '']'']"

fun unique_keys :: "json \<Rightarrow> bool" where
  "unique_keys JAtom = True"
| "unique_keys (JString s) = True"
| "unique_keys (JObject ms) = (distinct (map fst ms) \<and> (\<forall>(k, v) \<in> set ms. unique_keys v))"
| "unique_keys (JArray vs) = (\<forall>v \<in> set vs. unique_keys v)"

definition member_tokens :: "(string \<times> json) list \<Rightarrow> json_token list" where
  "member_tokens ms = concat (map (\<lambda>(k, v). StringToken k # tokens_of v) ms)"

lemma member_tokens_simps [simp]:
  "member_tokens [] = []" "member_tokens ((k, v) # ms) = StringToken k # tokens_of v @ member_tokens ms"
  by (simp_all add: member_tokens_def)

lemma tokens_of_Object: "tokens_of (JObject ms) = Delim CHR ''{'' # member_tokens ms @ [Delim CHR ''}'']"
  by (simp add: member_tokens_def)

lemma tokens_of_head: "\<exists>t ts. tokens_of v = t # ts \<and> more_tokens (Inr t # rest)"
  by (cases v) (auto simp: more_tokens_def)

text \<open>The outcome of a scan: the rest of the stream, or a duplicate key.\<close>

definition scanned :: "bool \<Rightarrow> token_stream \<Rightarrow> sync_error + token_stream \<Rightarrow> bool" where
  "scanned ok rest r = (if ok then r = Inr rest else \<exists>k. r = Inl (Errorf ''duplicate JSON object key'' [k]))"

lemma scan_tokens:
  "length (tokens_of v) \<le> n \<Longrightarrow> scanned (unique_keys v) rest (scan_value n (map Inr (tokens_of v) @ rest))"
  "length (member_tokens ms) < n \<Longrightarrow>
     scanned (distinct (map fst ms) \<and> set (map fst ms) \<inter> set keys = {} \<and> (\<forall>(k, v) \<in> set ms. unique_keys v)) rest
       (scan_members n keys (map Inr (member_tokens ms) @ Inr (Delim CHR ''}'') # rest))"
  "length (concat (map tokens_of vs)) < n \<Longrightarrow>
     scanned (\<forall>v \<in> set vs. unique_keys v) rest
       (scan_elements n (map Inr (concat (map tokens_of vs)) @ Inr (Delim CHR '']'') # rest))"
proof (induction n arbitrary: v ms vs keys rest)
  case 0
  {
    case 1
    then show ?case by (cases v) simp_all
  next
    case 2
    then show ?case by simp
  next
    case 3
    then show ?case by simp
  }
next
  case (Suc n)
  {
    case 1
    show ?case
    proof (cases v)
      case (JObject ms)
      with 1 have "length (member_tokens ms) < n" by (simp add: tokens_of_Object del: tokens_of.simps)
      from Suc.IH(2) [OF this, of "[]" rest] JObject show ?thesis
        by (simp add: tokens_of_Object next_token_def del: tokens_of.simps)
    next
      case (JArray vs)
      with 1 have "length (concat (map tokens_of vs)) < n" by simp
      from Suc.IH(3) [OF this, of rest] JArray show ?thesis by (simp add: next_token_def)
    qed (simp_all add: next_token_def scanned_def)
  next
    case 2
    show ?case
    proof (cases ms)
      case Nil
      then show ?thesis by (simp add: more_tokens_def next_token_def scanned_def)
    next
      case (Cons m ms')
      obtain k v where m: "m = (k, v)" by (cases m)
      let ?rest = "map Inr (member_tokens ms') @ Inr (Delim CHR ''}'') # rest"
      from 2 Cons m have len: "length (tokens_of v) \<le> n" "length (member_tokens ms') < n" by simp_all
      note val = Suc.IH(1) [OF len(1), of ?rest] and mem = Suc.IH(2) [OF len(2), of "k # keys" rest]
      show ?thesis
      proof (cases "k \<in> set keys")
        case True
        with Cons m show ?thesis by (auto simp: more_tokens_def next_token_def scanned_def)
      next
        case False
        with Cons m val mem show ?thesis
          by (cases "unique_keys v")
            (auto simp: more_tokens_def next_token_def scanned_def split: if_splits)
      qed
    qed
  next
    case 3
    show ?case
    proof (cases vs)
      case Nil
      then show ?thesis by (simp add: more_tokens_def next_token_def scanned_def)
    next
      case (Cons v vs')
      let ?rest = "map Inr (concat (map tokens_of vs')) @ Inr (Delim CHR '']'') # rest"
      obtain t ts where head: "tokens_of v = t # ts" "more_tokens (Inr t # map Inr ts @ ?rest)"
        using tokens_of_head [of v "map Inr ts @ ?rest" for ts] by (auto simp: more_tokens_def)
      from 3 Cons have len: "length (tokens_of v) \<le> n" "length (concat (map tokens_of vs')) < n"
        using head(1) by simp_all
      note val = Suc.IH(1) [OF len(1), of ?rest] and mem = Suc.IH(3) [OF len(2), of rest]
      show ?thesis
        using Cons head val mem
        by (cases "unique_keys v") (auto simp: scanned_def split: if_splits)
    qed
  }
qed

lemma scanJSONValue_tokens:
  "scanned (unique_keys v) rest (scanJSONValue (map Inr (tokens_of v) @ rest))"
  unfolding scanJSONValue_def by (rule scan_tokens(1)) simp

end
