(* ===== verification/SyncRead.thy ===== *)
theory SyncRead
  imports GoFs SyncJson
begin

text \<open>
  Reading in \<open>internal/coresync/sync.go\<close>: opening a contained root, reading a regular file with the
  checks that no component is a symlink and that the file stayed the same, and loading the provenance
  record. The texts that wrap an error of a step are left out; the error itself is kept.
\<close>

record file_snapshot =
  sp_exists :: bool
  sp_content :: string
  sp_mode :: nat
  sp_digest :: string
  sp_info :: "file_info option"

definition no_file :: file_snapshot where
  "no_file = \<lparr>sp_exists = False, sp_content = [], sp_mode = 0, sp_digest = [], sp_info = None\<rparr>"

section \<open>Roots\<close>

definition validateRootInfo :: "string \<Rightarrow> file_info \<Rightarrow> sync_error + unit" where
  "validateRootInfo name info =
     (if fi_kind info = KindSymlink then Inl (Errorf ''must not be a symlink'' [name])
      else if fi_kind info \<noteq> KindDirectory then Inl (Errorf ''must be a directory'' [name])
      else Inr ())"

text \<open>The deferred and the ignored \<open>Close\<close> calls of a handle that is not used again are left out.\<close>

definition openContainedRoot :: "host \<Rightarrow> string \<Rightarrow> string \<Rightarrow> inode io" where
  "openContainedRoot h name filename =
     io_bind (LstatName h filename) (\<lambda>earlier.
     io_bind (io_lift (validateRootInfo name earlier)) (\<lambda>_.
     io_bind (OpenRootName h filename) (\<lambda>root.
     io_bind (StatHandle h root) (\<lambda>opened.
     io_bind (LstatName h filename) (\<lambda>after.
     io_bind (io_lift (validateRootInfo name after)) (\<lambda>_.
     io_bind (io_check (SameFile earlier opened \<and> SameFile after opened)
       (Errorf ''changed while opening'' [name])) (\<lambda>_.
     io_return root)))))))"

section \<open>Files\<close>

fun reject_components :: "host \<Rightarrow> inode \<Rightarrow> bool \<Rightarrow> string \<Rightarrow> string list \<Rightarrow> unit io" where
  "reject_components h root allowMissing current [] = io_return ()"
| "reject_components h root allowMissing current (part # rest) =
     (let current = Join [current, part] in
      io_bind (io_try (Lstat h root current)) (\<lambda>r.
        case r of
          Inl e \<Rightarrow> if e = OsError NotExist \<and> allowMissing then io_return () else io_fail e
        | Inr info \<Rightarrow>
            if fi_kind info = KindSymlink
            then io_fail (Errorf ''symlink path component is not allowed'' [part])
            else if rest \<noteq> [] \<and> fi_kind info \<noteq> KindDirectory
            then io_fail (Errorf ''path component is not a directory'' [part])
            else reject_components h root allowMissing current rest))"

definition rejectSymlinkComponents :: "host \<Rightarrow> inode \<Rightarrow> string \<Rightarrow> bool \<Rightarrow> unit io" where
  "rejectSymlinkComponents h root relativePath allowMissing =
     reject_components h root allowMissing [] (split_on slash relativePath)"

definition read_opened :: "host \<Rightarrow> inode \<Rightarrow> string \<Rightarrow> string \<Rightarrow> file_info \<Rightarrow> file_snapshot io" where
  "read_opened h root relativePath label earlier =
     io_bind (OpenFileRead h root relativePath) (\<lambda>file.
     io_bind (StatHandle h file) (\<lambda>opened.
     io_bind (io_check (fi_kind opened = KindRegular) (Errorf ''must be a regular file'' [label, relativePath])) (\<lambda>_.
     io_bind (io_check (SameFile earlier opened) (Errorf ''changed during inspection'' [label, relativePath])) (\<lambda>_.
     io_bind (ReadAll h file) (\<lambda>content.
     io_bind (io_try (Lstat h root relativePath)) (\<lambda>after.
     io_bind (io_check (case after of Inl _ \<Rightarrow> False | Inr info \<Rightarrow> SameFile earlier info)
       (Errorf ''changed during inspection'' [label, relativePath])) (\<lambda>_.
     io_return \<lparr>sp_exists = True, sp_content = content, sp_mode = fi_perm opened,
       sp_digest = hex_encode (ho_sha256 h content), sp_info = Some opened\<rparr>)))))))"

definition readRootRegularFile :: "host \<Rightarrow> inode \<Rightarrow> string \<Rightarrow> bool \<Rightarrow> string \<Rightarrow> file_snapshot io" where
  "readRootRegularFile h root relativePath allowMissing label =
     io_bind (rejectSymlinkComponents h root relativePath allowMissing) (\<lambda>_.
     io_bind (io_try (Lstat h root relativePath)) (\<lambda>r.
       case r of
         Inl e \<Rightarrow> if e = OsError NotExist \<and> allowMissing then io_return no_file else io_fail e
       | Inr earlier \<Rightarrow>
           if fi_kind earlier = KindSymlink then io_fail (Errorf ''symlink is not allowed'' [label, relativePath])
           else if fi_kind earlier \<noteq> KindRegular then io_fail (Errorf ''must be a regular file'' [label, relativePath])
           else read_opened h root relativePath label earlier))"

definition readSourceFile :: "host \<Rightarrow> inode \<Rightarrow> string \<Rightarrow> (string \<times> string) io" where
  "readSourceFile h sourceRoot sourcePath =
     io_bind (readRootRegularFile h sourceRoot sourcePath False ''source'') (\<lambda>snapshot.
     io_return (sp_content snapshot, sp_digest snapshot))"

definition inspectDestination :: "host \<Rightarrow> inode \<Rightarrow> string \<Rightarrow> file_snapshot io" where
  "inspectDestination h destinationRoot destinationPath =
     readRootRegularFile h destinationRoot destinationPath True ''destination''"

section \<open>Provenance\<close>

definition empty_provenance :: provenance where
  "empty_provenance = \<lparr>pv_schema_version = 0, pv_source_repository = [], pv_source_commit = [],
     pv_license = [], pv_entries = []\<rparr>"

definition collision_result :: "(sync_error + unit) option \<Rightarrow> sync_error + unit" where
  "collision_result r = (case r of None \<Rightarrow> Inl DoesNotReturn | Some x \<Rightarrow> x)"

definition loadProvenance ::
  "host \<Rightarrow> provenance json_decoder \<Rightarrow> inode \<Rightarrow> string \<Rightarrow> (provenance \<times> file_snapshot) io" where
  "loadProvenance h js destinationRoot provenancePath =
     io_bind (readRootRegularFile h destinationRoot provenancePath True ''provenance'') (\<lambda>snapshot.
       if \<not> sp_exists snapshot then io_return (empty_provenance, snapshot)
       else
         io_bind (io_lift (decodeJSON js (sp_content snapshot))) (\<lambda>p.
         io_bind (io_lift (validateProvenance p)) (\<lambda>_.
         io_bind (io_lift (collision_result
           (validatePathCollisions (map pe_destination (pv_entries p)) provenancePath))) (\<lambda>_.
         io_return (p, snapshot)))))"

text \<open>\<open>json.MarshalIndent\<close> is the parameter \<open>render\<close>; the record ends with a line break.\<close>

definition marshalProvenance :: "(provenance \<Rightarrow> sync_error + string) \<Rightarrow> provenance \<Rightarrow> sync_error + string" where
  "marshalProvenance render p = ebind (render p) (\<lambda>content. Inr (content @ [CHR 0x0A]))"

end
