(* ===== verification/SyncPublish.thy ===== *)
theory SyncPublish
  imports SyncRead
begin

text \<open>
  The publication of \<open>internal/coresync/sync.go\<close>: every file is staged beside its destination, the
  destinations are replaced one after the other with a hard-linked backup of each managed file, and a
  failure rolls everything back. A step on an item works on the item and the world together; what it
  changed of the item stays when it fails.
\<close>

section \<open>Items\<close>

record publication_item =
  pi_path :: string
  pi_basename :: string
  pi_parent :: inode
  pi_desired :: string
  pi_mode :: nat
  pi_previous :: file_snapshot
  pi_provenance :: bool
  pi_staged_name :: string
  pi_staged_info :: "file_info option"
  pi_staged_exists :: bool
  pi_backup_name :: string
  pi_backup_info :: "file_info option"
  pi_backup_exists :: bool
  pi_published :: bool

record stable_directory =
  sd_root :: inode
  sd_parent :: inode
  sd_name :: string
  sd_relative :: string
  sd_info :: file_info
  sd_created :: bool

type_synonym 'a item_io = "(publication_item \<times> world, 'a) fallible"

definition on_world :: "'a io \<Rightarrow> 'a item_io" where
  "on_world m = (\<lambda>(item, w). case m w of (r, w') \<Rightarrow> (r, (item, w')))"

definition modify_item :: "(publication_item \<Rightarrow> publication_item) \<Rightarrow> unit item_io" where
  "modify_item f = (\<lambda>(item, w). (Inr (), (f item, w)))"

definition the_item :: "publication_item item_io" where
  "the_item = (\<lambda>(item, w). (Inr item, (item, w)))"

text \<open>\<open>os.SameFile\<close> of values that may be nil.\<close>

definition same_info :: "file_info option \<Rightarrow> file_info option \<Rightarrow> bool" where
  "same_info a b = (case (a, b) of (Some x, Some y) \<Rightarrow> SameFile x y | _ \<Rightarrow> False)"

definition Perm :: "nat \<Rightarrow> nat" where
  "Perm mode = mode mod 512"

definition runPublishHook :: "host \<Rightarrow> publish_phase \<Rightarrow> nat \<Rightarrow> string \<Rightarrow> unit io" where
  "runPublishHook h phase index relativePath w = (case ho_hook h of
     None \<Rightarrow> (Inr (), w)
   | Some hook \<Rightarrow> (case hook phase index relativePath w of
       (None, w') \<Rightarrow> (Inr (), w')
     | (Some e, w') \<Rightarrow> (Inl e, w')))"

definition wrapRollbackError :: "sync_error option \<Rightarrow> sync_error option" where
  "wrapRollbackError e = e"

section \<open>Artifacts\<close>

definition randomArtifactName :: "host \<Rightarrow> string \<Rightarrow> string io" where
  "randomArtifactName h pre = io_bind (draw_random h) (\<lambda>bytes. io_return (pre @ hex_encode bytes))"

fun unused_name :: "nat \<Rightarrow> host \<Rightarrow> inode \<Rightarrow> string \<Rightarrow> string io" where
  "unused_name 0 h parent pre = io_fail (Errorf ''could not allocate unique artifact filename'' [])"
| "unused_name (Suc n) h parent pre =
     io_bind (randomArtifactName h pre) (\<lambda>name.
     io_bind (io_try (Lstat h parent name)) (\<lambda>r.
       case r of
         Inl e \<Rightarrow> if e = OsError NotExist then io_return name else io_fail e
       | Inr _ \<Rightarrow> unused_name n h parent pre))"

definition uniqueUnusedArtifactName :: "host \<Rightarrow> inode \<Rightarrow> string \<Rightarrow> string io" where
  "uniqueUnusedArtifactName = unused_name 100"

definition removeArtifactIfUnchanged :: "host \<Rightarrow> inode \<Rightarrow> string \<Rightarrow> file_info option \<Rightarrow> unit io" where
  "removeArtifactIfUnchanged h parent name expected =
     (if name = [] then io_return ()
      else case expected of
        None \<Rightarrow> io_return ()
      | Some info \<Rightarrow>
          io_bind (io_try (Lstat h parent name)) (\<lambda>r.
            case r of
              Inl e \<Rightarrow> if e = OsError NotExist then io_return () else io_fail e
            | Inr found \<Rightarrow>
                if \<not> SameFile found info then io_fail (Errorf ''artifact changed; retained'' [])
                else RemoveName h parent name))"

text \<open>A step with a cleanup that runs when the step fails, its own error ignored.\<close>

definition io_cleanup :: "unit io \<Rightarrow> 'a io \<Rightarrow> 'a io" where
  "io_cleanup cleanup m w = (case m w of
     (Inl e, w') \<Rightarrow> (Inl e, snd (cleanup w'))
   | (Inr x, w') \<Rightarrow> (Inr x, w'))"

definition fill_staged_file ::
  "host \<Rightarrow> inode \<Rightarrow> string \<Rightarrow> inode \<Rightarrow> string \<Rightarrow> nat \<Rightarrow> (string \<times> file_info) io" where
  "fill_staged_file h parent name file content mode =
     io_bind (StatHandle h file) (\<lambda>createdInfo.
     (let cleanup = removeArtifactIfUnchanged h parent name (Some createdInfo) in
      io_cleanup cleanup (
        io_bind (Chmod h file (Perm mode)) (\<lambda>_.
        io_bind (WriteFile h file content) (\<lambda>_.
        io_bind (SyncFile h file) (\<lambda>_.
        io_bind (StatHandle h file) (\<lambda>info.
        io_bind (CloseHandle h file) (\<lambda>_.
        io_return (name, info)))))))))"

fun stage_attempt :: "nat \<Rightarrow> host \<Rightarrow> inode \<Rightarrow> string \<Rightarrow> nat \<Rightarrow> (string \<times> file_info) io" where
  "stage_attempt 0 h parent content mode = io_fail (Errorf ''could not allocate unique staged filename'' [])"
| "stage_attempt (Suc n) h parent content mode =
     io_bind (randomArtifactName h ''.coresync-stage-'') (\<lambda>name.
     io_bind (io_try (CreateExclusive h parent name)) (\<lambda>r.
       case r of
         Inl e \<Rightarrow> if e = OsError Exist then stage_attempt n h parent content mode else io_fail e
       | Inr file \<Rightarrow> fill_staged_file h parent name file content mode))"

definition createStagedFile :: "host \<Rightarrow> inode \<Rightarrow> string \<Rightarrow> nat \<Rightarrow> (string \<times> file_info) io" where
  "createStagedFile = stage_attempt 100"

definition snapshot_matches :: "file_snapshot \<Rightarrow> file_info option \<Rightarrow> string \<Rightarrow> nat \<Rightarrow> bool" where
  "snapshot_matches snapshot info content mode =
     (same_info (sp_info snapshot) info \<and> sp_content snapshot = content \<and> sp_mode snapshot = mode)"

definition validateArtifact ::
  "host \<Rightarrow> inode \<Rightarrow> string \<Rightarrow> file_info option \<Rightarrow> string \<Rightarrow> nat \<Rightarrow> string \<Rightarrow> unit io" where
  "validateArtifact h parent name expected content mode label =
     io_bind (readRootRegularFile h parent name False label) (\<lambda>snapshot.
     io_check (snapshot_matches snapshot expected content (Perm mode)) (Errorf ''changed'' [label, name]))"

definition validateStagedArtifact :: "host \<Rightarrow> publication_item \<Rightarrow> unit io" where
  "validateStagedArtifact h item =
     (if \<not> pi_staged_exists item then io_return ()
      else validateArtifact h (pi_parent item) (pi_staged_name item) (pi_staged_info item)
        (pi_desired item) (pi_mode item) ''staged file'')"

definition validateBackupArtifact :: "host \<Rightarrow> publication_item \<Rightarrow> unit io" where
  "validateBackupArtifact h item =
     (if \<not> pi_backup_exists item then io_return ()
      else validateArtifact h (pi_parent item) (pi_backup_name item) (pi_backup_info item)
        (sp_content (pi_previous item)) (sp_mode (pi_previous item)) ''backup'')"

section \<open>Stable directories\<close>

text \<open>The directory of that name, created when it is missing, and the handle on what was found.\<close>

definition find_directory :: "host \<Rightarrow> inode \<Rightarrow> string \<Rightarrow> (file_info \<times> bool) io" where
  "find_directory h parent name =
     io_bind (io_try (Lstat h parent name)) (\<lambda>r.
       case r of
         Inr info \<Rightarrow> io_return (info, False)
       | Inl e \<Rightarrow>
           if e = OsError NotExist
           then io_bind (Mkdir h parent name) (\<lambda>_. io_bind (Lstat h parent name) (\<lambda>info. io_return (info, True)))
           else io_fail e)"

definition open_directory ::
  "host \<Rightarrow> inode \<Rightarrow> string \<Rightarrow> string \<Rightarrow> file_info \<Rightarrow> bool \<Rightarrow> stable_directory io" where
  "open_directory h parent name relativePath info created =
     (if fi_kind info = KindSymlink then io_fail (Errorf ''symlink path component is not allowed'' [name])
      else if fi_kind info \<noteq> KindDirectory then io_fail (Errorf ''path component is not a directory'' [name])
      else
        io_bind (OpenRoot h parent name) (\<lambda>root.
        io_bind (StatHandle h root) (\<lambda>opened.
        io_bind (io_try (Lstat h parent name)) (\<lambda>after.
        io_bind (io_check (SameFile info opened \<and>
            (case after of Inl _ \<Rightarrow> False | Inr again \<Rightarrow> SameFile again opened))
          (Errorf ''destination parent changed while opening'' [relativePath])) (\<lambda>_.
        io_return \<lparr>sd_root = root, sd_parent = parent, sd_name = name, sd_relative = relativePath,
          sd_info = opened, sd_created = created\<rparr>)))))"

definition openStableDirectoryComponent :: "host \<Rightarrow> inode \<Rightarrow> string \<Rightarrow> string \<Rightarrow> stable_directory io" where
  "openStableDirectoryComponent h parent name relativePath =
     io_bind (find_directory h parent name) (\<lambda>(info, created).
       open_directory h parent name relativePath info created)"

fun validate_directories :: "host \<Rightarrow> stable_directory list \<Rightarrow> unit io" where
  "validate_directories h [] = io_return ()"
| "validate_directories h (d # ds) =
     io_bind (io_try (Lstat h (sd_parent d) (sd_name d))) (\<lambda>r.
       if (case r of Inl _ \<Rightarrow> False
           | Inr info \<Rightarrow> fi_kind info \<noteq> KindSymlink \<and> fi_kind info = KindDirectory \<and> SameFile info (sd_info d))
       then validate_directories h ds
       else io_fail (Errorf ''destination parent changed at'' [sd_relative d]))"

text \<open>The first directory is the destination root itself.\<close>

definition validateStableDirectories :: "host \<Rightarrow> stable_directory list \<Rightarrow> unit io" where
  "validateStableDirectories h directories = validate_directories h (tl directories)"

definition remove_created :: "host \<Rightarrow> stable_directory \<Rightarrow> unit io" where
  "remove_created h d =
     io_bind (io_try (Lstat h (sd_parent d) (sd_name d))) (\<lambda>r.
       case r of
         Inl e \<Rightarrow> if e = OsError NotExist then io_return ()
           else io_fail (Errorf ''destination parent changed before removing'' [sd_relative d])
       | Inr info \<Rightarrow>
           if \<not> SameFile info (sd_info d)
           then io_fail (Errorf ''destination parent changed before removing'' [sd_relative d])
           else RemoveName h (sd_parent d) (sd_name d))"

fun close_directories ::
  "host \<Rightarrow> bool \<Rightarrow> stable_directory list \<Rightarrow> world \<Rightarrow> sync_error option list \<times> world" where
  "close_directories h removeCreated [] w = ([], w)"
| "close_directories h removeCreated (d # ds) w =
     (case CloseHandle h (sd_root d) w of (closed, w1) \<Rightarrow>
      case (if removeCreated \<and> sd_created d then remove_created h d w1 else (Inr (), w1)) of (removed, w2) \<Rightarrow>
      case close_directories h removeCreated ds w2 of (es, w3) \<Rightarrow>
        (error_of closed # error_of removed # es, w3))"

definition closeStableDirectories ::
  "host \<Rightarrow> stable_directory list \<Rightarrow> bool \<Rightarrow> world \<Rightarrow> sync_error option \<times> world" where
  "closeStableDirectories h directories removeCreated w =
     (case close_directories h removeCreated (rev (tl directories)) w of (es, w') \<Rightarrow> (errors_Join es, w'))"

type_synonym open_directories = "stable_directory list \<times> (string, stable_directory) gomap"

fun open_path ::
  "host \<Rightarrow> stable_directory \<Rightarrow> string \<Rightarrow> string list \<Rightarrow> open_directories \<Rightarrow> world \<Rightarrow>
     ((sync_error + stable_directory) \<times> open_directories) \<times> world" where
  "open_path h current currentPath [] acc w = ((Inr current, acc), w)"
| "open_path h current currentPath (part # rest) acc w =
     (let path = Join [currentPath, part] in
      case map_get (snd acc) path of
        Some existing \<Rightarrow> open_path h existing path rest acc w
      | None \<Rightarrow>
          (case openStableDirectoryComponent h (sd_root current) part path w of
             (Inl e, w') \<Rightarrow> ((Inl e, acc), w')
           | (Inr d, w') \<Rightarrow> open_path h d path rest (fst acc @ [d], map_put path d (snd acc)) w'))"

fun open_parents ::
  "host \<Rightarrow> stable_directory \<Rightarrow> publication_item list \<Rightarrow> open_directories \<Rightarrow> world \<Rightarrow>
     ((sync_error + publication_item list) \<times> open_directories) \<times> world" where
  "open_parents h root [] acc w = ((Inr [], acc), w)"
| "open_parents h root (item # items) acc w =
     (let parentPath = Dir (pi_path item) in
      case (if parentPath = dot then ((Inr root, acc), w)
            else open_path h root [] (split_on slash parentPath) acc w) of
        ((Inl e, acc'), w') \<Rightarrow> ((Inl e, acc'), w')
      | ((Inr d, acc'), w') \<Rightarrow>
          (case open_parents h root items acc' w' of
             ((Inl e, acc''), w'') \<Rightarrow> ((Inl e, acc''), w'')
           | ((Inr items', acc''), w'') \<Rightarrow>
               ((Inr (item\<lparr>pi_parent := sd_root d, pi_basename := Base (pi_path item)\<rparr> # items'), acc''), w'')))"

definition root_directory :: "inode \<Rightarrow> file_info \<Rightarrow> stable_directory" where
  "root_directory root info = \<lparr>sd_root = root, sd_parent = root, sd_name = [], sd_relative = dot,
     sd_info = info, sd_created = False\<rparr>"

definition openStablePublicationParents ::
  "host \<Rightarrow> inode \<Rightarrow> publication_item list \<Rightarrow> (stable_directory list \<times> publication_item list) io" where
  "openStablePublicationParents h destinationRoot items =
     io_bind (StatHandle h destinationRoot) (\<lambda>rootInfo w.
       (let root = root_directory destinationRoot rootInfo in
        case open_parents h root items ([root], [(dot, root)]) w of
          ((Inl e, (directories, _)), w) \<Rightarrow>
            (case closeStableDirectories h directories True w of
               (closeErr, w) \<Rightarrow> (Inl (the (errors_Join [Some e, closeErr])), w))
        | ((Inr items', (directories, _)), w) \<Rightarrow>
            (case validateStableDirectories h directories w of
               (Inl e, w) \<Rightarrow>
                 (case closeStableDirectories h directories True w of
                    (closeErr, w) \<Rightarrow> (Inl (the (errors_Join [Some e, closeErr])), w))
             | (Inr _, w) \<Rightarrow> (Inr (directories, items'), w))))"

section \<open>Publishing one item\<close>

definition same_as_previous :: "publication_item \<Rightarrow> file_snapshot \<Rightarrow> bool" where
  "same_as_previous item snapshot =
     (sp_content snapshot = sp_content (pi_previous item) \<and> sp_mode snapshot = sp_mode (pi_previous item))"

definition validateStablePublicationTarget :: "host \<Rightarrow> publication_item \<Rightarrow> unit io" where
  "validateStablePublicationTarget h item =
     io_bind (readRootRegularFile h (pi_parent item) (pi_basename item) True ''publication target'') (\<lambda>snapshot.
       if \<not> sp_exists (pi_previous item) then
         (if \<not> sp_exists snapshot then io_return ()
          else if pi_provenance item
          then io_fail (Errorf ''provenance drift: provenance file appeared before publication'' [])
          else io_fail (Errorf ''unmanaged destination appeared before publication'' [pi_path item]))
       else if \<not> sp_exists snapshot \<or> \<not> same_as_previous item snapshot then
         (if pi_provenance item
          then io_fail (Errorf ''provenance drift before publication'' [])
          else io_fail (Errorf ''managed destination drift before publication'' [pi_path item]))
       else io_return ())"

definition discardManagedBackup :: "host \<Rightarrow> unit item_io" where
  "discardManagedBackup h =
     io_bind the_item (\<lambda>item.
       if \<not> pi_backup_exists item then io_return ()
       else
         io_bind (if pi_backup_info item = None
             then io_bind (on_world (Lstat h (pi_parent item) (pi_backup_name item))) (\<lambda>info.
               modify_item (\<lambda>i. i\<lparr>pi_backup_info := Some info\<rparr>))
             else io_return ()) (\<lambda>_.
         io_bind the_item (\<lambda>item.
         io_bind (on_world (removeArtifactIfUnchanged h (pi_parent item) (pi_backup_name item)
             (pi_backup_info item))) (\<lambda>_.
         modify_item (\<lambda>i. i\<lparr>pi_backup_exists := False, pi_backup_name := [], pi_backup_info := None\<rparr>)))))"

text \<open>Whether the backup is the live file with the content seen before; \<open>None\<close> is success.\<close>

definition check_backup :: "host \<Rightarrow> sync_error option item_io" where
  "check_backup h =
     io_bind the_item (\<lambda>item.
     io_bind (io_try (on_world (readRootRegularFile h (pi_parent item) (pi_backup_name item) False ''backup''))) (\<lambda>r.
       case r of
         Inl e \<Rightarrow> io_return (Some e)
       | Inr backup \<Rightarrow>
           io_bind (modify_item (\<lambda>i. i\<lparr>pi_backup_info := sp_info backup\<rparr>)) (\<lambda>_.
           io_bind (io_try (on_world (Lstat h (pi_parent item) (pi_basename item)))) (\<lambda>live.
             io_return (case live of
               Inl e \<Rightarrow> Some e
             | Inr info \<Rightarrow>
                 if \<not> same_info (Some info) (sp_info backup) \<or> \<not> same_as_previous item backup
                 then Some (Errorf ''managed destination drift after backup'' [pi_path item]) else None)))))"

definition createManagedBackup :: "host \<Rightarrow> unit item_io" where
  "createManagedBackup h =
     io_bind the_item (\<lambda>item.
     io_bind (on_world (uniqueUnusedArtifactName h (pi_parent item) ''.coresync-backup-'')) (\<lambda>name.
     io_bind (modify_item (\<lambda>i. i\<lparr>pi_backup_name := name\<rparr>)) (\<lambda>_.
     io_bind (on_world (LinkFile h (pi_parent item) (pi_basename item) name)) (\<lambda>_.
     io_bind (modify_item (\<lambda>i. i\<lparr>pi_backup_exists := True\<rparr>)) (\<lambda>_.
     io_bind (check_backup h) (\<lambda>failure.
       case failure of
         None \<Rightarrow> io_return ()
       | Some e \<Rightarrow>
           io_bind (io_try (discardManagedBackup h)) (\<lambda>cleanup.
             io_fail (the (errors_Join [Some e, wrapRollbackError (error_of cleanup)])))))))))"

definition back_up_previous :: "host \<Rightarrow> stable_directory list \<Rightarrow> unit item_io" where
  "back_up_previous h directories =
     io_bind the_item (\<lambda>item.
       if sp_exists (pi_previous item) then
         io_bind (createManagedBackup h) (\<lambda>_.
         io_bind (on_world (validateStableDirectories h directories)) (\<lambda>_.
         io_bind the_item (\<lambda>item. on_world (validateBackupArtifact h item))))
       else io_return ())"

definition put_in_place :: "host \<Rightarrow> nat \<Rightarrow> unit item_io" where
  "put_in_place h index =
     io_bind the_item (\<lambda>item.
     io_bind (if sp_exists (pi_previous item) then
         io_bind (on_world (runPublishHook h BeforeManagedPublication index (pi_path item))) (\<lambda>_.
         io_bind (on_world (Rename h (pi_parent item) (pi_staged_name item) (pi_basename item))) (\<lambda>_.
         modify_item (\<lambda>i. i\<lparr>pi_staged_exists := False\<rparr>)))
       else on_world (LinkFile h (pi_parent item) (pi_staged_name item) (pi_basename item))) (\<lambda>_.
     modify_item (\<lambda>i. i\<lparr>pi_published := True\<rparr>)))"

definition publishStableItem :: "host \<Rightarrow> stable_directory list \<Rightarrow> nat \<Rightarrow> unit item_io" where
  "publishStableItem h directories index =
     io_bind (on_world (validateStableDirectories h directories)) (\<lambda>_.
     io_bind the_item (\<lambda>item.
     io_bind (on_world (validateStablePublicationTarget h item)) (\<lambda>_.
     io_bind (on_world (runPublishHook h AfterValidation index (pi_path item))) (\<lambda>_.
     io_bind (on_world (validateStableDirectories h directories)) (\<lambda>_.
     io_bind (back_up_previous h directories) (\<lambda>_.
     io_bind the_item (\<lambda>item.
     io_bind (on_world (validateStagedArtifact h item)) (\<lambda>_.
     io_bind (put_in_place h index) (\<lambda>_.
     on_world (runPublishHook h AfterPublication index (pi_path item)))))))))))"

definition matches_desired :: "publication_item \<Rightarrow> file_snapshot \<Rightarrow> bool" where
  "matches_desired item snapshot =
     snapshot_matches snapshot (pi_staged_info item) (pi_desired item) (Perm (pi_mode item))"

definition validatePublishedTarget :: "host \<Rightarrow> publication_item \<Rightarrow> unit io" where
  "validatePublishedTarget h item =
     io_bind (readRootRegularFile h (pi_parent item) (pi_basename item) False ''published target'') (\<lambda>snapshot.
     io_check (matches_desired item snapshot) (Errorf ''published target changed'' [pi_path item]))"

fun validatePublishedTransaction :: "host \<Rightarrow> publication_item list \<Rightarrow> unit io" where
  "validatePublishedTransaction h [] = io_return ()"
| "validatePublishedTransaction h (item # items) =
     (if \<not> pi_published item then validatePublishedTransaction h items
      else
        io_bind (validatePublishedTarget h item) (\<lambda>_.
        io_bind (validateStagedArtifact h item) (\<lambda>_.
        io_bind (validateBackupArtifact h item) (\<lambda>_.
        validatePublishedTransaction h items))))"

section \<open>Rolling back\<close>

definition removeNewPublishedTargetIfSafe :: "host \<Rightarrow> publication_item \<Rightarrow> unit io" where
  "removeNewPublishedTargetIfSafe h item =
     io_bind (readRootRegularFile h (pi_parent item) (pi_basename item) True ''rollback target'') (\<lambda>snapshot.
       if \<not> sp_exists snapshot then io_return ()
       else if \<not> matches_desired item snapshot
       then io_fail (Errorf ''unsafe rollback: concurrent target retained'' [pi_path item])
       else RemoveName h (pi_parent item) (pi_basename item))"

definition restoreManagedPublicationIfSafe :: "host \<Rightarrow> unit item_io" where
  "restoreManagedPublicationIfSafe h =
     io_bind the_item (\<lambda>item.
       if \<not> pi_backup_exists item
       then io_fail (Errorf ''cannot rollback managed destination: backup recovery artifact is missing'' [pi_path item])
       else
         io_bind (on_world (validateBackupArtifact h item)) (\<lambda>_.
         io_bind (on_world (readRootRegularFile h (pi_parent item) (pi_basename item) True ''rollback target'')) (\<lambda>live.
           if \<not> sp_exists live \<or> \<not> matches_desired item live
           then io_fail (Errorf ''unsafe rollback: concurrent target retained with backup'' [pi_path item, pi_backup_name item])
           else
             io_bind (on_world (Rename h (pi_parent item) (pi_backup_name item) (pi_basename item))) (\<lambda>_.
             modify_item (\<lambda>i. i\<lparr>pi_backup_exists := False, pi_backup_name := [], pi_backup_info := None,
               pi_published := False\<rparr>)))))"

definition discardUnpublishedManagedBackupIfSafe :: "host \<Rightarrow> unit item_io" where
  "discardUnpublishedManagedBackupIfSafe h =
     io_bind the_item (\<lambda>item.
     io_bind (on_world (validateBackupArtifact h item)) (\<lambda>_.
     io_bind (on_world (readRootRegularFile h (pi_parent item) (pi_basename item) False ''managed destination'')) (\<lambda>live.
       if \<not> same_info (sp_info live) (pi_backup_info item) \<or> \<not> same_as_previous item live
       then io_fail (Errorf ''cannot discard backup recovery artifact: live target changed''
         [pi_backup_name item, pi_path item])
       else discardManagedBackup h)))"

definition rollback_item :: "host \<Rightarrow> unit item_io" where
  "rollback_item h =
     io_bind the_item (\<lambda>item.
       if sp_exists (pi_previous item) then
         (if pi_published item then restoreManagedPublicationIfSafe h
          else if pi_backup_exists item then discardUnpublishedManagedBackupIfSafe h
          else io_return ())
       else if pi_published item then
         io_bind (on_world (removeNewPublishedTargetIfSafe h item)) (\<lambda>_.
         modify_item (\<lambda>i. i\<lparr>pi_published := False\<rparr>))
       else io_return ())"

text \<open>From the last item to the first.\<close>

fun rollback_items ::
  "host \<Rightarrow> publication_item list \<Rightarrow> world \<Rightarrow> sync_error option list \<times> publication_item list \<times> world" where
  "rollback_items h [] w = ([], [], w)"
| "rollback_items h (item # items) w =
     (case rollback_items h items w of (es, items', w1) \<Rightarrow>
      case rollback_item h (item, w1) of (r, (item', w2)) \<Rightarrow> (es @ [error_of r], item' # items', w2))"

definition rollbackStableItems ::
  "host \<Rightarrow> publication_item list \<Rightarrow> world \<Rightarrow> sync_error option \<times> publication_item list \<times> world" where
  "rollbackStableItems h items w =
     (case rollback_items h items w of (es, items', w') \<Rightarrow> (errors_Join es, items', w'))"

definition remove_backup :: "host \<Rightarrow> unit item_io" where
  "remove_backup h =
     io_bind the_item (\<lambda>item.
       if pi_backup_exists item then
         io_bind (on_world (removeArtifactIfUnchanged h (pi_parent item) (pi_backup_name item) (pi_backup_info item))) (\<lambda>_.
         modify_item (\<lambda>i. i\<lparr>pi_backup_exists := False\<rparr>))
       else io_return ())"

definition remove_staged :: "host \<Rightarrow> unit item_io" where
  "remove_staged h =
     io_bind the_item (\<lambda>item.
       if pi_staged_exists item then
         io_bind (on_world (removeArtifactIfUnchanged h (pi_parent item) (pi_staged_name item) (pi_staged_info item))) (\<lambda>_.
         modify_item (\<lambda>i. i\<lparr>pi_staged_exists := False\<rparr>))
       else io_return ())"

fun remove_artifacts ::
  "host \<Rightarrow> publication_item list \<Rightarrow> world \<Rightarrow> sync_error option list \<times> publication_item list \<times> world" where
  "remove_artifacts h [] w = ([], [], w)"
| "remove_artifacts h (item # items) w =
     (case remove_backup h (item, w) of (r1, (item1, w1)) \<Rightarrow>
      case remove_staged h (item1, w1) of (r2, (item2, w2)) \<Rightarrow>
      case remove_artifacts h items w2 of (es, items', w3) \<Rightarrow>
        (error_of r1 # error_of r2 # es, item2 # items', w3))"

definition removePublicationArtifacts ::
  "host \<Rightarrow> publication_item list \<Rightarrow> world \<Rightarrow> sync_error option \<times> publication_item list \<times> world" where
  "removePublicationArtifacts h items w =
     (case remove_artifacts h items w of (es, items', w') \<Rightarrow> (errors_Join es, items', w'))"

definition rollbackStableTransaction ::
  "host \<Rightarrow> publication_item list \<Rightarrow> stable_directory list \<Rightarrow> sync_error \<Rightarrow> world \<Rightarrow> sync_error option \<times> world" where
  "rollbackStableTransaction h items directories publicationErr w =
     (case rollbackStableItems h items w of
        (Some e, items', w1) \<Rightarrow>
          (case closeStableDirectories h directories False w1 of
             (closeErr, w2) \<Rightarrow> (errors_Join [Some publicationErr, Some e, closeErr], w2))
      | (None, items', w1) \<Rightarrow>
          (case removePublicationArtifacts h items' w1 of
             (cleanupErr, _, w2) \<Rightarrow>
               (case closeStableDirectories h directories (cleanupErr = None) w2 of
                  (closeErr, w3) \<Rightarrow>
                    (errors_Join [Some publicationErr, wrapRollbackError cleanupErr, closeErr], w3))))"

section \<open>The transaction\<close>

fun stage_items ::
  "host \<Rightarrow> publication_item list \<Rightarrow> world \<Rightarrow> sync_error option \<times> publication_item list \<times> world" where
  "stage_items h [] w = (None, [], w)"
| "stage_items h (item # items) w =
     (case createStagedFile h (pi_parent item) (pi_desired item) (pi_mode item) w of
        (Inl e, w1) \<Rightarrow> (Some e, item # items, w1)
      | (Inr (name, info), w1) \<Rightarrow>
          (case stage_items h items w1 of (failure, items', w2) \<Rightarrow>
             (failure, item\<lparr>pi_staged_name := name, pi_staged_info := Some info, pi_staged_exists := True\<rparr> # items', w2)))"

fun publish_items ::
  "host \<Rightarrow> stable_directory list \<Rightarrow> nat \<Rightarrow> publication_item list \<Rightarrow> world \<Rightarrow>
     sync_error option \<times> publication_item list \<times> world" where
  "publish_items h directories index [] w = (None, [], w)"
| "publish_items h directories index (item # items) w =
     (case publishStableItem h directories index (item, w) of
        (Inl e, (item', w1)) \<Rightarrow> (Some e, item' # items, w1)
      | (Inr _, (item', w1)) \<Rightarrow>
          (case publish_items h directories (Suc index) items w1 of (failure, items', w2) \<Rightarrow>
             (failure, item' # items', w2)))"

text \<open>The transaction once every item is published, and once the parents of all items are open.\<close>

definition finish_publication ::
  "host \<Rightarrow> stable_directory list \<Rightarrow> publication_item list \<Rightarrow> world \<Rightarrow> sync_error option \<times> world" where
  "finish_publication h directories items w =
     (case validateStableDirectories h directories w of
        (Inl e, w) \<Rightarrow> rollbackStableTransaction h items directories e w
      | (Inr _, w) \<Rightarrow>
          (case validatePublishedTransaction h items w of
             (Inl e, w) \<Rightarrow> rollbackStableTransaction h items directories e w
           | (Inr _, w) \<Rightarrow>
               (case removePublicationArtifacts h items w of (cleanupErr, _, w) \<Rightarrow>
                case closeStableDirectories h directories False w of (closeErr, w) \<Rightarrow>
                  (errors_Join [cleanupErr, closeErr], w))))"

definition publish_opened ::
  "host \<Rightarrow> stable_directory list \<Rightarrow> publication_item list \<Rightarrow> world \<Rightarrow> sync_error option \<times> world" where
  "publish_opened h directories items w =
     (case stage_items h items w of
        (Some e, items, w) \<Rightarrow>
          (case removePublicationArtifacts h items w of (cleanupErr, _, w) \<Rightarrow>
           case closeStableDirectories h directories (cleanupErr = None) w of (closeErr, w) \<Rightarrow>
             (errors_Join [Some e, cleanupErr, closeErr], w))
      | (None, items, w) \<Rightarrow>
          (case publish_items h directories 0 items w of
             (Some e, items, w) \<Rightarrow> rollbackStableTransaction h items directories e w
           | (None, items, w) \<Rightarrow> finish_publication h directories items w))"

definition publishTransaction :: "host \<Rightarrow> inode \<Rightarrow> publication_item list \<Rightarrow> world \<Rightarrow> sync_error option \<times> world" where
  "publishTransaction h destinationRoot items w =
     (case openStablePublicationParents h destinationRoot items w of
        (Inl e, w) \<Rightarrow> (Some e, w)
      | (Inr (directories, items), w) \<Rightarrow> publish_opened h directories items w)"

end
