(* ===== verification/SyncSteps.thy ===== *)
theory SyncSteps
  imports SyncPublish
begin

text \<open>
  Reasoning about steps that may fail: what holds after either outcome of a step, and which steps
  leave the disk as it is.
\<close>

section \<open>Outcomes\<close>

text \<open>Started in \<open>s\<close>, the step succeeds into \<open>Q\<close> or fails into \<open>F\<close>.\<close>

definition wlp :: "('s, 'a) fallible \<Rightarrow> ('a \<Rightarrow> 's \<Rightarrow> bool) \<Rightarrow> (sync_error \<Rightarrow> 's \<Rightarrow> bool) \<Rightarrow> 's \<Rightarrow> bool" where
  "wlp m Q F s = (case m s of (Inr x, s') \<Rightarrow> Q x s' | (Inl e, s') \<Rightarrow> F e s')"

named_theorems wlp_rules \<open>the steps from which the operations are built\<close>

lemma wlpI: "(\<And>x s'. m s = (Inr x, s') \<Longrightarrow> Q x s') \<Longrightarrow> (\<And>e s'. m s = (Inl e, s') \<Longrightarrow> F e s') \<Longrightarrow> wlp m Q F s"
  by (auto simp: wlp_def split: prod.splits sum.splits)

lemma wlp_success: "wlp m Q F s \<Longrightarrow> m s = (Inr x, s') \<Longrightarrow> Q x s'"
  by (simp add: wlp_def)

lemma wlp_failure: "wlp m Q F s \<Longrightarrow> m s = (Inl e, s') \<Longrightarrow> F e s'"
  by (simp add: wlp_def)

lemma wlp_outcome: "wlp m Q F s \<Longrightarrow> m s = (r, s') \<Longrightarrow> (case r of Inr x \<Rightarrow> Q x s' | Inl e \<Rightarrow> F e s')"
  by (cases r) (simp_all add: wlp_def)

lemma wlp_weaken:
  "wlp m Q' F' s \<Longrightarrow> (\<And>x s'. Q' x s' \<Longrightarrow> Q x s') \<Longrightarrow> (\<And>e s'. F' e s' \<Longrightarrow> F e s') \<Longrightarrow> wlp m Q F s"
  by (auto simp: wlp_def split: prod.splits sum.splits)

lemma wlp_bind [wlp_rules]: "wlp (io_bind m k) Q F s = wlp m (\<lambda>x. wlp (k x) Q F) F s"
  by (auto simp: wlp_def io_bind_def split: prod.splits sum.splits)

lemma wlp_try [wlp_rules]: "wlp (io_try m) Q F s = wlp m (\<lambda>x. Q (Inr x)) (\<lambda>e. Q (Inl e)) s"
  by (auto simp: wlp_def io_try_def split: prod.splits sum.splits)

lemma wlp_return [wlp_rules]: "wlp (io_return x) Q F s = Q x s"
  by (simp add: wlp_def io_return_def)

lemma wlp_fail [wlp_rules]: "wlp (io_fail e) Q F s = F e s"
  by (simp add: wlp_def io_fail_def)

lemma wlp_check [wlp_rules]: "wlp (io_check c e) Q F s = (if c then Q () s else F e s)"
  by (simp add: wlp_def io_check_def io_return_def io_fail_def)

section \<open>The disk\<close>

definition same_disk :: "world \<Rightarrow> world \<Rightarrow> bool" where
  "same_disk w w' = (w_nodes w' = w_nodes w \<and> w_entries w' = w_entries w \<and> w_next w' = w_next w)"

lemma same_disk_refl [simp]: "same_disk w w"
  by (simp add: same_disk_def)

lemma same_disk_trans: "same_disk w w' \<Longrightarrow> same_disk w' w'' \<Longrightarrow> same_disk w w''"
  by (simp add: same_disk_def)

lemma same_disk_tick [simp]: "same_disk w (w\<lparr>w_tick := n\<rparr>)" "same_disk w (w\<lparr>w_draws := n\<rparr>)"
  by (simp_all add: same_disk_def)

text \<open>A step that reads.\<close>

definition reads :: "'a io \<Rightarrow> bool" where
  "reads m = (\<forall>w r w'. m w = (r, w') \<longrightarrow> same_disk w w')"

named_theorems reads_intros \<open>steps that leave the disk as it is\<close>

lemma reads_bind [reads_intros]: "reads m \<Longrightarrow> (\<And>x. reads (k x)) \<Longrightarrow> reads (io_bind m k)"
  by (fastforce simp: reads_def io_bind_def intro: same_disk_trans split: prod.splits sum.splits)

lemma reads_basic [reads_intros]:
  "reads (io_return x)" "reads (io_fail e)" "reads (io_check c e)" "reads (io_lift r)"
  by (simp_all add: reads_def io_return_def io_fail_def io_check_def io_lift_def)

lemma reads_try [reads_intros]: "reads m \<Longrightarrow> reads (io_try m)"
  by (fastforce simp: reads_def io_try_def split: prod.splits)

lemma reads_if [reads_intros]: "reads m \<Longrightarrow> reads m' \<Longrightarrow> reads (if c then m else m')"
  by simp

lemma reads_os_op:
  "(\<And>w x w'. f w = Inr (x, w') \<Longrightarrow> w' = w) \<Longrightarrow> reads (os_op h f)"
  by (fastforce simp: reads_def os_op_def Let_def split: option.splits sum.splits prod.splits)

lemma reads_ops [reads_intros]:
  "reads (Lstat h root p)" "reads (LstatName h name)" "reads (OpenFileRead h root p)" "reads (StatHandle h i)"
  "reads (ReadAll h i)" "reads (OpenRootName h name)" "reads (OpenRoot h root n)" "reads (CloseHandle h i)"
  "reads (SyncFile h i)"
  unfolding Lstat_def LstatName_def OpenFileRead_def StatHandle_def ReadAll_def OpenRootName_def OpenRoot_def
    CloseHandle_def SyncFile_def
  by (rule reads_os_op; auto simp: err_simps split: option.splits node.splits if_splits)+

lemma reads_random [reads_intros]: "reads (draw_random h)"
  by (auto simp: reads_def draw_random_def split: option.splits)

lemma reads_components [reads_intros]: "reads (reject_components h root am current ps)"
proof (induction ps arbitrary: current)
  case Nil
  then show ?case by (simp add: reads_intros)
next
  case (Cons p ps)
  then show ?case
    by (auto simp: Let_def intro!: reads_bind reads_ops reads_try split: sum.split intro: reads_basic)
qed

lemma reads_file [reads_intros]: "reads (readRootRegularFile h root p am label)"
  unfolding readRootRegularFile_def rejectSymlinkComponents_def read_opened_def
  by (auto intro!: reads_bind reads_ops reads_try reads_components reads_basic split: sum.split)

lemma reads_directories [reads_intros]: "reads (validate_directories h ds)"
  by (induction ds) (auto intro!: reads_bind reads_ops reads_try reads_basic)

lemma reads_validations [reads_intros]:
  "reads (validateStableDirectories h directories)" "reads (validateArtifact h parent name info content mode label)"
  "reads (validateStagedArtifact h item)" "reads (validateBackupArtifact h item)"
  "reads (validateStablePublicationTarget h item)" "reads (validatePublishedTarget h item)"
  unfolding validateStableDirectories_def validateArtifact_def validateStagedArtifact_def
    validateBackupArtifact_def validateStablePublicationTarget_def validatePublishedTarget_def
  by (auto intro!: reads_intros)

lemma reads_published [reads_intros]: "reads (validatePublishedTransaction h items)"
  by (induction items) (auto intro!: reads_intros)

lemma reads_unused [reads_intros]: "reads (unused_name n h parent pre)"
  by (induction n) (auto simp: randomArtifactName_def intro!: reads_intros split: sum.split)

text \<open>The test hook may fail a publication; here it does not touch the disk.\<close>

definition quiet_hook :: "host \<Rightarrow> bool" where
  "quiet_hook h = (\<forall>hook phase index path w e w'. ho_hook h = Some hook \<longrightarrow>
     hook phase index path w = (e, w') \<longrightarrow> same_disk w w')"

lemma reads_hook: "quiet_hook h \<Longrightarrow> reads (runPublishHook h phase index path)"
  unfolding reads_def runPublishHook_def quiet_hook_def
  by (auto split: option.splits prod.splits)

end
