(* ===== verification/CoreSync.thy ===== *)
theory CoreSync
  imports SyncPublish
begin

text \<open>
  \<open>Sync\<close> and \<open>Verify\<close> of \<open>internal/coresync/sync.go\<close>: what is read, what is compared, and what is
  handed to the publication. JSON decoding and encoding are the parameters \<open>js\<close> and \<open>render\<close>.
\<close>

record prepared_entry =
  pr_entry :: entry
  pr_content :: string
  pr_digest :: string
  pr_previous :: file_snapshot

section \<open>Preparing\<close>

fun prepare_entries :: "host \<Rightarrow> inode \<Rightarrow> entry list \<Rightarrow> prepared_entry list io" where
  "prepare_entries h sourceRoot [] = io_return []"
| "prepare_entries h sourceRoot (e # es) =
     io_bind (readSourceFile h sourceRoot (en_source e)) (\<lambda>(content, digest).
     io_bind (prepare_entries h sourceRoot es) (\<lambda>rest.
     io_return (\<lparr>pr_entry = e, pr_content = content, pr_digest = digest, pr_previous = no_file\<rparr> # rest)))"

definition sort_prepared :: "prepared_entry list \<Rightarrow> prepared_entry list" where
  "sort_prepared = sort_by (\<lambda>a b. en_destination (pr_entry a) < en_destination (pr_entry b))"

definition desired_provenance :: "manifest \<Rightarrow> options \<Rightarrow> prepared_entry list \<Rightarrow> provenance" where
  "desired_provenance m opts prepared =
     \<lparr>pv_schema_version = supportedSchemaVersion, pv_source_repository = mf_source_repository m,
      pv_source_commit = op_source_commit opts, pv_license = mf_license m,
      pv_entries = map (\<lambda>p. \<lparr>pe_source = en_source (pr_entry p), pe_destination = en_destination (pr_entry p),
        pe_sha256 = pr_digest p\<rparr>) prepared\<rparr>"

definition managed_entries :: "provenance \<Rightarrow> (string, provenance_entry) gomap" where
  "managed_entries existing = foldl (\<lambda>m e. map_put (pe_destination e) e m) [] (pv_entries existing)"

definition check_removed :: "manifest \<Rightarrow> provenance \<Rightarrow> sync_error + unit" where
  "check_removed m existing = echeck (\<lambda>e.
     if pe_destination e \<in> set (map en_destination (mf_entries m)) then Inr ()
     else Inl (Errorf ''previously managed destination was removed from manifest'' [pe_destination e])) (pv_entries existing)"

section \<open>Comparing\<close>

definition inspect_prepared ::
  "host \<Rightarrow> inode \<Rightarrow> bool \<Rightarrow> (string, provenance_entry) gomap \<Rightarrow> prepared_entry \<Rightarrow> prepared_entry io" where
  "inspect_prepared h destinationRoot check managed p =
     (let destination = en_destination (pr_entry p); previous = map_get managed destination in
      io_bind (inspectDestination h destinationRoot destination) (\<lambda>snapshot.
        if sp_exists snapshot \<and> previous = None
        then io_fail (Errorf ''unmanaged destination already exists'' [destination])
        else if check then
          (if \<not> sp_exists snapshot then io_fail (Errorf ''content drift for destination: file is missing'' [destination])
           else if sp_digest snapshot \<noteq> pr_digest p then io_fail (Errorf ''content drift for destination'' [destination])
           else io_return p)
        else
          (case previous of
             None \<Rightarrow> io_return p
           | Some entry \<Rightarrow>
               if \<not> sp_exists snapshot \<or> sp_digest snapshot \<noteq> pe_sha256 entry
               then io_fail (Errorf ''managed destination drift'' [destination])
               else io_return (p\<lparr>pr_previous := snapshot\<rparr>))))"

fun inspect_all ::
  "host \<Rightarrow> inode \<Rightarrow> bool \<Rightarrow> (string, provenance_entry) gomap \<Rightarrow> prepared_entry list \<Rightarrow> prepared_entry list io" where
  "inspect_all h destinationRoot check managed [] = io_return []"
| "inspect_all h destinationRoot check managed (p # ps) =
     io_bind (inspect_prepared h destinationRoot check managed p) (\<lambda>p'.
     io_bind (inspect_all h destinationRoot check managed ps) (\<lambda>ps'. io_return (p' # ps')))"

section \<open>Publishing\<close>

definition publication_of :: "string \<Rightarrow> string \<Rightarrow> file_snapshot \<Rightarrow> bool \<Rightarrow> publication_item" where
  "publication_of path content previous is_provenance =
     \<lparr>pi_path = path, pi_basename = [], pi_parent = 0, pi_desired = content, pi_mode = 0x1A4,
      pi_previous = previous, pi_provenance = is_provenance, pi_staged_name = [], pi_staged_info = None,
      pi_staged_exists = False, pi_backup_name = [], pi_backup_info = None, pi_backup_exists = False,
      pi_published = False\<rparr>"

definition publications ::
  "options \<Rightarrow> prepared_entry list \<Rightarrow> string \<Rightarrow> file_snapshot \<Rightarrow> publication_item list" where
  "publications opts prepared desiredBytes provenanceSnapshot =
     map (\<lambda>p. publication_of (en_destination (pr_entry p)) (pr_content p) (pr_previous p) False) prepared @
     [publication_of (op_provenance_path opts) desiredBytes provenanceSnapshot True]"

definition publish :: "host \<Rightarrow> inode \<Rightarrow> publication_item list \<Rightarrow> unit io" where
  "publish h destinationRoot items w =
     (case publishTransaction h destinationRoot items w of
        (None, w') \<Rightarrow> (Inr (), w')
      | (Some e, w') \<Rightarrow> (Inl e, w'))"

text \<open>The end of \<open>Sync\<close>, then from the prepared entries on, then from the opened roots on.\<close>

definition finish_sync ::
  "host \<Rightarrow> options \<Rightarrow> inode \<Rightarrow> file_snapshot \<Rightarrow> string \<Rightarrow> prepared_entry list \<Rightarrow> unit io" where
  "finish_sync h opts destinationRoot provenanceSnapshot desiredBytes inspected =
     (if op_check opts then
        (if \<not> sp_exists provenanceSnapshot then io_fail (Errorf ''provenance drift: provenance file is missing'' [])
         else if sp_content provenanceSnapshot \<noteq> desiredBytes then io_fail (Errorf ''provenance drift'' [])
         else io_return ())
      else publish h destinationRoot (publications opts inspected desiredBytes provenanceSnapshot))"

definition sync_prepared ::
  "host \<Rightarrow> (provenance \<Rightarrow> sync_error + string) \<Rightarrow> manifest \<Rightarrow> options \<Rightarrow> inode \<Rightarrow> provenance \<Rightarrow> file_snapshot \<Rightarrow>
     prepared_entry list \<Rightarrow> unit io" where
  "sync_prepared h render m opts destinationRoot existing provenanceSnapshot prepared =
     io_bind (io_lift (marshalProvenance render (desired_provenance m opts prepared))) (\<lambda>desiredBytes.
     io_bind (inspect_all h destinationRoot (op_check opts) (managed_entries existing) prepared) (\<lambda>inspected.
     finish_sync h opts destinationRoot provenanceSnapshot desiredBytes inspected))"

definition sync_roots ::
  "host \<Rightarrow> provenance json_decoder \<Rightarrow> (provenance \<Rightarrow> sync_error + string) \<Rightarrow> manifest \<Rightarrow> options \<Rightarrow>
     inode \<Rightarrow> inode \<Rightarrow> unit io" where
  "sync_roots h js render m opts sourceRoot destinationRoot =
     io_bind (loadProvenance h js destinationRoot (op_provenance_path opts)) (\<lambda>(existing, provenanceSnapshot).
     io_bind (io_check (\<not> (sp_exists provenanceSnapshot \<and>
         pv_source_repository existing \<noteq> mf_source_repository m))
       (Errorf ''existing provenance belongs to different source repository'' [pv_source_repository existing])) (\<lambda>_.
     io_bind (io_lift (check_removed m existing)) (\<lambda>_.
     io_bind (prepare_entries h sourceRoot (mf_entries m)) (\<lambda>unsorted.
     sync_prepared h render m opts destinationRoot existing provenanceSnapshot (sort_prepared unsorted)))))"

definition Sync ::
  "host \<Rightarrow> provenance json_decoder \<Rightarrow> (provenance \<Rightarrow> sync_error + string) \<Rightarrow> manifest \<Rightarrow> options \<Rightarrow> unit io" where
  "Sync h js render m opts =
     io_bind (io_lift (ValidateManifest m)) (\<lambda>_.
     io_bind (io_lift (validateOptions opts)) (\<lambda>_.
     io_bind (io_lift (collision_result (validatePathCollisions (map en_destination (mf_entries m))
       (op_provenance_path opts)))) (\<lambda>_.
     io_bind (openContainedRoot h ''source root'' (op_source_root opts)) (\<lambda>sourceRoot.
     io_bind (openContainedRoot h ''destination root'' (op_destination_root opts)) (\<lambda>destinationRoot.
     sync_roots h js render m opts sourceRoot destinationRoot)))))"

section \<open>Verifying\<close>

fun verify_entries :: "host \<Rightarrow> inode \<Rightarrow> provenance_entry list \<Rightarrow> unit io" where
  "verify_entries h destinationRoot [] = io_return ()"
| "verify_entries h destinationRoot (e # es) =
     io_bind (inspectDestination h destinationRoot (pe_destination e)) (\<lambda>destination.
       if \<not> sp_exists destination \<or> sp_digest destination \<noteq> pe_sha256 e
       then io_fail (Errorf ''hash mismatch for destination'' [pe_destination e])
       else verify_entries h destinationRoot es)"

definition VerifyTree :: "host \<Rightarrow> provenance json_decoder \<Rightarrow> string \<Rightarrow> string \<Rightarrow> unit io" where
  "VerifyTree h js destinationRootPath provenancePath =
     io_bind (io_check (trim_space destinationRootPath \<noteq> []) (Errorf ''destination root is required'' [])) (\<lambda>_.
     io_bind (io_check (isSafeRelativePath provenancePath) (Errorf ''unsafe provenance path'' [provenancePath])) (\<lambda>_.
     io_bind (openContainedRoot h ''destination root'' destinationRootPath) (\<lambda>destinationRoot.
     io_bind (loadProvenance h js destinationRoot provenancePath) (\<lambda>(p, snapshot).
     io_bind (io_check (sp_exists snapshot) (Errorf ''provenance file is missing'' [])) (\<lambda>_.
     verify_entries h destinationRoot (pv_entries p))))))"

end
