(* ===== verification/SyncDisk.thy ===== *)
theory SyncDisk
  imports SyncSteps CoreSync
begin

text \<open>
  What a successful read of \<open>internal/coresync/sync.go\<close> says about the disk: the file it reports is
  reached through directories only, is a regular file, and holds the reported bytes.
\<close>

section \<open>Looking at the disk\<close>

named_theorems disk_simps \<open>what does not change when the disk does not\<close>

lemma same_disk_node [disk_simps]: "same_disk w w' \<Longrightarrow> node_at w' i = node_at w i"
  by (simp add: same_disk_def node_at_def)

lemma same_disk_entry [disk_simps]: "same_disk w w' \<Longrightarrow> entry_at w' d n = entry_at w d n"
  by (simp add: same_disk_def entry_at_def)

lemma same_disk_walk [disk_simps]: "same_disk w w' \<Longrightarrow> walk w' d cs = walk w d cs"
  by (induction w d cs rule: walk.induct)
    (auto simp: disk_simps split: option.splits node.splits)

lemma tick_node [simp]: "node_at (w\<lparr>w_tick := t\<rparr>) i = node_at w i"
  by (simp add: node_at_def)

lemma tick_entry [simp]: "entry_at (w\<lparr>w_tick := t\<rparr>) d n = entry_at w d n"
  by (simp add: entry_at_def)

lemma tick_walk [simp]: "walk (w\<lparr>w_tick := t\<rparr>) d cs = walk w d cs"
  using same_disk_walk [of w "w\<lparr>w_tick := t\<rparr>"] by simp

lemma tick_follow [simp]: "follow (w\<lparr>w_tick := t\<rparr>) i = follow w i"
  by (simp add: follow_def)

lemma tick_stat [simp]: "stat_inode (w\<lparr>w_tick := t\<rparr>) i = stat_inode w i"
  by (simp add: stat_inode_def)

lemma os_op_success:
  "os_op h f w = (Inr x, w') \<Longrightarrow> f (w\<lparr>w_tick := Suc (w_tick w)\<rparr>) = Inr (x, w')"
  by (simp add: os_op_def Let_def split: option.splits sum.splits prod.splits)

lemma os_op_failure:
  "os_op h f w = (Inl e, w') \<Longrightarrow>
     (e = OsError IoFailure \<or> (\<exists>o_err. e = OsError o_err \<and> f (w\<lparr>w_tick := Suc (w_tick w)\<rparr>) = Inl o_err)) \<and>
     w' = w\<lparr>w_tick := Suc (w_tick w)\<rparr>"
  by (auto simp: os_op_def Let_def split: option.splits sum.splits prod.splits)

lemma stat_inode_success: "stat_inode w i = Inr info \<longleftrightarrow> (\<exists>n. node_at w i = Some n \<and> info = info_of i n)"
  by (auto simp: stat_inode_def split: option.splits)

lemma Lstat_success:
  assumes "Lstat h root p w = (Inr info, w')"
  obtains i n where "walk w root (path_components p) = Inr i" "node_at w i = Some n" "info = info_of i n"
    "same_disk w w'"
  using os_op_success [OF assms [unfolded Lstat_def]] that by (auto simp: err_simps stat_inode_success)

lemma OpenFileRead_success:
  "OpenFileRead h root p w = (Inr j, w') \<Longrightarrow>
     (\<exists>i. walk w root (path_components p) = Inr i \<and> follow w i = Inr j) \<and> same_disk w w'"
  using os_op_success [of h "\<lambda>w. ebind (walk w root (path_components p)) (\<lambda>i. ebind (follow w i) (\<lambda>j. Inr (j, w)))" w j w']
  by (auto simp: OpenFileRead_def err_simps)

lemma StatHandle_success:
  "StatHandle h i w = (Inr info, w') \<Longrightarrow> (\<exists>n. node_at w i = Some n \<and> info = info_of i n) \<and> same_disk w w'"
  using os_op_success [of h "\<lambda>w. ebind (stat_inode w i) (\<lambda>info. Inr (info, w))" w info w']
  by (auto simp: StatHandle_def err_simps stat_inode_success)

lemma ReadAll_success:
  "ReadAll h i w = (Inr content, w') \<Longrightarrow> (\<exists>mode. node_at w i = Some (RegularFile content mode)) \<and> same_disk w w'"
  using os_op_success [of h "\<lambda>w. case node_at w i of Some (RegularFile content _) \<Rightarrow> Inr (content, w) | _ \<Rightarrow> Inl IsDirectory" w content w']
  by (auto simp: ReadAll_def split: option.splits node.splits)

lemma io_bind_success:
  "io_bind m k w = (Inr y, w'') \<longleftrightarrow> (\<exists>x w'. m w = (Inr x, w') \<and> k x w' = (Inr y, w''))"
  by (auto simp: io_bind_def split: prod.splits sum.splits)

lemma io_check_success: "io_check c e w = (Inr u, w') \<longleftrightarrow> c \<and> w' = w"
  by (auto simp: io_check_def io_return_def io_fail_def)

lemma io_try_success: "io_try m w = (Inr r, w') \<longleftrightarrow> m w = (r, w')"
  by (auto simp: io_try_def split: prod.splits)

lemma io_return_success: "io_return x w = (Inr y, w') \<longleftrightarrow> y = x \<and> w' = w"
  by (auto simp: io_return_def)

lemma io_lift_success: "io_lift r w = (Inr y, w') \<longleftrightarrow> r = Inr y \<and> w' = w"
  by (auto simp: io_lift_def)

lemma io_fail_success: "io_fail e w \<noteq> (Inr y, w')"
  by (simp add: io_fail_def)

lemmas io_success = io_bind_success io_check_success io_try_success io_return_success io_lift_success io_fail_success

lemma reads_outcome: "reads m \<Longrightarrow> m w = (r, w') \<Longrightarrow> same_disk w w'"
  by (auto simp: reads_def)

section \<open>What a read says\<close>

text \<open>The snapshot of a regular file.\<close>

definition file_snapshot_of :: "host \<Rightarrow> inode \<Rightarrow> string \<Rightarrow> nat \<Rightarrow> file_snapshot" where
  "file_snapshot_of h i content mode = \<lparr>sp_exists = True, sp_content = content, sp_mode = mode,
     sp_digest = hex_encode (ho_sha256 h content), sp_info = Some (info_of i (RegularFile content mode))\<rparr>"

lemma info_of_simps [simp]:
  "fi_inode (info_of i n) = i" "fi_kind (info_of i n) = kind_of n" "fi_perm (info_of i n) = perm_of n"
  by (simp_all add: info_of_def)

lemma kind_of_regular: "kind_of n = KindRegular \<longleftrightarrow> (\<exists>content mode. n = RegularFile content mode)"
  by (cases n) (simp_all add: kind_of_def)

lemma read_opened_success:
  assumes "read_opened h root p label before w = (Inr s, w')"
    and before: "walk w root (path_components p) = Inr i" "node_at w i = Some n" "before = info_of i n"
  shows "\<exists>content mode. node_at w i = Some (RegularFile content mode) \<and> s = file_snapshot_of h i content mode"
proof -
  from assms(1) obtain fh opened content w1 w2 w3 where steps:
    "OpenFileRead h root p w = (Inr fh, w1)" "StatHandle h fh w1 = (Inr opened, w2)"
    "fi_kind opened = KindRegular" "SameFile before opened" "ReadAll h fh w2 = (Inr content, w3)"
    "s = \<lparr>sp_exists = True, sp_content = content, sp_mode = fi_perm opened,
      sp_digest = hex_encode (ho_sha256 h content), sp_info = Some opened\<rparr>"
    unfolding read_opened_def io_success by blast
  from OpenFileRead_success [OF steps(1)] have disk1: "same_disk w w1" by simp
  from StatHandle_success [OF steps(2)] obtain m where m: "node_at w1 fh = Some m" "opened = info_of fh m"
    "same_disk w1 w2" by blast
  from ReadAll_success [OF steps(5)] obtain mode where mode: "node_at w2 fh = Some (RegularFile content mode)" by blast
  from steps(4) m(2) before(3) have "fh = i" by (simp add: SameFile_def)
  with m mode disk1 same_disk_node [OF disk1] same_disk_node [OF m(3)]
  have "node_at w i = Some (RegularFile content mode)" "m = RegularFile content mode" by simp_all
  with steps(6) m(2) \<open>fh = i\<close> show ?thesis by (auto simp: file_snapshot_of_def perm_of_def)
qed

text \<open>Walking through directories only.\<close>

fun direct :: "world \<Rightarrow> inode \<Rightarrow> string list \<Rightarrow> inode option" where
  "direct w d [] = Some d"
| "direct w d (c # cs) =
     (if node_at w d \<noteq> Some Directory then None
      else case entry_at w d c of None \<Rightarrow> None | Some i \<Rightarrow> direct w i cs)"

lemma direct_snoc:
  "direct w d (cs @ [c]) = (case direct w d cs of None \<Rightarrow> None
     | Some i \<Rightarrow> if node_at w i = Some Directory then entry_at w i c else None)"
  by (induction cs arbitrary: d) (auto split: option.splits)

lemma direct_walk:
  "direct w d cs = Some i \<Longrightarrow> node_at w i = Some Directory \<Longrightarrow> walk w d (cs @ [c]) =
     (case entry_at w i c of None \<Rightarrow> Inl NotExist | Some j \<Rightarrow> Inr j)"
proof (induction cs arbitrary: d)
  case (Cons a cs)
  then obtain j where j: "entry_at w d a = Some j" "node_at w d = Some Directory" "direct w j cs = Some i"
    by (auto split: if_splits option.splits)
  have "node_at w j = Some Directory" using j(3) Cons.prems(2) by (cases cs) (auto split: if_splits)
  with Cons j show ?case by (simp add: Cons.IH)
qed (auto split: option.splits)

lemma same_disk_direct [disk_simps]: "same_disk w w' \<Longrightarrow> direct w' d cs = direct w d cs"
  by (induction cs arbitrary: d) (auto simp: disk_simps split: option.splits)

text \<open>The directory a walk has come to through directories: the start, or a directory.\<close>

definition come_to :: "world \<Rightarrow> inode \<Rightarrow> string list \<Rightarrow> inode \<Rightarrow> bool" where
  "come_to w root cs d = (direct w root cs = Some d \<and> (cs \<noteq> [] \<longrightarrow> node_at w d = Some Directory))"

lemma walk_come_to: "come_to w root cs d \<Longrightarrow> walk w root (cs @ c # rest) = walk w d (c # rest)"
proof (induction cs arbitrary: root)
  case (Cons a cs)
  then obtain j where j: "entry_at w root a = Some j" "node_at w root = Some Directory" "direct w j cs = Some d"
    "node_at w d = Some Directory"
    by (auto simp: come_to_def split: if_splits option.splits)
  then have dir: "node_at w j = Some Directory" by (cases cs) (auto split: if_splits)
  from j have "walk w j (cs @ c # rest) = walk w d (c # rest)"
    by (intro Cons.IH) (simp add: come_to_def)
  with j dir show ?case by simp
qed (simp add: come_to_def)

lemma direct_come_to:
  "come_to w root cs d \<Longrightarrow> direct w root (cs @ [c]) = (if node_at w d = Some Directory then entry_at w d c else None)"
  by (simp add: come_to_def direct_snoc)

lemma Join_components:
  "list_all component (cs @ [c]) \<Longrightarrow> Join [join_with slash cs, c] = join_with slash (cs @ [c])"
proof -
  assume cs: "list_all component (cs @ [c])"
  have join: "cs \<noteq> [] \<Longrightarrow> join_with slash (cs @ [c]) = join_with slash cs @ slash # c"
    by (induction cs rule: join_with.induct) auto
  have "Clean (join_with slash (cs @ [c])) = join_with slash (cs @ [c])"
    by (rule Clean_plain [OF plain_join]) (use cs in simp_all)
  with cs join join_components(1) [of cs] show ?thesis
    by (cases "cs = []") (auto simp: Join_def component_def)
qed

lemma path_components_join:
  assumes "cs \<noteq> []" and "list_all component cs"
  shows "path_components (join_with slash cs) = cs"
proof -
  have "plain_path (join_with slash cs)" by (rule plain_join [OF assms])
  then have "join_with slash cs \<noteq> dot" by (simp add: plain_path_iff)
  with assms show ?thesis by (simp add: path_components_def split_join_on list_all_iff component_def)
qed

text \<open>
  When the scan of the components succeeds, the path leads through directories to something that is no
  symlink, or, where that is allowed, there is nothing at the path.
\<close>

definition nothing_at :: "world \<Rightarrow> inode \<Rightarrow> string list \<Rightarrow> bool" where
  "nothing_at w root cs = (case walk w root cs of Inl _ \<Rightarrow> True | Inr i \<Rightarrow> node_at w i = None)"

lemma same_disk_nothing [disk_simps]: "same_disk w w' \<Longrightarrow> nothing_at w' root cs = nothing_at w root cs"
  by (simp add: nothing_at_def disk_simps split: sum.split)

lemma Lstat_missing:
  assumes "Lstat h root p w = (Inl (OsError NotExist), w')"
  shows "(walk w root (path_components p) = Inl NotExist \<or>
      (\<exists>i. walk w root (path_components p) = Inr i \<and> node_at w i = None)) \<and> same_disk w w'"
  using os_op_failure [OF assms [unfolded Lstat_def]]
  by (auto simp: err_simps stat_inode_def split: option.splits)

lemma missing_below:
  assumes "come_to w root cs d" and "nothing_at w root (cs @ [c])"
  shows "nothing_at w root (cs @ c # rest)"
  using assms walk_come_to [OF assms(1), of c rest] walk_come_to [OF assms(1), of c "[]"]
  by (cases rest) (auto simp: nothing_at_def split: option.splits if_splits sum.splits node.splits)

lemma reject_components_success:
  assumes "reject_components h root am (join_with slash cs) parts w = (Inr u, w')"
    and "come_to w root cs d" and "list_all component (cs @ parts)" and "parts \<noteq> []"
  shows "(\<exists>i n. direct w root (cs @ parts) = Some i \<and> node_at w i = Some n \<and> kind_of n \<noteq> KindSymlink) \<or>
    am \<and> nothing_at w root (cs @ parts)"
  using assms
proof (induction parts arbitrary: cs d w)
  case (Cons part rest)
  have comps: "list_all component (cs @ [part])" using Cons.prems(3) by simp
  note join = Join_components [OF comps] path_components_join [OF _ comps, simplified]
  from Cons.prems(1) obtain r w1 where r: "Lstat h root (join_with slash (cs @ [part])) w = (r, w1)"
    and rest: "(case r of
          Inl e \<Rightarrow> if e = OsError NotExist \<and> am then io_return () else io_fail e
        | Inr info \<Rightarrow>
            if fi_kind info = KindSymlink
            then io_fail (Errorf ''symlink path component is not allowed'' [part])
            else if rest \<noteq> [] \<and> fi_kind info \<noteq> KindDirectory
            then io_fail (Errorf ''path component is not a directory'' [part])
            else reject_components h root am (join_with slash (cs @ [part])) rest) w1 = (Inr u, w')"
    by (auto simp: io_success join Let_def)
  show ?case
  proof (cases r)
    case (Inl e)
    with rest have "am" "e = OsError NotExist" by (auto simp: io_success split: if_splits)
    with Lstat_missing r Inl join have "nothing_at w root (cs @ [part])"
      by (fastforce simp: nothing_at_def)
    with missing_below [OF Cons.prems(2)] \<open>am\<close> show ?thesis by blast
  next
    case (Inr info)
    with r obtain i n where i: "walk w root (cs @ [part]) = Inr i" "node_at w i = Some n" "info = info_of i n"
      and disk: "same_disk w w1"
      using Lstat_success [of h root "join_with slash (cs @ [part])" w info w1] join by metis
    have entry: "node_at w d = Some Directory" "entry_at w d part = Some i"
      using walk_come_to [OF Cons.prems(2), of part "[]"] i(1) by (auto split: if_splits option.splits)
    from entry direct_come_to [OF Cons.prems(2)] have direct: "direct w root (cs @ [part]) = Some i" by simp
    from rest Inr i(3) have kind: "kind_of n \<noteq> KindSymlink" "rest \<noteq> [] \<Longrightarrow> kind_of n = KindDirectory"
      and next_: "reject_components h root am (join_with slash (cs @ [part])) rest w1 = (Inr u, w')"
      by (auto simp: io_success split: if_splits)
    show ?thesis
    proof (cases "rest = []")
      case True
      with direct i(2) kind(1) show ?thesis by blast
    next
      case False
      with kind(2) have "n = Directory" by (cases n) (auto simp: kind_of_def)
      with direct i(2) disk have "come_to w1 root (cs @ [part]) i"
        by (simp add: come_to_def disk_simps [OF disk])
      with Cons.IH [OF next_] Cons.prems(3) False disk show ?thesis
        by (simp add: disk_simps)
    qed
  qed
qed simp

lemma direct_nothing:
  "direct w root (cs @ [c]) = Some i \<Longrightarrow> nothing_at w root (cs @ [c]) = (node_at w i = None)"
proof -
  assume direct: "direct w root (cs @ [c]) = Some i"
  then obtain d where d: "direct w root cs = Some d" "node_at w d = Some Directory" "entry_at w d c = Some i"
    by (auto simp: direct_snoc split: option.splits if_splits)
  then have "come_to w root cs d" by (simp add: come_to_def)
  with walk_come_to [OF this, of c "[]"] d show ?thesis by (simp add: nothing_at_def)
qed

text \<open>What a snapshot says of the disk.\<close>

definition snapshot_true :: "host \<Rightarrow> world \<Rightarrow> inode \<Rightarrow> string list \<Rightarrow> file_snapshot \<Rightarrow> bool" where
  "snapshot_true h w root cs s =
     (if sp_exists s
      then \<exists>i content mode. direct w root cs = Some i \<and> node_at w i = Some (RegularFile content mode) \<and>
        s = file_snapshot_of h i content mode
      else s = no_file \<and> nothing_at w root cs)"

lemma same_disk_snapshot [disk_simps]:
  "same_disk w w' \<Longrightarrow> snapshot_true h w' root cs s = snapshot_true h w root cs s"
  by (simp add: snapshot_true_def disk_simps)

lemma readRootRegularFile_true:
  assumes read: "readRootRegularFile h root p am label w = (Inr s, w')" and plain: "plain_path p"
  shows "snapshot_true h w root (split_on slash p) s \<and> (sp_exists s \<or> am) \<and> same_disk w w'"
proof -
  let ?cs = "split_on slash p"
  have "p \<noteq> dot" using plain by (simp add: plain_path_iff)
  with plain have comps: "list_all component ?cs" "path_components p = ?cs"
    by (simp_all add: plain_path_def path_components_def)
  from read obtain u w1 r w2 where scan: "reject_components h root am [] ?cs w = (Inr u, w1)"
    and stat: "Lstat h root p w1 = (r, w2)"
    and rest: "(case r of
         Inl e \<Rightarrow> if e = OsError NotExist \<and> am then io_return no_file else io_fail e
       | Inr before \<Rightarrow>
           if fi_kind before = KindSymlink then io_fail (Errorf ''symlink is not allowed'' [label, p])
           else if fi_kind before \<noteq> KindRegular then io_fail (Errorf ''must be a regular file'' [label, p])
           else read_opened h root p label before) w2 = (Inr s, w')"
    unfolding readRootRegularFile_def rejectSymlinkComponents_def io_success by blast
  have disk1: "same_disk w w1" by (rule reads_outcome [OF reads_components scan])
  have disk2: "same_disk w1 w2" by (rule reads_outcome [OF reads_ops(1) stat])
  note disk = same_disk_trans [OF disk1 disk2]
  have all: "same_disk w w'" by (rule reads_outcome [OF reads_file read])
  have found: "(\<exists>i n. direct w root ?cs = Some i \<and> node_at w i = Some n) \<or> am \<and> nothing_at w root ?cs"
    using reject_components_success [of h root am "[]" ?cs w u w1 root] scan comps by (auto simp: come_to_def)
  show ?thesis
  proof (cases r)
    case (Inl e)
    with rest have e: "e = OsError NotExist" "am" "s = no_file" by (auto simp: io_success split: if_splits)
    with stat Inl comps(2) Lstat_missing [of h root p w1 w2] have "nothing_at w1 root ?cs"
      by (auto simp: nothing_at_def)
    with e all disk_simps [OF disk1] show ?thesis by (simp add: snapshot_true_def no_file_def)
  next
    case (Inr info)
    with stat obtain i n where "walk w1 root ?cs = Inr i" "node_at w1 i = Some n" "info = info_of i n"
      using Lstat_success [of h root p w1 info w2] comps(2) by metis
    then have i: "walk w root ?cs = Inr i" "node_at w i = Some n" "info = info_of i n"
      by (simp_all add: disk_simps [OF disk1])
    from rest Inr have "read_opened h root p label info w2 = (Inr s, w')"
      by (auto simp: io_success split: if_splits)
    from read_opened_success [OF this, of i n] i comps(2) disk2
    obtain content mode where file_at: "node_at w i = Some (RegularFile content mode)" "s = file_snapshot_of h i content mode"
      by (auto simp: disk_simps [OF disk])
    obtain cs c where cs: "?cs = cs @ [c]" by (cases ?cs rule: rev_cases) auto
    have "\<not> nothing_at w root ?cs" using i by (simp add: nothing_at_def)
    with found obtain j where "direct w root ?cs = Some j" by blast
    moreover from this obtain d where d: "direct w root cs = Some d" "node_at w d = Some Directory" "entry_at w d c = Some j"
      by (auto simp: cs direct_snoc split: option.splits if_splits)
    moreover have "come_to w root cs d" using d by (simp add: come_to_def)
    note walk_come_to [OF this, of c "[]"]
    ultimately have "direct w root ?cs = Some i" using i(1) by (simp add: cs)
    with file_at all show ?thesis by (simp add: snapshot_true_def file_snapshot_of_def)
  qed
qed

section \<open>Reading one name of a directory\<close>

lemma component_plain: "component name \<Longrightarrow> plain_path name \<and> split_on slash name = [name]"
  by (simp add: plain_path_def component_def split_on_solid)

lemma read_name_true:
  assumes "readRootRegularFile h parent name am label w = (Inr s, w')" and "component name"
    and "node_at w parent = Some Directory"
  shows "(if sp_exists s
      then \<exists>i content mode. entry_at w parent name = Some i \<and> node_at w i = Some (RegularFile content mode) \<and>
        s = file_snapshot_of h i content mode
      else am \<and> s = no_file \<and> (\<forall>i. entry_at w parent name = Some i \<longrightarrow> node_at w i = None)) \<and> same_disk w w'"
  using readRootRegularFile_true [OF assms(1)] component_plain [OF assms(2)] assms(3)
  by (auto simp: snapshot_true_def nothing_at_def split: option.splits if_splits)

lemma path_components_name: "component name \<Longrightarrow> path_components name = [name]"
  using component_plain [of name] by (auto simp: path_components_def component_def)

lemma Lstat_name_success:
  assumes "Lstat h parent name w = (Inr info, w')" and "component name" and "node_at w parent = Some Directory"
  shows "(\<exists>i n. entry_at w parent name = Some i \<and> node_at w i = Some n \<and> info = info_of i n) \<and> same_disk w w'"
proof -
  obtain i n where "walk w parent (path_components name) = Inr i" "node_at w i = Some n" "info = info_of i n" "same_disk w w'"
    by (rule Lstat_success [OF assms(1)])
  with path_components_name [OF assms(2)] assms(3) show ?thesis by (auto split: option.splits)
qed

lemma Lstat_name_missing:
  assumes "Lstat h parent name w = (Inl (OsError NotExist), w')" and "component name" and "node_at w parent = Some Directory"
  shows "(\<forall>i. entry_at w parent name = Some i \<longrightarrow> node_at w i = None) \<and> same_disk w w'"
  using Lstat_missing [OF assms(1)] path_components_name [OF assms(2)] assms(3)
  by (auto split: option.splits)

end
