(* ===== verification/SyncOverlay.thy ===== *)
theory SyncOverlay
  imports SyncDisk
begin

text \<open>
  The directory entries during a publication of \<open>internal/coresync/sync.go\<close>, described as the entries
  at its start with an overlay: the staged files, the backups and the published targets of the items.
\<close>

section \<open>Entries and overlays\<close>

type_synonym entry_key = "inode \<times> string"
type_synonym entry_map = "entry_key \<Rightarrow> inode option"
type_synonym overlay = "(entry_key \<times> inode) list"

definition entry_of :: "world \<Rightarrow> entry_map" where
  "entry_of w k = map_get (w_entries w) k"

lemma entry_at_of: "entry_at w d n = entry_of w (d, n)"
  by (simp add: entry_at_def entry_of_def)

lemma same_disk_entry_of [disk_simps]: "same_disk w w' \<Longrightarrow> entry_of w' = entry_of w"
  by (simp add: same_disk_def entry_of_def fun_eq_iff map_simps)

text \<open>The entries of \<open>w\<close> are those of \<open>E\<close>, but for the keys of the overlay.\<close>

definition overlaid :: "entry_map \<Rightarrow> overlay \<Rightarrow> world \<Rightarrow> bool" where
  "overlaid E ov w = (distinct (map fst ov) \<and> entry_of w = E ++ map_of ov)"

lemma overlaid_same [disk_simps]: "same_disk w w' \<Longrightarrow> overlaid E ov w' = overlaid E ov w"
  by (simp add: overlaid_def disk_simps)

lemma overlaid_perm: "mset ov = mset ov' \<Longrightarrow> overlaid E ov w = overlaid E ov' w"
proof -
  assume eq: "mset ov = mset ov'"
  then have keys: "distinct (map fst ov) = distinct (map fst ov')"
    by (metis mset_eq_imp_distinct_iff mset_map)
  have "map_of ov = map_of ov'" if "distinct (map fst ov)"
    using that keys mset_eq_setD [OF eq] by (simp add: map_of_inject_set)
  with keys show ?thesis by (auto simp: overlaid_def)
qed

lemma overlaid_start: "overlaid (entry_of w) [] w"
  by (simp add: overlaid_def)

lemma overlaid_entry: "overlaid E ov w \<Longrightarrow> (k, i) \<in> set ov \<Longrightarrow> entry_of w k = Some i"
  by (simp add: overlaid_def)

lemma overlaid_outside: "overlaid E ov w \<Longrightarrow> k \<notin> fst ` set ov \<Longrightarrow> entry_of w k = E k"
  by (simp add: overlaid_def map_add_dom_app_simps dom_map_of_conv_image_fst)

lemma overlaid_free: "overlaid E ov w \<Longrightarrow> entry_of w k = None \<Longrightarrow> map_of ov k = None \<and> E k = None"
  by (simp add: overlaid_def)

lemma fresh_key: "map_of ov k = None \<longleftrightarrow> k \<notin> fst ` set ov"
  by (simp add: map_of_eq_None_iff)

lemma overlaid_add:
  "overlaid E ov w \<Longrightarrow> entry_of w k = None \<Longrightarrow> entry_of w' = (entry_of w)(k := Some i) \<Longrightarrow> overlaid E ((k, i) # ov) w'"
  by (simp add: overlaid_def fresh_key)

lemma overlaid_remove:
  "overlaid E ((k, i) # ov) w \<Longrightarrow> E k = None \<Longrightarrow> entry_of w' = (entry_of w)(k := None) \<Longrightarrow> overlaid E ov w'"
  by (rule overlaid_def [THEN iffD2])
    (auto simp: overlaid_def map_add_def fun_eq_iff fresh_key [symmetric] split: option.split)

text \<open>A rename of an overlay entry onto a key of the start, and back.\<close>

lemma overlaid_rename:
  assumes "overlaid E ((s, i) # ov) w" and "E s = None" and "t \<notin> fst ` set ov"
    and "entry_of w' = (entry_of w)(s := None, t := Some i)"
  shows "overlaid E ((t, i) # ov) w'"
  using assms
  by (auto simp: overlaid_def map_add_def fun_eq_iff fresh_key [symmetric] split: option.split)

lemma overlaid_restore:
  assumes "overlaid E ((b, i) # (t, j) # ov) w" and "E b = None" and "E t = Some i"
    and "entry_of w' = (entry_of w)(b := None, t := Some i)"
  shows "overlaid E ov w'"
  using assms
  by (auto simp: overlaid_def map_add_def fun_eq_iff fresh_key [symmetric] split: option.split)

section \<open>What the operations do to the entries\<close>

definition same_nodes :: "world \<Rightarrow> world \<Rightarrow> bool" where
  "same_nodes w w' = (w_nodes w' = w_nodes w \<and> w_next w' = w_next w)"

lemma same_nodes_refl [simp]: "same_nodes w w"
  by (simp add: same_nodes_def)

lemma same_nodes_trans: "same_nodes w w' \<Longrightarrow> same_nodes w' w'' \<Longrightarrow> same_nodes w w''"
  by (simp add: same_nodes_def)

lemma same_nodes_disk: "same_disk w w' \<Longrightarrow> same_nodes w w'"
  by (simp add: same_nodes_def same_disk_def)

lemma same_nodes_node: "same_nodes w w' \<Longrightarrow> node_at w' i = node_at w i"
  by (simp add: same_nodes_def node_at_def)

lemma os_op_failure_disk: "os_op h f w = (Inl e, w') \<Longrightarrow> same_disk w w'"
  using os_op_failure [of h f w e w'] by simp

lemma Rename_failure: "Rename h d old new w = (Inl e, w') \<Longrightarrow> same_disk w w'"
  by (auto simp: Rename_def dest: os_op_failure_disk)

lemma Rename_success:
  assumes "Rename h d old new w = (Inr (), w')" and "entry_of w (d, old) = Some i" and "entry_of w (d, new) = Some j"
    and "i \<noteq> j"
  shows "entry_of w' = (entry_of w)((d, old) := None, (d, new) := Some i) \<and> same_nodes w w'"
  using os_op_success [OF assms(1) [unfolded Rename_def]] assms(2-4)
  by (auto simp: entry_at_of move_entry_def entry_of_def fun_eq_iff map_simps same_nodes_def split: if_splits option.splits)

lemma LinkFile_failure: "LinkFile h d old new w = (Inl e, w') \<Longrightarrow> same_disk w w'"
  by (auto simp: LinkFile_def dest: os_op_failure_disk)

lemma LinkFile_success:
  assumes "LinkFile h d old new w = (Inr (), w')"
  shows "\<exists>i. entry_of w (d, old) = Some i \<and> entry_of w (d, new) = None \<and>
    entry_of w' = (entry_of w)((d, new) := Some i) \<and> same_nodes w w'"
  using os_op_success [OF assms [unfolded LinkFile_def]]
  by (auto simp: entry_at_of entry_of_def fun_eq_iff map_simps same_nodes_def split: if_splits option.splits)

lemma RemoveName_failure: "RemoveName h d name w = (Inl e, w') \<Longrightarrow> same_disk w w'"
  by (auto simp: RemoveName_def dest: os_op_failure_disk)

lemma RemoveName_success:
  assumes "RemoveName h d name w = (Inr (), w')"
  shows "entry_of w' = (entry_of w)((d, name) := None) \<and> same_nodes w w'"
  using os_op_success [OF assms [unfolded RemoveName_def]]
  by (auto simp: entry_at_of entry_of_def fun_eq_iff map_simps same_nodes_def split: if_splits option.splits)

end
