(* ===== verification/SyncItems.thy ===== *)
theory SyncItems
  imports SyncOverlay
begin

text \<open>
  One item of a publication: what its flags say about the disk, and that publishing it, rolling it back
  and removing its artifacts keep this, whichever operation fails.
\<close>

section \<open>Names of artifacts\<close>

lemma component_append: "component p \<Longrightarrow> slash \<notin> set s \<Longrightarrow> 3 \<le> length p \<Longrightarrow> component (p @ s)"
  by (auto simp: component_def dot_def dotdot_def dest: arg_cong [where f = length])

lemma hex_encode_slash: "slash \<notin> set (hex_encode bytes)"
  using hex_encode_hex [of bytes] by (auto simp: slash_def is_hex_def)

lemma artifact_component: "component pre \<Longrightarrow> 3 \<le> length pre \<Longrightarrow> component (pre @ hex_encode bytes)"
  by (rule component_append) (simp_all add: hex_encode_slash)

lemma artifact_prefixes: "component ''.coresync-stage-''" "component ''.coresync-backup-''"
  by (simp_all add: component_def dot_def dotdot_def slash_def)

text \<open>The names of staged files and of backups.\<close>

definition stage_name :: "string \<Rightarrow> bool" where
  "stage_name name = (\<exists>bytes. name = ''.coresync-stage-'' @ hex_encode bytes)"

definition backup_name :: "string \<Rightarrow> bool" where
  "backup_name name = (\<exists>bytes. name = ''.coresync-backup-'' @ hex_encode bytes)"

definition artifact_name :: "string \<Rightarrow> bool" where
  "artifact_name name = (stage_name name \<or> backup_name name)"

lemma stage_name_component: "stage_name name \<Longrightarrow> component name"
  unfolding stage_name_def using artifact_component [OF artifact_prefixes(1)] by auto

lemma backup_name_component: "backup_name name \<Longrightarrow> component name"
  unfolding backup_name_def using artifact_component [OF artifact_prefixes(2)] by auto

lemma unused_name_shape: "unused_name n h parent pre w = (Inr name, w') \<Longrightarrow> \<exists>bytes. name = pre @ hex_encode bytes"
proof (induction n arbitrary: w)
  case (Suc n)
  from Suc.prems obtain bytes w1 r w2 where "Lstat h parent (pre @ hex_encode bytes) w1 = (r, w2)"
    and run: "(case r of Inl e \<Rightarrow> if e = OsError NotExist then io_return (pre @ hex_encode bytes) else io_fail e
       | Inr _ \<Rightarrow> unused_name n h parent pre) w2 = (Inr name, w')"
    by (auto simp: randomArtifactName_def io_success)
  from run Suc.IH show ?case
    by (cases r) (auto simp: io_success split: if_splits)
qed (simp add: io_success)

lemma unused_backup_name: "unused_name n h parent ''.coresync-backup-'' w = (Inr name, w') \<Longrightarrow> backup_name name"
  unfolding backup_name_def by (rule unused_name_shape)

section \<open>An item and its overlay\<close>

definition target_key :: "publication_item \<Rightarrow> entry_key" where
  "target_key item = (pi_parent item, pi_basename item)"

definition staged_key :: "publication_item \<Rightarrow> entry_key" where
  "staged_key item = (pi_parent item, pi_staged_name item)"

definition backup_key :: "publication_item \<Rightarrow> entry_key" where
  "backup_key item = (pi_parent item, pi_backup_name item)"

definition staged_inode :: "publication_item \<Rightarrow> inode" where
  "staged_inode item = (case pi_staged_info item of Some info \<Rightarrow> fi_inode info | None \<Rightarrow> 0)"

lemmas item_keys = target_key_def staged_key_def backup_key_def staged_inode_def

definition item_overlay :: "entry_map \<Rightarrow> publication_item \<Rightarrow> overlay" where
  "item_overlay E item =
     (if pi_staged_exists item then [(staged_key item, staged_inode item)] else []) @
     (if pi_backup_exists item then [(backup_key item, the (E (target_key item)))] else []) @
     (if pi_published item then [(target_key item, staged_inode item)] else [])"

text \<open>
  The managed destination exists at the start as a regular file with an inode below \<open>n\<close>; the staged
  file is new, with the desired content and mode; the backup is the previous file.
\<close>

definition regular_at :: "world \<Rightarrow> inode \<Rightarrow> bool" where
  "regular_at w i = (\<exists>content mode. node_at w i = Some (RegularFile content mode))"

definition planned :: "entry_map \<Rightarrow> inode \<Rightarrow> world \<Rightarrow> publication_item \<Rightarrow> bool" where
  "planned E n w item = (component (pi_basename item) \<and> node_at w (pi_parent item) = Some Directory \<and>
     (sp_exists (pi_previous item) \<longrightarrow> (\<exists>i < n. E (target_key item) = Some i \<and> regular_at w i)))"

definition staged_ok :: "entry_map \<Rightarrow> inode \<Rightarrow> world \<Rightarrow> publication_item \<Rightarrow> bool" where
  "staged_ok E n w item = (\<exists>info. pi_staged_info item = Some info \<and> n \<le> fi_inode info \<and>
     node_at w (fi_inode info) = Some (RegularFile (pi_desired item) (Perm (pi_mode item))) \<and>
     stage_name (pi_staged_name item) \<and> E (staged_key item) = None)"

definition backup_ok :: "entry_map \<Rightarrow> publication_item \<Rightarrow> bool" where
  "backup_ok E item = (sp_exists (pi_previous item) \<and> backup_name (pi_backup_name item) \<and> E (backup_key item) = None \<and>
     (\<forall>info. pi_backup_info item = Some info \<longrightarrow> E (target_key item) = Some (fi_inode info)))"

definition item_ok :: "entry_map \<Rightarrow> inode \<Rightarrow> world \<Rightarrow> publication_item \<Rightarrow> bool" where
  "item_ok E n w item = (planned E n w item \<and> (pi_staged_exists item \<or> pi_published item \<longrightarrow> staged_ok E n w item) \<and>
     (pi_backup_exists item \<longrightarrow> backup_ok E item) \<and>
     (pi_published item \<longrightarrow> sp_exists (pi_previous item) \<or> E (target_key item) = None))"

text \<open>A published item whose predecessor can be put back.\<close>

definition recoverable :: "publication_item \<Rightarrow> bool" where
  "recoverable item = (pi_published item \<and> sp_exists (pi_previous item) \<longrightarrow>
     pi_backup_exists item \<and> pi_backup_info item \<noteq> None)"

lemma item_ok_nodes: "same_nodes w w' \<Longrightarrow> item_ok E n w' item = item_ok E n w item"
  by (simp add: item_ok_def planned_def staged_ok_def regular_at_def same_nodes_node)

text \<open>What a step on an item does not change.\<close>

definition plan_of :: "publication_item \<Rightarrow> publication_item" where
  "plan_of item = item\<lparr>pi_staged_exists := False, pi_backup_name := [], pi_backup_info := None,
     pi_backup_exists := False, pi_published := False\<rparr>"

lemma plan_simps [simp]:
  "plan_of (item\<lparr>pi_staged_exists := b\<rparr>) = plan_of item" "plan_of (item\<lparr>pi_backup_name := name\<rparr>) = plan_of item"
  "plan_of (item\<lparr>pi_backup_info := info\<rparr>) = plan_of item" "plan_of (item\<lparr>pi_backup_exists := b\<rparr>) = plan_of item"
  "plan_of (item\<lparr>pi_published := b\<rparr>) = plan_of item"
  by (simp_all add: plan_of_def)

lemma plan_fields:
  assumes "plan_of item' = plan_of item"
  shows "pi_path item' = pi_path item" "pi_basename item' = pi_basename item" "pi_parent item' = pi_parent item"
    "pi_desired item' = pi_desired item" "pi_mode item' = pi_mode item" "pi_previous item' = pi_previous item"
    "pi_provenance item' = pi_provenance item" "pi_staged_name item' = pi_staged_name item"
    "pi_staged_info item' = pi_staged_info item" "target_key item' = target_key item"
  using assms by (cases item, cases item', simp add: plan_of_def target_key_def)+

section \<open>Steps on an item\<close>

text \<open>
  The state of a step: the item and the world, where the rest of the overlay is \<open>C\<close> and the nodes do not
  change.
\<close>

record ground =
  gr_entries :: entry_map
  gr_bound :: inode
  gr_world :: world
  gr_plan :: publication_item
  gr_rest :: overlay

definition item_inv :: "ground \<Rightarrow> publication_item \<times> world \<Rightarrow> bool" where
  "item_inv g s = (case s of (item, w) \<Rightarrow>
     overlaid (gr_entries g) (item_overlay (gr_entries g) item @ gr_rest g) w \<and>
     item_ok (gr_entries g) (gr_bound g) w item \<and> same_nodes (gr_world g) w \<and> plan_of item = gr_plan g)"

lemma item_inv_disk: "item_inv g (item, w) \<Longrightarrow> same_disk w w' \<Longrightarrow> item_inv g (item, w')"
  by (auto simp: item_inv_def overlaid_same item_ok_nodes [OF same_nodes_disk]
      intro: same_nodes_trans same_nodes_disk)

lemma wlp_item [wlp_rules]:
  "wlp the_item Q F s = Q (fst s) s" "wlp (modify_item f) R F s = R () (f (fst s), snd s)"
  by (auto simp: wlp_def the_item_def modify_item_def split: prod.splits)

lemma wlp_on_world [wlp_rules]:
  "wlp (on_world m) Q F s = wlp m (\<lambda>x w'. Q x (fst s, w')) (\<lambda>e w'. F e (fst s, w')) (snd s)"
  by (auto simp: wlp_def on_world_def split: prod.splits sum.splits)

text \<open>A step that reads keeps what depends on the disk only.\<close>

lemma wlp_reads:
  assumes "reads m" and "item_inv g (item, w)"
    and "\<And>x w'. m w = (Inr x, w') \<Longrightarrow> same_disk w w' \<Longrightarrow> item_inv g (item, w') \<Longrightarrow> Q x w'"
    and "\<And>e w'. m w = (Inl e, w') \<Longrightarrow> same_disk w w' \<Longrightarrow> item_inv g (item, w') \<Longrightarrow> F e w'"
  shows "wlp m Q F w"
  by (rule wlpI) (use assms reads_outcome [OF assms(1)] item_inv_disk in blast)+

section \<open>Artifacts\<close>

lemma removeArtifact_effect:
  assumes "removeArtifactIfUnchanged h parent name (Some info) w = (r, w')" and "component name"
    and "node_at w parent = Some Directory" and "entry_of w (parent, name) = Some i" and "regular_at w i"
  shows "case r of Inr _ \<Rightarrow> entry_of w' = (entry_of w)((parent, name) := None) \<and> same_nodes w w'
    | Inl _ \<Rightarrow> same_disk w w'"
proof -
  have name: "name \<noteq> []" using assms(2) by (simp add: component_def)
  obtain st w1 where st: "Lstat h parent name w = (st, w1)" by (cases "Lstat h parent name w")
  have disk: "same_disk w w1" by (rule reads_outcome [OF reads_ops(1) st])
  have exists: "st \<noteq> Inl (OsError NotExist)"
    using Lstat_name_missing [of h parent name w w1] st assms(2-5) by (auto simp: regular_at_def entry_at_of)
  from assms(1) name st have run: "(case st of
        Inl e \<Rightarrow> if e = OsError NotExist then io_return () else io_fail e
      | Inr found \<Rightarrow>
          if \<not> SameFile found info then io_fail (Errorf ''artifact changed; retained'' [])
          else RemoveName h parent name) w1 = (r, w')"
    by (simp add: removeArtifactIfUnchanged_def io_bind_def io_try_def)
  show ?thesis
  proof (cases r)
    case (Inl e)
    with run disk show ?thesis
      by (auto simp: io_return_def io_fail_def intro: same_disk_trans dest: RemoveName_failure split: sum.splits if_splits)
  next
    case (Inr u)
    with run exists have "RemoveName h parent name w1 = (Inr (), w')"
      by (auto simp: io_success split: sum.splits if_splits)
    from RemoveName_success [OF this] Inr disk show ?thesis
      by (auto simp: disk_simps [OF disk] intro: same_nodes_trans same_nodes_disk)
  qed
qed

section \<open>Backups\<close>

text \<open>The rest of the overlay leaves the target of a managed item alone.\<close>

definition rest_ok :: "ground \<Rightarrow> bool" where
  "rest_ok g = (sp_exists (pi_previous (gr_plan g)) \<longrightarrow> target_key (gr_plan g) \<notin> fst ` set (gr_rest g))"

lemma plan_of_self [simp]: "plan_of (plan_of item) = plan_of item"
  by (simp add: plan_of_def)

lemma inv_plan:
  assumes "item_inv g (item, w)"
  shows "pi_previous (gr_plan g) = pi_previous item" "target_key (gr_plan g) = target_key item"
proof -
  from assms have "gr_plan g = plan_of item" by (auto simp: item_inv_def)
  then have "plan_of (gr_plan g) = plan_of item" by simp
  from plan_fields [OF this] show "pi_previous (gr_plan g) = pi_previous item" "target_key (gr_plan g) = target_key item"
    by simp_all
qed

lemma overlay_backup:
  assumes "item_inv g (item, w)" and "pi_backup_exists item"
  shows "\<exists>i. gr_entries g (target_key item) = Some i \<and> entry_of w (backup_key item) = Some i \<and> regular_at w i \<and>
    component (pi_backup_name item) \<and> node_at w (pi_parent item) = Some Directory \<and> i < gr_bound g"
proof -
  from assms obtain i where i: "gr_entries g (target_key item) = Some i" "regular_at w i" "i < gr_bound g"
    "component (pi_backup_name item)" "node_at w (pi_parent item) = Some Directory"
    by (auto simp: item_inv_def item_ok_def planned_def backup_ok_def intro: backup_name_component)
  with assms show ?thesis
    by (intro exI [of _ i]) (auto simp: item_inv_def item_overlay_def intro!: overlaid_entry)
qed

lemma overlay_split:
  "pi_backup_exists item \<Longrightarrow> mset (item_overlay E item) =
     add_mset (backup_key item, the (E (target_key item))) (mset (item_overlay E (item\<lparr>pi_backup_exists := False\<rparr>)))"
  "pi_staged_exists item \<Longrightarrow> mset (item_overlay E item) =
     add_mset (staged_key item, staged_inode item) (mset (item_overlay E (item\<lparr>pi_staged_exists := False\<rparr>)))"
  "pi_published item \<Longrightarrow> mset (item_overlay E item) =
     add_mset (target_key item, staged_inode item) (mset (item_overlay E (item\<lparr>pi_published := False\<rparr>)))"
  by (simp_all add: item_overlay_def item_keys)

lemma key_simps [simp]:
  "target_key (item\<lparr>pi_staged_exists := b\<rparr>) = target_key item" "target_key (item\<lparr>pi_backup_exists := b\<rparr>) = target_key item"
  "target_key (item\<lparr>pi_backup_name := name\<rparr>) = target_key item" "target_key (item\<lparr>pi_backup_info := info\<rparr>) = target_key item"
  "target_key (item\<lparr>pi_published := b\<rparr>) = target_key item"
  "staged_key (item\<lparr>pi_staged_exists := b\<rparr>) = staged_key item" "staged_key (item\<lparr>pi_backup_exists := b\<rparr>) = staged_key item"
  "staged_key (item\<lparr>pi_backup_name := name\<rparr>) = staged_key item" "staged_key (item\<lparr>pi_backup_info := info\<rparr>) = staged_key item"
  "staged_key (item\<lparr>pi_published := b\<rparr>) = staged_key item"
  "staged_inode (item\<lparr>pi_staged_exists := b\<rparr>) = staged_inode item" "staged_inode (item\<lparr>pi_backup_exists := b\<rparr>) = staged_inode item"
  "staged_inode (item\<lparr>pi_backup_name := name\<rparr>) = staged_inode item" "staged_inode (item\<lparr>pi_backup_info := info\<rparr>) = staged_inode item"
  "staged_inode (item\<lparr>pi_published := b\<rparr>) = staged_inode item"
  "backup_key (item\<lparr>pi_staged_exists := b\<rparr>) = backup_key item" "backup_key (item\<lparr>pi_backup_exists := b\<rparr>) = backup_key item"
  "backup_key (item\<lparr>pi_backup_info := info\<rparr>) = backup_key item" "backup_key (item\<lparr>pi_published := b\<rparr>) = backup_key item"
  by (simp_all add: item_keys)

lemma ok_simps [simp]:
  "planned E n w (item\<lparr>pi_staged_exists := b\<rparr>) = planned E n w item" "planned E n w (item\<lparr>pi_backup_exists := b\<rparr>) = planned E n w item"
  "planned E n w (item\<lparr>pi_backup_name := name\<rparr>) = planned E n w item" "planned E n w (item\<lparr>pi_backup_info := info\<rparr>) = planned E n w item"
  "planned E n w (item\<lparr>pi_published := b\<rparr>) = planned E n w item"
  "staged_ok E n w (item\<lparr>pi_staged_exists := b\<rparr>) = staged_ok E n w item" "staged_ok E n w (item\<lparr>pi_backup_exists := b\<rparr>) = staged_ok E n w item"
  "staged_ok E n w (item\<lparr>pi_backup_name := name\<rparr>) = staged_ok E n w item" "staged_ok E n w (item\<lparr>pi_backup_info := info\<rparr>) = staged_ok E n w item"
  "staged_ok E n w (item\<lparr>pi_published := b\<rparr>) = staged_ok E n w item"
  "backup_ok E (item\<lparr>pi_staged_exists := b\<rparr>) = backup_ok E item" "backup_ok E (item\<lparr>pi_backup_exists := b\<rparr>) = backup_ok E item"
  "backup_ok E (item\<lparr>pi_published := b\<rparr>) = backup_ok E item"
  by (simp_all add: planned_def staged_ok_def backup_ok_def)

lemma overlay_simps [simp]:
  "item_overlay E (item\<lparr>pi_backup_info := info\<rparr>) = item_overlay E item"
  "\<not> pi_backup_exists item \<Longrightarrow> item_overlay E (item\<lparr>pi_backup_name := name\<rparr>) = item_overlay E item"
  by (simp_all add: item_overlay_def)

lemma inv_remove_backup:
  assumes "item_inv g (item, w)" and "pi_backup_exists item"
    and "entry_of w' = (entry_of w)(backup_key item := None)" and "same_nodes w w'"
  shows "item_inv g (item\<lparr>pi_backup_exists := False, pi_backup_name := name, pi_backup_info := info\<rparr>, w')"
    (is "item_inv g (?item, w')")
proof -
  let ?E = "gr_entries g"
  from assms(1,2) have free: "?E (backup_key item) = None" by (auto simp: item_inv_def item_ok_def backup_ok_def)
  have "overlaid ?E ((backup_key item, the (?E (target_key item))) # item_overlay ?E (item\<lparr>pi_backup_exists := False\<rparr>) @ gr_rest g) w"
    using assms(1) overlay_split(1) [OF assms(2), of ?E]
    by (subst overlaid_perm [where ov' = "item_overlay ?E item @ gr_rest g"]) (auto simp: item_inv_def)
  from overlaid_remove [OF this free assms(3)]
  have "overlaid ?E (item_overlay ?E ?item @ gr_rest g) w'" by simp
  moreover have "item_ok ?E (gr_bound g) w ?item"
    using assms(1) by (auto simp: item_inv_def item_ok_def)
  ultimately show ?thesis using assms(1,4) same_nodes_trans
    by (auto simp: item_inv_def item_ok_nodes [OF assms(4)])
qed

lemma inv_backup_info:
  "item_inv g (item, w) \<Longrightarrow> pi_backup_exists item \<Longrightarrow> gr_entries g (target_key item) = Some (fi_inode info) \<Longrightarrow>
     item_inv g (item\<lparr>pi_backup_info := Some info\<rparr>, w)"
  by (auto simp: item_inv_def item_ok_def backup_ok_def item_keys)

lemma Lstat_backup:
  assumes "item_inv g (item, w)" and "pi_backup_exists item"
    and "Lstat h (pi_parent item) (pi_backup_name item) w = (Inr info, w')"
  shows "gr_entries g (target_key item) = Some (fi_inode info)"
proof -
  from overlay_backup [OF assms(1,2)] obtain i where i: "gr_entries g (target_key item) = Some i"
    "entry_of w (backup_key item) = Some i" "component (pi_backup_name item)" "node_at w (pi_parent item) = Some Directory"
    by blast
  with Lstat_name_success [OF assms(3) i(3,4)] show ?thesis by (auto simp: entry_at_of backup_key_def)
qed

lemma remove_backup_inv:
  assumes inv: "item_inv g (item, w)" "pi_backup_exists item" "pi_backup_info item = Some info"
  shows "wlp (removeArtifactIfUnchanged h (pi_parent item) (pi_backup_name item) (Some info))
    (\<lambda>_ w'. item_inv g (item\<lparr>pi_backup_exists := False, pi_backup_name := name', pi_backup_info := info'\<rparr>, w'))
    (\<lambda>_ w'. item_inv g (item, w')) w"
proof -
  from overlay_backup [OF inv(1,2)] obtain i where i: "entry_of w (backup_key item) = Some i" "regular_at w i"
    "component (pi_backup_name item)" "node_at w (pi_parent item) = Some Directory" by blast
  note effect = removeArtifact_effect [OF _ i(3,4) i(1) [unfolded backup_key_def] i(2), of h info]
  show ?thesis
    by (rule wlpI; drule effect) (use inv in \<open>auto simp: backup_key_def intro: inv_remove_backup item_inv_disk\<close>)
qed

lemma discard_inv:
  assumes inv: "item_inv g (item, w)" and unpublished: "\<not> pi_published item"
  shows "wlp (discardManagedBackup h)
    (\<lambda>_ s'. item_inv g s' \<and> \<not> pi_published (fst s') \<and> pi_staged_exists (fst s') = pi_staged_exists item \<and> \<not> pi_backup_exists (fst s'))
    (\<lambda>_ s'. item_inv g s' \<and> \<not> pi_published (fst s') \<and> pi_staged_exists (fst s') = pi_staged_exists item) (item, w)"
proof (cases "pi_backup_exists item")
  case ex: True
  show ?thesis
  proof (cases "pi_backup_info item")
    case None
    have "wlp (Lstat h (pi_parent item) (pi_backup_name item))
      (\<lambda>info w'. item_inv g (item\<lparr>pi_backup_info := Some info\<rparr>, w')) (\<lambda>_ w'. item_inv g (item, w')) w"
      by (rule wlp_reads [OF reads_ops(1) inv]) (auto intro: inv_backup_info ex Lstat_backup [OF inv ex])
    moreover have "wlp (removeArtifactIfUnchanged h (pi_parent item) (pi_backup_name item) (Some info))
        (\<lambda>_ w'. item_inv g (item\<lparr>pi_backup_exists := False, pi_backup_name := [], pi_backup_info := None\<rparr>, w'))
        (\<lambda>_ w'. item_inv g (item\<lparr>pi_backup_info := Some info\<rparr>, w')) w1"
      if "item_inv g (item\<lparr>pi_backup_info := Some info\<rparr>, w1)" for info w1
      using remove_backup_inv [OF that, where info = info and h = h and name' = "[]" and info' = None] ex unpublished by simp
    ultimately show ?thesis
      unfolding discardManagedBackup_def using ex None unpublished
      by (auto simp: wlp_rules elim!: wlp_weaken)
  next
    case (Some info)
    show ?thesis
      unfolding discardManagedBackup_def using ex Some unpublished
      by (auto simp: wlp_rules intro!: wlp_weaken [OF remove_backup_inv [OF inv]])
  qed
next
  case False
  with assms show ?thesis by (simp add: discardManagedBackup_def wlp_rules)
qed

text \<open>A managed item before and after its backup.\<close>

definition managed_staged :: "ground \<Rightarrow> publication_item \<times> world \<Rightarrow> bool" where
  "managed_staged g s = (item_inv g s \<and> rest_ok g \<and> sp_exists (pi_previous (fst s)) \<and> pi_staged_exists (fst s) \<and>
     \<not> pi_published (fst s))"

lemma managed_staged_inv: "managed_staged g (item, w) \<Longrightarrow> item_inv g (item, w)"
  by (simp add: managed_staged_def)

lemma managed_staged_disk: "managed_staged g (item, w) \<Longrightarrow> same_disk w w' \<Longrightarrow> managed_staged g (item, w')"
  by (auto simp: managed_staged_def intro: item_inv_disk)

lemma managed_staged_name:
  "\<not> pi_backup_exists item \<Longrightarrow> managed_staged g (item\<lparr>pi_backup_name := name\<rparr>, w) = managed_staged g (item, w)"
  by (simp add: managed_staged_def item_inv_def item_ok_def)

lemma backup_read:
  assumes "item_inv g (item, w)" and "pi_backup_exists item"
    and "readRootRegularFile h (pi_parent item) (pi_backup_name item) False label w = (Inr s, w')"
  shows "\<exists>info. sp_info s = Some info \<and> gr_entries g (target_key item) = Some (fi_inode info)"
proof -
  from overlay_backup [OF assms(1,2)] obtain i where i: "gr_entries g (target_key item) = Some i"
    "entry_of w (backup_key item) = Some i" "component (pi_backup_name item)" "node_at w (pi_parent item) = Some Directory"
    by blast
  from read_name_true [OF assms(3) i(3,4)] i(1,2) show ?thesis
    by (auto simp: entry_at_of backup_key_def file_snapshot_of_def split: if_splits)
qed

lemma check_backup_inv:
  assumes "managed_staged g (item, w)" and "pi_backup_exists item"
  shows "wlp (check_backup h)
    (\<lambda>r s'. managed_staged g s' \<and> pi_backup_exists (fst s') \<and> (r = None \<longrightarrow> pi_backup_info (fst s') \<noteq> None))
    (\<lambda>_ s'. False) (item, w)"
proof -
  note inv = managed_staged_inv [OF assms(1)]
  have live: "wlp (Lstat h (pi_parent item) (pi_basename item))
      (\<lambda>x w'. managed_staged g (item\<lparr>pi_backup_info := Some info\<rparr>, w')) (\<lambda>e w'. managed_staged g (item\<lparr>pi_backup_info := Some info\<rparr>, w')) w1"
    if "item_inv g (item\<lparr>pi_backup_info := Some info\<rparr>, w1)" for info w1
    by (rule wlp_reads [OF reads_ops(1) that]) (use assms in \<open>simp_all add: managed_staged_def\<close>)
  have read: "wlp (readRootRegularFile h (pi_parent item) (pi_backup_name item) False ''backup'')
      (\<lambda>s w'. \<exists>info. sp_info s = Some info \<and> item_inv g (item\<lparr>pi_backup_info := Some info\<rparr>, w'))
      (\<lambda>e w'. managed_staged g (item, w')) w"
    by (rule wlp_reads [OF reads_file inv])
      (use assms in \<open>auto simp: managed_staged_def dest!: backup_read [OF inv assms(2)] intro: inv_backup_info\<close>)
  show ?thesis
    unfolding check_backup_def
    using assms(2) by (auto simp: wlp_rules intro!: wlp_weaken [OF read] wlp_weaken [OF live])
qed

lemma target_entry:
  assumes "managed_staged g (item, w)"
  shows "entry_of w (target_key item) = gr_entries g (target_key item)"
    "\<exists>i < gr_bound g. gr_entries g (target_key item) = Some i"
    "target_key item \<notin> fst ` set (item_overlay (gr_entries g) item @ gr_rest g)"
proof -
  note inv = managed_staged_inv [OF assms]
  from assms show some: "\<exists>i < gr_bound g. gr_entries g (target_key item) = Some i"
    by (auto simp: managed_staged_def item_inv_def item_ok_def planned_def)
  have "target_key item \<notin> fst ` set (gr_rest g)"
    using assms inv_plan [OF inv] by (simp add: managed_staged_def rest_ok_def)
  moreover have "gr_entries g (staged_key item) = None" "pi_backup_exists item \<Longrightarrow> gr_entries g (backup_key item) = None"
    using assms by (auto simp: managed_staged_def item_inv_def item_ok_def staged_ok_def backup_ok_def)
  ultimately show outside: "target_key item \<notin> fst ` set (item_overlay (gr_entries g) item @ gr_rest g)"
    using some assms by (auto simp: item_overlay_def managed_staged_def)
  have "overlaid (gr_entries g) (item_overlay (gr_entries g) item @ gr_rest g) w"
    using inv by (simp add: item_inv_def)
  from overlaid_outside [OF this outside] show "entry_of w (target_key item) = gr_entries g (target_key item)" .
qed

lemma link_backup_inv:
  assumes start: "managed_staged g (item, w)" "\<not> pi_backup_exists item" "pi_backup_info item = None"
    and name: "backup_name name"
  shows "wlp (LinkFile h (pi_parent item) (pi_basename item) name)
    (\<lambda>_ w'. managed_staged g (item\<lparr>pi_backup_name := name, pi_backup_exists := True\<rparr>, w'))
    (\<lambda>_ w'. managed_staged g (item\<lparr>pi_backup_name := name\<rparr>, w')) w"
proof (rule wlpI)
  fix u w'
  assume "LinkFile h (pi_parent item) (pi_basename item) name w = (Inr u, w')"
  then have "LinkFile h (pi_parent item) (pi_basename item) name w = (Inr (), w')" by simp
  from LinkFile_success [OF this] obtain i where i: "entry_of w (target_key item) = Some i"
    "entry_of w (pi_parent item, name) = None" "entry_of w' = (entry_of w)((pi_parent item, name) := Some i)"
    and nodes: "same_nodes w w'" by (auto simp: target_key_def)
  let ?E = "gr_entries g" and ?item = "item\<lparr>pi_backup_name := name, pi_backup_exists := True\<rparr>"
  note inv = managed_staged_inv [OF start(1)]
  have over: "overlaid ?E (item_overlay ?E item @ gr_rest g) w" using inv by (simp add: item_inv_def)
  have "?E (pi_parent item, name) = None" using overlaid_free [OF over i(2)] by simp
  moreover have "?E (target_key item) = Some i" using target_entry(1) [OF start(1)] i(1) by simp
  moreover have "overlaid ?E (((pi_parent item, name), i) # item_overlay ?E item @ gr_rest g) w'"
    by (rule overlaid_add [OF over i(2,3)])
  then have "overlaid ?E (item_overlay ?E ?item @ gr_rest g) w'"
    using \<open>?E (target_key item) = Some i\<close> start
    by (subst overlaid_perm [where ov' = "((pi_parent item, name), i) # item_overlay ?E item @ gr_rest g"])
      (simp_all add: item_overlay_def managed_staged_def backup_key_def)
  ultimately have "overlaid ?E (item_overlay ?E ?item @ gr_rest g) w' \<and> item_ok ?E (gr_bound g) w ?item"
    using inv start name by (auto simp: item_inv_def item_ok_def backup_ok_def managed_staged_def backup_key_def)
  then show "managed_staged g (?item, w')"
    using start(1) nodes by (auto simp: managed_staged_def item_inv_def item_ok_nodes [OF nodes] intro: same_nodes_trans)
next
  fix e w'
  assume "LinkFile h (pi_parent item) (pi_basename item) name w = (Inl e, w')"
  from managed_staged_disk [OF start(1) LinkFile_failure [OF this]]
  show "managed_staged g (item\<lparr>pi_backup_name := name\<rparr>, w')" using start(2) by (simp add: managed_staged_name)
qed

lemma createManagedBackup_inv:
  assumes start: "managed_staged g (item, w)" "\<not> pi_backup_exists item" "pi_backup_info item = None"
  shows "wlp (createManagedBackup h)
    (\<lambda>_ s'. managed_staged g s' \<and> pi_backup_exists (fst s') \<and> pi_backup_info (fst s') \<noteq> None)
    (\<lambda>_ s'. managed_staged g s') (item, w)"
proof -
  note inv = managed_staged_inv [OF start(1)]
  have alloc: "wlp (uniqueUnusedArtifactName h (pi_parent item) ''.coresync-backup-'')
      (\<lambda>name w'. backup_name name \<and> managed_staged g (item, w')) (\<lambda>e w'. managed_staged g (item, w')) w"
    unfolding uniqueUnusedArtifactName_def
    by (rule wlp_reads [OF reads_unused inv])
      (use start in \<open>auto simp: managed_staged_def dest: unused_backup_name\<close>)
  have check: "wlp (check_backup h) (\<lambda>r. wlp (case r of None \<Rightarrow> io_return ()
      | Some e \<Rightarrow> io_bind (io_try (discardManagedBackup h)) (\<lambda>cleanup.
            io_fail (the (errors_Join [Some e, wrapRollbackError (error_of cleanup)]))))
      (\<lambda>_ s'. managed_staged g s' \<and> pi_backup_exists (fst s') \<and> pi_backup_info (fst s') \<noteq> None)
      (\<lambda>_ s'. managed_staged g s')) (\<lambda>_ s'. managed_staged g s') (item', w')"
    if "managed_staged g (item', w')" "pi_backup_exists item'" for item' w'
  proof (rule wlp_weaken [OF check_backup_inv [OF that]], goal_cases)
    case (1 r s')
    obtain item2 w2 where s': "s' = (item2, w2)" by (cases s')
    from 1 s' have "item_inv g (item2, w2)" "\<not> pi_published item2" by (auto simp: managed_staged_def)
    note discard = discard_inv [OF this, of h]
    have keep: "item_inv g s'' \<and> \<not> pi_published (fst s'') \<and> pi_staged_exists (fst s'') = pi_staged_exists item2 \<Longrightarrow> managed_staged g s''"
      for s'' using 1 s' inv_plan(1) [of g item2 w2] inv_plan(1) [of g "fst s''" "snd s''"]
      by (auto simp: managed_staged_def)
    show ?case
      using 1 by (cases r) (auto simp: s' wlp_rules intro!: wlp_weaken [OF discard] keep)
  qed simp
  show ?thesis
    unfolding createManagedBackup_def
    using start by (auto simp: wlp_rules intro!: wlp_weaken [OF alloc] wlp_weaken [OF link_backup_inv] check [simplified])
qed

section \<open>Publishing\<close>

lemma rename_staged_inv:
  assumes start: "managed_staged g (item, w)"
  shows "wlp (Rename h (pi_parent item) (pi_staged_name item) (pi_basename item))
    (\<lambda>_ w'. item_inv g (item\<lparr>pi_staged_exists := False, pi_published := True\<rparr>, w'))
    (\<lambda>_ w'. managed_staged g (item, w')) w"
proof (rule wlpI)
  let ?E = "gr_entries g" and ?item = "item\<lparr>pi_staged_exists := False, pi_published := True\<rparr>"
  let ?rest = "item_overlay ?E (item\<lparr>pi_staged_exists := False\<rparr>) @ gr_rest g"
  note inv = managed_staged_inv [OF start]
  have flags: "pi_staged_exists item" "\<not> pi_published item" using start by (simp_all add: managed_staged_def)
  have ok: "item_ok ?E (gr_bound g) w item" using inv by (simp add: item_inv_def)
  have over: "overlaid ?E ((staged_key item, staged_inode item) # ?rest) w"
    using inv overlay_split(2) [OF flags(1), of ?E]
    by (subst overlaid_perm [where ov' = "item_overlay ?E item @ gr_rest g"]) (auto simp: item_inv_def)
  have staged: "entry_of w (staged_key item) = Some (staged_inode item)" by (rule overlaid_entry [OF over]) simp
  obtain j where j: "entry_of w (target_key item) = Some j" "j < gr_bound g" using target_entry(1,2) [OF start] by auto
  have new: "gr_bound g \<le> staged_inode item" "?E (staged_key item) = None"
    using ok flags(1) by (auto simp: item_ok_def staged_ok_def staged_inode_def)
  fix u w'
  assume "Rename h (pi_parent item) (pi_staged_name item) (pi_basename item) w = (Inr u, w')"
  then have "Rename h (pi_parent item) (pi_staged_name item) (pi_basename item) w = (Inr (), w')" by simp
  from Rename_success [OF this, folded staged_key_def target_key_def, OF staged j(1)] j(2) new(1)
  have moved: "entry_of w' = (entry_of w)(staged_key item := None, target_key item := Some (staged_inode item))"
    and nodes: "same_nodes w w'" by simp_all
  have "target_key item \<notin> fst ` set ?rest"
    using target_entry(3) [OF start] flags by (auto simp: item_overlay_def split: if_splits)
  from overlaid_rename [OF over new(2) this moved]
  have "overlaid ?E (item_overlay ?E ?item @ gr_rest g) w'"
    using flags
    by (subst overlaid_perm [where ov' = "(target_key item, staged_inode item) # ?rest"]) (simp_all add: item_overlay_def)
  moreover have "item_ok ?E (gr_bound g) w ?item"
    using ok start by (auto simp: item_ok_def managed_staged_def)
  ultimately show "item_inv g (?item, w')"
    using inv nodes by (auto simp: item_inv_def item_ok_nodes [OF nodes] intro: same_nodes_trans)
next
  fix e w'
  assume "Rename h (pi_parent item) (pi_staged_name item) (pi_basename item) w = (Inl e, w')"
  from managed_staged_disk [OF start Rename_failure [OF this]] show "managed_staged g (item, w')" .
qed

lemma link_target_inv:
  assumes inv: "item_inv g (item, w)" and flags: "pi_staged_exists item" "\<not> pi_published item"
    and new: "\<not> sp_exists (pi_previous item)"
  shows "wlp (LinkFile h (pi_parent item) (pi_staged_name item) (pi_basename item))
    (\<lambda>_ w'. item_inv g (item\<lparr>pi_published := True\<rparr>, w')) (\<lambda>_ w'. item_inv g (item, w')) w"
proof (rule wlpI)
  let ?E = "gr_entries g" and ?item = "item\<lparr>pi_published := True\<rparr>"
  have over: "overlaid ?E (item_overlay ?E item @ gr_rest g) w" and ok: "item_ok ?E (gr_bound g) w item"
    using inv by (simp_all add: item_inv_def)
  have staged: "entry_of w (staged_key item) = Some (staged_inode item)"
    by (rule overlaid_entry [OF over]) (simp add: item_overlay_def flags)
  fix u w'
  assume "LinkFile h (pi_parent item) (pi_staged_name item) (pi_basename item) w = (Inr u, w')"
  then have "LinkFile h (pi_parent item) (pi_staged_name item) (pi_basename item) w = (Inr (), w')" by simp
  from LinkFile_success [OF this, folded staged_key_def target_key_def] staged
  have link: "entry_of w (target_key item) = None" "entry_of w' = (entry_of w)(target_key item := Some (staged_inode item))"
    and nodes: "same_nodes w w'" by auto
  from overlaid_add [OF over link] have "overlaid ?E (item_overlay ?E ?item @ gr_rest g) w'"
    using flags
    by (subst overlaid_perm [where ov' = "(target_key item, staged_inode item) # item_overlay ?E item @ gr_rest g"])
      (simp_all add: item_overlay_def)
  moreover have "item_ok ?E (gr_bound g) w ?item"
    using ok flags overlaid_free [OF over link(1)] by (auto simp: item_ok_def)
  ultimately show "item_inv g (?item, w')"
    using inv nodes by (auto simp: item_inv_def item_ok_nodes [OF nodes] intro: same_nodes_trans)
next
  fix e w'
  assume "LinkFile h (pi_parent item) (pi_staged_name item) (pi_basename item) w = (Inl e, w')"
  from item_inv_disk [OF inv LinkFile_failure [OF this]] show "item_inv g (item, w')" .
qed

text \<open>The states of an item while it is published.\<close>

definition step_ready :: "ground \<Rightarrow> publication_item \<times> world \<Rightarrow> bool" where
  "step_ready g s = (item_inv g s \<and> rest_ok g \<and> pi_staged_exists (fst s) \<and> \<not> pi_published (fst s) \<and>
     \<not> pi_backup_exists (fst s) \<and> pi_backup_info (fst s) = None)"

definition secured :: "ground \<Rightarrow> publication_item \<times> world \<Rightarrow> bool" where
  "secured g s = (item_inv g s \<and> rest_ok g \<and> pi_staged_exists (fst s) \<and> \<not> pi_published (fst s) \<and>
     (sp_exists (pi_previous (fst s)) \<longrightarrow> pi_backup_exists (fst s) \<and> pi_backup_info (fst s) \<noteq> None))"

definition rollable :: "ground \<Rightarrow> publication_item \<times> world \<Rightarrow> bool" where
  "rollable g s = (item_inv g s \<and> recoverable (fst s))"

definition step_placed :: "ground \<Rightarrow> publication_item \<times> world \<Rightarrow> bool" where
  "step_placed g s = (rollable g s \<and> pi_published (fst s))"

lemmas item_states = step_ready_def secured_def rollable_def step_placed_def recoverable_def

definition disk_closed :: "(publication_item \<times> world \<Rightarrow> bool) \<Rightarrow> bool" where
  "disk_closed P = (\<forall>item w w'. same_disk w w' \<longrightarrow> P (item, w) \<longrightarrow> P (item, w'))"

lemma wlp_keep:
  assumes "disk_closed P" and "reads m" and "P (item, w)"
    and "\<And>x w'. P (item, w') \<Longrightarrow> Q x w'" and "\<And>e w'. P (item, w') \<Longrightarrow> F e w'"
  shows "wlp m Q F w"
proof -
  have "P (item, w')" if "m w = (r, w')" for r w'
    using assms(1,3) reads_outcome [OF assms(2) that] unfolding disk_closed_def by blast
  then show ?thesis by (intro wlpI) (simp_all add: assms(4,5))
qed

lemma states_closed: "disk_closed (step_ready g)" "disk_closed (secured g)" "disk_closed (rollable g)" "disk_closed (step_placed g)"
  by (auto simp: disk_closed_def item_states intro: item_inv_disk)

lemmas keep_ready = wlp_keep [OF states_closed(1)]
  and keep_secured = wlp_keep [OF states_closed(2)]
  and keep_placed = wlp_keep [OF states_closed(4)]

lemma managed_states:
  "managed_staged g s \<Longrightarrow> rollable g s"
  "managed_staged g (item, w) \<Longrightarrow> pi_backup_exists item \<Longrightarrow> pi_backup_info item = Some info \<Longrightarrow> secured g (item, w)"
  "secured g (item, w) \<Longrightarrow> sp_exists (pi_previous item) \<Longrightarrow> managed_staged g (item, w)"
  by (auto simp: managed_staged_def item_states)

lemma back_up_previous_inv:
  assumes "step_ready g (item, w)"
  shows "wlp (back_up_previous h directories) (\<lambda>_. secured g) (\<lambda>_. rollable g) (item, w)"
proof (cases "sp_exists (pi_previous item)")
  case True
  with assms have start: "managed_staged g (item, w)" "\<not> pi_backup_exists item" "pi_backup_info item = None"
    by (simp_all add: step_ready_def managed_staged_def)
  have later: "wlp (validateStableDirectories h directories)
      (\<lambda>_ w'. wlp (validateBackupArtifact h item') (\<lambda>_ w''. secured g (item', w'')) (\<lambda>_ w''. rollable g (item', w'')) w')
      (\<lambda>_ w'. rollable g (item', w')) w1" if "secured g (item', w1)" for item' w1
    by (rule keep_secured [OF reads_validations(1) that], rule keep_secured [OF reads_validations(4)])
      (auto simp: item_states)
  show ?thesis
    unfolding back_up_previous_def using True
    by (auto simp: wlp_rules intro!: wlp_weaken [OF createManagedBackup_inv [OF start]] later intro: managed_states)
next
  case False
  with assms show ?thesis by (simp add: back_up_previous_def wlp_rules item_states)
qed

lemma put_in_place_inv:
  assumes "secured g (item, w)" and "quiet_hook h"
  shows "wlp (put_in_place h index) (\<lambda>_. step_placed g) (\<lambda>_. rollable g) (item, w)"
proof (cases "sp_exists (pi_previous item)")
  case True
  have rename: "wlp (Rename h (pi_parent item) (pi_staged_name item) (pi_basename item))
      (\<lambda>_ w'. step_placed g (item\<lparr>pi_staged_exists := False, pi_published := True\<rparr>, w')) (\<lambda>_ w'. rollable g (item, w')) w1"
    if "secured g (item, w1)" for w1
    by (rule wlp_weaken [OF rename_staged_inv [OF managed_states(3) [OF that True]]])
      (use that True in \<open>auto simp: item_states dest: managed_staged_inv\<close>)
  have hook: "wlp (runPublishHook h BeforeManagedPublication index (pi_path item))
      (\<lambda>_. wlp (Rename h (pi_parent item) (pi_staged_name item) (pi_basename item))
        (\<lambda>_ w'. step_placed g (item\<lparr>pi_staged_exists := False, pi_published := True\<rparr>, w')) (\<lambda>_ w'. rollable g (item, w')))
      (\<lambda>_ w'. rollable g (item, w')) w"
    by (rule keep_secured [OF reads_hook [OF assms(2)] assms(1)], erule rename, simp add: item_states)
  with True show ?thesis by (simp add: put_in_place_def wlp_rules)
next
  case False
  from assms(1) have start: "item_inv g (item, w)" "pi_staged_exists item" "\<not> pi_published item"
    by (simp_all add: secured_def)
  have "wlp (LinkFile h (pi_parent item) (pi_staged_name item) (pi_basename item))
      (\<lambda>_ w'. step_placed g (item\<lparr>pi_published := True\<rparr>, w')) (\<lambda>_ w'. rollable g (item, w')) w"
    by (rule wlp_weaken [OF link_target_inv [OF start False]]) (use start False in \<open>auto simp: item_states\<close>)
  with False show ?thesis by (simp add: put_in_place_def wlp_rules)
qed

theorem publishStableItem_inv:
  assumes start: "step_ready g (item, w)" and hook: "quiet_hook h"
  shows "wlp (publishStableItem h directories index) (\<lambda>_. step_placed g) (\<lambda>_. rollable g) (item, w)"
proof -
  have step_ready: "step_ready g s \<Longrightarrow> rollable g s" and secured: "secured g s \<Longrightarrow> rollable g s"
    and step_placed: "step_placed g s \<Longrightarrow> rollable g s" for s
    by (auto simp: item_states)
  have after: "wlp (put_in_place h index)
      (\<lambda>_. wlp (on_world (runPublishHook h AfterPublication index path)) (\<lambda>_. step_placed g) (\<lambda>_. rollable g))
      (\<lambda>_. rollable g) (item', w')" if "secured g (item', w')" for path item' w'
    by (rule wlp_weaken [OF put_in_place_inv [OF that hook]])
      (auto simp: wlp_rules intro!: keep_placed [OF reads_hook [OF hook]] intro: step_placed)
  have staged: "wlp (validateStagedArtifact h item')
      (\<lambda>_ w'. wlp (put_in_place h index)
        (\<lambda>_. wlp (on_world (runPublishHook h AfterPublication index path)) (\<lambda>_. step_placed g) (\<lambda>_. rollable g))
        (\<lambda>_. rollable g) (item', w')) (\<lambda>_ w'. rollable g (item', w')) w'" if "secured g (item', w')" for path item' w'
    by (rule keep_secured [OF reads_validations(3) that]) (auto intro: after secured)
  have backup: "wlp (back_up_previous h directories) (\<lambda>_. wlp (io_bind the_item (\<lambda>item.
      io_bind (on_world (validateStagedArtifact h item)) (\<lambda>_.
      io_bind (put_in_place h index) (\<lambda>_.
      on_world (runPublishHook h AfterPublication index (pi_path item))))))
      (\<lambda>_. step_placed g) (\<lambda>_. rollable g)) (\<lambda>_. rollable g) (item, w')" if "step_ready g (item, w')" for w'
    by (rule wlp_weaken [OF back_up_previous_inv [OF that]]) (auto simp: wlp_rules intro: staged)
  show ?thesis
    unfolding publishStableItem_def wlp_rules fst_conv snd_conv
    by (intro keep_ready [OF reads_validations(1)] keep_ready [OF reads_validations(5)] keep_ready [OF reads_hook [OF hook]]
        backup [unfolded wlp_rules fst_conv snd_conv] step_ready) (rule start | assumption)+
qed

section \<open>Rolling back\<close>

lemma published_entry:
  assumes "item_inv g (item, w)" and "pi_published item"
  shows "entry_of w (target_key item) = Some (staged_inode item)" "regular_at w (staged_inode item)"
    "gr_bound g \<le> staged_inode item" "component (pi_basename item)" "node_at w (pi_parent item) = Some Directory"
proof -
  have over: "overlaid (gr_entries g) (item_overlay (gr_entries g) item @ gr_rest g) w"
    and ok: "item_ok (gr_entries g) (gr_bound g) w item"
    using assms(1) by (simp_all add: item_inv_def)
  show "entry_of w (target_key item) = Some (staged_inode item)"
    by (rule overlaid_entry [OF over]) (simp add: item_overlay_def assms(2))
  from ok assms(2) show "regular_at w (staged_inode item)" "gr_bound g \<le> staged_inode item"
    "component (pi_basename item)" "node_at w (pi_parent item) = Some Directory"
    by (auto simp: item_ok_def staged_ok_def planned_def regular_at_def staged_inode_def)
qed

definition restored :: "publication_item \<Rightarrow> publication_item" where
  "restored item = item\<lparr>pi_backup_exists := False, pi_backup_name := [], pi_backup_info := None, pi_published := False\<rparr>"

lemma rename_backup_inv:
  assumes inv: "item_inv g (item, w)" and flags: "pi_published item" "pi_backup_exists item"
  shows "wlp (Rename h (pi_parent item) (pi_backup_name item) (pi_basename item))
    (\<lambda>_ w'. item_inv g (restored item, w')) (\<lambda>_ w'. item_inv g (item, w')) w"
proof (rule wlpI)
  let ?E = "gr_entries g"
  let ?rest = "item_overlay ?E (restored item) @ gr_rest g"
  have ok: "item_ok ?E (gr_bound g) w item" using inv by (simp add: item_inv_def)
  from overlay_backup [OF inv flags(2)] obtain i where i: "?E (target_key item) = Some i"
    "entry_of w (backup_key item) = Some i" "i < gr_bound g" by blast
  note target = published_entry [OF inv flags(1)]
  have over: "overlaid ?E ((backup_key item, i) # (target_key item, staged_inode item) # ?rest) w"
    using inv flags i(1)
    by (subst overlaid_perm [where ov' = "item_overlay ?E item @ gr_rest g"])
      (simp_all add: item_inv_def item_overlay_def restored_def)
  fix u w'
  assume "Rename h (pi_parent item) (pi_backup_name item) (pi_basename item) w = (Inr u, w')"
  then have "Rename h (pi_parent item) (pi_backup_name item) (pi_basename item) w = (Inr (), w')" by simp
  from Rename_success [OF this, folded backup_key_def target_key_def, OF i(2) target(1)] i(3) target(3)
  have moved: "entry_of w' = (entry_of w)(backup_key item := None, target_key item := Some i)"
    and nodes: "same_nodes w w'" by simp_all
  have "?E (backup_key item) = None" using ok flags(2) by (simp add: item_ok_def backup_ok_def)
  from overlaid_restore [OF over this i(1) moved]
  have "overlaid ?E ?rest w'" .
  moreover have "item_ok ?E (gr_bound g) w (restored item)"
    using ok by (auto simp: item_ok_def restored_def)
  ultimately show "item_inv g (restored item, w')"
    using inv nodes by (auto simp: item_inv_def item_ok_nodes [OF nodes] restored_def intro: same_nodes_trans)
next
  fix e w'
  assume "Rename h (pi_parent item) (pi_backup_name item) (pi_basename item) w = (Inl e, w')"
  from item_inv_disk [OF inv Rename_failure [OF this]] show "item_inv g (item, w')" .
qed

lemma remove_target_inv:
  assumes inv: "item_inv g (item, w)" and flags: "pi_published item" "\<not> sp_exists (pi_previous item)"
  shows "wlp (RemoveName h (pi_parent item) (pi_basename item))
    (\<lambda>_ w'. item_inv g (item\<lparr>pi_published := False\<rparr>, w')) (\<lambda>_ w'. item_inv g (item, w')) w"
proof (rule wlpI)
  let ?E = "gr_entries g" and ?item = "item\<lparr>pi_published := False\<rparr>"
  have ok: "item_ok ?E (gr_bound g) w item" using inv by (simp add: item_inv_def)
  have over: "overlaid ?E ((target_key item, staged_inode item) # item_overlay ?E ?item @ gr_rest g) w"
    using inv flags
    by (subst overlaid_perm [where ov' = "item_overlay ?E item @ gr_rest g"]) (simp_all add: item_inv_def item_overlay_def)
  fix u w'
  assume "RemoveName h (pi_parent item) (pi_basename item) w = (Inr u, w')"
  then have "RemoveName h (pi_parent item) (pi_basename item) w = (Inr (), w')" by simp
  from RemoveName_success [OF this, folded target_key_def]
  have gone: "entry_of w' = (entry_of w)(target_key item := None)" and nodes: "same_nodes w w'" by simp_all
  have "?E (target_key item) = None" using ok flags by (simp add: item_ok_def)
  from overlaid_remove [OF over this gone] have "overlaid ?E (item_overlay ?E ?item @ gr_rest g) w'" .
  moreover have "item_ok ?E (gr_bound g) w ?item" using ok by (auto simp: item_ok_def)
  ultimately show "item_inv g (?item, w')"
    using inv nodes by (auto simp: item_inv_def item_ok_nodes [OF nodes] intro: same_nodes_trans)
next
  fix e w'
  assume "RemoveName h (pi_parent item) (pi_basename item) w = (Inl e, w')"
  from item_inv_disk [OF inv RemoveName_failure [OF this]] show "item_inv g (item, w')" .
qed

text \<open>The states of an item in a rollback.\<close>

definition rolled_back :: "ground \<Rightarrow> publication_item \<times> world \<Rightarrow> bool" where
  "rolled_back g s = (item_inv g s \<and> \<not> pi_published (fst s) \<and> \<not> pi_backup_exists (fst s))"

lemma restore_inv:
  assumes "rollable g (item, w)" and "pi_published item" and "sp_exists (pi_previous item)"
  shows "wlp (restoreManagedPublicationIfSafe h) (\<lambda>_. rolled_back g) (\<lambda>_. rollable g) (item, w)"
proof -
  from assms have inv: "step_placed g (item, w)" and backup: "pi_backup_exists item" by (auto simp: item_states)
  have rename: "wlp (Rename h (pi_parent item) (pi_backup_name item) (pi_basename item))
      (\<lambda>_ w'. rolled_back g (restored item, w')) (\<lambda>_ w'. rollable g (item, w')) w1" if "step_placed g (item, w1)" for w1
    by (rule wlp_weaken [OF rename_backup_inv])
      (use that backup assms in \<open>auto simp: item_states rolled_back_def restored_def\<close>)
  have fails: "step_placed g (item, w1) \<Longrightarrow> rollable g (item, w1)" for w1 by (simp add: step_placed_def)
  show ?thesis
    unfolding restoreManagedPublicationIfSafe_def
    by (auto simp: wlp_rules backup fails rename [unfolded restored_def] intro!: keep_placed [OF reads_validations(4) inv] keep_placed [OF reads_file])
qed

lemma discard_unpublished_inv:
  assumes "rollable g (item, w)" and "\<not> pi_published item"
  shows "wlp (discardUnpublishedManagedBackupIfSafe h) (\<lambda>_. rolled_back g) (\<lambda>_. rollable g) (item, w)"
proof -
  let ?P = "\<lambda>s. rollable g s \<and> \<not> pi_published (fst s)"
  have closed: "disk_closed ?P" by (auto simp: disk_closed_def item_states intro: item_inv_disk)
  have discard: "wlp (discardManagedBackup h) (\<lambda>_. rolled_back g) (\<lambda>_. rollable g) (item, w1)" if "?P (item, w1)" for w1
    by (rule wlp_weaken [OF discard_inv]) (use that in \<open>auto simp: item_states rolled_back_def\<close>)
  show ?thesis
    unfolding discardUnpublishedManagedBackupIfSafe_def
    by (auto simp: wlp_rules assms intro!: wlp_keep [OF closed reads_validations(4)] wlp_keep [OF closed reads_file] discard)
qed

lemma removeNew_inv:
  assumes start: "rollable g (item, w)" "pi_published item" and new: "\<not> sp_exists (pi_previous item)"
  shows "wlp (removeNewPublishedTargetIfSafe h item) (\<lambda>_ w'. rolled_back g (item\<lparr>pi_published := False\<rparr>, w'))
    (\<lambda>_ w'. rollable g (item, w')) w"
proof -
  from start(1) have inv: "item_inv g (item, w)" by (simp add: rollable_def)
  have single: "\<not> pi_backup_exists item"
    using inv new by (auto simp: item_inv_def item_ok_def backup_ok_def)
  have fails: "item_inv g (item, w1) \<Longrightarrow> rollable g (item, w1)" for w1 using new by (simp add: item_states)
  have remove: "wlp (RemoveName h (pi_parent item) (pi_basename item))
      (\<lambda>_ w'. rolled_back g (item\<lparr>pi_published := False\<rparr>, w')) (\<lambda>_ w'. rollable g (item, w')) w1"
    if "item_inv g (item, w1)" for w1
    by (rule wlp_weaken [OF remove_target_inv [OF that start(2) new]])
      (use new single in \<open>auto simp: rolled_back_def item_states\<close>)
  have "wlp (readRootRegularFile h (pi_parent item) (pi_basename item) True ''rollback target'')
      (\<lambda>s w'. sp_exists s \<and> item_inv g (item, w')) (\<lambda>_ w'. rollable g (item, w')) w"
  proof (rule wlp_reads [OF reads_file inv])
    fix s w'
    assume read: "readRootRegularFile h (pi_parent item) (pi_basename item) True ''rollback target'' w = (Inr s, w')"
      and kept: "item_inv g (item, w')"
    from read_name_true [OF read published_entry(4,5) [OF inv start(2)]] published_entry(1,2) [OF inv start(2)] kept
    show "sp_exists s \<and> item_inv g (item, w')"
      by (cases "sp_exists s") (auto simp: regular_at_def entry_at_of target_key_def)
  qed (use start in \<open>simp add: rollable_def\<close>)
  then show ?thesis
    unfolding removeNewPublishedTargetIfSafe_def
    by (auto simp: wlp_rules intro: remove fails elim!: wlp_weaken)
qed

theorem rollback_item_inv:
  assumes "rollable g (item, w)"
  shows "wlp (rollback_item h) (\<lambda>_. rolled_back g) (\<lambda>_. rollable g) (item, w)"
proof (cases "sp_exists (pi_previous item)")
  case True
  with assms restore_inv [OF assms] discard_unpublished_inv [OF assms] show ?thesis
    by (auto simp: rollback_item_def wlp_rules rolled_back_def item_states)
next
  case new: False
  then have "\<not> pi_backup_exists item"
    using assms by (auto simp: item_states item_inv_def item_ok_def backup_ok_def)
  with new assms removeNew_inv [OF assms _ new, of h] show ?thesis
    by (auto simp: rollback_item_def wlp_rules rolled_back_def item_states)
qed

section \<open>Removing the artifacts\<close>

definition tidy :: "ground \<Rightarrow> publication_item \<times> world \<Rightarrow> bool" where
  "tidy g s = (item_inv g s \<and> (pi_backup_exists (fst s) \<longrightarrow> pi_backup_info (fst s) \<noteq> None))"

lemma remove_backup_step:
  assumes "tidy g (item, w)"
  shows "wlp (remove_backup h)
    (\<lambda>_ s'. tidy g s' \<and> \<not> pi_backup_exists (fst s') \<and> pi_published (fst s') = pi_published item)
    (\<lambda>_ s'. tidy g s' \<and> pi_published (fst s') = pi_published item) (item, w)"
proof (cases "pi_backup_exists item")
  case True
  with assms obtain info where start: "item_inv g (item, w)" "pi_backup_info item = Some info" by (auto simp: tidy_def)
  have same: "item\<lparr>pi_backup_exists := False, pi_backup_name := pi_backup_name item, pi_backup_info := Some info\<rparr>
      = item\<lparr>pi_backup_exists := False\<rparr>" using start(2) by (cases item) simp
  have "wlp (removeArtifactIfUnchanged h (pi_parent item) (pi_backup_name item) (pi_backup_info item))
      (\<lambda>_ w'. item_inv g (item\<lparr>pi_backup_exists := False\<rparr>, w')) (\<lambda>_ w'. item_inv g (item, w')) w"
    using remove_backup_inv [OF start(1) True start(2), where h = h and name' = "pi_backup_name item" and info' = "Some info"]
    unfolding same start(2) .
  then show ?thesis
    using True start(2) by (auto simp: remove_backup_def wlp_rules tidy_def elim!: wlp_weaken)
next
  case False
  with assms show ?thesis by (simp add: remove_backup_def wlp_rules)
qed

lemma remove_staged_inv:
  assumes inv: "item_inv g (item, w)" and staged: "pi_staged_exists item"
  shows "wlp (removeArtifactIfUnchanged h (pi_parent item) (pi_staged_name item) (pi_staged_info item))
    (\<lambda>_ w'. item_inv g (item\<lparr>pi_staged_exists := False\<rparr>, w')) (\<lambda>_ w'. item_inv g (item, w')) w"
proof -
  let ?E = "gr_entries g" and ?item = "item\<lparr>pi_staged_exists := False\<rparr>"
  have ok: "item_ok ?E (gr_bound g) w item" using inv by (simp add: item_inv_def)
  then obtain info where info: "pi_staged_info item = Some info" "component (pi_staged_name item)"
    "?E (staged_key item) = None" "regular_at w (staged_inode item)" "node_at w (pi_parent item) = Some Directory"
    using staged by (auto simp: item_ok_def staged_ok_def planned_def regular_at_def staged_inode_def intro: stage_name_component)
  have over: "overlaid ?E ((staged_key item, staged_inode item) # item_overlay ?E ?item @ gr_rest g) w"
    using inv overlay_split(2) [OF staged, of ?E]
    by (subst overlaid_perm [where ov' = "item_overlay ?E item @ gr_rest g"]) (auto simp: item_inv_def)
  have entry: "entry_of w (staged_key item) = Some (staged_inode item)" by (rule overlaid_entry [OF over]) simp
  note effect = removeArtifact_effect [OF _ info(2,5) entry [unfolded staged_key_def] info(4), folded staged_key_def, of h info]
  have removed: "item_inv g (?item, w')"
    if gone: "entry_of w' = (entry_of w)(staged_key item := None)" and nodes: "same_nodes w w'" for w'
  proof -
    from overlaid_remove [OF over info(3) gone] have "overlaid ?E (item_overlay ?E ?item @ gr_rest g) w'" .
    moreover have "item_ok ?E (gr_bound g) w ?item" using ok by (auto simp: item_ok_def)
    ultimately show ?thesis
      using inv nodes by (auto simp: item_inv_def item_ok_nodes [OF nodes] intro: same_nodes_trans)
  qed
  show ?thesis
    unfolding info(1) by (rule wlpI; drule effect) (use inv removed in \<open>auto intro: item_inv_disk\<close>)
qed

lemma remove_staged_step:
  assumes "tidy g (item, w)"
  shows "wlp (remove_staged h)
    (\<lambda>_ s'. tidy g s' \<and> \<not> pi_staged_exists (fst s') \<and> pi_backup_exists (fst s') = pi_backup_exists item \<and>
       pi_published (fst s') = pi_published item)
    (\<lambda>_ s'. tidy g s' \<and> pi_published (fst s') = pi_published item) (item, w)"
proof (cases "pi_staged_exists item")
  case True
  with assms have "item_inv g (item, w)" by (simp add: tidy_def)
  from remove_staged_inv [OF this True] True assms show ?thesis
    by (auto simp: remove_staged_def wlp_rules tidy_def elim!: wlp_weaken)
next
  case False
  with assms show ?thesis by (simp add: remove_staged_def wlp_rules)
qed

end
