(* ===== verification/SyncStaging.thy ===== *)
theory SyncStaging
  imports SyncItems
begin

text \<open>
  Staging: a staged file is a new inode under a new name with the desired content and mode; when staging
  fails, at most one new name is left behind.
\<close>

section \<open>A new file\<close>

text \<open>The world \<open>w'\<close> is \<open>w\<close> with the node \<open>n\<close> under the new key \<open>k\<close>.\<close>

definition added :: "world \<Rightarrow> entry_key \<Rightarrow> node \<Rightarrow> world \<Rightarrow> bool" where
  "added w k n w' = (entry_of w k = None \<and> entry_of w' = (entry_of w)(k := Some (w_next w)) \<and>
     node_at w' = (node_at w)(w_next w := Some n) \<and> w_next w' = Suc (w_next w))"

text \<open>At most the key \<open>k\<close> is new, and no old node changed.\<close>

definition left_behind :: "world \<Rightarrow> entry_key \<Rightarrow> world \<Rightarrow> bool" where
  "left_behind w k w' = (entry_of w k = None \<and>
     (entry_of w' = entry_of w \<or> entry_of w' = (entry_of w)(k := Some (w_next w))) \<and>
     (\<forall>i. i \<noteq> w_next w \<longrightarrow> node_at w' i = node_at w i) \<and> w_next w' = Suc (w_next w))"

lemma added_left: "added w k n w' \<Longrightarrow> left_behind w k w'"
  by (simp add: added_def left_behind_def)

lemma same_disk_next: "same_disk w w' \<Longrightarrow> w_next w' = w_next w"
  by (simp add: same_disk_def)

lemma same_disk_nodes: "same_disk w w' \<Longrightarrow> node_at w' = node_at w"
  by (simp add: same_disk_def node_at_def fun_eq_iff)

lemma added_disk: "same_disk w' w'' \<Longrightarrow> added w k n w'' = added w k n w'"
  by (simp add: added_def disk_simps same_disk_next same_disk_nodes)

lemma left_behind_disk: "same_disk w' w'' \<Longrightarrow> left_behind w k w'' = left_behind w k w'"
  by (simp add: left_behind_def disk_simps same_disk_next same_disk_nodes)

lemma start_disk:
  "same_disk w w1 \<Longrightarrow> added w1 k n w' = added w k n w'" "same_disk w w1 \<Longrightarrow> left_behind w1 k w' = left_behind w k w'"
  by (simp_all add: added_def left_behind_def disk_simps same_disk_next same_disk_nodes)

section \<open>The steps of staging\<close>

lemma wlp_reads_disk:
  assumes "reads m" and "\<And>x w'. m w = (Inr x, w') \<Longrightarrow> same_disk w w' \<Longrightarrow> Q x w'"
    and "\<And>e w'. m w = (Inl e, w') \<Longrightarrow> same_disk w w' \<Longrightarrow> F e w'"
  shows "wlp m Q F w"
  by (rule wlpI) (use assms reads_outcome [OF assms(1)] in blast)+

lemma wlp_cleanup [wlp_rules]: "wlp (io_cleanup c m) Q F s = wlp m Q (\<lambda>e s'. F e (snd (c s'))) s"
  by (auto simp: wlp_def io_cleanup_def split: prod.splits sum.splits)

lemma CreateExclusive_outcome:
  "wlp (CreateExclusive h parent name) (\<lambda>i w'. i = w_next w \<and> added w (parent, name) (RegularFile [] 0x180) w')
     (\<lambda>e w'. same_disk w w') w"
proof (rule wlpI)
  fix i w'
  assume "CreateExclusive h parent name w = (Inr i, w')"
  from os_op_success [OF this [unfolded CreateExclusive_def]]
  show "i = w_next w \<and> added w (parent, name) (RegularFile [] 0x180) w'"
    by (auto simp: added_def add_node_def entry_at_of entry_of_def node_at_def map_simps fun_eq_iff split: if_splits)
next
  fix e w'
  assume "CreateExclusive h parent name w = (Inl e, w')"
  then show "same_disk w w'" by (auto simp: CreateExclusive_def dest: os_op_failure_disk)
qed

lemma set_node_added:
  "added w k n w' \<Longrightarrow> same_disk (set_node (w_next w) n' w') w'' \<Longrightarrow> added w k n' w''"
  by (auto simp: added_def set_node_def same_disk_def entry_of_def node_at_def fun_eq_iff map_simps)

lemma Chmod_outcome:
  assumes "added w k (RegularFile content mode) w1"
  shows "wlp (Chmod h (w_next w) mode') (\<lambda>_. added w k (RegularFile content mode'))
    (\<lambda>_. added w k (RegularFile content mode)) w1"
proof (rule wlpI)
  have node: "node_at w1 (w_next w) = Some (RegularFile content mode)" using assms by (simp add: added_def)
  fix u w'
  assume "Chmod h (w_next w) mode' w1 = (Inr u, w')"
  from os_op_success [OF this [unfolded Chmod_def]] node
  have "w' = set_node (w_next w) (RegularFile content mode') (w1\<lparr>w_tick := Suc (w_tick w1)\<rparr>)" by simp
  then show "added w k (RegularFile content mode') w'"
    using set_node_added [of w k _ "w1\<lparr>w_tick := Suc (w_tick w1)\<rparr>" _ w'] assms added_disk [of w1 "w1\<lparr>w_tick := Suc (w_tick w1)\<rparr>"]
    by simp
next
  fix e w'
  assume "Chmod h (w_next w) mode' w1 = (Inl e, w')"
  then have "same_disk w1 w'" by (auto simp: Chmod_def dest: os_op_failure_disk)
  with assms show "added w k (RegularFile content mode) w'" by (simp add: added_disk)
qed

lemma WriteFile_outcome:
  assumes "added w k (RegularFile content mode) w1"
  shows "wlp (WriteFile h (w_next w) bytes) (\<lambda>_. added w k (RegularFile bytes mode))
    (\<lambda>_ w'. \<exists>part. added w k (RegularFile part mode) w') w1"
proof -
  have node: "node_at w1 (w_next w) = Some (RegularFile content mode)" using assms by (simp add: added_def)
  have ticked: "added w k (RegularFile content mode) (w1\<lparr>w_tick := Suc (w_tick w1)\<rparr>)"
    using assms added_disk [of w1 "w1\<lparr>w_tick := Suc (w_tick w1)\<rparr>"] by simp
  show ?thesis
    using node set_node_added [OF ticked same_disk_refl]
    by (auto simp: wlp_def WriteFile_def Let_def split: option.split)
qed

text \<open>The information of the staged file.\<close>

definition staged_info :: "world \<Rightarrow> string \<Rightarrow> nat \<Rightarrow> file_info" where
  "staged_info w content mode = info_of (w_next w) (RegularFile content (Perm mode))"

lemma StatHandle_added:
  assumes "added w k n w1"
  shows "wlp (StatHandle h (w_next w)) (\<lambda>info w'. info = info_of (w_next w) n \<and> added w k n w') (\<lambda>_. added w k n) w1"
proof -
  have "node_at w1 (w_next w) = Some n" using assms by (simp add: added_def)
  with assms show ?thesis
    by (auto simp: added_disk dest!: StatHandle_success intro!: wlp_reads_disk [OF reads_ops(4)])
qed

lemma cleanup_added:
  assumes "added w (parent, name) (RegularFile content mode) w1" and "component name" and "node_at w parent = Some Directory"
    and "parent < w_next w"
  shows "left_behind w (parent, name) (snd (removeArtifactIfUnchanged h parent name (Some info) w1))"
proof -
  obtain r w' where run: "removeArtifactIfUnchanged h parent name (Some info) w1 = (r, w')"
    by (cases "removeArtifactIfUnchanged h parent name (Some info) w1")
  have "node_at w1 parent = Some Directory" "entry_of w1 (parent, name) = Some (w_next w)" "regular_at w1 (w_next w)"
    using assms by (auto simp: added_def regular_at_def)
  note effect = removeArtifact_effect [OF run assms(2) this]
  show ?thesis
  proof (cases r)
    case (Inl e)
    with effect assms(1) show ?thesis by (simp add: run added_left left_behind_disk)
  next
    case (Inr u)
    with effect have gone: "entry_of w' = (entry_of w1)((parent, name) := None)" and nodes: "same_nodes w1 w'" by simp_all
    have "entry_of w' = entry_of w" unfolding gone using assms(1) by (simp add: added_def fun_upd_idem)
    moreover have "w_next w' = Suc (w_next w)" using nodes assms(1) by (simp add: added_def same_nodes_def)
    moreover have "\<forall>i. i \<noteq> w_next w \<longrightarrow> node_at w' i = node_at w i"
      using assms(1) by (simp add: added_def same_nodes_node [OF nodes])
    ultimately show ?thesis using assms(1) by (simp add: run left_behind_def added_def)
  qed
qed

lemma fill_outcome:
  assumes start: "added w (parent, name) (RegularFile [] 0x180) w1" and name: "component name"
    and dir: "node_at w parent = Some Directory" "parent < w_next w"
  shows "wlp (fill_staged_file h parent name (w_next w) content mode)
    (\<lambda>r w'. r = (name, staged_info w content mode) \<and> added w (parent, name) (RegularFile content (Perm mode)) w')
    (\<lambda>_. left_behind w (parent, name)) w1" (is "wlp _ ?Q _ _")
proof -
  let ?F = "\<lambda>info e w'. left_behind w (parent, name) (snd (removeArtifactIfUnchanged h parent name (Some info) w'))"
  have undo: "added w (parent, name) (RegularFile c m) w2 \<Longrightarrow> ?F info e w2" for c m w2 info and e :: sync_error
    by (rule cleanup_added [OF _ name dir])
  have close: "wlp (CloseHandle h (w_next w)) (\<lambda>_. wlp (io_return (name, staged_info w content mode)) ?Q (?F info)) (?F info) w2"
    if "added w (parent, name) (RegularFile content (Perm mode)) w2" for w2 info
    by (rule wlp_reads_disk [OF reads_ops(8)]) (use that undo in \<open>simp_all add: added_disk wlp_rules\<close>)
  have stat: "wlp (StatHandle h (w_next w))
      (\<lambda>x. wlp (io_bind (CloseHandle h (w_next w)) (\<lambda>_. io_return (name, x))) ?Q (?F info)) (?F info) w2"
    if "added w (parent, name) (RegularFile content (Perm mode)) w2" for w2 info
    by (rule wlp_weaken [OF StatHandle_added [OF that]])
      (use close undo in \<open>simp_all add: wlp_rules staged_info_def [symmetric]\<close>)
  have sync: "wlp (SyncFile h (w_next w))
      (\<lambda>_. wlp (io_bind (StatHandle h (w_next w)) (\<lambda>x. io_bind (CloseHandle h (w_next w)) (\<lambda>_. io_return (name, x)))) ?Q (?F info))
      (?F info) w2"
    if "added w (parent, name) (RegularFile content (Perm mode)) w2" for w2 info
    by (rule wlp_reads_disk [OF reads_ops(9)]) (use that undo stat in \<open>simp_all add: added_disk wlp_rules\<close>)
  have written: "wlp (WriteFile h (w_next w) content)
      (\<lambda>_. wlp (io_bind (SyncFile h (w_next w)) (\<lambda>_. io_bind (StatHandle h (w_next w))
        (\<lambda>x. io_bind (CloseHandle h (w_next w)) (\<lambda>_. io_return (name, x))))) ?Q (?F info)) (?F info) w2"
    if "added w (parent, name) (RegularFile [] (Perm mode)) w2" for w2 info
    by (rule wlp_weaken [OF WriteFile_outcome [OF that]]) (use undo sync in \<open>auto simp: wlp_rules\<close>)
  have chmod: "wlp (Chmod h (w_next w) (Perm mode))
      (\<lambda>_. wlp (io_bind (WriteFile h (w_next w) content) (\<lambda>_. io_bind (SyncFile h (w_next w)) (\<lambda>_.
        io_bind (StatHandle h (w_next w)) (\<lambda>x. io_bind (CloseHandle h (w_next w)) (\<lambda>_. io_return (name, x)))))) ?Q (?F info))
      (?F info) w2"
    if "added w (parent, name) (RegularFile [] 0x180) w2" for w2 info
    by (rule wlp_weaken [OF Chmod_outcome [OF that]]) (use undo written in \<open>auto simp: wlp_rules\<close>)
  show ?thesis
    unfolding fill_staged_file_def Let_def
    by (subst wlp_bind, rule wlp_weaken [OF StatHandle_added [OF start]]) (use chmod added_left in \<open>auto simp: wlp_rules\<close>)
qed

lemma draw_random_reads: "wlp (randomArtifactName h pre) (\<lambda>name w'. (\<exists>bytes. name = pre @ hex_encode bytes) \<and> same_disk w w')
   (\<lambda>_. same_disk w) w"
proof (rule wlpI)
  have reads: "reads (randomArtifactName h pre)" unfolding randomArtifactName_def by (intro reads_intros)
  fix name w'
  assume run: "randomArtifactName h pre w = (Inr name, w')"
  from reads_outcome [OF reads run] run show "(\<exists>bytes. name = pre @ hex_encode bytes) \<and> same_disk w w'"
    by (auto simp: randomArtifactName_def io_success)
next
  have reads: "reads (randomArtifactName h pre)" unfolding randomArtifactName_def by (intro reads_intros)
  fix e w'
  assume "randomArtifactName h pre w = (Inl e, w')"
  from reads_outcome [OF reads this] show "same_disk w w'" .
qed

lemma stage_outcome:
  assumes "node_at w parent = Some Directory" and "parent < w_next w"
  shows "wlp (stage_attempt n h parent content mode)
    (\<lambda>r w'. stage_name (fst r) \<and> snd r = staged_info w content mode \<and>
       added w (parent, fst r) (RegularFile content (Perm mode)) w')
    (\<lambda>_ w'. same_disk w w' \<or> (\<exists>name. stage_name name \<and> left_behind w (parent, name) w')) w"
    (is "wlp _ (?Q w) (?F w) w")
  using assms
proof (induction n arbitrary: w)
  case 0
  then show ?case by (simp add: wlp_rules)
next
  case (Suc n)
  have again: "?Q w1 = ?Q w" "?F w1 = ?F w" if "same_disk w w1" for w1
    using that by (auto simp: fun_eq_iff start_disk [OF that] staged_info_def same_disk_next [OF that] same_disk_def)
  have fill: "wlp (fill_staged_file h parent name fh content mode) (?Q w) (?F w) w2"
    if "same_disk w w1" "stage_name name" "fh = w_next w1" "added w1 (parent, name) (RegularFile [] 0x180) w2"
    for w1 w2 name fh
  proof -
    have "added w (parent, name) (RegularFile [] 0x180) w2" "fh = w_next w"
      using that by (simp_all add: start_disk [OF that(1)] same_disk_next)
    with fill_outcome [OF this(1) stage_name_component [OF that(2)] Suc.prems, of h content mode] show ?thesis
      using that(2) by (auto elim!: wlp_weaken)
  qed
  have retry: "wlp (stage_attempt n h parent content mode) (?Q w) (?F w) w2" if "same_disk w w2" for w2
    using Suc.IH [of w2] Suc.prems unfolding again [OF that] by (simp add: same_disk_next [OF that] disk_simps [OF that])
  have create: "wlp (io_try (CreateExclusive h parent name)) (\<lambda>r. wlp (case r of
         Inl e \<Rightarrow> if e = OsError Exist then stage_attempt n h parent content mode else io_fail e
       | Inr fh \<Rightarrow> fill_staged_file h parent name fh content mode) (?Q w) (?F w)) (?F w) w1"
    if disk: "same_disk w w1" and name: "stage_name name" for name w1
    by (subst wlp_try, rule wlp_weaken [OF CreateExclusive_outcome])
      (use fill [OF disk name] retry same_disk_trans [OF disk] in \<open>auto simp: wlp_rules\<close>)
  show ?case
    unfolding stage_attempt.simps
    by (subst wlp_bind, rule wlp_weaken [OF draw_random_reads])
      (use create in \<open>auto simp: wlp_bind stage_name_def\<close>)
qed

end
