(* ===== verification/SyncTransaction.thy ===== *)
theory SyncTransaction
  imports SyncStaging
begin

text \<open>
  The publication transaction of \<open>internal/coresync/sync.go\<close>: staging all items, publishing them one
  after the other, and either keeping all of them or rolling back.
\<close>

section \<open>The start of a transaction\<close>

definition older :: "world \<Rightarrow> world \<Rightarrow> bool" where
  "older w w' = (w_next w \<le> w_next w' \<and> (\<forall>i < w_next w. node_at w' i = node_at w i))"

lemma older_refl [simp]: "older w w"
  by (simp add: older_def)

lemma older_trans: "older w w' \<Longrightarrow> older w' w'' \<Longrightarrow> older w w''"
  by (auto simp: older_def)

lemma older_nodes: "same_nodes w w' \<Longrightarrow> older w w'"
  by (simp add: older_def same_nodes_def node_at_def)

lemma older_disk: "same_disk w w' \<Longrightarrow> older w w'"
  by (simp add: older_nodes same_nodes_disk)

lemma older_added: "added w k n w' \<Longrightarrow> older w w'"
  by (auto simp: older_def added_def)

lemma older_left: "left_behind w k w' \<Longrightarrow> older w w'"
  by (auto simp: older_def left_behind_def)

text \<open>Nothing of the item is done yet.\<close>

definition untouched :: "publication_item \<Rightarrow> bool" where
  "untouched item = (\<not> pi_staged_exists item \<and> \<not> pi_backup_exists item \<and> pi_backup_info item = None \<and> \<not> pi_published item)"

definition fresh_item :: "entry_map \<Rightarrow> inode \<Rightarrow> world \<Rightarrow> publication_item \<Rightarrow> bool" where
  "fresh_item E n w item = (planned E n w item \<and> pi_parent item < n \<and> untouched item)"

lemma planned_older: "planned E n w item \<Longrightarrow> pi_parent item < n \<Longrightarrow> n \<le> w_next w \<Longrightarrow> older w w' \<Longrightarrow> planned E n w' item"
  by (auto simp: planned_def older_def regular_at_def)

lemma fresh_older: "fresh_item E n w item \<Longrightarrow> n \<le> w_next w \<Longrightarrow> older w w' \<Longrightarrow> fresh_item E n w' item"
  by (auto simp: fresh_item_def intro: planned_older)

lemma fresh_ok: "fresh_item E n w item \<Longrightarrow> item_ok E n w item \<and> item_overlay E item = []"
  by (simp add: fresh_item_def item_ok_def untouched_def item_overlay_def)

text \<open>What an item asks for, which no step changes.\<close>

definition request_of :: "publication_item \<Rightarrow> publication_item" where
  "request_of item = (plan_of item)\<lparr>pi_staged_name := [], pi_staged_info := None\<rparr>"

lemma request_plan: "plan_of item = plan_of item' \<Longrightarrow> request_of item = request_of item'"
  by (simp add: request_of_def)

lemma request_fields:
  assumes "request_of item' = request_of item"
  shows "pi_basename item' = pi_basename item" "pi_parent item' = pi_parent item" "pi_desired item' = pi_desired item"
    "pi_mode item' = pi_mode item" "pi_previous item' = pi_previous item" "target_key item' = target_key item"
  using assms by (cases item, cases item', simp add: request_of_def plan_of_def target_key_def)+

section \<open>Staging all items\<close>

definition with_staged :: "publication_item \<Rightarrow> string \<Rightarrow> file_info \<Rightarrow> publication_item" where
  "with_staged item name info = item\<lparr>pi_staged_name := name, pi_staged_info := Some info, pi_staged_exists := True\<rparr>"

lemma with_staged_simps:
  "request_of (with_staged item name info) = request_of item"
  "planned E n w (with_staged item name info) = planned E n w item"
  "untouched item \<Longrightarrow> item_overlay E (with_staged item name info) = [((pi_parent item, name), fi_inode info)]"
  by (simp_all add: with_staged_def request_of_def plan_of_def planned_def target_key_def item_overlay_def untouched_def
      staged_key_def staged_inode_def)

lemma with_staged_ok:
  assumes "fresh_item E n w item" and "n \<le> w_next w" and "overlaid E ov w" and "stage_name name"
    and added: "added w (pi_parent item, name) (RegularFile (pi_desired item) (Perm (pi_mode item))) w1"
  shows "item_ok E n w1 (with_staged item name (staged_info w (pi_desired item) (pi_mode item)))" (is "item_ok _ _ _ ?item")
proof -
  have "E (pi_parent item, name) = None"
    using overlaid_free [OF assms(3)] added by (simp add: added_def)
  with assms have "staged_ok E n w1 ?item"
    by (simp add: staged_ok_def with_staged_def staged_info_def added_def staged_key_def)
  moreover have "planned E n w1 ?item"
    using assms older_added [OF added] by (auto simp: with_staged_simps fresh_item_def intro: planned_older)
  ultimately show ?thesis using assms(1) by (simp add: item_ok_def with_staged_def fresh_item_def untouched_def)
qed

lemma item_ok_older:
  assumes "item_ok E n w item" and "pi_parent item < n" and "n \<le> w_next w" and "older w w'"
    and "pi_staged_exists item \<or> pi_published item \<longrightarrow> staged_inode item < w_next w"
  shows "item_ok E n w' item"
  using assms planned_older [of E n w item w']
  by (auto simp: item_ok_def staged_ok_def older_def staged_inode_def)

text \<open>What is left behind under new names.\<close>

definition leak_ok :: "entry_map \<Rightarrow> overlay \<Rightarrow> bool" where
  "leak_ok E leak = (\<forall>(k, i) \<in> set leak. E k = None \<and> stage_name (snd k))"

definition items_overlay :: "entry_map \<Rightarrow> publication_item list \<Rightarrow> overlay" where
  "items_overlay E items = concat (map (item_overlay E) items)"

lemma items_overlay_simps [simp]:
  "items_overlay E [] = []" "items_overlay E (item # items) = item_overlay E item @ items_overlay E items"
  by (simp_all add: items_overlay_def)

text \<open>An item that is staged or not, and not published.\<close>

definition waiting :: "publication_item \<Rightarrow> bool" where
  "waiting item = (\<not> pi_published item \<and> \<not> pi_backup_exists item \<and> pi_backup_info item = None)"

lemma stage_items_inv:
  assumes "stage_items h items w = (failure, items', w')" and "overlaid E ov w" and "n \<le> w_next w"
    and "\<forall>item \<in> set items. fresh_item E n w item"
  shows "\<exists>leak. overlaid E (items_overlay E items' @ leak @ ov) w' \<and> leak_ok E leak \<and> older w w' \<and>
    (\<forall>item \<in> set items'. item_ok E n w' item \<and> waiting item) \<and> map request_of items' = map request_of items \<and>
    (failure = None \<longrightarrow> leak = [] \<and> (\<forall>item \<in> set items'. pi_staged_exists item))"
  using assms
proof (induction items arbitrary: w ov failure items' w')
  case Nil
  then show ?case by (intro exI [of _ "[]"]) (auto simp: leak_ok_def)
next
  case (Cons item items)
  have fresh: "fresh_item E n w item" "\<forall>item \<in> set items. fresh_item E n w item" using Cons.prems(4) by simp_all
  then have dir: "node_at w (pi_parent item) = Some Directory" "pi_parent item < w_next w"
    using Cons.prems(3) by (auto simp: fresh_item_def planned_def)
  obtain r w1 where run: "createStagedFile h (pi_parent item) (pi_desired item) (pi_mode item) w = (r, w1)"
    by (cases "createStagedFile h (pi_parent item) (pi_desired item) (pi_mode item) w")
  note outcome = wlp_outcome [OF stage_outcome [OF dir] run [unfolded createStagedFile_def]]
  show ?case
  proof (cases r)
    case (Inl e)
    then have end_: "failure = Some e" "items' = item # items" "w' = w1" using Cons.prems(1) run by simp_all
    from outcome Inl have older: "older w w1" by (auto intro: older_disk older_left)
    have all: "\<forall>item \<in> set items'. item_ok E n w1 item \<and> waiting item"
      using Cons.prems(3,4) end_ fresh_ok fresh_older [OF _ _ older]
      by (fastforce simp: waiting_def fresh_item_def untouched_def)
    have empty: "items_overlay E items' = []"
      using Cons.prems(4) fresh_ok unfolding end_ items_overlay_def by auto
    have "\<exists>leak. overlaid E (leak @ ov) w1 \<and> leak_ok E leak"
    proof (cases "entry_of w1 = entry_of w")
      case True
      with Cons.prems(2) show ?thesis by (intro exI [of _ "[]"]) (simp add: overlaid_def leak_ok_def)
    next
      case False
      with outcome Inl obtain name where name: "stage_name name" "left_behind w (pi_parent item, name) w1"
        by (auto simp: disk_simps)
      with False have "entry_of w (pi_parent item, name) = None"
        "entry_of w1 = (entry_of w)((pi_parent item, name) := Some (w_next w))"
        by (auto simp: left_behind_def)
      with overlaid_add [OF Cons.prems(2) this] overlaid_free [OF Cons.prems(2) this(1)] name(1) show ?thesis
        by (intro exI [of _ "[((pi_parent item, name), w_next w)]"]) (simp add: leak_ok_def)
    qed
    with older all empty end_ show ?thesis by auto
  next
    case (Inr x)
    obtain name info where x: "x = (name, info)" by (cases x)
    from outcome Inr x have name: "stage_name name" and info: "info = staged_info w (pi_desired item) (pi_mode item)"
      and added: "added w (pi_parent item, name) (RegularFile (pi_desired item) (Perm (pi_mode item))) w1" by auto
    let ?item = "with_staged item name info"
    obtain failure1 items1 w2 where tail: "stage_items h items w1 = (failure1, items1, w2)" by (cases "stage_items h items w1")
    have end_: "failure = failure1" "items' = ?item # items1" "w' = w2"
      using Cons.prems(1) run Inr x tail by (simp_all add: with_staged_def)
    have over: "overlaid E (item_overlay E ?item @ ov) w1"
      using overlaid_add [OF Cons.prems(2), of "(pi_parent item, name)" w1 "w_next w"] added fresh(1)
      by (simp add: added_def with_staged_simps fresh_item_def info staged_info_def)
    have bound: "n \<le> w_next w1" and older: "older w w1" using older_added [OF added] Cons.prems(3) by (auto simp: older_def)
    have ok: "item_ok E n w1 ?item"
      unfolding info by (rule with_staged_ok [OF fresh(1) Cons.prems(3,2) name added])
    from Cons.IH [OF tail over bound] fresh(2) fresh_older [OF _ Cons.prems(3) older]
    obtain leak where leak: "overlaid E (items_overlay E items1 @ leak @ item_overlay E ?item @ ov) w2" "leak_ok E leak"
      "older w1 w2" "\<forall>item \<in> set items1. item_ok E n w2 item \<and> waiting item" "map request_of items1 = map request_of items"
      "failure1 = None \<longrightarrow> leak = [] \<and> (\<forall>item \<in> set items1. pi_staged_exists item)" by blast
    have "item_ok E n w2 ?item"
      by (rule item_ok_older [OF ok _ bound leak(3)])
        (use fresh(1) added in \<open>auto simp: with_staged_def fresh_item_def staged_inode_def info staged_info_def added_def\<close>)
    moreover have "overlaid E (items_overlay E items' @ leak @ ov) w2"
      using leak(1) unfolding end_
      by (subst overlaid_perm [where ov' = "items_overlay E items1 @ leak @ item_overlay E ?item @ ov"]) auto
    moreover have "waiting ?item" using fresh(1) by (simp add: waiting_def with_staged_def fresh_item_def untouched_def)
    ultimately show ?thesis
      using leak older_trans [OF older leak(3)] unfolding end_
      by (intro exI [of _ leak]) (auto simp: with_staged_simps, simp add: with_staged_def)
  qed
qed

section \<open>Publishing all items\<close>

text \<open>The rest of the overlay has no destination of the start.\<close>

definition clear_of :: "entry_map \<Rightarrow> publication_item list \<Rightarrow> overlay \<Rightarrow> bool" where
  "clear_of E items C = (\<forall>item \<in> set items. E (target_key item) \<noteq> None \<longrightarrow> target_key item \<notin> fst ` set C)"

lemma overlay_keys:
  "item_ok E n w item \<Longrightarrow> kv \<in> set (item_overlay E item) \<Longrightarrow>
     E (fst kv) = None \<and> artifact_name (snd (fst kv)) \<or> fst kv = target_key item \<and> pi_published item"
  by (auto simp: item_overlay_def item_ok_def staged_ok_def backup_ok_def artifact_name_def staged_key_def backup_key_def
      split: if_splits)

lemma clear_of_append [simp]: "clear_of E items (C @ C') \<longleftrightarrow> clear_of E items C \<and> clear_of E items C'"
  by (auto simp: clear_of_def)

lemma clear_of_item:
  "item_ok E n w item \<Longrightarrow> target_key item \<notin> set (map target_key items) \<or> \<not> pi_published item \<Longrightarrow>
     clear_of E items (item_overlay E item)"
  unfolding clear_of_def by (intro ballI impI notI, erule imageE, drule (1) overlay_keys) (metis image_eqI list.set_map)

lemma clear_of_items:
  assumes "\<forall>item \<in> set others. item_ok E n w item"
    and "\<And>a b. a \<in> set items \<Longrightarrow> b \<in> set others \<Longrightarrow> pi_published b \<Longrightarrow> target_key a \<noteq> target_key b"
  shows "clear_of E items (items_overlay E others)"
  using assms
proof (induction others)
  case (Cons item others)
  have "clear_of E items (item_overlay E item)"
    by (rule clear_of_item [of E n w]) (use Cons.prems in fastforce)+
  moreover have "clear_of E items (items_overlay E others)" using Cons by simp
  ultimately show ?case by simp
qed (simp add: clear_of_def)

definition ground_of :: "entry_map \<Rightarrow> inode \<Rightarrow> world \<Rightarrow> overlay \<Rightarrow> publication_item \<Rightarrow> ground" where
  "ground_of E n w C item = \<lparr>gr_entries = E, gr_bound = n, gr_world = w, gr_plan = plan_of item, gr_rest = C\<rparr>"

lemma ground_simps [simp]:
  "gr_entries (ground_of E n w C item) = E" "gr_bound (ground_of E n w C item) = n"
  "gr_world (ground_of E n w C item) = w" "gr_plan (ground_of E n w C item) = plan_of item" "gr_rest (ground_of E n w C item) = C"
  by (simp_all add: ground_of_def)

lemma item_inv_ground:
  "item_inv (ground_of E n w0 C item0) (item, w) \<longleftrightarrow>
     overlaid E (item_overlay E item @ C) w \<and> item_ok E n w item \<and> same_nodes w0 w \<and> plan_of item = plan_of item0"
  by (simp add: item_inv_def)

lemma rest_ok_ground:
  assumes "item_ok E n w item" and "clear_of E [item] C"
  shows "rest_ok (ground_of E n w0 C item)"
proof -
  have "plan_of (plan_of item) = plan_of item" by simp
  from plan_fields [OF this] assms show ?thesis by (auto simp: rest_ok_def clear_of_def item_ok_def planned_def)
qed

lemma publish_items_inv:
  assumes "publish_items h directories index items w = (failure, items', w')" and "quiet_hook h"
    and "overlaid E (items_overlay E items @ C) w" and "distinct (map target_key items)" and "clear_of E items C"
    and "\<forall>item \<in> set items. item_ok E n w item \<and> waiting item \<and> pi_staged_exists item"
  shows "overlaid E (items_overlay E items' @ C) w' \<and> same_nodes w w' \<and> map plan_of items' = map plan_of items \<and>
    (\<forall>item \<in> set items'. item_ok E n w' item \<and> recoverable item) \<and>
    (failure = None \<longrightarrow> (\<forall>item \<in> set items'. pi_published item))"
  using assms(1,3-6)
proof (induction items arbitrary: index w C failure items' w')
  case Nil
  then show ?case by simp
next
  case (Cons item items)
  let ?C = "items_overlay E items @ C"
  let ?g = "ground_of E n w ?C item"
  have head: "item_ok E n w item" "waiting item" "pi_staged_exists item" using Cons.prems(5) by simp_all
  have "clear_of E [item] (items_overlay E items)"
    by (rule clear_of_items [of _ E n w]) (use Cons.prems(5) in \<open>auto simp: waiting_def\<close>)
  with Cons.prems(4) have "clear_of E [item] ?C" by (simp add: clear_of_def image_Un)
  with head Cons.prems(2) have start: "step_ready ?g (item, w)"
    by (simp add: step_ready_def item_inv_ground rest_ok_ground waiting_def)
  obtain r item1 w1 where step: "publishStableItem h directories index (item, w) = (r, (item1, w1))"
    by (metis prod.exhaust)
  note outcome = wlp_outcome [OF publishStableItem_inv [OF start assms(2), of directories index] step]
  have kept: "rollable ?g (item1, w1)" using outcome by (auto simp: step_placed_def split: sum.splits)
  then have item1: "overlaid E (item_overlay E item1 @ ?C) w1" "item_ok E n w1 item1" "same_nodes w w1"
    "plan_of item1 = plan_of item" "recoverable item1"
    by (simp_all add: rollable_def item_inv_ground)
  have tail: "\<forall>item \<in> set items. item_ok E n w1 item \<and> waiting item \<and> pi_staged_exists item"
    using Cons.prems(5) by (simp add: item_ok_nodes [OF item1(3)])
  show ?case
  proof (cases r)
    case (Inl e)
    with Cons.prems(1) step item1 tail show ?thesis by (auto simp: waiting_def recoverable_def)
  next
    case (Inr u)
    obtain failure1 items1 w2 where rest: "publish_items h directories (Suc index) items w1 = (failure1, items1, w2)"
      by (metis prod.exhaust)
    have over: "overlaid E (items_overlay E items @ item_overlay E item1 @ C) w1"
      using item1(1) by (subst overlaid_perm [where ov' = "item_overlay E item1 @ ?C"]) auto
    have "target_key item1 = target_key item" using plan_fields [OF item1(4)] by simp
    then have "clear_of E items (item_overlay E item1)"
      using Cons.prems(3) by (intro clear_of_item [OF item1(2)]) simp
    moreover have "clear_of E items C" using Cons.prems(4) by (simp add: clear_of_def)
    ultimately have "clear_of E items (item_overlay E item1 @ C)" by simp
    note ind = Cons.IH [OF rest over _ this tail]
    have "overlaid E (items_overlay E (item1 # items1) @ C) w2"
      using ind Cons.prems(3)
      by (subst overlaid_perm [where ov' = "items_overlay E items1 @ item_overlay E item1 @ C"]) auto
    moreover have "pi_published item1" using outcome Inr by (simp add: step_placed_def)
    ultimately show ?thesis
      using ind Cons.prems(1,3) step rest Inr item1 same_nodes_trans [OF item1(3)] item_ok_nodes [of w1 w2 E n item1] by auto
  qed
qed

section \<open>Rolling back all items\<close>

lemma rollback_items_inv:
  assumes "rollback_items h items w = (es, items', w')" and "overlaid E (items_overlay E items @ C) w"
    and "\<forall>item \<in> set items. item_ok E n w item \<and> recoverable item"
  shows "overlaid E (items_overlay E items' @ C) w' \<and> same_nodes w w' \<and> map plan_of items' = map plan_of items \<and>
    (\<forall>item \<in> set items'. item_ok E n w' item \<and> recoverable item) \<and>
    ((\<forall>e \<in> set es. e = None) \<longrightarrow> (\<forall>item \<in> set items'. \<not> pi_published item \<and> \<not> pi_backup_exists item))"
  using assms
proof (induction items arbitrary: C es items' w')
  case Nil
  then show ?case by simp
next
  case (Cons item items)
  obtain es1 items1 w1 where tail: "rollback_items h items w = (es1, items1, w1)" by (metis prod.exhaust)
  obtain r item1 w2 where step: "rollback_item h (item, w1) = (r, (item1, w2))" by (metis prod.exhaust)
  have result: "es = es1 @ [error_of r]" "items' = item1 # items1" "w' = w2" using Cons.prems(1) tail step by simp_all
  have over: "overlaid E (items_overlay E items @ item_overlay E item @ C) w"
    using Cons.prems(2) by (subst overlaid_perm [where ov' = "items_overlay E (item # items) @ C"]) auto
  from Cons.IH [OF tail over] Cons.prems(3)
  have ind: "overlaid E (items_overlay E items1 @ item_overlay E item @ C) w1" "same_nodes w w1"
    "map plan_of items1 = map plan_of items" "\<forall>item \<in> set items1. item_ok E n w1 item \<and> recoverable item"
    "(\<forall>e \<in> set es1. e = None) \<longrightarrow> (\<forall>item \<in> set items1. \<not> pi_published item \<and> \<not> pi_backup_exists item)" by simp_all
  let ?g = "ground_of E n w1 (items_overlay E items1 @ C) item"
  have "overlaid E (item_overlay E item @ items_overlay E items1 @ C) w1"
    using ind(1) by (subst overlaid_perm [where ov' = "items_overlay E items1 @ item_overlay E item @ C"]) auto
  with Cons.prems(3) have start: "rollable ?g (item, w1)"
    by (simp add: rollable_def item_inv_ground item_ok_nodes [OF ind(2)])
  note outcome = wlp_outcome [OF rollback_item_inv [OF start, of h] step]
  have kept: "rollable ?g (item1, w2)"
    using outcome by (auto simp: rolled_back_def rollable_def recoverable_def split: sum.splits)
  then have item1: "overlaid E (items_overlay E (item1 # items1) @ C) w2" "item_ok E n w2 item1" "same_nodes w1 w2"
    "plan_of item1 = plan_of item" "recoverable item1"
    by (simp_all add: rollable_def item_inv_ground)
  have "error_of r = None \<longrightarrow> \<not> pi_published item1 \<and> \<not> pi_backup_exists item1"
    using outcome by (cases r) (simp_all add: rolled_back_def)
  with ind item1 same_nodes_trans [OF ind(2) item1(3)] show ?case
    unfolding result by (auto simp: item_ok_nodes [OF item1(3)])
qed

section \<open>Removing all artifacts\<close>

lemma remove_artifacts_inv:
  assumes "remove_artifacts h items w = (es, items', w')" and "overlaid E (items_overlay E items @ C) w"
    and "\<forall>item \<in> set items. item_ok E n w item \<and> (pi_backup_exists item \<longrightarrow> pi_backup_info item \<noteq> None)"
  shows "overlaid E (items_overlay E items' @ C) w' \<and> same_nodes w w' \<and> map plan_of items' = map plan_of items \<and>
    map pi_published items' = map pi_published items \<and> (\<forall>item \<in> set items'. item_ok E n w' item) \<and>
    ((\<forall>e \<in> set es. e = None) \<longrightarrow> (\<forall>item \<in> set items'. \<not> pi_staged_exists item \<and> \<not> pi_backup_exists item))"
  using assms
proof (induction items arbitrary: C es items' w w')
  case Nil
  then show ?case by simp
next
  case (Cons item items)
  obtain r1 item1 w1 where step1: "remove_backup h (item, w) = (r1, (item1, w1))" by (metis prod.exhaust)
  obtain r2 item2 w2 where step2: "remove_staged h (item1, w1) = (r2, (item2, w2))" by (metis prod.exhaust)
  obtain es3 items3 w3 where tail: "remove_artifacts h items w2 = (es3, items3, w3)" by (metis prod.exhaust)
  have result: "es = error_of r1 # error_of r2 # es3" "items' = item2 # items3" "w' = w3"
    using Cons.prems(1) step1 step2 tail by simp_all
  let ?g = "ground_of E n w (items_overlay E items @ C) item"
  have start: "tidy ?g (item, w)" using Cons.prems(2,3) by (simp add: tidy_def item_inv_ground)
  note backup = wlp_outcome [OF remove_backup_step [OF start, of h] step1]
  have mid: "tidy ?g (item1, w1)" "pi_published item1 = pi_published item"
    "error_of r1 = None \<longrightarrow> \<not> pi_backup_exists item1"
    using backup by (cases r1; simp)+
  note staged = wlp_outcome [OF remove_staged_step [OF mid(1), of h] step2]
  have final: "tidy ?g (item2, w2)" "pi_published item2 = pi_published item"
    "error_of r2 = None \<longrightarrow> \<not> pi_staged_exists item2 \<and> pi_backup_exists item2 = pi_backup_exists item1"
    using staged mid(2) by (cases r2; simp)+
  then have item2: "overlaid E (item_overlay E item2 @ items_overlay E items @ C) w2" "item_ok E n w2 item2"
    "same_nodes w w2" "plan_of item2 = plan_of item"
    by (simp_all add: tidy_def item_inv_ground)
  have "overlaid E (items_overlay E items @ item_overlay E item2 @ C) w2"
    using item2(1) by (subst overlaid_perm [where ov' = "item_overlay E item2 @ items_overlay E items @ C"]) auto
  from Cons.IH [OF tail this] Cons.prems(3)
  have ind: "overlaid E (items_overlay E items3 @ item_overlay E item2 @ C) w3" "same_nodes w2 w3"
    "map plan_of items3 = map plan_of items" "map pi_published items3 = map pi_published items"
    "\<forall>item \<in> set items3. item_ok E n w3 item"
    "(\<forall>e \<in> set es3. e = None) \<longrightarrow> (\<forall>item \<in> set items3. \<not> pi_staged_exists item \<and> \<not> pi_backup_exists item)"
    by (simp_all add: item_ok_nodes [OF item2(3)])
  have "overlaid E (items_overlay E (item2 # items3) @ C) w3"
    using ind(1) by (subst overlaid_perm [where ov' = "items_overlay E items3 @ item_overlay E item2 @ C"]) auto
  with ind item2 final(2,3) mid(3) same_nodes_trans [OF item2(3) ind(2)] show ?case
    unfolding result by (auto simp: item_ok_nodes [OF ind(2)])
qed

section \<open>Closing the directories\<close>

text \<open>
  Only the entries of directories the transaction created may go; nothing comes instead of them, and a
  directory that went is empty.
\<close>

definition created_keys :: "stable_directory list \<Rightarrow> entry_key set" where
  "created_keys ds = (\<lambda>d. (sd_parent d, sd_name d)) ` {d \<in> set ds. sd_created d}"

definition entries_but :: "entry_key set \<Rightarrow> world \<Rightarrow> world \<Rightarrow> bool" where
  "entries_but K w w' = (same_nodes w w' \<and> (\<forall>k. entry_of w' k = entry_of w k \<or> k \<in> K \<and> entry_of w' k = None) \<and>
     (\<forall>k i name. entry_of w k = Some i \<longrightarrow> node_at w i = Some Directory \<longrightarrow> entry_of w' k = None \<longrightarrow>
        entry_of w' (i, name) = None))"

lemma entries_but_disk: "same_disk w w' \<Longrightarrow> entries_but K w w'"
  by (simp add: entries_but_def disk_simps same_nodes_disk)

lemma entries_but_trans: "entries_but K w w' \<Longrightarrow> entries_but K w' w'' \<Longrightarrow> entries_but K w w''"
  (is "?P \<Longrightarrow> ?Q \<Longrightarrow> _")
proof -
  assume P: ?P and Q: ?Q
  then have nodes: "same_nodes w w'" "same_nodes w' w''" by (simp_all add: entries_but_def)
  from P have first: "entry_of w' k = entry_of w k \<or> k \<in> K \<and> entry_of w' k = None" for k unfolding entries_but_def by blast
  from Q have second: "entry_of w'' k = entry_of w' k \<or> k \<in> K \<and> entry_of w'' k = None" for k unfolding entries_but_def by blast
  have "entry_of w'' (i, name) = None"
    if gone: "entry_of w k = Some i" "node_at w i = Some Directory" "entry_of w'' k = None" for k i name
  proof (cases "entry_of w' k")
    case None
    with P gone have "entry_of w' (i, name) = None" unfolding entries_but_def by blast
    with second [of "(i, name)"] show ?thesis by auto
  next
    case (Some j)
    with first [of k] gone(1) have "entry_of w' k = Some i" by auto
    with Q gone same_nodes_node [OF nodes(1)] show ?thesis unfolding entries_but_def by metis
  qed
  moreover have "entry_of w'' k = entry_of w k \<or> k \<in> K \<and> entry_of w'' k = None" for k
    using first [of k] second [of k] by auto
  ultimately show ?thesis using same_nodes_trans [OF nodes] unfolding entries_but_def by blast
qed

lemma entries_but_mono: "entries_but K w w' \<Longrightarrow> K \<subseteq> L \<Longrightarrow> entries_but L w w'"
  unfolding entries_but_def by blast

lemma empty_directory_entry: "empty_directory w i \<Longrightarrow> entry_of w (i, n) = None"
  by (auto simp: empty_directory_def entry_of_def map_get_def list_all_iff map_of_eq_None_iff)

lemma RemoveName_empty:
  assumes "RemoveName h d name w = (Inr (), w')" and "entry_of w (d, name) = Some i" and "node_at w i = Some Directory"
  shows "entry_of w (i, n) = None"
proof -
  let ?w = "w\<lparr>w_tick := Suc (w_tick w)\<rparr>"
  have entry: "entry_of ?w k = entry_of w k" for k by (simp add: entry_of_def)
  have "node_at ?w i = Some Directory" using assms(3) by simp
  with os_op_success [OF assms(1) [unfolded RemoveName_def]] assms(2) have "empty_directory ?w i"
    by (auto simp: entry_at_of entry split: if_splits)
  from empty_directory_entry [OF this, of n] show ?thesis by (simp only: entry)
qed

lemma RemoveName_but: "wlp (RemoveName h parent name) (\<lambda>_. entries_but {(parent, name)} w) (\<lambda>_. entries_but {(parent, name)} w) w"
proof (rule wlpI)
  fix u w'
  assume "RemoveName h parent name w = (Inr u, w')"
  then have "RemoveName h parent name w = (Inr (), w')" by simp
  from RemoveName_success [OF this] RemoveName_empty [OF this] show "entries_but {(parent, name)} w w'"
    by (simp add: entries_but_def)
next
  fix e w'
  assume "RemoveName h parent name w = (Inl e, w')"
  from RemoveName_failure [OF this] show "entries_but {(parent, name)} w w'" by (rule entries_but_disk)
qed

lemma remove_created_outcome:
  "wlp (remove_created h d) (\<lambda>_. entries_but {(sd_parent d, sd_name d)} w) (\<lambda>_. entries_but {(sd_parent d, sd_name d)} w) w"
proof -
  let ?K = "{(sd_parent d, sd_name d)}"
  have "wlp (RemoveName h (sd_parent d) (sd_name d)) (\<lambda>_. entries_but ?K w) (\<lambda>_. entries_but ?K w) w1"
    if "same_disk w w1" for w1
    by (rule wlp_weaken [OF RemoveName_but]) (rule entries_but_trans [OF entries_but_disk [OF that]], assumption)+
  then show ?thesis
    unfolding remove_created_def
    by (subst wlp_bind, subst wlp_try, intro wlp_reads_disk [OF reads_ops(1)])
      (auto simp: wlp_rules entries_but_disk)
qed

lemma close_directories_but:
  "close_directories h removeCreated ds w = (es, w') \<Longrightarrow>
     entries_but (if removeCreated then created_keys ds else {}) w w'"
proof (induction ds arbitrary: w es w')
  case (Cons d ds)
  let ?K = "if removeCreated then created_keys (d # ds) else {}"
  obtain closed w1 where step1: "CloseHandle h (sd_root d) w = (closed, w1)" by (metis prod.exhaust)
  obtain removed w2 where step2: "(if removeCreated \<and> sd_created d then remove_created h d w1 else (Inr (), w1)) = (removed, w2)"
    by (metis prod.exhaust)
  obtain es3 w3 where step3: "close_directories h removeCreated ds w2 = (es3, w3)" by (metis prod.exhaust)
  have result: "w' = w3" using Cons.prems step1 step2 step3 by simp
  have "entries_but ?K w w1" by (rule entries_but_disk [OF reads_outcome [OF reads_ops(8) step1]])
  moreover have "entries_but ?K w1 w2"
  proof (cases "removeCreated \<and> sd_created d")
    case True
    with step2 have "remove_created h d w1 = (removed, w2)" by simp
    from wlp_outcome [OF remove_created_outcome this] have "entries_but {(sd_parent d, sd_name d)} w1 w2"
      by (cases removed) simp_all
    then show ?thesis by (rule entries_but_mono) (use True in \<open>auto simp: created_keys_def\<close>)
  next
    case False
    with step2 show ?thesis by (auto intro: entries_but_disk)
  qed
  moreover have "entries_but ?K w2 w3"
    by (rule entries_but_mono [OF Cons.IH [OF step3]]) (auto simp: created_keys_def)
  ultimately show ?case unfolding result by (metis entries_but_trans)
qed (simp add: entries_but_disk)

lemma created_keys_simps [simp]: "created_keys (rev ds) = created_keys ds" "created_keys [] = {}"
  by (simp_all add: created_keys_def)

lemma closeStableDirectories_but:
  assumes "closeStableDirectories h directories removeCreated w = (e, w')"
  shows "entries_but (if removeCreated then created_keys (tl directories) else {}) w w'"
proof -
  obtain es w1 where "close_directories h removeCreated (rev (tl directories)) w = (es, w1)" by (metis prod.exhaust)
  with close_directories_but [OF this] assms show ?thesis by (simp add: closeStableDirectories_def split: if_splits)
qed

end
