(* ===== verification/SyncAtomic.thy ===== *)
theory SyncAtomic
  imports SyncTransaction
begin

text \<open>
  The outcomes of the publication transaction of \<open>internal/coresync/sync.go\<close>: every destination is
  published, or everything is as before, or the rollback failed, is reported, and nothing is lost.
\<close>

section \<open>Outcomes\<close>

definition holds_desired :: "world \<Rightarrow> publication_item \<Rightarrow> bool" where
  "holds_desired w item = (\<exists>i. entry_of w (target_key item) = Some i \<and>
     node_at w i = Some (RegularFile (pi_desired item) (Perm (pi_mode item))))"

text \<open>
  The items of a transaction at its start: distinct destinations, none named like an artifact or where
  a directory was just created; a managed destination is an existing regular file.
\<close>

definition publishable :: "world \<Rightarrow> stable_directory list \<Rightarrow> publication_item list \<Rightarrow> bool" where
  "publishable w directories items = (distinct (map target_key items) \<and>
     (\<forall>item \<in> set items. fresh_item (entry_of w) (w_next w) w item \<and> \<not> artifact_name (pi_basename item) \<and>
        target_key item \<notin> created_keys (tl directories)))"

text \<open>The destination is as before, or holds the new content while the old file is still linked.\<close>

definition settled :: "entry_map \<Rightarrow> world \<Rightarrow> publication_item \<Rightarrow> bool" where
  "settled E w item = (entry_of w (target_key item) = E (target_key item) \<or>
     holds_desired w item \<and> (\<forall>i. E (target_key item) = Some i \<longrightarrow> (\<exists>name. entry_of w (pi_parent item, name) = Some i)))"

definition reports_two :: "sync_error option \<Rightarrow> bool" where
  "reports_two r = (\<exists>e e' es. r = Some (Joined (e # e' # es)))"

lemma reports_two_Join: "reports_two (errors_Join (Some e # Some e' # es))"
  by (simp add: reports_two_def errors_Join_def Let_def)

section \<open>What the overlay says of a destination\<close>

text \<open>The items of a list at some point of the transaction.\<close>

definition stage_of :: "entry_map \<Rightarrow> inode \<Rightarrow> world \<Rightarrow> publication_item list \<Rightarrow> overlay \<Rightarrow> bool" where
  "stage_of E n w items leak = (overlaid E (items_overlay E items @ leak) w \<and> leak_ok E leak \<and>
     distinct (map target_key items) \<and>
     (\<forall>item \<in> set items. item_ok E n w item \<and> \<not> artifact_name (pi_basename item)))"

lemma items_overlay_in: "kv \<in> set (items_overlay E items) \<longleftrightarrow> (\<exists>item \<in> set items. kv \<in> set (item_overlay E item))"
  by (auto simp: items_overlay_def)

lemma target_published:
  assumes "stage_of E n w items leak" and "item \<in> set items" and "pi_published item"
  shows "holds_desired w item"
proof -
  from assms have over: "overlaid E (items_overlay E items @ leak) w" and ok: "item_ok E n w item"
    by (simp_all add: stage_of_def)
  have "(target_key item, staged_inode item) \<in> set (items_overlay E items @ leak)"
    using assms(2,3) by (auto simp: items_overlay_in item_overlay_def)
  from overlaid_entry [OF over this] ok assms(3) show ?thesis
    by (auto simp: holds_desired_def item_ok_def staged_ok_def staged_inode_def)
qed

lemma overlay_key_cases:
  assumes "stage_of E n w items leak" and "k \<in> fst ` set (items_overlay E items @ leak)"
  shows "E k = None \<and> artifact_name (snd k) \<or> (\<exists>item \<in> set items. pi_published item \<and> k = target_key item)"
proof -
  from assms(2) obtain kv where kv: "kv \<in> set (items_overlay E items @ leak)" "k = fst kv" by auto
  show ?thesis
  proof (cases "kv \<in> set leak")
    case True
    with assms(1) kv show ?thesis by (auto simp: stage_of_def leak_ok_def artifact_name_def)
  next
    case False
    with kv obtain item where item: "item \<in> set items" "kv \<in> set (item_overlay E item)" by (auto simp: items_overlay_in)
    with assms(1) have "item_ok E n w item" by (simp add: stage_of_def)
    from overlay_keys [OF this item(2)] item(1) kv(2) show ?thesis by auto
  qed
qed

lemma target_unpublished:
  assumes "stage_of E n w items leak" and "item \<in> set items" and "\<not> pi_published item"
  shows "entry_of w (target_key item) = E (target_key item)"
proof (rule overlaid_outside)
  show "overlaid E (items_overlay E items @ leak) w" using assms(1) by (simp add: stage_of_def)
  show "target_key item \<notin> fst ` set (items_overlay E items @ leak)"
  proof
    assume "target_key item \<in> fst ` set (items_overlay E items @ leak)"
    from overlay_key_cases [OF assms(1) this] assms(1,2)
    obtain other where "other \<in> set items" "pi_published other" "target_key item = target_key other"
      by (auto simp: stage_of_def target_key_def)
    with assms show False by (auto simp: stage_of_def distinct_map dest: inj_onD)
  qed
qed

lemma entry_elsewhere:
  assumes "stage_of E n w items leak" and "k \<notin> target_key ` set items"
  shows "entry_of w k = E k \<or> E k = None \<and> artifact_name (snd k)"
proof (cases "k \<in> fst ` set (items_overlay E items @ leak)")
  case True
  from overlay_key_cases [OF assms(1) this] assms(2) show ?thesis by auto
next
  case False
  with assms(1) overlaid_outside [of E "items_overlay E items @ leak" w k] show ?thesis by (simp add: stage_of_def)
qed

lemma settled_items:
  assumes "stage_of E n w items leak" and "item \<in> set items" and "recoverable item"
  shows "settled E w item"
proof (cases "pi_published item")
  case True
  have "\<exists>name. entry_of w (pi_parent item, name) = Some i" if "E (target_key item) = Some i" for i
  proof -
    have over: "overlaid E (items_overlay E items @ leak) w" and ok: "item_ok E n w item"
      using assms by (simp_all add: stage_of_def)
    with True that assms(3) have "pi_backup_exists item" by (auto simp: item_ok_def recoverable_def)
    then have "(backup_key item, i) \<in> set (items_overlay E items @ leak)"
      using assms(2) that by (auto simp: items_overlay_in item_overlay_def)
    from overlaid_entry [OF over this] show ?thesis by (auto simp: backup_key_def)
  qed
  with target_published [OF assms(1,2) True] show ?thesis by (simp add: settled_def)
qed (use target_unpublished [OF assms(1,2)] in \<open>simp add: settled_def\<close>)

section \<open>The same requests\<close>

lemma map_respects:
  "map f xs = map f ys \<Longrightarrow> (\<And>a b. f a = f b \<Longrightarrow> g a = g b) \<Longrightarrow> map g xs = map g ys"
proof (induction xs arbitrary: ys)
  case (Cons x xs)
  from Cons.prems(1) obtain y ys' where ys: "ys = y # ys'" "f x = f y" "map f xs = map f ys'" by (cases ys) auto
  have "map g xs = map g ys'" by (rule Cons.IH [OF ys(3)]) (rule Cons.prems(2))
  with Cons.prems(2) [OF ys(2)] show ?case unfolding ys(1) by simp
qed simp

lemma requests_plan: "map plan_of items' = map plan_of items \<Longrightarrow> map request_of items' = map request_of items"
  by (erule map_respects) (rule request_plan)

lemma same_targets: "map request_of items' = map request_of items \<Longrightarrow> map target_key items' = map target_key items"
  by (erule map_respects) (rule request_fields)

lemma same_all:
  assumes "map request_of items' = map request_of items" and "\<And>a b. request_of a = request_of b \<Longrightarrow> P a = P b"
  shows "(\<forall>item \<in> set items'. P item) \<longleftrightarrow> (\<forall>item \<in> set items. P item)"
proof -
  have "map P items' = map P items" by (rule map_respects [OF assms(1)]) (rule assms(2))
  then have "P ` set items' = P ` set items" by (metis set_map)
  then have "False \<in> P ` set items' \<longleftrightarrow> False \<in> P ` set items" by simp
  then show ?thesis by (auto simp: image_iff)
qed

lemma same_holds: "request_of a = request_of b \<Longrightarrow> holds_desired w a = holds_desired w b"
proof -
  assume "request_of a = request_of b"
  from request_fields [OF this] show ?thesis by (simp add: holds_desired_def)
qed

lemma same_settled: "request_of a = request_of b \<Longrightarrow> settled E w a = settled E w b"
proof -
  assume same: "request_of a = request_of b"
  from request_fields [OF same] same_holds [OF same] show ?thesis by (simp add: settled_def)
qed

lemma stage_of_requests:
  assumes "stage_of E n w items leak" and "map request_of items' = map request_of items"
    and "overlaid E (items_overlay E items' @ leak') w'" and "leak_ok E leak'" and "\<forall>item \<in> set items'. item_ok E n w' item"
  shows "stage_of E n w' items' leak'"
proof -
  have "(\<forall>item \<in> set items'. \<not> artifact_name (pi_basename item)) \<longleftrightarrow> (\<forall>item \<in> set items. \<not> artifact_name (pi_basename item))"
    by (rule same_all [OF assms(2)]) (drule request_fields(1), simp)
  with assms(1,3-5) same_targets [OF assms(2)] show ?thesis by (simp add: stage_of_def)
qed

section \<open>Rolling back the transaction\<close>

text \<open>Every entry is as at the start, or gone if it is one of \<open>K\<close>, or a new artifact; a directory that is gone is empty.\<close>

definition restored_to :: "entry_map \<Rightarrow> entry_key set \<Rightarrow> world \<Rightarrow> bool" where
  "restored_to E K w = ((\<forall>k. entry_of w k = E k \<or> k \<in> K \<and> entry_of w k = None \<or> E k = None \<and> artifact_name (snd k)) \<and>
     (\<forall>k i name. E k = Some i \<longrightarrow> node_at w i = Some Directory \<longrightarrow> entry_of w k = None \<longrightarrow> entry_of w (i, name) = None))"

lemma entries_butD: "entries_but K w w' \<Longrightarrow> entry_of w' k = entry_of w k \<or> k \<in> K \<and> entry_of w' k = None"
  unfolding entries_but_def by blast

lemma restored_unpublished:
  assumes "stage_of E n w items leak" and "\<forall>item \<in> set items. \<not> pi_published item" and "entries_but K w w'"
  shows "restored_to E K w'"
  unfolding restored_to_def
proof (intro conjI allI impI)
  have before: "entry_of w k = E k \<or> E k = None \<and> artifact_name (snd k)" for k
  proof (cases "k \<in> target_key ` set items")
    case True
    with assms(2) target_unpublished [OF assms(1)] show ?thesis by auto
  qed (rule entry_elsewhere [OF assms(1)])
  fix k
  from before [of k] entries_butD [OF assms(3), of k]
  show "entry_of w' k = E k \<or> k \<in> K \<and> entry_of w' k = None \<or> E k = None \<and> artifact_name (snd k)" by auto
  fix i name
  assume gone: "E k = Some i" "node_at w' i = Some Directory" "entry_of w' k = None"
  with before [of k] have "entry_of w k = Some i" by simp
  with gone assms(3) show "entry_of w' (i, name) = None"
    unfolding entries_but_def by (metis same_nodes_node)
qed

lemma entries_but_restored: "entries_but K w w' \<Longrightarrow> restored_to (entry_of w) K w'"
  unfolding entries_but_def restored_to_def by (clarsimp simp only: same_nodes_node) blast

lemma entries_but_empty: "entries_but {} w w' \<Longrightarrow> entry_of w' = entry_of w \<and> same_nodes w w'"
  unfolding entries_but_def by auto

lemma settled_but:
  "settled E w item \<Longrightarrow> entries_but {} w w' \<Longrightarrow> settled E w' item"
proof -
  assume "settled E w item" "entries_but {} w w'"
  moreover from this have same: "entry_of w' = entry_of w" and nodes: "same_nodes w w'"
    using entries_but_empty by blast+
  ultimately show ?thesis by (simp add: settled_def holds_desired_def same same_nodes_node [OF nodes])
qed

lemma rollbackStableItems_inv:
  assumes "rollbackStableItems h items w = (e, items1, w1)" and "stage_of E n w items []"
    and "\<forall>item \<in> set items. recoverable item"
  shows "stage_of E n w1 items1 [] \<and> same_nodes w w1 \<and> map request_of items1 = map request_of items \<and>
    (\<forall>item \<in> set items1. recoverable item) \<and>
    (e = None \<longrightarrow> (\<forall>item \<in> set items1. \<not> pi_published item \<and> \<not> pi_backup_exists item))"
proof -
  obtain es where run: "rollback_items h items w = (es, items1, w1)" "e = errors_Join es"
    using assms(1) by (auto simp: rollbackStableItems_def split: prod.splits)
  from rollback_items_inv [OF run(1), of E "[]" n] assms(2,3)
  have ind: "overlaid E (items_overlay E items1 @ []) w1" "same_nodes w w1" "map plan_of items1 = map plan_of items"
    "\<forall>item \<in> set items1. item_ok E n w1 item \<and> recoverable item"
    "(\<forall>e \<in> set es. e = None) \<longrightarrow> (\<forall>item \<in> set items1. \<not> pi_published item \<and> \<not> pi_backup_exists item)"
    by (simp_all add: stage_of_def)
  note requests = requests_plan [OF ind(3)]
  have "stage_of E n w1 items1 []"
    by (rule stage_of_requests [OF assms(2) requests ind(1)]) (use ind(4) in \<open>simp_all add: leak_ok_def\<close>)
  with ind requests run(2) show ?thesis by (simp add: errors_Join_None)
qed

lemma removePublicationArtifacts_inv:
  assumes "removePublicationArtifacts h items w = (e, items1, w1)" and "stage_of E n w items leak"
    and "\<forall>item \<in> set items. pi_backup_exists item \<longrightarrow> pi_backup_info item \<noteq> None"
  shows "stage_of E n w1 items1 leak \<and> same_nodes w w1 \<and> map request_of items1 = map request_of items \<and>
    map pi_published items1 = map pi_published items \<and>
    (e = None \<longrightarrow> (\<forall>item \<in> set items1. \<not> pi_staged_exists item \<and> \<not> pi_backup_exists item))"
proof -
  obtain es where run: "remove_artifacts h items w = (es, items1, w1)" "e = errors_Join es"
    using assms(1) by (auto simp: removePublicationArtifacts_def split: prod.splits)
  from remove_artifacts_inv [OF run(1), of E leak n] assms(2,3)
  have ind: "overlaid E (items_overlay E items1 @ leak) w1" "same_nodes w w1" "map plan_of items1 = map plan_of items"
    "map pi_published items1 = map pi_published items" "\<forall>item \<in> set items1. item_ok E n w1 item"
    "(\<forall>e \<in> set es. e = None) \<longrightarrow> (\<forall>item \<in> set items1. \<not> pi_staged_exists item \<and> \<not> pi_backup_exists item)"
    by (simp_all add: stage_of_def)
  note requests = requests_plan [OF ind(3)]
  have "stage_of E n w1 items1 leak"
    by (rule stage_of_requests [OF assms(2) requests ind(1)]) (use ind(5) assms(2) in \<open>simp_all add: stage_of_def\<close>)
  with ind requests run(2) show ?thesis by (simp add: errors_Join_None)
qed

lemma published_same:
  assumes "map pi_published items1 = map pi_published items"
  shows "(\<forall>item \<in> set items1. P (pi_published item)) \<longleftrightarrow> (\<forall>item \<in> set items. P (pi_published item))"
proof -
  have "pi_published ` set items1 = pi_published ` set items" using assms by (metis set_map)
  then have "(\<forall>b \<in> pi_published ` set items1. P b) \<longleftrightarrow> (\<forall>b \<in> pi_published ` set items. P b)" by simp
  then show ?thesis by simp
qed

text \<open>Every entry that is no destination is as at the start, or a new artifact.\<close>

definition others_kept :: "entry_map \<Rightarrow> publication_item list \<Rightarrow> world \<Rightarrow> bool" where
  "others_kept E items w =
     (\<forall>k. k \<notin> target_key ` set items \<longrightarrow> entry_of w k = E k \<or> E k = None \<and> artifact_name (snd k))"

lemma others_kept_same:
  assumes "map request_of items' = map request_of items"
  shows "others_kept E items' w = others_kept E items w"
proof -
  have "target_key ` set items' = target_key ` set items" using same_targets [OF assms] by (metis set_map)
  then show ?thesis by (simp add: others_kept_def)
qed

lemma stage_others_kept: "stage_of E n w items leak \<Longrightarrow> entries_but {} w w' \<Longrightarrow> others_kept E items w'"
  unfolding others_kept_def using entry_elsewhere entries_but_empty by metis

lemma rollbackStableTransaction_inv:
  assumes "rollbackStableTransaction h items directories e w = (r, w')" and "stage_of E n w items []"
    and "\<forall>item \<in> set items. recoverable item"
  shows "r \<noteq> None \<and> same_nodes w w' \<and> (restored_to E (created_keys (tl directories)) w' \<or>
    reports_two r \<and> (\<forall>item \<in> set items. settled E w' item) \<and> others_kept E items w')"
proof -
  obtain rolled items1 w1 where run: "rollbackStableItems h items w = (rolled, items1, w1)" by (metis prod.exhaust)
  note inv = rollbackStableItems_inv [OF run assms(2,3)]
  show ?thesis
  proof (cases rolled)
    case (Some err)
    obtain c w2 where close: "closeStableDirectories h directories False w1 = (c, w2)" by (metis prod.exhaust)
    have result: "r = errors_Join [Some e, Some err, c]" "w' = w2"
      using assms(1) run Some close by (simp_all add: rollbackStableTransaction_def)
    have but: "entries_but {} w1 w2" using closeStableDirectories_but [OF close] by simp
    have "\<forall>item \<in> set items1. settled E w2 item"
      using inv settled_items [of E n w1 items1 "[]"] settled_but [OF _ but] by blast
    then have "\<forall>item \<in> set items. settled E w2 item"
      using same_all [of items1 items "settled E w2"] inv same_settled by blast
    moreover have "others_kept E items w2"
      using stage_others_kept [OF _ but, of E n items1 "[]"] inv others_kept_same by blast
    ultimately show ?thesis using inv but unfolding result
      by (auto simp: reports_two_Join entries_but_def errors_Join_None intro: same_nodes_trans)
  next
    case None
    obtain cleanup items2 w2 where clean: "removePublicationArtifacts h items1 w1 = (cleanup, items2, w2)" by (metis prod.exhaust)
    obtain c w3 where close: "closeStableDirectories h directories (cleanup = None) w2 = (c, w3)" by (metis prod.exhaust)
    have result: "r = errors_Join [Some e, wrapRollbackError cleanup, c]" "w' = w3"
      using assms(1) run None clean close by (simp_all add: rollbackStableTransaction_def)
    have inv2: "stage_of E n w2 items2 []" "same_nodes w1 w2" "map pi_published items2 = map pi_published items1"
      using removePublicationArtifacts_inv [OF clean, of E n "[]"] inv None by simp_all
    have unpublished: "\<forall>item \<in> set items2. \<not> pi_published item"
      using inv None published_same [OF inv2(3), of Not] by simp
    have but: "entries_but (created_keys (tl directories)) w2 w3"
      by (rule entries_but_mono [OF closeStableDirectories_but [OF close]]) simp
    from restored_unpublished [OF inv2(1) unpublished but] inv inv2(2) but show ?thesis
      unfolding result by (auto simp: entries_but_def errors_Join_None intro: same_nodes_trans)
  qed
qed

section \<open>The transaction\<close>

lemma stage_of_disk: "stage_of E n w items leak \<Longrightarrow> same_disk w w' \<Longrightarrow> stage_of E n w' items leak"
  by (simp add: stage_of_def overlaid_same item_ok_nodes [OF same_nodes_disk])

text \<open>The outcome of a transaction that started with the entries \<open>E\<close>.\<close>

definition committed :: "entry_map \<Rightarrow> publication_item list \<Rightarrow> sync_error option \<Rightarrow> world \<Rightarrow> bool" where
  "committed E items r w = ((\<forall>item \<in> set items. holds_desired w item) \<and>
     (\<forall>k. k \<notin> target_key ` set items \<longrightarrow> entry_of w k = E k \<or> r \<noteq> None \<and> E k = None \<and> artifact_name (snd k)))"

definition settled_outcome :: "entry_map \<Rightarrow> entry_key set \<Rightarrow> publication_item list \<Rightarrow> sync_error option \<Rightarrow> world \<Rightarrow> bool" where
  "settled_outcome E K items r w = (committed E items r w \<or> r \<noteq> None \<and> restored_to E K w \<or>
     reports_two r \<and> (\<forall>item \<in> set items. settled E w item) \<and> others_kept E items w)"

lemma rollback_outcome:
  assumes "rollbackStableTransaction h items1 directories e w = (r, w')" and "stage_of E n w items1 []"
    and "\<forall>item \<in> set items1. recoverable item" and "map request_of items1 = map request_of items"
  shows "older w w' \<and> settled_outcome E (created_keys (tl directories)) items r w'"
proof -
  from rollbackStableTransaction_inv [OF assms(1-3)]
  have nodes: "same_nodes w w'" and some: "r \<noteq> None"
    and cases: "restored_to E (created_keys (tl directories)) w' \<or> reports_two r \<and> (\<forall>item \<in> set items1. settled E w' item) \<and>
      others_kept E items1 w'"
    by simp_all
  have "(\<forall>item \<in> set items1. settled E w' item) \<longleftrightarrow> (\<forall>item \<in> set items. settled E w' item)"
    by (rule same_all [OF assms(4)]) (rule same_settled)
  with some cases older_nodes [OF nodes] others_kept_same [OF assms(4)] show ?thesis unfolding settled_outcome_def by blast
qed

lemma cleanup_outcome:
  assumes clean: "removePublicationArtifacts h items1 w = (cleanup, items2, w1)"
    and close: "closeStableDirectories h directories False w1 = (c, w')"
    and stage: "stage_of E n w items1 []" and published: "\<forall>item \<in> set items1. pi_published item \<and> recoverable item"
    and requests: "map request_of items1 = map request_of items"
  shows "older w w' \<and> settled_outcome E K items (errors_Join [cleanup, c]) w'"
proof -
  have info: "\<forall>item \<in> set items1. pi_backup_exists item \<longrightarrow> pi_backup_info item \<noteq> None"
    using published stage by (auto simp: recoverable_def stage_of_def item_ok_def backup_ok_def)
  from removePublicationArtifacts_inv [OF clean stage info]
  have inv: "stage_of E n w1 items2 []" "same_nodes w w1" "map request_of items2 = map request_of items1"
    "map pi_published items2 = map pi_published items1"
    "cleanup = None \<longrightarrow> (\<forall>item \<in> set items2. \<not> pi_staged_exists item \<and> \<not> pi_backup_exists item)" by simp_all
  have req: "map request_of items2 = map request_of items" using inv(3) requests by simp
  have all: "\<forall>item \<in> set items2. pi_published item"
    using published published_same [OF inv(4), of "\<lambda>b. b"] by simp
  have but: "entries_but {} w1 w'" using closeStableDirectories_but [OF close] by simp
  then have entries: "entry_of w' = entry_of w1" and nodes: "same_nodes w1 w'" using entries_but_empty by blast+
  have "\<forall>item \<in> set items2. holds_desired w' item"
    using target_published [OF inv(1)] all by (auto simp: holds_desired_def entries same_nodes_node [OF nodes])
  then have desired: "\<forall>item \<in> set items. holds_desired w' item"
    using same_all [OF req, of "holds_desired w'"] same_holds by blast
  have targets: "target_key ` set items2 = target_key ` set items"
    using same_targets [OF req] by (metis set_map)
  have "entry_of w' k = E k \<or> errors_Join [cleanup, c] \<noteq> None \<and> E k = None \<and> artifact_name (snd k)"
    if k: "k \<notin> target_key ` set items" for k
  proof (cases cleanup)
    case None
    have "k \<notin> fst ` set (items_overlay E items2 @ [])"
    proof
      assume "k \<in> fst ` set (items_overlay E items2 @ [])"
      then obtain item kv where item: "item \<in> set items2" "kv \<in> set (item_overlay E item)" "k = fst kv"
        by (auto simp: items_overlay_in simp del: split_paired_Ex)
      with inv(5) None have "k = target_key item" by (auto simp: item_overlay_def split: if_splits)
      with item(1) k targets show False by blast
    qed
    moreover have "overlaid E (items_overlay E items2 @ []) w1" using inv(1) by (simp add: stage_of_def)
    ultimately show ?thesis using overlaid_outside entries by metis
  next
    case (Some e)
    have "k \<notin> target_key ` set items2" using k targets by simp
    from entry_elsewhere [OF inv(1) this] Some show ?thesis by (simp add: entries errors_Join_None)
  qed
  with desired older_nodes [OF same_nodes_trans [OF inv(2) nodes]] show ?thesis
    unfolding settled_outcome_def committed_def by blast
qed

lemma finish_outcome:
  assumes run: "finish_publication h directories items1 w = (r, w')"
    and stage: "stage_of E n w items1 []" and published: "\<forall>item \<in> set items1. pi_published item \<and> recoverable item"
    and requests: "map request_of items1 = map request_of items"
  shows "older w w' \<and> settled_outcome E (created_keys (tl directories)) items r w'"
proof -
  have rolled: "older w w' \<and> settled_outcome E (created_keys (tl directories)) items r w'"
    if "rollbackStableTransaction h items1 directories e w1 = (r, w')" "same_disk w w1" for e w1
    using rollback_outcome [OF that(1) stage_of_disk [OF stage that(2)] _ requests] published
      older_trans [OF older_disk [OF that(2)]] by blast
  obtain v1 w1 where valid1: "validateStableDirectories h directories w = (v1, w1)" by (metis prod.exhaust)
  have disk1: "same_disk w w1" by (rule reads_outcome [OF reads_validations(1) valid1])
  show ?thesis
  proof (cases v1)
    case (Inl e)
    with run valid1 have "rollbackStableTransaction h items1 directories e w1 = (r, w')"
      by (simp add: finish_publication_def)
    from rolled [OF this disk1] show ?thesis .
  next
    case (Inr u)
    obtain v2 w2 where valid2: "validatePublishedTransaction h items1 w1 = (v2, w2)" by (metis prod.exhaust)
    have disk2: "same_disk w w2" by (rule same_disk_trans [OF disk1 reads_outcome [OF reads_published valid2]])
    show ?thesis
    proof (cases v2)
      case (Inl e)
      with run valid1 Inr valid2 have "rollbackStableTransaction h items1 directories e w2 = (r, w')"
        by (simp add: finish_publication_def)
      from rolled [OF this disk2] show ?thesis .
    next
      case valid: (Inr u')
      obtain cleanup items2 w3 where clean: "removePublicationArtifacts h items1 w2 = (cleanup, items2, w3)" by (metis prod.exhaust)
      obtain c w4 where close: "closeStableDirectories h directories False w3 = (c, w4)" by (metis prod.exhaust)
      have result: "r = errors_Join [cleanup, c]" "w' = w4"
        using run valid1 Inr valid2 valid clean close by (simp_all add: finish_publication_def)
      from cleanup_outcome [OF clean close stage_of_disk [OF stage disk2] published requests] older_trans [OF older_disk [OF disk2]]
      show ?thesis unfolding result by blast
    qed
  qed
qed

lemma staging_failed_outcome:
  assumes clean: "removePublicationArtifacts h items1 w = (cleanup, items2, w1)"
    and close: "closeStableDirectories h directories b w1 = (c, w')"
    and stage: "stage_of E n w items1 leak" and waiting: "\<forall>item \<in> set items1. waiting item"
  shows "older w w' \<and> settled_outcome E (created_keys (tl directories)) items (errors_Join [Some e, cleanup, c]) w'"
proof -
  have inv: "stage_of E n w1 items2 leak" "same_nodes w w1" "map pi_published items2 = map pi_published items1"
    using removePublicationArtifacts_inv [OF clean stage] waiting by (simp_all add: waiting_def)
  have "\<forall>item \<in> set items2. \<not> pi_published item"
    using published_same [OF inv(3), of Not] waiting by (simp add: waiting_def)
  moreover have but: "entries_but (created_keys (tl directories)) w1 w'"
    by (rule entries_but_mono [OF closeStableDirectories_but [OF close]]) simp
  ultimately have "restored_to E (created_keys (tl directories)) w'" by (rule restored_unpublished [OF inv(1)])
  moreover have "older w w'" using but inv(2) unfolding entries_but_def by (metis older_nodes same_nodes_trans)
  ultimately show ?thesis unfolding settled_outcome_def by (auto simp: errors_Join_None)
qed

lemma publish_opened_outcome:
  assumes run: "publish_opened h directories items w = (r, w')" and start: "publishable w directories items"
    and quiet: "quiet_hook h"
  shows "older w w' \<and> settled_outcome (entry_of w) (created_keys (tl directories)) items r w'"
proof -
  let ?E = "entry_of w" and ?n = "w_next w"
  obtain f items1 w1 where stage: "stage_items h items w = (f, items1, w1)" by (metis prod.exhaust)
  from start have fresh: "\<forall>item \<in> set items. fresh_item ?E ?n w item" "distinct (map target_key items)"
    "\<forall>item \<in> set items. \<not> artifact_name (pi_basename item)" by (simp_all add: publishable_def)
  have "items_overlay ?E items = []" using fresh(1) fresh_ok by (auto simp: items_overlay_def)
  with fresh fresh_ok have start_stage: "stage_of ?E ?n w items []"
    by (auto simp: stage_of_def overlaid_def leak_ok_def)
  from stage_items_inv [OF stage overlaid_start order_refl fresh(1)] obtain leak
    where over: "overlaid ?E (items_overlay ?E items1 @ leak) w1" and leak: "leak_ok ?E leak" and old1: "older w w1"
      and items1: "\<forall>item \<in> set items1. item_ok ?E ?n w1 item \<and> waiting item" and req1: "map request_of items1 = map request_of items"
      and staged: "f = None \<longrightarrow> leak = [] \<and> (\<forall>item \<in> set items1. pi_staged_exists item)"
    by auto
  have stage1: "stage_of ?E ?n w1 items1 leak"
    by (rule stage_of_requests [OF start_stage req1]) (use over leak items1 in simp_all)
  show ?thesis
  proof (cases f)
    case (Some e)
    obtain cleanup items2 w2 where clean: "removePublicationArtifacts h items1 w1 = (cleanup, items2, w2)" by (metis prod.exhaust)
    obtain c w3 where close: "closeStableDirectories h directories (cleanup = None) w2 = (c, w3)" by (metis prod.exhaust)
    have result: "r = errors_Join [Some e, cleanup, c]" "w' = w3"
      using run stage Some clean close by (simp_all add: publish_opened_def)
    from staging_failed_outcome [OF clean close stage1] items1 older_trans [OF old1] show ?thesis unfolding result by blast
  next
    case None
    with staged have publication_ready: "leak = []" "\<forall>item \<in> set items1. pi_staged_exists item" by simp_all
    obtain f2 items2 w2 where publish: "publish_items h directories 0 items1 w1 = (f2, items2, w2)" by (metis prod.exhaust)
    have "distinct (map target_key items1)" using stage1 by (simp add: stage_of_def)
    from publish_items_inv [OF publish quiet, of ?E "[]" ?n] over publication_ready this items1
    have items2: "overlaid ?E (items_overlay ?E items2 @ []) w2" "same_nodes w1 w2" "map plan_of items2 = map plan_of items1"
      "\<forall>item \<in> set items2. item_ok ?E ?n w2 item \<and> recoverable item" "f2 = None \<longrightarrow> (\<forall>item \<in> set items2. pi_published item)"
      by (simp_all add: clear_of_def)
    have req2: "map request_of items2 = map request_of items" using requests_plan [OF items2(3)] req1 by simp
    have stage2: "stage_of ?E ?n w2 items2 []"
      by (rule stage_of_requests [OF start_stage req2 items2(1)]) (use items2(4) in \<open>simp_all add: leak_ok_def\<close>)
    have "older w2 w' \<and> settled_outcome ?E (created_keys (tl directories)) items r w'"
    proof (cases f2)
      case (Some e)
      with run stage None publish have "rollbackStableTransaction h items2 directories e w2 = (r, w')"
        by (simp add: publish_opened_def)
      from rollback_outcome [OF this stage2 _ req2] items2(4) show ?thesis by blast
    next
      case published: None
      with run stage None publish have "finish_publication h directories items2 w2 = (r, w')" by (simp add: publish_opened_def)
      from finish_outcome [OF this stage2 _ req2] items2(4,5) published show ?thesis by blast
    qed
    with older_trans [OF older_trans [OF old1 older_nodes [OF items2(2)]]] show ?thesis by blast
  qed
qed

end
