(* ===== verification/SyncParents.thy ===== *)
theory SyncParents
  imports SyncAtomic
begin

text \<open>
  Opening the parents of all destinations (\<open>openStablePublicationParents\<close> of \<open>internal/coresync/sync.go\<close>):
  on a directory tree, destinations with different paths have different directory entries, no entry of the
  start is touched, and entries are added only for directories on the way to destinations; what closing the
  directories leaves of them is still reached.
\<close>

section \<open>Directory trees\<close>

text \<open>Inodes are allocated, entries stand in directories, and a directory has at most one entry, the root none.\<close>

definition tree_at :: "world \<Rightarrow> inode \<Rightarrow> bool" where
  "tree_at w root = (node_at w root = Some Directory \<and> (\<forall>i. node_at w i \<noteq> None \<longrightarrow> i < w_next w) \<and>
     (\<forall>d name i. entry_at w d name = Some i \<longrightarrow> node_at w d = Some Directory \<and> node_at w i \<noteq> None \<and> i \<noteq> root) \<and>
     (\<forall>d name d' name' i. entry_at w d name = Some i \<longrightarrow> entry_at w d' name' = Some i \<longrightarrow>
        node_at w i = Some Directory \<longrightarrow> d = d' \<and> name = name'))"

lemma tree_root: "tree_at w root \<Longrightarrow> node_at w root = Some Directory"
  by (simp add: tree_at_def)

lemma tree_alive: "tree_at w root \<Longrightarrow> node_at w i = Some n \<Longrightarrow> i < w_next w"
  by (simp add: tree_at_def)

lemma tree_entry:
  "tree_at w root \<Longrightarrow> entry_at w d name = Some i \<Longrightarrow> node_at w d = Some Directory \<and> node_at w i \<noteq> None \<and> i \<noteq> root"
  unfolding tree_at_def by blast

lemma tree_unique:
  "tree_at w root \<Longrightarrow> entry_at w d name = Some i \<Longrightarrow> entry_at w d' name' = Some i \<Longrightarrow>
     node_at w i = Some Directory \<Longrightarrow> d = d' \<and> name = name'"
  unfolding tree_at_def by blast

lemma same_disk_entry_at [disk_simps]: "same_disk w w' \<Longrightarrow> entry_at w' d n = entry_at w d n"
  by (simp add: same_disk_def entry_at_def)

lemma tree_same_disk: "same_disk w w' \<Longrightarrow> tree_at w' root = tree_at w root"
  by (simp add: tree_at_def disk_simps same_disk_next)

text \<open>A directory of the tree is reached on one path.\<close>

lemma direct_unique:
  assumes "tree_at w root" and "direct w root cs = Some d" and "direct w root cs' = Some d" and "node_at w d = Some Directory"
  shows "cs = cs'"
  using assms(2-4)
proof (induction cs arbitrary: cs' d rule: rev_induct)
  case Nil
  then show ?case
    using tree_entry [OF assms(1)] by (cases cs' rule: rev_cases) (auto simp: direct_snoc split: option.splits if_splits)
next
  case (snoc c cs)
  then obtain e where e: "direct w root cs = Some e" "node_at w e = Some Directory" "entry_at w e c = Some d"
    by (auto simp: direct_snoc split: option.splits if_splits)
  show ?case
  proof (cases cs' rule: rev_cases)
    case Nil
    with snoc.prems(2) e(3) tree_entry [OF assms(1) e(3)] show ?thesis by simp
  next
    case (snoc cs'' c')
    with \<open>direct w root cs' = Some d\<close> obtain e' where e': "direct w root cs'' = Some e'"
      "entry_at w e' c' = Some d"
      by (auto simp: direct_snoc split: option.splits if_splits)
    have "e = e'" "c = c'" using tree_unique [OF assms(1) e(3) e'(2) snoc.prems(3)] by simp_all
    with snoc.IH [OF e(1) _ e(2)] e'(1) snoc show ?thesis by simp
  qed
qed

section \<open>Adding directories\<close>

definition dirs_added :: "world \<Rightarrow> world \<Rightarrow> bool" where
  "dirs_added w w' = (older w w' \<and> (\<forall>d name i. entry_at w d name = Some i \<longrightarrow> entry_at w' d name = Some i) \<and>
     (\<forall>d name i. entry_at w d name = None \<longrightarrow> entry_at w' d name = Some i \<longrightarrow> node_at w' i = Some Directory \<and> i < w_next w'))"

lemma dirs_added_disk: "same_disk w w' \<Longrightarrow> dirs_added w w'"
  by (simp add: dirs_added_def older_disk disk_simps)

lemma dirs_added_entry: "dirs_added w w' \<Longrightarrow> entry_at w d name = Some i \<Longrightarrow> entry_at w' d name = Some i"
  unfolding dirs_added_def by blast

lemma dirs_added_older: "dirs_added w w' \<Longrightarrow> older w w'"
  unfolding dirs_added_def by blast

lemma dirs_added_new:
  "dirs_added w w' \<Longrightarrow> entry_at w d name = None \<Longrightarrow> entry_at w' d name = Some i \<Longrightarrow>
     node_at w' i = Some Directory \<and> i < w_next w'"
  unfolding dirs_added_def by blast

lemma older_node: "older w w' \<Longrightarrow> i < w_next w \<Longrightarrow> node_at w' i = node_at w i"
  by (simp add: older_def)

lemma dirs_added_trans:
  assumes "dirs_added w w'" and "dirs_added w' w''"
  shows "dirs_added w w''"
  unfolding dirs_added_def
proof (intro conjI allI impI)
  show "older w w''" using assms by (metis dirs_added_older older_trans)
next
  fix d name i
  assume "entry_at w d name = Some i"
  with assms show "entry_at w'' d name = Some i" by (metis dirs_added_entry)
next
  fix d name i
  assume new: "entry_at w d name = None" "entry_at w'' d name = Some i"
  have old: "older w' w''" by (rule dirs_added_older [OF assms(2)])
  show "node_at w'' i = Some Directory" "i < w_next w''"
  proof (atomize (full), cases "entry_at w' d name")
    case None
    from dirs_added_new [OF assms(2) this new(2)] show "node_at w'' i = Some Directory \<and> i < w_next w''" .
  next
    case (Some j)
    with dirs_added_entry [OF assms(2)] new(2) have "j = i" by force
    with dirs_added_new [OF assms(1) new(1)] Some old show "node_at w'' i = Some Directory \<and> i < w_next w''"
      by (auto simp: older_def)
  qed
qed

lemma direct_added:
  assumes "dirs_added w w'" and "tree_at w root"
  shows "direct w d cs = Some i \<Longrightarrow> direct w' d cs = Some i"
proof (induction cs arbitrary: d)
  case (Cons c cs)
  then obtain j where j: "node_at w d = Some Directory" "entry_at w d c = Some j" "direct w j cs = Some i"
    by (auto split: if_splits option.splits)
  with older_node [OF dirs_added_older [OF assms(1)] tree_alive [OF assms(2) j(1)]] dirs_added_entry [OF assms(1) j(2)]
  show ?case by (simp add: Cons.IH)
qed simp

text \<open>Creating a directory where there is no entry.\<close>

lemma add_directory:
  assumes tree: "tree_at w root" and "node_at w d = Some Directory" and "entry_at w d name = None"
  shows "dirs_added w (add_node d name Directory w)" "tree_at (add_node d name Directory w) root"
    "entry_at (add_node d name Directory w) d name = Some (w_next w)"
    "node_at (add_node d name Directory w) (w_next w) = Some Directory"
proof -
  let ?w = "add_node d name Directory w"
  have new: "node_at w (w_next w) = None" using tree by (metis less_irrefl not_None_eq tree_alive)
  have entry: "entry_at ?w d' name' = (if d' = d \<and> name' = name then Some (w_next w) else entry_at w d' name')" for d' name'
    by (simp add: add_node_def entry_at_def map_simps)
  have node: "node_at ?w i = (if i = w_next w then Some Directory else node_at w i)" for i
    by (simp add: add_node_def node_at_def map_simps)
  have next_: "w_next ?w = Suc (w_next w)" by (simp add: add_node_def)
  show "entry_at ?w d name = Some (w_next w)" "node_at ?w (w_next w) = Some Directory"
    by (simp_all add: entry node)
  show "dirs_added w ?w"
    unfolding dirs_added_def older_def using assms(3) by (auto simp: entry node next_)
  have old: "entry_at w d' name' \<noteq> Some (w_next w)" for d' name'
    using tree_entry [OF tree, of d' name' "w_next w"] new by auto
  have "node_at w root = Some Directory" by (rule tree_root [OF tree])
  then have root: "root \<noteq> w_next w" using new by auto
  show "tree_at ?w root"
    unfolding tree_at_def entry node next_
    using tree_root [OF tree] tree_alive [OF tree] tree_entry [OF tree] tree_unique [OF tree] old root assms(2)
    by (auto simp: less_Suc_eq split: if_splits; metis)
qed

section \<open>Opening one component\<close>

text \<open>What a step may leave when it fails: the tree with directories added.\<close>

definition grown :: "world \<Rightarrow> inode \<Rightarrow> world \<Rightarrow> bool" where
  "grown w root w' = (dirs_added w w' \<and> tree_at w' root)"

lemma grown_disk: "tree_at w root \<Longrightarrow> same_disk w w' \<Longrightarrow> grown w root w'"
  by (simp add: grown_def dirs_added_disk tree_same_disk)

lemma grown_trans: "grown w root w' \<Longrightarrow> grown w' root w'' \<Longrightarrow> grown w root w''"
  using dirs_added_trans by (auto simp: grown_def)

lemma grown_then_disk: "grown w root w' \<Longrightarrow> same_disk w' w'' \<Longrightarrow> grown w root w''"
  by (rule grown_trans [OF _ grown_disk]) (simp_all add: grown_def)

text \<open>The same when at most one entry is added.\<close>

definition grown_at :: "inode \<Rightarrow> string \<Rightarrow> world \<Rightarrow> inode \<Rightarrow> world \<Rightarrow> bool" where
  "grown_at d name w root w' = (grown w root w' \<and> (\<forall>k. k \<noteq> (d, name) \<longrightarrow> entry_of w' k = entry_of w k))"

lemma grown_at_disk: "tree_at w root \<Longrightarrow> same_disk w w' \<Longrightarrow> grown_at d name w root w'"
  by (simp add: grown_at_def grown_disk disk_simps)

lemma grown_at_trans: "grown_at d name w root w' \<Longrightarrow> grown_at d name w' root w'' \<Longrightarrow> grown_at d name w root w''"
  unfolding grown_at_def using grown_trans by metis

lemma grown_at_then_disk: "grown_at d name w root w' \<Longrightarrow> same_disk w' w'' \<Longrightarrow> grown_at d name w root w''"
  by (rule grown_at_trans [OF _ grown_at_disk]) (simp_all add: grown_at_def grown_def)

lemma Mkdir_success:
  "Mkdir h d name w = (Inr u, w') \<Longrightarrow> node_at w d = Some Directory \<and> entry_at w d name = None \<and>
     w' = add_node d name Directory (w\<lparr>w_tick := Suc (w_tick w)\<rparr>)"
  unfolding Mkdir_def by (drule os_op_success) (auto split: if_splits)

lemma Mkdir_failure: "Mkdir h d name w = (Inl e, w') \<Longrightarrow> same_disk w w'"
  unfolding Mkdir_def by (drule os_op_failure) simp

lemma OpenRoot_success:
  assumes "OpenRoot h d name w = (Inr j, w')" and "node_at w d = Some Directory"
    and "entry_at w d name = Some i" and "node_at w i = Some Directory"
  shows "j = i \<and> same_disk w w'"
  using os_op_success [OF assms(1) [unfolded OpenRoot_def]] reads_outcome [OF reads_ops(7) assms(1)] assms(2-4)
  by (auto simp: err_simps follow_def split: if_splits)

lemma tree_tick [simp]: "tree_at (w\<lparr>w_tick := t\<rparr>) root = tree_at w root"
  by (rule tree_same_disk) simp

lemma Mkdir_grown:
  assumes "tree_at w root"
  shows "wlp (Mkdir h d name) (\<lambda>_ w'. grown_at d name w root w' \<and> entry_at w d name = None \<and>
      (\<exists>i. entry_at w' d name = Some i \<and> node_at w' i = Some Directory)) (\<lambda>_. grown_at d name w root) w"
proof (rule wlpI)
  fix u w'
  assume "Mkdir h d name w = (Inr u, w')"
  from Mkdir_success [OF this] have made: "node_at w d = Some Directory" "entry_at w d name = None"
    and w': "w' = add_node d name Directory (w\<lparr>w_tick := Suc (w_tick w)\<rparr>)" by simp_all
  let ?w = "w\<lparr>w_tick := Suc (w_tick w)\<rparr>"
  have pre: "tree_at ?w root" "node_at ?w d = Some Directory" "entry_at ?w d name = None"
    using assms made by simp_all
  note add = add_directory [OF pre]
  have "grown_at d name w root w'"
    unfolding w' grown_at_def grown_def using add(2) dirs_added_trans [OF dirs_added_disk add(1), of w]
    by (simp add: add_node_def entry_of_def map_simps)
  with add(3,4) made show "grown_at d name w root w' \<and> entry_at w d name = None \<and>
      (\<exists>i. entry_at w' d name = Some i \<and> node_at w' i = Some Directory)" unfolding w' by blast
next
  fix e w'
  assume "Mkdir h d name w = (Inl e, w')"
  from grown_at_disk [OF assms Mkdir_failure [OF this]] show "grown_at d name w root w'" .
qed

text \<open>The outcome of opening a component of a tree.\<close>

definition component_open :: "world \<Rightarrow> inode \<Rightarrow> inode \<Rightarrow> string \<Rightarrow> stable_directory \<Rightarrow> world \<Rightarrow> bool" where
  "component_open w root parent name d w' = (grown_at parent name w root w' \<and> sd_parent d = parent \<and> sd_name d = name \<and>
     entry_at w' parent name = Some (sd_root d) \<and> node_at w' (sd_root d) = Some Directory \<and>
     (sd_created d \<longrightarrow> entry_at w parent name = None))"

lemma open_found_component:
  assumes "grown_at parent name w root w1" and "node_at w1 parent = Some Directory" and "component name"
    and entry: "entry_at w1 parent name = Some i" "node_at w1 i = Some n" "info = info_of i n"
    and created: "created \<longrightarrow> entry_at w parent name = None"
  shows "wlp (open_directory h parent name rel info created) (component_open w root parent name) (\<lambda>_. grown_at parent name w root) w1"
    (is "wlp ?open ?Q ?F w1")
proof -
  have "wlp ?open ?Q ?F w1" if dir: "n = Directory"
  proof (rule wlpI)
    fix e w'
    assume run: "?open w1 = (Inl e, w')"
    have "reads ?open" unfolding open_directory_def by (intro reads_intros)
    from reads_outcome [OF this run] show "grown_at parent name w root w'" by (rule grown_at_then_disk [OF assms(1)])
  next
    fix d w'
    assume run: "?open w1 = (Inr d, w')"
    have "reads ?open" unfolding open_directory_def by (intro reads_intros)
    from reads_outcome [OF this run] have disk: "same_disk w1 w'" .
    from run obtain j w2 where "OpenRoot h parent name w1 = (Inr j, w2)" and d: "sd_root d = j" "sd_parent d = parent"
      "sd_name d = name" "sd_created d = created"
      unfolding open_directory_def by (auto simp: io_success split: if_splits)
    from OpenRoot_success [OF this(1) assms(2) entry(1)] entry(2) dir have "j = i" by simp
    with d entry dir created grown_at_then_disk [OF assms(1) disk] show "component_open w root parent name d w'"
      by (simp add: component_open_def disk_simps [OF disk])
  qed
  moreover have "n = Directory" if "fi_kind info \<noteq> KindSymlink" "\<not> fi_kind info \<noteq> KindDirectory"
    using that entry(3) by (cases n) (auto simp: kind_of_def)
  ultimately show ?thesis using assms(1) unfolding open_directory_def by (auto simp: wlp_fail)
qed

text \<open>What finding a directory gives.\<close>

definition directory_found :: "world \<Rightarrow> inode \<Rightarrow> inode \<Rightarrow> string \<Rightarrow> file_info \<times> bool \<Rightarrow> world \<Rightarrow> bool" where
  "directory_found w root parent name = (\<lambda>(info, created) w'. grown_at parent name w root w' \<and> node_at w' parent = Some Directory \<and>
     (\<exists>i n. entry_at w' parent name = Some i \<and> node_at w' i = Some n \<and> info = info_of i n) \<and>
     (created \<longrightarrow> entry_at w parent name = None))"

lemma Lstat_found:
  assumes "grown_at parent name w root w1" and "node_at w1 parent = Some Directory" and "component name"
    and "created \<longrightarrow> entry_at w parent name = None"
  shows "wlp (Lstat h parent name) (\<lambda>info. directory_found w root parent name (info, created)) (\<lambda>_. grown_at parent name w root) w1"
proof (rule wlpI)
  fix info w2
  assume "Lstat h parent name w1 = (Inr info, w2)"
  from Lstat_name_success [OF this assms(3,2)] obtain i n where
    i: "entry_at w1 parent name = Some i" "node_at w1 i = Some n" "info = info_of i n" and disk: "same_disk w1 w2" by blast
  with grown_at_then_disk [OF assms(1) disk] assms(2,4) show "directory_found w root parent name (info, created) w2"
    by (simp add: directory_found_def disk_simps [OF disk])
next
  fix e w2
  assume "Lstat h parent name w1 = (Inl e, w2)"
  from reads_outcome [OF reads_ops(1) this] show "grown_at parent name w root w2" by (rule grown_at_then_disk [OF assms(1)])
qed

lemma find_directory_found:
  assumes tree: "tree_at w root" and dir: "node_at w parent = Some Directory" and name: "component name"
  shows "wlp (find_directory h parent name) (directory_found w root parent name) (\<lambda>_. grown_at parent name w root) w"
proof -
  have same: "grown_at parent name w root w" by (rule grown_at_disk [OF tree]) simp
  have make: "wlp (io_bind (Mkdir h parent name) (\<lambda>_. io_bind (Lstat h parent name) (\<lambda>info. io_return (info, True))))
      (directory_found w root parent name) (\<lambda>_. grown_at parent name w root) w1" if g: "grown_at parent name w root w1" "node_at w1 parent = Some Directory"
      "entry_at w1 parent name = entry_at w parent name" for w1
  proof -
    have tree1: "tree_at w1 root" using g(1) by (simp add: grown_at_def grown_def)
    show ?thesis
    proof (subst wlp_bind, rule wlp_weaken [OF Mkdir_grown [OF tree1]])
      fix w2
      assume "grown_at parent name w1 root w2 \<and> entry_at w1 parent name = None \<and>
        (\<exists>i. entry_at w2 parent name = Some i \<and> node_at w2 i = Some Directory)"
      then have made: "grown_at parent name w root w2" "entry_at w parent name = None" "node_at w2 parent = Some Directory"
        using g grown_at_trans tree_entry [of w2 root parent name] by (auto simp: grown_at_def grown_def)
      show "wlp (io_bind (Lstat h parent name) (\<lambda>info. io_return (info, True))) (directory_found w root parent name)
          (\<lambda>_. grown_at parent name w root) w2"
        by (subst wlp_bind, rule wlp_weaken [OF Lstat_found [OF made(1,3) name, where created = True]])
          (simp_all add: wlp_return made(2))
    qed (rule grown_at_trans [OF g(1)])
  qed
  show ?thesis
    unfolding find_directory_def
  proof (subst wlp_bind, subst wlp_try, rule wlpI)
    fix info w1
    assume run: "Lstat h parent name w = (Inr info, w1)"
    from wlp_success [OF Lstat_found [OF same dir name, where created = False] run]
    show "wlp (case Inr info of Inr info \<Rightarrow> io_return (info, False) | Inl e \<Rightarrow> if e = OsError NotExist
           then io_bind (Mkdir h parent name) (\<lambda>_. io_bind (Lstat h parent name) (\<lambda>info. io_return (info, True)))
           else io_fail e) (directory_found w root parent name) (\<lambda>_. grown_at parent name w root) w1"
      by (simp add: wlp_return)
  next
    fix e w1
    assume "Lstat h parent name w = (Inl e, w1)"
    from reads_outcome [OF reads_ops(1) this] have disk: "same_disk w w1" .
    with grown_at_then_disk [OF same disk] dir show "wlp (case Inl e of Inr info \<Rightarrow> io_return (info, False)
         | Inl e \<Rightarrow> if e = OsError NotExist
           then io_bind (Mkdir h parent name) (\<lambda>_. io_bind (Lstat h parent name) (\<lambda>info. io_return (info, True)))
           else io_fail e) (directory_found w root parent name) (\<lambda>_. grown_at parent name w root) w1"
      by (simp add: wlp_fail make disk_simps [OF disk])
  qed
qed

lemma openStableDirectoryComponent_open:
  assumes "tree_at w root" and "node_at w parent = Some Directory" and "component name"
  shows "wlp (openStableDirectoryComponent h parent name rel) (component_open w root parent name) (\<lambda>_. grown_at parent name w root) w"
  unfolding openStableDirectoryComponent_def
  by (subst wlp_bind, rule wlp_weaken [OF find_directory_found [OF assms]])
    (auto simp: directory_found_def intro: open_found_component assms(3))

section \<open>Opening all parents\<close>

definition opened_dir :: "world \<Rightarrow> inode \<Rightarrow> string list \<Rightarrow> stable_directory \<Rightarrow> bool" where
  "opened_dir w root cs d = (direct w root cs = Some (sd_root d) \<and> node_at w (sd_root d) = Some Directory)"

text \<open>The entry of a proper ancestor of one of the paths.\<close>

definition ancestor_key :: "world \<Rightarrow> inode \<Rightarrow> string list \<Rightarrow> entry_key \<Rightarrow> bool" where
  "ancestor_key w root paths k = (node_at w (fst k) = Some Directory \<and>
     (\<exists>cs p. p \<in> set paths \<and> strict_prefix (cs @ [snd k]) (split_on slash p) \<and> direct w root cs = Some (fst k)))"

text \<open>Entries were added only for ancestors of the paths.\<close>

definition only_ancestors :: "world \<Rightarrow> inode \<Rightarrow> string list \<Rightarrow> world \<Rightarrow> bool" where
  "only_ancestors w root paths w' = (\<forall>k. entry_of w k = None \<longrightarrow> entry_of w' k \<noteq> None \<longrightarrow> ancestor_key w' root paths k)"

text \<open>Opened so far: each path in the map has its directory, and what was created is an ancestor and was missing.\<close>

definition opened_ok :: "world \<Rightarrow> inode \<Rightarrow> string list \<Rightarrow> open_directories \<Rightarrow> world \<Rightarrow> bool" where
  "opened_ok w0 root paths acc w = (grown w0 root w \<and> only_ancestors w0 root paths w \<and>
     (\<forall>path d. map_get (snd acc) path = Some d \<longrightarrow> path \<noteq> dot \<longrightarrow> opened_dir w root (split_on slash path) d) \<and>
     (\<forall>d \<in> set (fst acc). sd_created d \<longrightarrow>
        ancestor_key w root paths (sd_parent d, sd_name d) \<and> entry_at w0 (sd_parent d) (sd_name d) = None))"

lemma grown_node: "grown w root w' \<Longrightarrow> tree_at w root \<Longrightarrow> node_at w i = Some n \<Longrightarrow> node_at w' i = Some n"
  unfolding grown_def by (metis dirs_added_older older_node tree_alive)

lemma opened_dir_grown: "opened_dir w root cs d \<Longrightarrow> tree_at w root \<Longrightarrow> grown w root w' \<Longrightarrow> opened_dir w' root cs d"
  using grown_node [of w root w'] direct_added [of w w' root root cs] by (auto simp: opened_dir_def grown_def)

lemma ancestor_key_grown:
  "ancestor_key w root paths k \<Longrightarrow> tree_at w root \<Longrightarrow> grown w root w' \<Longrightarrow> ancestor_key w' root paths k"
  using grown_node [of w root w'] direct_added [of w w' root root] unfolding ancestor_key_def grown_def by metis

lemma opened_ok_tree: "opened_ok w0 root paths acc w \<Longrightarrow> tree_at w root"
  by (simp add: opened_ok_def grown_def)

lemma opened_ok_lookup:
  "opened_ok w0 root paths acc w \<Longrightarrow> map_get (snd acc) path = Some d \<Longrightarrow> path \<noteq> dot \<Longrightarrow>
     opened_dir w root (split_on slash path) d"
  unfolding opened_ok_def by blast

lemma only_ancestors_disk: "same_disk w w' \<Longrightarrow> only_ancestors w root paths w'"
  by (simp add: only_ancestors_def disk_simps)

lemma only_ancestors_at:
  "grown_at d name w root w' \<Longrightarrow> ancestor_key w' root paths (d, name) \<Longrightarrow> only_ancestors w root paths w'"
  unfolding grown_at_def only_ancestors_def by metis

lemma only_ancestors_trans:
  assumes "only_ancestors w root paths w'" and "only_ancestors w' root paths w''" and "tree_at w' root" and "grown w' root w''"
  shows "only_ancestors w root paths w''"
  using assms ancestor_key_grown [OF _ assms(3,4)] unfolding only_ancestors_def by metis

lemma opened_ok_grown:
  assumes "opened_ok w0 root paths acc w" and "grown w root w'" and "only_ancestors w root paths w'"
  shows "opened_ok w0 root paths acc w'"
proof -
  have tree: "tree_at w root" by (rule opened_ok_tree [OF assms(1)])
  have "grown w0 root w'" using assms grown_trans by (simp add: opened_ok_def) blast
  moreover have "only_ancestors w0 root paths w'"
    using assms(1) only_ancestors_trans [OF _ assms(3) tree assms(2)] by (simp add: opened_ok_def)
  ultimately show ?thesis
    using assms(1) opened_dir_grown [OF _ tree assms(2)] ancestor_key_grown [OF _ tree assms(2)]
    unfolding opened_ok_def by blast
qed

lemma opened_ok_disk: "opened_ok w0 root paths acc w \<Longrightarrow> same_disk w w' \<Longrightarrow> opened_ok w0 root paths acc w'"
  by (rule opened_ok_grown [OF _ grown_disk only_ancestors_disk]) (simp_all add: opened_ok_tree)

lemma opened_ok_add:
  assumes ok: "opened_ok w0 root paths acc w" and opened: "component_open w root parent name d w'"
    and parent: "direct w root cs = Some parent" "node_at w parent = Some Directory"
    and path: "split_on slash path = cs @ [name]" "p \<in> set paths" "strict_prefix (cs @ [name]) (split_on slash p)"
  shows "opened_ok w0 root paths (fst acc @ [d], map_put path d (snd acc)) w' \<and> opened_dir w' root (cs @ [name]) d"
proof -
  from opened have grown_at: "grown_at parent name w root w'" and d: "sd_parent d = parent" "sd_name d = name"
    "entry_at w' parent name = Some (sd_root d)" "node_at w' (sd_root d) = Some Directory"
    "sd_created d \<longrightarrow> entry_at w parent name = None" by (simp_all add: component_open_def)
  from grown_at have grown: "grown w root w'" by (simp add: grown_at_def)
  note tree = opened_ok_tree [OF ok]
  have parent': "direct w' root cs = Some parent" "node_at w' parent = Some Directory"
    using direct_added [of w w' root root cs] grown_node [OF grown tree] grown tree parent by (simp_all add: grown_def)
  have dir: "opened_dir w' root (cs @ [name]) d" using parent' d by (simp add: opened_dir_def direct_snoc)
  have missing: "entry_at w0 parent name = None" if "sd_created d"
  proof (rule ccontr)
    assume "entry_at w0 parent name \<noteq> None"
    then obtain i where "entry_at w0 parent name = Some i" by auto
    with ok have "entry_at w parent name = Some i" by (auto simp: opened_ok_def grown_def dest: dirs_added_entry)
    with d(5) that show False by simp
  qed
  have key: "ancestor_key w' root paths (parent, name)" using parent' path(2,3) by (auto simp: ancestor_key_def)
  with opened_ok_grown [OF ok grown only_ancestors_at [OF grown_at key]] dir missing d path(1) show ?thesis
    by (auto simp: opened_ok_def map_simps)
qed

lemma component_not_dot: "list_all component cs \<Longrightarrow> cs \<noteq> [] \<Longrightarrow> join_with slash cs \<noteq> dot"
  using plain_join [of cs] by (auto simp: plain_path_iff)

lemma split_components: "list_all component cs \<Longrightarrow> cs \<noteq> [] \<Longrightarrow> split_on slash (join_with slash cs) = cs"
  by (simp add: split_join_on list_all_iff component_slash)

lemma open_path_ok:
  assumes "open_path h current (join_with slash cs) parts acc w = ((r, acc'), w')"
    and "opened_ok w0 root paths acc w" and "opened_dir w root cs current" and "list_all component (cs @ parts)"
    and "p \<in> set paths" and "strict_prefix (cs @ parts) (split_on slash p)"
  shows "opened_ok w0 root paths acc' w' \<and> grown w root w' \<and> (\<forall>d. r = Inr d \<longrightarrow> opened_dir w' root (cs @ parts) d)"
  using assms
proof (induction parts arbitrary: cs current acc w)
  case Nil
  then show ?case by (auto intro: grown_disk opened_ok_tree)
next
  case (Cons part parts)
  let ?path = "join_with slash (cs @ [part])"
  have comps: "list_all component (cs @ [part])" using Cons.prems(4) by simp
  have join: "Join [join_with slash cs, part] = ?path" by (rule Join_components [OF comps])
  have path: "?path \<noteq> dot" "split_on slash ?path = cs @ [part]"
    using component_not_dot [OF comps] split_components [OF comps] by simp_all
  have below: "strict_prefix (cs @ [part]) (split_on slash p)"
    using Cons.prems(6) by (auto simp: strict_prefix_def prefix_def)
  note tree = opened_ok_tree [OF Cons.prems(2)]
  show ?case
  proof (cases "map_get (snd acc) ?path")
    case (Some existing)
    then have "open_path h existing ?path parts acc w = ((r, acc'), w')"
      using Cons.prems(1) by (simp add: join Let_def)
    moreover have "opened_dir w root (cs @ [part]) existing"
      using opened_ok_lookup [OF Cons.prems(2) Some path(1)] path(2) by simp
    ultimately show ?thesis using Cons.IH [of existing "cs @ [part]" acc w] Cons.prems(2,4-6) by simp
  next
    case None
    obtain r1 w1 where step: "openStableDirectoryComponent h (sd_root current) part ?path w = (r1, w1)" by (metis prod.exhaust)
    have at: "direct w root cs = Some (sd_root current)" "node_at w (sd_root current) = Some Directory"
      using Cons.prems(3) by (simp_all add: opened_dir_def)
    have "component part" using comps by simp
    from wlp_outcome [OF openStableDirectoryComponent_open [OF tree at(2) this] step]
    have out: "case r1 of Inr d \<Rightarrow> component_open w root (sd_root current) part d w1
      | Inl e \<Rightarrow> grown_at (sd_root current) part w root w1" .
    show ?thesis
    proof (cases r1)
      case (Inl e)
      with out have at1: "grown_at (sd_root current) part w root w1" by simp
      then have "grown w root w1" by (simp add: grown_at_def)
      moreover have "ancestor_key w root paths (sd_root current, part)"
        using at below Cons.prems(5) by (auto simp: ancestor_key_def)
      with only_ancestors_at [OF at1] ancestor_key_grown tree calculation have "only_ancestors w root paths w1" by blast
      moreover have "r = Inl e" "acc' = acc" "w' = w1" using Cons.prems(1) None step Inl by (simp_all add: join Let_def)
      ultimately show ?thesis using opened_ok_grown [OF Cons.prems(2)] by simp
    next
      case (Inr d)
      with out have opened: "component_open w root (sd_root current) part d w1" by simp
      from opened_ok_add [OF Cons.prems(2) opened at path(2) Cons.prems(5) below]
      have next_: "opened_ok w0 root paths (fst acc @ [d], map_put ?path d (snd acc)) w1" "opened_dir w1 root (cs @ [part]) d" by simp_all
      have "open_path h d ?path parts (fst acc @ [d], map_put ?path d (snd acc)) w1 = ((r, acc'), w')"
        using Cons.prems(1) None step Inr by (simp add: join Let_def)
      from Cons.IH [OF this next_] Cons.prems(4-6) opened show ?thesis
        by (auto simp: component_open_def grown_at_def intro: grown_trans)
    qed
  qed
qed

text \<open>An item with its parent directory and its name in it.\<close>

definition given_place :: "world \<Rightarrow> inode \<Rightarrow> publication_item \<Rightarrow> publication_item \<Rightarrow> bool" where
  "given_place w root item item' = (\<exists>parent. item' = item\<lparr>pi_parent := parent, pi_basename := last (split_on slash (pi_path item))\<rparr> \<and>
     direct w root (butlast (split_on slash (pi_path item))) = Some parent \<and> node_at w parent = Some Directory)"

lemma placed_grown: "given_place w root item item' \<Longrightarrow> tree_at w root \<Longrightarrow> grown w root w' \<Longrightarrow> given_place w' root item item'"
  using grown_node [of w root w'] direct_added [of w w' root root] unfolding given_place_def grown_def by metis

lemma Dir_path:
  assumes "plain_path p"
  shows "Dir p = (if butlast (split_on slash p) = [] then dot else join_with slash (butlast (split_on slash p)))"
    "Base p = last (split_on slash p)" "list_all component (butlast (split_on slash p))"
    "strict_prefix (butlast (split_on slash p)) (split_on slash p)"
proof -
  obtain cs where cs: "cs \<noteq> []" "list_all component cs" "p = join_with slash cs" "split_on slash p = cs"
    by (rule plain_components [OF assms])
  show "Dir p = (if butlast (split_on slash p) = [] then dot else join_with slash (butlast (split_on slash p)))"
    using Dir_components [OF cs(1,2)] cs by simp
  show "Base p = last (split_on slash p)" using Base_components [OF cs(1,2)] cs by simp
  show "list_all component (butlast (split_on slash p))" using cs(2,4) by (auto simp: list_all_iff dest: in_set_butlastD)
  show "strict_prefix (butlast (split_on slash p)) (split_on slash p)"
    using cs(1,4) by (cases cs rule: rev_cases) (simp_all add: strict_prefix_def)
qed

lemma open_parent_ok:
  assumes run: "(if Dir p = dot then ((Inr (root_directory root info), acc), w)
      else open_path h (root_directory root info) [] (split_on slash (Dir p)) acc w) = ((r, acc'), w')"
    and ok: "opened_ok w0 root paths acc w" and "plain_path p" and "p \<in> set paths"
  shows "opened_ok w0 root paths acc' w' \<and> grown w root w' \<and>
    (\<forall>d. r = Inr d \<longrightarrow> opened_dir w' root (butlast (split_on slash p)) d)"
proof -
  let ?cs = "butlast (split_on slash p)"
  note dir = Dir_path [OF assms(3)]
  note tree = opened_ok_tree [OF ok]
  have root: "opened_dir w root [] (root_directory root info)"
    using tree_root [OF tree] by (simp add: opened_dir_def root_directory_def)
  show ?thesis
  proof (cases "?cs = []")
    case True
    with dir(1) run root ok tree show ?thesis by (auto intro: grown_disk)
  next
    case False
    with dir(1) have "Dir p \<noteq> dot" "split_on slash (Dir p) = ?cs"
      using component_not_dot [OF dir(3)] split_components [OF dir(3)] by simp_all
    with run have "open_path h (root_directory root info) (join_with slash []) ?cs acc w = ((r, acc'), w')" by simp
    from open_path_ok [OF this ok root _ assms(4)] dir(3,4) show ?thesis by simp
  qed
qed

lemma open_parents_ok:
  assumes "open_parents h (root_directory root info) items acc w = ((r, acc'), w')"
    and "opened_ok w0 root paths acc w" and "\<forall>item \<in> set items. plain_path (pi_path item) \<and> pi_path item \<in> set paths"
  shows "opened_ok w0 root paths acc' w' \<and> grown w root w' \<and>
    (\<forall>items'. r = Inr items' \<longrightarrow> list_all2 (given_place w' root) items items')"
  using assms
proof (induction items arbitrary: acc w r acc' w')
  case Nil
  then show ?case by (auto intro: grown_disk opened_ok_tree)
next
  case (Cons item items)
  obtain r1 acc1 w1 where step: "(if Dir (pi_path item) = dot then ((Inr (root_directory root info), acc), w)
      else open_path h (root_directory root info) [] (split_on slash (Dir (pi_path item))) acc w) = ((r1, acc1), w1)"
    by (metis prod.exhaust)
  from open_parent_ok [OF step Cons.prems(2)] Cons.prems(3)
  have one: "opened_ok w0 root paths acc1 w1" "grown w root w1"
    "\<forall>d. r1 = Inr d \<longrightarrow> opened_dir w1 root (butlast (split_on slash (pi_path item))) d" by simp_all
  show ?case
  proof (cases r1)
    case (Inl e)
    with Cons.prems(1) step have "r = Inl e" "acc' = acc1" "w' = w1" by (simp_all add: Let_def)
    with one show ?thesis by simp
  next
    case (Inr d)
    obtain r2 acc2 w2 where rest: "open_parents h (root_directory root info) items acc1 w1 = ((r2, acc2), w2)" by (metis prod.exhaust)
    have result: "acc' = acc2" "w' = w2" "r = (case r2 of Inl e \<Rightarrow> Inl e | Inr items' \<Rightarrow>
        Inr (item\<lparr>pi_parent := sd_root d, pi_basename := Base (pi_path item)\<rparr> # items'))"
      using Cons.prems(1) step Inr rest by (auto simp: Let_def split: sum.splits)
    from Cons.IH [OF rest one(1)] Cons.prems(3) have two: "opened_ok w0 root paths acc2 w2" "grown w1 root w2"
      "\<forall>items'. r2 = Inr items' \<longrightarrow> list_all2 (given_place w2 root) items items'" by simp_all
    have "given_place w1 root item (item\<lparr>pi_parent := sd_root d, pi_basename := Base (pi_path item)\<rparr>)"
      using one(3) Inr Dir_path(2) Cons.prems(3) by (auto simp: given_place_def opened_dir_def)
    with placed_grown [OF _ opened_ok_tree [OF one(1)] two(2)]
    have "given_place w2 root item (item\<lparr>pi_parent := sd_root d, pi_basename := Base (pi_path item)\<rparr>)" .
    with two grown_trans [OF one(2) two(2)] show ?thesis unfolding result by (auto split: sum.splits)
  qed
qed

section \<open>The opened transaction\<close>

text \<open>A directory on the way to one of the paths.\<close>

definition parent_entry :: "world \<Rightarrow> inode \<Rightarrow> string list \<Rightarrow> inode \<Rightarrow> string \<Rightarrow> inode \<Rightarrow> bool" where
  "parent_entry w root paths d name i = (node_at w i = Some Directory \<and> ancestor_key w root paths (d, name))"

text \<open>
  Nothing of the start is gone or changed, and new are at most directories on the way to one of the paths, and
  stage and backup files.
\<close>

definition unharmed :: "world \<Rightarrow> inode \<Rightarrow> string list \<Rightarrow> world \<Rightarrow> bool" where
  "unharmed w root paths w' = (older w w' \<and> (\<forall>d name i. entry_at w d name = Some i \<longrightarrow> entry_at w' d name = Some i) \<and>
     (\<forall>d name i. entry_at w d name = None \<longrightarrow> entry_at w' d name = Some i \<longrightarrow>
        artifact_name name \<or> parent_entry w' root paths d name i))"

lemma unharmed_disk: "same_disk w w' \<Longrightarrow> unharmed w root paths w'"
  by (simp add: unharmed_def older_disk disk_simps)

lemma opened_created:
  assumes "opened_ok w0 root paths acc w" and "k \<in> created_keys (tl (fst acc))"
  shows "ancestor_key w root paths k \<and> entry_at w0 (fst k) (snd k) = None"
  using assms by (cases "fst acc") (auto simp: opened_ok_def created_keys_def)

lemma opened_ok_new:
  assumes "opened_ok w0 root paths acc w" and "entry_at w0 d name = None" and "entry_at w d name = Some i"
  shows "node_at w i = Some Directory \<and> i < w_next w \<and> ancestor_key w root paths (d, name)"
proof -
  from assms(1) have "dirs_added w0 w" "only_ancestors w0 root paths w" by (simp_all add: opened_ok_def grown_def)
  with dirs_added_new [OF _ assms(2,3)] assms(2,3) show ?thesis by (auto simp: only_ancestors_def entry_at_of)
qed

text \<open>A directory with an entry is still reached, for a directory that is gone is empty.\<close>

lemma restored_direct:
  assumes tree: "tree_at w root" and old: "older w w'" and restored: "restored_to (entry_of w) K w'"
  shows "direct w root cs = Some d \<Longrightarrow> node_at w d = Some Directory \<Longrightarrow> entry_at w' d name = Some i \<Longrightarrow> direct w' root cs = Some d"
proof (induction cs arbitrary: d name i rule: rev_induct)
  case (snoc c cs)
  then obtain e where e: "direct w root cs = Some e" "node_at w e = Some Directory" "entry_at w e c = Some d"
    by (auto simp: direct_snoc split: option.splits if_splits)
  have node: "node_at w' x = Some Directory" if "node_at w x = Some Directory" for x
    using older_node [OF old tree_alive [OF tree that]] that by simp
  have "entry_of w' (e, c) \<noteq> None"
    using restored e(3) node [OF snoc.prems(2)] snoc.prems(3) unfolding restored_to_def entry_at_of by (metis option.distinct(1))
  with restored e(3) have entry: "entry_at w' e c = Some d"
    unfolding restored_to_def entry_at_of by (metis option.distinct(1))
  with snoc.IH [OF e(1,2) entry] node [OF e(2)] show ?case by (simp add: direct_snoc)
qed simp

lemma restored_unharmed:
  assumes opened: "opened_ok w root paths acc w1" and old: "older w1 w'"
    and restored: "restored_to (entry_of w1) (created_keys (tl (fst acc))) w'"
  shows "unharmed w root paths w'"
  unfolding unharmed_def
proof (intro conjI allI impI)
  have added: "dirs_added w w1" using opened by (simp add: opened_ok_def grown_def)
  show "older w w'" using dirs_added_older [OF added] old by (rule older_trans)
  fix d name i
  assume entry: "entry_at w d name = Some i"
  have "(d, name) \<notin> created_keys (tl (fst acc))" using opened_created [OF opened, of "(d, name)"] entry by auto
  with restored dirs_added_entry [OF added entry] show "entry_at w' d name = Some i"
    unfolding restored_to_def entry_at_of by (metis option.distinct(1))
next
  fix d name i
  assume new: "entry_at w d name = None" "entry_at w' d name = Some i"
  from restored have "entry_of w' (d, name) = entry_of w1 (d, name) \<or> entry_of w' (d, name) = None \<or> artifact_name name"
    unfolding restored_to_def by (metis snd_conv)
  with new(2) consider "entry_at w1 d name = Some i" | "artifact_name name" by (auto simp: entry_at_of)
  then show "artifact_name name \<or> parent_entry w' root paths d name i"
  proof cases
    case 1
    note tree = opened_ok_tree [OF opened]
    from opened_ok_new [OF opened new(1) 1] have i: "node_at w1 i = Some Directory" "i < w_next w1"
      and anc: "ancestor_key w1 root paths (d, name)" by simp_all
    from anc obtain cs p where p: "p \<in> set paths" "strict_prefix (cs @ [name]) (split_on slash p)"
      "direct w1 root cs = Some d" "node_at w1 d = Some Directory" by (auto simp: ancestor_key_def)
    have "direct w' root cs = Some d" by (rule restored_direct [OF tree old restored p(3,4) new(2)])
    moreover have "node_at w' d = Some Directory" using older_node [OF old tree_alive [OF tree p(4)]] p(4) by simp
    ultimately have "ancestor_key w' root paths (d, name)" using p(1,2) by (auto simp: ancestor_key_def)
    with older_node [OF old i(2)] i(1) show ?thesis by (simp add: parent_entry_def)
  qed simp
qed

lemma closed_unharmed:
  assumes "opened_ok w0 root paths acc w" and "closeStableDirectories h (fst acc) b w = (e, w')"
  shows "unharmed w0 root paths w'"
proof -
  have but: "entries_but (created_keys (tl (fst acc))) w w'"
    by (rule entries_but_mono [OF closeStableDirectories_but [OF assms(2)]]) simp
  then have "older w w'" by (simp add: entries_but_def older_nodes)
  from restored_unharmed [OF assms(1) this entries_but_restored [OF but]] show ?thesis .
qed

lemma opened_ok_start: "tree_at w root \<Longrightarrow> same_disk w w' \<Longrightarrow> opened_ok w root paths ([root_directory root info], [(dot, d)]) w'"
  by (auto simp: opened_ok_def grown_disk only_ancestors_disk root_directory_def map_get_def)

lemma openStablePublicationParents_ok:
  assumes run: "openStablePublicationParents h root items w = (r, w')" and tree: "tree_at w root"
    and items: "\<forall>item \<in> set items. plain_path (pi_path item)"
  shows "case r of Inl e \<Rightarrow> unharmed w root (map pi_path items) w'
    | Inr (directories, items') \<Rightarrow> (\<exists>m. opened_ok w root (map pi_path items) (directories, m) w') \<and>
        list_all2 (given_place w' root) items items'"
proof -
  obtain rootInfo w1 where stat: "StatHandle h root w = (rootInfo, w1)" by (metis prod.exhaust)
  from reads_outcome [OF reads_ops(4) stat] have disk: "same_disk w w1" .
  show ?thesis
  proof (cases rootInfo)
    case (Inl e)
    with run stat have "r = Inl e" "w' = w1" by (simp_all add: openStablePublicationParents_def io_bind_def)
    with unharmed_disk [OF disk] show ?thesis by simp
  next
    case (Inr info)
    let ?root = "root_directory root info"
    obtain r2 directories m w2 where opened: "open_parents h ?root items ([?root], [(dot, ?root)]) w1 = ((r2, (directories, m)), w2)"
      by (metis prod.exhaust)
    have "\<forall>item \<in> set items. plain_path (pi_path item) \<and> pi_path item \<in> set (map pi_path items)" using items by simp
    from open_parents_ok [OF opened opened_ok_start [OF tree disk] this]
    have ok: "opened_ok w root (map pi_path items) (directories, m) w2"
      and given_place: "\<forall>items'. r2 = Inr items' \<longrightarrow> list_all2 (given_place w2 root) items items'" by simp_all
    have closed: "unharmed w root (map pi_path items) w4" if "closeStableDirectories h directories True w3 = (c, w4)" "same_disk w2 w3" for c w3 w4
      using closed_unharmed [OF opened_ok_disk [OF ok that(2)]] that(1) by simp
    show ?thesis
    proof (cases r2)
      case (Inl e)
      with run stat Inr opened closed [of w2] show ?thesis
        by (auto simp: openStablePublicationParents_def io_bind_def Let_def split: prod.splits)
    next
      case items': (Inr items')
      obtain v w3 where valid: "validateStableDirectories h directories w2 = (v, w3)" by (metis prod.exhaust)
      have disk3: "same_disk w2 w3" by (rule reads_outcome [OF reads_validations(1) valid])
      show ?thesis
      proof (cases v)
        case (Inl e)
        with run stat Inr opened items' valid closed [OF _ disk3] show ?thesis
          by (auto simp: openStablePublicationParents_def io_bind_def Let_def split: prod.splits)
      next
        case valid': (Inr u)
        with run stat Inr opened items' valid have "r = Inr (directories, items')" "w' = w3"
          by (simp_all add: openStablePublicationParents_def io_bind_def Let_def)
        moreover have grown: "grown w2 root w3" by (rule grown_disk [OF opened_ok_tree [OF ok] disk3])
        have "list_all2 (given_place w3 root) items items'"
          using given_place items' placed_grown [OF _ opened_ok_tree [OF ok] grown] by (auto elim: list_all2_mono)
        with opened_ok_disk [OF ok disk3] calculation show ?thesis by auto
      qed
    qed
  qed
qed

end
