(* ===== verification/SyncOutcome.thy ===== *)
theory SyncOutcome
  imports SyncParents
begin

text \<open>
  \<open>publishTransaction\<close> of \<open>internal/coresync/sync.go\<close> from the paths it is called with: on a directory tree,
  with destinations that do not lie below one another, it either puts every file in place, or is rolled
  back and leaves at most directories on the way to destinations and stage and backup files, or reports a failed
  rollback and still loses nothing. In each case the entries that are new are bounded too.
\<close>

section \<open>Destinations\<close>

text \<open>The directory entry a path denotes.\<close>

definition key_at :: "world \<Rightarrow> inode \<Rightarrow> string \<Rightarrow> entry_key \<Rightarrow> bool" where
  "key_at w root p k = (direct w root (butlast (split_on slash p)) = Some (fst k) \<and>
     node_at w (fst k) = Some Directory \<and> snd k = last (split_on slash p))"

lemma key_at_direct: "key_at w root p k \<Longrightarrow> plain_path p \<Longrightarrow> direct w root (split_on slash p) = entry_of w k"
proof -
  assume key: "key_at w root p k" and "plain_path p"
  then have "split_on slash p = butlast (split_on slash p) @ [snd k]"
    by (metis append_butlast_last_id key_at_def plain_components)
  moreover have "direct w root (butlast (split_on slash p) @ [snd k]) = entry_of w (fst k, snd k)"
    using key unfolding direct_snoc key_at_def by (simp add: entry_at_of)
  ultimately show ?thesis by simp
qed

lemma plain_split: "plain_path p \<Longrightarrow> split_on slash p \<noteq> []"
  by (metis plain_components)

lemma split_same: "split_on slash p = split_on slash q \<Longrightarrow> p = q"
  by (metis join_split_on)

lemma key_at_unique:
  assumes "tree_at w root" and "key_at w root p k" and "key_at w root q k" and "plain_path p" and "plain_path q"
  shows "p = q"
proof (rule split_same)
  have "butlast (split_on slash p) = butlast (split_on slash q)"
    using assms(2,3) by (intro direct_unique [OF assms(1), where d = "fst k"]) (simp_all add: key_at_def)
  moreover have "last (split_on slash p) = last (split_on slash q)" using assms(2,3) by (simp add: key_at_def)
  ultimately show "split_on slash p = split_on slash q"
    using plain_split [OF assms(4)] plain_split [OF assms(5)] by (metis append_butlast_last_id)
qed

lemma ancestor_no_destination:
  assumes tree: "tree_at w root" and anc: "ancestor_key w root paths k" and key: "key_at w root q k"
    and q: "q \<in> set paths" "plain_path q" and free: "collision_free paths"
  shows False
proof -
  from anc obtain cs p where p: "p \<in> set paths" "strict_prefix (cs @ [snd k]) (split_on slash p)"
    "direct w root cs = Some (fst k)" "node_at w (fst k) = Some Directory" by (auto simp: ancestor_key_def)
  have "butlast (split_on slash q) = cs"
    using key p by (intro direct_unique [OF tree, where d = "fst k"]) (simp_all add: key_at_def)
  moreover have "split_on slash q \<noteq> []" "last (split_on slash q) = snd k"
    using plain_split [OF q(2)] key by (simp_all add: key_at_def)
  ultimately have "split_on slash q = cs @ [snd k]" by (metis append_butlast_last_id)
  with p(2) q have "q \<in> ancestors_of p" by (simp add: ancestors_of_def)
  with free p(1) q(1) show False by (auto simp: collision_free_def)
qed

section \<open>A publication that may start\<close>

text \<open>What \<open>Sync\<close> has established of an item: its path, and the file it takes to be there.\<close>

definition item_ready :: "world \<Rightarrow> inode \<Rightarrow> publication_item \<Rightarrow> bool" where
  "item_ready w root item = (plain_path (pi_path item) \<and> \<not> artifact_name (last (split_on slash (pi_path item))) \<and>
     untouched item \<and> (sp_exists (pi_previous item) \<longrightarrow>
       (\<exists>i. direct w root (split_on slash (pi_path item)) = Some i \<and> regular_at w i)))"

definition publication_ready :: "world \<Rightarrow> inode \<Rightarrow> publication_item list \<Rightarrow> bool" where
  "publication_ready w root items = (tree_at w root \<and> collision_free (map pi_path items) \<and> (\<forall>item \<in> set items. item_ready w root item))"

lemma placed_fields:
  "given_place w root item item' \<Longrightarrow> key_at w root (pi_path item) (target_key item') \<and> pi_path item' = pi_path item \<and>
     pi_basename item' = last (split_on slash (pi_path item)) \<and> pi_desired item' = pi_desired item \<and>
     pi_mode item' = pi_mode item \<and> pi_previous item' = pi_previous item \<and> untouched item' = untouched item"
  by (auto simp: given_place_def key_at_def target_key_def untouched_def)

lemma placed_list:
  "list_all2 P xs ys \<Longrightarrow> y \<in> set ys \<Longrightarrow> \<exists>x \<in> set xs. P x y"
  "list_all2 P xs ys \<Longrightarrow> x \<in> set xs \<Longrightarrow> \<exists>y \<in> set ys. P x y"
  by (metis in_set_conv_nth list_all2_conv_all_nth)+

lemma placed_paths: "list_all2 (given_place w root) items items' \<Longrightarrow> map pi_path items' = map pi_path items"
  by (induction rule: list_all2_induct) (auto dest: placed_fields)

lemma placed_distinct:
  assumes "list_all2 (given_place w root) items items'" and "tree_at w root" and "distinct (map pi_path items)"
    and "\<forall>item \<in> set items. plain_path (pi_path item)"
  shows "distinct (map target_key items')"
proof -
  have "inj_on target_key (set items')"
  proof (rule inj_onI)
    fix a b
    assume ab: "a \<in> set items'" "b \<in> set items'" "target_key a = target_key b"
    from placed_list(1) [OF assms(1) ab(1)] obtain a0 where a0: "a0 \<in> set items" "given_place w root a0 a" by blast
    from placed_list(1) [OF assms(1) ab(2)] obtain b0 where b0: "b0 \<in> set items" "given_place w root b0 b" by blast
    have "pi_path a0 = pi_path b0"
      using placed_fields [OF a0(2)] placed_fields [OF b0(2)] ab(3) assms(4) a0(1) b0(1)
      by (intro key_at_unique [OF assms(2), where k = "target_key b"]) simp_all
    then have "pi_path a = pi_path b" using placed_fields [OF a0(2)] placed_fields [OF b0(2)] by simp
    moreover have "distinct (map pi_path items')" using assms(3) placed_paths [OF assms(1)] by simp
    ultimately show "a = b" using ab(1,2) by (simp add: distinct_map inj_on_def)
  qed
  moreover have "distinct items'" using assms(3) placed_paths [OF assms(1)] by (metis distinct_map)
  ultimately show ?thesis by (simp add: distinct_map)
qed

lemma placed_fresh:
  assumes publication_ready: "item_ready w root item" and tree: "tree_at w root" and grown: "grown w root w1"
    and given_place: "given_place w1 root item item'"
  shows "fresh_item (entry_of w1) (w_next w1) w1 item'"
proof -
  note fields = placed_fields [OF given_place]
  have plain: "plain_path (pi_path item)" using publication_ready by (simp add: item_ready_def)
  then have "component (last (split_on slash (pi_path item)))"
    using plain_split [OF plain] by (auto simp: plain_path_def list_all_iff)
  moreover have "node_at w1 (pi_parent item') = Some Directory" using given_place by (auto simp: given_place_def)
  moreover from this have "pi_parent item' < w_next w1" using grown tree_alive by (auto simp: grown_def)
  moreover have old: "older w w1" using grown by (simp add: grown_def dirs_added_older)
  have "\<exists>i < w_next w1. entry_of w1 (target_key item') = Some i \<and> regular_at w1 i" if "sp_exists (pi_previous item')"
  proof -
    from that fields publication_ready obtain i where i: "direct w root (split_on slash (pi_path item)) = Some i" "regular_at w i"
      by (auto simp: item_ready_def)
    then have alive: "i < w_next w" using tree_alive [OF tree] by (auto simp: regular_at_def)
    have "direct w1 root (split_on slash (pi_path item)) = Some i" using direct_added [OF _ tree i(1)] grown by (simp add: grown_def)
    with key_at_direct [of w1 root "pi_path item" "target_key item'"] fields plain
    have "entry_of w1 (target_key item') = Some i" by simp
    with alive i(2) old show ?thesis by (auto simp: older_def regular_at_def)
  qed
  ultimately show ?thesis using fields publication_ready by (simp add: fresh_item_def planned_def item_ready_def)
qed

lemma placed_publishable:
  assumes publication_ready: "publication_ready w root items" and opened: "opened_ok w root (map pi_path items) (directories, m) w1"
    and given_place: "list_all2 (given_place w1 root) items items'"
  shows "publishable w1 directories items'"
proof -
  from publication_ready have tree: "tree_at w root" and free: "collision_free (map pi_path items)"
    and items: "\<forall>item \<in> set items. item_ready w root item" by (simp_all add: publication_ready_def)
  note tree1 = opened_ok_tree [OF opened]
  have grown: "grown w root w1" using opened by (simp add: opened_ok_def)
  have plain: "\<forall>item \<in> set items. plain_path (pi_path item)" using items by (simp add: item_ready_def)
  have "distinct (map target_key items')"
    using placed_distinct [OF given_place tree1] free plain by (simp add: collision_free_def)
  moreover have "fresh_item (entry_of w1) (w_next w1) w1 item' \<and> \<not> artifact_name (pi_basename item') \<and>
      target_key item' \<notin> created_keys (tl directories)" if "item' \<in> set items'" for item'
  proof -
    from placed_list(1) [OF given_place that] obtain item where item: "item \<in> set items" "given_place w1 root item item'" by blast
    have one: "item_ready w root item" using items item(1) by blast
    note fields = placed_fields [OF item(2)]
    have "target_key item' \<notin> created_keys (tl directories)"
    proof
      assume "target_key item' \<in> created_keys (tl directories)"
      with opened_created [OF opened] have "ancestor_key w1 root (map pi_path items) (target_key item')" by simp
      from ancestor_no_destination [OF tree1 this, of "pi_path item"] fields item(1) plain free show False by simp
    qed
    with placed_fresh [OF one tree grown item(2)] fields one show ?thesis by (simp add: item_ready_def)
  qed
  ultimately show ?thesis by (simp add: publishable_def)
qed

section \<open>Outcomes by path\<close>

text \<open>The file a path leads to.\<close>

definition file_at :: "world \<Rightarrow> inode \<Rightarrow> string \<Rightarrow> string \<Rightarrow> nat \<Rightarrow> bool" where
  "file_at w root p content mode =
     (\<exists>i. direct w root (split_on slash p) = Some i \<and> node_at w i = Some (RegularFile content mode))"

definition in_place :: "world \<Rightarrow> inode \<Rightarrow> publication_item \<Rightarrow> bool" where
  "in_place w root item = file_at w root (pi_path item) (pi_desired item) (Perm (pi_mode item))"

text \<open>
  Every file is in place; every other entry of the start is there with the same inode; and every other new
  entry is a directory on the way to a destination or, when an error is reported, a stage or backup file.
\<close>

definition all_in_place :: "world \<Rightarrow> inode \<Rightarrow> publication_item list \<Rightarrow> sync_error option \<Rightarrow> world \<Rightarrow> bool" where
  "all_in_place w root items r w' = ((\<forall>item \<in> set items. in_place w' root item) \<and>
     (\<forall>d name i. entry_at w d name = Some i \<longrightarrow>
        entry_at w' d name = Some i \<or> (\<exists>item \<in> set items. key_at w' root (pi_path item) (d, name))) \<and>
     (\<forall>d name i. entry_at w d name = None \<longrightarrow> entry_at w' d name = Some i \<longrightarrow>
        (\<exists>item \<in> set items. key_at w' root (pi_path item) (d, name)) \<or>
        parent_entry w' root (map pi_path items) d name i \<or> r \<noteq> None \<and> artifact_name name))"

text \<open>
  Every entry of the start is there, or its new file is in place and the old one is still in its directory;
  every new entry is a new file in place, a directory on the way to a destination, or a stage or backup file.
\<close>

definition nothing_lost :: "world \<Rightarrow> inode \<Rightarrow> publication_item list \<Rightarrow> world \<Rightarrow> bool" where
  "nothing_lost w root items w' = ((\<forall>d name i. entry_at w d name = Some i \<longrightarrow> entry_at w' d name = Some i \<or>
       (\<exists>item \<in> set items. key_at w' root (pi_path item) (d, name) \<and> in_place w' root item \<and>
          (\<exists>name'. entry_at w' d name' = Some i))) \<and>
     (\<forall>d name i. entry_at w d name = None \<longrightarrow> entry_at w' d name = Some i \<longrightarrow>
        (\<exists>item \<in> set items. key_at w' root (pi_path item) (d, name) \<and> in_place w' root item) \<or>
        parent_entry w' root (map pi_path items) d name i \<or> artifact_name name))"

lemma others_kept_entry:
  "others_kept (entry_of w1) items w' \<Longrightarrow> entry_at w1 d name = Some i \<Longrightarrow> (d, name) \<notin> target_key ` set items \<Longrightarrow>
     entry_at w' d name = Some i"
  unfolding others_kept_def entry_at_of by (metis option.distinct(1))

lemma parents_kept:
  assumes tree: "tree_at w1 root" and free: "collision_free (map pi_path items)"
    and plain: "\<forall>item \<in> set items. plain_path (pi_path item)"
    and given_place: "list_all2 (given_place w1 root) items items'" and old: "older w1 w'"
    and others: "others_kept (entry_of w1) items' w'" and item: "item \<in> set items"
  shows "direct w1 root cs = Some d \<Longrightarrow> prefix cs (butlast (split_on slash (pi_path item))) \<Longrightarrow> direct w' root cs = Some d"
proof (induction cs arbitrary: d rule: rev_induct)
  case (snoc c cs)
  from snoc.prems(1) obtain e where e: "direct w1 root cs = Some e" "node_at w1 e = Some Directory" "entry_at w1 e c = Some d"
    by (auto simp: direct_snoc split: option.splits if_splits)
  have "strict_prefix (butlast (split_on slash (pi_path item))) (split_on slash (pi_path item))"
    using Dir_path(4) plain item by blast
  with snoc.prems(2) have "strict_prefix (cs @ [c]) (split_on slash (pi_path item))" by (rule prefix_order.le_less_trans)
  with e item have anc: "ancestor_key w1 root (map pi_path items) (e, c)" by (auto simp: ancestor_key_def)
  have "(e, c) \<notin> target_key ` set items'"
  proof
    assume "(e, c) \<in> target_key ` set items'"
    then obtain item' where "item' \<in> set items'" "(e, c) = target_key item'" by blast
    moreover from this placed_list(1) [OF given_place] obtain item0 where "item0 \<in> set items" "given_place w1 root item0 item'" by blast
    ultimately show False
      using ancestor_no_destination [OF tree anc, of "pi_path item0"] placed_fields [of w1 root item0 item'] plain free by auto
  qed
  from others_kept_entry [OF others e(3) this] have "entry_at w' e c = Some d" .
  moreover have "node_at w' e = Some Directory" using older_node [OF old tree_alive [OF tree e(2)]] e(2) by simp
  moreover have "direct w' root cs = Some e"
    by (rule snoc.IH [OF e(1)]) (use snoc.prems(2) in \<open>auto simp: prefix_def\<close>)
  ultimately show ?case by (simp add: direct_snoc)
qed simp

lemma placed_after:
  assumes tree: "tree_at w1 root" and "collision_free (map pi_path items)"
    and plain: "\<forall>item \<in> set items. plain_path (pi_path item)"
    and given_place: "list_all2 (given_place w1 root) items items'" and old: "older w1 w'"
    and "others_kept (entry_of w1) items' w'" and item: "item \<in> set items" "given_place w1 root item item'"
  shows "key_at w' root (pi_path item) (target_key item')" "holds_desired w' item' \<Longrightarrow> in_place w' root item"
proof -
  have parent: "direct w1 root (butlast (split_on slash (pi_path item))) = Some (pi_parent item')"
    "node_at w1 (pi_parent item') = Some Directory" using item(2) by (auto simp: given_place_def)
  have "direct w' root (butlast (split_on slash (pi_path item))) = Some (pi_parent item')"
    by (rule parents_kept [OF assms(1-6) item(1) parent(1)]) simp
  moreover have "node_at w' (pi_parent item') = Some Directory"
    using older_node [OF old tree_alive [OF tree parent(2)]] parent(2) by simp
  ultimately show key: "key_at w' root (pi_path item) (target_key item')"
    using placed_fields [OF item(2)] by (simp add: key_at_def target_key_def)
  show "in_place w' root item" if "holds_desired w' item'"
    using that key_at_direct [OF key] placed_fields [OF item(2)] plain item(1)
    by (auto simp: holds_desired_def in_place_def file_at_def)
qed

text \<open>What is new beside the destinations: a directory that was created for them, or an artifact.\<close>

lemma ancestor_after:
  assumes tree: "tree_at w1 root" and "collision_free (map pi_path items)"
    and plain: "\<forall>item \<in> set items. plain_path (pi_path item)"
    and "list_all2 (given_place w1 root) items items'" and old: "older w1 w'" and "others_kept (entry_of w1) items' w'"
    and anc: "ancestor_key w1 root (map pi_path items) k"
  shows "ancestor_key w' root (map pi_path items) k"
proof -
  from anc obtain cs item where item: "item \<in> set items" "strict_prefix (cs @ [snd k]) (split_on slash (pi_path item))"
    "direct w1 root cs = Some (fst k)" "node_at w1 (fst k) = Some Directory" by (auto simp: ancestor_key_def)
  then obtain c rest where split: "split_on slash (pi_path item) = cs @ [snd k] @ c # rest" by (auto elim!: strict_prefixE')
  have "prefix cs (butlast (split_on slash (pi_path item)))" unfolding split by (simp add: butlast_append)
  from parents_kept [OF assms(1-6) item(1) item(3) this] have "direct w' root cs = Some (fst k)" .
  moreover have "node_at w' (fst k) = Some Directory" using older_node [OF old tree_alive [OF tree item(4)]] item(4) by simp
  ultimately show ?thesis using item(1,2) by (auto simp: ancestor_key_def)
qed

lemma new_after:
  assumes opened: "opened_ok w root (map pi_path items) acc w1" and "collision_free (map pi_path items)"
    and "\<forall>item \<in> set items. plain_path (pi_path item)"
    and "list_all2 (given_place w1 root) items items'" and old: "older w1 w'" and others: "others_kept (entry_of w1) items' w'"
    and new: "entry_at w d name = None" "entry_at w' d name = Some i" "(d, name) \<notin> target_key ` set items'"
  shows "parent_entry w' root (map pi_path items) d name i \<or>
    entry_of w' (d, name) \<noteq> entry_of w1 (d, name) \<and> artifact_name name"
proof (cases "entry_of w' (d, name) = entry_of w1 (d, name)")
  case True
  with new(2) have "entry_at w1 d name = Some i" by (simp add: entry_at_of)
  from opened_ok_new [OF opened new(1) this] have dir: "node_at w1 i = Some Directory" "i < w_next w1"
    "ancestor_key w1 root (map pi_path items) (d, name)" by simp_all
  from ancestor_after [OF opened_ok_tree [OF opened] assms(2-6) dir(3)] older_node [OF old dir(2)] dir(1)
  show ?thesis by (simp add: parent_entry_def)
next
  case False
  with others new(3) show ?thesis by (fastforce simp: others_kept_def)
qed

lemma committed_in_place:
  assumes "tree_at w1 root" and "collision_free (map pi_path items)"
    and "\<forall>item \<in> set items. plain_path (pi_path item)"
    and given_place: "list_all2 (given_place w1 root) items items'" and "older w1 w'"
    and committed: "committed (entry_of w1) items' r w'" and opened: "opened_ok w root (map pi_path items) acc w1"
  shows "all_in_place w root items r w'"
proof -
  have added: "dirs_added w w1" using opened by (simp add: opened_ok_def grown_def)
  have others: "others_kept (entry_of w1) items' w'" using committed by (auto simp: committed_def others_kept_def)
  note after = placed_after [OF assms(1-5) others]
  have "in_place w' root item" if "item \<in> set items" for item
    using after(2) [OF that] placed_list(2) [OF given_place that] committed by (auto simp: committed_def)
  moreover have "entry_at w' d name = Some i \<or> (\<exists>item \<in> set items. key_at w' root (pi_path item) (d, name))"
    if "entry_at w d name = Some i" for d name i
  proof (cases "(d, name) \<in> target_key ` set items'")
    case True
    then obtain item' where "item' \<in> set items'" "target_key item' = (d, name)" by force
    with after(1) placed_list(1) [OF given_place] show ?thesis by metis
  next
    case False
    from others_kept_entry [OF others dirs_added_entry [OF added that] this] show ?thesis by simp
  qed
  moreover have "(\<exists>item \<in> set items. key_at w' root (pi_path item) (d, name)) \<or>
      parent_entry w' root (map pi_path items) d name i \<or> r \<noteq> None \<and> artifact_name name"
    if new: "entry_at w d name = None" "entry_at w' d name = Some i" for d name i
  proof (cases "(d, name) \<in> target_key ` set items'")
    case True
    then obtain item' where "item' \<in> set items'" "target_key item' = (d, name)" by force
    with after(1) placed_list(1) [OF given_place] show ?thesis by metis
  next
    case False
    with committed have "entry_of w' (d, name) = entry_of w1 (d, name) \<or> r \<noteq> None" by (auto simp: committed_def)
    with new_after [OF opened assms(2-5) others new False] show ?thesis by blast
  qed
  ultimately show ?thesis unfolding all_in_place_def by blast
qed

lemma target_not_new:
  assumes opened: "opened_ok w root (map pi_path items) acc w1" and "collision_free (map pi_path items)"
    and "\<forall>item \<in> set items. plain_path (pi_path item)"
    and item: "item \<in> set items" "given_place w1 root item item'"
    and new: "entry_at w d name = None" and key: "target_key item' = (d, name)"
  shows "entry_of w1 (d, name) = None"
proof (rule ccontr)
  assume "entry_of w1 (d, name) \<noteq> None"
  then obtain i where "entry_at w1 d name = Some i" by (auto simp: entry_at_of)
  from opened_ok_new [OF opened new this] have "ancestor_key w1 root (map pi_path items) (d, name)" by simp
  from ancestor_no_destination [OF opened_ok_tree [OF opened] this, of "pi_path item"] placed_fields [OF item(2)] key assms(2,3) item(1)
  show False by simp
qed

lemma settled_not_lost:
  assumes "tree_at w1 root" and "collision_free (map pi_path items)"
    and "\<forall>item \<in> set items. plain_path (pi_path item)"
    and given_place: "list_all2 (given_place w1 root) items items'" and "older w1 w'"
    and settled: "\<forall>item \<in> set items'. settled (entry_of w1) w' item" and others: "others_kept (entry_of w1) items' w'"
    and opened: "opened_ok w root (map pi_path items) acc w1"
  shows "nothing_lost w root items w'"
  unfolding nothing_lost_def
proof (intro conjI allI impI)
  have added: "dirs_added w w1" using opened by (simp add: opened_ok_def grown_def)
  fix d name i
  assume "entry_at w d name = Some i"
  then have i: "entry_of w1 (d, name) = Some i" using dirs_added_entry [OF added] by (simp add: entry_at_of [symmetric])
  note after = placed_after [OF assms(1-5) others]
  show "entry_at w' d name = Some i \<or> (\<exists>item \<in> set items. key_at w' root (pi_path item) (d, name) \<and> in_place w' root item \<and>
        (\<exists>name'. entry_at w' d name' = Some i))"
  proof (cases "(d, name) \<in> target_key ` set items'")
    case True
    then obtain item' where item': "item' \<in> set items'" "target_key item' = (d, name)" by force
    then have parent: "pi_parent item' = d" by (simp add: target_key_def)
    from placed_list(1) [OF given_place item'(1)] obtain item where item: "item \<in> set items" "given_place w1 root item item'" by blast
    from settled item'(1) have "settled (entry_of w1) w' item'" by blast
    with i item'(2) parent consider "entry_at w' d name = Some i" | "holds_desired w' item'" "\<exists>name'. entry_at w' d name' = Some i"
      by (auto simp: settled_def entry_at_of)
    then show ?thesis using after(1) [OF item] after(2) [OF item] item(1) item'(2) by cases auto
  next
    case False
    from others_kept_entry [OF others _ this] i show ?thesis by (simp add: entry_at_of)
  qed
next
  fix d name i
  assume new: "entry_at w d name = None" "entry_at w' d name = Some i"
  note after = placed_after [OF assms(1-5) others]
  show "(\<exists>item \<in> set items. key_at w' root (pi_path item) (d, name) \<and> in_place w' root item) \<or>
      parent_entry w' root (map pi_path items) d name i \<or> artifact_name name"
  proof (cases "(d, name) \<in> target_key ` set items'")
    case True
    then obtain item' where item': "item' \<in> set items'" "target_key item' = (d, name)" by force
    from placed_list(1) [OF given_place item'(1)] obtain item where item: "item \<in> set items" "given_place w1 root item item'" by blast
    have "entry_of w1 (target_key item') = None"
      using target_not_new [OF opened assms(2,3) item new(1)] item'(2) by simp
    moreover from settled item'(1) have "settled (entry_of w1) w' item'" by blast
    ultimately have "holds_desired w' item'" using new(2) item'(2) by (auto simp: settled_def entry_at_of)
    with after(1) [OF item] after(2) [OF item] item(1) item'(2) show ?thesis by auto
  qed (use new_after [OF opened assms(2-5) others new] in blast)
qed

section \<open>The outcome\<close>

definition publication_outcome ::
  "world \<Rightarrow> inode \<Rightarrow> publication_item list \<Rightarrow> sync_error option \<Rightarrow> world \<Rightarrow> bool" where
  "publication_outcome w root items r w' = (older w w' \<and> (all_in_place w root items r w' \<or>
     r \<noteq> None \<and> unharmed w root (map pi_path items) w' \<or> reports_two r \<and> nothing_lost w root items w'))"

lemma publishTransaction_outcome:
  assumes run: "publishTransaction h root items w = (r, w')" and start: "publication_ready w root items" and quiet: "quiet_hook h"
  shows "publication_outcome w root items r w'"
proof -
  from start have tree: "tree_at w root" and free: "collision_free (map pi_path items)"
    and plain: "\<forall>item \<in> set items. plain_path (pi_path item)" by (simp_all add: publication_ready_def item_ready_def)
  obtain opened w1 where parents: "openStablePublicationParents h root items w = (opened, w1)" by (metis prod.exhaust)
  note ok = openStablePublicationParents_ok [OF parents tree plain]
  show ?thesis
  proof (cases opened)
    case (Inl e)
    with run parents ok have "r = Some e" "unharmed w root (map pi_path items) w'" by (simp_all add: publishTransaction_def)
    then show ?thesis by (simp add: publication_outcome_def unharmed_def)
  next
    case (Inr pair)
    then obtain directories items' where pair: "opened = Inr (directories, items')" by (cases pair) simp
    with ok obtain m where opened_ok: "opened_ok w root (map pi_path items) (directories, m) w1"
      and given_place: "list_all2 (given_place w1 root) items items'" by auto
    have added: "dirs_added w w1" and tree1: "tree_at w1 root" using opened_ok by (simp_all add: opened_ok_def grown_def)
    have "publish_opened h directories items' w1 = (r, w')" using run parents pair by (simp add: publishTransaction_def)
    from publish_opened_outcome [OF this placed_publishable [OF start opened_ok given_place] quiet]
    have old: "older w1 w'" and outcome: "settled_outcome (entry_of w1) (created_keys (tl directories)) items' r w'" by simp_all
    note setting = tree1 free plain given_place old
    have "older w w'" using dirs_added_older [OF added] old by (rule older_trans)
    moreover from outcome consider "committed (entry_of w1) items' r w'"
      | "r \<noteq> None" "restored_to (entry_of w1) (created_keys (tl directories)) w'"
      | "reports_two r" "\<forall>item \<in> set items'. settled (entry_of w1) w' item" "others_kept (entry_of w1) items' w'"
      by (auto simp: settled_outcome_def)
    then have "all_in_place w root items r w' \<or> r \<noteq> None \<and> unharmed w root (map pi_path items) w' \<or>
      reports_two r \<and> nothing_lost w root items w'"
    proof cases
      case 1
      with committed_in_place [OF setting _ opened_ok] show ?thesis by blast
    next
      case 2
      with restored_unharmed [OF opened_ok old] show ?thesis by simp
    next
      case 3
      with settled_not_lost [OF setting _ _ opened_ok] show ?thesis by blast
    qed
    ultimately show ?thesis by (simp add: publication_outcome_def)
  qed
qed

end
