(* ===== verification/SyncSound.thy ===== *)
theory SyncSound
  imports SyncOutcome CoreSync
begin

text \<open>
  \<open>Sync\<close> and \<open>Verify\<close> of \<open>internal/coresync/sync.go\<close> as a whole: what a run has read and checked before
  it publishes, what a successful run leaves on the disk, and what a failed one may have done.
\<close>

section \<open>Steps that read, then the rest\<close>

text \<open>A failure that has left the disk as it was.\<close>

definition early :: "world \<Rightarrow> sync_error + 'a \<Rightarrow> world \<Rightarrow> bool" where
  "early w r w' = (isl r \<and> same_disk w w')"

lemma early_before: "same_disk w w1 \<Longrightarrow> early w1 r w' \<Longrightarrow> early w r w'"
  by (auto simp: early_def intro: same_disk_trans)

lemma io_bind_reads:
  assumes "io_bind m k w1 = (r, w')" and "same_disk w w1" and "reads m"
  obtains "early w r w'" | x w2 where "m w1 = (Inr x, w2)" "same_disk w w2" "k x w2 = (r, w')"
proof (cases "m w1")
  case (Pair r1 w2)
  have disk: "same_disk w w2" using reads_outcome [OF assms(3) Pair] assms(2) by (auto intro: same_disk_trans)
  show ?thesis
  proof (cases r1)
    case (Inl e)
    with Pair assms(1) disk have "early w r w'" by (auto simp: io_bind_def early_def)
    then show ?thesis by (rule that(1))
  next
    case (Inr x)
    with Pair assms(1) disk that(2) show ?thesis by (simp add: io_bind_def)
  qed
qed

lemma reads_root [reads_intros]: "reads (openContainedRoot h name filename)"
  unfolding openContainedRoot_def by (auto intro!: reads_intros)

lemma reads_load [reads_intros]: "reads (loadProvenance h js root p)"
  unfolding loadProvenance_def by (auto intro!: reads_intros)

lemma reads_source [reads_intros]: "reads (readSourceFile h root p)"
  unfolding readSourceFile_def by (auto intro!: reads_intros)

lemma reads_inspect [reads_intros]: "reads (inspectDestination h root p)"
  unfolding inspectDestination_def by (rule reads_intros)

lemma reads_prepare [reads_intros]: "reads (prepare_entries h root es)"
  by (induction es) (auto intro!: reads_intros split: prod.split)

lemma reads_inspect_all [reads_intros]: "reads (inspect_all h root check managed ps)"
  by (induction ps) (auto simp: inspect_prepared_def Let_def intro!: reads_intros split: option.split)

lemma reads_verify [reads_intros]: "reads (verify_entries h root es)"
  by (induction es) (auto intro!: reads_intros)

section \<open>What the steps establish\<close>

lemma openContainedRoot_true:
  assumes "openContainedRoot h name filename w = (Inr root, w')"
  shows "ho_name h filename = Some root \<and> node_at w root = Some Directory \<and> same_disk w w'"
proof -
  from assms obtain earlier w1 u w2 where steps: "LstatName h filename w = (Inr earlier, w1)"
    "validateRootInfo name earlier = Inr u" "OpenRootName h filename w1 = (Inr root, w2)"
    unfolding openContainedRoot_def io_success by blast
  have disk: "same_disk w w1" by (rule reads_outcome [OF reads_ops(2) steps(1)])
  from os_op_success [OF steps(1) [unfolded LstatName_def]] obtain i n where
    i: "ho_name h filename = Some i" "node_at w i = Some n" "earlier = info_of i n"
    by (auto simp: err_simps stat_inode_success split: option.splits)
  with steps(2) have "n = Directory" by (cases n) (auto simp: validateRootInfo_def kind_of_def split: if_splits)
  moreover have "node_at w1 i = node_at w i" by (simp add: disk_simps [OF disk])
  ultimately have "root = i"
    using os_op_success [OF steps(3) [unfolded OpenRootName_def]] i by (auto simp: err_simps follow_def)
  with i \<open>n = Directory\<close> reads_outcome [OF reads_root assms] show ?thesis by simp
qed

lemma snapshot_file:
  "snapshot_true h w root (split_on slash p) s \<Longrightarrow> sp_exists s \<Longrightarrow>
     file_at w root p (sp_content s) (sp_mode s) \<and> sp_digest s = hex_encode (ho_sha256 h (sp_content s))"
  by (auto simp: snapshot_true_def file_at_def file_snapshot_of_def)

lemma snapshot_previous:
  "snapshot_true h w root (split_on slash p) s \<Longrightarrow> sp_exists s \<Longrightarrow>
     \<exists>i. direct w root (split_on slash p) = Some i \<and> regular_at w i"
  by (auto simp: snapshot_true_def regular_at_def)

lemma readSourceFile_true:
  assumes "readSourceFile h root p w = (Inr (content, digest), w')" and "isSafeRelativePath p"
  shows "(\<exists>mode. file_at w root p content mode) \<and> digest = hex_encode (ho_sha256 h content) \<and> same_disk w w'"
proof -
  from assms(1) obtain s where read: "readRootRegularFile h root p False ''source'' w = (Inr s, w')"
    and s: "content = sp_content s" "digest = sp_digest s"
    by (auto simp: readSourceFile_def io_success)
  from readRootRegularFile_true [OF read safe_plain [OF assms(2)]] have s_true: "snapshot_true h w root (split_on slash p) s"
    and found: "sp_exists s" and disk: "same_disk w w'" by auto
  from snapshot_file [OF s_true found] disk show ?thesis unfolding s by blast
qed

lemma inspectDestination_true:
  "inspectDestination h root p w = (Inr s, w') \<Longrightarrow> isSafeRelativePath p \<Longrightarrow>
     snapshot_true h w root (split_on slash p) s \<and> same_disk w w'"
  using readRootRegularFile_true [of h root p True "''destination''" w s w'] safe_plain [of p]
  by (auto simp: inspectDestination_def)

definition loaded :: "host \<Rightarrow> provenance json_decoder \<Rightarrow> world \<Rightarrow> inode \<Rightarrow> string \<Rightarrow> provenance \<Rightarrow> file_snapshot \<Rightarrow> bool" where
  "loaded h js w root path p s = (snapshot_true h w root (split_on slash path) s \<and>
     (if sp_exists s then decodeJSON js (sp_content s) = Inr p \<and> provenance_ok p \<and>
        collision_free (map pe_destination (pv_entries p) @ [path])
      else p = empty_provenance))"

lemma collision_result_ok:
  assumes "collision_result (validatePathCollisions ds p) = Inr ()" and "list_all plain_path (ds @ [p])"
  shows "collision_free (ds @ [p])"
proof -
  obtain r where "validatePathCollisions ds p = Some r" "r = Inr () \<longleftrightarrow> collision_free (ds @ [p])"
    by (rule validatePathCollisions_iff [OF assms(2)])
  with assms(1) show ?thesis by (simp add: collision_result_def)
qed

lemma safe_paths_plain: "\<forall>p \<in> set ps. isSafeRelativePath p \<Longrightarrow> list_all plain_path ps"
  by (auto simp: list_all_iff safe_plain)

lemma loadProvenance_true:
  assumes "loadProvenance h js root path w = (Inr (p, s), w')" and "isSafeRelativePath path"
  shows "loaded h js w root path p s \<and> same_disk w w'"
proof -
  from assms(1) obtain s0 w1 where read: "readRootRegularFile h root path True ''provenance'' w = (Inr s0, w1)"
    and rest: "(if \<not> sp_exists s0 then io_return (empty_provenance, s0)
       else io_bind (io_lift (decodeJSON js (sp_content s0))) (\<lambda>p.
         io_bind (io_lift (validateProvenance p)) (\<lambda>_.
         io_bind (io_lift (collision_result
           (validatePathCollisions (map pe_destination (pv_entries p)) path))) (\<lambda>_.
         io_return (p, s0))))) w1 = (Inr (p, s), w')"
    unfolding loadProvenance_def by (subst (asm) io_bind_success) blast
  from readRootRegularFile_true [OF read safe_plain [OF assms(2)]]
  have s0: "snapshot_true h w root (split_on slash path) s0" by simp
  have disk: "same_disk w w'" by (rule reads_outcome [OF reads_load assms(1)])
  show ?thesis
  proof (cases "sp_exists s0")
    case False
    with rest s0 disk show ?thesis by (auto simp: loaded_def io_success)
  next
    case True
    with rest have steps: "decodeJSON js (sp_content s0) = Inr p" "validateProvenance p = Inr ()" "s = s0"
      "collision_result (validatePathCollisions (map pe_destination (pv_entries p)) path) = Inr ()"
      by (auto simp: io_success)
    have ok: "provenance_ok p" using steps(2) by (simp add: validateProvenance_iff)
    have "list_all plain_path (map pe_destination (pv_entries p) @ [path])"
      using ok assms(2) by (intro safe_paths_plain) (auto simp: provenance_ok_def)
    from collision_result_ok [OF steps(4) this] s0 True steps ok disk show ?thesis by (simp add: loaded_def)
  qed
qed

text \<open>An entry with the content of its source.\<close>

definition prepared_true :: "host \<Rightarrow> world \<Rightarrow> inode \<Rightarrow> entry \<Rightarrow> prepared_entry \<Rightarrow> bool" where
  "prepared_true h w src e p = (pr_entry p = e \<and> (\<exists>mode. file_at w src (en_source e) (pr_content p) mode) \<and>
     pr_digest p = hex_encode (ho_sha256 h (pr_content p)) \<and> pr_previous p = no_file)"

lemma file_at_disk [disk_simps]: "same_disk w w' \<Longrightarrow> file_at w' root p = file_at w root p"
  by (simp add: file_at_def disk_simps fun_eq_iff)

lemma prepared_true_disk: "same_disk w w' \<Longrightarrow> prepared_true h w' src e p = prepared_true h w src e p"
  by (simp add: prepared_true_def disk_simps)

lemma prepare_entries_true:
  "prepare_entries h src es w = (Inr ps, w') \<Longrightarrow> \<forall>e \<in> set es. isSafeRelativePath (en_source e) \<Longrightarrow>
     list_all2 (prepared_true h w src) es ps"
proof (induction es arbitrary: w ps w')
  case Nil
  then show ?case by (simp add: io_success)
next
  case (Cons e es)
  from Cons.prems(1) obtain content digest w1 rest w2 where
    steps: "readSourceFile h src (en_source e) w = (Inr (content, digest), w1)" "prepare_entries h src es w1 = (Inr rest, w2)"
    and ps: "ps = \<lparr>pr_entry = e, pr_content = content, pr_digest = digest, pr_previous = no_file\<rparr> # rest"
    by (auto simp: io_success)
  from readSourceFile_true [OF steps(1)] Cons.prems(2)
  have one: "\<exists>mode. file_at w src (en_source e) content mode" "digest = hex_encode (ho_sha256 h content)"
    and disk: "same_disk w w1" by auto
  from Cons.IH [OF steps(2)] Cons.prems(2) have "list_all2 (prepared_true h w1 src) es rest" by simp
  then have "list_all2 (prepared_true h w src) es rest" by (simp add: prepared_true_disk [OF disk] cong: list.rel_cong)
  moreover have "prepared_true h w src e \<lparr>pr_entry = e, pr_content = content, pr_digest = digest, pr_previous = no_file\<rparr>"
    using one by (simp add: prepared_true_def)
  ultimately show ?case unfolding ps by simp
qed

text \<open>An entry whose destination was looked at: compared in check mode, and taken as the previous file otherwise.\<close>

definition inspected_true ::
  "host \<Rightarrow> world \<Rightarrow> inode \<Rightarrow> bool \<Rightarrow> (string, provenance_entry) gomap \<Rightarrow> prepared_entry \<Rightarrow> prepared_entry \<Rightarrow> bool" where
  "inspected_true h w root check managed p p' =
     (let destination = en_destination (pr_entry p) in
      pr_entry p' = pr_entry p \<and> pr_content p' = pr_content p \<and>
      (if check then (\<exists>content mode. file_at w root destination content mode \<and> hex_encode (ho_sha256 h content) = pr_digest p)
       else (case map_get managed destination of
           None \<Rightarrow> pr_previous p' = pr_previous p \<and> nothing_at w root (split_on slash destination)
         | Some entry \<Rightarrow> snapshot_true h w root (split_on slash destination) (pr_previous p') \<and> sp_exists (pr_previous p') \<and>
             sp_digest (pr_previous p') = pe_sha256 entry)))"

lemma inspect_prepared_true:
  assumes "inspect_prepared h root check managed p w = (Inr p', w')" and "isSafeRelativePath (en_destination (pr_entry p))"
  shows "inspected_true h w root check managed p p' \<and> same_disk w w'"
proof -
  let ?d = "en_destination (pr_entry p)"
  obtain s w1 where look: "inspectDestination h root ?d w = (Inr s, w1)"
    using assms(1) by (auto simp: inspect_prepared_def Let_def io_success)
  from inspectDestination_true [OF look assms(2)] have s: "snapshot_true h w root (split_on slash ?d) s" and disk: "same_disk w w1" by simp_all
  have run: "(if sp_exists s \<and> map_get managed ?d = None
        then io_fail (Errorf ''unmanaged destination already exists'' [?d])
        else if check then
          (if \<not> sp_exists s then io_fail (Errorf ''content drift for destination: file is missing'' [?d])
           else if sp_digest s \<noteq> pr_digest p then io_fail (Errorf ''content drift for destination'' [?d])
           else io_return p)
        else (case map_get managed ?d of
             None \<Rightarrow> io_return p
           | Some entry \<Rightarrow>
               if \<not> sp_exists s \<or> sp_digest s \<noteq> pe_sha256 entry
               then io_fail (Errorf ''managed destination drift'' [?d])
               else io_return (p\<lparr>pr_previous := s\<rparr>))) w1 = (Inr p', w')"
    using assms(1) look by (simp add: inspect_prepared_def Let_def io_bind_def)
  from s have missing: "\<not> sp_exists s \<Longrightarrow> nothing_at w root (split_on slash ?d)" by (simp add: snapshot_true_def)
  note found = snapshot_file [OF s]
  show ?thesis
  proof (cases check)
    case True
    with run found disk show ?thesis
      by (auto simp: inspected_true_def io_success split: if_splits)
  next
    case False
    with run s missing disk show ?thesis
      by (auto simp: inspected_true_def io_success split: if_splits option.splits)
  qed
qed

lemma nothing_disk: "same_disk w w' \<Longrightarrow> inspected_true h w' root check managed p p' = inspected_true h w root check managed p p'"
  by (simp add: inspected_true_def disk_simps Let_def cong: option.case_cong)

lemma inspect_all_true:
  "inspect_all h root check managed ps w = (Inr ps', w') \<Longrightarrow> \<forall>p \<in> set ps. isSafeRelativePath (en_destination (pr_entry p)) \<Longrightarrow>
     list_all2 (inspected_true h w root check managed) ps ps'"
proof (induction ps arbitrary: w ps' w')
  case Nil
  then show ?case by (simp add: io_success)
next
  case (Cons p ps)
  from Cons.prems(1) obtain p1 w1 rest w2 where
    steps: "inspect_prepared h root check managed p w = (Inr p1, w1)" "inspect_all h root check managed ps w1 = (Inr rest, w2)"
    and ps': "ps' = p1 # rest"
    by (auto simp: io_success)
  from inspect_prepared_true [OF steps(1)] Cons.prems(2) have one: "inspected_true h w root check managed p p1"
    and disk: "same_disk w w1" by auto
  from Cons.IH [OF steps(2)] Cons.prems(2) have "list_all2 (inspected_true h w1 root check managed) ps rest" by simp
  then have "list_all2 (inspected_true h w root check managed) ps rest" by (simp add: nothing_disk [OF disk] cong: list.rel_cong)
  with one show ?case unfolding ps' by simp
qed

section \<open>What has been checked when a run reaches its end\<close>

record sync_review =
  rw_src :: inode
  rw_root :: inode
  rw_existing :: provenance
  rw_snapshot :: file_snapshot
  rw_unsorted :: "prepared_entry list"
  rw_bytes :: string
  rw_inspected :: "prepared_entry list"

definition recorded :: "manifest \<Rightarrow> options \<Rightarrow> sync_review \<Rightarrow> provenance" where
  "recorded m opts rw = desired_provenance m opts (sort_prepared (rw_unsorted rw))"

definition reviewed ::
  "host \<Rightarrow> provenance json_decoder \<Rightarrow> (provenance \<Rightarrow> sync_error + string) \<Rightarrow> manifest \<Rightarrow> options \<Rightarrow> world \<Rightarrow> sync_review \<Rightarrow> bool" where
  "reviewed h js render m opts w rw = (manifest_ok m \<and> validateOptions opts = Inr () \<and>
     collision_free (map en_destination (mf_entries m) @ [op_provenance_path opts]) \<and>
     ho_name h (op_source_root opts) = Some (rw_src rw) \<and> ho_name h (op_destination_root opts) = Some (rw_root rw) \<and>
     loaded h js w (rw_root rw) (op_provenance_path opts) (rw_existing rw) (rw_snapshot rw) \<and>
     (sp_exists (rw_snapshot rw) \<longrightarrow> pv_source_repository (rw_existing rw) = mf_source_repository m) \<and>
     check_removed m (rw_existing rw) = Inr () \<and>
     list_all2 (prepared_true h w (rw_src rw)) (mf_entries m) (rw_unsorted rw) \<and>
     marshalProvenance render (recorded m opts rw) = Inr (rw_bytes rw) \<and>
     list_all2 (inspected_true h w (rw_root rw) (op_check opts) (managed_entries (rw_existing rw)))
       (sort_prepared (rw_unsorted rw)) (rw_inspected rw))"

lemma loaded_disk: "same_disk w w' \<Longrightarrow> loaded h js w' root path p s = loaded h js w root path p s"
  by (simp add: loaded_def disk_simps)

lemma options_safe: "validateOptions opts = Inr () \<Longrightarrow> isSafeRelativePath (op_provenance_path opts)"
  by (auto simp: validateOptions_def split: if_splits)

lemma io_bind_late:
  assumes "io_bind m k w1 = (r, w')" and "same_disk w w1" and "reads m" and "\<not> early w r w'"
  obtains x w2 where "m w1 = (Inr x, w2)" "same_disk w w2" "k x w2 = (r, w')"
  by (rule io_bind_reads [OF assms(1-3)]) (use assms(4) in \<open>auto intro: that\<close>)

lemma io_lift_late:
  assumes "io_bind (io_lift v) k w1 = (r, w')" and "same_disk w w1" and "\<not> early w r w'"
  obtains x where "v = Inr x" "k x w1 = (r, w')"
  using io_bind_late [OF assms(1,2) reads_basic(4) assms(3)] by (auto simp: io_lift_def)

lemma io_check_late:
  assumes "io_bind (io_check c e) k w1 = (r, w')" and "same_disk w w1" and "\<not> early w r w'"
  shows "c \<and> k () w1 = (r, w')"
  using io_bind_late [OF assms(1,2) reads_basic(3) assms(3)] by (auto simp: io_check_success)

lemma sorted_safe:
  assumes "manifest_ok m" and "list_all2 (prepared_true h w src) (mf_entries m) unsorted"
  shows "\<forall>p \<in> set (sort_prepared unsorted). isSafeRelativePath (en_destination (pr_entry p))"
proof
  fix p
  assume "p \<in> set (sort_prepared unsorted)"
  then have "p \<in> set unsorted" by (simp add: sort_prepared_def)
  from placed_list(1) [OF assms(2) this] obtain e where "e \<in> set (mf_entries m)" "prepared_true h w src e p" by blast
  with assms(1) show "isSafeRelativePath (en_destination (pr_entry p))" by (simp add: manifest_ok_def prepared_true_def)
qed

text \<open>How a run ends: compared, or published.\<close>

definition ended :: "host \<Rightarrow> options \<Rightarrow> sync_review \<Rightarrow> world \<Rightarrow> sync_error + unit \<Rightarrow> world \<Rightarrow> bool" where
  "ended h opts rw w r w' =
     (if op_check opts
      then same_disk w w' \<and> (r = Inr () \<longrightarrow> sp_exists (rw_snapshot rw) \<and> sp_content (rw_snapshot rw) = rw_bytes rw)
      else publish h (rw_root rw) (publications opts (rw_inspected rw) (rw_bytes rw) (rw_snapshot rw)) w = (r, w'))"

text \<open>Reaching the end from the prepared entries, from the roots, and from the start.\<close>

lemma sync_prepared_late:
  assumes run: "sync_prepared h render m opts root existing snapshot prepared w1 = (r, w')" and disk: "same_disk w w1"
    and late: "\<not> early w r w'" and safe: "\<forall>p \<in> set prepared. isSafeRelativePath (en_destination (pr_entry p))"
  shows "\<exists>bytes inspected w2. same_disk w w2 \<and> marshalProvenance render (desired_provenance m opts prepared) = Inr bytes \<and>
    list_all2 (inspected_true h w root (op_check opts) (managed_entries existing)) prepared inspected \<and>
    finish_sync h opts root snapshot bytes inspected w2 = (r, w')"
proof -
  from io_lift_late [OF run [unfolded sync_prepared_def] disk late]
  obtain bytes where bytes: "marshalProvenance render (desired_provenance m opts prepared) = Inr bytes"
    and run1: "io_bind (inspect_all h root (op_check opts) (managed_entries existing) prepared)
      (finish_sync h opts root snapshot bytes) w1 = (r, w')" by metis
  from io_bind_late [OF run1 disk reads_inspect_all late]
  obtain inspected w2 where inspect: "inspect_all h root (op_check opts) (managed_entries existing) prepared w1 = (Inr inspected, w2)"
    and rest: "same_disk w w2" "finish_sync h opts root snapshot bytes inspected w2 = (r, w')" by metis
  from inspect_all_true [OF inspect safe] have "list_all2 (inspected_true h w root (op_check opts) (managed_entries existing)) prepared inspected"
    by (simp add: nothing_disk [OF disk] cong: list.rel_cong)
  with bytes rest show ?thesis by blast
qed

lemma sync_roots_late:
  assumes run: "sync_roots h js render m opts src root w1 = (r, w')" and disk: "same_disk w w1"
    and late: "\<not> early w r w'" and m: "manifest_ok m" and opts: "validateOptions opts = Inr ()"
  shows "\<exists>existing snapshot unsorted w2. same_disk w w2 \<and> loaded h js w root (op_provenance_path opts) existing snapshot \<and>
    (sp_exists snapshot \<longrightarrow> pv_source_repository existing = mf_source_repository m) \<and> check_removed m existing = Inr () \<and>
    list_all2 (prepared_true h w src) (mf_entries m) unsorted \<and>
    sync_prepared h render m opts root existing snapshot (sort_prepared unsorted) w2 = (r, w')"
proof -
  obtain loaded_pair w2 where load: "loadProvenance h js root (op_provenance_path opts) w1 = (Inr loaded_pair, w2)"
    and disk2: "same_disk w w2" and run2: "(case loaded_pair of (existing, snapshot) \<Rightarrow>
     io_bind (io_check (\<not> (sp_exists snapshot \<and> pv_source_repository existing \<noteq> mf_source_repository m))
       (Errorf ''existing provenance belongs to different source repository'' [pv_source_repository existing])) (\<lambda>_.
     io_bind (io_lift (check_removed m existing)) (\<lambda>_. io_bind (prepare_entries h src (mf_entries m)) (\<lambda>unsorted.
     sync_prepared h render m opts root existing snapshot (sort_prepared unsorted))))) w2 = (r, w')"
    by (rule io_bind_late [OF run [unfolded sync_roots_def] disk reads_load late])
  obtain existing snapshot where pair: "loaded_pair = (existing, snapshot)" by (cases loaded_pair)
  have ok: "loaded h js w root (op_provenance_path opts) existing snapshot"
    using loadProvenance_true [OF load [unfolded pair] options_safe [OF opts]] by (simp add: loaded_disk [OF disk])
  note run3 = run2 [unfolded pair prod.case]
  from io_check_late [OF run3 disk2 late] have source: "sp_exists snapshot \<longrightarrow> pv_source_repository existing = mf_source_repository m"
    and run4: "io_bind (io_lift (check_removed m existing)) (\<lambda>_. io_bind (prepare_entries h src (mf_entries m)) (\<lambda>unsorted.
     sync_prepared h render m opts root existing snapshot (sort_prepared unsorted))) w2 = (r, w')" by blast+
  from io_lift_late [OF run4 disk2 late] have removed: "check_removed m existing = Inr ()"
    and run5: "io_bind (prepare_entries h src (mf_entries m)) (\<lambda>unsorted.
     sync_prepared h render m opts root existing snapshot (sort_prepared unsorted)) w2 = (r, w')" by (metis (full_types) unit.exhaust)+
  from io_bind_late [OF run5 disk2 reads_prepare late]
  obtain unsorted w3 where prepare: "prepare_entries h src (mf_entries m) w2 = (Inr unsorted, w3)" and disk3: "same_disk w w3"
    and rest: "sync_prepared h render m opts root existing snapshot (sort_prepared unsorted) w3 = (r, w')" by metis
  have "\<forall>e \<in> set (mf_entries m). isSafeRelativePath (en_source e)" using m by (simp add: manifest_ok_def)
  from prepare_entries_true [OF prepare this] have "list_all2 (prepared_true h w src) (mf_entries m) unsorted"
    by (simp add: prepared_true_disk [OF disk2] cong: list.rel_cong)
  with disk3 ok source removed rest show ?thesis by blast
qed

lemma Sync_late:
  assumes run: "Sync h js render m opts w = (r, w')" and late: "\<not> early w r w'"
  shows "\<exists>src root w1. same_disk w w1 \<and> manifest_ok m \<and> validateOptions opts = Inr () \<and>
    collision_free (map en_destination (mf_entries m) @ [op_provenance_path opts]) \<and>
    ho_name h (op_source_root opts) = Some src \<and> ho_name h (op_destination_root opts) = Some root \<and>
    sync_roots h js render m opts src root w1 = (r, w')"
proof -
  let ?open = "io_bind (openContainedRoot h ''source root'' (op_source_root opts)) (\<lambda>src.
     io_bind (openContainedRoot h ''destination root'' (op_destination_root opts)) (sync_roots h js render m opts src))"
  let ?collisions = "collision_result (validatePathCollisions (map en_destination (mf_entries m)) (op_provenance_path opts))"
  have run0: "io_bind (io_lift (ValidateManifest m)) (\<lambda>_. io_bind (io_lift (validateOptions opts)) (\<lambda>_.
      io_bind (io_lift ?collisions) (\<lambda>_. ?open))) w = (r, w')" using run by (simp add: Sync_def)
  from io_lift_late [OF run0 same_disk_refl late] have valid: "ValidateManifest m = Inr ()"
    and run1: "io_bind (io_lift (validateOptions opts)) (\<lambda>_. io_bind (io_lift ?collisions) (\<lambda>_. ?open)) w = (r, w')"
    by (metis (full_types) unit.exhaust)+
  from io_lift_late [OF run1 same_disk_refl late] have options: "validateOptions opts = Inr ()"
    and run2: "io_bind (io_lift ?collisions) (\<lambda>_. ?open) w = (r, w')" by (metis (full_types) unit.exhaust)+
  from io_lift_late [OF run2 same_disk_refl late] have free: "?collisions = Inr ()" and run3: "?open w = (r, w')"
    by (metis (full_types) unit.exhaust)+
  from io_bind_late [OF run3 same_disk_refl reads_root late]
  obtain src w1 where src: "openContainedRoot h ''source root'' (op_source_root opts) w = (Inr src, w1)" and disk1: "same_disk w w1"
    and run4: "io_bind (openContainedRoot h ''destination root'' (op_destination_root opts)) (sync_roots h js render m opts src) w1 = (r, w')"
    by metis
  from io_bind_late [OF run4 disk1 reads_root late]
  obtain root w2 where root: "openContainedRoot h ''destination root'' (op_destination_root opts) w1 = (Inr root, w2)"
    and rest: "same_disk w w2" "sync_roots h js render m opts src root w2 = (r, w')" by metis
  have m: "manifest_ok m" using valid by (simp add: ValidateManifest_iff)
  have "list_all plain_path (map en_destination (mf_entries m) @ [op_provenance_path opts])"
    using m options_safe [OF options] by (intro safe_paths_plain) (auto simp: manifest_ok_def)
  from collision_result_ok [OF free this] m options openContainedRoot_true [OF src] openContainedRoot_true [OF root] rest
  show ?thesis by blast
qed

lemma Sync_review:
  assumes run: "Sync h js render m opts w = (r, w')" and late: "\<not> early w r w'"
  shows "\<exists>rw w1. same_disk w w1 \<and> reviewed h js render m opts w rw \<and> ended h opts rw w1 r w'"
proof -
  from Sync_late [OF assms] obtain src root w1 where start: "same_disk w w1" "manifest_ok m" "validateOptions opts = Inr ()"
    "collision_free (map en_destination (mf_entries m) @ [op_provenance_path opts])"
    "ho_name h (op_source_root opts) = Some src" "ho_name h (op_destination_root opts) = Some root"
    and run1: "sync_roots h js render m opts src root w1 = (r, w')" by blast
  from sync_roots_late [OF run1 start(1) late start(2,3)] obtain existing snapshot unsorted w2 where
    middle: "same_disk w w2" "loaded h js w root (op_provenance_path opts) existing snapshot"
      "sp_exists snapshot \<longrightarrow> pv_source_repository existing = mf_source_repository m" "check_removed m existing = Inr ()"
      "list_all2 (prepared_true h w src) (mf_entries m) unsorted"
    and run2: "sync_prepared h render m opts root existing snapshot (sort_prepared unsorted) w2 = (r, w')" by blast
  from sync_prepared_late [OF run2 middle(1) late sorted_safe [OF start(2) middle(5)]] obtain bytes inspected w3 where
    finish: "same_disk w w3" "marshalProvenance render (desired_provenance m opts (sort_prepared unsorted)) = Inr bytes"
      "list_all2 (inspected_true h w root (op_check opts) (managed_entries existing)) (sort_prepared unsorted) inspected"
    and run3: "finish_sync h opts root snapshot bytes inspected w3 = (r, w')" by blast
  let ?rw = "\<lparr>rw_src = src, rw_root = root, rw_existing = existing, rw_snapshot = snapshot, rw_unsorted = unsorted,
    rw_bytes = bytes, rw_inspected = inspected\<rparr>"
  have "reviewed h js render m opts w ?rw" using start middle finish by (simp add: reviewed_def recorded_def)
  moreover have "ended h opts ?rw w3 r w'"
    using run3 by (auto simp: ended_def finish_sync_def io_fail_def io_return_def split: if_splits)
  ultimately show ?thesis using finish(1) by blast
qed

section \<open>The items a run publishes\<close>

lemma mset_insort_by: "mset (insort_by lt x ys) = add_mset x (mset ys)"
  by (induction ys) auto

lemma mset_sort_by: "mset (sort_by lt xs) = mset xs"
  by (induction xs) (simp_all add: sort_by_def mset_insort_by)

text \<open>The paths a run publishes to, and that none of them is named like an artifact.\<close>

definition sync_paths :: "manifest \<Rightarrow> options \<Rightarrow> string list" where
  "sync_paths m opts = map en_destination (mf_entries m) @ [op_provenance_path opts]"

definition no_artifact_paths :: "manifest \<Rightarrow> options \<Rightarrow> bool" where
  "no_artifact_paths m opts = list_all (\<lambda>p. \<not> artifact_name (last (split_on slash p))) (sync_paths m opts)"

abbreviation reviewed_items :: "options \<Rightarrow> sync_review \<Rightarrow> publication_item list" where
  "reviewed_items opts rw \<equiv> publications opts (rw_inspected rw) (rw_bytes rw) (rw_snapshot rw)"

lemma list_all2_map: "list_all2 P xs ys \<Longrightarrow> (\<And>x y. P x y \<Longrightarrow> f x = g y) \<Longrightarrow> map f xs = map g ys"
  by (induction rule: list_all2_induct) simp_all

lemma reviewed_entries:
  assumes "reviewed h js render m opts w rw"
  shows "mset (map pr_entry (rw_inspected rw)) = mset (mf_entries m)"
    and "map pr_entry (rw_inspected rw) = map pr_entry (sort_prepared (rw_unsorted rw))"
    and "map pr_entry (rw_unsorted rw) = mf_entries m"
proof -
  from assms have lists: "list_all2 (prepared_true h w (rw_src rw)) (mf_entries m) (rw_unsorted rw)"
    "list_all2 (inspected_true h w (rw_root rw) (op_check opts) (managed_entries (rw_existing rw)))
       (sort_prepared (rw_unsorted rw)) (rw_inspected rw)" by (simp_all add: reviewed_def)
  show sorted: "map pr_entry (rw_inspected rw) = map pr_entry (sort_prepared (rw_unsorted rw))"
    by (rule list_all2_map [OF lists(2), symmetric]) (simp add: inspected_true_def Let_def)
  show unsorted: "map pr_entry (rw_unsorted rw) = mf_entries m"
    using list_all2_map [OF lists(1), of "\<lambda>e. e" pr_entry] by (simp add: prepared_true_def)
  show "mset (map pr_entry (rw_inspected rw)) = mset (mf_entries m)"
    unfolding sorted unsorted [symmetric] sort_prepared_def by (simp add: mset_sort_by)
qed

lemma publication_paths:
  assumes "reviewed h js render m opts w rw"
  shows "mset (map pi_path (reviewed_items opts rw)) = mset (sync_paths m opts)"
proof -
  have "mset (map en_destination (map pr_entry (rw_inspected rw))) = mset (map en_destination (mf_entries m))"
    using reviewed_entries(1) [OF assms] by (metis mset_map)
  then show ?thesis by (simp add: publications_def sync_paths_def publication_of_def comp_def)
qed

lemma collision_free_mset: "mset ps = mset qs \<Longrightarrow> collision_free ps = collision_free qs"
  unfolding collision_free_def by (metis mset_eq_imp_distinct_iff mset_eq_setD)

lemma inspected_ready:
  assumes "inspected_true h w root False managed p p'" and "pr_previous p = no_file"
  shows "sp_exists (pr_previous p') \<longrightarrow> (\<exists>i. direct w root (split_on slash (en_destination (pr_entry p'))) = Some i \<and> regular_at w i)"
  using assms snapshot_previous [of h w root "en_destination (pr_entry p)" "pr_previous p'"]
  by (auto simp: inspected_true_def Let_def no_file_def split: option.splits)

lemma reviewed_ready:
  assumes rw: "reviewed h js render m opts w rw" and tree: "tree_at w (rw_root rw)" and "\<not> op_check opts"
    and names: "no_artifact_paths m opts"
  shows "publication_ready w (rw_root rw) (reviewed_items opts rw)"
proof -
  from rw have m: "manifest_ok m" and opts: "validateOptions opts = Inr ()" and free: "collision_free (sync_paths m opts)"
    by (simp_all add: reviewed_def sync_paths_def)
  have paths: "set (map pi_path (reviewed_items opts rw)) = set (sync_paths m opts)"
    using publication_paths [OF rw] by (metis mset_eq_setD)
  have safe: "\<forall>p \<in> set (sync_paths m opts). isSafeRelativePath p"
    using m options_safe [OF opts] by (auto simp: sync_paths_def manifest_ok_def)
  have previous: "sp_exists (pi_previous item) \<longrightarrow>
      (\<exists>i. direct w (rw_root rw) (split_on slash (pi_path item)) = Some i \<and> regular_at w i)"
    if "item \<in> set (reviewed_items opts rw)" for item
  proof -
    from that consider p' where "p' \<in> set (rw_inspected rw)" "pi_path item = en_destination (pr_entry p')" "pi_previous item = pr_previous p'"
      | "pi_path item = op_provenance_path opts" "pi_previous item = rw_snapshot rw"
      by (auto simp: publications_def publication_of_def)
    then show ?thesis
    proof cases
      case 1
      from rw have "list_all2 (inspected_true h w (rw_root rw) False (managed_entries (rw_existing rw)))
        (sort_prepared (rw_unsorted rw)) (rw_inspected rw)" using assms(3) by (simp add: reviewed_def)
      from placed_list(1) [OF this 1(1)] obtain p where p: "p \<in> set (sort_prepared (rw_unsorted rw))"
        "inspected_true h w (rw_root rw) False (managed_entries (rw_existing rw)) p p'" by blast
      have "p \<in> set (rw_unsorted rw)" using p(1) by (simp add: sort_prepared_def)
      moreover have "list_all2 (prepared_true h w (rw_src rw)) (mf_entries m) (rw_unsorted rw)" using rw by (simp add: reviewed_def)
      ultimately have "pr_previous p = no_file" using placed_list(1) by (fastforce simp: prepared_true_def)
      from inspected_ready [OF p(2) this] 1 show ?thesis by simp
    next
      case 2
      from rw have "snapshot_true h w (rw_root rw) (split_on slash (op_provenance_path opts)) (rw_snapshot rw)"
        by (simp add: reviewed_def loaded_def)
      from snapshot_previous [OF this] 2 show ?thesis by simp
    qed
  qed
  have "item_ready w (rw_root rw) item" if item: "item \<in> set (reviewed_items opts rw)" for item
  proof -
    have "pi_path item \<in> set (sync_paths m opts)" using paths item by auto
    with safe names have "plain_path (pi_path item)" "\<not> artifact_name (last (split_on slash (pi_path item)))"
      by (auto simp: safe_plain no_artifact_paths_def list_all_iff)
    moreover have "untouched item" using item by (auto simp: publications_def publication_of_def untouched_def)
    ultimately show ?thesis using previous [OF item] by (simp add: item_ready_def)
  qed
  with tree free collision_free_mset [OF publication_paths [OF rw]] show ?thesis by (simp add: publication_ready_def)
qed

section \<open>The outcome of a run\<close>

lemma older_same: "same_disk w w1 \<Longrightarrow> older w1 w' = older w w'"
  by (simp add: older_def disk_simps same_disk_next)

lemma publication_outcome_same: "same_disk w w1 \<Longrightarrow> publication_outcome w1 root items r w' = publication_outcome w root items r w'"
  by (simp add: publication_outcome_def older_same all_in_place_def unharmed_def nothing_lost_def disk_simps)

lemma Sync_outcome:
  assumes run: "Sync h js render m opts w = (r, w')" and "\<not> op_check opts" and late: "\<not> early w r w'"
    and root: "ho_name h (op_destination_root opts) = Some root" and tree: "tree_at w root"
    and quiet: "quiet_hook h" and names: "no_artifact_paths m opts"
  shows "\<exists>rw. reviewed h js render m opts w rw \<and> rw_root rw = root \<and>
    publication_outcome w root (reviewed_items opts rw) (error_of r) w'"
proof -
  from Sync_review [OF run late] obtain rw w1 where disk: "same_disk w w1" and rw: "reviewed h js render m opts w rw"
    and ended: "ended h opts rw w1 r w'" by blast
  have at_root: "rw_root rw = root" using rw root by (simp add: reviewed_def)
  have "publication_ready w root (reviewed_items opts rw)"
    using reviewed_ready [OF rw _ assms(2) names] tree at_root by simp
  then have publication_ready: "publication_ready w1 root (reviewed_items opts rw)"
    by (simp add: publication_ready_def tree_same_disk [OF disk] item_ready_def disk_simps [OF disk] regular_at_def)
  obtain e w2 where publish: "publishTransaction h root (reviewed_items opts rw) w1 = (e, w2)" by (metis prod.exhaust)
  have "publish h root (reviewed_items opts rw) w1 = (r, w')" using ended assms(2) at_root by (simp add: ended_def)
  with publish have "error_of r = e" "w' = w2" by (auto simp: publish_def split: option.splits)
  with publishTransaction_outcome [OF publish publication_ready quiet] publication_outcome_same [OF disk] rw at_root
  show ?thesis by auto
qed

end
