(* ===== verification/SyncRoundTrip.thy ===== *)
theory SyncRoundTrip
  imports SyncSound
begin

text \<open>
  Reading without faults in \<open>internal/coresync/sync.go\<close>: what is on the disk is found, so that \<open>Verify\<close>
  accepts what \<open>Sync\<close> has published; and what an accepting \<open>Verify\<close> says of the disk.
\<close>

section \<open>Reading what is there\<close>

definition steady :: "host \<Rightarrow> bool" where
  "steady h = (\<forall>n. ho_fault h n = None)"

lemma os_op_steady: "steady h \<Longrightarrow> f (w\<lparr>w_tick := Suc (w_tick w)\<rparr>) = Inr (x, w') \<Longrightarrow> os_op h f w = (Inr x, w')"
  by (simp add: os_op_def steady_def)

text \<open>A step that reads and gives this value.\<close>

definition yields :: "'a io \<Rightarrow> world \<Rightarrow> 'a \<Rightarrow> bool" where
  "yields m w x = (\<exists>w'. m w = (Inr x, w') \<and> same_disk w w')"

lemma yields_return: "yields (io_return x) w x"
  by (simp add: yields_def io_return_def)

lemma yields_check: "c \<Longrightarrow> yields (io_check c e) w ()"
  by (simp add: yields_def io_check_def io_return_def)

lemma yields_lift: "v = Inr x \<Longrightarrow> yields (io_lift v) w x"
  by (simp add: yields_def io_lift_def)

lemma yields_bind:
  assumes "yields m w x" and "\<And>w'. same_disk w w' \<Longrightarrow> yields (k x) w' y"
  shows "yields (io_bind m k) w y"
proof -
  from assms(1) obtain w' where w': "m w = (Inr x, w')" "same_disk w w'" by (auto simp: yields_def)
  from assms(2) [OF w'(2)] obtain w'' where "k x w' = (Inr y, w'')" "same_disk w' w''" by (auto simp: yields_def)
  with w' show ?thesis by (auto simp: yields_def io_bind_def intro: same_disk_trans)
qed

lemma yields_try: "yields m w x \<Longrightarrow> yields (io_try m) w (Inr x)"
  by (auto simp: yields_def io_try_def)

lemma yields_os_op: "steady h \<Longrightarrow> f (w\<lparr>w_tick := Suc (w_tick w)\<rparr>) = Inr (x, w\<lparr>w_tick := Suc (w_tick w)\<rparr>) \<Longrightarrow> yields (os_op h f) w x"
  by (auto simp: yields_def os_op_steady)

lemma Lstat_yields:
  "steady h \<Longrightarrow> walk w root (path_components p) = Inr i \<Longrightarrow> node_at w i = Some n \<Longrightarrow> yields (Lstat h root p) w (info_of i n)"
  unfolding Lstat_def by (rule yields_os_op) (simp_all add: err_simps stat_inode_def)

lemma OpenFileRead_yields:
  "steady h \<Longrightarrow> walk w root (path_components p) = Inr i \<Longrightarrow> node_at w i = Some (RegularFile content mode) \<Longrightarrow>
     yields (OpenFileRead h root p) w i"
  unfolding OpenFileRead_def by (rule yields_os_op) (simp_all add: err_simps follow_def)

lemma StatHandle_yields: "steady h \<Longrightarrow> node_at w i = Some n \<Longrightarrow> yields (StatHandle h i) w (info_of i n)"
  unfolding StatHandle_def by (rule yields_os_op) (simp_all add: err_simps stat_inode_def)

lemma ReadAll_yields: "steady h \<Longrightarrow> node_at w i = Some (RegularFile content mode) \<Longrightarrow> yields (ReadAll h i) w content"
  unfolding ReadAll_def by (rule yields_os_op) simp_all

lemma direct_prefix:
  assumes "direct w root (cs @ part # parts) = Some i"
  obtains d j where "direct w root cs = Some d" "node_at w d = Some Directory" "entry_at w d part = Some j"
    "direct w j parts = Some i" "parts \<noteq> [] \<Longrightarrow> node_at w j = Some Directory"
proof -
  have "\<exists>d j. direct w root cs = Some d \<and> node_at w d = Some Directory \<and> entry_at w d part = Some j \<and> direct w j parts = Some i"
    using assms by (induction cs arbitrary: root) (auto split: if_splits option.splits)
  then obtain d j where dj: "direct w root cs = Some d" "node_at w d = Some Directory" "entry_at w d part = Some j" "direct w j parts = Some i"
    by blast
  then have "parts \<noteq> [] \<Longrightarrow> node_at w j = Some Directory" by (cases parts) (auto split: if_splits)
  with dj that show ?thesis by blast
qed

lemma walk_direct:
  assumes "direct w root cs = Some i" and "cs \<noteq> []"
  shows "walk w root cs = Inr i"
proof -
  obtain ds c where cs: "cs = ds @ [c]" using assms(2) by (cases cs rule: rev_cases) auto
  from assms(1) obtain d where d: "direct w root ds = Some d" "node_at w d = Some Directory" "entry_at w d c = Some i"
    unfolding cs by (rule direct_prefix) simp
  then have "come_to w root ds d" by (simp add: come_to_def)
  from walk_come_to [OF this, of c "[]"] d show ?thesis by (simp add: cs)
qed

lemma reject_components_yields:
  assumes "steady h" and "direct w root (cs @ parts) = Some i" and "node_at w i = Some (RegularFile content mode)"
    and "list_all component (cs @ parts)"
  shows "yields (reject_components h root am (join_with slash cs) parts) w ()"
  using assms(2-4)
proof (induction parts arbitrary: cs w)
  case Nil
  then show ?case by (simp add: yields_return)
next
  case (Cons part parts)
  from Cons.prems(1) obtain d j where j: "direct w root cs = Some d" "node_at w d = Some Directory" "entry_at w d part = Some j"
    "direct w j parts = Some i" "parts \<noteq> [] \<Longrightarrow> node_at w j = Some Directory" by (rule direct_prefix) blast
  have comps: "list_all component (cs @ [part])" using Cons.prems(3) by simp
  have join: "Join [join_with slash cs, part] = join_with slash (cs @ [part])" by (rule Join_components [OF comps])
  have path: "path_components (join_with slash (cs @ [part])) = cs @ [part]" by (rule path_components_join [OF _ comps]) simp
  have at: "direct w root (cs @ [part]) = Some j" using j(1-3) by (simp add: direct_snoc)
  obtain n where n: "node_at w j = Some n" "kind_of n \<noteq> KindSymlink" "parts \<noteq> [] \<longrightarrow> kind_of n = KindDirectory"
    using j(4,5) Cons.prems(2) by (cases "parts = []") (auto simp: kind_of_def)
  have "yields (Lstat h root (join_with slash (cs @ [part]))) w (info_of j n)"
    by (rule Lstat_yields [OF assms(1) _ n(1)]) (simp add: path walk_direct [OF at])
  moreover have "yields (reject_components h root am (join_with slash (cs @ [part])) parts) w' ()" if "same_disk w w'" for w'
    by (rule Cons.IH) (use Cons.prems that in \<open>simp_all add: disk_simps\<close>)
  ultimately show ?case
    unfolding reject_components.simps join Let_def using n(2,3) by (intro yields_bind [OF yields_try]) auto
qed

lemma same_infos: "SameFile (info_of i n) (info_of i m)"
  by (simp add: SameFile_def)

lemma read_yields:
  assumes "steady h" and "plain_path p" and "file_at w root p content mode"
  shows "\<exists>s. yields (readRootRegularFile h root p am label) w s \<and> sp_exists s \<and> sp_content s = content \<and>
    sp_digest s = hex_encode (ho_sha256 h content)"
proof -
  let ?cs = "split_on slash p"
  from assms(3) obtain i where i: "direct w root ?cs = Some i" "node_at w i = Some (RegularFile content mode)"
    by (auto simp: file_at_def)
  have "p \<noteq> dot" using assms(2) by (simp add: plain_path_iff)
  then have comps: "list_all component ?cs" "path_components p = ?cs" "?cs \<noteq> []"
    using assms(2) plain_split [OF assms(2)] by (simp_all add: plain_path_def path_components_def)
  have scan: "yields (rejectSymlinkComponents h root p am) w ()"
    using reject_components_yields [OF assms(1), of w root "[]" ?cs i content mode am] i comps(1)
    by (simp add: rejectSymlinkComponents_def)
  have stat: "yields (Lstat h root p) w' (info_of i (RegularFile content mode))" if "same_disk w w'" for w'
    by (rule Lstat_yields [OF assms(1)]) (use i comps that walk_direct [OF i(1) comps(3)] in \<open>simp_all add: disk_simps\<close>)
  have walk: "walk w root (path_components p) = Inr i" using comps walk_direct [OF i(1)] by simp
  have opened: "yields (read_opened h root p label (info_of i (RegularFile content mode))) w'
      \<lparr>sp_exists = True, sp_content = content, sp_mode = mode, sp_digest = hex_encode (ho_sha256 h content),
       sp_info = Some (info_of i (RegularFile content mode))\<rparr>" if disk: "same_disk w w'" for w'
    unfolding read_opened_def
    apply (rule yields_bind [OF OpenFileRead_yields [OF assms(1), where i = i and content = content and mode = mode]])
    subgoal using walk disk by (simp add: disk_simps)
    subgoal using i disk by (simp add: disk_simps)
    apply (rule yields_bind [OF StatHandle_yields [OF assms(1), where n = "RegularFile content mode"]])
    subgoal for w2 using i disk by (simp add: disk_simps)
    apply (rule yields_bind [OF yields_check], simp add: kind_of_def)
    apply (rule yields_bind [OF yields_check], simp add: same_infos)
    apply (rule yields_bind [OF ReadAll_yields [OF assms(1), where content = content and mode = mode]])
    subgoal for w2 w3 w4 w5 using i disk by (simp add: disk_simps)
    apply (rule yields_bind [OF yields_try [OF stat]])
    subgoal for w2 w3 w4 w5 w6 using disk by (blast intro: same_disk_trans)
    apply (rule yields_bind [OF yields_check], simp add: same_infos)
    apply (simp add: perm_of_def yields_return)
    done
  have "yields (readRootRegularFile h root p am label) w
      \<lparr>sp_exists = True, sp_content = content, sp_mode = mode, sp_digest = hex_encode (ho_sha256 h content),
       sp_info = Some (info_of i (RegularFile content mode))\<rparr>"
    unfolding readRootRegularFile_def
    by (rule yields_bind [OF scan], rule yields_bind [OF yields_try [OF stat]])
      (auto simp: kind_of_def intro: opened same_disk_trans)
  then show ?thesis by auto
qed

section \<open>Verification\<close>

definition entry_matches :: "host \<Rightarrow> world \<Rightarrow> inode \<Rightarrow> provenance_entry \<Rightarrow> bool" where
  "entry_matches h w root e =
     (\<exists>content mode. file_at w root (pe_destination e) content mode \<and> hex_encode (ho_sha256 h content) = pe_sha256 e)"

text \<open>What \<open>Verify\<close> is to accept.\<close>

definition tree_verified :: "host \<Rightarrow> provenance json_decoder \<Rightarrow> world \<Rightarrow> inode \<Rightarrow> string \<Rightarrow> bool" where
  "tree_verified h js w root path = (\<exists>p content mode. file_at w root path content mode \<and> decodeJSON js content = Inr p \<and>
     provenance_ok p \<and> collision_free (map pe_destination (pv_entries p) @ [path]) \<and>
     (\<forall>e \<in> set (pv_entries p). entry_matches h w root e))"

lemma entry_matches_disk: "same_disk w w' \<Longrightarrow> entry_matches h w' root e = entry_matches h w root e"
  by (simp add: entry_matches_def disk_simps)

lemma verify_entries_true:
  "verify_entries h root es w = (Inr u, w') \<Longrightarrow> \<forall>e \<in> set es. isSafeRelativePath (pe_destination e) \<Longrightarrow>
     \<forall>e \<in> set es. entry_matches h w root e"
proof (induction es arbitrary: w)
  case (Cons e es)
  from Cons.prems(1) obtain s w1 where look: "inspectDestination h root (pe_destination e) w = (Inr s, w1)"
    and ok: "sp_exists s" "sp_digest s = pe_sha256 e" and rest: "verify_entries h root es w1 = (Inr u, w')"
    by (auto simp: io_success split: if_splits)
  from inspectDestination_true [OF look] Cons.prems(2) have s: "snapshot_true h w root (split_on slash (pe_destination e)) s"
    and disk: "same_disk w w1" by simp_all
  have "entry_matches h w root e" using snapshot_file [OF s ok(1)] ok(2) by (auto simp: entry_matches_def)
  with Cons.IH [OF rest] Cons.prems(2) show ?case by (simp add: entry_matches_disk [OF disk])
qed simp

lemma VerifyTree_true:
  assumes "VerifyTree h js name path w = (Inr u, w')"
  shows "trim_space name \<noteq> [] \<and> isSafeRelativePath path \<and>
    (\<exists>root. ho_name h name = Some root \<and> node_at w root = Some Directory \<and> tree_verified h js w root path)"
proof -
  from assms obtain root w1 p s w2 where safe: "trim_space name \<noteq> []" "isSafeRelativePath path"
    and opened: "openContainedRoot h ''destination root'' name w = (Inr root, w1)"
    and load: "loadProvenance h js root path w1 = (Inr (p, s), w2)" and found: "sp_exists s"
    and verify: "verify_entries h root (pv_entries p) w2 = (Inr u, w')"
    by (auto simp: VerifyTree_def io_success)
  from openContainedRoot_true [OF opened] have root: "ho_name h name = Some root" "node_at w root = Some Directory"
    and disk1: "same_disk w w1" by simp_all
  from loadProvenance_true [OF load safe(2)] have "loaded h js w1 root path p s" and disk2: "same_disk w1 w2" by simp_all
  with found have p: "snapshot_true h w root (split_on slash path) s" "decodeJSON js (sp_content s) = Inr p" "provenance_ok p"
    "collision_free (map pe_destination (pv_entries p) @ [path])"
    by (simp_all add: loaded_def disk_simps [OF disk1])
  have "\<forall>e \<in> set (pv_entries p). isSafeRelativePath (pe_destination e)" using p(3) by (simp add: provenance_ok_def)
  from verify_entries_true [OF verify this] have "\<forall>e \<in> set (pv_entries p). entry_matches h w root e"
    by (simp add: entry_matches_disk [OF same_disk_trans [OF disk1 disk2]])
  with snapshot_file [OF p(1) found] p safe root show ?thesis unfolding tree_verified_def by blast
qed

section \<open>Verification without faults\<close>

text \<open>The same value from every world with this disk.\<close>

definition settles :: "'a io \<Rightarrow> world \<Rightarrow> 'a \<Rightarrow> bool" where
  "settles m w x = (\<forall>w'. same_disk w w' \<longrightarrow> yields m w' x)"

lemma settles_bind: "settles m w x \<Longrightarrow> settles (k x) w y \<Longrightarrow> settles (io_bind m k) w y"
  unfolding settles_def using yields_bind same_disk_trans by meson

lemma settles_basic:
  "settles (io_return x) w x" "c \<Longrightarrow> settles (io_check c e) w ()" "v = Inr x \<Longrightarrow> settles (io_lift v) w x"
  by (simp_all add: settles_def yields_return yields_check yields_lift)

lemma openContainedRoot_settles:
  assumes "steady h" and "ho_name h name = Some root" and "node_at w root = Some Directory"
  shows "settles (openContainedRoot h label name) w root"
proof -
  have stat: "settles (LstatName h name) w (info_of root Directory)"
    unfolding LstatName_def settles_def using assms
    by (auto intro!: yields_os_op simp: err_simps stat_inode_def disk_simps)
  have opened: "settles (OpenRootName h name) w root"
    unfolding OpenRootName_def settles_def using assms
    by (auto intro!: yields_os_op simp: err_simps follow_def disk_simps)
  have handle: "settles (StatHandle h root) w (info_of root Directory)"
    unfolding settles_def using assms by (auto intro!: StatHandle_yields simp: disk_simps)
  have valid: "validateRootInfo label (info_of root Directory) = Inr ()"
    by (simp add: validateRootInfo_def kind_of_def)
  show ?thesis
    unfolding openContainedRoot_def
    by (rule settles_bind [OF stat] settles_bind [OF settles_basic(3) [OF valid]] settles_bind [OF opened] settles_bind [OF handle]
        settles_bind [OF settles_basic(2)] settles_basic(1) conjI same_infos)+
qed

lemma openContainedRoot_yields:
  "steady h \<Longrightarrow> ho_name h name = Some root \<Longrightarrow> node_at w root = Some Directory \<Longrightarrow> yields (openContainedRoot h label name) w root"
  using openContainedRoot_settles [of h name root w label] by (simp add: settles_def)

lemma loadProvenance_yields:
  assumes "steady h" and safe: "isSafeRelativePath path" and "file_at w root path content mode"
    and "decodeJSON js content = Inr p" and "provenance_ok p" and free: "collision_free (map pe_destination (pv_entries p) @ [path])"
  shows "\<exists>s. yields (loadProvenance h js root path) w (p, s) \<and> sp_exists s"
proof -
  from read_yields [OF assms(1) safe_plain [OF safe] assms(3)] obtain s where
    s: "yields (readRootRegularFile h root path True ''provenance'') w s" "sp_exists s" "sp_content s = content" by blast
  have "list_all plain_path (map pe_destination (pv_entries p) @ [path])"
    using assms(5) safe by (intro safe_paths_plain) (auto simp: provenance_ok_def)
  then obtain r where "validatePathCollisions (map pe_destination (pv_entries p)) path = Some r"
    "r = Inr () \<longleftrightarrow> collision_free (map pe_destination (pv_entries p) @ [path])"
    by (rule validatePathCollisions_iff)
  with free have collisions: "collision_result (validatePathCollisions (map pe_destination (pv_entries p)) path) = Inr ()"
    by (simp add: collision_result_def)
  have valid: "validateProvenance p = Inr ()" using assms(5) by (simp add: validateProvenance_iff)
  have "yields (loadProvenance h js root path) w (p, s)"
    unfolding loadProvenance_def
    by (rule yields_bind [OF s(1)])
      (use s(2,3) assms(4) valid collisions in \<open>auto intro!: yields_bind [OF yields_lift] yields_return\<close>)
  with s(2) show ?thesis by blast
qed

lemma verify_entries_yields:
  assumes "steady h"
  shows "\<forall>e \<in> set es. isSafeRelativePath (pe_destination e) \<and> entry_matches h w root e \<Longrightarrow> yields (verify_entries h root es) w ()"
proof (induction es arbitrary: w)
  case Nil
  then show ?case by (simp add: yields_return)
next
  case (Cons e es)
  from Cons.prems obtain content mode where "file_at w root (pe_destination e) content mode"
    "hex_encode (ho_sha256 h content) = pe_sha256 e" "plain_path (pe_destination e)"
    by (auto simp: entry_matches_def safe_plain)
  with read_yields [OF assms] obtain s where s: "yields (inspectDestination h root (pe_destination e)) w s" "sp_exists s"
    "sp_digest s = pe_sha256 e" unfolding inspectDestination_def by metis
  have "yields (verify_entries h root es) w' ()" if "same_disk w w'" for w'
    by (rule Cons.IH) (use Cons.prems in \<open>simp add: entry_matches_disk [OF that]\<close>)
  with s(2,3) show ?case by (auto intro!: yields_bind [OF s(1)])
qed

lemma VerifyTree_yields:
  assumes "steady h" and "trim_space name \<noteq> []" and safe: "isSafeRelativePath path"
    and root: "ho_name h name = Some root" "node_at w root = Some Directory" and "tree_verified h js w root path"
  shows "yields (VerifyTree h js name path) w ()"
proof -
  from assms(6) obtain p content mode where p: "file_at w root path content mode" "decodeJSON js content = Inr p"
    "provenance_ok p" "collision_free (map pe_destination (pv_entries p) @ [path])"
    "\<forall>e \<in> set (pv_entries p). entry_matches h w root e" by (auto simp: tree_verified_def)
  have verify: "yields (verify_entries h root (pv_entries p)) w' ()" if "same_disk w w'" for w'
    using p(3,5) by (intro verify_entries_yields [OF assms(1)]) (simp add: provenance_ok_def entry_matches_disk [OF that])
  have load: "yields (io_bind (loadProvenance h js root path) (\<lambda>(p, snapshot).
      io_bind (io_check (sp_exists snapshot) (Errorf ''provenance file is missing'' [])) (\<lambda>_.
      verify_entries h root (pv_entries p)))) w1 ()" if disk: "same_disk w w1" for w1
  proof -
    have "file_at w1 root path content mode" using p(1) by (simp add: disk_simps [OF disk])
    from loadProvenance_yields [OF assms(1) safe this p(2-4)] obtain s where
      s: "yields (loadProvenance h js root path) w1 (p, s)" "sp_exists s" by blast
    show ?thesis
      by (rule yields_bind [OF s(1)])
        (use s(2) in \<open>auto intro!: yields_bind [OF yields_check] verify intro: same_disk_trans [OF disk] same_disk_trans\<close>)
  qed
  show ?thesis
    unfolding VerifyTree_def
    by (intro yields_bind [OF yields_check] yields_bind [OF openContainedRoot_yields [OF assms(1) root(1)]] assms(2) safe load)
      (auto simp: root disk_simps intro: same_disk_trans)
qed

end
