(* ===== verification/SyncRun.thy ===== *)
theory SyncRun
  imports SyncRoundTrip
begin

text \<open>
  Running the model of \<open>internal/coresync/sync.go\<close> on concrete inputs by simplification: a step is unfolded
  only once its world is known, and what follows a step only once the step has given its value.
\<close>

section \<open>Unfolding steps on known worlds\<close>

lemmas run_steps =
  Lstat_def [THEN fun_cong] LstatName_def [THEN fun_cong] OpenFileRead_def [THEN fun_cong]
  StatHandle_def [THEN fun_cong] ReadAll_def [THEN fun_cong] OpenRootName_def [THEN fun_cong]
  OpenRoot_def [THEN fun_cong] CloseHandle_def [THEN fun_cong] Mkdir_def [THEN fun_cong]
  CreateExclusive_def [THEN fun_cong] Chmod_def [THEN fun_cong] SyncFile_def [THEN fun_cong]
  Rename_def [THEN fun_cong] LinkFile_def [THEN fun_cong] RemoveName_def [THEN fun_cong]
  readRootRegularFile_def [THEN fun_cong] rejectSymlinkComponents_def [THEN fun_cong] read_opened_def [THEN fun_cong]
  randomArtifactName_def [THEN fun_cong] uniqueUnusedArtifactName_def [THEN fun_cong]
  removeArtifactIfUnchanged_def [THEN fun_cong] fill_staged_file_def [THEN fun_cong]
  createStagedFile_def [THEN fun_cong] validateArtifact_def [THEN fun_cong] validateStagedArtifact_def [THEN fun_cong]
  validateBackupArtifact_def [THEN fun_cong] find_directory_def [THEN fun_cong] open_directory_def [THEN fun_cong]
  openStableDirectoryComponent_def [THEN fun_cong] validateStableDirectories_def [THEN fun_cong]
  remove_created_def [THEN fun_cong] validateStablePublicationTarget_def [THEN fun_cong]
  discardManagedBackup_def [THEN fun_cong] check_backup_def [THEN fun_cong] createManagedBackup_def [THEN fun_cong]
  back_up_previous_def [THEN fun_cong] put_in_place_def [THEN fun_cong] publishStableItem_def [THEN fun_cong]
  validatePublishedTarget_def [THEN fun_cong] remove_backup_def [THEN fun_cong] remove_staged_def [THEN fun_cong]
  rollback_item_def [THEN fun_cong] restoreManagedPublicationIfSafe_def [THEN fun_cong]
  removeNewPublishedTargetIfSafe_def [THEN fun_cong] discardUnpublishedManagedBackupIfSafe_def [THEN fun_cong]
  io_check_def [THEN fun_cong] openContainedRoot_def [THEN fun_cong] readSourceFile_def [THEN fun_cong]
  inspectDestination_def [THEN fun_cong] loadProvenance_def [THEN fun_cong] inspect_prepared_def [THEN fun_cong]
  finish_sync_def [THEN fun_cong] sync_prepared_def [THEN fun_cong] sync_roots_def [THEN fun_cong]
  Sync_def [THEN fun_cong] VerifyTree_def [THEN fun_cong] openStablePublicationParents_def [THEN fun_cong]
  on_world_def [THEN fun_cong] modify_item_def [THEN fun_cong] the_item_def [THEN fun_cong]
  validate_directories.simps [THEN fun_cong] validatePublishedTransaction.simps [THEN fun_cong]
  reject_components.simps [THEN fun_cong] prepare_entries.simps [THEN fun_cong] inspect_all.simps [THEN fun_cong]
  verify_entries.simps [THEN fun_cong]

lemma run_attempts:
  "unused_name (numeral n) h p q w = unused_name (Suc (pred_numeral n)) h p q w"
  "stage_attempt (numeral n) h p q m w = stage_attempt (Suc (pred_numeral n)) h p q m w"
  by (simp_all only: numeral_eq_Suc)

lemmas run_retries = run_attempts [of "Num.Bit0 n" for n, unfolded unused_name.simps stage_attempt.simps]

lemmas run_effects = io_bind_def io_return_def io_fail_def io_try_def io_lift_def os_op_def WriteFile_def draw_random_def
  io_cleanup_def runPublishHook_def finish_publication_def publish_opened_def
  publishTransaction_def closeStableDirectories_def removePublicationArtifacts_def rollbackStableTransaction_def
  rollbackStableItems_def publish_def

lemmas run_data = add_node_def set_node_def move_entry_def empty_directory_def map_get_def map_put_def map_del_def
  entry_at_def node_at_def stat_inode_def info_of_def kind_of_def perm_of_def follow_def SameFile_def
  path_components_def slash_def dot_def dotdot_def Join_def Clean_def Dir_def Base_def clean_step_def IsAbs_def
  Let_def errors_Join_def no_file_def same_info_def Perm_def wrapRollbackError_def snapshot_matches_def
  root_directory_def same_as_previous_def matches_desired_def err_simps hex_encode_def hex_digit_def

text \<open>Only the world of a step is simplified before the step is unfolded.\<close>

lemma run_congs:
  "w = w' \<Longrightarrow> io_bind m k w = io_bind m k w'"
  "v = v' \<Longrightarrow> io_try m2 v = io_try m2 v'"
  "u = u' \<Longrightarrow> io_cleanup c m3 u = io_cleanup c m3 u'"
  "t = t' \<Longrightarrow> os_op h f t = os_op h f t'"
  "s = s' \<Longrightarrow> on_world n s = on_world n s'"
  by simp_all

lemmas run_folds = unused_name.simps stage_attempt.simps validate_directories.simps validatePublishedTransaction.simps
  reject_components.simps prepare_entries.simps inspect_all.simps verify_entries.simps

lemmas run_sync = collision_result_def validatePathCollisions_def ancestor_scan.simps validateRootInfo_def empty_provenance_def
  check_removed_def marshalProvenance_def desired_provenance_def sort_prepared_def sort_by_def managed_entries_def
  publications_def publication_of_def supportedSchemaVersion_def

section \<open>A demo host\<close>

text \<open>
  A disk with a source tree (0) holding the files \<open>a\<close> and \<open>b\<close> and a destination tree (3); no faults, two random names, a
  hash that pads to 32 bytes, and a renderer and decoder that know the demo record.
\<close>

definition demo_disk :: world where
  "demo_disk = \<lparr>w_nodes = [(0, Directory), (1, RegularFile ''A'' 420), (2, RegularFile ''x'' 384), (3, Directory)],
     w_entries = [((0, ''a''), 1), ((3, ''keep''), 2)], w_next = 4, w_tick = 0, w_draws = 0\<rparr>"

definition demo_sync_host :: host where
  "demo_sync_host = \<lparr>ho_fault = \<lambda>_. None, ho_random = (\<lambda>n. Some (if n = 0 then ''0'' else ''1'')),
     ho_sha256 = (\<lambda>s. take 32 (s @ replicate 32 CHR ''x'')),
     ho_name = (\<lambda>s. if s = ''src'' then Some 0 else if s = ''dst'' then Some 3 else None), ho_hook = None\<rparr>"

definition demo_manifest :: manifest where
  "demo_manifest = \<lparr>mf_schema_version = 1, mf_source_repository = ''repo'', mf_license = ''Apache-2.0'',
     mf_entries = [\<lparr>en_source = ''a'', en_destination = ''c''\<rparr>]\<rparr>"

definition demo_options :: "bool \<Rightarrow> options" where
  "demo_options check = \<lparr>op_source_root = ''src'', op_destination_root = ''dst'', op_source_commit = replicate 40 CHR ''0'',
     op_provenance_path = ''p'', op_check = check\<rparr>"

definition demo_record :: provenance where
  "demo_record = \<lparr>pv_schema_version = 1, pv_source_repository = ''repo'', pv_source_commit = replicate 40 CHR ''0'',
     pv_license = ''Apache-2.0'', pv_entries = [\<lparr>pe_source = ''a'', pe_destination = ''c'',
       pe_sha256 = hex_encode (take 32 (''A'' @ replicate 32 CHR ''x''))\<rparr>]\<rparr>"

definition demo_render :: "provenance \<Rightarrow> sync_error + string" where
  "demo_render p = (if p = demo_record then Inr ''J'' else Inl (Errorf ''unknown'' []))"

definition demo_decoder :: "provenance json_decoder" where
  "demo_decoder = \<lparr>js_tokens = (\<lambda>_. [Inr AtomToken]), js_decode = (\<lambda>_. Decoded demo_record []), js_any = (\<lambda>_. AtEnd)\<rparr>"

lemma demo_disk_tree: "tree_at demo_disk 3"
  by (auto simp: tree_at_def demo_disk_def node_at_def entry_at_def map_get_def split: if_splits)

lemma demo_sync_facts:
  "quiet_hook demo_sync_host" "steady demo_sync_host" "ho_name demo_sync_host (op_source_root (demo_options c)) = Some 0"
  "ho_name demo_sync_host (op_destination_root (demo_options c)) = Some 3" "op_check (demo_options c) = c"
  by (simp_all add: demo_sync_host_def demo_options_def quiet_hook_def steady_def)

lemma demo_no_artifacts: "no_artifact_paths demo_manifest (demo_options c)"
  by (auto simp: no_artifact_paths_def sync_paths_def demo_manifest_def demo_options_def artifact_name_def
      stage_name_def backup_name_def slash_def)

lemma demo_sync_trims: "trim_space ''repo'' = ''repo''" "trim_space ''src'' = ''src''" "trim_space ''dst'' = ''dst''"
  by (simp_all add: trim_space_solid solid_def is_space_def)

lemma demo_commit: "isValidSourceCommit (replicate 40 CHR ''0'')"
  by code_simp

lemma demo_sync_valid:
  "ValidateManifest demo_manifest = Inr ()" "validateOptions (demo_options c) = Inr ()"
  by (simp_all add: demo_manifest_def demo_options_def demo_sync_trims demo_commit ValidateManifest_def validate_entry_def validateOptions_def
      isSafeRelativePath_def check_path_pair_def has_prefix_def pattern_chars_def supportedSchemaVersion_def
      apache2_def isASCIIAlpha_def run_data)

lemma demo_characters: "char_of (48 :: nat) = CHR ''0''" "char_of (49 :: nat) = CHR ''1''" "char_of (51 :: nat) = CHR ''3''"
  by code_simp+

text \<open>The checks of the demo input pass on every host, and leave the run from the roots on.\<close>

lemma demo_sync_start:
  "Sync h js render demo_manifest (demo_options c) w =
     io_bind (openContainedRoot h ''source root'' ''src'') (\<lambda>sourceRoot.
     io_bind (openContainedRoot h ''destination root'' ''dst'') (\<lambda>destinationRoot.
     sync_roots h js render demo_manifest (demo_options c) sourceRoot destinationRoot)) w"
proof -
  have "validatePathCollisions (map en_destination (mf_entries demo_manifest)) (op_provenance_path (demo_options c)) = Some (Inr ())"
    by (simp add: demo_manifest_def demo_options_def validatePathCollisions_def ancestor_scan.simps run_data)
  moreover have "op_source_root (demo_options c) = ''src''" "op_destination_root (demo_options c) = ''dst''"
    by (simp_all add: demo_options_def)
  ultimately show ?thesis
    by (simp add: Sync_def demo_sync_valid io_bind_def io_lift_def collision_result_def)
qed

lemmas run_demo = run_steps run_effects run_data run_sync run_retries demo_characters demo_manifest_def demo_options_def
  demo_sync_host_def demo_disk_def demo_render_def demo_record_def

lemma demo_sync_run: "fst (Sync demo_sync_host demo_decoder demo_render demo_manifest (demo_options False) demo_disk) = Inr ()"
  unfolding demo_sync_start
  by (simp add: run_demo cong: run_congs prod.case_cong_weak sum.case_cong_weak del: run_folds)

end
