(* ===== verification/SyncSpec.thy ===== *)
theory SyncSpec
  imports SyncRun
begin

text \<open>
  The properties of \<open>internal/coresync/sync.go\<close>: what a successful run leaves, what a failed run may have
  done, the check mode, \<open>Verify\<close>, the round trip from \<open>Sync\<close> to \<open>Verify\<close>, and what the input checks accept.
\<close>

section \<open>What a run is to leave\<close>

text \<open>
  No file is changed in place, no entry but those of the paths is changed or removed, and no other entry is
  new but that of a directory on the way to one of the paths, or one whose name is among \<open>extra\<close>.
\<close>

definition changed_only :: "(string \<Rightarrow> bool) \<Rightarrow> world \<Rightarrow> inode \<Rightarrow> string list \<Rightarrow> world \<Rightarrow> bool" where
  "changed_only extra w root paths w' = (older w w' \<and>
     (\<forall>d name i. entry_at w d name = Some i \<longrightarrow>
        entry_at w' d name = Some i \<or> (\<exists>p \<in> set paths. key_at w' root p (d, name))) \<and>
     (\<forall>d name i. entry_at w d name = None \<longrightarrow> entry_at w' d name = Some i \<longrightarrow>
        (\<exists>p \<in> set paths. key_at w' root p (d, name)) \<or> parent_entry w' root paths d name i \<or> extra name))"

definition only_paths_changed :: "world \<Rightarrow> inode \<Rightarrow> string list \<Rightarrow> world \<Rightarrow> bool" where
  "only_paths_changed = changed_only (\<lambda>_. False)"

text \<open>
  As before, but for destinations whose previous file is still in its directory under another name; new
  entries only at destinations, on the way to them, and of stage and backup files.
\<close>

definition files_recoverable :: "world \<Rightarrow> inode \<Rightarrow> string list \<Rightarrow> world \<Rightarrow> bool" where
  "files_recoverable w root paths w' = (changed_only artifact_name w root paths w' \<and>
     (\<forall>d name i. entry_at w d name = Some i \<longrightarrow> entry_at w' d name = Some i \<or> (\<exists>name'. entry_at w' d name' = Some i)))"


text \<open>A provenance record that describes the files of a run.\<close>

definition describes :: "host \<Rightarrow> manifest \<Rightarrow> options \<Rightarrow> world \<Rightarrow> inode \<Rightarrow> provenance \<Rightarrow> bool" where
  "describes h m opts w root p = (pv_schema_version p = 1 \<and> pv_source_repository p = mf_source_repository m \<and>
     pv_source_commit p = op_source_commit opts \<and> pv_license p = mf_license m \<and>
     mset (map (\<lambda>e. (pe_source e, pe_destination e)) (pv_entries p)) =
       mset (map (\<lambda>e. (en_source e, en_destination e)) (mf_entries m)) \<and>
     (\<forall>e \<in> set (pv_entries p). entry_matches h w root e))"

text \<open>Every entry and the record are published.\<close>

definition files_synced ::
  "host \<Rightarrow> (provenance \<Rightarrow> sync_error + string) \<Rightarrow> manifest \<Rightarrow> options \<Rightarrow> inode \<Rightarrow> inode \<Rightarrow> world \<Rightarrow> world \<Rightarrow> bool" where
  "files_synced h render m opts src root w w' =
     ((\<forall>e \<in> set (mf_entries m). \<exists>content mode. file_at w src (en_source e) content mode \<and>
         file_at w' root (en_destination e) content 420) \<and>
      (\<exists>p bytes. marshalProvenance render p = Inr bytes \<and> describes h m opts w' root p \<and>
         file_at w' root (op_provenance_path opts) bytes 420))"

definition sync_done ::
  "host \<Rightarrow> (provenance \<Rightarrow> sync_error + string) \<Rightarrow> manifest \<Rightarrow> options \<Rightarrow> inode \<Rightarrow> inode \<Rightarrow> world \<Rightarrow> world \<Rightarrow> bool" where
  "sync_done h render m opts src root w w' =
     (files_synced h render m opts src root w w' \<and> only_paths_changed w root (sync_paths m opts) w')"

text \<open>The same when stage and backup files are left because the cleanup failed.\<close>

definition sync_uncleaned ::
  "host \<Rightarrow> (provenance \<Rightarrow> sync_error + string) \<Rightarrow> manifest \<Rightarrow> options \<Rightarrow> inode \<Rightarrow> inode \<Rightarrow> world \<Rightarrow> world \<Rightarrow> bool" where
  "sync_uncleaned h render m opts src root w w' =
     (files_synced h render m opts src root w w' \<and> changed_only artifact_name w root (sync_paths m opts) w')"

section \<open>From the items to the manifest\<close>

lemma reviewed_item:
  assumes rw: "reviewed h js render m opts w rw" and p: "p \<in> set (rw_unsorted rw)"
  shows "\<exists>item \<in> set (reviewed_items opts rw). pi_path item = en_destination (pr_entry p) \<and>
    pi_desired item = pr_content p \<and> pi_mode item = 0x1A4"
proof -
  have sorted: "p \<in> set (sort_prepared (rw_unsorted rw))" using p by (simp add: sort_prepared_def)
  have "list_all2 (inspected_true h w (rw_root rw) (op_check opts) (managed_entries (rw_existing rw)))
    (sort_prepared (rw_unsorted rw)) (rw_inspected rw)" using rw by (simp add: reviewed_def)
  from placed_list(2) [OF this sorted] obtain p' where p': "p' \<in> set (rw_inspected rw)"
    "inspected_true h w (rw_root rw) (op_check opts) (managed_entries (rw_existing rw)) p p'" by (elim bexE)
  then have same: "pr_entry p' = pr_entry p" "pr_content p' = pr_content p" by (simp_all add: inspected_true_def Let_def)
  let ?item = "publication_of (en_destination (pr_entry p')) (pr_content p') (pr_previous p') False"
  have "?item \<in> set (reviewed_items opts rw)" using p'(1) by (simp add: publications_def)
  moreover have "pi_path ?item = en_destination (pr_entry p)" "pi_desired ?item = pr_content p" "pi_mode ?item = 0x1A4"
    by (simp_all add: publication_of_def same)
  ultimately show ?thesis by blast
qed

lemma reviewed_prepared:
  "reviewed h js render m opts w rw \<Longrightarrow> list_all2 (prepared_true h w (rw_src rw)) (mf_entries m) (rw_unsorted rw)"
  by (simp add: reviewed_def)

lemma reviewed_paths: "reviewed h js render m opts w rw \<Longrightarrow> set (map pi_path (reviewed_items opts rw)) = set (sync_paths m opts)"
  using publication_paths by (metis mset_eq_setD)

lemma placed_item:
  assumes rw: "reviewed h js render m opts w rw" and all: "all_in_place w root (reviewed_items opts rw) r w'"
    and p: "p \<in> set (rw_unsorted rw)"
  shows "file_at w' root (en_destination (pr_entry p)) (pr_content p) 420"
  using reviewed_item [OF rw p] all by (auto simp: all_in_place_def in_place_def Perm_def)

lemma recorded_describes:
  assumes rw: "reviewed h js render m opts w rw" and all: "all_in_place w root (reviewed_items opts rw) r w'"
  shows "describes h m opts w' root (recorded m opts rw)"
proof -
  let ?sorted = "sort_prepared (rw_unsorted rw)"
  have matches: "entry_matches h w' root e" if e: "e \<in> set (pv_entries (recorded m opts rw))" for e
  proof -
    from e obtain p where p: "p \<in> set (rw_unsorted rw)" "pe_destination e = en_destination (pr_entry p)" "pe_sha256 e = pr_digest p"
      by (auto simp: recorded_def desired_provenance_def sort_prepared_def)
    with placed_list(1) [OF reviewed_prepared [OF rw] p(1)] placed_item [OF rw all p(1)] show ?thesis
      by (auto simp: entry_matches_def prepared_true_def)
  qed
  have "map (\<lambda>e. (pe_source e, pe_destination e)) (pv_entries (recorded m opts rw)) =
      map (\<lambda>e. (en_source e, en_destination e)) (map pr_entry ?sorted)"
    by (simp add: recorded_def desired_provenance_def comp_def)
  also have "mset \<dots> = mset (map (\<lambda>e. (en_source e, en_destination e)) (mf_entries m))"
    using reviewed_entries(1,2) [OF rw] by (metis mset_map)
  finally show ?thesis
    using matches by (simp add: describes_def recorded_def desired_provenance_def supportedSchemaVersion_def)
qed

lemma all_in_place_synced:
  assumes rw: "reviewed h js render m opts w rw" and all: "all_in_place w root (reviewed_items opts rw) r w'"
  shows "files_synced h render m opts (rw_src rw) root w w'"
proof -
  have "\<exists>content mode. file_at w (rw_src rw) (en_source e) content mode \<and> file_at w' root (en_destination e) content 420"
    if "e \<in> set (mf_entries m)" for e
  proof -
    from placed_list(2) [OF reviewed_prepared [OF rw] that] obtain p where p: "p \<in> set (rw_unsorted rw)"
      "prepared_true h w (rw_src rw) e p" by blast
    with placed_item [OF rw all p(1)] show ?thesis by (auto simp: prepared_true_def)
  qed
  moreover have "file_at w' root (op_provenance_path opts) (rw_bytes rw) 420"
  proof -
    have "publication_of (op_provenance_path opts) (rw_bytes rw) (rw_snapshot rw) True \<in> set (reviewed_items opts rw)"
      by (simp add: publications_def)
    with all have "in_place w' root (publication_of (op_provenance_path opts) (rw_bytes rw) (rw_snapshot rw) True)"
      by (simp add: all_in_place_def)
    then show ?thesis by (simp add: in_place_def publication_of_def Perm_def)
  qed
  moreover have "marshalProvenance render (recorded m opts rw) = Inr (rw_bytes rw)" using rw by (simp add: reviewed_def)
  ultimately show ?thesis using recorded_describes [OF rw all] unfolding files_synced_def by blast
qed

lemma items_paths:
  assumes "reviewed h js render m opts w rw" and "item \<in> set (reviewed_items opts rw)"
  shows "pi_path item \<in> set (sync_paths m opts)"
  unfolding reviewed_paths [OF assms(1), symmetric] using assms(2) by simp

lemma parent_entry_paths: "set ps = set qs \<Longrightarrow> parent_entry w root ps d name i = parent_entry w root qs d name i"
  by (simp add: parent_entry_def ancestor_key_def)

lemma all_in_place_changed:
  assumes rw: "reviewed h js render m opts w rw" and all: "all_in_place w root (reviewed_items opts rw) r w'"
    and old: "older w w'" and extra: "\<And>name. r \<noteq> None \<Longrightarrow> artifact_name name \<Longrightarrow> extra name"
  shows "changed_only extra w root (sync_paths m opts) w'"
  using all old extra items_paths [OF rw] parent_entry_paths [OF reviewed_paths [OF rw]]
  unfolding changed_only_def all_in_place_def by (metis (no_types, lifting))

lemma nothing_lost_recoverable:
  assumes rw: "reviewed h js render m opts w rw" and lost: "nothing_lost w root (reviewed_items opts rw) w'" and old: "older w w'"
  shows "files_recoverable w root (sync_paths m opts) w'"
proof -
  have "changed_only artifact_name w root (sync_paths m opts) w'"
    using lost old items_paths [OF rw] parent_entry_paths [OF reviewed_paths [OF rw]]
    unfolding changed_only_def nothing_lost_def by (metis (no_types, lifting))
  with lost show ?thesis unfolding files_recoverable_def nothing_lost_def by metis
qed

lemma early_unharmed: "early w r w' \<Longrightarrow> unharmed w root paths w'"
  by (simp add: early_def unharmed_disk)

lemma unharmed_paths: "set ps = set qs \<Longrightarrow> unharmed w root ps w' = unharmed w root qs w'"
  by (simp add: unharmed_def parent_entry_def ancestor_key_def)


text \<open>Every run that may publish: done, done but not cleaned up, rolled back, or a reported failed rollback.\<close>

lemma Sync_cases:
  assumes run: "Sync h js render m opts w = (r, w')" and "\<not> op_check opts"
    and roots: "ho_name h (op_source_root opts) = Some src" "ho_name h (op_destination_root opts) = Some root"
    and tree: "tree_at w root" and quiet: "quiet_hook h" and names: "no_artifact_paths m opts"
  shows "r = Inr () \<and> sync_done h render m opts src root w w' \<or>
    r \<noteq> Inr () \<and> (unharmed w root (sync_paths m opts) w' \<or> sync_uncleaned h render m opts src root w w' \<or>
      reports_two (error_of r) \<and> files_recoverable w root (sync_paths m opts) w')"
proof (cases "early w r w'")
  case True
  then have "r \<noteq> Inr ()" by (auto simp: early_def)
  with early_unharmed [OF True] show ?thesis by simp
next
  case False
  from Sync_outcome [OF run assms(2) False roots(2) tree quiet names] obtain rw where
    rw: "reviewed h js render m opts w rw" and out: "publication_outcome w root (reviewed_items opts rw) (error_of r) w'" by blast
  have src: "rw_src rw = src" using rw roots(1) by (simp add: reviewed_def)
  have old: "older w w'" using out by (simp add: publication_outcome_def)
  from out consider "all_in_place w root (reviewed_items opts rw) (error_of r) w'"
    | "error_of r \<noteq> None" "unharmed w root (map pi_path (reviewed_items opts rw)) w'"
    | "reports_two (error_of r)" "nothing_lost w root (reviewed_items opts rw) w'"
    by (auto simp: publication_outcome_def simp del: list.set_map map_map)
  then show ?thesis
  proof cases
    case 1
    note synced = all_in_place_synced [OF rw 1]
    show ?thesis
    proof (cases r)
      case (Inl e)
      from all_in_place_changed [OF rw 1 old, of artifact_name] synced src Inl show ?thesis by (simp add: sync_uncleaned_def)
    next
      case (Inr u)
      with all_in_place_changed [OF rw 1 old, of "\<lambda>_. False"] synced src show ?thesis
        by (simp add: sync_done_def only_paths_changed_def)
    qed
  next
    case 2
    have "unharmed w root (sync_paths m opts) w'" using 2(2) unharmed_paths [OF reviewed_paths [OF rw]] by blast
    moreover have "r \<noteq> Inr ()" using 2(1) by auto
    ultimately show ?thesis by simp
  next
    case 3
    then have "r \<noteq> Inr ()" by (auto simp: reports_two_def)
    with 3(1) nothing_lost_recoverable [OF rw 3(2) old] show ?thesis by simp
  qed
qed

section \<open>Checks of the input\<close>

text \<open>
  C39: \<open>ValidateManifest\<close> accepts exactly the manifests of schema 1 with a repository, the one license, at
  least one entry, safe relative paths, and no source and no destination twice.
\<close>

theorem ValidateManifest_exact:
  "ValidateManifest m = Inr () \<longleftrightarrow>
     mf_schema_version m = 1 \<and> trim_space (mf_source_repository m) \<noteq> [] \<and> mf_license m = apache2 \<and> mf_entries m \<noteq> [] \<and>
     list_all (\<lambda>e. isSafeRelativePath (en_source e) \<and> isSafeRelativePath (en_destination e)) (mf_entries m) \<and>
     distinct (map en_source (mf_entries m)) \<and> distinct (map en_destination (mf_entries m))"
  by (simp add: ValidateManifest_iff manifest_ok_def list_all_iff conj_ac)

text \<open>
  The collision check returns on safe paths, and it accepts them exactly when they are distinct and none
  lies below another one. (The walk to the ancestors would not return on an absolute path.)
\<close>

theorem path_collisions_decided:
  assumes "list_all isSafeRelativePath (destinations @ [provenance_path])"
  shows "\<exists>r. validatePathCollisions destinations provenance_path = Some r \<and>
    (r = Inr () \<longleftrightarrow> collision_free (destinations @ [provenance_path]))"
proof -
  have "list_all plain_path (destinations @ [provenance_path])" using assms by (simp add: list_all_iff safe_plain)
  then obtain r where "validatePathCollisions destinations provenance_path = Some r"
    "r = Inr () \<longleftrightarrow> collision_free (destinations @ [provenance_path])" by (rule validatePathCollisions_iff)
  then show ?thesis by blast
qed

theorem path_collisions_decided_witness:
  "\<exists>r. validatePathCollisions [''a/b'', ''c''] ''a'' = Some r \<and> (r = Inr () \<longleftrightarrow> collision_free [''a/b'', ''c'', ''a''])"
proof -
  have "list_all isSafeRelativePath ([''a/b'', ''c''] @ [''a''])"
    by (simp add: isSafeRelativePath_def has_prefix_def pattern_chars_def isASCIIAlpha_def run_data)
  from path_collisions_decided [OF this] show ?thesis by simp
qed

text \<open>
  The scan before decoding accepts the tokens of a JSON value exactly when no object in it, at any depth,
  has a key twice, and then it has consumed exactly that value; otherwise it names a duplicate key.
\<close>

theorem duplicate_keys_exact:
  "case scanJSONValue (map Inr (tokens_of v) @ rest) of
     Inr ts \<Rightarrow> unique_keys v \<and> ts = rest
   | Inl e \<Rightarrow> \<not> unique_keys v \<and> (\<exists>k. e = Errorf ''duplicate JSON object key'' [k])"
  using scanJSONValue_tokens [of v rest] by (auto simp: scanned_def split: if_splits)

section \<open>Runs\<close>

text \<open>
  C12: after a successful run on a directory tree, every destination is a regular file with the content its
  source had and mode 0644, the provenance file holds the rendering of a record that names the repository, the
  commit and every entry with the SHA-256 of the published content, no file content has changed in place, no
  other directory entry of the disk is changed or gone, and every entry that is new is one of the destinations,
  the provenance file, or a directory on the way to them: no stage or backup file is left, and no other file.
\<close>

theorem Sync_success:
  assumes "Sync h js render m opts w = (Inr (), w')" and "\<not> op_check opts"
    and "ho_name h (op_source_root opts) = Some src" and "ho_name h (op_destination_root opts) = Some root"
    and "tree_at w root" and "quiet_hook h" and "no_artifact_paths m opts"
  shows "sync_done h render m opts src root w w'"
  using Sync_cases [OF assms] by simp

theorem Sync_success_witness:
  "\<exists>w'. Sync demo_sync_host demo_decoder demo_render demo_manifest (demo_options False) demo_disk = (Inr (), w') \<and>
     sync_done demo_sync_host demo_render demo_manifest (demo_options False) 0 3 demo_disk w'"
proof -
  obtain w' where run: "Sync demo_sync_host demo_decoder demo_render demo_manifest (demo_options False) demo_disk = (Inr (), w')"
    using demo_sync_run by (metis prod.collapse)
  have "\<not> op_check (demo_options False)" by (simp add: demo_sync_facts)
  from Sync_success [OF run this demo_sync_facts(3,4) demo_disk_tree demo_sync_facts(1) demo_no_artifacts] run show ?thesis by blast
qed





section \<open>The check mode\<close>

lemma inspected_check:
  "inspected_true h w root True managed p p' \<Longrightarrow> \<exists>content mode. file_at w root (en_destination (pr_entry p)) content mode \<and>
     hex_encode (ho_sha256 h content) = pr_digest p"
  by (simp add: inspected_true_def Let_def)

lemma reviewed_check:
  assumes rw: "reviewed h js render m opts w rw" and "op_check opts"
  shows "describes h m opts w (rw_root rw) (recorded m opts rw)"
proof -
  let ?sorted = "sort_prepared (rw_unsorted rw)"
  have lists: "list_all2 (inspected_true h w (rw_root rw) True (managed_entries (rw_existing rw))) ?sorted (rw_inspected rw)"
    using rw assms(2) by (simp add: reviewed_def)
  have matches: "entry_matches h w (rw_root rw) e" if e: "e \<in> set (pv_entries (recorded m opts rw))" for e
  proof -
    from e obtain p where p: "p \<in> set ?sorted" "pe_destination e = en_destination (pr_entry p)" "pe_sha256 e = pr_digest p"
      by (auto simp: recorded_def desired_provenance_def)
    from placed_list(2) [OF lists p(1)] inspected_check p(2,3) show ?thesis by (metis entry_matches_def)
  qed
  have "map (\<lambda>e. (pe_source e, pe_destination e)) (pv_entries (recorded m opts rw)) =
      map (\<lambda>e. (en_source e, en_destination e)) (map pr_entry ?sorted)"
    by (simp add: recorded_def desired_provenance_def comp_def)
  also have "mset \<dots> = mset (map (\<lambda>e. (en_source e, en_destination e)) (mf_entries m))"
    using reviewed_entries(1,2) [OF rw] by (metis mset_map)
  finally show ?thesis
    using matches by (simp add: describes_def recorded_def desired_provenance_def supportedSchemaVersion_def)
qed

text \<open>
  The check mode never changes the disk, and it accepts only a tree whose provenance file is, byte for
  byte, the rendering of a record that names the repository, the commit, and every entry with the SHA-256 of
  the content its destination has now.
\<close>

theorem Sync_check:
  assumes "Sync h js render m opts w = (r, w')" and "op_check opts" and "ho_name h (op_destination_root opts) = Some root"
  shows "same_disk w w' \<and> (r = Inr () \<longrightarrow> (\<exists>p bytes mode. marshalProvenance render p = Inr bytes \<and>
    describes h m opts w root p \<and> file_at w root (op_provenance_path opts) bytes mode))"
proof (cases "early w r w'")
  case True
  then show ?thesis by (auto simp: early_def)
next
  case False
  from Sync_review [OF assms(1) False] obtain rw w1 where disk: "same_disk w w1" and rw: "reviewed h js render m opts w rw"
    and ended: "ended h opts rw w1 r w'" by blast
  have root: "rw_root rw = root" using rw assms(3) by (simp add: reviewed_def)
  have "same_disk w w'" using ended disk assms(2) by (auto simp: ended_def intro: same_disk_trans)
  moreover have "\<exists>mode. file_at w root (op_provenance_path opts) (rw_bytes rw) mode" if "r = Inr ()"
  proof -
    from that ended assms(2) have "sp_exists (rw_snapshot rw)" "sp_content (rw_snapshot rw) = rw_bytes rw" by (simp_all add: ended_def)
    moreover have "snapshot_true h w root (split_on slash (op_provenance_path opts)) (rw_snapshot rw)"
      using rw root by (simp add: reviewed_def loaded_def)
    ultimately show ?thesis using snapshot_file by metis
  qed
  moreover have "marshalProvenance render (recorded m opts rw) = Inr (rw_bytes rw)" using rw by (simp add: reviewed_def)
  ultimately show ?thesis using reviewed_check [OF rw assms(2)] root by blast
qed

theorem Sync_check_witness:
  "\<exists>r w'. Sync demo_sync_host demo_decoder demo_render demo_manifest (demo_options True) demo_disk = (r, w') \<and>
     same_disk demo_disk w' \<and> (r = Inr () \<longrightarrow> (\<exists>p bytes mode. marshalProvenance demo_render p = Inr bytes \<and>
       describes demo_sync_host demo_manifest (demo_options True) demo_disk 3 p \<and>
       file_at demo_disk 3 (op_provenance_path (demo_options True)) bytes mode))"
proof -
  obtain r w' where run: "Sync demo_sync_host demo_decoder demo_render demo_manifest (demo_options True) demo_disk = (r, w')"
    by (metis prod.exhaust)
  have "op_check (demo_options True)" by (simp add: demo_sync_facts)
  from Sync_check [OF run this demo_sync_facts(4)] run show ?thesis by blast
qed

section \<open>Verification\<close>

text \<open>
  C38: \<open>Verify\<close> accepts only a tree whose provenance file decodes, is valid, collides with no destination and
  has for every entry a regular file with that SHA-256; and when no operation fails it accepts every such tree.
\<close>

theorem Verify_exact:
  "(fst (VerifyTree h js name path w) = Inr () \<longrightarrow> trim_space name \<noteq> [] \<and> isSafeRelativePath path \<and>
      (\<exists>root. ho_name h name = Some root \<and> node_at w root = Some Directory \<and> tree_verified h js w root path)) \<and>
   (steady h \<longrightarrow> trim_space name \<noteq> [] \<and> isSafeRelativePath path \<and>
      (\<exists>root. ho_name h name = Some root \<and> node_at w root = Some Directory \<and> tree_verified h js w root path) \<longrightarrow>
    fst (VerifyTree h js name path w) = Inr ())"
proof (intro conjI impI)
  assume "fst (VerifyTree h js name path w) = Inr ()"
  then have "VerifyTree h js name path w = (Inr (), snd (VerifyTree h js name path w))" by (simp add: prod_eq_iff)
  note accepted = VerifyTree_true [OF this]
  show "trim_space name \<noteq> []" "isSafeRelativePath path"
    "\<exists>root. ho_name h name = Some root \<and> node_at w root = Some Directory \<and> tree_verified h js w root path"
    using accepted by simp_all
next
  assume "steady h" "trim_space name \<noteq> [] \<and> isSafeRelativePath path \<and>
      (\<exists>root. ho_name h name = Some root \<and> node_at w root = Some Directory \<and> tree_verified h js w root path)"
  with VerifyTree_yields show "fst (VerifyTree h js name path w) = Inr ()" by (fastforce simp: yields_def)
qed

text \<open>A tree without a provenance file is refused.\<close>

theorem Verify_exact_witness:
  "fst (VerifyTree demo_sync_host demo_decoder ''dst'' ''p'' demo_disk) \<noteq> Inr ()"
proof -
  have "\<not> file_at demo_disk 3 ''p'' content mode" for content mode
    by (simp add: file_at_def demo_disk_def run_data)
  then have "\<not> tree_verified demo_sync_host demo_decoder demo_disk 3 ''p''" by (simp add: tree_verified_def)
  moreover have "ho_name demo_sync_host ''dst'' = Some 3" by (simp add: demo_sync_host_def)
  ultimately show ?thesis
    using Verify_exact [of demo_sync_host demo_decoder "''dst''" "''p''" demo_disk] by auto
qed

lemma sync_done_verified:
  assumes done_: "sync_done h render m opts src root w w'" and m: "manifest_ok m" and opts: "validateOptions opts = Inr ()"
    and free: "collision_free (sync_paths m opts)"
    and sha: "\<forall>s. length (ho_sha256 h s) = 32" and hash: "ho_sha256 h' = ho_sha256 h"
    and json: "\<forall>p bytes. marshalProvenance render p = Inr bytes \<longrightarrow> decodeJSON js bytes = Inr p"
  shows "tree_verified h' js w' root (op_provenance_path opts)"
proof -
  from done_ obtain p bytes where p: "marshalProvenance render p = Inr bytes" "describes h m opts w' root p"
    "file_at w' root (op_provenance_path opts) bytes 420" by (auto simp: sync_done_def files_synced_def)
  let ?pairs = "map (\<lambda>e. (pe_source e, pe_destination e)) (pv_entries p)"
  let ?wanted = "map (\<lambda>e. (en_source e, en_destination e)) (mf_entries m)"
  have pairs: "mset ?pairs = mset ?wanted" using p(2) by (simp add: describes_def)
  have lists: "mset (map pe_source (pv_entries p)) = mset (map en_source (mf_entries m))"
    "mset (map pe_destination (pv_entries p)) = mset (map en_destination (mf_entries m))"
    using arg_cong [OF pairs, of "image_mset fst"] arg_cong [OF pairs, of "image_mset snd"] by (simp_all add: image_mset.compositionality comp_def)
  have matches: "\<forall>e \<in> set (pv_entries p). entry_matches h w' root e" using p(2) by (simp add: describes_def)
  have "sha256Pattern (pe_sha256 e)" if "e \<in> set (pv_entries p)" for e
  proof -
    from matches that have "entry_matches h w' root e" by blast
    then obtain content where "pe_sha256 e = hex_encode (ho_sha256 h content)" unfolding entry_matches_def by metis
    with sha hex_encode_hex show ?thesis by (simp add: sha256Pattern_def hex_of_length_def list_all_iff)
  qed
  moreover have "isSafeRelativePath (pe_source e) \<and> isSafeRelativePath (pe_destination e)" if "e \<in> set (pv_entries p)" for e
  proof -
    have "(pe_source e, pe_destination e) \<in> set ?wanted" using that mset_eq_setD [OF pairs] by force
    with m show ?thesis by (auto simp: manifest_ok_def)
  qed
  moreover have "distinct (map pe_source (pv_entries p))" "distinct (map pe_destination (pv_entries p))"
    using m lists by (metis manifest_ok_def mset_eq_imp_distinct_iff)+
  moreover have "pv_entries p \<noteq> []" using pairs m by (auto simp: manifest_ok_def)
  ultimately have "provenance_ok p"
    using p(2) m opts by (auto simp: provenance_ok_def describes_def manifest_ok_def validateOptions_def split: if_splits)
  moreover have "mset (map pe_destination (pv_entries p) @ [op_provenance_path opts]) = mset (sync_paths m opts)"
    using lists(2) by (simp add: sync_paths_def)
  with free have "collision_free (map pe_destination (pv_entries p) @ [op_provenance_path opts])"
    using collision_free_mset by blast
  ultimately show ?thesis
    using p json matches hash unfolding tree_verified_def entry_matches_def by metis
qed

text \<open>
  C37: what \<open>Sync\<close> has published, \<open>Verify\<close> accepts, on any host with the same hash on which no operation
  fails, when decoding gives back a record that was rendered.
\<close>

theorem Sync_then_Verify:
  assumes "Sync h js render m opts w = (Inr (), w')" and "\<not> op_check opts"
    and "ho_name h (op_source_root opts) = Some src" and "ho_name h (op_destination_root opts) = Some root"
    and "tree_at w root" and "quiet_hook h" and "no_artifact_paths m opts"
    and "steady h'" and "ho_name h' (op_destination_root opts) = Some root" and "ho_sha256 h' = ho_sha256 h"
    and "\<forall>s. length (ho_sha256 h s) = 32"
    and "\<forall>p bytes. marshalProvenance render p = Inr bytes \<longrightarrow> decodeJSON js bytes = Inr p"
  shows "fst (VerifyTree h' js (op_destination_root opts) (op_provenance_path opts) w') = Inr ()"
proof -
  have late: "\<not> early w (Inr ()) w'" by (simp add: early_def)
  from Sync_late [OF assms(1) late] have m: "manifest_ok m" and opts: "validateOptions opts = Inr ()"
    and free: "collision_free (sync_paths m opts)" by (simp_all add: sync_paths_def) blast+
  from Sync_cases [OF assms(1-7)] have done_: "sync_done h render m opts src root w w'" by simp
  have "node_at w' root = Some Directory"
    using done_ tree_root [OF assms(5)] tree_alive [OF assms(5)] by (auto simp: sync_done_def only_paths_changed_def changed_only_def older_def)
  moreover have "trim_space (op_destination_root opts) \<noteq> []" using opts by (auto simp: validateOptions_def split: if_splits)
  ultimately have "yields (VerifyTree h' js (op_destination_root opts) (op_provenance_path opts)) w' ()"
    using VerifyTree_yields [OF assms(8) _ options_safe [OF opts] assms(9)]
      sync_done_verified [OF done_ m opts free assms(11,10,12)] by blast
  then show ?thesis by (auto simp: yields_def)
qed

theorem Sync_then_Verify_witness:
  "\<exists>w'. Sync demo_sync_host demo_decoder demo_render demo_manifest (demo_options False) demo_disk = (Inr (), w') \<and>
     fst (VerifyTree demo_sync_host demo_decoder (op_destination_root (demo_options False)) (op_provenance_path (demo_options False)) w') =
       Inr ()"
proof -
  obtain w' where run: "Sync demo_sync_host demo_decoder demo_render demo_manifest (demo_options False) demo_disk = (Inr (), w')"
    using demo_sync_run by (metis prod.collapse)
  have check: "\<not> op_check (demo_options False)" by (simp add: demo_sync_facts)
  have sha: "\<forall>s. length (ho_sha256 demo_sync_host s) = 32" by (auto simp: demo_sync_host_def)
  have json: "\<forall>p bytes. marshalProvenance demo_render p = Inr bytes \<longrightarrow> decodeJSON demo_decoder bytes = Inr p"
    by (simp add: marshalProvenance_def demo_render_def demo_decoder_def decodeJSON_def rejectDuplicateJSONKeys_def
        scanJSONValue_def next_token_def)
  from Sync_then_Verify [OF run check demo_sync_facts(3,4) demo_disk_tree demo_sync_facts(1) demo_no_artifacts demo_sync_facts(2)
      demo_sync_facts(4) refl sha json] run
  show ?thesis by blast
qed

end
