(* ===== verification/SqlTables.thy ===== *)
theory SqlTables
  imports Types
begin

text \<open>
  The SQL the Go code sends to PostgreSQL, as operations on tables: a table is the list of its rows
  in insertion order, a row a record. \<open>QueryRow(\<dots>).Scan\<close> is \<open>sql_row\<close> (the first row that matches, or
  \<open>pgx.ErrNoRows\<close>), \<open>SELECT EXISTS\<close> is \<open>sql_exists\<close>, \<open>UPDATE \<dots> WHERE\<close> and \<open>DELETE \<dots> WHERE\<close> are
  \<open>sql_update\<close> and \<open>sql_delete\<close> with \<open>sql_affected\<close> rows, and \<open>INSERT\<close> is \<open>sql_insert\<close>, which fails where
  a primary key is already there. \<open>row_at\<close> reads a table as a map from its keys.
\<close>

named_theorems sql_simps \<open>statements on a table, seen as facts about its rows\<close>

datatype sql_error = NoRows | DuplicateKey | ForeignKey | CheckFailed | Outage string

section \<open>Statements\<close>

definition sql_row :: "('r \<Rightarrow> bool) \<Rightarrow> 'r list \<Rightarrow> sql_error + 'r" where
  "sql_row P t = (case filter P t of [] \<Rightarrow> Inl NoRows | r # _ \<Rightarrow> Inr r)"

definition sql_exists :: "('r \<Rightarrow> bool) \<Rightarrow> 'r list \<Rightarrow> bool" where
  "sql_exists P t = (\<exists>r \<in> set t. P r)"

definition sql_update :: "('r \<Rightarrow> bool) \<Rightarrow> ('r \<Rightarrow> 'r) \<Rightarrow> 'r list \<Rightarrow> 'r list" where
  "sql_update P f t = map (\<lambda>r. if P r then f r else r) t"

definition sql_delete :: "('r \<Rightarrow> bool) \<Rightarrow> 'r list \<Rightarrow> 'r list" where
  "sql_delete P t = filter (\<lambda>r. \<not> P r) t"

definition sql_affected :: "('r \<Rightarrow> bool) \<Rightarrow> 'r list \<Rightarrow> nat" where
  "sql_affected P t = length (filter P t)"

definition sql_insert :: "('r \<Rightarrow> 'k) \<Rightarrow> 'r \<Rightarrow> 'r list \<Rightarrow> sql_error + 'r list" where
  "sql_insert key r t = (if key r \<in> key ` set t then Inl DuplicateKey else Inr (t @ [r]))"

text \<open>A \<open>UNIQUE\<close> constraint besides the primary key, and a reference to another table.\<close>

definition sql_unique :: "('r \<Rightarrow> 'k) \<Rightarrow> 'r \<Rightarrow> 'r list \<Rightarrow> sql_error + unit" where
  "sql_unique key r t = guard (key r \<notin> key ` set t) DuplicateKey"

definition sql_references :: "('q \<Rightarrow> 'k) \<Rightarrow> 'k \<Rightarrow> 'q list \<Rightarrow> sql_error + unit" where
  "sql_references key k t = guard (k \<in> key ` set t) ForeignKey"

section \<open>Reading the rows\<close>

lemma sql_row_Inr: "sql_row P t = Inr r \<Longrightarrow> r \<in> set t \<and> P r"
  by (auto simp: sql_row_def split: list.splits dest: filter_eq_ConsD)

lemma sql_row_Inl: "sql_row P t = Inl e \<longleftrightarrow> e = NoRows \<and> (\<forall>r \<in> set t. \<not> P r)"
  by (auto simp: sql_row_def filter_empty_conv filter_eq_Cons_iff split: list.splits)

lemma sql_row_cong: "(\<And>r. r \<in> set t \<Longrightarrow> P r \<longleftrightarrow> Q r) \<Longrightarrow> sql_row P t = sql_row Q t"
  by (auto simp: sql_row_def cong: filter_cong)

lemma set_sql_update: "set (sql_update P f t) = {f r | r. r \<in> set t \<and> P r} \<union> {r \<in> set t. \<not> P r}"
  by (auto simp: sql_update_def)

lemma in_sql_update [sql_simps]:
  "r' \<in> set (sql_update P f t) \<longleftrightarrow> (\<exists>r \<in> set t. r' = (if P r then f r else r))"
  by (auto simp: sql_update_def)

lemma in_sql_delete [sql_simps]: "r \<in> set (sql_delete P t) \<longleftrightarrow> r \<in> set t \<and> \<not> P r"
  by (simp add: sql_delete_def)

lemma sql_insert_Inr [sql_simps]:
  "sql_insert key r t = Inr t' \<longleftrightarrow> t' = t @ [r] \<and> key r \<notin> key ` set t"
  by (auto simp: sql_insert_def)

lemma sql_insert_Inl: "sql_insert key r t = Inl e \<longleftrightarrow> e = DuplicateKey \<and> key r \<in> key ` set t"
  by (auto simp: sql_insert_def)

lemma sql_unique_Inr [sql_simps]: "sql_unique key r t = Inr u \<longleftrightarrow> key r \<notin> key ` set t"
  by (auto simp: sql_unique_def)

lemma sql_references_Inr [sql_simps]: "sql_references key k t = Inr u \<longleftrightarrow> k \<in> key ` set t"
  by (auto simp: sql_references_def)

lemma sql_affected_0: "sql_affected P t = 0 \<longleftrightarrow> \<not> sql_exists P t"
  by (simp add: sql_affected_def sql_exists_def filter_empty_conv)

lemma sql_update_none: "\<not> sql_exists P t \<Longrightarrow> sql_update P f t = t"
  by (simp add: sql_update_def sql_exists_def map_idI)

section \<open>Tables with a key\<close>

definition keyed :: "('r \<Rightarrow> 'k) \<Rightarrow> 'r list \<Rightarrow> bool" where
  "keyed key t = distinct (map key t)"

lemma keyed_Nil [simp]: "keyed key []"
  by (simp add: keyed_def)

lemma keyed_same: "keyed key t \<Longrightarrow> q \<in> set t \<Longrightarrow> r \<in> set t \<Longrightarrow> key q = key r \<Longrightarrow> q = r"
  by (auto simp: keyed_def distinct_map dest: inj_onD)

lemma keyed_insert: "keyed key t \<Longrightarrow> key r \<notin> key ` set t \<Longrightarrow> keyed key (t @ [r])"
  by (auto simp: keyed_def)

lemma map_key_update:
  "(\<And>r. r \<in> set t \<Longrightarrow> P r \<Longrightarrow> key (f r) = key r) \<Longrightarrow> map key (sql_update P f t) = map key t"
  by (simp add: sql_update_def)

lemma keyed_update:
  "keyed key t \<Longrightarrow> (\<And>r. r \<in> set t \<Longrightarrow> P r \<Longrightarrow> key (f r) = key r) \<Longrightarrow> keyed key (sql_update P f t)"
  by (simp add: keyed_def map_key_update)

lemma keys_update:
  "(\<And>r. r \<in> set t \<Longrightarrow> P r \<Longrightarrow> key (f r) = key r) \<Longrightarrow> key ` set (sql_update P f t) = key ` set t"
  by (metis list.set_map map_key_update)

lemma keyed_delete: "keyed key t \<Longrightarrow> keyed key (sql_delete P t)"
  by (auto simp: keyed_def sql_delete_def distinct_map inj_on_def)

lemma keyed_row: "keyed key t \<Longrightarrow> r \<in> set t \<Longrightarrow> sql_row (\<lambda>q. key q = key r) t = Inr r"
  using keyed_same [of key t]
  by (cases "sql_row (\<lambda>q. key q = key r) t") (auto simp: sql_row_Inl dest: sql_row_Inr)

lemma keyed_update_row:
  assumes "keyed key t" and "r \<in> set t" and "\<And>q. key (f q) = key q" and "P r"
  shows "sql_row (\<lambda>q. key q = key r) (sql_update P f t) = Inr (f r)"
proof -
  have "f r \<in> set (sql_update P f t)" using assms(2,4) by (auto simp: in_sql_update intro: bexI)
  moreover have "keyed key (sql_update P f t)" using assms by (simp add: keyed_update)
  ultimately have "sql_row (\<lambda>q. key q = key (f r)) (sql_update P f t) = Inr (f r)"
    by (metis keyed_row)
  then show ?thesis using assms(3) by simp
qed

section \<open>A table as a map from its keys\<close>

definition row_at :: "('r \<Rightarrow> 'k) \<Rightarrow> 'k \<Rightarrow> 'r list \<Rightarrow> 'r option" where
  "row_at key k t = find (\<lambda>r. key r = k) t"

lemma row_at_Nil [simp]: "row_at key k [] = None"
  by (simp add: row_at_def)

lemma row_at_None: "row_at key k t = None \<longleftrightarrow> k \<notin> key ` set t"
  by (auto simp: row_at_def find_None_iff)

lemma row_at_in: "row_at key k t = Some r \<Longrightarrow> r \<in> set t \<and> key r = k"
  by (auto simp: row_at_def find_Some_iff)

lemma row_at_Some:
  assumes "keyed key t"
  shows "row_at key k t = Some r \<longleftrightarrow> r \<in> set t \<and> key r = k"
proof
  assume r: "r \<in> set t \<and> key r = k"
  then have "row_at key k t \<noteq> None" by (auto simp: row_at_None)
  then obtain a where a: "row_at key k t = Some a" by blast
  with row_at_in [OF a] r keyed_same [OF assms, of a r] show "row_at key k t = Some r" by simp
qed (rule row_at_in)

lemma find_append: "find P (xs @ ys) = (case find P xs of None \<Rightarrow> find P ys | Some x \<Rightarrow> Some x)"
  by (induction xs) auto

lemma row_at_insert:
  "key r \<notin> key ` set t \<Longrightarrow> row_at key k (t @ [r]) = (if k = key r then Some r else row_at key k t)"
  using row_at_None [of key "key r" t] by (auto simp: row_at_def find_append split: option.splits)

lemma row_at_update:
  assumes "\<And>r. P r \<Longrightarrow> key (f r) = key r"
  shows "row_at key k (sql_update P f t) = map_option (\<lambda>r. if P r then f r else r) (row_at key k t)"
  using assms by (induction t) (auto simp: row_at_def sql_update_def)

lemma row_at_delete:
  assumes "\<And>r. key r = k \<Longrightarrow> P r \<longleftrightarrow> c"
  shows "row_at key k (sql_delete P t) = (if c then None else row_at key k t)"
  using assms by (induction t) (auto simp: row_at_def sql_delete_def)

lemma sql_row_at: "sql_row (\<lambda>r. key r = k) t = (case row_at key k t of None \<Rightarrow> Inl NoRows | Some r \<Rightarrow> Inr r)"
  by (induction t) (auto simp: row_at_def sql_row_def)

end
