(* ===== verification/PgTx.thy ===== *)
theory PgTx
  imports SqlTables TenantTx AdminPolicy
begin

text \<open>
  \<open>postgres/tx.go\<close>: the implementation of \<open>TenantReader\<close> and \<open>TenantTx\<close> over the tables of
  \<open>postgres/migrations\<close>. The state is the content of the tables (other tables of the database may
  extend it), a method is the statement it sends, with its \<open>WHERE\<close> clause and the constraints of the
  table it writes. \<open>fault q s\<close> is the error with which the driver fails the statement \<open>q\<close> in state \<open>s\<close>,
  if it fails: a lost connection, a cancelled context or a serialization failure.
\<close>

section \<open>The tables\<close>

record tenant_state_row =
  tr_tenant :: tenant_id
  tr_bootstrapped :: bool
  tr_initiator :: string
  tr_boot_at :: "time option"
  tr_purged :: bool
  tr_purged_at :: "time option"

record purge_row =
  pu_tenant :: tenant_id
  pu_request :: string
  pu_operation :: string
  pu_initiator :: string
  pu_reason :: string
  pu_committed :: time

record tables =
  db_roles :: "role list"
  db_grants :: "(tenant_id \<times> role_permission_grant) list"
  db_bindings :: "subject_role_grant list"
  db_edges :: "grant_edge list"
  db_versions :: "role_version list"
  db_audit :: "mutation_audit_event list"
  db_state :: "tenant_state_row list"
  db_purges :: "purge_row list"

text \<open>The primary keys.\<close>

definition role_key :: "role \<Rightarrow> tenant_id \<times> role_id" where
  "role_key r = (ro_tenant r, ro_id r)"

definition binding_key :: "subject_role_grant \<Rightarrow> tenant_id \<times> subject_id \<times> role_id" where
  "binding_key b = (sg_tenant b, sg_subject b, sg_role b)"

definition edge_row_key :: "grant_edge \<Rightarrow> tenant_id \<times> subject_id \<times> subject_id \<times> role_id" where
  "edge_row_key e = (ge_tenant e, ge_grantor e, ge_grantee e, ge_role e)"

definition version_key :: "role_version \<Rightarrow> tenant_id \<times> role_id \<times> int64" where
  "version_key v = (rv_tenant v, rv_role v, rv_version v)"

definition purge_key :: "purge_row \<Rightarrow> tenant_id \<times> string" where
  "purge_key p = (pu_tenant p, pu_request p)"

section \<open>Errors\<close>

definition wrapPgxErr :: "sql_error \<Rightarrow> error" where
  "wrapPgxErr e = (case e of
     NoRows \<Rightarrow> ErrNotFound
   | DuplicateKey \<Rightarrow> ErrConflict
   | ForeignKey \<Rightarrow> ErrHost ''violates foreign key constraint''
   | CheckFailed \<Rightarrow> ErrHost ''violates check constraint''
   | Outage msg \<Rightarrow> if sublist ''duplicate key'' msg then ErrConflict else ErrHost msg)"

definition pg_call ::
  "('q \<Rightarrow> 's \<Rightarrow> sql_error option) \<Rightarrow> 'q \<Rightarrow> 's \<Rightarrow> sql_error + 'a \<Rightarrow> error + 'a" where
  "pg_call fault q s r = (case fault q s of
     Some e \<Rightarrow> Inl (wrapPgxErr e)
   | None \<Rightarrow> (case r of Inl e \<Rightarrow> Inl (wrapPgxErr e) | Inr x \<Rightarrow> Inr x))"

text \<open>\<open>ON CONFLICT DO NOTHING\<close>: the number of rows inserted is zero where the key is there.\<close>

definition sql_insert_new :: "('r \<Rightarrow> 'k) \<Rightarrow> 'r \<Rightarrow> (sql_error + unit) \<Rightarrow> 'r list \<Rightarrow> sql_error + bool \<times> 'r list" where
  "sql_insert_new key r references t =
     (if key r \<in> key ` set t then Inr (False, t) else ebind references (\<lambda>_. Inr (True, t @ [r])))"

section \<open>Reading\<close>

text \<open>\<open>subject_roles JOIN roles JOIN role_permission_grants USING (tenant_id, role_id)\<close>.\<close>

definition joined_grants :: "tenant_id \<Rightarrow> 'z tables_scheme \<Rightarrow> (subject_id \<times> effective_grant) list" where
  "joined_grants t s = [(sg_subject b, \<lparr>eg_role = sg_role b, eg_permission = rg_permission g,
       eg_scope = rg_scope g, eg_workspace_roles = rg_workspace_roles g\<rparr>).
     b \<leftarrow> filter (\<lambda>b. sg_tenant b = t) (db_bindings s),
     r \<leftarrow> filter (\<lambda>r. role_key r = (sg_tenant b, sg_role b) \<and> \<not> ro_deleted r) (db_roles s),
     g \<leftarrow> map snd (filter (\<lambda>(u, g). (u, rg_role g) = (sg_tenant b, sg_role b)) (db_grants s))]"

definition pg_list_effective_grants ::
  "(string \<Rightarrow> 'z tables_scheme \<Rightarrow> sql_error option) \<Rightarrow> tenant_id \<Rightarrow> subject_id \<Rightarrow> permission_key \<Rightarrow>
     'z tables_scheme \<Rightarrow> error + effective_grant list" where
  "pg_list_effective_grants fault t subject permission s = pg_call fault ''list_effective_grants'' s
     (Inr (map snd (filter (\<lambda>(u, g). u = subject \<and> eg_permission g = permission) (joined_grants t s))))"

definition pg_get_role ::
  "(string \<Rightarrow> 'z tables_scheme \<Rightarrow> sql_error option) \<Rightarrow> tenant_id \<Rightarrow> role_id \<Rightarrow> 'z tables_scheme \<Rightarrow> error + role" where
  "pg_get_role fault t r s = pg_call fault ''get_role'' s (sql_row (\<lambda>x. role_key x = (t, r)) (db_roles s))"

definition listed_less :: "role_permission_grant \<Rightarrow> role_permission_grant \<Rightarrow> bool" where
  "listed_less a b =
     (if rg_permission a \<noteq> rg_permission b then rg_permission a < rg_permission b else rg_scope a < rg_scope b)"

definition pg_list_role_permission_grants ::
  "(string \<Rightarrow> 'z tables_scheme \<Rightarrow> sql_error option) \<Rightarrow> tenant_id \<Rightarrow> role_id \<Rightarrow> 'z tables_scheme \<Rightarrow>
     error + role_permission_grant list" where
  "pg_list_role_permission_grants fault t r s = pg_call fault ''list_role_permission_grants'' s
     (Inr (sort_by listed_less (map snd (filter (\<lambda>(u, g). u = t \<and> rg_role g = r) (db_grants s)))))"

definition pg_list_subject_role_ids ::
  "(string \<Rightarrow> 'z tables_scheme \<Rightarrow> sql_error option) \<Rightarrow> tenant_id \<Rightarrow> subject_id \<Rightarrow> 'z tables_scheme \<Rightarrow>
     error + role_id list" where
  "pg_list_subject_role_ids fault t u s = pg_call fault ''list_subject_role_ids'' s
     (Inr (map sg_role (filter (\<lambda>b. sg_tenant b = t \<and> sg_subject b = u) (db_bindings s))))"

definition pg_list_role_subject_ids ::
  "(string \<Rightarrow> 'z tables_scheme \<Rightarrow> sql_error option) \<Rightarrow> tenant_id \<Rightarrow> role_id \<Rightarrow> 'z tables_scheme \<Rightarrow>
     error + subject_id list" where
  "pg_list_role_subject_ids fault t r s = pg_call fault ''list_role_subject_ids'' s
     (Inr (map sg_subject (filter (\<lambda>b. sg_tenant b = t \<and> sg_role b = r) (db_bindings s))))"

text \<open>
  The recursive query of \<open>HasGrantPath\<close>: \<open>path\<close> starts with the edges that leave \<open>from\<close> and takes in,
  round after round, the edges that leave a grantee of \<open>path\<close> and are not there yet (\<open>UNION\<close>).
\<close>

definition next_edges :: "('n \<times> 'n) list \<Rightarrow> ('n \<times> 'n) list \<Rightarrow> ('n \<times> 'n) list" where
  "next_edges es path = filter (\<lambda>e. e \<notin> set path \<and> (\<exists>p \<in> set path. snd p = fst e)) es"

lemma next_edges_shrinks:
  assumes "next_edges es path \<noteq> []"
  shows "card (set es - set (path @ next_edges es path)) < card (set es - set path)"
proof (rule psubset_card_mono)
  obtain e where "e \<in> set (next_edges es path)" using assms by (cases "next_edges es path") auto
  then have "e \<in> set es - set path" "e \<notin> set es - set (path @ next_edges es path)"
    by (auto simp: next_edges_def)
  then show "set es - set (path @ next_edges es path) \<subset> set es - set path" by auto
qed simp

function recursive_path :: "('n \<times> 'n) list \<Rightarrow> ('n \<times> 'n) list \<Rightarrow> ('n \<times> 'n) list" where
  "recursive_path es path =
     (if next_edges es path = [] then path else recursive_path es (path @ next_edges es path))"
  by pat_completeness auto
termination
  by (relation "measure (\<lambda>(es, path). card (set es - set path))")
    (use next_edges_shrinks in \<open>auto simp del: set_append\<close>)

declare recursive_path.simps [simp del]

definition edge_pairs :: "tenant_id \<Rightarrow> 'z tables_scheme \<Rightarrow> (subject_id \<times> subject_id) list" where
  "edge_pairs t s = map (\<lambda>e. (ge_grantor e, ge_grantee e)) (filter (\<lambda>e. ge_tenant e = t) (db_edges s))"

definition pg_has_grant_path ::
  "(string \<Rightarrow> 'z tables_scheme \<Rightarrow> sql_error option) \<Rightarrow> tenant_id \<Rightarrow> subject_id \<Rightarrow> subject_id \<Rightarrow>
     'z tables_scheme \<Rightarrow> error + bool" where
  "pg_has_grant_path fault t a b s = pg_call fault ''has_grant_path'' s
     (let es = edge_pairs t s in
      Inr (\<exists>e \<in> set (recursive_path es (filter (\<lambda>e. fst e = a) es)). snd e = b))"

definition pg_has_administrator ::
  "(string \<Rightarrow> 'z tables_scheme \<Rightarrow> sql_error option) \<Rightarrow> tenant_id \<Rightarrow> control_permissions \<Rightarrow>
     'z tables_scheme \<Rightarrow> error + bool" where
  "pg_has_administrator fault t controls s =
     (let permissions = [cp_manage_roles controls, cp_manage_grants controls, cp_assign_roles controls] in
      ebind (pg_call fault ''has_administrator'' s
          (Inr (filter (\<lambda>(u, g). eg_permission g \<in> set permissions) (joined_grants t s)))) (\<lambda>rows.
      ebind (efold (\<lambda>(subject, grant). coverage_add subject grant) rows []) (\<lambda>coverage.
      Inr (coverage_complete permissions coverage))))"

definition pg_is_bootstrapped ::
  "(string \<Rightarrow> 'z tables_scheme \<Rightarrow> sql_error option) \<Rightarrow> tenant_id \<Rightarrow> 'z tables_scheme \<Rightarrow> error + bool" where
  "pg_is_bootstrapped fault t s = pg_call fault ''is_bootstrapped'' s
     (case sql_row (\<lambda>r. tr_tenant r = t) (db_state s) of
        Inl e \<Rightarrow> if e = NoRows then Inr False else Inl e
      | Inr r \<Rightarrow> Inr (tr_bootstrapped r))"

section \<open>Writing\<close>

definition pg_insert_role ::
  "(string \<Rightarrow> 'z tables_scheme \<Rightarrow> sql_error option) \<Rightarrow> tenant_id \<Rightarrow> role \<Rightarrow> 'z tables_scheme \<Rightarrow>
     error + 'z tables_scheme" where
  "pg_insert_role fault t r s = pg_call fault ''insert_role'' s
     (ebind (sql_insert role_key
         \<lparr>ro_tenant = t, ro_id = ro_id r, ro_name = ro_name r, ro_description = ro_description r,
          ro_version = ro_version r, ro_deleted = False\<rparr> (db_roles s)) (\<lambda>rows.
      Inr (s\<lparr>db_roles := rows\<rparr>)))"

definition pg_update_role ::
  "(string \<Rightarrow> 'z tables_scheme \<Rightarrow> sql_error option) \<Rightarrow> tenant_id \<Rightarrow> role \<Rightarrow> int64 \<Rightarrow> 'z tables_scheme \<Rightarrow>
     error + 'z tables_scheme" where
  "pg_update_role fault t r expected s =
     (let P = (\<lambda>x. role_key x = (t, ro_id r) \<and> ro_version x = expected) in
      ebind (pg_call fault ''update_role'' s (Inr (sql_affected P (db_roles s)))) (\<lambda>affected.
      if affected = 0
      then ebind (pg_get_role fault t (ro_id r) s) (\<lambda>_. Inl ErrConflict)
      else Inr (s\<lparr>db_roles := sql_update P (\<lambda>x. x\<lparr>ro_name := ro_name r,
             ro_description := ro_description r, ro_version := ro_version r\<rparr>) (db_roles s)\<rparr>)))"

definition pg_tombstone_role ::
  "(string \<Rightarrow> 'z tables_scheme \<Rightarrow> sql_error option) \<Rightarrow> tenant_id \<Rightarrow> role_id \<Rightarrow> int64 \<Rightarrow> 'z tables_scheme \<Rightarrow>
     error + 'z tables_scheme" where
  "pg_tombstone_role fault t r expected s =
     (let P = (\<lambda>x. role_key x = (t, r) \<and> ro_version x = expected) in
      ebind (pg_call fault ''tombstone_role'' s (Inr (sql_affected P (db_roles s)))) (\<lambda>affected.
      if affected = 0
      then ebind (pg_get_role fault t r s) (\<lambda>_. Inl ErrConflict)
      else Inr (s\<lparr>db_roles := sql_update P (\<lambda>x. x\<lparr>ro_deleted := True, ro_version := ro_version x + 1\<rparr>)
             (db_roles s)\<rparr>)))"

definition pg_insert_role_permission_grant ::
  "(string \<Rightarrow> 'z tables_scheme \<Rightarrow> sql_error option) \<Rightarrow> tenant_id \<Rightarrow> role_permission_grant \<Rightarrow>
     'z tables_scheme \<Rightarrow> error + bool \<times> 'z tables_scheme" where
  "pg_insert_role_permission_grant fault t g s = pg_call fault ''insert_role_permission_grant'' s
     (ebind (sql_insert_new (\<lambda>row. row) (t, g) (sql_references role_key (t, rg_role g) (db_roles s)) (db_grants s))
       (\<lambda>(inserted, rows). Inr (inserted, s\<lparr>db_grants := rows\<rparr>)))"

definition pg_delete_role_permission_grant ::
  "(string \<Rightarrow> 'z tables_scheme \<Rightarrow> sql_error option) \<Rightarrow> tenant_id \<Rightarrow> role_permission_grant \<Rightarrow>
     'z tables_scheme \<Rightarrow> error + bool \<times> 'z tables_scheme" where
  "pg_delete_role_permission_grant fault t g s = pg_call fault ''delete_role_permission_grant'' s
     (Inr (sql_affected (\<lambda>row. row = (t, g)) (db_grants s) > 0,
           s\<lparr>db_grants := sql_delete (\<lambda>row. row = (t, g)) (db_grants s)\<rparr>))"

definition pg_insert_subject_role_grant ::
  "(string \<Rightarrow> 'z tables_scheme \<Rightarrow> sql_error option) \<Rightarrow> tenant_id \<Rightarrow> subject_role_grant \<Rightarrow>
     'z tables_scheme \<Rightarrow> error + bool \<times> 'z tables_scheme" where
  "pg_insert_subject_role_grant fault t b s = pg_call fault ''insert_subject_role_grant'' s
     (ebind (sql_insert_new binding_key (b\<lparr>sg_tenant := t\<rparr>)
         (sql_references role_key (t, sg_role b) (db_roles s)) (db_bindings s)) (\<lambda>(inserted, rows).
      Inr (inserted, s\<lparr>db_bindings := rows\<rparr>)))"

definition pg_delete_subject_role_grant ::
  "(string \<Rightarrow> 'z tables_scheme \<Rightarrow> sql_error option) \<Rightarrow> tenant_id \<Rightarrow> subject_id \<Rightarrow> role_id \<Rightarrow>
     'z tables_scheme \<Rightarrow> error + subject_role_grant option \<times> 'z tables_scheme" where
  "pg_delete_subject_role_grant fault t u r s = pg_call fault ''delete_subject_role_grant'' s
     (let P = (\<lambda>b. binding_key b = (t, u, r)) in
      case sql_row P (db_bindings s) of
        Inl e \<Rightarrow> if e = NoRows then Inr (None, s) else Inl e
      | Inr b \<Rightarrow> Inr (Some \<lparr>sg_tenant = t, sg_subject = u, sg_role = r, sg_grantor = sg_grantor b,
            sg_provenance = sg_provenance b, sg_granted_at = sg_granted_at b\<rparr>,
          s\<lparr>db_bindings := sql_delete P (db_bindings s)\<rparr>))"

definition pg_insert_grant_edge ::
  "(string \<Rightarrow> 'z tables_scheme \<Rightarrow> sql_error option) \<Rightarrow> tenant_id \<Rightarrow> grant_edge \<Rightarrow> 'z tables_scheme \<Rightarrow>
     error + 'z tables_scheme" where
  "pg_insert_grant_edge fault t e s = pg_call fault ''insert_grant_edge'' s
     (ebind (sql_insert_new edge_row_key (e\<lparr>ge_tenant := t\<rparr>) (Inr ()) (db_edges s)) (\<lambda>(_, rows).
      Inr (s\<lparr>db_edges := rows\<rparr>)))"

definition pg_delete_grant_edge ::
  "(string \<Rightarrow> 'z tables_scheme \<Rightarrow> sql_error option) \<Rightarrow> tenant_id \<Rightarrow> grant_edge \<Rightarrow> 'z tables_scheme \<Rightarrow>
     error + 'z tables_scheme" where
  "pg_delete_grant_edge fault t e s = pg_call fault ''delete_grant_edge'' s
     (Inr (s\<lparr>db_edges := sql_delete (\<lambda>x. edge_row_key x = (t, ge_grantor e, ge_grantee e, ge_role e)) (db_edges s)\<rparr>))"

definition pg_insert_role_version ::
  "(string \<Rightarrow> 'z tables_scheme \<Rightarrow> sql_error option) \<Rightarrow> tenant_id \<Rightarrow> role_version \<Rightarrow> 'z tables_scheme \<Rightarrow>
     error + 'z tables_scheme" where
  "pg_insert_role_version fault t v s = pg_call fault ''insert_role_version'' s
     (ebind (sql_insert version_key (v\<lparr>rv_tenant := t\<rparr>) (db_versions s)) (\<lambda>rows.
      ebind (sql_references role_key (t, rv_role v) (db_roles s)) (\<lambda>_.
      Inr (s\<lparr>db_versions := rows\<rparr>))))"

definition pg_insert_mutation_audit ::
  "(string \<Rightarrow> 'z tables_scheme \<Rightarrow> sql_error option) \<Rightarrow> tenant_id \<Rightarrow> mutation_audit_event \<Rightarrow>
     'z tables_scheme \<Rightarrow> error + 'z tables_scheme" where
  "pg_insert_mutation_audit fault t ev s = pg_call fault ''insert_mutation_audit'' s
     (Inr (s\<lparr>db_audit := db_audit s @ [ev\<lparr>ae_tenant := t\<rparr>]\<rparr>))"

definition pg_mark_bootstrapped ::
  "(string \<Rightarrow> 'z tables_scheme \<Rightarrow> sql_error option) \<Rightarrow> tenant_id \<Rightarrow> host_provenance \<Rightarrow>
     'z tables_scheme \<Rightarrow> error + 'z tables_scheme" where
  "pg_mark_bootstrapped fault t provenance s = pg_call fault ''mark_bootstrapped'' s
     (Inr (s\<lparr>db_state :=
        (if sql_exists (\<lambda>r. tr_tenant r = t) (db_state s)
         then sql_update (\<lambda>r. tr_tenant r = t) (\<lambda>r. r\<lparr>tr_bootstrapped := True,
                tr_initiator := hp_initiator provenance, tr_boot_at := Some (hp_at provenance)\<rparr>) (db_state s)
         else db_state s @ [\<lparr>tr_tenant = t, tr_bootstrapped = True, tr_initiator = hp_initiator provenance,
                tr_boot_at = Some (hp_at provenance), tr_purged = False, tr_purged_at = None\<rparr>])\<rparr>))"

definition pg_tx ::
  "(string \<Rightarrow> 'z tables_scheme \<Rightarrow> sql_error option) \<Rightarrow> tenant_id \<Rightarrow> 'z tables_scheme tenant_tx" where
  "pg_tx fault t =
     \<lparr>tx_list_effective_grants = pg_list_effective_grants fault t,
      tx_get_role = pg_get_role fault t,
      tx_list_role_permission_grants = pg_list_role_permission_grants fault t,
      tx_list_subject_role_ids = pg_list_subject_role_ids fault t,
      tx_list_role_subject_ids = pg_list_role_subject_ids fault t,
      tx_has_grant_path = pg_has_grant_path fault t,
      tx_has_administrator = pg_has_administrator fault t,
      tx_is_bootstrapped = pg_is_bootstrapped fault t,
      tx_insert_role = pg_insert_role fault t,
      tx_update_role = pg_update_role fault t,
      tx_tombstone_role = pg_tombstone_role fault t,
      tx_insert_role_permission_grant = pg_insert_role_permission_grant fault t,
      tx_delete_role_permission_grant = pg_delete_role_permission_grant fault t,
      tx_insert_subject_role_grant = pg_insert_subject_role_grant fault t,
      tx_delete_subject_role_grant = pg_delete_subject_role_grant fault t,
      tx_insert_grant_edge = pg_insert_grant_edge fault t,
      tx_delete_grant_edge = pg_delete_grant_edge fault t,
      tx_insert_role_version = pg_insert_role_version fault t,
      tx_insert_mutation_audit = pg_insert_mutation_audit fault t,
      tx_mark_bootstrapped = pg_mark_bootstrapped fault t\<rparr>"

end
