(* ===== verification/PgLaws.thy ===== *)
theory PgLaws
  imports PgTx PolicySpec Bootstrap
begin

text \<open>
  The PostgreSQL adapter meets the contract of \<open>TenantTx\<close>: what the tables hold for a tenant
  (\<open>pg_policy\<close>), what their constraints keep (\<open>tables_ok\<close>), and the interpretation of
  \<open>tenant_tx_laws\<close> on \<open>pg_tx\<close> with faults. Writing in a transaction of one tenant leaves the rows
  of the others, the purge ledger and the tombstones alone (\<open>pg_frame\<close>).
\<close>

named_theorems table_simps \<open>what a write to one table does to the policy of a tenant\<close>

section \<open>The policy the tables hold\<close>

definition grant_row_key :: "tenant_id \<times> role_permission_grant \<Rightarrow> tenant_id \<times> role_id \<times> grant_key" where
  "grant_row_key row = (fst row, rg_role (snd row), grant_key_of (snd row))"

definition pg_bootstrapped :: "tenant_id \<Rightarrow> tenant_state_row list \<Rightarrow> bool" where
  "pg_bootstrapped t rows = (case row_at tr_tenant t rows of None \<Rightarrow> False | Some r \<Rightarrow> tr_bootstrapped r)"

definition pg_purged :: "tenant_id \<Rightarrow> tenant_state_row list \<Rightarrow> bool" where
  "pg_purged t rows = (case row_at tr_tenant t rows of None \<Rightarrow> False | Some r \<Rightarrow> tr_purged r)"

definition pg_policy :: "tenant_id \<Rightarrow> 'z tables_scheme \<Rightarrow> policy" where
  "pg_policy t s =
     \<lparr>po_roles = (\<lambda>r. row_at role_key (t, r) (db_roles s)),
      po_grants = (\<lambda>r k. map_option snd (row_at grant_row_key (t, r, k) (db_grants s))),
      po_bindings = (\<lambda>u r. row_at binding_key (t, u, r) (db_bindings s)),
      po_edges = edge_key_of ` {e \<in> set (db_edges s). ge_tenant e = t},
      po_versions = (\<lambda>r v. row_at version_key (t, r, v) (db_versions s)),
      po_audit = filter (\<lambda>e. ae_tenant e = t) (db_audit s),
      po_bootstrapped = pg_bootstrapped t (db_state s)\<rparr>"

definition role_refs :: "'z tables_scheme \<Rightarrow> (tenant_id \<times> role_id) set" where
  "role_refs s = (\<lambda>row. (fst row, rg_role (snd row))) ` set (db_grants s) \<union>
     (\<lambda>b. (sg_tenant b, sg_role b)) ` set (db_bindings s) \<union> (\<lambda>v. (rv_tenant v, rv_role v)) ` set (db_versions s)"

definition plain_row :: "tenant_id \<times> role_permission_grant \<Rightarrow> bool" where
  "plain_row row = plain_words (rg_workspace_roles (snd row))"

definition tables_ok :: "'z tables_scheme \<Rightarrow> bool" where
  "tables_ok s =
     (keyed role_key (db_roles s) \<and> keyed grant_row_key (db_grants s) \<and> keyed binding_key (db_bindings s) \<and>
      keyed edge_row_key (db_edges s) \<and> keyed version_key (db_versions s) \<and> keyed tr_tenant (db_state s) \<and>
      keyed purge_key (db_purges s) \<and> list_all plain_row (db_grants s) \<and>
      role_refs s \<subseteq> role_key ` set (db_roles s))"

definition pg_frame :: "tenant_id \<Rightarrow> 'z tables_scheme \<Rightarrow> 'z tables_scheme \<Rightarrow> bool" where
  "pg_frame t old s =
     (tables_ok s \<and> (\<forall>u. u \<noteq> t \<longrightarrow> pg_policy u s = pg_policy u old) \<and> tables.more s = tables.more old \<and>
      db_purges s = db_purges old \<and> (\<forall>u. pg_purged u (db_state s) = pg_purged u (db_state old)))"

lemma pg_policy_simps [simp]:
  "po_roles (pg_policy t s) = (\<lambda>r. row_at role_key (t, r) (db_roles s))"
  "po_grants (pg_policy t s) = (\<lambda>r k. map_option snd (row_at grant_row_key (t, r, k) (db_grants s)))"
  "po_bindings (pg_policy t s) = (\<lambda>u r. row_at binding_key (t, u, r) (db_bindings s))"
  "po_edges (pg_policy t s) = edge_key_of ` {e \<in> set (db_edges s). ge_tenant e = t}"
  "po_versions (pg_policy t s) = (\<lambda>r v. row_at version_key (t, r, v) (db_versions s))"
  "po_audit (pg_policy t s) = filter (\<lambda>e. ae_tenant e = t) (db_audit s)"
  "po_bootstrapped (pg_policy t s) = pg_bootstrapped t (db_state s)"
  by (simp_all add: pg_policy_def)

lemma pg_policy_update [table_simps]:
  "pg_policy t (s\<lparr>db_roles := x1\<rparr>) = (pg_policy t s)\<lparr>po_roles := \<lambda>r. row_at role_key (t, r) x1\<rparr>"
  "pg_policy t (s\<lparr>db_grants := x2\<rparr>) =
     (pg_policy t s)\<lparr>po_grants := \<lambda>r k. map_option snd (row_at grant_row_key (t, r, k) x2)\<rparr>"
  "pg_policy t (s\<lparr>db_bindings := x3\<rparr>) = (pg_policy t s)\<lparr>po_bindings := \<lambda>u r. row_at binding_key (t, u, r) x3\<rparr>"
  "pg_policy t (s\<lparr>db_edges := x4\<rparr>) = (pg_policy t s)\<lparr>po_edges := edge_key_of ` {e \<in> set x4. ge_tenant e = t}\<rparr>"
  "pg_policy t (s\<lparr>db_versions := x5\<rparr>) = (pg_policy t s)\<lparr>po_versions := \<lambda>r v. row_at version_key (t, r, v) x5\<rparr>"
  "pg_policy t (s\<lparr>db_audit := x6\<rparr>) = (pg_policy t s)\<lparr>po_audit := filter (\<lambda>e. ae_tenant e = t) x6\<rparr>"
  "pg_policy t (s\<lparr>db_state := x7\<rparr>) = (pg_policy t s)\<lparr>po_bootstrapped := pg_bootstrapped t x7\<rparr>"
  by (simp_all add: pg_policy_def)

lemma pg_call_Inr: "pg_call fault q s r = Inr x \<longleftrightarrow> fault q s = None \<and> r = Inr x"
  by (auto simp: pg_call_def split: option.splits sum.splits)

lemma sql_insert_new_Inr:
  "sql_insert_new key r refs t = Inr (c, t') \<longleftrightarrow>
     (if key r \<in> key ` set t then \<not> c \<and> t' = t else c \<and> t' = t @ [r] \<and> refs = Inr ())"
  by (auto simp: sql_insert_new_def ebind_eq_Inr)

lemma grant_key_inj:
  assumes "plain_words (rg_workspace_roles g)" and "plain_words (rg_workspace_roles h)"
    and "grant_row_key (t, g) = grant_row_key (t', h)"
  shows "t = t' \<and> g = h"
proof -
  have "rg_workspace_roles g = rg_workspace_roles h"
    using assms by (intro join_with_inj [of "CHR '',''"])
      (auto simp: grant_row_key_def grant_key_of_def plain_words_def list_all_iff)
  with assms(3) show ?thesis
    by (cases g, cases h) (simp add: grant_row_key_def grant_key_of_def)
qed

section \<open>Frames\<close>

lemma pg_frame_refl: "tables_ok s \<Longrightarrow> pg_frame t s s"
  by (simp add: pg_frame_def)

lemma frame_tables: "pg_frame t old s \<Longrightarrow> tables_ok s"
  by (simp add: pg_frame_def)

lemma tables_ok_keyed:
  assumes "tables_ok s"
  shows "keyed role_key (db_roles s)" "keyed grant_row_key (db_grants s)" "keyed binding_key (db_bindings s)"
    "keyed edge_row_key (db_edges s)" "keyed version_key (db_versions s)" "keyed tr_tenant (db_state s)"
    "list_all plain_row (db_grants s)" "role_refs s \<subseteq> role_key ` set (db_roles s)"
  using assms by (simp_all add: tables_ok_def)

lemma role_refs_update [simp]:
  "role_refs (s\<lparr>db_roles := x1\<rparr>) = role_refs s" "role_refs (s\<lparr>db_edges := x2\<rparr>) = role_refs s"
  "role_refs (s\<lparr>db_audit := x3\<rparr>) = role_refs s" "role_refs (s\<lparr>db_state := x4\<rparr>) = role_refs s"
  by (simp_all add: role_refs_def)

text \<open>A write to one table keeps the frame when it keeps its key and the rows of the other tenants.\<close>

lemma frame_change:
  assumes "pg_frame t old s" and "tables_ok s'" and "\<And>u. u \<noteq> t \<Longrightarrow> pg_policy u s' = pg_policy u s"
    and "tables.more s' = tables.more s" and "db_purges s' = db_purges s"
    and "\<And>u. pg_purged u (db_state s') = pg_purged u (db_state s)"
  shows "pg_frame t old s'"
  using assms by (simp add: pg_frame_def)

lemma frame_roles:
  assumes "pg_frame t old s" and "keyed role_key R" and "role_key ` set (db_roles s) \<subseteq> role_key ` set R"
    and "\<And>u r. u \<noteq> t \<Longrightarrow> row_at role_key (u, r) R = row_at role_key (u, r) (db_roles s)"
  shows "pg_frame t old (s\<lparr>db_roles := R\<rparr>)"
proof (rule frame_change [OF assms(1)])
  show "tables_ok (s\<lparr>db_roles := R\<rparr>)"
    using frame_tables [OF assms(1)] assms(2) subset_trans [OF _ assms(3)] by (simp add: tables_ok_def)
qed (use assms(4) in \<open>simp_all add: table_simps pg_policy_def\<close>)

lemma frame_grants:
  assumes "pg_frame t old s" and "keyed grant_row_key G" and "list_all plain_row G"
    and "role_refs (s\<lparr>db_grants := G\<rparr>) \<subseteq> role_key ` set (db_roles s)"
    and "\<And>u r k. u \<noteq> t \<Longrightarrow> row_at grant_row_key (u, r, k) G = row_at grant_row_key (u, r, k) (db_grants s)"
  shows "pg_frame t old (s\<lparr>db_grants := G\<rparr>)"
proof (rule frame_change [OF assms(1)])
  show "tables_ok (s\<lparr>db_grants := G\<rparr>)"
    using frame_tables [OF assms(1)] assms(2-4) by (simp add: tables_ok_def)
qed (use assms(5) in \<open>simp_all add: table_simps pg_policy_def\<close>)

lemma frame_bindings:
  assumes "pg_frame t old s" and "keyed binding_key B"
    and "role_refs (s\<lparr>db_bindings := B\<rparr>) \<subseteq> role_key ` set (db_roles s)"
    and "\<And>u v r. u \<noteq> t \<Longrightarrow> row_at binding_key (u, v, r) B = row_at binding_key (u, v, r) (db_bindings s)"
  shows "pg_frame t old (s\<lparr>db_bindings := B\<rparr>)"
proof (rule frame_change [OF assms(1)])
  show "tables_ok (s\<lparr>db_bindings := B\<rparr>)"
    using frame_tables [OF assms(1)] assms(2,3) by (simp add: tables_ok_def)
qed (use assms(4) in \<open>simp_all add: table_simps pg_policy_def\<close>)

lemma frame_edges:
  assumes "pg_frame t old s" and "keyed edge_row_key E"
    and "\<And>u. u \<noteq> t \<Longrightarrow> {e \<in> set E. ge_tenant e = u} = {e \<in> set (db_edges s). ge_tenant e = u}"
  shows "pg_frame t old (s\<lparr>db_edges := E\<rparr>)"
proof (rule frame_change [OF assms(1)])
  show "tables_ok (s\<lparr>db_edges := E\<rparr>)"
    using frame_tables [OF assms(1)] assms(2) by (simp add: tables_ok_def)
qed (use assms(3) in \<open>simp_all add: table_simps pg_policy_def\<close>)

lemma frame_version:
  assumes "pg_frame t old s" and "version_key v \<notin> version_key ` set (db_versions s)" and "rv_tenant v = t"
    and "(t, rv_role v) \<in> role_key ` set (db_roles s)"
  shows "pg_frame t old (s\<lparr>db_versions := db_versions s @ [v]\<rparr>)"
proof (rule frame_change [OF assms(1)])
  show "tables_ok (s\<lparr>db_versions := db_versions s @ [v]\<rparr>)"
    using frame_tables [OF assms(1)] assms(2-4) by (simp add: tables_ok_def role_refs_def keyed_insert)
  show "pg_policy u (s\<lparr>db_versions := db_versions s @ [v]\<rparr>) = pg_policy u s" if "u \<noteq> t" for u
  proof -
    have "(u, r, n) \<noteq> version_key v" for r n using assms(3) that by (simp add: version_key_def)
    then show ?thesis by (simp add: table_simps pg_policy_def row_at_insert [OF assms(2)])
  qed
qed simp_all

lemma frame_audit:
  assumes "pg_frame t old s" and "ae_tenant ev = t"
  shows "pg_frame t old (s\<lparr>db_audit := db_audit s @ [ev]\<rparr>)"
proof (rule frame_change [OF assms(1)])
  show "tables_ok (s\<lparr>db_audit := db_audit s @ [ev]\<rparr>)"
    using frame_tables [OF assms(1)] by (simp add: tables_ok_def)
qed (use assms(2) in \<open>simp_all add: table_simps pg_policy_def\<close>)

lemma frame_state:
  assumes "pg_frame t old s" and "keyed tr_tenant S"
    and "\<And>u. pg_purged u S = pg_purged u (db_state s)"
    and "\<And>u. u \<noteq> t \<Longrightarrow> pg_bootstrapped u S = pg_bootstrapped u (db_state s)"
  shows "pg_frame t old (s\<lparr>db_state := S\<rparr>)"
proof (rule frame_change [OF assms(1)])
  show "tables_ok (s\<lparr>db_state := S\<rparr>)"
    using frame_tables [OF assms(1)] assms(2) by (simp add: tables_ok_def)
qed (use assms(3,4) in \<open>simp_all add: table_simps pg_policy_def\<close>)

section \<open>The recursive query\<close>

lemma recursive_path_closed: "next_edges es (recursive_path es path) = []"
  by (induction es path rule: recursive_path.induct) (subst recursive_path.simps, simp)

lemma recursive_path_grows: "set path \<subseteq> set (recursive_path es path)"
proof (induction es path rule: recursive_path.induct)
  case (1 es path)
  show ?case
    by (subst recursive_path.simps) (use 1 in \<open>auto split: if_splits\<close>)
qed

lemma recursive_path_sound:
  "set path \<subseteq> S \<Longrightarrow> (\<And>p e. p \<in> S \<Longrightarrow> e \<in> set es \<Longrightarrow> snd p = fst e \<Longrightarrow> e \<in> S) \<Longrightarrow>
     set (recursive_path es path) \<subseteq> S"
proof (induction es path rule: recursive_path.induct)
  case (1 es path)
  have "set (next_edges es path) \<subseteq> S" using 1(2,3) by (force simp: next_edges_def)
  then have "next_edges es path \<noteq> [] \<Longrightarrow> set (recursive_path es (path @ next_edges es path)) \<subseteq> S"
    using 1 by simp
  then show ?case using 1(2) by (subst recursive_path.simps) simp
qed

lemma recursive_path_iff:
  "(\<exists>e \<in> set (recursive_path es (filter (\<lambda>e. fst e = a) es)). snd e = b) \<longleftrightarrow> (a, b) \<in> (set es)\<^sup>+"
proof -
  let ?P = "recursive_path es (filter (\<lambda>e. fst e = a) es)"
  have "set ?P \<subseteq> {e. (a, snd e) \<in> (set es)\<^sup>+}"
  proof (rule recursive_path_sound)
    show "e \<in> {e. (a, snd e) \<in> (set es)\<^sup>+}"
      if "p \<in> {e. (a, snd e) \<in> (set es)\<^sup>+}" "e \<in> set es" "snd p = fst e" for p e
      using that trancl_into_trancl [of a "fst e" "set es" "snd e"] by simp
  qed auto
  moreover have start: "(a, b) \<in> set es \<Longrightarrow> (a, b) \<in> set ?P" for b
    using recursive_path_grows [of "filter (\<lambda>e. fst e = a) es" es] by auto
  moreover have step: "p \<in> set ?P \<Longrightarrow> e \<in> set es \<Longrightarrow> snd p = fst e \<Longrightarrow> e \<in> set ?P" for p e
    using recursive_path_closed [of es "filter (\<lambda>e. fst e = a) es"]
    by (auto simp: next_edges_def filter_empty_conv)
  have "(a, b) \<in> (set es)\<^sup>+ \<Longrightarrow> \<exists>e \<in> set ?P. snd e = b"
  proof (induction rule: trancl_induct)
    case (base y)
    with start show ?case by force
  next
    case (step y z)
    then obtain e where "e \<in> set ?P" "snd e = y" by blast
    with step(2) \<open>\<And>p e. p \<in> set ?P \<Longrightarrow> e \<in> set es \<Longrightarrow> snd p = fst e \<Longrightarrow> e \<in> set ?P\<close> [of e "(y, z)"]
    show ?case by force
  qed
  ultimately show ?thesis by blast
qed

lemma edge_pairs_graph: "set (edge_pairs t s) = grant_graph (pg_policy t s)"
  by (force simp: edge_pairs_def grant_graph_def edge_key_of_def)

section \<open>Reading keeps to the policy\<close>

lemma grant_row:
  assumes "tables_ok s"
  shows "(t, g) \<in> set (db_grants s) \<longleftrightarrow>
    map_option snd (row_at grant_row_key (t, rg_role g, grant_key_of g) (db_grants s)) = Some g"
proof -
  have "keyed grant_row_key (db_grants s)" using assms by (rule tables_ok_keyed)
  note rows = row_at_Some [OF this]
  have plain: "row \<in> set (db_grants s) \<Longrightarrow> plain_words (rg_workspace_roles (snd row))" for row
    using tables_ok_keyed(7) [OF assms] by (simp add: list_all_iff plain_row_def)
  show ?thesis
    using plain by (auto simp: rows) (simp_all add: grant_row_key_def)
qed

lemma grant_at:
  assumes "tables_ok s" and "po_grants (pg_policy t s) r k = Some g"
  shows "(t, g) \<in> set (db_grants s) \<and> rg_role g = r \<and> grant_key_of g = k"
proof -
  from assms(2) obtain u where "row_at grant_row_key (t, r, k) (db_grants s) = Some (u, g)" by auto
  from row_at_in [OF this] show ?thesis by (auto simp: grant_row_key_def)
qed

lemma po_grants_row:
  "tables_ok s \<Longrightarrow> po_grants (pg_policy t s) r k = Some g \<longleftrightarrow>
     (t, g) \<in> set (db_grants s) \<and> rg_role g = r \<and> grant_key_of g = k"
  using grant_at [of s t r k g] grant_row [of s t g] by (metis pg_policy_simps(2))

lemma ran_po_grants: "tables_ok s \<Longrightarrow> ran (po_grants (pg_policy t s) r) = {g. (t, g) \<in> set (db_grants s) \<and> rg_role g = r}"
  unfolding ran_def po_grants_row by blast

lemma live_row:
  "tables_ok s \<Longrightarrow> live_role (pg_policy t s) r \<longleftrightarrow> (\<exists>x \<in> set (db_roles s). role_key x = (t, r) \<and> \<not> ro_deleted x)"
  using row_at_Some [OF tables_ok_keyed(1)] by (fastforce simp: live_role_def)

lemma binding_row:
  "tables_ok s \<Longrightarrow> po_bindings (pg_policy t s) u r = Some b \<longleftrightarrow> b \<in> set (db_bindings s) \<and> binding_key b = (t, u, r)"
  using row_at_Some [OF tables_ok_keyed(3)] by simp

lemma joined_held:
  assumes "tables_ok s"
  shows "(u, g') \<in> set (joined_grants t s) \<longleftrightarrow> g' \<in> held_grants (pg_policy t s) u"
proof -
  have eff: "\<lparr>eg_role = r, eg_permission = rg_permission g, eg_scope = rg_scope g,
      eg_workspace_roles = rg_workspace_roles g\<rparr> = (effective_of g)\<lparr>eg_role := r\<rparr>" for r g
    by (simp add: effective_of_def)
  have "(u, g') \<in> set (joined_grants t s) \<longleftrightarrow> (\<exists>b r g. b \<in> set (db_bindings s) \<and> binding_key b = (t, u, r) \<and>
      (\<exists>x \<in> set (db_roles s). role_key x = (t, r) \<and> \<not> ro_deleted x) \<and>
      (t, g) \<in> set (db_grants s) \<and> rg_role g = r \<and> g' = (effective_of g)\<lparr>eg_role := r\<rparr>)"
    unfolding joined_grants_def eff
    by (auto simp: binding_key_def image_iff)
  also have "\<dots> \<longleftrightarrow> g' \<in> held_grants (pg_policy t s) u"
    unfolding held_grants_def live_row [OF assms] mem_Collect_eq not_None_eq binding_row [OF assms]
      po_grants_row [OF assms] by blast
  finally show ?thesis .
qed

lemma pg_has_administrator_eq:
  assumes "tables_ok s" and "pg_has_administrator fault t controls s = Inr c"
  shows "p_has_administrator controls (pg_policy t s) = Inr c"
proof -
  let ?ps = "control_list controls"
  let ?cs = "filter (\<lambda>(u, g). eg_permission g \<in> set ?ps) (joined_grants t s)"
  have "ebind (add_all ?cs []) (\<lambda>c. Inr (coverage_complete ?ps c)) = Inr c"
    using assms(2) by (auto simp: pg_has_administrator_def Let_def control_list_def add_all_def pg_call_def
        split: option.splits)
  moreover have "?ps \<noteq> []" by (simp add: control_list_def)
  ultimately have run: "list_all good_candidate ?cs"
    "c \<longleftrightarrow> (\<exists>u. \<forall>p \<in> set ?ps. \<exists>g. (u, g) \<in> set ?cs \<and> eg_scope g = ScopeTenant \<and> eg_permission g = p)"
    by (simp_all add: coverage_run split: if_splits)
  have cand: "(u, g) \<in> set ?cs \<longleftrightarrow> eg_permission g \<in> set ?ps \<and> g \<in> held_grants (pg_policy t s) u" for u g
    using joined_held [OF assms(1)] by auto
  from run(1) have "\<forall>u g. (u, g) \<in> set ?cs \<longrightarrow> valid_id u \<and> good_grant (eg_permission g) g"
    unfolding list_all_iff good_candidate_def by force
  then have "controls_well_formed (pg_policy t s) controls"
    unfolding controls_well_formed_def effective_grants_def cand by blast
  moreover have "c = has_administrator (pg_policy t s) controls"
    unfolding run(2) cand has_administrator_def holds_all_controls_def effective_grants_def
    by (intro iff_exI ball_cong) auto
  ultimately show ?thesis by (simp add: p_has_administrator_def)
qed

lemma set_joined_filter:
  "set (map snd (filter (\<lambda>(u, g). u = subject \<and> eg_permission g = perm) rows)) =
     {g. (subject, g) \<in> set rows \<and> eg_permission g = perm}"
  by force

lemma listed_rows:
  fixes rows :: "(tenant_id \<times> role_permission_grant) list"
  assumes "distinct rows"
  shows "set (map snd (filter (\<lambda>(u, g). u = t \<and> rg_role g = r) rows)) = {g. (t, g) \<in> set rows \<and> rg_role g = r} \<and>
    distinct (map snd (filter (\<lambda>(u, g). u = t \<and> rg_role g = r) rows))"
  using assms by (induction rows) auto

interpretation pg: tenant_reader_laws "pg_tx fault t" "pg_policy t" "pg_frame t old" for fault t old
proof (unfold_locales, goal_cases)
  case (1 s u perm gs)
  then have "set gs = {g. (u, g) \<in> set (joined_grants t s) \<and> eg_permission g = perm}"
    unfolding set_joined_filter [symmetric] by (simp add: pg_tx_def pg_list_effective_grants_def pg_call_Inr)
  then show ?case
    unfolding joined_held [OF frame_tables [OF 1(1)]] by (simp add: effective_grants_def)
next
  case (2 s r x)
  then show ?case
    by (simp add: pg_tx_def pg_get_role_def pg_call_Inr sql_row_at p_get_role_def split: option.splits)
next
  case (3 s r gs)
  have "keyed grant_row_key (db_grants s)" using frame_tables [OF 3(1)] by (rule tables_ok_keyed)
  then have "distinct (db_grants s)" by (simp add: keyed_def distinct_map)
  note listed = listed_rows [OF this, of t r]
  have "gs = sort_by listed_less (map snd (filter (\<lambda>(u, g). u = t \<and> rg_role g = r) (db_grants s)))"
    using 3 by (simp add: pg_tx_def pg_list_role_permission_grants_def pg_call_Inr)
  with listed show ?case
    unfolding ran_po_grants [OF frame_tables [OF 3(1)]] by (simp only: set_sort_by distinct_sort_by)
next
  case (4 s u rs)
  then show ?case
    using row_at_None [of binding_key _ "db_bindings s"]
    by (force simp: pg_tx_def pg_list_subject_role_ids_def pg_call_Inr binding_key_def dom_def image_iff)
next
  case (5 s r us)
  then show ?case
    using row_at_None [of binding_key _ "db_bindings s"]
    by (force simp: pg_tx_def pg_list_role_subject_ids_def pg_call_Inr binding_key_def image_iff)
next
  case (6 s u u' c)
  then have "c \<longleftrightarrow> (u, u') \<in> (grant_graph (pg_policy t s))\<^sup>+"
    by (simp add: pg_tx_def pg_has_grant_path_def Let_def pg_call_Inr recursive_path_iff edge_pairs_graph)
  with 6(2) show ?case by (simp add: rtrancl_eq_or_trancl)
next
  case (7 s controls c)
  then show ?case using pg_has_administrator_eq [OF frame_tables [OF 7(1)]] by (simp add: pg_tx_def)
next
  case (8 s c)
  then show ?case
    by (auto simp: pg_tx_def pg_is_bootstrapped_def pg_call_Inr sql_row_at [where key = tr_tenant]
        pg_bootstrapped_def split: option.splits)
qed

section \<open>Writing does what the policy operations do\<close>

lemma role_home: "ro_tenant x = t \<Longrightarrow> \<not> ro_deleted x \<Longrightarrow>
    \<lparr>ro_tenant = t, ro_id = ro_id x, ro_name = ro_name x, ro_description = ro_description x,
     ro_version = ro_version x, ro_deleted = False\<rparr> = x"
  by (cases x) simp

text \<open>A role that is not there has no rows that refer to it.\<close>

lemma unreferenced:
  assumes "tables_ok s" and "(t, r) \<notin> role_key ` set (db_roles s)"
  shows "row_at grant_row_key (t, r, k) (db_grants s) = None" "row_at version_key (t, r, n) (db_versions s) = None"
  using tables_ok_keyed(8) [OF assms(1)] assms(2)
  by (force simp: row_at_None grant_row_key_def version_key_def role_refs_def)+

lemma pg_insert_role_law:
  assumes f: "pg_frame t old s" and x: "ro_tenant x = t" "\<not> ro_deleted x"
    and run: "pg_insert_role fault t x s = Inr s'"
  shows "pg_frame t old s' \<and> p_insert_role x (pg_policy t s) = Inr (pg_policy t s')"
proof -
  have fresh: "role_key x \<notin> role_key ` set (db_roles s)" and s': "s' = s\<lparr>db_roles := db_roles s @ [x]\<rparr>"
    using run by (auto simp: pg_insert_role_def pg_call_Inr role_home [OF x] sql_simps ebind_eq_Inr)
  note rows = row_at_insert [OF fresh]
  have key: "role_key x = (t, ro_id x)" using x by (simp add: role_key_def)
  have "pg_frame t old s'"
    unfolding s'
    by (rule frame_roles [OF f])
      (use tables_ok_keyed(1) [OF frame_tables [OF f]] fresh in \<open>auto simp: keyed_insert rows key\<close>)
  moreover have "po_roles (pg_policy t s) (ro_id x) = None" using fresh by (simp add: row_at_None key)
  moreover have "pg_policy t s' = (pg_policy t s)
      \<lparr>po_roles := (po_roles (pg_policy t s))(ro_id x \<mapsto> x),
       po_grants := (po_grants (pg_policy t s))(ro_id x := Map.empty),
       po_versions := (po_versions (pg_policy t s))(ro_id x := Map.empty)\<rparr>"
    using unreferenced [OF frame_tables [OF f], of t "ro_id x"] fresh
    by (auto simp: s' table_simps pg_policy_def rows key fun_eq_iff)
  ultimately show ?thesis by (simp add: p_insert_role_def)
qed

lemma affected_row:
  assumes "keyed key rows" and "sql_affected (\<lambda>x. key x = k \<and> P x) rows \<noteq> 0" and "row_at key k rows = Some y"
  shows "P y"
proof -
  obtain z where "z \<in> set rows" "key z = k" "P z" using assms(2) by (auto simp: sql_affected_def filter_empty_conv)
  then show ?thesis using assms(1,3) by (metis option.inject row_at_Some)
qed

text \<open>\<open>UPDATE roles \<dots> WHERE tenant_id = t AND role_id = r AND version = v\<close> that hits a row.\<close>

lemma role_written:
  assumes f: "pg_frame t old s" and keep: "\<And>z. role_key (g z) = role_key z"
    and P: "P = (\<lambda>z. role_key z = (t, r) \<and> ro_version z = v)" and hit: "sql_affected P (db_roles s) \<noteq> 0"
  shows "pg_frame t old (s\<lparr>db_roles := sql_update P g (db_roles s)\<rparr>) \<and>
    (\<exists>y. po_roles (pg_policy t s) r = Some y \<and> role_key y = (t, r) \<and> ro_version y = v \<and>
       pg_policy t (s\<lparr>db_roles := sql_update P g (db_roles s)\<rparr>) =
         (pg_policy t s)\<lparr>po_roles := (po_roles (pg_policy t s))(r \<mapsto> g y)\<rparr>)"
proof -
  note keyed = tables_ok_keyed(1) [OF frame_tables [OF f]]
  obtain z where "z \<in> set (db_roles s)" "role_key z = (t, r)"
    using hit by (auto simp: sql_affected_def filter_empty_conv P)
  then have "row_at role_key (t, r) (db_roles s) \<noteq> None" unfolding row_at_None by force
  then obtain y where row: "row_at role_key (t, r) (db_roles s) = Some y" by blast
  then have key: "role_key y = (t, r)" using row_at_in by fast
  have v: "ro_version y = v" by (rule affected_row [OF keyed hit [unfolded P] row])
  note rows = row_at_update [where P = P and f = g and key = role_key, OF keep]
  have other: "row_at role_key k (sql_update P g (db_roles s)) = row_at role_key k (db_roles s)" if "k \<noteq> (t, r)" for k
    unfolding rows using that by (cases "row_at role_key k (db_roles s)") (auto simp: P dest: row_at_in)
  have here: "row_at role_key (t, r) (sql_update P g (db_roles s)) = Some (g y)"
    unfolding rows using row key v by (simp add: P)
  have "role_key ` set (sql_update P g (db_roles s)) = role_key ` set (db_roles s)"
    by (rule keys_update) (rule keep)
  then have "pg_frame t old (s\<lparr>db_roles := sql_update P g (db_roles s)\<rparr>)"
    using frame_roles [OF f keyed_update [OF keyed keep]] other by simp
  moreover have "pg_policy t (s\<lparr>db_roles := sql_update P g (db_roles s)\<rparr>) =
      (pg_policy t s)\<lparr>po_roles := (po_roles (pg_policy t s))(r \<mapsto> g y)\<rparr>"
    using here other by (simp add: table_simps fun_eq_iff)
  ultimately show ?thesis using row key v by simp
qed

lemma pg_update_role_law:
  assumes f: "pg_frame t old s" and y: "po_roles (pg_policy t s) (ro_id x) = Some y" and rev: "new_revision x y v"
    and run: "pg_update_role fault t x v s = Inr s'"
  shows "pg_frame t old s' \<and> p_update_role x v (pg_policy t s) = Inr (pg_policy t s')"
proof -
  let ?P = "\<lambda>z. role_key z = (t, ro_id x) \<and> ro_version z = v"
  let ?f = "\<lambda>z. z\<lparr>ro_name := ro_name x, ro_description := ro_description x, ro_version := ro_version x\<rparr>"
  have hit: "sql_affected ?P (db_roles s) \<noteq> 0" and s': "s' = s\<lparr>db_roles := sql_update ?P ?f (db_roles s)\<rparr>"
    using run by (simp_all add: pg_update_role_def Let_def pg_call_Inr ebind_eq_Inr split: if_splits)
  have keep: "role_key (?f z) = role_key z" for z by (simp add: role_key_def)
  from role_written [where g = ?f, OF f keep refl hit] y have w: "pg_frame t old s'" "role_key y = (t, ro_id x)" "ro_version y = v"
    "pg_policy t s' = (pg_policy t s)\<lparr>po_roles := (po_roles (pg_policy t s))(ro_id x \<mapsto> ?f y)\<rparr>"
    unfolding s' by auto
  have "?f y = x\<lparr>ro_version := v + 1\<rparr>"
    using rev w(2) by (cases x, cases y) (simp add: new_revision_def role_key_def)
  with w y show ?thesis by (simp add: p_update_role_def)
qed

lemma pg_tombstone_role_law:
  assumes f: "pg_frame t old s" and run: "pg_tombstone_role fault t r v s = Inr s'"
  shows "pg_frame t old s' \<and> p_tombstone_role r v (pg_policy t s) = Inr (pg_policy t s')"
proof -
  let ?P = "\<lambda>z. role_key z = (t, r) \<and> ro_version z = v"
  let ?f = "\<lambda>z. z\<lparr>ro_deleted := True, ro_version := ro_version z + 1\<rparr>"
  have hit: "sql_affected ?P (db_roles s) \<noteq> 0" and s': "s' = s\<lparr>db_roles := sql_update ?P ?f (db_roles s)\<rparr>"
    using run by (simp_all add: pg_tombstone_role_def Let_def pg_call_Inr ebind_eq_Inr split: if_splits)
  have keep: "role_key (?f z) = role_key z" for z by (simp add: role_key_def)
  from role_written [where g = ?f, OF f keep refl hit] show ?thesis
    unfolding s' by (auto simp: p_tombstone_role_def)
qed

lemma role_row_ref: "live_role (pg_policy t s) r \<Longrightarrow> (t, r) \<in> role_key ` set (db_roles s)"
  using row_at_None [of role_key "(t, r)" "db_roles s"] by (auto simp: live_role_def)

lemma key_row:
  assumes "tables_ok s" and "plain_words (rg_workspace_roles g)"
  shows "grant_row_key (t, g) \<in> grant_row_key ` set (db_grants s) \<longleftrightarrow> (t, g) \<in> set (db_grants s)"
proof
  assume "grant_row_key (t, g) \<in> grant_row_key ` set (db_grants s)"
  then obtain u h where h: "(u, h) \<in> set (db_grants s)" "grant_row_key (u, h) = grant_row_key (t, g)" by force
  then have "plain_words (rg_workspace_roles h)"
    using tables_ok_keyed(7) [OF assms(1)] by (auto simp: list_all_iff plain_row_def)
  with grant_key_inj [OF _ assms(2) h(2)] h(1) show "(t, g) \<in> set (db_grants s)" by simp
qed (rule imageI)

lemma no_grant_at:
  "po_grants (pg_policy t s) (rg_role g) (grant_key_of g) = None \<longleftrightarrow>
     grant_row_key (t, g) \<notin> grant_row_key ` set (db_grants s)"
  using row_at_None [of grant_row_key "grant_row_key (t, g)" "db_grants s"] by (simp add: grant_row_key_def)

lemma pg_insert_grant_law:
  assumes f: "pg_frame t old s" and live: "live_role (pg_policy t s) (rg_role g)"
    and plain: "plain_words (rg_workspace_roles g)" and run: "pg_insert_role_permission_grant fault t g s = Inr (c, s')"
  shows "pg_frame t old s' \<and> p_insert_grant g (pg_policy t s) = Inr (c, pg_policy t s')"
proof -
  note ok = frame_tables [OF f]
  from run obtain rows where rows: "if (t, g) \<in> set (db_grants s) then \<not> c \<and> rows = db_grants s
      else c \<and> rows = db_grants s @ [(t, g)]" and s': "s' = s\<lparr>db_grants := rows\<rparr>"
    by (auto simp: pg_insert_role_permission_grant_def pg_call_Inr ebind_eq_Inr sql_insert_new_Inr split: if_splits)
  obtain x where x: "po_roles (pg_policy t s) (rg_role g) = Some x" "\<not> ro_deleted x"
    using live by (auto simp: live_role_def)
  show ?thesis
  proof (cases "(t, g) \<in> set (db_grants s)")
    case True
    with rows s' f x no_grant_at [of t s g] key_row [OF ok plain, of t] show ?thesis
      by (simp add: p_insert_grant_def del: pg_policy_simps)
  next
    case False
    let ?G = "db_grants s @ [(t, g)]"
    have fresh: "grant_row_key (t, g) \<notin> grant_row_key ` set (db_grants s)"
      using False key_row [OF ok plain, of t] by simp
    note at = row_at_insert [OF fresh]
    have "pg_frame t old (s\<lparr>db_grants := ?G\<rparr>)"
    proof (rule frame_grants [OF f])
      show "role_refs (s\<lparr>db_grants := ?G\<rparr>) \<subseteq> role_key ` set (db_roles s)"
        using tables_ok_keyed(8) [OF ok] role_row_ref [OF live] by (simp add: role_refs_def)
      show "row_at grant_row_key (u, r, k) ?G = row_at grant_row_key (u, r, k) (db_grants s)" if "u \<noteq> t" for u r k
        using that by (simp add: at) (simp add: grant_row_key_def)
    qed (use tables_ok_keyed(2,7) [OF ok] fresh plain in \<open>simp_all add: keyed_insert plain_row_def\<close>)
    moreover have "(\<lambda>r k. map_option snd (row_at grant_row_key (t, r, k) ?G)) = (po_grants (pg_policy t s))
        (rg_role g := (po_grants (pg_policy t s) (rg_role g))(grant_key_of g \<mapsto> g))"
      by (intro ext) (auto simp: at, auto simp: grant_row_key_def)
    ultimately show ?thesis using False rows s' x no_grant_at [of t s g] fresh
      by (simp add: p_insert_grant_def table_simps del: pg_policy_simps)
  qed
qed

lemma role_refs_delete: "role_refs (s\<lparr>db_grants := sql_delete P (db_grants s)\<rparr>) \<subseteq> role_refs s"
  "role_refs (s\<lparr>db_bindings := sql_delete Q (db_bindings s)\<rparr>) \<subseteq> role_refs s"
  by (auto simp: role_refs_def in_sql_delete)

lemma pg_delete_grant_law:
  assumes f: "pg_frame t old s" and plain: "plain_words (rg_workspace_roles g)"
    and run: "pg_delete_role_permission_grant fault t g s = Inr (c, s')"
  shows "pg_frame t old s' \<and> p_delete_grant g (pg_policy t s) = Inr (c, pg_policy t s')"
proof -
  note ok = frame_tables [OF f]
  let ?G = "sql_delete (\<lambda>row. row = (t, g)) (db_grants s)"
  have c: "c \<longleftrightarrow> (t, g) \<in> set (db_grants s)" and s': "s' = s\<lparr>db_grants := ?G\<rparr>"
    using run by (auto simp: pg_delete_role_permission_grant_def pg_call_Inr sql_affected_def filter_empty_conv)
  have del: "?G = sql_delete (\<lambda>row. grant_row_key row = grant_row_key (t, g)) (db_grants s)"
    unfolding sql_delete_def
  proof (rule filter_cong [OF refl], rule arg_cong [where f = Not])
    fix row assume "row \<in> set (db_grants s)"
    then have "plain_words (rg_workspace_roles (snd row))"
      using tables_ok_keyed(7) [OF ok] by (simp add: list_all_iff plain_row_def)
    then show "row = (t, g) \<longleftrightarrow> grant_row_key row = grant_row_key (t, g)"
      using grant_key_inj [of "snd row" g "fst row" t] plain by auto
  qed
  have at: "row_at grant_row_key k ?G = (if k = grant_row_key (t, g) then None else row_at grant_row_key k (db_grants s))" for k
    unfolding del by (subst row_at_delete [where c = "k = grant_row_key (t, g)"]) simp_all
  have "pg_frame t old s'"
    unfolding s'
  proof (rule frame_grants [OF f])
    show "role_refs (s\<lparr>db_grants := ?G\<rparr>) \<subseteq> role_key ` set (db_roles s)"
      by (rule subset_trans [OF role_refs_delete(1) tables_ok_keyed(8) [OF ok]])
    show "row_at grant_row_key (u, r, k) ?G = row_at grant_row_key (u, r, k) (db_grants s)" if "u \<noteq> t" for u r k
      using that by (simp add: at) (simp add: grant_row_key_def)
    show "keyed grant_row_key ?G" by (rule keyed_delete [OF tables_ok_keyed(2) [OF ok]])
    show "list_all plain_row ?G" using tables_ok_keyed(7) [OF ok] by (simp add: list_all_iff sql_delete_def)
  qed
  moreover have "p_delete_grant g (pg_policy t s) = Inr (c, pg_policy t s')"
  proof (cases c)
    case True
    have "(\<lambda>r k. map_option snd (row_at grant_row_key (t, r, k) ?G)) = (po_grants (pg_policy t s))
        (rg_role g := (po_grants (pg_policy t s) (rg_role g))(grant_key_of g := None))"
      unfolding at by (intro ext) (simp add: grant_row_key_def)
    with True c no_grant_at [of t s g] key_row [OF ok plain, of t] show ?thesis
      unfolding s' by (simp add: p_delete_grant_def table_simps del: pg_policy_simps)
  next
    case False
    with c have "?G = db_grants s" by (simp only: sql_delete_def filter_id_conv) blast
    with s' have "s' = s" by simp
    with False c no_grant_at [of t s g] key_row [OF ok plain, of t] show ?thesis
      by (simp add: p_delete_grant_def del: pg_policy_simps)
  qed
  ultimately show ?thesis by simp
qed

lemma pg_insert_binding_law:
  assumes f: "pg_frame t old s" and home: "sg_tenant b = t"
    and run: "pg_insert_subject_role_grant fault t b s = Inr (c, s')"
  shows "pg_frame t old s' \<and> p_insert_binding b (pg_policy t s) = Inr (c, pg_policy t s')"
proof -
  note ok = frame_tables [OF f]
  have b: "b\<lparr>sg_tenant := t\<rparr> = b" using home by (cases b) simp
  have key: "binding_key b = (t, sg_subject b, sg_role b)" using home by (simp add: binding_key_def)
  from run obtain rows where rows: "if binding_key b \<in> binding_key ` set (db_bindings s) then \<not> c \<and> rows = db_bindings s
      else c \<and> rows = db_bindings s @ [b] \<and> (t, sg_role b) \<in> role_key ` set (db_roles s)"
    and s': "s' = s\<lparr>db_bindings := rows\<rparr>"
    by (auto simp: pg_insert_subject_role_grant_def pg_call_Inr ebind_eq_Inr sql_insert_new_Inr b sql_simps
        split: if_splits)
  have role: "po_roles (pg_policy t s) (sg_role b) = None \<longleftrightarrow> (t, sg_role b) \<notin> role_key ` set (db_roles s)"
    by (simp add: row_at_None)
  have bound: "po_bindings (pg_policy t s) (sg_subject b) (sg_role b) = None \<longleftrightarrow>
      binding_key b \<notin> binding_key ` set (db_bindings s)"
    by (simp add: row_at_None key)
  show ?thesis
  proof (cases "binding_key b \<in> binding_key ` set (db_bindings s)")
    case True
    then obtain b' where "b' \<in> set (db_bindings s)" "sg_tenant b' = t" "sg_role b' = sg_role b"
      using home by (auto simp: key binding_key_def)
    then have "(t, sg_role b) \<in> role_refs s" by (auto simp: role_refs_def)
    with tables_ok_keyed(8) [OF ok] have "(t, sg_role b) \<in> role_key ` set (db_roles s)" by blast
    with True rows s' f role bound show ?thesis by (simp add: p_insert_binding_def del: pg_policy_simps)
  next
    case False
    let ?B = "db_bindings s @ [b]"
    note at = row_at_insert [OF False]
    have ref: "(t, sg_role b) \<in> role_key ` set (db_roles s)" using rows False by simp
    have "pg_frame t old (s\<lparr>db_bindings := ?B\<rparr>)"
    proof (rule frame_bindings [OF f])
      show "role_refs (s\<lparr>db_bindings := ?B\<rparr>) \<subseteq> role_key ` set (db_roles s)"
        using tables_ok_keyed(8) [OF ok] ref home by (simp add: role_refs_def)
      show "row_at binding_key (u, v, r) ?B = row_at binding_key (u, v, r) (db_bindings s)" if "u \<noteq> t" for u v r
        using that by (simp add: at key)
    qed (use tables_ok_keyed(3) [OF ok] False in \<open>simp add: keyed_insert\<close>)
    moreover have "(\<lambda>u r. row_at binding_key (t, u, r) ?B) = (po_bindings (pg_policy t s))
        (sg_subject b := (po_bindings (pg_policy t s) (sg_subject b))(sg_role b \<mapsto> b))"
      unfolding at by (intro ext) (simp add: key)
    ultimately show ?thesis using False rows s' role ref bound
      by (simp add: p_insert_binding_def table_simps del: pg_policy_simps)
  qed
qed

lemma pg_delete_binding_law:
  assumes f: "pg_frame t old s" and run: "pg_delete_subject_role_grant fault t u r s = Inr (d, s')"
  shows "pg_frame t old s' \<and> p_delete_binding u r (pg_policy t s) = Inr (d, pg_policy t s')"
proof (cases "row_at binding_key (t, u, r) (db_bindings s)")
  case None
  with f run show ?thesis
    by (auto simp: pg_delete_subject_role_grant_def Let_def sql_row_at pg_call_Inr p_delete_binding_def)
next
  case (Some b)
  note ok = frame_tables [OF f]
  let ?B = "sql_delete (\<lambda>b. binding_key b = (t, u, r)) (db_bindings s)"
  have "binding_key b = (t, u, r)" using row_at_in [OF Some] by simp
  then have "\<lparr>sg_tenant = t, sg_subject = u, sg_role = r, sg_grantor = sg_grantor b,
      sg_provenance = sg_provenance b, sg_granted_at = sg_granted_at b\<rparr> = b"
    by (cases b) (simp add: binding_key_def)
  with run Some have d: "d = Some b" and s': "s' = s\<lparr>db_bindings := ?B\<rparr>"
    by (auto simp: pg_delete_subject_role_grant_def Let_def sql_row_at pg_call_Inr)
  have at: "row_at binding_key k ?B = (if k = (t, u, r) then None else row_at binding_key k (db_bindings s))" for k
    by (subst row_at_delete [where c = "k = (t, u, r)"]) simp_all
  have "pg_frame t old s'"
    unfolding s'
  proof (rule frame_bindings [OF f])
    show "role_refs (s\<lparr>db_bindings := ?B\<rparr>) \<subseteq> role_key ` set (db_roles s)"
      by (rule subset_trans [OF role_refs_delete(2) tables_ok_keyed(8) [OF ok]])
    show "keyed binding_key ?B" by (rule keyed_delete [OF tables_ok_keyed(3) [OF ok]])
    show "row_at binding_key (v, w, x) ?B = row_at binding_key (v, w, x) (db_bindings s)" if "v \<noteq> t" for v w x
      using that by (simp add: at)
  qed
  moreover have "(\<lambda>v x. row_at binding_key (t, v, x) ?B) = (po_bindings (pg_policy t s))
      (u := (po_bindings (pg_policy t s) u)(r := None))"
    unfolding at by (intro ext) simp
  moreover have "po_bindings (pg_policy t s) u r = Some b" using Some by simp
  ultimately show ?thesis using d s' by (simp add: p_delete_binding_def table_simps del: pg_policy_simps)
qed

lemma edge_key_home: "edge_row_key e = (ge_tenant e, edge_key_of e)"
  by (simp add: edge_row_key_def edge_key_of_def)

lemma pg_insert_edge_law:
  assumes f: "pg_frame t old s" and run: "pg_insert_grant_edge fault t e s = Inr s'"
  shows "pg_frame t old s' \<and> p_insert_edge e (pg_policy t s) = Inr (pg_policy t s')"
proof -
  let ?e = "e\<lparr>ge_tenant := t\<rparr>"
  let ?E = "if edge_row_key ?e \<in> edge_row_key ` set (db_edges s) then db_edges s else db_edges s @ [?e]"
  have s': "s' = s\<lparr>db_edges := ?E\<rparr>"
    using run by (auto simp: pg_insert_grant_edge_def pg_call_Inr ebind_eq_Inr sql_insert_new_Inr split: if_splits)
  have key: "edge_row_key ?e = (t, edge_key_of e)" "edge_key_of ?e = edge_key_of e"
    by (simp_all add: edge_row_key_def edge_key_of_def)
  have "pg_frame t old s'"
    unfolding s'
    by (rule frame_edges [OF f]) (use tables_ok_keyed(4) [OF frame_tables [OF f]] in \<open>auto simp: keyed_insert\<close>)
  moreover have "edge_key_of ` {x \<in> set ?E. ge_tenant x = t} =
      insert (edge_key_of e) (edge_key_of ` {x \<in> set (db_edges s). ge_tenant x = t})"
  proof (cases "edge_row_key ?e \<in> edge_row_key ` set (db_edges s)")
    case True
    then obtain x where "x \<in> set (db_edges s)" "ge_tenant x = t" "edge_key_of x = edge_key_of e"
      unfolding key by (auto simp: edge_key_home)
    with True show ?thesis by (force simp: image_iff)
  next
    case False
    then have "{x \<in> set ?E. ge_tenant x = t} = insert ?e {x \<in> set (db_edges s). ge_tenant x = t}" by auto
    with key show ?thesis by simp
  qed
  ultimately show ?thesis by (simp add: p_insert_edge_def s' table_simps)
qed

lemma pg_delete_edge_law:
  assumes f: "pg_frame t old s" and run: "pg_delete_grant_edge fault t e s = Inr s'"
  shows "pg_frame t old s' \<and> p_delete_edge e (pg_policy t s) = Inr (pg_policy t s')"
proof -
  let ?E = "sql_delete (\<lambda>x. edge_row_key x = (t, ge_grantor e, ge_grantee e, ge_role e)) (db_edges s)"
  have s': "s' = s\<lparr>db_edges := ?E\<rparr>" using run by (simp add: pg_delete_grant_edge_def pg_call_Inr)
  have "pg_frame t old s'"
    unfolding s'
    by (rule frame_edges [OF f])
      (use keyed_delete [OF tables_ok_keyed(4) [OF frame_tables [OF f]]] in \<open>auto simp: in_sql_delete edge_row_key_def\<close>)
  moreover have "edge_key_of ` {x \<in> set ?E. ge_tenant x = t} =
      edge_key_of ` {x \<in> set (db_edges s). ge_tenant x = t} - {edge_key_of e}"
    by (auto simp: in_sql_delete edge_row_key_def edge_key_of_def)
  ultimately show ?thesis by (simp add: p_delete_edge_def s' table_simps)
qed

lemma pg_insert_version_law:
  assumes f: "pg_frame t old s" and home: "rv_tenant v = t" and run: "pg_insert_role_version fault t v s = Inr s'"
  shows "pg_frame t old s' \<and> p_insert_version v (pg_policy t s) = Inr (pg_policy t s')"
proof -
  have v: "v\<lparr>rv_tenant := t\<rparr> = v" using home by (cases v) simp
  have key: "version_key v = (t, rv_role v, rv_version v)" using home by (simp add: version_key_def)
  have fresh: "version_key v \<notin> version_key ` set (db_versions s)" "(t, rv_role v) \<in> role_key ` set (db_roles s)"
    and s': "s' = s\<lparr>db_versions := db_versions s @ [v]\<rparr>"
    using run by (auto simp: pg_insert_role_version_def pg_call_Inr ebind_eq_Inr v sql_simps)
  have "(\<lambda>r n. row_at version_key (t, r, n) (db_versions s @ [v])) = (po_versions (pg_policy t s))
      (rv_role v := (po_versions (pg_policy t s) (rv_role v))(rv_version v \<mapsto> v))"
    unfolding row_at_insert [OF fresh(1)] by (intro ext) (simp add: key)
  with frame_version [OF f fresh(1) home fresh(2)] s' show ?thesis
    by (simp add: p_insert_version_def table_simps del: pg_policy_simps)
qed

lemma pg_insert_audit_law:
  assumes f: "pg_frame t old s" and home: "ae_tenant ev = t" and run: "pg_insert_mutation_audit fault t ev s = Inr s'"
  shows "pg_frame t old s' \<and> p_insert_audit ev (pg_policy t s) = Inr (pg_policy t s')"
proof -
  have "ev\<lparr>ae_tenant := t\<rparr> = ev" using home by (cases ev) simp
  with run have s': "s' = s\<lparr>db_audit := db_audit s @ [ev]\<rparr>" by (simp add: pg_insert_mutation_audit_def pg_call_Inr)
  with frame_audit [OF f home] home show ?thesis by (simp add: p_insert_audit_def table_simps)
qed

lemma pg_mark_law:
  assumes f: "pg_frame t old s" and run: "pg_mark_bootstrapped fault t prov s = Inr s'"
  shows "pg_frame t old s' \<and> p_mark_bootstrapped (pg_policy t s) = Inr (pg_policy t s')"
proof -
  let ?P = "\<lambda>r. tr_tenant r = t"
  let ?f = "\<lambda>r. r\<lparr>tr_bootstrapped := True, tr_initiator := hp_initiator prov, tr_boot_at := Some (hp_at prov)\<rparr>"
  let ?new = "\<lparr>tr_tenant = t, tr_bootstrapped = True, tr_initiator = hp_initiator prov,
      tr_boot_at = Some (hp_at prov), tr_purged = False, tr_purged_at = None\<rparr>"
  let ?S = "if sql_exists ?P (db_state s) then sql_update ?P ?f (db_state s) else db_state s @ [?new]"
  have s': "s' = s\<lparr>db_state := ?S\<rparr>" using run by (simp add: pg_mark_bootstrapped_def pg_call_Inr)
  note keyed = tables_ok_keyed(6) [OF frame_tables [OF f]]
  have ex: "sql_exists ?P (db_state s) \<longleftrightarrow> row_at tr_tenant t (db_state s) \<noteq> None"
    by (auto simp: sql_exists_def row_at_None)
  have at: "row_at tr_tenant u ?S = (if u = t then Some (case row_at tr_tenant t (db_state s) of None \<Rightarrow> ?new | Some r \<Rightarrow> ?f r)
      else row_at tr_tenant u (db_state s))" for u
  proof (cases "row_at tr_tenant t (db_state s)")
    case None
    then have "tr_tenant ?new \<notin> tr_tenant ` set (db_state s)" by (simp add: row_at_None)
    note row_at_insert [OF this]
    with None ex show ?thesis by simp
  next
    case (Some r)
    have "row_at tr_tenant u (sql_update ?P ?f (db_state s)) =
        map_option (\<lambda>r. if ?P r then ?f r else r) (row_at tr_tenant u (db_state s))"
      by (rule row_at_update) simp
    with Some ex show ?thesis
      using row_at_in [of tr_tenant u "db_state s"] by (cases "row_at tr_tenant u (db_state s)") auto
  qed
  have "pg_frame t old s'"
    unfolding s'
  proof (rule frame_state [OF f])
    show "keyed tr_tenant ?S"
      using keyed keyed_update [OF keyed, of ?P ?f] ex
      by (auto simp: row_at_None intro!: keyed_insert)
    show "pg_purged u ?S = pg_purged u (db_state s)" for u
      unfolding pg_purged_def at by (auto split: option.splits)
  qed (simp add: pg_bootstrapped_def at)
  moreover have "pg_bootstrapped t ?S" unfolding pg_bootstrapped_def at by (simp split: option.splits)
  ultimately show ?thesis by (simp add: p_mark_bootstrapped_def s' table_simps)
qed

text \<open>The contract.\<close>

interpretation pg: tenant_tx_laws "pg_tx fault t" "pg_policy t" "pg_frame t old" "\<lambda>u. u = t" for fault t old
proof (unfold_locales, goal_cases)
  case (1 s x s')
  then show ?case using pg_insert_role_law [of t old s x fault s'] by (simp add: pg_tx_def)
next
  case (2 s x y v s')
  then show ?case using pg_update_role_law [of t old s x y v fault s'] by (simp add: pg_tx_def del: pg_policy_simps)
next
  case (3 s r v s')
  then show ?case using pg_tombstone_role_law [of t old s fault r v s'] by (simp add: pg_tx_def)
next
  case (4 s g c s')
  then show ?case using pg_insert_grant_law [of t old s g fault c s'] by (simp add: pg_tx_def)
next
  case (5 s g c s')
  then show ?case using pg_delete_grant_law [of t old s g fault c s'] by (simp add: pg_tx_def)
next
  case (6 s b c s')
  then show ?case using pg_insert_binding_law [of t old s b fault c s'] by (simp add: pg_tx_def)
next
  case (7 s u r d s')
  then show ?case using pg_delete_binding_law [of t old s fault u r d s'] by (simp add: pg_tx_def)
next
  case (8 s ed s')
  then show ?case using pg_insert_edge_law [of t old s fault ed s'] by (simp add: pg_tx_def)
next
  case (9 s ed s')
  then show ?case using pg_delete_edge_law [of t old s fault ed s'] by (simp add: pg_tx_def)
next
  case (10 s n s')
  then show ?case using pg_insert_version_law [of t old s n fault s'] by (simp add: pg_tx_def)
next
  case (11 s ev s')
  then show ?case using pg_insert_audit_law [of t old s ev fault s'] by (simp add: pg_tx_def)
next
  case (12 s prov s')
  then show ?case using pg_mark_law [of t old s fault prov s'] by (simp add: pg_tx_def)
qed

end
