(* ===== verification/PgStore.thy ===== *)
theory PgStore
  imports PgLaws Maintenance GoCodec
begin

text \<open>
  \<open>postgres/store.go\<close> and the maintenance transaction of \<open>postgres/tx.go\<close>: the frame of a
  transaction (begin, isolation, the signed binding, the tombstone check, the advisory lock, the
  callback, commit or the deferred rollback) for \<open>RunTenant\<close>, \<open>ReadTenant\<close>, \<open>MutateTenant\<close>,
  \<open>MaintainTenant\<close> and \<open>runActor\<close>. A \<open>session\<close> is what one call meets: the statements that fail, the
  transaction id, the nonce, the secret the database holds for the role, and what becomes of the
  commit, which can take effect without being acknowledged. Transactions are serializable and one
  per tenant, so a call is a function on the tables; a serialization failure is a failing statement.
\<close>

section \<open>Sessions\<close>

datatype commit_result = Committed | NotCommitted sql_error | Unacknowledged sql_error

record 's session =
  ss_error :: "string \<Rightarrow> sql_error option"
  ss_fault :: "string \<Rightarrow> 's \<Rightarrow> sql_error option"
  ss_txid :: nat
  ss_user :: string
  ss_nonce :: string
  ss_mac :: "string \<Rightarrow> string \<Rightarrow> string"
  ss_role_secret :: "string option"
  ss_commit :: commit_result

definition sql_text :: "sql_error \<Rightarrow> string" where
  "sql_text e = (case e of
     NoRows \<Rightarrow> ''no rows in result set''
   | DuplicateKey \<Rightarrow> ''duplicate key value violates unique constraint''
   | ForeignKey \<Rightarrow> ''violates foreign key constraint''
   | CheckFailed \<Rightarrow> ''violates check constraint''
   | Outage msg \<Rightarrow> msg)"

definition fmtErr :: "string \<Rightarrow> sql_error \<Rightarrow> error" where
  "fmtErr operation e = ErrHost (''amsonia/postgres: '' @ operation @ '': '' @ sql_text e)"

definition frame_call :: "'s session \<Rightarrow> string \<Rightarrow> error + unit" where
  "frame_call ss operation = (case ss_error ss operation of
     None \<Rightarrow> Inr ()
   | Some e \<Rightarrow> Inl (fmtErr operation e))"

section \<open>The signed binding\<close>

definition newline :: char where
  "newline = CHR 0x0A"

definition bind_payload :: "string \<Rightarrow> string \<Rightarrow> string \<Rightarrow> nat \<Rightarrow> string \<Rightarrow> string" where
  "bind_payload purpose v user txid nonce =
     (let parts = [v, user, decimal txid, nonce] in
      join_with newline (if purpose = ''actor'' then ''actor'' # parts else parts))"

text \<open>
  \<open>amsonia.bind_tenant\<close> and \<open>amsonia.bind_actor\<close> of the migrations: what the database accepts.
\<close>

definition sql_bind_accepts :: "'s session \<Rightarrow> string \<Rightarrow> string \<Rightarrow> nat \<Rightarrow> string \<Rightarrow> string \<Rightarrow> bool" where
  "sql_bind_accepts ss purpose v txid nonce signature =
     (v \<noteq> [] \<and> length v \<le> (if purpose = ''actor'' then 128 else 256) \<and>
      (purpose = ''actor'' \<longrightarrow> CHR 0x0A \<notin> set v \<and> CHR 0x0D \<notin> set v) \<and>
      txid = ss_txid ss \<and> length nonce = 32 \<and> list_all is_hex nonce \<and>
      length signature = 64 \<and> list_all is_hex signature \<and>
      (case ss_role_secret ss of
         None \<Rightarrow> False
       | Some secret \<Rightarrow> signature = hex_encode (ss_mac ss secret (bind_payload purpose v (ss_user ss) txid nonce))))"

definition bindContext :: "'s session \<Rightarrow> string \<Rightarrow> string \<Rightarrow> string \<Rightarrow> error + unit" where
  "bindContext ss purpose v secret =
     ebind (frame_call ss ''transaction_id'') (\<lambda>_.
     ebind (frame_call ss ''tenant_nonce'') (\<lambda>_.
     let nonce = hex_encode (ss_nonce ss) in
     ebind (frame_call ss ''session_user'') (\<lambda>_.
     let payload = bind_payload purpose v (ss_user ss) (ss_txid ss) nonce;
         signature = hex_encode (ss_mac ss secret payload) in
     ebind (frame_call ss (''bind_'' @ purpose)) (\<lambda>_.
     guard (sql_bind_accepts ss purpose v (ss_txid ss) nonce signature)
       (fmtErr (''bind_'' @ purpose) (Outage (''invalid '' @ purpose @ '' binding'')))))))"

definition bindTenant :: "'s session \<Rightarrow> tenant_id \<Rightarrow> string \<Rightarrow> error + unit" where
  "bindTenant ss t secret = bindContext ss ''tenant'' t secret"

definition bindActor :: "'s session \<Rightarrow> string \<Rightarrow> string \<Rightarrow> error + unit" where
  "bindActor ss account secret = bindContext ss ''actor'' account secret"

section \<open>Stores\<close>

record pg_store =
  st_secret :: string
  st_maintenance :: "string option"

text \<open>\<open>None\<close> is a nil pool.\<close>

definition pg_NewStore :: "unit option \<Rightarrow> string \<Rightarrow> error + pg_store" where
  "pg_NewStore pool secret =
     (if pool = None \<or> length secret < 32 then Inl ErrInvalidInput
      else Inr \<lparr>st_secret = secret, st_maintenance = None\<rparr>)"

definition NewStoreWithMaintenance ::
  "unit option \<Rightarrow> string \<Rightarrow> unit option \<Rightarrow> string \<Rightarrow> error + pg_store" where
  "NewStoreWithMaintenance pool secret maintenancePool maintenanceSecret =
     (case pg_NewStore pool secret of
        Inl _ \<Rightarrow> Inl ErrInvalidInput
      | Inr store \<Rightarrow>
          if maintenancePool = None \<or> length maintenanceSecret < 32 then Inl ErrInvalidInput
          else Inr (store\<lparr>st_maintenance := Some maintenanceSecret\<rparr>))"

section \<open>Transactions\<close>

text \<open>\<open>tx.Commit\<close>: the answer of the call and the tables afterwards.\<close>

definition pg_commit :: "'s session \<Rightarrow> (sql_error \<Rightarrow> error) \<Rightarrow> 's \<Rightarrow> 'r \<Rightarrow> 's \<Rightarrow> (error + 'r) \<times> 's" where
  "pg_commit ss wrap s x s' = (case ss_commit ss of
     Committed \<Rightarrow> (Inr x, s')
   | NotCommitted e \<Rightarrow> (Inl (wrap e), s)
   | Unacknowledged e \<Rightarrow> (Inl (wrap e), s'))"

definition pg_frame_run ::
  "'s session \<Rightarrow> (sql_error \<Rightarrow> error) \<Rightarrow> error + 'r \<times> 's \<Rightarrow> 's \<Rightarrow> (error + 'r) \<times> 's" where
  "pg_frame_run ss wrap r s = (case r of
     Inl e \<Rightarrow> (Inl e, s)
   | Inr (x, s') \<Rightarrow> pg_commit ss wrap s x s')"

definition RunTenant ::
  "pg_store \<Rightarrow> 's session \<Rightarrow> tenant_id \<Rightarrow> bool \<Rightarrow> ('s \<Rightarrow> error + 'r \<times> 's) option \<Rightarrow> 's \<Rightarrow> (error + 'r) \<times> 's" where
  "RunTenant st ss t readOnly fn s =
     (if validateOpaqueID t \<noteq> Inr () then (Inl ErrInvalidInput, s)
      else case fn of
        None \<Rightarrow> (Inl ErrInvalidInput, s)
      | Some f \<Rightarrow> pg_frame_run ss (fmtErr ''commit'')
         (ebind (frame_call ss ''begin'') (\<lambda>_.
          ebind (bindTenant ss t (st_secret st)) (\<lambda>_.
          ebind (if readOnly then Inr () else frame_call ss ''advisory_lock'') (\<lambda>_.
          ebind (f s) (\<lambda>(x, s').
          if readOnly \<and> s' \<noteq> s then Inl (ErrHost ''cannot execute in a read-only transaction'')
          else Inr (x, s')))))) s)"

definition pg_ReadTenant ::
  "pg_store \<Rightarrow> 's session \<Rightarrow> tenant_id \<Rightarrow> ('s \<Rightarrow> error + 'r) option \<Rightarrow> 's \<Rightarrow> error + 'r" where
  "pg_ReadTenant st ss t fn s =
     (if validateOpaqueID t \<noteq> Inr () then Inl ErrInvalidInput
      else case fn of
        None \<Rightarrow> Inl ErrInvalidInput
      | Some f \<Rightarrow> fst (pg_frame_run ss (\<lambda>e. ErrHost (sql_text e))
         (ebind (frame_call ss ''begin'') (\<lambda>_.
          ebind (bindTenant ss t (st_secret st)) (\<lambda>_.
          ebind (f s) (\<lambda>x. Inr (x, s))))) s))"

definition pg_ListEffectiveGrants ::
  "pg_store \<Rightarrow> 'z tables_scheme session \<Rightarrow> tenant_id \<Rightarrow> subject_id \<Rightarrow> permission_key \<Rightarrow> 'z tables_scheme \<Rightarrow>
     error + effective_grant list" where
  "pg_ListEffectiveGrants st ss t u permission s =
     pg_ReadTenant st ss t (Some (pg_list_effective_grants (ss_fault ss) t u permission)) s"

definition isPurged :: "'z tables_scheme session \<Rightarrow> tenant_id \<Rightarrow> 'z tables_scheme \<Rightarrow> error + bool" where
  "isPurged ss t s =
     ebind (frame_call ss ''tenant_state'') (\<lambda>_.
     case sql_row (\<lambda>r. tr_tenant r = t) (db_state s) of
       Inl e \<Rightarrow> if e = NoRows then Inr False else Inl (fmtErr ''tenant_state'' e)
     | Inr r \<Rightarrow> Inr (tr_purged r))"

definition pg_MutateTenant ::
  "pg_store \<Rightarrow> 'z tables_scheme session \<Rightarrow> tenant_id \<Rightarrow>
     ('z tables_scheme \<Rightarrow> error + 'r \<times> 'z tables_scheme) option \<Rightarrow> 'z tables_scheme \<Rightarrow>
     (error + 'r) \<times> 'z tables_scheme" where
  "pg_MutateTenant st ss t fn s =
     (if validateOpaqueID t \<noteq> Inr () then (Inl ErrInvalidInput, s)
      else case fn of
        None \<Rightarrow> (Inl ErrInvalidInput, s)
      | Some f \<Rightarrow> pg_frame_run ss (fmtErr ''commit'')
         (ebind (frame_call ss ''begin'') (\<lambda>_.
          ebind (frame_call ss ''isolation'') (\<lambda>_.
          ebind (bindTenant ss t (st_secret st)) (\<lambda>_.
          ebind (isPurged ss t s) (\<lambda>purged.
          if purged then Inl ErrNotFound
          else ebind (frame_call ss ''advisory_lock'') (\<lambda>_. f s)))))) s)"

definition pg_MaintainTenant ::
  "pg_store \<Rightarrow> 's session \<Rightarrow> tenant_id \<Rightarrow> ('s \<Rightarrow> error + 'r \<times> 's) option \<Rightarrow> 's \<Rightarrow> (error + 'r) \<times> 's" where
  "pg_MaintainTenant st ss t fn s =
     (if validateOpaqueID t \<noteq> Inr () then (Inl ErrInvalidInput, s)
      else case fn of
        None \<Rightarrow> (Inl ErrInvalidInput, s)
      | Some f \<Rightarrow>
        (case st_maintenance st of
           None \<Rightarrow> (Inl ErrForbidden, s)
         | Some secret \<Rightarrow> pg_frame_run ss (fmtErr ''commit'')
            (ebind (frame_call ss ''begin'') (\<lambda>_.
             ebind (frame_call ss ''isolation'') (\<lambda>_.
             ebind (bindTenant ss t secret) (\<lambda>_.
             ebind (frame_call ss ''advisory_lock'') (\<lambda>_. f s))))) s))"

definition valid_actor_text :: "string \<Rightarrow> bool" where
  "valid_actor_text account = (account \<noteq> [] \<and> length account \<le> 128 \<and>
     CHR 0x0D \<notin> set account \<and> CHR 0x0A \<notin> set account)"

definition runActor ::
  "pg_store \<Rightarrow> 's session \<Rightarrow> string \<Rightarrow> bool \<Rightarrow> ('s \<Rightarrow> error + 'r \<times> 's) option \<Rightarrow> 's \<Rightarrow> (error + 'r) \<times> 's" where
  "runActor st ss account readOnly fn s =
     (if \<not> valid_actor_text account then (Inl ErrInvalidInput, s)
      else case fn of
        None \<Rightarrow> (Inl ErrInvalidInput, s)
      | Some f \<Rightarrow> pg_frame_run ss (fmtErr ''commit'')
         (ebind (frame_call ss ''begin'') (\<lambda>_.
          ebind (bindActor ss account (st_secret st)) (\<lambda>_.
          ebind (f s) (\<lambda>(x, s').
          if readOnly \<and> s' \<noteq> s then Inl (ErrHost ''cannot execute in a read-only transaction'')
          else Inr (x, s'))))) s)"

definition RunActor ::
  "pg_store \<Rightarrow> 's session \<Rightarrow> string \<Rightarrow> ('s \<Rightarrow> error + 'r \<times> 's) option \<Rightarrow> 's \<Rightarrow> (error + 'r) \<times> 's" where
  "RunActor st ss account fn s = runActor st ss account True fn s"

text \<open>
  \<open>fail_created_tenant\<close> is the database function of migration 4: \<open>fail\<close> is its effect on the tables
  and whether it found the tenant.
\<close>

definition FailCreatedTenant ::
  "pg_store \<Rightarrow> 's session \<Rightarrow> (string \<Rightarrow> tenant_id \<Rightarrow> 's \<Rightarrow> sql_error + bool \<times> 's) \<Rightarrow> string \<Rightarrow> tenant_id \<Rightarrow> 's \<Rightarrow>
     (error + unit) \<times> 's" where
  "FailCreatedTenant st ss fail account t s =
     (if validateOpaqueID t \<noteq> Inr () then (Inl ErrInvalidInput, s)
      else runActor st ss account False (Some (\<lambda>s.
        case fail account t s of
          Inl e \<Rightarrow> Inl (ErrHost (sql_text e))
        | Inr (failed, s') \<Rightarrow> if failed then Inr ((), s') else Inl ErrConflict)) s)"

definition pg_mutator ::
  "pg_store \<Rightarrow> 'z tables_scheme session \<Rightarrow> tenant_id \<Rightarrow> ('z tables_scheme \<Rightarrow> error + 'r \<times> 'z tables_scheme) \<Rightarrow>
     'z tables_scheme \<Rightarrow> (error + 'r) \<times> 'z tables_scheme" where
  "pg_mutator st ss t body s = pg_MutateTenant st ss t (Some body) s"

definition pg_maintainer ::
  "pg_store \<Rightarrow> 's session \<Rightarrow> tenant_id \<Rightarrow> ('s \<Rightarrow> error + 'r \<times> 's) \<Rightarrow> 's \<Rightarrow> (error + 'r) \<times> 's" where
  "pg_maintainer st ss t body s = pg_MaintainTenant st ss t (Some body) s"

section \<open>The maintenance transaction\<close>

definition tenant_rows_snapshot :: "tenant_id \<Rightarrow> 'z tables_scheme \<Rightarrow> tenant_snapshot" where
  "tenant_rows_snapshot t s =
     \<lparr>sn_format = ''amsonia.tenant.v1'', sn_tenant = t,
      sn_roles = sort_by (\<lambda>a b. ro_id a < ro_id b) (filter (\<lambda>r. ro_tenant r = t) (db_roles s)),
      sn_grants = sort_by (\<lambda>a b. if rg_role a \<noteq> rg_role b then rg_role a < rg_role b
          else rg_permission a < rg_permission b) (map snd (filter (\<lambda>(u, g). u = t) (db_grants s))),
      sn_versions = sort_by (\<lambda>a b. if rv_role a \<noteq> rv_role b then rv_role a < rv_role b
          else sint (rv_version a) < sint (rv_version b)) (filter (\<lambda>v. rv_tenant v = t) (db_versions s)),
      sn_edges = sort_by (\<lambda>a b. if ge_grantor a \<noteq> ge_grantor b then ge_grantor a < ge_grantor b
          else if ge_grantee a \<noteq> ge_grantee b then ge_grantee a < ge_grantee b else ge_role a < ge_role b)
          (filter (\<lambda>e. ge_tenant e = t) (db_edges s)),
      sn_audit = filter (\<lambda>e. ae_tenant e = t) (db_audit s)\<rparr>"

definition pg_purged_row ::
  "(string \<Rightarrow> 'z tables_scheme \<Rightarrow> sql_error option) \<Rightarrow> tenant_id \<Rightarrow> 'z tables_scheme \<Rightarrow> error + bool" where
  "pg_purged_row fault t s = pg_call fault ''purged'' s
     (case sql_row (\<lambda>r. tr_tenant r = t) (db_state s) of
        Inl e \<Rightarrow> if e = NoRows then Inr False else Inl e
      | Inr r \<Rightarrow> Inr (tr_purged r))"

definition pg_export ::
  "renderer \<Rightarrow> (string \<Rightarrow> 'z tables_scheme \<Rightarrow> sql_error option) \<Rightarrow> tenant_id \<Rightarrow> 'z tables_scheme \<Rightarrow> error + string" where
  "pg_export render fault t s =
     ebind (pg_purged_row fault t s) (\<lambda>purged.
     if purged then Inl ErrNotFound
     else
       ebind (pg_call fault ''export_roles'' s (Inr ())) (\<lambda>_.
       ebind (pg_call fault ''export_grants'' s (Inr ())) (\<lambda>_.
       ebind (pg_call fault ''export_versions'' s (Inr ())) (\<lambda>_.
       ebind (pg_call fault ''export_edges'' s (Inr ())) (\<lambda>_.
       ebind (pg_call fault ''export_audit'' s (Inr ())) (\<lambda>_.
       Marshal render (tenant_rows_snapshot t s)))))))"

definition readPurgeLedger ::
  "(string \<Rightarrow> 'z tables_scheme \<Rightarrow> sql_error option) \<Rightarrow> tenant_id \<Rightarrow> mutation_audit_event \<Rightarrow> 'z tables_scheme \<Rightarrow>
     error + mutation_audit_event" where
  "readPurgeLedger fault t event s =
     ebind (pg_call fault ''read_ledger'' s
       (sql_row (\<lambda>p. purge_key p = (t, ae_request_id event)) (db_purges s))) (\<lambda>p.
     Inr \<lparr>ae_tenant = pu_tenant p, ae_actor = [], ae_host_initiator = pu_initiator p,
       ae_operation = pu_operation p, ae_phase = AuditPhaseIntent, ae_target_type = ''tenant'',
       ae_target_id = t, ae_outcome = AuditOutcomeSuccess, ae_reason_code = pu_reason p,
       ae_request_id = pu_request p, ae_role_version = 0, ae_at = pu_committed p\<rparr>)"

definition tenantPurgeLedgerExists ::
  "(string \<Rightarrow> 'z tables_scheme \<Rightarrow> sql_error option) \<Rightarrow> tenant_id \<Rightarrow> mutation_audit_event \<Rightarrow> 'z tables_scheme \<Rightarrow>
     error + bool" where
  "tenantPurgeLedgerExists fault t event s = pg_call fault ''ledger_exists'' s
     (Inr (sql_exists (\<lambda>p. purge_key p = (t, ae_request_id event)) (db_purges s)))"

text \<open>The deletes of one tenant's rows, in the order of the code's list of tables.\<close>

definition purge_statements :: "tenant_id \<Rightarrow> (string \<times> ('z tables_scheme \<Rightarrow> 'z tables_scheme)) list" where
  "purge_statements t =
     [(''purge_role_versions'', \<lambda>s. s\<lparr>db_versions := sql_delete (\<lambda>v. rv_tenant v = t) (db_versions s)\<rparr>),
      (''purge_grant_edges'', \<lambda>s. s\<lparr>db_edges := sql_delete (\<lambda>e. ge_tenant e = t) (db_edges s)\<rparr>),
      (''purge_subject_roles'', \<lambda>s. s\<lparr>db_bindings := sql_delete (\<lambda>b. sg_tenant b = t) (db_bindings s)\<rparr>),
      (''purge_role_permission_grants'', \<lambda>s. s\<lparr>db_grants := sql_delete (\<lambda>row. fst row = t) (db_grants s)\<rparr>),
      (''purge_audit_events'', \<lambda>s. s\<lparr>db_audit := sql_delete (\<lambda>e. ae_tenant e = t) (db_audit s)\<rparr>),
      (''purge_roles'', \<lambda>s. s\<lparr>db_roles := sql_delete (\<lambda>r. ro_tenant r = t) (db_roles s)\<rparr>)]"

definition purge_row_of :: "tenant_id \<Rightarrow> mutation_audit_event \<Rightarrow> purge_row" where
  "purge_row_of t event =
     \<lparr>pu_tenant = t, pu_request = ae_request_id event, pu_operation = ae_operation event,
      pu_initiator = ae_host_initiator event, pu_reason = ae_reason_code event, pu_committed = ae_at event\<rparr>"

definition mark_purged :: "tenant_id \<Rightarrow> time \<Rightarrow> tenant_state_row list \<Rightarrow> tenant_state_row list" where
  "mark_purged t at rows =
     (if sql_exists (\<lambda>r. tr_tenant r = t) rows
      then sql_update (\<lambda>r. tr_tenant r = t)
        (\<lambda>r. r\<lparr>tr_bootstrapped := False, tr_purged := True, tr_purged_at := Some at\<rparr>) rows
      else rows @ [\<lparr>tr_tenant = t, tr_bootstrapped = False, tr_initiator = [], tr_boot_at = None,
        tr_purged = True, tr_purged_at = Some at\<rparr>])"

definition pg_purge ::
  "(string \<Rightarrow> 'z tables_scheme \<Rightarrow> sql_error option) \<Rightarrow> tenant_id \<Rightarrow> mutation_audit_event \<Rightarrow> 'z tables_scheme \<Rightarrow>
     error + purge_result \<times> 'z tables_scheme" where
  "pg_purge fault t event s =
     ebind (tenantPurgeLedgerExists fault t event s) (\<lambda>ledgerExists.
     if ledgerExists
     then ebind (readPurgeLedger fault t event s) (\<lambda>canonical.
       Inr (\<lparr>pg_changed = False, pg_already_committed = True, pg_canonical_event = canonical\<rparr>, s))
     else ebind (pg_purged_row fault t s) (\<lambda>purged.
       if purged then Inl ErrNotFound
       else ebind (efold (\<lambda>(q, f) s. pg_call fault q s (Inr (f s))) (purge_statements t) s) (\<lambda>s.
         ebind (pg_call fault ''insert_ledger'' s (sql_insert purge_key (purge_row_of t event) (db_purges s))) (\<lambda>rows.
         let s = s\<lparr>db_purges := rows\<rparr> in
         ebind (pg_call fault ''mark_purged'' s (Inr (mark_purged t (ae_at event) (db_state s)))) (\<lambda>rows.
         Inr (\<lparr>pg_changed = True, pg_already_committed = False, pg_canonical_event = event\<rparr>,
           s\<lparr>db_state := rows\<rparr>))))))"

definition pg_maintenance ::
  "renderer \<Rightarrow> (string \<Rightarrow> 'z tables_scheme \<Rightarrow> sql_error option) \<Rightarrow> tenant_id \<Rightarrow> 'z tables_scheme maintenance_tx" where
  "pg_maintenance render fault t = \<lparr>mt_export = pg_export render fault t, mt_purge = pg_purge fault t\<rparr>"

end
