(* ===== verification/Password.thy ===== *)
theory Password
  imports GoCodec
begin

text \<open>
  \<open>internal/security/password.go\<close>: hashing a password with argon2id into its text form, and verifying
  one against it. \<open>argon2.IDKey\<close>, a third-party function, is the parameter \<open>idkey\<close> and \<open>rand.Read\<close> the
  parameter \<open>entropy\<close>; nothing is relied on but the lengths they return.
\<close>

type_synonym uint8 = "8 word"
type_synonym uint32 = "32 word"

text \<open>\<open>IDKey(password, salt, time, memory, threads, keyLen)\<close>.\<close>

type_synonym idkey = "string \<Rightarrow> string \<Rightarrow> uint32 \<Rightarrow> uint32 \<Rightarrow> uint8 \<Rightarrow> uint32 \<Rightarrow> string"

text \<open>\<open>rand.Read\<close> into a slice of the given length; \<open>None\<close> is an error.\<close>

type_synonym entropy = "nat \<Rightarrow> string option"

definition argon2SaltLength :: nat where "argon2SaltLength = 16"
definition maxPasswordCodePoints :: nat where "maxPasswordCodePoints = 128"
definition maxEncodedPasswordHashLength :: nat where "maxEncodedPasswordHashLength = 4096"
definition minArgon2Memory :: uint32 where "minArgon2Memory = 64"
definition maxArgon2Memory :: uint32 where "maxArgon2Memory = 256 * 1024"
definition minArgon2Iterations :: uint32 where "minArgon2Iterations = 1"
definition maxArgon2Iterations :: uint32 where "maxArgon2Iterations = 32"
definition minArgon2Parallelism :: uint8 where "minArgon2Parallelism = 1"
definition maxArgon2Parallelism :: uint8 where "maxArgon2Parallelism = 16"
definition minArgon2KeyLength :: uint32 where "minArgon2KeyLength = 16"
definition maxArgon2KeyLength :: uint32 where "maxArgon2KeyLength = 64"

lemmas argon2_limits = argon2SaltLength_def maxPasswordCodePoints_def maxEncodedPasswordHashLength_def
  minArgon2Memory_def maxArgon2Memory_def minArgon2Iterations_def maxArgon2Iterations_def
  minArgon2Parallelism_def maxArgon2Parallelism_def minArgon2KeyLength_def maxArgon2KeyLength_def

record password_hasher =
  ph_memory :: uint32
  ph_iterations :: uint32
  ph_parallelism :: uint8
  ph_key_len :: uint32

definition NewPasswordHasher :: "uint32 \<Rightarrow> uint32 \<Rightarrow> uint8 \<Rightarrow> uint32 \<Rightarrow> password_hasher" where
  "NewPasswordHasher memory iterations parallelism keyLen =
     \<lparr>ph_memory = memory, ph_iterations = iterations, ph_parallelism = parallelism, ph_key_len = keyLen\<rparr>"

datatype password_error = InvalidPasswordInput | InvalidArgon2Configuration | EntropyError

definition validPasswordInput :: "string \<Rightarrow> bool" where
  "validPasswordInput password = (valid_string password \<and> length (runes password) \<le> maxPasswordCodePoints)"

definition validArgon2Config :: "uint32 \<Rightarrow> uint32 \<Rightarrow> uint8 \<Rightarrow> uint32 \<Rightarrow> bool" where
  "validArgon2Config memory iterations parallelism keyLen =
     (if memory = 0 \<or> iterations = 0 \<or> parallelism = 0 \<or> keyLen = 0 then False
      else if memory < minArgon2Memory \<or> iterations < minArgon2Iterations \<or>
         parallelism < minArgon2Parallelism \<or> keyLen < minArgon2KeyLength then False
      else if memory > maxArgon2Memory \<or> iterations > maxArgon2Iterations \<or>
         parallelism > maxArgon2Parallelism \<or> keyLen > maxArgon2KeyLength then False
      else memory \<ge> 8 * ucast parallelism)"

section \<open>Hashing\<close>

definition idkey_of :: "idkey \<Rightarrow> password_hasher \<Rightarrow> string \<Rightarrow> string \<Rightarrow> string" where
  "idkey_of idkey h password salt =
     idkey password salt (ph_iterations h) (ph_memory h) (ph_parallelism h) (ph_key_len h)"

definition parameters_text :: "password_hasher \<Rightarrow> string" where
  "parameters_text h = ''m='' @ decimal (unat (ph_memory h)) @ '',t='' @ decimal (unat (ph_iterations h)) @
     '',p='' @ decimal (unat (ph_parallelism h))"

definition hash_text :: "password_hasher \<Rightarrow> string \<Rightarrow> string \<Rightarrow> string" where
  "hash_text h salt key = ''argon2id$v=19$'' @ parameters_text h @ ''$'' @ b64_encode salt @ ''$'' @ b64_encode key"

text \<open>A nil receiver is \<open>None\<close>.\<close>

definition Hash :: "idkey \<Rightarrow> entropy \<Rightarrow> password_hasher option \<Rightarrow> string \<Rightarrow> password_error + string" where
  "Hash idkey entropy receiver password =
     (if \<not> validPasswordInput password then Inl InvalidPasswordInput
      else case receiver of
        None \<Rightarrow> Inl InvalidArgon2Configuration
      | Some h \<Rightarrow>
          if \<not> validArgon2Config (ph_memory h) (ph_iterations h) (ph_parallelism h) (ph_key_len h)
          then Inl InvalidArgon2Configuration
          else (case entropy argon2SaltLength of
              None \<Rightarrow> Inl EntropyError
            | Some salt \<Rightarrow> Inr (hash_text h salt (idkey_of idkey h password salt))))"

section \<open>Parsing\<close>

record argon2_parameters =
  ap_memory :: uint32
  ap_iterations :: uint32
  ap_parallelism :: uint8

definition parseDecimalUint :: "string \<Rightarrow> nat \<Rightarrow> nat option" where
  "parseDecimalUint value bitSize =
     (if value = [] then None
      else if \<exists>r \<in> set (runes value). r < 48 \<or> r > 57 then None
      else ParseUint value bitSize)"

definition parameter_bits :: "string \<Rightarrow> nat option" where
  "parameter_bits name = (if name = ''m'' then Some 32 else if name = ''t'' then Some 32
     else if name = ''p'' then Some 8 else None)"

definition parse_parameter ::
  "nat \<Rightarrow> string \<Rightarrow> argon2_parameters \<times> string list \<Rightarrow> (argon2_parameters \<times> string list) option" where
  "parse_parameter index token acc = (case acc of (params, seen) \<Rightarrow>
     (case split_on CHR ''='' token of
        [name, value] \<Rightarrow>
          if name = [] \<or> value = [] then None
          else if name \<in> set seen then None
          else (case parameter_bits name of
              None \<Rightarrow> None
            | Some bitSize \<Rightarrow>
                (case parseDecimalUint value bitSize of
                   None \<Rightarrow> None
                 | Some v \<Rightarrow>
                     if v = 0 then None
                     else if index = 0 then
                       (if name \<noteq> ''m'' then None
                        else Some (params\<lparr>ap_memory := of_nat v\<rparr>, name # seen))
                     else if index = 1 then
                       (if name \<noteq> ''t'' then None
                        else Some (params\<lparr>ap_iterations := of_nat v\<rparr>, name # seen))
                     else if index = 2 then
                       (if name \<noteq> ''p'' then None
                        else Some (params\<lparr>ap_parallelism := of_nat v\<rparr>, name # seen))
                     else Some (params, name # seen)))
      | _ \<Rightarrow> None))"

fun parse_parameters ::
  "nat \<Rightarrow> string list \<Rightarrow> argon2_parameters \<times> string list \<Rightarrow> (argon2_parameters \<times> string list) option" where
  "parse_parameters index [] acc = Some acc"
| "parse_parameters index (token # tokens) acc =
     (case parse_parameter index token acc of
        None \<Rightarrow> None
      | Some acc' \<Rightarrow> parse_parameters (Suc index) tokens acc')"

definition parseArgon2Parameters :: "string \<Rightarrow> argon2_parameters option" where
  "parseArgon2Parameters encoded =
     (let tokens = split_on CHR '','' encoded in
      if length tokens \<noteq> 3 then None
      else map_option fst
        (parse_parameters 0 tokens (\<lparr>ap_memory = 0, ap_iterations = 0, ap_parallelism = 0\<rparr>, [])))"

section \<open>Verifying\<close>

definition Verify :: "idkey \<Rightarrow> password_hasher option \<Rightarrow> string \<Rightarrow> string \<Rightarrow> bool" where
  "Verify idkey receiver password encoded =
     (if \<not> validPasswordInput password then False
      else if length encoded > maxEncodedPasswordHashLength then False
      else case receiver of
        None \<Rightarrow> False
      | Some h \<Rightarrow>
          if \<not> validArgon2Config (ph_memory h) (ph_iterations h) (ph_parallelism h) (ph_key_len h) then False
          else (case split_on CHR ''$'' encoded of
             [p0, p1, p2, p3, p4] \<Rightarrow>
               if p0 \<noteq> ''argon2id'' \<or> p1 \<noteq> ''v=19'' then False
               else (case parseArgon2Parameters p2 of
                  None \<Rightarrow> False
                | Some params \<Rightarrow>
                    if ap_memory params \<noteq> ph_memory h \<or> ap_iterations params \<noteq> ph_iterations h \<or>
                       ap_parallelism params \<noteq> ph_parallelism h then False
                    else if length p3 \<noteq> b64_length argon2SaltLength then False
                    else (case b64_decode p3 of
                       None \<Rightarrow> False
                     | Some salt \<Rightarrow>
                         if length salt = 0 \<or> length salt \<noteq> argon2SaltLength then False
                         else if length p4 \<noteq> b64_length (unat (ph_key_len h)) then False
                         else (case b64_decode p4 of
                            None \<Rightarrow> False
                          | Some stored \<Rightarrow>
                              if length stored = 0 then False
                              else if length stored \<noteq> unat (ph_key_len h) then False
                              else stored = idkey_of idkey h password salt)))
           | _ \<Rightarrow> False))"

section \<open>The limits\<close>

lemma validArgon2Config_iff:
  "validArgon2Config m t p k \<longleftrightarrow>
     64 \<le> unat m \<and> unat m \<le> 262144 \<and> 1 \<le> unat t \<and> unat t \<le> 32 \<and> 1 \<le> unat p \<and> unat p \<le> 16 \<and>
     16 \<le> unat k \<and> unat k \<le> 64 \<and> 8 * unat p \<le> unat m"
proof -
  have p: "unat (8 * ucast p :: uint32) = 8 * unat p" if "unat p \<le> 16"
  proof -
    have "unat (ucast p :: uint32) = unat p"
      using that by (simp add: unsigned_ucast_eq take_bit_nat_eq_self)
    with that show ?thesis by (subst unat_mult_lem [THEN iffD1]) simp_all
  qed
  have nz: "Suc 0 \<le> unat w \<longleftrightarrow> w \<noteq> 0" for w :: "'a::len word"
    using unat_eq_zero [of w] by (cases "unat w") auto
  show ?thesis
    by (auto simp: nz validArgon2Config_def argon2_limits word_less_nat_alt word_le_nat_alt unat_eq_zero p)
qed

section \<open>Hashing and verifying\<close>

lemma decimal_ascii: "ascii (decimal n)" "CHR '','' \<notin> set (decimal n)" "CHR ''='' \<notin> set (decimal n)"
  "CHR ''$'' \<notin> set (decimal n)"
  using decimal_solid(2) [of n] by (fastforce simp: ascii_def is_digit_def)+

lemma parseDecimalUint_decimal: "n < 2 ^ bits \<Longrightarrow> parseDecimalUint (decimal n) bits = Some n"
  using decimal_solid [of n] ParseUint_decimal [of n bits]
  by (auto simp: parseDecimalUint_def runes_ascii decimal_ascii is_digit_def)

lemma length_decimal: "n < 10 ^ k \<Longrightarrow> 0 < k \<Longrightarrow> length (decimal n) \<le> k"
proof (induction n arbitrary: k rule: decimal.induct)
  case (1 n)
  show ?case
  proof (cases "n < 10")
    case True
    with 1 show ?thesis by (subst decimal.simps) simp
  next
    case False
    with 1 obtain j where k: "k = Suc j" "0 < j" by (cases k) (auto, metis less_numeral_extra(3) neq0_conv power_one_right power_Suc mult.right_neutral power_0)
    with 1 False have "length (decimal (n div 10)) \<le> j" by (intro 1(1)) auto
    with False k show ?thesis by (subst decimal.simps) simp
  qed
qed

lemma parameters_back:
  assumes "0 < unat (ph_memory h)" and "0 < unat (ph_iterations h)" and "0 < unat (ph_parallelism h)"
  shows "parseArgon2Parameters (parameters_text h) =
    Some \<lparr>ap_memory = ph_memory h, ap_iterations = ph_iterations h, ap_parallelism = ph_parallelism h\<rparr>"
proof -
  have tokens: "split_on CHR '','' (parameters_text h) =
      [''m='' @ decimal (unat (ph_memory h)), ''t='' @ decimal (unat (ph_iterations h)),
       ''p='' @ decimal (unat (ph_parallelism h))]"
    unfolding parameters_text_def
    using split_on_append [of "CHR '',''" "''m='' @ decimal (unat (ph_memory h))"
        "''t='' @ decimal (unat (ph_iterations h)) @ '',p='' @ decimal (unat (ph_parallelism h))"]
      split_on_append [of "CHR '',''" "''t='' @ decimal (unat (ph_iterations h))"
        "''p='' @ decimal (unat (ph_parallelism h))"]
      split_on_solid [of "CHR '',''" "''p='' @ decimal (unat (ph_parallelism h))"]
    by (simp add: decimal_ascii)
  have atom: "split_on CHR ''='' (decimal n) = [decimal n]" for n
    by (simp add: split_on_solid decimal_ascii)
  have less: "unat (ph_memory h) < 2 ^ 32" "unat (ph_iterations h) < 2 ^ 32" "unat (ph_parallelism h) < 2 ^ 8"
    using unsigned_less [of "ph_memory h"] unsigned_less [of "ph_iterations h"] unsigned_less [of "ph_parallelism h"] by simp_all
  show ?thesis
    using assms less
    by (simp add: parseArgon2Parameters_def tokens parse_parameter_def atom parameter_bits_def
        parseDecimalUint_decimal decimal_solid)
qed

lemma hash_text_split:
  "split_on CHR ''$'' (hash_text h salt key) =
     [''argon2id'', ''v=19'', parameters_text h, b64_encode salt, b64_encode key]"
proof -
  have b64: "CHR ''$'' \<notin> set (b64_encode s)" for s
    using b64_encode_safe [of "CHR ''$''" s] b64_char_dollar by metis
  have params: "CHR ''$'' \<notin> set (parameters_text h)"
    by (simp add: parameters_text_def decimal_ascii)
  have join: "hash_text h salt key = join_with CHR ''$''
      [''argon2id'', ''v=19'', parameters_text h, b64_encode salt, b64_encode key]"
    by (simp add: hash_text_def)
  show ?thesis
    unfolding join by (rule split_join_on) (simp_all add: b64 params)
qed

lemma hash_text_length:
  assumes "validArgon2Config (ph_memory h) (ph_iterations h) (ph_parallelism h) (ph_key_len h)"
    and "length salt = 16" and "length key = unat (ph_key_len h)"
  shows "length (hash_text h salt key) \<le> maxEncodedPasswordHashLength"
proof -
  from assms(1) have b: "unat (ph_memory h) < 10 ^ 6" "unat (ph_iterations h) < 10 ^ 2"
    "unat (ph_parallelism h) < 10 ^ 2" "unat (ph_key_len h) \<le> 64"
    by (simp_all add: validArgon2Config_iff)
  have "unat (ph_key_len h) div 3 \<le> 21" using b(4) by linarith
  moreover have "(unat (ph_key_len h) mod 3 * 8 + 5) div 6 \<le> 4"
    using mod_less_divisor [of 3 "unat (ph_key_len h)"] by linarith
  ultimately have "b64_length (unat (ph_key_len h)) \<le> 90" unfolding b64_length_def by linarith
  with assms(2,3) length_decimal [OF b(1)] length_decimal [OF b(2)] length_decimal [OF b(3)] show ?thesis
    by (simp add: hash_text_def parameters_text_def length_b64_encode argon2_limits b64_length_def)
qed

lemma Verify_hash_text:
  assumes config: "validArgon2Config (ph_memory h) (ph_iterations h) (ph_parallelism h) (ph_key_len h)"
    and salt: "length salt = 16" and key: "length key = unat (ph_key_len h)"
  shows "Verify idkey (Some h') password (hash_text h salt key) \<longleftrightarrow>
    validPasswordInput password \<and> h' = h \<and> key = idkey_of idkey h password salt"
proof -
  from config have pos: "0 < unat (ph_memory h)" "0 < unat (ph_iterations h)" "0 < unat (ph_parallelism h)"
    "key \<noteq> []" using key by (auto simp: validArgon2Config_iff)
  have same: "h' = h \<longleftrightarrow> ph_memory h = ph_memory h' \<and> ph_iterations h = ph_iterations h' \<and>
      ph_parallelism h = ph_parallelism h' \<and> unat (ph_key_len h) = unat (ph_key_len h')"
    by (cases h, cases h') (auto simp: word_eq_iff_unsigned [where ?'a = nat])
  note facts = hash_text_split hash_text_length [OF config salt key] parameters_back [OF pos(1-3)]
    b64_round length_b64_encode
  show ?thesis
  proof (cases "h' = h")
    case True
    have long: "length (hash_text h salt key) \<le> maxEncodedPasswordHashLength" by (rule facts)
    from True config salt key pos(4) show ?thesis
      by (cases "key = idkey_of idkey h password salt") (use long in \<open>auto simp: Verify_def facts argon2SaltLength_def\<close>)
  next
    case False
    with same have "ph_memory h \<noteq> ph_memory h' \<or> ph_iterations h \<noteq> ph_iterations h' \<or>
        ph_parallelism h \<noteq> ph_parallelism h' \<or> length key \<noteq> unat (ph_key_len h')"
      unfolding key by blast
    with False salt show ?thesis by (auto simp: Verify_def facts argon2SaltLength_def)
  qed
qed

section \<open>Properties\<close>

text \<open>
  C18: a stored hash verifies for exactly one configuration and the passwords with the hashed key:
  whatever \<open>Hash\<close> returns, \<open>Verify\<close> accepts it under a hasher with the same four parameters and a valid
  password whose derived key over the same salt is the hashed one, and under no other hasher and
  password. In particular the password itself verifies.
\<close>

theorem hash_verify_exact:
  assumes "Hash idkey entropy (Some h) password = Inr encoded"
    and "\<And>s. entropy 16 = Some s \<Longrightarrow> length s = 16"
    and "\<And>p s t m l k. length (idkey p s t m l k) = unat k"
  shows "(Verify idkey (Some h') candidate encoded \<longleftrightarrow>
      validPasswordInput candidate \<and> h' = h \<and>
      idkey_of idkey h candidate (the (entropy 16)) = idkey_of idkey h password (the (entropy 16))) \<and>
    Verify idkey (Some h) password encoded"
proof -
  from assms(1) obtain salt where salt: "entropy 16 = Some salt" and valid: "validPasswordInput password"
    and config: "validArgon2Config (ph_memory h) (ph_iterations h) (ph_parallelism h) (ph_key_len h)"
    and encoded: "encoded = hash_text h salt (idkey_of idkey h password salt)"
    by (auto simp: Hash_def argon2SaltLength_def split: if_splits option.splits)
  have key: "length (idkey_of idkey h password salt) = unat (ph_key_len h)" by (simp add: idkey_of_def assms(3))
  note exact = Verify_hash_text [OF config assms(2) [OF salt] key]
  show ?thesis unfolding encoded exact using valid by (auto simp: salt)
qed

definition demo_hasher :: password_hasher where
  "demo_hasher = NewPasswordHasher 128 1 2 16"

definition demo_idkey :: idkey where
  "demo_idkey = (\<lambda>p s t m l k. take (unat k) (p @ replicate (unat k) CHR ''.''))"

theorem hash_verify_exact_witness:
  "\<exists>e. Hash demo_idkey (\<lambda>n. Some (replicate n CHR ''s'')) (Some demo_hasher) ''ab'' = Inr e \<and>
     Verify demo_idkey (Some demo_hasher) ''ab'' e \<and> \<not> Verify demo_idkey (Some demo_hasher) ''ac'' e"
proof -
  have config: "validArgon2Config 128 1 2 16" by (simp add: validArgon2Config_iff)
  have input: "validPasswordInput ''ab''" "validPasswordInput ''ac''"
    by (simp_all add: validPasswordInput_def valid_string_ascii runes_ascii argon2_limits)
  obtain e where e: "Hash demo_idkey (\<lambda>n. Some (replicate n CHR ''s'')) (Some demo_hasher) ''ab'' = Inr e"
    by (simp add: Hash_def input config demo_hasher_def NewPasswordHasher_def)
  have lengths: "length (demo_idkey p s t m l k) = unat k" for p s t m l k by (simp add: demo_idkey_def)
  have differ: "idkey_of demo_idkey demo_hasher ''ac'' s \<noteq> idkey_of demo_idkey demo_hasher ''ab'' s" for s
    by (simp add: idkey_of_def demo_idkey_def demo_hasher_def NewPasswordHasher_def)
  note exact = hash_verify_exact [OF e _ lengths]
  from exact [of demo_hasher "''ac''"] differ e show ?thesis by auto
qed

end
