(* ===== verification/CoreData.thy ===== *)
theory CoreData
  imports PgStore Password
begin

text \<open>
  The standalone application of \<open>internal/coreapp\<close>: the identity tables of the migrations, the values
  of \<open>service.go\<close>, and the pure helpers (e-mail, identifiers, text limits, the permission catalog and
  the application options). A \<open>service\<close> carries its options and the functions it is given by other
  packages: \<open>argon2.IDKey\<close>, \<open>sha256\<close>, \<open>mail.ParseAddress\<close> and the Unicode tables of \<open>strings\<close>. A
  \<open>request\<close> is what one call meets: the readings of the two clocks, the random source, its
  transactions, what other requests do to the tables between two of them (\<open>rq_others\<close>) and the request id. Times are in microseconds, PostgreSQL's resolution.
\<close>

section \<open>The tables\<close>

record account_row =
  ac_id :: string
  ac_email :: string
  ac_normalized :: string
  ac_hash :: string
  ac_status :: string
  ac_failed :: int
  ac_locked :: "time option"
  ac_created :: time
  ac_updated :: time
  ac_last_login :: "time option"
  ac_display :: string

record access_row =
  as_hash :: string
  as_account :: string
  as_expires :: time
  as_revoked :: "time option"
  as_created :: time
  as_seen :: time
  as_remote :: string
  as_agent :: string
  as_family :: string
  as_started :: time

record refresh_row =
  rs_hash :: string
  rs_account :: string
  rs_expires :: time
  rs_revoked :: "time option"
  rs_rotated :: "string option"
  rs_created :: time
  rs_remote :: string
  rs_agent :: string
  rs_family :: string
  rs_started :: time

record tenant_row =
  tn_id :: tenant_id
  tn_name :: string
  tn_state :: string
  tn_creator :: string
  tn_version :: int64
  tn_created :: time
  tn_updated :: time

record membership_row =
  tm_tenant :: tenant_id
  tm_account :: string
  tm_status :: string
  tm_joined :: time

record invitation_row =
  iv_tenant :: tenant_id
  iv_id :: string
  iv_email :: string
  iv_display :: string
  iv_hash :: string
  iv_creator :: string
  iv_expires :: time
  iv_accepted :: "time option"
  iv_revoked :: "time option"
  iv_created :: time

record recovery_row =
  rc_id :: string
  rc_account :: string
  rc_issued :: tenant_id
  rc_creator :: string
  rc_hash :: string
  rc_created :: time
  rc_expires :: time
  rc_consumed :: "time option"
  rc_revoked :: "time option"

record core_db = tables +
  db_accounts :: "account_row list"
  db_admins :: "(string \<times> time) list"
  db_access :: "access_row list"
  db_refresh :: "refresh_row list"
  db_tenants :: "tenant_row list"
  db_memberships :: "membership_row list"
  db_invitations :: "invitation_row list"
  db_recoveries :: "recovery_row list"
  db_operator_recoveries :: "string list"

definition membership_key :: "membership_row \<Rightarrow> tenant_id \<times> string" where
  "membership_key m = (tm_tenant m, tm_account m)"

definition invitation_key :: "invitation_row \<Rightarrow> tenant_id \<times> string" where
  "invitation_key i = (iv_tenant i, iv_id i)"

definition is_admin :: "core_db \<Rightarrow> string \<Rightarrow> bool" where
  "is_admin s account = sql_exists (\<lambda>(a, _). a = account) (db_admins s)"

section \<open>Requests\<close>

record request =
  rq_now :: "nat \<Rightarrow> time"
  rq_db_now :: time
  rq_random :: "nat \<Rightarrow> string option"
  rq_tx :: "nat \<Rightarrow> core_db session"
  rq_others :: "nat \<Rightarrow> core_db \<Rightarrow> core_db"
  rq_id :: string

definition sql_fail :: "sql_error \<Rightarrow> error" where
  "sql_fail e = (if e = NoRows then ErrNoRows else ErrHost (sql_text e))"

definition stmt :: "core_db session \<Rightarrow> string \<Rightarrow> core_db \<Rightarrow> sql_error + 'a \<Rightarrow> error + 'a" where
  "stmt ss q s r = (case ss_fault ss q s of
     Some e \<Rightarrow> Inl (sql_fail e)
   | None \<Rightarrow> (case r of Inl e \<Rightarrow> Inl (sql_fail e) | Inr x \<Rightarrow> Inr x))"

text \<open>\<open>errors.Is(err, pgx.ErrNoRows)\<close>.\<close>

definition on_no_rows :: "error \<Rightarrow> error + 'a \<Rightarrow> error + 'a" where
  "on_no_rows e r = (case r of Inl e' \<Rightarrow> Inl (if e' = ErrNoRows then e else e') | Inr x \<Rightarrow> Inr x)"

definition accountNotFound :: "error \<Rightarrow> error" where
  "accountNotFound e = (if e = ErrNoRows then ErrNotFound else e)"

text \<open>
  \<open>pool.Begin\<close>, the statements and \<open>Commit\<close>, or the deferred rollback. The body may also commit and
  then report an error, so its answer is \<open>Inl\<close> for a rollback and \<open>Inr (answer, tables)\<close> for a commit.
\<close>

definition pool_tx ::
  "core_db session \<Rightarrow> (core_db \<Rightarrow> error + (error + 'r) \<times> core_db) \<Rightarrow> core_db \<Rightarrow> (error + 'r) \<times> core_db" where
  "pool_tx ss body s =
     (let (r, s') = pg_frame_run ss sql_fail
        (ebind (case ss_error ss ''begin'' of None \<Rightarrow> Inr () | Some e \<Rightarrow> Inl (sql_fail e)) (\<lambda>_. body s)) s
      in (ebind r (\<lambda>x. x), s'))"

text \<open>A statement outside a transaction commits by itself.\<close>

definition pool_exec ::
  "core_db session \<Rightarrow> string \<Rightarrow> (core_db \<Rightarrow> sql_error + 'r \<times> core_db) \<Rightarrow> core_db \<Rightarrow> (error + 'r) \<times> core_db" where
  "pool_exec ss q f s = pg_frame_run ss sql_fail (stmt ss q s (f s)) s"

definition pool_query ::
  "core_db session \<Rightarrow> string \<Rightarrow> (core_db \<Rightarrow> sql_error + 'r) \<Rightarrow> core_db \<Rightarrow> error + 'r" where
  "pool_query ss q f s = stmt ss q s (f s)"

section \<open>The service\<close>

record account =
  an_id :: string
  an_email :: string
  an_admin :: bool
  an_created :: time
  an_last_login :: "time option"

record session_answer =
  sa_access :: string
  sa_refresh :: string
  sa_expires :: time
  sa_account :: account

record service =
  sv_idkey :: idkey
  sv_digest :: "string \<Rightarrow> string"
  sv_parse_address :: "string \<Rightarrow> string option"
  sv_orbit :: "rune \<Rightarrow> rune \<Rightarrow> bool"
  sv_lower :: "string \<Rightarrow> string"
  sv_dummy :: string
  sv_sessions :: time
  sv_refresh :: time
  sv_mode :: string
  sv_organization :: string
  sv_organization_name :: string
  sv_store :: pg_store
  sv_manager :: manager

definition minute :: time where
  "minute = 60 * 1000000"

definition core_hasher :: password_hasher where
  "core_hasher = NewPasswordHasher (64 * 1024) 3 2 32"

definition verify_password :: "service \<Rightarrow> string \<Rightarrow> string \<Rightarrow> bool" where
  "verify_password sv password hash = Verify (sv_idkey sv) (Some core_hasher) password hash"

text \<open>\<open>base64.RawURLEncoding\<close> is the standard alphabet with \<open>-\<close> and \<open>_\<close> in place of \<open>+\<close> and \<open>/\<close>.\<close>

definition url_char :: "char \<Rightarrow> char" where
  "url_char c = (if c = CHR ''+'' then CHR ''-'' else if c = CHR ''/'' then CHR ''_'' else c)"

definition randomID :: "request \<Rightarrow> nat \<Rightarrow> string \<Rightarrow> nat \<Rightarrow> error + string" where
  "randomID rq i prefix_text n = (case rq_random rq i of
     None \<Rightarrow> Inl (ErrHost ''rand'')
   | Some bytes \<Rightarrow> Inr (prefix_text @ map url_char (b64_encode (take n bytes))))"

definition tokenHash :: "service \<Rightarrow> string \<Rightarrow> string" where
  "tokenHash sv token = sv_digest sv token"

definition NewService ::
  "unit option \<Rightarrow> pg_store option \<Rightarrow> manager option \<Rightarrow> service \<Rightarrow> request \<Rightarrow> entropy \<Rightarrow> error + service" where
  "NewService pool store bootstrap libraries rq entropy = (case (pool, store, bootstrap) of
     (Some _, Some st, Some b) \<Rightarrow>
       ebind (randomID rq 0 ''dummy_'' 24) (\<lambda>dummyPassword.
       case Hash (sv_idkey libraries) entropy (Some core_hasher) dummyPassword of
         Inl _ \<Rightarrow> Inl (ErrHost ''hash dummy password'')
       | Inr dummyHash \<Rightarrow> Inr (libraries\<lparr>sv_dummy := dummyHash, sv_sessions := 15 * minute,
           sv_refresh := 30 * 24 * 60 * minute, sv_mode := ''multi'', sv_organization := [],
           sv_organization_name := [], sv_store := st, sv_manager := b\<rparr>))
   | _ \<Rightarrow> Inl ErrInvalidInput)"

definition normalizeEmail :: "service \<Rightarrow> string \<Rightarrow> error + string" where
  "normalizeEmail sv raw =
     (let email = trim_space raw in
      if length email < 3 \<or> length email > 254 then Inl ErrInvalidInput
      else (case sv_parse_address sv email of
         None \<Rightarrow> Inl ErrInvalidInput
       | Some address \<Rightarrow>
           if \<not> equal_fold (sv_orbit sv) address email then Inl ErrInvalidInput
           else Inr (sv_lower sv address)))"

definition validBootstrapPassword :: "string \<Rightarrow> bool" where
  "validBootstrapPassword password =
     (if \<not> valid_string password then False
      else let len = length (runes password) in len \<ge> 12 \<and> len \<le> 128)"

text \<open>\<open>strings.ToValidUTF8(value, "")\<close>.\<close>

function to_valid :: "string \<Rightarrow> string" where
  "to_valid s = (if s = [] then []
     else let (r, w) = decode_rune s in
       (if (r, w) = (rune_error, 1) then [] else take w s) @ to_valid (drop (snd (decode_rune s)) s))"
  by pat_completeness auto
termination
  by (relation "measure length") (use decode_rune_progress in auto)

declare to_valid.simps [simp del]

function valid_prefix :: "string \<Rightarrow> string" where
  "valid_prefix s = (if valid_string s then s else valid_prefix (butlast s))"
  by pat_completeness auto
termination
proof (relation "measure length")
  fix s assume "\<not> valid_string s"
  then have "s \<noteq> []" by auto
  then show "(butlast s, s) \<in> measure length" by simp
qed simp

declare valid_prefix.simps [simp del]

definition bounded :: "string \<Rightarrow> nat \<Rightarrow> string" where
  "bounded v limit =
     (let v = to_valid (trim_space v) in
      if length v > limit then valid_prefix (take limit v) else v)"

definition is_control :: "rune \<Rightarrow> bool" where
  "is_control r = (r < 32 \<or> 127 \<le> r \<and> r < 160)"

definition normalizeOrganizationName :: "string \<Rightarrow> error + string" where
  "normalizeOrganizationName raw =
     (let name = trim_space raw in
      if name = [] \<or> length name > 80 \<or> \<not> valid_string name \<or> (\<exists>r \<in> set (runes name). is_control r)
      then Inl ErrInvalidInput else Inr name)"

section \<open>The options of the application\<close>

record application_options =
  ao_mode :: string
  ao_organization :: string
  ao_name :: string

definition normalizeApplicationOptions :: "application_options \<Rightarrow> error + application_options" where
  "normalizeApplicationOptions raw =
     (let mode = trim_space (ao_mode raw);
          organization = trim_space (ao_organization raw);
          name = trim_space (ao_name raw);
          mode = (if mode = [] then ''single'' else mode);
          name = (if name = [] then ''My organization'' else name) in
      if mode \<noteq> ''single'' \<and> mode \<noteq> ''multi'' then Inl (ErrHost ''AMSONIA_TENANCY_MODE'')
      else if organization \<noteq> [] \<and> (mode = ''multi'' \<or> validateOpaqueID organization \<noteq> Inr ())
      then Inl (ErrHost ''AMSONIA_ORGANIZATION_ID'')
      else if normalizeOrganizationName name = Inl ErrInvalidInput then Inl (ErrHost ''AMSONIA_ORGANIZATION_NAME'')
      else Inr \<lparr>ao_mode = mode, ao_organization = organization, ao_name = name\<rparr>)"

definition ApplicationOptionsFromEnv :: "(string \<Rightarrow> string) \<Rightarrow> error + application_options" where
  "ApplicationOptionsFromEnv getenv = normalizeApplicationOptions
     \<lparr>ao_mode = getenv ''AMSONIA_TENANCY_MODE'', ao_organization = getenv ''AMSONIA_ORGANIZATION_ID'',
      ao_name = getenv ''AMSONIA_ORGANIZATION_NAME''\<rparr>"

definition NewApplicationService ::
  "unit option \<Rightarrow> pg_store option \<Rightarrow> manager option \<Rightarrow> service \<Rightarrow> request \<Rightarrow> entropy \<Rightarrow>
     application_options \<Rightarrow> error + service" where
  "NewApplicationService pool store bootstrap libraries rq entropy options =
     ebind (normalizeApplicationOptions options) (\<lambda>options.
     ebind (NewService pool store bootstrap libraries rq entropy) (\<lambda>sv.
     Inr (sv\<lparr>sv_mode := ao_mode options, sv_organization := ao_organization options,
       sv_organization_name := ao_name options\<rparr>)))"

section \<open>The catalog\<close>

definition PermissionRoleRead :: permission_key where "PermissionRoleRead = ''iam:role:read''"
definition PermissionRoleManage :: permission_key where "PermissionRoleManage = ''iam:role:manage''"
definition PermissionGrantManage :: permission_key where "PermissionGrantManage = ''iam:grant:manage''"
definition PermissionRoleAssign :: permission_key where "PermissionRoleAssign = ''iam:role:assign''"
definition PermissionMemberRead :: permission_key where "PermissionMemberRead = ''iam:member:read''"
definition PermissionMemberManage :: permission_key where "PermissionMemberManage = ''iam:member:manage''"
definition PermissionAuditRead :: permission_key where "PermissionAuditRead = ''iam:audit:read''"

lemmas core_permission_defs = PermissionRoleRead_def PermissionRoleManage_def PermissionGrantManage_def
  PermissionRoleAssign_def PermissionMemberRead_def PermissionMemberManage_def PermissionAuditRead_def

definition CoreCatalog :: "error + catalog \<times> control_permissions" where
  "CoreCatalog =
     ebind (NewCatalog
       [\<lparr>pd_key = PermissionRoleRead, pd_description = ''Read tenant roles''\<rparr>,
        \<lparr>pd_key = PermissionRoleManage, pd_description = ''Create, update, and retire tenant roles''\<rparr>,
        \<lparr>pd_key = PermissionGrantManage, pd_description = ''Assign permissions to tenant roles''\<rparr>,
        \<lparr>pd_key = PermissionRoleAssign, pd_description = ''Assign tenant roles to members''\<rparr>,
        \<lparr>pd_key = PermissionMemberRead, pd_description = ''Read tenant members''\<rparr>,
        \<lparr>pd_key = PermissionMemberManage, pd_description = ''Invite and manage tenant members''\<rparr>,
        \<lparr>pd_key = PermissionAuditRead, pd_description = ''Read tenant administration audit events''\<rparr>]) (\<lambda>catalog.
     Inr (catalog, \<lparr>cp_manage_roles = PermissionRoleManage, cp_manage_grants = PermissionGrantManage,
       cp_assign_roles = PermissionRoleAssign\<rparr>))"

definition ownerGrants :: "role_id \<Rightarrow> role_permission_grant list" where
  "ownerGrants r = map (\<lambda>p. \<lparr>rg_role = r, rg_permission = p, rg_scope = ScopeTenant, rg_workspace_roles = []\<rparr>)
     [PermissionRoleRead, PermissionRoleManage, PermissionGrantManage, PermissionRoleAssign,
      PermissionMemberRead, PermissionMemberManage, PermissionAuditRead]"

end
