(* ===== verification/CoreSessions.thy ===== *)
theory CoreSessions
  imports CoreData
begin

text \<open>
  The sessions of \<open>service.go\<close> and \<open>accounts.go\<close>: sign-in with its lockout, the issue and the rotation
  of tokens, authentication, sign-out and the revocation of device families. A call that runs several
  transactions, as \<open>Login\<close> does (the lookup, then a failed attempt or the issue), lets other requests in
  between them.
\<close>

section \<open>Revoking\<close>

text \<open>\<open>COALESCE(revoked_at, $1)\<close>.\<close>

definition coalesce :: "time option \<Rightarrow> time \<Rightarrow> time option" where
  "coalesce old now = (case old of None \<Rightarrow> Some now | Some t \<Rightarrow> Some t)"

definition revoke_access :: "(access_row \<Rightarrow> bool) \<Rightarrow> time \<Rightarrow> core_db \<Rightarrow> core_db" where
  "revoke_access P now s = s\<lparr>db_access := sql_update P (\<lambda>r. r\<lparr>as_revoked := coalesce (as_revoked r) now\<rparr>) (db_access s)\<rparr>"

definition revoke_refresh :: "(refresh_row \<Rightarrow> bool) \<Rightarrow> time \<Rightarrow> core_db \<Rightarrow> core_db" where
  "revoke_refresh P now s = s\<lparr>db_refresh := sql_update P (\<lambda>r. r\<lparr>rs_revoked := coalesce (rs_revoked r) now\<rparr>) (db_refresh s)\<rparr>"

text \<open>
  \<open>revokeCredentialSessions\<close>: the sessions of the account end, rotated tokens forget their successor
  and pending recoveries are withdrawn. \<open>now\<close> is the database's.
\<close>

definition revokeCredentialSessions :: "core_db session \<Rightarrow> time \<Rightarrow> string \<Rightarrow> core_db \<Rightarrow> error + core_db" where
  "revokeCredentialSessions ss now account s =
     ebind (stmt ss ''revoke_access'' s (Inr (revoke_access (\<lambda>r. as_account r = account \<and> as_revoked r = None) now s))) (\<lambda>s.
     ebind (stmt ss ''revoke_refresh'' s (Inr (s\<lparr>db_refresh := sql_update
         (\<lambda>r. rs_account r = account \<and> (rs_revoked r = None \<or> rs_rotated r \<noteq> None))
         (\<lambda>r. r\<lparr>rs_revoked := coalesce (rs_revoked r) now, rs_rotated := None\<rparr>) (db_refresh s)\<rparr>))) (\<lambda>s.
     stmt ss ''revoke_recoveries'' s (Inr (s\<lparr>db_recoveries := sql_update
         (\<lambda>r. rc_account r = account \<and> rc_consumed r = None \<and> rc_revoked r = None)
         (\<lambda>r. r\<lparr>rc_revoked := Some now\<rparr>) (db_recoveries s)\<rparr>))))"

section \<open>Failed attempts\<close>

definition count_failure :: "time \<Rightarrow> time \<Rightarrow> account_row \<Rightarrow> account_row" where
  "count_failure locked_until updated a = a
     \<lparr>ac_failed := (if ac_failed a + 1 \<ge> 5 then 0 else ac_failed a + 1),
      ac_locked := (if ac_failed a + 1 \<ge> 5 then Some locked_until else ac_locked a),
      ac_updated := updated\<rparr>"

definition failedPassword :: "core_db session \<Rightarrow> time \<Rightarrow> time \<Rightarrow> string \<Rightarrow> core_db \<Rightarrow> error + core_db" where
  "failedPassword ss now1 now2 account s = stmt ss ''failed_password'' s
     (Inr (s\<lparr>db_accounts := sql_update (\<lambda>a. ac_id a = account)
        (count_failure (now1 + 15 * minute) now2) (db_accounts s)\<rparr>))"

definition locked_at :: "time option \<Rightarrow> time \<Rightarrow> bool" where
  "locked_at locked now = (case locked of None \<Rightarrow> False | Some until \<Rightarrow> until > now)"

section \<open>Sign-in\<close>

record login_input =
  li_email :: string
  li_password :: string
  li_remote :: string
  li_agent :: string

definition account_of :: "core_db \<Rightarrow> account_row \<Rightarrow> account" where
  "account_of s a = \<lparr>an_id = ac_id a, an_email = ac_email a, an_admin = is_admin s (ac_id a),
     an_created = ac_created a, an_last_login = ac_last_login a\<rparr>"

definition login_lookup :: "request \<Rightarrow> string \<Rightarrow> core_db \<Rightarrow> error + account \<times> account_row" where
  "login_lookup rq normalized s = pool_query (rq_tx rq 0) ''lookup_account''
     (\<lambda>s. ebind (sql_row (\<lambda>a. ac_normalized a = normalized) (db_accounts s)) (\<lambda>a. Inr (account_of s a, a))) s"

definition record_failed_login :: "request \<Rightarrow> time \<Rightarrow> string \<Rightarrow> core_db \<Rightarrow> (error + unit) \<times> core_db" where
  "record_failed_login rq now account s = pool_exec (rq_tx rq 1) ''record_failed_login''
     (\<lambda>s. Inr ((), s\<lparr>db_accounts := sql_update (\<lambda>a. ac_id a = account)
        (count_failure (now + 15 * minute) now) (db_accounts s)\<rparr>)) s"

definition issueSession ::
  "service \<Rightarrow> request \<Rightarrow> account \<Rightarrow> string \<Rightarrow> string \<Rightarrow> string \<Rightarrow> core_db \<Rightarrow> (error + session_answer) \<times> core_db" where
  "issueSession sv rq account remote agent verifiedHash s =
     (case ebind (randomID rq 0 ''as_'' 32) (\<lambda>access.
           ebind (randomID rq 1 ''rs_'' 40) (\<lambda>refresh.
           ebind (randomID rq 2 ''ses_'' 18) (\<lambda>family. Inr (access, refresh, family)))) of
        Inl e \<Rightarrow> (Inl e, s)
      | Inr (access, refresh, family) \<Rightarrow>
        (let ss = rq_tx rq 2 in pool_tx ss (\<lambda>s.
          ebind (stmt ss ''lock_account'' s (sql_row (\<lambda>a. ac_id a = an_id account) (db_accounts s))) (\<lambda>a.
          if ac_hash a \<noteq> verifiedHash \<or> ac_status a \<noteq> ''active'' then Inl ErrInvalidCredentials
          else
            let now = rq_now rq 1 in
            if locked_at (ac_locked a) now then Inl ErrAccountLocked
            else
              let expiresAt = now + sv_sessions sv in
              ebind (stmt ss ''login_success'' s (Inr (s\<lparr>db_accounts := sql_update (\<lambda>a. ac_id a = an_id account)
                (\<lambda>a. a\<lparr>ac_failed := 0, ac_locked := None, ac_last_login := Some now, ac_updated := now\<rparr>) (db_accounts s)\<rparr>))) (\<lambda>s.
              ebind (stmt ss ''insert_access'' s (sql_insert as_hash
                \<lparr>as_hash = tokenHash sv access, as_account = an_id account, as_expires = expiresAt, as_revoked = None,
                 as_created = now, as_seen = now, as_remote = bounded remote 128, as_agent = bounded agent 512,
                 as_family = family, as_started = now\<rparr> (db_access s))) (\<lambda>rows.
              let s = s\<lparr>db_access := rows\<rparr> in
              ebind (stmt ss ''insert_refresh'' s (sql_insert rs_hash
                \<lparr>rs_hash = tokenHash sv refresh, rs_account = an_id account, rs_expires = now + sv_refresh sv,
                 rs_revoked = None, rs_rotated = None, rs_created = now, rs_remote = bounded remote 128,
                 rs_agent = bounded agent 512, rs_family = family, rs_started = now\<rparr> (db_refresh s))) (\<lambda>rows.
              let s = s\<lparr>db_refresh := rows\<rparr> in
              Inr (Inr \<lparr>sa_access = access, sa_refresh = refresh, sa_expires = expiresAt,
                 sa_account = account\<lparr>an_last_login := Some now\<rparr>\<rparr>, s)))))) s))"

definition Login ::
  "service \<Rightarrow> request \<Rightarrow> login_input \<Rightarrow> core_db \<Rightarrow> (error + session_answer) \<times> core_db" where
  "Login sv rq input s = (case normalizeEmail sv (li_email input) of
     Inl _ \<Rightarrow> (Inl ErrInvalidCredentials, s)
   | Inr normalized \<Rightarrow>
     (case login_lookup rq normalized s of
        Inl e \<Rightarrow> (Inl (if e = ErrNoRows then ErrInvalidCredentials else e), s)
      | Inr (account, a) \<Rightarrow>
          if ac_status a \<noteq> ''active'' then (Inl ErrInvalidCredentials, s)
          else
            let now = rq_now rq 0 in
            if locked_at (ac_locked a) now then (Inl ErrAccountLocked, s)
            else if \<not> verify_password sv (li_password input) (ac_hash a)
            then (case record_failed_login rq now (an_id account) (rq_others rq 0 s) of
                (Inl e, s) \<Rightarrow> (Inl e, s)
              | (Inr _, s) \<Rightarrow> (Inl ErrInvalidCredentials, s))
            else issueSession sv rq account (li_remote input) (li_agent input) (ac_hash a) (rq_others rq 0 s)))"

section \<open>Rotation\<close>

record refresh_input =
  ri_token :: string
  ri_remote :: string
  ri_agent :: string

definition Refresh :: "service \<Rightarrow> request \<Rightarrow> refresh_input \<Rightarrow> core_db \<Rightarrow> (error + session_answer) \<times> core_db" where
  "Refresh sv rq input s =
     (if \<not> has_prefix (ri_token input) ''rs_'' \<or> length (ri_token input) > 160 then (Inl ErrSessionInvalid, s)
      else (case ebind (randomID rq 0 ''as_'' 32) (\<lambda>access.
            ebind (randomID rq 1 ''rs_'' 40) (\<lambda>nextRefresh. Inr (access, nextRefresh))) of
        Inl e \<Rightarrow> (Inl e, s)
      | Inr (access, nextRefresh) \<Rightarrow>
        (let ss = rq_tx rq 0; digest = tokenHash sv (ri_token input) in pool_tx ss (\<lambda>s.
          ebind (on_no_rows ErrSessionInvalid (stmt ss ''lock_account'' s
            (ebind (sql_row (\<lambda>r. rs_hash r = digest) (db_refresh s)) (\<lambda>r.
             sql_row (\<lambda>a. ac_id a = rs_account r) (db_accounts s))))) (\<lambda>_.
          ebind (on_no_rows ErrSessionInvalid (stmt ss ''lookup_refresh'' s
            (ebind (sql_row (\<lambda>r. rs_hash r = digest) (db_refresh s)) (\<lambda>r.
             ebind (sql_row (\<lambda>a. ac_id a = rs_account r) (db_accounts s)) (\<lambda>a. Inr (r, a)))))) (\<lambda>(r, a).
          let account = account_of s a; now = rq_now rq 0 in
          if ac_status a \<noteq> ''active'' then Inl ErrSessionInvalid
          else if rs_rotated r \<noteq> None \<and> rs_rotated r \<noteq> Some [] then
            ebind (stmt ss ''revoke_all_refresh'' s (Inr (revoke_refresh (\<lambda>r. rs_account r = ac_id a) now s))) (\<lambda>s.
            ebind (stmt ss ''revoke_all_access'' s (Inr (revoke_access (\<lambda>r. as_account r = ac_id a) now s))) (\<lambda>s.
            Inr (Inl ErrSessionInvalid, s)))
          else if rs_revoked r \<noteq> None then Inl ErrSessionInvalid
          else if \<not> rs_expires r > now then
            ebind (stmt ss ''revoke_expired'' s (Inr (s\<lparr>db_refresh := sql_update (\<lambda>r. rs_hash r = digest)
              (\<lambda>r. r\<lparr>rs_revoked := Some now\<rparr>) (db_refresh s)\<rparr>))) (\<lambda>s.
            Inr (Inl ErrSessionInvalid, s))
          else
            ebind (stmt ss ''rotate'' s (Inr (s\<lparr>db_refresh := sql_update
              (\<lambda>r. rs_hash r = digest \<and> rs_revoked r = None \<and> rs_rotated r = None)
              (\<lambda>r. r\<lparr>rs_revoked := Some now, rs_rotated := Some (tokenHash sv nextRefresh)\<rparr>) (db_refresh s)\<rparr>))) (\<lambda>s.
            let expiresAt = now + sv_sessions sv in
            ebind (stmt ss ''insert_access'' s (sql_insert as_hash
              \<lparr>as_hash = tokenHash sv access, as_account = ac_id a, as_expires = expiresAt, as_revoked = None,
               as_created = now, as_seen = now, as_remote = bounded (ri_remote input) 128,
               as_agent = bounded (ri_agent input) 512, as_family = rs_family r, as_started = rs_started r\<rparr> (db_access s))) (\<lambda>rows.
            let s = s\<lparr>db_access := rows\<rparr> in
            ebind (stmt ss ''insert_refresh'' s (sql_insert rs_hash
              \<lparr>rs_hash = tokenHash sv nextRefresh, rs_account = ac_id a, rs_expires = now + sv_refresh sv,
               rs_revoked = None, rs_rotated = None, rs_created = now, rs_remote = bounded (ri_remote input) 128,
               rs_agent = bounded (ri_agent input) 512, rs_family = rs_family r, rs_started = rs_started r\<rparr> (db_refresh s))) (\<lambda>rows.
            let s = s\<lparr>db_refresh := rows\<rparr> in
            Inr (Inr \<lparr>sa_access = access, sa_refresh = nextRefresh, sa_expires = expiresAt, sa_account = account\<rparr>, s))))))) s)))"

section \<open>Authentication\<close>

definition live_access :: "time \<Rightarrow> access_row \<Rightarrow> bool" where
  "live_access now r = (as_revoked r = None \<and> as_expires r > now)"

definition touch_session :: "request \<Rightarrow> time \<Rightarrow> string \<Rightarrow> core_db \<Rightarrow> (error + unit) \<times> core_db" where
  "touch_session rq now digest s = pool_exec (rq_tx rq 1) ''touch'' (\<lambda>s. Inr ((), s\<lparr>db_access := sql_update
     (\<lambda>r. as_hash r = digest \<and> as_seen r < now - minute \<and> as_revoked r = None)
     (\<lambda>r. r\<lparr>as_seen := now\<rparr>) (db_access s)\<rparr>)) s"

definition Authenticate :: "service \<Rightarrow> request \<Rightarrow> string \<Rightarrow> core_db \<Rightarrow> (error + account) \<times> core_db" where
  "Authenticate sv rq token s =
     (if \<not> has_prefix token ''as_'' \<or> length token > 128 then (Inl ErrSessionInvalid, s)
      else
        let digest = tokenHash sv token in
        case on_no_rows ErrSessionInvalid (pool_query (rq_tx rq 0) ''authenticate'' (\<lambda>s.
            ebind (sql_row (\<lambda>r. as_hash r = digest \<and> live_access (rq_db_now rq) r) (db_access s)) (\<lambda>r.
            ebind (sql_row (\<lambda>a. ac_id a = as_account r) (db_accounts s)) (\<lambda>a. Inr (account_of s a, ac_status a)))) s) of
          Inl e \<Rightarrow> (Inl e, s)
        | Inr (account, status) \<Rightarrow>
            if status \<noteq> ''active'' then (Inl ErrSessionInvalid, s)
            else (case touch_session rq (rq_now rq 0) digest (rq_others rq 0 s) of
                (Inl e, s) \<Rightarrow> (Inl e, s)
              | (Inr _, s) \<Rightarrow> (Inr account, s)))"

section \<open>Sign-out\<close>

text \<open>The families of the two tokens: \<open>None\<close> is a nil hash, which matches no row.\<close>

definition token_families :: "string option \<Rightarrow> string option \<Rightarrow> core_db \<Rightarrow> (string \<times> string) list" where
  "token_families access refresh s =
     map (\<lambda>r. (as_account r, as_family r)) (filter (\<lambda>r. Some (as_hash r) = access) (db_access s)) @
     map (\<lambda>r. (rs_account r, rs_family r)) (filter (\<lambda>r. Some (rs_hash r) = refresh) (db_refresh s))"

definition logoutSessions :: "service \<Rightarrow> request \<Rightarrow> string \<Rightarrow> string \<Rightarrow> core_db \<Rightarrow> (error + unit) \<times> core_db" where
  "logoutSessions sv rq accessToken refreshToken s =
     (let accessHash = (if has_prefix accessToken ''as_'' \<and> length accessToken \<le> 128
            then Some (tokenHash sv accessToken) else None);
          refreshHash = (if has_prefix refreshToken ''rs_'' \<and> length refreshToken \<le> 160
            then Some (tokenHash sv refreshToken) else None) in
      if accessHash = None \<and> refreshHash = None then (Inr (), s)
      else let ss = rq_tx rq 0 in pool_tx ss (\<lambda>s.
        ebind (stmt ss ''lock_accounts'' s (Inr ())) (\<lambda>_.
        let families = set (token_families accessHash refreshHash s) in
        ebind (stmt ss ''logout_access'' s
          (Inr (revoke_access (\<lambda>r. (as_account r, as_family r) \<in> families) (rq_now rq 0) s))) (\<lambda>s.
        ebind (stmt ss ''logout_refresh'' s
          (Inr (revoke_refresh (\<lambda>r. (rs_account r, rs_family r) \<in> families) (rq_now rq 1) s))) (\<lambda>s.
        Inr (Inr (), s))))) s)"

definition Logout :: "service \<Rightarrow> request \<Rightarrow> string \<Rightarrow> core_db \<Rightarrow> (error + unit) \<times> core_db" where
  "Logout sv rq token s = logoutSessions sv rq token [] s"

definition RevokeRefresh :: "service \<Rightarrow> request \<Rightarrow> string \<Rightarrow> core_db \<Rightarrow> (error + unit) \<times> core_db" where
  "RevokeRefresh sv rq token s = logoutSessions sv rq [] token s"

section \<open>Device families\<close>

definition RevokeSession :: "request \<Rightarrow> string \<Rightarrow> string \<Rightarrow> core_db \<Rightarrow> (error + unit) \<times> core_db" where
  "RevokeSession rq account family s =
     (if validateOpaqueID family \<noteq> Inr () \<or> length family > 128 then (Inl ErrInvalidInput, s)
      else let ss = rq_tx rq 0 in pool_tx ss (\<lambda>s.
        ebind (on_no_rows ErrNotFound (stmt ss ''lock_account'' s
          (sql_row (\<lambda>a. ac_id a = account) (db_accounts s)))) (\<lambda>_.
        let P = (\<lambda>r. as_account r = account \<and> as_family r = family);
            Q = (\<lambda>r. rs_account r = account \<and> rs_family r = family);
            found = sql_affected P (db_access s) > 0 \<or> sql_affected Q (db_refresh s) > 0 in
        ebind (stmt ss ''revoke_access'' s (Inr (revoke_access P (rq_now rq 0) s))) (\<lambda>s.
        ebind (stmt ss ''revoke_refresh'' s (Inr (revoke_refresh Q (rq_now rq 1) s))) (\<lambda>s.
        if \<not> found then Inl ErrNotFound else Inr (Inr (), s))))) s)"

definition revokeOtherSessions :: "service \<Rightarrow> request \<Rightarrow> string \<Rightarrow> string \<Rightarrow> core_db \<Rightarrow> (error + unit) \<times> core_db" where
  "revokeOtherSessions sv rq account token s =
     (let ss = rq_tx rq 0 in pool_tx ss (\<lambda>s.
        ebind (on_no_rows ErrSessionInvalid (stmt ss ''lock_account'' s
          (sql_row (\<lambda>a. ac_id a = account \<and> ac_status a = ''active'') (db_accounts s)))) (\<lambda>_.
        let now = rq_now rq 0 in
        ebind (on_no_rows ErrSessionInvalid (stmt ss ''current_session'' s
          (sql_row (\<lambda>r. as_account r = account \<and> as_hash r = tokenHash sv token \<and> live_access now r) (db_access s)))) (\<lambda>current.
        ebind (stmt ss ''revoke_access'' s (Inr (revoke_access
          (\<lambda>r. as_account r = account \<and> as_family r \<noteq> as_family current \<and> as_revoked r = None) now s))) (\<lambda>s.
        ebind (stmt ss ''revoke_refresh'' s (Inr (revoke_refresh
          (\<lambda>r. rs_account r = account \<and> rs_family r \<noteq> as_family current \<and> rs_revoked r = None) now s))) (\<lambda>s.
        Inr (Inr (), s)))))) s)"

end
