(* ===== verification/CoreAccounts.thy ===== *)
theory CoreAccounts
  imports CoreSessions
begin

text \<open>
  The accounts of \<open>accounts.go\<close>, \<open>recovery.go\<close> and \<open>session_retention.go\<close>: profiles, the change of a
  password, the operator's recovery of an administrator, and the pruning of expired credentials.
\<close>

section \<open>Profiles\<close>

record profile =
  pf_id :: string
  pf_email :: string
  pf_name :: string
  pf_created :: time

definition profile_of :: "account_row \<Rightarrow> profile" where
  "profile_of a = \<lparr>pf_id = ac_id a, pf_email = ac_email a, pf_name = ac_display a, pf_created = ac_created a\<rparr>"

definition Profile :: "request \<Rightarrow> string \<Rightarrow> core_db \<Rightarrow> error + profile" where
  "Profile rq account s = pool_query (rq_tx rq 0) ''profile''
     (\<lambda>s. ebind (sql_row (\<lambda>a. ac_id a = account \<and> ac_status a = ''active'') (db_accounts s)) (\<lambda>a. Inr (profile_of a))) s"

definition UpdateProfile :: "request \<Rightarrow> string \<Rightarrow> string \<Rightarrow> core_db \<Rightarrow> (error + profile) \<times> core_db" where
  "UpdateProfile rq account raw s =
     (let name = trim_space raw in
      if \<not> valid_string name \<or> length (runes name) > 80 \<or> (\<exists>r \<in> set (runes name). r < 32 \<or> r = 127)
      then (Inl ErrInvalidInput, s)
      else pool_exec (rq_tx rq 0) ''update_profile'' (\<lambda>s.
        let P = (\<lambda>a. ac_id a = account \<and> ac_status a = ''active'');
            rows = sql_update P (\<lambda>a. a\<lparr>ac_display := name, ac_updated := rq_now rq 0\<rparr>) (db_accounts s) in
        ebind (sql_row P rows) (\<lambda>a. Inr (profile_of a, s\<lparr>db_accounts := rows\<rparr>))) s)"

section \<open>Passwords\<close>

definition ChangePassword ::
  "service \<Rightarrow> request \<Rightarrow> entropy \<Rightarrow> string \<Rightarrow> string \<Rightarrow> string \<Rightarrow> core_db \<Rightarrow> (error + unit) \<times> core_db" where
  "ChangePassword sv rq entropy account current new s =
     (if \<not> validBootstrapPassword new \<or> current = new then (Inl ErrInvalidInput, s)
      else (case Hash (sv_idkey sv) entropy (Some core_hasher) new of
        Inl _ \<Rightarrow> (Inl ErrInvalidInput, s)
      | Inr hash \<Rightarrow>
        (let ss = rq_tx rq 0 in pool_tx ss (\<lambda>s.
          ebind (stmt ss ''lock_account'' s
            (sql_row (\<lambda>a. ac_id a = account \<and> ac_status a = ''active'') (db_accounts s))) (\<lambda>a.
          if locked_at (ac_locked a) (rq_now rq 0) then Inl ErrAccountLocked
          else if \<not> verify_password sv current (ac_hash a) then
            ebind (failedPassword ss (rq_now rq 1) (rq_now rq 2) account s) (\<lambda>s.
            Inr (Inl ErrInvalidCredentials, s))
          else
            ebind (stmt ss ''set_password'' s (Inr (s\<lparr>db_accounts := sql_update (\<lambda>a. ac_id a = account)
              (\<lambda>a. a\<lparr>ac_hash := hash, ac_failed := 0, ac_locked := None, ac_updated := rq_now rq 1\<rparr>)
              (db_accounts s)\<rparr>))) (\<lambda>s.
            ebind (revokeCredentialSessions ss (rq_db_now rq) account s) (\<lambda>s.
            Inr (Inr (), s))))) s)))"

text \<open>\<open>db_operator_recoveries\<close> is the ledger \<open>administrator_recoveries\<close>.\<close>

definition RecoverAdministrator ::
  "service \<Rightarrow> request \<Rightarrow> entropy \<Rightarrow> string \<Rightarrow> string \<Rightarrow> core_db \<Rightarrow> (error + string) \<times> core_db" where
  "RecoverAdministrator sv rq entropy email password s =
     (case normalizeEmail sv email of
        Inl _ \<Rightarrow> (Inl (ErrHost ''enter a valid administrator email''), s)
      | Inr email \<Rightarrow>
        if \<not> validBootstrapPassword password then (Inl (ErrHost ''enter a valid administrator email''), s)
        else (case Hash (sv_idkey sv) entropy (Some core_hasher) password of
          Inl _ \<Rightarrow> (Inl (ErrHost ''hash replacement password''), s)
        | Inr hash \<Rightarrow>
          (let ss = rq_tx rq 0 in pool_tx ss (\<lambda>s.
            ebind (on_no_rows ErrNotFound (stmt ss ''find_administrator'' s (sql_row (\<lambda>a. ac_normalized a = email \<and>
              ac_status a = ''active'' \<and> is_admin s (ac_id a)) (db_accounts s)))) (\<lambda>a.
            ebind (stmt ss ''set_password'' s (Inr (s\<lparr>db_accounts := sql_update (\<lambda>b. ac_id b = ac_id a)
              (\<lambda>b. b\<lparr>ac_hash := hash, ac_failed := 0, ac_locked := None, ac_updated := rq_db_now rq\<rparr>)
              (db_accounts s)\<rparr>))) (\<lambda>s.
            ebind (revokeCredentialSessions ss (rq_db_now rq) (ac_id a) s) (\<lambda>s.
            ebind (stmt ss ''record_recovery'' s
              (Inr (s\<lparr>db_operator_recoveries := db_operator_recoveries s @ [ac_id a]\<rparr>))) (\<lambda>s.
            Inr (Inr (ac_id a), s)))))) s)))"

section \<open>Retention\<close>

record prune_options =
  po_apply :: bool
  po_retention_days :: int
  po_batch :: int

record prune_result =
  pr_applied :: bool
  pr_cutoff :: time
  pr_batch :: int
  pr_access :: nat
  pr_refresh :: nat
  pr_recoveries :: nat

definition validatePruneOptions :: "prune_options \<Rightarrow> error + unit" where
  "validatePruneOptions o' =
     (if po_retention_days o' < 1 \<or> po_retention_days o' > 3650 \<or> po_batch o' < 1 \<or> po_batch o' > 5000
      then Inl ErrInvalidInput else Inr ())"

text \<open>
  The first rows of \<open>WHERE expires_at < $1 ORDER BY expires_at, key LIMIT $2\<close>. \<open>skip\<close> are the rows
  other transactions hold, which \<open>SKIP LOCKED\<close> passes over.
\<close>

definition expired_rows ::
  "('r \<Rightarrow> time) \<Rightarrow> ('r \<Rightarrow> string) \<Rightarrow> ('r \<Rightarrow> bool) \<Rightarrow> time \<Rightarrow> int \<Rightarrow> 'r list \<Rightarrow> 'r list" where
  "expired_rows expires key skip cutoff batch rows =
     take (nat batch) (sort_by (\<lambda>a b. if expires a \<noteq> expires b then expires a < expires b else key a < key b)
       (filter (\<lambda>r. expires r < cutoff \<and> \<not> skip r) rows))"

definition prune_rows ::
  "core_db session \<Rightarrow> string \<Rightarrow> core_db \<Rightarrow> bool \<Rightarrow> ('r \<Rightarrow> time) \<Rightarrow> ('r \<Rightarrow> string) \<Rightarrow> ('r \<Rightarrow> bool) \<Rightarrow> time \<Rightarrow> int \<Rightarrow>
     'r list \<Rightarrow> error + nat \<times> 'r list" where
  "prune_rows ss q s apply_it expires key skip cutoff batch rows =
     stmt ss q s (if apply_it
       then let gone = expired_rows expires key skip cutoff batch rows in
         Inr (length gone, sql_delete (\<lambda>r. key r \<in> key ` set gone) rows)
       else Inr (length (expired_rows expires key (\<lambda>_. False) cutoff batch rows), rows))"

definition day :: time where
  "day = 24 * 60 * minute"

definition PruneSessions ::
  "request \<Rightarrow> (string \<Rightarrow> bool) \<Rightarrow> prune_options \<Rightarrow> core_db \<Rightarrow> (error + prune_result) \<times> core_db" where
  "PruneSessions rq skip o' s = (case validatePruneOptions o' of
     Inl e \<Rightarrow> (Inl e, s)
   | Inr _ \<Rightarrow>
     (let ss = rq_tx rq 0 in pool_tx ss (\<lambda>s.
       ebind (stmt ss ''cutoff'' s (Inr (rq_db_now rq - po_retention_days o' * day))) (\<lambda>cutoff.
       ebind (prune_rows ss ''prune_access'' s (po_apply o') as_expires as_hash (\<lambda>r. skip (as_hash r)) cutoff
         (po_batch o') (db_access s)) (\<lambda>(access, rows).
       let s = s\<lparr>db_access := rows\<rparr> in
       ebind (prune_rows ss ''prune_refresh'' s (po_apply o') rs_expires rs_hash (\<lambda>r. skip (rs_hash r)) cutoff
         (po_batch o') (db_refresh s)) (\<lambda>(refresh, rows).
       let s = s\<lparr>db_refresh := rows\<rparr> in
       ebind (prune_rows ss ''prune_recoveries'' s (po_apply o') rc_expires rc_id (\<lambda>r. skip (rc_id r)) cutoff
         (po_batch o') (db_recoveries s)) (\<lambda>(recoveries, rows).
       let s = s\<lparr>db_recoveries := rows\<rparr> in
       Inr (Inr \<lparr>pr_applied = po_apply o', pr_cutoff = cutoff, pr_batch = po_batch o', pr_access = access,
          pr_refresh = refresh, pr_recoveries = recoveries\<rparr>, s)))))) s))"

end
