(* ===== verification/CoreTenants.thy ===== *)
theory CoreTenants
  imports CoreSessions Bootstrap
begin

text \<open>
  Organizations: the tenancy mode (\<open>application.go\<close>), the name of an organization (\<open>organization.go\<close>),
  the permission check and the audit row of every tenant write (\<open>tenant_admin.go\<close>), the creation of a
  tenant with its compensation, and the first administrator (\<open>service.go\<close>). The \<open>SECURITY DEFINER\<close>
  functions of the migrations these call are definitions on the tables.
\<close>

section \<open>The tenancy mode\<close>

text \<open>\<open>amsonia.single_organization_id\<close> of migration 8.\<close>

definition active_tenants :: "core_db \<Rightarrow> tenant_id list" where
  "active_tenants s = map tn_id (filter (\<lambda>t. tn_state t = ''active'') (db_tenants s))"

definition single_organization_id :: "string \<Rightarrow> core_db \<Rightarrow> sql_error + string option" where
  "single_organization_id selected s =
     (if selected \<noteq> [] then
        (if selected \<notin> set (active_tenants s) then Inl (Outage ''configured organization is not active'')
         else Inr (Some selected))
      else (case active_tenants s of
         [] \<Rightarrow> Inr None
       | [t] \<Rightarrow> Inr (Some t)
       | _ \<Rightarrow> Inl (Outage ''multiple active organizations require explicit configuration'')))"

definition organizationID :: "service \<Rightarrow> core_db session \<Rightarrow> core_db \<Rightarrow> error + string" where
  "organizationID sv ss s =
     (if sv_mode sv = ''multi'' then Inr []
      else ebind (pool_query ss ''single_organization_id'' (single_organization_id (sv_organization sv)) s) (\<lambda>t.
        Inr (case t of None \<Rightarrow> [] | Some t \<Rightarrow> t)))"

definition allowOrganization :: "service \<Rightarrow> core_db session \<Rightarrow> tenant_id \<Rightarrow> core_db \<Rightarrow> error + unit" where
  "allowOrganization sv ss t s =
     (if sv_mode sv = ''multi'' then Inr ()
      else ebind (organizationID sv ss s) (\<lambda>organization.
        if organization = [] \<or> organization \<noteq> t then Inl ErrNotFound else Inr ()))"

section \<open>Members and permissions\<close>

definition active_member :: "core_db \<Rightarrow> tenant_id \<Rightarrow> string \<Rightarrow> bool" where
  "active_member s t account = sql_exists (\<lambda>m. membership_key m = (t, account) \<and> tm_status m = ''active'') (db_memberships s)"

definition RequireMembership ::
  "service \<Rightarrow> request \<Rightarrow> tenant_id \<Rightarrow> string \<Rightarrow> core_db \<Rightarrow> (error + unit) \<times> core_db" where
  "RequireMembership sv rq t account s = (case allowOrganization sv (rq_tx rq 0) t s of
     Inl e \<Rightarrow> (Inl e, s)
   | Inr _ \<Rightarrow> RunTenant (sv_store sv) (rq_tx rq 1) t True (Some (\<lambda>s.
       ebind (stmt (rq_tx rq 1) ''membership'' s (Inr (active_member s t account))) (\<lambda>found.
       if \<not> found then Inl ErrNotFound else Inr ((), s)))) s)"

definition requireTenantPermission ::
  "core_db session \<Rightarrow> tenant_id \<Rightarrow> string \<Rightarrow> permission_key \<Rightarrow> core_db \<Rightarrow> error + unit" where
  "requireTenantPermission ss t actor permission s =
     ebind (stmt ss ''tenant_permission'' s (Inr (if active_member s t actor
       then map snd (filter (\<lambda>(u, g). u = actor \<and> eg_permission g = permission) (joined_grants t s)) else []))) (\<lambda>rows.
     ebind (echeck (\<lambda>g. validateEffectiveGrant g permission) rows) (\<lambda>_.
     if \<not> list_ex (\<lambda>g. eg_scope g = ScopeTenant) rows then Inl ErrForbidden else Inr ()))"

text \<open>The row of \<open>tenantAudit\<close>; the columns the statement leaves out have the defaults of the table.\<close>

definition tenant_event ::
  "request \<Rightarrow> time \<Rightarrow> tenant_id \<Rightarrow> string \<Rightarrow> string \<Rightarrow> string \<Rightarrow> string \<Rightarrow> bool \<Rightarrow> mutation_audit_event" where
  "tenant_event rq now t actor operation targetType target changed =
     \<lparr>ae_tenant = t, ae_actor = actor, ae_host_initiator = [], ae_operation = operation, ae_phase = AuditPhaseResult,
      ae_target_type = targetType, ae_target_id = target,
      ae_outcome = (if changed then AuditOutcomeSuccess else AuditOutcomeNoop),
      ae_reason_code = ''console_request'', ae_request_id = rq_id rq, ae_role_version = 0, ae_at = now\<rparr>"

definition tenantAudit ::
  "core_db session \<Rightarrow> mutation_audit_event \<Rightarrow> core_db \<Rightarrow> error + core_db" where
  "tenantAudit ss event s = stmt ss ''tenant_audit'' s (Inr (s\<lparr>db_audit := db_audit s @ [event]\<rparr>))"

text \<open>\<open>RecordSecurityEvent\<close>: no key of \<open>audit_events\<close> can conflict, so every call appends a row.\<close>

definition RecordSecurityEvent ::
  "service \<Rightarrow> core_db session \<Rightarrow> mutation_audit_event \<Rightarrow> core_db \<Rightarrow> (error + unit) \<times> core_db" where
  "RecordSecurityEvent sv ss event s = RunTenant (sv_store sv) ss (ae_tenant event) False (Some (\<lambda>s.
     ebind (stmt ss ''security_event'' s (Inr (s\<lparr>db_audit := db_audit s @ [event]\<rparr>))) (\<lambda>s. Inr ((), s)))) s"

section \<open>The organization's settings\<close>

definition organization_row :: "tenant_id \<Rightarrow> core_db \<Rightarrow> sql_error + tenant_row" where
  "organization_row t s = sql_row (\<lambda>r. tn_id r = t \<and> tn_state r = ''active'') (db_tenants s)"

definition readOrganization ::
  "service \<Rightarrow> request \<Rightarrow> tenant_id \<Rightarrow> core_db \<Rightarrow> (error + tenant_row) \<times> core_db" where
  "readOrganization sv rq t s = (case allowOrganization sv (rq_tx rq 0) t s of
     Inl e \<Rightarrow> (Inl e, s)
   | Inr _ \<Rightarrow> RunTenant (sv_store sv) (rq_tx rq 1) t True (Some (\<lambda>s.
       ebind (on_no_rows ErrNotFound (stmt (rq_tx rq 1) ''organization_settings'' s (organization_row t s))) (\<lambda>row.
       Inr (row, s)))) s)"

text \<open>\<open>amsonia.rename_organization\<close> of migration 9, with the SQLSTATEs the code tells apart.\<close>

datatype rename_result = NotAuthorized | NotThere | Refused sql_error | Renamed tenant_row

definition rename_organization ::
  "time \<Rightarrow> tenant_id \<Rightarrow> string \<Rightarrow> string \<Rightarrow> int64 \<Rightarrow> core_db \<Rightarrow> rename_result \<times> core_db" where
  "rename_organization now t actor name expected s =
     (if \<not> (is_admin s actor \<and> sql_exists (\<lambda>a. ac_id a = actor \<and> ac_status a = ''active'') (db_accounts s) \<and>
            active_member s t actor) then (NotAuthorized, s)
      else if \<not> (1 \<le> length name \<and> length name \<le> 80) \<or> (\<exists>r \<in> set (runes name). is_control r) \<or>
         trim_space name = [] \<or> sint expected < 1 then (Refused (Outage ''invalid organization settings''), s)
      else (case organization_row t s of
         Inl _ \<Rightarrow> (NotThere, s)
       | Inr row \<Rightarrow>
           if tn_version row \<noteq> expected then (Refused (Outage ''organization settings changed''), s)
           else if tn_name row = name then (Renamed row, s)
           else
             let rename = (\<lambda>r. r\<lparr>tn_name := name, tn_version := tn_version r + 1, tn_updated := now\<rparr>) in
             (Renamed (rename row), s\<lparr>db_tenants := sql_update (\<lambda>r. tn_id r = t) rename (db_tenants s)\<rparr>)))"

definition rename_tx ::
  "service \<Rightarrow> request \<Rightarrow> tenant_id \<Rightarrow> string \<Rightarrow> string \<Rightarrow> int64 \<Rightarrow> core_db \<Rightarrow> (error + tenant_row) \<times> core_db" where
  "rename_tx sv rq t actor name expected s = RunTenant (sv_store sv) (rq_tx rq 1) t False (Some (\<lambda>s.
     ebind (stmt (rq_tx rq 1) ''rename_organization'' s
       (Inr (rename_organization (rq_db_now rq) t actor name expected s))) (\<lambda>(result, s).
     case result of
       NotAuthorized \<Rightarrow> Inl ErrForbidden
     | NotThere \<Rightarrow> Inl ErrNotFound
     | Refused e \<Rightarrow> Inl (sql_fail e)
     | Renamed row \<Rightarrow>
         ebind (tenantAudit (rq_tx rq 1) (tenant_event rq (rq_now rq 0) t actor ''organization.update''
           ''organization'' t (tn_version row \<noteq> expected)) s) (\<lambda>s. Inr (row, s))))) s"

definition renameOrganization ::
  "service \<Rightarrow> request \<Rightarrow> tenant_id \<Rightarrow> string \<Rightarrow> string \<Rightarrow> int64 \<Rightarrow> core_db \<Rightarrow> (error + tenant_row) \<times> core_db" where
  "renameOrganization sv rq t actor rawName expected s =
     (case normalizeOrganizationName rawName of
        Inl _ \<Rightarrow> (Inl ErrInvalidInput, s)
      | Inr name \<Rightarrow>
        if sint expected < 1 then (Inl ErrInvalidInput, s)
        else (case allowOrganization sv (rq_tx rq 0) t s of
          Inl e \<Rightarrow> (Inl e, s)
        | Inr _ \<Rightarrow> rename_tx sv rq t actor name expected (rq_others rq 0 s)))"

section \<open>Creating a tenant\<close>

text \<open>\<open>amsonia.activate_tenant\<close> and \<open>amsonia.fail_created_tenant\<close> of migration 4.\<close>

definition set_state :: "string \<Rightarrow> time \<Rightarrow> (tenant_row \<Rightarrow> bool) \<Rightarrow> core_db \<Rightarrow> core_db" where
  "set_state state now P s = s\<lparr>db_tenants := sql_update P (\<lambda>t. t\<lparr>tn_state := state, tn_updated := now\<rparr>) (db_tenants s)\<rparr>"

definition activate_tenant :: "time \<Rightarrow> tenant_id \<Rightarrow> core_db \<Rightarrow> bool \<times> core_db" where
  "activate_tenant now t s =
     (let P = (\<lambda>r. tn_id r = t \<and> tn_state r = ''pending'') in
      (sql_exists P (db_tenants s), set_state ''active'' now P s))"

definition fail_created_tenant :: "time \<Rightarrow> string \<Rightarrow> tenant_id \<Rightarrow> core_db \<Rightarrow> bool \<times> core_db" where
  "fail_created_tenant now actor t s =
     (let P = (\<lambda>r. tn_id r = t \<and> tn_creator r = actor \<and> tn_state r = ''pending'') in
      (sql_exists P (db_tenants s), set_state ''failed'' now P s))"

definition insert_tenant :: "tenant_row \<Rightarrow> core_db \<Rightarrow> sql_error + core_db" where
  "insert_tenant row s =
     ebind (sql_insert tn_id row (db_tenants s)) (\<lambda>rows.
     ebind (sql_references ac_id (tn_creator row) (db_accounts s)) (\<lambda>_. Inr (s\<lparr>db_tenants := rows\<rparr>)))"

definition insert_membership :: "membership_row \<Rightarrow> core_db \<Rightarrow> sql_error + core_db" where
  "insert_membership row s =
     ebind (sql_insert membership_key row (db_memberships s)) (\<lambda>rows.
     ebind (sql_references tn_id (tm_tenant row) (db_tenants s)) (\<lambda>_.
     ebind (sql_references ac_id (tm_account row) (db_accounts s)) (\<lambda>_. Inr (s\<lparr>db_memberships := rows\<rparr>))))"

record tenant_answer =
  ta_id :: tenant_id
  ta_name :: string
  ta_state :: string
  ta_created :: time

definition failCreatedTenant ::
  "service \<Rightarrow> request \<Rightarrow> nat \<Rightarrow> string \<Rightarrow> tenant_id \<Rightarrow> error \<Rightarrow> core_db \<Rightarrow> error \<times> core_db" where
  "failCreatedTenant sv rq i account t cause s =
     (case FailCreatedTenant (sv_store sv) (rq_tx rq i)
         (\<lambda>account t s. Inr (fail_created_tenant (rq_db_now rq) account t s)) account t s of
        (_, s') \<Rightarrow> (cause, s'))"

definition owner_input :: "service \<Rightarrow> request \<Rightarrow> tenant_id \<Rightarrow> string \<Rightarrow> bootstrap_input" where
  "owner_input sv rq t owner =
     \<lparr>bi_tenant = t, bi_owner = owner, bi_role = ''role_owner'',
      bi_role_name = (if sv_mode sv = ''single'' then ''Organization owner'' else ''Tenant owner''),
      bi_role_description = [], bi_grants = ownerGrants ''role_owner'',
      bi_metadata = \<lparr>mm_request_id = rq_id rq, mm_reason_code = ''tenant_creation''\<rparr>\<rparr>"

text \<open>\<open>authorizer\<close> and \<open>clk\<close> are the dependencies of the \<open>Bootstrapper\<close> the service is given.\<close>

definition activate_owner ::
  "service \<Rightarrow> request \<Rightarrow> tenant_id \<Rightarrow> string \<Rightarrow> time \<Rightarrow> core_db \<Rightarrow> (error + unit) \<times> core_db" where
  "activate_owner sv rq t actor created s = (let ss = rq_tx rq 2 in
     RunTenant (sv_store sv) ss t False (Some (\<lambda>s.
       ebind (stmt ss ''insert_membership'' s (insert_membership
         \<lparr>tm_tenant = t, tm_account = actor, tm_status = ''active'', tm_joined = created\<rparr> s)) (\<lambda>s.
       ebind (stmt ss ''activate_tenant'' s (Inr (activate_tenant (rq_db_now rq) t s))) (\<lambda>(activated, s).
       if \<not> activated then Inl ErrConflict else Inr ((), s))))) s)"

definition create_tenant ::
  "service \<Rightarrow> request \<Rightarrow> bootstrap_authorizer \<Rightarrow> clock \<Rightarrow> account \<Rightarrow> string \<Rightarrow> core_db \<Rightarrow>
     (error + tenant_answer) \<times> core_db" where
  "create_tenant sv rq authorizer clk actor rawName s =
     (if \<not> an_admin actor then (Inl ErrForbidden, s)
      else case ebind (normalizeOrganizationName rawName) (\<lambda>name.
             ebind (randomID rq 0 ''ten_'' 16) (\<lambda>t. Inr (name, t))) of
        Inl e \<Rightarrow> (Inl e, s)
      | Inr (name, t) \<Rightarrow>
        (let created = rq_now rq 0; row = \<lparr>tn_id = t, tn_name = name, tn_state = ''pending'', tn_creator = an_id actor,
               tn_version = 1, tn_created = created, tn_updated = created\<rparr> in
         case pool_exec (rq_tx rq 0) ''insert_tenant'' (\<lambda>s. ebind (insert_tenant row s) (\<lambda>s. Inr ((), s))) s of
           (Inl e, s) \<Rightarrow> (Inl e, s)
         | (Inr _, s) \<Rightarrow>
           (case BootstrapTenant (sv_manager sv) (pg_tx (ss_fault (rq_tx rq 1)) t) (pg_mutator (sv_store sv) (rq_tx rq 1))
               authorizer clk (owner_input sv rq t (an_id actor)) (rq_others rq 1 s) of
              (Inl e, s) \<Rightarrow> (case failCreatedTenant sv rq 3 (an_id actor) t e (rq_others rq 3 s) of (e, s) \<Rightarrow> (Inl e, s))
            | (Inr _, s) \<Rightarrow>
              (case activate_owner sv rq t (an_id actor) created (rq_others rq 2 s) of
                 (Inl e, s) \<Rightarrow> (case failCreatedTenant sv rq 3 (an_id actor) t e (rq_others rq 3 s) of (e, s) \<Rightarrow> (Inl e, s))
               | (Inr _, s) \<Rightarrow> (Inr \<lparr>ta_id = t, ta_name = name, ta_state = ''active'', ta_created = created\<rparr>, s)))))"

definition CreateTenant ::
  "service \<Rightarrow> request \<Rightarrow> bootstrap_authorizer \<Rightarrow> clock \<Rightarrow> account \<Rightarrow> string \<Rightarrow> core_db \<Rightarrow>
     (error + tenant_answer) \<times> core_db" where
  "CreateTenant sv rq authorizer clk actor rawName s =
     (if sv_mode sv \<noteq> ''multi'' then (Inl ErrForbidden, s)
      else create_tenant sv rq authorizer clk actor rawName s)"

text \<open>\<open>amsonia.list_account_tenants\<close> of migration 3.\<close>

definition list_account_tenants :: "string \<Rightarrow> core_db \<Rightarrow> tenant_answer list" where
  "list_account_tenants account s =
     map (\<lambda>t. \<lparr>ta_id = tn_id t, ta_name = tn_name t, ta_state = tn_state t, ta_created = tn_created t\<rparr>)
       (sort_by (\<lambda>a b. if tn_created a \<noteq> tn_created b then tn_created a < tn_created b else tn_id a < tn_id b)
         (filter (\<lambda>t. tn_state t = ''active'' \<and> active_member s (tn_id t) account) (db_tenants s)))"

definition ListTenants ::
  "service \<Rightarrow> request \<Rightarrow> nat \<Rightarrow> string \<Rightarrow> core_db \<Rightarrow> (error + tenant_answer list) \<times> core_db" where
  "ListTenants sv rq i account s = (case organizationID sv (rq_tx rq i) s of
     Inl e \<Rightarrow> (Inl e, s)
   | Inr organization \<Rightarrow> RunActor (sv_store sv) (rq_tx rq (Suc i)) account (Some (\<lambda>s.
       ebind (stmt (rq_tx rq (Suc i)) ''list_account_tenants'' s (Inr (list_account_tenants account s))) (\<lambda>tenants.
       Inr (filter (\<lambda>t. sv_mode sv = ''multi'' \<or> ta_id t = organization) tenants, s)))) s)"

text \<open>\<open>None\<close> is the empty answer of the multi-tenant mode.\<close>

definition SetupOrganization ::
  "service \<Rightarrow> request \<Rightarrow> bootstrap_authorizer \<Rightarrow> clock \<Rightarrow> account \<Rightarrow> core_db \<Rightarrow>
     (error + tenant_answer option) \<times> core_db" where
  "SetupOrganization sv rq authorizer clk actor s =
     (if sv_mode sv = ''multi'' then (Inr None, s)
      else if \<not> an_admin actor then (Inl ErrForbidden, s)
      else case ebind (pool_query (rq_tx rq 4) ''setup_lock'' (\<lambda>_. Inr ()) s) (\<lambda>_. organizationID sv (rq_tx rq 5) s) of
        Inl e \<Rightarrow> (Inl e, s)
      | Inr organization \<Rightarrow>
        if organization = [] then
          (case create_tenant sv rq authorizer clk actor (sv_organization_name sv) (rq_others rq 5 s) of
             (Inl e, s) \<Rightarrow> (Inl e, s) | (Inr t, s) \<Rightarrow> (Inr (Some t), s))
        else (case ListTenants sv rq 6 (an_id actor) (rq_others rq 5 s) of
             (Inl e, s) \<Rightarrow> (Inl e, s)
           | (Inr tenants, s) \<Rightarrow>
             (case find (\<lambda>t. ta_id t = organization) tenants of
                Some t \<Rightarrow> (Inr (Some t), s)
              | None \<Rightarrow> (Inl ErrForbidden, s))))"

section \<open>The first administrator\<close>

definition insert_account :: "account_row \<Rightarrow> core_db \<Rightarrow> sql_error + core_db" where
  "insert_account row s =
     ebind (sql_insert ac_id row (db_accounts s)) (\<lambda>rows.
     ebind (sql_unique ac_normalized row (db_accounts s)) (\<lambda>_. Inr (s\<lparr>db_accounts := rows\<rparr>)))"

definition new_account :: "string \<Rightarrow> string \<Rightarrow> string \<Rightarrow> string \<Rightarrow> time \<Rightarrow> account_row" where
  "new_account account email normalized hash created =
     \<lparr>ac_id = account, ac_email = email, ac_normalized = normalized, ac_hash = hash, ac_status = ''active'',
      ac_failed = 0, ac_locked = None, ac_created = created, ac_updated = created, ac_last_login = None, ac_display = []\<rparr>"

definition insert_administrator ::
  "request \<Rightarrow> account_row \<Rightarrow> core_db \<Rightarrow> (error + unit) \<times> core_db" where
  "insert_administrator rq row s = (let ss = rq_tx rq 8 in pool_tx ss (\<lambda>s.
     ebind (stmt ss ''administrator_exists'' s (Inr (db_admins s \<noteq> []))) (\<lambda>exists.
     if exists then Inl ErrBootstrapComplete
     else
       ebind (stmt ss ''insert_account'' s (insert_account row s)) (\<lambda>s.
       ebind (stmt ss ''insert_administrator'' s (ebind (sql_insert fst (ac_id row, ac_created row) (db_admins s))
         (\<lambda>rows. Inr (s\<lparr>db_admins := rows\<rparr>)))) (\<lambda>s. Inr (Inr (), s))))) s)"

definition BootstrapAdmin ::
  "service \<Rightarrow> request \<Rightarrow> entropy \<Rightarrow> bootstrap_authorizer \<Rightarrow> clock \<Rightarrow> string \<Rightarrow> string \<Rightarrow> core_db \<Rightarrow>
     (error + account) \<times> core_db" where
  "BootstrapAdmin sv rq entropy authorizer clk email password s =
     (case ebind (normalizeEmail sv email) (\<lambda>normalized.
           ebind (guard (validBootstrapPassword password) ErrInvalidInput) (\<lambda>_.
           case Hash (sv_idkey sv) entropy (Some core_hasher) password of
             Inl _ \<Rightarrow> Inl ErrInvalidInput
           | Inr hash \<Rightarrow> ebind (randomID rq 1 ''acc_'' 18) (\<lambda>account. Inr (normalized, hash, account)))) of
        Inl e \<Rightarrow> (Inl e, s)
      | Inr (normalized, hash, account) \<Rightarrow>
        (let created = rq_now rq 1 in
         case insert_administrator rq (new_account account (trim_space email) normalized hash created) s of
           (Inl e, s) \<Rightarrow> (Inl e, s)
         | (Inr _, s) \<Rightarrow>
             let answer = \<lparr>an_id = account, an_email = trim_space email, an_admin = True, an_created = created,
                   an_last_login = None\<rparr> in
             (case SetupOrganization sv rq authorizer clk answer (rq_others rq 8 s) of
                (Inl e, s) \<Rightarrow> (Inl e, s)
              | (Inr _, s) \<Rightarrow> (Inr answer, s))))"

end
