(* ===== verification/CoreMembers.thy ===== *)
theory CoreMembers
  imports CoreAccounts CoreTenants
begin

text \<open>
  The members of an organization: provisioning by an operator (\<open>service.go\<close>), invitations and the
  management of members (\<open>tenant_admin.go\<close>), the recovery of a member's password (\<open>member_recovery.go\<close>)
  and the policy store that adds membership and an active administrator to every mutation of the
  kernel (\<open>policy_store.go\<close>). A recorded failed attempt commits and is then reported, so the body of a
  transaction answers whether the password was wrong.
\<close>

section \<open>Provisioning\<close>

record provision_input =
  pi_tenant :: tenant_id
  pi_email :: string
  pi_password :: string

text \<open>\<open>ON CONFLICT (tenant_id, account_id) DO UPDATE SET status = 'active'\<close>.\<close>

definition upsert_membership :: "membership_row \<Rightarrow> core_db \<Rightarrow> sql_error + core_db" where
  "upsert_membership row s =
     (if membership_key row \<in> membership_key ` set (db_memberships s)
      then Inr (s\<lparr>db_memberships := sql_update (\<lambda>m. membership_key m = membership_key row)
             (\<lambda>m. m\<lparr>tm_status := ''active''\<rparr>) (db_memberships s)\<rparr>)
      else insert_membership row s)"

definition provision_tx ::
  "service \<Rightarrow> request \<Rightarrow> tenant_id \<Rightarrow> string \<Rightarrow> string \<Rightarrow> string \<Rightarrow> string \<Rightarrow> core_db \<Rightarrow> (error + account) \<times> core_db" where
  "provision_tx sv rq t email normalized hash new s =
     (let now = rq_now rq 0; ss = rq_tx rq 2 in
      RunTenant (sv_store sv) ss t False (Some (\<lambda>s.
        ebind (case stmt ss ''find_account'' s (ebind (sql_row (\<lambda>a. ac_normalized a = normalized) (db_accounts s))
                 (\<lambda>a. Inr (account_of s a))) of
             Inl e \<Rightarrow> if e \<noteq> ErrNoRows then Inl e
               else ebind (stmt ss ''insert_account'' s (insert_account (new_account new email normalized hash now) s))
                 (\<lambda>s. Inr (\<lparr>an_id = new, an_email = email, an_admin = False, an_created = now, an_last_login = None\<rparr>, s))
           | Inr account \<Rightarrow>
               if an_admin account then Inl ErrForbidden
               else ebind (stmt ss ''reset_account'' s (Inr (s\<lparr>db_accounts := sql_update (\<lambda>a. ac_id a = an_id account)
                   (\<lambda>a. a\<lparr>ac_email := email, ac_hash := hash, ac_status := ''active'', ac_failed := 0,
                      ac_locked := None, ac_updated := now\<rparr>) (db_accounts s)\<rparr>))) (\<lambda>s.
                 ebind (revokeCredentialSessions ss (rq_db_now rq) (an_id account) s) (\<lambda>s.
                 Inr (account\<lparr>an_email := email, an_last_login := None\<rparr>, s)))) (\<lambda>(account, s).
        ebind (stmt ss ''upsert_membership'' s (upsert_membership
          \<lparr>tm_tenant = t, tm_account = an_id account, tm_status = ''active'', tm_joined = now\<rparr> s)) (\<lambda>s.
        Inr (account, s))))) s)"

definition ProvisionMember ::
  "service \<Rightarrow> request \<Rightarrow> entropy \<Rightarrow> account \<Rightarrow> provision_input \<Rightarrow> core_db \<Rightarrow> (error + account) \<times> core_db" where
  "ProvisionMember sv rq entropy actor input s =
     (if \<not> an_admin actor \<or> validateOpaqueID (pi_tenant input) \<noteq> Inr () then (Inl ErrForbidden, s)
      else case RequireMembership sv rq (pi_tenant input) (an_id actor) s of
        (Inl e, s) \<Rightarrow> (Inl e, s)
      | (Inr _, s) \<Rightarrow>
        (case ebind (case normalizeEmail sv (pi_email input) of Inl _ \<Rightarrow> Inl ErrInvalidInput | Inr n \<Rightarrow> Inr n) (\<lambda>normalized.
              ebind (guard (validBootstrapPassword (pi_password input)) ErrInvalidInput) (\<lambda>_.
              case Hash (sv_idkey sv) entropy (Some core_hasher) (pi_password input) of
                Inl _ \<Rightarrow> Inl ErrInvalidInput
              | Inr hash \<Rightarrow> ebind (randomID rq 0 ''acc_'' 18) (\<lambda>new. Inr (normalized, hash, new)))) of
           Inl e \<Rightarrow> (Inl e, s)
         | Inr (normalized, hash, new) \<Rightarrow>
             provision_tx sv rq (pi_tenant input) (trim_space (pi_email input)) normalized hash new (rq_others rq 1 s)))"

section \<open>Invitations\<close>

record invitation_preview =
  ip_tenant :: tenant_id
  ip_id :: string
  ip_email :: string
  ip_tenant_name :: string
  ip_expires :: time
  ip_account_exists :: bool

definition open_invitation :: "time \<Rightarrow> invitation_row \<Rightarrow> bool" where
  "open_invitation now i = (iv_accepted i = None \<and> iv_revoked i = None \<and> iv_expires i > now)"

text \<open>\<open>amsonia.inspect_invitation\<close> of migration 6.\<close>

definition inspect_invitation :: "time \<Rightarrow> string \<Rightarrow> core_db \<Rightarrow> sql_error + invitation_preview" where
  "inspect_invitation now digest s =
     ebind (sql_row (\<lambda>i. iv_hash i = digest \<and> open_invitation now i) (db_invitations s)) (\<lambda>i.
     ebind (sql_row (\<lambda>t. tn_id t = iv_tenant i \<and> tn_state t = ''active'') (db_tenants s)) (\<lambda>t.
     Inr \<lparr>ip_tenant = iv_tenant i, ip_id = iv_id i, ip_email = iv_display i, ip_tenant_name = tn_name t,
       ip_expires = iv_expires i,
       ip_account_exists = sql_exists (\<lambda>a. ac_normalized a = iv_email i) (db_accounts s)\<rparr>))"

definition PreviewInvitation :: "service \<Rightarrow> request \<Rightarrow> string \<Rightarrow> core_db \<Rightarrow> error + invitation_preview" where
  "PreviewInvitation sv rq token s =
     (if \<not> has_prefix token ''inv_'' \<or> length token < 40 \<or> length token > 160 then Inl ErrNotFound
      else
        ebind (on_no_rows ErrNotFound (pool_query (rq_tx rq 0) ''inspect_invitation''
          (inspect_invitation (rq_db_now rq) (tokenHash sv token)) s)) (\<lambda>item.
        ebind (allowOrganization sv (rq_tx rq 1) (ip_tenant item) s) (\<lambda>_. Inr item)))"

definition insert_invitation :: "invitation_row \<Rightarrow> core_db \<Rightarrow> sql_error + core_db" where
  "insert_invitation row s =
     ebind (sql_insert invitation_key row (db_invitations s)) (\<lambda>rows.
     ebind (sql_unique iv_hash row (db_invitations s)) (\<lambda>_.
     ebind (sql_references tn_id (iv_tenant row) (db_tenants s)) (\<lambda>_.
     ebind (sql_references ac_id (iv_creator row) (db_accounts s)) (\<lambda>_. Inr (s\<lparr>db_invitations := rows\<rparr>)))))"

record created_invitation =
  cv_id :: string
  cv_email :: string
  cv_created :: time
  cv_expires :: time
  cv_token :: string

definition CreateInvitation ::
  "service \<Rightarrow> request \<Rightarrow> tenant_id \<Rightarrow> string \<Rightarrow> string \<Rightarrow> core_db \<Rightarrow> (error + created_invitation) \<times> core_db" where
  "CreateInvitation sv rq t actor email s =
     (case ebind (normalizeEmail sv email) (\<lambda>normalized.
           ebind (randomID rq 0 ''invite_'' 18) (\<lambda>invitation.
           ebind (randomID rq 1 ''inv_'' 32) (\<lambda>token. Inr (normalized, invitation, token)))) of
        Inl e \<Rightarrow> (Inl e, s)
      | Inr (normalized, invitation, token) \<Rightarrow>
        (let ss = rq_tx rq 0; item = \<lparr>cv_id = invitation, cv_email = trim_space email, cv_created = rq_now rq 0,
               cv_expires = rq_now rq 1 + 7 * 24 * 60 * minute, cv_token = token\<rparr> in
         RunTenant (sv_store sv) ss t False (Some (\<lambda>s.
           ebind (requireTenantPermission ss t actor PermissionMemberManage s) (\<lambda>_.
           ebind (stmt ss ''member_exists'' s (Inr (sql_exists (\<lambda>m. tm_tenant m = t \<and>
             sql_exists (\<lambda>a. ac_id a = tm_account m \<and> ac_normalized a = normalized) (db_accounts s)) (db_memberships s)))) (\<lambda>exists.
           if exists then Inl ErrConflict
           else
             ebind (stmt ss ''replace_invitations'' s (Inr (s\<lparr>db_invitations := sql_update (\<lambda>i. iv_tenant i = t \<and>
               iv_email i = normalized \<and> iv_accepted i = None \<and> iv_revoked i = None)
               (\<lambda>i. i\<lparr>iv_revoked := Some (rq_now rq 2)\<rparr>) (db_invitations s)\<rparr>))) (\<lambda>s.
             ebind (stmt ss ''insert_invitation'' s (insert_invitation
               \<lparr>iv_tenant = t, iv_id = invitation, iv_email = normalized, iv_display = cv_email item, iv_hash = tokenHash sv token,
                iv_creator = actor, iv_expires = cv_expires item, iv_accepted = None, iv_revoked = None,
                iv_created = cv_created item\<rparr> s)) (\<lambda>s.
             ebind (tenantAudit ss (tenant_event rq (rq_now rq 3) t actor ''invitation.create'' ''invitation'' invitation True) s) (\<lambda>s.
             Inr (item, s))))))) ) s))"

definition RevokeInvitation ::
  "service \<Rightarrow> request \<Rightarrow> tenant_id \<Rightarrow> string \<Rightarrow> string \<Rightarrow> core_db \<Rightarrow> (error + unit) \<times> core_db" where
  "RevokeInvitation sv rq t actor invitation s =
     (let ss = rq_tx rq 0 in RunTenant (sv_store sv) ss t False (Some (\<lambda>s.
        ebind (requireTenantPermission ss t actor PermissionMemberManage s) (\<lambda>_.
        ebind (on_no_rows ErrNotFound (stmt ss ''lock_invitation'' s
          (sql_row (\<lambda>i. invitation_key i = (t, invitation)) (db_invitations s)))) (\<lambda>i.
        if iv_accepted i \<noteq> None then Inl ErrConflict
        else
          ebind (stmt ss ''revoke_invitation'' s (Inr (s\<lparr>db_invitations := sql_update (\<lambda>i. invitation_key i = (t, invitation))
            (\<lambda>i. i\<lparr>iv_revoked := coalesce (iv_revoked i) (rq_now rq 0)\<rparr>) (db_invitations s)\<rparr>))) (\<lambda>s.
          ebind (tenantAudit ss (tenant_event rq (rq_now rq 1) t actor ''invitation.revoke'' ''invitation'' invitation
            (iv_revoked i = None)) s) (\<lambda>s. Inr ((), s))))))) s)"

text \<open>The account that accepts: \<open>None\<close> is a wrong password, already counted.\<close>

definition accepting_account ::
  "service \<Rightarrow> request \<Rightarrow> core_db session \<Rightarrow> string \<Rightarrow> string \<Rightarrow> string option \<Rightarrow> string \<Rightarrow> string \<Rightarrow> core_db \<Rightarrow>
     error + account option \<times> core_db" where
  "accepting_account sv rq ss email display newHash newID password s =
     (case stmt ss ''lock_account'' s (sql_row (\<lambda>a. ac_normalized a = email) (db_accounts s)) of
        Inl e \<Rightarrow>
          if e \<noteq> ErrNoRows then Inl e
          else (case newHash of
            None \<Rightarrow> Inl ErrConflict
          | Some hash \<Rightarrow>
              let created = rq_now rq 1 in
              ebind (stmt ss ''insert_account'' s (insert_account (new_account newID display email hash created) s)) (\<lambda>s.
              Inr (Some \<lparr>an_id = newID, an_email = display, an_admin = False, an_created = created, an_last_login = None\<rparr>, s)))
      | Inr a \<Rightarrow>
          if ac_status a \<noteq> ''active'' then Inl ErrInvalidCredentials
          else if locked_at (ac_locked a) (rq_now rq 1) then Inl ErrAccountLocked
          else if \<not> verify_password sv password (ac_hash a) then
            ebind (failedPassword ss (rq_now rq 2) (rq_now rq 3) (ac_id a) s) (\<lambda>s. Inr (None, s))
          else Inr (Some ((account_of s a)\<lparr>an_last_login := None\<rparr>), s))"

definition accept_tx ::
  "service \<Rightarrow> request \<Rightarrow> string \<Rightarrow> string \<Rightarrow> invitation_preview \<Rightarrow> string option \<Rightarrow> string \<Rightarrow> core_db \<Rightarrow>
     (error + account option) \<times> core_db" where
  "accept_tx sv rq token password preview newHash newID s =
     (let ss = rq_tx rq 2; t = ip_tenant preview in
      RunTenant (sv_store sv) ss t False (Some (\<lambda>s.
        ebind (on_no_rows ErrNotFound (stmt ss ''lock_invitation'' s (sql_row (\<lambda>i.
          invitation_key i = (t, ip_id preview) \<and> iv_hash i = tokenHash sv token \<and>
          open_invitation (rq_now rq 0) i) (db_invitations s)))) (\<lambda>i.
        ebind (accepting_account sv rq ss (iv_email i) (ip_email preview) newHash newID password s) (\<lambda>(who, s).
        case who of
          None \<Rightarrow> Inr (None, s)
        | Some account \<Rightarrow>
          ebind (case stmt ss ''membership_status'' s
              (sql_row (\<lambda>m. membership_key m = (t, an_id account)) (db_memberships s)) of
            Inl e \<Rightarrow> if e = ErrNoRows then Inr () else Inl e
          | Inr m \<Rightarrow> if tm_status m \<noteq> ''active'' then Inl ErrConflict else Inr ()) (\<lambda>_.
          ebind (stmt ss ''insert_membership'' s
            (if (t, an_id account) \<in> membership_key ` set (db_memberships s) then Inr s
             else insert_membership \<lparr>tm_tenant = t, tm_account = an_id account, tm_status = ''active'',
               tm_joined = rq_now rq 4\<rparr> s)) (\<lambda>s.
          ebind (stmt ss ''accept_invitation'' s (Inr (s\<lparr>db_invitations := sql_update
            (\<lambda>i. invitation_key i = (t, ip_id preview)) (\<lambda>i. i\<lparr>iv_accepted := Some (rq_now rq 5)\<rparr>)
            (db_invitations s)\<rparr>))) (\<lambda>s.
          ebind (tenantAudit ss (tenant_event rq (rq_now rq 6) t (an_id account) ''invitation.accept'' ''invitation''
            (ip_id preview) True) s) (\<lambda>s.
          Inr (Some account, s))))))))) s)"

definition AcceptInvitation ::
  "service \<Rightarrow> request \<Rightarrow> entropy \<Rightarrow> string \<Rightarrow> string \<Rightarrow> core_db \<Rightarrow> (error + account) \<times> core_db" where
  "AcceptInvitation sv rq entropy token password s =
     (case ebind (PreviewInvitation sv rq token s) (\<lambda>preview.
           ebind (guard (ip_account_exists preview \<or> validBootstrapPassword password) ErrInvalidInput) (\<lambda>_.
           ebind (if ip_account_exists preview then Inr None
             else case Hash (sv_idkey sv) entropy (Some core_hasher) password of
               Inl _ \<Rightarrow> Inl ErrInvalidInput | Inr hash \<Rightarrow> Inr (Some hash)) (\<lambda>newHash.
           ebind (randomID rq 0 ''acc_'' 18) (\<lambda>newID. Inr (preview, newHash, newID))))) of
        Inl e \<Rightarrow> (Inl e, s)
      | Inr (preview, newHash, newID) \<Rightarrow>
        (let (res, s') = accept_tx sv rq token password preview newHash newID (rq_others rq 1 s)
         in (ebind res (\<lambda>who. case who of None \<Rightarrow> Inl ErrInvalidCredentials | Some account \<Rightarrow> Inr account), s')))"

section \<open>Managing members\<close>

definition MemberStatus ::
  "service \<Rightarrow> request \<Rightarrow> tenant_id \<Rightarrow> string \<Rightarrow> core_db \<Rightarrow> (error + string) \<times> core_db" where
  "MemberStatus sv rq t account s =
     (let ss = rq_tx rq 0;
          (res, s') = RunTenant (sv_store sv) ss t True (Some (\<lambda>s.
        ebind (stmt ss ''member_status'' s (sql_row (\<lambda>m. membership_key m = (t, account)) (db_memberships s))) (\<lambda>m.
        Inr (tm_status m, s)))) s
      in (on_no_rows ErrNotFound res, s'))"

definition administratorPermissions :: "permission_key list" where
  "administratorPermissions =
     [PermissionRoleManage, PermissionGrantManage, PermissionRoleAssign, PermissionMemberManage]"

definition hasActiveAdministrator ::
  "core_db session \<Rightarrow> tenant_id \<Rightarrow> string \<Rightarrow> core_db \<Rightarrow> error + bool" where
  "hasActiveAdministrator ss t exclude s =
     ebind (stmt ss ''active_administrator'' s (Inr (filter (\<lambda>(u, g). active_member s t u \<and> u \<noteq> exclude \<and>
       eg_permission g \<in> set administratorPermissions) (joined_grants t s)))) (\<lambda>rows.
     ebind (efold (\<lambda>(subject, grant). coverage_add subject grant) rows []) (\<lambda>coverage.
     Inr (coverage_complete administratorPermissions coverage)))"

definition ManageMember ::
  "service \<Rightarrow> request \<Rightarrow> tenant_id \<Rightarrow> string \<Rightarrow> string \<Rightarrow> string \<Rightarrow> bool \<Rightarrow> core_db \<Rightarrow> (error + unit) \<times> core_db" where
  "ManageMember sv rq t actor account status remove s =
     (if validateOpaqueID account \<noteq> Inr () \<or> (\<not> remove \<and> status \<noteq> ''active'' \<and> status \<noteq> ''suspended'')
      then (Inl ErrInvalidInput, s)
      else let ss = rq_tx rq 0 in RunTenant (sv_store sv) ss t False (Some (\<lambda>s.
        ebind (requireTenantPermission ss t actor PermissionMemberManage s) (\<lambda>_.
        ebind (on_no_rows ErrNotFound (stmt ss ''lock_membership'' s
          (sql_row (\<lambda>m. membership_key m = (t, account)) (db_memberships s)))) (\<lambda>m.
        ebind (if remove \<or> status = ''suspended''
          then ebind (hasActiveAdministrator ss t account s) (\<lambda>hasAdmin.
            if \<not> hasAdmin then Inl ErrLastAdministrator else Inr ())
          else Inr ()) (\<lambda>_.
        ebind (if remove
          then ebind (stmt ss ''delete_edges'' s (Inr (s\<lparr>db_edges := sql_delete
              (\<lambda>e. ge_tenant e = t \<and> ge_grantee e = account) (db_edges s)\<rparr>))) (\<lambda>s.
            ebind (stmt ss ''delete_bindings'' s (Inr (s\<lparr>db_bindings := sql_delete
              (\<lambda>b. sg_tenant b = t \<and> sg_subject b = account) (db_bindings s)\<rparr>))) (\<lambda>s.
            stmt ss ''delete_membership'' s (Inr (s\<lparr>db_memberships := sql_delete
              (\<lambda>m. membership_key m = (t, account)) (db_memberships s)\<rparr>))))
          else stmt ss ''set_status'' s (Inr (s\<lparr>db_memberships := sql_update (\<lambda>m. membership_key m = (t, account))
            (\<lambda>m. m\<lparr>tm_status := status\<rparr>) (db_memberships s)\<rparr>))) (\<lambda>s.
        ebind (tenantAudit ss (tenant_event rq (rq_now rq 0) t actor
          (if remove then ''member.remove'' else if status = ''suspended'' then ''member.suspend'' else ''member.resume'')
          ''member'' account (remove \<or> tm_status m \<noteq> status)) s) (\<lambda>s. Inr ((), s)))))))) s)"

end
