(* ===== verification/CoreRecovery.thy ===== *)
theory CoreRecovery
  imports CoreMembers
begin

text \<open>
  The recovery of a member's password (\<open>member_recovery.go\<close>): a system administrator who confirms their
  own password issues a single-use token, and the member sets a new password with it. Then the policy
  store (\<open>policy_store.go\<close>): the mutations of the kernel inside the checks of the application.
\<close>

section \<open>Issuing\<close>

record password_recovery =
  pw_id :: string
  pw_email :: string
  pw_expires :: time
  pw_token :: string

definition open_recovery :: "time \<Rightarrow> recovery_row \<Rightarrow> bool" where
  "open_recovery now r = (rc_consumed r = None \<and> rc_revoked r = None \<and> rc_expires r > now)"

definition insert_recovery :: "recovery_row \<Rightarrow> core_db \<Rightarrow> sql_error + core_db" where
  "insert_recovery row s =
     ebind (sql_insert rc_id row (db_recoveries s)) (\<lambda>rows.
     ebind (sql_unique rc_hash row (db_recoveries s)) (\<lambda>_.
     ebind (guard (length (rc_hash row) = 32 \<and> rc_expires row > rc_created row) CheckFailed) (\<lambda>_.
     ebind (sql_references ac_id (rc_account row) (db_accounts s)) (\<lambda>_.
     ebind (sql_references tn_id (rc_issued row) (db_tenants s)) (\<lambda>_.
     ebind (sql_references ac_id (rc_creator row) (db_accounts s)) (\<lambda>_. Inr (s\<lparr>db_recoveries := rows\<rparr>)))))))"

text \<open>A member an administrator may recover: active in the tenant, and no system administrator.\<close>

definition recoverable_member :: "core_db \<Rightarrow> tenant_id \<Rightarrow> account_row \<Rightarrow> bool" where
  "recoverable_member s t a = (ac_status a = ''active'' \<and> active_member s t (ac_id a) \<and> \<not> is_admin s (ac_id a))"

definition create_recovery_tx ::
  "service \<Rightarrow> request \<Rightarrow> tenant_id \<Rightarrow> string \<Rightarrow> string \<Rightarrow> string \<Rightarrow> string \<Rightarrow> string \<Rightarrow> core_db \<Rightarrow>
     (error + password_recovery option) \<times> core_db" where
  "create_recovery_tx sv rq t actor target password recovery token s =
     (let ss = rq_tx rq 1; expires = rq_now rq 0 + 30 * minute in
      RunTenant (sv_store sv) ss t False (Some (\<lambda>s.
        ebind (requireTenantPermission ss t actor PermissionMemberManage s) (\<lambda>_.
        ebind (on_no_rows ErrForbidden (stmt ss ''lock_actor'' s (sql_row (\<lambda>a. ac_id a = actor \<and>
          ac_status a = ''active'' \<and> is_admin s (ac_id a)) (db_accounts s)))) (\<lambda>a.
        if locked_at (ac_locked a) (rq_now rq 1) then Inl ErrAccountLocked
        else if \<not> verify_password sv password (ac_hash a) then
          ebind (failedPassword ss (rq_now rq 2) (rq_now rq 3) actor s) (\<lambda>s. Inr (None, s))
        else
          ebind (on_no_rows ErrNotFound (stmt ss ''lock_target'' s
            (sql_row (\<lambda>a. ac_id a = target \<and> recoverable_member s t a) (db_accounts s)))) (\<lambda>b.
          ebind (stmt ss ''replace_recoveries'' s (Inr (s\<lparr>db_recoveries := sql_update
            (\<lambda>r. rc_account r = target \<and> rc_consumed r = None \<and> rc_revoked r = None)
            (\<lambda>r. r\<lparr>rc_revoked := Some (rq_now rq 2)\<rparr>) (db_recoveries s)\<rparr>))) (\<lambda>s.
          ebind (stmt ss ''insert_recovery'' s (insert_recovery
            \<lparr>rc_id = recovery, rc_account = target, rc_issued = t, rc_creator = actor, rc_hash = tokenHash sv token,
             rc_created = rq_now rq 3, rc_expires = expires, rc_consumed = None, rc_revoked = None\<rparr> s)) (\<lambda>s.
          ebind (stmt ss ''reset_actor'' s (Inr (s\<lparr>db_accounts := sql_update (\<lambda>a. ac_id a = actor)
            (\<lambda>a. a\<lparr>ac_failed := 0, ac_locked := None\<rparr>) (db_accounts s)\<rparr>))) (\<lambda>s.
          ebind (tenantAudit ss (tenant_event rq (rq_now rq 4) t actor ''account.password_recovery.create'' ''account''
            target True) s) (\<lambda>s.
          Inr (Some \<lparr>pw_id = recovery, pw_email = ac_email b, pw_expires = expires, pw_token = token\<rparr>, s)))))))))) s)"

definition CreatePasswordRecovery ::
  "service \<Rightarrow> request \<Rightarrow> tenant_id \<Rightarrow> string \<Rightarrow> string \<Rightarrow> string \<Rightarrow> core_db \<Rightarrow> (error + password_recovery) \<times> core_db" where
  "CreatePasswordRecovery sv rq t actor target password s =
     (case ebind (allowOrganization sv (rq_tx rq 0) t s) (\<lambda>_.
           ebind (randomID rq 0 ''recovery_'' 18) (\<lambda>recovery.
           ebind (randomID rq 1 ''pr_'' 32) (\<lambda>token. Inr (recovery, token)))) of
        Inl e \<Rightarrow> (Inl e, s)
      | Inr (recovery, token) \<Rightarrow>
        (let (res, s') = create_recovery_tx sv rq t actor target password recovery token (rq_others rq 0 s)
         in (ebind res (\<lambda>item. case item of None \<Rightarrow> Inl ErrInvalidCredentials | Some item \<Rightarrow> Inr item), s')))"

section \<open>Completing\<close>

definition validRecoveryToken :: "string \<Rightarrow> bool" where
  "validRecoveryToken token = (has_prefix token ''pr_'' \<and> length token = 46)"

definition recoveryTarget :: "service \<Rightarrow> request \<Rightarrow> string \<Rightarrow> core_db \<Rightarrow> error + tenant_id \<times> string" where
  "recoveryTarget sv rq token s =
     (if \<not> validRecoveryToken token then Inl ErrNotFound
      else
        ebind (on_no_rows ErrNotFound (pool_query (rq_tx rq 0) ''recovery_target'' (\<lambda>s.
          ebind (sql_row (\<lambda>r. rc_hash r = tokenHash sv token \<and> open_recovery (rq_now rq 0) r) (db_recoveries s)) (\<lambda>r.
          Inr (rc_issued r, rc_account r))) s)) (\<lambda>(t, account).
        ebind (allowOrganization sv (rq_tx rq 1) t s) (\<lambda>_. Inr (t, account))))"

definition PreviewPasswordRecovery ::
  "service \<Rightarrow> request \<Rightarrow> string \<Rightarrow> core_db \<Rightarrow> (error + string \<times> string \<times> time) \<times> core_db" where
  "PreviewPasswordRecovery sv rq token s = (case recoveryTarget sv rq token s of
     Inl e \<Rightarrow> (Inl e, s)
   | Inr (t, account) \<Rightarrow> RunTenant (sv_store sv) (rq_tx rq 2) t True (Some (\<lambda>s.
       ebind (on_no_rows ErrNotFound (stmt (rq_tx rq 2) ''preview_recovery'' s
         (ebind (sql_row (\<lambda>r. rc_hash r = tokenHash sv token \<and> rc_account r = account \<and>
            open_recovery (rq_now rq 1) r) (db_recoveries s)) (\<lambda>r.
          ebind (sql_row (\<lambda>a. ac_id a = account \<and> recoverable_member s t a) (db_accounts s)) (\<lambda>a.
          ebind (organization_row t s) (\<lambda>o'. Inr (ac_email a, tn_name o', rc_expires r))))))) (\<lambda>item.
       Inr (item, s)))) s)"

definition complete_recovery_tx ::
  "service \<Rightarrow> request \<Rightarrow> string \<Rightarrow> tenant_id \<Rightarrow> string \<Rightarrow> string \<Rightarrow> core_db \<Rightarrow> (error + unit) \<times> core_db" where
  "complete_recovery_tx sv rq token t account hash s =
     (let ss = rq_tx rq 2 in RunTenant (sv_store sv) ss t False (Some (\<lambda>s.
        ebind (on_no_rows ErrNotFound (stmt ss ''lock_target'' s
          (ebind (sql_row (\<lambda>a. ac_id a = account \<and> recoverable_member s t a) (db_accounts s)) (\<lambda>a.
           ebind (organization_row t s) (\<lambda>_. Inr a))))) (\<lambda>_.
        let P = (\<lambda>r. rc_hash r = tokenHash sv token \<and> rc_account r = account \<and> rc_issued r = t \<and>
              open_recovery (rq_now rq 1) r) in
        ebind (stmt ss ''consume_recovery'' s (Inr (sql_affected P (db_recoveries s), s\<lparr>db_recoveries :=
          sql_update P (\<lambda>r. r\<lparr>rc_consumed := Some (rq_now rq 1)\<rparr>) (db_recoveries s)\<rparr>))) (\<lambda>(affected, s).
        if affected \<noteq> 1 then Inl ErrNotFound
        else
          ebind (stmt ss ''set_password'' s (Inr (s\<lparr>db_accounts := sql_update (\<lambda>a. ac_id a = account)
            (\<lambda>a. a\<lparr>ac_hash := hash, ac_failed := 0, ac_locked := None, ac_updated := rq_now rq 2\<rparr>)
            (db_accounts s)\<rparr>))) (\<lambda>s.
          ebind (revokeCredentialSessions ss (rq_db_now rq) account s) (\<lambda>s.
          ebind (tenantAudit ss (tenant_event rq (rq_now rq 3) t account ''account.password_recovery.complete''
            ''account'' account True) s) (\<lambda>s. Inr ((), s)))))))) s)"

definition CompletePasswordRecovery ::
  "service \<Rightarrow> request \<Rightarrow> entropy \<Rightarrow> string \<Rightarrow> string \<Rightarrow> core_db \<Rightarrow> (error + unit) \<times> core_db" where
  "CompletePasswordRecovery sv rq entropy token password s =
     (case ebind (recoveryTarget sv rq token s) (\<lambda>(t, account).
           ebind (guard (validBootstrapPassword password) ErrInvalidInput) (\<lambda>_.
           case Hash (sv_idkey sv) entropy (Some core_hasher) password of
             Inl _ \<Rightarrow> Inl (ErrHost ''hash'') | Inr hash \<Rightarrow> Inr (t, account, hash))) of
        Inl e \<Rightarrow> (Inl e, s)
      | Inr (t, account, hash) \<Rightarrow> complete_recovery_tx sv rq token t account hash (rq_others rq 1 s))"

section \<open>The policy store\<close>

record policy_guard =
  gd_actor :: string
  gd_target :: string
  gd_role :: role_id
  gd_version :: int64
  gd_assign :: bool
  gd_grant :: bool

definition empty_guard :: policy_guard where
  "empty_guard = \<lparr>gd_actor = [], gd_target = [], gd_role = [], gd_version = 0, gd_assign = False, gd_grant = False\<rparr>"

definition member_status :: "core_db \<Rightarrow> tenant_id \<Rightarrow> string \<Rightarrow> string option" where
  "member_status s t account = map_option tm_status (row_at membership_key (t, account) (db_memberships s))"

definition check_guard ::
  "core_db session \<Rightarrow> tenant_id \<Rightarrow> policy_guard \<Rightarrow> core_db \<Rightarrow> error + unit" where
  "check_guard ss t guard' s =
     ebind (if gd_actor guard' \<noteq> [] \<or> gd_target guard' \<noteq> [] then
        ebind (stmt ss ''guard_members'' s (Inr ())) (\<lambda>_.
        if gd_actor guard' \<noteq> [] \<and> member_status s t (gd_actor guard') \<noteq> Some ''active'' then Inl ErrForbidden
        else if gd_target guard' \<noteq> [] \<and> (member_status s t (gd_target guard') = None \<or>
          gd_assign guard' \<and> member_status s t (gd_target guard') \<noteq> Some ''active'') then Inl ErrNotFound
        else Inr ())
      else Inr ()) (\<lambda>_.
     ebind (if sint (gd_version guard') > 0 then
        ebind (pg_get_role (ss_fault ss) t (gd_role guard') s) (\<lambda>r.
        if ro_version r \<noteq> gd_version guard' then Inl ErrConflict else Inr ())
      else Inr ()) (\<lambda>_.
     if gd_grant guard' then
       ebind (pg_list_effective_grants (ss_fault ss) t (gd_actor guard') PermissionGrantManage s) (\<lambda>grants.
       ebind (echeck (\<lambda>g. validateEffectiveGrant g PermissionGrantManage) grants) (\<lambda>_.
       if \<not> list_ex (\<lambda>g. eg_scope g = ScopeTenant) grants then Inl ErrForbidden else Inr ()))
     else Inr ()))"

text \<open>
  \<open>corePolicyTx\<close> answers \<open>HasAdministrator\<close> with \<open>hasActiveAdministrator\<close> and leaves the other methods
  to the PostgreSQL transaction.
\<close>

definition core_policy_tx :: "core_db session \<Rightarrow> tenant_id \<Rightarrow> core_db tenant_tx" where
  "core_policy_tx ss t = (pg_tx (ss_fault ss) t)\<lparr>tx_has_administrator := (\<lambda>_ s. hasActiveAdministrator ss t [] s)\<rparr>"

definition core_MutateTenant ::
  "service \<Rightarrow> core_db session \<Rightarrow> policy_guard \<Rightarrow> tenant_id \<Rightarrow> (core_db \<Rightarrow> error + 'r \<times> core_db) \<Rightarrow> core_db \<Rightarrow>
     (error + 'r) \<times> core_db" where
  "core_MutateTenant sv ss guard' t fn s = pg_mutator (sv_store sv) ss t (\<lambda>s.
     ebind (check_guard ss t guard' s) (\<lambda>_.
     ebind (fn s) (\<lambda>(x, s).
     ebind (hasActiveAdministrator ss t [] s) (\<lambda>allowed.
     if \<not> allowed then Inl ErrLastAdministrator else Inr (x, s))))) s"

end
