(* ===== verification/CoreRules.thy ===== *)
theory CoreRules
  imports CoreRecovery
begin

text \<open>
  What the transactions of the application may do to the identity tables, as an abstract
  specification: \<open>change I\<close> has one rule per kind of statement, with the condition under which the
  code sends it. The set \<open>I\<close> holds the digests of the tokens drawn along the way. \<open>core_inv\<close> is what
  the tables keep (the keys, the references and the rules of rotation, invitation and recovery),
  \<open>spent\<close> says that a credential is used up and \<open>administered\<close> that an organization has an active
  member with all control permissions. Every rule keeps all three.
\<close>

section \<open>Tables whose open rows have a key\<close>

definition open_keyed :: "('r \<Rightarrow> bool) \<Rightarrow> ('r \<Rightarrow> 'k) \<Rightarrow> 'r list \<Rightarrow> bool" where
  "open_keyed live key t = keyed key (filter live t)"

lemma open_keyed_Nil [simp]: "open_keyed live key []"
  by (simp add: open_keyed_def)

lemma open_keyed_update:
  assumes "open_keyed live key t" and "\<And>r. r \<in> set t \<Longrightarrow> P r \<Longrightarrow> live (f r) \<Longrightarrow> live r \<and> key (f r) = key r"
  shows "open_keyed live key (sql_update P f t)"
  using assms
proof (induction t)
  case (Cons r t)
  let ?t = "sql_update P f t"
  from Cons.prems(1) have "open_keyed live key t" by (auto simp: open_keyed_def keyed_def split: if_splits)
  with Cons.IH Cons.prems(2) have rest: "open_keyed live key ?t" by simp
  have "\<exists>q \<in> set t. live q \<and> key q = key x" if "x \<in> set ?t" "live x" for x
  proof -
    from that(1) obtain q where "q \<in> set t" "x = (if P q then f q else q)" by (auto simp: in_sql_update)
    with that(2) Cons.prems(2) [of q] show ?thesis by (intro bexI [of _ q]) (auto split: if_splits)
  qed
  then have "\<And>x. x \<in> set ?t \<Longrightarrow> live x \<Longrightarrow> key x \<in> key ` {q \<in> set t. live q}" by (fastforce simp: image_iff)
  then have "key ` {x \<in> set ?t. live x} \<subseteq> key ` {q \<in> set t. live q}" by blast
  with rest Cons.prems show ?case
    by (auto simp: open_keyed_def keyed_def sql_update_def split: if_splits)
qed (simp add: sql_update_def)

lemma open_keyed_insert:
  assumes "open_keyed live key t" and "live r \<Longrightarrow> \<forall>q \<in> set t. live q \<longrightarrow> key q \<noteq> key r"
  shows "open_keyed live key (t @ [r])"
  using assms by (auto simp: open_keyed_def keyed_def)

lemma open_keyed_delete: "open_keyed live key t \<Longrightarrow> open_keyed live key (sql_delete P t)"
proof -
  have "filter live (sql_delete P t) = sql_delete P (filter live t)" by (simp add: sql_delete_def conj_commute)
  then show "open_keyed live key t \<Longrightarrow> ?thesis" by (simp add: open_keyed_def keyed_delete)
qed

lemma open_keyed_same:
  "open_keyed live key t \<Longrightarrow> q \<in> set t \<Longrightarrow> r \<in> set t \<Longrightarrow> live q \<Longrightarrow> live r \<Longrightarrow> key q = key r \<Longrightarrow> q = r"
  unfolding open_keyed_def by (rule keyed_same [of key "filter live t"]) auto

section \<open>The invariant\<close>

abbreviation account_ids :: "core_db \<Rightarrow> string set" where
  "account_ids s \<equiv> ac_id ` set (db_accounts s)"

abbreviation tenant_ids :: "core_db \<Rightarrow> tenant_id set" where
  "tenant_ids s \<equiv> tn_id ` set (db_tenants s)"

definition accounts_ok :: "core_db \<Rightarrow> bool" where
  "accounts_ok s \<longleftrightarrow> keyed ac_id (db_accounts s) \<and> keyed ac_normalized (db_accounts s) \<and>
     (\<forall>a \<in> set (db_accounts s). 0 \<le> ac_failed a \<and> ac_failed a < 5) \<and>
     fst ` set (db_admins s) \<subseteq> account_ids s \<and> length (db_admins s) \<le> 1"

definition sessions_ok :: "core_db \<Rightarrow> bool" where
  "sessions_ok s \<longleftrightarrow> keyed as_hash (db_access s) \<and> keyed rs_hash (db_refresh s) \<and>
     as_account ` set (db_access s) \<subseteq> account_ids s \<and> rs_account ` set (db_refresh s) \<subseteq> account_ids s \<and>
     (\<forall>r \<in> set (db_refresh s). rs_rotated r \<noteq> None \<longrightarrow> rs_revoked r \<noteq> None) \<and>
     open_keyed (\<lambda>r. rs_revoked r = None) (\<lambda>r. (rs_account r, rs_family r)) (db_refresh s)"

definition tenants_ok :: "core_db \<Rightarrow> bool" where
  "tenants_ok s \<longleftrightarrow> keyed tn_id (db_tenants s) \<and> tn_creator ` set (db_tenants s) \<subseteq> account_ids s \<and>
     keyed membership_key (db_memberships s) \<and> tm_tenant ` set (db_memberships s) \<subseteq> tenant_ids s \<and>
     tm_account ` set (db_memberships s) \<subseteq> account_ids s"

definition pending_invitation :: "invitation_row \<Rightarrow> bool" where
  "pending_invitation i = (iv_accepted i = None \<and> iv_revoked i = None)"

definition pending_recovery :: "recovery_row \<Rightarrow> bool" where
  "pending_recovery r = (rc_consumed r = None \<and> rc_revoked r = None)"

definition offers_ok :: "core_db \<Rightarrow> bool" where
  "offers_ok s \<longleftrightarrow> keyed invitation_key (db_invitations s) \<and> keyed iv_hash (db_invitations s) \<and>
     (\<forall>i \<in> set (db_invitations s). iv_accepted i = None \<or> iv_revoked i = None) \<and>
     open_keyed pending_invitation (\<lambda>i. (iv_tenant i, iv_email i)) (db_invitations s) \<and>
     keyed rc_id (db_recoveries s) \<and> keyed rc_hash (db_recoveries s) \<and>
     (\<forall>r \<in> set (db_recoveries s). rc_consumed r = None \<or> rc_revoked r = None) \<and>
     open_keyed pending_recovery rc_account (db_recoveries s)"

definition core_inv :: "core_db \<Rightarrow> bool" where
  "core_inv s \<longleftrightarrow> accounts_ok s \<and> sessions_ok s \<and> tenants_ok s \<and> offers_ok s"

lemmas core_inv_parts = core_inv_def accounts_ok_def sessions_ok_def tenants_ok_def offers_ok_def

section \<open>Spent credentials and administered organizations\<close>

definition spent :: "core_db \<Rightarrow> string \<Rightarrow> bool" where
  "spent s h \<longleftrightarrow>
     (\<forall>r \<in> set (db_access s). as_hash r = h \<longrightarrow> as_revoked r \<noteq> None) \<and>
     (\<forall>r \<in> set (db_refresh s). rs_hash r = h \<longrightarrow> rs_revoked r \<noteq> None) \<and>
     (\<forall>i \<in> set (db_invitations s). iv_hash i = h \<longrightarrow> \<not> pending_invitation i) \<and>
     (\<forall>r \<in> set (db_recoveries s). rc_hash r = h \<longrightarrow> \<not> pending_recovery r)"

definition administers :: "core_db \<Rightarrow> tenant_id \<Rightarrow> string \<Rightarrow> bool" where
  "administers s t u \<longleftrightarrow> active_member s t u \<and> (\<forall>p \<in> set administratorPermissions.
     \<exists>g. (u, g) \<in> set (joined_grants t s) \<and> eg_scope g = ScopeTenant \<and> eg_permission g = p)"

definition administered :: "core_db \<Rightarrow> tenant_id \<Rightarrow> bool" where
  "administered s t \<longleftrightarrow> (\<exists>u. administers s t u)"

lemma joined_grants_more: "tables.truncate s' = tables.truncate s \<Longrightarrow> joined_grants t s' = joined_grants t s"
  by (cases s; cases s') (simp add: joined_grants_def tables.truncate_def)

section \<open>The rules\<close>

definition account_update :: "(account_row \<Rightarrow> account_row) \<Rightarrow> bool" where
  "account_update f \<longleftrightarrow> (\<forall>a. ac_id (f a) = ac_id a \<and> ac_normalized (f a) = ac_normalized a \<and>
     (0 \<le> ac_failed a \<and> ac_failed a < 5 \<longrightarrow> 0 \<le> ac_failed (f a) \<and> ac_failed (f a) < 5))"

definition access_update :: "(access_row \<Rightarrow> access_row) \<Rightarrow> bool" where
  "access_update f \<longleftrightarrow> (\<forall>r. as_hash (f r) = as_hash r \<and> as_account (f r) = as_account r \<and>
     (as_revoked r \<noteq> None \<longrightarrow> as_revoked (f r) \<noteq> None))"

definition refresh_end :: "(refresh_row \<Rightarrow> refresh_row) \<Rightarrow> bool" where
  "refresh_end f \<longleftrightarrow> (\<forall>r. rs_hash (f r) = rs_hash r \<and> rs_account (f r) = rs_account r \<and> rs_revoked (f r) \<noteq> None)"

definition invitation_end :: "(invitation_row \<Rightarrow> bool) \<Rightarrow> (invitation_row \<Rightarrow> invitation_row) \<Rightarrow> core_db \<Rightarrow> bool" where
  "invitation_end P f s \<longleftrightarrow> (\<forall>i \<in> set (db_invitations s). P i \<longrightarrow> invitation_key (f i) = invitation_key i \<and>
     iv_hash (f i) = iv_hash i \<and> \<not> pending_invitation (f i) \<and> (iv_accepted (f i) = None \<or> iv_revoked (f i) = None))"

definition recovery_end :: "(recovery_row \<Rightarrow> bool) \<Rightarrow> (recovery_row \<Rightarrow> recovery_row) \<Rightarrow> core_db \<Rightarrow> bool" where
  "recovery_end P f s \<longleftrightarrow> (\<forall>r \<in> set (db_recoveries s). P r \<longrightarrow> rc_id (f r) = rc_id r \<and> rc_hash (f r) = rc_hash r \<and>
     \<not> pending_recovery (f r) \<and> (rc_consumed (f r) = None \<or> rc_revoked (f r) = None))"

inductive change :: "string set \<Rightarrow> core_db \<Rightarrow> core_db \<Rightarrow> bool" for I where
  accounts: "account_update f \<Longrightarrow> change I s (s\<lparr>db_accounts := sql_update P f (db_accounts s)\<rparr>)"
| new_account: "insert_account row s = Inr s' \<Longrightarrow> ac_failed row = 0 \<Longrightarrow> change I s s'"
| first_admin: "db_admins s = [] \<Longrightarrow> account \<in> account_ids s \<Longrightarrow> change I s (s\<lparr>db_admins := [(account, at)]\<rparr>)"
| access: "access_update f \<Longrightarrow> change I s (s\<lparr>db_access := sql_update P f (db_access s)\<rparr>)"
| new_access: "sql_insert as_hash row (db_access s) = Inr rows \<Longrightarrow> as_hash row \<in> I \<Longrightarrow>
    as_account row \<in> account_ids s \<Longrightarrow> change I s (s\<lparr>db_access := rows\<rparr>)"
| refresh: "refresh_end f \<Longrightarrow> change I s (s\<lparr>db_refresh := sql_update P f (db_refresh s)\<rparr>)"
| new_refresh: "sql_insert rs_hash row (db_refresh s) = Inr rows \<Longrightarrow> rs_hash row \<in> I \<Longrightarrow>
    rs_account row \<in> account_ids s \<Longrightarrow> rs_rotated row = None \<Longrightarrow>
    \<forall>r \<in> set (db_refresh s). rs_revoked r = None \<longrightarrow> (rs_account r, rs_family r) \<noteq> (rs_account row, rs_family row) \<Longrightarrow>
    change I s (s\<lparr>db_refresh := rows\<rparr>)"
| prune: "change I s (s\<lparr>db_access := sql_delete P (db_access s), db_refresh := sql_delete Q (db_refresh s),
    db_recoveries := sql_delete R (db_recoveries s)\<rparr>)"
| tenant: "(\<And>r. tn_id (f r) = tn_id r \<and> tn_creator (f r) = tn_creator r) \<Longrightarrow>
    change I s (s\<lparr>db_tenants := sql_update P f (db_tenants s)\<rparr>)"
| new_tenant: "insert_tenant row s = Inr s' \<Longrightarrow> change I s s'"
| new_member: "insert_membership row s = Inr s' \<Longrightarrow> change I s s'"
| activate: "change I s (s\<lparr>db_memberships := sql_update P (\<lambda>m. m\<lparr>tm_status := ''active''\<rparr>) (db_memberships s)\<rparr>)"
| invitation: "invitation_end P f s \<Longrightarrow> change I s (s\<lparr>db_invitations := sql_update P f (db_invitations s)\<rparr>)"
| new_invitation: "insert_invitation row s = Inr s' \<Longrightarrow> iv_hash row \<in> I \<Longrightarrow> pending_invitation row \<Longrightarrow>
    \<forall>i \<in> set (db_invitations s). pending_invitation i \<longrightarrow> (iv_tenant i, iv_email i) \<noteq> (iv_tenant row, iv_email row) \<Longrightarrow>
    change I s s'"
| recovery: "recovery_end P f s \<Longrightarrow> change I s (s\<lparr>db_recoveries := sql_update P f (db_recoveries s)\<rparr>)"
| new_recovery: "insert_recovery row s = Inr s' \<Longrightarrow> rc_hash row \<in> I \<Longrightarrow> pending_recovery row \<Longrightarrow>
    \<forall>r \<in> set (db_recoveries s). pending_recovery r \<longrightarrow> rc_account r \<noteq> rc_account row \<Longrightarrow> change I s s'"
| log: "change I s (s\<lparr>db_audit := events, db_operator_recoveries := accounts\<rparr>)"
| policy: "tables.more s' = tables.more (s\<lparr>db_memberships :=
      sql_update P (\<lambda>m. m\<lparr>tm_status := status\<rparr>) (sql_delete Q (db_memberships s))\<rparr>) \<Longrightarrow>
    (\<And>t. administered s t \<Longrightarrow> administered s' t) \<Longrightarrow> change I s s'"

lemmas change_intros = change.intros

section \<open>What every rule keeps\<close>

lemma more_fields:
  assumes "tables.more s' = tables.more (s :: core_db)"
  shows "db_accounts s' = db_accounts s" "db_admins s' = db_admins s" "db_access s' = db_access s"
    "db_refresh s' = db_refresh s" "db_tenants s' = db_tenants s" "db_memberships s' = db_memberships s"
    "db_invitations s' = db_invitations s" "db_recoveries s' = db_recoveries s"
  using assms by (cases s; cases s'; simp)+

lemma administered_mono:
  assumes "administered s t" and "\<And>u. active_member s t u \<Longrightarrow> active_member s' t u"
    and "db_roles s' = db_roles s" "db_grants s' = db_grants s" "db_bindings s' = db_bindings s"
  shows "administered s' t"
proof -
  have "joined_grants t s' = joined_grants t s" using assms(3-5) by (simp add: joined_grants_def)
  with assms(1,2) show ?thesis unfolding administered_def administers_def by metis
qed

lemma administered_same:
  assumes "administered s t" and "db_memberships s' = db_memberships s"
    and "db_roles s' = db_roles s" "db_grants s' = db_grants s" "db_bindings s' = db_bindings s"
  shows "administered s' t"
  using assms(1) _ assms(3-5) by (rule administered_mono) (use assms(2) in \<open>simp add: active_member_def\<close>)

text \<open>What the inserts change.\<close>

lemma insert_account_Inr: "insert_account row s = Inr s' \<longleftrightarrow>
    s' = s\<lparr>db_accounts := db_accounts s @ [row]\<rparr> \<and> ac_id row \<notin> account_ids s \<and>
    ac_normalized row \<notin> ac_normalized ` set (db_accounts s)"
  by (auto simp: insert_account_def err_simps sql_simps)

lemma insert_tenant_Inr: "insert_tenant row s = Inr s' \<longleftrightarrow>
    s' = s\<lparr>db_tenants := db_tenants s @ [row]\<rparr> \<and> tn_id row \<notin> tenant_ids s \<and> tn_creator row \<in> account_ids s"
  by (auto simp: insert_tenant_def err_simps sql_simps)

lemma insert_membership_Inr: "insert_membership row s = Inr s' \<longleftrightarrow>
    s' = s\<lparr>db_memberships := db_memberships s @ [row]\<rparr> \<and> membership_key row \<notin> membership_key ` set (db_memberships s) \<and>
    tm_tenant row \<in> tenant_ids s \<and> tm_account row \<in> account_ids s"
  by (auto simp: insert_membership_def err_simps sql_simps)

lemma insert_invitation_Inr: "insert_invitation row s = Inr s' \<longleftrightarrow>
    s' = s\<lparr>db_invitations := db_invitations s @ [row]\<rparr> \<and> invitation_key row \<notin> invitation_key ` set (db_invitations s) \<and>
    iv_hash row \<notin> iv_hash ` set (db_invitations s) \<and> iv_tenant row \<in> tenant_ids s \<and> iv_creator row \<in> account_ids s"
  by (auto simp: insert_invitation_def err_simps sql_simps)

lemma insert_recovery_Inr: "insert_recovery row s = Inr s' \<longleftrightarrow>
    s' = s\<lparr>db_recoveries := db_recoveries s @ [row]\<rparr> \<and> rc_id row \<notin> rc_id ` set (db_recoveries s) \<and>
    rc_hash row \<notin> rc_hash ` set (db_recoveries s) \<and> length (rc_hash row) = 32 \<and> rc_expires row > rc_created row \<and>
    rc_account row \<in> account_ids s \<and> rc_issued row \<in> tenant_ids s \<and> rc_creator row \<in> account_ids s"
  by (auto simp: insert_recovery_def err_simps sql_simps)

lemmas insert_rows = insert_account_Inr insert_tenant_Inr insert_membership_Inr insert_invitation_Inr insert_recovery_Inr

lemma change_administered:
  assumes "change I s s'" and "administered s t"
  shows "administered s' t"
  using assms(1)
proof cases
  case (activate P)
  have "active_member s' t u" if "active_member s t u" for u
  proof -
    from that obtain m where "m \<in> set (db_memberships s)" "membership_key m = (t, u)" "tm_status m = ''active''"
      by (auto simp: active_member_def sql_exists_def)
    then show ?thesis unfolding activate active_member_def sql_exists_def
      by (intro bexI [of _ "if P m then m\<lparr>tm_status := ''active''\<rparr> else m"]) (auto simp: membership_key_def in_sql_update)
  qed
  with assms(2) show ?thesis by (rule administered_mono) (simp_all add: activate)
next
  case (new_member row)
  show ?thesis
    by (rule administered_mono [OF assms(2)])
      (use new_member in \<open>auto simp: insert_rows active_member_def sql_exists_def\<close>)
next
  case (policy P status Q)
  with assms(2) show ?thesis by blast
qed (rule administered_same [OF assms(2)]; simp add: insert_rows; fail)+

section \<open>Spent stays spent\<close>

lemma change_spent:
  assumes "change I s s'" and "spent s h" and "h \<notin> I"
  shows "spent s' h"
  using assms
proof cases
  case (access f P)
  with assms(2) show ?thesis by (auto simp: spent_def in_sql_update access_update_def)
next
  case (policy P status Q)
  from more_fields [OF this(1)] assms(2) show ?thesis by (simp add: spent_def)
next
  case (invitation P f)
  with assms(2) show ?thesis unfolding spent_def invitation_end_def by (auto simp: in_sql_update split: if_splits)
next
  case (recovery P f)
  with assms(2) show ?thesis unfolding spent_def recovery_end_def by (auto simp: in_sql_update split: if_splits)
next
  case (new_invitation row)
  with assms(2,3) show ?thesis by (auto simp: spent_def insert_rows)
next
  case (new_recovery row)
  with assms(2,3) show ?thesis by (auto simp: spent_def insert_rows)
qed (auto simp: spent_def in_sql_update in_sql_delete insert_rows refresh_end_def sql_insert_Inr; fail)+

section \<open>The invariant is kept\<close>

lemma all_update:
  assumes "\<forall>r \<in> set t. Q r" and "\<And>r. r \<in> set t \<Longrightarrow> P r \<Longrightarrow> Q (f r)"
  shows "\<forall>r \<in> set (sql_update P f t). Q r"
  using assms by (auto simp: in_sql_update)

lemma ids_update: "account_update f \<Longrightarrow> ac_id ` set (sql_update P f (db_accounts s)) = account_ids s"
  by (simp add: account_update_def keys_update)

lemma accounts_ok_update:
  assumes "accounts_ok s" and "account_update f"
  shows "accounts_ok (s\<lparr>db_accounts := sql_update P f (db_accounts s)\<rparr>)"
proof -
  have "\<And>a. a \<in> set (sql_update P f (db_accounts s)) \<Longrightarrow> 0 \<le> ac_failed a \<and> ac_failed a < 5"
    using assms by (auto simp: accounts_ok_def account_update_def in_sql_update)
  with assms show ?thesis using ids_update [OF assms(2), of P s]
    by (simp add: accounts_ok_def account_update_def keyed_update)
qed

lemma sessions_ok_access:
  assumes "sessions_ok s" and "access_update f"
  shows "sessions_ok (s\<lparr>db_access := sql_update P f (db_access s)\<rparr>)"
  using assms keys_update [of "db_access s" P as_account f]
  by (simp add: sessions_ok_def access_update_def keyed_update)

lemma sessions_ok_refresh:
  assumes "sessions_ok s" and "refresh_end f"
  shows "sessions_ok (s\<lparr>db_refresh := sql_update P f (db_refresh s)\<rparr>)"
proof -
  have ended: "rs_revoked (f r) \<noteq> None" for r using assms(2) by (simp add: refresh_end_def)
  have "\<forall>r \<in> set (sql_update P f (db_refresh s)). rs_rotated r \<noteq> None \<longrightarrow> rs_revoked r \<noteq> None"
    by (rule all_update) (use assms in \<open>simp_all add: sessions_ok_def refresh_end_def\<close>)
  moreover have "open_keyed (\<lambda>r. rs_revoked r = None) (\<lambda>r. (rs_account r, rs_family r)) (sql_update P f (db_refresh s))"
    by (rule open_keyed_update, use assms(1) in \<open>simp add: sessions_ok_def\<close>, use ended in blast)
  ultimately show ?thesis using assms keys_update [of "db_refresh s" P rs_account f]
    by (simp add: sessions_ok_def refresh_end_def keyed_update)
qed

lemma image_delete: "k ` set (sql_delete P t) \<subseteq> k ` set t"
  by (auto simp: sql_delete_def)

lemma offers_ok_invitation:
  assumes "offers_ok s" and "invitation_end P f s"
  shows "offers_ok (s\<lparr>db_invitations := sql_update P f (db_invitations s)\<rparr>)"
proof -
  have "open_keyed pending_invitation (\<lambda>i. (iv_tenant i, iv_email i)) (sql_update P f (db_invitations s))"
    by (rule open_keyed_update) (use assms in \<open>simp_all add: offers_ok_def invitation_end_def\<close>)
  moreover have "\<forall>i \<in> set (sql_update P f (db_invitations s)). iv_accepted i = None \<or> iv_revoked i = None"
    by (rule all_update) (use assms in \<open>simp_all add: offers_ok_def invitation_end_def\<close>)
  ultimately show ?thesis using assms
    by (simp add: offers_ok_def invitation_end_def keyed_update)
qed

lemma offers_ok_recovery:
  assumes "offers_ok s" and "recovery_end P f s"
  shows "offers_ok (s\<lparr>db_recoveries := sql_update P f (db_recoveries s)\<rparr>)"
proof -
  have "open_keyed pending_recovery rc_account (sql_update P f (db_recoveries s))"
    by (rule open_keyed_update) (use assms in \<open>simp_all add: offers_ok_def recovery_end_def\<close>)
  moreover have "\<forall>r \<in> set (sql_update P f (db_recoveries s)). rc_consumed r = None \<or> rc_revoked r = None"
    by (rule all_update) (use assms in \<open>simp_all add: offers_ok_def recovery_end_def\<close>)
  ultimately show ?thesis using assms
    by (simp add: offers_ok_def recovery_end_def keyed_update)
qed

lemma sessions_ok_same:
  "sessions_ok s \<Longrightarrow> account_ids s \<subseteq> account_ids s' \<Longrightarrow> db_access s' = db_access s \<Longrightarrow> db_refresh s' = db_refresh s \<Longrightarrow>
    sessions_ok s'"
  unfolding sessions_ok_def by (metis (no_types, lifting) subset_trans)

lemma tenants_ok_same:
  "tenants_ok s \<Longrightarrow> account_ids s \<subseteq> account_ids s' \<Longrightarrow> db_tenants s' = db_tenants s \<Longrightarrow>
    db_memberships s' = db_memberships s \<Longrightarrow> tenants_ok s'"
  unfolding tenants_ok_def by (metis (no_types, lifting) subset_trans)

lemma offers_ok_same:
  "offers_ok s \<Longrightarrow> db_invitations s' = db_invitations s \<Longrightarrow> db_recoveries s' = db_recoveries s \<Longrightarrow> offers_ok s'"
  by (simp add: offers_ok_def)

lemma accounts_ok_same:
  "accounts_ok s \<Longrightarrow> db_accounts s' = db_accounts s \<Longrightarrow> db_admins s' = db_admins s \<Longrightarrow> accounts_ok s'"
  by (simp add: accounts_ok_def)

lemmas ok_same = sessions_ok_same tenants_ok_same offers_ok_same accounts_ok_same

lemma tenants_ok_members:
  assumes "tenants_ok s" and "\<And>m. membership_key (f m) = membership_key m"
    and "db_tenants s' = db_tenants s" "db_accounts s' = db_accounts s"
    and "db_memberships s' = sql_update P f (sql_delete Q (db_memberships s))"
  shows "tenants_ok s'"
proof -
  let ?d = "sql_delete Q (db_memberships s)"
  have "tm_tenant (f m) = tm_tenant m" "tm_account (f m) = tm_account m" for m
    using assms(2) [of m] by (simp_all add: membership_key_def)
  then have "tm_tenant ` set (sql_update P f ?d) = tm_tenant ` set ?d"
    "tm_account ` set (sql_update P f ?d) = tm_account ` set ?d" by (simp_all add: keys_update)
  moreover have "keyed membership_key (sql_update P f ?d)"
    using assms(1,2) by (simp add: tenants_ok_def keyed_update keyed_delete)
  ultimately show ?thesis using assms(1,3-5) by (auto simp: tenants_ok_def in_sql_delete)
qed

lemma sql_delete_none: "sql_delete (\<lambda>_. False) t = t"
  by (simp add: sql_delete_def)

lemma change_inv:
  assumes "change I s s'" and "core_inv s"
  shows "core_inv s'"
proof -
  have ok: "accounts_ok s" "sessions_ok s" "tenants_ok s" "offers_ok s"
    using assms(2) by (simp_all add: core_inv_def)
  from assms(1) show ?thesis
  proof cases
    case (accounts f P)
    then show ?thesis using accounts_ok_update [OF ok(1) accounts(2), of P] ids_update [OF accounts(2), of P s] ok
      by (auto simp: core_inv_def intro: ok_same)
  next
    case (new_account row)
    then have "accounts_ok s'" using ok(1) by (auto simp: accounts_ok_def insert_rows keyed_insert)
    with new_account ok show ?thesis by (auto simp: core_inv_def insert_rows intro: ok_same)
  next
    case (first_admin account at)
    then have "accounts_ok s'" using ok(1) by (auto simp: accounts_ok_def)
    with first_admin ok show ?thesis by (auto simp: core_inv_def intro: ok_same)
  next
    case (access f P)
    then show ?thesis using sessions_ok_access [OF ok(2) access(2), of P] ok
      by (auto simp: core_inv_def intro: ok_same)
  next
    case (new_access row rows)
    then have "sessions_ok s'" using ok(2) by (auto simp: sessions_ok_def sql_insert_Inr keyed_insert)
    with new_access ok show ?thesis by (auto simp: core_inv_def intro: ok_same)
  next
    case (refresh f P)
    then show ?thesis using sessions_ok_refresh [OF ok(2) refresh(2), of P] ok
      by (auto simp: core_inv_def intro: ok_same)
  next
    case (new_refresh row rows)
    then have "sessions_ok s'" using ok(2)
      by (auto simp: sessions_ok_def sql_insert_Inr intro!: keyed_insert open_keyed_insert)
    with new_refresh ok show ?thesis by (auto simp: core_inv_def intro: ok_same)
  next
    case (prune P Q R)
    have "sessions_ok s'" "offers_ok s'" using ok unfolding prune
      by (auto simp: sessions_ok_def offers_ok_def in_sql_delete keyed_delete open_keyed_delete)
    with prune ok show ?thesis by (auto simp: core_inv_def intro: ok_same)
  next
    case (tenant f P)
    then have "tenants_ok s'" using ok(3) keys_update [of "db_tenants s" P tn_id f]
        keys_update [of "db_tenants s" P tn_creator f] by (simp add: tenants_ok_def keyed_update)
    with tenant ok show ?thesis by (auto simp: core_inv_def intro: ok_same)
  next
    case (new_tenant row)
    then have "tenants_ok s'" using ok(3) by (auto simp: tenants_ok_def insert_rows keyed_insert)
    with new_tenant ok show ?thesis by (auto simp: core_inv_def insert_rows intro: ok_same)
  next
    case (new_member row)
    then have "tenants_ok s'" using ok(3) by (auto simp: tenants_ok_def insert_rows keyed_insert)
    with new_member ok show ?thesis by (auto simp: core_inv_def insert_rows intro: ok_same)
  next
    case (activate P)
    have "tenants_ok s'" by (rule tenants_ok_members [OF ok(3), where Q = "\<lambda>_. False"])
      (simp_all add: activate membership_key_def sql_delete_none)
    with activate ok show ?thesis by (auto simp: core_inv_def intro: ok_same)
  next
    case (policy P status Q)
    note m = more_fields [OF policy(1)]
    have "tenants_ok s'" by (rule tenants_ok_members [OF ok(3)]) (use m in \<open>simp_all add: membership_key_def\<close>)
    with m ok show ?thesis by (auto simp: core_inv_def intro: ok_same)
  next
    case (invitation P f)
    then show ?thesis using offers_ok_invitation [OF ok(4) invitation(2)] ok
      by (auto simp: core_inv_def intro: ok_same)
  next
    case (new_invitation row)
    then have "offers_ok s'" using ok(4)
      by (auto simp: offers_ok_def insert_rows pending_invitation_def intro!: keyed_insert open_keyed_insert)
    with new_invitation ok show ?thesis by (auto simp: core_inv_def insert_rows intro: ok_same)
  next
    case (recovery P f)
    then show ?thesis using offers_ok_recovery [OF ok(4) recovery(2)] ok
      by (auto simp: core_inv_def intro: ok_same)
  next
    case (new_recovery row)
    then have "offers_ok s'" using ok(4)
      by (auto simp: offers_ok_def insert_rows pending_recovery_def intro!: keyed_insert open_keyed_insert)
    with new_recovery ok show ?thesis by (auto simp: core_inv_def insert_rows intro: ok_same)
  next
    case (log events accounts)
    with ok show ?thesis by (auto simp: core_inv_def intro: ok_same)
  qed
qed

end
