(* ===== verification/PgKernel.thy ===== *)
theory PgKernel
  imports PgStore Kernel
begin

text \<open>
  The kernel over PostgreSQL: the calls of \<open>Manager\<close>, \<open>Bootstrapper\<close> and \<open>Maintenance\<close> on
  \<open>postgres.Store\<close> as a state machine on the tables, and what holds in every state they reach.
  \<open>attempted\<close> is the shape all kernel calls share, whatever the store: rejected before the store is
  asked, or one transaction of a checked body.
\<close>

section \<open>The shape of a call\<close>

definition attempted ::
  "('s, 'r, 'st) mutator \<Rightarrow> tenant_id \<Rightarrow> bool \<Rightarrow> ('s \<Rightarrow> error + 'r \<times> 's) \<Rightarrow> 'st \<Rightarrow> bool \<Rightarrow> 'st \<Rightarrow> bool" where
  "attempted mutate t pre body st success st' =
     (\<not> success \<and> st' = st \<or> pre \<and> (\<exists>res. mutate t body st = (res, st') \<and> success = (\<not> isl res)))"

lemma attempted_rejected: "attempted mutate t pre body st False st"
  by (simp add: attempted_def)

lemma attempted_in_transaction:
  assumes "in_transaction mutate sink clk actor meta op tt ti v body st a = (res, st', a')" and pre
  shows "attempted mutate (pr_tenant actor) pre body st (\<not> isl res) st'"
  using assms by (auto simp: in_transaction_def attempted_def split: prod.splits sum.splits)

lemma attempted_gated:
  assumes "(case chk of Inl e \<Rightarrow> (Inl e, st, a) | Inr y \<Rightarrow> k y) = (res, st', a')"
    and "\<And>y. chk = Inr y \<Longrightarrow> k y = (res, st', a') \<Longrightarrow> attempted mutate t pre body st (\<not> isl res) st'"
  shows "attempted mutate t pre body st (\<not> isl res) st'"
  using assms by (cases chk) (auto intro: attempted_rejected)

lemma isl_ebind_Inr: "isl (ebind res (\<lambda>_. Inr x)) = isl res"
  by (cases res) simp_all

lemma CreateRole_attempted:
  assumes "CreateRole m tx mutate sink clk actor meta input st a = (res, st', a')"
  shows "attempted mutate (pr_tenant actor) (valid_id (ci_role input))
    (createRole_tx m tx clk actor meta (new_role actor (ci_role input) (ci_name input) (ci_description input)))
    st (\<not> isl res) st'"
  using assms unfolding CreateRole_def
proof (rule attempted_gated, goal_cases)
  case (1 y)
  then have r: "valid_id (ci_role input)" by (auto simp: valid_id_def err_simps)
  from 1(2) show ?case
    by (auto simp: Let_def isl_ebind_Inr split: prod.splits dest!: attempted_in_transaction [OF _ r])
qed

lemma CreateRoleWithPermissions_attempted:
  assumes "CreateRoleWithPermissions m tx mutate sink clk actor meta input st a = (res, st', a')"
  shows "\<exists>qs. attempted mutate (pr_tenant actor)
    (valid_id (ci_role input) \<and> distinct qs \<and>
      list_all (\<lambda>q. good_key q \<and> catalog_lookup (mg_catalog m) q \<noteq> None) qs)
    (createRoleWithPermissions_tx m tx clk actor meta
      (new_role actor (ci_role input) (ci_name input) (ci_description input)) (sort_by (<) qs))
    st (\<not> isl res) st'"
proof (cases "ebind (validateMeta meta) (\<lambda>_.
           ebind (guard (validActor actor \<and> validateOpaqueID (ci_role input) = Inr ()) ErrInvalidInput) (\<lambda>_.
           ebind (validateRoleName (ci_name input)) (\<lambda>_.
           ebind (guard (length (ci_permissions input) \<le> length (catalog_keys (mg_catalog m))) ErrInvalidInput) (\<lambda>_.
           efold (collect_permission (mg_catalog m)) (ci_permissions input) []))))")
  case (Inl e)
  with assms show ?thesis by (auto simp: CreateRoleWithPermissions_def attempted_def)
next
  case (Inr qs)
  then have "efold (collect_permission (mg_catalog m)) (ci_permissions input) [] = Inr qs"
    and r: "valid_id (ci_role input)" by (auto simp: valid_id_def err_simps)
  from collect_permissions [OF this(1)] r
  have pre: "valid_id (ci_role input) \<and> distinct qs \<and>
      list_all (\<lambda>q. good_key q \<and> catalog_lookup (mg_catalog m) q \<noteq> None) qs" by simp
  from assms Inr show ?thesis
    by (auto simp: CreateRoleWithPermissions_def Let_def isl_ebind_Inr split: prod.splits
        dest!: attempted_in_transaction [OF _ pre])
qed

lemma UpdateRole_attempted:
  assumes "UpdateRole m tx mutate sink clk actor meta input st a = (res, st', a')"
  shows "attempted mutate (pr_tenant actor) True (updateRole_tx m tx clk actor meta input) st (\<not> isl res) st'"
  using assms unfolding UpdateRole_def
  by (rule attempted_gated) (rule attempted_in_transaction, assumption, simp)

lemma DeleteRole_attempted:
  assumes "DeleteRole m tx mutate sink clk actor meta input st a = (res, st', a')"
  shows "attempted mutate (pr_tenant actor) True (deleteRole_tx m tx clk actor meta input) st (\<not> isl res) st'"
  using assms unfolding DeleteRole_def
  by (rule attempted_gated) (rule attempted_in_transaction, assumption, simp)

lemma GrantPermission_attempted:
  assumes "GrantPermission m tx mutate sink clk actor meta input st a = (res, st', a')"
  shows "\<exists>g. attempted mutate (pr_tenant actor) (validateGrantInput m input = Inr g)
    (grantPermission_tx tx clk actor meta input g) st (\<not> isl res) st'"
proof (cases "validateGrantInput m input")
  case (Inl e)
  with assms show ?thesis by (auto simp: GrantPermission_def attempted_def err_simps split: sum.splits)
next
  case (Inr g)
  show ?thesis using assms unfolding GrantPermission_def
    by (intro exI [of _ g]) (rule attempted_gated, assumption, rule attempted_in_transaction,
        use Inr in \<open>auto simp: err_simps\<close>)
qed

lemma RevokePermission_attempted:
  assumes "RevokePermission m tx mutate sink clk actor meta input st a = (res, st', a')"
  shows "\<exists>g. attempted mutate (pr_tenant actor) (validateGrantInput m input = Inr g)
    (revokePermission_tx m tx clk actor meta input g) st (\<not> isl res) st'"
proof (cases "validateGrantInput m input")
  case (Inl e)
  with assms show ?thesis by (auto simp: RevokePermission_def attempted_def err_simps split: sum.splits)
next
  case (Inr g)
  show ?thesis using assms unfolding RevokePermission_def
    by (intro exI [of _ g]) (rule attempted_gated, assumption, rule attempted_in_transaction,
        use Inr in \<open>auto simp: err_simps\<close>)
qed

lemma AssignRole_attempted:
  assumes "AssignRole m tx mutate sink clk actor meta input st a = (res, st', a')"
  shows "attempted mutate (pr_tenant actor) (validateAssignInput actor meta input = Inr ())
    (assignRole_tx m tx clk actor meta input) st (\<not> isl res) st'"
  using assms unfolding AssignRole_def
  by (rule attempted_gated) (rule attempted_in_transaction, assumption, simp)

lemma UnassignRole_attempted:
  assumes "UnassignRole m tx mutate sink clk actor meta input st a = (res, st', a')"
  shows "attempted mutate (pr_tenant actor) True (unassignRole_tx m tx clk actor meta input) st (\<not> isl res) st'"
  using assms unfolding UnassignRole_def
  by (rule attempted_gated) (rule attempted_in_transaction, assumption, simp)

lemma BootstrapTenant_attempted:
  assumes "BootstrapTenant b tx mutate authorizer clk input st = (res, st')"
  shows "\<exists>provenance gm. attempted mutate (bi_tenant input)
    (validateBootstrapInput input = Inr () \<and>
     efold (owner_grant (mg_catalog b) (bi_role input)) (bi_grants input) [] = Inr gm \<and>
     has_controls (mg_controls b) gm = Inr ())
    (bootstrap_tx tx clk provenance input (owner_role input) (map snd gm)) st (\<not> isl res) st'"
proof (cases "ebind (validateBootstrapInput input) (\<lambda>_.
    ebind (authorizer (bi_tenant input)) (\<lambda>provenance.
    ebind (efold (owner_grant (mg_catalog b) (bi_role input)) (bi_grants input) []) (\<lambda>grantMap.
    ebind (has_controls (mg_controls b) grantMap) (\<lambda>_. Inr (provenance, map snd grantMap)))))")
  case (Inl e)
  with assms show ?thesis by (auto simp: BootstrapTenant_def attempted_def)
next
  case (Inr y)
  then obtain provenance gm where y: "y = (provenance, map snd gm)"
    and pre: "validateBootstrapInput input = Inr ()"
      "efold (owner_grant (mg_catalog b) (bi_role input)) (bi_grants input) [] = Inr gm"
      "has_controls (mg_controls b) gm = Inr ()"
    by (auto simp: err_simps)
  from assms Inr y show ?thesis
    by (intro exI [of _ provenance] exI [of _ gm])
      (auto simp: BootstrapTenant_def attempted_def pre split: prod.splits sum.splits)
qed

section \<open>One mutation\<close>

definition pg_inv :: "manager \<Rightarrow> 'z tables_scheme \<Rightarrow> bool" where
  "pg_inv m s = (tables_ok s \<and> (\<forall>t. policy_ok m t (pg_policy t s) \<and>
     (pg_purged t (db_state s) \<longleftrightarrow> (\<exists>p \<in> set (db_purges s). pu_tenant p = t)) \<and>
     (pg_purged t (db_state s) \<longrightarrow> pg_policy t s = empty_policy)))"

definition same_tenant_rows :: "tenant_id \<Rightarrow> 'z tables_scheme \<Rightarrow> 'z tables_scheme \<Rightarrow> bool" where
  "same_tenant_rows u s s' = (pg_policy u s' = pg_policy u s \<and>
     (pg_purged u (db_state s') \<longleftrightarrow> pg_purged u (db_state s)))"

text \<open>
  \<open>ack\<close>: the commit, if the call gets there, is not lost on the way back. A failed call then leaves
  the tables as they were; otherwise it may have taken its step.
\<close>

definition pg_outcome ::
  "manager \<Rightarrow> tenant_id \<Rightarrow> (policy \<Rightarrow> policy \<Rightarrow> bool) \<Rightarrow> bool \<Rightarrow> 'z tables_scheme \<Rightarrow> bool \<Rightarrow> 'z tables_scheme \<Rightarrow> bool" where
  "pg_outcome m t step ack s success s' =
     (pg_inv m s' \<and> tables.more s' = tables.more s \<and> (\<forall>u. u \<noteq> t \<longrightarrow> same_tenant_rows u s s') \<and>
      (let stepped = (\<not> pg_purged t (db_state s) \<and> \<not> pg_purged t (db_state s') \<and>
             step (pg_policy t s) (pg_policy t s')) in
       if success then stepped else s' = s \<or> \<not> ack \<and> stepped))"

definition acknowledged :: "'s session \<Rightarrow> bool" where
  "acknowledged ss = (case ss_commit ss of Unacknowledged _ \<Rightarrow> False | _ \<Rightarrow> True)"

lemma pg_frame_run_cases:
  assumes "pg_frame_run ss wrap r s = (res, s')"
  shows "isl res \<and> s' = s \<or>
    (\<exists>x. r = Inr (x, s') \<and> (res = Inr x \<or> isl res \<and> \<not> acknowledged ss))"
  using assms
  by (auto simp: pg_frame_run_def pg_commit_def acknowledged_def split: sum.splits prod.splits commit_result.splits)

lemma isPurged_iff: "isPurged ss t s = Inr c \<Longrightarrow> c = pg_purged t (db_state s)"
  by (auto simp: isPurged_def sql_row_at pg_purged_def err_simps split: option.splits)

lemma pg_mutator_cases:
  assumes "pg_mutator st ss t body s = (res, s')"
  shows "isl res \<and> s' = s \<or>
    \<not> pg_purged t (db_state s) \<and> (\<exists>x. body s = Inr (x, s') \<and> (res = Inr x \<or> isl res \<and> \<not> acknowledged ss))"
proof (cases "validateOpaqueID t = Inr ()")
  case True
  let ?r = "ebind (frame_call ss ''begin'') (\<lambda>_.
          ebind (frame_call ss ''isolation'') (\<lambda>_.
          ebind (bindTenant ss t (st_secret st)) (\<lambda>_.
          ebind (isPurged ss t s) (\<lambda>purged.
          if purged then Inl ErrNotFound
          else ebind (frame_call ss ''advisory_lock'') (\<lambda>_. body s)))))"
  from True assms have "pg_frame_run ss (fmtErr ''commit'') ?r s = (res, s')"
    by (simp add: pg_mutator_def pg_MutateTenant_def)
  from pg_frame_run_cases [OF this] consider "isl res \<and> s' = s"
    | x where "?r = Inr (x, s')" "res = Inr x \<or> isl res \<and> \<not> acknowledged ss"
    by blast
  then show ?thesis
  proof cases
    case (2 x)
    then have "body s = Inr (x, s') \<and> \<not> pg_purged t (db_state s)"
      by (auto simp: err_simps dest: isPurged_iff split: if_splits)
    with 2 show ?thesis by auto
  qed simp
next
  case False
  with assms show ?thesis by (auto simp: pg_mutator_def pg_MutateTenant_def)
qed

lemma pg_mutation:
  assumes inv: "pg_inv m s"
    and body: "\<And>x s'. pre \<Longrightarrow> pg_frame t s s \<Longrightarrow> policy_ok m t (pg_policy t s) \<Longrightarrow> body s = Inr (x, s') \<Longrightarrow>
      pg_frame t s s' \<and> step (pg_policy t s) (pg_policy t s')"
    and keeps: "\<And>p p'. step p p' \<Longrightarrow> policy_ok m t p \<Longrightarrow> policy_ok m t p'"
    and run: "attempted (pg_mutator st ss) t pre body s success s'"
  shows "pg_outcome m t step (acknowledged ss) s success s'"
proof -
  have same: "pg_outcome m t step (acknowledged ss) s False s"
    using inv by (simp add: pg_outcome_def same_tenant_rows_def Let_def)
  consider "\<not> success" "s' = s" | res where pre "pg_mutator st ss t body s = (res, s')" "success = (\<not> isl res)"
    using run by (auto simp: attempted_def)
  then show ?thesis
  proof cases
    case 1
    with same show ?thesis by simp
  next
    case (2 res)
    from pg_mutator_cases [OF 2(2)] consider (kept) "isl res" "s' = s"
      | (ran) x where "\<not> pg_purged t (db_state s)" "body s = Inr (x, s')"
        "res = Inr x \<or> isl res \<and> \<not> acknowledged ss" by blast
    then show ?thesis
    proof cases
      case kept
      with same 2 show ?thesis by simp
    next
      case (ran x)
      note np = ran(1) and b = ran(2) and how = ran(3)
      have ok: "policy_ok m u (pg_policy u s)" "tables_ok s" for u using inv by (simp_all add: pg_inv_def)
      from body [OF 2(1) pg_frame_refl [OF ok(2)] ok(1) b]
      have f: "pg_frame t s s'" and st: "step (pg_policy t s) (pg_policy t s')" by auto
      have others: "u \<noteq> t \<Longrightarrow> pg_policy u s' = pg_policy u s"
        and rest: "tables.more s' = tables.more s" "db_purges s' = db_purges s" "tables_ok s'"
          "pg_purged u (db_state s') = pg_purged u (db_state s)" for u
        using f by (auto simp: pg_frame_def)
      have "policy_ok m u (pg_policy u s')" for u
        using keeps [OF st ok(1)] others [of u] ok(1) [of u] by (cases "u = t") simp_all
      moreover have "pg_purged u (db_state s) \<Longrightarrow> pg_policy u s' = empty_policy" for u
        using np others [of u] inv by (cases "u = t") (simp_all add: pg_inv_def)
      ultimately have "pg_inv m s'" using rest inv by (simp add: pg_inv_def)
      with how 2(3) np st rest others show ?thesis
        by (auto simp: pg_outcome_def same_tenant_rows_def Let_def)
    qed
  qed
qed

section \<open>The mutations of the kernel\<close>

inductive pg_manager_call ::
  "manager \<Rightarrow> 'a audit_sink \<Rightarrow> principal \<Rightarrow> bool \<Rightarrow> bool \<Rightarrow> 'z tables_scheme \<times> 'a \<Rightarrow> 'z tables_scheme \<times> 'a \<Rightarrow> bool"
  for m sink actor where
  create_role:
    "CreateRole m (pg_tx (ss_fault ss) (pr_tenant actor)) (pg_mutator st ss) sink clk actor meta input s a =
       (res, s', a') \<Longrightarrow> pg_manager_call m sink actor (acknowledged ss) (\<not> isl res) (s, a) (s', a')"
| create_role_with_permissions:
    "CreateRoleWithPermissions m (pg_tx (ss_fault ss) (pr_tenant actor)) (pg_mutator st ss) sink clk actor meta
       winput s a = (res, s', a') \<Longrightarrow> pg_manager_call m sink actor (acknowledged ss) (\<not> isl res) (s, a) (s', a')"
| update_role:
    "UpdateRole m (pg_tx (ss_fault ss) (pr_tenant actor)) (pg_mutator st ss) sink clk actor meta uinput s a =
       (res, s', a') \<Longrightarrow> pg_manager_call m sink actor (acknowledged ss) (\<not> isl res) (s, a) (s', a')"
| delete_role:
    "DeleteRole m (pg_tx (ss_fault ss) (pr_tenant actor)) (pg_mutator st ss) sink clk actor meta dinput s a =
       (dres, s', a') \<Longrightarrow> pg_manager_call m sink actor (acknowledged ss) (\<not> isl dres) (s, a) (s', a')"
| grant_permission:
    "GrantPermission m (pg_tx (ss_fault ss) (pr_tenant actor)) (pg_mutator st ss) sink clk actor meta ginput s a =
       (dres, s', a') \<Longrightarrow> pg_manager_call m sink actor (acknowledged ss) (\<not> isl dres) (s, a) (s', a')"
| revoke_permission:
    "RevokePermission m (pg_tx (ss_fault ss) (pr_tenant actor)) (pg_mutator st ss) sink clk actor meta ginput s a =
       (dres, s', a') \<Longrightarrow> pg_manager_call m sink actor (acknowledged ss) (\<not> isl dres) (s, a) (s', a')"
| assign_role:
    "AssignRole m (pg_tx (ss_fault ss) (pr_tenant actor)) (pg_mutator st ss) sink clk actor meta ainput s a =
       (dres, s', a') \<Longrightarrow> pg_manager_call m sink actor (acknowledged ss) (\<not> isl dres) (s, a) (s', a')"
| unassign_role:
    "UnassignRole m (pg_tx (ss_fault ss) (pr_tenant actor)) (pg_mutator st ss) sink clk actor meta ainput s a =
       (dres, s', a') \<Longrightarrow> pg_manager_call m sink actor (acknowledged ss) (\<not> isl dres) (s, a) (s', a')"

lemma pg_step_mutation:
  assumes "pg_inv m s" and "attempted (pg_mutator st ss) (pr_tenant actor) pre body s success s'"
    and "\<And>x s'. pre \<Longrightarrow> pg_frame (pr_tenant actor) s s \<Longrightarrow> policy_ok m (pr_tenant actor) (pg_policy (pr_tenant actor) s) \<Longrightarrow>
      body s = Inr (x, s') \<Longrightarrow> pg_frame (pr_tenant actor) s s' \<and>
        policy_step m actor (pg_policy (pr_tenant actor) s) (pg_policy (pr_tenant actor) s')"
  shows "pg_outcome m (pr_tenant actor) (policy_step m actor) (acknowledged ss) s success s'"
proof (rule pg_mutation [OF assms(1) _ _ assms(2)], goal_cases)
  case (1 x s')
  then show ?case by (rule assms(3))
next
  case (2 p p')
  then show ?case by (rule step_policy_ok)
qed

lemma pg_manager_call_outcome:
  assumes call: "pg_manager_call m sink actor ack success (s, a) (s', a')" and inv: "pg_inv m s"
  shows "pg_outcome m (pr_tenant actor) (policy_step m actor) ack s success s'"
  using call
proof cases
  case (create_role ss st clk meta input res)
  show ?thesis unfolding create_role(1,2)
    by (rule pg_step_mutation [OF inv CreateRole_attempted [OF create_role(3)]])
      (erule pg.createRole_refines [OF _ refl refl], assumption+)
next
  case (create_role_with_permissions ss st clk meta input res)
  from CreateRoleWithPermissions_attempted [OF create_role_with_permissions(3)] obtain qs where
    run: "attempted (pg_mutator st ss) (pr_tenant actor) (valid_id (ci_role input) \<and> distinct qs \<and>
      list_all (\<lambda>q. good_key q \<and> catalog_lookup (mg_catalog m) q \<noteq> None) qs)
    (createRoleWithPermissions_tx m (pg_tx (ss_fault ss) (pr_tenant actor)) clk actor meta
      (new_role actor (ci_role input) (ci_name input) (ci_description input)) (sort_by (<) qs))
    s (\<not> isl res) s'" by blast
  show ?thesis unfolding create_role_with_permissions(1,2)
  proof (rule pg_step_mutation [OF inv run], goal_cases)
    case (1 x s')
    then show ?case
      using pg.createRoleWithPermissions_refines [OF 1(2) refl refl _ _ _ 1(4)] by (simp add: list_all_iff)
  qed
next
  case (update_role ss st clk meta input res)
  show ?thesis unfolding update_role(1,2)
  proof (rule pg_step_mutation [OF inv UpdateRole_attempted [OF update_role(3)]], goal_cases)
    case (1 x s')
    then show ?case using pg.updateRole_refines [OF 1(2) refl 1(3)] by (metis prod.collapse)
  qed
next
  case (delete_role ss st clk meta input res)
  show ?thesis unfolding delete_role(1,2)
  proof (rule pg_step_mutation [OF inv DeleteRole_attempted [OF delete_role(3)]], goal_cases)
    case (1 x s')
    then show ?case using pg.deleteRole_refines [OF 1(2) refl 1(3,4)] by blast
  qed
next
  case (grant_permission ss st clk meta input res)
  from GrantPermission_attempted [OF grant_permission(3)] obtain g where
    run: "attempted (pg_mutator st ss) (pr_tenant actor) (validateGrantInput m input = Inr g)
      (grantPermission_tx (pg_tx (ss_fault ss) (pr_tenant actor)) clk actor meta input g) s (\<not> isl res) s'" by blast
  show ?thesis unfolding grant_permission(1,2)
  proof (rule pg_step_mutation [OF inv run], goal_cases)
    case (1 x s')
    then show ?case using pg.grantPermission_refines [OF 1(2) refl 1(3,1,4)] by blast
  qed
next
  case (revoke_permission ss st clk meta input res)
  from RevokePermission_attempted [OF revoke_permission(3)] obtain g where
    run: "attempted (pg_mutator st ss) (pr_tenant actor) (validateGrantInput m input = Inr g)
      (revokePermission_tx m (pg_tx (ss_fault ss) (pr_tenant actor)) clk actor meta input g) s (\<not> isl res) s'" by blast
  show ?thesis unfolding revoke_permission(1,2)
  proof (rule pg_step_mutation [OF inv run], goal_cases)
    case (1 x s')
    then show ?case using pg.revokePermission_refines [OF 1(2) refl 1(3,1,4)] by blast
  qed
next
  case (assign_role ss st clk meta input res)
  show ?thesis unfolding assign_role(1,2)
  proof (rule pg_step_mutation [OF inv AssignRole_attempted [OF assign_role(3)]], goal_cases)
    case (1 x s')
    then show ?case using pg.assignRole_refines [OF 1(2) refl 1(3,1,4)] by blast
  qed
next
  case (unassign_role ss st clk meta input res)
  show ?thesis unfolding unassign_role(1,2)
  proof (rule pg_step_mutation [OF inv UnassignRole_attempted [OF unassign_role(3)]], goal_cases)
    case (1 x s')
    then show ?case using pg.unassignRole_refines [OF 1(2) refl 1(3,4)] by blast
  qed
qed

lemma pg_bootstrap_outcome:
  assumes "BootstrapTenant m (pg_tx (ss_fault ss) (bi_tenant input)) (pg_mutator st ss) authorizer clk input s = (res, s')"
    and inv: "pg_inv m s"
  shows "pg_outcome m (bi_tenant input) (bootstrap_step m (bi_tenant input) (bi_owner input)) (acknowledged ss) s
    (\<not> isl res) s'"
proof -
  from BootstrapTenant_attempted [OF assms(1)] obtain provenance gm where
    run: "attempted (pg_mutator st ss) (bi_tenant input) (validateBootstrapInput input = Inr () \<and>
     efold (owner_grant (mg_catalog m) (bi_role input)) (bi_grants input) [] = Inr gm \<and>
     has_controls (mg_controls m) gm = Inr ())
    (bootstrap_tx (pg_tx (ss_fault ss) (bi_tenant input)) clk provenance input (owner_role input) (map snd gm))
    s (\<not> isl res) s'" by blast
  show ?thesis
  proof (rule pg_mutation [OF inv _ _ run], goal_cases)
    case (1 x s')
    then show ?case using pg.bootstrap_refines [OF 1(2) refl 1(3)] by blast
  next
    case (2 p p')
    then show ?case using bootstrap_policy_ok by blast
  qed
qed

section \<open>Maintenance\<close>

definition purge_rows :: "tenant_id \<Rightarrow> 'z tables_scheme \<Rightarrow> 'z tables_scheme" where
  "purge_rows t s = s
     \<lparr>db_versions := sql_delete (\<lambda>v. rv_tenant v = t) (db_versions s),
      db_edges := sql_delete (\<lambda>e. ge_tenant e = t) (db_edges s),
      db_bindings := sql_delete (\<lambda>b. sg_tenant b = t) (db_bindings s),
      db_grants := sql_delete (\<lambda>row. fst row = t) (db_grants s),
      db_audit := sql_delete (\<lambda>e. ae_tenant e = t) (db_audit s),
      db_roles := sql_delete (\<lambda>r. ro_tenant r = t) (db_roles s)\<rparr>"

lemma purge_statements_run:
  "efold (\<lambda>(q, f) s. pg_call fault q s (Inr (f s))) (purge_statements t) s = Inr s' \<Longrightarrow> s' = purge_rows t s"
  by (auto simp: purge_statements_def err_simps pg_call_Inr purge_rows_def)

lemma row_at_purge:
  assumes "\<And>r. key r = k \<Longrightarrow> home r = fst k"
  shows "row_at key k (sql_delete (\<lambda>r. home r = t) rows) = (if fst k = t then None else row_at key k rows)"
  by (rule row_at_delete) (use assms in auto)

lemma pg_policy_purge_rows:
  "pg_policy u (purge_rows t s) =
     (if u = t then empty_policy\<lparr>po_bootstrapped := pg_bootstrapped t (db_state s)\<rparr> else pg_policy u s)"
proof (cases "u = t")
  case True
  have "edge_key_of ` {e. (e \<in> set (db_edges s) \<and> ge_tenant e \<noteq> t) \<and> ge_tenant e = t} = {}" by blast
  with True show ?thesis
    by (simp add: pg_policy_def purge_rows_def empty_policy_def fun_eq_iff in_sql_delete sql_delete_def
        row_at_None role_key_def binding_key_def version_key_def grant_row_key_def image_iff filter_empty_conv)
next
  case False
  have "row_at role_key (u, r) (sql_delete (\<lambda>r. ro_tenant r = t) (db_roles s)) = row_at role_key (u, r) (db_roles s)" for r
    using False by (subst row_at_purge) (auto simp: role_key_def)
  moreover have "row_at grant_row_key (u, r, k) (sql_delete (\<lambda>row. fst row = t) (db_grants s)) =
      row_at grant_row_key (u, r, k) (db_grants s)" for r k
    using False by (subst row_at_purge) (auto simp: grant_row_key_def)
  moreover have "row_at binding_key (u, v, r) (sql_delete (\<lambda>b. sg_tenant b = t) (db_bindings s)) =
      row_at binding_key (u, v, r) (db_bindings s)" for v r
    using False by (subst row_at_purge) (auto simp: binding_key_def)
  moreover have "row_at version_key (u, r, n) (sql_delete (\<lambda>v. rv_tenant v = t) (db_versions s)) =
      row_at version_key (u, r, n) (db_versions s)" for r n
    using False by (subst row_at_purge) (auto simp: version_key_def)
  moreover have "{e. (e \<in> set (db_edges s) \<and> ge_tenant e \<noteq> t) \<and> ge_tenant e = u} = {e \<in> set (db_edges s). ge_tenant e = u}"
    using False by blast
  moreover have "filter (\<lambda>e. ae_tenant e = u) (sql_delete (\<lambda>e. ae_tenant e = t) (db_audit s)) =
      filter (\<lambda>e. ae_tenant e = u) (db_audit s)"
    using False unfolding sql_delete_def filter_filter by (rule_tac filter_cong) auto
  ultimately show ?thesis using False by (simp add: pg_policy_def purge_rows_def in_sql_delete)
qed

lemma tables_ok_purge_rows: "tables_ok s \<Longrightarrow> tables_ok (purge_rows t s)"
proof -
  assume ok: "tables_ok s"
  have "role_refs (purge_rows t s) \<subseteq> role_key ` set (db_roles (purge_rows t s))"
  proof
    fix k assume "k \<in> role_refs (purge_rows t s)"
    then have "k \<in> role_refs s" "fst k \<noteq> t"
      by (auto simp: role_refs_def purge_rows_def in_sql_delete)
    with ok obtain r where "r \<in> set (db_roles s)" "k = role_key r" by (auto simp: tables_ok_def)
    with \<open>fst k \<noteq> t\<close> show "k \<in> role_key ` set (db_roles (purge_rows t s))"
      by (auto simp: purge_rows_def in_sql_delete role_key_def)
  qed
  with ok show ?thesis
    by (auto simp: tables_ok_def purge_rows_def keyed_delete list_all_iff in_sql_delete)
qed

lemma row_at_mark_purged:
  "row_at tr_tenant u (mark_purged t at rows) =
     (if u = t then Some (case row_at tr_tenant t rows of
         None \<Rightarrow> \<lparr>tr_tenant = t, tr_bootstrapped = False, tr_initiator = [], tr_boot_at = None,
           tr_purged = True, tr_purged_at = Some at\<rparr>
       | Some r \<Rightarrow> r\<lparr>tr_bootstrapped := False, tr_purged := True, tr_purged_at := Some at\<rparr>)
      else row_at tr_tenant u rows)"
proof (cases "sql_exists (\<lambda>r. tr_tenant r = t) rows")
  case True
  then obtain r where r: "row_at tr_tenant t rows = Some r"
    by (cases "row_at tr_tenant t rows") (auto simp: row_at_None sql_exists_def)
  have at: "row_at tr_tenant u (mark_purged t at rows) = map_option (\<lambda>r. if tr_tenant r = t
      then r\<lparr>tr_bootstrapped := False, tr_purged := True, tr_purged_at := Some at\<rparr> else r) (row_at tr_tenant u rows)"
    using True unfolding mark_purged_def by (simp, subst row_at_update) simp_all
  show ?thesis unfolding at using r row_at_in [OF r] by (cases "row_at tr_tenant u rows") (auto dest: row_at_in)
next
  case False
  then have new: "t \<notin> tr_tenant ` set rows" by (auto simp: sql_exists_def)
  with False show ?thesis
    by (simp add: mark_purged_def row_at_insert row_at_None [THEN iffD2, OF new] eq_commute [of t])
qed

lemma keyed_mark_purged: "keyed tr_tenant rows \<Longrightarrow> keyed tr_tenant (mark_purged t at rows)"
  by (auto simp: mark_purged_def sql_exists_def intro!: keyed_update keyed_insert)

lemma pg_policy_rows_only: "pg_policy t (s\<lparr>db_purges := rows\<rparr>) = pg_policy t s"
  by (simp add: pg_policy_def)

lemma pg_policy_marked:
  "pg_policy u (s\<lparr>db_purges := ps, db_state := mark_purged t at (db_state s)\<rparr>) =
     (if u = t then (pg_policy t s)\<lparr>po_bootstrapped := False\<rparr> else pg_policy u s)"
  by (simp add: pg_policy_def pg_bootstrapped_def row_at_mark_purged split: option.splits)

lemma pg_purged_marked: "pg_purged u (mark_purged t at rows) \<longleftrightarrow> u = t \<or> pg_purged u rows"
  by (simp add: pg_purged_def row_at_mark_purged split: option.splits)

lemma pg_purge_cases:
  assumes run: "pg_purge fault t event s = Inr (r, s')" and inv: "pg_inv m s"
  shows "(s' = s \<and> pg_already_committed r \<and> \<not> pg_changed r \<and> pg_purged t (db_state s)) \<or>
    (\<not> pg_purged t (db_state s) \<and> pg_canonical_event r = event \<and> pg_changed r \<and> \<not> pg_already_committed r \<and>
     s' = (purge_rows t s)\<lparr>db_purges := db_purges s @ [purge_row_of t event],
       db_state := mark_purged t (ae_at event) (db_state s)\<rparr> \<and>
     purge_key (purge_row_of t event) \<notin> purge_key ` set (db_purges s))"
proof (cases "sql_exists (\<lambda>p. purge_key p = (t, ae_request_id event)) (db_purges s)")
  case True
  then obtain p where "p \<in> set (db_purges s)" "pu_tenant p = t" by (auto simp: sql_exists_def purge_key_def)
  with inv have "pg_purged t (db_state s)" by (auto simp: pg_inv_def)
  with True run show ?thesis
    by (auto simp: pg_purge_def tenantPurgeLedgerExists_def pg_call_Inr err_simps)
next
  case False
  have state: "db_state (purge_rows t s) = db_state s" "db_purges (purge_rows t s) = db_purges s"
    by (simp_all add: purge_rows_def)
  have purged: "pg_purged_row fault t s = Inr c \<Longrightarrow> c = pg_purged t (db_state s)" for c
    by (auto simp: pg_purged_row_def pg_call_Inr sql_row_at pg_purged_def split: option.splits)
  from False run show ?thesis
    by (auto simp: pg_purge_def tenantPurgeLedgerExists_def pg_call_Inr err_simps Let_def state sql_simps
        dest!: purge_statements_run purged split: if_splits)
qed

lemma pg_purge_inv:
  assumes run: "pg_purge fault t event s = Inr (r, s')" and inv: "pg_inv m s"
  shows "pg_inv m s' \<and> tables.more s' = tables.more s \<and> (\<forall>u. u \<noteq> t \<longrightarrow> same_tenant_rows u s s') \<and>
    pg_purged t (db_state s')"
proof (cases "pg_purged t (db_state s)")
  case True
  with pg_purge_cases [OF assms] inv show ?thesis by (simp add: same_tenant_rows_def)
next
  case False
  with pg_purge_cases [OF assms] have s': "s' = (purge_rows t s)\<lparr>db_purges := db_purges s @ [purge_row_of t event],
       db_state := mark_purged t (ae_at event) (db_state s)\<rparr>"
    and new: "purge_key (purge_row_of t event) \<notin> purge_key ` set (db_purges s)" by auto
  have state: "db_state (purge_rows t s) = db_state s" by (simp add: purge_rows_def)
  have pol: "pg_policy u s' = (if u = t then empty_policy else pg_policy u s)" for u
    unfolding s' state [symmetric] pg_policy_marked pg_policy_purge_rows by (simp add: empty_policy_def)
  have purged: "pg_purged u (db_state s') \<longleftrightarrow> u = t \<or> pg_purged u (db_state s)" for u
    by (simp add: s' pg_purged_marked)
  have ledger: "(\<exists>p \<in> set (db_purges s'). pu_tenant p = u) \<longleftrightarrow> u = t \<or> (\<exists>p \<in> set (db_purges s). pu_tenant p = u)" for u
    by (auto simp: s' purge_row_of_def)
  have "tables_ok s"  using inv by (simp add: pg_inv_def)
  from tables_ok_purge_rows [OF this, of t] this new have "tables_ok s'"
    by (auto simp: s' tables_ok_def keyed_mark_purged role_refs_def intro: keyed_insert)
  with pol purged ledger inv have "pg_inv m s'"
    by (simp add: pg_inv_def policy_ok_empty)
  with pol purged show ?thesis
    by (simp add: same_tenant_rows_def) (simp add: s' purge_rows_def)
qed

lemma pg_maintainer_cases:
  assumes "pg_maintainer st ss t body s = (res, s')"
  shows "isl res \<and> s' = s \<or> (\<exists>x. body s = Inr (x, s') \<and> (res = Inr x \<or> isl res \<and> \<not> acknowledged ss))"
proof (cases "validateOpaqueID t = Inr () \<and> st_maintenance st \<noteq> None")
  case True
  then obtain secret where secret: "st_maintenance st = Some secret" by auto
  let ?r = "ebind (frame_call ss ''begin'') (\<lambda>_.
             ebind (frame_call ss ''isolation'') (\<lambda>_.
             ebind (bindTenant ss t secret) (\<lambda>_.
             ebind (frame_call ss ''advisory_lock'') (\<lambda>_. body s))))"
  from True secret assms have "pg_frame_run ss (fmtErr ''commit'') ?r s = (res, s')"
    by (simp add: pg_maintainer_def pg_MaintainTenant_def)
  from pg_frame_run_cases [OF this] show ?thesis by (auto simp: err_simps)
next
  case False
  with assms show ?thesis by (auto simp: pg_maintainer_def pg_MaintainTenant_def split: option.splits if_splits)
qed

text \<open>
  What a maintenance call may do to the tables: nothing, or purge the tenant.
\<close>

definition purge_effect :: "manager \<Rightarrow> tenant_id \<Rightarrow> 'z tables_scheme \<Rightarrow> 'z tables_scheme \<Rightarrow> bool" where
  "purge_effect m t s s' = (pg_inv m s' \<and> tables.more s' = tables.more s \<and>
     (\<forall>u. u \<noteq> t \<longrightarrow> same_tenant_rows u s s') \<and> (s' = s \<or> pg_purged t (db_state s')))"

lemma pg_export_outcome:
  assumes "ExportTenant (pg_maintainer st ss) auth (pg_maintenance render fault t) t s = (res, s')"
  shows "s' = s"
proof (cases "ebind (validateOpaqueID t) (\<lambda>_. auth t ''export'')")
  case (Inl e)
  with assms show ?thesis by (simp add: ExportTenant_def)
next
  case (Inr y)
  with assms have "pg_maintainer st ss t
      (\<lambda>s. ebind (mt_export (pg_maintenance render fault t) s) (\<lambda>data. Inr (data, s))) s = (res, s')"
    by (simp add: ExportTenant_def)
  from pg_maintainer_cases [OF this] show ?thesis by (auto simp: err_simps)
qed

lemma pg_purge_outcome:
  assumes run: "PurgeTenant (pg_maintainer st ss) auth (pg_maintenance render fault t) sink clk t meta s a =
      (res, s', a')"
    and inv: "pg_inv m s"
  shows "purge_effect m t s s' \<and> (\<not> isl res \<longrightarrow> pg_purged t (db_state s'))"
proof (cases "ebind (validatePurge t meta) (\<lambda>_. auth t ''purge'')")
  case (Inl e)
  with run inv show ?thesis by (auto simp: PurgeTenant_def purge_effect_def same_tenant_rows_def)
next
  case (Inr provenance)
  let ?intent = "purge_intent clk provenance t meta"
  obtain f1 a1 where s1: "sink ?intent a = (f1, a1)" by (cases "sink ?intent a")
  obtain r s1' where call: "pg_maintainer st ss t (pg_purge fault t ?intent) s = (r, s1')" by (metis prod.exhaust)
  have effect: "purge_effect m t s s1' \<and> (\<not> isl r \<longrightarrow> pg_purged t (db_state s1'))"
    using pg_maintainer_cases [OF call] pg_purge_inv [OF _ inv, of fault t ?intent] inv
    by (auto simp: purge_effect_def same_tenant_rows_def)
  show ?thesis
  proof (cases "f1 = None")
    case False
    with run Inr s1 inv show ?thesis by (auto simp: PurgeTenant_def Let_def purge_effect_def same_tenant_rows_def)
  next
    case True
    with run Inr s1 call have "s' = s1' \<and> (isl r \<longrightarrow> isl res)"
      by (auto simp: PurgeTenant_def Let_def pg_maintenance_def split: sum.splits prod.splits if_splits)
    with effect show ?thesis by auto
  qed
qed

section \<open>Steps and runs\<close>

inductive pg_step ::
  "manager \<Rightarrow> 'a audit_sink \<Rightarrow> tenant_id \<Rightarrow> 'z tables_scheme \<times> 'a \<Rightarrow> 'z tables_scheme \<times> 'a \<Rightarrow> bool" for m sink where
  manage: "pg_manager_call m sink actor ack success c c' \<Longrightarrow> pg_step m sink (pr_tenant actor) c c'"
| bootstrap:
    "BootstrapTenant m (pg_tx (ss_fault ss) (bi_tenant input)) (pg_mutator st ss) bootstrap_auth clk input s =
       (res, s') \<Longrightarrow> pg_step m sink (bi_tenant input) (s, a) (s', a)"
| export:
    "ExportTenant (pg_maintainer st ss) auth (pg_maintenance render (ss_fault ss) t) t s = (eres, s') \<Longrightarrow>
     pg_step m sink t (s, a) (s', a)"
| purge:
    "PurgeTenant (pg_maintainer st ss) auth (pg_maintenance render (ss_fault ss) t) sink clk t meta s a =
       (pres, s', a') \<Longrightarrow> pg_step m sink t (s, a) (s', a')"

definition pg_run :: "manager \<Rightarrow> 'a audit_sink \<Rightarrow> 'z tables_scheme \<times> 'a \<Rightarrow> 'z tables_scheme \<times> 'a \<Rightarrow> bool" where
  "pg_run m sink = (\<lambda>c c'. \<exists>t. pg_step m sink t c c')\<^sup>*\<^sup>*"

definition empty_tables :: tables where
  "empty_tables = \<lparr>db_roles = [], db_grants = [], db_bindings = [], db_edges = [], db_versions = [],
     db_audit = [], db_state = [], db_purges = []\<rparr>"

lemma pg_inv_empty: "pg_inv m empty_tables"
proof -
  have "pg_policy t empty_tables = empty_policy" for t
    by (simp add: pg_policy_def empty_tables_def empty_policy_def pg_bootstrapped_def)
  then show ?thesis
    by (simp add: pg_inv_def policy_ok_empty del: pg_policy_simps)
      (simp add: tables_ok_def empty_tables_def pg_purged_def role_refs_def)
qed

lemma pg_outcome_effect:
  "pg_outcome m t step ack s success s' \<Longrightarrow> pg_inv m s' \<and> (\<forall>u. u \<noteq> t \<longrightarrow> same_tenant_rows u s s') \<and>
     (pg_purged t (db_state s) \<longrightarrow> s' = s)"
  by (auto simp: pg_outcome_def Let_def split: if_splits)

lemma pg_step_outcome:
  assumes "pg_step m sink t (s, a) (s', a')" and inv: "pg_inv m s"
  shows "pg_inv m s' \<and> (\<forall>u. u \<noteq> t \<longrightarrow> same_tenant_rows u s s') \<and>
    (pg_purged t (db_state s) \<longrightarrow> same_tenant_rows t s s')"
  using assms(1)
proof cases
  case (manage actor ack success)
  from pg_outcome_effect [OF pg_manager_call_outcome [OF manage(2) inv]] manage(1) show ?thesis
    by (simp add: same_tenant_rows_def)
next
  case (bootstrap ss input st bootstrap_auth clk res)
  from pg_outcome_effect [OF pg_bootstrap_outcome [OF bootstrap(3) inv]] bootstrap(1) show ?thesis
    by (simp add: same_tenant_rows_def)
next
  case (export st ss auth render eres)
  from pg_export_outcome [OF export(2)] inv show ?thesis by (simp add: same_tenant_rows_def)
next
  case (purge st ss auth render clk meta pres)
  from pg_purge_outcome [OF purge inv] inv show ?thesis by (auto simp: purge_effect_def same_tenant_rows_def pg_inv_def)
qed

lemma pg_run_inv:
  assumes "pg_run m sink (s, a) (s', a')" and "pg_inv m s"
  shows "pg_inv m s' \<and> (\<forall>t. pg_purged t (db_state s) \<longrightarrow> pg_purged t (db_state s'))"
  using assms unfolding pg_run_def
proof (induction "(s', a')" arbitrary: s' a' rule: rtranclp_induct)
  case base
  then show ?case by simp
next
  case (step c)
  obtain s1 a1 where c: "c = (s1, a1)" by (cases c)
  from step(2) c obtain u where u: "pg_step m sink u (s1, a1) (s', a')" by blast
  from step c have "pg_inv m s1" "\<forall>t. pg_purged t (db_state s) \<longrightarrow> pg_purged t (db_state s1)" by simp_all
  with pg_step_outcome [OF u] show ?case by (metis same_tenant_rows_def)
qed

end
