(* ===== verification/CoreSteps.thy ===== *)
theory CoreSteps
  imports CoreRules PgKernel
begin

text \<open>
  Every transaction of the application is a sequence of the abstract changes of \<open>CoreRules\<close>. \<open>leads\<close>
  says so of the body of a transaction; its rules follow the statements of the code. \<open>draws\<close> collects
  the digests of the tokens a request draws.
\<close>

named_theorems leads_rules \<open>how the body of a transaction changes the tables\<close>

definition leads :: "string set \<Rightarrow> core_db \<Rightarrow> error + 'r \<times> core_db \<Rightarrow> bool" where
  "leads I s m \<longleftrightarrow> (\<forall>x s'. m = Inr (x, s') \<longrightarrow> (change I)\<^sup>*\<^sup>* s s')"

definition draws :: "service \<Rightarrow> request \<Rightarrow> string set \<Rightarrow> bool" where
  "draws sv rq I \<longleftrightarrow> (\<forall>i p n token. randomID rq i p n = Inr token \<longrightarrow> tokenHash sv token \<in> I)"

section \<open>Bodies\<close>

lemma leads_Inl [leads_rules]: "leads I s (Inl e)"
  by (simp add: leads_def)

lemma leads_done [leads_rules]: "leads I s (Inr (x, s))"
  by (simp add: leads_def)

lemma leads_if [leads_rules]: "(b \<Longrightarrow> leads I s m) \<Longrightarrow> (\<not> b \<Longrightarrow> leads I s n) \<Longrightarrow> leads I s (if b then m else n)"
  by simp

lemma leads_read: "(\<And>x. m = Inr x \<Longrightarrow> leads I s (f x)) \<Longrightarrow> leads I s (ebind m f)"
  by (auto simp: leads_def err_simps)

lemma leads_after: "(change I)\<^sup>*\<^sup>* s s1 \<Longrightarrow> leads I s1 m \<Longrightarrow> leads I s m"
  unfolding leads_def by (blast intro: rtranclp_trans)

lemma leads_run:
  "(\<And>s1. m = Inr s1 \<Longrightarrow> (change I)\<^sup>*\<^sup>* s s1) \<Longrightarrow> (\<And>s1. m = Inr s1 \<Longrightarrow> leads I s1 (f s1)) \<Longrightarrow> leads I s (ebind m f)"
  by (metis leads_after leads_read)

lemma leads_bind:
  "leads I s m \<Longrightarrow> (\<And>x s1. m = Inr (x, s1) \<Longrightarrow> leads I s1 (f (x, s1))) \<Longrightarrow> leads I s (ebind m f)"
proof (rule leads_read)
  fix y
  assume "leads I s m" and k: "\<And>x s1. m = Inr (x, s1) \<Longrightarrow> leads I s1 (f (x, s1))" and m: "m = Inr y"
  obtain x s1 where y: "y = (x, s1)" by (cases y)
  from \<open>leads I s m\<close> m y have "(change I)\<^sup>*\<^sup>* s s1" by (simp add: leads_def)
  from leads_after [OF this k] m y show "leads I s (f y)" by simp
qed

lemma stmt_Inr [err_simps]: "stmt ss q s r = Inr x \<longleftrightarrow> ss_fault ss q s = None \<and> r = Inr x"
  by (auto simp: stmt_def split: option.splits sum.splits)

lemma leads_write: "change I s s1 \<Longrightarrow> leads I s1 (f s1) \<Longrightarrow> leads I s (ebind (stmt ss q s0 (Inr s1)) f)"
  by (rule leads_run) (auto simp: stmt_Inr)

lemma on_no_rows_Inr [err_simps]: "on_no_rows e r = Inr x \<longleftrightarrow> r = Inr x"
  by (cases r) (simp_all add: on_no_rows_def)

section \<open>Frames\<close>

lemma frame_run_snd:
  assumes "leads I s r"
  shows "(change I)\<^sup>*\<^sup>* s (snd (pg_frame_run ss wrap r s))"
proof -
  obtain res s' where run: "pg_frame_run ss wrap r s = (res, s')" by fastforce
  from pg_frame_run_cases [OF run] assms show ?thesis by (auto simp: run leads_def)
qed

lemma pool_tx_leads:
  assumes "leads I s (body s)"
  shows "(change I)\<^sup>*\<^sup>* s (snd (pool_tx ss body s))"
proof -
  have "leads I s (ebind (case ss_error ss ''begin'' of None \<Rightarrow> Inr () | Some e \<Rightarrow> Inl (sql_fail e)) (\<lambda>_. body s))"
    using assms by (intro leads_read) simp
  from frame_run_snd [OF this, of ss sql_fail] show ?thesis by (simp add: pool_tx_def split_beta)
qed

lemma pool_exec_leads:
  assumes "\<And>x s'. f s = Inr (x, s') \<Longrightarrow> (change I)\<^sup>*\<^sup>* s s'"
  shows "(change I)\<^sup>*\<^sup>* s (snd (pool_exec ss q f s))"
  unfolding pool_exec_def by (rule frame_run_snd) (use assms in \<open>auto simp: leads_def stmt_Inr\<close>)

lemma run_tenant_leads:
  assumes "leads I s (f s)"
  shows "(change I)\<^sup>*\<^sup>* s (snd (RunTenant st ss t ro (Some f) s))"
  unfolding RunTenant_def
  by (auto intro!: frame_run_snd leads_read leads_bind [OF assms] leads_if leads_Inl leads_done)

lemma run_actor_leads:
  assumes "leads I s (f s)"
  shows "(change I)\<^sup>*\<^sup>* s (snd (runActor st ss account ro (Some f) s))"
  unfolding runActor_def
  by (auto intro!: frame_run_snd leads_read leads_bind [OF assms] leads_if leads_Inl leads_done)

section \<open>Shared statements\<close>

lemma revoke_access_update: "access_update (\<lambda>r. r\<lparr>as_revoked := coalesce (as_revoked r) now\<rparr>)"
  by (simp add: access_update_def coalesce_def split: option.splits)

lemma change_revoke_access: "change I s (revoke_access P now s)"
  unfolding revoke_access_def by (rule change.access [OF revoke_access_update])

lemma change_revoke_refresh: "change I s (revoke_refresh P now s)"
  unfolding revoke_refresh_def
  by (rule change.refresh) (simp add: refresh_end_def coalesce_def split: option.splits)

lemma change_audit: "change I s (s\<lparr>db_audit := events\<rparr>)"
  using change.log [where s = s and events = events and accounts = "db_operator_recoveries s"] by simp

lemma tenantAudit_leads: "tenantAudit ss event s = Inr s1 \<Longrightarrow> (change I)\<^sup>*\<^sup>* s s1"
  by (auto simp: tenantAudit_def stmt_Inr change_audit)

lemma leads_audit [leads_rules]: "leads I s (ebind (tenantAudit ss event s) (\<lambda>s. Inr (x, s)))"
  by (rule leads_run, erule tenantAudit_leads, rule leads_done)

lemma count_failure_update: "account_update (count_failure locked_until updated)"
  by (auto simp: account_update_def count_failure_def)

lemma failedPassword_leads: "failedPassword ss now1 now2 account s = Inr s1 \<Longrightarrow> (change I)\<^sup>*\<^sup>* s s1"
  by (auto simp: failedPassword_def stmt_Inr change.accounts [OF count_failure_update])

lemma revokeCredentialSessions_leads:
  "revokeCredentialSessions ss now account s = Inr s3 \<Longrightarrow> (change I)\<^sup>*\<^sup>* s s3"
proof -
  assume run: "revokeCredentialSessions ss now account s = Inr s3"
  let ?s1 = "revoke_access (\<lambda>r. as_account r = account \<and> as_revoked r = None) now s"
  let ?s2 = "?s1\<lparr>db_refresh := sql_update
         (\<lambda>r. rs_account r = account \<and> (rs_revoked r = None \<or> rs_rotated r \<noteq> None))
         (\<lambda>r. r\<lparr>rs_revoked := coalesce (rs_revoked r) now, rs_rotated := None\<rparr>) (db_refresh ?s1)\<rparr>"
  let ?P = "\<lambda>r. rc_account r = account \<and> rc_consumed r = None \<and> rc_revoked r = None"
  from run have s3: "s3 = ?s2\<lparr>db_recoveries := sql_update ?P (\<lambda>r. r\<lparr>rc_revoked := Some now\<rparr>) (db_recoveries ?s2)\<rparr>"
    by (simp add: revokeCredentialSessions_def err_simps)
  have "change I s ?s1" by (rule change_revoke_access)
  moreover have "change I ?s1 ?s2"
    by (rule change.refresh) (simp add: refresh_end_def coalesce_def split: option.splits)
  moreover have "change I ?s2 s3" unfolding s3
    by (rule change.recovery) (simp add: recovery_end_def pending_recovery_def)
  ultimately show ?thesis by (meson converse_rtranclp_into_rtranclp r_into_rtranclp)
qed

end
