(* ===== verification/CoreTransactions.thy ===== *)
theory CoreTransactions
  imports CoreSteps
begin

text \<open>
  The transactions of the application, one lemma each: from tables that keep the invariant, the tables
  afterwards (after a rollback, a commit or an unacknowledged commit) are reached by the changes of
  \<open>CoreRules\<close>.
\<close>

section \<open>Sessions\<close>

lemma login_success_update:
  "account_update (\<lambda>a. a\<lparr>ac_failed := 0, ac_locked := None, ac_last_login := l, ac_updated := u\<rparr>)"
  by (simp add: account_update_def)

lemma record_failed_login_leads: "(change I)\<^sup>*\<^sup>* s (snd (record_failed_login rq now account s))"
  unfolding record_failed_login_def
  by (rule pool_exec_leads) (auto intro: change.accounts [OF count_failure_update])

lemma sql_row_ids: "sql_row (\<lambda>a. ac_id a = account) (db_accounts s) = Inr a \<Longrightarrow> account \<in> account_ids s"
  by (auto dest: sql_row_Inr)

lemma leads_change: "change I s s1 \<Longrightarrow> leads I s1 m \<Longrightarrow> leads I s m"
  by (blast intro: leads_after)

lemma leads_insert_access:
  assumes "as_hash row \<in> I" and "as_account row \<in> account_ids s"
    and "\<And>rows. leads I (s\<lparr>db_access := rows\<rparr>) (f rows)"
  shows "leads I s (ebind (stmt ss q s (sql_insert as_hash row (db_access s))) f)"
  by (rule leads_read, rule leads_change, rule change.new_access)
    (use assms in \<open>auto simp: stmt_Inr\<close>)

lemma leads_insert_refresh:
  assumes "rs_hash row \<in> I" and "rs_account row \<in> account_ids s" and "rs_rotated row = None"
    and "\<forall>r \<in> set (db_refresh s). rs_revoked r = None \<longrightarrow> (rs_account r, rs_family r) \<noteq> (rs_account row, rs_family row)"
    and "\<And>rows. leads I (s\<lparr>db_refresh := rows\<rparr>) (f rows)"
  shows "leads I s (ebind (stmt ss q s (sql_insert rs_hash row (db_refresh s))) f)"
  by (rule leads_read, rule leads_change, rule change.new_refresh)
    (use assms in \<open>auto simp: stmt_Inr\<close>)

definition fresh_family :: "request \<Rightarrow> core_db \<Rightarrow> bool" where
  "fresh_family rq s \<longleftrightarrow> (\<forall>family. randomID rq 2 ''ses_'' 18 = Inr family \<longrightarrow> family \<notin> rs_family ` set (db_refresh s))"

lemma issueSession_leads:
  assumes "draws sv rq I" and "fresh_family rq s"
  shows "(change I)\<^sup>*\<^sup>* s (snd (issueSession sv rq account remote agent verifiedHash s))"
proof (cases "ebind (randomID rq 0 ''as_'' 32) (\<lambda>access.
           ebind (randomID rq 1 ''rs_'' 40) (\<lambda>refresh.
           ebind (randomID rq 2 ''ses_'' 18) (\<lambda>family. Inr (access, refresh, family))))")
  case (Inl e)
  then show ?thesis by (simp add: issueSession_def)
next
  case (Inr drawn)
  obtain access refresh family where d: "drawn = (access, refresh, family)" by (cases drawn)
  from Inr d have rand: "randomID rq 0 ''as_'' 32 = Inr access" "randomID rq 1 ''rs_'' 40 = Inr refresh"
    "randomID rq 2 ''ses_'' 18 = Inr family" by (auto simp: err_simps)
  with assms have tok: "tokenHash sv access \<in> I" "tokenHash sv refresh \<in> I"
    and fam: "\<forall>r \<in> set (db_refresh s). rs_family r \<noteq> family"
    by (auto simp: draws_def fresh_family_def)
  show ?thesis unfolding issueSession_def Inr d sum.case prod.case Let_def
    apply (rule pool_tx_leads)
    apply (rule leads_read)
    apply (rule leads_if, rule leads_Inl, rule leads_if, rule leads_Inl)
    apply (rule leads_write, rule change.accounts [OF login_success_update])
    apply (rule leads_insert_access)
      apply (simp add: tok)
     apply (simp add: keys_update stmt_Inr sql_row_ids)
    apply (rule leads_insert_refresh)
        apply (simp add: tok)
       apply (simp add: keys_update stmt_Inr sql_row_ids)
      apply simp
     apply (simp add: fam)
    apply (rule leads_done)
    done
qed

text \<open>Rotation leaves no live token in the family of the old one.\<close>

lemma rotation_clears:
  assumes "core_inv s" and "sql_row (\<lambda>r. rs_hash r = digest) (db_refresh s) = Inr r" and "rs_revoked r = None"
    and "q \<in> set (sql_update (\<lambda>r. rs_hash r = digest \<and> rs_revoked r = None \<and> rs_rotated r = None)
      (\<lambda>r. r\<lparr>rs_revoked := Some now, rs_rotated := rotated\<rparr>) (db_refresh s))" and "rs_revoked q = None"
  shows "(rs_account q, rs_family q) \<noteq> (rs_account r, rs_family r)"
proof
  assume same: "(rs_account q, rs_family q) = (rs_account r, rs_family r)"
  from assms(1) have ok: "open_keyed (\<lambda>r. rs_revoked r = None) (\<lambda>r. (rs_account r, rs_family r)) (db_refresh s)"
    and rot: "\<forall>r \<in> set (db_refresh s). rs_rotated r \<noteq> None \<longrightarrow> rs_revoked r \<noteq> None"
    by (simp_all add: core_inv_def sessions_ok_def)
  from sql_row_Inr [OF assms(2)] have r: "r \<in> set (db_refresh s)" "rs_hash r = digest" by simp_all
  with rot assms(3) have "rs_rotated r = None" by blast
  from assms(4) obtain p where p: "p \<in> set (db_refresh s)"
    and q: "q = (if rs_hash p = digest \<and> rs_revoked p = None \<and> rs_rotated p = None
      then p\<lparr>rs_revoked := Some now, rs_rotated := rotated\<rparr> else p)" by (auto simp: in_sql_update)
  with assms(5) have "q = p" by (auto split: if_splits)
  with open_keyed_same [OF ok p r(1)] assms(3,5) same have "q = r" by simp
  with q \<open>rs_rotated r = None\<close> r(2) assms(3) \<open>q = p\<close>
  have "q = r\<lparr>rs_revoked := Some now, rs_rotated := rotated\<rparr>" by simp
  then have "rs_revoked q = Some now" by simp
  with assms(5) show False by simp
qed

lemma Refresh_leads:
  assumes "draws sv rq I" and "core_inv s"
  shows "(change I)\<^sup>*\<^sup>* s (snd (Refresh sv rq input s))"
proof (cases "\<not> has_prefix (ri_token input) ''rs_'' \<or> length (ri_token input) > 160")
  case True
  then show ?thesis by (simp add: Refresh_def)
next
  case long: False
  show ?thesis
  proof (cases "ebind (randomID rq 0 ''as_'' 32) (\<lambda>access.
            ebind (randomID rq 1 ''rs_'' 40) (\<lambda>nextRefresh. Inr (access, nextRefresh)))")
    case (Inl e)
    with long show ?thesis by (simp add: Refresh_def)
  next
    case (Inr drawn)
    obtain access token where d: "drawn = (access, token)" by (cases drawn)
    from Inr d assms(1) have tok: "tokenHash sv access \<in> I" "tokenHash sv token \<in> I"
      by (auto simp: err_simps draws_def)
    show ?thesis unfolding Refresh_def if_not_P [OF long] Inr d sum.case prod.case Let_def
      apply (rule pool_tx_leads)
      apply (rule leads_read, rule leads_read)
      apply (simp only: split_paired_all prod.case)
      apply (rule leads_if, rule leads_Inl)
      apply (rule leads_if)
       apply (rule leads_write, rule change_revoke_refresh, rule leads_write, rule change_revoke_access, rule leads_done)
      apply (rule leads_if, rule leads_Inl)
      apply (rule leads_if)
       apply (rule leads_write, rule change.refresh, simp add: refresh_end_def, rule leads_done)
      apply (rule leads_write, rule change.refresh, simp add: refresh_end_def)
      apply (rule leads_insert_access)
        apply (simp add: tok)
       apply (force simp: err_simps dest!: sql_row_Inr)
      apply (rule leads_insert_refresh)
          apply (simp add: tok)
         apply (force simp: err_simps dest!: sql_row_Inr)
        apply simp
       defer
       apply (rule leads_done)
      apply (clarsimp simp: err_simps split del: if_split)
      apply (frule sql_row_Inr, clarsimp)
      apply (drule rotation_clears [OF assms(2)], assumption, assumption, assumption)
      apply (auto dest!: sql_row_Inr)
      done
  qed
qed

lemma touch_session_leads: "(change I)\<^sup>*\<^sup>* s (snd (touch_session rq now digest s))"
  unfolding touch_session_def
  by (rule pool_exec_leads, clarsimp, rule r_into_rtranclp, rule change.access) (simp add: access_update_def)

lemma logoutSessions_leads: "(change I)\<^sup>*\<^sup>* s (snd (logoutSessions sv rq access refresh s))"
proof -
  note body = pool_tx_leads leads_read leads_write [OF change_revoke_access] leads_write [OF change_revoke_refresh] leads_done
  show ?thesis unfolding logoutSessions_def Let_def by (simp split del: if_split split: if_split add: body)
qed

lemma RevokeSession_leads: "(change I)\<^sup>*\<^sup>* s (snd (RevokeSession rq account family s))"
proof (cases "validateOpaqueID family \<noteq> Inr () \<or> length family > 128")
  case True
  then show ?thesis by (simp add: RevokeSession_def)
next
  case False
  show ?thesis unfolding RevokeSession_def if_not_P [OF False] Let_def
    by (rule pool_tx_leads, rule leads_read, rule leads_write, rule change_revoke_access, rule leads_write,
        rule change_revoke_refresh, rule leads_if, rule leads_Inl, rule leads_done)
qed

lemma revokeOtherSessions_leads: "(change I)\<^sup>*\<^sup>* s (snd (revokeOtherSessions sv rq account token s))"
  unfolding revokeOtherSessions_def Let_def
  by (rule pool_tx_leads, rule leads_read, rule leads_read, rule leads_write, rule change_revoke_access,
      rule leads_write, rule change_revoke_refresh, rule leads_done)

section \<open>Accounts\<close>

lemma UpdateProfile_leads: "(change I)\<^sup>*\<^sup>* s (snd (UpdateProfile rq account name s))"
proof -
  have up: "account_update (\<lambda>a. a\<lparr>ac_display := n, ac_updated := u\<rparr>)" for n u
    by (simp add: account_update_def)
  have "(change I)\<^sup>*\<^sup>* s (snd (pool_exec ss q (\<lambda>s. ebind (sql_row P (sql_update P
      (\<lambda>a. a\<lparr>ac_display := n, ac_updated := u\<rparr>) (db_accounts s))) (\<lambda>a. Inr (profile_of a, s\<lparr>db_accounts :=
      sql_update P (\<lambda>a. a\<lparr>ac_display := n, ac_updated := u\<rparr>) (db_accounts s)\<rparr>))) s))" for ss q P n u
    by (rule pool_exec_leads) (auto simp: err_simps change.accounts [OF up])
  then show ?thesis unfolding UpdateProfile_def Let_def by simp
qed

text \<open>A new password, with the end of every session.\<close>

lemma password_update:
  "account_update (\<lambda>a. a\<lparr>ac_hash := h, ac_failed := 0, ac_locked := None, ac_updated := u\<rparr>)"
  by (simp add: account_update_def)

lemma leads_credential:
  assumes "\<And>s1. leads I s1 (f s1)"
  shows "leads I s (ebind (revokeCredentialSessions ss now account s) f)"
  by (rule leads_run, erule revokeCredentialSessions_leads, rule assms)

lemma leads_failed:
  "leads I s (ebind (failedPassword ss now1 now2 account s) (\<lambda>s. Inr (x, s)))"
  by (rule leads_run, erule failedPassword_leads, rule leads_done)

lemma ChangePassword_leads: "(change I)\<^sup>*\<^sup>* s (snd (ChangePassword sv rq entropy account current new s))"
proof (cases "\<not> validBootstrapPassword new \<or> current = new \<or> isl (Hash (sv_idkey sv) entropy (Some core_hasher) new)")
  case True
  then show ?thesis by (auto simp: ChangePassword_def split: sum.splits)
next
  case False
  then obtain hash where h: "Hash (sv_idkey sv) entropy (Some core_hasher) new = Inr hash"
    and ok: "\<not> (\<not> validBootstrapPassword new \<or> current = new)" by (auto split: sum.splits) (metis sum.collapse(2))
  show ?thesis unfolding ChangePassword_def if_not_P [OF ok] h sum.case Let_def
    by (rule pool_tx_leads, rule leads_read, rule leads_if, rule leads_Inl, rule leads_if, rule leads_failed,
        rule leads_write, rule change.accounts [OF password_update], rule leads_credential, rule leads_done)
qed

lemma change_ledger: "change I s (s\<lparr>db_operator_recoveries := accounts\<rparr>)"
  using change.log [where s = s and events = "db_audit s" and accounts = accounts] by simp

lemma RecoverAdministrator_leads: "(change I)\<^sup>*\<^sup>* s (snd (RecoverAdministrator sv rq entropy email password s))"
proof -
  have "leads I s (ebind (on_no_rows ErrNotFound (stmt ss q s r)) (\<lambda>a.
            ebind (stmt ss q1 s (Inr (s\<lparr>db_accounts := sql_update (P a)
              (\<lambda>b. b\<lparr>ac_hash := hash, ac_failed := 0, ac_locked := None, ac_updated := u\<rparr>) (db_accounts s)\<rparr>))) (\<lambda>s.
            ebind (revokeCredentialSessions ss v (ac_id a) s) (\<lambda>s.
            ebind (stmt ss q2 s (Inr (s\<lparr>db_operator_recoveries := db_operator_recoveries s @ [ac_id a]\<rparr>))) (\<lambda>s.
            Inr (Inr (ac_id a), s))))))" for ss q s r q1 P hash u v q2
    by (rule leads_read, rule leads_write, rule change.accounts [OF password_update], rule leads_credential,
        rule leads_write, rule change_ledger, rule leads_done)
  then show ?thesis unfolding RecoverAdministrator_def
    by (auto simp: Let_def split: sum.splits intro!: pool_tx_leads)
qed

lemma prune_rows_Inr:
  "prune_rows ss q s apply_it expires key skip cutoff batch rows = Inr (n, rows') \<Longrightarrow> \<exists>P. rows' = sql_delete P rows"
  by (auto simp: prune_rows_def stmt_Inr Let_def split: if_splits intro: exI [of _ "\<lambda>_. False"] simp: sql_delete_none)

lemma PruneSessions_leads: "(change I)\<^sup>*\<^sup>* s (snd (PruneSessions rq skip o' s))"
proof (cases "validatePruneOptions o'")
  case (Inl e)
  then show ?thesis by (simp add: PruneSessions_def)
next
  case (Inr u)
  have *: "leads I s (ebind (prune_rows ss q s a e k sk c b (db_access s)) (\<lambda>(n, rows). 
      let s = s\<lparr>db_access := rows\<rparr> in
      ebind (prune_rows ss q1 s a e1 k1 sk1 c b (db_refresh s)) (\<lambda>(n1, rows).
      let s = s\<lparr>db_refresh := rows\<rparr> in
      ebind (prune_rows ss q2 s a e2 k2 sk2 c b (db_recoveries s)) (\<lambda>(n2, rows).
      let s = s\<lparr>db_recoveries := rows\<rparr> in Inr (f n n1 n2, s)))))"
    for ss q s a e k sk c b q1 e1 k1 sk1 q2 e2 k2 sk2 and f :: "nat \<Rightarrow> nat \<Rightarrow> nat \<Rightarrow> 'a"
    unfolding leads_def
    by (auto simp: err_simps Let_def split: prod.splits dest!: prune_rows_Inr intro!: r_into_rtranclp change.prune)
  show ?thesis unfolding PruneSessions_def Inr sum.case Let_def
    by (rule pool_tx_leads, rule leads_read) (rule * [unfolded Let_def])
qed

end
