(* ===== verification/CoreMembersTx.thy ===== *)
theory CoreMembersTx
  imports CoreTransactions
begin

text \<open>
  The transactions on organizations, members, invitations and recoveries, and the kernel's mutations
  through the policy store: each is a sequence of the changes of \<open>CoreRules\<close>. The active-administrator
  guards of \<open>ManageMember\<close> and \<open>corePolicyStore.MutateTenant\<close> are what keeps an organization
  administered.
\<close>

section \<open>The active administrator\<close>

lemma hasActiveAdministrator_True:
  assumes "hasActiveAdministrator ss t exclude s = Inr True"
  shows "\<exists>u. u \<noteq> exclude \<and> administers s t u"
proof -
  let ?cs = "filter (\<lambda>(u, g). active_member s t u \<and> u \<noteq> exclude \<and> eg_permission g \<in> set administratorPermissions)
    (joined_grants t s)"
  have "ebind (add_all ?cs []) (\<lambda>c. Inr (coverage_complete administratorPermissions c)) = Inr True"
    using assms by (auto simp: hasActiveAdministrator_def stmt_Inr ebind_eq_Inr add_all_def)
  moreover have ne: "administratorPermissions \<noteq> []" by (simp add: administratorPermissions_def)
  ultimately obtain u where u: "\<forall>p \<in> set administratorPermissions.
      \<exists>g. (u, g) \<in> set ?cs \<and> eg_scope g = ScopeTenant \<and> eg_permission g = p"
    by (auto simp: coverage_run split: if_splits)
  from ne obtain p where "p \<in> set administratorPermissions" by (meson list.set_sel(1))
  with u have "active_member s t u" "u \<noteq> exclude" by auto
  with u show ?thesis unfolding administers_def by (intro exI [of _ u]) auto
qed

section \<open>Statements of the kernel\<close>

text \<open>\<open>others_same t\<close>: no identity table changes, and no policy row of another tenant.\<close>

definition others_same :: "tenant_id \<Rightarrow> core_db \<Rightarrow> core_db \<Rightarrow> bool" where
  "others_same t s s' \<longleftrightarrow> tables.more s' = tables.more s \<and> (\<forall>u. u \<noteq> t \<longrightarrow> joined_grants u s' = joined_grants u s)"

locale framed_tx =
  fixes tx :: "'s tenant_tx" and R :: "'s \<Rightarrow> 's \<Rightarrow> bool"
  assumes same: "R s s"
    and after: "R s s1 \<Longrightarrow> R s1 s2 \<Longrightarrow> R s s2"
    and writes:
      "tx_insert_role tx r s = Inr s' \<Longrightarrow> R s s'"
      "tx_update_role tx r v s = Inr s' \<Longrightarrow> R s s'"
      "tx_tombstone_role tx i v s = Inr s' \<Longrightarrow> R s s'"
      "tx_insert_role_permission_grant tx g s = Inr (b, s') \<Longrightarrow> R s s'"
      "tx_delete_role_permission_grant tx g s = Inr (b, s') \<Longrightarrow> R s s'"
      "tx_insert_subject_role_grant tx sg s = Inr (b, s') \<Longrightarrow> R s s'"
      "tx_delete_subject_role_grant tx u i s = Inr (sgo, s') \<Longrightarrow> R s s'"
      "tx_insert_grant_edge tx ge s = Inr s' \<Longrightarrow> R s s'"
      "tx_delete_grant_edge tx ge s = Inr s' \<Longrightarrow> R s s'"
      "tx_insert_role_version tx rv s = Inr s' \<Longrightarrow> R s s'"
      "tx_insert_mutation_audit tx ev s = Inr s' \<Longrightarrow> R s s'"
      "tx_mark_bootstrapped tx hp s = Inr s' \<Longrightarrow> R s s'"
begin

lemma after_efold:
  assumes "efold f xs s = Inr s'" and "\<And>x s s'. f x s = Inr s' \<Longrightarrow> R s s'"
  shows "R s s'"
  using assms(1) same by (rule efold_invariant) (blast intro: after assms(2))

lemma initial_grants:
  "efold (insert_initial_grant tx r) ps (s, gs) = Inr (s', gs') \<Longrightarrow> R s s'"
proof -
  assume "efold (insert_initial_grant tx r) ps (s, gs) = Inr (s', gs')"
  then have "case (s', gs') of (q, _) \<Rightarrow> R s q"
  proof (rule efold_invariant)
    show "case (s, gs) of (q, _) \<Rightarrow> R s q" by (simp add: same)
    show "case acc' of (q, _) \<Rightarrow> R s q"
      if "case acc of (q, _) \<Rightarrow> R s q" "insert_initial_grant tx r p acc = Inr acc'" for p acc acc'
      using that after [OF _ writes(4)]
      by (auto simp: insert_initial_grant_def err_simps split: prod.splits if_splits)
  qed
  then show "R s s'" by simp
qed

lemma bump: "bumpRoleVersion tx clk r actor v s = Inr s' \<Longrightarrow> R s s'"
  by (auto simp: bumpRoleVersion_def Let_def err_simps dest!: writes) (meson after)

lemma bodies:
  "createRole_tx m tx clk actor meta r s = Inr (x, s') \<Longrightarrow> R s s'"
  "createRoleWithPermissions_tx m tx clk actor meta r ps s = Inr (x, s') \<Longrightarrow> R s s'"
  "updateRole_tx m tx clk actor meta ui s = Inr (y, s') \<Longrightarrow> R s s'"
  "deleteRole_tx m tx clk actor meta di s = Inr (z, s') \<Longrightarrow> R s s'"
  "grantPermission_tx tx clk actor meta gi g s = Inr (z, s') \<Longrightarrow> R s s'"
  "revokePermission_tx m tx clk actor meta gi g s = Inr (z, s') \<Longrightarrow> R s s'"
  "assignRole_tx m tx clk actor meta ai s = Inr (z, s') \<Longrightarrow> R s s'"
  "unassignRole_tx m tx clk actor meta ai s = Inr (z, s') \<Longrightarrow> R s s'"
proof -
  note rules = writes initial_grants bump
  show "createRole_tx m tx clk actor meta r s = Inr (x, s') \<Longrightarrow> R s s'"
    by (auto simp: createRole_tx_def err_simps dest!: rules intro: same) (meson after)+
  show "createRoleWithPermissions_tx m tx clk actor meta r ps s = Inr (x, s') \<Longrightarrow> R s s'"
    by (auto simp: createRoleWithPermissions_tx_def err_simps split: prod.splits dest!: rules intro: same) (meson after)+
  show "updateRole_tx m tx clk actor meta ui s = Inr (y, s') \<Longrightarrow> R s s'"
    by (auto simp: updateRole_tx_def Let_def err_simps dest!: rules intro: same) (meson after)+
  show "deleteRole_tx m tx clk actor meta di s = Inr (z, s') \<Longrightarrow> R s s'"
    by (auto simp: deleteRole_tx_def Let_def err_simps dest!: rules intro: same) (meson after)+
  show "grantPermission_tx tx clk actor meta gi g s = Inr (z, s') \<Longrightarrow> R s s'"
    by (auto simp: grantPermission_tx_def Let_def err_simps split: if_splits prod.splits dest!: rules intro: same) (meson after)+
  show "revokePermission_tx m tx clk actor meta gi g s = Inr (z, s') \<Longrightarrow> R s s'"
    by (auto simp: revokePermission_tx_def Let_def err_simps split: if_splits prod.splits dest!: rules intro: same) (meson after)+
  show "assignRole_tx m tx clk actor meta ai s = Inr (z, s') \<Longrightarrow> R s s'"
    by (auto simp: assignRole_tx_def Let_def err_simps split: if_splits prod.splits dest!: rules intro: same) (meson after)+
  assume run: "unassignRole_tx m tx clk actor meta ai s = Inr (z, s')"
  then obtain removed s1 and r :: role where del: "tx_delete_subject_role_grant tx (ai_subject ai) (ai_role ai) s = Inr (removed, s1)"
    and rest: "(case removed of None \<Rightarrow>
         ebind (tx_insert_mutation_audit tx (auditEvent (clk AtEvent) (pr_tenant actor) actor meta
                  ''unassign.role'' ''subject_role'' (ai_subject ai) AuditOutcomeNoop (ro_version r)) s1) (\<lambda>s.
         Inr (\<lparr>mr_changed = False, mr_role_version = ro_version r\<rparr>, s))
     | Some b \<Rightarrow>
         ebind (guardLastAdministrator m tx s1) (\<lambda>_.
         ebind (if sg_provenance b = GrantProvenanceDelegated \<and> sg_grantor b \<noteq> []
                then tx_delete_grant_edge tx
                       \<lparr>ge_tenant = pr_tenant actor, ge_grantor = sg_grantor b,
                        ge_grantee = ai_subject ai, ge_role = ai_role ai, ge_created_at = 0\<rparr> s1
                else Inr s1) (\<lambda>s.
         ebind (tx_insert_mutation_audit tx (auditEvent (clk AtEvent) (pr_tenant actor) actor meta
                  ''unassign.role'' ''subject_role'' (ai_subject ai) AuditOutcomeSuccess (ro_version r)) s) (\<lambda>s.
         Inr (\<lparr>mr_changed = True, mr_role_version = ro_version r\<rparr>, s))))) = Inr (z, s')"
    unfolding unassignRole_tx_def ebind_eq_Inr split_paired_Ex prod.case by (elim exE conjE) (erule that, assumption)
  from rest have "R s1 s'"
    by (cases removed) (auto simp: err_simps split: if_split_asm dest!: rules intro: same, (meson after)+)
  with writes(7) [OF del] show "R s s'" by (rule after)
qed

end

text \<open>The rows of one tenant decide what its subjects hold.\<close>

lemma joined_grants_rows:
  assumes "filter (\<lambda>b. sg_tenant b = u) (db_bindings s') = filter (\<lambda>b. sg_tenant b = u) (db_bindings s)"
    and "filter (\<lambda>r. ro_tenant r = u) (db_roles s') = filter (\<lambda>r. ro_tenant r = u) (db_roles s)"
    and "filter (\<lambda>g. fst g = u) (db_grants s') = filter (\<lambda>g. fst g = u) (db_grants s)"
  shows "joined_grants u s' = joined_grants u s"
proof -
  have r: "filter (\<lambda>r. role_key r = (u, i) \<and> \<not> ro_deleted r) rs =
      filter (\<lambda>r. ro_id r = i \<and> \<not> ro_deleted r) (filter (\<lambda>r. ro_tenant r = u) rs)" for i rs
    by (simp add: role_key_def conj_commute conj_left_commute)
  have g: "filter (\<lambda>(v, g). (v, rg_role g) = (u, i)) gs =
      filter (\<lambda>(v, g). rg_role g = i) (filter (\<lambda>g. fst g = u) gs)" for i gs
    by (induction gs) auto
  have t: "b \<in> set (filter (\<lambda>b. sg_tenant b = u) bs) \<Longrightarrow> sg_tenant b = u" for b bs by simp
  show ?thesis unfolding joined_grants_def assms(1)
    by (intro arg_cong [where f = concat] map_cong refl; drule t; simp only: r g assms(2,3))
qed

lemma filter_map_same:
  assumes "\<And>r. r \<in> set t \<Longrightarrow> P (f r) = P r" and "\<And>r. r \<in> set t \<Longrightarrow> P r \<Longrightarrow> f r = r"
  shows "filter P (map f t) = filter P t"
  using assms by (induction t) auto

lemma others_same_roles:
  assumes "\<And>r. P r \<Longrightarrow> ro_tenant r = t" and "\<And>r. ro_tenant (f r) = ro_tenant r"
  shows "others_same t s (s\<lparr>db_roles := sql_update P f (db_roles s)\<rparr>)"
proof -
  have "filter (\<lambda>r. ro_tenant r = u) (sql_update P f (db_roles s)) = filter (\<lambda>r. ro_tenant r = u) (db_roles s)"
    if u: "u \<noteq> t" for u
    unfolding sql_update_def
  proof (rule filter_map_same)
    fix r
    show "(ro_tenant (if P r then f r else r) = u) = (ro_tenant r = u)" by (simp add: assms(2))
    show "ro_tenant r = u \<Longrightarrow> (if P r then f r else r) = r" using assms(1) [of r] u by auto
  qed
  then show ?thesis by (auto simp: others_same_def intro!: joined_grants_rows)
qed

lemma filter_delete_same: "(\<And>r. r \<in> set t \<Longrightarrow> Q r \<Longrightarrow> \<not> P r) \<Longrightarrow> filter P (sql_delete Q t) = filter P t"
  by (induction t) (auto simp: sql_delete_def)

lemma others_same_writes:
  "ro_tenant r = t \<Longrightarrow> others_same t s (s\<lparr>db_roles := db_roles s @ [r]\<rparr>)"
  "others_same t s (s\<lparr>db_grants := db_grants s @ [(t, g)]\<rparr>)"
  "(\<And>g. P g \<Longrightarrow> fst g = t) \<Longrightarrow> others_same t s (s\<lparr>db_grants := sql_delete P (db_grants s)\<rparr>)"
  "sg_tenant b = t \<Longrightarrow> others_same t s (s\<lparr>db_bindings := db_bindings s @ [b]\<rparr>)"
  "(\<And>b. Q b \<Longrightarrow> sg_tenant b = t) \<Longrightarrow> others_same t s (s\<lparr>db_bindings := sql_delete Q (db_bindings s)\<rparr>)"
  "others_same t s (s\<lparr>db_edges := es\<rparr>)"
  "others_same t s (s\<lparr>db_versions := vs\<rparr>)"
  "others_same t s (s\<lparr>db_audit := as\<rparr>)"
  "others_same t s (s\<lparr>db_state := ts\<rparr>)"
  by (auto simp: others_same_def intro!: joined_grants_rows filter_delete_same)

lemma others_same_refl: "others_same t s s"
  by (simp add: others_same_def)

lemma core_tx_writes:
  "tx_insert_role (core_policy_tx ss t) r s = Inr s' \<Longrightarrow> others_same t s s'"
  "tx_update_role (core_policy_tx ss t) r v s = Inr s' \<Longrightarrow> others_same t s s'"
  "tx_tombstone_role (core_policy_tx ss t) i v s = Inr s' \<Longrightarrow> others_same t s s'"
  "tx_insert_role_permission_grant (core_policy_tx ss t) g s = Inr (b, s') \<Longrightarrow> others_same t s s'"
  "tx_delete_role_permission_grant (core_policy_tx ss t) g s = Inr (b, s') \<Longrightarrow> others_same t s s'"
  "tx_insert_subject_role_grant (core_policy_tx ss t) sg s = Inr (b, s') \<Longrightarrow> others_same t s s'"
  "tx_delete_subject_role_grant (core_policy_tx ss t) u i s = Inr (sgo, s') \<Longrightarrow> others_same t s s'"
  "tx_insert_grant_edge (core_policy_tx ss t) ge s = Inr s' \<Longrightarrow> others_same t s s'"
  "tx_delete_grant_edge (core_policy_tx ss t) ge s = Inr s' \<Longrightarrow> others_same t s s'"
  "tx_insert_role_version (core_policy_tx ss t) rv s = Inr s' \<Longrightarrow> others_same t s s'"
  "tx_insert_mutation_audit (core_policy_tx ss t) ev s = Inr s' \<Longrightarrow> others_same t s s'"
  "tx_mark_bootstrapped (core_policy_tx ss t) hp s = Inr s' \<Longrightarrow> others_same t s s'"
  by (auto simp: core_policy_tx_def pg_tx_def pg_insert_role_def pg_update_role_def pg_tombstone_role_def
      pg_insert_role_permission_grant_def pg_delete_role_permission_grant_def pg_insert_subject_role_grant_def
      pg_delete_subject_role_grant_def pg_insert_grant_edge_def pg_delete_grant_edge_def pg_insert_role_version_def
      pg_insert_mutation_audit_def pg_mark_bootstrapped_def Let_def err_simps pg_call_Inr sql_simps sql_insert_new_Inr
      role_key_def binding_key_def others_same_refl split: if_splits sum.splits
      intro!: others_same_writes others_same_roles)

interpretation core_frame: framed_tx "core_policy_tx ss t" "others_same t" for ss t
proof
  show "others_same t s s" for s by (rule others_same_refl)
  show "others_same t s s1 \<Longrightarrow> others_same t s1 s2 \<Longrightarrow> others_same t s s2" for s s1 s2
    by (simp add: others_same_def)
qed (rule core_tx_writes, assumption)+

section \<open>The policy store\<close>

lemma sql_update_False: "sql_update (\<lambda>_. False) f t = t"
  by (simp add: sql_update_def)

lemma change_policy_rows:
  assumes "tables.more s' = tables.more s" and "\<And>u. administered s u \<Longrightarrow> administered s' u"
  shows "change I s s'"
  using assms by (intro change.policy [where P = "\<lambda>_. False" and Q = "\<lambda>_. False"])
    (simp_all add: sql_update_False sql_delete_none)

lemma administered_others:
  assumes "others_same t s s'" and "u \<noteq> t" and "administered s u"
  shows "administered s' u"
proof -
  have "db_memberships s' = db_memberships s" using assms(1) by (intro more_fields(6)) (simp add: others_same_def)
  moreover have "joined_grants u s' = joined_grants u s" using assms(1,2) by (simp add: others_same_def)
  ultimately show ?thesis using assms(3) by (simp add: administered_def administers_def active_member_def)
qed

lemma core_MutateTenant_leads:
  assumes "\<And>s x s'. body s = Inr (x, s') \<Longrightarrow> others_same t s s'"
  shows "(change I)\<^sup>*\<^sup>* s (snd (core_MutateTenant sv ss gd t body s))"
proof -
  obtain res s' where run: "core_MutateTenant sv ss gd t body s = (res, s')" by fastforce
  from pg_mutator_cases [OF run [unfolded core_MutateTenant_def]] consider "s' = s"
    | x where "ebind (check_guard ss t gd s) (\<lambda>_. ebind (body s) (\<lambda>(x, s).
        ebind (hasActiveAdministrator ss t [] s) (\<lambda>allowed.
        if \<not> allowed then Inl ErrLastAdministrator else Inr (x, s)))) = Inr (x, s')" by blast
  then have "(change I)\<^sup>*\<^sup>* s s'"
  proof cases
    case (2 x)
    then have b: "body s = Inr (x, s')" and adm: "hasActiveAdministrator ss t [] s' = Inr True"
      by (auto simp: err_simps split: if_split_asm)
    from assms [OF b] have o: "others_same t s s'" .
    from hasActiveAdministrator_True [OF adm] have "administered s' t" by (auto simp: administered_def)
    with administered_others [OF o] have "administered s u \<Longrightarrow> administered s' u" for u by (cases "u = t") auto
    with o have "change I s s'" by (intro change_policy_rows) (simp_all add: others_same_def)
    then show ?thesis by blast
  qed simp
  with run show ?thesis by simp
qed

text \<open>Bootstrapping only adds rows.\<close>

definition rows_added :: "tenant_id \<Rightarrow> core_db \<Rightarrow> core_db \<Rightarrow> bool" where
  "rows_added t s s' \<longleftrightarrow> others_same t s s' \<and> set (db_roles s) \<subseteq> set (db_roles s') \<and>
     set (db_grants s) \<subseteq> set (db_grants s') \<and> set (db_bindings s) \<subseteq> set (db_bindings s')"

lemma rows_added_trans: "rows_added t s s1 \<Longrightarrow> rows_added t s1 s2 \<Longrightarrow> rows_added t s s2"
  by (auto simp: rows_added_def others_same_def)

lemma rows_added_grants:
  assumes "rows_added t s s'"
  shows "set (joined_grants t s) \<subseteq> set (joined_grants t s')"
proof -
  have "set (db_roles s) \<subseteq> set (db_roles s')" "set (db_grants s) \<subseteq> set (db_grants s')"
    "set (db_bindings s) \<subseteq> set (db_bindings s')" using assms by (simp_all add: rows_added_def)
  then show ?thesis unfolding joined_grants_def by (fastforce simp: image_iff)
qed

lemma bootstrap_tx_adds:
  assumes "bootstrap_tx (pg_tx fault t) clk provenance input r grants s = Inr (x, s')"
  shows "rows_added t s s'"
proof -
  have role: "tx_insert_role (pg_tx fault t) r s = Inr s1 \<Longrightarrow> rows_added t s s1" for r s s1
    by (auto simp: pg_tx_def pg_insert_role_def pg_call_Inr err_simps sql_simps rows_added_def intro!: others_same_writes)
  have grant: "tx_insert_role_permission_grant (pg_tx fault t) g s = Inr (c, s1) \<Longrightarrow> rows_added t s s1" for g s c s1
    by (auto simp: pg_tx_def pg_insert_role_permission_grant_def pg_call_Inr err_simps sql_insert_new_Inr rows_added_def
        others_same_refl split: if_split_asm intro!: others_same_writes)
  have bind: "tx_insert_subject_role_grant (pg_tx fault t) g s = Inr (c, s1) \<Longrightarrow> rows_added t s s1" for g s c s1
    by (auto simp: pg_tx_def pg_insert_subject_role_grant_def pg_call_Inr err_simps sql_insert_new_Inr rows_added_def
        others_same_refl split: if_split_asm intro!: others_same_writes)
  have rest: "tx_insert_role_version (pg_tx fault t) v s = Inr s1 \<Longrightarrow> rows_added t s s1"
    "tx_insert_mutation_audit (pg_tx fault t) ev s = Inr s1 \<Longrightarrow> rows_added t s s1"
    "tx_mark_bootstrapped (pg_tx fault t) hp s = Inr s1 \<Longrightarrow> rows_added t s s1" for v ev hp s s1
    by (auto simp: pg_tx_def pg_insert_role_version_def pg_insert_mutation_audit_def pg_mark_bootstrapped_def pg_call_Inr
        err_simps sql_simps rows_added_def others_same_refl split: if_split_asm intro!: others_same_writes)
  have grants: "rows_added t s s1"
    if "efold (\<lambda>g s. ebind (tx_insert_role_permission_grant (pg_tx fault t) g s) (\<lambda>(_, s). Inr s)) gs s = Inr s1" for gs s s1
    using that by (rule efold_invariant)
      (auto simp: rows_added_def others_same_refl err_simps intro: rows_added_trans [unfolded rows_added_def]
        dest!: grant [unfolded rows_added_def] simp: others_same_def)
  from assms obtain s1 s2 c s3 s4 s5 where "tx_insert_role (pg_tx fault t) r s = Inr s1"
    "efold (\<lambda>g s. ebind (tx_insert_role_permission_grant (pg_tx fault t) g s) (\<lambda>(_, s). Inr s)) grants s1 = Inr s2"
    "tx_insert_subject_role_grant (pg_tx fault t) (owner_binding clk input) s2 = Inr (c, s3)"
    "tx_insert_role_version (pg_tx fault t) (bootstrap_snapshot clk provenance input r grants) s3 = Inr s4"
    "tx_insert_mutation_audit (pg_tx fault t) (bootstrap_event clk provenance input) s4 = Inr s5"
    "tx_mark_bootstrapped (pg_tx fault t) provenance s5 = Inr s'"
    by (auto simp: bootstrap_tx_def err_simps)
  then show ?thesis using role grants bind rest by (meson rows_added_trans)
qed

lemma BootstrapTenant_leads:
  "(change I)\<^sup>*\<^sup>* s (snd (BootstrapTenant b (pg_tx fault (bi_tenant input)) (pg_mutator st ss) authorizer clk input s))"
proof -
  let ?t = "bi_tenant input"
  obtain res s' where run: "BootstrapTenant b (pg_tx fault ?t) (pg_mutator st ss) authorizer clk input s = (res, s')"
    by fastforce
  from BootstrapTenant_attempted [OF run] consider "s' = s" | provenance grants res' where
    "pg_mutator st ss ?t (bootstrap_tx (pg_tx fault ?t) clk provenance input (owner_role input) grants) s = (res', s')"
    unfolding attempted_def by blast
  then have "(change I)\<^sup>*\<^sup>* s s'"
  proof cases
    case (2 provenance grants res')
    from pg_mutator_cases [OF 2] consider "s' = s"
      | x where "bootstrap_tx (pg_tx fault ?t) clk provenance input (owner_role input) grants s = Inr (x, s')" by blast
    then show ?thesis
    proof cases
      case (2 x)
      from bootstrap_tx_adds [OF 2] have a: "rows_added ?t s s'" .
      then have o: "others_same ?t s s'" by (simp add: rows_added_def)
      from o have m: "db_memberships s' = db_memberships s" by (intro more_fields(6)) (simp add: others_same_def)
      have "administered s ?t \<Longrightarrow> administered s' ?t"
        unfolding administered_def administers_def active_member_def m using rows_added_grants [OF a] by blast
      with administered_others [OF o] have "administered s u \<Longrightarrow> administered s' u" for u by (cases "u = ?t") auto
      with o have "change I s s'" by (intro change_policy_rows) (simp_all add: others_same_def)
      then show ?thesis by blast
    qed simp
  qed simp
  with run show ?thesis by simp
qed

end
