(* ===== verification/CoreCalls.thy ===== *)
theory CoreCalls
  imports CoreMembersTx
begin

text \<open>
  The transactions on organizations, members, invitations and recoveries as changes of \<open>CoreRules\<close>.
\<close>

section \<open>Organizations\<close>

lemma set_state_change: "change I s (set_state state now P s)"
  unfolding set_state_def by (rule change.tenant) simp

lemma rename_organization_changes:
  assumes "rename_organization now t actor name expected s = (res, s')"
  shows "(change I)\<^sup>*\<^sup>* s s'"
proof -
  have "change I s (s\<lparr>db_tenants := sql_update P (\<lambda>r. r\<lparr>tn_name := name, tn_version := tn_version r + 1,
      tn_updated := now\<rparr>) (db_tenants s)\<rparr>)" for P by (rule change.tenant) simp
  with assms show ?thesis
    by (auto simp: rename_organization_def Let_def split: if_split_asm sum.split_asm)
qed

lemma rename_tx_leads: "(change I)\<^sup>*\<^sup>* s (snd (rename_tx sv rq t actor name expected s))"
proof -
  have "leads I s (ebind (stmt ss q s (Inr (rename_organization now t actor name expected s))) (\<lambda>(result, s).
     case result of
       NotAuthorized \<Rightarrow> Inl ErrForbidden
     | NotThere \<Rightarrow> Inl ErrNotFound
     | Refused e \<Rightarrow> Inl (sql_fail e)
     | Renamed row \<Rightarrow> ebind (tenantAudit ss (event row) s) (\<lambda>s. Inr (row, s))))" for ss q now event
  proof (rule leads_read, clarify)
    fix res s1
    assume "stmt ss q s (Inr (rename_organization now t actor name expected s)) = Inr (res, s1)"
    then have "(change I)\<^sup>*\<^sup>* s s1" by (auto simp: stmt_Inr dest: rename_organization_changes)
    then show "leads I s (case res of NotAuthorized \<Rightarrow> Inl ErrForbidden | NotThere \<Rightarrow> Inl ErrNotFound
        | Refused e \<Rightarrow> Inl (sql_fail e) | Renamed row \<Rightarrow> ebind (tenantAudit ss (event row) s1) (\<lambda>s. Inr (row, s)))"
      by (rule leads_after) (simp add: leads_Inl leads_audit split: rename_result.split)
  qed
  then show ?thesis unfolding rename_tx_def by (rule run_tenant_leads)
qed

lemma insert_tenant_leads:
  "(change I)\<^sup>*\<^sup>* s (snd (pool_exec ss q (\<lambda>s. ebind (insert_tenant row s) (\<lambda>s. Inr ((), s))) s))"
  by (rule pool_exec_leads) (auto simp: err_simps intro: change.new_tenant)

lemma leads_insert_membership:
  assumes "\<And>s1. leads I s1 (f s1)"
  shows "leads I s (ebind (stmt ss q s (insert_membership row s)) f)"
  by (rule leads_run) (auto simp: stmt_Inr assms intro: change.new_member)

lemma activate_owner_leads: "(change I)\<^sup>*\<^sup>* s (snd (activate_owner sv rq t actor created s))"
  unfolding activate_owner_def Let_def
proof (rule run_tenant_leads, rule leads_insert_membership, rule leads_read, clarify)
  fix s1 activated s2
  assume "stmt (rq_tx rq 2) ''activate_tenant'' s1 (Inr (activate_tenant (rq_db_now rq) t s1)) = Inr (activated, s2)"
  then have "change I s1 s2" by (auto simp: stmt_Inr activate_tenant_def Let_def set_state_change)
  then show "leads I s1 (if \<not> activated then Inl ErrConflict else Inr ((), s2))"
    by (rule leads_change) (auto intro: leads_Inl leads_done)
qed

lemma failCreatedTenant_leads: "(change I)\<^sup>*\<^sup>* s (snd (failCreatedTenant sv rq i account t cause s))"
proof (cases "validateOpaqueID t = Inr ()")
  case True
  have "(change I)\<^sup>*\<^sup>* s (snd (runActor st ss account False (Some (\<lambda>s.
        case Inr (fail_created_tenant now account t s) of
          Inl e \<Rightarrow> Inl (ErrHost (sql_text e))
        | Inr (failed, s') \<Rightarrow> if failed then Inr ((), s') else Inl ErrConflict)) s))" for st ss now
    by (rule run_actor_leads) (auto simp: leads_def fail_created_tenant_def Let_def set_state_change split: if_split_asm)
  with True show ?thesis by (simp add: failCreatedTenant_def FailCreatedTenant_def split_beta)
qed (simp add: failCreatedTenant_def FailCreatedTenant_def)

lemma RecordSecurityEvent_leads: "(change I)\<^sup>*\<^sup>* s (snd (RecordSecurityEvent sv ss event s))"
  unfolding RecordSecurityEvent_def by (rule run_tenant_leads, rule leads_write, rule change_audit, rule leads_done)

section \<open>Accounts and members\<close>

lemma leads_insert_account:
  assumes "ac_failed row = 0"
    and "\<And>s1. insert_account row s = Inr s1 \<Longrightarrow> leads I s1 (f s1)"
  shows "leads I s (ebind (stmt ss q s (insert_account row s)) f)"
  by (rule leads_run) (auto simp: stmt_Inr intro: assms change.new_account)

lemma insert_administrator_leads:
  assumes "ac_failed row = 0"
  shows "(change I)\<^sup>*\<^sup>* s (snd (insert_administrator rq row s))"
proof -
  have "leads I s (ebind (stmt ss q s (Inr (db_admins s \<noteq> []))) (\<lambda>exists.
     if exists then Inl ErrBootstrapComplete
     else ebind (stmt ss q1 s (insert_account row s)) (\<lambda>s.
       ebind (stmt ss q2 s (ebind (sql_insert fst (ac_id row, ac_created row) (db_admins s))
         (\<lambda>rows. Inr (s\<lparr>db_admins := rows\<rparr>)))) (\<lambda>s. Inr (Inr (), s)))))" for ss q q1 q2
  proof (rule leads_read, rule leads_if, rule leads_Inl, rule leads_insert_account [OF assms])
    fix exists s1
    assume "stmt ss q s (Inr (db_admins s \<noteq> [])) = Inr exists" "\<not> exists" and ins: "insert_account row s = Inr s1"
    then have none: "db_admins s1 = []" and there: "ac_id row \<in> account_ids s1" by (auto simp: stmt_Inr insert_rows)
    then have "change I s1 (s1\<lparr>db_admins := [(ac_id row, ac_created row)]\<rparr>)" by (rule change.first_admin)
    then show "leads I s1 (ebind (stmt ss q2 s1 (ebind (sql_insert fst (ac_id row, ac_created row) (db_admins s1))
         (\<lambda>rows. Inr (s1\<lparr>db_admins := rows\<rparr>)))) (\<lambda>s. Inr (Inr (), s)))"
      by (auto simp: leads_def stmt_Inr err_simps sql_insert_Inr none)
  qed
  then show ?thesis unfolding insert_administrator_def Let_def by (rule pool_tx_leads)
qed

lemma reset_update:
  "account_update (\<lambda>a. a\<lparr>ac_email := e, ac_hash := h, ac_status := st, ac_failed := 0, ac_locked := None, ac_updated := u\<rparr>)"
  by (simp add: account_update_def)

lemma upsert_membership_leads:
  "upsert_membership row s = Inr s1 \<Longrightarrow> (change I)\<^sup>*\<^sup>* s s1"
  by (auto simp: upsert_membership_def split: if_split_asm intro: change.activate change.new_member)

lemma provision_tx_leads: "(change I)\<^sup>*\<^sup>* s (snd (provision_tx sv rq t email normalized hash new s))"
  unfolding provision_tx_def Let_def
proof (rule run_tenant_leads, rule leads_bind, goal_cases)
  case 1
  show ?case
  proof (split sum.split, intro conjI allI impI, goal_cases)
    case (1 e)
    show ?case
      by (rule leads_if, rule leads_Inl, rule leads_insert_account) (simp_all add: new_account_def leads_done)
  next
    case (2 account)
    show ?case
      by (rule leads_if, rule leads_Inl, rule leads_write, rule change.accounts [OF reset_update], rule leads_credential,
          rule leads_done)
  qed
next
  case (2 account s1)
  show ?case unfolding prod.case
    by (rule leads_run) (auto simp: stmt_Inr leads_done dest: upsert_membership_leads)
qed

section \<open>Invitations\<close>

lemma invitation_end_revoke:
  "invitation_end (\<lambda>i. P i \<and> iv_accepted i = None) (\<lambda>i. i\<lparr>iv_revoked := Some now\<rparr>) s"
  by (simp add: invitation_end_def invitation_key_def pending_invitation_def)

lemma leads_insert_invitation:
  assumes "iv_hash row \<in> I" and "pending_invitation row"
    and "\<forall>i \<in> set (db_invitations s). pending_invitation i \<longrightarrow> (iv_tenant i, iv_email i) \<noteq> (iv_tenant row, iv_email row)"
    and "\<And>s1. leads I s1 (f s1)"
  shows "leads I s (ebind (stmt ss q s (insert_invitation row s)) f)"
  by (rule leads_run) (use assms in \<open>auto simp: stmt_Inr intro!: r_into_rtranclp intro: change.new_invitation\<close>)

lemma replaced_invitations:
  "\<forall>i \<in> set (sql_update (\<lambda>i. iv_tenant i = t \<and> iv_email i = n \<and> iv_accepted i = None \<and> iv_revoked i = None)
    (\<lambda>i. i\<lparr>iv_revoked := Some now\<rparr>) rows). pending_invitation i \<longrightarrow> (iv_tenant i, iv_email i) \<noteq> (t, n)"
proof (intro ballI impI)
  fix i assume "i \<in> set (sql_update (\<lambda>i. iv_tenant i = t \<and> iv_email i = n \<and> iv_accepted i = None \<and> iv_revoked i = None)
    (\<lambda>i. i\<lparr>iv_revoked := Some now\<rparr>) rows)" and p: "pending_invitation i"
  then obtain r where r: "i = (if iv_tenant r = t \<and> iv_email r = n \<and> iv_accepted r = None \<and> iv_revoked r = None
    then r\<lparr>iv_revoked := Some now\<rparr> else r)" by (auto simp: in_sql_update)
  have "\<not> (iv_tenant r = t \<and> iv_email r = n \<and> iv_accepted r = None \<and> iv_revoked r = None)"
  proof
    assume "iv_tenant r = t \<and> iv_email r = n \<and> iv_accepted r = None \<and> iv_revoked r = None"
    with r have "i = r\<lparr>iv_revoked := Some now\<rparr>" by simp
    with p show False by (simp add: pending_invitation_def)
  qed
  with r p show "(iv_tenant i, iv_email i) \<noteq> (t, n)" by (simp add: pending_invitation_def)
qed

lemma CreateInvitation_leads:
  assumes "draws sv rq I"
  shows "(change I)\<^sup>*\<^sup>* s (snd (CreateInvitation sv rq t actor email s))"
proof (cases "ebind (normalizeEmail sv email) (\<lambda>normalized.
           ebind (randomID rq 0 ''invite_'' 18) (\<lambda>invitation.
           ebind (randomID rq 1 ''inv_'' 32) (\<lambda>token. Inr (normalized, invitation, token))))")
  case (Inl e)
  then show ?thesis by (simp add: CreateInvitation_def)
next
  case (Inr drawn)
  obtain normalized invitation token where d: "drawn = (normalized, invitation, token)" by (cases drawn)
  from Inr d assms have tok: "tokenHash sv token \<in> I" by (auto simp: err_simps draws_def)
  show ?thesis unfolding CreateInvitation_def Inr d sum.case prod.case Let_def
    apply (rule run_tenant_leads, rule leads_read, rule leads_read, rule leads_if, rule leads_Inl)
    apply (rule leads_write, rule change.invitation)
     apply (simp add: invitation_end_def invitation_key_def pending_invitation_def)
    apply (rule leads_insert_invitation)
       apply (simp add: tok)
      apply (simp add: pending_invitation_def)
     apply (use replaced_invitations in simp)
    apply (rule leads_audit)
    done
qed

lemma RevokeInvitation_leads:
  assumes "core_inv s"
  shows "(change I)\<^sup>*\<^sup>* s (snd (RevokeInvitation sv rq t actor invitation s))"
proof -
  have "change I s (s\<lparr>db_invitations := sql_update (\<lambda>i. invitation_key i = (t, invitation))
            (\<lambda>i. i\<lparr>iv_revoked := coalesce (iv_revoked i) now\<rparr>) (db_invitations s)\<rparr>)"
    if "sql_row (\<lambda>i. invitation_key i = (t, invitation)) (db_invitations s) = Inr i" "iv_accepted i = None" for i now
  proof (rule change.invitation)
    from assms have key: "keyed invitation_key (db_invitations s)" by (simp add: core_inv_def offers_ok_def)
    have "iv_accepted j = None" if "j \<in> set (db_invitations s)" "invitation_key j = (t, invitation)" for j
      using keyed_same [OF key, of j i] that \<open>sql_row _ _ = _\<close> \<open>iv_accepted i = None\<close> by (auto dest: sql_row_Inr)
    then show "invitation_end (\<lambda>i. invitation_key i = (t, invitation))
        (\<lambda>i. i\<lparr>iv_revoked := coalesce (iv_revoked i) now\<rparr>) s"
      by (auto simp: invitation_end_def invitation_key_def pending_invitation_def coalesce_def split: option.splits)
  qed
  note revoke = this
  show ?thesis unfolding RevokeInvitation_def Let_def
    by (rule run_tenant_leads, rule leads_read, rule leads_read, rule leads_if, rule leads_Inl, rule leads_write,
        rule revoke) (simp_all add: err_simps leads_audit)
qed

lemma accepting_account_leads: "leads I s (accepting_account sv rq ss email display newHash newID password s)"
proof (cases "stmt ss ''lock_account'' s (sql_row (\<lambda>a. ac_normalized a = email) (db_accounts s))")
  case (Inl e)
  show ?thesis
  proof (cases newHash)
    case None
    with Inl show ?thesis by (simp add: accepting_account_def leads_Inl)
  next
    case (Some h)
    show ?thesis unfolding accepting_account_def Inl sum.case Some option.case Let_def
      by (rule leads_if, rule leads_Inl, rule leads_insert_account) (simp_all add: new_account_def leads_done)
  qed
next
  case (Inr a)
  show ?thesis unfolding accepting_account_def Inr sum.case
    by (rule leads_if, rule leads_Inl, rule leads_if, rule leads_Inl, rule leads_if, rule leads_failed, rule leads_done)
qed

lemma accepting_account_invitations:
  "accepting_account sv rq ss email display newHash newID password s = Inr (who, s1) \<Longrightarrow>
    db_invitations s1 = db_invitations s"
  by (auto simp: accepting_account_def failedPassword_def stmt_Inr err_simps Let_def insert_rows
      split: sum.split_asm option.split_asm if_split_asm)

lemma accept_tx_leads:
  assumes "core_inv s"
  shows "(change I)\<^sup>*\<^sup>* s (snd (accept_tx sv rq token password preview newHash newID s))"
  unfolding accept_tx_def Let_def
proof (rule run_tenant_leads, rule leads_read, rule leads_bind [OF accepting_account_leads], unfold prod.case, goal_cases)
  case (1 i who s1)
  let ?P = "\<lambda>i. invitation_key i = (ip_tenant preview, ip_id preview)"
  from 1(1) have i: "i \<in> set (db_invitations s)" "?P i" "iv_accepted i = None" "iv_revoked i = None"
    by (auto simp: err_simps open_invitation_def dest: sql_row_Inr)
  from assms have key: "keyed invitation_key (db_invitations s)" by (simp add: core_inv_def offers_ok_def)
  have inv: "db_invitations s1 = db_invitations s" by (rule accepting_account_invitations [OF 1(2)])
  have only: "j = i" if "j \<in> set (db_invitations s)" "?P j" for j
    using keyed_same [OF key that(1) i(1)] that(2) i(2) by simp
  have accept: "change I s2 (s2\<lparr>db_invitations := sql_update ?P (\<lambda>i. i\<lparr>iv_accepted := Some now\<rparr>) (db_invitations s2)\<rparr>)"
    if "db_invitations s2 = db_invitations s" for s2 now
    by (rule change.invitation)
      (auto simp: that invitation_end_def invitation_key_def pending_invitation_def i dest!: only [unfolded invitation_key_def])
  show ?case
  proof (cases who)
    case (Some account)
    show ?thesis unfolding Some option.case
    proof (rule leads_read, rule leads_run, goal_cases)
      case (1 u s2)
      then have "change I s1 s2 \<or> s2 = s1" by (auto simp: stmt_Inr split: if_split_asm intro: change.new_member)
      then show ?case by blast
    next
      case (2 u s2)
      then have "db_invitations s2 = db_invitations s"
        using inv by (auto simp: stmt_Inr insert_rows split: if_split_asm)
      then show ?case by (intro leads_write [OF accept] leads_audit)
    qed
  qed (simp add: leads_done)
qed

section \<open>Members\<close>

lemma stmt_id: "stmt ss q s (Inr x) = Inr y \<Longrightarrow> y = x"
  by (simp add: stmt_Inr)

text \<open>Another member's administration survives the removal of one member's rows.\<close>

lemma joined_grants_delete:
  assumes "(u, g) \<in> set (joined_grants t s)" and "u \<noteq> account \<or> v \<noteq> t"
    and "db_roles s' = db_roles s" "db_grants s' = db_grants s"
    and "db_bindings s' = sql_delete (\<lambda>b. sg_tenant b = v \<and> sg_subject b = account) (db_bindings s)"
  shows "(u, g) \<in> set (joined_grants t s')"
  using assms(1,2) unfolding joined_grants_def assms(3-5) by (auto simp: sql_delete_def)

lemma administers_removed:
  assumes "administers s u a" and "u \<noteq> t \<or> a \<noteq> account"
    and "db_roles s' = db_roles s" "db_grants s' = db_grants s"
    and "db_bindings s' = sql_delete (\<lambda>b. sg_tenant b = t \<and> sg_subject b = account) (db_bindings s)"
    and "db_memberships s' = sql_delete (\<lambda>m. membership_key m = (t, account)) (db_memberships s)"
  shows "administers s' u a"
proof -
  have "active_member s' u a"
    using assms(1,2) unfolding administers_def active_member_def sql_exists_def assms(6) by (auto simp: in_sql_delete)
  moreover have "(a, g) \<in> set (joined_grants u s) \<Longrightarrow> (a, g) \<in> set (joined_grants u s')" for g
    using joined_grants_delete [OF _ _ assms(3-5)] assms(2) by blast
  ultimately show ?thesis using assms(1) unfolding administers_def by blast
qed

lemma administers_status:
  assumes "administers s u a" and "u \<noteq> t \<or> a \<noteq> account \<or> status = ''active''"
    and "s' = s\<lparr>db_memberships := sql_update (\<lambda>m. membership_key m = (t, account))
      (\<lambda>m. m\<lparr>tm_status := status\<rparr>) (db_memberships s)\<rparr>"
  shows "administers s' u a"
proof -
  from assms(1) obtain m where m: "m \<in> set (db_memberships s)" "membership_key m = (u, a)" "tm_status m = ''active''"
    by (auto simp: administers_def active_member_def sql_exists_def)
  have "active_member s' u a" unfolding active_member_def sql_exists_def assms(3)
    by (rule bexI [of _ "if membership_key m = (t, account) then m\<lparr>tm_status := status\<rparr> else m"])
      (use m assms(2) in \<open>auto simp: membership_key_def in_sql_update\<close>)
  moreover have "joined_grants u s' = joined_grants u s" by (simp add: assms(3) joined_grants_def)
  ultimately show ?thesis using assms(1) by (simp add: administers_def)
qed

lemma ManageMember_leads: "(change I)\<^sup>*\<^sup>* s (snd (ManageMember sv rq t actor account status remove s))"
proof (cases "validateOpaqueID account \<noteq> Inr () \<or> (\<not> remove \<and> status \<noteq> ''active'' \<and> status \<noteq> ''suspended'')")
  case True
  then show ?thesis by (simp add: ManageMember_def)
next
  case ok: False
  show ?thesis unfolding ManageMember_def if_not_P [OF ok] Let_def
  proof (rule run_tenant_leads, rule leads_read, rule leads_read, rule leads_read, rule leads_run, goal_cases)
    case (1 u m v s1)
    note guard = 1(3) and change = 1(4)
    have other: "\<exists>a. a \<noteq> account \<and> administers s t a" if "remove \<or> status = ''suspended''"
      using guard that hasActiveAdministrator_True [of _ t account s] by (auto simp: err_simps split: if_split_asm)
    have "change I s s1"
    proof (cases remove)
      case True
      with change have s1: "s1 = s\<lparr>db_edges := sql_delete (\<lambda>e. ge_tenant e = t \<and> ge_grantee e = account) (db_edges s),
          db_bindings := sql_delete (\<lambda>b. sg_tenant b = t \<and> sg_subject b = account) (db_bindings s),
          db_memberships := sql_delete (\<lambda>m. membership_key m = (t, account)) (db_memberships s)\<rparr>"
        by (auto simp: err_simps)
      show ?thesis
      proof (rule change.policy [where P = "\<lambda>_. False" and Q = "\<lambda>m. membership_key m = (t, account)"])
        show "tables.more s1 = tables.more (s\<lparr>db_memberships := sql_update (\<lambda>_. False) (\<lambda>m. m\<lparr>tm_status := st\<rparr>)
          (sql_delete (\<lambda>m. membership_key m = (t, account)) (db_memberships s))\<rparr>)" for st
          by (cases s) (simp add: s1 sql_update_False)
        fix w assume "administered s w"
        then obtain a where "administers s w a" "w \<noteq> t \<or> a \<noteq> account"
          using other True by (cases "w = t") (auto simp: administered_def)
        then have "administers s1 w a" by (rule administers_removed) (simp_all add: s1)
        then show "administered s1 w" by (auto simp: administered_def)
      qed
    next
      case False
      with change have s1: "s1 = s\<lparr>db_memberships := sql_update (\<lambda>m. membership_key m = (t, account))
            (\<lambda>m. m\<lparr>tm_status := status\<rparr>) (db_memberships s)\<rparr>" by (auto simp: stmt_Inr)
      from ok False have st: "status = ''active'' \<or> status = ''suspended''" by blast
      show ?thesis
      proof (rule change.policy [where Q = "\<lambda>_. False"])
        show "tables.more s1 = tables.more (s\<lparr>db_memberships := sql_update (\<lambda>m. membership_key m = (t, account))
          (\<lambda>m. m\<lparr>tm_status := status\<rparr>) (sql_delete (\<lambda>_. False) (db_memberships s))\<rparr>)"
          by (simp only: s1 sql_delete_none)
        fix w assume "administered s w"
        then obtain a where "administers s w a" "w \<noteq> t \<or> a \<noteq> account \<or> status = ''active''"
          using other [OF disjI2] st unfolding administered_def by blast
        from administers_status [OF this s1] show "administered s1 w" unfolding administered_def by blast
      qed
    qed
    then show ?case by blast
  qed (rule leads_audit)
qed

section \<open>Recoveries\<close>

lemma replaced_recoveries:
  "\<forall>r \<in> set (sql_update (\<lambda>r. rc_account r = account \<and> rc_consumed r = None \<and> rc_revoked r = None)
    (\<lambda>r. r\<lparr>rc_revoked := Some now\<rparr>) rows). pending_recovery r \<longrightarrow> rc_account r \<noteq> account"
proof (intro ballI impI)
  fix q assume "q \<in> set (sql_update (\<lambda>r. rc_account r = account \<and> rc_consumed r = None \<and> rc_revoked r = None)
    (\<lambda>r. r\<lparr>rc_revoked := Some now\<rparr>) rows)" and p: "pending_recovery q"
  then obtain r where r: "q = (if rc_account r = account \<and> rc_consumed r = None \<and> rc_revoked r = None
    then r\<lparr>rc_revoked := Some now\<rparr> else r)" by (auto simp: in_sql_update)
  have "\<not> (rc_account r = account \<and> rc_consumed r = None \<and> rc_revoked r = None)"
  proof
    assume "rc_account r = account \<and> rc_consumed r = None \<and> rc_revoked r = None"
    with r have "q = r\<lparr>rc_revoked := Some now\<rparr>" by simp
    with p show False by (simp add: pending_recovery_def)
  qed
  with r p show "rc_account q \<noteq> account" by (simp add: pending_recovery_def)
qed

lemma leads_insert_recovery:
  assumes "rc_hash row \<in> I" and "pending_recovery row"
    and "\<forall>r \<in> set (db_recoveries s). pending_recovery r \<longrightarrow> rc_account r \<noteq> rc_account row"
    and "\<And>s1. leads I s1 (f s1)"
  shows "leads I s (ebind (stmt ss q s (insert_recovery row s)) f)"
  by (rule leads_run) (use assms in \<open>auto simp: stmt_Inr intro!: r_into_rtranclp intro: change.new_recovery\<close>)

lemma unlock_update: "account_update (\<lambda>a. a\<lparr>ac_failed := 0, ac_locked := None\<rparr>)"
  by (simp add: account_update_def)

lemma create_recovery_tx_leads:
  assumes "tokenHash sv token \<in> I"
  shows "(change I)\<^sup>*\<^sup>* s (snd (create_recovery_tx sv rq t actor target password recovery token s))"
  unfolding create_recovery_tx_def Let_def
  apply (rule run_tenant_leads, rule leads_read, rule leads_read, rule leads_if, rule leads_Inl)
  apply (rule leads_if, rule leads_failed, rule leads_read)
  apply (rule leads_write, rule change.recovery, simp add: recovery_end_def pending_recovery_def)
  apply (rule leads_insert_recovery)
     apply (simp add: assms)
    apply (simp add: pending_recovery_def)
   apply (use replaced_recoveries in simp)
  apply (rule leads_write, rule change.accounts [OF unlock_update], rule leads_audit)
  done

lemma complete_recovery_tx_leads:
  "(change I)\<^sup>*\<^sup>* s (snd (complete_recovery_tx sv rq token t account hash s))"
  unfolding complete_recovery_tx_def Let_def
proof (rule run_tenant_leads, rule leads_read, rule leads_read, clarify, goal_cases)
  case (1 a affected s1)
  let ?P = "\<lambda>r. rc_hash r = tokenHash sv token \<and> rc_account r = account \<and> rc_issued r = t \<and> open_recovery (rq_now rq 1) r"
  have "change I s (s\<lparr>db_recoveries := sql_update ?P (\<lambda>r. r\<lparr>rc_consumed := Some (rq_now rq 1)\<rparr>) (db_recoveries s)\<rparr>)"
    by (rule change.recovery) (simp add: recovery_end_def pending_recovery_def open_recovery_def)
  with 1 have "change I s s1" by (simp add: stmt_Inr)
  then show ?case
    by (rule leads_change, intro leads_if leads_Inl)
      (rule leads_write, rule change.accounts [OF password_update], rule leads_credential, rule leads_audit)
qed

end
