(* ===== verification/PgSpec.thy ===== *)
theory PgSpec
  imports PgKernel Demo
begin

text \<open>
  The properties of the kernel over PostgreSQL: the signed binding, what the effective-grants query
  reads, and the invariant, the refinement, the isolation and the tombstones of the state machine
  \<open>pg_run\<close>, with the concrete session and tenant the witnesses run on.
\<close>

section \<open>Bytes of a valid string\<close>

lemma decode_rune_solid:
  assumes "decode_rune s \<noteq> (rune_error, 1)" and "c \<in> set (take (snd (decode_rune s)) s)"
  shows "128 \<le> byte c \<or> byte c = fst (decode_rune s)"
proof (cases s)
  case (Cons d ds)
  note simps = Cons Let_def in_range_def
  consider "byte d < 128" | "128 \<le> byte d" "byte d < 194" | "194 \<le> byte d" "byte d \<le> 223"
    | "224 \<le> byte d" "byte d \<le> 239" | "240 \<le> byte d" "byte d \<le> 244" | "244 < byte d"
    by linarith
  then show ?thesis
  proof cases
    case 1
    with assms Cons show ?thesis by (simp add: decode_rune_ascii del: decode_rune.simps)
  next
    case 3
    with assms show ?thesis by (cases ds) (auto simp: simps split: if_splits)
  next
    case 4
    show ?thesis
    proof (cases "\<exists>x y zs. ds = x # y # zs")
      case True
      then obtain x y zs where ds: "ds = x # y # zs" by blast
      from 4 assms show ?thesis unfolding simps ds
        by (cases "(if byte d = 224 then 160 else 128) \<le> byte x \<and> byte x \<le> (if byte d = 237 then 159 else 191) \<and>
            128 \<le> byte y \<and> byte y \<le> 191") (auto simp: in_range_def numeral_3_eq_3 split: if_splits)
    next
      case False
      with 4 assms show ?thesis by (auto simp: simps split: list.splits)
    qed
  next
    case 5
    show ?thesis
    proof (cases "\<exists>x y z zs. ds = x # y # z # zs")
      case True
      then obtain x y z zs where ds: "ds = x # y # z # zs" by blast
      let ?P = "in_range (if byte d = 240 then 144 else 128) (if byte d = 244 then 143 else 191) x \<and>
          in_range 128 191 y \<and> in_range 128 191 z"
      have dec: "decode_rune s = (if ?P then ((byte d - 240) * 262144 + (byte x - 128) * 4096 + (byte y - 128) * 64 +
          (byte z - 128), 4) else (rune_error, 1))"
        using 5 unfolding Cons ds by (simp add: Let_def)
      with assms(1) have P: ?P by meson
      with dec have "snd (decode_rune s) = 4" by (simp only: if_True snd_conv simp_thms)
      with assms(2) have "c \<in> {d, x, y, z}" by (simp add: Cons ds eval_nat_numeral del: decode_rune.simps)
      with P 5 show ?thesis by (auto simp: in_range_def simp del: decode_rune.simps split: if_splits)
    next
      case False
      with 5 assms show ?thesis by (auto simp: simps split: list.splits)
    qed
  qed (use assms in \<open>simp_all add: simps\<close>)
qed (use assms in simp)

lemma ascii_byte_rune:
  "valid_string s \<Longrightarrow> c \<in> set s \<Longrightarrow> byte c < 128 \<Longrightarrow> byte c \<in> set (runes s)"
proof (induction s rule: runes.induct)
  case (1 s)
  then have s: "s \<noteq> []" by auto
  let ?w = "snd (decode_rune s)"
  have ok: "decode_rune s \<noteq> (rune_error, 1)" "valid_string (drop ?w s)"
    using 1(2) s by (subst (asm) valid_string.simps, simp del: decode_rune.simps split: if_splits)+
  have rs: "runes s = fst (decode_rune s) # runes (drop ?w s)" using s by (subst runes.simps) simp
  consider "c \<in> set (take ?w s)" | "c \<in> set (drop ?w s)"
    using 1(3) by (metis Un_iff append_take_drop_id set_append)
  then show ?case
  proof cases
    case 1
    from decode_rune_solid [OF ok(1) this] \<open>byte c < 128\<close> show ?thesis by (simp add: rs del: decode_rune.simps)
  next
    case 2
    from 1(1) [OF s ok(2) this \<open>byte c < 128\<close>] show ?thesis by (simp add: rs del: decode_rune.simps)
  qed
qed

lemma valid_id_line: "valid_id v \<Longrightarrow> newline \<notin> set v"
  using ascii_byte_rune [of v newline]
  by (auto simp: valid_id_def validateOpaqueID_def isValidUTF8NoControl_def control_rune_def newline_def Ball_def
      split: if_splits)

section \<open>Hexadecimal is injective\<close>

lemma byte_hex_digit: "n < 16 \<Longrightarrow> byte (hex_digit n) = (if n < 10 then 48 + n else 87 + n)"
  by (simp add: hex_digit_def)

lemma hex_digit_inject:
  assumes "a < 16" "b < 16"
  shows "hex_digit a = hex_digit b \<longleftrightarrow> a = b"
proof
  assume "hex_digit a = hex_digit b"
  then have "byte (hex_digit a) = byte (hex_digit b)" by simp
  with assms show "a = b" by (auto simp: byte_hex_digit split: if_splits)
qed simp

lemma hex_encode_inject: "hex_encode a = hex_encode b \<longleftrightarrow> a = b"
proof (induction a arbitrary: b)
  case Nil
  then show ?case by (cases b) (simp_all add: hex_encode_def)
next
  case (Cons c a)
  show ?case
  proof (cases b)
    case (Cons d b')
    have "byte c div 16 < 16" "byte d div 16 < 16" using byte_less [of c] byte_less [of d] by linarith+
    then have "hex_digit (byte c div 16) = hex_digit (byte d div 16) \<and> hex_digit (byte c mod 16) = hex_digit (byte d mod 16)
        \<longleftrightarrow> byte c div 16 = byte d div 16 \<and> byte c mod 16 = byte d mod 16"
      by (simp add: hex_digit_inject)
    also have "\<dots> \<longleftrightarrow> byte c = byte d" by (metis div_mult_mod_eq)
    finally show ?thesis using Cons.IH [of b'] Cons by (auto simp: hex_encode_def)
  qed (simp add: hex_encode_def)
qed

section \<open>The signed binding\<close>

definition binding_payload_parts :: "string \<Rightarrow> string \<Rightarrow> string \<Rightarrow> nat \<Rightarrow> string \<Rightarrow> string list" where
  "binding_payload_parts purpose v user txid nonce =
     (if purpose = ''actor'' then [''actor''] else []) @ [v, user, decimal txid, nonce]"

lemma digit_not_line: "newline \<notin> set (decimal n)"
  using decimal_solid(2) [of n] by (auto simp: newline_def is_digit_def)

lemma hex_not_line: "newline \<notin> set (hex_encode k)"
  using hex_encode_hex [of k] by (auto simp: newline_def is_hex_def)

lemma bind_payload_split:
  assumes "newline \<notin> set v" "newline \<notin> set user" "newline \<notin> set nonce"
  shows "split_on newline (bind_payload purpose v user txid nonce) = binding_payload_parts purpose v user txid nonce"
  unfolding bind_payload_def binding_payload_parts_def Let_def
  using assms digit_not_line [of txid]
  by (cases "purpose = ''actor''") (simp_all add: split_join_on newline_def del: join_with.simps)

text \<open>
  C40: what is signed says what it is for: two bindings with the same signed text agree on the
  purpose, the tenant or account, the database role, the transaction and the nonce. A signature made
  for an account cannot be presented as one for a tenant, nor in another transaction.
\<close>

theorem bind_payload_separates:
  assumes "if purpose = ''actor'' then valid_actor_text v else valid_id v"
    and "if purpose' = ''actor'' then valid_actor_text v' else valid_id v'"
    and "newline \<notin> set user" and "newline \<notin> set user'"
    and "bind_payload purpose v user txid (hex_encode nonce) = bind_payload purpose' v' user' txid' (hex_encode nonce')"
  shows "(purpose = ''actor'' \<longleftrightarrow> purpose' = ''actor'') \<and> v = v' \<and> user = user' \<and> txid = txid' \<and> nonce = nonce'"
proof -
  have line: "newline \<notin> set v" "newline \<notin> set v'"
    using assms(1,2) valid_id_line by (auto simp: valid_actor_text_def newline_def split: if_splits)
  from arg_cong [OF assms(5), of "split_on newline"]
  have "binding_payload_parts purpose v user txid (hex_encode nonce) =
      binding_payload_parts purpose' v' user' txid' (hex_encode nonce')"
    by (simp only: bind_payload_split line assms(3,4) hex_not_line not_False_eq_True)
  then have "(purpose = ''actor'' \<longleftrightarrow> purpose' = ''actor'') \<and> v = v' \<and> user = user' \<and> decimal txid = decimal txid' \<and>
      hex_encode nonce = hex_encode nonce'"
    by (auto simp: binding_payload_parts_def split: if_splits)
  moreover have "decimal txid = decimal txid' \<Longrightarrow> txid = txid'" by (metis digits_value_decimal)
  ultimately show ?thesis by (simp add: hex_encode_inject)
qed

theorem bind_payload_separates_witness:
  "bind_payload ''tenant'' ''t'' ''app'' 7 (hex_encode ''k'') \<noteq> bind_payload ''actor'' ''t'' ''app'' 7 (hex_encode ''k'')"
proof
  assume eq: "bind_payload ''tenant'' ''t'' ''app'' 7 (hex_encode ''k'') = bind_payload ''actor'' ''t'' ''app'' 7 (hex_encode ''k'')"
  have "if ''tenant'' = ''actor'' then valid_actor_text ''t'' else valid_id ''t''"
    "if ''actor'' = ''actor'' then valid_actor_text ''t'' else valid_id ''t''"
    by (simp_all add: demo_ids valid_actor_text_def)
  from bind_payload_separates [OF this _ _ eq] show False by (simp add: newline_def)
qed

lemma bindContext_iff:
  assumes "\<And>k p. length (ss_mac ss k p) = 32" and "length (ss_nonce ss) = 16"
    and "\<And>q. ss_error ss q = None" and "if purpose = ''actor'' then valid_actor_text v else valid_id v"
  shows "bindContext ss purpose v secret = Inr () \<longleftrightarrow>
    (\<exists>held. ss_role_secret ss = Some held \<and>
       (let payload = bind_payload purpose v (ss_user ss) (ss_txid ss) (hex_encode (ss_nonce ss)) in
        ss_mac ss secret payload = ss_mac ss held payload))"
proof -
  have fits: "v \<noteq> []" "length v \<le> (if purpose = ''actor'' then 128 else 256)"
    "purpose = ''actor'' \<longrightarrow> CHR 0x0A \<notin> set v \<and> CHR 0x0D \<notin> set v"
    using assms(4) by (auto simp: valid_actor_text_def valid_id_def validateOpaqueID_def split: if_splits)
  have "list_all is_hex (hex_encode k)" for k using hex_encode_hex [of k] by (simp add: list_all_iff)
  with fits show ?thesis
    by (simp add: bindContext_def frame_call_def assms(1-3) Let_def sql_bind_accepts_def hex_encode_inject
        split: option.splits)
qed

definition demo_session :: "'s session" where
  "demo_session = \<lparr>ss_error = (\<lambda>_. None), ss_fault = (\<lambda>_ _. None), ss_txid = 7, ss_user = ''app'',
     ss_nonce = replicate 16 (CHR 0x00), ss_mac = (\<lambda>k p. take 32 (k @ p @ replicate 32 (CHR 0x00))),
     ss_role_secret = Some ''k'', ss_commit = Committed\<rparr>"

definition demo_pg_store :: pg_store where
  "demo_pg_store = \<lparr>st_secret = ''k'', st_maintenance = Some ''k''\<rparr>"

lemma demo_session_simps [simp]:
  "ss_error demo_session q = None" "ss_fault demo_session q s = None" "ss_role_secret demo_session = Some ''k''"
  "length (ss_mac demo_session k p) = 32" "length (ss_nonce demo_session) = 16" "ss_commit demo_session = Committed"
  "acknowledged demo_session" "st_secret demo_pg_store = ''k''" "st_maintenance demo_pg_store = Some ''k''"
  by (simp_all add: demo_session_def demo_pg_store_def acknowledged_def)

lemma demo_bind: "valid_id t \<Longrightarrow> bindTenant demo_session t ''k'' = Inr ()"
  unfolding bindTenant_def by (subst bindContext_iff) simp_all

text \<open>
  A transaction is bound exactly when its store signs with the secret the database holds for its
  role, as far as the MAC tells them apart: with a MAC of 32 bytes, a nonce of 16 bytes and no failing
  statement, \<open>bindContext\<close> succeeds if and only if the two MACs of the payload agree.
\<close>

theorem bindContext_exact:
  assumes "\<And>k p. length (ss_mac ss k p) = 32" and "length (ss_nonce ss) = 16"
    and "\<And>q. ss_error ss q = None" and "if purpose = ''actor'' then valid_actor_text v else valid_id v"
  shows "bindContext ss purpose v secret = Inr () \<longleftrightarrow>
    (\<exists>held. ss_role_secret ss = Some held \<and>
       (let payload = bind_payload purpose v (ss_user ss) (ss_txid ss) (hex_encode (ss_nonce ss)) in
        ss_mac ss secret payload = ss_mac ss held payload))"
  by (rule bindContext_iff [OF assms])

theorem bindContext_exact_witness:
  "bindContext (demo_session :: unit session) ''tenant'' ''t'' ''k'' = Inr () \<and>
   bindContext (demo_session :: unit session) ''tenant'' ''t'' ''x'' \<noteq> Inr ()"
proof -
  have "if ''tenant'' = ''actor'' then valid_actor_text ''t'' else valid_id ''t''" by (simp add: demo_ids)
  from bindContext_exact [OF _ _ _ this, of "demo_session :: unit session"] show ?thesis
    by (simp add: Let_def) (simp add: demo_session_def)
qed

section \<open>A concrete tenant\<close>

lemma demo_tx_pg: "bootstrap_tx (pg_tx (ss_fault demo_session) ''t'') demo_clock demo_provenance demo_input demo_role
    (map snd demo_grants) empty_tables = Inr ((), empty_tables
     \<lparr>db_roles := [demo_role], db_grants := map (\<lambda>g. (''t'', g)) (bi_grants demo_input),
      db_bindings := [owner_binding demo_clock demo_input],
      db_versions := [bootstrap_snapshot demo_clock demo_provenance demo_input demo_role (bi_grants demo_input)],
      db_audit := [bootstrap_event demo_clock demo_provenance demo_input],
      db_state := [\<lparr>tr_tenant = ''t'', tr_bootstrapped = True, tr_initiator = ''h'', tr_boot_at = Some 0,
        tr_purged = False, tr_purged_at = None\<rparr>]\<rparr>)"
  by (simp add: demo_grants_def bootstrap_tx_def pg_tx_def pg_is_bootstrapped_def pg_call_def sql_row_def
    empty_tables_def pg_insert_role_def sql_insert_def demo_role_def pg_insert_role_permission_grant_def
    sql_insert_new_def sql_references_def role_key_def demo_input_def pg_insert_subject_role_grant_def
    owner_binding_def binding_key_def pg_insert_role_version_def bootstrap_snapshot_def version_key_def
    pg_insert_mutation_audit_def bootstrap_event_def pg_mark_bootstrapped_def sql_exists_def demo_provenance_def
    demo_clock_def)

definition demo_tables :: tables where
  "demo_tables = empty_tables
     \<lparr>db_roles := [demo_role], db_grants := map (\<lambda>g. (''t'', g)) (bi_grants demo_input),
      db_bindings := [owner_binding demo_clock demo_input],
      db_versions := [bootstrap_snapshot demo_clock demo_provenance demo_input demo_role (bi_grants demo_input)],
      db_audit := [bootstrap_event demo_clock demo_provenance demo_input],
      db_state := [\<lparr>tr_tenant = ''t'', tr_bootstrapped = True, tr_initiator = ''h'', tr_boot_at = Some 0,
        tr_purged = False, tr_purged_at = None\<rparr>]\<rparr>"

lemma empty_state [simp]: "db_state empty_tables = []"
  by (simp add: empty_tables_def)

lemma demo_valid_t: "valid_id ''t''" "validateOpaqueID ''t'' = Inr ()"
  using demo_ids by (simp_all add: valid_id_def)

lemma demo_bootstrap_pg:
  "BootstrapTenant demo_manager (pg_tx (ss_fault demo_session) ''t'') (pg_mutator demo_pg_store demo_session)
     (\<lambda>_. Inr demo_provenance) demo_clock demo_input empty_tables = (Inr demo_role, demo_tables)"
proof -
  have t: "bi_tenant demo_input = ''t''" by (simp add: demo_input_def)
  have "pg_mutator demo_pg_store demo_session ''t''
      (bootstrap_tx (pg_tx (ss_fault demo_session) ''t'') demo_clock demo_provenance demo_input demo_role
        (map snd demo_grants)) empty_tables = (Inr (), demo_tables)"
    by (simp add: pg_mutator_def pg_MutateTenant_def demo_valid_t frame_call_def demo_bind isPurged_def sql_row_def
        demo_tx_pg pg_frame_run_def pg_commit_def demo_tables_def)
  then show ?thesis
    by (simp add: BootstrapTenant_def demo_valid demo_owner_grants demo_controls demo_owner_role t)
qed

lemma demo_run_pg: "pg_run demo_manager sink (empty_tables, a) (demo_tables, a)"
proof -
  have "BootstrapTenant demo_manager (pg_tx (ss_fault demo_session) (bi_tenant demo_input))
     (pg_mutator demo_pg_store demo_session) (\<lambda>_. Inr demo_provenance) demo_clock demo_input empty_tables =
     (Inr demo_role, demo_tables)"
    using demo_bootstrap_pg demo_owner(1) by simp
  from pg_step.bootstrap [OF this] show ?thesis unfolding pg_run_def by (intro r_into_rtranclp exI)
qed

lemma demo_inv_pg: "pg_inv demo_manager demo_tables"
  using pg_run_inv [OF demo_run_pg [of "\<lambda>_ a. (None, a)" "()"] pg_inv_empty] by blast

lemma demo_state_pg: "po_bootstrapped (pg_policy ''t'' demo_tables)" "\<not> pg_purged ''t'' (db_state demo_tables)"
  by (simp_all add: demo_tables_def pg_bootstrapped_def pg_purged_def row_at_def)

section \<open>Reachable states\<close>

text \<open>
  C10: the kernel keeps its promises on PostgreSQL. Whatever sequence of mutations, bootstraps,
  exports and purges runs against the tables, with statements failing at any point and commits lost
  on the way back, every tenant's rows satisfy the policy invariant, a bootstrapped tenant has a
  subject who holds all control permissions, and a purged tenant has no rows left.
\<close>

theorem pg_reachable_policy_ok:
  assumes "pg_run m sink (empty_tables, a) (s, a')"
  shows "policy_ok m t (pg_policy t s) \<and>
    (po_bootstrapped (pg_policy t s) \<longrightarrow> (\<exists>u. holds_all_controls (pg_policy t s) (mg_controls m) u)) \<and>
    (pg_purged t (db_state s) \<longrightarrow> pg_policy t s = empty_policy)"
proof -
  have "pg_inv m s" using pg_run_inv [OF assms pg_inv_empty] by blast
  then have "policy_ok m t (pg_policy t s)" "pg_purged t (db_state s) \<longrightarrow> pg_policy t s = empty_policy"
    unfolding pg_inv_def by blast+
  then show ?thesis by (auto simp: policy_ok_def admin_ok_def has_administrator_def simp del: pg_policy_simps)
qed

theorem pg_reachable_policy_ok_witness:
  "\<exists>u. holds_all_controls (pg_policy ''t'' demo_tables) (mg_controls demo_manager) u"
  using pg_reachable_policy_ok [OF demo_run_pg [of "\<lambda>_ a. (None, a)" "()"], of "''t''"] demo_state_pg(1) by blast

text \<open>
  C9: a manager call on PostgreSQL refines the abstract policy. When it reports success, the actor's
  tenant took exactly one \<open>policy_step\<close> and was not purged; when it reports an error, the tables are
  unchanged, unless the acknowledgement of the commit was lost, and then they took that step. No other
  tenant's rows change in any case.
\<close>

theorem pg_call_refines:
  assumes "pg_run m sink (empty_tables, a0) (s, a)"
    and "pg_manager_call m sink actor ack success (s, a) (s', a')"
  shows "(let stepped = \<not> pg_purged (pr_tenant actor) (db_state s) \<and>
        policy_step m actor (pg_policy (pr_tenant actor) s) (pg_policy (pr_tenant actor) s') in
      if success then stepped else s' = s \<or> \<not> ack \<and> stepped) \<and>
    (u \<noteq> pr_tenant actor \<longrightarrow> pg_policy u s' = pg_policy u s)"
proof -
  have "pg_inv m s" using pg_run_inv [OF assms(1) pg_inv_empty] by blast
  from pg_manager_call_outcome [OF assms(2) this] show ?thesis
    unfolding pg_outcome_def same_tenant_rows_def Let_def by (cases success) auto
qed

lemma demo_create_tx_pg:
  "\<exists>s'. createRole_tx demo_manager (pg_tx (ss_fault demo_session) ''t'') demo_clock demo_actor demo_meta
     (new_role demo_actor ''s'' ''w'' []) demo_tables = Inr ((), s')"
proof -
  have "requireActor (pg_tx (ss_fault demo_session) ''t'') demo_actor ''a:b:c'' ScopeTenant [] demo_tables = Inr ()"
    by (simp add: requireActor_def requireGrant_def pg_tx_def pg_list_effective_grants_def pg_call_def joined_grants_def
      demo_tables_def empty_tables_def owner_binding_def demo_input_def demo_role_def role_key_def demo_actor_def
      allowDelegation_def demo_clock_def validateEffectiveGrant_def validatePermissionKey_cases demo_keys
      validateOpaqueID_cases demo_ids)
  then show ?thesis
    by (simp add: createRole_tx_def pg_tx_def pg_insert_role_def pg_call_def sql_insert_def new_role_def role_key_def
      demo_tables_def empty_tables_def demo_role_def demo_actor_def pg_insert_role_version_def snapshot_of_def version_key_def
      bootstrap_snapshot_def sql_references_def pg_insert_mutation_audit_def demo_manager_def demo_input_def)
qed

lemma demo_call_pg:
  "\<exists>s'. pg_manager_call demo_manager sink demo_actor True True (demo_tables, a) (s', a)"
proof -
  obtain s' where body: "createRole_tx demo_manager (pg_tx (ss_fault demo_session) ''t'') demo_clock demo_actor demo_meta
     (new_role demo_actor ''s'' ''w'' []) demo_tables = Inr ((), s')" using demo_create_tx_pg by blast
  have "isPurged demo_session ''t'' demo_tables = Inr False"
    by (simp add: isPurged_def frame_call_def sql_row_def demo_tables_def)
  with body have "pg_mutator demo_pg_store demo_session ''t''
      (createRole_tx demo_manager (pg_tx (ss_fault demo_session) ''t'') demo_clock demo_actor demo_meta
        (new_role demo_actor ''s'' ''w'' [])) demo_tables = (Inr (), s')"
    by (simp add: pg_mutator_def pg_MutateTenant_def demo_valid_t frame_call_def demo_bind pg_frame_run_def pg_commit_def)
  moreover have t: "pr_tenant demo_actor = ''t''" by (simp add: demo_actor_def)
  ultimately have "CreateRole demo_manager (pg_tx (ss_fault demo_session) (pr_tenant demo_actor))
      (pg_mutator demo_pg_store demo_session) sink demo_clock demo_actor demo_meta demo_create demo_tables a =
      (Inr (new_role demo_actor ''s'' ''w'' [], \<lparr>mr_changed = True, mr_role_version = 1\<rparr>), s', a)"
    by (simp add: CreateRole_def demo_meta_ok demo_actor_ok demo_create_def validateOpaqueID_cases demo_ids
        validateRoleName_def trim_space_solid is_space_def runes_ascii control_rune_def in_transaction_def)
  from pg_manager_call.create_role [OF this] show ?thesis by auto
qed

theorem pg_call_refines_witness:
  "\<exists>s' :: tables. policy_step demo_manager demo_actor (pg_policy ''t'' demo_tables) (pg_policy ''t'' s')"
proof -
  obtain s' where call: "pg_manager_call demo_manager (\<lambda>_ a. (None, a)) demo_actor True True (demo_tables, ()) (s', ())"
    using demo_call_pg [of "\<lambda>_ a. (None, a)" "()"] by blast
  from pg_call_refines [OF demo_run_pg call, of "''t''"] show ?thesis by (auto simp: demo_actor_def Let_def)
qed

text \<open>
  C26: a tombstone in PostgreSQL is permanent and final: once a tenant is purged, no sequence of
  kernel calls brings the tenant back or gives it a role, a grant, a binding or an audit row.
\<close>

theorem pg_purge_permanent:
  assumes "pg_run m sink (empty_tables, a0) (s, a)" and "pg_purged t (db_state s)"
    and "pg_run m sink (s, a) (s', a')"
  shows "pg_purged t (db_state s') \<and> pg_policy t s' = empty_policy"
proof -
  have "pg_inv m s" using pg_run_inv [OF assms(1) pg_inv_empty] by blast
  from pg_run_inv [OF assms(3) this] assms(2) show ?thesis unfolding pg_inv_def by blast
qed

lemma demo_purge_pg:
  "\<exists>s'. PurgeTenant (pg_maintainer demo_pg_store demo_session) (\<lambda>_ _. Inr demo_provenance)
     (pg_maintenance (\<lambda>_. Inr []) (ss_fault demo_session) ''t'') (\<lambda>_ a. (None, a)) demo_clock ''t'' demo_meta
     demo_tables () = (Inr (), s', ()) \<and> pg_purged ''t'' (db_state s')"
proof -
  let ?intent = "purge_intent demo_clock demo_provenance ''t'' demo_meta"
  obtain r s' where run: "pg_purge (ss_fault demo_session) ''t'' ?intent demo_tables = Inr (r, s')"
    by (simp add: pg_purge_def tenantPurgeLedgerExists_def pg_call_def pg_purged_row_def purge_statements_def
        demo_tables_def sql_row_def sql_exists_def sql_insert_def empty_tables_def Let_def)
  then have "pg_maintainer demo_pg_store demo_session ''t''
      (pg_purge (ss_fault demo_session) ''t'' ?intent) demo_tables = (Inr r, s')"
    by (simp add: pg_maintainer_def pg_MaintainTenant_def demo_valid_t frame_call_def demo_bind pg_frame_run_def pg_commit_def)
  moreover have "validatePurge ''t'' demo_meta = Inr ()"
    by (simp add: validatePurge_def demo_valid_t demo_meta_def)
  ultimately show ?thesis
    using pg_purge_inv [OF run demo_inv_pg] by (simp add: PurgeTenant_def pg_maintenance_def Let_def)
qed

theorem pg_purge_permanent_witness:
  "\<exists>s' :: tables. pg_purged ''t'' (db_state s') \<and> pg_policy ''t'' s' = empty_policy"
proof -
  let ?sink = "\<lambda>_ a :: unit. (None, a)"
  obtain s' where call: "PurgeTenant (pg_maintainer demo_pg_store demo_session) (\<lambda>_ _. Inr demo_provenance)
     (pg_maintenance (\<lambda>_. Inr []) (ss_fault demo_session) ''t'') ?sink demo_clock ''t'' demo_meta
     demo_tables () = (Inr (), s', ())" and purged: "pg_purged ''t'' (db_state s')" using demo_purge_pg by blast
  have "pg_run demo_manager ?sink (demo_tables, ()) (s', ())"
    unfolding pg_run_def by (intro r_into_rtranclp exI) (rule pg_step.purge [OF call])
  with demo_run_pg [of ?sink "()"] have run: "pg_run demo_manager ?sink (empty_tables, ()) (s', ())"
    unfolding pg_run_def by (rule rtranclp_trans)
  have "pg_run demo_manager ?sink (s', ()) (s', ())" by (simp add: pg_run_def)
  from pg_purge_permanent [OF run purged this] show ?thesis by blast
qed

section \<open>Reading\<close>

text \<open>
  What the authorizer reads from PostgreSQL is the policy: when \<open>ListEffectiveGrants\<close> of the store
  answers, the answer holds exactly the grants the subject holds for the permission through a binding
  to a live role of the tenant, and nothing of any other tenant.
\<close>

theorem pg_effective_grants_exact:
  assumes "tables_ok s" and "pg_ListEffectiveGrants st ss t u permission s = Inr gs"
  shows "set gs = effective_grants (pg_policy t s) u permission"
proof -
  from assms(2) have "tx_list_effective_grants (pg_tx (ss_fault ss) t) u permission s = Inr gs"
    by (auto simp: pg_ListEffectiveGrants_def pg_ReadTenant_def pg_frame_run_def pg_commit_def pg_tx_def err_simps
        split: if_splits sum.splits prod.splits commit_result.splits)
  from pg.list_effective_grants [OF pg_frame_refl [OF assms(1)] this] show ?thesis .
qed

theorem pg_effective_grants_exact_witness:
  "pg_ListEffectiveGrants demo_pg_store demo_session ''t'' ''o'' ''a:b:c'' demo_tables =
     Inr [\<lparr>eg_role = ''w'', eg_permission = ''a:b:c'', eg_scope = ScopeTenant, eg_workspace_roles = []\<rparr>] \<and>
   \<lparr>eg_role = ''w'', eg_permission = ''a:b:c'', eg_scope = ScopeTenant, eg_workspace_roles = []\<rparr>
     \<in> effective_grants (pg_policy ''t'' demo_tables) ''o'' ''a:b:c''"
proof -
  have ok: "tables_ok demo_tables" using demo_inv_pg by (simp add: pg_inv_def)
  have read: "pg_ListEffectiveGrants demo_pg_store demo_session ''t'' ''o'' ''a:b:c'' demo_tables =
     Inr [\<lparr>eg_role = ''w'', eg_permission = ''a:b:c'', eg_scope = ScopeTenant, eg_workspace_roles = []\<rparr>]"
    by (simp add: pg_ListEffectiveGrants_def pg_ReadTenant_def demo_valid_t frame_call_def demo_bind pg_frame_run_def
      pg_commit_def pg_list_effective_grants_def pg_call_def joined_grants_def demo_tables_def empty_tables_def
      owner_binding_def demo_input_def demo_role_def role_key_def)
  with pg_effective_grants_exact [OF ok read] show ?thesis by (metis list.set_intros(1))
qed

end
