(* ===== verification/CoreDemo.thy ===== *)
theory CoreDemo
  imports CoreCalls PgSpec
begin

text \<open>
  A concrete installation the witnesses of the application run on: one organization \<open>''t''\<close> whose
  administrator \<open>''o''\<close> holds the seven permissions of the catalog, a second member \<open>''m''\<close>, and one
  session of each kind. Digests are the identity here, every password has the same hash, and the
  requests meet no failure and nobody else.
\<close>

definition demo_visit :: request where
  "demo_visit = \<lparr>rq_now = (\<lambda>_. 1), rq_db_now = 1, rq_random = (\<lambda>i. Some [char_of i]),
     rq_tx = (\<lambda>_. demo_session), rq_others = (\<lambda>_ s. s), rq_id = ''q''\<rparr>"

definition demo_service :: service where
  "demo_service = \<lparr>sv_idkey = (\<lambda>_ _ _ _ _ n. replicate (unat n) (CHR ''x'')), sv_digest = (\<lambda>token. token),
     sv_parse_address = Some, sv_orbit = (=), sv_lower = (\<lambda>email. email), sv_dummy = [], sv_sessions = 15 * minute,
     sv_refresh = 30 * day, sv_mode = ''multi'', sv_organization = [], sv_organization_name = [],
     sv_store = demo_pg_store, sv_manager = demo_manager\<rparr>"

definition demo_account :: "string \<Rightarrow> string \<Rightarrow> account_row" where
  "demo_account u hash = new_account u u u hash 0"

definition demo_member :: "string \<Rightarrow> membership_row" where
  "demo_member u = \<lparr>tm_tenant = ''t'', tm_account = u, tm_status = ''active'', tm_joined = 0\<rparr>"

definition demo_access :: "string \<Rightarrow> string \<Rightarrow> access_row" where
  "demo_access h u = \<lparr>as_hash = h, as_account = u, as_expires = 9, as_revoked = None, as_created = 0, as_seen = 0,
     as_remote = [], as_agent = [], as_family = ''f'', as_started = 0\<rparr>"

definition demo_refresh :: "string \<Rightarrow> string \<Rightarrow> refresh_row" where
  "demo_refresh h u = \<lparr>rs_hash = h, rs_account = u, rs_expires = 9, rs_revoked = None, rs_rotated = None, rs_created = 0,
     rs_remote = [], rs_agent = [], rs_family = ''f'', rs_started = 0\<rparr>"

definition demo_org :: tenant_row where
  "demo_org = \<lparr>tn_id = ''t'', tn_name = ''T'', tn_state = ''active'', tn_creator = ''o'', tn_version = 1,
     tn_created = 0, tn_updated = 0\<rparr>"

definition demo_core :: core_db where
  "demo_core = tables.extend (empty_tables
     \<lparr>db_roles := [demo_role], db_grants := map (\<lambda>g. (''t'', g)) (ownerGrants ''w''),
      db_bindings := [owner_binding demo_clock demo_input]\<rparr>)
     \<lparr>db_accounts = [demo_account ''o'' ''h'', demo_account ''m'' ''h''], db_admins = [(''o'', 0)],
      db_access = [demo_access ''as_1'' ''m''], db_refresh = [demo_refresh ''rs_1'' ''m''],
      db_tenants = [demo_org], db_memberships = [demo_member ''o'', demo_member ''m''], db_invitations = [],
      db_recoveries = [], db_operator_recoveries = []\<rparr>"

lemma demo_visit_simps [simp]:
  "rq_now demo_visit i = 1" "rq_db_now demo_visit = 1" "rq_random demo_visit i = Some [char_of i]"
  "rq_tx demo_visit i = demo_session" "rq_others demo_visit i s = s" "rq_id demo_visit = ''q''"
  by (simp_all add: demo_visit_def)

lemma demo_service_simps [simp]:
  "sv_digest demo_service token = token" "sv_mode demo_service = ''multi''" "sv_store demo_service = demo_pg_store"
  "tokenHash demo_service token = token"
  by (simp_all add: demo_service_def tokenHash_def)

lemma demo_core_simps [simp]:
  "db_accounts demo_core = [demo_account ''o'' ''h'', demo_account ''m'' ''h'']" "db_admins demo_core = [(''o'', 0)]"
  "db_access demo_core = [demo_access ''as_1'' ''m'']" "db_refresh demo_core = [demo_refresh ''rs_1'' ''m'']"
  "db_tenants demo_core = [demo_org]" "db_memberships demo_core = [demo_member ''o'', demo_member ''m'']"
  "db_invitations demo_core = []" "db_recoveries demo_core = []" "db_roles demo_core = [demo_role]"
  "db_grants demo_core = map (\<lambda>g. (''t'', g)) (ownerGrants ''w'')"
  "db_bindings demo_core = [owner_binding demo_clock demo_input]"
  by (simp_all add: demo_core_def tables.extend_def empty_tables_def)

lemmas demo_rows = demo_account_def new_account_def demo_member_def demo_access_def demo_refresh_def demo_org_def

lemma demo_core_inv: "core_inv demo_core"
  by (simp add: core_inv_parts keyed_def open_keyed_def demo_rows membership_key_def)

lemma demo_joined: "joined_grants ''t'' demo_core = map (\<lambda>p. (''o'', \<lparr>eg_role = ''w'',
    eg_permission = p, eg_scope = ScopeTenant, eg_workspace_roles = []\<rparr>))
  [PermissionRoleRead, PermissionRoleManage, PermissionGrantManage, PermissionRoleAssign,
   PermissionMemberRead, PermissionMemberManage, PermissionAuditRead]"
  by (simp add: joined_grants_def ownerGrants_def role_key_def demo_role_def owner_binding_def demo_input_def)

lemma demo_active: "active_member demo_core ''t'' u \<longleftrightarrow> u = ''o'' \<or> u = ''m''"
  by (auto simp: active_member_def sql_exists_def demo_rows membership_key_def)

lemma demo_administered: "administered demo_core ''t''"
proof -
  have "administers demo_core ''t'' ''o''"
    by (simp add: administers_def demo_active demo_joined administratorPermissions_def conj_disj_distribR ex_disj_distrib)
  then show ?thesis unfolding administered_def ..
qed

lemma demo_pool_tx: "pool_tx demo_session body s = (case body s of Inl e \<Rightarrow> (Inl e, s) | Inr (r, s') \<Rightarrow> (r, s'))"
  by (auto simp: pool_tx_def pg_frame_run_def pg_commit_def ebind_def split: sum.splits)

lemma demo_pool_exec: "pool_exec demo_session q f s = (case f s of Inl e \<Rightarrow> (Inl (sql_fail e), s) | Inr (r, s') \<Rightarrow> (Inr r, s'))"
  by (auto simp: pool_exec_def stmt_def pg_frame_run_def pg_commit_def split: sum.splits)

lemma demo_stmt [simp]: "stmt demo_session q s (Inr x) = Inr x"
  by (simp add: stmt_def)

lemma demo_run_tenant: "RunTenant demo_pg_store demo_session ''t'' False (Some f) s =
    (case f s of Inl e \<Rightarrow> (Inl e, s) | Inr (x, s') \<Rightarrow> (Inr x, s'))"
  by (auto simp: RunTenant_def demo_valid_t demo_bind frame_call_def pg_frame_run_def pg_commit_def ebind_def
      split: sum.splits)

end
