(* ===== verification/CoreSpec.thy ===== *)
theory CoreSpec
  imports CoreDemo
begin

text \<open>
  The application as a state machine, and what holds of every run. \<open>core_step\<close> has one rule per
  transaction that may change the tables, with arbitrary arguments and requests, so its runs contain
  every interleaving of the calls; the bodies of the kernel's mutations are the ones \<open>Manager\<close> hands to
  the policy store (\<open>CreateRole_attempted\<close> and its siblings). \<open>I\<close> holds the digests of the tokens drawn
  on the way.
\<close>

section \<open>The state machine\<close>

inductive core_step :: "service \<Rightarrow> string set \<Rightarrow> core_db \<Rightarrow> core_db \<Rightarrow> bool" for sv I where
  failed_login: "core_step sv I s (snd (record_failed_login rq now account s))"
| issue: "draws sv rq I \<Longrightarrow> fresh_family rq s \<Longrightarrow> core_step sv I s (snd (issueSession sv rq who remote agent hash s))"
| rotate: "draws sv rq I \<Longrightarrow> core_step sv I s (snd (Refresh sv rq rinput s))"
| touch: "core_step sv I s (snd (touch_session rq now digest s))"
| logout: "core_step sv I s (snd (logoutSessions sv rq access token s))"
| revoke_session: "core_step sv I s (snd (RevokeSession rq account family s))"
| revoke_others: "core_step sv I s (snd (revokeOtherSessions sv rq account token s))"
| profile: "core_step sv I s (snd (UpdateProfile rq account name s))"
| change_password: "core_step sv I s (snd (ChangePassword sv rq entropy account current new s))"
| recover_administrator: "core_step sv I s (snd (RecoverAdministrator sv rq entropy email password s))"
| prune: "core_step sv I s (snd (PruneSessions rq skip options s))"
| administrator: "ac_failed row = 0 \<Longrightarrow> core_step sv I s (snd (insert_administrator rq row s))"
| provision: "core_step sv I s (snd (provision_tx sv rq t email normalized hash new s))"
| invite: "draws sv rq I \<Longrightarrow> core_step sv I s (snd (CreateInvitation sv rq t actor email s))"
| revoke_invitation: "core_step sv I s (snd (RevokeInvitation sv rq t actor invitation s))"
| accept: "core_step sv I s (snd (accept_tx sv rq token password preview newHash newID s))"
| manage: "core_step sv I s (snd (ManageMember sv rq t actor account status remove s))"
| issue_recovery: "tokenHash sv token \<in> I \<Longrightarrow>
    core_step sv I s (snd (create_recovery_tx sv rq t actor target password recovery token s))"
| complete_recovery: "core_step sv I s (snd (complete_recovery_tx sv rq token t account hash s))"
| rename: "core_step sv I s (snd (rename_tx sv rq t actor name expected s))"
| new_tenant: "core_step sv I s (snd (pool_exec ss q (\<lambda>s. ebind (insert_tenant trow s) (\<lambda>s. Inr ((), s))) s))"
| bootstrap: "core_step sv I s (snd (BootstrapTenant m (pg_tx (ss_fault ss) (bi_tenant binput))
    (pg_mutator (sv_store sv) ss) authorizer clk binput s))"
| activate: "core_step sv I s (snd (activate_owner sv rq t actor created s))"
| fail_tenant: "core_step sv I s (snd (failCreatedTenant sv rq i account t cause s))"
| security_event: "core_step sv I s (snd (RecordSecurityEvent sv ss event s))"
| create_role: "core_step sv I s (snd (core_MutateTenant sv ss gd (pr_tenant p)
    (createRole_tx m (core_policy_tx ss (pr_tenant p)) clk p meta r) s))"
| create_role_with_permissions: "core_step sv I s (snd (core_MutateTenant sv ss gd (pr_tenant p)
    (createRoleWithPermissions_tx m (core_policy_tx ss (pr_tenant p)) clk p meta r ps) s))"
| update_role: "core_step sv I s (snd (core_MutateTenant sv ss gd (pr_tenant p)
    (updateRole_tx m (core_policy_tx ss (pr_tenant p)) clk p meta uinput) s))"
| delete_role: "core_step sv I s (snd (core_MutateTenant sv ss gd (pr_tenant p)
    (deleteRole_tx m (core_policy_tx ss (pr_tenant p)) clk p meta dinput) s))"
| grant_permission: "core_step sv I s (snd (core_MutateTenant sv ss gd (pr_tenant p)
    (grantPermission_tx (core_policy_tx ss (pr_tenant p)) clk p meta ginput g) s))"
| revoke_permission: "core_step sv I s (snd (core_MutateTenant sv ss gd (pr_tenant p)
    (revokePermission_tx m (core_policy_tx ss (pr_tenant p)) clk p meta ginput g) s))"
| assign_role: "core_step sv I s (snd (core_MutateTenant sv ss gd (pr_tenant p)
    (assignRole_tx m (core_policy_tx ss (pr_tenant p)) clk p meta ainput) s))"
| unassign_role: "core_step sv I s (snd (core_MutateTenant sv ss gd (pr_tenant p)
    (unassignRole_tx m (core_policy_tx ss (pr_tenant p)) clk p meta ainput) s))"

lemmas transaction_leads = record_failed_login_leads issueSession_leads Refresh_leads touch_session_leads
  logoutSessions_leads RevokeSession_leads revokeOtherSessions_leads UpdateProfile_leads ChangePassword_leads
  RecoverAdministrator_leads PruneSessions_leads insert_administrator_leads provision_tx_leads CreateInvitation_leads
  RevokeInvitation_leads accept_tx_leads ManageMember_leads create_recovery_tx_leads complete_recovery_tx_leads
  rename_tx_leads insert_tenant_leads BootstrapTenant_leads activate_owner_leads failCreatedTenant_leads
  RecordSecurityEvent_leads

lemma core_step_changes:
  assumes "core_step sv I s s'" and "core_inv s"
  shows "(change I)\<^sup>*\<^sup>* s s'"
  using assms(1)
  by cases (insert assms(2), (simp only:, rule transaction_leads; assumption)+,
    (simp only:, rule core_MutateTenant_leads, erule core_frame.bodies)+)

lemma changes_inv: "(change I)\<^sup>*\<^sup>* s s' \<Longrightarrow> core_inv s \<Longrightarrow> core_inv s'"
  by (induction rule: rtranclp_induct) (auto intro: change_inv)

lemma changes_administered: "(change I)\<^sup>*\<^sup>* s s' \<Longrightarrow> administered s t \<Longrightarrow> administered s' t"
  by (induction rule: rtranclp_induct) (auto intro: change_administered)

lemma changes_spent: "(change I)\<^sup>*\<^sup>* s s' \<Longrightarrow> spent s h \<Longrightarrow> h \<notin> I \<Longrightarrow> spent s' h"
  by (induction rule: rtranclp_induct) (auto intro: change_spent)

text \<open>A run, with what it keeps.\<close>

lemma core_run_changes:
  assumes "(core_step sv I)\<^sup>*\<^sup>* s s'" and "core_inv s"
  shows "(change I)\<^sup>*\<^sup>* s s' \<and> core_inv s'"
  using assms
proof (induction rule: rtranclp_induct)
  case (step s1 s2)
  then have "(change I)\<^sup>*\<^sup>* s s1" "core_inv s1" by simp_all
  with core_step_changes [OF step.hyps(2)] show ?case by (meson rtranclp_trans changes_inv)
qed simp

definition empty_core :: core_db where
  "empty_core = tables.extend empty_tables \<lparr>db_accounts = [], db_admins = [], db_access = [], db_refresh = [],
     db_tenants = [], db_memberships = [], db_invitations = [], db_recoveries = [], db_operator_recoveries = []\<rparr>"


section \<open>What every reachable installation keeps\<close>

lemma empty_core_inv: "core_inv empty_core"
  by (simp add: empty_core_def tables.extend_def empty_tables_def core_inv_parts)

text \<open>
  C5: In every installation reached from empty tables by the application's transactions, in any
  order and interleaving, with any failures of the database: accounts, organizations, memberships,
  sessions, invitations and recoveries have their keys and their references; at most one
  administrator was bootstrapped; no account has five counted failures; a rotated refresh token is
  revoked and a device family has at most one live refresh token; an invitation is never both accepted
  and revoked, a recovery never both consumed and revoked, and an e-mail (an account) has at most one
  pending invitation per organization (one pending recovery).
\<close>

theorem core_reachable_inv:
  assumes "(core_step sv I)\<^sup>*\<^sup>* empty_core s"
  shows "core_inv s"
  using core_run_changes [OF assms empty_core_inv] by blast

theorem core_reachable_inv_witness:
  "core_inv (snd (insert_administrator demo_visit (demo_account ''o'' ''h'') empty_core)) \<and>
   db_admins (snd (insert_administrator demo_visit (demo_account ''o'' ''h'') empty_core)) = [(''o'', 0)]"
proof -
  have zero: "ac_failed (demo_account ''o'' ''h'') = 0" by (simp add: demo_rows)
  have inv: "core_inv (snd (insert_administrator demo_visit (demo_account ''o'' ''h'') empty_core))"
    by (rule core_reachable_inv, rule r_into_rtranclp, rule core_step.administrator, rule zero)
  have "insert_account (demo_account ''o'' ''h'') empty_core = Inr (empty_core\<lparr>db_accounts := [demo_account ''o'' ''h'']\<rparr>)"
    by (simp add: insert_rows empty_core_def tables.extend_def)
  then have "db_admins (snd (insert_administrator demo_visit (demo_account ''o'' ''h'') empty_core)) = [(''o'', 0)]"
    by (simp add: insert_administrator_def Let_def demo_pool_tx)
      (simp add: empty_core_def tables.extend_def demo_rows sql_insert_def)
  with inv show ?thesis by blast
qed

text \<open>
  C4: An organization that has an active member holding all four administrator permissions at tenant
  scope still has one after any run of the application: no role change, unassignment, suspension,
  removal, rename or failure takes away the last administrator.
\<close>

theorem core_keeps_administrator:
  assumes "core_inv s" and "(core_step sv I)\<^sup>*\<^sup>* s s'" and "administered s t"
  shows "administered s' t"
  using core_run_changes [OF assms(2,1)] assms(3) by (blast intro: changes_administered)

theorem core_keeps_administrator_witness:
  "administered (snd (ManageMember demo_service demo_visit ''t'' ''o'' ''o'' ''suspended'' False demo_core)) ''t''"
  by (rule core_keeps_administrator [OF demo_core_inv _ demo_administered], rule r_into_rtranclp, rule core_step.manage)

section \<open>Spent tokens\<close>

lemma spent_access: "spent s h \<Longrightarrow> sql_row (\<lambda>r. as_hash r = h \<and> live_access now r) (db_access s) = Inl NoRows"
  by (auto simp: spent_def sql_row_Inl live_access_def)

lemma spent_refresh: "spent s h \<Longrightarrow> sql_row (\<lambda>r. rs_hash r = h) (db_refresh s) = Inr r \<Longrightarrow> rs_revoked r \<noteq> None"
  by (auto simp: spent_def dest!: sql_row_Inr)

lemma spent_invitation: "spent s h \<Longrightarrow> sql_row (\<lambda>i. iv_hash i = h \<and> open_invitation now i) (db_invitations s) = Inl NoRows"
  by (auto simp: spent_def sql_row_Inl open_invitation_def pending_invitation_def)

lemma spent_recovery: "spent s h \<Longrightarrow> sql_row (\<lambda>r. rc_hash r = h \<and> open_recovery now r) (db_recoveries s) = Inl NoRows"
  by (auto simp: spent_def sql_row_Inl open_recovery_def pending_recovery_def)

lemma isl_stmt: "isl r \<Longrightarrow> isl (stmt ss q s r)"
  by (auto simp: stmt_def split: option.splits sum.splits)

lemma isl_ebind: "isl m \<Longrightarrow> isl (ebind m f)"
  by (cases m) simp_all

lemma isl_no_rows: "isl r \<Longrightarrow> isl (on_no_rows e r)"
  by (cases r) (simp_all add: on_no_rows_def)

lemmas isl_intros = isl_stmt isl_ebind isl_no_rows

text \<open>A transaction whose body commits nothing but errors answers with an error.\<close>

definition refuses :: "error + (error + 'r) \<times> core_db \<Rightarrow> bool" where
  "refuses m \<longleftrightarrow> (\<forall>r s'. m = Inr (r, s') \<longrightarrow> isl r)"

lemma pool_tx_refuses: "refuses (body s) \<Longrightarrow> isl (fst (pool_tx ss body s))"
  by (auto simp: pool_tx_def pg_frame_run_def pg_commit_def refuses_def ebind_def
      split: sum.splits option.splits commit_result.splits)

lemma spent_Authenticate: "spent s (tokenHash sv token) \<Longrightarrow> isl (fst (Authenticate sv rq token s))"
proof -
  assume "spent s (tokenHash sv token)"
  then have "isl (on_no_rows ErrSessionInvalid (pool_query (rq_tx rq 0) ''authenticate'' (\<lambda>s.
       ebind (sql_row (\<lambda>r. as_hash r = tokenHash sv token \<and> live_access (rq_db_now rq) r) (db_access s)) (\<lambda>r.
       ebind (sql_row (\<lambda>a. ac_id a = as_account r) (db_accounts s)) (\<lambda>a. Inr (account_of s a, ac_status a)))) s))"
    unfolding pool_query_def by (intro isl_intros) (simp add: spent_access)
  then show ?thesis by (auto simp: Authenticate_def Let_def split: sum.splits)
qed

lemma refuses_read: "(\<And>x. m = Inr x \<Longrightarrow> refuses (f x)) \<Longrightarrow> refuses (ebind m f)"
  by (auto simp: refuses_def err_simps)

lemma refuses_Inl: "refuses (Inl e)" and refuses_error: "refuses (Inr (Inl e, s))"
  by (simp_all add: refuses_def)

lemma refuses_if: "(b \<Longrightarrow> refuses m) \<Longrightarrow> (\<not> b \<Longrightarrow> refuses n) \<Longrightarrow> refuses (if b then m else n)"
  by simp

lemma spent_Refresh: "spent s (tokenHash sv (ri_token input)) \<Longrightarrow> isl (fst (Refresh sv rq input s))"
proof (cases "\<not> has_prefix (ri_token input) ''rs_'' \<or> length (ri_token input) > 160")
  case long: False
  assume spent: "spent s (tokenHash sv (ri_token input))"
  show ?thesis
  proof (cases "ebind (randomID rq 0 ''as_'' 32) (\<lambda>access.
            ebind (randomID rq 1 ''rs_'' 40) (\<lambda>nextRefresh. Inr (access, nextRefresh)))")
    case (Inr drawn)
    obtain access token where d: "drawn = (access, token)" by (cases drawn)
    show ?thesis unfolding Refresh_def if_not_P [OF long] Inr d sum.case prod.case Let_def
      apply (rule pool_tx_refuses, rule refuses_read, rule refuses_read)
      apply (simp only: split_paired_all prod.case)
      apply (rule refuses_if, rule refuses_Inl, rule refuses_if, rule refuses_read, rule refuses_read, rule refuses_error)
      apply (rule refuses_if, rule refuses_Inl)
      apply (auto simp: err_simps dest: spent_refresh [OF spent])
      done
  qed (use long in \<open>simp add: Refresh_def\<close>)
qed (simp add: Refresh_def)

lemma spent_AcceptInvitation: "spent s (tokenHash sv token) \<Longrightarrow> isl (fst (AcceptInvitation sv rq entropy token password s))"
proof -
  assume spent: "spent s (tokenHash sv token)"
  have "isl (PreviewInvitation sv rq token s)"
    unfolding PreviewInvitation_def pool_query_def inspect_invitation_def
    by (auto intro!: isl_intros simp: spent_invitation [OF spent])
  then obtain e where "PreviewInvitation sv rq token s = Inl e" by (auto simp: isl_def)
  then show ?thesis by (simp add: AcceptInvitation_def)
qed

lemma spent_CompletePasswordRecovery:
  "spent s (tokenHash sv token) \<Longrightarrow> isl (fst (CompletePasswordRecovery sv rq entropy token password s))"
proof -
  assume spent: "spent s (tokenHash sv token)"
  have "isl (recoveryTarget sv rq token s)" unfolding recoveryTarget_def pool_query_def
    by (auto intro!: isl_intros simp: spent_recovery [OF spent])
  then obtain e where "recoveryTarget sv rq token s = Inl e" by (auto simp: isl_def)
  then show ?thesis by (simp add: CompletePasswordRecovery_def)
qed

text \<open>
  C6: Once no row with the digest of a token is live (the access token is revoked, the refresh token
  rotated or revoked, the invitation accepted or revoked, the recovery consumed or revoked), the token
  opens nothing any more: after any run that does not draw a token of the same digest,
  authentication, rotation, acceptance and recovery all answer with an error.
\<close>

theorem spent_token_stays_useless:
  assumes "core_inv s" and "(core_step sv I)\<^sup>*\<^sup>* s s'" and "spent s (tokenHash sv token)" and "tokenHash sv token \<notin> I"
  shows "isl (fst (Authenticate sv rq token s')) \<and>
    isl (fst (Refresh sv rq \<lparr>ri_token = token, ri_remote = remote, ri_agent = agent\<rparr> s')) \<and>
    isl (fst (AcceptInvitation sv rq entropy token password s')) \<and>
    isl (fst (CompletePasswordRecovery sv rq entropy token password s'))"
proof -
  have "spent s' (tokenHash sv token)"
    using core_run_changes [OF assms(2,1)] assms(3,4) by (blast intro: changes_spent)
  then show ?thesis
    by (simp add: spent_Authenticate spent_Refresh spent_AcceptInvitation spent_CompletePasswordRecovery)
qed

theorem spent_token_stays_useless_witness:
  "isl (fst (Authenticate demo_service demo_visit ''as_1''
     (snd (record_failed_login demo_visit 1 ''m'' (snd (logoutSessions demo_service demo_visit ''as_1'' [] demo_core))))))"
proof -
  let ?s = "snd (logoutSessions demo_service demo_visit ''as_1'' [] demo_core)"
  have families: "token_families (Some ''as_1'') None demo_core = [(''m'', ''f'')]"
    by (simp add: token_families_def demo_rows)
  have s: "?s = revoke_refresh (\<lambda>r. (rs_account r, rs_family r) \<in> {(''m'', ''f'')}) 1
      (revoke_access (\<lambda>r. (as_account r, as_family r) \<in> {(''m'', ''f'')}) 1 demo_core)"
    by (simp add: logoutSessions_def Let_def demo_pool_tx has_prefix_def families)
  have "core_inv ?s" by (rule core_run_changes [THEN conjunct2, OF r_into_rtranclp, OF core_step.logout demo_core_inv])
  moreover have "spent ?s ''as_1''" unfolding s
    by (simp add: spent_def revoke_refresh_def revoke_access_def coalesce_def demo_rows sql_update_def)
  ultimately show ?thesis
    using spent_token_stays_useless [of ?s demo_service "{}" _ "''as_1''", OF _ r_into_rtranclp, OF _ core_step.failed_login]
    by simp
qed

end
