(* ===== verification/CoreFlows.thy ===== *)
theory CoreFlows
  imports CoreDemo
begin

text \<open>
  What the calls of the application do when they succeed: a new password ends every way into the
  account, a rotation leaves one live token in its family and a replay ends them all, five failures lock
  an account, and pruning removes only what has expired.
\<close>

section \<open>Answers of a transaction\<close>

lemma pool_tx_Inr: "pool_tx ss body s = (Inr x, s') \<Longrightarrow> body s = Inr (Inr x, s')"
  by (auto simp: pool_tx_def pg_frame_run_def pg_commit_def ebind_def
      split: sum.splits option.splits commit_result.splits prod.splits)

lemma run_tenant_Inr: "RunTenant st ss t ro (Some f) s = (Inr x, s') \<Longrightarrow> f s = Inr (x, s')"
  by (auto simp: RunTenant_def pg_frame_run_def pg_commit_def err_simps
      split: sum.splits commit_result.splits prod.splits if_split_asm)

section \<open>The end of every session\<close>

definition same_but :: "('r \<Rightarrow> string) \<Rightarrow> string \<Rightarrow> 'r list \<Rightarrow> 'r list \<Rightarrow> bool" where
  "same_but owner u t t' \<longleftrightarrow> filter (\<lambda>r. owner r \<noteq> u) t' = filter (\<lambda>r. owner r \<noteq> u) t"

lemma same_but_refl [simp]: "same_but owner u t t"
  by (simp add: same_but_def)

lemma same_but_update:
  assumes "\<And>r. r \<in> set t \<Longrightarrow> P r \<Longrightarrow> owner r = u \<and> owner (f r) = u"
  shows "same_but owner u t (sql_update P f t)"
  using assms by (induction t) (auto simp: same_but_def sql_update_def)

definition signed_out :: "string \<Rightarrow> core_db \<Rightarrow> core_db \<Rightarrow> bool" where
  "signed_out u s s' \<longleftrightarrow>
     (\<forall>r \<in> set (db_access s'). as_account r = u \<longrightarrow> as_revoked r \<noteq> None) \<and>
     (\<forall>r \<in> set (db_refresh s'). rs_account r = u \<longrightarrow> rs_revoked r \<noteq> None \<and> rs_rotated r = None) \<and>
     (\<forall>r \<in> set (db_recoveries s'). rc_account r = u \<longrightarrow> \<not> pending_recovery r) \<and>
     same_but as_account u (db_access s) (db_access s') \<and> same_but rs_account u (db_refresh s) (db_refresh s') \<and>
     same_but rc_account u (db_recoveries s) (db_recoveries s')"

definition password_set :: "string \<Rightarrow> string \<Rightarrow> core_db \<Rightarrow> core_db \<Rightarrow> bool" where
  "password_set u hash s s' \<longleftrightarrow>
     (\<forall>a \<in> set (db_accounts s'). ac_id a = u \<longrightarrow> ac_hash a = hash \<and> ac_failed a = 0 \<and> ac_locked a = None) \<and>
     map ac_id (db_accounts s') = map ac_id (db_accounts s) \<and> same_but ac_id u (db_accounts s) (db_accounts s')"

lemma coalesce_Some [simp]: "\<exists>t. coalesce old now = Some t"
  by (cases old) (simp_all add: coalesce_def)

lemma ball_sql_update: "(\<forall>r \<in> set (sql_update P f t). Q r) \<longleftrightarrow> (\<forall>r \<in> set t. if P r then Q (f r) else Q r)"
  by (auto simp: sql_update_def)

lemma revokeCredentialSessions_ends:
  assumes "revokeCredentialSessions ss now u s = Inr s'"
  shows "signed_out u s s' \<and> db_accounts s' = db_accounts s"
proof -
  let ?P = "\<lambda>r. as_account r = u \<and> as_revoked r = None"
  let ?Q = "\<lambda>r. rs_account r = u \<and> (rs_revoked r = None \<or> rs_rotated r \<noteq> None)"
  let ?R = "\<lambda>r. rc_account r = u \<and> rc_consumed r = None \<and> rc_revoked r = None"
  from assms have s': "s' = s
      \<lparr>db_access := sql_update ?P (\<lambda>r. r\<lparr>as_revoked := coalesce (as_revoked r) now\<rparr>) (db_access s),
       db_refresh := sql_update ?Q (\<lambda>r. r\<lparr>rs_revoked := coalesce (rs_revoked r) now, rs_rotated := None\<rparr>) (db_refresh s),
       db_recoveries := sql_update ?R (\<lambda>r. r\<lparr>rc_revoked := Some now\<rparr>) (db_recoveries s)\<rparr>"
    by (simp add: revokeCredentialSessions_def revoke_access_def err_simps)
  have "same_but as_account u (db_access s) (db_access s')" "same_but rs_account u (db_refresh s) (db_refresh s')"
    "same_but rc_account u (db_recoveries s) (db_recoveries s')"
    unfolding s' by (simp, rule same_but_update, simp)+
  then show ?thesis unfolding signed_out_def by (simp add: s' ball_sql_update pending_recovery_def)
qed

lemma password_update_set:
  "password_set u hash s (s\<lparr>db_accounts := sql_update (\<lambda>a. ac_id a = u)
     (\<lambda>a. a\<lparr>ac_hash := hash, ac_failed := 0, ac_locked := None, ac_updated := now\<rparr>) (db_accounts s)\<rparr>)"
  unfolding password_set_def by (simp add: ball_sql_update map_key_update same_but_update)

text \<open>The two steps every change of a password ends with.\<close>

lemma set_and_revoke:
  assumes "stmt ss q s (Inr (s\<lparr>db_accounts := sql_update (\<lambda>a. ac_id a = u)
     (\<lambda>a. a\<lparr>ac_hash := hash, ac_failed := 0, ac_locked := None, ac_updated := now\<rparr>) (db_accounts s)\<rparr>)) = Inr s1"
    and "revokeCredentialSessions ss later u s1 = Inr s2"
  shows "password_set u hash s s2 \<and> signed_out u s s2"
proof -
  from assms(1) have s1: "s1 = s\<lparr>db_accounts := sql_update (\<lambda>a. ac_id a = u)
     (\<lambda>a. a\<lparr>ac_hash := hash, ac_failed := 0, ac_locked := None, ac_updated := now\<rparr>) (db_accounts s)\<rparr>" by (rule stmt_id)
  from revokeCredentialSessions_ends [OF assms(2)] have "signed_out u s1 s2" "db_accounts s2 = db_accounts s1" by simp_all
  moreover have "password_set u hash s s1" unfolding s1 by (rule password_update_set)
  ultimately show ?thesis unfolding s1 by (simp add: password_set_def signed_out_def)
qed

section \<open>New passwords\<close>

text \<open>The stored hash accepts the password it was made from.\<close>

lemma hash_verifies:
  assumes "Hash (sv_idkey sv) entropy (Some core_hasher) password = Inr hash"
    and "\<And>salt. entropy 16 = Some salt \<Longrightarrow> length salt = 16" and "\<And>p s t m l k. length (sv_idkey sv p s t m l k) = unat k"
  shows "verify_password sv password hash"
proof -
  from assms(1) obtain salt where salt: "entropy 16 = Some salt" and valid: "validPasswordInput password"
    and config: "validArgon2Config (ph_memory core_hasher) (ph_iterations core_hasher) (ph_parallelism core_hasher) (ph_key_len core_hasher)"
    and hash: "hash = hash_text core_hasher salt (idkey_of (sv_idkey sv) core_hasher password salt)"
    by (auto simp: Hash_def argon2SaltLength_def split: if_splits option.splits)
  have key: "length (idkey_of (sv_idkey sv) core_hasher password salt) = unat (ph_key_len core_hasher)"
    by (simp add: idkey_of_def assms(3))
  show ?thesis unfolding verify_password_def hash using Verify_hash_text [OF config assms(2) [OF salt] key] valid by simp
qed

text \<open>
  C20: A successful change of the password was asked for an active, unlocked account with the right
  current password and a different, valid new one; afterwards the account is unlocked, its stored hash
  accepts the new password, every session of the account is revoked, no rotated token remembers a
  successor, no recovery is pending, and the rows of every other account are as they were.
\<close>

theorem ChangePassword_success:
  assumes "ChangePassword sv rq entropy u current new s = (Inr (), s')"
    and "\<And>salt. entropy 16 = Some salt \<Longrightarrow> length salt = 16" and "\<And>p s t m l k. length (sv_idkey sv p s t m l k) = unat k"
  shows "(\<exists>a \<in> set (db_accounts s). ac_id a = u \<and> ac_status a = ''active'' \<and> \<not> locked_at (ac_locked a) (rq_now rq 0) \<and>
      verify_password sv current (ac_hash a)) \<and> current \<noteq> new \<and> validBootstrapPassword new \<and>
    (\<exists>hash. verify_password sv new hash \<and> password_set u hash s s') \<and> signed_out u s s'"
proof -
  from assms(1) have ok: "\<not> (\<not> validBootstrapPassword new \<or> current = new)"
    by (auto simp: ChangePassword_def split: if_split_asm)
  with assms(1) obtain hash where h: "Hash (sv_idkey sv) entropy (Some core_hasher) new = Inr hash"
    by (auto simp: ChangePassword_def split: sum.split_asm)
  note run = assms(1) [unfolded ChangePassword_def if_not_P [OF ok] h sum.case Let_def, THEN pool_tx_Inr]
  from run obtain a s1 s2 where a: "sql_row (\<lambda>a. ac_id a = u \<and> ac_status a = ''active'') (db_accounts s) = Inr a"
    "\<not> locked_at (ac_locked a) (rq_now rq 0)" "verify_password sv current (ac_hash a)"
    and set: "stmt (rq_tx rq 0) ''set_password'' s (Inr (s\<lparr>db_accounts := sql_update (\<lambda>a. ac_id a = u)
       (\<lambda>a. a\<lparr>ac_hash := hash, ac_failed := 0, ac_locked := None, ac_updated := rq_now rq 1\<rparr>) (db_accounts s)\<rparr>)) = Inr s1"
    and revoke: "revokeCredentialSessions (rq_tx rq 0) (rq_db_now rq) u s1 = Inr s2" and "s' = s2"
    by (auto simp: ebind_eq_Inr stmt_Inr failedPassword_def split: if_split_asm)
  from set_and_revoke [OF set revoke] have "password_set u hash s s'" "signed_out u s s'" by (simp_all add: \<open>s' = s2\<close>)
  moreover have "verify_password sv new hash" by (rule hash_verifies [OF h assms(2,3)])
  ultimately show ?thesis using a sql_row_Inr [OF a(1)] ok by blast
qed

definition demo_old :: string where "demo_old = ''aaaaaaaaaaaa''"
definition demo_new :: string where "demo_new = ''bbbbbbbbbbbb''"

lemma demo_passwords:
  "validBootstrapPassword demo_old" "validBootstrapPassword demo_new" "demo_old \<noteq> demo_new"
  "validPasswordInput demo_old" "validPasswordInput demo_new"
  by (simp_all add: demo_old_def demo_new_def validBootstrapPassword_def validPasswordInput_def valid_string_ascii
      runes_ascii argon2_limits)

definition demo_entropy :: entropy where
  "demo_entropy = (\<lambda>n. Some (replicate n (CHR ''s'')))"

lemma demo_kdf:
  "demo_entropy 16 = Some salt \<Longrightarrow> length salt = 16" "length (sv_idkey demo_service p s t m l k) = unat k"
  by (auto simp: demo_entropy_def demo_service_def)

lemma demo_hash:
  assumes "validPasswordInput password"
  shows "\<exists>hash. Hash (sv_idkey demo_service) demo_entropy (Some core_hasher) password = Inr hash \<and>
    verify_password demo_service password hash"
proof -
  have "validArgon2Config (64 * 1024) 3 2 32" by (simp add: validArgon2Config_iff)
  with assms obtain hash where h: "Hash (sv_idkey demo_service) demo_entropy (Some core_hasher) password = Inr hash"
    by (simp add: Hash_def core_hasher_def NewPasswordHasher_def demo_entropy_def)
  moreover have "verify_password demo_service password hash"
    by (rule hash_verifies [OF h demo_kdf])
  ultimately show ?thesis by blast
qed

theorem ChangePassword_success_witness:
  "\<exists>old s'. ChangePassword demo_service demo_visit demo_entropy ''m'' demo_old demo_new
       (demo_core\<lparr>db_accounts := [demo_account ''m'' old]\<rparr>) = (Inr (), s') \<and>
     db_access s' \<noteq> [] \<and> (\<forall>r \<in> set (db_access s'). as_account r = ''m'' \<longrightarrow> as_revoked r \<noteq> None)"
proof -
  obtain old where old: "verify_password demo_service demo_old old" using demo_hash demo_passwords by blast
  obtain hash where hash: "Hash (sv_idkey demo_service) demo_entropy (Some core_hasher) demo_new = Inr hash"
    using demo_hash demo_passwords by blast
  obtain s' where run: "ChangePassword demo_service demo_visit demo_entropy ''m'' demo_old demo_new
       (demo_core\<lparr>db_accounts := [demo_account ''m'' old]\<rparr>) = (Inr (), s')" and rows: "db_access s' \<noteq> []"
    by (simp add: ChangePassword_def hash demo_passwords demo_pool_tx sql_row_def demo_rows locked_at_def old
        revokeCredentialSessions_def revoke_access_def sql_update_def)
  from ChangePassword_success [OF run demo_kdf] have "signed_out ''m'' (demo_core\<lparr>db_accounts := [demo_account ''m'' old]\<rparr>) s'"
    by blast
  with run rows show ?thesis by (auto simp: signed_out_def)
qed

section \<open>Recovered passwords\<close>

lemma sql_affected_1: "sql_affected P t = 1 \<Longrightarrow> \<exists>r \<in> set t. P r"
  using sql_affected_0 [of P t] by (auto simp: sql_exists_def)

lemma recoveryTarget_row:
  assumes "\<forall>r \<in> set (db_recoveries s). rc_hash r = tokenHash sv token \<longrightarrow> \<not> pending_recovery r"
  shows "isl (fst (CompletePasswordRecovery sv rq entropy token password s))"
proof -
  have "sql_row (\<lambda>r. rc_hash r = tokenHash sv token \<and> open_recovery now r) (db_recoveries s) = Inl NoRows" for now
    using assms by (auto simp: sql_row_Inl open_recovery_def pending_recovery_def)
  then have "isl (recoveryTarget sv rq token s)"
    by (simp add: recoveryTarget_def pool_query_def stmt_def on_no_rows_def split: option.split sum.split)
  then obtain e where "recoveryTarget sv rq token s = Inl e" by (auto simp: isl_def)
  then show ?thesis by (simp add: CompletePasswordRecovery_def)
qed

lemma complete_recovery_tx_Inr:
  assumes "complete_recovery_tx sv rq token t u hash s = (Inr (), s')"
  shows "\<exists>r \<in> set (db_recoveries s). rc_hash r = tokenHash sv token \<and> rc_account r = u \<and> rc_issued r = t \<and>
      open_recovery (rq_now rq 1) r \<and> (\<exists>a \<in> set (db_accounts s). ac_id a = u \<and> recoverable_member s t a) \<and>
      password_set u hash s s' \<and> signed_out u s s'"
    and "map (\<lambda>r. (rc_hash r, rc_account r)) (db_recoveries s') = map (\<lambda>r. (rc_hash r, rc_account r)) (db_recoveries s)"
proof -
  let ?P = "\<lambda>r. rc_hash r = tokenHash sv token \<and> rc_account r = u \<and> rc_issued r = t \<and> open_recovery (rq_now rq 1) r"
  let ?s1 = "s\<lparr>db_recoveries := sql_update ?P (\<lambda>r. r\<lparr>rc_consumed := Some (rq_now rq 1)\<rparr>) (db_recoveries s)\<rparr>"
  note run = assms [unfolded complete_recovery_tx_def Let_def, THEN run_tenant_Inr]
  from run obtain a s2 s3 where a: "sql_row (\<lambda>a. ac_id a = u \<and> recoverable_member s t a) (db_accounts s) = Inr a"
    and one: "sql_affected ?P (db_recoveries s) = 1"
    and set: "stmt (rq_tx rq 2) ''set_password'' ?s1 (Inr (?s1\<lparr>db_accounts := sql_update (\<lambda>a. ac_id a = u)
       (\<lambda>a. a\<lparr>ac_hash := hash, ac_failed := 0, ac_locked := None, ac_updated := rq_now rq 2\<rparr>) (db_accounts ?s1)\<rparr>)) = Inr s2"
    and revoke: "revokeCredentialSessions (rq_tx rq 2) (rq_db_now rq) u s2 = Inr s3"
    and s': "\<exists>events. s' = s3\<lparr>db_audit := events\<rparr>"
    by (auto simp: ebind_eq_Inr stmt_Inr on_no_rows_Inr tenantAudit_def split: if_split_asm)
  from set_and_revoke [OF set revoke] have "password_set u hash ?s1 s'" "signed_out u ?s1 s'"
    using s' by (auto simp: password_set_def signed_out_def)
  moreover have "same_but rc_account u (db_recoveries s) (db_recoveries ?s1)"
    by (simp, rule same_but_update, simp)
  ultimately have "password_set u hash s s'" "signed_out u s s'" by (simp_all add: password_set_def signed_out_def same_but_def)
  with sql_affected_1 [OF one] sql_row_Inr [OF a]
  show "\<exists>r \<in> set (db_recoveries s). rc_hash r = tokenHash sv token \<and> rc_account r = u \<and> rc_issued r = t \<and>
      open_recovery (rq_now rq 1) r \<and> (\<exists>a \<in> set (db_accounts s). ac_id a = u \<and> recoverable_member s t a) \<and>
      password_set u hash s s' \<and> signed_out u s s'" by blast
  from set revoke s' show "map (\<lambda>r. (rc_hash r, rc_account r)) (db_recoveries s') = map (\<lambda>r. (rc_hash r, rc_account r)) (db_recoveries s)"
    by (auto simp: stmt_Inr revokeCredentialSessions_def revoke_access_def err_simps map_key_update)
qed

text \<open>
  C15: A recovery token sets a password once, for the account it was issued for. Success means that the
  tables the transaction met held an open recovery with the digest of the token, whose account was an
  active member of the issuing organization and no system administrator; afterwards that account has the
  new password and no live session, rotated token or pending recovery, every other account's rows are as
  they were, and every later use of the token fails.
\<close>

theorem CompletePasswordRecovery_success:
  assumes "CompletePasswordRecovery sv rq entropy token password s = (Inr (), s')" and "core_inv (rq_others rq 1 s)"
    and "\<And>salt. entropy 16 = Some salt \<Longrightarrow> length salt = 16" and "\<And>p s t m l k. length (sv_idkey sv p s t m l k) = unat k"
  shows "\<exists>r \<in> set (db_recoveries (rq_others rq 1 s)). \<exists>a \<in> set (db_accounts (rq_others rq 1 s)). \<exists>hash.
      rc_hash r = tokenHash sv token \<and> open_recovery (rq_now rq 1) r \<and> ac_id a = rc_account r \<and>
      recoverable_member (rq_others rq 1 s) (rc_issued r) a \<and> verify_password sv password hash \<and>
      password_set (rc_account r) hash (rq_others rq 1 s) s' \<and> signed_out (rc_account r) (rq_others rq 1 s) s' \<and>
      (\<forall>rq entropy password. isl (fst (CompletePasswordRecovery sv rq entropy token password s')))"
proof -
  let ?s = "rq_others rq 1 s"
  from assms(1) obtain t u hash where h: "Hash (sv_idkey sv) entropy (Some core_hasher) password = Inr hash"
    and run: "complete_recovery_tx sv rq token t u hash ?s = (Inr (), s')"
    by (cases "Hash (sv_idkey sv) entropy (Some core_hasher) password")
      (auto simp: CompletePasswordRecovery_def err_simps split: sum.split_asm)
  from complete_recovery_tx_Inr(1) [OF run] obtain r a where r: "r \<in> set (db_recoveries ?s)" "rc_hash r = tokenHash sv token"
    "rc_account r = u" "rc_issued r = t" "open_recovery (rq_now rq 1) r"
    and a: "a \<in> set (db_accounts ?s)" "ac_id a = u" "recoverable_member ?s t a"
    and done': "password_set u hash ?s s'" "signed_out u ?s s'" by blast
  have "\<not> pending_recovery q" if q: "q \<in> set (db_recoveries s')" "rc_hash q = tokenHash sv token" for q
  proof -
    from q(1) have "(rc_hash q, rc_account q) \<in> (\<lambda>r. (rc_hash r, rc_account r)) ` set (db_recoveries ?s)"
      using arg_cong [OF complete_recovery_tx_Inr(2) [OF run], of set] by auto
    then obtain p where p: "p \<in> set (db_recoveries ?s)" "rc_hash p = rc_hash q" "rc_account p = rc_account q" by auto
    moreover have "keyed rc_hash (db_recoveries ?s)" using assms(2) by (simp add: core_inv_def offers_ok_def)
    ultimately have "p = r" using keyed_same [of rc_hash "db_recoveries ?s" p r] r(1,2) q(2) by simp
    with p r(3) q(1) done'(2) show ?thesis by (simp add: signed_out_def)
  qed
  then have useless: "\<forall>q \<in> set (db_recoveries s'). rc_hash q = tokenHash sv token \<longrightarrow> \<not> pending_recovery q" by blast
  have "verify_password sv password hash" by (rule hash_verifies [OF h assms(3,4)])
  with r a done' recoveryTarget_row [OF useless] show ?thesis by blast
qed

definition demo_token :: string where
  "demo_token = ''pr_'' @ replicate 43 (CHR ''x'')"

definition demo_recovery :: recovery_row where
  "demo_recovery = \<lparr>rc_id = ''r'', rc_account = ''m'', rc_issued = ''t'', rc_creator = ''o'', rc_hash = demo_token,
     rc_created = 0, rc_expires = 9, rc_consumed = None, rc_revoked = None\<rparr>"

definition demo_recovering :: core_db where
  "demo_recovering = demo_core\<lparr>db_recoveries := [demo_recovery]\<rparr>"

lemma demo_recovering_inv: "core_inv demo_recovering"
  by (simp add: demo_recovering_def demo_recovery_def core_inv_parts keyed_def open_keyed_def demo_rows membership_key_def)

theorem CompletePasswordRecovery_success_witness:
  "\<exists>s'. CompletePasswordRecovery demo_service demo_visit demo_entropy demo_token demo_new demo_recovering = (Inr (), s') \<and>
     isl (fst (CompletePasswordRecovery demo_service demo_visit demo_entropy demo_token demo_old s'))"
proof -
  obtain hash where hash: "Hash (sv_idkey demo_service) demo_entropy (Some core_hasher) demo_new = Inr hash"
    using demo_hash demo_passwords by blast
  have token: "validRecoveryToken demo_token" by (simp add: validRecoveryToken_def demo_token_def has_prefix_def)
  have target: "recoveryTarget demo_service demo_visit demo_token demo_recovering = Inr (''t'', ''m'')"
    by (simp add: recoveryTarget_def token pool_query_def sql_row_def demo_recovering_def demo_recovery_def
        open_recovery_def on_no_rows_def allowOrganization_def)
  have member: "sql_row (\<lambda>a. ac_id a = ''m'' \<and> recoverable_member demo_recovering ''t'' a) (db_accounts demo_recovering) =
      Inr (demo_account ''m'' ''h'')"
    by (simp add: sql_row_def demo_recovering_def recoverable_member_def active_member_def sql_exists_def is_admin_def
        demo_rows membership_key_def)
  obtain s' where run: "CompletePasswordRecovery demo_service demo_visit demo_entropy demo_token demo_new demo_recovering = (Inr (), s')"
    by (simp add: CompletePasswordRecovery_def target hash demo_passwords complete_recovery_tx_def demo_run_tenant member on_no_rows_def)
      (simp add: organization_row_def sql_row_def sql_affected_def sql_update_def demo_recovering_def demo_rows demo_recovery_def
        open_recovery_def revokeCredentialSessions_def revoke_access_def tenantAudit_def)
  have inv: "core_inv (rq_others demo_visit 1 demo_recovering)" by (simp add: demo_recovering_inv)
  from CompletePasswordRecovery_success [OF run inv demo_kdf]
  have "isl (fst (CompletePasswordRecovery demo_service demo_visit demo_entropy demo_token demo_old s'))" by blast
  with run show ?thesis by blast
qed

end
