(* ===== verification/CoreTokens.thy ===== *)
theory CoreTokens
  imports CoreFlows
begin

text \<open>
  The life of a session: sign-in and authentication, rotation, the replay of a rotated token, the
  lockout after five failures, and the pruning of what has expired.
\<close>

section \<open>Quiet sessions\<close>

text \<open>A session of the driver without a failure.\<close>

definition quiet :: "'s session \<Rightarrow> bool" where
  "quiet ss \<longleftrightarrow> ss_error ss = (\<lambda>_. None) \<and> ss_fault ss = (\<lambda>_ _. None) \<and> ss_commit ss = Committed"

lemma quiet_demo [simp]: "quiet demo_session"
  by (simp add: quiet_def demo_session_def)

lemma quiet_stmt: "quiet ss \<Longrightarrow> stmt ss q s r = (case r of Inl e \<Rightarrow> Inl (sql_fail e) | Inr x \<Rightarrow> Inr x)"
  by (simp add: stmt_def quiet_def)

lemma quiet_pool_tx: "quiet ss \<Longrightarrow> pool_tx ss body s = (case body s of Inl e \<Rightarrow> (Inl e, s) | Inr (r, s') \<Rightarrow> (r, s'))"
  by (auto simp: quiet_def pool_tx_def pg_frame_run_def pg_commit_def ebind_def split: sum.splits)

lemma quiet_pool_exec:
  "quiet ss \<Longrightarrow> pool_exec ss q f s = (case f s of Inl e \<Rightarrow> (Inl (sql_fail e), s) | Inr (x, s') \<Rightarrow> (Inr x, s'))"
  by (auto simp: pool_exec_def quiet_stmt pg_frame_run_def pg_commit_def quiet_def split: sum.splits)

lemmas quiet_simps = quiet_stmt quiet_pool_tx quiet_pool_exec

section \<open>Rotation\<close>

definition live_refresh :: "time \<Rightarrow> refresh_row \<Rightarrow> bool" where
  "live_refresh now r \<longleftrightarrow> rs_revoked r = None \<and> rs_expires r > now"

definition rotate_rows :: "string \<Rightarrow> string \<Rightarrow> time \<Rightarrow> refresh_row list \<Rightarrow> refresh_row list" where
  "rotate_rows digest successor now = sql_update (\<lambda>r. rs_hash r = digest \<and> rs_revoked r = None \<and> rs_rotated r = None)
     (\<lambda>r. r\<lparr>rs_revoked := Some now, rs_rotated := Some successor\<rparr>)"

definition next_access :: "service \<Rightarrow> request \<Rightarrow> refresh_input \<Rightarrow> refresh_row \<Rightarrow> string \<Rightarrow> access_row" where
  "next_access sv rq input r token =
     \<lparr>as_hash = tokenHash sv token, as_account = rs_account r, as_expires = rq_now rq 0 + sv_sessions sv,
      as_revoked = None, as_created = rq_now rq 0, as_seen = rq_now rq 0, as_remote = bounded (ri_remote input) 128,
      as_agent = bounded (ri_agent input) 512, as_family = rs_family r, as_started = rs_started r\<rparr>"

definition next_refresh :: "service \<Rightarrow> request \<Rightarrow> refresh_input \<Rightarrow> refresh_row \<Rightarrow> string \<Rightarrow> refresh_row" where
  "next_refresh sv rq input r token =
     \<lparr>rs_hash = tokenHash sv token, rs_account = rs_account r, rs_expires = rq_now rq 0 + sv_refresh sv,
      rs_revoked = None, rs_rotated = None, rs_created = rq_now rq 0, rs_remote = bounded (ri_remote input) 128,
      rs_agent = bounded (ri_agent input) 512, rs_family = rs_family r, rs_started = rs_started r\<rparr>"

lemmas next_rows = next_access_def next_refresh_def

text \<open>What \<open>Refresh\<close> did when it answers with new tokens.\<close>

lemma Refresh_Inr:
  assumes "Refresh sv rq input s = (Inr answer, s')"
  obtains r a where
    "sql_row (\<lambda>r. rs_hash r = tokenHash sv (ri_token input)) (db_refresh s) = Inr r"
    "sql_row (\<lambda>a. ac_id a = rs_account r) (db_accounts s) = Inr a"
    "ac_status a = ''active''" "live_refresh (rq_now rq 0) r" "rs_rotated r = None \<or> rs_rotated r = Some []"
    "sa_account answer = account_of s a" "sa_expires answer = rq_now rq 0 + sv_sessions sv"
    "tokenHash sv (sa_refresh answer) \<notin>
       rs_hash ` set (rotate_rows (tokenHash sv (ri_token input)) (tokenHash sv (sa_refresh answer)) (rq_now rq 0) (db_refresh s))"
    "tokenHash sv (sa_access answer) \<notin> as_hash ` set (db_access s)"
    "s' = s\<lparr>db_access := db_access s @ [next_access sv rq input r (sa_access answer)],
       db_refresh := rotate_rows (tokenHash sv (ri_token input)) (tokenHash sv (sa_refresh answer)) (rq_now rq 0) (db_refresh s) @
         [next_refresh sv rq input r (sa_refresh answer)]\<rparr>"
proof -
  from assms have ok: "\<not> (\<not> has_prefix (ri_token input) ''rs_'' \<or> length (ri_token input) > 160)"
    by (auto simp: Refresh_def split: if_split_asm)
  with assms obtain access token where d: "ebind (randomID rq 0 ''as_'' 32) (\<lambda>access.
            ebind (randomID rq 1 ''rs_'' 40) (\<lambda>nextRefresh. Inr (access, nextRefresh))) = Inr (access, token)"
    by (auto simp: Refresh_def split: sum.split_asm)
  note run = assms [unfolded Refresh_def if_not_P [OF ok] d sum.case prod.case Let_def, THEN pool_tx_Inr]
  from run obtain r a where row: "sql_row (\<lambda>r. rs_hash r = tokenHash sv (ri_token input)) (db_refresh s) = Inr r"
    "sql_row (\<lambda>a. ac_id a = rs_account r) (db_accounts s) = Inr a"
    by (auto simp: ebind_eq_Inr stmt_Inr on_no_rows_Inr)
  have same: "rs_account r = ac_id a" using sql_row_Inr [OF row(2)] by simp
  from run row show thesis
    by (intro that [of r a])
      (auto simp: ebind_eq_Inr stmt_Inr on_no_rows_Inr sql_insert_Inr live_refresh_def rotate_rows_def next_rows same
       split: if_split_asm)
qed

lemma same_rows_update: "(\<And>r. Q r \<Longrightarrow> \<not> P r) \<Longrightarrow> (\<And>r. P r \<Longrightarrow> \<not> Q (f r)) \<Longrightarrow> filter Q (sql_update P f t) = filter Q t"
  by (induction t) (auto simp: sql_update_def)

lemma rotated_row:
  assumes "core_inv s" and "sql_row (\<lambda>r. rs_hash r = digest) (db_refresh s) = Inr r" and "rs_revoked r = None"
    and "q \<in> set (rotate_rows digest successor now (db_refresh s))" and "rs_hash q = digest"
  shows "q = r\<lparr>rs_revoked := Some now, rs_rotated := Some successor\<rparr>"
proof -
  let ?P = "\<lambda>r. rs_hash r = digest \<and> rs_revoked r = None \<and> rs_rotated r = None"
  let ?f = "\<lambda>r. r\<lparr>rs_revoked := Some now, rs_rotated := Some successor\<rparr>"
  from assms(4) obtain p where p: "p \<in> set (db_refresh s)" and q: "q = (if ?P p then ?f p else p)"
    unfolding rotate_rows_def in_sql_update by blast
  then have "rs_hash p = digest" using assms(5) by (cases "?P p") auto
  from assms(1) have "keyed rs_hash (db_refresh s)" and rot: "rs_rotated r \<noteq> None \<longrightarrow> rs_revoked r \<noteq> None"
    using sql_row_Inr [OF assms(2)] by (auto simp: core_inv_def sessions_ok_def)
  with p \<open>rs_hash p = digest\<close> sql_row_Inr [OF assms(2)] have "p = r" using keyed_same by metis
  with q rot assms(3) \<open>rs_hash p = digest\<close> show ?thesis by simp
qed

text \<open>
  C19: A rotation that answers was asked with a live refresh token of an active account. Afterwards the
  presented row is revoked and remembers its successor, the digest of the new refresh token is the only
  live one of the device family, the new access token is stored live for the account and the family until
  the answered time, and all other rows are as they were.
\<close>

theorem Refresh_rotates:
  assumes "core_inv s" and "Refresh sv rq input s = (Inr answer, s')"
  shows "\<exists>r \<in> set (db_refresh s). rs_hash r = tokenHash sv (ri_token input) \<and> live_refresh (rq_now rq 0) r \<and>
      an_id (sa_account answer) = rs_account r \<and>
      (\<forall>q \<in> set (db_refresh s'). rs_hash q = tokenHash sv (ri_token input) \<longrightarrow>
         rs_revoked q \<noteq> None \<and> rs_rotated q = Some (tokenHash sv (sa_refresh answer))) \<and>
      {q \<in> set (db_refresh s'). rs_revoked q = None \<and> (rs_account q, rs_family q) = (rs_account r, rs_family r)} =
        {next_refresh sv rq input r (sa_refresh answer)} \<and>
      db_access s' = db_access s @ [next_access sv rq input r (sa_access answer)] \<and>
      filter (\<lambda>q. rs_hash q \<notin> {tokenHash sv (ri_token input), tokenHash sv (sa_refresh answer)}) (db_refresh s') =
        filter (\<lambda>q. rs_hash q \<notin> {tokenHash sv (ri_token input), tokenHash sv (sa_refresh answer)}) (db_refresh s) \<and>
      db_accounts s' = db_accounts s"
proof -
  let ?d = "tokenHash sv (ri_token input)" and ?n = "tokenHash sv (sa_refresh answer)"
  from Refresh_Inr [OF assms(2)] obtain r a where row: "sql_row (\<lambda>r. rs_hash r = ?d) (db_refresh s) = Inr r"
    and a: "sql_row (\<lambda>a. ac_id a = rs_account r) (db_accounts s) = Inr a" and live: "live_refresh (rq_now rq 0) r"
    and account: "sa_account answer = account_of s a"
    and fresh: "?n \<notin> rs_hash ` set (rotate_rows ?d ?n (rq_now rq 0) (db_refresh s))"
    and s': "s' = s\<lparr>db_access := db_access s @ [next_access sv rq input r (sa_access answer)],
       db_refresh := rotate_rows ?d ?n (rq_now rq 0) (db_refresh s) @ [next_refresh sv rq input r (sa_refresh answer)]\<rparr>"
    by metis
  let ?rows = "rotate_rows ?d ?n (rq_now rq 0) (db_refresh s)"
  from live have unrevoked: "rs_revoked r = None" by (simp add: live_refresh_def)
  have hashes: "rs_hash ` set ?rows = rs_hash ` set (db_refresh s)" unfolding rotate_rows_def by (rule keys_update) simp
  with fresh sql_row_Inr [OF row] have differ: "?n \<noteq> ?d" by force
  have old: "rs_revoked q \<noteq> None \<and> rs_rotated q = Some ?n" if "q \<in> set ?rows" "rs_hash q = ?d" for q
    using rotated_row [OF assms(1) row unrevoked that] by simp
  have clear: "(rs_account q, rs_family q) \<noteq> (rs_account r, rs_family r)" if "q \<in> set ?rows" "rs_revoked q = None" for q
    using rotation_clears [OF assms(1) row unrevoked that(1) [unfolded rotate_rows_def] that(2)] .
  have "filter (\<lambda>q. rs_hash q \<notin> {?d, ?n}) ?rows = filter (\<lambda>q. rs_hash q \<notin> {?d, ?n}) (db_refresh s)"
    unfolding rotate_rows_def by (rule same_rows_update) auto
  then show ?thesis unfolding s' using sql_row_Inr [OF row] live old differ clear sql_row_Inr [OF a]
    by (intro bexI [of _ r]) (auto simp: next_refresh_def account account_of_def)
qed

lemma demo_random: "randomID demo_visit i p n = Inr (p @ map url_char (b64_encode (take n [char_of i])))"
  by (simp add: randomID_def)

definition demo_rotation :: refresh_input where
  "demo_rotation = \<lparr>ri_token = ''rs_1'', ri_remote = [], ri_agent = []\<rparr>"

lemma demo_rotated:
  "\<exists>answer s'. Refresh demo_service demo_visit demo_rotation demo_core = (Inr answer, s') \<and>
     sa_refresh answer = ''rs_'' @ map url_char (b64_encode [char_of (1 :: nat)])"
proof -
  have "length (b64_encode [c]) = 2" for c by (simp add: length_b64_encode)
  then have "map url_char (b64_encode [c]) \<noteq> ''1''" for c by (metis length_map length_Cons list.size(3) n_not_Suc_n numeral_2_eq_2)
  then show ?thesis
    by (simp add: Refresh_def demo_rotation_def demo_random has_prefix_def demo_pool_tx on_no_rows_def sql_row_def demo_rows
        Let_def sql_insert_def sql_update_def)
qed

theorem Refresh_rotates_witness:
  "\<exists>answer s'. Refresh demo_service demo_visit demo_rotation demo_core = (Inr answer, s') \<and>
     (\<exists>q \<in> set (db_refresh s'). rs_revoked q = None) \<and>
     (\<forall>q \<in> set (db_refresh s'). rs_hash q = ''rs_1'' \<longrightarrow> rs_revoked q \<noteq> None)"
proof -
  obtain answer s' where run: "Refresh demo_service demo_visit demo_rotation demo_core = (Inr answer, s')"
    using demo_rotated by blast
  from Refresh_rotates [OF demo_core_inv run]
  have "{q \<in> set (db_refresh s'). rs_revoked q = None} \<noteq> {}"
    "\<forall>q \<in> set (db_refresh s'). rs_hash q = tokenHash demo_service (ri_token demo_rotation) \<longrightarrow> rs_revoked q \<noteq> None" by blast+
  with run show ?thesis by (auto simp: demo_rotation_def)
qed

section \<open>Replay\<close>

lemma revoke_all:
  assumes "s' = revoke_access (\<lambda>r. as_account r = u) now (revoke_refresh (\<lambda>r. rs_account r = u) now s)"
  shows "(\<forall>q \<in> set (db_access s'). as_account q = u \<longrightarrow> as_revoked q \<noteq> None) \<and>
    (\<forall>q \<in> set (db_refresh s'). rs_account q = u \<longrightarrow> rs_revoked q \<noteq> None) \<and>
    same_but as_account u (db_access s) (db_access s') \<and> same_but rs_account u (db_refresh s) (db_refresh s')"
  unfolding assms revoke_access_def revoke_refresh_def by (simp add: ball_sql_update same_but_update)

lemma same_but_trans: "same_but owner u t1 t2 \<Longrightarrow> same_but owner u t2 t3 \<Longrightarrow> same_but owner u t1 t3"
  by (simp add: same_but_def)

lemma same_but_append: "same_but owner u t t1 \<Longrightarrow> owner r = u \<Longrightarrow> same_but owner u t (t1 @ [r])"
  by (simp add: same_but_def)

lemma same_but_rotate:
  assumes "core_inv s" and "sql_row (\<lambda>r. rs_hash r = digest) (db_refresh s) = Inr r"
  shows "same_but rs_account (rs_account r) (db_refresh s) (rotate_rows digest successor now (db_refresh s))"
  unfolding rotate_rows_def
proof (rule same_but_update)
  fix q assume "q \<in> set (db_refresh s)" and "rs_hash q = digest \<and> rs_revoked q = None \<and> rs_rotated q = None"
  with assms sql_row_Inr [OF assms(2)] have "q = r" using keyed_same [of rs_hash "db_refresh s" q r]
    by (simp add: core_inv_def sessions_ok_def)
  then show "rs_account q = rs_account r \<and> rs_account (q\<lparr>rs_revoked := Some now, rs_rotated := Some successor\<rparr>) = rs_account r"
    by simp
qed

lemma Refresh_replayed:
  assumes "quiet (rq_tx rq 0)" and "has_prefix (ri_token input) ''rs_''" and "length (ri_token input) \<le> 160"
    and "randomID rq 0 ''as_'' 32 = Inr access" and "randomID rq 1 ''rs_'' 40 = Inr token"
    and "sql_row (\<lambda>r. rs_hash r = tokenHash sv (ri_token input)) (db_refresh s) = Inr r"
    and "sql_row (\<lambda>a. ac_id a = rs_account r) (db_accounts s) = Inr a" and "ac_status a = ''active''"
    and "rs_rotated r = Some successor" and "successor \<noteq> []"
  shows "Refresh sv rq input s = (Inl ErrSessionInvalid, revoke_access (\<lambda>r. as_account r = ac_id a) (rq_now rq 0)
    (revoke_refresh (\<lambda>r. rs_account r = ac_id a) (rq_now rq 0) s))"
  using assms by (simp add: Refresh_def quiet_simps on_no_rows_def Let_def)

text \<open>
  C13: Presenting a refresh token a second time ends the account's sessions: after a rotation that answered,
  a further rotation with the same token, on a connection without failures, answers \<open>ErrSessionInvalid\<close> and
  leaves no live access or refresh token of the account, the freshly issued pair included, while the
  tokens of other accounts are as they were.
\<close>

theorem Refresh_replay_revokes:
  assumes "core_inv s" and "Refresh sv rq input s = (Inr answer, s1)" and "tokenHash sv (sa_refresh answer) \<noteq> []"
    and "quiet (rq_tx rq' 0)" and "\<not> isl (randomID rq' 0 ''as_'' 32)" and "\<not> isl (randomID rq' 1 ''rs_'' 40)"
    and "ri_token again = ri_token input"
  shows "\<exists>s2. Refresh sv rq' again s1 = (Inl ErrSessionInvalid, s2) \<and>
    (\<forall>q \<in> set (db_access s2). as_account q = an_id (sa_account answer) \<longrightarrow> as_revoked q \<noteq> None) \<and>
    (\<forall>q \<in> set (db_refresh s2). rs_account q = an_id (sa_account answer) \<longrightarrow> rs_revoked q \<noteq> None) \<and>
    same_but as_account (an_id (sa_account answer)) (db_access s) (db_access s2) \<and>
    same_but rs_account (an_id (sa_account answer)) (db_refresh s) (db_refresh s2)"
proof -
  let ?d = "tokenHash sv (ri_token input)" and ?n = "tokenHash sv (sa_refresh answer)"
  from Refresh_Inr [OF assms(2)] obtain r a where row: "sql_row (\<lambda>r. rs_hash r = ?d) (db_refresh s) = Inr r"
    and a: "sql_row (\<lambda>a. ac_id a = rs_account r) (db_accounts s) = Inr a" "ac_status a = ''active''"
    and live: "live_refresh (rq_now rq 0) r" and account: "sa_account answer = account_of s a"
    and fresh: "?n \<notin> rs_hash ` set (rotate_rows ?d ?n (rq_now rq 0) (db_refresh s))"
    and s1: "s1 = s\<lparr>db_access := db_access s @ [next_access sv rq input r (sa_access answer)],
       db_refresh := rotate_rows ?d ?n (rq_now rq 0) (db_refresh s) @ [next_refresh sv rq input r (sa_refresh answer)]\<rparr>"
    by metis
  let ?rows = "rotate_rows ?d ?n (rq_now rq 0) (db_refresh s)"
  have who: "an_id (sa_account answer) = rs_account r" "ac_id a = rs_account r"
    using sql_row_Inr [OF a(1)] by (simp_all add: account account_of_def)
  from live have unrevoked: "rs_revoked r = None" by (simp add: live_refresh_def)
  have "rs_hash ` set ?rows = rs_hash ` set (db_refresh s)" unfolding rotate_rows_def by (rule keys_update) simp
  with fresh sql_row_Inr [OF row] have differ: "?n \<noteq> ?d" and there: "?d \<in> rs_hash ` set ?rows" by force+
  obtain q where q: "sql_row (\<lambda>r. rs_hash r = ?d) (db_refresh s1) = Inr q"
    using there by (cases "sql_row (\<lambda>r. rs_hash r = ?d) (db_refresh s1)") (auto simp: sql_row_Inl s1)
  with differ have "q \<in> set ?rows" "rs_hash q = ?d" using sql_row_Inr [OF q] by (auto simp: s1 next_refresh_def)
  from rotated_row [OF assms(1) row unrevoked this] have rotated: "rs_rotated q = Some ?n" "rs_account q = rs_account r" by simp_all
  from Refresh_Inr [OF assms(2)] have "has_prefix (ri_token input) ''rs_''" "length (ri_token input) \<le> 160"
    using assms(2) by (auto simp: Refresh_def split: if_split_asm)
  moreover obtain access token where "randomID rq' 0 ''as_'' 32 = Inr access" "randomID rq' 1 ''rs_'' 40 = Inr token"
    using assms(5,6) by (cases "randomID rq' 0 ''as_'' 32"; cases "randomID rq' 1 ''rs_'' 40") auto
  moreover have "sql_row (\<lambda>a. ac_id a = rs_account q) (db_accounts s1) = Inr a" using a(1) by (simp add: s1 rotated)
  ultimately have run: "Refresh sv rq' again s1 = (Inl ErrSessionInvalid, revoke_access (\<lambda>r. as_account r = ac_id a) (rq_now rq' 0)
      (revoke_refresh (\<lambda>r. rs_account r = ac_id a) (rq_now rq' 0) s1))"
    using Refresh_replayed [where s = s1 and input = again and sv = sv and rq = rq' and r = q and a = a] assms(3,4,7) q a(2) rotated(1) by simp
  have "same_but as_account (rs_account r) (db_access s) (db_access s1)"
    "same_but rs_account (rs_account r) (db_refresh s) (db_refresh s1)"
    by (simp_all add: s1 same_but_append same_but_rotate [OF assms(1) row] next_rows)
  with revoke_all [OF refl, of "rs_account r" "rq_now rq' 0" s1] run show ?thesis
    unfolding who by (blast intro: same_but_trans)
qed

theorem Refresh_replay_revokes_witness:
  "\<exists>answer s1 s2. Refresh demo_service demo_visit demo_rotation demo_core = (Inr answer, s1) \<and>
     (\<exists>q \<in> set (db_access s1). as_revoked q = None) \<and>
     Refresh demo_service demo_visit demo_rotation s1 = (Inl ErrSessionInvalid, s2) \<and>
     (\<forall>q \<in> set (db_access s2). as_account q = an_id (sa_account answer) \<longrightarrow> as_revoked q \<noteq> None)"
proof -
  obtain answer s1 where run: "Refresh demo_service demo_visit demo_rotation demo_core = (Inr answer, s1)"
    and token: "sa_refresh answer = ''rs_'' @ map url_char (b64_encode [char_of (1 :: nat)])"
    using demo_rotated by blast
  have "\<exists>q \<in> set (db_access s1). as_revoked q = None"
    by (rule Refresh_Inr [OF run]) (simp add: next_access_def)
  moreover have "tokenHash demo_service (sa_refresh answer) \<noteq> []" by (simp add: token)
  moreover have "\<not> isl (randomID demo_visit i p n)" for i p n by (simp add: demo_random)
  ultimately show ?thesis
    using Refresh_replay_revokes [OF demo_core_inv run, of demo_visit demo_rotation] run by fastforce
qed

section \<open>Lockout\<close>

text \<open>Sign-in attempts one after the other.\<close>

definition attempts :: "service \<Rightarrow> login_input \<Rightarrow> request list \<Rightarrow> core_db \<Rightarrow> core_db" where
  "attempts sv input rqs s = fold (\<lambda>rq s. snd (Login sv rq input s)) rqs s"

definition undisturbed :: "request \<Rightarrow> bool" where
  "undisturbed rq \<longleftrightarrow> (\<forall>i. quiet (rq_tx rq i)) \<and> rq_others rq = (\<lambda>_ s. s)"

lemma undisturbed_demo [simp]: "undisturbed demo_visit"
  by (simp add: undisturbed_def demo_visit_def)

lemma Login_wrong:
  assumes "undisturbed rq" and "normalizeEmail sv (li_email input) = Inr normalized"
    and "sql_row (\<lambda>a. ac_normalized a = normalized) (db_accounts s) = Inr a" and "ac_status a = ''active''"
  shows "locked_at (ac_locked a) (rq_now rq 0) \<Longrightarrow> Login sv rq input s = (Inl ErrAccountLocked, s)"
    and "\<not> locked_at (ac_locked a) (rq_now rq 0) \<Longrightarrow> \<not> verify_password sv (li_password input) (ac_hash a) \<Longrightarrow>
      Login sv rq input s = (Inl ErrInvalidCredentials, s\<lparr>db_accounts := sql_update (\<lambda>b. ac_id b = ac_id a)
        (count_failure (rq_now rq 0 + 15 * minute) (rq_now rq 0)) (db_accounts s)\<rparr>)"
  using assms by (simp_all add: Login_def login_lookup_def pool_query_def undisturbed_def quiet_simps account_of_def
      record_failed_login_def Let_def)

lemma count_failure_simps [simp]:
  "ac_id (count_failure l u a) = ac_id a" "ac_normalized (count_failure l u a) = ac_normalized a"
  "ac_hash (count_failure l u a) = ac_hash a" "ac_status (count_failure l u a) = ac_status a"
  by (simp_all add: count_failure_def)

text \<open>The account after some wrong attempts.\<close>

definition tried :: "string \<Rightarrow> account_row \<Rightarrow> core_db \<Rightarrow> account_row \<Rightarrow> bool" where
  "tried normalized a s b \<longleftrightarrow> keyed ac_id (db_accounts s) \<and> keyed ac_normalized (db_accounts s) \<and>
     sql_row (\<lambda>a. ac_normalized a = normalized) (db_accounts s) = Inr b \<and> ac_id b = ac_id a \<and> ac_hash b = ac_hash a \<and>
     ac_status b = ''active''"

lemma tried_update:
  assumes "tried normalized a s b"
  shows "tried normalized a (s\<lparr>db_accounts := sql_update (\<lambda>c. ac_id c = ac_id b) (count_failure l u) (db_accounts s)\<rparr>)
    (count_failure l u b)"
proof -
  from assms have row: "b \<in> set (db_accounts s)" "ac_normalized b = normalized" and keys: "keyed ac_normalized (db_accounts s)"
    by (auto simp: tried_def dest: sql_row_Inr)
  have "sql_row (\<lambda>c. ac_normalized c = ac_normalized b) (sql_update (\<lambda>c. ac_id c = ac_id b) (count_failure l u) (db_accounts s)) =
      Inr (count_failure l u b)"
    by (rule keyed_update_row [OF keys row(1)]) simp_all
  with assms row(2) show ?thesis by (simp add: tried_def keyed_update)
qed

lemma tried_attempt:
  assumes "tried normalized a s b" and "undisturbed rq" and "normalizeEmail sv (li_email input) = Inr normalized"
    and "ac_locked b = None" and "\<not> verify_password sv (li_password input) (ac_hash a)"
  shows "tried normalized a (snd (Login sv rq input s)) (count_failure (rq_now rq 0 + 15 * minute) (rq_now rq 0) b)"
proof -
  from assms(1) have row: "sql_row (\<lambda>a. ac_normalized a = normalized) (db_accounts s) = Inr b" "ac_status b = ''active''"
    and hash: "ac_hash b = ac_hash a" unfolding tried_def by blast+
  have "\<not> locked_at (ac_locked b) (rq_now rq 0)" by (simp add: assms(4) locked_at_def)
  from Login_wrong(2) [OF assms(2,3) row this] assms(5) tried_update [OF assms(1)] show ?thesis by (simp add: hash)
qed

lemma attempts_tried:
  assumes "tried normalized a s a" and "\<forall>rq \<in> set rqs. undisturbed rq" and "normalizeEmail sv (li_email input) = Inr normalized"
    and "ac_locked a = None" "ac_failed a = 0" and "\<not> verify_password sv (li_password input) (ac_hash a)" and "length rqs < 5"
  shows "\<exists>b. tried normalized a (attempts sv input rqs s) b \<and> ac_failed b = int (length rqs) \<and> ac_locked b = None"
  using assms(2,7)
proof (induction rqs rule: rev_induct)
  case (snoc rq rqs)
  then obtain b where b: "tried normalized a (attempts sv input rqs s) b" "ac_failed b = int (length rqs)" "ac_locked b = None"
    by auto
  from snoc.prems tried_attempt [OF b(1) _ assms(3) b(3) assms(6), of rq] b(2,3) show ?case
    by (intro exI [of _ "count_failure (rq_now rq 0 + 15 * minute) (rq_now rq 0) b"])
      (simp add: attempts_def count_failure_def)
qed (use assms(1,4,5) in \<open>auto simp: attempts_def intro!: exI [of _ a]\<close>)

lemma attempts_five:
  assumes "tried normalized a s a" and "\<forall>rq \<in> set rqs. undisturbed rq" and "normalizeEmail sv (li_email input) = Inr normalized"
    and "ac_locked a = None" "ac_failed a = 0" and "\<not> verify_password sv (li_password input) (ac_hash a)" and "length rqs = 5"
  shows "\<exists>b. tried normalized a (attempts sv input rqs s) b \<and> ac_failed b = 0 \<and>
    ac_locked b = Some (rq_now (last rqs) 0 + 15 * minute)"
proof -
  from assms(7) obtain rest rq where rqs: "rqs = rest @ [rq]" by (cases rqs rule: rev_cases) auto
  with assms(7) have len: "length rest = 4" by simp
  obtain b where b: "tried normalized a (attempts sv input rest s) b" "ac_failed b = 4" "ac_locked b = None"
    using attempts_tried [OF assms(1) _ assms(3-6), of rest] assms(2) rqs len by auto
  from tried_attempt [OF b(1) _ assms(3) b(3) assms(6), of rq] assms(2) rqs b(2) show ?thesis
    by (intro exI [of _ "count_failure (rq_now rq 0 + 15 * minute) (rq_now rq 0) b"])
      (simp add: attempts_def count_failure_def)
qed

text \<open>
  C14: Five wrong passwords in a row lock an active account. Before the fifth the counter is the number of
  attempts and the account is not locked; with the fifth the counter starts again and the account is
  locked for fifteen minutes from that attempt, during which every sign-in with its e-mail, also with the
  right password, answers \<open>ErrAccountLocked\<close> and changes nothing.
\<close>

theorem Login_lockout:
  assumes "core_inv s" and "\<forall>rq \<in> set rqs. undisturbed rq" and "normalizeEmail sv (li_email input) = Inr normalized"
    and "sql_row (\<lambda>a. ac_normalized a = normalized) (db_accounts s) = Inr a" and "ac_status a = ''active''"
    and "ac_locked a = None" and "ac_failed a = 0" and "\<not> verify_password sv (li_password input) (ac_hash a)"
  shows "(length rqs < 5 \<longrightarrow> (\<exists>b. sql_row (\<lambda>a. ac_normalized a = normalized) (db_accounts (attempts sv input rqs s)) = Inr b \<and>
        ac_failed b = int (length rqs) \<and> ac_locked b = None)) \<and>
    (length rqs = 5 \<longrightarrow> (\<exists>b. sql_row (\<lambda>a. ac_normalized a = normalized) (db_accounts (attempts sv input rqs s)) = Inr b \<and>
        ac_failed b = 0 \<and> ac_locked b = Some (rq_now (last rqs) 0 + 15 * minute)) \<and>
      (\<forall>rq later. undisturbed rq \<and> li_email later = li_email input \<and> rq_now rq 0 < rq_now (last rqs) 0 + 15 * minute \<longrightarrow>
        Login sv rq later (attempts sv input rqs s) = (Inl ErrAccountLocked, attempts sv input rqs s)))"
proof -
  have start: "tried normalized a s a" using assms(1,4,5) by (simp add: tried_def core_inv_def accounts_ok_def)
  show ?thesis
  proof (intro conjI impI)
    assume "length rqs < 5"
    from attempts_tried [OF start assms(2,3,6,7,8) this]
    show "\<exists>b. sql_row (\<lambda>a. ac_normalized a = normalized) (db_accounts (attempts sv input rqs s)) = Inr b \<and>
        ac_failed b = int (length rqs) \<and> ac_locked b = None" by (auto simp: tried_def)
  next
    assume "length rqs = 5"
    from attempts_five [OF start assms(2,3,6,7,8) this] show "\<exists>b. sql_row (\<lambda>a. ac_normalized a = normalized)
        (db_accounts (attempts sv input rqs s)) = Inr b \<and> ac_failed b = 0 \<and>
        ac_locked b = Some (rq_now (last rqs) 0 + 15 * minute)" by (auto simp: tried_def)
  next
    assume "length rqs = 5"
    from attempts_five [OF start assms(2,3,6,7,8) this] obtain b where
      b: "sql_row (\<lambda>a. ac_normalized a = normalized) (db_accounts (attempts sv input rqs s)) = Inr b" "ac_status b = ''active''"
        "ac_locked b = Some (rq_now (last rqs) 0 + 15 * minute)" by (auto simp: tried_def)
    show "\<forall>rq later. undisturbed rq \<and> li_email later = li_email input \<and> rq_now rq 0 < rq_now (last rqs) 0 + 15 * minute \<longrightarrow>
        Login sv rq later (attempts sv input rqs s) = (Inl ErrAccountLocked, attempts sv input rqs s)"
      using assms(3) by (auto intro!: Login_wrong(1) [OF _ _ b(1,2)] simp: b(3) locked_at_def)
  qed
qed

definition demo_login :: "string \<Rightarrow> login_input" where
  "demo_login password = \<lparr>li_email = ''mmm'', li_password = password, li_remote = [], li_agent = []\<rparr>"

definition demo_with :: "string \<Rightarrow> core_db" where
  "demo_with hash = demo_core\<lparr>db_accounts := [demo_account ''o'' ''h'', demo_account ''m'' ''h'', demo_account ''mmm'' hash]\<rparr>"

lemma demo_with_inv: "core_inv (demo_with hash)"
  by (simp add: demo_with_def core_inv_parts keyed_def open_keyed_def demo_rows membership_key_def)

lemma demo_email: "normalizeEmail demo_service (li_email (demo_login password)) = Inr ''mmm''"
  by (simp add: normalizeEmail_def demo_login_def demo_service_def trim_space_solid is_space_def equal_fold_refl)

lemma demo_with_row: "sql_row (\<lambda>a. ac_normalized a = ''mmm'') (db_accounts (demo_with hash)) = Inr (demo_account ''mmm'' hash)"
  by (simp add: demo_with_def sql_row_def demo_rows)

theorem Login_lockout_witness:
  "\<forall>password. fst (Login demo_service demo_visit (demo_login password)
     (attempts demo_service (demo_login ''wrong'') (replicate 5 demo_visit) (demo_with ''h''))) = Inl ErrAccountLocked"
proof
  fix password
  have "\<not> verify_password demo_service (li_password (demo_login ''wrong'')) (ac_hash (demo_account ''mmm'' ''h''))"
    by (simp add: verify_password_def Verify_def demo_rows)
  moreover have "\<forall>rq \<in> set (replicate 5 demo_visit). undisturbed rq" by simp
  ultimately show "fst (Login demo_service demo_visit (demo_login password)
     (attempts demo_service (demo_login ''wrong'') (replicate 5 demo_visit) (demo_with ''h''))) = Inl ErrAccountLocked"
    using Login_lockout [OF demo_with_inv _ demo_email demo_with_row, of "replicate 5 demo_visit" "''h''" "''wrong''"]
    by (simp add: demo_rows minute_def) (simp add: demo_login_def)
qed

section \<open>Sign-in and authentication\<close>

definition drawing :: "request \<Rightarrow> bool" where
  "drawing rq \<longleftrightarrow> (\<forall>i. rq_random rq i \<noteq> None)"

definition fresh_tokens :: "service \<Rightarrow> request \<Rightarrow> core_db \<Rightarrow> bool" where
  "fresh_tokens sv rq s \<longleftrightarrow>
     (\<forall>token. randomID rq 0 ''as_'' 32 = Inr token \<longrightarrow> tokenHash sv token \<notin> as_hash ` set (db_access s)) \<and>
     (\<forall>token. randomID rq 1 ''rs_'' 40 = Inr token \<longrightarrow> tokenHash sv token \<notin> rs_hash ` set (db_refresh s))"

lemma b64_length_bound: "b64_length n \<le> 2 * n"
  unfolding b64_length_def by presburger

lemma drawn:
  assumes "drawing rq"
  shows "\<exists>rest. randomID rq i p n = Inr (p @ rest) \<and> length rest \<le> 2 * n"
proof -
  from assms obtain bytes where "rq_random rq i = Some bytes" by (auto simp: drawing_def)
  moreover have "b64_length (min (length bytes) n) \<le> 2 * n" using b64_length_bound [of "min (length bytes) n"] by simp
  ultimately show ?thesis by (simp add: randomID_def length_b64_encode)
qed

lemma issueSession_quiet:
  assumes "undisturbed rq" and "drawing rq" and "fresh_tokens sv rq s"
    and "sql_row (\<lambda>a. ac_id a = an_id account) (db_accounts s) = Inr a" and "ac_status a = ''active''"
    and "ac_hash a = hash" and "\<not> locked_at (ac_locked a) (rq_now rq 1)"
  shows "\<exists>answer s' row. issueSession sv rq account remote agent hash s = (Inr answer, s') \<and>
    has_prefix (sa_access answer) ''as_'' \<and> length (sa_access answer) \<le> 128 \<and> db_access s' = db_access s @ [row] \<and>
    as_hash row = tokenHash sv (sa_access answer) \<and> as_hash row \<notin> as_hash ` set (db_access s) \<and> as_account row = an_id account \<and> as_revoked row = None \<and>
    as_expires row = sa_expires answer \<and> sa_expires answer = rq_now rq 1 + sv_sessions sv \<and>
    db_accounts s' = sql_update (\<lambda>a. ac_id a = an_id account) (\<lambda>a. a\<lparr>ac_failed := 0, ac_locked := None,
       ac_last_login := Some (rq_now rq 1), ac_updated := rq_now rq 1\<rparr>) (db_accounts s)"
proof -
  obtain access refresh family where d: "randomID rq 0 ''as_'' 32 = Inr (''as_'' @ access)" "length access \<le> 2 * 32"
    "randomID rq 1 ''rs_'' 40 = Inr (''rs_'' @ refresh)" "randomID rq 2 ''ses_'' 18 = Inr (''ses_'' @ family)"
    using drawn [OF assms(2)] by meson
  from assms(3) d have fresh: "tokenHash sv (''as_'' @ access) \<notin> as_hash ` set (db_access s)"
    "tokenHash sv (''rs_'' @ refresh) \<notin> rs_hash ` set (db_refresh s)" by (simp_all add: fresh_tokens_def)
  from assms(1) have quiet: "quiet (rq_tx rq 2)" by (simp add: undisturbed_def)
  show ?thesis
    using d(2) fresh assms(4-7) by (simp add: issueSession_def d(1,3,4) quiet_simps [OF quiet] Let_def sql_insert_def has_prefix_def
        del: One_nat_def)
qed

lemma Authenticate_live:
  assumes "undisturbed rq" and "has_prefix token ''as_''" and "length token \<le> 128"
    and "sql_row (\<lambda>r. as_hash r = tokenHash sv token \<and> live_access (rq_db_now rq) r) (db_access s) = Inr row"
    and "sql_row (\<lambda>a. ac_id a = as_account row) (db_accounts s) = Inr a" and "ac_status a = ''active''"
  shows "\<exists>s'. Authenticate sv rq token s = (Inr (account_of s a), s') \<and> db_accounts s' = db_accounts s"
  using assms by (simp add: Authenticate_def Let_def pool_query_def undisturbed_def quiet_simps on_no_rows_def touch_session_def)

text \<open>
  C21: Signing in with the right password works and gives a session that authenticates: for an active,
  unlocked account, on connections without failures and with random tokens that are not in the tables,
  \<open>Login\<close> answers with tokens that expire after the configured time, clears the failures, and
  \<open>Authenticate\<close> with the access token answers with the account at every moment before that.
\<close>

theorem Login_then_Authenticate:
  assumes "core_inv s" and "undisturbed rq" and "undisturbed rq'" and "drawing rq" and "fresh_tokens sv rq s"
    and "normalizeEmail sv (li_email input) = Inr normalized"
    and "sql_row (\<lambda>a. ac_normalized a = normalized) (db_accounts s) = Inr a" and "ac_status a = ''active''"
    and "verify_password sv (li_password input) (ac_hash a)"
    and "\<not> locked_at (ac_locked a) (rq_now rq 0)" and "\<not> locked_at (ac_locked a) (rq_now rq 1)"
    and "rq_db_now rq' < rq_now rq 1 + sv_sessions sv"
  shows "\<exists>answer s1 account s2. Login sv rq input s = (Inr answer, s1) \<and> sa_expires answer = rq_now rq 1 + sv_sessions sv \<and>
    (\<forall>b \<in> set (db_accounts s1). ac_id b = ac_id a \<longrightarrow> ac_failed b = 0 \<and> ac_locked b = None) \<and>
    Authenticate sv rq' (sa_access answer) s1 = (Inr account, s2) \<and> an_id account = ac_id a"
proof -
  have a: "a \<in> set (db_accounts s)" "an_id (account_of s a) = ac_id a" using sql_row_Inr [OF assms(7)] by (simp_all add: account_of_def)
  from assms(1) have keys: "keyed ac_id (db_accounts s)" by (simp add: core_inv_def accounts_ok_def)
  have lock: "sql_row (\<lambda>b. ac_id b = an_id (account_of s a)) (db_accounts s) = Inr a"
    using keyed_row [OF keys a(1)] by (simp add: a(2))
  from issueSession_quiet [OF assms(2,4,5) lock assms(8) refl assms(11), of "li_remote input" "li_agent input"]
  obtain answer s1 row where issued: "issueSession sv rq (account_of s a) (li_remote input) (li_agent input) (ac_hash a) s = (Inr answer, s1)"
    and token: "has_prefix (sa_access answer) ''as_''" "length (sa_access answer) \<le> 128"
    and row: "db_access s1 = db_access s @ [row]" "as_hash row = tokenHash sv (sa_access answer)"
      "as_hash row \<notin> as_hash ` set (db_access s)" "as_account row = ac_id a" "as_revoked row = None" "as_expires row = sa_expires answer"
    and expires: "sa_expires answer = rq_now rq 1 + sv_sessions sv"
    and accounts: "db_accounts s1 = sql_update (\<lambda>b. ac_id b = ac_id a) (\<lambda>b. b\<lparr>ac_failed := 0, ac_locked := None,
       ac_last_login := Some (rq_now rq 1), ac_updated := rq_now rq 1\<rparr>) (db_accounts s)"
    by (auto simp: a(2))
  have login: "Login sv rq input s = (Inr answer, s1)"
    using assms(2,6-10) issued by (simp add: Login_def login_lookup_def pool_query_def undisturbed_def quiet_simps Let_def)
  have found: "sql_row (\<lambda>r. as_hash r = tokenHash sv (sa_access answer) \<and> live_access (rq_db_now rq') r) (db_access s1) = Inr row"
  proof -
    have none: "filter (\<lambda>r. as_hash r = tokenHash sv (sa_access answer) \<and> live_access (rq_db_now rq') r) (db_access s) = []"
      using row(2,3) by (auto simp: filter_empty_conv image_iff)
    have "live_access (rq_db_now rq') row" using row(5,6) assms(12) expires by (simp add: live_access_def)
    with none row(2) show ?thesis by (simp add: sql_row_def row(1))
  qed
  have "sql_row (\<lambda>b. ac_id b = ac_id a) (db_accounts s1) = Inr (a\<lparr>ac_failed := 0, ac_locked := None,
       ac_last_login := Some (rq_now rq 1), ac_updated := rq_now rq 1\<rparr>)"
    unfolding accounts by (rule keyed_update_row [OF keys a(1)]) simp_all
  with Authenticate_live [OF assms(3) token found, unfolded row(4)] assms(8)
  obtain account s2 where "Authenticate sv rq' (sa_access answer) s1 = (Inr account, s2)" "an_id account = ac_id a"
    by (auto simp: account_of_def)
  with login expires show ?thesis by (auto simp: accounts ball_sql_update)
qed

theorem Login_then_Authenticate_witness:
  "\<exists>hash answer s1 account s2. Login demo_service demo_visit (demo_login demo_old) (demo_with hash) = (Inr answer, s1) \<and>
     Authenticate demo_service demo_visit (sa_access answer) s1 = (Inr account, s2) \<and> an_id account = ''mmm''"
proof -
  obtain hash where hash: "verify_password demo_service (li_password (demo_login demo_old)) (ac_hash (demo_account ''mmm'' hash))"
    using demo_hash demo_passwords by (auto simp: demo_rows demo_login_def)
  have "drawing demo_visit" by (simp add: drawing_def)
  moreover have "fresh_tokens demo_service demo_visit (demo_with hash)"
  proof -
    have "length (b64_encode [c]) = 2" for c by (simp add: length_b64_encode b64_length_def)
    then have "map url_char (b64_encode [c]) \<noteq> ''1''" for c by (metis length_map length_Cons list.size(3) n_not_Suc_n numeral_2_eq_2)
    then show ?thesis by (simp add: fresh_tokens_def demo_random demo_with_def demo_rows)
  qed
  ultimately show ?thesis
    using Login_then_Authenticate [OF demo_with_inv undisturbed_demo undisturbed_demo _ _ demo_email demo_with_row _ hash]
    by (fastforce simp: demo_rows locked_at_def demo_service_def minute_def)
qed

end
