(* ===== verification/CoreRetention.thy ===== *)
theory CoreRetention
  imports CoreTokens
begin

text \<open>
  Pruning (\<open>session_retention.go\<close>): each of the three tables loses at most one batch of its expired
  rows, the longest expired first.
\<close>

section \<open>The order of the batch\<close>

definition expiry_less :: "('r \<Rightarrow> time) \<Rightarrow> ('r \<Rightarrow> string) \<Rightarrow> 'r \<Rightarrow> 'r \<Rightarrow> bool" where
  "expiry_less expires key a b = (if expires a \<noteq> expires b then expires a < expires b else key a < key b)"

lemma expired_rows_less: "expired_rows expires key skip cutoff batch rows =
    take (nat batch) (sort_by (expiry_less expires key) (filter (\<lambda>r. expires r < cutoff \<and> \<not> skip r) rows))"
  by (simp add: expired_rows_def expiry_less_def [abs_def])

interpretation expiry_order: go_ordering "expiry_less expires key" "\<lambda>r. row_at key (key r) rows = Some r"
  for expires :: "'r \<Rightarrow> time" and key :: "'r \<Rightarrow> string" and rows :: "'r list"
proof unfold_locales
  fix x y assume "row_at key (key x) rows = Some x" "row_at key (key y) rows = Some y" "x \<noteq> y"
  then have "key x \<noteq> key y" by auto
  then show "expiry_less expires key x y \<or> expiry_less expires key y x" by (auto simp: expiry_less_def)
qed (auto simp: expiry_less_def split: if_splits)

lemma sort_by_expiry:
  assumes "keyed key rows" and "set xs \<subseteq> set rows" and "distinct xs"
  shows "sorted_wrt (expiry_less expires key) (sort_by (expiry_less expires key) xs)"
  by (rule expiry_order.sort_by_sorted [where rows = rows])
    (use assms in \<open>auto simp: row_at_Some\<close>)

section \<open>One table\<close>

definition pruned :: "('r \<Rightarrow> time) \<Rightarrow> ('r \<Rightarrow> bool) \<Rightarrow> time \<Rightarrow> int \<Rightarrow> nat \<Rightarrow> 'r list \<Rightarrow> 'r list \<Rightarrow> bool" where
  "pruned expires skip cutoff batch n rows rows' \<longleftrightarrow>
     (\<exists>gone. rows' = filter (\<lambda>r. r \<notin> set gone) rows \<and> distinct gone \<and> set gone \<subseteq> set rows \<and> n = length gone \<and>
       int n \<le> batch \<and> (\<forall>r \<in> set gone. expires r < cutoff \<and> \<not> skip r) \<and>
       (\<forall>r \<in> set rows'. expires r < cutoff \<and> \<not> skip r \<longrightarrow> int n = batch \<and> (\<forall>q \<in> set gone. expires q \<le> expires r)))"

lemma keyed_distinct: "keyed key rows \<Longrightarrow> distinct rows"
  by (simp add: keyed_def distinct_map)

lemma prune_rows_pruned:
  assumes "prune_rows ss q s True expires key skip cutoff batch rows = Inr (n, rows')" and "keyed key rows" and "0 < batch"
  shows "pruned expires skip cutoff batch n rows rows'"
proof -
  let ?lt = "expiry_less expires key"
  let ?all = "sort_by ?lt (filter (\<lambda>r. expires r < cutoff \<and> \<not> skip r) rows)"
  let ?gone = "take (nat batch) ?all"
  from assms(1) have n: "n = length ?gone" and rows': "rows' = sql_delete (\<lambda>r. key r \<in> key ` set ?gone) rows"
    by (auto simp: prune_rows_def Let_def stmt_Inr expired_rows_less)
  have sub: "set ?gone \<subseteq> set ?all" by (rule set_take_subset)
  have all: "set ?all = {r \<in> set rows. expires r < cutoff \<and> \<not> skip r}" "distinct ?all"
    using keyed_distinct [OF assms(2)] by auto
  have "key r \<in> key ` set ?gone \<longleftrightarrow> r \<in> set ?gone" if "r \<in> set rows" for r
    using keyed_same [OF assms(2) that] sub all(1) by blast
  then have left: "rows' = filter (\<lambda>r. r \<notin> set ?gone) rows" unfolding rows' sql_delete_def by (auto intro: filter_cong)
  have "int n = batch \<and> (\<forall>q \<in> set ?gone. expires q \<le> expires r)" if r: "r \<in> set rows" "r \<notin> set ?gone" "expires r < cutoff" "\<not> skip r" for r
  proof -
    from r all(1) have "r \<in> set ?all" by blast
    then have later: "r \<in> set (drop (nat batch) ?all)" using r(2) by (metis Un_iff append_take_drop_id set_append)
    then have "nat batch < length ?all" by (cases "nat batch < length ?all") auto
    moreover have "sorted_wrt ?lt (?gone @ drop (nat batch) ?all)"
      using sort_by_expiry [OF assms(2), of "filter (\<lambda>r. expires r < cutoff \<and> \<not> skip r) rows"] keyed_distinct [OF assms(2)] by auto
    then have "\<forall>q \<in> set ?gone. ?lt q r" using later by (auto simp: sorted_wrt_append simp del: append_take_drop_id)
    ultimately show ?thesis using n assms(3) by (auto simp: expiry_less_def split: if_splits)
  qed
  with left n all sub assms(3) show ?thesis unfolding pruned_def
    by (intro exI [of _ ?gone]) (auto simp: distinct_take)
qed

section \<open>The claim\<close>

text \<open>
  C36: Pruning is bounded and removes only what has expired. A successful run with valid options computes
  the cutoff from the database's clock and the retention; a dry run changes nothing. An applied run removes
  from each of the three tables, in the order of expiry, at most one batch of rows that expired before the
  cutoff and that no other transaction holds, leaves such rows only when the batch was full, reports how
  many, and changes nothing else.
\<close>

theorem PruneSessions_bounded:
  assumes "core_inv s" and "PruneSessions rq skip options s = (Inr res, s')"
  shows "1 \<le> po_retention_days options \<and> po_retention_days options \<le> 3650 \<and> 1 \<le> po_batch options \<and> po_batch options \<le> 5000 \<and>
    pr_cutoff res = rq_db_now rq - po_retention_days options * day \<and>
    (\<not> po_apply options \<longrightarrow> s' = s) \<and>
    (po_apply options \<longrightarrow>
       pruned as_expires (\<lambda>r. skip (as_hash r)) (pr_cutoff res) (po_batch options) (pr_access res) (db_access s) (db_access s') \<and>
       pruned rs_expires (\<lambda>r. skip (rs_hash r)) (pr_cutoff res) (po_batch options) (pr_refresh res) (db_refresh s) (db_refresh s') \<and>
       pruned rc_expires (\<lambda>r. skip (rc_id r)) (pr_cutoff res) (po_batch options) (pr_recoveries res) (db_recoveries s) (db_recoveries s') \<and>
       s'\<lparr>db_access := db_access s, db_refresh := db_refresh s, db_recoveries := db_recoveries s\<rparr> = s)"
proof -
  from assms(2) obtain u where valid: "validatePruneOptions options = Inr u"
    by (auto simp: PruneSessions_def split: sum.split_asm)
  then have range: "1 \<le> po_retention_days options" "po_retention_days options \<le> 3650" "1 \<le> po_batch options" "po_batch options \<le> 5000"
    by (auto simp: validatePruneOptions_def split: if_split_asm)
  let ?ss = "rq_tx rq 0" and ?cutoff = "rq_db_now rq - po_retention_days options * day" and ?batch = "po_batch options"
  from assms(2) obtain cutoff n1 a n2 b n3 c where cutoff: "?cutoff = cutoff"
    and a: "prune_rows ?ss ''prune_access'' s (po_apply options) as_expires as_hash (\<lambda>r. skip (as_hash r)) cutoff ?batch
      (db_access s) = Inr (n1, a)"
    and b: "prune_rows ?ss ''prune_refresh'' (s\<lparr>db_access := a\<rparr>) (po_apply options) rs_expires rs_hash (\<lambda>r. skip (rs_hash r))
      cutoff ?batch (db_refresh (s\<lparr>db_access := a\<rparr>)) = Inr (n2, b)"
    and c: "prune_rows ?ss ''prune_recoveries'' (s\<lparr>db_access := a, db_refresh := b\<rparr>) (po_apply options) rc_expires rc_id
      (\<lambda>r. skip (rc_id r)) cutoff ?batch (db_recoveries (s\<lparr>db_access := a, db_refresh := b\<rparr>)) = Inr (n3, c)"
    and res: "\<lparr>pr_applied = po_apply options, pr_cutoff = cutoff, pr_batch = ?batch, pr_access = n1, pr_refresh = n2,
      pr_recoveries = n3\<rparr> = res"
    and s': "s\<lparr>db_access := a, db_refresh := b, db_recoveries := c\<rparr> = s'"
    unfolding PruneSessions_def valid sum.case Let_def
    apply -
    apply (drule pool_tx_Inr, simp only: ebind_eq_Inr split_paired_Ex prod.case stmt_Inr sum.inject prod.inject)
    apply (elim exE conjE)
    apply (rule that; assumption)
    done
  have keys: "keyed as_hash (db_access s)" "keyed rs_hash (db_refresh s)" "keyed rc_id (db_recoveries s)"
    using assms(1) by (simp_all add: core_inv_def sessions_ok_def offers_ok_def)
  show ?thesis
  proof (cases "po_apply options")
    case True
    from range have "0 < ?batch" by simp
    note one = prune_rows_pruned [OF _ _ this]
    from a b c have "prune_rows ?ss ''prune_access'' s True as_expires as_hash (\<lambda>r. skip (as_hash r)) cutoff ?batch (db_access s) = Inr (n1, a)"
      "prune_rows ?ss ''prune_refresh'' (s\<lparr>db_access := a\<rparr>) True rs_expires rs_hash (\<lambda>r. skip (rs_hash r)) cutoff ?batch (db_refresh s) = Inr (n2, b)"
      "prune_rows ?ss ''prune_recoveries'' (s\<lparr>db_access := a, db_refresh := b\<rparr>) True rc_expires rc_id (\<lambda>r. skip (rc_id r)) cutoff ?batch
        (db_recoveries s) = Inr (n3, c)" by (simp_all add: True)
    from one [OF this(1) keys(1)] one [OF this(2) keys(2)] one [OF this(3) keys(3)] range show ?thesis
      by (simp add: cutoff res [symmetric] s' [symmetric] True)
  next
    case False
    with a b c have "s' = s" by (simp add: prune_rows_def stmt_Inr s' [symmetric])
    with False range res cutoff show ?thesis by auto
  qed
qed

theorem PruneSessions_bounded_witness:
  "\<exists>res s'. PruneSessions (demo_visit\<lparr>rq_db_now := 2 * day\<rparr>) (\<lambda>_. False)
      \<lparr>po_apply = True, po_retention_days = 1, po_batch = 1\<rparr> demo_core = (Inr res, s') \<and>
    pr_access res = 1 \<and> db_access s' = [] \<and> db_accounts s' = db_accounts demo_core"
proof -
  have tx: "rq_tx (demo_visit\<lparr>rq_db_now := n\<rparr>) i = demo_session" for n i by (simp add: demo_visit_def)
  have valid: "validatePruneOptions \<lparr>po_apply = True, po_retention_days = 1, po_batch = 1\<rparr> = Inr ()"
    by (simp add: validatePruneOptions_def)
  have early: "9 < 2 * day - 1 * day" by (simp add: day_def minute_def)
  obtain res s' where run: "PruneSessions (demo_visit\<lparr>rq_db_now := 2 * day\<rparr>) (\<lambda>_. False)
      \<lparr>po_apply = True, po_retention_days = 1, po_batch = 1\<rparr> demo_core = (Inr res, s')"
    and count: "pr_access res = 1" "db_access s' = []"
    using early by (simp add: PruneSessions_def valid tx demo_pool_tx prune_rows_def expired_rows_def demo_rows sort_by_def
        sql_delete_def Let_def)
  from PruneSessions_bounded [OF demo_core_inv run] have "s'\<lparr>db_access := db_access demo_core, db_refresh := db_refresh demo_core,
      db_recoveries := db_recoveries demo_core\<rparr> = demo_core" by simp
  then have "db_accounts (s'\<lparr>db_access := db_access demo_core, db_refresh := db_refresh demo_core,
      db_recoveries := db_recoveries demo_core\<rparr>) = db_accounts demo_core" by (rule arg_cong)
  then have "db_accounts s' = db_accounts demo_core" by simp
  with run count show ?thesis by blast
qed

end
