(* ===== verification/CoreListings.thy ===== *)
theory CoreListings
  imports CoreMembers
begin

text \<open>
  What the application lists: the paged directories of \<open>directories.go\<close> with their cursors, the member and
  role details (\<open>member_details.go\<close>, \<open>role_audit.go\<close>), the device sessions of an account (\<open>accounts.go\<close>) and
  the roles of a tenant (\<open>service.go\<close>). A page is the part of a sorted listing behind a key, and a cursor is the key
  of the last item, bound to the listing and its filter. The order of texts and the folding of letters are the
  database's, and a cursor's text is what \<open>encoding/json\<close> makes of it: these are parameters.
\<close>

section \<open>Cursors\<close>

record directory_filter =
  df_query :: string
  df_status :: string
  df_after :: string
  df_limit :: int

record 'a directory_page =
  dp_items :: "'a list"
  dp_total :: int
  dp_next :: string

text \<open>\<open>dc_at\<close> is \<open>None\<close> for the zero time.\<close>

record directory_cursor =
  dc_tenant :: string
  dc_kind :: string
  dc_query :: string
  dc_status :: string
  dc_id :: string
  dc_at :: "time option"
  dc_role :: string
  dc_assignment :: string

record listing_libraries =
  ll_less :: "string \<Rightarrow> string \<Rightarrow> bool"
  ll_lower :: "string \<Rightarrow> string"
  ll_marshal :: "directory_cursor \<Rightarrow> string"
  ll_unmarshal :: "string \<Rightarrow> directory_cursor option"

text \<open>\<open>base64.RawURLEncoding\<close>.\<close>

definition url_encode :: "string \<Rightarrow> string" where
  "url_encode s = map url_char (b64_encode s)"

definition std_char :: "char \<Rightarrow> char" where
  "std_char c = (if c = CHR ''-'' then CHR ''+'' else if c = CHR ''_'' then CHR ''/'' else c)"

definition url_decode :: "string \<Rightarrow> string option" where
  "url_decode s = (if CHR ''+'' \<in> set s \<or> CHR ''/'' \<in> set s then None else b64_decode (map std_char s))"

definition has_nul :: "string \<Rightarrow> bool" where
  "has_nul s = (CHR 0x00 \<in> set s)"

definition valid_directory_status :: "string \<Rightarrow> string \<Rightarrow> bool" where
  "valid_directory_status kind status =
     (status = [] \<or>
      (if kind = ''members'' \<or> kind = ''role-members'' then status \<in> {''active'', ''suspended''}
       else if kind = ''invitations'' then status \<in> {''pending'', ''accepted'', ''revoked'', ''expired''}
       else False))"

definition maxDirectoryCursorSize :: nat where
  "maxDirectoryCursorSize = 8192"

definition directoryInput ::
  "listing_libraries \<Rightarrow> string \<Rightarrow> string \<Rightarrow> directory_filter \<Rightarrow> error + directory_filter \<times> directory_cursor" where
  "directoryInput ll tenant kind input =
     (let query = trim_space (df_query input) in
      if \<not> valid_string query \<or> length (runes query) > 128 \<or> has_nul query \<or> df_limit input < 0 \<or> df_limit input > 100
      then Inl ErrInvalidInput
      else if \<not> valid_directory_status kind (df_status input) then Inl ErrInvalidInput
      else
        let f = input\<lparr>df_query := query, df_limit := if df_limit input = 0 then 30 else df_limit input\<rparr>;
            cursor = \<lparr>dc_tenant = tenant, dc_kind = kind, dc_query = query, dc_status = df_status input, dc_id = [],
              dc_at = None, dc_role = [], dc_assignment = []\<rparr> in
        if df_after input = [] then Inr (f, cursor)
        else if length (df_after input) > maxDirectoryCursorSize then Inl ErrInvalidInput
        else (case url_decode (df_after input) of
          None \<Rightarrow> Inl ErrInvalidInput
        | Some data \<Rightarrow>
          (case ll_unmarshal ll data of
             None \<Rightarrow> Inl ErrInvalidInput
           | Some supplied \<Rightarrow>
               if dc_tenant supplied \<noteq> tenant \<or> dc_kind supplied \<noteq> kind \<or> dc_query supplied \<noteq> query \<or>
                  dc_status supplied \<noteq> df_status input \<or> dc_id supplied = [] \<or> length (dc_id supplied) > 256 \<or>
                  \<not> valid_string (dc_id supplied) \<or> has_nul (dc_id supplied) \<or>
                  kind = ''invitations'' \<and> dc_at supplied = None
               then Inl ErrInvalidInput else Inr (f, supplied))))"

definition finishDirectory ::
  "listing_libraries \<Rightarrow> 'a list \<Rightarrow> int \<Rightarrow> directory_filter \<Rightarrow> directory_cursor \<Rightarrow> ('a \<Rightarrow> string \<times> time option) \<Rightarrow>
     'a directory_page" where
  "finishDirectory ll items counted f cursor key =
     (if int (length items) > df_limit f then
        let items = take (nat (df_limit f)) items; (last_id, at) = key (last items) in
        \<lparr>dp_items = items, dp_total = counted, dp_next = url_encode (ll_marshal ll (cursor\<lparr>dc_id := last_id, dc_at := at\<rparr>))\<rparr>
      else \<lparr>dp_items = items, dp_total = counted, dp_next = []\<rparr>)"

text \<open>
  The two statements of a listing in one transaction: the number of all rows, and the first
  \<open>limit + 1\<close> of the rows that follow the cursor.
\<close>

definition list_after ::
  "core_db session \<Rightarrow> string \<Rightarrow> ('a \<Rightarrow> 'a \<Rightarrow> bool) \<Rightarrow> ('a \<Rightarrow> bool) \<Rightarrow> int \<Rightarrow> 'a list \<Rightarrow> core_db \<Rightarrow>
     error + ('a list \<times> int) \<times> core_db" where
  "list_after ss kind before after limit rows s =
     ebind (stmt ss (''count_'' @ kind) s (Inr (int (length rows)))) (\<lambda>counted.
     ebind (stmt ss (''list_'' @ kind) s (Inr (take (nat (limit + 1)) (sort_by before (filter after rows))))) (\<lambda>items.
     Inr ((items, counted), s)))"

text \<open>\<open>$2 = '' OR position(lower($2) in lower(text)) > 0\<close>.\<close>

definition text_matches :: "listing_libraries \<Rightarrow> string \<Rightarrow> string \<Rightarrow> bool" where
  "text_matches ll query txt = (query = [] \<or> sublist (ll_lower ll query) (ll_lower ll txt))"

section \<open>Members\<close>

record member =
  mb_account :: string
  mb_email :: string
  mb_status :: string
  mb_joined :: time

definition member_rows :: "tenant_id \<Rightarrow> core_db \<Rightarrow> member list" where
  "member_rows t s = [\<lparr>mb_account = tm_account m, mb_email = ac_email a, mb_status = tm_status m, mb_joined = tm_joined m\<rparr>.
     m \<leftarrow> filter (\<lambda>m. tm_tenant m = t) (db_memberships s),
     a \<leftarrow> filter (\<lambda>a. ac_id a = tm_account m) (db_accounts s)]"

definition member_matches :: "listing_libraries \<Rightarrow> directory_filter \<Rightarrow> member \<Rightarrow> bool" where
  "member_matches ll f m = (text_matches ll (df_query f) (mb_email m @ '' '' @ mb_account m) \<and>
     (df_status f = [] \<or> mb_status m = df_status f))"

definition by_id :: "listing_libraries \<Rightarrow> ('a \<Rightarrow> string) \<Rightarrow> 'a \<Rightarrow> 'a \<Rightarrow> bool" where
  "by_id ll key a b = ll_less ll (key a) (key b)"

definition after_id :: "listing_libraries \<Rightarrow> directory_cursor \<Rightarrow> ('a \<Rightarrow> string) \<Rightarrow> 'a \<Rightarrow> bool" where
  "after_id ll cursor key a = (dc_id cursor = [] \<or> ll_less ll (dc_id cursor) (key a))"

definition MemberDirectory ::
  "service \<Rightarrow> listing_libraries \<Rightarrow> request \<Rightarrow> tenant_id \<Rightarrow> directory_filter \<Rightarrow> core_db \<Rightarrow>
     (error + member directory_page) \<times> core_db" where
  "MemberDirectory sv ll rq t input s = (case directoryInput ll t ''members'' input of
     Inl e \<Rightarrow> (Inl e, s)
   | Inr (f, cursor) \<Rightarrow>
       (let (res, s') = RunTenant (sv_store sv) (rq_tx rq 0) t True (Some (\<lambda>s.
          list_after (rq_tx rq 0) ''members'' (by_id ll mb_account) (after_id ll cursor mb_account) (df_limit f)
            (filter (member_matches ll f) (member_rows t s)) s)) s
        in (ebind res (\<lambda>(items, counted). Inr (finishDirectory ll items counted f cursor (\<lambda>m. (mb_account m, None)))), s')))"

section \<open>Members of a role\<close>

definition role_there :: "tenant_id \<Rightarrow> role_id \<Rightarrow> core_db \<Rightarrow> bool" where
  "role_there t r s = sql_exists (\<lambda>x. role_key x = (t, r) \<and> \<not> ro_deleted x) (db_roles s)"

definition bound_to :: "tenant_id \<Rightarrow> role_id \<Rightarrow> core_db \<Rightarrow> string \<Rightarrow> bool" where
  "bound_to t r s account = sql_exists (\<lambda>b. binding_key b = (t, account, r)) (db_bindings s)"

definition RoleMemberDirectory ::
  "service \<Rightarrow> listing_libraries \<Rightarrow> request \<Rightarrow> tenant_id \<Rightarrow> role_id \<Rightarrow> string \<Rightarrow> directory_filter \<Rightarrow> core_db \<Rightarrow>
     (error + member directory_page) \<times> core_db" where
  "RoleMemberDirectory sv ll rq t r assignment input s =
     (let assignment = (if assignment = [] then ''assigned'' else assignment) in
      if validateOpaqueID r \<noteq> Inr () \<or> assignment \<noteq> ''assigned'' \<and> assignment \<noteq> ''available'' then (Inl ErrInvalidInput, s)
      else (case directoryInput ll t ''role-members'' input of
        Inl e \<Rightarrow> (Inl e, s)
      | Inr (f, cursor) \<Rightarrow>
          if df_after input \<noteq> [] \<and> (dc_role cursor \<noteq> r \<or> dc_assignment cursor \<noteq> assignment) then (Inl ErrInvalidInput, s)
          else
            let cursor = cursor\<lparr>dc_role := r, dc_assignment := assignment\<rparr>;
                (res, s') = RunTenant (sv_store sv) (rq_tx rq 0) t True (Some (\<lambda>s.
                  ebind (stmt (rq_tx rq 0) ''role_exists'' s (Inr (role_there t r s))) (\<lambda>exists.
                  if \<not> exists then Inl ErrNotFound
                  else list_after (rq_tx rq 0) ''role_members'' (by_id ll mb_account) (after_id ll cursor mb_account) (df_limit f)
                    (filter (\<lambda>m. member_matches ll f m \<and> bound_to t r s (mb_account m) = (assignment = ''assigned''))
                      (member_rows t s)) s))) s
            in (ebind res (\<lambda>(items, counted). Inr (finishDirectory ll items counted f cursor (\<lambda>m. (mb_account m, None)))), s')))"

section \<open>Roles\<close>

definition live_roles :: "tenant_id \<Rightarrow> core_db \<Rightarrow> role list" where
  "live_roles t s = filter (\<lambda>r. ro_tenant r = t \<and> \<not> ro_deleted r) (db_roles s)"

definition RoleDirectory ::
  "service \<Rightarrow> listing_libraries \<Rightarrow> request \<Rightarrow> tenant_id \<Rightarrow> directory_filter \<Rightarrow> core_db \<Rightarrow>
     (error + role directory_page) \<times> core_db" where
  "RoleDirectory sv ll rq t input s = (case directoryInput ll t ''roles'' input of
     Inl e \<Rightarrow> (Inl e, s)
   | Inr (f, cursor) \<Rightarrow>
       (let (res, s') = RunTenant (sv_store sv) (rq_tx rq 0) t True (Some (\<lambda>s.
          list_after (rq_tx rq 0) ''roles'' (by_id ll ro_id) (after_id ll cursor ro_id) (df_limit f)
            (filter (\<lambda>r. text_matches ll (df_query f) (ro_id r @ '' '' @ ro_name r @ '' '' @ ro_description r)) (live_roles t s)) s)) s
        in (ebind res (\<lambda>(items, counted). Inr (finishDirectory ll items counted f cursor (\<lambda>r. (ro_id r, None)))), s')))"

text \<open>\<open>ListRoles\<close> of \<open>service.go\<close>.\<close>

definition ListRoles ::
  "service \<Rightarrow> listing_libraries \<Rightarrow> request \<Rightarrow> tenant_id \<Rightarrow> core_db \<Rightarrow> (error + role list) \<times> core_db" where
  "ListRoles sv ll rq t s = RunTenant (sv_store sv) (rq_tx rq 0) t True (Some (\<lambda>s.
     ebind (stmt (rq_tx rq 0) ''list_roles'' s (Inr (sort_by
       (\<lambda>a b. if ro_name a \<noteq> ro_name b then ll_less ll (ro_name a) (ro_name b) else ll_less ll (ro_id a) (ro_id b))
       (live_roles t s)))) (\<lambda>roles. Inr (roles, s)))) s"

section \<open>Invitations\<close>

record invitation_item =
  ii_id :: string
  ii_email :: string
  ii_expires :: time
  ii_created :: time
  ii_status :: string

definition invitation_status :: "time \<Rightarrow> invitation_row \<Rightarrow> string" where
  "invitation_status now i =
     (if iv_accepted i \<noteq> None then ''accepted'' else if iv_revoked i \<noteq> None then ''revoked''
      else if iv_expires i \<le> now then ''expired'' else ''pending'')"

definition invitation_items :: "time \<Rightarrow> tenant_id \<Rightarrow> core_db \<Rightarrow> invitation_item list" where
  "invitation_items now t s = map (\<lambda>i. \<lparr>ii_id = iv_id i, ii_email = iv_display i, ii_expires = iv_expires i,
     ii_created = iv_created i, ii_status = invitation_status now i\<rparr>) (filter (\<lambda>i. iv_tenant i = t) (db_invitations s))"

definition invitation_matches :: "listing_libraries \<Rightarrow> directory_filter \<Rightarrow> invitation_item \<Rightarrow> bool" where
  "invitation_matches ll f i = (text_matches ll (df_query f) (ii_email i @ '' '' @ ii_id i) \<and>
     (df_status f = [] \<or> ii_status i = df_status f))"

text \<open>\<open>(created_at, invitation_id) < (at, id)\<close>, and the descending order.\<close>

definition newer :: "listing_libraries \<Rightarrow> time \<times> string \<Rightarrow> time \<times> string \<Rightarrow> bool" where
  "newer ll a b = (fst b < fst a \<or> fst b = fst a \<and> ll_less ll (snd b) (snd a))"

definition invitation_place :: "invitation_item \<Rightarrow> time \<times> string" where
  "invitation_place i = (ii_created i, ii_id i)"

definition InvitationDirectory ::
  "service \<Rightarrow> listing_libraries \<Rightarrow> request \<Rightarrow> tenant_id \<Rightarrow> directory_filter \<Rightarrow> core_db \<Rightarrow>
     (error + invitation_item directory_page) \<times> core_db" where
  "InvitationDirectory sv ll rq t input s = (case directoryInput ll t ''invitations'' input of
     Inl e \<Rightarrow> (Inl e, s)
   | Inr (f, cursor) \<Rightarrow>
       (let (res, s') = RunTenant (sv_store sv) (rq_tx rq 0) t True (Some (\<lambda>s.
          list_after (rq_tx rq 0) ''invitations'' (\<lambda>a b. newer ll (invitation_place a) (invitation_place b))
            (\<lambda>i. dc_id cursor = [] \<or> (case dc_at cursor of None \<Rightarrow> False
               | Some at \<Rightarrow> newer ll (at, dc_id cursor) (invitation_place i))) (df_limit f)
            (filter (invitation_matches ll f) (invitation_items (rq_now rq 0) t s)) s)) s
        in (ebind res (\<lambda>(items, counted). Inr (finishDirectory ll items counted f cursor (\<lambda>i. (ii_id i, Some (ii_created i))))), s')))"

section \<open>One member, one role\<close>

definition memberDetail ::
  "service \<Rightarrow> request \<Rightarrow> tenant_id \<Rightarrow> string \<Rightarrow> core_db \<Rightarrow> (error + member) \<times> core_db" where
  "memberDetail sv rq t account s =
     (if validateOpaqueID account \<noteq> Inr () then (Inl ErrInvalidInput, s)
      else let (res, s') = RunTenant (sv_store sv) (rq_tx rq 0) t True (Some (\<lambda>s.
          ebind (stmt (rq_tx rq 0) ''member_detail'' s (sql_row (\<lambda>m. mb_account m = account) (member_rows t s))) (\<lambda>m. Inr (m, s)))) s
        in (on_no_rows ErrNotFound res, s'))"

definition MemberRoleIDs ::
  "service \<Rightarrow> listing_libraries \<Rightarrow> request \<Rightarrow> tenant_id \<Rightarrow> string \<Rightarrow> core_db \<Rightarrow> (error + role_id list) \<times> core_db" where
  "MemberRoleIDs sv ll rq t account s = RunTenant (sv_store sv) (rq_tx rq 0) t True (Some (\<lambda>s.
     ebind (stmt (rq_tx rq 0) ''member_exists'' s (Inr (sql_exists (\<lambda>m. membership_key m = (t, account)) (db_memberships s)))) (\<lambda>exists.
     if \<not> exists then Inl ErrNotFound
     else ebind (stmt (rq_tx rq 0) ''member_roles'' s (Inr (sort_by (ll_less ll) (map sg_role
       (filter (\<lambda>b. sg_tenant b = t \<and> sg_subject b = account \<and> role_there t (sg_role b) s) (db_bindings s)))))) (\<lambda>roles.
     Inr (roles, s))))) s"

record scoped_permission =
  sp_permission :: permission_key
  sp_scope :: scope
  sp_roles :: "string list"

definition scoped :: "role_permission_grant \<Rightarrow> scoped_permission" where
  "scoped g = \<lparr>sp_permission = rg_permission g, sp_scope = rg_scope g, sp_roles = rg_workspace_roles g\<rparr>"

record role_history =
  rh_version :: int64
  rh_name :: string
  rh_description :: string
  rh_grants :: "scoped_permission list"
  rh_created :: time
  rh_creator :: subject_id

definition history_of :: "role_version \<Rightarrow> role_history" where
  "history_of v = \<lparr>rh_version = rv_version v, rh_name = rv_name v, rh_description = rv_description v,
     rh_grants = map scoped (rv_grants v), rh_created = rv_created_at v, rh_creator = rv_created_by v\<rparr>"

record role_detail =
  rd_role :: role
  rd_grants :: "scoped_permission list"
  rd_subjects :: "subject_id list"
  rd_versions :: "role_history list"
  rd_next :: int64

record role_summary = role_detail +
  rd_count :: int

text \<open>The text form of a scope, and the order of \<open>permission_key, scope, workspace_roles\<close>.\<close>

fun texts_less :: "(string \<Rightarrow> string \<Rightarrow> bool) \<Rightarrow> string list \<Rightarrow> string list \<Rightarrow> bool" where
  "texts_less lt _ [] = False"
| "texts_less lt [] (y # ys) = True"
| "texts_less lt (x # xs) (y # ys) = (lt x y \<or> x = y \<and> texts_less lt xs ys)"

definition grant_listed :: "listing_libraries \<Rightarrow> scoped_permission \<Rightarrow> scoped_permission \<Rightarrow> bool" where
  "grant_listed ll a b =
     (if sp_permission a \<noteq> sp_permission b then ll_less ll (sp_permission a) (sp_permission b)
      else if sp_scope a \<noteq> sp_scope b then ll_less ll (sp_scope a) (sp_scope b)
      else texts_less (ll_less ll) (sp_roles a) (sp_roles b))"

definition roleDetails ::
  "service \<Rightarrow> listing_libraries \<Rightarrow> request \<Rightarrow> tenant_id \<Rightarrow> role_id \<Rightarrow> int64 \<Rightarrow> bool \<Rightarrow> core_db \<Rightarrow>
     (error + role_summary) \<times> core_db" where
  "roleDetails sv ll rq t r before includeSubjects s =
     (if validateOpaqueID r \<noteq> Inr () \<or> sint before < 0 then (Inl ErrInvalidInput, s)
      else let ss = rq_tx rq 0 in RunTenant (sv_store sv) ss t True (Some (\<lambda>s.
        ebind (on_no_rows ErrNotFound (stmt ss ''role'' s
          (sql_row (\<lambda>x. role_key x = (t, r) \<and> \<not> ro_deleted x) (db_roles s)))) (\<lambda>role.
        ebind (stmt ss ''role_grants'' s (Inr (sort_by (grant_listed ll)
          (map (scoped \<circ> snd) (filter (\<lambda>(u, g). u = t \<and> rg_role g = r) (db_grants s)))))) (\<lambda>grants.
        let bound = map sg_subject (filter (\<lambda>b. sg_tenant b = t \<and> sg_role b = r) (db_bindings s)) in
        ebind (stmt ss ''role_subjects'' s (Inr (sort_by (ll_less ll) bound))) (\<lambda>subjects.
        ebind (stmt ss ''role_versions'' s (Inr (take 21 (sort_by (\<lambda>a b. sint (rv_version b) < sint (rv_version a))
          (filter (\<lambda>v. rv_tenant v = t \<and> rv_role v = r \<and> (before = 0 \<or> sint (rv_version v) < sint before)) (db_versions s)))))) (\<lambda>versions.
        Inr (\<lparr>rd_role = role, rd_grants = grants, rd_subjects = (if includeSubjects then subjects else []),
            rd_versions = map history_of (take 20 versions),
            rd_next = (if length versions > 20 then rv_version (versions ! 19) else 0),
            rd_count = int (length subjects)\<rparr>, s))))))) s)"

definition RoleDetail ::
  "service \<Rightarrow> listing_libraries \<Rightarrow> request \<Rightarrow> tenant_id \<Rightarrow> role_id \<Rightarrow> int64 \<Rightarrow> core_db \<Rightarrow>
     (error + role_detail) \<times> core_db" where
  "RoleDetail sv ll rq t r before s =
     (let (res, s') = roleDetails sv ll rq t r before True s
      in (ebind res (\<lambda>v. Inr (role_detail.truncate v)), s'))"

section \<open>Device sessions\<close>

record account_session =
  dv_id :: string
  dv_started :: time
  dv_seen :: time
  dv_expires :: time
  dv_remote :: string
  dv_agent :: string
  dv_current :: bool

record active_row =
  av_session :: account_session
  av_created :: time
  av_hash :: string

text \<open>\<open>WITH active\<close>: the live tokens of the account; a refresh token counts as seen when it was made.\<close>

definition active_tokens :: "string \<Rightarrow> string \<Rightarrow> time \<Rightarrow> core_db \<Rightarrow> active_row list" where
  "active_tokens account hash now s =
     map (\<lambda>r. \<lparr>av_session = \<lparr>dv_id = as_family r, dv_started = as_started r, dv_seen = as_seen r, dv_expires = as_expires r,
         dv_remote = as_remote r, dv_agent = as_agent r, dv_current = (as_hash r = hash)\<rparr>,
       av_created = as_created r, av_hash = as_hash r\<rparr>)
       (filter (\<lambda>r. as_account r = account \<and> as_revoked r = None \<and> as_expires r > now) (db_access s)) @
     map (\<lambda>r. \<lparr>av_session = \<lparr>dv_id = rs_family r, dv_started = rs_started r, dv_seen = rs_created r, dv_expires = rs_expires r,
         dv_remote = rs_remote r, dv_agent = rs_agent r, dv_current = False\<rparr>,
       av_created = rs_created r, av_hash = rs_hash r\<rparr>)
       (filter (\<lambda>r. rs_account r = account \<and> rs_revoked r = None \<and> rs_expires r > now) (db_refresh s))"

definition later_seen :: "active_row \<Rightarrow> active_row \<Rightarrow> bool" where
  "later_seen a b =
     (let x = dv_seen (av_session a); y = dv_seen (av_session b) in
      y < x \<or> x = y \<and> (av_created b < av_created a \<or> av_created a = av_created b \<and> av_hash a < av_hash b))"

text \<open>\<open>DISTINCT ON (session_id)\<close> with the window over the device's rows.\<close>

definition latest_of :: "active_row list \<Rightarrow> account_session" where
  "latest_of rows = (av_session (hd (sort_by later_seen rows)))
     \<lparr>dv_expires := Max (set (map (dv_expires \<circ> av_session) rows)),
      dv_current := list_ex (dv_current \<circ> av_session) rows\<rparr>"

definition device_sessions :: "listing_libraries \<Rightarrow> active_row list \<Rightarrow> account_session list" where
  "device_sessions ll rows = sort_by
     (\<lambda>a b. dv_started b < dv_started a \<or> dv_started a = dv_started b \<and> ll_less ll (dv_id a) (dv_id b))
     (map (\<lambda>f. latest_of (filter (\<lambda>r. dv_id (av_session r) = f) rows)) (remdups (map (dv_id \<circ> av_session) rows)))"

definition ListSessions ::
  "service \<Rightarrow> listing_libraries \<Rightarrow> request \<Rightarrow> string \<Rightarrow> string \<Rightarrow> core_db \<Rightarrow> error + account_session list" where
  "ListSessions sv ll rq account accessToken s = pool_query (rq_tx rq 0) ''list_sessions''
     (\<lambda>s. Inr (device_sessions ll (active_tokens account (tokenHash sv accessToken) (rq_now rq 0) s))) s"

end
