(* ===== verification/CoreMembership.thy ===== *)
theory CoreMembership
  imports CoreTokens
begin

text \<open>
  Who may become a member and who may recover a member's password: an accepted invitation was open, is
  used up and grants no role; a recovery is issued by a system administrator who confirmed the password and
  manages members at tenant scope, and never for a system administrator.
\<close>

section \<open>Permission\<close>

definition holds_at_tenant :: "core_db \<Rightarrow> tenant_id \<Rightarrow> string \<Rightarrow> permission_key \<Rightarrow> bool" where
  "holds_at_tenant s t u permission \<longleftrightarrow> active_member s t u \<and>
     (\<exists>g. (u, g) \<in> set (joined_grants t s) \<and> eg_permission g = permission \<and> eg_scope g = ScopeTenant)"

lemma requireTenantPermission_Inr:
  "requireTenantPermission ss t u permission s = Inr x \<Longrightarrow> holds_at_tenant s t u permission"
  by (auto simp: requireTenantPermission_def holds_at_tenant_def err_simps list_ex_iff split: if_split_asm)

section \<open>Invitations\<close>

text \<open>The account that accepts: an existing one with its password, or a new one.\<close>

definition accepted_as :: "service \<Rightarrow> string \<Rightarrow> string \<Rightarrow> account \<Rightarrow> core_db \<Rightarrow> core_db \<Rightarrow> bool" where
  "accepted_as sv email password account s s' \<longleftrightarrow>
     (db_accounts s' = db_accounts s \<and> (\<exists>a \<in> set (db_accounts s). ac_id a = an_id account \<and> ac_normalized a = email \<and>
        ac_status a = ''active'' \<and> verify_password sv password (ac_hash a))) \<or>
     (email \<notin> ac_normalized ` set (db_accounts s) \<and> (\<exists>row. db_accounts s' = db_accounts s @ [row] \<and>
        ac_id row = an_id account \<and> ac_normalized row = email \<and> verify_password sv password (ac_hash row)))"

lemma accepting_account_as:
  assumes "accepting_account sv rq ss email display newHash newID password s = Inr (Some account, s1)"
    and "\<And>hash. newHash = Some hash \<Longrightarrow> verify_password sv password hash"
  shows "accepted_as sv email password account s s1 \<and> s1 = s\<lparr>db_accounts := db_accounts s1\<rparr>"
proof (cases "stmt ss ''lock_account'' s (sql_row (\<lambda>a. ac_normalized a = email) (db_accounts s))")
  case (Inl e)
  with assms(1) obtain hash where hash: "newHash = Some hash"
    and ins: "insert_account (new_account newID display email hash (rq_now rq 1)) s = Inr s1" and who: "an_id account = newID"
    by (auto simp: accepting_account_def ebind_eq_Inr stmt_Inr Let_def split: if_split_asm option.split_asm)
  from ins assms(2) [OF hash] who show ?thesis
    by (auto simp: insert_account_Inr accepted_as_def new_account_def)
next
  case (Inr a)
  with assms(1) have "s1 = s" "an_id account = ac_id a" "ac_status a = ''active''" "verify_password sv password (ac_hash a)"
    by (auto simp: accepting_account_def ebind_eq_Inr account_of_def split: if_split_asm)
  with Inr show ?thesis by (auto simp: accepted_as_def stmt_Inr dest!: sql_row_Inr)
qed

text \<open>A failure of the driver is never \<open>pgx.ErrNoRows\<close>.\<close>

definition honest :: "'s session \<Rightarrow> bool" where
  "honest ss \<longleftrightarrow> (\<forall>q s. ss_fault ss q s \<noteq> Some NoRows)"

lemma honest_no_rows: "honest ss \<Longrightarrow> stmt ss q s r = Inl ErrNoRows \<Longrightarrow> r = Inl NoRows"
  by (auto simp: stmt_def sql_fail_def honest_def split: option.splits sum.splits if_split_asm)

lemma accept_tx_Inr:
  assumes "accept_tx sv rq token password preview newHash newID s = (Inr (Some account), s')"
    and "\<And>hash. newHash = Some hash \<Longrightarrow> verify_password sv password hash" and "honest (rq_tx rq 2)"
  obtains i where "i \<in> set (db_invitations s)" "invitation_key i = (ip_tenant preview, ip_id preview)"
    "iv_hash i = tokenHash sv token" "open_invitation (rq_now rq 0) i" "accepted_as sv (iv_email i) password account s s'"
    "active_member s' (iv_tenant i) (an_id account)"
    "db_invitations s' = sql_update (\<lambda>j. invitation_key j = (ip_tenant preview, ip_id preview))
       (\<lambda>j. j\<lparr>iv_accepted := Some (rq_now rq 5)\<rparr>) (db_invitations s)"
    "db_roles s' = db_roles s" "db_grants s' = db_grants s" "db_bindings s' = db_bindings s" "db_edges s' = db_edges s"
proof -
  let ?t = "ip_tenant preview" and ?ss = "rq_tx rq 2"
  note run = assms(1) [unfolded accept_tx_def Let_def, THEN run_tenant_Inr]
  from run obtain i s1 s2 where i: "sql_row (\<lambda>i. invitation_key i = (?t, ip_id preview) \<and> iv_hash i = tokenHash sv token \<and>
        open_invitation (rq_now rq 0) i) (db_invitations s) = Inr i"
    and who: "accepting_account sv rq ?ss (iv_email i) (ip_email preview) newHash newID password s = Inr (Some account, s1)"
    and status: "(case stmt ?ss ''membership_status'' s1 (sql_row (\<lambda>m. membership_key m = (?t, an_id account)) (db_memberships s1)) of
            Inl e \<Rightarrow> if e = ErrNoRows then Inr () else Inl e
          | Inr m \<Rightarrow> if tm_status m \<noteq> ''active'' then Inl ErrConflict else Inr ()) = Inr ()"
    and member: "stmt ?ss ''insert_membership'' s1
            (if (?t, an_id account) \<in> membership_key ` set (db_memberships s1) then Inr s1
             else insert_membership \<lparr>tm_tenant = ?t, tm_account = an_id account, tm_status = ''active'',
               tm_joined = rq_now rq 4\<rparr> s1) = Inr s2"
    and s': "\<exists>events. s2\<lparr>db_invitations := sql_update (\<lambda>j. invitation_key j = (?t, ip_id preview))
       (\<lambda>j. j\<lparr>iv_accepted := Some (rq_now rq 5)\<rparr>) (db_invitations s2), db_audit := events\<rparr> = s'"
    apply -
    apply (simp only: ebind_eq_Inr split_paired_Ex prod.case on_no_rows_Inr)
    apply (elim exE conjE)
    subgoal for i who s1
      by (cases who) (auto simp: ebind_eq_Inr stmt_Inr tenantAudit_def split del: if_split intro!: that)
    done
  have t: "iv_tenant i = ?t" using sql_row_Inr [OF i] by (simp add: invitation_key_def)
  from accepting_account_as [OF who assms(2)] have as: "accepted_as sv (iv_email i) password account s s1"
    and s1: "s1 = s\<lparr>db_accounts := db_accounts s1\<rparr>" by blast+
  have active: "active_member s2 ?t (an_id account)"
  proof (cases "(?t, an_id account) \<in> membership_key ` set (db_memberships s1)")
    case True
    then have "sql_row (\<lambda>m. membership_key m = (?t, an_id account)) (db_memberships s1) \<noteq> Inl NoRows"
      by (auto simp: sql_row_Inl)
    with status honest_no_rows [OF assms(3)] obtain m where
      "sql_row (\<lambda>m. membership_key m = (?t, an_id account)) (db_memberships s1) = Inr m" "tm_status m = ''active''"
      by (auto simp: stmt_Inr split: sum.split_asm if_split_asm)
    with True member show ?thesis by (auto simp: stmt_Inr active_member_def sql_exists_def dest!: sql_row_Inr)
  next
    case False
    with member show ?thesis by (auto simp: stmt_Inr insert_membership_Inr active_member_def sql_exists_def membership_key_def)
  qed
  from member have s2: "s2 = s1\<lparr>db_memberships := db_memberships s2\<rparr>"
    by (auto simp: stmt_Inr insert_membership_Inr split: if_split_asm)
  have "db_accounts s2 = db_accounts s1" by (subst s2) simp
  have rest: "db_invitations s2 = db_invitations s" "db_roles s2 = db_roles s" "db_grants s2 = db_grants s"
    "db_bindings s2 = db_bindings s" "db_edges s2 = db_edges s" by (subst s2, subst s1, simp)+
  show thesis
  proof (rule that [of i])
    show "accepted_as sv (iv_email i) password account s s'"
      using as s' \<open>db_accounts s2 = db_accounts s1\<close> by (auto simp: accepted_as_def)
    show "active_member s' (iv_tenant i) (an_id account)" using active s' t by (auto simp: active_member_def)
  qed (use sql_row_Inr [OF i] s' rest in auto)
qed

text \<open>A second acceptance finds nothing.\<close>

lemma AcceptInvitation_used:
  assumes "\<forall>i \<in> set (db_invitations s). iv_hash i = tokenHash sv token \<longrightarrow> \<not> pending_invitation i"
  shows "isl (fst (AcceptInvitation sv rq entropy token password s))"
proof -
  have "sql_row (\<lambda>i. iv_hash i = tokenHash sv token \<and> open_invitation now i) (db_invitations s) = Inl NoRows" for now
    using assms by (auto simp: sql_row_Inl open_invitation_def pending_invitation_def)
  then have "isl (PreviewInvitation sv rq token s)"
    by (simp add: PreviewInvitation_def inspect_invitation_def pool_query_def stmt_def on_no_rows_def split: option.split sum.split)
  then obtain e where "PreviewInvitation sv rq token s = Inl e" by (auto simp: isl_def)
  then show ?thesis by (simp add: AcceptInvitation_def)
qed

lemma accepted_used:
  assumes "keyed iv_hash (db_invitations s)" and "i \<in> set (db_invitations s)" and "P i"
    and "db_invitations s' = sql_update P (\<lambda>j. j\<lparr>iv_accepted := Some now\<rparr>) (db_invitations s)"
  shows "\<forall>j \<in> set (db_invitations s'). iv_hash j = iv_hash i \<longrightarrow> \<not> pending_invitation j"
proof -
  have "j = i" if "j \<in> set (db_invitations s)" "iv_hash j = iv_hash i" for j
    using keyed_same [OF assms(1) that(1) assms(2) that(2)] .
  with assms(3) show ?thesis unfolding assms(4) ball_sql_update by (auto simp: pending_invitation_def)
qed

text \<open>
  C16: An invitation admits its addressee once and grants nothing else. Success means that the tables the
  transaction met held an open invitation with the digest of the token, and that the caller knows the
  password of the active account with the invited e-mail, or created that account; afterwards the account
  is an active member of the inviting organization, no account, role, grant, binding or edge has changed but
  for the new account, and every later use of the token fails.
\<close>

theorem AcceptInvitation_success:
  assumes "AcceptInvitation sv rq entropy token password s = (Inr account, s')" and "core_inv (rq_others rq 1 s)"
    and "honest (rq_tx rq 2)"
    and "\<And>salt. entropy 16 = Some salt \<Longrightarrow> length salt = 16" and "\<And>p s t m l k. length (sv_idkey sv p s t m l k) = unat k"
  shows "\<exists>i \<in> set (db_invitations (rq_others rq 1 s)).
      iv_hash i = tokenHash sv token \<and> open_invitation (rq_now rq 0) i \<and>
      accepted_as sv (iv_email i) password account (rq_others rq 1 s) s' \<and> active_member s' (iv_tenant i) (an_id account) \<and>
      db_roles s' = db_roles (rq_others rq 1 s) \<and> db_grants s' = db_grants (rq_others rq 1 s) \<and>
      db_bindings s' = db_bindings (rq_others rq 1 s) \<and> db_edges s' = db_edges (rq_others rq 1 s) \<and>
      (\<forall>rq entropy password. isl (fst (AcceptInvitation sv rq entropy token password s')))"
proof -
  let ?s = "rq_others rq 1 s"
  from assms(1) obtain preview newHash newID where
    hash: "newHash = None \<or> (\<exists>hash. newHash = Some hash \<and> Hash (sv_idkey sv) entropy (Some core_hasher) password = Inr hash)"
    and run: "accept_tx sv rq token password preview newHash newID ?s = (Inr (Some account), s')"
    by (auto simp: AcceptInvitation_def ebind_eq_Inr split: sum.split_asm prod.split_asm option.split_asm if_split_asm)
  have verified: "verify_password sv password h" if "newHash = Some h" for h
    using hash that hash_verifies [OF _ assms(4,5)] by auto
  from accept_tx_Inr [OF run verified assms(3)] obtain i where i: "i \<in> set (db_invitations ?s)"
    "invitation_key i = (ip_tenant preview, ip_id preview)" "iv_hash i = tokenHash sv token" "open_invitation (rq_now rq 0) i"
    "accepted_as sv (iv_email i) password account ?s s'" "active_member s' (iv_tenant i) (an_id account)"
    and upd: "db_invitations s' = sql_update (\<lambda>j. invitation_key j = (ip_tenant preview, ip_id preview))
       (\<lambda>j. j\<lparr>iv_accepted := Some (rq_now rq 5)\<rparr>) (db_invitations ?s)"
    and same: "db_roles s' = db_roles ?s" "db_grants s' = db_grants ?s" "db_bindings s' = db_bindings ?s" "db_edges s' = db_edges ?s"
    by blast
  have "keyed iv_hash (db_invitations ?s)" using assms(2) by (simp add: core_inv_def offers_ok_def)
  from AcceptInvitation_used [OF accepted_used [OF this i(1,2) upd, unfolded i(3)]] i same show ?thesis by blast
qed

definition demo_invite_token :: string where
  "demo_invite_token = ''inv_'' @ replicate 43 (CHR ''x'')"

definition demo_invitation :: invitation_row where
  "demo_invitation = \<lparr>iv_tenant = ''t'', iv_id = ''i'', iv_email = ''new'', iv_display = ''new'', iv_hash = demo_invite_token,
     iv_creator = ''o'', iv_expires = 9, iv_accepted = None, iv_revoked = None, iv_created = 0\<rparr>"

definition demo_inviting :: core_db where
  "demo_inviting = demo_core\<lparr>db_invitations := [demo_invitation]\<rparr>"

lemma demo_inviting_inv: "core_inv demo_inviting"
  by (simp add: demo_inviting_def demo_invitation_def core_inv_parts keyed_def open_keyed_def demo_rows membership_key_def)

theorem AcceptInvitation_success_witness:
  "\<exists>account s'. AcceptInvitation demo_service demo_visit demo_entropy demo_invite_token demo_new demo_inviting = (Inr account, s') \<and>
     active_member s' ''t'' (an_id account) \<and>
     isl (fst (AcceptInvitation demo_service demo_visit demo_entropy demo_invite_token demo_new s'))"
proof -
  obtain hash where hash: "Hash (sv_idkey demo_service) demo_entropy (Some core_hasher) demo_new = Inr hash"
    using demo_hash demo_passwords by blast
  have token: "has_prefix demo_invite_token ''inv_''" "length demo_invite_token = 47"
    by (simp_all add: demo_invite_token_def has_prefix_def)
  have preview: "PreviewInvitation demo_service demo_visit demo_invite_token demo_inviting =
      Inr \<lparr>ip_tenant = ''t'', ip_id = ''i'', ip_email = ''new'', ip_tenant_name = ''T'', ip_expires = 9, ip_account_exists = False\<rparr>"
    by (simp add: PreviewInvitation_def token pool_query_def inspect_invitation_def sql_row_def demo_inviting_def demo_invitation_def
        open_invitation_def on_no_rows_def allowOrganization_def demo_rows sql_exists_def)
  have row: "sql_row (\<lambda>i. invitation_key i = (''t'', ''i'') \<and> iv_hash i = demo_invite_token \<and> open_invitation 1 i)
      (db_invitations demo_inviting) = Inr demo_invitation"
    by (simp add: sql_row_def demo_inviting_def demo_invitation_def open_invitation_def invitation_key_def)
  have joins: "accepting_account demo_service demo_visit demo_session (iv_email demo_invitation) ''new'' (Some hash)
      (''acc_'' @ new) demo_new demo_inviting = Inr (Some \<lparr>an_id = ''acc_'' @ new, an_email = ''new'', an_admin = False,
        an_created = 1, an_last_login = None\<rparr>,
      demo_inviting\<lparr>db_accounts := db_accounts demo_core @ [new_account (''acc_'' @ new) ''new'' ''new'' hash 1]\<rparr>)" for new
    by (simp add: accepting_account_def sql_row_def demo_inviting_def demo_invitation_def insert_account_def sql_insert_def
        sql_unique_def demo_rows stmt_def sql_fail_def)
  obtain account s' where run: "AcceptInvitation demo_service demo_visit demo_entropy demo_invite_token demo_new demo_inviting = (Inr account, s')"
    by (simp add: AcceptInvitation_def preview hash demo_passwords demo_random accept_tx_def demo_run_tenant Let_def on_no_rows_def row
        joins [simplified] tenantAudit_def)
      (simp add: sql_row_def demo_inviting_def demo_rows membership_key_def insert_membership_def sql_insert_def sql_references_def
        stmt_def sql_fail_def)
  have inv: "core_inv (rq_others demo_visit 1 demo_inviting)" by (simp add: demo_inviting_inv)
  have honest: "honest (rq_tx demo_visit 2)" by (simp add: honest_def)
  from AcceptInvitation_success [OF run inv honest demo_kdf] have "active_member s' ''t'' (an_id account)"
    "isl (fst (AcceptInvitation demo_service demo_visit demo_entropy demo_invite_token demo_new s'))"
    by (auto simp: demo_inviting_def demo_invitation_def)
  with run show ?thesis by blast
qed

section \<open>Recoveries\<close>

text \<open>
  C17: A recovery token is issued only by someone entitled to it. Success means that the actor is an active
  account and the system administrator, not locked, has given the password and holds \<open>iam:member:manage\<close> at
  tenant scope as an active member, and that the target is an active member of the organization and no
  system administrator; afterwards exactly one recovery of the target is pending: the new one, with the
  digest of the token, for thirty minutes. No password, session or membership has changed.
\<close>

theorem CreatePasswordRecovery_authorized:
  assumes "CreatePasswordRecovery sv rq t actor target password s = (Inr item, s')"
  shows "\<exists>a \<in> set (db_accounts (rq_others rq 0 s)). \<exists>b \<in> set (db_accounts (rq_others rq 0 s)). \<exists>r.
      ac_id a = actor \<and> ac_status a = ''active'' \<and> is_admin (rq_others rq 0 s) actor \<and> \<not> locked_at (ac_locked a) (rq_now rq 1) \<and>
      verify_password sv password (ac_hash a) \<and> holds_at_tenant (rq_others rq 0 s) t actor PermissionMemberManage \<and>
      ac_id b = target \<and> recoverable_member (rq_others rq 0 s) t b \<and>
      {q \<in> set (db_recoveries s'). rc_account q = target \<and> pending_recovery q} = {r} \<and>
      rc_hash r = tokenHash sv (pw_token item) \<and> rc_issued r = t \<and> rc_creator r = actor \<and>
      rc_expires r = rq_now rq 0 + 30 * minute \<and> pw_expires item = rc_expires r \<and> pw_email item = ac_email b \<and>
      map ac_hash (db_accounts s') = map ac_hash (db_accounts (rq_others rq 0 s)) \<and>
      db_access s' = db_access (rq_others rq 0 s) \<and> db_refresh s' = db_refresh (rq_others rq 0 s) \<and>
      db_memberships s' = db_memberships (rq_others rq 0 s)"
proof -
  let ?s = "rq_others rq 0 s"
  from assms obtain recovery token where
    run: "create_recovery_tx sv rq t actor target password recovery token ?s = (Inr (Some item), s')"
    by (auto simp: CreatePasswordRecovery_def ebind_eq_Inr split: sum.split_asm prod.split_asm option.split_asm)
  let ?P = "\<lambda>r. rc_account r = target \<and> rc_consumed r = None \<and> rc_revoked r = None"
  let ?rows = "sql_update ?P (\<lambda>r. r\<lparr>rc_revoked := Some (rq_now rq 2)\<rparr>) (db_recoveries ?s)"
  let ?r = "\<lparr>rc_id = recovery, rc_account = target, rc_issued = t, rc_creator = actor, rc_hash = tokenHash sv token,
     rc_created = rq_now rq 3, rc_expires = rq_now rq 0 + 30 * minute, rc_consumed = None, rc_revoked = None\<rparr>"
  from run obtain a b events where perm: "requireTenantPermission (rq_tx rq 1) t actor PermissionMemberManage ?s = Inr ()"
    and a: "sql_row (\<lambda>a. ac_id a = actor \<and> ac_status a = ''active'' \<and> is_admin ?s (ac_id a)) (db_accounts ?s) = Inr a"
      "\<not> locked_at (ac_locked a) (rq_now rq 1)" "verify_password sv password (ac_hash a)"
    and b: "sql_row (\<lambda>b. ac_id b = target \<and> recoverable_member ?s t b) (db_accounts ?s) = Inr b"
    and item: "item = \<lparr>pw_id = recovery, pw_email = ac_email b, pw_expires = rq_now rq 0 + 30 * minute, pw_token = token\<rparr>"
    and s': "s' = ?s\<lparr>db_recoveries := ?rows @ [?r], db_accounts := sql_update (\<lambda>a. ac_id a = actor)
      (\<lambda>a. a\<lparr>ac_failed := 0, ac_locked := None\<rparr>) (db_accounts ?s), db_audit := events\<rparr>"
    unfolding create_recovery_tx_def Let_def
    by (auto simp: ebind_eq_Inr stmt_Inr on_no_rows_Inr tenantAudit_def insert_recovery_Inr split: if_split_asm dest!: run_tenant_Inr)
  have "{q \<in> set (db_recoveries s'). rc_account q = target \<and> pending_recovery q} = {?r}"
    using replaced_recoveries [of target "rq_now rq 2" "db_recoveries ?s"] by (auto simp: s' pending_recovery_def)
  moreover have "map ac_hash (db_accounts s') = map ac_hash (db_accounts ?s)" by (simp add: s' map_key_update)
  moreover have "a \<in> set (db_accounts ?s)" "ac_id a = actor" "ac_status a = ''active''" "is_admin ?s actor"
    using sql_row_Inr [OF a(1)] by auto
  moreover have "b \<in> set (db_accounts ?s)" "ac_id b = target" "recoverable_member ?s t b" using sql_row_Inr [OF b] by simp_all
  ultimately show ?thesis using requireTenantPermission_Inr [OF perm] a(2,3)
    by - (rule bexI [of _ a], rule bexI [of _ b], rule exI [of _ ?r], simp_all add: item, simp_all add: s')
qed

definition demo_padding :: service where
  "demo_padding = demo_service\<lparr>sv_digest := \<lambda>token. take 32 (token @ replicate 32 (CHR ''x''))\<rparr>"

lemma demo_padding_simps:
  "sv_mode demo_padding = ''multi''" "sv_store demo_padding = demo_pg_store" "length (tokenHash demo_padding token) = 32"
  "verify_password demo_padding = verify_password demo_service"
  by (simp_all add: demo_padding_def tokenHash_def verify_password_def fun_eq_iff demo_service_def)

lemma demo_manage_key: "good_key PermissionMemberManage"
proof -
  have "good_segment ''iam''" "good_segment ''member''" "good_segment ''manage''"
    by (simp_all add: good_segment_def key_char_def lower_def)
  then show ?thesis unfolding good_key_def PermissionMemberManage_def
    by (intro exI [of _ "''iam''"] exI [of _ "''member''"] exI [of _ "''manage''"]) simp
qed

definition demo_issuing :: "string \<Rightarrow> core_db" where
  "demo_issuing hash = demo_core\<lparr>db_accounts := [demo_account ''o'' hash, demo_account ''m'' ''h'']\<rparr>"

lemma demo_permission: "requireTenantPermission demo_session ''t'' ''o'' PermissionMemberManage (demo_issuing hash) = Inr ()"
proof -
  have "active_member (demo_issuing hash) ''t'' ''o''" "joined_grants ''t'' (demo_issuing hash) = joined_grants ''t'' demo_core"
    using demo_active [of "''o''"] by (simp_all add: demo_issuing_def active_member_def joined_grants_def)
  moreover have "validateEffectiveGrant \<lparr>eg_role = ''w'', eg_permission = PermissionMemberManage, eg_scope = ScopeTenant,
      eg_workspace_roles = []\<rparr> PermissionMemberManage = Inr ()"
    by (simp add: validateEffectiveGrant_def validatePermissionKey_cases demo_manage_key validateOpaqueID_cases demo_ids known_scope_def)
  ultimately show ?thesis by (simp add: requireTenantPermission_def demo_joined core_permission_defs)
qed

theorem CreatePasswordRecovery_authorized_witness:
  "\<exists>hash item s'. CreatePasswordRecovery demo_padding demo_visit ''t'' ''o'' ''m'' demo_old (demo_issuing hash) = (Inr item, s') \<and> pw_email item = ''m'' \<and>
     (\<exists>r \<in> set (db_recoveries s'). rc_account r = ''m'' \<and> pending_recovery r)"
proof -
  obtain hash where hash: "verify_password demo_service demo_old hash" using demo_hash demo_passwords by blast
  have rows: "sql_row (\<lambda>a. ac_id a = ''o'' \<and> ac_status a = ''active'' \<and> is_admin (demo_issuing hash) (ac_id a))
      (db_accounts (demo_issuing hash)) = Inr (demo_account ''o'' hash)"
    "sql_row (\<lambda>a. ac_id a = ''m'' \<and> recoverable_member (demo_issuing hash) ''t'' a)
      (db_accounts (demo_issuing hash)) = Inr (demo_account ''m'' ''h'')"
    by (simp_all add: sql_row_def demo_issuing_def is_admin_def recoverable_member_def active_member_def sql_exists_def
        demo_rows membership_key_def)
  obtain item s' where run: "CreatePasswordRecovery demo_padding demo_visit ''t'' ''o'' ''m'' demo_old (demo_issuing hash) = (Inr item, s')"
    by (simp add: CreatePasswordRecovery_def allowOrganization_def demo_padding_simps demo_random create_recovery_tx_def demo_run_tenant
        demo_permission rows on_no_rows_def Let_def tenantAudit_def hash demo_account_def new_account_def locked_at_def)
      (simp add: demo_issuing_def insert_recovery_def sql_insert_def sql_unique_def sql_update_def sql_references_def
        demo_rows demo_padding_simps minute_def guard_def)
  from CreatePasswordRecovery_authorized [OF run] obtain b r where "b \<in> set (db_accounts (demo_issuing hash))" "ac_id b = ''m''"
    "pw_email item = ac_email b" "{q \<in> set (db_recoveries s'). rc_account q = ''m'' \<and> pending_recovery q} = {r}" by auto
  then have "pw_email item = ''m''" "\<exists>r \<in> set (db_recoveries s'). rc_account r = ''m'' \<and> pending_recovery r"
    by (auto simp: demo_issuing_def demo_rows)
  with run show ?thesis by blast
qed

end
