(* ===== verification/ListingsSpec.thy ===== *)
theory ListingsSpec
  imports CoreListings CoreMembership
begin

text \<open>
  The paged listings are complete: a client that follows the cursors through unchanged tables gets every
  row that matches its filter, once, in the order of the listing, whatever the size of the pages.
\<close>

section \<open>Following the cursors\<close>

fun follow_cursors :: "nat \<Rightarrow> (string \<Rightarrow> error + 'a directory_page) \<Rightarrow> string \<Rightarrow> error + 'a list" where
  "follow_cursors 0 page after = Inl (ErrHost ''too many pages'')"
| "follow_cursors (Suc n) page after = ebind (page after) (\<lambda>p.
     if dp_next p = [] then Inr (dp_items p) else ebind (follow_cursors n page (dp_next p)) (\<lambda>rest. Inr (dp_items p @ rest)))"

definition page_at :: "nat \<Rightarrow> ('a \<Rightarrow> string) \<Rightarrow> int \<Rightarrow> 'a list \<Rightarrow> 'a directory_page" where
  "page_at n token all xs = \<lparr>dp_items = take n xs, dp_total = all,
     dp_next = (if length xs > n then token (xs ! (n - 1)) else [])\<rparr>"

lemma follow_cursors_more: "m \<le> n \<Longrightarrow> follow_cursors m page after = Inr items \<Longrightarrow> follow_cursors n page after = Inr items"
proof (induction m arbitrary: n after items)
  case (Suc m)
  then obtain k where n: "n = Suc k" "m \<le> k" by (cases n) auto
  with Suc.prems(2) Suc.IH [OF n(2)] show ?case
    by (auto simp: err_simps split: if_split_asm)
qed simp

lemma filter_after:
  assumes "go_ordering before dom_ok" and "sorted_wrt before xs" and "k < length xs"
  shows "filter (before (xs ! k)) xs = drop (Suc k) xs"
proof -
  note xs = id_take_nth_drop [OF assms(3)]
  from assms(2) have "sorted_wrt before (take k xs @ xs ! k # drop (Suc k) xs)" using xs by simp
  then have earlier: "\<forall>y \<in> set (take k xs). before y (xs ! k)" and later: "\<forall>y \<in> set (drop (Suc k) xs). before (xs ! k) y"
    by (auto simp: sorted_wrt_append)
  have "filter (before (xs ! k)) (take k xs) = []"
    using earlier go_ordering.less_asym [OF assms(1)] by (auto simp: filter_empty_conv)
  moreover have "filter (before (xs ! k)) (drop (Suc k) xs) = drop (Suc k) xs" using later by (simp add: filter_True)
  moreover have "\<not> before (xs ! k) (xs ! k)" using go_ordering.less_irrefl [OF assms(1)] by simp
  moreover have "filter (before (xs ! k)) xs = filter (before (xs ! k)) (take k xs @ xs ! k # drop (Suc k) xs)" using xs by simp
  ultimately show ?thesis by simp
qed

lemma sort_by_filter:
  assumes "go_ordering before (\<lambda>x. x \<in> set rows)" and "distinct rows"
  shows "sort_by before (filter P rows) = filter P (sort_by before rows)"
proof (rule go_ordering.sort_by_any [OF assms(1)])
  have "sorted_wrt before (sort_by before rows)" by (rule go_ordering.sort_by_sorted [OF assms]) simp
  then show "sorted_wrt before (filter P (sort_by before rows))" by (rule sorted_wrt_filter)
qed (use assms(2) in auto)

text \<open>\<open>place after\<close> are the rows behind the cursor \<open>after\<close>; the first page has no cursor.\<close>

lemma follow_pages:
  assumes ord: "go_ordering before (\<lambda>x. x \<in> set rows)" and "distinct rows" and "0 < n"
    and pages: "\<And>after. after = [] \<or> (\<exists>r \<in> set rows. after = token r) \<Longrightarrow>
      page after = Inr (page_at n token all (sort_by before (filter (place after) rows)))"
    and "\<And>x. x \<in> set rows \<Longrightarrow> place [] x"
    and "\<And>r x. r \<in> set rows \<Longrightarrow> x \<in> set rows \<Longrightarrow> token r \<noteq> [] \<and> place (token r) x = before r x"
  shows "follow_cursors (Suc (length rows)) page [] = Inr (sort_by before rows)"
proof -
  let ?S = "sort_by before rows"
  let ?after = "\<lambda>k. if k = 0 then [] else token (?S ! (k - 1))"
  have sorted: "sorted_wrt before ?S" by (rule go_ordering.sort_by_sorted [OF ord assms(2)]) simp
  have mem: "?S ! k \<in> set rows" if "k < length rows" for k using nth_mem [of k ?S] that by simp
  have page: "page (?after k) = Inr (page_at n token all (drop k ?S))" if "k \<le> length rows" for k
  proof (cases k)
    case 0
    have "filter (place []) rows = rows" using assms(5) by (simp add: filter_True)
    with 0 show ?thesis by (simp add: pages)
  next
    case (Suc j)
    with that have j: "?S ! j \<in> set rows" by (intro mem) simp
    have "filter (place (token (?S ! j))) rows = filter (before (?S ! j)) rows"
      using assms(6) [OF j] by (auto intro: filter_cong)
    moreover have "page (token (?S ! j)) = Inr (page_at n token all (sort_by before (filter (place (token (?S ! j))) rows)))"
      using j by (intro pages) blast
    ultimately show ?thesis
      using Suc that by (simp add: sort_by_filter [OF ord assms(2)] filter_after [OF ord sorted])
  qed
  have "follow_cursors fuel page (?after k) = Inr (drop k ?S)" if "k \<le> length rows" "length rows - k < fuel" for fuel k
    using that
  proof (induction fuel arbitrary: k)
    case (Suc fuel)
    show ?case
    proof (cases "n < length rows - k")
      case True
      then have behind: "?after (k + n) = token (drop k ?S ! (n - 1))" using assms(3) by simp
      have "token (drop k ?S ! (n - 1)) \<noteq> []"
        using True assms(3) assms(6) [of "?S ! (k + n - 1)" "?S ! (k + n - 1)"] mem [of "k + n - 1"] by (simp add: add.commute)
      moreover have "follow_cursors fuel page (?after (k + n)) = Inr (drop (k + n) ?S)"
        using True Suc.prems assms(3) by (intro Suc.IH) auto
      moreover have "take n (drop k ?S) @ drop (k + n) ?S = drop k ?S"
        using append_take_drop_id [of n "drop k ?S"] by (simp add: add.commute)
      ultimately show ?thesis
        using True Suc.prems behind by (simp add: page page_at_def ebind_def)
    next
      case False
      with Suc.prems show ?thesis by (simp add: page page_at_def ebind_def)
    qed
  qed simp
  from this [of 0 "Suc (length rows)"] show ?thesis by simp
qed

section \<open>The pages of a directory\<close>

text \<open>A host whose database answers and orders texts, and a codec that carries the cursors of a listing.\<close>

definition listing_host :: "service \<Rightarrow> listing_libraries \<Rightarrow> request \<Rightarrow> tenant_id \<Rightarrow> bool" where
  "listing_host sv ll rq t \<longleftrightarrow> valid_id t \<and> quiet (rq_tx rq 0) \<and>
     bindTenant (rq_tx rq 0) t (st_secret (sv_store sv)) = Inr () \<and> go_ordering (ll_less ll) (\<lambda>_. True)"

definition carries :: "listing_libraries \<Rightarrow> directory_cursor \<Rightarrow> bool" where
  "carries ll c \<longleftrightarrow> ll_marshal ll c \<noteq> [] \<and> ll_unmarshal ll (ll_marshal ll c) = Some c \<and> length (url_encode (ll_marshal ll c)) \<le> maxDirectoryCursorSize \<and>
     dc_id c \<noteq> [] \<and> length (dc_id c) \<le> 256 \<and> valid_string (dc_id c) \<and> \<not> has_nul (dc_id c)"

lemma url_encode_Nil [simp]: "url_encode s = [] \<longleftrightarrow> s = []"
  by (cases s rule: b64_encode.cases) (simp_all add: url_encode_def)

lemma b64_alphabet: "c \<in> set (b64_encode s) \<Longrightarrow> b64_value c \<noteq> None"
proof (induction s rule: b64_encode.induct)
  case (2 a)
  have "byte a < 256" by simp
  then have "byte a div 4 < 64" "byte a mod 4 * 16 < 64" by linarith+
  with 2 show ?case by auto
next
  case (3 a b)
  have "byte a < 256" "byte b < 256" by simp_all
  then have "byte a div 4 < 64" "byte a mod 4 * 16 + byte b div 16 < 64" "byte b mod 16 * 4 < 64" by linarith+
  with 3 show ?case by auto
next
  case (4 a b c r)
  have "byte a < 256" "byte b < 256" "byte c < 256" by simp_all
  then have "byte a div 4 < 64" "byte a mod 4 * 16 + byte b div 16 < 64" "byte b mod 16 * 4 + byte c div 64 < 64"
    "byte c mod 64 < 64" by linarith+
  with 4 show ?case by auto
qed simp

lemma url_round: "url_decode (url_encode s) = Some s"
proof -
  have "std_char (url_char c) = c" if "c \<in> set (b64_encode s)" for c
    using b64_alphabet [OF that] by (auto simp: std_char_def url_char_def b64_value_def)
  then have "map std_char (map url_char (b64_encode s)) = b64_encode s" by (simp add: map_idI)
  moreover have "CHR ''+'' \<notin> url_char ` A \<and> CHR ''/'' \<notin> url_char ` A" for A by (auto simp: url_char_def)
  ultimately show ?thesis by (simp add: url_decode_def url_encode_def b64_round)
qed

lemma run_listing:
  assumes "listing_host sv ll rq t"
  shows "RunTenant (sv_store sv) (rq_tx rq 0) t True (Some (\<lambda>s. list_after (rq_tx rq 0) kind before after limit (rows s) s)) s =
     (Inr (take (nat (limit + 1)) (sort_by before (filter after (rows s))), int (length (rows s))), s)"
  using assms by (simp add: RunTenant_def listing_host_def valid_id_def list_after_def quiet_stmt ebind_def frame_call_def quiet_def
      pg_frame_run_def pg_commit_def)

lemma finish_page:
  assumes "0 < df_limit f" and "\<And>x. x \<in> set xs \<Longrightarrow> token x = url_encode (ll_marshal ll (cursor\<lparr>dc_id := fst (key x), dc_at := snd (key x)\<rparr>))"
  shows "finishDirectory ll (take (nat (df_limit f + 1)) xs) counted f cursor key = page_at (nat (df_limit f)) token counted xs"
proof (cases "int (length xs) > df_limit f")
  case True
  then have "last (take (nat (df_limit f)) xs) = xs ! (nat (df_limit f) - 1)"
    using assms(1) by (subst last_conv_nth) (auto simp: min_def)
  with True assms show ?thesis
    by (auto simp: finishDirectory_def page_at_def Let_def min_def split: prod.split)
next
  case False
  then show ?thesis by (auto simp: finishDirectory_def page_at_def)
qed

text \<open>The cursor behind an item, and what the next request reads from it.\<close>

definition cursor_at :: "string \<Rightarrow> string \<Rightarrow> directory_filter \<Rightarrow> string \<Rightarrow> string \<Rightarrow> string \<times> time option \<Rightarrow> directory_cursor" where
  "cursor_at t kind input role assignment k = \<lparr>dc_tenant = t, dc_kind = kind, dc_query = trim_space (df_query input),
     dc_status = df_status input, dc_id = fst k, dc_at = snd k, dc_role = role, dc_assignment = assignment\<rparr>"

definition page_size :: "directory_filter \<Rightarrow> int" where
  "page_size input = (if df_limit input = 0 then 30 else df_limit input)"

definition normal_filter :: "directory_filter \<Rightarrow> directory_filter" where
  "normal_filter input = input\<lparr>df_query := trim_space (df_query input), df_limit := page_size input\<rparr>"

lemma directoryInput_first:
  assumes "directoryInput ll t kind (input\<lparr>df_after := []\<rparr>) = Inr r"
  shows "r = (normal_filter (input\<lparr>df_after := []\<rparr>), cursor_at t kind input [] [] ([], None))" and "0 < page_size input"
  using assms by (auto simp: directoryInput_def normal_filter_def cursor_at_def page_size_def Let_def split: if_split_asm)

lemma directoryInput_next:
  assumes "directoryInput ll t kind (input\<lparr>df_after := []\<rparr>) = Inr r" and "carries ll c"
    and "dc_tenant c = t" "dc_kind c = kind" "dc_query c = trim_space (df_query input)" "dc_status c = df_status input"
    and "kind = ''invitations'' \<longrightarrow> dc_at c \<noteq> None"
  shows "directoryInput ll t kind (input\<lparr>df_after := url_encode (ll_marshal ll c)\<rparr>) =
    Inr (normal_filter (input\<lparr>df_after := url_encode (ll_marshal ll c)\<rparr>), c)"
  using assms by (auto simp: directoryInput_def normal_filter_def page_size_def Let_def carries_def url_round url_encode_Nil split: if_split_asm)

definition cursor_token :: "listing_libraries \<Rightarrow> (string \<times> time option \<Rightarrow> directory_cursor) \<Rightarrow> string \<times> time option \<Rightarrow> string" where
  "cursor_token ll cursor_for k = (if fst k = [] then [] else url_encode (ll_marshal ll (cursor_for k)))"

lemma directory_complete:
  assumes ord: "go_ordering before (\<lambda>x. x \<in> set rows)" and "distinct rows" and "0 < limit"
    and carry: "\<And>r. r \<in> set rows \<Longrightarrow> carries ll (cursor_for (key r))"
    and cursor: "\<And>k i at. (cursor_for k)\<lparr>dc_id := i, dc_at := at\<rparr> = cursor_for (i, at)"
    and pages: "\<And>k. k = ([], None) \<or> k \<in> key ` set rows \<Longrightarrow> \<exists>f. df_limit f = limit \<and>
      page (cursor_token ll cursor_for k) = Inr (finishDirectory ll (take (nat (limit + 1)) (sort_by before
        (filter (behind (cursor_for k)) rows))) (int (length rows)) f (cursor_for k) key)"
    and "\<And>x. x \<in> set rows \<Longrightarrow> behind (cursor_for ([], None)) x"
    and "\<And>r x. r \<in> set rows \<Longrightarrow> x \<in> set rows \<Longrightarrow> behind (cursor_for (key r)) x = before r x"
  shows "follow_cursors (Suc (length rows)) page [] = Inr (sort_by before rows)"
proof -
  let ?token = "\<lambda>r. url_encode (ll_marshal ll (cursor_for (key r)))"
  let ?place = "\<lambda>after x. after = [] \<or> behind (the (ll_unmarshal ll (the (url_decode after)))) x"
  have id: "fst (key r) \<noteq> []" if "r \<in> set rows" for r
    using carry [OF that] arg_cong [of _ _ dc_id, OF cursor [where k = "key r" and i = "fst (key r)" and at = "snd (key r)"]]
    by (simp add: carries_def)
  have one: "page (cursor_token ll cursor_for k) = Inr (page_at (nat limit) ?token (int (length rows))
      (sort_by before (filter (behind (cursor_for k)) rows)))" if place: "k = ([], None) \<or> k \<in> key ` set rows" for k
  proof -
    obtain f where f: "df_limit f = limit" "page (cursor_token ll cursor_for k) = Inr (finishDirectory ll (take (nat (limit + 1))
        (sort_by before (filter (behind (cursor_for k)) rows))) (int (length rows)) f (cursor_for k) key)"
      using pages [OF place] by blast
    from f finish_page [where f = f and token = ?token and ll = ll and cursor = "cursor_for k" and key = key] assms(3)
    show ?thesis by (simp add: cursor)
  qed
  show ?thesis
  proof (rule follow_pages [OF ord assms(2), where n = "nat limit" and token = ?token and place = ?place and all = "int (length rows)"])
    fix after assume "after = [] \<or> (\<exists>r \<in> set rows. after = ?token r)"
    then show "page after = Inr (page_at (nat limit) ?token (int (length rows)) (sort_by before (filter (?place after) rows)))"
    proof
      assume "after = []"
      moreover have "filter (behind (cursor_for ([], None))) rows = rows" using assms(7) by (simp add: filter_True)
      ultimately show ?thesis using one [of "([], None)"] by (simp add: cursor_token_def)
    next
      assume "\<exists>r \<in> set rows. after = ?token r"
      then obtain r where r: "r \<in> set rows" "after = ?token r" by blast
      with carry [OF r(1)] have "?place after = behind (cursor_for (key r))"
        by (auto simp: carries_def url_round)
      with r id [OF r(1)] one [of "key r"] show ?thesis by (simp add: cursor_token_def)
    qed
  next
    fix r x assume "r \<in> set rows" "x \<in> set rows"
    with assms(8) [OF this] carry [of r] show "?token r \<noteq> [] \<and> ?place (?token r) x = before r x"
      by (auto simp: carries_def url_round)
  qed (use assms(3) in auto)
qed

section \<open>The listings\<close>

lemma by_id_ordering:
  assumes "go_ordering (ll_less ll) (\<lambda>_. True)" and "keyed key rows"
  shows "go_ordering (by_id ll key) (\<lambda>x. x \<in> set rows)"
proof
  show "\<not> by_id ll key x x" for x using go_ordering.less_irrefl [OF assms(1)] by (simp add: by_id_def)
  show "by_id ll key x z" if "by_id ll key x y" "by_id ll key y z" for x y z
    using that go_ordering.less_trans [OF assms(1)] unfolding by_id_def by blast
  show "by_id ll key x y \<or> by_id ll key y x" if "x \<in> set rows" "y \<in> set rows" "x \<noteq> y" for x y
    using that keyed_same [OF assms(2)] go_ordering.less_total [OF assms(1)] unfolding by_id_def by blast
qed

lemma keyed_filter: "keyed key rows \<Longrightarrow> keyed key (filter P rows)"
  by (simp add: keyed_def distinct_map_filter)

lemma keyed_once: "keyed key t \<Longrightarrow> length (filter (\<lambda>r. key r = k) t) \<le> 1"
proof (induction t)
  case (Cons r t)
  then show ?case by (cases "key r = k") (auto simp: keyed_def filter_empty_conv image_iff)
qed simp

lemma keyed_member_rows:
  assumes "core_inv s"
  shows "keyed mb_account (member_rows t s)"
proof -
  let ?f = "\<lambda>m. map (\<lambda>a. \<lparr>mb_account = tm_account m, mb_email = ac_email a, mb_status = tm_status m, mb_joined = tm_joined m\<rparr>)
      (filter (\<lambda>a. ac_id a = tm_account m) (db_accounts s))"
  from assms have acc: "keyed ac_id (db_accounts s)" and mem: "keyed membership_key (db_memberships s)"
    by (simp_all add: core_inv_parts)
  have one: "keyed mb_account (?f m)" for m
  proof -
    have "length (filter (\<lambda>a. ac_id a = tm_account m) (db_accounts s)) \<le> 1"
      using acc by (rule keyed_once)
    then show ?thesis by (cases "filter (\<lambda>a. ac_id a = tm_account m) (db_accounts s)") (auto simp: keyed_def)
  qed
  have "keyed mb_account (concat (map ?f ms))" if "distinct (map tm_account ms)" for ms
    using that
  proof (induction ms)
    case (Cons m ms)
    with one [of m] show ?case by (auto simp: keyed_def)
  qed simp
  moreover have "distinct (map tm_account (filter (\<lambda>m. tm_tenant m = t) (db_memberships s)))"
    using mem by (auto simp: keyed_def distinct_map inj_on_def membership_key_def)
  ultimately show ?thesis by (simp add: member_rows_def)
qed

lemma run_role_listing:
  assumes "listing_host sv ll rq t" and "role_there t r s"
  shows "RunTenant (sv_store sv) (rq_tx rq 0) t True (Some (\<lambda>s.
      ebind (stmt (rq_tx rq 0) ''role_exists'' s (Inr (role_there t r s))) (\<lambda>exists.
      if \<not> exists then Inl ErrNotFound else list_after (rq_tx rq 0) kind before after limit (rows s) s))) s =
     (Inr (take (nat (limit + 1)) (sort_by before (filter after (rows s))), int (length (rows s))), s)"
  using assms by (simp add: RunTenant_def listing_host_def valid_id_def list_after_def quiet_stmt ebind_def frame_call_def quiet_def
      pg_frame_run_def pg_commit_def)

lemma directoryInput_token:
  assumes first: "directoryInput ll t kind (input\<lparr>df_after := []\<rparr>) = Inr r"
    and "k = ([], None) \<or> k \<in> key ` set rows" and "\<And>x. x \<in> set rows \<Longrightarrow> carries ll (cursor_at t kind input role assignment (key x))"
    and "kind = ''invitations'' \<Longrightarrow> k \<in> key ` set rows \<Longrightarrow> snd k \<noteq> None"
  obtains after where "after = cursor_token ll (cursor_at t kind input role assignment) k"
    "directoryInput ll t kind (input\<lparr>df_after := after\<rparr>) = Inr (normal_filter (input\<lparr>df_after := after\<rparr>),
       if after = [] then cursor_at t kind input [] [] ([], None) else cursor_at t kind input role assignment k)"
    "after = [] \<longleftrightarrow> k = ([], None)"
  using assms(2)
proof
  assume "k = ([], None)"
  then show ?thesis using that [of "[]"] directoryInput_first(1) [OF first] first by (simp add: cursor_token_def)
next
  assume k: "k \<in> key ` set rows"
  then have carry: "carries ll (cursor_at t kind input role assignment k)" using assms(3) by auto
  then have "fst k \<noteq> []" by (simp add: carries_def cursor_at_def)
  with directoryInput_next [OF first carry] assms(4) k carry
  show ?thesis by (intro that [of "url_encode (ll_marshal ll (cursor_at t kind input role assignment k))"])
    (auto simp: cursor_token_def cursor_at_def carries_def)
qed

lemma normal_filter_after [simp]:
  "df_limit (normal_filter (input\<lparr>df_after := after\<rparr>)) = page_size input"
  "df_query (normal_filter (input\<lparr>df_after := after\<rparr>)) = df_query (normal_filter input)"
  "member_matches ll (normal_filter (input\<lparr>df_after := after\<rparr>)) = member_matches ll (normal_filter input)"
  "invitation_matches ll (normal_filter (input\<lparr>df_after := after\<rparr>)) = invitation_matches ll (normal_filter input)"
  by (simp_all add: normal_filter_def page_size_def member_matches_def invitation_matches_def fun_eq_iff)

lemma directory_lists:
  assumes ord: "go_ordering before (\<lambda>x. x \<in> set rows)" and distinct: "distinct rows"
    and first: "directoryInput ll t kind (input\<lparr>df_after := []\<rparr>) = Inr r"
    and carry: "\<And>x. x \<in> set rows \<Longrightarrow> carries ll (cursor_at t kind input role assignment (key x)) \<and> (kind = ''invitations'' \<longrightarrow> snd (key x) \<noteq> None)"
    and page: "\<And>after cursor k. directoryInput ll t kind (input\<lparr>df_after := after\<rparr>) = Inr (normal_filter (input\<lparr>df_after := after\<rparr>), cursor) \<Longrightarrow>
      cursor\<lparr>dc_role := role, dc_assignment := assignment\<rparr> = cursor_at t kind input role assignment k \<Longrightarrow>
      (after \<noteq> [] \<or> role = [] \<and> assignment = [] \<Longrightarrow> cursor = cursor_at t kind input role assignment k) \<Longrightarrow>
      page after = Inr (finishDirectory ll (take (nat (page_size input + 1)) (sort_by before
        (filter (behind (cursor_at t kind input role assignment k)) rows))) (int (length rows))
        (normal_filter (input\<lparr>df_after := after\<rparr>)) (cursor_at t kind input role assignment k) key)"
    and "\<And>x. x \<in> set rows \<Longrightarrow> behind (cursor_at t kind input role assignment ([], None)) x"
    and "\<And>q x. q \<in> set rows \<Longrightarrow> x \<in> set rows \<Longrightarrow> behind (cursor_at t kind input role assignment (key q)) x = before q x"
  shows "follow_cursors (Suc (length rows)) page [] = Inr (sort_by before rows)"
proof (rule directory_complete [OF ord distinct directoryInput_first(2) [OF first],
      where key = key and cursor_for = "cursor_at t kind input role assignment" and behind = behind])
  fix k assume k: "k = ([], None) \<or> k \<in> key ` set rows"
  obtain after where after: "after = cursor_token ll (cursor_at t kind input role assignment) k"
    "directoryInput ll t kind (input\<lparr>df_after := after\<rparr>) = Inr (normal_filter (input\<lparr>df_after := after\<rparr>),
       if after = [] then cursor_at t kind input [] [] ([], None) else cursor_at t kind input role assignment k)"
    "after = [] \<longleftrightarrow> k = ([], None)"
    by (rule directoryInput_token [OF first k]) (use carry in auto)
  have "page after = Inr (finishDirectory ll (take (nat (page_size input + 1)) (sort_by before
        (filter (behind (cursor_at t kind input role assignment k)) rows))) (int (length rows))
        (normal_filter (input\<lparr>df_after := after\<rparr>)) (cursor_at t kind input role assignment k) key)"
    using after(3) by (intro page [OF after(2)]) (auto simp: cursor_at_def)
  then show "\<exists>f. df_limit f = page_size input \<and> page (cursor_token ll (cursor_at t kind input role assignment) k) =
      Inr (finishDirectory ll (take (nat (page_size input + 1)) (sort_by before
        (filter (behind (cursor_at t kind input role assignment k)) rows))) (int (length rows)) f
        (cursor_at t kind input role assignment k) key)"
    unfolding after(1)
    by (intro exI [of _ "normal_filter (input\<lparr>df_after := cursor_token ll (cursor_at t kind input role assignment) k\<rparr>)"]) simp
qed (use carry assms(6,7) in \<open>auto simp: cursor_at_def\<close>)

text \<open>The members of a tenant, and of a role.\<close>

lemma listing_order: "listing_host sv ll rq t \<Longrightarrow> keyed key rows \<Longrightarrow> go_ordering (by_id ll key) (\<lambda>x. x \<in> set rows) \<and> distinct rows"
  using by_id_ordering by (auto simp: listing_host_def keyed_def distinct_map)

lemma MemberDirectory_lists:
  assumes host: "listing_host sv ll rq t" and "core_inv s"
    and first: "directoryInput ll t ''members'' (input\<lparr>df_after := []\<rparr>) = Inr r"
    and carry: "\<forall>m \<in> set (member_rows t s). carries ll (cursor_at t ''members'' input [] [] (mb_account m, None))"
    and rows: "rows = filter (member_matches ll (normal_filter input)) (member_rows t s)"
  shows "follow_cursors (Suc (length rows)) (\<lambda>after. fst (MemberDirectory sv ll rq t (input\<lparr>df_after := after\<rparr>) s)) [] =
    Inr (sort_by (by_id ll mb_account) rows)"
proof (rule directory_lists [OF _ _ first, where role = "[]" and assignment = "[]" and key = "\<lambda>m. (mb_account m, None)"
      and behind = "\<lambda>c. after_id ll c mb_account"])
  have "keyed mb_account rows" unfolding rows by (intro keyed_filter keyed_member_rows assms)
  then show "go_ordering (by_id ll mb_account) (\<lambda>x. x \<in> set rows)" "distinct rows" using listing_order [OF host] by blast+
qed (use carry rows in \<open>auto simp: cursor_at_def after_id_def by_id_def carries_def MemberDirectory_def run_listing [OF host] ebind_def\<close>)

lemma RoleMemberDirectory_lists:
  assumes host: "listing_host sv ll rq t" and "core_inv s" and there: "valid_id role" "role_there t role s"
    and assignment: "assignment = ''assigned'' \<or> assignment = ''available''"
    and first: "directoryInput ll t ''role-members'' (input\<lparr>df_after := []\<rparr>) = Inr r"
    and carry: "\<forall>m \<in> set (member_rows t s). carries ll (cursor_at t ''role-members'' input role assignment (mb_account m, None))"
    and rows: "rows = filter (\<lambda>m. member_matches ll (normal_filter input) m \<and>
      bound_to t role s (mb_account m) = (assignment = ''assigned'')) (member_rows t s)"
  shows "follow_cursors (Suc (length rows)) (\<lambda>after. fst (RoleMemberDirectory sv ll rq t role assignment (input\<lparr>df_after := after\<rparr>) s)) [] =
    Inr (sort_by (by_id ll mb_account) rows)"
proof (rule directory_lists [OF _ _ first, where role = role and assignment = assignment and key = "\<lambda>m. (mb_account m, None)"
      and behind = "\<lambda>c. after_id ll c mb_account"])
  have "keyed mb_account rows" unfolding rows by (intro keyed_filter keyed_member_rows assms)
  then show "go_ordering (by_id ll mb_account) (\<lambda>x. x \<in> set rows)" "distinct rows" using listing_order [OF host] by blast+
next
  fix after cursor k
  assume input: "directoryInput ll t ''role-members'' (input\<lparr>df_after := after\<rparr>) = Inr (normal_filter (input\<lparr>df_after := after\<rparr>), cursor)"
    and cursor: "cursor\<lparr>dc_role := role, dc_assignment := assignment\<rparr> = cursor_at t ''role-members'' input role assignment k"
    and later: "after \<noteq> [] \<or> role = [] \<and> assignment = [] \<Longrightarrow> cursor = cursor_at t ''role-members'' input role assignment k"
  have "\<not> (after \<noteq> [] \<and> (dc_role cursor \<noteq> role \<or> dc_assignment cursor \<noteq> assignment))"
    using later by (auto simp: cursor_at_def)
  with assignment there(1) input cursor
  show "fst (RoleMemberDirectory sv ll rq t role assignment (input\<lparr>df_after := after\<rparr>) s) =
      Inr (finishDirectory ll (take (nat (page_size input + 1)) (sort_by (by_id ll mb_account)
        (filter (after_id ll (cursor_at t ''role-members'' input role assignment k) mb_account) rows))) (int (length rows))
        (normal_filter (input\<lparr>df_after := after\<rparr>)) (cursor_at t ''role-members'' input role assignment k) (\<lambda>m. (mb_account m, None)))"
    by (auto simp: RoleMemberDirectory_def Let_def valid_id_def rows run_role_listing [OF host there(2)])
qed (use carry rows in \<open>auto simp: cursor_at_def after_id_def by_id_def carries_def\<close>)

text \<open>The roles and the invitations of a tenant.\<close>

lemma RoleDirectory_lists:
  assumes host: "listing_host sv ll rq t" and "keyed role_key (db_roles s)"
    and first: "directoryInput ll t ''roles'' (input\<lparr>df_after := []\<rparr>) = Inr r"
    and carry: "\<forall>x \<in> set (live_roles t s). carries ll (cursor_at t ''roles'' input [] [] (ro_id x, None))"
    and rows: "rows = filter (\<lambda>x. text_matches ll (df_query (normal_filter input)) (ro_id x @ '' '' @ ro_name x @ '' '' @ ro_description x))
      (live_roles t s)"
  shows "follow_cursors (Suc (length rows)) (\<lambda>after. fst (RoleDirectory sv ll rq t (input\<lparr>df_after := after\<rparr>) s)) [] =
    Inr (sort_by (by_id ll ro_id) rows)"
proof (rule directory_lists [OF _ _ first, where role = "[]" and assignment = "[]" and key = "\<lambda>x. (ro_id x, None)"
      and behind = "\<lambda>c. after_id ll c ro_id"])
  have "keyed ro_id (live_roles t s)"
    using assms(2) by (auto simp: keyed_def distinct_map inj_on_def live_roles_def role_key_def)
  then have "keyed ro_id rows" unfolding rows by (rule keyed_filter)
  then show "go_ordering (by_id ll ro_id) (\<lambda>x. x \<in> set rows)" "distinct rows" using listing_order [OF host] by blast+
qed (use carry rows in \<open>auto simp: cursor_at_def after_id_def by_id_def carries_def RoleDirectory_def run_listing [OF host] ebind_def\<close>)

lemma newer_ordering:
  assumes "go_ordering (ll_less ll) (\<lambda>_. True)" and "keyed ii_id rows"
  shows "go_ordering (\<lambda>a b. newer ll (invitation_place a) (invitation_place b)) (\<lambda>x. x \<in> set rows)"
proof
  show "\<not> newer ll (invitation_place x) (invitation_place x)" for x
    using go_ordering.less_irrefl [OF assms(1)] by (simp add: newer_def)
  show "newer ll (invitation_place x) (invitation_place z)"
    if "newer ll (invitation_place x) (invitation_place y)" "newer ll (invitation_place y) (invitation_place z)" for x y z
    using that go_ordering.less_trans [OF assms(1), of "ii_id z" "ii_id y" "ii_id x"] by (auto simp: newer_def invitation_place_def)
  show "newer ll (invitation_place x) (invitation_place y) \<or> newer ll (invitation_place y) (invitation_place x)"
    if "x \<in> set rows" "y \<in> set rows" "x \<noteq> y" for x y
    using that keyed_same [OF assms(2)] go_ordering.less_total [OF assms(1), of "ii_id x" "ii_id y"]
    by (auto simp: newer_def invitation_place_def)
qed

lemma InvitationDirectory_lists:
  assumes host: "listing_host sv ll rq t" and "core_inv s"
    and first: "directoryInput ll t ''invitations'' (input\<lparr>df_after := []\<rparr>) = Inr r"
    and carry: "\<forall>i \<in> set (invitation_items (rq_now rq 0) t s).
      carries ll (cursor_at t ''invitations'' input [] [] (ii_id i, Some (ii_created i)))"
    and rows: "rows = filter (invitation_matches ll (normal_filter input)) (invitation_items (rq_now rq 0) t s)"
  shows "follow_cursors (Suc (length rows)) (\<lambda>after. fst (InvitationDirectory sv ll rq t (input\<lparr>df_after := after\<rparr>) s)) [] =
    Inr (sort_by (\<lambda>a b. newer ll (invitation_place a) (invitation_place b)) rows)"
proof (rule directory_lists [OF _ _ first, where role = "[]" and assignment = "[]" and key = "\<lambda>i. (ii_id i, Some (ii_created i))"
      and behind = "\<lambda>c i. dc_id c = [] \<or> (case dc_at c of None \<Rightarrow> False | Some at \<Rightarrow> newer ll (at, dc_id c) (invitation_place i))"])
  have "keyed ii_id (invitation_items (rq_now rq 0) t s)"
    using assms(2) by (auto simp: core_inv_parts keyed_def distinct_map inj_on_def invitation_items_def invitation_key_def comp_def)
  then have key: "keyed ii_id rows" unfolding rows by (rule keyed_filter)
  then show "distinct rows" by (simp add: keyed_def distinct_map)
  show "go_ordering (\<lambda>a b. newer ll (invitation_place a) (invitation_place b)) (\<lambda>x. x \<in> set rows)"
    using host by (intro newer_ordering key) (simp add: listing_host_def)
next
  fix after cursor k
  assume input: "directoryInput ll t ''invitations'' (input\<lparr>df_after := after\<rparr>) = Inr (normal_filter (input\<lparr>df_after := after\<rparr>), cursor)"
    and cursor: "after \<noteq> [] \<or> [] = [] \<and> [] = [] \<Longrightarrow> cursor = cursor_at t ''invitations'' input [] [] k"
  then have "directoryInput ll t ''invitations'' (input\<lparr>df_after := after\<rparr>) =
      Inr (normal_filter (input\<lparr>df_after := after\<rparr>), cursor_at t ''invitations'' input [] [] k)" by simp
  then show "fst (InvitationDirectory sv ll rq t (input\<lparr>df_after := after\<rparr>) s) = Inr (finishDirectory ll
      (take (nat (page_size input + 1)) (sort_by (\<lambda>a b. newer ll (invitation_place a) (invitation_place b))
        (filter (\<lambda>i. dc_id (cursor_at t ''invitations'' input [] [] k) = [] \<or>
          (case dc_at (cursor_at t ''invitations'' input [] [] k) of None \<Rightarrow> False
           | Some at \<Rightarrow> newer ll (at, dc_id (cursor_at t ''invitations'' input [] [] k)) (invitation_place i))) rows)))
      (int (length rows)) (normal_filter (input\<lparr>df_after := after\<rparr>)) (cursor_at t ''invitations'' input [] [] k)
      (\<lambda>i. (ii_id i, Some (ii_created i))))"
    by (simp add: InvitationDirectory_def run_listing [OF host] ebind_def rows)
qed (use carry rows in \<open>auto simp: cursor_at_def carries_def invitation_place_def\<close>)

section \<open>The members of an organization, completely\<close>

text \<open>The demo installation, listed one member at a time.\<close>

definition demo_filter :: directory_filter where
  "demo_filter = \<lparr>df_query = [], df_status = [], df_after = [], df_limit = 1\<rparr>"

definition demo_listing :: "string \<Rightarrow> time option \<Rightarrow> listing_libraries" where
  "demo_listing kind at = \<lparr>ll_less = (<), ll_lower = (\<lambda>s. s), ll_marshal = dc_id,
     ll_unmarshal = (\<lambda>d. Some (cursor_at ''t'' kind demo_filter [] [] (d, at)))\<rparr>"

lemma demo_listing_host: "listing_host demo_service (demo_listing kind at) demo_visit ''t''"
  by (auto simp: listing_host_def demo_valid_t valid_id_def demo_bind demo_listing_def go_ordering_def)

lemma demo_listing_first: "kind = ''members'' \<or> kind = ''invitations'' \<Longrightarrow>
    \<exists>r. directoryInput (demo_listing kind at) ''t'' kind (demo_filter\<lparr>df_after := []\<rparr>) = Inr r"
  by (auto simp: directoryInput_def demo_filter_def trim_space_solid valid_directory_status_def has_nul_def Let_def)

lemma demo_carries: "c \<in> {CHR ''o'', CHR ''m'', CHR ''i''} \<Longrightarrow> carries (demo_listing kind at) (cursor_at ''t'' kind demo_filter [] [] ([c], at))"
  by (auto simp: carries_def demo_listing_def cursor_at_def maxDirectoryCursorSize_def has_nul_def url_encode_def
      intro!: valid_string_ascii)

text \<open>
  Listing the members of an organization page by page returns exactly the members that match the query and
  the status, each once, in the order of their account ids, on at most as many pages as there are members and one
  more, whatever the page size. The host's database answers, orders texts totally, and the JSON codec
  carries the cursors of the listing.
\<close>

theorem MemberDirectory_complete:
  assumes "listing_host sv ll rq t" and "core_inv s" and "directoryInput ll t ''members'' (input\<lparr>df_after := []\<rparr>) = Inr r"
    and "\<forall>m \<in> set (member_rows t s). carries ll (cursor_at t ''members'' input [] [] (mb_account m, None))"
  shows "\<exists>items. follow_cursors (Suc (length (member_rows t s)))
      (\<lambda>after. fst (MemberDirectory sv ll rq t (input\<lparr>df_after := after\<rparr>) s)) [] = Inr items \<and>
    set items = {m \<in> set (member_rows t s). member_matches ll (normal_filter input) m} \<and> distinct items \<and>
    sorted_wrt (\<lambda>a b. ll_less ll (mb_account a) (mb_account b)) items"
proof -
  let ?rows = "filter (member_matches ll (normal_filter input)) (member_rows t s)"
  have "keyed mb_account ?rows" by (intro keyed_filter keyed_member_rows assms)
  with listing_order [OF assms(1)] have ord: "go_ordering (by_id ll mb_account) (\<lambda>x. x \<in> set ?rows)" "distinct ?rows" by blast+
  have "sorted_wrt (by_id ll mb_account) (sort_by (by_id ll mb_account) ?rows)"
    by (rule go_ordering.sort_by_sorted [OF ord]) simp
  then have "sorted_wrt (\<lambda>a b. ll_less ll (mb_account a) (mb_account b)) (sort_by (by_id ll mb_account) ?rows)"
    by (simp add: by_id_def [abs_def])
  moreover have fuel: "Suc (length ?rows) \<le> Suc (length (member_rows t s))" by (simp add: length_filter_le)
  moreover have "set (sort_by (by_id ll mb_account) ?rows) = {m \<in> set (member_rows t s). member_matches ll (normal_filter input) m}"
    "distinct (sort_by (by_id ll mb_account) ?rows)" using ord(2) by simp_all
  ultimately show ?thesis using follow_cursors_more [OF fuel MemberDirectory_lists [OF assms refl]] by blast
qed

lemma MemberDirectory_complete_witness:
  "\<exists>items. follow_cursors 3 (\<lambda>after. fst (MemberDirectory demo_service (demo_listing ''members'' None) demo_visit ''t''
      (demo_filter\<lparr>df_after := after\<rparr>) demo_core)) [] = Inr items \<and> length items = 2"
proof -
  have rows: "member_rows ''t'' demo_core = map (\<lambda>u. \<lparr>mb_account = u, mb_email = u, mb_status = ''active'', mb_joined = 0\<rparr>) [''o'', ''m'']"
    by (simp add: member_rows_def demo_rows)
  obtain r where first: "directoryInput (demo_listing ''members'' None) ''t'' ''members'' (demo_filter\<lparr>df_after := []\<rparr>) = Inr r"
    using demo_listing_first by blast
  have carry: "\<forall>m \<in> set (member_rows ''t'' demo_core).
      carries (demo_listing ''members'' None) (cursor_at ''t'' ''members'' demo_filter [] [] (mb_account m, None))"
    by (simp add: rows demo_carries)
  obtain items where items: "follow_cursors (Suc (length (member_rows ''t'' demo_core))) (\<lambda>after. fst (MemberDirectory demo_service
      (demo_listing ''members'' None) demo_visit ''t'' (demo_filter\<lparr>df_after := after\<rparr>) demo_core)) [] = Inr items"
    "set items = {m \<in> set (member_rows ''t'' demo_core). member_matches (demo_listing ''members'' None) (normal_filter demo_filter) m}"
    "distinct items"
    using MemberDirectory_complete [OF demo_listing_host demo_core_inv first carry] by blast
  have "set items = set (member_rows ''t'' demo_core)"
    using items(2) by (auto simp: member_matches_def text_matches_def normal_filter_def demo_filter_def)
  then have "card (set items) = 2" by (simp add: rows)
  then have "length items = 2" using distinct_card [OF items(3)] by simp
  moreover have "Suc (length (member_rows ''t'' demo_core)) = 3" unfolding rows by simp
  ultimately show ?thesis using items(1) by metis
qed

end
