(* ===== verification/Migrations.thy ===== *)
theory Migrations
  imports PgStore GoCodec "HOL-Library.Sublist"
begin

text \<open>
  The migration runner of \<open>postgres/migrate.go\<close>: the embedded files as a checked sequence of
  migrations, the table \<open>amsonia.schema_migrations\<close>, and \<open>Migrate\<close>, which marks a version dirty before it
  runs the version's statements in a transaction that also clears the mark. What the statements of a
  migration do to the rest of the schema is a parameter; they do not touch the table of versions. A
  statement may fail without effect, or take effect and lose its answer.
\<close>

section \<open>The embedded migrations\<close>

record migration =
  mi_version :: int
  mi_name :: string
  mi_up :: string
  mi_down :: string
  mi_checksum :: string

text \<open>\<open>strconv.ParseInt(s, 10, 64)\<close>.\<close>

definition ParseInt :: "string \<Rightarrow> int option" where
  "ParseInt s =
     (let negative = (s \<noteq> [] \<and> hd s = CHR ''-'');
          digits = (if s \<noteq> [] \<and> (hd s = CHR ''-'' \<or> hd s = CHR ''+'') then tl s else s) in
      case ParseUint digits 64 of
        None \<Rightarrow> None
      | Some n \<Rightarrow>
          if negative then (if n > 2 ^ 63 then None else Some (- int n))
          else (if n \<ge> 2 ^ 63 then None else Some (int n)))"

definition has_suffix :: "string \<Rightarrow> string \<Rightarrow> bool" where
  "has_suffix s p = suffix p s"

definition TrimSuffix :: "string \<Rightarrow> string \<Rightarrow> string" where
  "TrimSuffix s p = (if has_suffix s p then take (length s - length p) s else s)"

text \<open>\<open>strings.SplitN(name, "_", 2)\<close> when it has two parts.\<close>

definition split_name :: "string \<Rightarrow> (string \<times> string) option" where
  "split_name name = (if CHR ''_'' \<in> set name
     then Some (takeWhile (\<lambda>c. c \<noteq> CHR ''_'') name, tl (dropWhile (\<lambda>c. c \<noteq> CHR ''_'') name)) else None)"

definition migration_error :: "string \<Rightarrow> error + 'a" where
  "migration_error msg = Inl (ErrHost (''amsonia/postgres: '' @ msg))"

text \<open>One directory entry: its name and whether it is a directory. \<open>read\<close> is \<open>ReadFile\<close>.\<close>

definition add_file ::
  "(string \<Rightarrow> string option) \<Rightarrow> string \<times> bool \<Rightarrow> (int, migration) gomap \<Rightarrow> error + (int, migration) gomap" where
  "add_file read entry byVersion =
     (let (name, directory) = entry; up = has_suffix name ''.up.sql'' in
      if directory \<or> \<not> up \<and> \<not> has_suffix name ''.down.sql'' then Inr byVersion
      else (case split_name name of
        None \<Rightarrow> migration_error ''invalid migration filename''
      | Some (number, rest) \<Rightarrow>
          if length number \<noteq> 6 then migration_error ''invalid migration filename''
          else (case ParseInt number of
            None \<Rightarrow> migration_error ''invalid migration version''
          | Some version \<Rightarrow>
              if version < 1 then migration_error ''invalid migration version''
              else
                let m = (case map_get byVersion version of
                    Some m \<Rightarrow> m
                  | None \<Rightarrow> \<lparr>mi_version = version, mi_name = TrimSuffix (TrimSuffix rest ''.up.sql'') ''.down.sql'',
                      mi_up = [], mi_down = [], mi_checksum = []\<rparr>) in
                (case read name of
                   None \<Rightarrow> migration_error ''read migration''
                 | Some data \<Rightarrow>
                     if up then
                       (if mi_up m \<noteq> [] then migration_error ''duplicate up migration''
                        else Inr (map_put version (m\<lparr>mi_up := data\<rparr>) byVersion))
                     else
                       (if mi_down m \<noteq> [] then migration_error ''duplicate down migration''
                        else Inr (map_put version (m\<lparr>mi_down := data\<rparr>) byVersion))))))"

definition add_migration ::
  "(string \<Rightarrow> string) \<Rightarrow> (int, migration) gomap \<Rightarrow> int \<Rightarrow> migration list \<Rightarrow> error + migration list" where
  "add_migration sha256 byVersion version migrations =
     (if version \<noteq> int (length migrations) + 1 then migration_error ''migration sequence gap''
      else (case map_get byVersion version of
        None \<Rightarrow> Inl GoPanic
      | Some m \<Rightarrow>
          if mi_up m = [] \<or> mi_down m = [] then migration_error ''migration requires up and down files''
          else Inr (migrations @ [m\<lparr>mi_checksum := hex_encode (sha256 (mi_up m))\<rparr>])))"

text \<open>\<open>entries\<close> is \<open>fs.ReadDir\<close>, \<open>None\<close> its failure.\<close>

definition EmbeddedMigrations ::
  "(string \<Rightarrow> string) \<Rightarrow> (string \<times> bool) list option \<Rightarrow> (string \<Rightarrow> string option) \<Rightarrow> error + migration list" where
  "EmbeddedMigrations sha256 entries read = (case entries of
     None \<Rightarrow> migration_error ''read migrations''
   | Some entries \<Rightarrow>
       ebind (efold (add_file read) entries []) (\<lambda>byVersion.
       efold (add_migration sha256 byVersion) (sort_by (<) (map fst byVersion)) []))"

section \<open>The database\<close>

record migration_state =
  sm_version :: int
  sm_name :: string
  sm_checksum :: "string option"
  sm_dirty :: bool
  sm_applied :: time

record 'd schema_db =
  sd_table :: "migration_state list option"
  sd_required :: bool
  sd_schema :: 'd

text \<open>
  \<open>mh_read\<close> fails a query, \<open>mh_write\<close> is what becomes of a statement that commits by itself or of a
  commit, \<open>mh_ddl\<close> what a migration's text does to the schema, \<open>mh_now\<close> the database's clock.
\<close>

record 'd migration_host =
  mh_read :: "string \<Rightarrow> int \<Rightarrow> sql_error option"
  mh_write :: "string \<Rightarrow> int \<Rightarrow> commit_result"
  mh_ddl :: "string \<Rightarrow> 'd \<Rightarrow> sql_error + 'd"
  mh_now :: "int \<Rightarrow> time"

definition mig_fail :: "string \<Rightarrow> sql_error \<Rightarrow> error" where
  "mig_fail q e = ErrHost (''amsonia/postgres: '' @ q @ '': '' @ sql_text e)"

definition version_rows :: "'d schema_db \<Rightarrow> migration_state list" where
  "version_rows s = (case sd_table s of None \<Rightarrow> [] | Some rows \<Rightarrow> rows)"

definition mig_query :: "'d migration_host \<Rightarrow> string \<Rightarrow> int \<Rightarrow> sql_error + 'r \<Rightarrow> sql_error + 'r" where
  "mig_query h q v r = (case mh_read h q v of None \<Rightarrow> r | Some e \<Rightarrow> Inl e)"

definition mig_exec ::
  "'d migration_host \<Rightarrow> string \<Rightarrow> int \<Rightarrow> sql_error + 'd schema_db \<Rightarrow> 'd schema_db \<Rightarrow> (error + unit) \<times> 'd schema_db" where
  "mig_exec h q v r s = (case r of
     Inl e \<Rightarrow> (Inl (mig_fail q e), s)
   | Inr s' \<Rightarrow> (case mh_write h q v of
       Committed \<Rightarrow> (Inr (), s')
     | NotCommitted e \<Rightarrow> (Inl (mig_fail q e), s)
     | Unacknowledged e \<Rightarrow> (Inl (mig_fail q e), s')))"

definition mig_then ::
  "(error + unit) \<times> 'd schema_db \<Rightarrow> ('d schema_db \<Rightarrow> (error + unit) \<times> 'd schema_db) \<Rightarrow> (error + unit) \<times> 'd schema_db" where
  "mig_then m k = (case m of (Inl e, s) \<Rightarrow> (Inl e, s) | (Inr _, s) \<Rightarrow> k s)"

section \<open>One migration\<close>

text \<open>The transaction: the migration's statements and the end of the dirty mark.\<close>

definition finish_row :: "'d migration_host \<Rightarrow> int \<Rightarrow> migration_state \<Rightarrow> migration_state" where
  "finish_row h v r = r\<lparr>sm_dirty := False, sm_applied := mh_now h v\<rparr>"

definition apply_up :: "'d migration_host \<Rightarrow> migration \<Rightarrow> 'd schema_db \<Rightarrow> (error + unit) \<times> 'd schema_db" where
  "apply_up h m s =
     (let v = mi_version m in
      case mh_read h ''begin migration'' v of
        Some e \<Rightarrow> (Inl (mig_fail ''begin migration'' e), s)
      | None \<Rightarrow>
        (case mig_query h ''apply migration'' v (mh_ddl h (mi_up m) (sd_schema s)) of
           Inl e \<Rightarrow> (Inl (mig_fail ''apply migration'' e), s)
         | Inr schema \<Rightarrow>
           (case mh_read h ''finalize migration'' v of
              Some e \<Rightarrow> (Inl (mig_fail ''finalize migration'' e), s)
            | None \<Rightarrow> mig_exec h ''commit migration'' v
                (Inr (s\<lparr>sd_schema := schema, sd_table := Some (sql_update (\<lambda>r. sm_version r = v) (finish_row h v) (version_rows s))\<rparr>)) s)))"

definition dirty_row :: "'d migration_host \<Rightarrow> migration \<Rightarrow> migration_state" where
  "dirty_row h m = \<lparr>sm_version = mi_version m, sm_name = mi_name m, sm_checksum = Some (mi_checksum m), sm_dirty = True,
     sm_applied = mh_now h (mi_version m)\<rparr>"

definition migrate_one :: "'d migration_host \<Rightarrow> migration \<Rightarrow> 'd schema_db \<Rightarrow> (error + unit) \<times> 'd schema_db" where
  "migrate_one h m s =
     (let v = mi_version m in
      case mig_query h ''inspect migration'' v (sql_row (\<lambda>r. sm_version r = v) (version_rows s)) of
        Inr r \<Rightarrow>
          if sm_name r \<noteq> mi_name m then (migration_error ''migration name changed'', s)
          else if sm_checksum r \<noteq> None \<and> sm_checksum r \<noteq> Some (mi_checksum m)
          then (migration_error ''migration checksum mismatch'', s)
          else if sm_checksum r = None then
            mig_exec h ''baseline migration'' v (Inr (s\<lparr>sd_table := Some (sql_update
              (\<lambda>r. sm_version r = v \<and> sm_checksum r = None) (\<lambda>r. r\<lparr>sm_checksum := Some (mi_checksum m)\<rparr>) (version_rows s))\<rparr>)) s
          else (Inr (), s)
      | Inl e \<Rightarrow>
          if e \<noteq> NoRows then (Inl (mig_fail ''inspect migration'' e), s)
          else mig_then
            (mig_exec h ''mark migration dirty'' v
              (ebind (sql_insert sm_version (dirty_row h m) (version_rows s)) (\<lambda>rows. Inr (s\<lparr>sd_table := Some rows\<rparr>))) s)
            (apply_up h m))"

fun migrate_all :: "'d migration_host \<Rightarrow> migration list \<Rightarrow> 'd schema_db \<Rightarrow> (error + unit) \<times> 'd schema_db" where
  "migrate_all h [] s = (Inr (), s)"
| "migrate_all h (m # ms) s = mig_then (migrate_one h m s) (migrate_all h ms)"

section \<open>The runner\<close>

definition create_table :: "'d schema_db \<Rightarrow> 'd schema_db" where
  "create_table s = s\<lparr>sd_table := Some (version_rows s)\<rparr>"

text \<open>\<open>ALTER COLUMN checksum SET NOT NULL\<close>.\<close>

definition require_checksums :: "'d schema_db \<Rightarrow> sql_error + 'd schema_db" where
  "require_checksums s = (if sql_exists (\<lambda>r. sm_checksum r = None) (version_rows s) then Inl CheckFailed
     else Inr (s\<lparr>sd_required := True\<rparr>))"

definition Migrate ::
  "'d migration_host \<Rightarrow> unit option \<Rightarrow> error + migration list \<Rightarrow> 'd schema_db \<Rightarrow> (error + unit) \<times> 'd schema_db" where
  "Migrate h pool embedded s =
     (if pool = None then (migration_error ''nil migration pool'', s)
      else (case embedded of
        Inl e \<Rightarrow> (Inl e, s)
      | Inr migrations \<Rightarrow>
        (case mh_read h ''acquire migration connection'' 0 of
           Some e \<Rightarrow> (Inl (mig_fail ''acquire migration connection'' e), s)
         | None \<Rightarrow>
        (case mh_read h ''acquire migration lock'' 0 of
           Some e \<Rightarrow> (Inl (mig_fail ''acquire migration lock'' e), s)
         | None \<Rightarrow>
        mig_then (mig_exec h ''initialize migration table'' 0 (Inr (create_table s)) s) (\<lambda>s.
        case mig_query h ''inspect migration state'' 0 (sql_row sm_dirty (version_rows s)) of
          Inr _ \<Rightarrow> (migration_error ''migration is dirty; repair it before continuing'', s)
        | Inl e \<Rightarrow> if e \<noteq> NoRows then (Inl (mig_fail ''inspect migration state'' e), s)
        else (case mig_query h ''inspect future migration state'' 0
            (sql_row (\<lambda>r. sm_version r > int (length migrations)) (version_rows s)) of
          Inr _ \<Rightarrow> (migration_error ''database migration is newer than this binary'', s)
        | Inl e \<Rightarrow> if e \<noteq> NoRows then (Inl (mig_fail ''inspect future migration state'' e), s)
        else mig_then (migrate_all h migrations s) (\<lambda>s.
          mig_exec h ''require migration checksums'' 0 (require_checksums s) s)))))))"

text \<open>Scanning a missing checksum into a string is an error.\<close>

definition MigrationStates :: "'d migration_host \<Rightarrow> unit option \<Rightarrow> 'd schema_db \<Rightarrow> error + migration_state list" where
  "MigrationStates h pool s =
     (if pool = None then migration_error ''nil migration pool''
      else (case mig_query h ''list migration state'' 0
          (case sd_table s of None \<Rightarrow> Inl (Outage ''relation does not exist'') | Some rows \<Rightarrow> Inr rows) of
        Inl e \<Rightarrow> Inl (mig_fail ''list migration state'' e)
      | Inr rows \<Rightarrow>
          if sql_exists (\<lambda>r. sm_checksum r = None) rows then migration_error ''scan migration state''
          else Inr (sort_by (\<lambda>a b. sm_version a < sm_version b) rows)))"

definition VerifyMigrationState ::
  "'d migration_host \<Rightarrow> unit option \<Rightarrow> error + migration list \<Rightarrow> 'd schema_db \<Rightarrow> error + unit" where
  "VerifyMigrationState h pool embedded s =
     ebind embedded (\<lambda>migrations.
     ebind (MigrationStates h pool s) (\<lambda>states.
     if length states \<noteq> length migrations then migration_error ''schema has other migrations than the binary requires''
     else echeck (\<lambda>(m, r).
         if sm_version r \<noteq> mi_version m \<or> sm_name r \<noteq> mi_name m \<or> sm_checksum r \<noteq> Some (mi_checksum m) \<or> sm_dirty r
         then migration_error ''migration state is incompatible or dirty'' else Inr ()) (zip migrations states)))"

end
