(* ===== verification/MigrationsSpec.thy ===== *)
theory MigrationsSpec
  imports Migrations
begin

text \<open>
  What the migration runner promises: the table of versions tells the truth about the schema. The rows
  are the first versions of the sequence, a clean row's statements have been committed exactly once and in
  order, and at most one row is dirty, whose statements have not been committed.
\<close>

section \<open>The sequence\<close>

definition numbered :: "migration list \<Rightarrow> bool" where
  "numbered ms \<longleftrightarrow> (\<forall>i < length ms. mi_version (ms ! i) = int i + 1)"

lemma numbered_take: "numbered ms \<Longrightarrow> numbered (take n ms)"
  by (simp add: numbered_def)

section \<open>The table and the schema\<close>

definition records :: "migration \<Rightarrow> migration_state \<Rightarrow> bool" where
  "records m r \<longleftrightarrow> sm_version r = mi_version m \<and> sm_name r = mi_name m \<and>
     (sm_checksum r = None \<or> sm_checksum r = Some (mi_checksum m))"

definition applied :: "(string \<Rightarrow> 'd \<Rightarrow> sql_error + 'd) \<Rightarrow> migration list \<Rightarrow> 'd \<Rightarrow> sql_error + 'd" where
  "applied ddl ms base = efold (\<lambda>m. ddl (mi_up m)) ms base"

text \<open>The first \<open>k\<close> versions are recorded clean, and one more may be dirty.\<close>

definition clean_at :: "(string \<Rightarrow> 'd \<Rightarrow> sql_error + 'd) \<Rightarrow> migration list \<Rightarrow> 'd \<Rightarrow> nat \<Rightarrow> 'd schema_db \<Rightarrow> bool" where
  "clean_at ddl ms base k s \<longleftrightarrow> k \<le> length ms \<and> list_all2 records (take k ms) (version_rows s) \<and>
     (\<forall>r \<in> set (version_rows s). \<not> sm_dirty r) \<and> applied ddl (take k ms) base = Inr (sd_schema s)"

definition dirty_at :: "(string \<Rightarrow> 'd \<Rightarrow> sql_error + 'd) \<Rightarrow> migration list \<Rightarrow> 'd \<Rightarrow> nat \<Rightarrow> 'd schema_db \<Rightarrow> bool" where
  "dirty_at ddl ms base k s \<longleftrightarrow> k < length ms \<and> (\<exists>rows r. version_rows s = rows @ [r] \<and> records (ms ! k) r \<and> sm_dirty r \<and>
     list_all2 records (take k ms) rows \<and> (\<forall>r \<in> set rows. \<not> sm_dirty r)) \<and>
     applied ddl (take k ms) base = Inr (sd_schema s)"

definition tracked :: "(string \<Rightarrow> 'd \<Rightarrow> sql_error + 'd) \<Rightarrow> migration list \<Rightarrow> 'd \<Rightarrow> 'd schema_db \<Rightarrow> bool" where
  "tracked ddl ms base s \<longleftrightarrow> (\<exists>k. clean_at ddl ms base k s \<or> dirty_at ddl ms base k s)"

lemma clean_tracked: "clean_at ddl ms base k s \<Longrightarrow> tracked ddl ms base s"
  by (auto simp: tracked_def)

lemma dirty_tracked: "dirty_at ddl ms base k s \<Longrightarrow> tracked ddl ms base s"
  by (auto simp: tracked_def)

lemma applied_snoc: "k < length ms \<Longrightarrow> applied ddl (take k ms) base = Inr d \<Longrightarrow> ddl (mi_up (ms ! k)) d = Inr d' \<Longrightarrow>
    applied ddl (take (Suc k) ms) base = Inr d'"
  by (simp add: applied_def take_Suc_conv_app_nth efold_append)

text \<open>In a clean table the row of a version is at its place.\<close>

lemma clean_row:
  assumes "numbered ms" and "clean_at ddl ms base k s" and "i < length ms"
  shows "i < k \<Longrightarrow> sql_row (\<lambda>r. sm_version r = mi_version (ms ! i)) (version_rows s) = Inr (version_rows s ! i) \<and>
      records (ms ! i) (version_rows s ! i)"
    and "k \<le> i \<Longrightarrow> sql_row (\<lambda>r. sm_version r = mi_version (ms ! i)) (version_rows s) = Inl NoRows"
proof -
  let ?rows = "version_rows s"
  from assms(2) have len: "length ?rows = k" and k: "k \<le> length ms" and rec: "\<And>j. j < k \<Longrightarrow> records (ms ! j) (?rows ! j)"
    by (auto simp: clean_at_def list_all2_conv_all_nth)
  have version: "sm_version (?rows ! j) = int j + 1" if "j < k" for j
    using rec [OF that] assms(1) k that by (auto simp: records_def numbered_def)
  have mine: "mi_version (ms ! i) = int i + 1" using assms(1,3) by (simp add: numbered_def)
  have keys: "keyed sm_version ?rows" by (auto simp: keyed_def distinct_conv_nth len version)
  show "sql_row (\<lambda>r. sm_version r = mi_version (ms ! i)) ?rows = Inr (?rows ! i) \<and> records (ms ! i) (?rows ! i)" if "i < k"
    using keyed_row [OF keys, of "?rows ! i"] that len version rec mine by simp
  show "sql_row (\<lambda>r. sm_version r = mi_version (ms ! i)) ?rows = Inl NoRows" if "k \<le> i"
    using that version len mine by (auto simp: sql_row_Inl in_set_conv_nth)
qed

section \<open>One migration\<close>

definition summed :: "nat \<Rightarrow> 'd schema_db \<Rightarrow> bool" where
  "summed i s \<longleftrightarrow> (\<forall>j < i. sm_checksum (version_rows s ! j) \<noteq> None)"

lemma version_rows_Some [simp]: "version_rows (s\<lparr>sd_table := Some rows\<rparr>) = rows"
  "version_rows (s\<lparr>sd_schema := d, sd_table := Some rows\<rparr>) = rows" "version_rows (s\<lparr>sd_required := b\<rparr>) = version_rows s"
  by (simp_all add: version_rows_def)

lemma mig_exec_cases:
  assumes "mig_exec h q v r s = (res, s')"
  shows "isl res \<and> s' = s \<or> r = Inr s'"
  using assms by (auto simp: mig_exec_def split: sum.splits commit_result.splits)

lemma nth_sql_update: "j < length t \<Longrightarrow> sql_update P f t ! j = (if P (t ! j) then f (t ! j) else t ! j)"
  by (simp add: sql_update_def)

lemma clean_baseline:
  assumes "numbered ms" and "clean_at ddl ms base k s" and "i < k"
  shows "clean_at ddl ms base k (s\<lparr>sd_table := Some (sql_update (\<lambda>r. sm_version r = mi_version (ms ! i) \<and> sm_checksum r = None)
     (\<lambda>r. r\<lparr>sm_checksum := Some (mi_checksum (ms ! i))\<rparr>) (version_rows s))\<rparr>)"
proof -
  let ?P = "\<lambda>r. sm_version r = mi_version (ms ! i) \<and> sm_checksum r = None"
  let ?f = "\<lambda>r. r\<lparr>sm_checksum := Some (mi_checksum (ms ! i))\<rparr>"
  let ?rows = "version_rows s"
  from assms(2) have len: "length ?rows = k" and k: "k \<le> length ms" and rec: "\<And>j. j < k \<Longrightarrow> records (ms ! j) (?rows ! j)"
    by (auto simp: clean_at_def list_all2_conv_all_nth)
  have "records (ms ! j) (sql_update ?P ?f ?rows ! j)" if "j < k" for j
  proof (cases "?P (?rows ! j)")
    case True
    with rec [OF that] have "mi_version (ms ! j) = mi_version (ms ! i)" by (simp add: records_def)
    with assms(1,3) k that have "j = i" by (simp add: numbered_def)
    have "sql_update ?P ?f ?rows ! j = ?f (?rows ! j)" using True that len by (simp add: nth_sql_update)
    with rec [OF that] \<open>j = i\<close> show ?thesis by (auto simp: records_def)
  next
    case False
    then have "sql_update ?P ?f ?rows ! j = ?rows ! j" using that len nth_sql_update [of j ?rows ?P ?f] by (simp only: if_False)
    with rec [OF that] show ?thesis by simp
  qed
  then have "list_all2 records (take k ms) (sql_update ?P ?f ?rows)"
    using len k by (simp add: list_all2_conv_all_nth sql_update_def)
  with assms(2) show ?thesis by (auto simp: clean_at_def in_sql_update split: if_split_asm)
qed

lemma dirty_marked:
  assumes "clean_at ddl ms base k s" and "k < length ms"
  shows "dirty_at ddl ms base k (s\<lparr>sd_table := Some (version_rows s @ [dirty_row h (ms ! k)])\<rparr>)"
  using assms by (auto simp: dirty_at_def clean_at_def records_def dirty_row_def)

lemma apply_up_tracked:
  assumes "numbered ms" and "clean_at ddl ms base k s0" and "k < length ms" and "mh_ddl h = ddl"
    and "s = s0\<lparr>sd_table := Some (version_rows s0 @ [dirty_row h (ms ! k)])\<rparr>" and "apply_up h (ms ! k) s = (res, s')"
  shows "clean_at ddl ms base (Suc k) s' \<and> version_rows s' = version_rows s0 @ [finish_row h (mi_version (ms ! k)) (dirty_row h (ms ! k))] \<or>
    isl res \<and> s' = s"
proof -
  let ?v = "mi_version (ms ! k)"
  have "sm_version r \<noteq> ?v" if "r \<in> set (version_rows s0)" for r
    using clean_row(2) [OF assms(1,2,3)] that by (auto simp: sql_row_Inl)
  then have "sql_update (\<lambda>r. sm_version r = ?v) (finish_row h ?v) (version_rows s0) = version_rows s0"
    by (intro sql_update_none) (auto simp: sql_exists_def)
  then have rows: "sql_update (\<lambda>r. sm_version r = ?v) (finish_row h ?v) (version_rows s) =
      version_rows s0 @ [finish_row h ?v (dirty_row h (ms ! k))]"
    by (simp add: assms(5) sql_update_def dirty_row_def)
  have schema: "sd_schema s = sd_schema s0" by (simp add: assms(5))
  from assms(6) consider "isl res \<and> s' = s" | d where "ddl (mi_up (ms ! k)) (sd_schema s0) = Inr d"
      "s' = s\<lparr>sd_schema := d, sd_table := Some (version_rows s0 @ [finish_row h ?v (dirty_row h (ms ! k))])\<rparr>"
    by (auto simp: apply_up_def Let_def mig_query_def assms(4) rows schema
        split: option.split_asm sum.split_asm dest!: mig_exec_cases)
  then show ?thesis
  proof cases
    case (2 d)
    have "records (ms ! k) (finish_row h ?v (dirty_row h (ms ! k)))" by (simp add: records_def finish_row_def dirty_row_def)
    moreover have "applied ddl (take k ms) base = Inr (sd_schema s0)" using assms(2) by (simp add: clean_at_def)
    note applied_snoc [OF assms(3) this 2(1)]
    ultimately have "clean_at ddl ms base (Suc k) s'" using 2 assms(2,3)
      by (auto simp: clean_at_def take_Suc_conv_app_nth finish_row_def intro!: list_all2_appendI)
    with 2 show ?thesis by simp
  qed simp
qed

definition answering :: "'d migration_host \<Rightarrow> bool" where
  "answering h \<longleftrightarrow> (\<forall>q v. mh_read h q v \<noteq> Some NoRows)"

lemma summed_baseline:
  assumes "summed i s" and "i < length (version_rows s)"
  shows "summed (Suc i) (s\<lparr>sd_table := Some (sql_update (\<lambda>r. sm_version r = sm_version (version_rows s ! i) \<and> sm_checksum r = None)
     (\<lambda>r. r\<lparr>sm_checksum := Some c\<rparr>) (version_rows s))\<rparr>)"
  using assms unfolding summed_def by (auto simp: nth_sql_update less_Suc_eq)

lemma migrate_one_found:
  assumes "numbered ms" and "clean_at ddl ms base k s" and "i < k" and "summed i s"
    and "migrate_one h (ms ! i) s = (res, s')"
  shows "clean_at ddl ms base k s' \<and> (summed (Suc i) s' \<or> isl res)"
proof -
  let ?r = "version_rows s ! i" and ?v = "mi_version (ms ! i)"
  from assms(2) have len: "length (version_rows s) = k" "k \<le> length ms" by (auto simp: clean_at_def list_all2_conv_all_nth)
  with clean_row(1) [OF assms(1,2) _ assms(3)] assms(3) have row: "sql_row (\<lambda>r. sm_version r = ?v) (version_rows s) = Inr ?r"
    and rec: "records (ms ! i) ?r" by simp_all
  from rec have same: "sm_version ?r = ?v" "sm_name ?r = mi_name (ms ! i)" by (simp_all add: records_def)
  show ?thesis
  proof (cases "mh_read h ''inspect migration'' ?v")
    case (Some e)
    have "?v \<in> sm_version ` set (version_rows s)" using sql_row_Inr [OF row] by force
    then have "sql_insert sm_version (dirty_row h (ms ! i)) (version_rows s) = Inl DuplicateKey"
      by (simp add: sql_insert_Inl dirty_row_def)
    with Some assms(5) have "s' = s \<and> isl res"
      by (auto simp: migrate_one_def Let_def mig_query_def mig_exec_def mig_then_def split: if_split_asm)
    with assms(2) show ?thesis by simp
  next
    case None
    show ?thesis
    proof (cases "sm_checksum ?r")
      case (Some c)
      with rec None row same assms(5) have "s' = s \<and> summed (Suc i) s"
        using assms(4) by (auto simp: migrate_one_def Let_def mig_query_def records_def summed_def less_Suc_eq)
      with assms(2) show ?thesis by simp
    next
      case missing: None
      let ?s = "s\<lparr>sd_table := Some (sql_update (\<lambda>r. sm_version r = ?v \<and> sm_checksum r = None)
        (\<lambda>r. r\<lparr>sm_checksum := Some (mi_checksum (ms ! i))\<rparr>) (version_rows s))\<rparr>"
      from missing None row same assms(5) have "mig_exec h ''baseline migration'' ?v (Inr ?s) s = (res, s')"
        by (simp add: migrate_one_def Let_def mig_query_def)
      from mig_exec_cases [OF this] clean_baseline [OF assms(1-3)] assms(2)
        summed_baseline [OF assms(4), of "mi_checksum (ms ! i)"] len(1) assms(3) same(1)
      show ?thesis by auto
    qed
  qed
qed

lemma migrate_one_new:
  assumes "numbered ms" and "clean_at ddl ms base k s" and "k < length ms" and "summed k s" and "mh_ddl h = ddl"
    and "migrate_one h (ms ! k) s = (res, s')"
  shows "clean_at ddl ms base (Suc k) s' \<and> summed (Suc k) s' \<or> isl res \<and> tracked ddl ms base s'"
proof -
  let ?s = "s\<lparr>sd_table := Some (version_rows s @ [dirty_row h (ms ! k)])\<rparr>"
  from assms(2) have len: "length (version_rows s) = k" by (auto simp: clean_at_def list_all2_conv_all_nth)
  have none: "sql_row (\<lambda>r. sm_version r = mi_version (ms ! k)) (version_rows s) = Inl NoRows"
    using clean_row(2) [OF assms(1,2,3)] by simp
  from assms(6) none consider "isl res" "s' = s" | "isl res" "s' = ?s" | "apply_up h (ms ! k) ?s = (res, s')"
    by (auto simp: migrate_one_def Let_def mig_query_def mig_then_def mig_exec_def ebind_def sql_insert_def dirty_row_def
        split: option.split_asm if_split_asm sum.split_asm commit_result.split_asm prod.split_asm)
  then show ?thesis
  proof cases
    case 3
    from apply_up_tracked [OF assms(1-3,5) refl this] show ?thesis
    proof
      assume "clean_at ddl ms base (Suc k) s' \<and> version_rows s' = version_rows s @ [finish_row h (mi_version (ms ! k)) (dirty_row h (ms ! k))]"
      with assms(4) len show ?thesis
        by (auto simp: summed_def less_Suc_eq nth_append finish_row_def dirty_row_def)
    next
      assume "isl res \<and> s' = ?s"
      with dirty_tracked [OF dirty_marked [OF assms(2,3), of h]] show ?thesis by simp
    qed
  next
    case 1
    with clean_tracked [OF assms(2)] show ?thesis by simp
  next
    case 2
    with dirty_tracked [OF dirty_marked [OF assms(2,3), of h]] show ?thesis by simp
  qed
qed

section \<open>All of them\<close>

lemma migrate_all_tracked:
  assumes "numbered ms" and "mh_ddl h = ddl"
  shows "clean_at ddl ms base k s \<Longrightarrow> i \<le> k \<Longrightarrow> k \<le> n \<Longrightarrow> n \<le> length ms \<Longrightarrow> summed i s \<Longrightarrow>
    migrate_all h (drop i (take n ms)) s = (res, s') \<Longrightarrow> i \<le> n \<Longrightarrow>
    clean_at ddl ms base n s' \<and> summed n s' \<or> isl res \<and> tracked ddl ms base s'"
proof (induction "n - i" arbitrary: i k s)
  case 0
  then have "i = n" "k = n" by simp_all
  with 0 show ?case by simp
next
  case (Suc d)
  then have less: "i < n" and drop: "drop i (take n ms) = ms ! i # drop (Suc i) (take n ms)"
    by (auto simp: Cons_nth_drop_Suc [symmetric])
  obtain r1 s1 where one: "migrate_one h (ms ! i) s = (r1, s1)" by fastforce
  have step: "clean_at ddl ms base (max k (Suc i)) s1 \<and> (summed (Suc i) s1 \<or> isl r1) \<or> isl r1 \<and> tracked ddl ms base s1"
  proof (cases "i < k")
    case True
    then have "max k (Suc i) = k" by simp
    with migrate_one_found [OF assms(1) Suc.prems(1) True Suc.prems(5) one] show ?thesis by simp
  next
    case False
    with Suc.prems(2) have "i = k" by simp
    with migrate_one_new [OF assms(1) Suc.prems(1) _ _ assms(2)] Suc.prems(4,5) less one show ?thesis by auto
  qed
  show ?case
  proof (cases r1)
    case (Inl e)
    with Suc.prems(6) drop one have "res = Inl e" "s' = s1" by (simp_all add: mig_then_def)
    with step Inl clean_tracked [of ddl ms base "max k (Suc i)" s1] show ?thesis by auto
  next
    case (Inr u)
    with Suc.prems(6) drop one have "migrate_all h (drop (Suc i) (take n ms)) s1 = (res, s')" by (simp add: mig_then_def)
    with Suc.hyps(1) [of "Suc i" "max k (Suc i)" s1] Suc.hyps(2) step Inr Suc.prems less show ?thesis by auto
  qed
qed

section \<open>The runner\<close>

lemma create_table_clean [simp]: "clean_at ddl ms base k (create_table s) = clean_at ddl ms base k s"
  "dirty_at ddl ms base k (create_table s) = dirty_at ddl ms base k s" "tracked ddl ms base (create_table s) = tracked ddl ms base s"
  "version_rows (create_table s) = version_rows s"
  by (simp_all add: clean_at_def dirty_at_def tracked_def create_table_def version_rows_def)

lemma required_clean [simp]: "clean_at ddl ms base k (s\<lparr>sd_required := b\<rparr>) = clean_at ddl ms base k s"
  by (simp add: clean_at_def)

lemma Migrate_cases:
  assumes "answering h" and "Migrate h pool (Inr ms) s = (res, s')"
  obtains "isl res" "s' = s \<or> s' = create_table s"
  | r1 s1 where "\<forall>r \<in> set (version_rows s). \<not> sm_dirty r \<and> sm_version r \<le> int (length ms)"
      "migrate_all h ms (create_table s) = (r1, s1)"
      "isl r1 \<and> res = r1 \<and> s' = s1 \<or> \<not> isl r1 \<and> mig_exec h ''require migration checksums'' 0 (require_checksums s1) s1 = (res, s')"
proof -
  have no: "mh_read h q v \<noteq> Some NoRows" for q v using assms(1) by (simp add: answering_def)
  obtain r1 s1 where all: "migrate_all h ms (create_table s) = (r1, s1)" by fastforce
  from assms(2) no all have "isl res \<and> (s' = s \<or> s' = create_table s) \<or>
     sql_row sm_dirty (version_rows s) = Inl NoRows \<and> sql_row (\<lambda>r. sm_version r > int (length ms)) (version_rows s) = Inl NoRows \<and>
     (isl r1 \<and> res = r1 \<and> s' = s1 \<or> \<not> isl r1 \<and> mig_exec h ''require migration checksums'' 0 (require_checksums s1) s1 = (res, s'))"
    by (cases r1)
      (auto simp: Migrate_def migration_error_def mig_then_def mig_query_def mig_exec_def [of _ _ _ "Inr (create_table s)"]
        split: if_split_asm option.split_asm commit_result.split_asm sum.split_asm)
  then show ?thesis
    using that all by (force simp: sql_row_Inl)
qed

lemma Migrate_tracked:
  assumes "numbered all" and "answering h" and "mh_ddl h = ddl" and "tracked ddl all base s" and "n \<le> length all"
    and "Migrate h pool (Inr (take n all)) s = (res, s')"
  shows "tracked ddl all base s'" and "\<not> isl res \<Longrightarrow> clean_at ddl all base n s' \<and> summed n s' \<and> sd_required s'"
proof -
  have "isl res \<and> tracked ddl all base s' \<or> clean_at ddl all base n s' \<and> summed n s' \<and> (isl res \<or> sd_required s')"
    using Migrate_cases [OF assms(2,6)]
  proof cases
    case 1
    with assms(4) show ?thesis by auto
  next
    case (2 r1 s1)
    from assms(4) 2(1) obtain k where k: "clean_at ddl all base k s" by (auto simp: tracked_def dirty_at_def)
    have "k \<le> n"
    proof (rule ccontr)
      assume "\<not> k \<le> n"
      with k have row: "n < length (version_rows s)" "k \<le> length all" "records (all ! n) (version_rows s ! n)"
        by (auto simp: clean_at_def list_all2_conv_all_nth)
      with assms(1) \<open>\<not> k \<le> n\<close> have "sm_version (version_rows s ! n) = int n + 1" by (simp add: records_def numbered_def)
      moreover have "sm_version (version_rows s ! n) \<le> int n" using 2(1) row(1) assms(5) by simp
      ultimately show False by simp
    qed
    with migrate_all_tracked [OF assms(1,3), of base k "create_table s" 0 n r1 s1] k assms(5) 2(2)
    have "clean_at ddl all base n s1 \<and> summed n s1 \<or> isl r1 \<and> tracked ddl all base s1" by (simp add: summed_def)
    with 2(3) show ?thesis
      by (auto simp: require_checksums_def summed_def dest!: mig_exec_cases split: if_split_asm)
  qed
  then show "tracked ddl all base s'" and "\<not> isl res \<Longrightarrow> clean_at ddl all base n s' \<and> summed n s' \<and> sd_required s'"
    using clean_tracked [of ddl all base n s'] by auto
qed

text \<open>A history: each run is of some release, the binary that knows the first \<open>n\<close> migrations.\<close>

fun migrations_run :: "migration list \<Rightarrow> ('d migration_host \<times> nat) list \<Rightarrow> 'd schema_db \<Rightarrow> 'd schema_db" where
  "migrations_run all [] s = s"
| "migrations_run all ((h, n) # runs) s = migrations_run all runs (snd (Migrate h (Some ()) (Inr (take n all)) s))"

lemma take_min: "\<exists>m \<le> length all. take n all = take m all"
  by (rule exI [of _ "min n (length all)"]) (simp add: min_def)

lemma migrations_run_tracked:
  assumes "numbered all" and "\<forall>(h, n) \<in> set runs. answering h \<and> mh_ddl h = ddl" and "tracked ddl all base s"
  shows "tracked ddl all base (migrations_run all runs s)"
  using assms(2,3)
proof (induction runs arbitrary: s)
  case (Cons run runs)
  obtain h n where run: "run = (h, n)" by fastforce
  obtain m where m: "m \<le> length all" "take n all = take m all" using take_min by blast
  obtain res s' where one: "Migrate h (Some ()) (Inr (take m all)) s = (res, s')" by fastforce
  have h: "answering h" "mh_ddl h = ddl" using Cons.prems(1) by (auto simp: run)
  have "tracked ddl all base s'" by (rule Migrate_tracked(1) [OF assms(1) h Cons.prems(2) m(1) one])
  with Cons run m(2) one show ?case by simp
qed simp

text \<open>An empty table, or none, and a schema no migration has touched.\<close>

lemma untouched_tracked: "sd_table s = None \<Longrightarrow> tracked ddl ms (sd_schema s) s"
  by (intro clean_tracked [of _ _ _ 0]) (simp add: clean_at_def version_rows_def applied_def)

text \<open>The sequence the binary embeds is numbered, and complete.\<close>

lemma add_file_version:
  assumes "add_file read entry byVersion = Inr byVersion'" and "\<forall>v m. map_get byVersion v = Some m \<longrightarrow> mi_version m = v"
  shows "\<forall>v m. map_get byVersion' v = Some m \<longrightarrow> mi_version m = v"
  using assms by (auto simp: add_file_def migration_error_def Let_def
      split: prod.split_asm if_split_asm option.split_asm)

lemma EmbeddedMigrations_numbered:
  assumes "EmbeddedMigrations sha256 entries read = Inr ms"
  shows "numbered ms \<and> (\<forall>m \<in> set ms. mi_up m \<noteq> [] \<and> mi_down m \<noteq> [] \<and> mi_checksum m = hex_encode (sha256 (mi_up m)))"
proof -
  let ?good = "\<lambda>m. mi_up m \<noteq> [] \<and> mi_down m \<noteq> [] \<and> mi_checksum m = hex_encode (sha256 (mi_up m))"
  from assms obtain files byVersion where files: "efold (add_file read) files [] = Inr byVersion"
    and ms: "efold (add_migration sha256 byVersion) (sort_by (<) (map fst byVersion)) [] = Inr ms"
    by (auto simp: EmbeddedMigrations_def migration_error_def err_simps split: option.split_asm)
  have version: "\<forall>v m. map_get byVersion v = Some m \<longrightarrow> mi_version m = v"
    using files by (rule efold_invariant [where P = "\<lambda>b. \<forall>v m. map_get b v = Some m \<longrightarrow> mi_version m = v"])
      (auto dest: add_file_version)
  show ?thesis
  proof (rule efold_invariant [OF ms, where P = "\<lambda>ms. numbered ms \<and> (\<forall>m \<in> set ms. ?good m)"])
    show "numbered [] \<and> (\<forall>m \<in> set []. ?good m)" by (simp add: numbered_def)
    fix v acc acc'
    assume acc: "numbered acc \<and> (\<forall>m \<in> set acc. ?good m)" and step: "add_migration sha256 byVersion v acc = Inr acc'"
    from step obtain m where "v = int (length acc) + 1" "map_get byVersion v = Some m" "mi_up m \<noteq> []" "mi_down m \<noteq> []"
        "acc' = acc @ [m\<lparr>mi_checksum := hex_encode (sha256 (mi_up m))\<rparr>]"
      by (auto simp: add_migration_def migration_error_def split: if_split_asm option.split_asm)
    with acc version show "numbered acc' \<and> (\<forall>m \<in> set acc'. ?good m)"
      by (auto simp: numbered_def nth_append less_Suc_eq)
  qed
qed

section \<open>A finished run\<close>

lemma migrate_one_done:
  assumes "numbered ms" and "clean_at ddl ms base k s" and "i < k" and "summed k s" and "mh_read h = (\<lambda>q v. None)"
  shows "migrate_one h (ms ! i) s = (Inr (), s)"
proof -
  from assms(2) have "i < length ms" using assms(3) by (simp add: clean_at_def)
  from clean_row(1) [OF assms(1,2) this assms(3)] assms(3,4,5) show ?thesis
    by (auto simp: migrate_one_def Let_def mig_query_def records_def summed_def)
qed

lemma migrate_all_done:
  assumes "\<And>m. m \<in> set ms \<Longrightarrow> migrate_one h m s = (Inr (), s)"
  shows "migrate_all h ms s = (Inr (), s)"
  using assms by (induction ms) (simp_all add: mig_then_def)

lemma sort_by_sorted_id:
  assumes "sorted_wrt lt xs" and "\<And>x y. lt x y \<Longrightarrow> \<not> lt y x"
  shows "sort_by lt xs = xs"
  using assms(1)
proof (induction xs)
  case (Cons x xs)
  then show ?case by (cases xs) (auto simp: sort_by_def assms(2))
qed simp

lemma clean_sorted:
  assumes "numbered ms" and "clean_at ddl ms base k s"
  shows "sort_by (\<lambda>a b. sm_version a < sm_version b) (version_rows s) = version_rows s"
proof (rule sort_by_sorted_id)
  have "sm_version (version_rows s ! i) = int i + 1" if "i < length (version_rows s)" for i
    using assms that by (auto simp: clean_at_def list_all2_conv_all_nth records_def numbered_def)
  then show "sorted_wrt (\<lambda>a b. sm_version a < sm_version b) (version_rows s)" by (simp add: sorted_wrt_iff_nth_less)
qed simp

lemma VerifyMigrationState_clean:
  assumes "numbered ms" and "clean_at ddl ms base n s" and "summed n s" and "sd_table s \<noteq> None"
    and "mh_read h ''list migration state'' 0 = None"
  shows "VerifyMigrationState h (Some ()) (Inr (take n ms)) s = Inr ()"
proof -
  from assms(2) have len: "length (version_rows s) = n" "n \<le> length ms" and rec: "\<And>j. j < n \<Longrightarrow> records (ms ! j) (version_rows s ! j)"
    by (auto simp: clean_at_def list_all2_conv_all_nth)
  from assms(4) have table: "sd_table s = Some (version_rows s)" by (auto simp: version_rows_def)
  have some: "sm_checksum r \<noteq> None" if "r \<in> set (version_rows s)" for r
    using assms(3) that len by (auto simp: summed_def in_set_conv_nth)
  have "\<not> sql_exists (\<lambda>r. sm_checksum r = None) (version_rows s)" using some by (auto simp: sql_exists_def)
  then have states: "MigrationStates h (Some ()) s = Inr (version_rows s)"
    using clean_sorted [OF assms(1,2)] assms(5) by (simp add: MigrationStates_def mig_query_def table)
  have "sm_version r = mi_version m \<and> sm_name r = mi_name m \<and> sm_checksum r = Some (mi_checksum m) \<and> \<not> sm_dirty r"
    if "(m, r) \<in> set (zip (take n ms) (version_rows s))" for m r
  proof -
    from that have "r \<in> set (version_rows s)" by (rule set_zip_rightD)
    moreover from that len rec have "records m r" by (auto simp: set_zip)
    ultimately show ?thesis using some assms(2) by (auto simp: records_def clean_at_def)
  qed
  then show ?thesis using len by (auto simp: VerifyMigrationState_def states ebind_def echeck_Inr)
qed

lemma VerifyMigrationState_tracked:
  assumes "numbered ms" and "tracked ddl ms base s" and "VerifyMigrationState h (Some ()) (Inr (take n ms)) s = Inr ()"
  shows "clean_at ddl ms base (min n (length ms)) s"
proof -
  from assms(3) obtain states where states: "MigrationStates h (Some ()) s = Inr states" "length states = length (take n ms)"
    and all: "\<forall>(m, r) \<in> set (zip (take n ms) states). sm_dirty r \<longrightarrow> migration_error ''migration state is incompatible or dirty'' = (Inr () :: error + unit)"
    by (fastforce simp: VerifyMigrationState_def migration_error_def err_simps split: if_split_asm)
  have each: "\<not> sm_dirty r" if "(m, r) \<in> set (zip (take n ms) states)" for m r
    using all that by (auto simp: migration_error_def)
  from states(1) have same: "states = sort_by (\<lambda>a b. sm_version a < sm_version b) (version_rows s)"
    by (auto simp: MigrationStates_def mig_query_def migration_error_def version_rows_def
        split: option.split_asm if_split_asm)
  have "\<not> sm_dirty r" if "r \<in> set (version_rows s)" for r
  proof -
    have "r \<in> set states" using that same by simp
    then obtain i where i: "i < length states" "r = states ! i" by (auto simp: in_set_conv_nth)
    with states(2) have "(take n ms ! i, r) \<in> set (zip (take n ms) states)" by (auto simp: set_zip intro!: exI [of _ i])
    then show ?thesis by (rule each)
  qed
  with assms(2) obtain k where k: "clean_at ddl ms base k s" by (auto simp: tracked_def dirty_at_def)
  then have "k = length states" by (auto simp: same clean_at_def dest!: list_all2_lengthD)
  with k states(2) show ?thesis by (simp add: min.commute)
qed

lemma table_kept:
  shows "migrate_one h m s = (res, s') \<Longrightarrow> sd_table s \<noteq> None \<Longrightarrow> sd_table s' \<noteq> None"
    and "migrate_all h ms s = (res, s') \<Longrightarrow> sd_table s \<noteq> None \<Longrightarrow> sd_table s' \<noteq> None"
proof -
  have up: "sd_table s' \<noteq> None" if "apply_up h m s = (res, s')" "sd_table s \<noteq> None" for m s s' res
    using that by (auto simp: apply_up_def Let_def split: option.split_asm sum.split_asm dest!: mig_exec_cases)
  show one: "sd_table s' \<noteq> None" if "migrate_one h m s = (res, s')" "sd_table s \<noteq> None" for m s s' res
    using that by (auto simp: migrate_one_def Let_def migration_error_def mig_then_def ebind_def
        split: sum.split_asm if_split_asm prod.split_asm dest!: mig_exec_cases up)
  show "migrate_all h ms s = (res, s') \<Longrightarrow> sd_table s \<noteq> None \<Longrightarrow> sd_table s' \<noteq> None"
    by (induction ms arbitrary: s) (auto simp: mig_then_def split: prod.split_asm sum.split_asm dest: one)
qed

lemma truthful:
  assumes "tracked ddl ms base s"
  shows "\<exists>k \<le> length ms. applied ddl (take k ms) base = Inr (sd_schema s) \<and>
      list_all2 records (take k ms) (filter (\<lambda>r. \<not> sm_dirty r) (version_rows s)) \<and>
      (filter sm_dirty (version_rows s) = [] \<or>
       (\<exists>r. k < length ms \<and> filter sm_dirty (version_rows s) = [r] \<and> records (ms ! k) r))"
proof -
  from assms obtain k where "clean_at ddl ms base k s \<or> dirty_at ddl ms base k s" by (auto simp: tracked_def)
  then show ?thesis
  proof
    assume k: "clean_at ddl ms base k s"
    then have "filter sm_dirty (version_rows s) = []" "filter (\<lambda>r. \<not> sm_dirty r) (version_rows s) = version_rows s"
      by (auto simp: clean_at_def filter_empty_conv intro: filter_True)
    with k show ?thesis by (intro exI [of _ k]) (simp add: clean_at_def)
  next
    assume k: "dirty_at ddl ms base k s"
    then obtain rows r where rows: "version_rows s = rows @ [r]" "records (ms ! k) r" "sm_dirty r" "list_all2 records (take k ms) rows"
        "\<forall>r \<in> set rows. \<not> sm_dirty r" by (auto simp: dirty_at_def)
    then have "filter sm_dirty (version_rows s) = [r]" "filter (\<lambda>r. \<not> sm_dirty r) (version_rows s) = rows"
      by (auto simp: filter_empty_conv intro: filter_True)
    with k rows show ?thesis by (intro exI [of _ k]) (simp add: dirty_at_def)
  qed
qed

lemma Migrate_dirty:
  assumes "answering h" and "\<exists>r \<in> set (version_rows s). sm_dirty r" and "Migrate h (Some ()) (Inr ms) s = (res, s')"
  shows "isl res \<and> sd_schema s' = sd_schema s \<and> version_rows s' = version_rows s"
  using Migrate_cases [OF assms(1,3)] assms(2) by cases (auto simp: create_table_def)

lemma Migrate_again:
  assumes "numbered all" and "clean_at ddl all base n s" and "summed n s" and "sd_table s \<noteq> None" and "sd_required s"
    and "mh_read h = (\<lambda>q v. None)" and "mh_write h = (\<lambda>q v. Committed)"
  shows "Migrate h (Some ()) (Inr (take n all)) s = (Inr (), s)"
proof -
  from assms(2) have len: "length (version_rows s) = n" "n \<le> length all" and clean: "\<forall>r \<in> set (version_rows s). \<not> sm_dirty r"
    by (auto simp: clean_at_def list_all2_conv_all_nth)
  have "sm_version (version_rows s ! i) = int i + 1" if "i < n" for i
    using assms(1,2) that len by (auto simp: clean_at_def list_all2_conv_all_nth records_def numbered_def)
  then have future: "sql_row (\<lambda>r. sm_version r > int (length (take n all))) (version_rows s) = Inl NoRows"
    using len by (auto simp: sql_row_Inl in_set_conv_nth)
  have dirty: "sql_row sm_dirty (version_rows s) = Inl NoRows" using clean by (simp add: sql_row_Inl)
  have table: "create_table s = s" using assms(4) by (auto simp: create_table_def version_rows_def)
  have "migrate_one h m s = (Inr (), s)" if "m \<in> set (take n all)" for m
    using that migrate_one_done [OF assms(1,2) _ assms(3,6)] by (auto simp: in_set_conv_nth)
  then have all: "migrate_all h (take n all) s = (Inr (), s)" by (rule migrate_all_done)
  have "\<not> sql_exists (\<lambda>r. sm_checksum r = None) (version_rows s)"
    using assms(3) len by (auto simp: sql_exists_def summed_def in_set_conv_nth)
  then have "require_checksums s = Inr s" using assms(5) by (simp add: require_checksums_def)
  then show ?thesis
    using future dirty by (simp add: Migrate_def assms(6,7) mig_exec_def mig_then_def mig_query_def table all)
qed

lemma Migrate_table:
  assumes "answering h" and "Migrate h pool (Inr ms) s = (Inr (), s')"
  shows "sd_table s' \<noteq> None"
  using Migrate_cases [OF assms]
proof cases
  case (2 r1 s1)
  have "sd_table s1 \<noteq> None" using table_kept(2) [OF 2(2)] by (simp add: create_table_def)
  with 2(3) show ?thesis
    by (auto simp: require_checksums_def dest!: mig_exec_cases split: if_split_asm)
qed simp

section \<open>The claims\<close>

text \<open>An installation that starts without the table, two migrations, and a host that answers as told.\<close>

definition demo_sha :: "string \<Rightarrow> string" where "demo_sha s = rev s"

definition demo_file :: "string \<Rightarrow> string option" where
  "demo_file name = (if has_suffix name ''.up.sql'' then Some (''up '' @ name) else Some (''down '' @ name))"

definition demo_entries :: "(string \<times> bool) list" where
  "demo_entries = [(''000001_core.down.sql'', False), (''000001_core.up.sql'', False), (''000002_audit.down.sql'', False),
     (''000002_audit.up.sql'', False), (''README.md'', False)]"

definition demo_migration :: "int \<Rightarrow> string \<Rightarrow> string \<Rightarrow> migration" where
  "demo_migration v base name = \<lparr>mi_version = v, mi_name = name, mi_up = ''up '' @ base @ ''.up.sql'',
     mi_down = ''down '' @ base @ ''.down.sql'', mi_checksum = hex_encode (demo_sha (''up '' @ base @ ''.up.sql''))\<rparr>"

definition demo_migrations :: "migration list" where
  "demo_migrations = [demo_migration 1 ''000001_core'' ''core'', demo_migration 2 ''000002_audit'' ''audit'']"

lemma demo_split: "split_name ''000001_core.up.sql'' = Some (''000001'', ''core.up.sql'')"
    "split_name ''000001_core.down.sql'' = Some (''000001'', ''core.down.sql'')"
    "split_name ''000002_audit.up.sql'' = Some (''000002'', ''audit.up.sql'')"
    "split_name ''000002_audit.down.sql'' = Some (''000002'', ''audit.down.sql'')"
  by (simp_all add: split_name_def)

lemma demo_parse: "ParseInt ''000001'' = Some 1" "ParseInt ''000002'' = Some 2"
  by (simp_all add: ParseInt_def ParseUint_def is_digit_def digits_value_def)

lemma demo_embedded: "EmbeddedMigrations demo_sha (Some demo_entries) demo_file = Inr demo_migrations"
  by (simp add: EmbeddedMigrations_def demo_entries_def demo_file_def add_file_def has_suffix_def suffix_to_prefix demo_split
      demo_parse TrimSuffix_def demo_migrations_def demo_migration_def ebind_def map_get_def map_put_def sort_by_def add_migration_def Let_def)

lemma demo_migration_simps [simp]: "mi_version (demo_migration v base name) = v" "mi_name (demo_migration v base name) = name"
  by (simp_all add: demo_migration_def)

definition demo_ddl :: "string \<Rightarrow> string list \<Rightarrow> sql_error + string list" where
  "demo_ddl up d = Inr (d @ [up])"

definition demo_runner :: "commit_result \<Rightarrow> string list migration_host" where
  "demo_runner c = \<lparr>mh_read = (\<lambda>q v. None), mh_write = (\<lambda>q v. if q = ''commit migration'' \<and> v = 2 then c else Committed),
     mh_ddl = demo_ddl, mh_now = (\<lambda>v. 100 + v)\<rparr>"

definition demo_blank :: "string list schema_db" where
  "demo_blank = \<lparr>sd_table = None, sd_required = False, sd_schema = []\<rparr>"

lemma demo_runner_laws: "answering (demo_runner c)" "mh_ddl (demo_runner c) = demo_ddl"
  "mh_read (demo_runner c) = (\<lambda>q v. None)"
  by (simp_all add: answering_def demo_runner_def)

lemma demo_first:
  "fst (Migrate (demo_runner Committed) (Some ()) (Inr demo_migrations) demo_blank) = Inr ()"
  by (simp add: Migrate_def demo_runner_def demo_blank_def mig_exec_def mig_then_def mig_query_def create_table_def version_rows_def
    sql_row_def migrate_one_def Let_def demo_migrations_def ebind_def sql_insert_def dirty_row_def apply_up_def demo_ddl_def
    finish_row_def sql_update_def require_checksums_def sql_exists_def) auto

lemma demo_verified: "VerifyMigrationState (demo_runner Committed) (Some ()) (Inr demo_migrations)
   (snd (Migrate (demo_runner Committed) (Some ()) (Inr demo_migrations) demo_blank)) = Inr ()"
proof -
  have num: "numbered demo_migrations" and two: "take 2 demo_migrations = demo_migrations"
    using EmbeddedMigrations_numbered [OF demo_embedded] by (simp_all add: demo_migrations_def)
  let ?s = "snd (Migrate (demo_runner Committed) (Some ()) (Inr demo_migrations) demo_blank)"
  have run: "Migrate (demo_runner Committed) (Some ()) (Inr (take 2 demo_migrations)) demo_blank = (Inr (), ?s)"
    using demo_first by (simp add: two prod_eq_iff)
  have blank: "tracked demo_ddl demo_migrations (sd_schema demo_blank) demo_blank"
    by (rule untouched_tracked) (simp add: demo_blank_def)
  have "2 \<le> length demo_migrations" by (simp add: demo_migrations_def)
  from Migrate_tracked(2) [OF num demo_runner_laws(1,2) blank this run] Migrate_table [OF demo_runner_laws(1) run]
    VerifyMigrationState_clean [OF num, of demo_ddl "sd_schema demo_blank" 2 ?s "demo_runner Committed"]
  show ?thesis by (simp add: two demo_runner_laws)
qed

text \<open>
  C22: Whatever releases are migrated in whatever order, with statements failing, taking effect unanswered
  or not, the table of versions stays true to the schema: the clean rows are the first \<open>k\<close> embedded
  migrations, the schema is what exactly these made of the untouched one, in order, and a dirty row is the
  next migration, of which nothing has taken effect. A dirty table is refused: \<open>Migrate\<close> answers an error and
  changes neither rows nor schema.
\<close>

theorem migrations_stay_truthful:
  assumes "EmbeddedMigrations sha256 entries read = Inr all"
    and "\<forall>(h, n) \<in> set runs. answering h \<and> mh_ddl h = ddl" and "sd_table s = None"
    and "s' = migrations_run all runs s"
  shows "(\<exists>k \<le> length all. applied ddl (take k all) (sd_schema s) = Inr (sd_schema s') \<and>
      list_all2 records (take k all) (filter (\<lambda>r. \<not> sm_dirty r) (version_rows s')) \<and>
      (filter sm_dirty (version_rows s') = [] \<or>
       (\<exists>r. k < length all \<and> filter sm_dirty (version_rows s') = [r] \<and> records (all ! k) r))) \<and>
    (\<forall>h n res s2. answering h \<and> filter sm_dirty (version_rows s') \<noteq> [] \<and> Migrate h (Some ()) (Inr (take n all)) s' = (res, s2) \<longrightarrow>
      isl res \<and> sd_schema s2 = sd_schema s' \<and> version_rows s2 = version_rows s')"
proof -
  have "numbered all" using EmbeddedMigrations_numbered [OF assms(1)] by simp
  from migrations_run_tracked [OF this assms(2) untouched_tracked [OF assms(3)]]
  have "tracked ddl all (sd_schema s) s'" by (simp add: assms(4))
  note truthful [OF this]
  moreover have "isl res \<and> sd_schema s2 = sd_schema s' \<and> version_rows s2 = version_rows s'"
    if "answering h" "filter sm_dirty (version_rows s') \<noteq> []" "Migrate h (Some ()) (Inr (take n all)) s' = (res, s2)" for h n res s2
    using Migrate_dirty [OF that(1) _ that(3)] that(2) by (auto simp: filter_empty_conv)
  ultimately show ?thesis by blast
qed

lemma migrations_stay_truthful_witness:
  "\<exists>k \<le> length demo_migrations. applied demo_ddl (take k demo_migrations) (sd_schema demo_blank) =
     Inr (sd_schema (migrations_run demo_migrations [(demo_runner (Unacknowledged (Outage ''lost'')), 1), (demo_runner (NotCommitted (Outage ''lost'')), 2)] demo_blank))"
proof -
  have "\<forall>(h, n) \<in> set [(demo_runner (Unacknowledged (Outage ''lost'')), 1), (demo_runner (NotCommitted (Outage ''lost'')), 2)].
      answering h \<and> mh_ddl h = demo_ddl" by (simp add: demo_runner_laws)
  moreover have "sd_table demo_blank = None" by (simp add: demo_blank_def)
  ultimately show ?thesis using migrations_stay_truthful [OF demo_embedded _ _ refl] by blast
qed

text \<open>
  C23: A migration run that answers success has applied exactly the binary's migrations: the schema is what
  its first \<open>n\<close> migrations make of the untouched one, \<open>VerifyMigrationState\<close> of the same binary accepts the
  database, and a second run of it succeeds and changes nothing.
\<close>

theorem Migrate_success:
  assumes "EmbeddedMigrations sha256 entries read = Inr all" and "n \<le> length all"
    and "\<forall>(h, n) \<in> set runs. answering h \<and> mh_ddl h = ddl" and "answering h" and "mh_ddl h = ddl" and "sd_table s = None"
    and "Migrate h (Some ()) (Inr (take n all)) (migrations_run all runs s) = (Inr (), s')"
  shows "applied ddl (take n all) (sd_schema s) = Inr (sd_schema s') \<and>
    (\<forall>h2. mh_read h2 ''list migration state'' 0 = None \<longrightarrow> VerifyMigrationState h2 (Some ()) (Inr (take n all)) s' = Inr ()) \<and>
    (\<forall>h2. mh_read h2 = (\<lambda>q v. None) \<and> mh_write h2 = (\<lambda>q v. Committed) \<longrightarrow> Migrate h2 (Some ()) (Inr (take n all)) s' = (Inr (), s'))"
proof -
  have num: "numbered all" using EmbeddedMigrations_numbered [OF assms(1)] by simp
  note tracked = migrations_run_tracked [OF num assms(3) untouched_tracked [OF assms(6)]]
  from Migrate_tracked(2) [OF num assms(4,5) tracked assms(2,7)]
  have finished: "clean_at ddl all (sd_schema s) n s'" "summed n s'" "sd_required s'" by auto
  have "sd_table s' \<noteq> None" by (rule Migrate_table [OF assms(4,7)])
  with finished VerifyMigrationState_clean [OF num finished(1,2)] Migrate_again [OF num finished(1,2) _ finished(3)]
  show ?thesis by (auto simp: clean_at_def)
qed

lemma Migrate_success_witness:
  "VerifyMigrationState (demo_runner Committed) (Some ()) (Inr demo_migrations)
     (snd (Migrate (demo_runner Committed) (Some ()) (Inr demo_migrations) demo_blank)) = Inr ()"
proof -
  have "Migrate (demo_runner Committed) (Some ()) (Inr (take 2 demo_migrations)) (migrations_run demo_migrations [] demo_blank) =
      (Inr (), snd (Migrate (demo_runner Committed) (Some ()) (Inr demo_migrations) demo_blank))"
    using demo_first by (simp add: demo_migrations_def prod_eq_iff)
  from Migrate_success [OF demo_embedded _ _ demo_runner_laws(1,2) _ this]
  show ?thesis by (simp add: demo_runner_laws demo_migrations_def demo_blank_def)
qed

text \<open>
  C24: After any history, a binary that finds the database in order (\<open>VerifyMigrationState\<close> answers no error,
  the check the services make before they serve) runs on the schema its own migrations made: all of them,
  each once, in order, and nothing of a later one.
\<close>

theorem VerifyMigrationState_sound:
  assumes "EmbeddedMigrations sha256 entries read = Inr all" and "n \<le> length all"
    and "\<forall>(h, n) \<in> set runs. answering h \<and> mh_ddl h = ddl" and "sd_table s = None"
    and "VerifyMigrationState h (Some ()) (Inr (take n all)) (migrations_run all runs s) = Inr ()"
  shows "applied ddl (take n all) (sd_schema s) = Inr (sd_schema (migrations_run all runs s)) \<and>
    list_all2 records (take n all) (version_rows (migrations_run all runs s)) \<and>
    filter sm_dirty (version_rows (migrations_run all runs s)) = []"
proof -
  have num: "numbered all" using EmbeddedMigrations_numbered [OF assms(1)] by simp
  note tracked = migrations_run_tracked [OF num assms(3) untouched_tracked [OF assms(4)]]
  from VerifyMigrationState_tracked [OF num tracked assms(5)] assms(2)
  show ?thesis by (simp add: clean_at_def min_absorb1 filter_empty_conv)
qed

lemma VerifyMigrationState_sound_witness:
  "applied demo_ddl (take 2 demo_migrations) (sd_schema demo_blank) =
     Inr (sd_schema (migrations_run demo_migrations [(demo_runner Committed, 2)] demo_blank))"
proof -
  have "VerifyMigrationState (demo_runner Committed) (Some ()) (Inr (take 2 demo_migrations))
      (migrations_run demo_migrations [(demo_runner Committed, 2)] demo_blank) = Inr ()"
    using demo_verified by (simp add: demo_migrations_def)
  from VerifyMigrationState_sound [OF demo_embedded _ _ _ this]
  show ?thesis by (simp add: demo_runner_laws demo_migrations_def demo_blank_def)
qed

end
