(* ===== verification/Spec2Isabelle.thy ===== *)
theory Spec2Isabelle
  imports AnswersSpec SyncSpec CoreSpec CoreRetention ListingsSpec MigrationsSpec
begin

text \<open>
  \<^bold>\<open>The program.\<close> Amsonia is an authorization kernel for multi-tenant applications, written in Go (package
  \<open>amsonia\<close> under \<open>src/\<close>), with two storage adapters (\<open>src/memory\<close>, \<open>src/postgres\<close>), a standalone
  application over the PostgreSQL adapter (\<open>src/internal/coreapp\<close>) and a tool that synchronizes files from a
  checkout into another one and proves where they come from (\<open>src/internal/coresync\<close>).

  An \<open>Authorizer\<close> answers whether a subject may do something. It reads the subject's effective grants
  through the interface \<open>PolicyReader\<close>. A \<open>Manager\<close> changes the policy of a tenant: each of its mutations
  is a closure over the interface \<open>TenantTx\<close> that a \<open>TenantStore\<close> runs in one transaction, together with the
  audit records of the mutation. A \<open>Bootstrapper\<close> provisions an empty tenant once, and \<open>Maintenance\<close> exports
  or purges one. Both adapters implement these interfaces. The application keeps accounts, sessions,
  organizations, memberships, invitations and password recoveries in its own tables beside the policy, and
  wraps the store so that the kernel's mutations run inside its guards on membership.

  \<^bold>\<open>How it is modelled.\<close> Go structs are records, enumerations datatypes or strings as in the source, Go strings
  are lists of bytes, \<open>int64\<close> counters are 64-bit words, Go's maps are association lists
  read and written through the interface \<open>go_map\<close>, errors are the values of the datatype \<open>error\<close> in a sum, a
  nil pointer that the code does not check is \<open>GoPanic\<close>. Stateful code takes the state and returns it
  updated. SQL statements are operations on tables (\<open>SqlTables\<close>), a table being the list of its rows. What is
  not in the repository is an argument: argon2, SHA-256, HMAC, \<open>mail.ParseAddress\<close>, the JSON encoder, the
  random source, the clock, the driver's failures, the file system's failures and the statements of
  a migration. Theorems that need something of them name it as a hypothesis and have a witness.

  \<^bold>\<open>The theories.\<close>
  \<^item> Shared: \<open>Prelude\<close> (errors, sequencing of fallible calls, maps, sorting, the interfaces \<open>go_map\<close> and
    \<open>go_ordering\<close>), \<open>GoStrings\<close>, \<open>GoCodec\<close>, \<open>GoPath\<close>, \<open>GoFs\<close> (what the program uses of \<open>strings\<close>,
    \<open>unicode/utf8\<close>, \<open>strconv\<close>, \<open>encoding/hex\<close>, \<open>encoding/base64\<close>, \<open>path\<close> and \<open>os.Root\<close>), \<open>SqlTables\<close>.
  \<^item> Kernel: \<open>Types\<close> (\<open>types.go\<close>), \<open>Catalog\<close> (\<open>catalog.go\<close>), \<open>Policy\<close> (\<open>policy.go\<close>), \<open>Authorizer\<close>
    (\<open>authorizer.go\<close>), \<open>TenantTx\<close> (\<open>store.go\<close>), \<open>AdminPolicy\<close> (\<open>internal/adminpolicy/coverage.go\<close>),
    \<open>Manager\<close> (\<open>manager.go\<close>), \<open>Bootstrap\<close> (\<open>bootstrap.go\<close>), \<open>Maintenance\<close> (\<open>maintenance.go\<close> and
    \<open>internal/tenantexport/snapshot.go\<close>).
  \<^item> Memory adapter (\<open>memory/memory.go\<close>): \<open>TenantState\<close> (\<open>tenantState\<close>, \<open>tenantReader\<close>, \<open>tenantTx\<close>),
    \<open>MemoryStore\<close> (\<open>Store\<close>, its copy-on-write transactions).
  \<^item> PostgreSQL adapter: \<open>PgTx\<close> (\<open>postgres/tx.go\<close>), \<open>PgStore\<close> (\<open>postgres/store.go\<close> and the check of the signed
    binding in the migrations), \<open>Migrations\<close> (\<open>postgres/migrate.go\<close>).
  \<^item> Application: \<open>Password\<close> (\<open>internal/security/password.go\<close>), \<open>CoreData\<close> (tables, helpers), \<open>CoreSessions\<close>
    (\<open>service.go\<close>, \<open>accounts.go\<close>), \<open>CoreAccounts\<close> (\<open>accounts.go\<close>, \<open>recovery.go\<close>, \<open>session_retention.go\<close>),
    \<open>CoreTenants\<close> (\<open>application.go\<close>, \<open>organization.go\<close>, \<open>tenant_admin.go\<close>), \<open>CoreMembers\<close> (\<open>tenant_admin.go\<close>,
    \<open>service.go\<close>), \<open>CoreRecovery\<close> (\<open>member_recovery.go\<close>, \<open>policy_store.go\<close>), \<open>CoreListings\<close> (\<open>directories.go\<close>,
    \<open>member_details.go\<close>, \<open>role_audit.go\<close> and the listings of \<open>service.go\<close> and \<open>accounts.go\<close>).
  \<^item> Synchronization (\<open>internal/coresync/sync.go\<close>): \<open>SyncManifest\<close>, \<open>SyncJson\<close>, \<open>SyncRead\<close>, \<open>SyncPublish\<close>,
    \<open>CoreSync\<close>.

  \<^bold>\<open>What the lemmas show of the kernel.\<close> \<open>PolicySpec\<close> holds the abstract specification: \<open>policy\<close> is one
  tenant's roles, grants, edges and history as maps and sets, \<open>policy_step\<close> says which changes a mutation may
  make and under which authority, \<open>policy_ok\<close> is its invariant. The contracts of the adapters are the
  locales \<open>tenant_reader_laws\<close>, \<open>tenant_tx_laws\<close> and \<open>tenant_tx_total\<close> of \<open>TenantTx\<close>; the memory adapter
  (\<open>TenantState\<close>, \<open>MemoryStore\<close>) and the PostgreSQL adapter (\<open>PgLaws\<close>) interpret them. \<open>ManagerLaws\<close> proves
  once, inside the locale, that every mutation refines \<open>policy_step\<close>; \<open>Verdicts\<close> and \<open>Answers\<close> say exactly
  when a mutation succeeds and which error it gives otherwise. \<open>Kernel\<close> and \<open>PgKernel\<close> are the state machines of
  all calls over the two adapters (\<open>kernel_step\<close>, \<open>pg_step\<close>), \<open>KernelSpec\<close>, \<open>AnswersSpec\<close> and \<open>PgSpec\<close> the
  properties of their runs: the invariant, acyclic delegation, the audit history, isolation of tenants, tombstones
  of purged tenants, no escalation, and an administrator that never disappears. \<open>AuthorizerSpec\<close> gives a
  declarative specification of an access decision (some grant allows it, or the most informative
  reason why none does) and proves that \<open>Check\<close> computes it.

  \<^bold>\<open>Of the application.\<close> \<open>CoreRules\<close> is its abstract specification: \<open>change\<close> has one rule per kind of statement
  that touches the identity tables, under the conditions of the code, and keeps the invariant
  \<open>core_inv\<close>, the uselessness of \<open>spent\<close> credentials and the administration of organizations. \<open>CoreSteps\<close>,
  \<open>CoreTransactions\<close>, \<open>CoreMembersTx\<close> and \<open>CoreCalls\<close> show that every transaction is a sequence of such changes,
  whether it commits, rolls back or loses the answer of its commit. \<open>CoreSpec\<close> is the state machine over all
  transactions. \<open>CoreTokens\<close>, \<open>CoreFlows\<close>, \<open>CoreMembership\<close> and \<open>CoreRetention\<close> say what a call that succeeds has
  done, with other requests running between its transactions (\<open>rq_others\<close> of a request).
  \<open>MigrationsSpec\<close> shows that the version table tells the truth about the schema. \<open>ListingsSpec\<close> shows that a
  client that follows the cursors of a listing gets every matching row once and in order, on at most one page more
  than there are rows.

  \<^bold>\<open>Of the synchronization.\<close> The model runs over a file system whose operations may fail at any tick
  (\<open>GoFs\<close>). \<open>SyncSteps\<close> and \<open>SyncOverlay\<close> hold the reasoning about failing steps and about entries over
  a base; \<open>SyncStaging\<close>, \<open>SyncItems\<close>, \<open>SyncParents\<close>, \<open>SyncAtomic\<close>, \<open>SyncTransaction\<close> and \<open>SyncOutcome\<close> follow one publication,
  its rollback and its cleanup; \<open>SyncDisk\<close>, \<open>SyncSound\<close> and \<open>SyncRoundTrip\<close> reading and verification;
  \<open>SyncSpec\<close> states the properties, as frames of the whole disk: \<open>changed_only\<close> bounds the entries that may be changed,
  gone or new after a run that published (\<open>only_paths_changed\<close> after a successful one: destinations and the directories on
  the way to them), and \<open>unharmed\<close> with \<open>none_published\<close> says what a run that was rolled back may leave
  (directories on the way to destinations, and stage and backup files whose removal failed; never a published file). \<open>Demo\<close>, \<open>CoreDemo\<close> and \<open>SyncRun\<close> hold the concrete inputs of the witnesses.

  \<^bold>\<open>Bounds and termination.\<close> No definition uses fuel: loops recur on their data or have a measure. The search
  for a delegation path (\<open>path_search\<close>) ends because every round visits a new subject, the recursive query
  (\<open>recursive_path\<close>) because its set of pairs grows. The one loop that may not return, the walk to the
  ancestors of a path in \<open>ancestor_scan\<close>, is a \<open>partial_function\<close> in the option type, and that it returns
  on validated paths is proved. Versions are 64-bit and their overflow is the code's.

  \<^bold>\<open>Concurrency.\<close> A transaction is one step on the tables: the memory store holds a lock, and PostgreSQL's
  transactions are serializable and take a lock per tenant. What a transaction may meet (a failing statement, a
  failing commit, a commit that takes effect without an answer) is a parameter of the step. Calls made of
  several transactions interleave with others between them. The slots that bound concurrent sign-ins, timeouts
  and cancelled contexts are not modelled; a cancelled context is a failing statement.

  \<^bold>\<open>Not modelled.\<close> The HTTP interface (routing, cookies, JSON bodies, status codes), the listing
  and the CSV export of audit events, which only read; the binaries under \<open>src/cmd\<close>, which parse flags and wire
  the parts together; the examples. Log output is left out everywhere.
\<close>

end
